(* ===== verification/JS_Prelude.thy ===== *)
theory JS_Prelude
  imports Main "HOL-Library.Sublist" "HOL-Library.Multiset"
begin

text \<open>
  The part of JavaScript the repository's tools use, shared by every other theory.

  A JavaScript string is a list of UTF-16 code units (\<open>jstr\<close>, integers 0 to 0xFFFF), as the
  language defines it: \<open>s.length\<close> is \<open>length s\<close>, \<open>s.slice(a, b)\<close> is \<open>slice s a b\<close>, an index
  out of range is \<open>None\<close>, and iterating a string (\<open>for (const c of s)\<close>, \<open>Array.from(s)\<close>)
  gives its code points, each again a string of one or two units (\<open>cps\<close>). A lone surrogate is a
  code point of its own.

  A \<open>throw\<close> is \<open>Inl\<close> of an error, threaded by \<open>bindE\<close>. A JavaScript \<open>Map\<close> or \<open>Set\<close> is an
  association list or list in insertion order (\<open>om_set\<close>, \<open>ls_add\<close>). \<open>Array.prototype.sort\<close> is
  a stable sort (\<open>sort_by\<close>).
\<close>

named_theorems js_defs "definitions of the string primitives, unfolded when a closed term is evaluated"

section \<open>Errors\<close>

definition bindE :: "'e + 'a \<Rightarrow> ('a \<Rightarrow> 'e + 'b) \<Rightarrow> 'e + 'b" where
  "bindE m f = (case m of Inl e \<Rightarrow> Inl e | Inr x \<Rightarrow> f x)"

lemma bindE_simps [simp]:
  "bindE (Inl e) f = Inl e"
  "bindE (Inr x) f = f x"
  by (simp_all add: bindE_def)

lemma bindE_cong [fundef_cong]:
  "m = m' \<Longrightarrow> (\<And>x. m' = Inr x \<Longrightarrow> f x = f' x) \<Longrightarrow> bindE m f = bindE m' f'"
  by (simp add: bindE_def split: sum.splits)

lemma bindE_Inr_iff [simp]: "bindE m f = Inr y \<longleftrightarrow> (\<exists>x. m = Inr x \<and> f x = Inr y)"
  by (simp add: bindE_def split: sum.splits)

lemma bindE_Inl_iff: "bindE m f = Inl e \<longleftrightarrow> m = Inl e \<or> (\<exists>x. m = Inr x \<and> f x = Inl e)"
  by (auto simp: bindE_def split: sum.splits)

text \<open>\<open>if (!ok) { throw e; }\<close>\<close>

definition assertE :: "bool \<Rightarrow> 'e \<Rightarrow> 'e + unit" where
  "assertE ok e = (if ok then Inr () else Inl e)"

lemma assertE_simps [simp]:
  "assertE True e = Inr ()"
  "assertE False e = Inl e"
  "assertE b e = Inr u \<longleftrightarrow> b"
  "assertE b e = Inl e' \<longleftrightarrow> \<not> b \<and> e' = e"
  by (auto simp: assertE_def)

text \<open>\<open>xs.map(f)\<close> and \<open>for (const x of xs) f(x)\<close> where \<open>f\<close> may throw.\<close>

fun mapE :: "('a \<Rightarrow> 'e + 'b) \<Rightarrow> 'a list \<Rightarrow> 'e + 'b list" where
  "mapE f [] = Inr []"
| "mapE f (x # xs) = bindE (f x) (\<lambda>y. bindE (mapE f xs) (\<lambda>ys. Inr (y # ys)))"

fun foldE :: "('s \<Rightarrow> 'a \<Rightarrow> 'e + 's) \<Rightarrow> 's \<Rightarrow> 'a list \<Rightarrow> 'e + 's" where
  "foldE f s [] = Inr s"
| "foldE f s (x # xs) = bindE (f s x) (\<lambda>s'. foldE f s' xs)"

lemma mapE_cong [fundef_cong]:
  "xs = ys \<Longrightarrow> (\<And>x. x \<in> set ys \<Longrightarrow> f x = g x) \<Longrightarrow> mapE f xs = mapE g ys"
proof (induction ys arbitrary: xs)
  case Nil
  then show ?case by simp
next
  case (Cons y ys)
  then show ?case by (auto intro!: bindE_cong)
qed

lemma mapE_Inr: "mapE f xs = Inr ys \<Longrightarrow> list_all2 (\<lambda>x y. f x = Inr y) xs ys"
  by (induction xs arbitrary: ys) auto

lemma mapE_length: "mapE f xs = Inr ys \<Longrightarrow> length ys = length xs"
  by (drule mapE_Inr) (simp add: list_all2_lengthD)

lemma mapE_set: "mapE f xs = Inr ys \<Longrightarrow> y \<in> set ys \<Longrightarrow> \<exists>x\<in>set xs. f x = Inr y"
  by (induction xs arbitrary: ys) auto

lemma mapE_Inr_all: "mapE f xs = Inr ys \<Longrightarrow> x \<in> set xs \<Longrightarrow> \<exists>y\<in>set ys. f x = Inr y"
  by (induction xs arbitrary: ys) auto

lemma mapE_total: "(\<And>x. x \<in> set xs \<Longrightarrow> f x = Inr (g x)) \<Longrightarrow> mapE f xs = Inr (map g xs)"
  by (induction xs) auto

lemma mapE_map: "mapE f (map g xs) = mapE (\<lambda>x. f (g x)) xs"
  by (induction xs) auto

lemma foldE_append: "foldE f s (xs @ ys) = bindE (foldE f s xs) (\<lambda>s'. foldE f s' ys)"
  by (induction xs arbitrary: s) (auto simp: bindE_def split: sum.splits)

lemma foldE_invariant:
  assumes "foldE f s xs = Inr s'" and "P s"
    and "\<And>s x s'. x \<in> set xs \<Longrightarrow> P s \<Longrightarrow> f s x = Inr s' \<Longrightarrow> P s'"
  shows "P s'"
  using assms by (induction xs arbitrary: s) auto

lemma foldE_each:
  assumes "foldE f s xs = Inr s'" and "x \<in> set xs"
  obtains s1 s2 where "f s1 x = Inr s2"
  using assms by (induction xs arbitrary: s) auto

section \<open>Code units and strings\<close>

type_synonym jstr = "int list"

definition js :: "string \<Rightarrow> jstr" where
  "js = map of_char"

lemma js_simps [simp]:
  "js [] = []"
  "js (c # cs) = of_char c # js cs"
  "js (xs @ ys) = js xs @ js ys"
  "length (js xs) = length xs"
  by (simp_all add: js_def)

definition MAX_UNIT :: int where
  "MAX_UNIT = 65535"

definition is_high :: "int \<Rightarrow> bool" where
  "is_high u \<longleftrightarrow> 55296 \<le> u \<and> u \<le> 56319"

definition is_low :: "int \<Rightarrow> bool" where
  "is_low u \<longleftrightarrow> 56320 \<le> u \<and> u \<le> 57343"

definition wf_js :: "jstr \<Rightarrow> bool" where
  "wf_js s \<longleftrightarrow> (\<forall>u\<in>set s. 0 \<le> u \<and> u \<le> 65535)"

lemma wf_js_simps [simp]:
  "wf_js []"
  "wf_js (u # s) \<longleftrightarrow> 0 \<le> u \<and> u \<le> 65535 \<and> wf_js s"
  "wf_js (s @ t) \<longleftrightarrow> wf_js s \<and> wf_js t"
  by (auto simp: wf_js_def)

declare is_high_def [js_defs] is_low_def [js_defs] MAX_UNIT_def [js_defs]

text \<open>\<open>s[i]\<close>, \<open>s.charCodeAt(i)\<close>: \<open>undefined\<close> (\<open>NaN\<close>) out of range.\<close>

definition unit_at :: "jstr \<Rightarrow> nat \<Rightarrow> int option" where
  "unit_at s i = (if i < length s then Some (s ! i) else None)"

definition slice :: "jstr \<Rightarrow> nat \<Rightarrow> nat \<Rightarrow> jstr" where
  "slice s a b = take (b - a) (drop a s)"

definition starts_with :: "jstr \<Rightarrow> jstr \<Rightarrow> bool" where
  "starts_with s p \<longleftrightarrow> take (length p) s = p"

definition ends_with :: "jstr \<Rightarrow> jstr \<Rightarrow> bool" where
  "ends_with s p \<longleftrightarrow> length p \<le> length s \<and> drop (length s - length p) s = p"

lemma starts_with_iff: "starts_with s p \<longleftrightarrow> (\<exists>r. s = p @ r)"
  by (metis append_eq_conv_conj append_take_drop_id starts_with_def)

lemma ends_with_iff: "ends_with s p \<longleftrightarrow> (\<exists>r. s = r @ p)"
proof
  assume "ends_with s p"
  then have "s = take (length s - length p) s @ p"
    by (metis append_take_drop_id ends_with_def)
  then show "\<exists>r. s = r @ p" by blast
next
  assume "\<exists>r. s = r @ p"
  then show "ends_with s p" by (auto simp: ends_with_def)
qed

lemma starts_with_Nil [simp]: "starts_with s []"
  by (simp add: starts_with_def)

lemma starts_with_append [simp]: "starts_with (p @ r) p"
  by (simp add: starts_with_def)

lemma ends_with_append [simp]: "ends_with (r @ p) p"
  by (simp add: ends_with_def)

lemma starts_with_drop: "starts_with s p \<Longrightarrow> p @ drop (length p) s = s"
  by (auto simp: starts_with_iff)

text \<open>\<open>s.codePointAt(0)\<close> with the number of units it takes, and \<open>s.codePointAt(i)\<close>.\<close>

definition pair_cp :: "int \<Rightarrow> int \<Rightarrow> int" where
  "pair_cp h l = (h - 55296) * 1024 + (l - 56320) + 65536"

fun cp_first :: "jstr \<Rightarrow> int option" where
  "cp_first [] = None"
| "cp_first [u] = Some u"
| "cp_first (u # v # s) = (if is_high u \<and> is_low v then Some (pair_cp u v) else Some u)"

definition cp_at :: "jstr \<Rightarrow> nat \<Rightarrow> int option" where
  "cp_at s i = cp_first (drop i s)"

text \<open>\<open>String.fromCodePoint(cp)\<close>\<close>

definition from_cp :: "int \<Rightarrow> jstr" where
  "from_cp cp = (if cp \<le> 65535 then [cp]
     else [55296 + (cp - 65536) div 1024, 56320 + (cp - 65536) mod 1024])"

declare pair_cp_def [js_defs] from_cp_def [js_defs] cp_at_def [js_defs] unit_at_def [js_defs]
  slice_def [js_defs] starts_with_def [js_defs] ends_with_def [js_defs]

text \<open>\<open>Array.from(s)\<close>: the code points of a string, each as a string.\<close>

fun cps :: "jstr \<Rightarrow> jstr list" where
  "cps [] = []"
| "cps [u] = [[u]]"
| "cps (u # v # s) = (if is_high u \<and> is_low v then [u, v] # cps s else [u] # cps (v # s))"

lemma concat_cps [simp]: "concat (cps s) = s"
  by (induction s rule: cps.induct) auto

lemma cps_eq_Nil [simp]: "cps s = [] \<longleftrightarrow> s = []"
  by (cases s rule: cps.cases) auto

lemma cps_nonempty: "c \<in> set (cps s) \<Longrightarrow> c \<noteq> []"
  by (induction s rule: cps.induct) (auto split: if_splits)

lemma cps_length_le: "c \<in> set (cps s) \<Longrightarrow> length c \<le> 2"
  by (induction s rule: cps.induct) (auto split: if_splits)

text \<open>The number of the first code point of a string that has one.\<close>

definition cp_of :: "jstr \<Rightarrow> int" where
  "cp_of c = (case cp_first c of None \<Rightarrow> 0 | Some cp \<Rightarrow> cp)"

definition cp_values :: "jstr \<Rightarrow> int list" where
  "cp_values s = map cp_of (cps s)"

declare cp_of_def [js_defs] cp_values_def [js_defs]

lemma div_mod_1024:
  fixes a b :: int
  assumes "0 \<le> b" and "b < 1024"
  shows "(a * 1024 + b) div 1024 = a" and "(a * 1024 + b) mod 1024 = b"
  using assms by simp_all

lemma from_cp_pair:
  assumes "is_high h" and "is_low l"
  shows "from_cp (cp_of [h, l]) = [h, l]"
proof -
  have h: "55296 \<le> h" "h \<le> 56319" and l: "56320 \<le> l" "l \<le> 57343"
    using assms by (simp_all add: is_high_def is_low_def)
  have cp: "cp_of [h, l] - 65536 = (h - 55296) * 1024 + (l - 56320)"
    using assms by (simp add: cp_of_def pair_cp_def)
  have "(cp_of [h, l] - 65536) div 1024 = h - 55296" "(cp_of [h, l] - 65536) mod 1024 = l - 56320"
    unfolding cp by (rule div_mod_1024; use l in linarith)+
  moreover have "\<not> cp_of [h, l] \<le> 65535"
    using cp h(1) l(1) by simp
  ultimately show ?thesis by (simp add: from_cp_def)
qed

lemma from_cp_cp_of:
  assumes "wf_js s" and "c \<in> set (cps s)"
  shows "from_cp (cp_of c) = c"
  using assms
proof (induction s rule: cps.induct)
  case 1
  then show ?case by simp
next
  case (2 u)
  then show ?case by (simp add: from_cp_def cp_of_def)
next
  case (3 u v s)
  have "is_high u \<Longrightarrow> is_low v \<Longrightarrow> from_cp (cp_of [u, v]) = [u, v]"
    by (rule from_cp_pair)
  moreover have "from_cp (cp_of [u]) = [u]"
    using "3.prems" by (simp add: from_cp_def cp_of_def)
  ultimately show ?case using 3 by (auto split: if_splits)
qed

text \<open>\<open>s.indexOf(p, from)\<close> and \<open>s.split(c)\<close> for a one-unit separator, \<open>xs.join(sep)\<close>.\<close>

fun index_of_from :: "jstr \<Rightarrow> jstr \<Rightarrow> nat \<Rightarrow> nat option" where
  "index_of_from [] p i = (if p = [] then Some i else None)"
| "index_of_from (u # s) p i = (if starts_with (u # s) p then Some i else index_of_from s p (Suc i))"

definition index_of :: "jstr \<Rightarrow> jstr \<Rightarrow> nat \<Rightarrow> nat option" where
  "index_of s p start = index_of_from (drop start s) p start"

fun split_on :: "int \<Rightarrow> jstr \<Rightarrow> jstr list" where
  "split_on c [] = [[]]"
| "split_on c (u # s) = (if u = c then [] # split_on c s
     else (case split_on c s of [] \<Rightarrow> [[u]] | p # ps \<Rightarrow> (u # p) # ps))"

fun join :: "jstr \<Rightarrow> jstr list \<Rightarrow> jstr" where
  "join sep [] = []"
| "join sep [x] = x"
| "join sep (x # y # xs) = x @ sep @ join sep (y # xs)"

lemma split_on_nonempty [simp]: "split_on c s \<noteq> []"
  by (induction s) (auto split: list.splits)

lemma split_on_no_sep: "c \<notin> set s \<Longrightarrow> split_on c s = [s]"
  by (induction s) auto

lemma split_on_append: "c \<notin> set s \<Longrightarrow> split_on c (s @ c # t) = s # split_on c t"
  by (induction s) auto

lemma join_Cons: "xs \<noteq> [] \<Longrightarrow> join sep (x # xs) = x @ sep @ join sep xs"
  by (cases xs) auto

lemma join_split_on [simp]: "join [c] (split_on c s) = s"
proof (induction s)
  case Nil
  then show ?case by simp
next
  case (Cons u s)
  obtain p ps where "split_on c s = p # ps"
    by (cases "split_on c s") auto
  then show ?case using Cons by (cases ps) (auto simp: join_Cons)
qed

lemma split_on_join:
  "xs \<noteq> [] \<Longrightarrow> (\<And>x. x \<in> set xs \<Longrightarrow> c \<notin> set x) \<Longrightarrow> split_on c (join [c] xs) = xs"
proof (induction xs)
  case Nil
  then show ?case by simp
next
  case (Cons x xs)
  show ?case
  proof (cases "xs = []")
    case True
    then show ?thesis using Cons.prems by (simp add: split_on_no_sep)
  next
    case False
    then show ?thesis using Cons by (simp add: join_Cons split_on_append)
  qed
qed

lemma split_on_pieces: "p \<in> set (split_on c s) \<Longrightarrow> c \<notin> set p"
  by (induction s arbitrary: p) (auto split: list.splits if_splits)

section \<open>Insertion-ordered maps\<close>

text \<open>A JavaScript \<open>Map\<close>: setting a key that is there keeps its place, a new key goes last.\<close>

fun om_set :: "'k \<Rightarrow> 'v \<Rightarrow> ('k \<times> 'v) list \<Rightarrow> ('k \<times> 'v) list" where
  "om_set k v [] = [(k, v)]"
| "om_set k v ((k', v') # m) = (if k' = k then (k, v) # m else (k', v') # om_set k v m)"

definition om_wf :: "('k \<times> 'v) list \<Rightarrow> bool" where
  "om_wf m \<longleftrightarrow> distinct (map fst m)"

definition om_keys :: "('k \<times> 'v) list \<Rightarrow> 'k list" where
  "om_keys m = map fst m"

lemma om_keys_simps [simp]:
  "om_keys [] = []"
  "om_keys (p # m) = fst p # om_keys m"
  "set (om_keys m) = dom (map_of m)"
  by (auto simp: om_keys_def dom_map_of_conv_image_fst)

lemma map_of_om_set [simp]: "map_of (om_set k v m) = (map_of m)(k \<mapsto> v)"
  by (induction m) auto

lemma om_keys_set: "om_keys (om_set k v m) = (if k \<in> dom (map_of m) then om_keys m else om_keys m @ [k])"
  unfolding om_keys_def dom_map_of_conv_image_fst
  by (induction k v m rule: om_set.induct) auto

lemma om_wf_set: "om_wf m \<Longrightarrow> om_wf (om_set k v m)"
  using om_keys_set [of k v m]
  by (auto simp: om_wf_def om_keys_def dom_map_of_conv_image_fst)

lemma om_wf_Nil [simp]: "om_wf []"
  by (simp add: om_wf_def)

text \<open>A JavaScript \<open>Set\<close>.\<close>

definition ls_add :: "'a \<Rightarrow> 'a list \<Rightarrow> 'a list" where
  "ls_add x xs = (if x \<in> set xs then xs else xs @ [x])"

definition ls_of :: "'a list \<Rightarrow> 'a list" where
  "ls_of xs = fold ls_add xs []"

lemma ls_add_set [simp]: "set (ls_add x xs) = insert x (set xs)"
  by (auto simp: ls_add_def)

lemma ls_add_distinct: "distinct xs \<Longrightarrow> distinct (ls_add x xs)"
  by (simp add: ls_add_def)

lemma fold_ls_add_set: "set (fold ls_add xs acc) = set xs \<union> set acc"
  by (induction xs arbitrary: acc) auto

lemma fold_ls_add_distinct: "distinct acc \<Longrightarrow> distinct (fold ls_add xs acc)"
  by (induction xs arbitrary: acc) (auto simp: ls_add_distinct)

lemma set_ls_of [simp]: "set (ls_of xs) = set xs"
  by (simp add: ls_of_def fold_ls_add_set)

lemma distinct_ls_of [simp]: "distinct (ls_of xs)"
  by (simp add: ls_of_def fold_ls_add_distinct)

text \<open>
  The contract of the insertion-ordered map as its clients use it: a counter that goes up with
  every key (\<open>m.set(k, (m.get(k) ?? 0) + 1)\<close>) counts occurrences.
\<close>

locale ordered_map =
  fixes mget :: "'m \<Rightarrow> 'k \<Rightarrow> 'v option"
    and mset_key :: "'k \<Rightarrow> 'v \<Rightarrow> 'm \<Rightarrow> 'm"
    and mkeys :: "'m \<Rightarrow> 'k list"
    and mempty :: 'm
  assumes get_empty: "mget mempty = (\<lambda>_. None)"
    and get_set: "mget (mset_key k v m) = (mget m)(k := Some v)"
    and keys_empty: "mkeys mempty = []"
    and keys_set: "mkeys (mset_key k v m) = (if mget m k = None then mkeys m @ [k] else mkeys m)"
begin

definition update_with :: "('v option \<Rightarrow> 'v) \<Rightarrow> 'k \<Rightarrow> 'm \<Rightarrow> 'm" where
  "update_with f k m = mset_key k (f (mget m k)) m"

lemma keys_of_fold_update:
  "set (mkeys m) = {k. mget m k \<noteq> None} \<Longrightarrow>
    set (mkeys (fold (update_with f) ks m)) = set (mkeys m) \<union> set ks"
proof (induction ks arbitrary: m)
  case Nil
  then show ?case by simp
next
  case (Cons k ks)
  have "set (mkeys (update_with f k m)) = {j. mget (update_with f k m) j \<noteq> None}"
    using Cons.prems by (auto simp: update_with_def keys_set get_set)
  from Cons.IH [OF this] show ?case
    using Cons.prems by (auto simp: update_with_def keys_set)
qed

lemma get_fold_update_notin:
  "k \<notin> set ks \<Longrightarrow> mget (fold (update_with f) ks m) k = mget m k"
  by (induction ks arbitrary: m) (auto simp: update_with_def get_set)

lemma keys_of_fold_distinct:
  "distinct (mkeys m) \<Longrightarrow> set (mkeys m) = {k. mget m k \<noteq> None} \<Longrightarrow>
    distinct (mkeys (fold (update_with f) ks m))"
proof (induction ks arbitrary: m)
  case Nil
  then show ?case by simp
next
  case (Cons k ks)
  have "set (mkeys (update_with f k m)) = {j. mget (update_with f k m) j \<noteq> None}"
    and "distinct (mkeys (update_with f k m))"
    using Cons.prems by (auto simp: update_with_def keys_set get_set)
  with Cons.IH show ?case by simp
qed

end

interpretation om: ordered_map map_of om_set om_keys "[]"
  by unfold_locales (auto simp: om_keys_set)

section \<open>Stable sorting\<close>

text \<open>
  \<open>xs.sort(cmp)\<close> with a comparison that is a lexicographic order of keys: stable insertion by
  the order \<open>le\<close> (\<open>le x y\<close> is \<open>cmp(x, y) <= 0\<close>).
\<close>

fun insert_by :: "('a \<Rightarrow> 'a \<Rightarrow> bool) \<Rightarrow> 'a \<Rightarrow> 'a list \<Rightarrow> 'a list" where
  "insert_by le x [] = [x]"
| "insert_by le x (y # ys) = (if le x y then x # y # ys else y # insert_by le x ys)"

fun sort_by :: "('a \<Rightarrow> 'a \<Rightarrow> bool) \<Rightarrow> 'a list \<Rightarrow> 'a list" where
  "sort_by le [] = []"
| "sort_by le (x # xs) = insert_by le x (sort_by le xs)"

lemma mset_insert_by [simp]: "mset (insert_by le x xs) = add_mset x (mset xs)"
  by (induction xs) auto

lemma mset_sort_by [simp]: "mset (sort_by le xs) = mset xs"
  by (induction xs) auto

lemma set_sort_by [simp]: "set (sort_by le xs) = set xs"
  by (rule mset_eq_setD) simp

lemma length_sort_by [simp]: "length (sort_by le xs) = length xs"
  by (rule mset_eq_length) simp

lemma distinct_sort_by [simp]: "distinct (sort_by le xs) = distinct xs"
  by (rule mset_eq_imp_distinct_iff) simp

lemma set_insert_by [simp]: "set (insert_by le x xs) = insert x (set xs)"
  by (induction xs) auto

lemma sorted_insert_by:
  assumes total: "\<And>x y. le x y \<or> le y x" and trans: "\<And>x y z. le x y \<Longrightarrow> le y z \<Longrightarrow> le x z"
  shows "sorted_wrt le xs \<Longrightarrow> sorted_wrt le (insert_by le x xs)"
proof (induction xs)
  case Nil
  then show ?case by simp
next
  case (Cons y ys)
  show ?case
  proof (cases "le x y")
    case True
    then have "\<forall>z\<in>set (y # ys). le x z"
      using Cons.prems trans by (metis set_ConsD sorted_wrt.simps(2))
    then show ?thesis using True Cons.prems by simp
  next
    case False
    then have "le y x" using total by blast
    with False Cons show ?thesis by simp
  qed
qed

lemma sorted_sort_by:
  assumes "\<And>x y. le x y \<or> le y x" and "\<And>x y z. le x y \<Longrightarrow> le y z \<Longrightarrow> le x z"
  shows "sorted_wrt le (sort_by le xs)"
  by (induction xs) (simp_all add: sorted_insert_by [OF assms])

text \<open>A relation the two orders agree on carries over to the sorted lists.\<close>

lemma list_all2_insert_by:
  assumes "list_all2 R xs ys" and "R x y"
    and "\<And>a b c d. R a b \<Longrightarrow> R c d \<Longrightarrow> le a c = le' b d"
  shows "list_all2 R (insert_by le x xs) (insert_by le' y ys)"
  using assms(1)
proof (induction rule: list_all2_induct)
  case Nil
  then show ?case using assms(2) by simp
next
  case (Cons a as b bs)
  then show ?case using assms(2) assms(3) [of x y a b] by simp
qed

lemma list_all2_sort_by:
  assumes "list_all2 R xs ys" and "\<And>a b c d. R a b \<Longrightarrow> R c d \<Longrightarrow> le a c = le' b d"
  shows "list_all2 R (sort_by le xs) (sort_by le' ys)"
  using assms(1) by (induction rule: list_all2_induct) (simp_all add: list_all2_insert_by [OF _ _ assms(2)])

lemma sorted_wrt_unique:
  assumes "\<And>a b. a \<in> set xs \<Longrightarrow> b \<in> set xs \<Longrightarrow> le a b \<Longrightarrow> le b a \<Longrightarrow> a = b"
    and "sorted_wrt le xs" and "sorted_wrt le ys" and "mset xs = mset ys"
  shows "xs = ys"
  using assms
proof (induction xs arbitrary: ys)
  case Nil
  then show ?case by simp
next
  case (Cons x xs)
  then obtain y ys' where ys: "ys = y # ys'" by (cases ys) auto
  have sets: "set ys = set (x # xs)" using Cons.prems(4) by (metis mset_eq_setD)
  have "x = y"
  proof (rule ccontr)
    assume ne: "x \<noteq> y"
    then have "le x y" "le y x"
      using Cons.prems(2,3) sets ys by auto
    moreover have "y \<in> set (x # xs)" using sets ys by auto
    ultimately show False using ne Cons.prems(1) [of x y] by auto
  qed
  then show ?case using Cons.IH [of ys'] Cons.prems ys by simp
qed

lemma sort_by_mset_cong:
  assumes "\<And>a b. a \<in> set xs \<Longrightarrow> b \<in> set xs \<Longrightarrow> le a b \<Longrightarrow> le b a \<Longrightarrow> a = b"
    and "\<And>x y. le x y \<or> le y x" and "\<And>x y z. le x y \<Longrightarrow> le y z \<Longrightarrow> le x z"
    and "mset xs = mset ys"
  shows "sort_by le xs = sort_by le ys"
proof (rule sorted_wrt_unique)
  show "sorted_wrt le (sort_by le xs)" "sorted_wrt le (sort_by le ys)"
    by (rule sorted_sort_by; use assms(2,3) in blast)+
qed (use assms(1,4) in auto)

text \<open>\<open>a < b\<close> and \<open>a <= b\<close> on strings: the lexicographic order of code units.\<close>

fun js_less :: "jstr \<Rightarrow> jstr \<Rightarrow> bool" where
  "js_less a [] = False"
| "js_less [] (v # b) = True"
| "js_less (u # a) (v # b) = (u < v \<or> (u = v \<and> js_less a b))"

definition js_le :: "jstr \<Rightarrow> jstr \<Rightarrow> bool" where
  "js_le a b \<longleftrightarrow> a = b \<or> js_less a b"

lemma js_less_irrefl [simp]: "\<not> js_less a a"
  by (induction a) auto

lemma js_less_trans: "js_less a b \<Longrightarrow> js_less b c \<Longrightarrow> js_less a c"
proof (induction a b arbitrary: c rule: js_less.induct)
  case (2 v b)
  then show ?case by (cases c) auto
next
  case (3 u a v b)
  then show ?case by (cases c) auto
qed simp

lemma js_less_linear: "js_less a b \<or> a = b \<or> js_less b a"
  by (induction a b rule: js_less.induct) (auto simp: neq_Nil_conv, metis js_less.simps(2) neq_Nil_conv)

lemma js_le_total: "js_le a b \<or> js_le b a"
  using js_less_linear by (auto simp: js_le_def)

lemma js_le_trans: "js_le a b \<Longrightarrow> js_le b c \<Longrightarrow> js_le a c"
  using js_less_trans by (auto simp: js_le_def)

lemma js_le_antisym: "js_le a b \<Longrightarrow> js_le b a \<Longrightarrow> a = b"
  using js_less_trans [of a b a] by (auto simp: js_le_def)

text \<open>\<open>xs.sort()\<close> on strings.\<close>

definition js_sort :: "jstr list \<Rightarrow> jstr list" where
  "js_sort = sort_by js_le"

lemma js_sort_sorted: "sorted_wrt js_le (js_sort xs)"
  unfolding js_sort_def by (rule sorted_sort_by [OF js_le_total js_le_trans])

section \<open>Lists with an index\<close>

definition enum :: "'a list \<Rightarrow> (nat \<times> 'a) list" where
  "enum xs = zip [0..<length xs] xs"

lemma enum_set: "(i, x) \<in> set (enum xs) \<longleftrightarrow> i < length xs \<and> xs ! i = x"
  by (force simp: enum_def set_zip)

lemma map_snd_enum [simp]: "map snd (enum xs) = xs"
  by (simp add: enum_def)

lemma length_enum [simp]: "length (enum xs) = length xs"
  by (simp add: enum_def)

end
