(* ===== verification/Json.thy ===== *)
theory Json
  imports JS_Prelude
begin

text \<open>
  JSON values and tools/lib/json.mjs.

  A value is what \<open>JSON.parse\<close> gives or a tool builds: \<open>JUndef\<close> is a property whose value is
  \<open>undefined\<close>. An object is the list of its entries in the order of \<open>Object.entries\<close>: array-index
  keys first, ascending, then the others in the order they were added; \<open>obj_put\<close> adds or replaces
  one. Numbers are integers, the only ones pack files hold. \<open>quote_js\<close> and \<open>json_parse\<close> are
  \<open>JSON.stringify\<close> on a string and \<open>JSON.parse\<close>; \<open>inlineJson\<close>, \<open>formatJson\<close>,
  \<open>formatTransforms\<close> and \<open>parseJson\<close> are the module's functions. The lemmas show that a
  formatted value parses back to itself.
\<close>

datatype json =
    JUndef
  | JNull
  | JBool bool
  | JNum int
  | JStr jstr
  | JArr "json list"
  | JObj "(jstr \<times> json) list"

section \<open>Objects\<close>

text \<open>Array-index keys: canonical decimals below \<open>2^32 - 1\<close>, which JavaScript orders first.\<close>

definition is_digit :: "int \<Rightarrow> bool" where
  "is_digit u \<longleftrightarrow> 48 \<le> u \<and> u \<le> 57"

definition dec_val :: "jstr \<Rightarrow> int" where
  "dec_val s = foldl (\<lambda>n u. 10 * n + (u - 48)) 0 s"

definition index_key :: "jstr \<Rightarrow> int option" where
  "index_key k =
     (if k \<noteq> [] \<and> list_all is_digit k \<and> (hd k \<noteq> 48 \<or> k = [48]) \<and> dec_val k < 4294967295
      then Some (dec_val k) else None)"

definition key_before :: "jstr \<Rightarrow> jstr \<Rightarrow> bool" where
  "key_before a b =
     (case (index_key a, index_key b) of
        (Some m, Some n) \<Rightarrow> m < n
      | (Some m, None) \<Rightarrow> True
      | (None, _) \<Rightarrow> False)"

fun obj_insert :: "jstr \<Rightarrow> 'v \<Rightarrow> (jstr \<times> 'v) list \<Rightarrow> (jstr \<times> 'v) list" where
  "obj_insert k v [] = [(k, v)]"
| "obj_insert k v ((k', v') # es) =
     (if key_before k k' then (k, v) # (k', v') # es else (k', v') # obj_insert k v es)"

definition obj_put :: "jstr \<Rightarrow> 'v \<Rightarrow> (jstr \<times> 'v) list \<Rightarrow> (jstr \<times> 'v) list" where
  "obj_put k v es = (if k \<in> fst ` set es then map (\<lambda>(k', v'). if k' = k then (k', v) else (k', v')) es
     else obj_insert k v es)"

definition obj_of :: "(jstr \<times> 'v) list \<Rightarrow> (jstr \<times> 'v) list" where
  "obj_of es = fold (\<lambda>(k, v). obj_put k v) es []"

text \<open>An object's entries in a possible enumeration order.\<close>

definition obj_ok :: "(jstr \<times> 'v) list \<Rightarrow> bool" where
  "obj_ok es \<longleftrightarrow> distinct (map fst es) \<and> sorted_wrt (\<lambda>a b. \<not> key_before b a) (map fst es)"

lemma map_of_obj_insert: "k \<notin> fst ` set es \<Longrightarrow> map_of (obj_insert k v es) = (map_of es)(k \<mapsto> v)"
  by (induction es) auto

lemma map_of_map_replace:
  "k \<in> fst ` set es \<Longrightarrow>
    map_of (map (\<lambda>(k', v'). if k' = k then (k', v) else (k', v')) es) = (map_of es)(k \<mapsto> v)"
proof (induction es)
  case Nil
  then show ?case by simp
next
  case (Cons e es)
  show ?case
  proof (cases "k \<in> fst ` set es")
    case True
    then show ?thesis using Cons by (cases e) auto
  next
    case False
    then have "map (\<lambda>(k', v'). if k' = k then (k', v) else (k', v')) es = es"
      by (induction es) auto
    then show ?thesis using False Cons.prems by (cases e) auto
  qed
qed

lemma map_of_obj_put [simp]: "map_of (obj_put k v es) = (map_of es)(k \<mapsto> v)"
  by (simp add: obj_put_def map_of_map_replace map_of_obj_insert)

lemma obj_insert_last: "\<forall>k'\<in>fst ` set es. \<not> key_before k k' \<Longrightarrow> obj_insert k v es = es @ [(k, v)]"
  by (induction es) auto

lemma obj_put_last:
  "k \<notin> fst ` set es \<Longrightarrow> \<forall>k'\<in>fst ` set es. \<not> key_before k k' \<Longrightarrow> obj_put k v es = es @ [(k, v)]"
  by (simp add: obj_put_def obj_insert_last)

lemma fold_obj_put:
  "obj_ok (acc @ es) \<Longrightarrow> fold (\<lambda>(k, v). obj_put k v) es acc = acc @ es"
proof (induction es arbitrary: acc)
  case Nil
  then show ?case by simp
next
  case (Cons e es)
  obtain k v where e: "e = (k, v)" by (cases e)
  have "obj_put k v acc = acc @ [(k, v)]"
    using Cons.prems by (intro obj_put_last) (auto simp: obj_ok_def e sorted_wrt_append)
  moreover have "obj_ok ((acc @ [(k, v)]) @ es)"
    using Cons.prems e by simp
  ultimately show ?case using Cons.IH e by simp
qed

lemma obj_of_id: "obj_ok es \<Longrightarrow> obj_of es = es"
  unfolding obj_of_def using fold_obj_put [of "[]" es] by simp

definition obj_get :: "json \<Rightarrow> jstr \<Rightarrow> json" where
  "obj_get v k = (case v of
       JObj es \<Rightarrow> (case map_of es k of None \<Rightarrow> JUndef | Some x \<Rightarrow> x)
     | _ \<Rightarrow> JUndef)"

definition has_own :: "json \<Rightarrow> jstr \<Rightarrow> bool" where
  "has_own v k = (case v of JObj es \<Rightarrow> k \<in> fst ` set es | _ \<Rightarrow> False)"

section \<open>JSON.stringify of a string and of a number\<close>

definition hex_digit :: "int \<Rightarrow> int" where
  "hex_digit d = (if d < 10 then 48 + d else 87 + d)"

definition hex4 :: "int \<Rightarrow> jstr" where
  "hex4 u = map hex_digit [u div 4096, u div 256 mod 16, u div 16 mod 16, u mod 16]"

definition quote_unit :: "int \<Rightarrow> jstr" where
  "quote_unit u =
     (if u = 8 then [92, 98] else if u = 9 then [92, 116] else if u = 10 then [92, 110]
      else if u = 12 then [92, 102] else if u = 13 then [92, 114]
      else if u = 34 then [92, 34] else if u = 92 then [92, 92]
      else if u < 32 \<or> is_high u \<or> is_low u then [92, 117] @ hex4 u
      else [u])"

fun quote_units :: "jstr \<Rightarrow> jstr" where
  "quote_units [] = []"
| "quote_units [u] = quote_unit u"
| "quote_units (u # v # s) =
     (if is_high u \<and> is_low v then [u, v] @ quote_units s else quote_unit u @ quote_units (v # s))"

definition quote_js :: "jstr \<Rightarrow> jstr" where
  "quote_js s = [34] @ quote_units s @ [34]"

fun dec_digits :: "nat \<Rightarrow> jstr" where
  "dec_digits n = (if n < 10 then [48 + int n] else dec_digits (n div 10) @ [48 + int (n mod 10)])"

declare dec_digits.simps [simp del]

definition num_js :: "int \<Rightarrow> jstr" where
  "num_js n = (if n < 0 then 45 # dec_digits (nat (- n)) else dec_digits (nat n))"

section \<open>inlineJson and formatJson\<close>

fun isScalar :: "json \<Rightarrow> bool" where
  "isScalar (JArr vs) = False"
| "isScalar (JObj es) = False"
| "isScalar _ = True"

text \<open>\<open>JSON.stringify\<close> of a scalar; \<open>undefined\<close> is written by the callers.\<close>

fun stringify_scalar :: "json \<Rightarrow> jstr" where
  "stringify_scalar JNull = js ''null''"
| "stringify_scalar (JBool b) = (if b then js ''true'' else js ''false'')"
| "stringify_scalar (JNum n) = num_js n"
| "stringify_scalar (JStr s) = quote_js s"
| "stringify_scalar _ = []"

text \<open>An \<open>undefined\<close> array element is the empty text (\<open>Array.prototype.join\<close>).\<close>

fun inlineJson :: "json \<Rightarrow> jstr"
  and inline_elems :: "json list \<Rightarrow> jstr list"
  and inline_entries :: "(jstr \<times> json) list \<Rightarrow> jstr list" where
  "inlineJson (JArr vs) = [91] @ join (js '', '') (inline_elems vs) @ [93]"
| "inlineJson (JObj es) = [123] @ join (js '', '') (inline_entries es) @ [125]"
| "inlineJson v = stringify_scalar v"
| "inline_elems [] = []"
| "inline_elems (v # vs) = inlineJson v # inline_elems vs"
| "inline_entries [] = []"
| "inline_entries ((k, v) # es) =
     (if v = JUndef then inline_entries es
      else (quote_js k @ js '': '' @ inlineJson v) # inline_entries es)"

datatype path_step = PKey jstr | PIdx nat

type_synonym path = "path_step list"

definition defined_entries :: "(jstr \<times> json) list \<Rightarrow> (jstr \<times> json) list" where
  "defined_entries es = filter (\<lambda>(k, v). v \<noteq> JUndef) es"

text \<open>
  \<open>formatJson\<close>'s \<open>write(v, path, indent)\<close> with the caller's \<open>inline(path, value)\<close>. An
  \<open>undefined\<close> element of an array that is not on one line is written as \<open>undefined\<close>.
\<close>

fun write_json :: "(path \<Rightarrow> json \<Rightarrow> bool) \<Rightarrow> path \<Rightarrow> jstr \<Rightarrow> json \<Rightarrow> jstr"
  and write_elems :: "(path \<Rightarrow> json \<Rightarrow> bool) \<Rightarrow> path \<Rightarrow> jstr \<Rightarrow> nat \<Rightarrow> json list \<Rightarrow> jstr list"
  and write_entries :: "(path \<Rightarrow> json \<Rightarrow> bool) \<Rightarrow> path \<Rightarrow> jstr \<Rightarrow> (jstr \<times> json) list \<Rightarrow> jstr list" where
  "write_json inl path indent JUndef = js ''undefined''"
| "write_json inl path indent (JArr vs) =
     (if vs = [] \<or> list_all isScalar vs \<or> inl path (JArr vs) then inlineJson (JArr vs)
      else [91, 10] @ join [44, 10] (write_elems inl path (indent @ js ''  '') 0 vs) @ [10] @ indent @ [93])"
| "write_json inl path indent (JObj es) =
     (if defined_entries es = [] \<or> inl path (JObj es) then inlineJson (JObj es)
      else [123, 10] @ join [44, 10] (write_entries inl path (indent @ js ''  '') es) @ [10] @ indent @ [125])"
| "write_json inl path indent v = stringify_scalar v"
| "write_elems inl path inner i [] = []"
| "write_elems inl path inner i (v # vs) =
     (inner @ write_json inl (path @ [PIdx i]) inner v) # write_elems inl path inner (Suc i) vs"
| "write_entries inl path inner [] = []"
| "write_entries inl path inner ((k, v) # es) =
     (if v = JUndef then write_entries inl path inner es
      else (inner @ quote_js k @ js '': '' @ write_json inl (path @ [PKey k]) inner v)
        # write_entries inl path inner es)"

definition formatJson :: "(path \<Rightarrow> json \<Rightarrow> bool) \<Rightarrow> json \<Rightarrow> jstr" where
  "formatJson inl v = write_json inl [] [] v @ [10]"

definition rules_inline :: "path \<Rightarrow> json \<Rightarrow> bool" where
  "rules_inline path v \<longleftrightarrow> 2 \<le> length path \<and> path ! (length path - 2) = PKey (js ''rules'')"

definition formatTransforms :: "json \<Rightarrow> jstr" where
  "formatTransforms v = formatJson rules_inline v"

section \<open>JSON.parse\<close>

definition is_ws :: "int \<Rightarrow> bool" where
  "is_ws u \<longleftrightarrow> u = 32 \<or> u = 10 \<or> u = 13 \<or> u = 9"

definition skip_ws :: "jstr \<Rightarrow> jstr" where
  "skip_ws s = dropWhile is_ws s"

definition is_hex :: "int \<Rightarrow> bool" where
  "is_hex u \<longleftrightarrow> is_digit u \<or> (65 \<le> u \<and> u \<le> 70) \<or> (97 \<le> u \<and> u \<le> 102)"

definition hex_of :: "int \<Rightarrow> int" where
  "hex_of u = (if is_digit u then u - 48 else if u \<le> 70 then u - 55 else u - 87)"

definition hex_val :: "jstr \<Rightarrow> int" where
  "hex_val s = foldl (\<lambda>n u. 16 * n + hex_of u) 0 s"

definition simple_escape :: "int \<Rightarrow> int option" where
  "simple_escape e =
     (if e = 34 \<or> e = 92 \<or> e = 47 then Some e else if e = 98 then Some 8 else if e = 102 then Some 12
      else if e = 110 then Some 10 else if e = 114 then Some 13 else if e = 116 then Some 9 else None)"

text \<open>The rest of a string literal after its opening quote: its value and what follows.\<close>

fun parse_chars :: "jstr \<Rightarrow> (jstr \<times> jstr) option" where
  "parse_chars [] = None"
| "parse_chars (u # s) =
     (if u = 34 then Some ([], s)
      else if u = 92 then
        (case s of
           [] \<Rightarrow> None
         | e # s1 \<Rightarrow>
             (if e = 117 then
                (case s1 of
                   a # b # c # d # s2 \<Rightarrow>
                     (if list_all is_hex [a, b, c, d]
                      then map_option (\<lambda>(t, r). (hex_val [a, b, c, d] # t, r)) (parse_chars s2) else None)
                 | _ \<Rightarrow> None)
              else (case simple_escape e of None \<Rightarrow> None
                    | Some x \<Rightarrow> map_option (\<lambda>(t, r). (x # t, r)) (parse_chars s1))))
      else if u < 32 then None
      else map_option (\<lambda>(t, r). (u # t, r)) (parse_chars s))"

declare parse_chars.simps [simp del]

definition parse_digits :: "jstr \<Rightarrow> (int \<times> jstr) option" where
  "parse_digits s =
     (let ds = takeWhile is_digit s; r = dropWhile is_digit s
      in if ds = [] \<or> (hd ds = 48 \<and> ds \<noteq> [48]) \<or> (r \<noteq> [] \<and> hd r \<in> {46, 69, 101}) then None
         else Some (dec_val ds, r))"

definition parse_number :: "jstr \<Rightarrow> (int \<times> jstr) option" where
  "parse_number s = (case s of
       [] \<Rightarrow> None
     | u # r \<Rightarrow> (if u = 45 then map_option (\<lambda>(n, r'). (- n, r')) (parse_digits r) else parse_digits s))"

definition parse_word :: "jstr \<Rightarrow> jstr \<Rightarrow> json \<Rightarrow> (json \<times> jstr) option" where
  "parse_word w s v = (if starts_with s w then Some (v, drop (length w) s) else None)"

text \<open>
  The recursive descent with fuel (one unit for each nested call); \<open>json_parse\<close> gives one unit
  for every unit of the text and one more.
\<close>

fun parse_value :: "nat \<Rightarrow> jstr \<Rightarrow> (json \<times> jstr) option"
  and parse_elems :: "nat \<Rightarrow> jstr \<Rightarrow> (json list \<times> jstr) option"
  and parse_entries :: "nat \<Rightarrow> jstr \<Rightarrow> ((jstr \<times> json) list \<times> jstr) option" where
  "parse_value 0 s = None"
| "parse_value (Suc f) s = (case s of
       [] \<Rightarrow> None
     | u # r \<Rightarrow>
         (if u = 34 then map_option (\<lambda>(t, r'). (JStr t, r')) (parse_chars r)
          else if u = 91 then
            (if starts_with (skip_ws r) [93] then Some (JArr [], drop 1 (skip_ws r))
             else map_option (\<lambda>(vs, r'). (JArr vs, r')) (parse_elems f r))
          else if u = 123 then
            (if starts_with (skip_ws r) [125] then Some (JObj [], drop 1 (skip_ws r))
             else map_option (\<lambda>(es, r'). (JObj (obj_of es), r')) (parse_entries f r))
          else if u = 110 then parse_word (js ''null'') s JNull
          else if u = 116 then parse_word (js ''true'') s (JBool True)
          else if u = 102 then parse_word (js ''false'') s (JBool False)
          else map_option (\<lambda>(n, r'). (JNum n, r')) (parse_number s)))"
| "parse_elems 0 s = None"
| "parse_elems (Suc f) s = (case parse_value f (skip_ws s) of
       None \<Rightarrow> None
     | Some (v, r) \<Rightarrow> (case skip_ws r of
           [] \<Rightarrow> None
         | c # r' \<Rightarrow>
             (if c = 44 then map_option (\<lambda>(vs, r''). (v # vs, r'')) (parse_elems f r')
              else if c = 93 then Some ([v], r') else None)))"
| "parse_entries 0 s = None"
| "parse_entries (Suc f) s = (case skip_ws s of
       [] \<Rightarrow> None
     | q # s1 \<Rightarrow> (if q \<noteq> 34 then None else (case parse_chars s1 of
           None \<Rightarrow> None
         | Some (k, s2) \<Rightarrow> (case skip_ws s2 of
               [] \<Rightarrow> None
             | col # s3 \<Rightarrow> (if col \<noteq> 58 then None else (case parse_value f (skip_ws s3) of
                   None \<Rightarrow> None
                 | Some (v, r) \<Rightarrow> (case skip_ws r of
                       [] \<Rightarrow> None
                     | c # r' \<Rightarrow>
                         (if c = 44 then map_option (\<lambda>(es, r''). ((k, v) # es, r'')) (parse_entries f r')
                          else if c = 125 then Some ([(k, v)], r') else None))))))))"

definition json_parse :: "jstr \<Rightarrow> json option" where
  "json_parse s = (case parse_value (Suc (length s)) (skip_ws s) of
       None \<Rightarrow> None
     | Some (v, r) \<Rightarrow> (if skip_ws r = [] then Some v else None))"

datatype json_error = HasBom | BadJson

text \<open>\<open>parseJson(text, file)\<close>: the errors it throws name \<open>file\<close>, which the caller knows.\<close>

definition parseJson :: "jstr \<Rightarrow> json_error + json" where
  "parseJson text =
     (if unit_at text 0 = Some 65279 then Inl HasBom
      else (case json_parse text of None \<Rightarrow> Inl BadJson | Some v \<Rightarrow> Inr v))"

section \<open>A formatted value parses back\<close>

text \<open>
  \<open>json_ok v\<close>: a value \<open>JSON.stringify\<close> can write: no \<open>undefined\<close> outside an object's entries,
  strings of code units, entries in an enumeration order. \<open>clean v\<close> is \<open>v\<close> without the entries
  that are \<open>undefined\<close>.
\<close>

fun json_ok :: "json \<Rightarrow> bool" where
  "json_ok JUndef = False"
| "json_ok (JStr s) = wf_js s"
| "json_ok (JArr vs) = list_all json_ok vs"
| "json_ok (JObj es) = (obj_ok es \<and> list_all (\<lambda>(k, v). wf_js k \<and> (v = JUndef \<or> json_ok v)) es)"
| "json_ok _ = True"

fun clean :: "json \<Rightarrow> json" where
  "clean (JArr vs) = JArr (map clean vs)"
| "clean (JObj es) = JObj (defined_entries (map (\<lambda>(k, v). (k, clean v)) es))"
| "clean v = v"

lemma clean_undef [simp]: "clean v = JUndef \<longleftrightarrow> v = JUndef"
  by (cases v) auto

lemma clean_JObj: "clean (JObj es) = JObj (map (\<lambda>(k, v). (k, clean v)) (defined_entries es))"
  by (induction es) (auto simp: defined_entries_def)

declare clean.simps(2) [simp del] clean_JObj [simp]

subsection \<open>String literals\<close>

lemma parse_chars_quote_end: "parse_chars (34 # s) = Some ([], s)"
  by (simp add: parse_chars.simps)

lemma parse_chars_plain:
  "u \<noteq> 34 \<Longrightarrow> u \<noteq> 92 \<Longrightarrow> 32 \<le> u \<Longrightarrow>
    parse_chars (u # s) = map_option (\<lambda>(t, r). (u # t, r)) (parse_chars s)"
  by (subst parse_chars.simps) simp

lemma parse_chars_escape:
  "e \<noteq> 117 \<Longrightarrow> simple_escape e = Some x \<Longrightarrow>
    parse_chars (92 # e # s) = map_option (\<lambda>(t, r). (x # t, r)) (parse_chars s)"
  by (subst parse_chars.simps) simp

lemma parse_chars_hex:
  "list_all is_hex [a, b, c, d] \<Longrightarrow>
    parse_chars (92 # 117 # a # b # c # d # s)
      = map_option (\<lambda>(t, r). (hex_val [a, b, c, d] # t, r)) (parse_chars s)"
  by (subst parse_chars.simps) simp

lemma hex_digit_ok: "0 \<le> d \<Longrightarrow> d < 16 \<Longrightarrow> is_hex (hex_digit d) \<and> hex_of (hex_digit d) = d"
  by (auto simp: hex_digit_def is_hex_def hex_of_def is_digit_def)

lemma hex4_ok:
  assumes "0 \<le> u" and "u \<le> 65535"
  shows "list_all is_hex (hex4 u)" and "hex_val (hex4 u) = u"
proof -
  have "u div 4096 < 16" using assms by simp
  then show "list_all is_hex (hex4 u)"
    using assms by (simp add: hex4_def hex_digit_ok)
  have "hex_val (hex4 u) = 16 * (16 * (16 * (u div 4096) + u div 256 mod 16) + u div 16 mod 16) + u mod 16"
    using assms \<open>u div 4096 < 16\<close> by (simp add: hex4_def hex_val_def hex_digit_ok)
  also have "16 * (u div 4096) + u div 256 mod 16 = u div 256"
    using mult_div_mod_eq [of 16 "u div 256"] zdiv_zmult2_eq [of 16 u 256] by simp
  also have "16 * (u div 256) + u div 16 mod 16 = u div 16"
    using mult_div_mod_eq [of 16 "u div 16"] zdiv_zmult2_eq [of 16 u 16] by simp
  also have "16 * (u div 16) + u mod 16 = u" by (rule mult_div_mod_eq)
  finally show "hex_val (hex4 u) = u" .
qed

lemma parse_chars_quote_unit:
  assumes "0 \<le> u" and "u \<le> 65535"
  shows "parse_chars (quote_unit u @ s) = map_option (\<lambda>(t, r). (u # t, r)) (parse_chars s)"
proof (cases "u = 8 \<or> u = 9 \<or> u = 10 \<or> u = 12 \<or> u = 13 \<or> u = 34 \<or> u = 92")
  case True
  then show ?thesis by (auto simp: quote_unit_def parse_chars_escape simple_escape_def)
next
  case False
  show ?thesis
  proof (cases "u < 32 \<or> is_high u \<or> is_low u")
    case True
    obtain a b c d where h: "hex4 u = [a, b, c, d]" by (simp add: hex4_def)
    have "list_all is_hex [a, b, c, d]" and "hex_val [a, b, c, d] = u"
      using hex4_ok [OF assms] h by auto
    then show ?thesis
      using False True h by (simp add: quote_unit_def parse_chars_hex)
  next
    case False': False
    with False show ?thesis by (simp add: quote_unit_def parse_chars_plain)
  qed
qed

lemma parse_chars_quote_units:
  "wf_js s \<Longrightarrow> parse_chars (quote_units s @ 34 # rest) = Some (s, rest)"
proof (induction s rule: quote_units.induct)
  case 1
  then show ?case by (simp add: parse_chars_quote_end)
next
  case (2 u)
  then show ?case by (simp add: parse_chars_quote_unit parse_chars_quote_end)
next
  case (3 u v s)
  show ?case
  proof (cases "is_high u \<and> is_low v")
    case True
    then have "u \<noteq> 34" "u \<noteq> 92" "32 \<le> u" "v \<noteq> 34" "v \<noteq> 92" "32 \<le> v"
      by (auto simp: is_high_def is_low_def)
    then show ?thesis using 3 True by (simp add: parse_chars_plain)
  next
    case False
    then show ?thesis using 3 by (auto simp: parse_chars_quote_unit)
  qed
qed

subsection \<open>Numbers\<close>

lemma dec_digits_nonempty [simp]: "dec_digits n \<noteq> []"
  by (subst dec_digits.simps) simp

lemma dec_digits_digits: "list_all is_digit (dec_digits n)"
proof (induction n rule: dec_digits.induct)
  case (1 n)
  have "is_digit (48 + int (n mod 10))" "n < 10 \<Longrightarrow> is_digit (48 + int n)"
    by (simp_all add: is_digit_def)
  with 1 show ?case by (subst dec_digits.simps) simp
qed

lemma dec_val_snoc: "dec_val (s @ [u]) = 10 * dec_val s + (u - 48)"
  by (simp add: dec_val_def)

lemma dec_val_dec_digits: "dec_val (dec_digits n) = int n"
proof (induction n rule: dec_digits.induct)
  case (1 n)
  show ?case
  proof (cases "n < 10")
    case True
    then show ?thesis by (subst dec_digits.simps) (simp add: dec_val_def)
  next
    case False
    then have "dec_val (dec_digits n) = 10 * int (n div 10) + int (n mod 10)"
      using 1 by (subst dec_digits.simps) (simp add: dec_val_snoc)
    also have "\<dots> = int n" by presburger
    finally show ?thesis .
  qed
qed

lemma dec_digits_head: "0 < n \<Longrightarrow> hd (dec_digits n) \<noteq> 48"
proof (induction n rule: dec_digits.induct)
  case (1 n)
  show ?case
  proof (cases "n < 10")
    case True
    then show ?thesis using 1 by (subst dec_digits.simps) simp
  next
    case False
    then have "dec_digits n = dec_digits (n div 10) @ [48 + int (n mod 10)]"
      by (subst dec_digits.simps) simp
    then show ?thesis using 1 False by simp
  qed
qed

lemma dec_digits_zero: "dec_digits 0 = [48]"
  by (simp add: dec_digits.simps)

text \<open>What may follow a value in the text: a line feed, a comma or a closing bracket.\<close>

definition stops :: "jstr \<Rightarrow> bool" where
  "stops r \<longleftrightarrow> r = [] \<or> hd r = 10 \<or> hd r = 44 \<or> hd r = 93 \<or> hd r = 125"

lemma parse_digits_dec:
  assumes "stops rest"
  shows "parse_digits (dec_digits n @ rest) = Some (int n, rest)"
proof -
  have r: "rest = [] \<or> \<not> is_digit (hd rest)" and r': "rest = [] \<or> hd rest \<notin> {46, 69, 101}"
    using assms by (auto simp: stops_def is_digit_def)
  have all: "\<forall>u\<in>set (dec_digits n). is_digit u"
    using dec_digits_digits [of n] by (simp add: list_all_iff)
  have "takeWhile is_digit (dec_digits n @ rest) = dec_digits n"
    and "dropWhile is_digit (dec_digits n @ rest) = rest"
    using all r by (cases rest; simp add: takeWhile_append2 dropWhile_append2)+
  moreover have "hd (dec_digits n) \<noteq> 48 \<or> dec_digits n = [48]"
    using dec_digits_head [of n] dec_digits_zero by (cases "n = 0") auto
  ultimately show ?thesis
    using r' unfolding parse_digits_def Let_def
    by (simp only: dec_val_dec_digits dec_digits_nonempty simp_thms if_False) auto
qed

lemma parse_number_num:
  assumes "stops rest"
  shows "parse_number (num_js n @ rest) = Some (n, rest)"
proof (cases "n < 0")
  case True
  then show ?thesis using assms by (simp add: parse_number_def num_js_def parse_digits_dec)
next
  case False
  obtain d ds where d: "dec_digits (nat n) = d # ds" by (cases "dec_digits (nat n)") auto
  then have "d \<noteq> 45" using dec_digits_digits [of "nat n"] by (auto simp: is_digit_def)
  then show ?thesis
    using False d parse_digits_dec [OF assms, of "nat n"] by (simp add: parse_number_def num_js_def)
qed

subsection \<open>Values\<close>

lemma skip_ws_append: "list_all is_ws w \<Longrightarrow> skip_ws (w @ s) = skip_ws s"
  by (induction w) (auto simp: skip_ws_def)

lemma skip_ws_id: "s = [] \<or> \<not> is_ws (hd s) \<Longrightarrow> skip_ws s = s"
  by (cases s) (auto simp: skip_ws_def)

lemma skip_ws_Cons [simp]: "\<not> is_ws u \<Longrightarrow> skip_ws (u # s) = u # s"
  by (simp add: skip_ws_def)

definition renders :: "jstr \<Rightarrow> json \<Rightarrow> bool" where
  "renders t v \<longleftrightarrow> t \<noteq> [] \<and> \<not> is_ws (hd t) \<and> hd t \<noteq> 93 \<and> hd t \<noteq> 125 \<and>
     (\<forall>f rest. length t \<le> f \<longrightarrow> stops rest \<longrightarrow> parse_value f (t @ rest) = Some (v, rest))"

definition renders_elem :: "jstr \<Rightarrow> json \<Rightarrow> bool" where
  "renders_elem x v \<longleftrightarrow> (\<exists>w t. x = w @ t \<and> list_all is_ws w \<and> renders t v)"

definition renders_entry :: "jstr \<Rightarrow> jstr \<times> json \<Rightarrow> bool" where
  "renders_entry x e \<longleftrightarrow> (\<exists>w w' t. x = w @ quote_js (fst e) @ [58] @ w' @ t \<and> list_all is_ws w \<and>
     list_all is_ws w' \<and> wf_js (fst e) \<and> renders t (snd e))"

lemma rendersI:
  assumes "t = u # t'" and "\<not> is_ws u" and "u \<noteq> 93" and "u \<noteq> 125"
    and "\<And>f rest. length t' \<le> f \<Longrightarrow> stops rest \<Longrightarrow> parse_value (Suc f) (t @ rest) = Some (v, rest)"
  shows "renders t v"
proof -
  have "parse_value f (t @ rest) = Some (v, rest)" if "length t \<le> f" and "stops rest" for f rest
  proof -
    from that(1) assms(1) obtain g where "f = Suc g" and "length t' \<le> g" by (cases f) auto
    with assms(5) that(2) show ?thesis by blast
  qed
  then show ?thesis using assms(1-4) by (simp add: renders_def)
qed

lemma renders_scalar:
  assumes "isScalar v" and "json_ok v"
  shows "renders (stringify_scalar v) (clean v)"
proof (cases v)
  case (JBool b)
  then show ?thesis
    by (cases b) (auto intro!: rendersI simp: is_ws_def parse_word_def starts_with_def)
next
  case (JNum n)
  have n0: "num_js n \<noteq> []" by (simp add: num_js_def)
  then obtain u t' where t: "num_js n = u # t'" by (cases "num_js n") auto
  have u: "u = 45 \<or> is_digit u"
  proof (cases "n < 0")
    case True
    then show ?thesis using t by (simp add: num_js_def)
  next
    case False
    then have "dec_digits (nat n) = u # t'" using t by (simp add: num_js_def)
    then show ?thesis using dec_digits_digits [of "nat n"] by simp
  qed
  show ?thesis
  proof (rule rendersI [where u = u and t' = t'])
    fix f rest
    assume "stops rest"
    then have "parse_number (num_js n @ rest) = Some (n, rest)" by (rule parse_number_num)
    then show "parse_value (Suc f) (stringify_scalar v @ rest) = Some (clean v, rest)"
      using JNum t u by (auto simp: is_digit_def)
  qed (use JNum t u in \<open>auto simp: is_digit_def is_ws_def\<close>)
next
  case (JStr s)
  then show ?thesis
    using assms by (auto intro!: rendersI simp: quote_js_def is_ws_def parse_chars_quote_units)
qed (use assms in \<open>auto intro!: rendersI simp: is_ws_def parse_word_def starts_with_def\<close>)

text \<open>What stands before the closing bracket: nothing, or a line feed and the indentation.\<close>

definition close_ws :: "jstr \<Rightarrow> bool" where
  "close_ws p \<longleftrightarrow> list_all is_ws p \<and> (p = [] \<or> hd p = 10)"

lemma close_ws_simps:
  assumes "close_ws p" and "c = 93 \<or> c = 125"
  shows "stops (p @ c # rest)" and "skip_ws (p @ c # rest) = c # rest"
proof -
  show "stops (p @ c # rest)"
    using assms by (cases p) (auto simp: close_ws_def stops_def)
  have "\<not> is_ws c" using assms(2) by (auto simp: is_ws_def)
  then show "skip_ws (p @ c # rest) = c # rest"
    using assms(1) by (simp add: close_ws_def skip_ws_append)
qed

lemma renders_value:
  assumes "renders t v" and "list_all is_ws w" and "length t \<le> f" and "stops r"
  shows "parse_value f (skip_ws (w @ t @ r)) = Some (v, r)"
proof -
  have "skip_ws (w @ t @ r) = t @ r"
    using assms(1,2) by (simp add: renders_def skip_ws_append skip_ws_id)
  then show ?thesis using assms by (simp add: renders_def)
qed

lemma renders_scalars:
  "renders (stringify_scalar JNull) JNull"
  "renders (stringify_scalar (JBool b)) (JBool b)"
  "renders (stringify_scalar (JNum n)) (JNum n)"
  "wf_js s \<Longrightarrow> renders (stringify_scalar (JStr s)) (JStr s)"
  using renders_scalar [of JNull] renders_scalar [of "JBool b"] renders_scalar [of "JNum n"]
    renders_scalar [of "JStr s"]
  by simp_all

lemma parse_elems_join:
  assumes "list_all2 renders_elem xs vs" and "xs \<noteq> []" and "close_ws p"
    and "length (join [44] xs) < f"
  shows "parse_elems f (join [44] xs @ p @ 93 # rest) = Some (vs, rest)"
  using assms
proof (induction xs arbitrary: vs f)
  case Nil
  then show ?case by simp
next
  case (Cons x xs)
  obtain v vs' where vs: "vs = v # vs'" and xv: "renders_elem x v" and all: "list_all2 renders_elem xs vs'"
    using Cons.prems(1) by (auto simp: list_all2_Cons1)
  obtain w t where x: "x = w @ t" and w: "list_all is_ws w" and t: "renders t v"
    using xv by (auto simp: renders_elem_def)
  obtain g where f: "f = Suc g" using Cons.prems(4) by (cases f) auto
  show ?case
  proof (cases "xs = []")
    case True
    then have len: "length t \<le> g" and "vs' = []"
      using Cons.prems(4) f x all by auto
    then show ?thesis
      using True f x vs renders_value [OF t w len, of "p @ 93 # rest"] close_ws_simps [OF Cons.prems(3)]
      by simp
  next
    case False
    then have j: "join [44] (x # xs) = x @ 44 # join [44] xs" by (simp add: join_Cons)
    have len: "length t \<le> g" "length (join [44] xs) < g"
      using Cons.prems(4) f x j by auto
    have "parse_value g (skip_ws (w @ t @ 44 # join [44] xs @ p @ 93 # rest))
        = Some (v, 44 # join [44] xs @ p @ 93 # rest)"
      by (rule renders_value [OF t w len(1)]) (simp add: stops_def)
    moreover have "parse_elems g (join [44] xs @ p @ 93 # rest) = Some (vs', rest)"
      by (rule Cons.IH) (use all False Cons.prems(3) len in auto)
    ultimately show ?thesis
      using f x j vs by (simp add: is_ws_def)
  qed
qed

lemma parse_entries_join:
  assumes "list_all2 renders_entry xs es" and "xs \<noteq> []" and "close_ws p"
    and "length (join [44] xs) < f"
  shows "parse_entries f (join [44] xs @ p @ 125 # rest) = Some (es, rest)"
  using assms
proof (induction xs arbitrary: es f)
  case Nil
  then show ?case by simp
next
  case (Cons x xs)
  obtain e es' where es: "es = e # es'" and xe: "renders_entry x e" and all: "list_all2 renders_entry xs es'"
    using Cons.prems(1) by (auto simp: list_all2_Cons1)
  obtain k v where e: "e = (k, v)" by (cases e)
  obtain w w' t where x: "x = w @ quote_js k @ [58] @ w' @ t" and w: "list_all is_ws w" and k: "wf_js k"
    and t: "renders t v" and w': "list_all is_ws w'"
    using xe e by (auto simp: renders_entry_def)
  obtain g where f: "f = Suc g" using Cons.prems(4) by (cases f) auto
  have key: "skip_ws (w @ quote_js k @ r) = 34 # quote_units k @ 34 # r" for r
    using w by (simp add: skip_ws_append quote_js_def is_ws_def)
  have ws: "skip_ws (58 # r) = 58 # r" "skip_ws (w' @ r) = skip_ws r" for r
    using w' by (simp_all add: is_ws_def skip_ws_append)
  show ?case
  proof (cases "xs = []")
    case True
    then have len: "length t \<le> g" and "es' = []"
      using Cons.prems(4) f x all by auto
    then show ?thesis
      using True f x es e k key renders_value [OF t _ len, of "[]" "p @ 125 # rest"] close_ws_simps [OF Cons.prems(3)]
      by (simp add: parse_chars_quote_units ws)
  next
    case False
    then have j: "join [44] (x # xs) = x @ 44 # join [44] xs" by (simp add: join_Cons)
    have len: "length t \<le> g" "length (join [44] xs) < g"
      using Cons.prems(4) f x j by auto
    have "parse_value g (skip_ws (t @ 44 # join [44] xs @ p @ 125 # rest))
        = Some (v, 44 # join [44] xs @ p @ 125 # rest)"
      using renders_value [OF t _ len(1), of "[]" "44 # join [44] xs @ p @ 125 # rest"] by (simp add: stops_def)
    moreover have "parse_entries g (join [44] xs @ p @ 125 # rest) = Some (es', rest)"
      by (rule Cons.IH) (use all False Cons.prems(3) len in auto)
    ultimately show ?thesis
      using f x j es e k key by (simp add: parse_chars_quote_units ws is_ws_def)
  qed
qed

lemma renders_elem_head:
  assumes "renders_elem x v"
  shows "\<exists>u r. skip_ws (x @ s) = u # r \<and> u \<noteq> 93"
proof -
  obtain w t where x: "x = w @ t" and w: "list_all is_ws w" and t: "renders t v"
    using assms by (auto simp: renders_elem_def)
  have "skip_ws (x @ s) = t @ s" using x w t by (simp add: skip_ws_append skip_ws_id renders_def)
  then show ?thesis using t by (cases t) (auto simp: renders_def)
qed

lemma renders_entry_head:
  assumes "renders_entry x e"
  shows "\<exists>r. skip_ws (x @ s) = 34 # r"
proof -
  obtain w w' t where x: "x = w @ quote_js (fst e) @ [58] @ w' @ t" and w: "list_all is_ws w"
    using assms by (auto simp: renders_entry_def)
  then show ?thesis by (simp add: skip_ws_append quote_js_def is_ws_def)
qed

lemma join_hd: "xs \<noteq> [] \<Longrightarrow> \<exists>r. join sep xs = hd xs @ r"
  by (cases xs; cases "tl xs") auto

lemma renders_array:
  assumes "list_all2 renders_elem xs vs" and "close_ws p"
  shows "renders ([91] @ join [44] xs @ p @ [93]) (JArr vs)"
proof (rule rendersI)
  fix f rest
  assume f: "length (join [44] xs @ p @ [93]) \<le> f" and "stops rest"
  show "parse_value (Suc f) (([91] @ join [44] xs @ p @ [93]) @ rest) = Some (JArr vs, rest)"
  proof (cases "xs = []")
    case True
    then show ?thesis
      using assms close_ws_simps(2) [OF assms(2), of 93 rest] by (simp add: starts_with_def)
  next
    case False
    then obtain x r v where x: "join [44] xs = x @ r" "renders_elem x v"
      using assms(1) join_hd [OF False, of "[44]"] by (cases xs; cases vs) auto
    from renders_elem_head [OF x(2), of "r @ p @ 93 # rest"]
    obtain u r' where "skip_ws (join [44] xs @ p @ 93 # rest) = u # r'" "u \<noteq> 93"
      by (auto simp: x(1))
    moreover have "parse_elems f (join [44] xs @ p @ 93 # rest) = Some (vs, rest)"
      by (rule parse_elems_join [OF assms(1) False assms(2)]) (use f in auto)
    ultimately show ?thesis by (simp add: starts_with_def)
  qed
qed (auto simp: is_ws_def)

lemma renders_object:
  assumes "list_all2 renders_entry xs es" and "close_ws p"
  shows "renders ([123] @ join [44] xs @ p @ [125]) (JObj (obj_of es))"
proof (rule rendersI)
  fix f rest
  assume f: "length (join [44] xs @ p @ [125]) \<le> f" and "stops rest"
  show "parse_value (Suc f) (([123] @ join [44] xs @ p @ [125]) @ rest) = Some (JObj (obj_of es), rest)"
  proof (cases "xs = []")
    case True
    then show ?thesis
      using assms close_ws_simps(2) [OF assms(2), of 125 rest] by (simp add: starts_with_def obj_of_def)
  next
    case False
    then obtain x r e where x: "join [44] xs = x @ r" "renders_entry x e"
      using assms(1) join_hd [OF False, of "[44]"] by (cases xs; cases es) auto
    from renders_entry_head [OF x(2), of "r @ p @ 125 # rest"]
    obtain r' where "skip_ws (join [44] xs @ p @ 125 # rest) = 34 # r'"
      by (auto simp: x(1))
    moreover have "parse_entries f (join [44] xs @ p @ 125 # rest) = Some (es, rest)"
      by (rule parse_entries_join [OF assms(1) False assms(2)]) (use f in auto)
    ultimately show ?thesis by (simp add: starts_with_def)
  qed
qed (auto simp: is_ws_def)

subsection \<open>inlineJson and formatJson\<close>

text \<open>A separator that starts with a comma: the rest of it belongs to the next element.\<close>

lemma join_prefix: "join sep ((w @ x) # xs) = w @ join sep (x # xs)"
  by (cases xs) auto

lemma join_comma: "xs \<noteq> [] \<Longrightarrow> join (44 # w) xs = join [44] (hd xs # map (\<lambda>x. w @ x) (tl xs))"
proof (induction xs)
  case Nil
  then show ?case by simp
next
  case (Cons x xs)
  then show ?case by (cases xs) (auto simp: join_Cons join_prefix)
qed

lemma join_comma_ws:
  assumes "list_all2 P xs vs" and "\<And>x v. P x v \<Longrightarrow> P (w @ x) v" and "xs \<noteq> []"
  obtains ys where "join (44 # w) xs = join [44] ys" and "list_all2 P ys vs"
proof
  show "join (44 # w) xs = join [44] (hd xs # map (\<lambda>x. w @ x) (tl xs))"
    by (rule join_comma [OF assms(3)])
  show "list_all2 P (hd xs # map (\<lambda>x. w @ x) (tl xs)) vs"
    using assms by (cases xs; cases vs) (auto simp: list_all2_map1 elim: list_all2_mono)
qed

lemma renders_elem_ws: "list_all is_ws w \<Longrightarrow> renders_elem x v \<Longrightarrow> renders_elem (w @ x) v"
  unfolding renders_elem_def by (metis append.assoc list_all_append)

lemma renders_entry_ws: "list_all is_ws w \<Longrightarrow> renders_entry x e \<Longrightarrow> renders_entry (w @ x) e"
  unfolding renders_entry_def by (metis append.assoc list_all_append)

lemma renders_elem_renders: "renders t v \<Longrightarrow> renders_elem t v"
  unfolding renders_elem_def by (rule exI [of _ "[]"]) simp

lemma close_ws_Nil [simp]: "close_ws []"
  by (simp add: close_ws_def)

lemma renders_array_sep:
  assumes "list_all2 renders_elem xs vs" and "list_all is_ws w" and "close_ws p"
  shows "renders ([91] @ join (44 # w) xs @ p @ [93]) (JArr vs)"
proof (cases "xs = []")
  case True
  then show ?thesis using renders_array [OF assms(1,3)] by simp
next
  case False
  from join_comma_ws [OF assms(1) renders_elem_ws [OF assms(2)] False]
  obtain ys where "join (44 # w) xs = join [44] ys" and "list_all2 renders_elem ys vs" .
  then show ?thesis using renders_array [OF _ assms(3)] by simp
qed

lemma renders_object_sep:
  assumes "list_all2 renders_entry xs es" and "list_all is_ws w" and "close_ws p" and "obj_ok es"
  shows "renders ([123] @ join (44 # w) xs @ p @ [125]) (JObj es)"
proof (cases "xs = []")
  case True
  then show ?thesis using renders_object [OF assms(1,3)] obj_of_id [OF assms(4)] by simp
next
  case False
  from join_comma_ws [OF assms(1) renders_entry_ws [OF assms(2)] False]
  obtain ys where "join (44 # w) xs = join [44] ys" and "list_all2 renders_entry ys es" .
  then show ?thesis using renders_object [of ys es, OF _ assms(3)] by (simp add: obj_of_id [OF assms(4)])
qed

lemma obj_ok_clean:
  assumes "obj_ok es"
  shows "obj_ok (map (\<lambda>(k, v). (k, clean v)) (defined_entries es))"
proof -
  have "map fst (map (\<lambda>(k, v). (k, clean v)) (defined_entries es)) = map fst (defined_entries es)"
    by (induction es) (auto simp: defined_entries_def)
  moreover have "distinct (map fst (defined_entries es))"
    using assms by (simp add: obj_ok_def defined_entries_def distinct_map_filter)
  moreover have "sorted_wrt (\<lambda>a b. \<not> key_before b a) (map fst (defined_entries es))"
    using assms by (simp add: obj_ok_def defined_entries_def sorted_wrt_map sorted_wrt_filter)
  ultimately show ?thesis by (simp only: obj_ok_def)
qed

lemma renders_entryI:
  "wf_js k \<Longrightarrow> renders t v \<Longrightarrow> list_all is_ws w \<Longrightarrow> renders_entry (w @ quote_js k @ js '': '' @ t) (k, v)"
  unfolding renders_entry_def by (rule exI [of _ w], rule exI [of _ "[32]"]) (simp add: is_ws_def)

lemma renders_inline:
  shows "json_ok v \<Longrightarrow> renders (inlineJson v) (clean v)"
    and "list_all json_ok vs \<Longrightarrow> list_all2 renders_elem (inline_elems vs) (map clean vs)"
    and "list_all (\<lambda>(k, v). wf_js k \<and> (v = JUndef \<or> json_ok v)) es \<Longrightarrow>
      list_all2 renders_entry (inline_entries es) (map (\<lambda>(k, v). (k, clean v)) (defined_entries es))"
proof (induction v and vs and es rule: inlineJson_inline_elems_inline_entries.induct)
  case (1 vs)
  then show ?case using renders_array_sep [of _ _ "[32]" "[]"] by (simp add: is_ws_def)
next
  case (2 es)
  then show ?case
    using renders_object_sep [of _ _ "[32]" "[]"] obj_ok_clean [of es] by (simp add: is_ws_def)
next
  case (7 k v es)
  then show ?case
    using renders_entryI [of k "inlineJson v" "clean v" "[]"] by (auto simp: defined_entries_def)
qed (use renders_scalars in \<open>auto intro: renders_elem_renders simp: defined_entries_def simp del: stringify_scalar.simps\<close>)

lemma list_all_ws_indent: "list_all is_ws w \<Longrightarrow> list_all is_ws (w @ js ''  '')"
  by (simp add: is_ws_def)

lemma renders_write:
  shows "json_ok v \<Longrightarrow> list_all is_ws indent \<Longrightarrow> renders (write_json inl path indent v) (clean v)"
    and "list_all json_ok vs \<Longrightarrow> list_all is_ws inner \<Longrightarrow>
      list_all2 renders_elem (write_elems inl path inner i vs) (map clean vs)"
    and "list_all (\<lambda>(k, v). wf_js k \<and> (v = JUndef \<or> json_ok v)) es \<Longrightarrow> list_all is_ws inner \<Longrightarrow>
      list_all2 renders_entry (write_entries inl path inner es) (map (\<lambda>(k, v). (k, clean v)) (defined_entries es))"
proof (induction inl path indent v and inl path inner i vs and inl path inner es
    rule: write_json_write_elems_write_entries.induct)
  case (2 inl path indent vs)
  show ?case
  proof (cases "vs = [] \<or> list_all isScalar vs \<or> inl path (JArr vs)")
    case True
    then show ?thesis using renders_inline(1) [OF 2(2)] by auto
  next
    case False
    let ?xs = "write_elems inl path (indent @ js ''  '') 0 vs"
    have ne: "?xs \<noteq> []" using False by (cases vs) auto
    have "list_all2 renders_elem ?xs (map clean vs)"
      using 2 False list_all_ws_indent by auto
    from join_comma_ws [OF this renders_elem_ws [of "[10]"] ne]
    obtain ys where "join [44, 10] ?xs = join [44] ys" and ys: "list_all2 renders_elem ys (map clean vs)"
      by (auto simp: is_ws_def)
    moreover have j: "join [44] ((10 # hd ys) # tl ys) = 10 # join [44] ys"
      using ys False by (cases ys; cases "tl ys") (auto simp: join_Cons)
    moreover have "list_all2 renders_elem ((10 # hd ys) # tl ys) (map clean vs)"
      using ys False renders_elem_ws [of "[10]"] by (cases ys; cases vs) (auto simp: is_ws_def)
    from renders_array [OF this, of "10 # indent"]
    have "renders ([91] @ join [44] ((10 # hd ys) # tl ys) @ (10 # indent) @ [93]) (JArr (map clean vs))"
      using 2(3) by (simp add: close_ws_def is_ws_def)
    ultimately show ?thesis using False j by simp
  qed
next
  case (3 inl path indent es)
  show ?case
  proof (cases "defined_entries es = [] \<or> inl path (JObj es)")
    case True
    then show ?thesis using renders_inline(1) [OF 3(2)] by auto
  next
    case False
    let ?xs = "write_entries inl path (indent @ js ''  '') es"
    let ?es = "map (\<lambda>(k, v). (k, clean v)) (defined_entries es)"
    have all: "list_all2 renders_entry ?xs ?es"
      using 3 False list_all_ws_indent by auto
    then have ne: "?xs \<noteq> []" using False by auto
    from join_comma_ws [OF all renders_entry_ws [of "[10]"] ne]
    obtain ys where "join [44, 10] ?xs = join [44] ys" and ys: "list_all2 renders_entry ys ?es"
      by (auto simp: is_ws_def)
    moreover have "ys \<noteq> []" using ys False by auto
    then have j: "join [44] ((10 # hd ys) # tl ys) = 10 # join [44] ys"
      by (cases ys; cases "tl ys") (auto simp: join_Cons)
    moreover have "list_all2 renders_entry ((10 # hd ys) # tl ys) ?es"
      using ys \<open>ys \<noteq> []\<close> renders_entry_ws [of "[10]"] by (cases ys; cases ?es) (auto simp: is_ws_def)
    from renders_object [OF this, of "10 # indent"]
    have "renders ([123] @ join [44] ((10 # hd ys) # tl ys) @ (10 # indent) @ [125]) (JObj ?es)"
      using 3(2,3) obj_of_id [OF obj_ok_clean [of es]] by (simp add: close_ws_def is_ws_def)
    ultimately show ?thesis using False j by simp
  qed
next
  case (6 inl path inner i v vs)
  then show ?case
    using renders_elem_ws [of inner, OF _ renders_elem_renders] by auto
next
  case (8 inl path inner k v es)
  then show ?case
    using renders_entryI [of k _ "clean v" inner] by (auto simp: defined_entries_def)
qed (use renders_scalars in \<open>auto simp: defined_entries_def simp del: stringify_scalar.simps\<close>)

lemma renders_parses:
  assumes "renders t v" and "stops rest" and "skip_ws rest = []"
  shows "json_parse (t @ rest) = Some v"
proof -
  have "skip_ws (t @ rest) = t @ rest"
    using assms(1) by (simp add: renders_def skip_ws_id)
  moreover have "parse_value f (t @ rest) = Some (v, rest)" if "length t \<le> f" for f
    using assms(1,2) that by (simp only: renders_def)
  ultimately show ?thesis using assms(3) by (simp add: json_parse_def del: parse_value.simps)
qed

lemma json_parse_inlineJson: "json_ok v \<Longrightarrow> json_parse (inlineJson v) = Some (clean v)"
  using renders_parses [OF renders_inline(1), of v "[]"] by (simp add: stops_def skip_ws_def)

lemma json_parse_formatJson: "json_ok v \<Longrightarrow> json_parse (formatJson inl v) = Some (clean v)"
  using renders_parses [OF renders_write(1), of v "[]" "[10]"]
  by (simp add: formatJson_def stops_def skip_ws_def is_ws_def)

lemma json_parse_bom: "json_parse (65279 # s) = None"
  by (simp add: json_parse_def skip_ws_def is_ws_def parse_number_def parse_digits_def is_digit_def Let_def)

section \<open>Properties\<close>

text \<open>C19: A JSON value that \<open>JSON.stringify\<close> can write, formatted by \<open>formatJson\<close> with any choice of
  one-line elements and read back by \<open>parseJson\<close>, is the same value without its \<open>undefined\<close>
  entries: formatting loses nothing and never writes a byte-order mark.\<close>

theorem parseJson_formatJson:
  assumes "json_ok v"
  shows "parseJson (formatJson inl v) = Inr (clean v)"
  using json_parse_formatJson [OF assms, of inl] json_parse_bom
  by (cases "formatJson inl v") (auto simp: parseJson_def unit_at_def)

theorem parseJson_formatJson_witness:
  "parseJson (formatJson rules_inline (JObj [(js ''rules'', JArr [JObj [(js ''a'', JNum 1)], JNull]), (js ''b'', JUndef)]))
    = Inr (JObj [(js ''rules'', JArr [JObj [(js ''a'', JNum 1)], JNull])])"
proof -
  have "json_ok (JObj [(js ''rules'', JArr [JObj [(js ''a'', JNum 1)], JNull]), (js ''b'', JUndef)])"
    by (simp add: obj_ok_def key_before_def index_key_def is_digit_def wf_js_def)
  from parseJson_formatJson [OF this] show ?thesis by (simp add: defined_entries_def)
qed

text \<open>A value written on one line by \<open>inlineJson\<close> parses back to itself.\<close>

theorem inlineJson_parses:
  assumes "json_ok v"
  shows "json_parse (inlineJson v) = Some (clean v)"
  by (rule json_parse_inlineJson [OF assms])

theorem inlineJson_parses_witness:
  "json_parse (inlineJson (JArr [JStr [34, 10, 55296], JNum (- 12), JBool True])) =
    Some (JArr [JStr [34, 10, 55296], JNum (- 12), JBool True])"
  using inlineJson_parses [of "JArr [JStr [34, 10, 55296], JNum (- 12), JBool True]"] by (simp add: wf_js_def)

end
