(* ===== verification/Js_Value.thy ===== *)
theory Js_Value
  imports Json
begin

text \<open>
  JavaScript values as the tools handle them: property reads that throw on \<open>null\<close> and \<open>undefined\<close>,
  \<open>??\<close>, spreads, \<open>Object.entries\<close>, \<open>String(v)\<close>, the default \<open>Array.prototype.sort\<close>, the \<open>in\<close>
  operator with the names every object inherits, and \<open>JSON.stringify(v)\<close>.

  The error \<open>te\<close> is the TypeError of the caller's error type.
\<close>

definition nullish :: "json \<Rightarrow> bool" where
  "nullish v \<longleftrightarrow> v = JNull \<or> v = JUndef"

lemma nullish_simps [simp]:
  "nullish JNull" "nullish JUndef" "\<not> nullish (JBool b)" "\<not> nullish (JNum n)" "\<not> nullish (JStr s)"
  "\<not> nullish (JArr vs)" "\<not> nullish (JObj es)"
  by (simp_all add: nullish_def)

text \<open>\<open>v ?? d\<close>\<close>

definition or_else :: "json \<Rightarrow> json \<Rightarrow> json" where
  "or_else v d = (if nullish v then d else v)"

text \<open>\<open>v.k\<close>; \<open>v?.k\<close> is \<open>obj_get\<close>.\<close>

definition get_prop :: "'e \<Rightarrow> json \<Rightarrow> jstr \<Rightarrow> 'e + json" where
  "get_prop te v k = (if nullish v then Inl te else Inr (obj_get v k))"

text \<open>\<open>for (const x of v)\<close>, \<open>[...v]\<close>\<close>

definition iter_values :: "'e \<Rightarrow> json \<Rightarrow> 'e + json list" where
  "iter_values te v = (case v of JArr vs \<Rightarrow> Inr vs | JStr s \<Rightarrow> Inr (map JStr (cps s)) | _ \<Rightarrow> Inl te)"

text \<open>\<open>v.map\<close>, \<open>v.filter\<close>: methods only arrays have.\<close>

definition array_items :: "'e \<Rightarrow> json \<Rightarrow> 'e + json list" where
  "array_items te v = (case v of JArr vs \<Rightarrow> Inr vs | _ \<Rightarrow> Inl te)"

lemma array_items_Inr [simp]: "array_items te v = Inr vs \<longleftrightarrow> v = JArr vs"
  by (cases v) (simp_all add: array_items_def)

text \<open>\<open>Object.entries(v)\<close> and the entries \<open>{...v}\<close> copies.\<close>

definition object_entries :: "json \<Rightarrow> (jstr \<times> json) list" where
  "object_entries v = (case v of
       JObj es \<Rightarrow> es
     | JArr vs \<Rightarrow> map (\<lambda>(i, x). (num_js (int i), x)) (enum vs)
     | JStr s \<Rightarrow> map (\<lambda>(i, u). (num_js (int i), JStr [u])) (enum s)
     | _ \<Rightarrow> [])"

lemma object_entries_JObj [simp]: "object_entries (JObj es) = es"
  by (simp add: object_entries_def)

definition put :: "jstr \<Rightarrow> json \<Rightarrow> json \<Rightarrow> json" where
  "put k v obj = JObj (obj_put k v (object_entries obj))"

definition without_key :: "jstr \<Rightarrow> (jstr \<times> json) list \<Rightarrow> (jstr \<times> json) list" where
  "without_key k es = filter (\<lambda>e. fst e \<noteq> k) es"

lemma obj_get_JObj: "obj_get (JObj es) k = (case map_of es k of None \<Rightarrow> JUndef | Some x \<Rightarrow> x)"
  by (simp add: obj_get_def)

lemma obj_get_nullish [simp]: "nullish v \<Longrightarrow> obj_get v k = JUndef"
  by (auto simp: nullish_def obj_get_def)

section \<open>String(v) and sort\<close>

fun to_js :: "json \<Rightarrow> jstr" where
  "to_js JUndef = js ''undefined''"
| "to_js JNull = js ''null''"
| "to_js (JBool b) = (if b then js ''true'' else js ''false'')"
| "to_js (JNum n) = num_js n"
| "to_js (JStr s) = s"
| "to_js (JArr vs) = join [44] (map (\<lambda>v. if nullish v then [] else to_js v) vs)"
| "to_js (JObj es) = js ''[object Object]''"

definition array_sort :: "json list \<Rightarrow> json list" where
  "array_sort vs = sort_by (\<lambda>a b. js_le (to_js a) (to_js b)) (filter (\<lambda>v. v \<noteq> JUndef) vs)
     @ filter (\<lambda>v. v = JUndef) vs"

lemma set_array_sort [simp]: "set (array_sort vs) = set vs"
  by (auto simp: array_sort_def)

section \<open>The in operator\<close>

text \<open>What an object literal inherits from \<open>Object.prototype\<close>: a function shows only its name.\<close>

definition inherited :: "jstr \<Rightarrow> json option" where
  "inherited k =
     (if k = js ''__proto__'' then Some (JObj [])
      else if k = js ''constructor'' then Some (JObj [(js ''name'', JStr (js ''Object''))])
      else if k \<in> set (map js [''__defineGetter__'', ''__defineSetter__'', ''hasOwnProperty'',
        ''__lookupGetter__'', ''__lookupSetter__'', ''isPrototypeOf'', ''propertyIsEnumerable'', ''toString'',
        ''valueOf'', ''toLocaleString''])
      then Some (JObj [(js ''name'', JStr k)]) else None)"

text \<open>\<open>es[k]\<close> of an object literal that may inherit \<open>k\<close>; \<open>None\<close> when \<open>!(k in es)\<close>.\<close>

definition lookup_in :: "(jstr \<times> json) list \<Rightarrow> jstr \<Rightarrow> json option" where
  "lookup_in es k = (case map_of es k of Some v \<Rightarrow> Some v | None \<Rightarrow> inherited k)"

section \<open>JSON.stringify\<close>

fun stringify :: "json \<Rightarrow> jstr"
  and stringify_elems :: "json list \<Rightarrow> jstr list"
  and stringify_entries :: "(jstr \<times> json) list \<Rightarrow> jstr list" where
  "stringify (JArr vs) = [91] @ join [44] (stringify_elems vs) @ [93]"
| "stringify (JObj es) = [123] @ join [44] (stringify_entries es) @ [125]"
| "stringify v = stringify_scalar v"
| "stringify_elems [] = []"
| "stringify_elems (v # vs) = (if v = JUndef then js ''null'' else stringify v) # stringify_elems vs"
| "stringify_entries [] = []"
| "stringify_entries ((k, v) # es) =
     (if v = JUndef then stringify_entries es else (quote_js k @ [58] @ stringify v) # stringify_entries es)"

text \<open>\<open>`${JSON.stringify(v)}`\<close>\<close>

definition show_json :: "json \<Rightarrow> jstr" where
  "show_json v = (if v = JUndef then js ''undefined'' else stringify v)"

end
