(* ===== verification/Class_Syntax.thy ===== *)
theory Class_Syntax
  imports Json
begin

text \<open>
  The class syntax of tools/lib/classes.mjs: \<open>parseClass\<close>, \<open>classReferences\<close> and the reading of
  escapes and references that patterns share, with the ranges of code points the module computes
  (\<open>rangesOfSource\<close>, \<open>mergeRanges\<close>, \<open>rangesToItems\<close>).

  A position \<open>i\<close> in a source is the rest of the source from \<open>i\<close>; an error carries the offset the
  code gives it. Each constructor of \<open>class_reason\<close>, \<open>pattern_reason\<close> and
  \<open>step_reason\<close> is one message of the code, with the values the message interpolates;
  \<open>NotInDialect e\<close> stands for the messages about the escape of \<open>e\<close>. \<open>EndlessScan\<close> is no message:
  it stands for a loop of the code that does not end (a map step with an empty key).
\<close>

section \<open>Errors\<close>

datatype class_reason =
    ClassNotString
  | BadBareReference
  | NotAClass
  | NotClosed
  | LoneBackslash
  | BracesNotInDialect
  | BadBraceDigits
  | AboveMaxCodePoint
  | SurrogateInBraces
  | NotFourDigits
  | SurrogateEscape jstr bool
  | CategoryNeedsBraces
  | ScriptProperty jstr
  | NotACategory jstr
  | NegatedCategory
  | BadClassEscape int
  | LoneSurrogate
  | BareDash
  | BareCaret
  | BareBrace
  | BraceStartsReference
  | RangeEndsWithReference
  | RangeNeedsCharacters
  | RangeOutOfOrder jstr jstr
  | CategoryStartsRange
  | TextFollows
  | ClassesNotObject
  | BadClassName jstr
  | ReferenceCycle "jstr list"
  | NamesNoClass jstr
  | JsRejects jstr
  | MembersAboveFFFF
  | ReferenceAboveFFFF jstr

datatype pattern_reason =
    PatternNotString
  | NothingToRepeat
  | AssertionNotRepeatable
  | QuantifierTooBig
  | QuantifierOrder
  | PosixBracket
  | UnescapedBracket
  | PatternLoneBackslash
  | NotInDialect int
  | EmptyClass
  | TwoDigitBackReference
  | BackReferenceBeforeGroup int
  | BackReferenceInLookahead
  | BackReferenceOptional int
  | CaretInLookahead
  | LookaheadNotClosed
  | Lookbehind
  | NamedGroup
  | UnknownGroup
  | CaptureInLookahead
  | GroupNotClosed
  | RepeatsNullableGroup
  | RepeatsCapture
  | RepeatsNullableBackReference
  | LiteralBrace
  | LiteralMustBeWritten int
  | AstralQuantifier
  | UnmatchedParen
  | UnexpectedCharacter
  | GlobalNullable
  | JsRejectsPattern
  | ClassAboveFFFF
  | BraceInPatternClass
  | PatternRangeOrder
  | PatternBraces
  | ReplacementNotString
  | ReplacementTwoDigits
  | ReplacementNoGroup int
  | ReplacementDollar
  | OutOfFuel

datatype step_reason =
    StepNotObject
  | StepKinds "jstr list"
  | StepKey jstr jstr
  | BadCase
  | BadForm
  | MapNotObject
  | EmptyMapKey
  | MapValueNotString jstr
  | BadMapAt
  | NotBoolean jstr
  | AlternativesNotAllowed
  | AlternativesNotObject
  | EmptyAlternativesKey
  | AlternativesNotStrings jstr
  | BadLimit
  | BuiltinNotAllowed
  | BuiltinNotString
  | UnknownCase
  | UnsupportedBuiltin
  | EndlessScan

datatype reason = InClass class_reason | InPattern pattern_reason | InStep step_reason

record class_error =
  ce_reason :: reason
  ce_source :: "jstr option"
  ce_offset :: "nat option"
  ce_path :: "jstr option"

text \<open>\<open>new ClassError(message)\<close>, with \<open>{source, offset}\<close>, with \<open>{path}\<close>, and \<open>error.at(path)\<close>.\<close>

definition class_error :: "reason \<Rightarrow> class_error" where
  "class_error r = \<lparr>ce_reason = r, ce_source = None, ce_offset = None, ce_path = None\<rparr>"

definition error_at_offset :: "jstr \<Rightarrow> nat \<Rightarrow> reason \<Rightarrow> class_error" where
  "error_at_offset src i r = \<lparr>ce_reason = r, ce_source = Some src, ce_offset = Some i, ce_path = None\<rparr>"

definition error_path :: "jstr option \<Rightarrow> reason \<Rightarrow> class_error" where
  "error_path p r = \<lparr>ce_reason = r, ce_source = None, ce_offset = None, ce_path = p\<rparr>"

definition located_at :: "jstr \<Rightarrow> class_error \<Rightarrow> class_error" where
  "located_at p e = e\<lparr>ce_path := Some (case ce_path e of
       None \<Rightarrow> p | Some q \<Rightarrow> if q = [] then p else p @ js '': '' @ q)\<rparr>"

text \<open>\<open>throw new ClassError(message, {source, offset: i})\<close> where the rest of the source from \<open>i\<close> is \<open>s\<close>.\<close>

definition fail_at :: "jstr \<Rightarrow> jstr \<Rightarrow> class_reason \<Rightarrow> class_error + 'a" where
  "fail_at src s r = Inl (error_at_offset src (length src - length s) (InClass r))"

lemma fail_at_not_Inr [simp]: "fail_at src s r \<noteq> Inr x" "Inr x \<noteq> fail_at src s r"
  by (simp_all add: fail_at_def)

section \<open>Code points, names and escapes\<close>

definition MAX_CODE_POINT :: int where
  "MAX_CODE_POINT = 1114111"

definition isSurrogate :: "int \<Rightarrow> bool" where
  "isSurrogate cp \<longleftrightarrow> 55296 \<le> cp \<and> cp \<le> 57343"

definition MAJOR_CATEGORIES :: "jstr list" where
  "MAJOR_CATEGORIES = map js [''C'', ''L'', ''M'', ''N'', ''P'', ''S'', ''Z'']"

definition CATEGORIES :: "jstr list" where
  "CATEGORIES = map js
     [''Cc'', ''Cf'', ''Cn'', ''Co'', ''Cs'', ''Ll'', ''Lm'', ''Lo'', ''Lt'', ''Lu'', ''Mc'', ''Me'', ''Mn'',
      ''Nd'', ''Nl'', ''No'', ''Pc'', ''Pd'', ''Pe'', ''Pf'', ''Pi'', ''Po'', ''Ps'', ''Sc'', ''Sk'', ''Sm'', ''So'',
      ''Zl'', ''Zp'', ''Zs'']"

definition GENERAL_CATEGORIES :: "jstr list" where
  "GENERAL_CATEGORIES = MAJOR_CATEGORIES @ CATEGORIES"

definition is_name_start :: "int \<Rightarrow> bool" where
  "is_name_start u \<longleftrightarrow> (65 \<le> u \<and> u \<le> 90) \<or> (97 \<le> u \<and> u \<le> 122) \<or> u = 95"

definition is_name_unit :: "int \<Rightarrow> bool" where
  "is_name_unit u \<longleftrightarrow> is_name_start u \<or> is_digit u"

text \<open>The regular expression \<open>CLASS_NAME\<close>.\<close>

definition CLASS_NAME :: "jstr \<Rightarrow> bool" where
  "CLASS_NAME name \<longleftrightarrow> name \<noteq> [] \<and> is_name_start (hd name) \<and> list_all is_name_unit name"

text \<open>\<open>REFERENCE.exec(s)\<close>: the name of the reference \<open>{name}\<close> that \<open>s\<close> starts with.\<close>

definition REFERENCE :: "jstr \<Rightarrow> jstr option" where
  "REFERENCE s =
     (let name = takeWhile is_name_unit (drop 1 s)
      in if starts_with s [123] \<and> CLASS_NAME name \<and> unit_at s (1 + length name) = Some 125
         then Some name else None)"

lemma REFERENCE_Some:
  assumes "REFERENCE s = Some name"
  shows "CLASS_NAME name" and "\<exists>r. s = [123] @ name @ [125] @ r"
    and "take (length name + 2) s = [123] @ name @ [125]"
proof -
  show n: "CLASS_NAME name"
    using assms by (auto simp: REFERENCE_def Let_def split: if_splits)
  obtain t where s: "s = 123 # t"
    using assms by (auto simp: REFERENCE_def Let_def starts_with_iff split: if_splits)
  then have name: "name = takeWhile is_name_unit t" and u: "unit_at t (length name) = Some 125"
    using assms by (auto simp: REFERENCE_def Let_def unit_at_def split: if_splits)
  have "t = name @ drop (length name) t"
    using name by (metis append_eq_conv_conj takeWhile_dropWhile_id)
  moreover from u obtain r where "drop (length name) t = 125 # r"
    by (auto simp: unit_at_def Cons_nth_drop_Suc [symmetric] split: if_splits)
  ultimately have t: "t = name @ 125 # r" by metis
  then show "\<exists>r. s = [123] @ name @ [125] @ r" using s by simp
  show "take (length name + 2) s = [123] @ name @ [125]" using s t by simp
qed

definition hex_upper_digit :: "int \<Rightarrow> int" where
  "hex_upper_digit d = (if d < 10 then 48 + d else 55 + d)"

text \<open>\<open>cp.toString(16).toUpperCase()\<close> and \<open>hex(cp, width)\<close>.\<close>

fun hex_digits :: "nat \<Rightarrow> jstr" where
  "hex_digits n = (if n < 16 then [hex_upper_digit (int n)]
     else hex_digits (n div 16) @ [hex_upper_digit (int (n mod 16))])"

declare hex_digits.simps [simp del]

definition hex :: "int \<Rightarrow> nat \<Rightarrow> jstr" where
  "hex cp width = (let ds = hex_digits (nat cp) in replicate (width - length ds) 48 @ ds)"

definition unicodeEscape :: "int \<Rightarrow> jstr" where
  "unicodeEscape cp =
     (if cp \<le> 65535 \<and> \<not> isSurrogate cp then [92, 117] @ hex cp 4
      else [92, 117, 123] @ hex cp 1 @ [125])"

text \<open>
  \<open>readCodePointEscape(source, i, {allowBraces})\<close>: \<open>s\<close> is the source from the backslash; gives the
  code point and the source after the escape.
\<close>

definition readCodePointEscape :: "jstr \<Rightarrow> jstr \<Rightarrow> bool \<Rightarrow> class_error + (int \<times> jstr)" where
  "readCodePointEscape src s allowBraces =
     (if unit_at s 2 = Some 123 then
        (if \<not> allowBraces then fail_at src s BracesNotInDialect
         else
           let body = drop 3 s;
               digits = (if 125 \<in> set body then takeWhile (\<lambda>u. u \<noteq> 125) body else [])
           in if \<not> (1 \<le> length digits \<and> length digits \<le> 6 \<and> list_all is_hex digits)
              then fail_at src s BadBraceDigits
              else if hex_val digits > MAX_CODE_POINT then fail_at src s AboveMaxCodePoint
              else if isSurrogate (hex_val digits) then fail_at src s SurrogateInBraces
              else Inr (hex_val digits, drop (length digits + 1) body))
      else
        let digits = slice s 2 6
        in if \<not> (length digits = 4 \<and> list_all is_hex digits) then fail_at src s NotFourDigits
           else if isSurrogate (hex_val digits) then fail_at src s (SurrogateEscape digits allowBraces)
           else Inr (hex_val digits, drop 6 s))"

section \<open>parseClass\<close>

datatype class_item =
    CChar int jstr
  | CRange int int jstr
  | CCategory jstr jstr
  | CRef jstr jstr

fun item_raw :: "class_item \<Rightarrow> jstr" where
  "item_raw (CChar cp raw) = raw"
| "item_raw (CRange a b raw) = raw"
| "item_raw (CCategory name raw) = raw"
| "item_raw (CRef name raw) = raw"

fun is_char_item :: "class_item \<Rightarrow> bool" where
  "is_char_item (CChar cp raw) = True"
| "is_char_item _ = False"

datatype class_ast = ARef jstr | ASet bool "class_item list"

definition ascii_lower :: "jstr \<Rightarrow> jstr" where
  "ascii_lower = map (\<lambda>u. if 65 \<le> u \<and> u \<le> 90 then u + 32 else u)"

definition is_script_property :: "jstr \<Rightarrow> bool" where
  "is_script_property name \<longleftrightarrow> 61 \<in> set name \<or> 58 \<in> set name \<or>
     ascii_lower name \<in> set (map js [''script'', ''sc'', ''scx'', ''script_extensions''])"

text \<open>\<open>readAtom()\<close> of \<open>parseClass\<close>: \<open>None\<close> at the closing bracket.\<close>

definition read_category :: "jstr \<Rightarrow> jstr \<Rightarrow> class_error + (class_item \<times> jstr) option" where
  "read_category src s =
     (let body = drop 3 s; name = takeWhile (\<lambda>u. u \<noteq> 125) body
      in if unit_at s 2 \<noteq> Some 123 \<or> 125 \<notin> set body then fail_at src s CategoryNeedsBraces
         else if is_script_property name then fail_at src s (ScriptProperty name)
         else if name \<notin> set GENERAL_CATEGORIES then fail_at src s (NotACategory name)
         else Inr (Some (CCategory name (take (length name + 4) s), drop (length name + 1) body)))"

definition read_escape :: "jstr \<Rightarrow> jstr \<Rightarrow> class_error + (class_item \<times> jstr) option" where
  "read_escape src s = (case unit_at s 1 of
       None \<Rightarrow> fail_at src s LoneBackslash
     | Some e \<Rightarrow>
         (if e = 92 \<or> e = 93 \<or> e = 94 \<or> e = 45 then Inr (Some (CChar e (take 2 s), drop 2 s))
          else if e = 117 then
            bindE (readCodePointEscape src s True)
              (\<lambda>(cp, next). Inr (Some (CChar cp (take (length s - length next) s), next)))
          else if e = 112 then read_category src s
          else if e = 80 then fail_at src s NegatedCategory
          else fail_at src s (BadClassEscape e)))"

definition read_atom :: "jstr \<Rightarrow> jstr \<Rightarrow> class_error + (class_item \<times> jstr) option" where
  "read_atom src s = (case cp_first s of
       None \<Rightarrow> fail_at src s NotClosed
     | Some cp \<Rightarrow>
         (if cp = 93 then Inr None
          else if cp = 92 then read_escape src s
          else if isSurrogate cp then fail_at src s LoneSurrogate
          else if cp = 45 then fail_at src s BareDash
          else if cp = 94 then fail_at src s BareCaret
          else if cp = 125 then fail_at src s BareBrace
          else Inr (Some (CChar cp (from_cp cp), drop (length (from_cp cp)) s))))"

lemma escape_shorter:
  "readCodePointEscape src s b = Inr (cp, r) \<Longrightarrow> length r < length s"
  by (auto simp: readCodePointEscape_def Let_def unit_at_def slice_def split: if_splits)

lemma from_cp_nonempty: "from_cp cp \<noteq> []"
  by (simp add: from_cp_def)

lemma read_atom_shorter: "read_atom src s = Inr (Some (a, r)) \<Longrightarrow> length r < length s"
  using from_cp_nonempty
  by (cases s) (fastforce simp: read_atom_def read_escape_def read_category_def Let_def unit_at_def
      dest!: escape_shorter split: option.splits if_splits)+

text \<open>The loop of \<open>parseClass\<close>: the items up to the closing bracket, and what follows it.\<close>

function (sequential) parse_items :: "jstr \<Rightarrow> jstr \<Rightarrow> class_error + (class_item list \<times> jstr)" where
  "parse_items src s =
     (if s = [] then fail_at src s NotClosed
      else if unit_at s 0 = Some 123 then
        (case REFERENCE s of
           None \<Rightarrow> fail_at src s BraceStartsReference
         | Some name \<Rightarrow>
             bindE (parse_items src (drop (length name + 2) s))
               (\<lambda>(items, r). Inr (CRef name (take (length name + 2) s) # items, r)))
      else
        bindE (read_atom src s) (\<lambda>a. case a of
            None \<Rightarrow> Inr ([], drop 1 s)
          | Some (atom, s1) \<Rightarrow>
              (if unit_at s1 0 = Some 45 \<and> is_char_item atom then
                 (if unit_at s1 1 = Some 93 \<or> length s1 \<le> 1 then fail_at src s1 BareDash
                  else if unit_at s1 1 = Some 123 then fail_at src (drop 1 s1) RangeEndsWithReference
                  else
                    bindE (read_atom src (drop 1 s1)) (\<lambda>b. case (atom, b) of
                        (CChar from raw, Some (CChar to raw', s2)) \<Rightarrow>
                          (if to < from then fail_at src s (RangeOutOfOrder raw raw')
                           else
                             bindE (parse_items src s2)
                               (\<lambda>(items, r). Inr (CRange from to (take (length s - length s2) s) # items, r)))
                      | _ \<Rightarrow> fail_at src s RangeNeedsCharacters))
               else if unit_at s1 0 = Some 45 then fail_at src s CategoryStartsRange
               else bindE (parse_items src s1) (\<lambda>(items, r). Inr (atom # items, r)))))"
  by pat_completeness auto
termination
  by (relation "measure (\<lambda>(src, s). length s)") (auto dest!: read_atom_shorter)

declare parse_items.simps [simp del]

definition parse_class_text :: "jstr \<Rightarrow> class_error + class_ast" where
  "parse_class_text src =
     (if starts_with src [123] then
        (case REFERENCE src of
           None \<Rightarrow> fail_at src src BadBareReference
         | Some name \<Rightarrow>
             if length name + 2 \<noteq> length src then fail_at src src BadBareReference else Inr (ARef name))
      else if \<not> starts_with src [91] then fail_at src src NotAClass
      else
        let negated = (unit_at src 1 = Some 94)
        in bindE (parse_items src (drop (if negated then 2 else 1) src)) (\<lambda>(items, r).
             if r \<noteq> [] then fail_at src r TextFollows else Inr (ASet negated items)))"

definition parseClass :: "json \<Rightarrow> class_error + class_ast" where
  "parseClass v = (case v of
       JStr src \<Rightarrow> parse_class_text src
     | _ \<Rightarrow> Inl (class_error (InClass ClassNotString)))"

fun ast_refs :: "class_ast \<Rightarrow> jstr list" where
  "ast_refs (ARef name) = [name]"
| "ast_refs (ASet neg items) = List.map_filter (\<lambda>it. case it of CRef name raw \<Rightarrow> Some name | _ \<Rightarrow> None) items"

definition classReferences :: "json \<Rightarrow> class_error + jstr list" where
  "classReferences v = bindE (parseClass v) (\<lambda>ast. Inr (ast_refs ast))"

section \<open>Bracket expressions as JavaScript reads them\<close>

text \<open>
  What \<open>new RegExp(source, 'u')\<close> reads in a bracket expression made of single characters, the
  escapes of syntax characters, \<open>\u\<close> escapes, \<open>\p{...}\<close> general categories and ranges of
  characters: the bracket expressions the module builds. \<open>None\<close> is anything else (JavaScript's
  other escapes, a literal \<open>-\<close>), which it never builds.
\<close>

datatype rx_item = RxChar int | RxRange int int | RxCategory jstr

definition rx_syntax_characters :: "int set" where
  "rx_syntax_characters = {94, 36, 92, 46, 42, 43, 63, 40, 41, 91, 93, 123, 125, 124, 47, 45}"

definition rx_unicode_escape :: "jstr \<Rightarrow> (rx_item \<times> jstr) option" where
  "rx_unicode_escape s =
     (if unit_at s 2 = Some 123 then
        let body = drop 3 s; ds = takeWhile (\<lambda>u. u \<noteq> 125) body
        in if 125 \<in> set body \<and> ds \<noteq> [] \<and> list_all is_hex ds \<and> hex_val ds \<le> MAX_CODE_POINT
           then Some (RxChar (hex_val ds), drop (length ds + 1) body) else None
      else
        let ds = slice s 2 6
        in if length ds = 4 \<and> list_all is_hex ds \<and> \<not> isSurrogate (hex_val ds)
           then Some (RxChar (hex_val ds), drop 6 s) else None)"

definition rx_category :: "jstr \<Rightarrow> (rx_item \<times> jstr) option" where
  "rx_category s =
     (let body = drop 3 s; name = takeWhile (\<lambda>u. u \<noteq> 125) body
      in if unit_at s 2 = Some 123 \<and> 125 \<in> set body \<and> name \<in> set GENERAL_CATEGORIES
         then Some (RxCategory name, drop (length name + 1) body) else None)"

definition rx_atom :: "jstr \<Rightarrow> (rx_item \<times> jstr) option" where
  "rx_atom s = (case cp_first s of
       None \<Rightarrow> None
     | Some cp \<Rightarrow>
         (if cp = 92 then (case unit_at s 1 of
              None \<Rightarrow> None
            | Some e \<Rightarrow>
                (if e = 117 then rx_unicode_escape s
                 else if e = 112 then rx_category s
                 else if e \<in> rx_syntax_characters then Some (RxChar e, drop 2 s)
                 else None))
          else if cp = 93 \<or> cp = 45 then None
          else Some (RxChar cp, drop (length (from_cp cp)) s)))"

text \<open>A raw text that reads as one atom whatever follows it.\<close>

definition raw_reads :: "jstr \<Rightarrow> rx_item \<Rightarrow> bool" where
  "raw_reads raw it \<longleftrightarrow> raw \<noteq> [] \<and> hd raw \<noteq> 45 \<and> hd raw \<noteq> 93 \<and> hd raw \<noteq> 94 \<and>
     (\<forall>t. rx_atom (raw @ t) = Some (it, t))"

section \<open>A parsed class is its source\<close>

definition valid_cp :: "int \<Rightarrow> bool" where
  "valid_cp cp \<longleftrightarrow> 0 \<le> cp \<and> cp \<le> MAX_CODE_POINT \<and> \<not> isSurrogate cp"

fun item_ok :: "class_item \<Rightarrow> bool" where
  "item_ok (CChar cp raw) = (valid_cp cp \<and> raw_reads raw (RxChar cp))"
| "item_ok (CRange a b raw) = (valid_cp a \<and> valid_cp b \<and> a \<le> b \<and>
     (\<exists>raw1 raw2. raw = raw1 @ [45] @ raw2 \<and> raw_reads raw1 (RxChar a) \<and> raw_reads raw2 (RxChar b)))"
| "item_ok (CCategory name raw) = (name \<in> set GENERAL_CATEGORIES \<and> raw_reads raw (RxCategory name))"
| "item_ok (CRef name raw) = (CLASS_NAME name \<and> raw = [123] @ name @ [125])"

lemma cp_first_from_cp:
  assumes v: "valid_cp cp"
  shows "cp_first (from_cp cp @ t) = Some cp"
proof (cases "cp \<le> 65535")
  case True
  then have "\<not> is_high cp" using v by (auto simp: valid_cp_def isSurrogate_def is_high_def)
  then show ?thesis using True by (cases t) (auto simp: from_cp_def)
next
  case False
  have "0 \<le> (cp - 65536) div 1024" "(cp - 65536) div 1024 \<le> 1023"
    "0 \<le> (cp - 65536) mod 1024" "(cp - 65536) mod 1024 \<le> 1023"
    using False v by (auto simp: valid_cp_def MAX_CODE_POINT_def)
  then have hl: "is_high (55296 + (cp - 65536) div 1024)" "is_low (56320 + (cp - 65536) mod 1024)"
    by (auto simp: is_high_def is_low_def)
  have "pair_cp (55296 + (cp - 65536) div 1024) (56320 + (cp - 65536) mod 1024)
      = (cp - 65536) div 1024 * 1024 + (cp - 65536) mod 1024 + 65536"
    by (simp add: pair_cp_def)
  also have "\<dots> = cp" by (simp only: div_mult_mod_eq diff_add_cancel)
  finally show ?thesis using False hl by (simp add: from_cp_def)
qed

lemma raw_reads_char:
  assumes "valid_cp cp" and "cp \<notin> {92, 93, 45, 94}"
  shows "raw_reads (from_cp cp) (RxChar cp)"
proof -
  have "hd (from_cp cp) = cp \<or> 55296 \<le> hd (from_cp cp)"
    by (auto simp: from_cp_def)
  moreover have "rx_atom (from_cp cp @ t) = Some (RxChar cp, t)" for t
    using assms by (simp add: rx_atom_def cp_first_from_cp)
  ultimately show ?thesis
    using assms by (auto simp: raw_reads_def from_cp_nonempty)
qed

lemma not_high_backslash [simp]: "\<not> is_high 92"
  by (simp add: is_high_def)

lemma cp_first_backslash [simp]: "cp_first (92 # s) = Some 92"
  by (cases s) auto

lemma raw_reads_escape: "e \<in> rx_syntax_characters \<Longrightarrow> raw_reads [92, e] (RxChar e)"
  by (auto simp: raw_reads_def rx_atom_def unit_at_def rx_syntax_characters_def)

lemma raw_reads_four:
  assumes "length ds = 4" and "list_all is_hex ds" and "\<not> isSurrogate (hex_val ds)"
  shows "raw_reads ([92, 117] @ ds) (RxChar (hex_val ds))"
proof -
  have "unit_at (92 # 117 # ds @ t) 2 \<noteq> Some 123" for t
    using assms(1,2) by (cases ds) (auto simp: unit_at_def is_hex_def is_digit_def)
  then show ?thesis
    using assms by (auto simp: raw_reads_def rx_atom_def rx_unicode_escape_def Let_def slice_def unit_at_def)
qed

lemma takeWhile_brace: "125 \<notin> set ds \<Longrightarrow> takeWhile (\<lambda>u. u \<noteq> 125) (ds @ 125 # t) = ds"
  by (induction ds) auto

lemma hex_no_brace: "list_all is_hex ds \<Longrightarrow> 125 \<notin> set ds"
  by (auto simp: list_all_iff is_hex_def is_digit_def)

lemma raw_reads_braces:
  assumes "ds \<noteq> []" and "list_all is_hex ds" and "hex_val ds \<le> MAX_CODE_POINT"
  shows "raw_reads ([92, 117, 123] @ ds @ [125]) (RxChar (hex_val ds))"
  using assms hex_no_brace [OF assms(2)]
  by (simp add: raw_reads_def rx_atom_def rx_unicode_escape_def Let_def unit_at_def takeWhile_brace)

lemma raw_reads_category:
  assumes "name \<in> set GENERAL_CATEGORIES"
  shows "raw_reads ([92, 112, 123] @ name @ [125]) (RxCategory name)"
proof -
  have "125 \<notin> set name"
    using assms by (auto simp: GENERAL_CATEGORIES_def MAJOR_CATEGORIES_def CATEGORIES_def)
  then show ?thesis
    using assms by (simp add: raw_reads_def rx_atom_def rx_category_def Let_def unit_at_def takeWhile_brace)
qed

lemma cp_first_split:
  assumes "wf_js s" and "cp_first s = Some cp"
  shows "s = from_cp cp @ drop (length (from_cp cp)) s" and "0 \<le> cp" and "cp \<le> MAX_CODE_POINT"
proof -
  have "\<exists>c\<in>set (cps s). cp = cp_of c \<and> starts_with s c"
    using assms(2) by (cases s rule: cps.cases) (auto simp: cp_of_def starts_with_def split: if_splits)
  then obtain c where c: "c \<in> set (cps s)" "cp = cp_of c" "starts_with s c" by blast
  with from_cp_cp_of [OF assms(1)] have "from_cp cp = c" by simp
  then show "s = from_cp cp @ drop (length (from_cp cp)) s"
    using starts_with_drop [OF c(3)] by simp
  show "0 \<le> cp" "cp \<le> MAX_CODE_POINT"
    using assms by (cases s rule: cps.cases;
      auto simp: MAX_CODE_POINT_def is_high_def is_low_def pair_cp_def split: if_splits)+
qed

lemma hex_val_nonneg: "list_all is_hex ds \<Longrightarrow> 0 \<le> hex_val ds"
  unfolding hex_val_def
  by (induction ds rule: rev_induct) (auto simp: hex_of_def is_hex_def is_digit_def)

lemma hex_val_snoc: "hex_val (ds @ [d]) = 16 * hex_val ds + hex_of d"
  by (simp add: hex_val_def)

lemma hex_val_less: "list_all is_hex ds \<Longrightarrow> hex_val ds < 16 ^ length ds"
proof (induction ds rule: rev_induct)
  case Nil
  then show ?case by (simp add: hex_val_def)
next
  case (snoc d ds)
  then have "hex_of d < 16" and "hex_val ds < 16 ^ length ds"
    by (auto simp: hex_of_def is_hex_def is_digit_def)
  then show ?case by (simp add: hex_val_snoc)
qed

lemma unit_at_split: "unit_at s 0 = Some a \<Longrightarrow> unit_at s 1 = Some b \<Longrightarrow> s = a # b # drop 2 s"
  by (cases s; cases "tl s") (auto simp: unit_at_def)

lemma brace_split:
  assumes "125 \<in> set body"
  shows "body = takeWhile (\<lambda>u. u \<noteq> 125) body @ 125 # drop (length (takeWhile (\<lambda>u. u \<noteq> 125) body) + 1) body"
  using assms by (induction body) auto

lemma unit_at_2: "unit_at s 2 = Some c \<Longrightarrow> drop 2 s = c # drop 3 s"
  by (cases s; cases "tl s"; cases "tl (tl s)") (auto simp: unit_at_def split: if_splits)

lemma take_drop_2_6: "drop 2 s = slice s 2 6 @ drop 6 s"
proof -
  have "drop 6 s = drop 4 (drop 2 s)" by simp
  moreover have "slice s 2 6 = take 4 (drop 2 s)" by (simp add: slice_def)
  ultimately show ?thesis by (simp only: append_take_drop_id)
qed

lemma escape_split:
  assumes "readCodePointEscape src s b = Inr (cp, r)" and "s = 92 # 117 # drop 2 s"
  shows "valid_cp cp" and "\<exists>raw. s = raw @ r \<and> raw_reads raw (RxChar cp)"
proof -
  have four: "hex_val ds \<le> MAX_CODE_POINT" if "length ds = 4" "list_all is_hex ds" for ds
    using hex_val_less [OF that(2)] that(1) by (simp add: MAX_CODE_POINT_def)
  show "valid_cp cp"
    using assms(1) four
    by (auto simp: readCodePointEscape_def Let_def valid_cp_def hex_val_nonneg split: if_splits)
  show "\<exists>raw. s = raw @ r \<and> raw_reads raw (RxChar cp)"
  proof (cases "unit_at s 2 = Some 123")
    case True
    define ds where "ds = takeWhile (\<lambda>u. u \<noteq> 125) (drop 3 s)"
    have "125 \<in> set (drop 3 s)" and hex: "list_all is_hex ds" "ds \<noteq> []" "hex_val ds \<le> MAX_CODE_POINT"
      and cp: "cp = hex_val ds" and r: "r = drop (length ds + 1) (drop 3 s)"
      using assms(1) True by (auto simp: readCodePointEscape_def Let_def ds_def split: if_splits)
    then have "drop 3 s = ds @ 125 # r"
      using brace_split [of "drop 3 s"] unfolding ds_def by simp
    then have "s = ([92, 117, 123] @ ds @ [125]) @ r"
      using assms(2) unit_at_2 [OF True] by simp
    then show ?thesis using raw_reads_braces [OF hex(2,1,3)] cp by blast
  next
    case False
    define ds where "ds = slice s 2 6"
    have hex: "length ds = 4" "list_all is_hex ds" "\<not> isSurrogate (hex_val ds)"
      and cp: "cp = hex_val ds" and r: "r = drop 6 s"
      using assms(1) False by (auto simp: readCodePointEscape_def Let_def ds_def split: if_splits)
    have "s = ([92, 117] @ ds) @ r"
      using assms(2) take_drop_2_6 [of s] unfolding ds_def r by simp
    then show ?thesis using raw_reads_four [OF hex] cp by blast
  qed
qed

lemma read_atom_split:
  assumes "wf_js s" and "read_atom src s = Inr (Some (a, r))"
  shows "item_ok a" and "s = item_raw a @ r" and "is_char_item a \<or> (\<exists>name raw. a = CCategory name raw)"
proof -
  obtain cp where cp: "cp_first s = Some cp" and ne: "s \<noteq> []"
    using assms(2) by (cases s) (auto simp: read_atom_def split: option.splits)
  note split = cp_first_split [OF assms(1) cp]
  have "item_ok a \<and> s = item_raw a @ r \<and> (is_char_item a \<or> (\<exists>name raw. a = CCategory name raw))"
  proof (cases "cp = 92")
    case False
    then show ?thesis
      using assms(2) cp split raw_reads_char [of cp]
      by (auto simp: read_atom_def valid_cp_def split: if_splits)
  next
    case True
    then have e: "read_escape src s = Inr (Some (a, r))"
      using assms(2) cp by (simp add: read_atom_def)
    then obtain e where e1: "unit_at s 1 = Some e" by (auto simp: read_escape_def split: option.splits)
    have "unit_at s 0 = Some 92"
      using split(1) True by (cases s) (auto simp: unit_at_def from_cp_def)
    then have s: "s = 92 # e # drop 2 s" using unit_at_split e1 by blast
    consider "e = 92 \<or> e = 93 \<or> e = 94 \<or> e = 45" | "e = 117" | "e = 112"
      using e e1 by (auto simp: read_escape_def split: if_splits)
    then show ?thesis
    proof cases
      case 1
      have "take 2 s = [92, e]" by (subst s) simp
      then have a: "a = CChar e [92, e]" and r: "r = drop 2 s"
        using e e1 1 by (auto simp: read_escape_def)
      have "e \<in> rx_syntax_characters" using 1 by (auto simp: rx_syntax_characters_def)
      then show ?thesis
        using 1 a r s raw_reads_escape by (auto simp: valid_cp_def MAX_CODE_POINT_def isSurrogate_def)
    next
      case 2
      then obtain v where v: "readCodePointEscape src s True = Inr (v, r)"
        and a: "a = CChar v (take (length s - length r) s)"
        using e e1 by (auto simp: read_escape_def)
      have s': "s = 92 # 117 # drop 2 s" using s 2 by simp
      obtain raw where "s = raw @ r" "raw_reads raw (RxChar v)"
        using escape_split(2) [OF v s'] by blast
      then show ?thesis using escape_split(1) [OF v s'] a by simp
    next
      case 3
      define name where "name = takeWhile (\<lambda>u. u \<noteq> 125) (drop 3 s)"
      have n: "name \<in> set GENERAL_CATEGORIES" and a: "a = CCategory name (take (length name + 4) s)"
        and r: "r = drop (length name + 1) (drop 3 s)" and b: "125 \<in> set (drop 3 s)" "unit_at s 2 = Some 123"
        using e e1 3 by (auto simp: read_escape_def read_category_def Let_def name_def split: if_splits)
      have "drop 3 s = name @ 125 # r"
        using brace_split [OF b(1)] unfolding name_def [symmetric] r .
      then have s': "s = ([92, 112, 123] @ name @ [125]) @ r"
        using s 3 unit_at_2 [OF b(2)] by simp
      have "take (length name + 4) s = [92, 112, 123] @ name @ [125]"
        by (subst s') (simp add: numeral_eq_Suc)
      then show ?thesis using a n s' raw_reads_category [OF n] by simp
    qed
  qed
  then show "item_ok a" "s = item_raw a @ r" "is_char_item a \<or> (\<exists>name raw. a = CCategory name raw)"
    by blast+
qed

lemma parse_items_split:
  assumes "wf_js s" and "parse_items src s = Inr (items, r)"
  shows "list_all item_ok items \<and> s = concat (map item_raw items) @ [93] @ r"
  using assms
proof (induction src s arbitrary: items r rule: parse_items.induct)
  case (1 src s)
  note res = "1.prems"(2) [unfolded parse_items.simps [of src s]]
  have ne: "s \<noteq> []" using res by (auto split: if_splits)
  show ?case
  proof (cases "unit_at s 0 = Some 123")
    case True
    then obtain name items' where name: "REFERENCE s = Some name"
      and sub: "parse_items src (drop (length name + 2) s) = Inr (items', r)"
      and items: "items = CRef name (take (length name + 2) s) # items'"
      using res ne by (auto split: option.splits)
    have wf: "wf_js (drop (length name + 2) s)"
      using "1.prems"(1) by (metis append_take_drop_id wf_js_simps(3))
    have "list_all item_ok items' \<and> drop (length name + 2) s = concat (map item_raw items') @ [93] @ r"
      by (rule "1.IH"(1) [OF ne True name wf sub])
    then show ?thesis
      using items REFERENCE_Some(1,3) [OF name] append_take_drop_id [of "length name + 2" s]
      by (auto simp: append_assoc [symmetric] simp del: append_take_drop_id)
  next
    case False
    show ?thesis
    proof (cases "read_atom src s")
      case (Inl e)
      then show ?thesis using res ne False by simp
    next
      case (Inr a)
      show ?thesis
      proof (cases a)
        case None
        then have "items = []" "r = drop 1 s"
          using res ne False Inr by auto
        moreover have "cp_first s = Some 93"
          using Inr None
          by (auto simp: read_atom_def read_escape_def read_category_def Let_def split: option.splits if_splits)
        then have "s = [93] @ drop 1 s"
          using cp_first_split(1) [OF "1.prems"(1), of 93] by (simp add: from_cp_def)
        ultimately show ?thesis by simp
      next
        case (Some p)
        obtain atom s1 where p: "p = (atom, s1)" by (cases p)
        then have atom: "read_atom src s = Inr (Some (atom, s1))" using Inr Some by simp
        note split = read_atom_split [OF "1.prems"(1) atom]
        have wf1: "wf_js s1" using "1.prems"(1) split(2) by (metis wf_js_simps(3))
        show ?thesis
        proof (cases "unit_at s1 0 = Some 45 \<and> is_char_item atom")
          case True
          then obtain lo raw where fr: "atom = CChar lo raw" by (cases atom) auto
          have neg: "\<not> (unit_at s1 1 = Some 93 \<or> length s1 \<le> 1)" "\<not> unit_at s1 1 = Some 123"
            using res ne False atom True fr by (auto split: if_splits)
          note res' = res [simplified ne False atom True fr if_False if_True bindE_simps option.case prod.case
              is_char_item.simps neg simp_thms]
          obtain b where b: "read_atom src (drop 1 s1) = Inr b"
            using res' by (auto simp only: bindE_Inr_iff)
          obtain t raw' s2 where bs: "b = Some (CChar t raw', s2)"
            using res' b by (cases b; auto split: class_item.splits)
          note sec = b [unfolded bs]
          obtain items' where le: "\<not> t < lo" and sub: "parse_items src s2 = Inr (items', r)"
            and items: "items = CRange lo t (take (length s - length s2) s) # items'"
            using res' sec by (auto split: if_splits)
          have s1: "s1 = 45 # drop 1 s1"
            using True by (cases s1) (auto simp: unit_at_def)
          have wf2: "wf_js (drop 1 s1)" using wf1 s1 by (metis wf_js_simps(2))
          note split2 = read_atom_split [OF wf2 sec]
          have s: "s = (raw @ [45] @ raw') @ s2"
            using split(2) split2(2) s1 fr by simp
          have wf3: "wf_js s2" using wf2 split2(2) by (metis wf_js_simps(3))
          have "list_all item_ok items' \<and> s2 = concat (map item_raw items') @ [93] @ r"
            using "1.IH"(2) [OF ne False atom refl _ True neg sec refl] le fr sub wf3 by auto
          moreover have "take (length s - length s2) s = raw @ [45] @ raw'" using s by simp
          ultimately show ?thesis
            using items split(1) split2(1) fr le s by auto
        next
          case not_range: False
          then obtain items' where sub: "parse_items src s1 = Inr (items', r)" and items: "items = atom # items'"
            and nd: "\<not> unit_at s1 0 = Some 45"
            using res ne False atom by (auto split: if_splits)
          have "list_all item_ok items' \<and> s1 = concat (map item_raw items') @ [93] @ r"
            using "1.IH"(3) [OF ne False atom refl refl not_range nd wf1 sub] .
          then show ?thesis using items split(1,2) by simp
        qed
      qed
    qed
  qed
qed

text \<open>The source of a bracket expression is rebuilt from the raw texts of its items.\<close>

definition ast_source :: "class_ast \<Rightarrow> jstr" where
  "ast_source ast = (case ast of
       ARef name \<Rightarrow> [123] @ name @ [125]
     | ASet neg items \<Rightarrow> [91] @ (if neg then [94] else []) @ concat (map item_raw items) @ [93])"

fun ast_ok :: "class_ast \<Rightarrow> bool" where
  "ast_ok (ARef name) = CLASS_NAME name"
| "ast_ok (ASet neg items) = list_all item_ok items"

lemma parse_class_text_source:
  assumes "wf_js src" and "parse_class_text src = Inr ast"
  shows "ast_ok ast" and "ast_source ast = src"
proof -
  have "ast_ok ast \<and> ast_source ast = src"
  proof (cases "starts_with src [123]")
    case True
    then obtain name where n: "REFERENCE src = Some name" "length name + 2 = length src" "ast = ARef name"
      using assms(2) by (auto simp: parse_class_text_def split: option.splits if_splits)
    then show ?thesis
      using REFERENCE_Some [OF n(1)] by (auto simp: ast_source_def)
  next
    case False
    define neg rest where "neg = (unit_at src 1 = Some 94)" and "rest = drop (if neg then 2 else 1) src"
    obtain items where sub: "parse_items src rest = Inr (items, [])" and ast: "ast = ASet neg items"
      and st: "starts_with src [91]"
      using assms(2) False
      by (auto simp: parse_class_text_def Let_def neg_def rest_def split: if_splits)
    have "wf_js rest"
      using assms(1) unfolding rest_def by (metis append_take_drop_id wf_js_simps(3))
    from parse_items_split [OF this sub]
    have items: "list_all item_ok items" and rest: "rest = concat (map item_raw items) @ [93]"
      by simp_all
    obtain t where t: "src = 91 # t" using st by (auto simp: starts_with_iff)
    have "src = [91] @ (if neg then [94] else []) @ rest"
      using t by (cases t) (auto simp: unit_at_def neg_def rest_def)
    then show ?thesis using ast items by (simp add: ast_source_def rest)
  qed
  then show "ast_ok ast" "ast_source ast = src" by blast+
qed

section \<open>Properties\<close>

text \<open>C9: A class that \<open>parseClass\<close> accepts is read whole: the texts of its items, put back between
  the brackets, are the source, every range is in order, every character is a Unicode scalar value,
  every category is one the module lists and every reference is a class name.\<close>

theorem parseClass_source:
  assumes "wf_js src" and "parseClass (JStr src) = Inr ast"
  shows "ast_source ast = src \<and> ast_ok ast"
  using parse_class_text_source [of src ast] assms by (simp add: parseClass_def)

theorem parseClass_source_witness:
  "ast_source (ASet True [CRange 97 99 (js ''a-c''), CRef (js ''w'') (js ''{w}''), CChar 93 [92, 93]]) =
      js ''[^a-c{w}'' @ [92, 93, 93]
    \<and> ast_ok (ASet True [CRange 97 99 (js ''a-c''), CRef (js ''w'') (js ''{w}''), CChar 93 [92, 93]])"
  by (rule parseClass_source)
    (simp_all add: parseClass_def parse_class_text_def parse_items.simps read_atom_def read_escape_def
      REFERENCE_def CLASS_NAME_def is_name_unit_def is_name_start_def Let_def js_defs isSurrogate_def is_digit_def)

end
