(* ===== verification/Ranges.thy ===== *)
theory Ranges
  imports Class_Syntax
begin

text \<open>
  Code point ranges (tools/lib/classes.mjs \<open>rangesOfSource\<close>, \<open>mergeRanges\<close>, \<open>rangesToItems\<close>,
  \<open>rangesToPatternItems\<close>; src/languages/generate_case_tables.mjs \<open>ranges\<close>): the loops over all
  code points, stated over the predicate the code evaluates with a regular expression. The locale
  \<open>range_table\<close> is what callers rely on: the ranges of a predicate are sorted, disjoint, not
  adjacent, and hold exactly the code points the table covers where the predicate is true; such a
  list is unique.
\<close>

type_synonym ranges = "(int \<times> int) list"

section \<open>Range lists\<close>

definition in_ranges :: "int \<Rightarrow> ranges \<Rightarrow> bool" where
  "in_ranges cp rs \<longleftrightarrow> (\<exists>(a, b)\<in>set rs. a \<le> cp \<and> cp \<le> b)"

text \<open>Sorted, disjoint and not adjacent, each with its ends in order.\<close>

definition ranges_ok :: "ranges \<Rightarrow> bool" where
  "ranges_ok rs \<longleftrightarrow> sorted_wrt (\<lambda>r r'. snd r + 1 < fst r') rs \<and> (\<forall>(a, b)\<in>set rs. a \<le> b)"

lemma in_ranges_simps [simp]:
  "in_ranges cp [] = False"
  "in_ranges cp ((a, b) # rs) \<longleftrightarrow> (a \<le> cp \<and> cp \<le> b) \<or> in_ranges cp rs"
  "in_ranges cp (rs @ rs') \<longleftrightarrow> in_ranges cp rs \<or> in_ranges cp rs'"
  by (auto simp: in_ranges_def)

lemma ranges_ok_simps [simp]:
  "ranges_ok []"
  "ranges_ok ((a, b) # rs) \<longleftrightarrow> a \<le> b \<and> (\<forall>r\<in>set rs. b + 1 < fst r) \<and> ranges_ok rs"
  by (auto simp: ranges_ok_def)

lemma ranges_ok_append:
  "ranges_ok (rs @ rs') \<longleftrightarrow> ranges_ok rs \<and> ranges_ok rs' \<and> (\<forall>r\<in>set rs. \<forall>r'\<in>set rs'. snd r + 1 < fst r')"
  by (auto simp: ranges_ok_def sorted_wrt_append)

lemma in_ranges_above: "\<forall>r\<in>set rs. b + 1 < fst r \<Longrightarrow> in_ranges cp rs \<Longrightarrow> b + 1 < cp"
  by (force simp: in_ranges_def)

lemma ranges_ok_least: "ranges_ok ((a, b) # rs) \<Longrightarrow> in_ranges cp ((a, b) # rs) \<Longrightarrow> a \<le> cp"
  using in_ranges_above [of rs b cp] by auto

lemma in_ranges_rest:
  assumes "ranges_ok ((a, b) # rs)"
  shows "in_ranges cp rs \<longleftrightarrow> in_ranges cp ((a, b) # rs) \<and> b < cp"
  using assms in_ranges_above [of rs b cp] by auto

lemma ranges_end_le:
  assumes "ranges_ok ((a, b) # rs)" and "a \<le> d"
    and "\<And>cp. a \<le> cp \<and> cp \<le> d \<Longrightarrow> in_ranges cp ((a, b) # rs)"
  shows "d \<le> b"
proof (rule ccontr)
  assume "\<not> d \<le> b"
  then have "in_ranges (b + 1) ((a, b) # rs)" using assms(1) by (intro assms(3)) auto
  then have "in_ranges (b + 1) rs" by simp
  then show False using in_ranges_above [of rs b "b + 1"] assms(1) by simp
qed

theorem ranges_ok_unique:
  assumes "ranges_ok rs" and "ranges_ok rs'" and "\<And>cp. in_ranges cp rs = in_ranges cp rs'"
  shows "rs = rs'"
  using assms
proof (induction rs arbitrary: rs')
  case Nil
  show ?case
  proof (cases rs')
    case (Cons r ss)
    then have "in_ranges (fst r) rs'" using Nil.prems(2) by (cases r) auto
    then show ?thesis using Nil.prems(3) [of "fst r"] by simp
  qed simp
next
  case (Cons r rs)
  obtain a b where r: "r = (a, b)" by (cases r)
  have ab: "a \<le> b" using Cons.prems(1) r by simp
  then have "in_ranges a rs'" using Cons.prems(3) [of a] r by simp
  then obtain c d ss where s: "rs' = (c, d) # ss" by (cases rs') auto
  have cd: "c \<le> d" using Cons.prems(2) s by simp
  have "c \<le> a"
    using ranges_ok_least Cons.prems(2) \<open>in_ranges a rs'\<close> s by blast
  moreover have "a \<le> c"
    using ranges_ok_least [of a b rs c] Cons.prems(1,3) cd r s by auto
  ultimately have ac: "a = c" by simp
  have "d \<le> b"
    by (rule ranges_end_le [of a b rs]) (use Cons.prems(1,3) r s ac cd in auto)
  moreover have "b \<le> d"
    by (rule ranges_end_le [of a d ss]) (use Cons.prems(2) Cons.prems(3) [symmetric] r s ac ab in auto)
  ultimately have bd: "b = d" by simp
  have "in_ranges cp rs = in_ranges cp ss" for cp
    using in_ranges_rest [of a b rs cp] in_ranges_rest [of c d ss cp] Cons.prems r s ac bd by simp
  then show ?case
    using Cons.IH [of ss] Cons.prems(1,2) r s ac bd by simp
qed

section \<open>The ranges of a predicate\<close>

locale range_table =
  fixes table :: "(int \<Rightarrow> bool) \<Rightarrow> ranges"
    and covers :: "int \<Rightarrow> bool"
  assumes table_ok: "ranges_ok (table p)"
    and table_mem: "in_ranges cp (table p) \<longleftrightarrow> covers cp \<and> p cp"
begin

lemma table_cong: "(\<And>cp. covers cp \<Longrightarrow> p cp = q cp) \<Longrightarrow> table p = table q"
  by (rule ranges_ok_unique) (auto simp: table_ok table_mem)

lemma table_unique: "ranges_ok rs \<Longrightarrow> (\<And>cp. in_ranges cp rs \<longleftrightarrow> covers cp \<and> p cp) \<Longrightarrow> rs = table p"
  by (rule ranges_ok_unique) (auto simp: table_ok table_mem)

end

text \<open>
  The loop of \<open>rangesOfSource\<close>: \<open>test cp\<close> is \<open>regExp.test(String.fromCodePoint(cp))\<close>, \<open>first\<close> the
  open range's start or -1. Without surrogates the loop closes the open range at U+D800 and goes on
  after U+DFFF.
\<close>

definition close_range :: "int \<Rightarrow> int \<Rightarrow> ranges \<Rightarrow> ranges" where
  "close_range first end ranges = (if 0 \<le> first then ranges @ [(first, end)] else ranges)"

function scan_ranges :: "(int \<Rightarrow> bool) \<Rightarrow> bool \<Rightarrow> int \<Rightarrow> int \<Rightarrow> ranges \<Rightarrow> ranges" where
  "scan_ranges test surrogates cp first ranges =
     (if cp > MAX_CODE_POINT then close_range first MAX_CODE_POINT ranges
      else if \<not> surrogates \<and> cp = 55296 then
        scan_ranges test surrogates (57343 + 1) (- 1) (close_range first (55296 - 1) ranges)
      else if test cp then
        scan_ranges test surrogates (cp + 1) (if first < 0 then cp else first) ranges
      else
        scan_ranges test surrogates (cp + 1) (- 1) (close_range first (cp - 1) ranges))"
  by pat_completeness auto
termination
  by (relation "measure (\<lambda>(test, surrogates, cp, first, ranges). nat (MAX_CODE_POINT + 1 - cp))")
    (auto simp: MAX_CODE_POINT_def)

declare scan_ranges.simps [simp del]

definition ranges_of_test :: "bool \<Rightarrow> (int \<Rightarrow> bool) \<Rightarrow> ranges" where
  "ranges_of_test surrogates test = scan_ranges test surrogates 0 (- 1) []"

text \<open>The loop of \<open>ranges\<close> in generate_case_tables.mjs: every surrogate is passed over one by one.\<close>

function scan_case_ranges :: "(int \<Rightarrow> bool) \<Rightarrow> int \<Rightarrow> int \<Rightarrow> ranges \<Rightarrow> ranges" where
  "scan_case_ranges test cp first out =
     (if cp > MAX_CODE_POINT then close_range first MAX_CODE_POINT out
      else if 55296 \<le> cp \<and> cp \<le> 57343 then
        scan_case_ranges test (cp + 1) (- 1) (close_range first (cp - 1) out)
      else if test cp then
        scan_case_ranges test (cp + 1) (if first < 0 then cp else first) out
      else
        scan_case_ranges test (cp + 1) (- 1) (close_range first (cp - 1) out))"
  by pat_completeness auto
termination
  by (relation "measure (\<lambda>(test, cp, first, out). nat (MAX_CODE_POINT + 1 - cp))") auto

declare scan_case_ranges.simps [simp del]

definition case_ranges :: "(int \<Rightarrow> bool) \<Rightarrow> ranges" where
  "case_ranges test = scan_case_ranges test 0 (- 1) []"

text \<open>
  The state of both loops before code point \<open>cp\<close>: the closed ranges and the open one hold exactly
  the accepted code points below \<open>cp\<close>, and a closed range ends before \<open>cp - 1\<close>.
\<close>

definition open_ranges :: "int \<Rightarrow> int \<Rightarrow> ranges \<Rightarrow> ranges" where
  "open_ranges cp first ranges = close_range first (cp - 1) ranges"

definition scan_inv :: "(int \<Rightarrow> bool) \<Rightarrow> int \<Rightarrow> int \<Rightarrow> ranges \<Rightarrow> bool" where
  "scan_inv acc cp first ranges \<longleftrightarrow> - 1 \<le> first \<and> first < cp \<and> ranges_ok (open_ranges cp first ranges)
     \<and> (first < 0 \<longrightarrow> (\<forall>r\<in>set ranges. snd r + 1 < cp))
     \<and> (\<forall>x. in_ranges x (open_ranges cp first ranges) \<longleftrightarrow> 0 \<le> x \<and> x < cp \<and> acc x)"

lemma scan_inv_init: "scan_inv acc 0 (- 1) []"
  by (auto simp: scan_inv_def open_ranges_def close_range_def)

lemma scan_inv_hit:
  assumes "scan_inv acc cp first ranges" and "acc cp" and "0 \<le> cp"
  shows "scan_inv acc (cp + 1) (if first < 0 then cp else first) ranges"
proof (cases "first < 0")
  case True
  then show ?thesis
    using assms by (auto simp: scan_inv_def open_ranges_def close_range_def ranges_ok_append)
next
  case False
  have less: "first < cp" using assms(1) by (simp add: scan_inv_def)
  have mem: "in_ranges x (ranges @ [(first, cp - 1)]) \<longleftrightarrow> 0 \<le> x \<and> x < cp \<and> acc x" for x
    using assms(1) False by (simp add: scan_inv_def open_ranges_def close_range_def)
  have "in_ranges x (ranges @ [(first, cp)]) \<longleftrightarrow> 0 \<le> x \<and> x < cp + 1 \<and> acc x" for x
    using mem [of x] assms(2,3) less by (cases "x = cp") auto
  then show ?thesis
    using assms False by (auto simp: scan_inv_def open_ranges_def close_range_def ranges_ok_append)
qed

lemma scan_inv_skip:
  assumes "scan_inv acc cp first ranges" and "\<And>x. cp \<le> x \<Longrightarrow> x < cp' \<Longrightarrow> \<not> acc x" and "cp < cp'"
  shows "scan_inv acc cp' (- 1) (close_range first (cp - 1) ranges)"
proof (cases "first < 0")
  case True
  have ext: "0 \<le> x \<and> x < cp' \<and> acc x \<longleftrightarrow> 0 \<le> x \<and> x < cp \<and> acc x" for x
    using assms(2) [of x] assms(3) by (cases "cp \<le> x") auto
  moreover have "\<forall>r\<in>set ranges. snd r + 1 < cp'"
    using assms(1,3) True by (fastforce simp: scan_inv_def)
  ultimately show ?thesis
    using assms(1,3) True by (simp add: scan_inv_def open_ranges_def close_range_def)
next
  case False
  have mem: "in_ranges x (ranges @ [(first, cp - 1)]) \<longleftrightarrow> 0 \<le> x \<and> x < cp \<and> acc x" for x
    using assms(1) False by (simp add: scan_inv_def open_ranges_def close_range_def)
  have "0 \<le> x \<and> x < cp' \<and> acc x \<longleftrightarrow> 0 \<le> x \<and> x < cp \<and> acc x" for x
    using assms(2) [of x] assms(3) by (cases "cp \<le> x") auto
  moreover have "\<forall>r\<in>set ranges. snd r + 1 < cp'"
    using assms(1,3) False by (force simp: scan_inv_def open_ranges_def close_range_def ranges_ok_append)
  ultimately show ?thesis
    using assms False mem by (auto simp: scan_inv_def open_ranges_def close_range_def)
qed

lemma scan_inv_end:
  assumes "scan_inv acc cp first ranges" and "cp = MAX_CODE_POINT + 1"
  shows "ranges_ok (close_range first MAX_CODE_POINT ranges)"
    and "in_ranges x (close_range first MAX_CODE_POINT ranges) \<longleftrightarrow> 0 \<le> x \<and> x \<le> MAX_CODE_POINT \<and> acc x"
  using assms by (auto simp: scan_inv_def open_ranges_def)

text \<open>The code points a table covers: all of them, or all but the surrogates.\<close>

definition covered :: "bool \<Rightarrow> int \<Rightarrow> bool" where
  "covered surrogates cp \<longleftrightarrow> 0 \<le> cp \<and> cp \<le> MAX_CODE_POINT \<and> (surrogates \<or> \<not> isSurrogate cp)"

lemma scan_ranges_correct:
  assumes "scan_inv (\<lambda>x. covered surrogates x \<and> test x) cp first ranges"
    and "0 \<le> cp" and "cp \<le> MAX_CODE_POINT + 1" and "surrogates \<or> \<not> (55296 < cp \<and> cp \<le> 57343)"
  shows "ranges_ok (scan_ranges test surrogates cp first ranges)
    \<and> (\<forall>x. in_ranges x (scan_ranges test surrogates cp first ranges) \<longleftrightarrow> covered surrogates x \<and> test x)"
  using assms
proof (induction test surrogates cp first ranges rule: scan_ranges.induct)
  case (1 test surrogates cp first ranges)
  note unf = scan_ranges.simps [of test surrogates cp first ranges]
  show ?case
  proof (cases "cp > MAX_CODE_POINT")
    case True
    then have "cp = MAX_CODE_POINT + 1" using "1.prems"(3) by simp
    from scan_inv_end [OF "1.prems"(1) this] show ?thesis
      using True unf by (auto simp: covered_def)
  next
    case max: False
    show ?thesis
    proof (cases "\<not> surrogates \<and> cp = 55296")
      case True
      then have "scan_inv (\<lambda>x. covered surrogates x \<and> test x) (57343 + 1) (- 1) (close_range first (55296 - 1) ranges)"
        using scan_inv_skip [OF "1.prems"(1), of "57343 + 1"]
        by (simp add: covered_def isSurrogate_def)
      from "1.IH"(1) [OF max True this] show ?thesis
        unfolding unf if_not_P [OF max] if_P [OF True] by (simp add: MAX_CODE_POINT_def)
    next
      case sur: False
      have cov: "covered surrogates cp"
        using max sur "1.prems"(2,4) by (auto simp: covered_def isSurrogate_def)
      have bnd: "0 \<le> cp + 1" "cp + 1 \<le> MAX_CODE_POINT + 1" "surrogates \<or> \<not> (55296 < cp + 1 \<and> cp + 1 \<le> 57343)"
        using max sur "1.prems"(2,4) by auto
      show ?thesis
      proof (cases "test cp")
        case True
        have "scan_inv (\<lambda>x. covered surrogates x \<and> test x) (cp + 1) (if first < 0 then cp else first) ranges"
          by (rule scan_inv_hit [OF "1.prems"(1)]) (use cov True "1.prems"(2) in auto)
        from "1.IH"(2) [OF max sur True this bnd] show ?thesis
          unfolding unf if_not_P [OF max] if_not_P [OF sur] if_P [OF True] .
      next
        case False
        have "scan_inv (\<lambda>x. covered surrogates x \<and> test x) (cp + 1) (- 1) (close_range first (cp - 1) ranges)"
          by (rule scan_inv_skip [OF "1.prems"(1)]) (use False in \<open>auto dest: zless_imp_add1_zle intro: order_antisym\<close>)
        from "1.IH"(3) [OF max sur False this bnd] show ?thesis
          unfolding unf if_not_P [OF max] if_not_P [OF sur] if_not_P [OF False] .
      qed
    qed
  qed
qed

lemma scan_case_ranges_correct:
  assumes "scan_inv (\<lambda>x. covered False x \<and> test x) cp first out" and "0 \<le> cp" and "cp \<le> MAX_CODE_POINT + 1"
  shows "ranges_ok (scan_case_ranges test cp first out)
    \<and> (\<forall>x. in_ranges x (scan_case_ranges test cp first out) \<longleftrightarrow> covered False x \<and> test x)"
  using assms
proof (induction test cp first out rule: scan_case_ranges.induct)
  case (1 test cp first out)
  note unf = scan_case_ranges.simps [of test cp first out]
  have skip: "scan_inv (\<lambda>x. covered False x \<and> test x) (cp + 1) (- 1) (close_range first (cp - 1) out)"
    if "isSurrogate cp \<or> \<not> test cp"
  proof (rule scan_inv_skip [OF "1.prems"(1)])
    fix x
    assume "cp \<le> x" "x < cp + 1"
    then have "x = cp" by simp
    then show "\<not> (covered False x \<and> test x)" using that by (auto simp: covered_def)
  qed simp
  show ?case
  proof (cases "cp > MAX_CODE_POINT")
    case True
    then have "cp = MAX_CODE_POINT + 1" using "1.prems"(3) by simp
    from scan_inv_end [OF "1.prems"(1) this] show ?thesis
      using True unf by (auto simp: covered_def)
  next
    case max: False
    then have bnd: "0 \<le> cp + 1" "cp + 1 \<le> MAX_CODE_POINT + 1" using "1.prems"(2) by auto
    show ?thesis
    proof (cases "55296 \<le> cp \<and> cp \<le> 57343")
      case True
      then have "isSurrogate cp" by (simp add: isSurrogate_def)
      from "1.IH"(1) [OF max True skip [OF disjI1 [OF this]] bnd] show ?thesis
        unfolding unf if_not_P [OF max] if_P [OF True] .
    next
      case sur: False
      show ?thesis
      proof (cases "test cp")
        case True
        have "scan_inv (\<lambda>x. covered False x \<and> test x) (cp + 1) (if first < 0 then cp else first) out"
          by (rule scan_inv_hit [OF "1.prems"(1)])
            (use max sur True "1.prems"(2) in \<open>auto simp: covered_def isSurrogate_def\<close>)
        from "1.IH"(2) [OF max sur True this bnd] show ?thesis
          unfolding unf if_not_P [OF max] if_not_P [OF sur] if_P [OF True] .
      next
        case False
        from "1.IH"(3) [OF max sur False skip [OF disjI2 [OF False]] bnd] show ?thesis
          unfolding unf if_not_P [OF max] if_not_P [OF sur] if_not_P [OF False] .
      qed
    qed
  qed
qed

interpretation all_ranges: range_table "ranges_of_test True" "covered True"
  using scan_ranges_correct [OF scan_inv_init, of True]
  by unfold_locales (simp_all add: ranges_of_test_def MAX_CODE_POINT_def)

interpretation scalar_ranges: range_table "ranges_of_test False" "covered False"
  using scan_ranges_correct [OF scan_inv_init, of False]
  by unfold_locales (simp_all add: ranges_of_test_def MAX_CODE_POINT_def)

interpretation case_table: range_table case_ranges "covered False"
  using scan_case_ranges_correct [OF scan_inv_init]
  by unfold_locales (simp_all add: case_ranges_def MAX_CODE_POINT_def)

section \<open>mergeRanges\<close>

definition range_le :: "int \<times> int \<Rightarrow> int \<times> int \<Rightarrow> bool" where
  "range_le r r' \<longleftrightarrow> fst r < fst r' \<or> (fst r = fst r' \<and> snd r \<le> snd r')"

definition merge_step :: "int \<times> int \<Rightarrow> ranges \<Rightarrow> ranges" where
  "merge_step r merged =
     (if merged \<noteq> [] \<and> fst r \<le> snd (last merged) + 1
      then butlast merged @ [(fst (last merged), max (snd (last merged)) (snd r))]
      else merged @ [r])"

definition mergeRanges :: "ranges \<Rightarrow> ranges" where
  "mergeRanges rs = fold merge_step (sort_by range_le rs) []"

lemma sorted_range_le: "sorted_wrt range_le (sort_by range_le rs)"
  by (rule sorted_sort_by) (auto simp: range_le_def)

lemma merge_step_snoc:
  "merge_step r (m @ [(a, b)]) = (if fst r \<le> b + 1 then m @ [(a, max b (snd r))] else m @ [(a, b), r])"
  by (simp add: merge_step_def)

lemma merge_step_mem:
  assumes "fst r \<le> snd r" and "merged = [] \<or> fst (last merged) \<le> fst r" and "ranges_ok merged"
  shows "in_ranges x (merge_step r merged) \<longleftrightarrow> in_ranges x merged \<or> (fst r \<le> x \<and> x \<le> snd r)"
proof (cases merged rule: rev_cases)
  case Nil
  then show ?thesis by (cases r) (simp add: merge_step_def)
next
  case (snoc m p)
  obtain a b where p: "p = (a, b)" by (cases p)
  obtain c d where r: "r = (c, d)" by (cases r)
  show ?thesis using assms unfolding snoc p r merge_step_snoc by (auto simp: max_def)
qed

lemma merge_step_ok:
  assumes "fst r \<le> snd r" and "merged = [] \<or> fst (last merged) \<le> fst r" and "ranges_ok merged"
  shows "ranges_ok (merge_step r merged)" and "fst (last (merge_step r merged)) \<le> fst r"
proof -
  have "ranges_ok (merge_step r merged) \<and> fst (last (merge_step r merged)) \<le> fst r"
  proof (cases merged rule: rev_cases)
    case Nil
    then show ?thesis using assms(1) by (cases r) (simp add: merge_step_def)
  next
    case (snoc m p)
    obtain a b where p: "p = (a, b)" by (cases p)
    obtain c d where r: "r = (c, d)" by (cases r)
    show ?thesis
      using assms unfolding snoc p r merge_step_snoc by (force simp: ranges_ok_append)
  qed
  then show "ranges_ok (merge_step r merged)" "fst (last (merge_step r merged)) \<le> fst r" by blast+
qed

lemma fold_merge_step:
  assumes "sorted_wrt range_le rs" and "\<forall>r\<in>set rs. fst r \<le> snd r" and "ranges_ok merged"
    and "merged = [] \<or> (\<forall>r\<in>set rs. fst (last merged) \<le> fst r)"
  shows "ranges_ok (fold merge_step rs merged)
    \<and> (\<forall>x. in_ranges x (fold merge_step rs merged) \<longleftrightarrow> in_ranges x merged \<or> in_ranges x rs)"
  using assms
proof (induction rs arbitrary: merged)
  case Nil
  then show ?case by simp
next
  case (Cons r rs)
  have r: "fst r \<le> snd r" and first: "merged = [] \<or> fst (last merged) \<le> fst r"
    using Cons.prems by auto
  note step = merge_step_ok [OF r first Cons.prems(3)] merge_step_mem [OF r first Cons.prems(3)]
  have "\<forall>r'\<in>set rs. fst (last (merge_step r merged)) \<le> fst r'"
    using step(2) Cons.prems(1) by (force simp: range_le_def)
  from Cons.IH [OF _ _ step(1) disjI2 [OF this]] show ?case
    using Cons.prems step(3) by (cases r) auto
qed

lemma in_ranges_set: "set rs = set rs' \<Longrightarrow> in_ranges x rs = in_ranges x rs'"
  by (simp add: in_ranges_def)

lemma mergeRanges_correct:
  assumes "\<forall>r\<in>set rs. fst r \<le> snd r"
  shows "ranges_ok (mergeRanges rs)" and "in_ranges x (mergeRanges rs) = in_ranges x rs"
  using fold_merge_step [OF sorted_range_le, of rs "[]"] assms in_ranges_set [of "sort_by range_le rs" rs x]
  by (auto simp: mergeRanges_def)

section \<open>Ranges as the items of a bracket expression\<close>

definition range_item :: "int \<times> int \<Rightarrow> jstr" where
  "range_item r = (if fst r = snd r then unicodeEscape (fst r)
     else unicodeEscape (fst r) @ [45] @ unicodeEscape (snd r))"

definition rangesToItems :: "ranges \<Rightarrow> jstr" where
  "rangesToItems rs = concat (map range_item rs)"

definition pattern_item :: "int \<times> int \<Rightarrow> class_error + jstr" where
  "pattern_item r =
     (if snd r > 65535 then Inl (class_error (InClass MembersAboveFFFF))
      else Inr (if fst r = snd r then [92, 117] @ hex (fst r) 4
                else [92, 117] @ hex (fst r) 4 @ [45, 92, 117] @ hex (snd r) 4))"

definition rangesToPatternItems :: "ranges \<Rightarrow> class_error + jstr" where
  "rangesToPatternItems rs = bindE (mapE pattern_item rs) (\<lambda>items. Inr (concat items))"

section \<open>Properties\<close>

text \<open>\<open>rangesOfSource\<close> gives sorted ranges, disjoint and not adjacent, that hold exactly the
  code points the expression accepts, the surrogates only when asked for.\<close>

theorem ranges_of_test_canonical:
  "ranges_ok (ranges_of_test surrogates test) \<and>
    (in_ranges cp (ranges_of_test surrogates test) \<longleftrightarrow> covered surrogates cp \<and> test cp)"
  using all_ranges.table_ok all_ranges.table_mem scalar_ranges.table_ok scalar_ranges.table_mem
  by (cases surrogates) simp_all

text \<open>C20: \<open>mergeRanges\<close> gives the one canonical list with the members of its argument: two lists of
  ranges with the same members merge to the same list.\<close>

theorem mergeRanges_canonical:
  assumes "\<forall>r\<in>set rs. fst r \<le> snd r"
  shows "ranges_ok (mergeRanges rs) \<and> (\<forall>x. in_ranges x (mergeRanges rs) = in_ranges x rs) \<and>
    (\<forall>rs'. ranges_ok rs' \<and> (\<forall>x. in_ranges x rs' = in_ranges x rs) \<longrightarrow> rs' = mergeRanges rs)"
  using mergeRanges_correct [OF assms] ranges_ok_unique by metis

theorem mergeRanges_canonical_witness:
  "mergeRanges [(5, 9), (1, 2), (3, 4), (20, 21)] = [(1, 9), (20, 21)]"
proof -
  have h: "\<forall>r\<in>set [(5, 9), (1, 2), (3, 4), (20, 21)]. fst r \<le> (snd r :: int)" by simp
  have "ranges_ok [(1, 9), (20, 21)]"
    and "\<forall>x. in_ranges x [(1, 9), (20, 21)] = in_ranges x [(5, 9), (1, 2), (3, 4), (20, 21)]"
    by (simp, auto)
  with mergeRanges_canonical [OF h] show ?thesis by metis
qed

text \<open>The loop of generate_case_tables.mjs, which passes over the surrogates one by one, and the
  loop of \<open>rangesOfSource\<close>, which jumps over them, give the same table.\<close>

theorem case_ranges_eq: "case_ranges test = ranges_of_test False test"
  by (rule scalar_ranges.table_unique) (simp_all only: case_table.table_ok case_table.table_mem)

end
