(* ===== verification/Bracket.thy ===== *)
theory Bracket
  imports Ranges
begin

text \<open>
  The bracket expressions \<open>ClassSet\<close> builds, as \<open>new RegExp(source, 'u')\<close> reads them: \<open>rx_class\<close>
  reads one, \<open>rx_test\<close> tests a code point, with the Unicode database as the parameter \<open>cat\<close>
  (\<open>cat cp\<close> is the two-letter general category of \<open>cp\<close>). \<open>pieces\<close> says that a text is made of
  whole items, so that texts of items may be put together; \<open>rangesToItems\<close> builds such a text, and
  its members are those of the ranges.
\<close>

lemma rx_escape_shorter: "rx_unicode_escape s = Some (a, r) \<Longrightarrow> s \<noteq> [] \<Longrightarrow> length r < length s"
  by (cases s) (auto simp: rx_unicode_escape_def Let_def unit_at_def split: if_splits)

lemma rx_category_shorter: "rx_category s = Some (a, r) \<Longrightarrow> s \<noteq> [] \<Longrightarrow> length r < length s"
  by (cases s) (auto simp: rx_category_def Let_def unit_at_def split: if_splits)

lemma rx_atom_shorter: "rx_atom s = Some (a, r) \<Longrightarrow> length r < length s"
  using from_cp_nonempty
  by (cases "s = []") (auto simp: rx_atom_def dest: rx_escape_shorter rx_category_shorter
      split: option.splits if_splits)

text \<open>The items up to the closing bracket, with what follows it.\<close>

function (sequential) rx_items :: "jstr \<Rightarrow> (rx_item list \<times> jstr) option" where
  "rx_items s =
     (if s = [] then None
      else if unit_at s 0 = Some 93 then Some ([], drop 1 s)
      else (case rx_atom s of
          None \<Rightarrow> None
        | Some (a, s1) \<Rightarrow>
            (if unit_at s1 0 = Some 45 then
               (case rx_atom (drop 1 s1) of
                  None \<Rightarrow> None
                | Some (b, s2) \<Rightarrow> (case (a, b) of
                      (RxChar x, RxChar y) \<Rightarrow>
                        (if x \<le> y then map_option (\<lambda>(its, r). (RxRange x y # its, r)) (rx_items s2) else None)
                    | _ \<Rightarrow> None))
             else map_option (\<lambda>(its, r). (a # its, r)) (rx_items s1))))"
  by pat_completeness auto
termination
  by (relation "measure length") (auto dest!: rx_atom_shorter)

declare rx_items.simps [simp del]

definition rx_class :: "jstr \<Rightarrow> (bool \<times> rx_item list) option" where
  "rx_class s =
     (if \<not> starts_with s [91] then None
      else
        let negated = (unit_at s 1 = Some 94)
        in case rx_items (drop (if negated then 2 else 1) s) of
             Some (its, []) \<Rightarrow> Some (negated, its)
           | _ \<Rightarrow> None)"

definition rx_accepts :: "jstr \<Rightarrow> bool" where
  "rx_accepts s \<longleftrightarrow> rx_class s \<noteq> None"

fun rx_item_mem :: "(int \<Rightarrow> jstr) \<Rightarrow> int \<Rightarrow> rx_item \<Rightarrow> bool" where
  "rx_item_mem cat cp (RxChar c) = (cp = c)"
| "rx_item_mem cat cp (RxRange a b) = (a \<le> cp \<and> cp \<le> b)"
| "rx_item_mem cat cp (RxCategory name) = (cat cp = name \<or> take 1 (cat cp) = name)"

definition rx_mem :: "(int \<Rightarrow> jstr) \<Rightarrow> int \<Rightarrow> rx_item list \<Rightarrow> bool" where
  "rx_mem cat cp its = list_ex (rx_item_mem cat cp) its"

lemma rx_mem_simps [simp]:
  "rx_mem cat cp [] = False"
  "rx_mem cat cp (it # its) \<longleftrightarrow> rx_item_mem cat cp it \<or> rx_mem cat cp its"
  "rx_mem cat cp (its @ its') \<longleftrightarrow> rx_mem cat cp its \<or> rx_mem cat cp its'"
  by (auto simp: rx_mem_def)

text \<open>\<open>new RegExp(`^(?:${source})$`, 'u').test(String.fromCodePoint(cp))\<close>\<close>

definition rx_test :: "(int \<Rightarrow> jstr) \<Rightarrow> jstr \<Rightarrow> int \<Rightarrow> bool" where
  "rx_test cat s cp = (case rx_class s of
       None \<Rightarrow> False
     | Some (negated, its) \<Rightarrow> negated \<noteq> rx_mem cat cp its)"

section \<open>Texts of whole items\<close>

definition piece :: "jstr \<Rightarrow> rx_item \<Rightarrow> bool" where
  "piece raw it \<longleftrightarrow> raw_reads raw it \<or>
     (\<exists>raw1 raw2 a b. raw = raw1 @ [45] @ raw2 \<and> it = RxRange a b \<and> a \<le> b \<and>
        raw_reads raw1 (RxChar a) \<and> raw_reads raw2 (RxChar b))"

definition pieces :: "jstr \<Rightarrow> rx_item list \<Rightarrow> bool" where
  "pieces inner its \<longleftrightarrow> (\<exists>ps. inner = concat ps \<and> list_all2 piece ps its)"

lemma pieces_Nil [simp]: "pieces [] []"
  by (auto simp: pieces_def intro: exI [of _ "[]"])

lemma pieces_append: "pieces x its \<Longrightarrow> pieces y its' \<Longrightarrow> pieces (x @ y) (its @ its')"
  unfolding pieces_def by (metis concat_append list_all2_appendI)

lemma pieces_piece: "piece raw it \<Longrightarrow> pieces raw [it]"
  unfolding pieces_def by (rule exI [of _ "[raw]"]) simp

lemma piece_head: "piece raw it \<Longrightarrow> raw \<noteq> [] \<and> hd raw \<noteq> 45 \<and> hd raw \<noteq> 93 \<and> hd raw \<noteq> 94"
  by (auto simp: piece_def raw_reads_def)

lemma unit_at_append_head: "raw \<noteq> [] \<Longrightarrow> unit_at (raw @ t) 0 = Some (hd raw)"
  by (cases raw) (simp_all add: unit_at_def)

lemma pieces_head:
  assumes "list_all2 piece ps its"
  shows "unit_at (concat ps @ 93 # t) 0 \<noteq> Some 45" and "unit_at (concat ps @ 93 # t) 0 \<noteq> Some 94"
  using assms
  by (cases ps; auto simp: unit_at_def list_all2_Cons1 dest: piece_head split: if_splits;
      metis hd_append2 hd_conv_nth Nil_is_append_conv append_is_Nil_conv piece_head)+

lemma rx_items_pieces:
  assumes "list_all2 piece ps its"
  shows "rx_items (concat ps @ 93 # t) = Some (its, t)"
  using assms
proof (induction ps its)
  case Nil
  show ?case by (subst rx_items.simps) (simp add: unit_at_def)
next
  case (Cons p ps it its)
  let ?s = "concat ps @ 93 # t"
  note ph = piece_head [OF Cons.hyps(1)] and nd = pieces_head(1) [OF Cons.hyps(2), of t]
  have head: "unit_at (p @ ?s) 0 \<noteq> Some 93" and ne: "p @ ?s \<noteq> []"
    using ph by (auto simp: unit_at_append_head)
  have "rx_items (p @ ?s) = Some (it # its, t)"
  proof (cases "raw_reads p it")
    case True
    then have "rx_atom (p @ ?s) = Some (it, ?s)" by (simp add: raw_reads_def)
    then show ?thesis
      using head ne nd Cons.IH by (subst rx_items.simps) simp
  next
    case False
    then obtain r1 r2 a b where p: "p = r1 @ [45] @ r2" and it: "it = RxRange a b" and ab: "a \<le> b"
      and r: "raw_reads r1 (RxChar a)" "raw_reads r2 (RxChar b)"
      using Cons.hyps(1) by (auto simp: piece_def)
    have 1: "rx_atom (p @ ?s) = Some (RxChar a, 45 # r2 @ ?s)" using r(1) p by (simp add: raw_reads_def)
    have 2: "rx_atom (r2 @ ?s) = Some (RxChar b, ?s)" using r(2) by (simp add: raw_reads_def)
    show ?thesis
      using head ne 1 2 ab it Cons.IH by (subst rx_items.simps) (simp add: unit_at_def)
  qed
  then show ?case by simp
qed

lemma rx_class_pieces:
  assumes "pieces inner its"
  shows "rx_class ([91] @ (if neg then [94] else []) @ inner @ [93]) = Some (neg, its)"
proof -
  obtain ps where ps: "inner = concat ps" "list_all2 piece ps its"
    using assms by (auto simp: pieces_def)
  have r: "rx_items (inner @ [93]) = Some (its, [])"
    using rx_items_pieces [OF ps(2), of "[]"] ps(1) by simp
  have h: "unit_at (inner @ [93]) 0 \<noteq> Some 94"
    using pieces_head(2) [OF ps(2), of "[]"] ps(1) by simp
  show ?thesis
    using r h by (auto simp: rx_class_def starts_with_def unit_at_def Let_def)
qed

section \<open>Escapes the module writes\<close>

lemma hex_upper_digit_ok:
  "0 \<le> d \<Longrightarrow> d < 16 \<Longrightarrow> is_hex (hex_upper_digit d) \<and> hex_of (hex_upper_digit d) = d"
  by (auto simp: hex_upper_digit_def is_hex_def hex_of_def is_digit_def)

lemma hex_digits_ok: "list_all is_hex (hex_digits n) \<and> hex_val (hex_digits n) = int n \<and> hex_digits n \<noteq> []"
proof (induction n rule: hex_digits.induct)
  case (1 n)
  show ?case
  proof (cases "n < 16")
    case True
    then show ?thesis
      using hex_upper_digit_ok [of "int n"] by (subst (1 2 3) hex_digits.simps) (simp add: hex_val_def)
  next
    case False
    then have n: "hex_digits n = hex_digits (n div 16) @ [hex_upper_digit (int (n mod 16))]"
      by (subst hex_digits.simps) simp
    have "16 * int (n div 16) + int (n mod 16) = int n" by (simp add: zdiv_int zmod_int)
    then show ?thesis
      using 1 [OF False] hex_upper_digit_ok [of "int (n mod 16)"] unfolding n by (simp add: hex_val_snoc)
  qed
qed

lemma hex_val_zeros: "hex_val (replicate k 48 @ ds) = hex_val ds"
  by (induction k) (simp_all add: hex_val_def hex_of_def is_digit_def)

lemma hex_ok:
  assumes "0 \<le> cp"
  shows "list_all is_hex (hex cp w)" and "hex_val (hex cp w) = cp" and "hex cp w \<noteq> []"
  using hex_digits_ok [of "nat cp"] assms
  by (auto simp: hex_def Let_def hex_val_zeros list_all_iff is_hex_def is_digit_def)

lemma hex_digits_length: "n < 16 ^ Suc k \<Longrightarrow> length (hex_digits n) \<le> Suc k"
proof (induction k arbitrary: n)
  case 0
  then show ?case by (subst hex_digits.simps) simp
next
  case (Suc k)
  have "n div 16 < 16 ^ Suc k" using Suc.prems by (simp add: less_mult_imp_div_less)
  from Suc.IH [OF this] show ?case by (subst hex_digits.simps) simp
qed

lemma hex4_length: "0 \<le> cp \<Longrightarrow> cp \<le> 65535 \<Longrightarrow> length (hex cp 4) = 4"
  using hex_digits_length [of "nat cp" 3] by (auto simp: hex_def Let_def)

lemma raw_reads_unicodeEscape:
  assumes "0 \<le> cp" and "cp \<le> MAX_CODE_POINT"
  shows "raw_reads (unicodeEscape cp) (RxChar cp)"
proof (cases "cp \<le> 65535 \<and> \<not> isSurrogate cp")
  case True
  then show ?thesis
    using raw_reads_four [of "hex cp 4"] hex_ok [OF assms(1), of 4] hex4_length [OF assms(1)]
    by (simp add: unicodeEscape_def)
next
  case False
  then show ?thesis
    using raw_reads_braces [of "hex cp 1"] hex_ok [OF assms(1), of 1] assms(2)
    by (auto simp: unicodeEscape_def)
qed

definition range_rx :: "int \<times> int \<Rightarrow> rx_item" where
  "range_rx r = (if fst r = snd r then RxChar (fst r) else RxRange (fst r) (snd r))"

lemma pieces_rangesToItems:
  assumes "\<forall>(a, b)\<in>set rs. 0 \<le> a \<and> a \<le> b \<and> b \<le> MAX_CODE_POINT"
  shows "pieces (rangesToItems rs) (map range_rx rs)"
  using assms
proof (induction rs)
  case Nil
  then show ?case by (simp add: rangesToItems_def)
next
  case (Cons r rs)
  obtain a b where r: "r = (a, b)" by (cases r)
  have "raw_reads (unicodeEscape a) (RxChar a)" "raw_reads (unicodeEscape b) (RxChar b)" "a \<le> b"
    using Cons.prems r raw_reads_unicodeEscape by auto
  then have "piece (range_item r) (range_rx r)"
    unfolding piece_def range_item_def range_rx_def r by (simp split: if_splits) blast
  from pieces_append [OF pieces_piece [OF this] Cons.IH] show ?case
    using Cons.prems by (simp add: rangesToItems_def)
qed

lemma rx_mem_range_rx: "\<forall>(a, b)\<in>set rs. a \<le> b \<Longrightarrow> rx_mem cat cp (map range_rx rs) = in_ranges cp rs"
  by (induction rs) (auto simp: range_rx_def)

end
