(* ===== verification/Class_Set.thy ===== *)
theory Class_Set
  imports Bracket
begin

text \<open>
  The class \<open>ClassSet\<close> of tools/lib/classes.mjs: the constructor, the expansion of references with
  its cache of expansions, and the methods over class fields. \<open>cat\<close> is the Unicode general category
  of a code point. \<open>denotes_*\<close> is the meaning of a class: the members its references stand for,
  resolved, with no texts. The lemmas show that an expansion means what the class denotes, and that
  the constructor accepts exactly the sets of classes whose references are defined and acyclic.
\<close>

record expansion =
  ex_negated :: bool
  ex_inner :: jstr
  ex_source :: jstr

type_synonym definitions = "(jstr \<times> class_ast) list"
type_synonym expansions = "(jstr \<times> expansion) list"

record class_set =
  cs_definitions :: definitions
  cs_expansions :: expansions

definition bracket_source :: "bool \<Rightarrow> jstr \<Rightarrow> jstr" where
  "bracket_source negated inner = [91] @ (if negated then [94] else []) @ inner @ [93]"

definition class_path :: "jstr \<Rightarrow> jstr" where
  "class_path name = js ''classes.'' @ name"

text \<open>
  \<open>rangesOfSource(source, {surrogates})\<close>. The \<open>SyntaxError\<close> of \<open>new RegExp\<close> is given the reason
  \<open>JsRejects\<close>. \<open>rangesOfSource_cached\<close> is the function with the module's \<open>rangeCache\<close>.
\<close>

definition rangesOfSource :: "(int \<Rightarrow> jstr) \<Rightarrow> bool \<Rightarrow> jstr \<Rightarrow> class_error + ranges" where
  "rangesOfSource cat surrogates source =
     (if rx_accepts source then Inr (ranges_of_test surrogates (rx_test cat source))
      else Inl (class_error (InClass (JsRejects source))))"

definition range_key :: "bool \<Rightarrow> jstr \<Rightarrow> jstr" where
  "range_key surrogates source = (if surrogates then 115 else 110) # source"

definition rangesOfSource_cached ::
    "(int \<Rightarrow> jstr) \<Rightarrow> (jstr \<times> ranges) list \<Rightarrow> bool \<Rightarrow> jstr \<Rightarrow> class_error + ranges \<times> (jstr \<times> ranges) list" where
  "rangesOfSource_cached cat cache surrogates source =
     (case map_of cache (range_key surrogates source) of
        Some cached \<Rightarrow> Inr (cached, cache)
      | None \<Rightarrow> bindE (rangesOfSource cat surrogates source)
          (\<lambda>rs. Inr (rs, om_set (range_key surrogates source) rs cache)))"

definition range_cache_ok :: "(int \<Rightarrow> jstr) \<Rightarrow> (jstr \<times> ranges) list \<Rightarrow> bool" where
  "range_cache_ok cat cache \<longleftrightarrow>
     (\<forall>surrogates source rs. map_of cache (range_key surrogates source) = Some rs \<longrightarrow>
        rangesOfSource cat surrogates source = Inr rs)"

lemma range_key_inj [simp]: "range_key a s = range_key b t \<longleftrightarrow> a = b \<and> s = t"
  by (auto simp: range_key_def)

lemma rangesOfSource_cached_transparent:
  assumes "range_cache_ok cat cache"
  shows "rangesOfSource_cached cat cache surrogates source =
      bindE (rangesOfSource cat surrogates source)
        (\<lambda>rs. Inr (rs, if map_of cache (range_key surrogates source) = None
           then om_set (range_key surrogates source) rs cache else cache))"
    and "rangesOfSource_cached cat cache surrogates source = Inr (rs, cache') \<Longrightarrow> range_cache_ok cat cache'"
proof -
  show "rangesOfSource_cached cat cache surrogates source =
      bindE (rangesOfSource cat surrogates source)
        (\<lambda>rs. Inr (rs, if map_of cache (range_key surrogates source) = None
           then om_set (range_key surrogates source) rs cache else cache))"
    using assms by (auto simp: rangesOfSource_cached_def range_cache_ok_def split: option.splits)
  assume "rangesOfSource_cached cat cache surrogates source = Inr (rs, cache')"
  then show "range_cache_ok cat cache'"
    using assms by (auto simp: rangesOfSource_cached_def range_cache_ok_def split: option.splits if_splits)
qed

section \<open>Expansion\<close>

text \<open>\<open>#expandName\<close>, \<open>#expandAst\<close> and its loop over the items, with \<open>#expansions\<close> as the state.\<close>

function (sequential)
  expand_name :: "(int \<Rightarrow> jstr) \<Rightarrow> definitions \<Rightarrow> expansions \<Rightarrow> jstr \<Rightarrow> jstr list
      \<Rightarrow> class_error + expansion \<times> expansions"
and expand_ast :: "(int \<Rightarrow> jstr) \<Rightarrow> definitions \<Rightarrow> expansions \<Rightarrow> class_ast \<Rightarrow> jstr list
      \<Rightarrow> class_error + expansion \<times> expansions"
and expand_items :: "(int \<Rightarrow> jstr) \<Rightarrow> definitions \<Rightarrow> expansions \<Rightarrow> class_item list \<Rightarrow> jstr list
      \<Rightarrow> class_error + jstr \<times> expansions" where
  "expand_name cat defs memo name stack = (case map_of memo name of
       Some ex \<Rightarrow> Inr (ex, memo)
     | None \<Rightarrow>
         (if name \<in> set stack then
            Inl (error_path (Some (class_path (hd stack)))
              (InClass (ReferenceCycle (dropWhile (\<lambda>n. n \<noteq> name) stack @ [name]))))
          else (case map_of defs name of
              None \<Rightarrow> Inl (error_path (if stack = [] then None else Some (class_path (last stack)))
                (InClass (NamesNoClass name)))
            | Some ast \<Rightarrow>
                bindE (expand_ast cat defs memo ast (stack @ [name])) (\<lambda>(ex, memo').
                  if rx_accepts (ex_source ex) then Inr (ex, om_set name ex memo')
                  else Inl (error_path (Some (class_path name)) (InClass (JsRejects (ex_source ex))))))))"
| "expand_ast cat defs memo (ARef name) stack = expand_name cat defs memo name stack"
| "expand_ast cat defs memo (ASet negated items) stack =
     bindE (expand_items cat defs memo items stack) (\<lambda>(inner, memo').
       Inr (\<lparr>ex_negated = negated, ex_inner = inner, ex_source = bracket_source negated inner\<rparr>, memo'))"
| "expand_items cat defs memo [] stack = Inr ([], memo)"
| "expand_items cat defs memo (CRef name raw # items) stack =
     bindE (expand_name cat defs memo name stack) (\<lambda>(target, memo1).
       bindE (if ex_negated target
              then bindE (rangesOfSource cat True (ex_source target)) (\<lambda>rs. Inr (rangesToItems rs))
              else Inr (ex_inner target)) (\<lambda>t.
         bindE (expand_items cat defs memo1 items stack) (\<lambda>(rest, memo2). Inr (t @ rest, memo2))))"
| "expand_items cat defs memo (CChar c raw # items) stack =
     bindE (expand_items cat defs memo items stack) (\<lambda>(rest, memo2). Inr (raw @ rest, memo2))"
| "expand_items cat defs memo (CRange a b raw # items) stack =
     bindE (expand_items cat defs memo items stack) (\<lambda>(rest, memo2). Inr (raw @ rest, memo2))"
| "expand_items cat defs memo (CCategory name raw # items) stack =
     bindE (expand_items cat defs memo items stack) (\<lambda>(rest, memo2). Inr (raw @ rest, memo2))"
  by pat_completeness auto
termination
proof (relation "measures
    [\<lambda>p. case p of
        Inl (cat, defs, memo, name, stack) \<Rightarrow> card (fst ` set defs - set stack)
      | Inr (Inl (cat, defs, memo, ast, stack)) \<Rightarrow> card (fst ` set defs - set stack)
      | Inr (Inr (cat, defs, memo, items, stack)) \<Rightarrow> card (fst ` set defs - set stack),
     \<lambda>p. case p of
        Inl _ \<Rightarrow> 0
      | Inr (Inl (cat, defs, memo, ast, stack)) \<Rightarrow>
          (case ast of ARef _ \<Rightarrow> 1 | ASet _ items \<Rightarrow> length items + 2)
      | Inr (Inr (cat, defs, memo, items, stack)) \<Rightarrow> length items + 1]",
    goal_cases)
  case (2 cat defs memo name stack ast)
  then have "name \<in> fst ` set defs - set stack" by (force dest: map_of_SomeD)
  then have "card (fst ` set defs - set (stack @ [name])) < card (fst ` set defs - set stack)"
    by (intro psubset_card_mono) auto
  then show ?case by (simp split: class_ast.splits)
qed simp_all

declare expand_name.simps [simp del]

text \<open>The constructor: the loop over the entries, then the expansion of every name.\<close>

definition parse_definition :: "definitions \<Rightarrow> jstr \<times> json \<Rightarrow> class_error + definitions" where
  "parse_definition defs = (\<lambda>(name, source).
     if \<not> CLASS_NAME name then Inl (error_path (Some (js ''classes'')) (InClass (BadClassName name)))
     else (case parseClass source of
         Inl e \<Rightarrow> Inl (located_at (class_path name) e)
       | Inr ast \<Rightarrow> Inr (om_set name ast defs)))"

definition parse_definitions :: "(jstr \<times> json) list \<Rightarrow> class_error + definitions" where
  "parse_definitions es = foldE parse_definition [] es"

definition expand_all :: "(int \<Rightarrow> jstr) \<Rightarrow> definitions \<Rightarrow> expansions \<Rightarrow> jstr list \<Rightarrow> class_error + expansions" where
  "expand_all cat defs memo names =
     foldE (\<lambda>memo name. bindE (expand_name cat defs memo name []) (\<lambda>(ex, memo'). Inr memo')) memo names"

definition new_class_set :: "(int \<Rightarrow> jstr) \<Rightarrow> json \<Rightarrow> class_error + class_set" where
  "new_class_set cat v =
     bindE (case v of
         JUndef \<Rightarrow> Inr [] | JNull \<Rightarrow> Inr []
       | JObj es \<Rightarrow> Inr es
       | _ \<Rightarrow> Inl (class_error (InClass ClassesNotObject))) (\<lambda>es.
     bindE (parse_definitions es) (\<lambda>defs.
     bindE (expand_all cat defs [] (om_keys defs)) (\<lambda>memo.
       Inr \<lparr>cs_definitions = defs, cs_expansions = memo\<rparr>)))"

definition class_names :: "class_set \<Rightarrow> jstr list" where
  "class_names cs = om_keys (cs_definitions cs)"

definition class_has :: "class_set \<Rightarrow> jstr \<Rightarrow> bool" where
  "class_has cs name \<longleftrightarrow> map_of (cs_definitions cs) name \<noteq> None"

text \<open>\<open>#expandField\<close>, and the methods \<open>check\<close>, \<open>source\<close>, \<open>ranges\<close>, \<open>matcher\<close>, \<open>expandedClasses\<close>.\<close>

definition expand_field :: "(int \<Rightarrow> jstr) \<Rightarrow> class_set \<Rightarrow> json \<Rightarrow> class_error + expansion \<times> class_set" where
  "expand_field cat cs source =
     bindE (parseClass source) (\<lambda>ast.
     bindE (expand_ast cat (cs_definitions cs) (cs_expansions cs) ast []) (\<lambda>(ex, memo).
       if rx_accepts (ex_source ex) then Inr (ex, cs\<lparr>cs_expansions := memo\<rparr>)
       else Inl \<lparr>ce_reason = InClass (JsRejects (ex_source ex)),
           ce_source = (case source of JStr s \<Rightarrow> Some s | _ \<Rightarrow> None), ce_offset = None, ce_path = None\<rparr>))"

definition class_check :: "(int \<Rightarrow> jstr) \<Rightarrow> class_set \<Rightarrow> json \<Rightarrow> class_error + unit" where
  "class_check cat cs source = bindE (expand_field cat cs source) (\<lambda>_. Inr ())"

definition class_source :: "(int \<Rightarrow> jstr) \<Rightarrow> class_set \<Rightarrow> json \<Rightarrow> class_error + jstr" where
  "class_source cat cs source = bindE (expand_field cat cs source) (\<lambda>(ex, cs'). Inr (ex_source ex))"

definition class_ranges :: "(int \<Rightarrow> jstr) \<Rightarrow> class_set \<Rightarrow> json \<Rightarrow> class_error + ranges" where
  "class_ranges cat cs source = bindE (class_source cat cs source) (rangesOfSource cat False)"

definition class_matcher :: "(int \<Rightarrow> jstr) \<Rightarrow> class_set \<Rightarrow> json \<Rightarrow> class_error + (int \<Rightarrow> bool)" where
  "class_matcher cat cs source = bindE (class_source cat cs source) (\<lambda>s. Inr (rx_test cat s))"

definition expandedClasses :: "(int \<Rightarrow> jstr) \<Rightarrow> class_set \<Rightarrow> class_error + (jstr \<times> jstr) list" where
  "expandedClasses cat cs =
     bindE (mapE (\<lambda>name. bindE (expand_name cat (cs_definitions cs) (cs_expansions cs) name [])
       (\<lambda>(ex, memo). Inr (name, ex_source ex))) (class_names cs)) (\<lambda>es. Inr (obj_of es))"

section \<open>What a class denotes\<close>

fun base_mem :: "(int \<Rightarrow> jstr) \<Rightarrow> int \<Rightarrow> class_item \<Rightarrow> bool" where
  "base_mem cat cp (CChar c raw) = (cp = c)"
| "base_mem cat cp (CRange a b raw) = (a \<le> cp \<and> cp \<le> b)"
| "base_mem cat cp (CCategory name raw) = (cat cp = name \<or> take 1 (cat cp) = name)"
| "base_mem cat cp (CRef name raw) = False"

text \<open>\<open>denotes_ast cat defs ast cp b\<close>: whether \<open>cp\<close> is in the class \<open>ast\<close>, resolved, is \<open>b\<close>.\<close>

inductive denotes_name :: "(int \<Rightarrow> jstr) \<Rightarrow> definitions \<Rightarrow> jstr \<Rightarrow> int \<Rightarrow> bool \<Rightarrow> bool"
  and denotes_ast :: "(int \<Rightarrow> jstr) \<Rightarrow> definitions \<Rightarrow> class_ast \<Rightarrow> int \<Rightarrow> bool \<Rightarrow> bool"
  and denotes_items :: "(int \<Rightarrow> jstr) \<Rightarrow> definitions \<Rightarrow> class_item list \<Rightarrow> int \<Rightarrow> bool \<Rightarrow> bool"
  for cat defs where
  name: "map_of defs n = Some ast \<Longrightarrow> denotes_ast cat defs ast cp b \<Longrightarrow> denotes_name cat defs n cp b"
| ref: "denotes_name cat defs n cp b \<Longrightarrow> denotes_ast cat defs (ARef n) cp b"
| items: "denotes_items cat defs its cp b \<Longrightarrow> denotes_ast cat defs (ASet negated its) cp (negated \<noteq> b)"
| none: "denotes_items cat defs [] cp False"
| item_ref: "denotes_name cat defs n cp b \<Longrightarrow> denotes_items cat defs its cp b' \<Longrightarrow>
    denotes_items cat defs (CRef n raw # its) cp (b \<or> b')"
| item: "(\<And>n raw. it \<noteq> CRef n raw) \<Longrightarrow> denotes_items cat defs its cp b' \<Longrightarrow>
    denotes_items cat defs (it # its) cp (base_mem cat cp it \<or> b')"

inductive_cases denotes_nameE: "denotes_name cat defs n cp b"
inductive_cases denotes_refE: "denotes_ast cat defs (ARef n) cp b"
inductive_cases denotes_setE: "denotes_ast cat defs (ASet negated its) cp b"
inductive_cases denotes_itemsE: "denotes_items cat defs its cp b"

lemma denotes_name_fun:
  "denotes_name cat defs n cp b \<Longrightarrow> denotes_name cat defs n cp b2 \<Longrightarrow> b2 = b"
  and denotes_ast_fun: "denotes_ast cat defs ast cp b \<Longrightarrow> denotes_ast cat defs ast cp b2 \<Longrightarrow> b2 = b"
  and denotes_items_fun: "denotes_items cat defs its cp b \<Longrightarrow> denotes_items cat defs its cp b2 \<Longrightarrow> b2 = b"
proof (induction arbitrary: b2 and b2 and b2
    rule: denotes_name_denotes_ast_denotes_items.inducts)
  case (name n ast cp b)
  then show ?case by (metis denotes_nameE option.inject)
next
  case (ref n cp b)
  then show ?case by (metis denotes_refE)
next
  case (items its cp b negated)
  then show ?case by (metis denotes_setE)
next
  case (none cp)
  then show ?case by (auto elim: denotes_itemsE)
next
  case (item_ref n cp b its b' raw)
  from item_ref.prems obtain c c' where "denotes_name cat defs n cp c" "denotes_items cat defs its cp c'" "b2 = (c \<or> c')"
    by (rule denotes_itemsE) auto
  then show ?case using item_ref.IH(2,4) by blast
next
  case (item it its cp b')
  from item.prems item.hyps obtain c' where "denotes_items cat defs its cp c'" "b2 = (base_mem cat cp it \<or> c')"
    by (cases rule: denotes_items.cases) auto
  then show ?case using item.IH by blast
qed

definition expansion_ok :: "(int \<Rightarrow> jstr) \<Rightarrow> definitions \<Rightarrow> class_ast \<Rightarrow> expansion \<Rightarrow> bool" where
  "expansion_ok cat defs ast ex \<longleftrightarrow> ex_source ex = bracket_source (ex_negated ex) (ex_inner ex) \<and>
     (\<exists>its. pieces (ex_inner ex) its \<and>
       (\<forall>cp. 0 \<le> cp \<and> cp \<le> MAX_CODE_POINT \<longrightarrow>
          denotes_ast cat defs ast cp (ex_negated ex \<noteq> rx_mem cat cp its)))"

lemma expansion_ok_rx:
  assumes "expansion_ok cat defs ast ex"
  shows "rx_accepts (ex_source ex)"
    and "0 \<le> cp \<Longrightarrow> cp \<le> MAX_CODE_POINT \<Longrightarrow> denotes_ast cat defs ast cp (rx_test cat (ex_source ex) cp)"
proof -
  obtain its where p: "pieces (ex_inner ex) its" and src: "ex_source ex = bracket_source (ex_negated ex) (ex_inner ex)"
    and d: "\<forall>cp. 0 \<le> cp \<and> cp \<le> MAX_CODE_POINT \<longrightarrow> denotes_ast cat defs ast cp (ex_negated ex \<noteq> rx_mem cat cp its)"
    using assms by (auto simp: expansion_ok_def)
  have c: "rx_class (ex_source ex) = Some (ex_negated ex, its)"
    unfolding src bracket_source_def by (rule rx_class_pieces [OF p])
  show "rx_accepts (ex_source ex)" using c by (simp add: rx_accepts_def)
  show "0 \<le> cp \<Longrightarrow> cp \<le> MAX_CODE_POINT \<Longrightarrow> denotes_ast cat defs ast cp (rx_test cat (ex_source ex) cp)"
    using c d by (simp add: rx_test_def)
qed

inductive memo_ok :: "(int \<Rightarrow> jstr) \<Rightarrow> definitions \<Rightarrow> expansions \<Rightarrow> bool" for cat defs where
  empty: "memo_ok cat defs []"
| extend: "memo_ok cat defs memo \<Longrightarrow> map_of memo n = None \<Longrightarrow> map_of defs n = Some ast \<Longrightarrow>
    set (ast_refs ast) \<subseteq> dom (map_of memo) \<Longrightarrow> expansion_ok cat defs ast ex \<Longrightarrow>
    memo_ok cat defs (memo @ [(n, ex)])"

lemma om_set_new: "map_of m k = None \<Longrightarrow> om_set k v m = m @ [(k, v)]"
  by (induction k v m rule: om_set.induct) (auto split: if_splits)

lemma map_of_snoc [simp]: "map_of m k = None \<Longrightarrow> [k \<mapsto> v] ++ map_of m = (map_of m)(k \<mapsto> v)"
  by (rule ext) (auto simp: map_add_def split: option.splits)

lemma memo_ok_lookup:
  assumes "memo_ok cat defs memo" and "map_of memo n = Some ex"
  obtains ast where "map_of defs n = Some ast" and "expansion_ok cat defs ast ex"
  using assms by (induction arbitrary: thesis rule: memo_ok.induct) (auto split: if_splits)

lemma map_le_new: "m \<subseteq>\<^sub>m m' \<Longrightarrow> m' k = None \<Longrightarrow> m \<subseteq>\<^sub>m m'(k \<mapsto> v)"
  by (rule map_le_trans [of m m']) (auto simp: map_le_def)

definition asts_ok :: "definitions \<Rightarrow> bool" where
  "asts_ok defs \<longleftrightarrow> (\<forall>n ast. map_of defs n = Some ast \<longrightarrow> ast_ok ast)"

lemma item_piece:
  assumes "item_ok it" and "\<And>n raw. it \<noteq> CRef n raw"
  obtains rx where "piece (item_raw it) rx" and "\<And>cp. rx_item_mem cat cp rx = base_mem cat cp it"
proof (cases it)
  case (CChar c raw)
  then show ?thesis using that [of "RxChar c"] assms by (simp add: piece_def)
next
  case (CRange a b raw)
  then have "piece raw (RxRange a b)" using assms(1) by (auto simp: piece_def)
  then show ?thesis using that [of "RxRange a b"] CRange by simp
next
  case (CCategory name raw)
  then show ?thesis using that [of "RxCategory name"] assms by (simp add: piece_def)
next
  case (CRef name raw)
  then show ?thesis using assms(2) by blast
qed

lemma rangesToItems_test:
  fixes cat :: "int \<Rightarrow> jstr"
  defines "rs src \<equiv> ranges_of_test True (rx_test cat src)"
  obtains its where "pieces (rangesToItems (rs src)) its"
    and "\<And>cp. rx_mem cat cp its \<longleftrightarrow> 0 \<le> cp \<and> cp \<le> MAX_CODE_POINT \<and> rx_test cat src cp"
proof
  have ok: "ranges_ok (rs src)" and mem: "\<And>cp. in_ranges cp (rs src) \<longleftrightarrow> covered True cp \<and> rx_test cat src cp"
    unfolding rs_def by (rule all_ranges.table_ok, rule all_ranges.table_mem)
  have ab: "\<forall>(a, b)\<in>set (rs src). a \<le> b" using ok by (simp add: ranges_ok_def)
  have "covered True a \<and> covered True b" if "(a, b) \<in> set (rs src)" for a b
  proof -
    have "a \<le> b" using ab that by blast
    then have "in_ranges a (rs src)" "in_ranges b (rs src)" using that by (force simp: in_ranges_def)+
    then show ?thesis using mem by blast
  qed
  then have "\<forall>(a, b)\<in>set (rs src). 0 \<le> a \<and> a \<le> b \<and> b \<le> MAX_CODE_POINT"
    using ab by (auto simp: covered_def)
  then show "pieces (rangesToItems (rs src)) (map range_rx (rs src))"
    by (rule pieces_rangesToItems)
  show "rx_mem cat cp (map range_rx (rs src)) \<longleftrightarrow> 0 \<le> cp \<and> cp \<le> MAX_CODE_POINT \<and> rx_test cat src cp" for cp
    using rx_mem_range_rx [OF ab] mem by (simp add: covered_def)
qed

section \<open>An expansion means what its class denotes\<close>

lemma expansion_text:
  assumes "expansion_ok cat defs ast target"
    and "(if ex_negated target then bindE (rangesOfSource cat True (ex_source target)) (\<lambda>rs. Inr (rangesToItems rs))
        else Inr (ex_inner target)) = Inr t"
  shows "\<exists>its. pieces t its \<and> (\<forall>cp. 0 \<le> cp \<and> cp \<le> MAX_CODE_POINT \<longrightarrow>
      denotes_ast cat defs ast cp (rx_mem cat cp its))"
proof (cases "ex_negated target")
  case True
  then have t: "t = rangesToItems (ranges_of_test True (rx_test cat (ex_source target)))"
    using assms expansion_ok_rx(1) [OF assms(1)] by (simp add: rangesOfSource_def)
  obtain its where its: "pieces t its"
      "\<And>cp. rx_mem cat cp its \<longleftrightarrow> 0 \<le> cp \<and> cp \<le> MAX_CODE_POINT \<and> rx_test cat (ex_source target) cp"
    using rangesToItems_test [of cat "ex_source target"] t by metis
  then show ?thesis using expansion_ok_rx(2) [OF assms(1)] by auto
next
  case False
  then show ?thesis using assms by (auto simp: expansion_ok_def)
qed

lemma expand_sound_item:
  assumes IH: "\<And>inner memo'. asts_ok defs \<Longrightarrow> list_all item_ok items \<Longrightarrow> memo_ok cat defs memo \<Longrightarrow>
      dom (map_of memo) \<inter> set stack = {} \<Longrightarrow> expand_items cat defs memo items stack = Inr (inner, memo') \<Longrightarrow>
      memo_ok cat defs memo' \<and> map_of memo \<subseteq>\<^sub>m map_of memo' \<and> dom (map_of memo') \<inter> set stack = {} \<and>
      set (ast_refs (ASet negated items)) \<subseteq> dom (map_of memo') \<and>
      (\<exists>its. pieces inner its \<and> (\<forall>cp. 0 \<le> cp \<and> cp \<le> MAX_CODE_POINT \<longrightarrow>
         denotes_items cat defs items cp (rx_mem cat cp its)))"
    and prems: "asts_ok defs" "list_all item_ok (it # items)" "memo_ok cat defs memo"
      "dom (map_of memo) \<inter> set stack = {}" "expand_items cat defs memo (it # items) stack = Inr (inner, memo')"
    and it: "\<And>n raw. it \<noteq> CRef n raw"
  shows "memo_ok cat defs memo' \<and> map_of memo \<subseteq>\<^sub>m map_of memo' \<and> dom (map_of memo') \<inter> set stack = {} \<and>
      set (ast_refs (ASet negated (it # items))) \<subseteq> dom (map_of memo') \<and>
      (\<exists>its. pieces inner its \<and> (\<forall>cp. 0 \<le> cp \<and> cp \<le> MAX_CODE_POINT \<longrightarrow>
         denotes_items cat defs (it # items) cp (rx_mem cat cp its)))"
proof -
  obtain rest where r: "expand_items cat defs memo items stack = Inr (rest, memo')"
    and inner: "inner = item_raw it @ rest"
    using prems(5) it by (cases it) auto
  have ok: "list_all item_ok items" "item_ok it" using prems(2) by simp_all
  note IH' = IH [OF prems(1) ok(1) prems(3,4) r]
  then obtain its where its: "pieces rest its" "\<forall>cp. 0 \<le> cp \<and> cp \<le> MAX_CODE_POINT \<longrightarrow>
      denotes_items cat defs items cp (rx_mem cat cp its)"
    by blast
  obtain rx where rx: "piece (item_raw it) rx" "\<And>cp. rx_item_mem cat cp rx = base_mem cat cp it"
    using item_piece [OF ok(2) it] by blast
  have "pieces inner (rx # its)" using pieces_append [OF pieces_piece [OF rx(1)] its(1)] inner by simp
  moreover have "\<forall>cp. 0 \<le> cp \<and> cp \<le> MAX_CODE_POINT \<longrightarrow>
      denotes_items cat defs (it # items) cp (rx_mem cat cp (rx # its))"
    using its(2) rx(2) it by (auto intro: denotes_name_denotes_ast_denotes_items.item)
  moreover have "ast_refs (ASet negated (it # items)) = ast_refs (ASet negated items)"
    using it by (cases it) (auto simp: List.map_filter_def)
  ultimately show ?thesis using IH' by metis
qed

lemma expand_sound_name:
  "asts_ok defs \<Longrightarrow> memo_ok cat defs memo \<Longrightarrow> dom (map_of memo) \<inter> set stack = {} \<Longrightarrow>
    expand_name cat defs memo name stack = Inr (ex, memo') \<Longrightarrow>
    memo_ok cat defs memo' \<and> map_of memo \<subseteq>\<^sub>m map_of memo' \<and> dom (map_of memo') \<inter> set stack = {} \<and>
    map_of memo' name = Some ex"
  and expand_sound_ast: "asts_ok defs \<Longrightarrow> ast_ok ast \<Longrightarrow> memo_ok cat defs memo \<Longrightarrow> dom (map_of memo) \<inter> set stack = {} \<Longrightarrow>
    expand_ast cat defs memo ast stack = Inr (ex, memo') \<Longrightarrow>
    memo_ok cat defs memo' \<and> map_of memo \<subseteq>\<^sub>m map_of memo' \<and> dom (map_of memo') \<inter> set stack = {} \<and>
    set (ast_refs ast) \<subseteq> dom (map_of memo') \<and> expansion_ok cat defs ast ex"
  and expand_sound_items: "asts_ok defs \<Longrightarrow> list_all item_ok items \<Longrightarrow> memo_ok cat defs memo \<Longrightarrow>
    dom (map_of memo) \<inter> set stack = {} \<Longrightarrow>
    expand_items cat defs memo items stack = Inr (inner, memo') \<Longrightarrow>
    memo_ok cat defs memo' \<and> map_of memo \<subseteq>\<^sub>m map_of memo' \<and> dom (map_of memo') \<inter> set stack = {} \<and>
    set (ast_refs (ASet negated items)) \<subseteq> dom (map_of memo') \<and>
    (\<exists>its. pieces inner its \<and> (\<forall>cp. 0 \<le> cp \<and> cp \<le> MAX_CODE_POINT \<longrightarrow>
       denotes_items cat defs items cp (rx_mem cat cp its)))"
proof (induction cat defs memo name stack and cat defs memo ast stack and cat defs memo items stack
    arbitrary: ex memo' and ex memo' and inner memo'
    rule: expand_name_expand_ast_expand_items.induct)
  case (1 cat defs memo name stack)
  note res = "1.prems"(4) [unfolded expand_name.simps [of cat defs memo name stack]]
  show ?case
  proof (cases "map_of memo name")
    case (Some ex')
    then show ?thesis using res "1.prems" by simp
  next
    case None
    then obtain ast memo1 where ns: "name \<notin> set stack" and ast: "map_of defs name = Some ast"
      and sub: "expand_ast cat defs memo ast (stack @ [name]) = Inr (ex, memo1)"
      and memo': "memo' = om_set name ex memo1"
      using res by (auto split: if_splits option.splits)
    have disj: "dom (map_of memo) \<inter> set (stack @ [name]) = {}" using "1.prems"(3) None by auto
    have aok: "ast_ok ast" using "1.prems"(1) ast by (auto simp: asts_ok_def)
    note IH = "1.IH" [OF None ns ast "1.prems"(1) aok "1.prems"(2) disj sub]
    have new: "map_of memo1 name = None" using IH by auto
    have "memo_ok cat defs (memo1 @ [(name, ex)])"
      using memo_ok.extend [OF _ new ast] IH by blast
    then have ok: "memo_ok cat defs memo'" unfolding memo' om_set_new [OF new] .
    have m: "map_of memo' = (map_of memo1)(name \<mapsto> ex)" using memo' by simp
    have le: "map_of memo \<subseteq>\<^sub>m map_of memo'"
      unfolding m using IH new by (intro map_le_new) auto
    have "dom (map_of memo') \<inter> set stack = {}" unfolding m dom_fun_upd using IH ns by auto
    moreover have "map_of memo' name = Some ex" unfolding m by simp
    ultimately show ?thesis using ok le by blast
  qed
next
  case (2 cat defs memo name stack)
  have r: "expand_name cat defs memo name stack = Inr (ex, memo')" using "2.prems"(5) by simp
  note IH = "2.IH" [OF "2.prems"(1,3,4) r]
  obtain ast where ast: "map_of defs name = Some ast" "expansion_ok cat defs ast ex"
    using memo_ok_lookup IH by metis
  have "expansion_ok cat defs (ARef name) ex"
    using ast unfolding expansion_ok_def by (blast intro: denotes_name_denotes_ast_denotes_items.intros)
  then show ?case using IH by auto
next
  case (3 cat defs memo negated items stack)
  obtain inner where r: "expand_items cat defs memo items stack = Inr (inner, memo')"
    and ex: "ex = \<lparr>ex_negated = negated, ex_inner = inner, ex_source = bracket_source negated inner\<rparr>"
    using "3.prems"(5) by auto
  have ok: "list_all item_ok items" using "3.prems"(2) by simp
  note IH = "3.IH" [OF "3.prems"(1) ok "3.prems"(3,4) r]
  then show ?case
    unfolding expansion_ok_def ex
    by (auto intro!: denotes_name_denotes_ast_denotes_items.items simp del: not_iff)
next
  case (4 cat defs memo stack)
  then show ?case by (auto intro!: exI [of _ "[]"] denotes_name_denotes_ast_denotes_items.none)
next
  case (5 cat defs memo name raw items stack)
  obtain target memo1 t rest where n: "expand_name cat defs memo name stack = Inr (target, memo1)"
    and t: "(if ex_negated target then bindE (rangesOfSource cat True (ex_source target)) (\<lambda>rs. Inr (rangesToItems rs))
        else Inr (ex_inner target)) = Inr t"
    and r: "expand_items cat defs memo1 items stack = Inr (rest, memo')" and inner: "inner = t @ rest"
    using "5.prems"(5) by auto
  note IH1 = "5.IH"(1) [OF "5.prems"(1,3,4) n]
  have ok: "list_all item_ok items" using "5.prems"(2) by simp
  have memo1: "memo_ok cat defs memo1" "dom (map_of memo1) \<inter> set stack = {}" using IH1 by blast+
  note IH2 = "5.IH"(2) [OF n refl t "5.prems"(1) ok memo1 r]
  obtain ast where ast: "map_of defs name = Some ast" "expansion_ok cat defs ast target"
    using memo_ok_lookup IH1 by metis
  obtain its1 where its1: "pieces t its1" "\<forall>cp. 0 \<le> cp \<and> cp \<le> MAX_CODE_POINT \<longrightarrow>
      denotes_name cat defs name cp (rx_mem cat cp its1)"
    using expansion_text [OF ast(2) t] denotes_name_denotes_ast_denotes_items.name [OF ast(1)] by metis
  obtain its2 where its2: "pieces rest its2" "\<forall>cp. 0 \<le> cp \<and> cp \<le> MAX_CODE_POINT \<longrightarrow>
      denotes_items cat defs items cp (rx_mem cat cp its2)"
    using IH2 by blast
  have p: "pieces inner (its1 @ its2)" using pieces_append [OF its1(1) its2(1)] inner by simp
  have d: "\<forall>cp. 0 \<le> cp \<and> cp \<le> MAX_CODE_POINT \<longrightarrow>
      denotes_items cat defs (CRef name raw # items) cp (rx_mem cat cp (its1 @ its2))"
    using its1(2) its2(2) by (auto intro: denotes_name_denotes_ast_denotes_items.item_ref)
  have le: "map_of memo \<subseteq>\<^sub>m map_of memo1" "map_of memo1 \<subseteq>\<^sub>m map_of memo'" using IH1 IH2 by blast+
  have n': "name \<in> dom (map_of memo')"
    using IH1 map_le_implies_dom_le [OF le(2)] by blast
  have refs: "set (ast_refs (ASet negated (CRef name raw # items))) = insert name (set (ast_refs (ASet negated items)))"
    by (simp add: map_filter_simps)
  have sub: "set (ast_refs (ASet negated items)) \<subseteq> dom (map_of memo')"
    and m: "memo_ok cat defs memo'" "dom (map_of memo') \<inter> set stack = {}" using IH2 by blast+
  show ?case
    unfolding refs insert_subset
    by (intro conjI exI [of _ "its1 @ its2"] m map_le_trans [OF le] n' sub p d)
next
  case item: (6 cat defs memo c raw items stack)
  show ?case by (rule expand_sound_item [OF _ item.prems]) ((rule item.IH, assumption+) | simp)+
next
  case item: (7 cat defs memo a b raw items stack)
  show ?case by (rule expand_sound_item [OF _ item.prems]) ((rule item.IH, assumption+) | simp)+
next
  case item: (8 cat defs memo name raw items stack)
  show ?case by (rule expand_sound_item [OF _ item.prems]) ((rule item.IH, assumption+) | simp)+
qed

section \<open>What the constructor accepts\<close>

definition refs_of :: "definitions \<Rightarrow> (jstr \<times> jstr) set" where
  "refs_of defs = {(a, b). \<exists>ast. map_of defs a = Some ast \<and> b \<in> set (ast_refs ast)}"

definition refs_path :: "definitions \<Rightarrow> jstr list \<Rightarrow> bool" where
  "refs_path defs ns \<longleftrightarrow> successively (\<lambda>a b. (a, b) \<in> refs_of defs) ns"

definition error_ok :: "definitions \<Rightarrow> jstr set \<Rightarrow> class_error \<Rightarrow> bool" where
  "error_ok defs tops e \<longleftrightarrow>
     (\<exists>ns. ce_reason e = InClass (ReferenceCycle ns) \<and> 2 \<le> length ns \<and> hd ns = last ns \<and> refs_path defs ns) \<or>
     (\<exists>n. ce_reason e = InClass (NamesNoClass n) \<and> map_of defs n = None \<and> n \<in> tops \<union> Range (refs_of defs))"

lemma error_ok_mono: "error_ok defs tops e \<Longrightarrow> tops \<subseteq> tops' \<union> Range (refs_of defs) \<Longrightarrow> error_ok defs tops' e"
  unfolding error_ok_def by blast

lemma refs_path_cycle:
  assumes "refs_path defs (stack @ [name])" and "name \<in> set stack"
  shows "2 \<le> length (dropWhile (\<lambda>n. n \<noteq> name) stack @ [name])"
    and "hd (dropWhile (\<lambda>n. n \<noteq> name) stack @ [name]) = name"
    and "refs_path defs (dropWhile (\<lambda>n. n \<noteq> name) stack @ [name])"
proof -
  obtain xs ys where st: "stack = xs @ name # ys" and nx: "name \<notin> set xs"
    using split_list_first [OF assms(2)] by blast
  then have d: "dropWhile (\<lambda>n. n \<noteq> name) stack = name # ys"
    by (simp add: dropWhile_append3 st) (metis (mono_tags, lifting) dropWhile.simps(2) dropWhile_append2)
  show "2 \<le> length (dropWhile (\<lambda>n. n \<noteq> name) stack @ [name])"
    and "hd (dropWhile (\<lambda>n. n \<noteq> name) stack @ [name]) = name" by (simp_all add: d)
  show "refs_path defs (dropWhile (\<lambda>n. n \<noteq> name) stack @ [name])"
    using assms(1) unfolding d refs_path_def by (simp add: st successively_append_iff)
qed

lemma refs_path_snoc:
  assumes "refs_path defs (stack @ [name])" and "(name, b) \<in> refs_of defs"
  shows "refs_path defs ((stack @ [name]) @ [b])"
  using assms unfolding refs_path_def by (auto simp: successively_append_iff)

lemma refs_path_trancl:
  "refs_path defs ns \<Longrightarrow> 2 \<le> length ns \<Longrightarrow> (hd ns, last ns) \<in> (refs_of defs)\<^sup>+"
  unfolding refs_path_def
proof (induction ns rule: induct_list012)
  case (3 x y zs)
  then show ?case
    by (cases zs) (auto intro: trancl_into_trancl2)
qed auto

lemma expand_error_name:
  "asts_ok defs \<Longrightarrow> memo_ok cat defs memo \<Longrightarrow> dom (map_of memo) \<inter> set stack = {} \<Longrightarrow>
    refs_path defs (stack @ [name]) \<Longrightarrow> expand_name cat defs memo name stack = Inl e \<Longrightarrow>
    error_ok defs {name} e"
  and expand_error_ast: "asts_ok defs \<Longrightarrow> ast_ok ast \<Longrightarrow> memo_ok cat defs memo \<Longrightarrow> dom (map_of memo) \<inter> set stack = {} \<Longrightarrow>
    (\<And>b. b \<in> set (ast_refs ast) \<Longrightarrow> refs_path defs (stack @ [b])) \<Longrightarrow>
    expand_ast cat defs memo ast stack = Inl e \<Longrightarrow> error_ok defs (set (ast_refs ast)) e"
  and expand_error_items: "asts_ok defs \<Longrightarrow> list_all item_ok items \<Longrightarrow> memo_ok cat defs memo \<Longrightarrow>
    dom (map_of memo) \<inter> set stack = {} \<Longrightarrow>
    (\<And>b. b \<in> set (ast_refs (ASet negated items)) \<Longrightarrow> refs_path defs (stack @ [b])) \<Longrightarrow>
    expand_items cat defs memo items stack = Inl e \<Longrightarrow> error_ok defs (set (ast_refs (ASet negated items))) e"
proof (induction cat defs memo name stack and cat defs memo ast stack and cat defs memo items stack
    rule: expand_name_expand_ast_expand_items.induct)
  case (1 cat defs memo name stack)
  note res = "1.prems"(5) [unfolded expand_name.simps [of cat defs memo name stack]]
  have None: "map_of memo name = None" using res by (cases "map_of memo name") auto
  show ?case
  proof (cases "name \<in> set stack")
    case True
    then have "ce_reason e = InClass (ReferenceCycle (dropWhile (\<lambda>n. n \<noteq> name) stack @ [name]))"
      using res None by (auto simp: error_path_def)
    then show ?thesis
      using refs_path_cycle [OF "1.prems"(4) True] unfolding error_ok_def by auto
  next
    case ns: False
    show ?thesis
    proof (cases "map_of defs name")
      case no_def: None
      then have "ce_reason e = InClass (NamesNoClass name)"
        using res None ns by (auto simp: error_path_def)
      then show ?thesis using no_def unfolding error_ok_def by auto
    next
      case ast: (Some ast)
      have disj: "dom (map_of memo) \<inter> set (stack @ [name]) = {}" using "1.prems"(3) None by auto
      have aok: "ast_ok ast" using "1.prems"(1) ast by (auto simp: asts_ok_def)
      show ?thesis
      proof (cases "expand_ast cat defs memo ast (stack @ [name])")
        case (Inl e')
        then have e: "e' = e" using res None ns ast by simp
        have r: "(name, b) \<in> refs_of defs" if "b \<in> set (ast_refs ast)" for b
          using that ast by (auto simp: refs_of_def)
        have "error_ok defs (set (ast_refs ast)) e"
          by (rule "1.IH" [OF None ns ast "1.prems"(1) aok "1.prems"(2) disj _ Inl [unfolded e]])
            (rule refs_path_snoc [OF "1.prems"(4) r])
        then show ?thesis by (rule error_ok_mono) (use r in blast)
      next
        case (Inr p)
        obtain ex memo1 where p: "p = (ex, memo1)" by (cases p)
        have "rx_accepts (ex_source ex)"
          using expand_sound_ast [OF "1.prems"(1) aok "1.prems"(2) disj Inr [unfolded p]] expansion_ok_rx(1) by blast
        then have False using res None ns ast Inr p by simp
        then show ?thesis ..
      qed
    qed
  qed
next
  case (2 cat defs memo name stack)
  then show ?case by simp
next
  case (3 cat defs memo negated items stack)
  have err: "expand_items cat defs memo items stack = Inl e"
    using "3.prems"(6) by (auto simp: bindE_Inl_iff)
  have ok: "list_all item_ok items" using "3.prems"(2) by simp
  show ?case using "3.IH" [OF "3.prems"(1) ok "3.prems"(3,4,5) err] by simp
next
  case (4 cat defs memo stack)
  then show ?case by simp
next
  case (5 cat defs memo name raw items stack)
  have ok: "list_all item_ok items" using "5.prems"(2) by simp
  have refs: "set (ast_refs (ASet negated (CRef name raw # items))) = insert name (set (ast_refs (ASet negated items)))"
    by (simp add: map_filter_simps)
  show ?case
  proof (cases "expand_name cat defs memo name stack")
    case (Inl e')
    then have e: "e' = e" using "5.prems"(6) by simp
    have "refs_path defs (stack @ [name])" by (rule "5.prems"(5)) (simp add: refs)
    from "5.IH"(1) [OF "5.prems"(1,3,4) this Inl [unfolded e]] show ?thesis
      by (rule error_ok_mono) (simp add: refs)
  next
    case (Inr p)
    obtain target memo1 where p: "p = (target, memo1)" by (cases p)
    note n = Inr [unfolded p]
    note s1 = expand_sound_name [OF "5.prems"(1,3,4) n]
    obtain ast where ast: "map_of defs name = Some ast" "expansion_ok cat defs ast target"
      using memo_ok_lookup s1 by metis
    obtain t where t: "(if ex_negated target then bindE (rangesOfSource cat True (ex_source target)) (\<lambda>rs. Inr (rangesToItems rs))
        else Inr (ex_inner target)) = Inr t"
      using expansion_ok_rx(1) [OF ast(2)] by (cases "ex_negated target") (auto simp: rangesOfSource_def)
    have err: "expand_items cat defs memo1 items stack = Inl e"
      using "5.prems"(6) n t by (auto simp: bindE_Inl_iff)
    have s1': "memo_ok cat defs memo1" "dom (map_of memo1) \<inter> set stack = {}" using s1 by blast+
    have "error_ok defs (set (ast_refs (ASet negated items))) e"
      by (rule "5.IH"(2) [OF n refl t "5.prems"(1) ok s1' _ err]) (rule "5.prems"(5), simp add: refs)
    then show ?thesis by (rule error_ok_mono) (auto simp: refs)
  qed
next
  case item: (6 cat defs memo c raw items stack)
  have "expand_items cat defs memo items stack = Inl e" using item.prems(6) by (auto simp: bindE_Inl_iff)
  then show ?case using item.IH item.prems by (simp add: map_filter_simps)
next
  case item: (7 cat defs memo a b raw items stack)
  have "expand_items cat defs memo items stack = Inl e" using item.prems(6) by (auto simp: bindE_Inl_iff)
  then show ?case using item.IH item.prems by (simp add: map_filter_simps)
next
  case item: (8 cat defs memo name raw items stack)
  have "expand_items cat defs memo items stack = Inl e" using item.prems(6) by (auto simp: bindE_Inl_iff)
  then show ?case using item.IH item.prems by (simp add: map_filter_simps)
qed

lemma parse_definition_ok:
  assumes "parse_definition defs (name, source) = Inr defs'" and "json_ok source \<or> source = JUndef"
    and "asts_ok defs" and "om_wf defs"
  shows "asts_ok defs' \<and> om_wf defs'"
proof -
  obtain ast where ast: "parseClass source = Inr ast" and d: "defs' = om_set name ast defs"
    using assms(1) by (auto simp: parse_definition_def split: if_splits sum.splits)
  obtain src where src: "source = JStr src" "parse_class_text src = Inr ast"
    using ast by (cases source) (auto simp: parseClass_def)
  have "ast_ok ast" using parse_class_text_source(1) [OF _ src(2)] src(1) assms(2) by simp
  then show ?thesis using assms(3,4) d by (auto simp: asts_ok_def om_wf_set)
qed

lemma parse_definitions_ok:
  assumes "parse_definitions es = Inr defs" and "json_ok (JObj es)"
  shows "asts_ok defs" and "om_wf defs"
proof -
  have "asts_ok defs \<and> om_wf defs"
    using assms(1) unfolding parse_definitions_def
  proof (rule foldE_invariant)
    show "asts_ok [] \<and> om_wf []" by (simp add: asts_ok_def)
    fix defs x defs'
    assume x: "x \<in> set es" and ok: "asts_ok defs \<and> om_wf defs" and p: "parse_definition defs x = Inr defs'"
    have v: "json_ok (snd x) \<or> snd x = JUndef" using assms(2) x by (auto simp: list_all_iff)
    show "asts_ok defs' \<and> om_wf defs'"
      by (rule parse_definition_ok [of defs "fst x" "snd x"]) (use p v ok in simp_all)
  qed
  then show "asts_ok defs" "om_wf defs" by blast+
qed

lemma expand_all_sound:
  assumes "asts_ok defs"
  shows "memo_ok cat defs memo \<Longrightarrow> expand_all cat defs memo names = Inr memo' \<Longrightarrow>
    memo_ok cat defs memo' \<and> map_of memo \<subseteq>\<^sub>m map_of memo' \<and> set names \<subseteq> dom (map_of memo')"
  unfolding expand_all_def
proof (induction names arbitrary: memo)
  case Nil
  then show ?case by simp
next
  case (Cons name names)
  obtain ex memo1 where n: "expand_name cat defs memo name [] = Inr (ex, memo1)"
    and r: "foldE (\<lambda>memo name. bindE (expand_name cat defs memo name []) (\<lambda>(ex, memo'). Inr memo')) memo1 names = Inr memo'"
    using Cons.prems(2) by auto
  have s: "memo_ok cat defs memo1" "map_of memo \<subseteq>\<^sub>m map_of memo1" "map_of memo1 name = Some ex"
    using expand_sound_name [OF assms Cons.prems(1) _ n] by auto
  have t: "memo_ok cat defs memo'" "map_of memo1 \<subseteq>\<^sub>m map_of memo'" "set names \<subseteq> dom (map_of memo')"
    using Cons.IH [OF s(1) r] by blast+
  have "name \<in> dom (map_of memo')" using s(3) map_le_implies_dom_le [OF t(2)] by blast
  then show ?case using t map_le_trans [OF s(2) t(2)] by simp
qed

lemma expand_all_error:
  assumes "asts_ok defs"
  shows "memo_ok cat defs memo \<Longrightarrow> expand_all cat defs memo names = Inl e \<Longrightarrow> error_ok defs (set names) e"
  unfolding expand_all_def
proof (induction names arbitrary: memo)
  case Nil
  then show ?case by simp
next
  case (Cons name names)
  show ?case
  proof (cases "expand_name cat defs memo name []")
    case (Inl e')
    then have "expand_name cat defs memo name [] = Inl e" using Cons.prems(2) by simp
    then have "error_ok defs {name} e"
      using expand_error_name [OF assms Cons.prems(1), of "[]" name e] by (simp add: refs_path_def)
    then show ?thesis by (rule error_ok_mono) simp
  next
    case (Inr p)
    obtain ex memo1 where p: "p = (ex, memo1)" by (cases p)
    have m: "memo_ok cat defs memo1"
      using expand_sound_name [OF assms Cons.prems(1) _ Inr [unfolded p]] by auto
    have "error_ok defs (set names) e" using Cons.IH [OF m] Cons.prems(2) Inr p by simp
    then show ?thesis by (rule error_ok_mono) auto
  qed
qed

lemma memo_ok_acyclic:
  assumes "memo_ok cat defs memo"
  shows "\<exists>f::jstr \<Rightarrow> nat. \<forall>a b. (a, b) \<in> refs_of defs \<longrightarrow> a \<in> dom (map_of memo) \<longrightarrow>
    b \<in> dom (map_of memo) \<and> f b < f a"
proof -
  have "\<exists>f::jstr \<Rightarrow> nat. (\<forall>a b. (a, b) \<in> refs_of defs \<longrightarrow> a \<in> dom (map_of memo) \<longrightarrow>
      b \<in> dom (map_of memo) \<and> f b < f a) \<and> (\<forall>a\<in>dom (map_of memo). f a < length memo)"
    using assms
  proof (induction rule: memo_ok.induct)
    case empty
    then show ?case by simp
  next
    case (extend memo n ast ex)
    obtain f :: "jstr \<Rightarrow> nat" where f: "\<forall>a b. (a, b) \<in> refs_of defs \<longrightarrow> a \<in> dom (map_of memo) \<longrightarrow>
        b \<in> dom (map_of memo) \<and> f b < f a" "\<forall>a\<in>dom (map_of memo). f a < length memo"
      using extend.IH by blast
    have dom: "dom (map_of (memo @ [(n, ex)])) = insert n (dom (map_of memo))"
      using extend.hyps(2) by simp
    have nn: "n \<notin> dom (map_of memo)" using extend.hyps(2) by auto
    let ?f = "f(n := length memo)"
    have "b \<in> insert n (dom (map_of memo)) \<and> ?f b < ?f a"
      if "(a, b) \<in> refs_of defs" "a \<in> insert n (dom (map_of memo))" for a b
    proof (cases "a = n")
      case True
      then have "b \<in> dom (map_of memo)" using that(1) extend.hyps(3,4) by (auto simp: refs_of_def)
      then show ?thesis using True nn f(2) by auto
    next
      case False
      then have "b \<in> dom (map_of memo)" "f b < f a" using that f(1) by blast+
      then show ?thesis using False nn by auto
    qed
    moreover have "\<forall>a\<in>insert n (dom (map_of memo)). ?f a < length (memo @ [(n, ex)])"
      using f(2) by (auto simp: less_Suc_eq)
    ultimately show ?case unfolding dom by blast
  qed
  then show ?thesis by blast
qed

lemma acyclic_measure:
  fixes f :: "'a \<Rightarrow> nat"
  assumes "\<And>a b. (a, b) \<in> R \<Longrightarrow> f b < f a"
  shows "acyclic R"
proof -
  have "R\<inverse> \<subseteq> measure f" using assms by auto
  then have "wf (R\<inverse>)" by (rule wf_subset [OF wf_measure])
  then show ?thesis using wf_acyclic acyclic_converse by blast
qed

lemma dom_refs_of: "(a, b) \<in> refs_of defs \<Longrightarrow> a \<in> dom (map_of defs)"
  by (auto simp: refs_of_def)

lemma new_class_set_JObj:
  "new_class_set cat (JObj es) = bindE (parse_definitions es) (\<lambda>defs.
     bindE (expand_all cat defs [] (om_keys defs)) (\<lambda>memo.
       Inr \<lparr>cs_definitions = defs, cs_expansions = memo\<rparr>))"
  by (simp add: new_class_set_def)

definition class_set_ok :: "(int \<Rightarrow> jstr) \<Rightarrow> class_set \<Rightarrow> bool" where
  "class_set_ok cat cs \<longleftrightarrow> asts_ok (cs_definitions cs) \<and> memo_ok cat (cs_definitions cs) (cs_expansions cs) \<and>
     dom (map_of (cs_definitions cs)) = dom (map_of (cs_expansions cs))"

lemma memo_ok_dom: "memo_ok cat defs memo \<Longrightarrow> dom (map_of memo) \<subseteq> dom (map_of defs)"
proof (induction rule: memo_ok.induct)
  case (extend memo n ast ex)
  have "dom (map_of (memo @ [(n, ex)])) = insert n (dom (map_of memo))"
    using extend.hyps(2) by simp
  then show ?case using extend.IH extend.hyps(3) by auto
qed simp

lemma new_class_set_ok:
  assumes "new_class_set cat v = Inr cs" and "v = JUndef \<or> json_ok v"
  shows "class_set_ok cat cs"
proof -
  obtain es where es: "new_class_set cat (JObj es) = Inr cs" "json_ok (JObj es)"
  proof (cases v)
    case (JObj es)
    then show ?thesis using that assms by simp
  qed (use that [of "[]"] assms in \<open>auto simp: new_class_set_def obj_ok_def\<close>)
  obtain defs memo where p: "parse_definitions es = Inr defs" and m: "expand_all cat defs [] (om_keys defs) = Inr memo"
    and cs: "cs = \<lparr>cs_definitions = defs, cs_expansions = memo\<rparr>"
    using es(1) by (auto simp: new_class_set_JObj)
  note a = parse_definitions_ok(1) [OF p es(2)]
  note s = expand_all_sound [OF a memo_ok.empty m]
  show ?thesis using a s memo_ok_dom [of cat defs memo] by (auto simp: class_set_ok_def cs)
qed

lemma class_set_refs:
  assumes "class_set_ok cat cs"
  shows "acyclic (refs_of (cs_definitions cs))" and "Range (refs_of (cs_definitions cs)) \<subseteq> dom (map_of (cs_definitions cs))"
proof -
  note ok = assms [unfolded class_set_ok_def]
  obtain f :: "jstr \<Rightarrow> nat" where f: "\<And>a b. (a, b) \<in> refs_of (cs_definitions cs) \<Longrightarrow>
      b \<in> dom (map_of (cs_expansions cs)) \<and> f b < f a"
    using memo_ok_acyclic [of cat "cs_definitions cs" "cs_expansions cs"] ok dom_refs_of by metis
  then show "acyclic (refs_of (cs_definitions cs))" by (metis acyclic_measure)
  show "Range (refs_of (cs_definitions cs)) \<subseteq> dom (map_of (cs_definitions cs))"
    using f ok by blast
qed

lemma expand_all_accepts:
  assumes "asts_ok defs"
  shows "(\<exists>memo. expand_all cat defs [] (om_keys defs) = Inr memo) \<longleftrightarrow>
    acyclic (refs_of defs) \<and> Range (refs_of defs) \<subseteq> dom (map_of defs)"
proof
  assume "\<exists>memo. expand_all cat defs [] (om_keys defs) = Inr memo"
  then obtain memo where "expand_all cat defs [] (om_keys defs) = Inr memo" ..
  note s = expand_all_sound [OF assms memo_ok.empty this]
  have "class_set_ok cat \<lparr>cs_definitions = defs, cs_expansions = memo\<rparr>"
    using assms s memo_ok_dom [of cat defs memo] by (auto simp: class_set_ok_def)
  from class_set_refs [OF this] show "acyclic (refs_of defs) \<and> Range (refs_of defs) \<subseteq> dom (map_of defs)" by simp
next
  assume r: "acyclic (refs_of defs) \<and> Range (refs_of defs) \<subseteq> dom (map_of defs)"
  show "\<exists>memo. expand_all cat defs [] (om_keys defs) = Inr memo"
  proof (cases "expand_all cat defs [] (om_keys defs)")
    case (Inl e)
    from expand_all_error [OF assms memo_ok.empty Inl] show ?thesis
      unfolding error_ok_def
    proof
      assume "\<exists>ns. ce_reason e = InClass (ReferenceCycle ns) \<and> 2 \<le> length ns \<and> hd ns = last ns \<and> refs_path defs ns"
      then obtain ns where "(hd ns, hd ns) \<in> (refs_of defs)\<^sup>+" using refs_path_trancl by metis
      then show ?thesis using r by (auto simp: acyclic_def)
    next
      assume "\<exists>n. ce_reason e = InClass (NamesNoClass n) \<and> map_of defs n = None \<and>
          n \<in> set (om_keys defs) \<union> Range (refs_of defs)"
      then show ?thesis using r by auto
    qed
  qed auto
qed

section \<open>Class fields of an accepted set\<close>

lemma expand_items_same:
  assumes "dom (map_of defs) = dom (map_of memo)"
  shows "expand_items cat defs memo items [] = Inr (inner, memo') \<Longrightarrow> memo' = memo"
proof (induction items arbitrary: inner)
  case Nil
  then show ?case by simp
next
  case (Cons it items)
  have nm: "memo1 = memo" if "expand_name cat defs memo name [] = Inr (ex, memo1)" for name ex memo1
    using that assms by (subst (asm) expand_name.simps) (auto split: option.splits if_splits)
  show ?case
    using Cons.prems Cons.IH by (cases it) (auto dest!: nm)
qed

lemma expand_field_same:
  assumes "class_set_ok cat cs" and "expand_field cat cs v = Inr (ex, cs')"
  shows "cs' = cs"
proof -
  have d: "dom (map_of (cs_definitions cs)) = dom (map_of (cs_expansions cs))"
    using assms(1) by (simp add: class_set_ok_def)
  obtain ast memo where a: "expand_ast cat (cs_definitions cs) (cs_expansions cs) ast [] = Inr (ex, memo)"
    and cs': "cs' = cs\<lparr>cs_expansions := memo\<rparr>"
    using assms(2) by (auto simp: expand_field_def split: if_splits)
  have "memo = cs_expansions cs"
  proof (cases ast)
    case (ARef name)
    then show ?thesis
      using a d by (simp add: expand_name.simps [of _ _ _ name]) (auto split: option.splits)
  next
    case (ASet neg items)
    then show ?thesis using a expand_items_same [OF d] by auto
  qed
  then show ?thesis using cs' by simp
qed

lemma class_source_sound:
  assumes "class_set_ok cat cs" and "wf_js src" and "parse_class_text src = Inr ast"
    and "class_source cat cs (JStr src) = Inr s"
  shows "rx_accepts s" and "0 \<le> cp \<Longrightarrow> cp \<le> MAX_CODE_POINT \<Longrightarrow>
      denotes_ast cat (cs_definitions cs) ast cp (rx_test cat s cp)"
proof -
  note ok = assms(1) [unfolded class_set_ok_def]
  obtain ex memo where a: "expand_ast cat (cs_definitions cs) (cs_expansions cs) ast [] = Inr (ex, memo)"
    and s: "s = ex_source ex"
    using assms(3,4) by (auto simp: class_source_def expand_field_def parseClass_def split: if_splits)
  have "expansion_ok cat (cs_definitions cs) ast ex"
    using expand_sound_ast [OF _ parse_class_text_source(1) [OF assms(2,3)] _ _ a] ok by auto
  note e = expansion_ok_rx [OF this]
  show "rx_accepts s" and "0 \<le> cp \<Longrightarrow> cp \<le> MAX_CODE_POINT \<Longrightarrow>
      denotes_ast cat (cs_definitions cs) ast cp (rx_test cat s cp)"
    using e s by simp_all
qed

lemma class_source_accepts:
  assumes "class_set_ok cat cs" and "wf_js src" and "parse_class_text src = Inr ast"
  shows "(\<exists>s. class_source cat cs (JStr src) = Inr s) \<longleftrightarrow> set (ast_refs ast) \<subseteq> dom (map_of (cs_definitions cs))"
proof -
  note ok = assms(1) [unfolded class_set_ok_def]
  note aok = parse_class_text_source(1) [OF assms(2,3)]
  let ?ex = "expand_ast cat (cs_definitions cs) (cs_expansions cs) ast []"
  show ?thesis
  proof (cases ?ex)
    case (Inr p)
    obtain ex memo where p: "?ex = Inr (ex, memo)" using Inr by (cases p) auto
    have sound: "set (ast_refs ast) \<subseteq> dom (map_of memo)" "memo_ok cat (cs_definitions cs) memo"
        "expansion_ok cat (cs_definitions cs) ast ex"
      using expand_sound_ast [OF _ aok _ _ p] ok by auto
    have "rx_accepts (ex_source ex)" using sound(3) expansion_ok_rx(1) by blast
    then have "\<exists>s. class_source cat cs (JStr src) = Inr s"
      using p assms(3) by (simp add: class_source_def expand_field_def parseClass_def)
    then show ?thesis using sound(1) memo_ok_dom [OF sound(2)] by blast
  next
    case (Inl e)
    have none: "\<not> (\<exists>s. class_source cat cs (JStr src) = Inr s)"
      using Inl assms(3) by (simp add: class_source_def expand_field_def parseClass_def)
    have "error_ok (cs_definitions cs) (set (ast_refs ast)) e"
      using expand_error_ast [OF _ aok _ _ _ Inl] ok by (simp add: refs_path_def)
    moreover have "(hd ns, hd ns) \<in> (refs_of (cs_definitions cs))\<^sup>+ \<Longrightarrow> False" for ns
      using class_set_refs(1) [OF assms(1)] by (auto simp: acyclic_def)
    ultimately have "\<exists>n. map_of (cs_definitions cs) n = None \<and> n \<in> set (ast_refs ast) \<union> Range (refs_of (cs_definitions cs))"
      unfolding error_ok_def using refs_path_trancl by metis
    then show ?thesis using none class_set_refs(2) [OF assms(1)] by blast
  qed
qed

lemma class_ranges_sound:
  assumes "class_set_ok cat cs" and "wf_js src" and "parse_class_text src = Inr ast"
    and "class_ranges cat cs (JStr src) = Inr rs"
  shows "ranges_ok rs"
    and "in_ranges cp rs \<longleftrightarrow> covered False cp \<and> denotes_ast cat (cs_definitions cs) ast cp True"
proof -
  obtain s where s: "class_source cat cs (JStr src) = Inr s" and rs: "rs = ranges_of_test False (rx_test cat s)"
    using assms(4) by (auto simp: class_ranges_def rangesOfSource_def split: if_splits)
  show "ranges_ok rs" unfolding rs by (rule scalar_ranges.table_ok)
  have "covered False cp \<Longrightarrow> denotes_ast cat (cs_definitions cs) ast cp (rx_test cat s cp)"
    using class_source_sound(2) [OF assms(1-3) s] by (simp add: covered_def)
  then show "in_ranges cp rs \<longleftrightarrow> covered False cp \<and> denotes_ast cat (cs_definitions cs) ast cp True"
    unfolding rs scalar_ranges.table_mem using denotes_ast_fun by metis
qed

section \<open>A set of two classes\<close>

definition ex_json :: json where
  "ex_json = JObj [(js ''v'', JStr (js ''[ae]'')), (js ''c'', JStr (js ''[^{v}]''))]"

definition ex_definitions :: definitions where
  "ex_definitions = [(js ''v'', ASet False [CChar 97 [97], CChar 101 [101]]),
     (js ''c'', ASet True [CRef (js ''v'') (js ''{v}'')])]"

definition ex_expansions :: expansions where
  "ex_expansions =
     [(js ''v'', \<lparr>ex_negated = False, ex_inner = js ''ae'', ex_source = js ''[ae]''\<rparr>),
      (js ''c'', \<lparr>ex_negated = True, ex_inner = js ''ae'', ex_source = js ''[^ae]''\<rparr>)]"

lemma rx_accepts_eval: "rx_accepts s = (case rx_class s of None \<Rightarrow> False | Some c \<Rightarrow> True)"
  by (simp add: rx_accepts_def split: option.splits)

lemmas class_eval = parse_definitions_def parse_definition_def parseClass_def parse_class_text_def
  parse_items.simps read_atom_def read_escape_def REFERENCE_def CLASS_NAME_def is_name_unit_def
  is_name_start_def Let_def js_defs isSurrogate_def is_digit_def rx_accepts_eval rx_class_def
  rx_items.simps rx_atom_def bracket_source_def ex_definitions_def ex_expansions_def

lemma ex_json_ok: "json_ok ex_json"
  by (simp add: ex_json_def obj_ok_def key_before_def index_key_def is_digit_def wf_js_def)

lemma ex_class_set:
  "new_class_set (\<lambda>cp. js ''Lu'') ex_json = Inr \<lparr>cs_definitions = ex_definitions, cs_expansions = ex_expansions\<rparr>"
  by (simp add: new_class_set_def ex_json_def expand_all_def expand_name.simps class_eval del: bindE_Inr_iff)

section \<open>Properties\<close>

text \<open>C5: The constructor of \<open>ClassSet\<close>, given definitions that parse, accepts them exactly when every
  reference names a defined class and the references form no cycle.\<close>

theorem new_class_set_accepts:
  assumes "json_ok (JObj es)" and "parse_definitions es = Inr defs"
  shows "(\<exists>cs. new_class_set cat (JObj es) = Inr cs) \<longleftrightarrow>
    acyclic (refs_of defs) \<and> Range (refs_of defs) \<subseteq> dom (map_of defs)"
  using expand_all_accepts [OF parse_definitions_ok(1) [OF assms(2,1)], of cat] assms(2)
  by (auto simp: new_class_set_JObj)

theorem new_class_set_accepts_witness:
  "\<not> (\<exists>cs. new_class_set (\<lambda>cp. js ''Lu'') (JObj [(js ''a'', JStr (js ''[x{b}]''))]) = Inr cs)"
proof -
  have "(js ''a'', js ''b'') \<in> refs_of [(js ''a'', ASet False [CChar 120 [120], CRef (js ''b'') (js ''{b}'')])]"
    by (simp add: refs_of_def List.map_filter_def)
  then have "\<not> Range (refs_of [(js ''a'', ASet False [CChar 120 [120], CRef (js ''b'') (js ''{b}'')])]) \<subseteq>
      dom (map_of [(js ''a'', ASet False [CChar 120 [120], CRef (js ''b'') (js ''{b}'')])])"
    by force
  moreover have "parse_definitions [(js ''a'', JStr (js ''[x{b}]''))] =
      Inr [(js ''a'', ASet False [CChar 120 [120], CRef (js ''b'') (js ''{b}'')])]"
    by (simp add: class_eval)
  ultimately show ?thesis
    using new_class_set_accepts [of "[(js ''a'', JStr (js ''[x{b}]''))]"]
    by (auto simp: obj_ok_def)
qed

text \<open>C6: When the constructor throws over definitions that parse, it names a real cycle of references
  or a name that is referred to and not defined; it never reports that JavaScript rejects an
  expansion, for the texts it puts together are bracket expressions.\<close>

theorem new_class_set_error:
  assumes "json_ok (JObj es)" and "parse_definitions es = Inr defs" and "new_class_set cat (JObj es) = Inl e"
  shows "(\<exists>ns. ce_reason e = InClass (ReferenceCycle ns) \<and> 2 \<le> length ns \<and> hd ns = last ns \<and>
      successively (\<lambda>a b. (a, b) \<in> refs_of defs) ns) \<or>
    (\<exists>n. ce_reason e = InClass (NamesNoClass n) \<and> map_of defs n = None \<and> n \<in> Range (refs_of defs))"
proof -
  have "expand_all cat defs [] (om_keys defs) = Inl e"
    using assms(2,3) by (auto simp: new_class_set_JObj bindE_Inl_iff)
  from expand_all_error [OF parse_definitions_ok(1) [OF assms(2,1)] memo_ok.empty this] show ?thesis
    by (auto simp: error_ok_def refs_path_def)
qed

theorem new_class_set_error_witness:
  "(\<exists>ns. InClass (NamesNoClass (js ''b'')) = InClass (ReferenceCycle ns) \<and> 2 \<le> length ns \<and> hd ns = last ns \<and>
      successively (\<lambda>a b. (a, b) \<in> refs_of [(js ''a'', ARef (js ''b''))]) ns) \<or>
    (\<exists>n. InClass (NamesNoClass (js ''b'')) = InClass (NamesNoClass n) \<and> map_of [(js ''a'', ARef (js ''b''))] n = None
      \<and> n \<in> Range (refs_of [(js ''a'', ARef (js ''b''))]))"
proof -
  have p: "parse_definitions [(js ''a'', JStr (js ''{b}''))] = Inr [(js ''a'', ARef (js ''b''))]"
    by (simp add: class_eval)
  then have e: "new_class_set (\<lambda>cp. js ''Lu'') (JObj [(js ''a'', JStr (js ''{b}''))]) =
      Inl (error_path (Some (class_path (js ''a''))) (InClass (NamesNoClass (js ''b''))))"
    by (simp add: new_class_set_JObj expand_all_def expand_name.simps)
  have "json_ok (JObj [(js ''a'', JStr (js ''{b}''))])" by (simp add: obj_ok_def)
  from new_class_set_error [OF this p e] show ?thesis by (simp add: error_path_def)
qed

text \<open>C4: The source \<open>ClassSet.source\<close> gives for a field is a bracket expression JavaScript accepts,
  and it matches exactly the code points the field denotes once its references are resolved,
  through negated classes too.\<close>

theorem class_source_denotes:
  assumes "new_class_set cat v = Inr cs" and "json_ok v" and "wf_js src" and "parseClass (JStr src) = Inr ast"
    and "class_source cat cs (JStr src) = Inr s"
  shows "rx_accepts s \<and> (\<forall>cp b. 0 \<le> cp \<and> cp \<le> 1114111 \<longrightarrow>
    denotes_ast cat (cs_definitions cs) ast cp b = (b = rx_test cat s cp))"
proof -
  have ok: "class_set_ok cat cs" using new_class_set_ok [OF assms(1)] assms(2) by blast
  have "parse_class_text src = Inr ast" using assms(4) by (simp add: parseClass_def)
  note c = class_source_sound [OF ok assms(3) this assms(5)]
  have "denotes_ast cat (cs_definitions cs) ast cp b = (b = rx_test cat s cp)"
    if "0 \<le> cp" "cp \<le> 1114111" for cp b
  proof -
    have d: "denotes_ast cat (cs_definitions cs) ast cp (rx_test cat s cp)"
      using c(2) [of cp] that by (simp add: MAX_CODE_POINT_def)
    show ?thesis using d denotes_ast_fun [OF d, of b] by blast
  qed
  then show ?thesis using c(1) by blast
qed

theorem class_source_denotes_witness:
  "denotes_ast (\<lambda>cp. js ''Lu'') ex_definitions (ASet False [CRef (js ''v'') (js ''{v}''), CChar 98 [98]]) 101 True"
proof -
  have src: "class_source (\<lambda>cp. js ''Lu'') \<lparr>cs_definitions = ex_definitions, cs_expansions = ex_expansions\<rparr>
      (JStr (js ''[{v}b]'')) = Inr (js ''[aeb]'')"
    and ast: "parseClass (JStr (js ''[{v}b]'')) = Inr (ASet False [CRef (js ''v'') (js ''{v}''), CChar 98 [98]])"
    by (simp_all add: class_source_def expand_field_def class_eval expand_name.simps del: bindE_Inr_iff)
  have "rx_test (\<lambda>cp. js ''Lu'') (js ''[aeb]'') 101 = True"
    by (simp add: rx_test_def class_eval)
  then show ?thesis
    using class_source_denotes [OF ex_class_set ex_json_ok _ ast src] by simp
qed

text \<open>C7: \<open>ClassSet.ranges\<close> of a field is canonical, and a Unicode scalar value is in it exactly when
  the field denotes it.\<close>

theorem class_ranges_denotes:
  assumes "new_class_set cat v = Inr cs" and "json_ok v" and "wf_js src" and "parseClass (JStr src) = Inr ast"
    and "class_ranges cat cs (JStr src) = Inr rs"
  shows "ranges_ok rs \<and> (\<forall>cp. in_ranges cp rs \<longleftrightarrow>
    covered False cp \<and> denotes_ast cat (cs_definitions cs) ast cp True)"
proof -
  have ok: "class_set_ok cat cs" using new_class_set_ok [OF assms(1)] assms(2) by blast
  have "parse_class_text src = Inr ast" using assms(4) by (simp add: parseClass_def)
  from class_ranges_sound [OF ok assms(3) this assms(5)] show ?thesis by blast
qed

theorem class_ranges_denotes_witness:
  "in_ranges 101 (ranges_of_test False (rx_test (\<lambda>cp. js ''Lu'') (js ''[ae]''))) \<longleftrightarrow>
    covered False 101 \<and> denotes_ast (\<lambda>cp. js ''Lu'') ex_definitions (ARef (js ''v'')) 101 True"
proof -
  have r: "class_ranges (\<lambda>cp. js ''Lu'') \<lparr>cs_definitions = ex_definitions, cs_expansions = ex_expansions\<rparr>
      (JStr (js ''{v}'')) = Inr (ranges_of_test False (rx_test (\<lambda>cp. js ''Lu'') (js ''[ae]'')))"
    and ast: "parseClass (JStr (js ''{v}'')) = Inr (ARef (js ''v''))"
    by (simp_all add: class_ranges_def class_source_def expand_field_def rangesOfSource_def class_eval
        expand_name.simps del: bindE_Inr_iff)
  show ?thesis using class_ranges_denotes [OF ex_class_set ex_json_ok _ ast r] by simp
qed

text \<open>\<open>ClassSet.check\<close> accepts a field that parses exactly when its references are defined, and
  leaves the set as it was.\<close>

theorem class_check_accepts:
  assumes "new_class_set cat v = Inr cs" and "json_ok v" and "wf_js src" and "parseClass (JStr src) = Inr ast"
  shows "(class_check cat cs (JStr src) = Inr () \<longleftrightarrow> (\<forall>name\<in>set (ast_refs ast). class_has cs name)) \<and>
    (\<forall>ex cs'. expand_field cat cs (JStr src) = Inr (ex, cs') \<longrightarrow> cs' = cs)"
proof -
  have ok: "class_set_ok cat cs" using new_class_set_ok [OF assms(1)] assms(2) by blast
  have "parse_class_text src = Inr ast" using assms(4) by (simp add: parseClass_def)
  note a = class_source_accepts [OF ok assms(3) this]
  have "class_check cat cs (JStr src) = Inr () \<longleftrightarrow> (\<exists>s. class_source cat cs (JStr src) = Inr s)"
    by (auto simp: class_check_def class_source_def)
  then have "class_check cat cs (JStr src) = Inr () \<longleftrightarrow> (\<forall>name\<in>set (ast_refs ast). class_has cs name)"
    using a by (auto simp: class_has_def)
  then show ?thesis using expand_field_same [OF ok] by blast
qed

theorem class_check_accepts_witness:
  "class_check (\<lambda>cp. js ''Lu'') \<lparr>cs_definitions = ex_definitions, cs_expansions = ex_expansions\<rparr>
     (JStr (js ''{z}'')) \<noteq> Inr ()"
proof -
  have "parseClass (JStr (js ''{z}'')) = Inr (ARef (js ''z''))" by (simp add: class_eval)
  from class_check_accepts [OF ex_class_set ex_json_ok _ this] show ?thesis
    by (simp add: class_has_def ex_definitions_def)
qed

text \<open>The cache of \<open>rangesOfSource\<close> never changes an answer: with a cache whose entries are
  right, a call gives what the uncached function gives and leaves the cache right.\<close>

theorem rangesOfSource_cache_transparent:
  assumes "range_cache_ok cat cache"
  shows "(case rangesOfSource_cached cat cache surrogates source of
      Inl e \<Rightarrow> rangesOfSource cat surrogates source = Inl e
    | Inr (rs, cache') \<Rightarrow> rangesOfSource cat surrogates source = Inr rs \<and> range_cache_ok cat cache')"
  using rangesOfSource_cached_transparent [OF assms, of surrogates source]
  by (auto simp: bindE_Inl_iff split: sum.splits)

theorem rangesOfSource_cache_transparent_witness:
  "case rangesOfSource_cached (\<lambda>cp. js ''Lu'') [] False (js ''[a]'') of
      Inl e \<Rightarrow> rangesOfSource (\<lambda>cp. js ''Lu'') False (js ''[a]'') = Inl e
    | Inr (rs, cache') \<Rightarrow> rangesOfSource (\<lambda>cp. js ''Lu'') False (js ''[a]'') = Inr rs
        \<and> range_cache_ok (\<lambda>cp. js ''Lu'') cache'"
  by (rule rangesOfSource_cache_transparent) (simp add: range_cache_ok_def)

end
