(* ===== verification/Patterns.thy ===== *)
theory Patterns
  imports Class_Set
begin

text \<open>
  The pattern dialect of tools/lib/classes.mjs: \<open>parsePattern\<close>, \<open>checkReplacement\<close>, and
  \<open>ClassSet\<close>'s \<open>patternSource\<close>, \<open>patternRegExp\<close> and \<open>expandSteps\<close>.

  The variables the nested functions of \<open>parsePattern\<close> share are the record \<open>pstate\<close>; \<open>ps_rest\<close>
  is the pattern from position \<open>i\<close>. The three functions that call one another take fuel, which
  \<open>parsePattern\<close> gives from the length of the pattern; \<open>parsePattern_total\<close> shows it is enough.
  Whether \<open>new RegExp(probe, '')\<close> accepts the probe is the parameter \<open>accepts\<close>.
\<close>

record pattern_ref =
  pr_name :: jstr
  pr_start :: nat
  pr_end :: nat
  pr_in_class :: bool

record pstate =
  ps_rest :: jstr
  ps_groups :: nat
  ps_closed :: "nat set"
  ps_refs :: "pattern_ref list"
  ps_next_frame :: nat
  ps_frames :: "nat list"
  ps_optional :: "nat \<Rightarrow> bool"
  ps_group_frames :: "nat \<Rightarrow> nat list"
  ps_group_nullable :: "nat \<Rightarrow> bool"
  ps_lookaheads :: nat

text \<open>\<open>fail(message)\<close> where the rest of the pattern is \<open>s\<close>.\<close>

definition pat_fail :: "jstr \<Rightarrow> jstr \<Rightarrow> pattern_reason \<Rightarrow> class_error + 'a" where
  "pat_fail src s r = Inl (error_at_offset src (length src - length s) (InPattern r))"

lemma pat_fail_not_Inr [simp]: "pat_fail src s r \<noteq> Inr x" "Inr x \<noteq> pat_fail src s r"
  by (simp_all add: pat_fail_def)

section \<open>Quantifiers\<close>

text \<open>
  The match of \<open>/^\{(\d+)(,(\d*))?\}/\<close>: the first number, the second (\<open>None\<close> without a comma), the
  length of the match.
\<close>

definition brace_quantifier :: "jstr \<Rightarrow> (jstr \<times> jstr option \<times> nat) option" where
  "brace_quantifier s =
     (let ds = takeWhile is_digit (drop 1 s); n = 1 + length ds
      in if \<not> starts_with s [123] \<or> ds = [] then None
         else if unit_at s n = Some 125 then Some (ds, None, n + 1)
         else if unit_at s n = Some 44 then
           (let es = takeWhile is_digit (drop (n + 1) s)
            in if unit_at s (n + 1 + length es) = Some 125 then Some (ds, Some es, n + 2 + length es) else None)
         else None)"

definition quantifierAt :: "jstr \<Rightarrow> nat" where
  "quantifierAt s = (case unit_at s 0 of
       None \<Rightarrow> 0
     | Some c \<Rightarrow>
         (if c = 42 \<or> c = 43 \<or> c = 63 then 1
          else if c = 123 then (case brace_quantifier s of None \<Rightarrow> 0 | Some (ds, es, n) \<Rightarrow> n)
          else 0))"

text \<open>\<open>parseQuantifier(canRepeat)\<close>: the minimum, \<open>None\<close> without a quantifier, and the rest.\<close>

definition parseQuantifier :: "jstr \<Rightarrow> bool \<Rightarrow> jstr \<Rightarrow> class_error + int option \<times> jstr" where
  "parseQuantifier src canRepeat s =
     (let n = quantifierAt s
      in if n = 0 then Inr (None, s)
         else if \<not> canRepeat then pat_fail src s AssertionNotRepeatable
         else
           let braces = brace_quantifier s;
               min = (case braces of None \<Rightarrow> if unit_at s 0 = Some 43 then 1 else 0 | Some (ds, es, k) \<Rightarrow> dec_val ds);
               max = (case braces of Some (ds, Some es, k) \<Rightarrow> if es = [] then None else Some (dec_val es) | _ \<Rightarrow> None)
           in if min > 65535 \<or> (case max of None \<Rightarrow> False | Some m \<Rightarrow> m > 65535) then pat_fail src s QuantifierTooBig
              else if (case max of None \<Rightarrow> False | Some m \<Rightarrow> m < min) then pat_fail src s QuantifierOrder
              else
                let s1 = drop n s; s2 = (if unit_at s1 0 = Some 63 then drop 1 s1 else s1)
                in if quantifierAt s2 \<noteq> 0 then pat_fail src s2 NothingToRepeat
                   else Inr (Some min, s2))"

definition repeatsZero :: "int option \<Rightarrow> bool" where
  "repeatsZero q \<longleftrightarrow> q = Some 0"

section \<open>Classes in patterns\<close>

definition is_class_escape :: "int \<Rightarrow> bool" where
  "is_class_escape e \<longleftrightarrow> e \<in> set (js ''sSwWbBdD'')"

text \<open>
  \<open>readAtom\<close> of \<open>parseClassInPattern\<close>: \<open>None\<close> at the closing bracket; \<open>start\<close> is the pattern from
  the opening bracket.
\<close>

definition read_class_escape :: "jstr \<Rightarrow> jstr \<Rightarrow> class_error + (int \<times> jstr) option" where
  "read_class_escape src s = (case unit_at s 1 of
       None \<Rightarrow> pat_fail src s PatternLoneBackslash
     | Some e \<Rightarrow>
         (if e = 92 \<or> e = 93 \<or> e = 94 \<or> e = 45 \<or> e = 91 then Inr (Some (e, drop 2 s))
          else if e = 117 then bindE (readCodePointEscape src s False) (\<lambda>(cp, next). Inr (Some (cp, next)))
          else pat_fail src s (NotInDialect e)))"

definition read_class_atom :: "jstr \<Rightarrow> jstr \<Rightarrow> jstr \<Rightarrow> class_error + (int \<times> jstr) option" where
  "read_class_atom src start s = (case unit_at s 0 of
       None \<Rightarrow> fail_at src start NotClosed
     | Some c \<Rightarrow>
         (if c = 93 then Inr None
          else if c = 91 then
            (if unit_at s 1 \<in> {Some 58, Some 46, Some 61} then pat_fail src s PosixBracket
             else pat_fail src s UnescapedBracket)
          else if c = 92 then read_class_escape src s
          else
            let cp = (case cp_first s of None \<Rightarrow> 0 | Some cp \<Rightarrow> cp)
            in if cp > 65535 then pat_fail src s ClassAboveFFFF
               else if isSurrogate cp then fail_at src s LoneSurrogate
               else if c = 45 then fail_at src s BareDash
               else if c = 94 then fail_at src s BareCaret
               else Inr (Some (cp, drop 1 s))))"

lemma read_class_atom_shorter: "read_class_atom src start s = Inr (Some (cp, r)) \<Longrightarrow> length r < length s"
  by (cases s) (auto simp: read_class_atom_def read_class_escape_def Let_def unit_at_def
      dest!: escape_shorter split: option.splits if_splits)

text \<open>The loop of \<open>parseClassInPattern\<close>: the references, the number of items, what follows.\<close>

function (sequential) class_items ::
    "jstr \<Rightarrow> jstr \<Rightarrow> jstr \<Rightarrow> class_error + pattern_ref list \<times> nat \<times> jstr" where
  "class_items src start s =
     (if unit_at s 0 = Some 123 then
        (case REFERENCE s of
           None \<Rightarrow> pat_fail src s BraceInPatternClass
         | Some name \<Rightarrow>
             (let i = length src - length s; n = length name + 2
              in bindE (class_items src start (drop n s)) (\<lambda>(refs, count, r).
                   Inr (\<lparr>pr_name = name, pr_start = i, pr_end = i + n, pr_in_class = True\<rparr> # refs, Suc count, r))))
      else bindE (read_class_atom src start s) (\<lambda>a. case a of
          None \<Rightarrow> Inr ([], 0, drop 1 s)
        | Some (lo, s1) \<Rightarrow>
            (if unit_at s1 0 = Some 45 then
               (if unit_at s1 1 = Some 93 \<or> unit_at s1 1 = None then fail_at src s1 BareDash
                else if unit_at s1 1 = Some 123 then fail_at src (drop 1 s1) RangeEndsWithReference
                else bindE (read_class_atom src start (drop 1 s1)) (\<lambda>b. case b of
                    None \<Rightarrow> fail_at src s RangeNeedsCharacters
                  | Some (hi, s2) \<Rightarrow>
                      (if hi < lo then pat_fail src s PatternRangeOrder
                       else bindE (class_items src start s2) (\<lambda>(refs, count, r). Inr (refs, Suc count, r)))))
             else bindE (class_items src start s1) (\<lambda>(refs, count, r). Inr (refs, Suc count, r)))))"
  by pat_completeness auto
termination
  by (relation "measure (\<lambda>(src, start, s). length s)")
    (auto dest!: read_class_atom_shorter simp: unit_at_def split: if_splits)

declare class_items.simps [simp del]

definition parseClassInPattern :: "jstr \<Rightarrow> jstr \<Rightarrow> class_error + pattern_ref list \<times> jstr" where
  "parseClassInPattern src s =
     (let s1 = drop 1 s; s2 = (if unit_at s1 0 = Some 94 then drop 1 s1 else s1)
      in bindE (class_items src s s2) (\<lambda>(refs, count, r).
           if count = 0 then pat_fail src s EmptyClass else Inr (refs, r)))"

section \<open>Escapes\<close>

definition PATTERN_SYNTAX :: jstr where
  "PATTERN_SYNTAX = [94, 36, 92, 46, 42, 43, 63, 40, 41, 91, 93, 123, 125, 124, 47]"

fun common_prefix :: "nat list \<Rightarrow> nat list \<Rightarrow> nat" where
  "common_prefix (x # xs) (y # ys) = (if x = y then Suc (common_prefix xs ys) else 0)"
| "common_prefix _ _ = 0"

definition is_digit_1_9 :: "int option \<Rightarrow> bool" where
  "is_digit_1_9 u \<longleftrightarrow> (case u of None \<Rightarrow> False | Some d \<Rightarrow> 49 \<le> d \<and> d \<le> 57)"

definition is_digit_0_9 :: "int option \<Rightarrow> bool" where
  "is_digit_0_9 u \<longleftrightarrow> (case u of None \<Rightarrow> False | Some d \<Rightarrow> is_digit d)"

definition parseEscape :: "jstr \<Rightarrow> pstate \<Rightarrow> class_error + jstr" where
  "parseEscape src st =
     (let s = ps_rest st in case unit_at s 1 of
        None \<Rightarrow> pat_fail src s PatternLoneBackslash
      | Some e \<Rightarrow>
          (if 49 \<le> e \<and> e \<le> 57 then
             (let grp = nat (e - 48); holding = ps_group_frames st grp;
                  shared = common_prefix (ps_frames st) holding
              in if is_digit_0_9 (unit_at s 2) then pat_fail src s TwoDigitBackReference
                 else if grp \<notin> ps_closed st then pat_fail src s (BackReferenceBeforeGroup (e - 48))
                 else if 0 < ps_lookaheads st then pat_fail src s BackReferenceInLookahead
                 else if list_ex (ps_optional st) (drop shared holding)
                 then pat_fail src s (BackReferenceOptional (e - 48))
                 else Inr (drop 2 s))
           else if e = 117 then
             (if unit_at s 2 = Some 123 then pat_fail src s PatternBraces
              else if \<not> (length (slice s 2 6) = 4 \<and> list_all is_hex (slice s 2 6)) then fail_at src s NotFourDigits
              else Inr (drop 6 s))
           else if e = 112 \<or> e = 80 \<or> is_class_escape e \<or> e = 107 then pat_fail src s (NotInDialect e)
           else if e \<in> set PATTERN_SYNTAX then Inr (drop 2 s)
           else pat_fail src s (NotInDialect e)))"

section \<open>Terms, alternatives and disjunctions\<close>

definition starts_text :: "jstr \<Rightarrow> string \<Rightarrow> bool" where
  "starts_text s t \<longleftrightarrow> starts_with s (js t)"

text \<open>A quantifier after something of the given kind: whether it may repeat zero times, and the state.\<close>

definition quantified :: "jstr \<Rightarrow> pstate \<Rightarrow> class_error + bool \<times> pstate" where
  "quantified src st = bindE (parseQuantifier src True (ps_rest st))
     (\<lambda>(q, r). Inr (repeatsZero q, st\<lparr>ps_rest := r\<rparr>))"

definition assertion_end :: "jstr \<Rightarrow> pstate \<Rightarrow> class_error + bool \<times> pstate" where
  "assertion_end src st = bindE (parseQuantifier src False (ps_rest st))
     (\<lambda>(q, r). Inr (True, st\<lparr>ps_rest := r\<rparr>))"

text \<open>The head of a group: what \<open>parseTerm\<close> rejects before it opens one.\<close>

definition group_head :: "jstr \<Rightarrow> pstate \<Rightarrow> class_error + bool" where
  "group_head src st =
     (let s = ps_rest st in
      if starts_text s ''(?<='' \<or> starts_text s ''(?<!'' then pat_fail src s Lookbehind
      else if starts_text s ''(?<'' then pat_fail src s NamedGroup
      else if starts_text s ''(?'' \<and> \<not> starts_text s ''(?:'' then pat_fail src s UnknownGroup
      else if \<not> starts_text s ''(?:'' \<and> 0 < ps_lookaheads st then pat_fail src s CaptureInLookahead
      else Inr (\<not> starts_text s ''(?:''))"

text \<open>A group's end, from its closing parenthesis: \<open>before\<close> is the number of groups at its start.\<close>

definition group_end ::
    "jstr \<Rightarrow> bool \<Rightarrow> nat \<Rightarrow> nat \<Rightarrow> nat \<Rightarrow> bool \<Rightarrow> pstate \<Rightarrow> class_error + bool \<times> pstate" where
  "group_end src capturing frame grp before nullable st =
     (if unit_at (ps_rest st) 0 \<noteq> Some 41 then pat_fail src (ps_rest st) GroupNotClosed
      else
        let st1 = st\<lparr>ps_rest := drop 1 (ps_rest st)\<rparr>;
            st2 = (if capturing then st1\<lparr>ps_closed := insert grp (ps_closed st1),
                     ps_group_nullable := (ps_group_nullable st1)(grp := nullable)\<rparr> else st1)
        in bindE (parseQuantifier src True (ps_rest st2)) (\<lambda>(q, r).
             if q \<noteq> None \<and> nullable then pat_fail src (ps_rest st2) RepeatsNullableGroup
             else if q \<noteq> None \<and> before < ps_groups st2 then pat_fail src (ps_rest st2) RepeatsCapture
             else Inr (nullable \<or> repeatsZero q,
               st2\<lparr>ps_rest := r, ps_optional := (ps_optional st2)(frame := repeatsZero q)\<rparr>)))"

definition escape_term :: "jstr \<Rightarrow> pstate \<Rightarrow> class_error + bool \<times> pstate" where
  "escape_term src st =
     (let grp = (if is_digit_1_9 (unit_at (ps_rest st) 1) then nat (the (unit_at (ps_rest st) 1) - 48) else 0)
      in bindE (parseEscape src st) (\<lambda>s1.
         bindE (parseQuantifier src True s1) (\<lambda>(q, r).
           let nullable = (0 < grp \<and> ps_group_nullable st grp)
           in if q \<noteq> None \<and> nullable then pat_fail src s1 RepeatsNullableBackReference
              else Inr (nullable \<or> repeatsZero q, st\<lparr>ps_rest := r\<rparr>))))"

definition reference_term :: "jstr \<Rightarrow> pstate \<Rightarrow> class_error + bool \<times> pstate" where
  "reference_term src st =
     (let s = ps_rest st in case REFERENCE s of
        Some name \<Rightarrow>
          (let i = length src - length s; n = length name + 2
           in quantified src (st\<lparr>ps_rest := drop n s,
                ps_refs := ps_refs st @ [\<lparr>pr_name = name, pr_start = i, pr_end = i + n, pr_in_class = False\<rparr>]\<rparr>))
      | None \<Rightarrow> (if quantifierAt s \<noteq> 0 then pat_fail src s NothingToRepeat else pat_fail src s LiteralBrace))"

definition literal_term :: "jstr \<Rightarrow> pstate \<Rightarrow> class_error + bool \<times> pstate" where
  "literal_term src st =
     (let s = ps_rest st; cp = (case cp_first s of None \<Rightarrow> 0 | Some cp \<Rightarrow> cp)
      in if isSurrogate cp then fail_at src s LoneSurrogate
         else
           let s1 = drop (if cp > 65535 then 2 else 1) s
           in if cp > 65535 \<and> quantifierAt s1 \<noteq> 0 then pat_fail src s1 AstralQuantifier
              else quantified src (st\<lparr>ps_rest := s1\<rparr>))"

text \<open>The terms that hold no other term: \<open>c\<close> is the first unit.\<close>

definition simple_term :: "jstr \<Rightarrow> int \<Rightarrow> pstate \<Rightarrow> class_error + bool \<times> pstate" where
  "simple_term src c st =
     (let s = ps_rest st in
      if c = 94 \<or> c = 36 then
        (if c = 94 \<and> 0 < ps_lookaheads st then pat_fail src s CaretInLookahead
         else assertion_end src (st\<lparr>ps_rest := drop 1 s\<rparr>))
      else if c = 91 then bindE (parseClassInPattern src s) (\<lambda>(refs, r).
        quantified src (st\<lparr>ps_rest := r, ps_refs := ps_refs st @ refs\<rparr>))
      else if c = 46 then quantified src (st\<lparr>ps_rest := drop 1 s\<rparr>)
      else if c = 92 then escape_term src st
      else if c = 123 then reference_term src st
      else if c = 42 \<or> c = 43 \<or> c = 63 then pat_fail src s NothingToRepeat
      else if c = 93 \<or> c = 125 then pat_fail src s (LiteralMustBeWritten c)
      else literal_term src st)"

definition push_frame :: "nat \<Rightarrow> pstate \<Rightarrow> pstate" where
  "push_frame frame st = st\<lparr>ps_next_frame := Suc frame, ps_frames := ps_frames st @ [frame]\<rparr>"

definition pop_frame :: "pstate \<Rightarrow> pstate" where
  "pop_frame st = st\<lparr>ps_frames := butlast (ps_frames st)\<rparr>"

definition open_lookahead :: "pstate \<Rightarrow> pstate" where
  "open_lookahead st =
     push_frame (ps_next_frame st) (st\<lparr>ps_rest := drop 3 (ps_rest st),
       ps_optional := (ps_optional st)(ps_next_frame st := starts_text (ps_rest st) ''(?!''),
       ps_lookaheads := Suc (ps_lookaheads st)\<rparr>)"

definition close_lookahead :: "jstr \<Rightarrow> pstate \<Rightarrow> class_error + bool \<times> pstate" where
  "close_lookahead src st =
     (let st1 = pop_frame (st\<lparr>ps_lookaheads := ps_lookaheads st - 1\<rparr>)
      in if unit_at (ps_rest st1) 0 \<noteq> Some 41 then pat_fail src (ps_rest st1) LookaheadNotClosed
         else assertion_end src (st1\<lparr>ps_rest := drop 1 (ps_rest st1)\<rparr>))"

definition open_group :: "bool \<Rightarrow> pstate \<Rightarrow> pstate" where
  "open_group capturing st =
     (let frame = ps_next_frame st;
          st1 = st\<lparr>ps_rest := drop (if capturing then 1 else 3) (ps_rest st)\<rparr>;
          grp = Suc (ps_groups st1);
          st2 = (if capturing then st1\<lparr>ps_groups := grp,
                   ps_group_frames := (ps_group_frames st1)(grp := ps_frames st1 @ [frame])\<rparr> else st1)
      in push_frame frame st2)"

definition end_alternative :: "nat \<Rightarrow> bool \<Rightarrow> pstate \<Rightarrow> pstate" where
  "end_alternative frame opt st = (pop_frame st)\<lparr>ps_optional := (ps_optional st)(frame := opt)\<rparr>"

fun parseDisjunction :: "nat \<Rightarrow> jstr \<Rightarrow> nat \<Rightarrow> bool \<Rightarrow> pstate \<Rightarrow> class_error + bool \<times> pstate"
and parseAlternative :: "nat \<Rightarrow> jstr \<Rightarrow> bool \<Rightarrow> pstate \<Rightarrow> class_error + bool \<times> pstate"
and parseTerm :: "nat \<Rightarrow> jstr \<Rightarrow> pstate \<Rightarrow> class_error + bool \<times> pstate" where
  "parseDisjunction 0 src index nullable st = pat_fail src (ps_rest st) OutOfFuel"
| "parseDisjunction (Suc fuel) src index nullable st =
     (let frame = ps_next_frame st
      in bindE (parseAlternative fuel src True (push_frame frame st)) (\<lambda>(n, st1).
         let more = (unit_at (ps_rest st1) 0 = Some 124);
             st2 = end_alternative frame (more \<or> 0 < index) st1
         in if \<not> more then Inr (n \<or> nullable, st2)
            else parseDisjunction fuel src (Suc index) (n \<or> nullable) (st2\<lparr>ps_rest := drop 1 (ps_rest st2)\<rparr>)))"
| "parseAlternative 0 src nullable st = pat_fail src (ps_rest st) OutOfFuel"
| "parseAlternative (Suc fuel) src nullable st =
     (if unit_at (ps_rest st) 0 \<in> {None, Some 124, Some 41} then Inr (nullable, st)
      else bindE (parseTerm fuel src st) (\<lambda>(n, st1). parseAlternative fuel src (n \<and> nullable) st1))"
| "parseTerm 0 src st = pat_fail src (ps_rest st) OutOfFuel"
| "parseTerm (Suc fuel) src st =
     (case unit_at (ps_rest st) 0 of
        None \<Rightarrow> pat_fail src (ps_rest st) UnexpectedCharacter
      | Some c \<Rightarrow>
          (if c \<noteq> 40 then simple_term src c st
           else if starts_text (ps_rest st) ''(?='' \<or> starts_text (ps_rest st) ''(?!'' then
             bindE (parseDisjunction fuel src 0 False (open_lookahead st)) (\<lambda>(n, st1). close_lookahead src st1)
           else
             bindE (group_head src st) (\<lambda>capturing.
             bindE (parseDisjunction fuel src 0 False (open_group capturing st)) (\<lambda>(n, st1).
               group_end src capturing (ps_next_frame st) (Suc (ps_groups st))
                 (ps_groups (open_group capturing st)) n (pop_frame st1)))))"

definition init_pstate :: "jstr \<Rightarrow> pstate" where
  "init_pstate src = \<lparr>ps_rest = src, ps_groups = 0, ps_closed = {}, ps_refs = [], ps_next_frame = 0, ps_frames = [],
     ps_optional = (\<lambda>_. False), ps_group_frames = (\<lambda>_. []), ps_group_nullable = (\<lambda>_. False), ps_lookaheads = 0\<rparr>"

text \<open>The probe: every reference replaced by one letter, from the last to the first.\<close>

definition probe_step :: "pattern_ref \<Rightarrow> jstr \<Rightarrow> jstr" where
  "probe_step ref probe = take (pr_start ref) probe @ (if pr_in_class ref then js ''a'' else js ''[a]'')
     @ drop (pr_end ref) probe"

definition pattern_probe :: "jstr \<Rightarrow> pattern_ref list \<Rightarrow> jstr" where
  "pattern_probe src refs = foldr probe_step refs src"

record parsed_pattern =
  pp_groups :: nat
  pp_refs :: "pattern_ref list"
  pp_nullable :: bool

definition parse_pattern_text :: "(jstr \<Rightarrow> bool) \<Rightarrow> jstr \<Rightarrow> bool \<Rightarrow> class_error + parsed_pattern" where
  "parse_pattern_text accepts src global =
     bindE (parseDisjunction (3 * length src + 3) src 0 False (init_pstate src)) (\<lambda>(nullable, st).
       if ps_rest st \<noteq> [] then
         pat_fail src (ps_rest st) (if unit_at (ps_rest st) 0 = Some 41 then UnmatchedParen else UnexpectedCharacter)
       else if global \<and> nullable then pat_fail src src GlobalNullable
       else if \<not> accepts (pattern_probe src (ps_refs st)) then pat_fail src src JsRejectsPattern
       else Inr \<lparr>pp_groups = ps_groups st, pp_refs = ps_refs st, pp_nullable = nullable\<rparr>)"

definition parsePattern :: "(jstr \<Rightarrow> bool) \<Rightarrow> json \<Rightarrow> bool \<Rightarrow> class_error + parsed_pattern" where
  "parsePattern accepts v global = (case v of
       JStr src \<Rightarrow> parse_pattern_text accepts src global
     | _ \<Rightarrow> Inl (class_error (InPattern PatternNotString)))"

section \<open>Replacements\<close>

text \<open>The loop of \<open>checkReplacement\<close>, from the position where the rest of the replacement is \<open>s\<close>.\<close>

function (sequential) check_replacement_from :: "jstr \<Rightarrow> nat \<Rightarrow> jstr \<Rightarrow> class_error + unit" where
  "check_replacement_from src groups s =
     (if s = [] then Inr ()
      else if unit_at s 0 \<noteq> Some 36 then check_replacement_from src groups (drop 1 s)
      else if unit_at s 1 = Some 38 then check_replacement_from src groups (drop 2 s)
      else if is_digit_1_9 (unit_at s 1) then
        (if is_digit_0_9 (unit_at s 2) then pat_fail src s ReplacementTwoDigits
         else if the (unit_at s 1) - 48 > int groups then pat_fail src s (ReplacementNoGroup (the (unit_at s 1) - 48))
         else check_replacement_from src groups (drop 2 s))
      else pat_fail src s ReplacementDollar)"
  by pat_completeness auto
termination
  by (relation "measure (\<lambda>(src, groups, s). length s)") auto

declare check_replacement_from.simps [simp del]

definition checkReplacement :: "json \<Rightarrow> nat \<Rightarrow> class_error + unit" where
  "checkReplacement v groups = (case v of
       JStr src \<Rightarrow> check_replacement_from src groups src
     | _ \<Rightarrow> Inl (class_error (InPattern ReplacementNotString)))"

section \<open>patternSource, patternRegExp and expandSteps\<close>

text \<open>The loop of \<open>patternSource\<close>: \<open>pos\<close> is the variable \<open>last\<close>.\<close>

fun expand_refs :: "(int \<Rightarrow> jstr) \<Rightarrow> class_set \<Rightarrow> jstr \<Rightarrow> nat \<Rightarrow> pattern_ref list \<Rightarrow> class_error + jstr" where
  "expand_refs cat cs src pos [] = Inr (drop pos src)"
| "expand_refs cat cs src pos (ref # refs) =
     (if \<not> class_has cs (pr_name ref) then
        Inl (error_at_offset src (pr_start ref) (InClass (NamesNoClass (pr_name ref))))
      else (case bindE (class_ranges cat cs (JStr ([123] @ pr_name ref @ [125]))) rangesToPatternItems of
          Inl e \<Rightarrow> Inl (error_at_offset src (pr_start ref) (InClass (ReferenceAboveFFFF (pr_name ref))))
        | Inr items \<Rightarrow>
            bindE (expand_refs cat cs src (pr_end ref) refs) (\<lambda>rest.
              Inr (slice src pos (pr_start ref) @ (if pr_in_class ref then items else [91] @ items @ [93]) @ rest))))"

definition patternSource ::
    "(int \<Rightarrow> jstr) \<Rightarrow> (jstr \<Rightarrow> bool) \<Rightarrow> class_set \<Rightarrow> json \<Rightarrow> bool \<Rightarrow> class_error + jstr" where
  "patternSource cat accepts cs v global =
     bindE (parsePattern accepts v global) (\<lambda>p.
       expand_refs cat cs (case v of JStr src \<Rightarrow> src | _ \<Rightarrow> []) 0 (pp_refs p))"

definition patternRegExp ::
    "(int \<Rightarrow> jstr) \<Rightarrow> (jstr \<Rightarrow> bool) \<Rightarrow> class_set \<Rightarrow> json \<Rightarrow> bool \<Rightarrow> class_error + jstr \<times> jstr" where
  "patternRegExp cat accepts cs v global =
     bindE (patternSource cat accepts cs v global) (\<lambda>source. Inr (source, if global then js ''g'' else []))"

text \<open>\<open>expandSteps\<close>: \<open>{...step}\<close> with its \<open>strip\<close>, \<open>within\<close> and \<open>pattern\<close> replaced.\<close>

definition expand_key :: "(json \<Rightarrow> class_error + jstr) \<Rightarrow> jstr \<Rightarrow> json \<Rightarrow> json \<Rightarrow> class_error + json" where
  "expand_key f key step out = (case (obj_get step key, out) of
       (JStr s, JObj es) \<Rightarrow> bindE (f (JStr s)) (\<lambda>t. Inr (JObj (obj_put key (JStr t) es)))
     | _ \<Rightarrow> Inr out)"

definition expand_step :: "(int \<Rightarrow> jstr) \<Rightarrow> (jstr \<Rightarrow> bool) \<Rightarrow> class_set \<Rightarrow> json \<Rightarrow> class_error + json" where
  "expand_step cat accepts cs step =
     bindE (expand_key (class_source cat cs) (js ''strip'') step step) (\<lambda>o1.
     bindE (expand_key (class_source cat cs) (js ''within'') step o1) (\<lambda>o2.
       expand_key (\<lambda>v. patternSource cat accepts cs v False) (js ''pattern'') step o2))"

definition expandSteps :: "(int \<Rightarrow> jstr) \<Rightarrow> (jstr \<Rightarrow> bool) \<Rightarrow> class_set \<Rightarrow> json list \<Rightarrow> class_error + json list" where
  "expandSteps cat accepts cs steps = mapE (expand_step cat accepts cs) steps"

section \<open>Invariants of the parser\<close>

text \<open>A reference stands where the pattern has its text.\<close>

definition ref_ok :: "jstr \<Rightarrow> pattern_ref \<Rightarrow> bool" where
  "ref_ok src ref \<longleftrightarrow> pr_start ref < pr_end ref \<and> pr_end ref \<le> length src \<and> CLASS_NAME (pr_name ref) \<and>
     slice src (pr_start ref) (pr_end ref) = [123] @ pr_name ref @ [125]"

definition refs_ok :: "jstr \<Rightarrow> nat \<Rightarrow> pattern_ref list \<Rightarrow> nat \<Rightarrow> bool" where
  "refs_ok src lo refs hi \<longleftrightarrow> sorted_wrt (\<lambda>r r'. pr_end r \<le> pr_start r') refs \<and>
     (\<forall>r\<in>set refs. ref_ok src r \<and> lo \<le> pr_start r \<and> pr_end r \<le> hi) \<and> lo \<le> hi"

lemma refs_ok_append:
  "refs_ok src lo refs mid \<Longrightarrow> refs_ok src mid refs' hi \<Longrightarrow> refs_ok src lo (refs @ refs') hi"
  by (force simp: refs_ok_def sorted_wrt_append)

lemma refs_ok_Nil [simp]: "refs_ok src lo [] hi \<longleftrightarrow> lo \<le> hi"
  by (simp add: refs_ok_def)

definition at_suffix :: "jstr \<Rightarrow> jstr \<Rightarrow> bool" where
  "at_suffix src s \<longleftrightarrow> (\<exists>pre. src = pre @ s)"

lemma at_suffix_drop: "at_suffix src s \<Longrightarrow> at_suffix src (drop n s)"
  unfolding at_suffix_def by (metis append.assoc append_take_drop_id)

lemma at_suffix_refl [simp]: "at_suffix src src"
  by (simp add: at_suffix_def)

lemma at_suffix_length: "at_suffix src s \<Longrightarrow> length s \<le> length src"
  by (auto simp: at_suffix_def)

abbreviation pos_of :: "jstr \<Rightarrow> jstr \<Rightarrow> nat" where
  "pos_of src s \<equiv> length src - length s"

lemma pos_of_drop: "at_suffix src s \<Longrightarrow> n \<le> length s \<Longrightarrow> pos_of src (drop n s) = pos_of src s + n"
  using at_suffix_length [of src s] by simp

lemma ref_at:
  assumes "at_suffix src s" and "REFERENCE s = Some name"
  shows "ref_ok src \<lparr>pr_name = name, pr_start = pos_of src s, pr_end = pos_of src s + (length name + 2), pr_in_class = b\<rparr>"
    and "length name + 2 \<le> length s"
proof -
  obtain pre where pre: "src = pre @ s" using assms(1) by (auto simp: at_suffix_def)
  note r = REFERENCE_Some [OF assms(2)]
  show len: "length name + 2 \<le> length s" using r(2) by auto
  have "slice src (pos_of src s) (pos_of src s + (length name + 2)) = [123] @ name @ [125]"
    using pre r(3) by (simp add: slice_def)
  then show "ref_ok src \<lparr>pr_name = name, pr_start = pos_of src s, pr_end = pos_of src s + (length name + 2), pr_in_class = b\<rparr>"
    using r(1) len pre by (simp add: ref_ok_def)
qed

lemma escape_rest: "readCodePointEscape src s b = Inr (cp, r) \<Longrightarrow> \<exists>n. r = drop n s"
  by (auto simp: readCodePointEscape_def Let_def split: if_splits)

lemma read_class_atom_rest: "read_class_atom src start s = Inr (Some (cp, r)) \<Longrightarrow> \<exists>n. r = drop n s"
  by (auto simp: read_class_atom_def read_class_escape_def Let_def split: option.splits if_splits dest!: escape_rest)

lemma read_class_atom_end: "read_class_atom src start s = Inr None \<Longrightarrow> s \<noteq> []"
  by (auto simp: read_class_atom_def unit_at_def)

lemma drop_shorter: "at_suffix src s \<Longrightarrow> \<exists>n. r = drop n s \<Longrightarrow> at_suffix src r \<and> pos_of src s \<le> pos_of src r"
  using at_suffix_drop by auto

lemma class_items_ok:
  assumes "at_suffix src s" and "class_items src start s = Inr (refs, cnt, r)"
  shows "at_suffix src r \<and> length r < length s \<and> refs_ok src (pos_of src s) refs (pos_of src r)"
  using assms
proof (induction src start s arbitrary: refs cnt r rule: class_items.induct)
  case (1 src start s)
  note res = "1.prems"(2) [unfolded class_items.simps [of src start s]]
  show ?case
  proof (cases "unit_at s 0 = Some 123")
    case True
    then obtain name refs' cnt' where name: "REFERENCE s = Some name"
      and sub: "class_items src start (drop (length name + 2) s) = Inr (refs', cnt', r)"
      and refs: "refs = \<lparr>pr_name = name, pr_start = pos_of src s, pr_end = pos_of src s + (length name + 2),
        pr_in_class = True\<rparr> # refs'"
      using res by (auto simp: Let_def split: option.splits)
    note ref = ref_at(1) [OF "1.prems"(1) name, of True] ref_at(2) [OF "1.prems"(1) name]
    have suf: "at_suffix src (drop (length name + 2) s)" by (rule at_suffix_drop [OF "1.prems"(1)])
    note IH = "1.IH"(1) [OF True name refl refl suf sub]
    note pos = pos_of_drop [OF "1.prems"(1) ref(2)]
    have "refs_ok src (pos_of src s) [hd refs] (pos_of src (drop (length name + 2) s))"
      unfolding pos using ref(1) by (simp add: refs_ok_def refs)
    from refs_ok_append [OF this] IH show ?thesis by (auto simp: refs)
  next
    case False
    then obtain a where a: "read_class_atom src start s = Inr a" using res by auto
    show ?thesis
    proof (cases a)
      case None
      then show ?thesis
        using res False a read_class_atom_end [of src start s] "1.prems"(1) at_suffix_drop [of src s 1]
        by (cases s) auto
    next
      case (Some p)
      obtain lo s1 where p: "p = (lo, s1)" by (cases p)
      note a1 = a [unfolded Some p]
      note s1 = drop_shorter [OF "1.prems"(1) read_class_atom_rest [OF a1]] read_class_atom_shorter [OF a1]
      have mono: "refs_ok src (pos_of src s') refs (pos_of src r) \<Longrightarrow> pos_of src s \<le> pos_of src s' \<Longrightarrow>
          refs_ok src (pos_of src s) refs (pos_of src r)" for s'
        by (force simp: refs_ok_def)
      show ?thesis
      proof (cases "unit_at s1 0 = Some 45")
        case True
        have nd: "\<not> (unit_at s1 1 = Some 93 \<or> unit_at s1 1 = None)" "\<not> unit_at s1 1 = Some 123"
          using res False a1 True by (auto split: if_splits)
        obtain b where b: "read_class_atom src start (drop 1 s1) = Inr (Some b)"
          using res False a1 True nd by (auto split: option.splits if_splits)
        obtain hi s2 where b2: "b = (hi, s2)" by (cases b)
        note b' = b [unfolded b2]
        obtain cnt' where le: "\<not> hi < lo" and sub: "class_items src start s2 = Inr (refs, cnt', r)"
          using res False a1 True nd b' by (auto split: if_splits)
        have suf1: "at_suffix src (drop 1 s1)" "pos_of src s \<le> pos_of src (drop 1 s1)"
          using s1 at_suffix_drop by auto
        note s2 = drop_shorter [OF suf1(1) read_class_atom_rest [OF b']] read_class_atom_shorter [OF b']
        note IH = "1.IH"(2) [OF False a1 refl refl True nd b' refl refl le conjunct1 [OF s2(1)] sub]
        have "pos_of src s \<le> pos_of src s2" using suf1(2) s2(1) by linarith
        moreover have "length s2 < length s" using s1(2) s2(2) by simp
        ultimately show ?thesis using IH mono [of s2] by simp
      next
        case nd: False
        then obtain cnt' where sub: "class_items src start s1 = Inr (refs, cnt', r)"
          using res False a1 by (auto split: if_splits)
        note IH = "1.IH"(3) [OF False a1 refl refl nd conjunct1 [OF s1(1)] sub]
        then show ?thesis using s1 mono [of s1] by simp
      qed
    qed
  qed
qed

lemma quantifier_rest: "parseQuantifier src b s = Inr (q, r) \<Longrightarrow> \<exists>n. r = drop n s"
  by (auto simp: parseQuantifier_def Let_def split: if_splits intro: exI [of _ 0])

text \<open>What a parsing function does to the state.\<close>

definition p_step :: "jstr \<Rightarrow> pstate \<Rightarrow> pstate \<Rightarrow> bool" where
  "p_step src st st' \<longleftrightarrow> at_suffix src (ps_rest st') \<and> length (ps_rest st') \<le> length (ps_rest st) \<and>
     ps_frames st' = ps_frames st \<and> ps_lookaheads st' = ps_lookaheads st \<and> ps_groups st \<le> ps_groups st' \<and>
     ps_closed st' = ps_closed st \<union> {Suc (ps_groups st)..ps_groups st'} \<and>
     ps_next_frame st \<le> ps_next_frame st' \<and>
     (\<exists>new. ps_refs st' = ps_refs st @ new \<and> refs_ok src (pos_of src (ps_rest st)) new (pos_of src (ps_rest st')))"

lemma p_step_refl: "at_suffix src (ps_rest st) \<Longrightarrow> p_step src st st"
  by (simp add: p_step_def)

lemma p_step_trans: "p_step src st1 st2 \<Longrightarrow> p_step src st2 st3 \<Longrightarrow> p_step src st1 st3"
  by (auto simp: p_step_def intro: refs_ok_append)

lemma p_step_rest:
  assumes "at_suffix src (ps_rest st)" and "\<exists>n. r = drop n (ps_rest st)"
  shows "p_step src st (st\<lparr>ps_rest := r\<rparr>)"
  using assms by (auto simp: p_step_def at_suffix_drop)

lemma p_step_suffix: "p_step src st st' \<Longrightarrow> at_suffix src (ps_rest st')"
  by (simp add: p_step_def)

lemma p_step_length: "p_step src st st' \<Longrightarrow> length (ps_rest st') \<le> length (ps_rest st)"
  by (simp add: p_step_def)

lemma quantified_step:
  "quantified src st = Inr (b, st') \<Longrightarrow> at_suffix src (ps_rest st) \<Longrightarrow> p_step src st st'"
  by (auto simp: quantified_def intro: p_step_rest quantifier_rest)

lemma assertion_end_step:
  "assertion_end src st = Inr (b, st') \<Longrightarrow> at_suffix src (ps_rest st) \<Longrightarrow> p_step src st st'"
  by (auto simp: assertion_end_def intro: p_step_rest quantifier_rest)

text \<open>A step that drops at least one unit and adds references, before its quantifier.\<close>

definition p_eat :: "jstr \<Rightarrow> pstate \<Rightarrow> pstate \<Rightarrow> bool" where
  "p_eat src st st' \<longleftrightarrow> p_step src st st' \<and> length (ps_rest st') < length (ps_rest st)"

lemma p_eat_step: "p_eat src st st1 \<Longrightarrow> p_step src st1 st2 \<Longrightarrow> p_eat src st st2"
  unfolding p_eat_def using p_step_trans p_step_length by fastforce

lemma p_eat_drop:
  "at_suffix src (ps_rest st) \<Longrightarrow> ps_rest st \<noteq> [] \<Longrightarrow> 0 < n \<Longrightarrow> p_eat src st (st\<lparr>ps_rest := drop n (ps_rest st)\<rparr>)"
  unfolding p_eat_def using p_step_rest by auto

lemma escape_step:
  assumes "parseEscape src st = Inr r"
  shows "r = drop 2 (ps_rest st) \<or> r = drop 6 (ps_rest st)"
  using assms by (auto simp: parseEscape_def Let_def unit_at_def split: option.splits if_splits)

lemma class_in_pattern_ok:
  assumes "at_suffix src s" and "s \<noteq> []" and "parseClassInPattern src s = Inr (refs, r)"
  shows "at_suffix src r \<and> length r < length s \<and> refs_ok src (pos_of src s) refs (pos_of src r)"
proof -
  let ?s1 = "drop 1 s"
  let ?s2 = "if unit_at ?s1 0 = Some 94 then drop 1 ?s1 else ?s1"
  obtain cnt where c: "class_items src s ?s2 = Inr (refs, cnt, r)"
    using assms(3) by (auto simp: parseClassInPattern_def Let_def split: if_splits)
  have "at_suffix src ?s2" and l: "length ?s2 < length s"
    using at_suffix_drop [OF assms(1)] at_suffix_drop assms(2) by (auto intro: diff_less)
  note k = class_items_ok [OF this(1) c]
  have "refs_ok src (pos_of src s) refs (pos_of src r)"
    using k l by (force simp: refs_ok_def)
  then show ?thesis using k l by auto
qed

lemma simple_term_eats:
  assumes "simple_term src c st = Inr (b, st')" and "at_suffix src (ps_rest st)" and "unit_at (ps_rest st) 0 = Some c"
  shows "p_eat src st st'"
proof -
  have ne: "ps_rest st \<noteq> []" using assms(3) by (auto simp: unit_at_def)
  note drop1 = p_eat_drop [OF assms(2) ne]
  have suf: "at_suffix src (drop n (ps_rest st))" for n using assms(2) by (rule at_suffix_drop)
  consider "c = 94 \<or> c = 36" | "c = 91" | "c = 46" | "c = 92" | "c = 123" | "c \<notin> {94, 36, 91, 46, 92, 123}" by blast
  then show ?thesis
  proof cases
    case 1
    then have a: "assertion_end src (st\<lparr>ps_rest := drop 1 (ps_rest st)\<rparr>) = Inr (b, st')"
      using assms(1) by (auto simp: simple_term_def Let_def split: if_splits)
    show ?thesis by (rule p_eat_step [OF drop1 [of 1]]) (use assertion_end_step [OF a] suf in simp_all)
  next
    case 2
    then obtain refs r where c: "parseClassInPattern src (ps_rest st) = Inr (refs, r)"
      and q: "quantified src (st\<lparr>ps_rest := r, ps_refs := ps_refs st @ refs\<rparr>) = Inr (b, st')"
      using assms(1) by (auto simp: simple_term_def Let_def)
    note k = class_in_pattern_ok [OF assms(2) ne c]
    then have "p_eat src st (st\<lparr>ps_rest := r, ps_refs := ps_refs st @ refs\<rparr>)"
      by (auto simp: p_eat_def p_step_def)
    then show ?thesis by (rule p_eat_step) (use quantified_step [OF q] k in simp)
  next
    case 3
    then have q: "quantified src (st\<lparr>ps_rest := drop 1 (ps_rest st)\<rparr>) = Inr (b, st')"
      using assms(1) by (auto simp: simple_term_def Let_def)
    show ?thesis by (rule p_eat_step [OF drop1 [of 1]]) (use quantified_step [OF q] suf in simp_all)
  next
    case 4
    then obtain s1 q r where e: "parseEscape src st = Inr s1" and q: "parseQuantifier src True s1 = Inr (q, r)"
      and st': "st' = st\<lparr>ps_rest := r\<rparr>"
      using assms(1) by (auto simp: simple_term_def escape_term_def Let_def split: if_splits)
    obtain n where n: "0 < n" "s1 = drop n (ps_rest st)" using escape_step [OF e] zero_less_numeral by blast
    obtain m where m: "r = drop m s1" using quantifier_rest [OF q] by blast
    have "r = drop (m + n) (ps_rest st)" using m n(2) by simp
    then show ?thesis using drop1 [of "m + n"] n(1) st' by simp
  next
    case 5
    then obtain name where name: "REFERENCE (ps_rest st) = Some name"
      and q: "quantified src (st\<lparr>ps_rest := drop (length name + 2) (ps_rest st), ps_refs := ps_refs st @
          [\<lparr>pr_name = name, pr_start = pos_of src (ps_rest st), pr_end = pos_of src (ps_rest st) + (length name + 2),
            pr_in_class = False\<rparr>]\<rparr>) = Inr (b, st')"
      using assms(1) by (auto simp: simple_term_def reference_term_def Let_def split: option.splits if_splits)
    note ref = ref_at(1) [OF assms(2) name, of False] ref_at(2) [OF assms(2) name]
    note pos = pos_of_drop [OF assms(2) ref(2)]
    have "refs_ok src (pos_of src (ps_rest st)) [\<lparr>pr_name = name, pr_start = pos_of src (ps_rest st),
        pr_end = pos_of src (ps_rest st) + (length name + 2), pr_in_class = False\<rparr>]
        (pos_of src (drop (length name + 2) (ps_rest st)))"
      unfolding pos using ref(1) by (simp add: refs_ok_def)
    then have "p_eat src st (st\<lparr>ps_rest := drop (length name + 2) (ps_rest st), ps_refs := ps_refs st @
          [\<lparr>pr_name = name, pr_start = pos_of src (ps_rest st), pr_end = pos_of src (ps_rest st) + (length name + 2),
            pr_in_class = False\<rparr>]\<rparr>)"
      using ne suf [of "length name + 2"] by (auto simp: p_eat_def p_step_def)
    then show ?thesis by (rule p_eat_step) (use quantified_step [OF q] suf [of "length name + 2"] in simp)
  next
    case 6
    define n :: nat where "n = (if (case cp_first (ps_rest st) of None \<Rightarrow> 0 | Some cp \<Rightarrow> cp) > 65535 then 2 else 1)"
    have n: "0 < n" by (simp add: n_def)
    have q: "quantified src (st\<lparr>ps_rest := drop n (ps_rest st)\<rparr>) = Inr (b, st')"
      using assms(1) 6 by (auto simp: n_def simple_term_def literal_term_def Let_def split: if_splits)
    show ?thesis by (rule p_eat_step [OF drop1 [OF n]]) (use quantified_step [OF q] suf in simp)
  qed
qed

lemma refs_ok_widen: "refs_ok src lo refs hi \<Longrightarrow> lo' \<le> lo \<Longrightarrow> hi \<le> hi' \<Longrightarrow> refs_ok src lo' refs hi'"
  by (force simp: refs_ok_def)

lemma starts_text_nonempty: "starts_text s (c # t) \<Longrightarrow> s \<noteq> []"
  by (auto simp: starts_text_def starts_with_def)

lemma lookahead_eats:
  assumes "at_suffix src (ps_rest st)" and "ps_rest st \<noteq> []" and "p_step src (open_lookahead st) st1"
    and "close_lookahead src st1 = Inr (b, st')"
  shows "p_eat src st st'"
proof -
  let ?st2 = "pop_frame (st1\<lparr>ps_lookaheads := ps_lookaheads st1 - 1\<rparr>)"
  have e: "assertion_end src (?st2\<lparr>ps_rest := drop 1 (ps_rest ?st2)\<rparr>) = Inr (b, st')"
    using assms(4) by (auto simp: close_lookahead_def Let_def split: if_splits)
  have suf: "at_suffix src (drop 1 (ps_rest st1))" using assms(3) by (simp add: p_step_def at_suffix_drop)
  have "p_eat src st (?st2\<lparr>ps_rest := drop 1 (ps_rest ?st2)\<rparr>)"
    using assms(1-3) suf
    by (auto simp: p_eat_def p_step_def open_lookahead_def push_frame_def pop_frame_def
        elim!: refs_ok_widen simp flip: length_greater_0_conv)
  then show ?thesis by (rule p_eat_step) (use assertion_end_step [OF e] suf in \<open>simp add: pop_frame_def\<close>)
qed

lemma group_eats:
  assumes "at_suffix src (ps_rest st)" and "ps_rest st \<noteq> []" and "p_step src (open_group capturing st) st1"
    and "group_end src capturing frame (Suc (ps_groups st)) before n (pop_frame st1) = Inr (b, st')"
  shows "p_eat src st st'"
proof -
  obtain q r where q: "parseQuantifier src True (drop 1 (ps_rest st1)) = Inr (q, r)"
    and st': "st' = (if capturing then (pop_frame st1)\<lparr>ps_rest := drop 1 (ps_rest st1),
         ps_closed := insert (Suc (ps_groups st)) (ps_closed st1),
         ps_group_nullable := (ps_group_nullable st1)(Suc (ps_groups st) := n)\<rparr>
       else (pop_frame st1)\<lparr>ps_rest := drop 1 (ps_rest st1)\<rparr>)
       \<lparr>ps_rest := r, ps_optional := (ps_optional st1)(frame := repeatsZero q)\<rparr>"
    using assms(4) by (cases capturing) (auto simp: group_end_def pop_frame_def Let_def split: if_splits)
  have suf: "at_suffix src r" "length r \<le> length (ps_rest st1)"
    using assms(3) quantifier_rest [OF q] by (auto simp: p_step_def at_suffix_drop)
  show ?thesis
    using assms(1-3) suf
    by (cases capturing)
      (auto simp: st' p_eat_def p_step_def open_group_def push_frame_def pop_frame_def Let_def
        elim!: refs_ok_widen simp flip: length_greater_0_conv)
qed

lemma parse_steps:
  "at_suffix src (ps_rest st) \<Longrightarrow> parseDisjunction fuel src index nullable st = Inr (b, st') \<Longrightarrow> p_step src st st'"
  "at_suffix src (ps_rest st) \<Longrightarrow> parseAlternative fuel src nullable st = Inr (b, st') \<Longrightarrow> p_step src st st'"
  "at_suffix src (ps_rest st) \<Longrightarrow> parseTerm fuel src st = Inr (b, st') \<Longrightarrow> p_eat src st st'"
proof (induction fuel src index nullable st and fuel src nullable st and fuel src st
    arbitrary: b st' and b st' and b st'
    rule: parseDisjunction_parseAlternative_parseTerm.induct)
  case (2 fuel src index nullable st)
  let ?frame = "ps_next_frame st"
  obtain n st1 where alt: "parseAlternative fuel src True (push_frame ?frame st) = Inr (n, st1)"
    using "2.prems"(2) by (cases "parseAlternative fuel src True (push_frame ?frame st)") (auto simp: Let_def)
  then have res: "(if unit_at (ps_rest st1) 0 \<noteq> Some 124
        then Inr (n \<or> nullable, end_alternative ?frame (unit_at (ps_rest st1) 0 = Some 124 \<or> 0 < index) st1)
        else parseDisjunction fuel src (Suc index) (n \<or> nullable)
          (let st2 = end_alternative ?frame (unit_at (ps_rest st1) 0 = Some 124 \<or> 0 < index) st1
           in st2\<lparr>ps_rest := drop 1 (ps_rest st2)\<rparr>)) = Inr (b, st')"
    using "2.prems"(2) by (cases "unit_at (ps_rest st1) 0 = Some 124") (simp_all add: Let_def)
  have "p_step src (push_frame ?frame st) st1"
    using "2.IH"(1) [OF refl _ alt] "2.prems"(1) by (simp add: push_frame_def)
  then have step: "p_step src st (end_alternative ?frame opt st1)" for opt
    by (auto simp: p_step_def push_frame_def end_alternative_def pop_frame_def)
  show ?case
  proof (cases "unit_at (ps_rest st1) 0 = Some 124")
    case False
    then show ?thesis using res step by auto
  next
    case True
    let ?st3 = "let st2 = end_alternative ?frame (unit_at (ps_rest st1) 0 = Some 124 \<or> 0 < index) st1
           in st2\<lparr>ps_rest := drop 1 (ps_rest st2)\<rparr>"
    have sub: "parseDisjunction fuel src (Suc index) (n \<or> nullable) ?st3 = Inr (b, st')"
      using res True by simp
    have s3: "p_step src st ?st3"
      unfolding Let_def
      by (rule p_step_trans [OF step p_step_rest]) (use step p_step_suffix in \<open>blast+\<close>)
    have "p_step src ?st3 st'"
      using "2.IH"(2) [OF refl alt refl refl refl] True sub p_step_suffix [OF s3] by (simp add: Let_def)
    then show ?thesis by (rule p_step_trans [OF s3])
  qed
next
  case (4 fuel src nullable st)
  show ?case
  proof (cases "unit_at (ps_rest st) 0 \<in> {None, Some 124, Some 41}")
    case True
    then show ?thesis using "4.prems" by (auto intro: p_step_refl)
  next
    case False
    then obtain n st1 where t: "parseTerm fuel src st = Inr (n, st1)"
      and a: "parseAlternative fuel src (n \<and> nullable) st1 = Inr (b, st')"
      using "4.prems"(2) by auto
    have s1: "p_step src st st1" using "4.IH"(1) [OF False "4.prems"(1) t] by (simp add: p_eat_def)
    show ?thesis
      by (rule p_step_trans [OF s1 "4.IH"(2) [OF False t refl p_step_suffix [OF s1] a]])
  qed
next
  case (6 fuel src st)
  then obtain c where c: "unit_at (ps_rest st) 0 = Some c" by (auto split: option.splits)
  then have ne: "ps_rest st \<noteq> []" by (auto simp: unit_at_def)
  show ?case
  proof (cases "c = 40")
    case False
    then show ?thesis using simple_term_eats [OF _ "6.prems"(1) c] "6.prems"(2) c by simp
  next
    case True
    then have c40: "\<not> c \<noteq> 40" by simp
    show ?thesis
    proof (cases "starts_text (ps_rest st) ''(?='' \<or> starts_text (ps_rest st) ''(?!''")
      case la: True
      obtain n st1 where d: "parseDisjunction fuel src 0 False (open_lookahead st) = Inr (n, st1)"
        and e: "close_lookahead src st1 = Inr (b, st')"
        using "6.prems"(2) c True la by auto
      have "p_step src (open_lookahead st) st1"
        using "6.IH"(1) [OF c c40 la _ d] "6.prems"(1)
        by (simp add: open_lookahead_def push_frame_def at_suffix_drop)
      from lookahead_eats [OF "6.prems"(1) ne this e] show ?thesis .
    next
      case nla: False
      obtain capturing n st1 where h: "group_head src st = Inr capturing"
        and d: "parseDisjunction fuel src 0 False (open_group capturing st) = Inr (n, st1)"
        and e: "group_end src capturing (ps_next_frame st) (Suc (ps_groups st))
          (ps_groups (open_group capturing st)) n (pop_frame st1) = Inr (b, st')"
        using "6.prems"(2) c True nla by auto
      have "p_step src (open_group capturing st) st1"
        using "6.IH"(2) [OF c c40 nla h _ d] "6.prems"(1)
        by (simp add: open_group_def push_frame_def Let_def at_suffix_drop)
      from group_eats [OF "6.prems"(1) ne this e] show ?thesis .
    qed
  qed
qed simp_all

section \<open>The fuel is enough\<close>

definition not_fuel :: "class_error \<Rightarrow> bool" where
  "not_fuel e \<longleftrightarrow> ce_reason e \<noteq> InPattern OutOfFuel"

lemma not_fuel_fail [simp]:
  "pat_fail src s r = Inl e \<Longrightarrow> not_fuel e \<longleftrightarrow> r \<noteq> OutOfFuel"
  "fail_at src s r' = Inl e \<Longrightarrow> not_fuel e"
  by (auto simp: pat_fail_def fail_at_def error_at_offset_def not_fuel_def)

lemma escape_not_fuel: "readCodePointEscape src s b = Inl e \<Longrightarrow> not_fuel e"
  by (auto simp: readCodePointEscape_def Let_def split: if_splits)

lemma class_atom_not_fuel: "read_class_atom src start s = Inl e \<Longrightarrow> not_fuel e"
  by (auto simp: read_class_atom_def read_class_escape_def Let_def bindE_Inl_iff
      split: option.splits if_splits dest: escape_not_fuel)

lemma class_items_not_fuel: "class_items src start s = Inl e \<Longrightarrow> not_fuel e"
proof (induction src start s arbitrary: e rule: class_items.induct)
  case (1 src start s)
  note res = "1.prems" [unfolded class_items.simps [of src start s]]
  show ?case
  proof (cases "unit_at s 0 = Some 123")
    case True
    then show ?thesis
      using res "1.IH"(1) [OF True] by (auto simp: Let_def bindE_Inl_iff split: option.splits)
  next
    case False
    show ?thesis
    proof (cases "read_class_atom src start s")
      case (Inl e')
      then show ?thesis using res False class_atom_not_fuel [of src start s e'] by simp
    next
      case (Inr a)
      then obtain lo s1 where a: "read_class_atom src start s = Inr (Some (lo, s1))"
        using res False by (cases a) auto
      show ?thesis
      proof (cases "unit_at s1 0 = Some 45")
        case nd: False
        then have "class_items src start s1 = Inl e"
          using res False a by (auto simp: bindE_Inl_iff)
        then show ?thesis by (rule "1.IH"(3) [OF False a refl refl nd])
      next
        case True
        show ?thesis
        proof (cases "unit_at s1 1 = Some 93 \<or> unit_at s1 1 = None \<or> unit_at s1 1 = Some 123")
          case nd: True
          then show ?thesis using res False a True by (auto split: if_splits)
        next
          case ok: False
          show ?thesis
          proof (cases "read_class_atom src start (drop 1 s1)")
            case (Inl e')
            then show ?thesis
              using res False a True ok class_atom_not_fuel [of src start "drop 1 s1" e'] by auto
          next
            case b: (Inr b)
            show ?thesis
            proof (cases b)
              case None
              then show ?thesis using res False a True ok b by auto
            next
              case (Some p)
              obtain hi s2 where p: "p = (hi, s2)" by (cases p)
              note b' = b [unfolded Some p]
              have ok': "\<not> (unit_at s1 1 = Some 93 \<or> unit_at s1 1 = None)" "\<not> unit_at s1 1 = Some 123"
                using ok by auto
              show ?thesis
              proof (cases "hi < lo")
                case lt: True
                then show ?thesis using res False a True ok b' by auto
              next
                case ge: False
                then have "class_items src start s2 = Inl e"
                  using res False a True ok b' by (auto simp: bindE_Inl_iff)
                then show ?thesis by (rule "1.IH"(2) [OF False a refl refl True ok' b' refl refl ge])
              qed
            qed
          qed
        qed
      qed
    qed
  qed
qed

lemma quantifier_not_fuel: "parseQuantifier src b s = Inl e \<Longrightarrow> not_fuel e"
  by (auto simp: parseQuantifier_def Let_def split: if_splits)

lemma parseEscape_not_fuel: "parseEscape src st = Inl e \<Longrightarrow> not_fuel e"
  by (auto simp: parseEscape_def Let_def split: if_splits option.splits)

lemma simple_term_not_fuel: "simple_term src c st = Inl e \<Longrightarrow> not_fuel e"
  by (auto simp: simple_term_def assertion_end_def quantified_def escape_term_def reference_term_def
      literal_term_def parseClassInPattern_def bindE_Inl_iff Let_def
      dest: quantifier_not_fuel parseEscape_not_fuel class_items_not_fuel split: if_splits option.splits)

lemma group_not_fuel:
  "group_head src st = Inl e \<Longrightarrow> not_fuel e"
  "group_end src capturing frame grp before n st = Inl e \<Longrightarrow> not_fuel e"
  "close_lookahead src st = Inl e \<Longrightarrow> not_fuel e"
  by (auto simp: group_head_def group_end_def close_lookahead_def assertion_end_def Let_def bindE_Inl_iff
      dest: quantifier_not_fuel split: if_splits)

lemma parse_not_fuel:
  "at_suffix src (ps_rest st) \<Longrightarrow> 3 * length (ps_rest st) + 3 \<le> fuel \<Longrightarrow>
    parseDisjunction fuel src index nullable st = Inl e \<Longrightarrow> not_fuel e"
  "at_suffix src (ps_rest st) \<Longrightarrow> 3 * length (ps_rest st) + 2 \<le> fuel \<Longrightarrow>
    parseAlternative fuel src nullable st = Inl e \<Longrightarrow> not_fuel e"
  "at_suffix src (ps_rest st) \<Longrightarrow> 3 * length (ps_rest st) + 1 \<le> fuel \<Longrightarrow>
    parseTerm fuel src st = Inl e \<Longrightarrow> not_fuel e"
proof (induction fuel src index nullable st and fuel src nullable st and fuel src st
    arbitrary: e and e and e
    rule: parseDisjunction_parseAlternative_parseTerm.induct)
  case (2 fuel src index nullable st)
  let ?frame = "ps_next_frame st"
  let ?st0 = "push_frame ?frame st"
  have s0: "at_suffix src (ps_rest ?st0)" "3 * length (ps_rest ?st0) + 2 \<le> fuel"
    using "2.prems"(1,2) by (simp_all add: push_frame_def)
  show ?case
  proof (cases "parseAlternative fuel src True ?st0")
    case (Inl e')
    then show ?thesis using "2.IH"(1) [OF refl s0 Inl] "2.prems"(3) by (simp add: Let_def)
  next
    case (Inr p)
    obtain n st1 where alt: "parseAlternative fuel src True ?st0 = Inr (n, st1)" using Inr by (cases p) auto
    have s1: "p_step src ?st0 st1" by (rule parse_steps(2) [OF s0(1) alt])
    have more: "unit_at (ps_rest st1) 0 = Some 124"
      using "2.prems"(3) alt by (auto simp: Let_def split: if_splits)
    let ?st3 = "let st2 = end_alternative ?frame (unit_at (ps_rest st1) 0 = Some 124 \<or> 0 < index) st1
           in st2\<lparr>ps_rest := drop 1 (ps_rest st2)\<rparr>"
    have "parseDisjunction fuel src (Suc index) (n \<or> nullable) ?st3 = Inl e"
      using "2.prems"(3) alt more by (simp add: Let_def)
    moreover have "at_suffix src (ps_rest ?st3)"
      using s1 by (simp add: p_step_def end_alternative_def pop_frame_def Let_def at_suffix_drop)
    moreover have "3 * length (ps_rest ?st3) + 3 \<le> fuel"
    proof -
      have "0 < length (ps_rest st1)" using more by (simp add: unit_at_def split: if_splits)
      moreover have "length (ps_rest ?st3) = length (ps_rest st1) - 1"
        by (simp add: end_alternative_def pop_frame_def Let_def)
      ultimately show ?thesis using p_step_length [OF s1] s0(2) by linarith
    qed
    ultimately show ?thesis
      using "2.IH"(2) [OF refl alt refl refl refl] more by (simp add: Let_def)
  qed
next
  case (4 fuel src nullable st)
  then have c: "\<not> unit_at (ps_rest st) 0 \<in> {None, Some 124, Some 41}" by (auto split: if_splits)
  have res: "bindE (parseTerm fuel src st) (\<lambda>(n, st1). parseAlternative fuel src (n \<and> nullable) st1) = Inl e"
    using "4.prems"(3) unfolding parseAlternative.simps if_not_P [OF c] .
  show ?case
  proof (cases "parseTerm fuel src st")
    case (Inl e')
    then show ?thesis using "4.IH"(1) [OF c "4.prems"(1) _ Inl] "4.prems"(2) res by simp
  next
    case (Inr p)
    obtain n st1 where t: "parseTerm fuel src st = Inr (n, st1)" using Inr by (cases p) auto
    have s1: "p_eat src st st1" by (rule parse_steps(3) [OF "4.prems"(1) t])
    have "parseAlternative fuel src (n \<and> nullable) st1 = Inl e" using res t by simp
    with "4.IH"(2) [OF c t refl] s1 "4.prems"(2) show ?thesis by (auto simp: p_eat_def p_step_def)
  qed
next
  case (6 fuel src st)
  show ?case
  proof (cases "unit_at (ps_rest st) 0")
    case None
    then show ?thesis using "6.prems"(3) by simp
  next
    case (Some c)
    then have pos: "0 < length (ps_rest st)" by (simp add: unit_at_def split: if_splits)
    have len: "3 * length (drop k (ps_rest st)) + 3 \<le> fuel" if k: "0 < k" for k
    proof -
      have "length (drop k (ps_rest st)) + 1 \<le> length (ps_rest st)" using pos k by (simp only: length_drop)
      then show ?thesis using "6.prems"(2) by linarith
    qed
    have suf: "at_suffix src (drop k (ps_rest st))" for k using "6.prems"(1) by (rule at_suffix_drop)
    show ?thesis
    proof (cases "c = 40")
      case False
      then show ?thesis using "6.prems"(3) Some simple_term_not_fuel [of src c st e] by simp
    next
      case True
      then have c40: "\<not> c \<noteq> 40" by simp
      show ?thesis
      proof (cases "starts_text (ps_rest st) ''(?='' \<or> starts_text (ps_rest st) ''(?!''")
        case la: True
        have "parseDisjunction fuel src 0 False (open_lookahead st) = Inl e' \<Longrightarrow> not_fuel e'" for e'
          using "6.IH"(1) [OF Some c40 la] len [of 3] suf [of 3]
          by (simp add: open_lookahead_def push_frame_def)
        then show ?thesis
          using "6.prems"(3) Some True la group_not_fuel(3) by (auto simp: bindE_Inl_iff)
      next
        case nla: False
        have "parseDisjunction fuel src 0 False (open_group capturing st) = Inl e' \<Longrightarrow> not_fuel e'"
          if "group_head src st = Inr capturing" for e' capturing
          using "6.IH"(2) [OF Some c40 nla that] len [of 1] len [of 3] suf [of 1] suf [of 3]
          by (cases capturing) (simp_all add: open_group_def push_frame_def Let_def)
        then show ?thesis
          using "6.prems"(3) Some True nla group_not_fuel(1,2) by (auto simp: bindE_Inl_iff)
      qed
    qed
  qed
qed simp_all

section \<open>What the exported functions give\<close>

lemma parse_pattern_refs:
  assumes "parse_pattern_text accepts src global = Inr p"
  shows "refs_ok src 0 (pp_refs p) (length src)" and "global \<Longrightarrow> \<not> pp_nullable p"
    and "accepts (pattern_probe src (pp_refs p))"
proof -
  obtain nullable st where d: "parseDisjunction (3 * length src + 3) src 0 False (init_pstate src) = Inr (nullable, st)"
    and rest: "ps_rest st = []" and g: "\<not> (global \<and> nullable)" and acc: "accepts (pattern_probe src (ps_refs st))"
    and p: "p = \<lparr>pp_groups = ps_groups st, pp_refs = ps_refs st, pp_nullable = nullable\<rparr>"
    using assms by (auto simp: parse_pattern_text_def split: if_splits)
  have "p_step src (init_pstate src) st"
    by (rule parse_steps(1) [OF _ d]) (simp add: init_pstate_def)
  then show "refs_ok src 0 (pp_refs p) (length src)"
    using rest by (simp add: p_step_def init_pstate_def p)
  show "global \<Longrightarrow> \<not> pp_nullable p" "accepts (pattern_probe src (pp_refs p))" using g acc p by simp_all
qed

text \<open>Texts between references, and the texts at the references.\<close>

fun weave :: "jstr list \<Rightarrow> jstr list \<Rightarrow> jstr" where
  "weave (s # ss) (x # xs) = s @ x @ weave ss xs"
| "weave ss [] = concat ss"
| "weave [] xs = concat xs"

definition ref_text :: "pattern_ref \<Rightarrow> jstr" where
  "ref_text r = [123] @ pr_name r @ [125]"

text \<open>What stands for a reference in the expanded pattern.\<close>

definition ref_expands :: "(int \<Rightarrow> jstr) \<Rightarrow> class_set \<Rightarrow> pattern_ref \<Rightarrow> jstr \<Rightarrow> bool" where
  "ref_expands cat cs r t \<longleftrightarrow> (\<exists>rs items. class_ranges cat cs (JStr (ref_text r)) = Inr rs \<and>
     rangesToPatternItems rs = Inr items \<and> t = (if pr_in_class r then items else [91] @ items @ [93]))"

lemma slice_split: "a \<le> b \<Longrightarrow> b \<le> length s \<Longrightarrow> drop a s = slice s a b @ drop b s"
proof -
  assume "a \<le> b" "b \<le> length s"
  then have "drop b s = drop (b - a) (drop a s)" by simp
  then show ?thesis unfolding slice_def by (metis append_take_drop_id)
qed

lemma expand_refs_weave:
  assumes "refs_ok src pos refs (length src)" and "expand_refs cat cs src pos refs = Inr out"
  shows "\<exists>segs texts. length segs = Suc (length refs) \<and> drop pos src = weave segs (map ref_text refs) \<and>
    out = weave segs texts \<and> list_all2 (ref_expands cat cs) refs texts"
  using assms
proof (induction refs arbitrary: pos out)
  case Nil
  then show ?case by (intro exI [of _ "[drop pos src]"] exI [of _ "[]"]) simp
next
  case (Cons r refs)
  obtain rs items rest where c: "class_ranges cat cs (JStr (ref_text r)) = Inr rs"
    and i: "rangesToPatternItems rs = Inr items"
    and sub: "expand_refs cat cs src (pr_end r) refs = Inr rest"
    and out: "out = slice src pos (pr_start r) @ (if pr_in_class r then items else [91] @ items @ [93]) @ rest"
    using Cons.prems(2) by (auto simp: ref_text_def split: if_splits sum.splits)
  have ro: "ref_ok src r" "pos \<le> pr_start r" "pr_end r \<le> length src"
    using Cons.prems(1) by (auto simp: refs_ok_def)
  have "refs_ok src (pr_end r) refs (length src)"
    using Cons.prems(1) by (auto simp: refs_ok_def)
  from Cons.IH [OF this sub] obtain segs texts where IH: "length segs = Suc (length refs)"
    "drop (pr_end r) src = weave segs (map ref_text refs)" "rest = weave segs texts"
    "list_all2 (ref_expands cat cs) refs texts"
    by blast
  have "drop (pr_start r) src = ref_text r @ drop (pr_end r) src"
    using slice_split [of "pr_start r" "pr_end r" src] ro(1) by (simp add: ref_ok_def ref_text_def)
  moreover have "drop pos src = slice src pos (pr_start r) @ drop (pr_start r) src"
    using slice_split [of pos "pr_start r" src] ro by (simp add: ref_ok_def)
  ultimately have "drop pos src = weave (slice src pos (pr_start r) # segs) (map ref_text (r # refs))"
    using IH(2) by simp
  moreover have "ref_expands cat cs r (if pr_in_class r then items else [91] @ items @ [93])"
    using c i by (auto simp: ref_expands_def)
  ultimately show ?case
    using IH out
    by (intro exI [of _ "slice src pos (pr_start r) # segs"]
        exI [of _ "(if pr_in_class r then items else [91] @ items @ [93]) # texts"]) simp
qed

text \<open>The replacements of the dialect.\<close>

inductive replacement_ok :: "nat \<Rightarrow> jstr \<Rightarrow> bool" for groups where
  empty: "replacement_ok groups []"
| plain: "u \<noteq> 36 \<Longrightarrow> replacement_ok groups s \<Longrightarrow> replacement_ok groups (u # s)"
| whole: "replacement_ok groups s \<Longrightarrow> replacement_ok groups (36 # 38 # s)"
| captured: "49 \<le> d \<Longrightarrow> d \<le> 57 \<Longrightarrow> d - 48 \<le> int groups \<Longrightarrow> (s = [] \<or> \<not> is_digit (hd s)) \<Longrightarrow>
    replacement_ok groups s \<Longrightarrow> replacement_ok groups (36 # d # s)"

inductive_simps replacement_ok_simps: "replacement_ok groups []" "replacement_ok groups (u # s)"

lemma check_replacement_iff: "check_replacement_from src groups s = Inr () \<longleftrightarrow> replacement_ok groups s"
proof (induction src groups s rule: check_replacement_from.induct)
  case (1 src groups s)
  show ?case
  proof (cases s)
    case Nil
    then show ?thesis by (simp add: check_replacement_from.simps replacement_ok_simps)
  next
    case (Cons u t)
    show ?thesis
    proof (cases "u = 36")
      case False
      then have "check_replacement_from src groups s = check_replacement_from src groups t"
        using Cons by (subst check_replacement_from.simps) (simp add: unit_at_def)
      then show ?thesis
        using "1.IH"(1) Cons False by (simp add: unit_at_def replacement_ok_simps)
    next
      case dollar: True
      show ?thesis
      proof (cases t)
        case Nil
        then show ?thesis
          using Cons dollar
          by (subst check_replacement_from.simps)
            (simp add: unit_at_def is_digit_1_9_def replacement_ok_simps)
      next
        case t: (Cons d r)
        show ?thesis
          using "1.IH" Cons dollar t
          by (subst check_replacement_from.simps; cases r)
            (auto simp: unit_at_def is_digit_1_9_def is_digit_0_9_def replacement_ok_simps(2))
      qed
    qed
  qed
qed

section \<open>A pattern with a reference\<close>

lemma ex_parse: "parsePattern (\<lambda>probe. True) (JStr (js ''a{v}'')) True =
  Inr \<lparr>pp_groups = 0, pp_refs = [\<lparr>pr_name = js ''v'', pr_start = 1, pr_end = 4, pr_in_class = False\<rparr>], pp_nullable = False\<rparr>"
  by code_simp

lemma ex_ranges: "ranges_of_test False (rx_test (\<lambda>cp. js ''Lu'') (js ''[ae]'')) = [(97, 97), (101, 101)]"
  by (rule scalar_ranges.table_unique [symmetric]) (auto simp: rx_test_def class_eval covered_def MAX_CODE_POINT_def)

lemma ex_class_ranges: "class_ranges (\<lambda>cp. js ''Lu'') \<lparr>cs_definitions = ex_definitions, cs_expansions = ex_expansions\<rparr> (JStr (js ''{v}'')) = Inr [(97, 97), (101, 101)]"
  unfolding ex_ranges [symmetric]
    by (simp add: class_ranges_def class_source_def expand_field_def rangesOfSource_def class_eval expand_name.simps
      del: bindE_Inr_iff)

lemma ex_pattern_source: "patternSource (\<lambda>cp. js ''Lu'') (\<lambda>probe. True) \<lparr>cs_definitions = ex_definitions, cs_expansions = ex_expansions\<rparr>
   (JStr (js ''a{v}'')) True = Inr (js ''a['' @ [92] @ js ''u0061'' @ [92] @ js ''u0065]'')"
  using ex_parse ex_class_ranges by (simp add: patternSource_def class_has_def ex_definitions_def rangesToPatternItems_def pattern_item_def
   hex_def hex_digits.simps hex_upper_digit_def numeral_2_eq_2 slice_def Let_def del: bindE_Inr_iff)

section \<open>Properties\<close>

text \<open>C26: The fuel \<open>parsePattern\<close> is given is enough: whatever the pattern, the parser ends with a
  result or with an error of the dialect.\<close>

theorem parsePattern_total:
  "case parsePattern accepts v global of
     Inl e \<Rightarrow> ce_reason e \<noteq> InPattern OutOfFuel
   | Inr p \<Rightarrow> True"
proof (cases "\<exists>src. v = JStr src")
  case True
  then obtain src where v: "v = JStr src" by blast
  have "not_fuel e" if e: "parse_pattern_text accepts src global = Inl e" for e
  proof (cases "parseDisjunction (3 * length src + 3) src 0 False (init_pstate src)")
    case (Inl e')
    have "not_fuel e'" by (rule parse_not_fuel(1) [OF _ _ Inl]) (simp_all add: init_pstate_def)
    then show ?thesis using e Inl by (simp add: parse_pattern_text_def)
  next
    case (Inr p)
    then show ?thesis using e by (auto simp: parse_pattern_text_def split: prod.splits if_splits)
  qed
  then show ?thesis by (auto simp: v parsePattern_def not_fuel_def split: sum.splits)
next
  case False
  then show ?thesis by (cases v) (auto simp: parsePattern_def class_error_def)
qed

text \<open>C24: The references \<open>parsePattern\<close> returns stand in order, do not overlap and lie in the pattern,
  each where the pattern has its text between braces; and a pattern accepted for global replacement
  was not found to match the empty text.\<close>

theorem parsePattern_references:
  assumes "parsePattern accepts (JStr src) global = Inr p"
  shows "sorted_wrt (\<lambda>r r'. pr_end r \<le> pr_start r') (pp_refs p) \<and>
    (\<forall>r\<in>set (pp_refs p). pr_end r \<le> length src \<and> CLASS_NAME (pr_name r) \<and>
       slice src (pr_start r) (pr_end r) = [123] @ pr_name r @ [125]) \<and>
    (global \<longrightarrow> \<not> pp_nullable p)"
  using parse_pattern_refs [of accepts src global p] assms
  by (auto simp: parsePattern_def refs_ok_def ref_ok_def)

theorem parsePattern_references_witness:
  "slice (js ''a{v}'') 1 4 = [123] @ js ''v'' @ [125]"
  using parsePattern_references [OF ex_parse] by simp



text \<open>\<open>checkReplacement\<close> accepts a replacement exactly when every \<open>$\<close> in it starts \<open>$&\<close> or the
  number, 1 to 9, of a group the pattern has, with no digit after it.\<close>

theorem checkReplacement_accepts:
  "checkReplacement (JStr s) groups = Inr () \<longleftrightarrow> replacement_ok groups s"
  by (simp add: checkReplacement_def check_replacement_iff)

end
