(* ===== verification/Steps.thy ===== *)
theory Steps
  imports Patterns
begin

text \<open>
  Text steps and processors (tools/lib/steps.mjs): \<open>stepKind\<close> and \<open>checkStep\<close> over JSON values, the
  typed \<open>step\<close> a checked value stands for, \<open>applyStep\<close> and its parts, \<open>applyVariant\<close>,
  \<open>compareCodePoints\<close> and \<open>processText\<close>.

  What the steps take from JavaScript and Unicode is the record \<open>js_env\<close>: the general category of a
  code point, whether a RegExp without flags accepts a source, the case mappings, the
  normalization forms, and \<open>text.replace(regExp, replacement)\<close> for a source and the flag \<open>g\<close>.
\<close>

datatype form = NFC | NFD | NFKC | NFKD

record js_env =
  env_cat :: "int \<Rightarrow> jstr"
  env_accepts :: "jstr \<Rightarrow> bool"
  env_lower :: "jstr \<Rightarrow> jstr"
  env_upper :: "jstr \<Rightarrow> jstr"
  env_normalize :: "form \<Rightarrow> jstr \<Rightarrow> jstr"
  env_replace :: "jstr \<Rightarrow> bool \<Rightarrow> jstr \<Rightarrow> jstr \<Rightarrow> jstr"

definition step_fail :: "step_reason \<Rightarrow> class_error + 'a" where
  "step_fail r = Inl (class_error (InStep r))"

lemma step_fail_not_Inr [simp]: "step_fail r \<noteq> Inr x" "Inr x \<noteq> step_fail r"
  by (simp_all add: step_fail_def)

section \<open>stepKind and checkStep\<close>

definition STEP_KINDS :: "(jstr \<times> jstr list) list" where
  "STEP_KINDS =
     [(js ''case'', [js ''case'']),
      (js ''normalize'', [js ''normalize'', js ''within'']),
      (js ''strip'', [js ''strip'']),
      (js ''map'', [js ''map'', js ''at'']),
      (js ''pattern'', [js ''pattern'', js ''replace'', js ''global'', js ''repeat'']),
      (js ''alternatives'', [js ''alternatives'', js ''limit'']),
      (js ''builtin'', [js ''builtin''])]"

definition CASES :: "jstr list" where
  "CASES = map js [''lower'', ''upper'', ''upperFirst'', ''lowerFirst'']"

definition FORMS :: "jstr list" where
  "FORMS = map js [''NFC'', ''NFD'', ''NFKC'', ''NFKD'']"

definition MAP_AT :: "jstr list" where
  "MAP_AT = map js [''all'', ''first'', ''last'', ''start'', ''end'']"

definition MAX_PATTERN_REPEATS :: nat where
  "MAX_PATTERN_REPEATS = 16"

definition MAX_VARIANTS :: nat where
  "MAX_VARIANTS = 4096"

definition stepKind :: "json \<Rightarrow> class_error + jstr" where
  "stepKind step = (case step of
       JObj es \<Rightarrow> (case filter (has_own step) (map fst STEP_KINDS) of
           [kind] \<Rightarrow> Inr kind
         | kinds \<Rightarrow> step_fail (StepKinds kinds))
     | _ \<Rightarrow> step_fail StepNotObject)"

definition is_string_in :: "jstr list \<Rightarrow> json \<Rightarrow> bool" where
  "is_string_in ss v = (case v of JStr s \<Rightarrow> s \<in> set ss | _ \<Rightarrow> False)"

fun is_bool :: "json \<Rightarrow> bool" where
  "is_bool (JBool b) = True"
| "is_bool _ = False"

fun is_string :: "json \<Rightarrow> bool" where
  "is_string (JStr s) = True"
| "is_string _ = False"

definition check_map_entry :: "unit \<Rightarrow> jstr \<times> json \<Rightarrow> class_error + unit" where
  "check_map_entry u = (\<lambda>(key, v).
     if key = [] then step_fail EmptyMapKey
     else if \<not> is_string v then step_fail (MapValueNotString key) else Inr ())"

definition check_alternatives_entry :: "unit \<Rightarrow> jstr \<times> json \<Rightarrow> class_error + unit" where
  "check_alternatives_entry u = (\<lambda>(key, v).
     if key = [] then step_fail EmptyAlternativesKey
     else if \<not> (case v of JArr vs \<Rightarrow> list_all is_string vs | _ \<Rightarrow> False)
     then step_fail (AlternativesNotStrings key) else Inr ())"

text \<open>The branches of the \<open>switch\<close> of \<open>checkStep\<close>.\<close>

definition check_kind ::
    "js_env \<Rightarrow> class_set \<Rightarrow> bool \<Rightarrow> bool \<Rightarrow> json \<Rightarrow> jstr \<Rightarrow> class_error + unit" where
  "check_kind env cs allowBuiltin allowAlternatives step kind =
     (let get = (\<lambda>key. obj_get step (js key)) in
      if kind = js ''case'' then
        (if \<not> is_string_in CASES (get ''case'') then step_fail BadCase else Inr ())
      else if kind = js ''normalize'' then
        (if \<not> is_string_in FORMS (get ''normalize'') then step_fail BadForm
         else if get ''within'' \<noteq> JUndef then class_check (env_cat env) cs (get ''within'') else Inr ())
      else if kind = js ''strip'' then class_check (env_cat env) cs (get ''strip'')
      else if kind = js ''map'' then
        (case get ''map'' of
           JObj es \<Rightarrow> bindE (foldE check_map_entry () es) (\<lambda>_.
             if get ''at'' \<noteq> JUndef \<and> \<not> is_string_in MAP_AT (get ''at'') then step_fail BadMapAt else Inr ())
         | _ \<Rightarrow> step_fail MapNotObject)
      else if kind = js ''pattern'' then
        bindE (foldE (\<lambda>u key. if obj_get step key \<noteq> JUndef \<and> \<not> is_bool (obj_get step key)
            then step_fail (NotBoolean key) else Inr ()) () [js ''global'', js ''repeat'']) (\<lambda>_.
        bindE (parsePattern (env_accepts env) (get ''pattern'') (get ''global'' = JBool True)) (\<lambda>p.
        bindE (patternSource (env_cat env) (env_accepts env) cs (get ''pattern'') (get ''global'' = JBool True)) (\<lambda>_.
          checkReplacement (get ''replace'') (pp_groups p))))
      else if kind = js ''alternatives'' then
        (if \<not> allowAlternatives then step_fail AlternativesNotAllowed
         else (case get ''alternatives'' of
             JObj es \<Rightarrow> bindE (foldE check_alternatives_entry () es) (\<lambda>_. case get ''limit'' of
                 JUndef \<Rightarrow> Inr ()
               | JNum n \<Rightarrow> if 1 \<le> n then Inr () else step_fail BadLimit
               | _ \<Rightarrow> step_fail BadLimit)
           | _ \<Rightarrow> step_fail AlternativesNotObject))
      else if kind = js ''builtin'' then
        (if \<not> allowBuiltin then step_fail BuiltinNotAllowed
         else if \<not> is_string (get ''builtin'') then step_fail BuiltinNotString else Inr ())
      else Inr ())"

definition checkStep :: "js_env \<Rightarrow> class_set \<Rightarrow> bool \<Rightarrow> bool \<Rightarrow> json \<Rightarrow> class_error + unit" where
  "checkStep env cs allowBuiltin allowAlternatives step =
     bindE (stepKind step) (\<lambda>kind.
     bindE (foldE (\<lambda>u key. if key \<notin> set (case map_of STEP_KINDS kind of None \<Rightarrow> [] | Some ks \<Rightarrow> ks)
         then step_fail (StepKey kind key) else Inr ()) ()
       (case step of JObj es \<Rightarrow> map fst es | _ \<Rightarrow> [])) (\<lambda>_.
       check_kind env cs allowBuiltin allowAlternatives step kind))"

section \<open>Typed steps\<close>

datatype case_mode = Lower | Upper | UpperFirst | LowerFirst

datatype map_at = AtAll | AtFirst | AtLast | AtStart | AtEnd

datatype step =
    CaseStep case_mode
  | NormalizeStep form "json option"
  | StripStep json
  | MapStep "(jstr \<times> jstr) list" map_at
  | PatternStep json jstr bool bool
  | AlternativesStep "(jstr \<times> jstr list) list" "nat option"
  | BuiltinStep

definition read_mode :: "json \<Rightarrow> class_error + case_mode" where
  "read_mode v =
     (if v = JStr (js ''lower'') then Inr Lower else if v = JStr (js ''upper'') then Inr Upper
      else if v = JStr (js ''upperFirst'') then Inr UpperFirst else if v = JStr (js ''lowerFirst'') then Inr LowerFirst
      else step_fail UnknownCase)"

definition read_form :: "json \<Rightarrow> class_error + form" where
  "read_form v =
     (if v = JStr (js ''NFC'') then Inr NFC else if v = JStr (js ''NFD'') then Inr NFD
      else if v = JStr (js ''NFKC'') then Inr NFKC else if v = JStr (js ''NFKD'') then Inr NFKD
      else step_fail BadForm)"

text \<open>\<open>at = 'all'\<close>, with any other value taken for \<open>all\<close> (the \<open>default\<close> of \<open>applyMap\<close>).\<close>

definition read_at :: "json \<Rightarrow> map_at" where
  "read_at v =
     (if v = JStr (js ''start'') then AtStart else if v = JStr (js ''end'') then AtEnd
      else if v = JStr (js ''first'') then AtFirst else if v = JStr (js ''last'') then AtLast else AtAll)"

fun string_of :: "json \<Rightarrow> jstr" where
  "string_of (JStr s) = s"
| "string_of _ = []"

fun strings_of :: "json \<Rightarrow> jstr list" where
  "strings_of (JArr vs) = map string_of vs"
| "strings_of _ = []"

fun entries_of :: "json \<Rightarrow> (jstr \<times> json) list" where
  "entries_of (JObj es) = es"
| "entries_of _ = []"

text \<open>What \<open>applyStep\<close> reads of a step: for a step \<open>checkStep\<close> accepts, all of it.\<close>

definition read_step :: "json \<Rightarrow> class_error + step" where
  "read_step step =
     bindE (stepKind step) (\<lambda>kind.
       let get = (\<lambda>key. obj_get step (js key)) in
       if kind = js ''case'' then bindE (read_mode (get ''case'')) (\<lambda>m. Inr (CaseStep m))
       else if kind = js ''normalize'' then bindE (read_form (get ''normalize'')) (\<lambda>f.
         Inr (NormalizeStep f (if get ''within'' = JUndef then None else Some (get ''within''))))
       else if kind = js ''strip'' then Inr (StripStep (get ''strip''))
       else if kind = js ''map'' then
         Inr (MapStep (map (\<lambda>(k, v). (k, string_of v)) (entries_of (get ''map''))) (read_at (get ''at'')))
       else if kind = js ''pattern'' then
         Inr (PatternStep (get ''pattern'') (string_of (get ''replace'')) (get ''global'' = JBool True)
           (get ''repeat'' = JBool True))
       else if kind = js ''alternatives'' then
         Inr (AlternativesStep (map (\<lambda>(k, v). (k, strings_of v)) (entries_of (get ''alternatives'')))
           (case get ''limit'' of JNum n \<Rightarrow> Some (nat n) | _ \<Rightarrow> None))
       else Inr BuiltinStep)"

section \<open>Case, normalization, strip\<close>

definition firstCodePointLength :: "jstr \<Rightarrow> nat" where
  "firstCodePointLength t = (case cp_first t of None \<Rightarrow> 0 | Some cp \<Rightarrow> if cp > 65535 then 2 else 1)"

definition codePoints :: "jstr \<Rightarrow> jstr list" where
  "codePoints t = cps t"

fun applyCase :: "js_env \<Rightarrow> case_mode \<Rightarrow> jstr \<Rightarrow> jstr" where
  "applyCase env Lower t = env_lower env t"
| "applyCase env Upper t = env_upper env t"
| "applyCase env UpperFirst t =
     env_upper env (take (firstCodePointLength t) t) @ drop (firstCodePointLength t) t"
| "applyCase env LowerFirst t =
     env_lower env (take (firstCodePointLength t) t) @ drop (firstCodePointLength t) t"

text \<open>The loop of \<open>applyNormalize\<close>: \<open>run\<close> and \<open>result\<close> are its variables.\<close>

fun normalize_runs :: "(jstr \<Rightarrow> jstr) \<Rightarrow> (int \<Rightarrow> bool) \<Rightarrow> jstr \<Rightarrow> jstr \<Rightarrow> jstr list \<Rightarrow> jstr" where
  "normalize_runs norm inside result run [] = result @ norm run"
| "normalize_runs norm inside result run (c # cs) =
     (if inside (cp_of c) then normalize_runs norm inside result (run @ c) cs
      else normalize_runs norm inside (result @ norm run @ c) [] cs)"

definition applyNormalize :: "js_env \<Rightarrow> class_set \<Rightarrow> form \<Rightarrow> json option \<Rightarrow> jstr \<Rightarrow> class_error + jstr" where
  "applyNormalize env cs form within t = (case within of
       None \<Rightarrow> Inr (env_normalize env form t)
     | Some v \<Rightarrow> bindE (class_matcher (env_cat env) cs v) (\<lambda>inside.
         Inr (normalize_runs (env_normalize env form) inside [] [] (cps t))))"

definition applyStrip :: "js_env \<Rightarrow> class_set \<Rightarrow> json \<Rightarrow> jstr \<Rightarrow> class_error + jstr" where
  "applyStrip env cs cls t =
     bindE (class_matcher (env_cat env) cs cls) (\<lambda>strip. Inr (concat (filter (\<lambda>c. \<not> strip (cp_of c)) (cps t))))"

section \<open>Scanning for keys\<close>

text \<open>\<open>keys.sort((a, b) => b.length - a.length || (a < b ? -1 : a > b ? 1 : 0))\<close>\<close>

definition key_le :: "jstr \<Rightarrow> jstr \<Rightarrow> bool" where
  "key_le a b \<longleftrightarrow> length b < length a \<or> (length a = length b \<and> js_le a b)"

definition sort_keys :: "jstr list \<Rightarrow> jstr list" where
  "sort_keys = sort_by key_le"

definition find_key :: "jstr list \<Rightarrow> jstr \<Rightarrow> jstr option" where
  "find_key keys t = List.find (starts_with t) keys"

text \<open>
  \<open>mapMatches\<close> from position \<open>i\<close>, where the text goes on with \<open>s\<close>: the index and the key of every
  match. \<open>None\<close> is out of fuel; every round of the loop takes one unit. An empty key would be found
  again for ever: \<open>checkStep\<close> lets none pass.
\<close>

fun map_scan :: "nat \<Rightarrow> jstr list \<Rightarrow> nat \<Rightarrow> jstr \<Rightarrow> (nat \<times> jstr) list option" where
  "map_scan 0 keys i s = None"
| "map_scan (Suc fuel) keys i s =
     (if s = [] then Some []
      else (case find_key keys s of
          Some key \<Rightarrow> map_option (Cons (i, key)) (map_scan fuel keys (i + length key) (drop (length key) s))
        | None \<Rightarrow> (let n = firstCodePointLength s in map_scan fuel keys (i + n) (drop n s))))"

definition mapMatches :: "jstr list \<Rightarrow> jstr \<Rightarrow> class_error + (nat \<times> jstr) list" where
  "mapMatches keys t = (case map_scan (Suc (length t)) keys 0 t of
       None \<Rightarrow> step_fail EndlessScan
     | Some ms \<Rightarrow> Inr ms)"

definition map_value :: "(jstr \<times> jstr) list \<Rightarrow> jstr \<Rightarrow> jstr" where
  "map_value m key = (case map_of m key of None \<Rightarrow> [] | Some v \<Rightarrow> v)"

definition replace_at :: "(jstr \<times> jstr) list \<Rightarrow> jstr \<Rightarrow> nat \<times> jstr \<Rightarrow> jstr" where
  "replace_at m t = (\<lambda>(index, key). take index t @ map_value m key @ drop (index + length key) t)"

fun replace_all :: "(jstr \<times> jstr) list \<Rightarrow> jstr \<Rightarrow> jstr \<Rightarrow> nat \<Rightarrow> (nat \<times> jstr) list \<Rightarrow> jstr" where
  "replace_all m t result pos [] = result @ drop pos t"
| "replace_all m t result pos ((index, key) # ms) =
     replace_all m t (result @ slice t pos index @ map_value m key) (index + length key) ms"

fun applyMap :: "(jstr \<times> jstr) list \<Rightarrow> map_at \<Rightarrow> jstr \<Rightarrow> class_error + jstr" where
  "applyMap m AtStart t = (case find_key (sort_keys (map fst m)) t of
       None \<Rightarrow> Inr t | Some key \<Rightarrow> Inr (map_value m key @ drop (length key) t))"
| "applyMap m AtEnd t = (case List.find (ends_with t) (sort_keys (map fst m)) of
       None \<Rightarrow> Inr t | Some key \<Rightarrow> Inr (take (length t - length key) t @ map_value m key))"
| "applyMap m AtFirst t = bindE (mapMatches (sort_keys (map fst m)) t) (\<lambda>ms.
       Inr (case ms of [] \<Rightarrow> t | match # ms' \<Rightarrow> replace_at m t match))"
| "applyMap m AtLast t = bindE (mapMatches (sort_keys (map fst m)) t) (\<lambda>ms.
       Inr (if ms = [] then t else replace_at m t (last ms)))"
| "applyMap m AtAll t = bindE (mapMatches (sort_keys (map fst m)) t) (\<lambda>ms. Inr (replace_all m t [] 0 ms))"

section \<open>Patterns\<close>

text \<open>The loop of \<open>applyPattern\<close>, with \<open>n\<close> rounds left.\<close>

fun pattern_loop :: "nat \<Rightarrow> (jstr \<Rightarrow> jstr) \<Rightarrow> jstr \<Rightarrow> jstr" where
  "pattern_loop 0 f current = current"
| "pattern_loop (Suc n) f current = (let next = f current in
     if next = current then current else pattern_loop n f next)"

definition applyPattern ::
    "js_env \<Rightarrow> class_set \<Rightarrow> json \<Rightarrow> jstr \<Rightarrow> bool \<Rightarrow> bool \<Rightarrow> jstr \<Rightarrow> class_error + jstr" where
  "applyPattern env cs pattern replacement global rpt t =
     bindE (patternRegExp (env_cat env) (env_accepts env) cs pattern global) (\<lambda>(source, flags).
       Inr (pattern_loop (if rpt then MAX_PATTERN_REPEATS else 1)
         (\<lambda>current. env_replace env source global current replacement) t))"

section \<open>Alternatives\<close>

text \<open>The pieces of an \<open>alternatives\<close> step; \<open>literal\<close> is the variable of the loop.\<close>

definition push_literal :: "jstr \<Rightarrow> jstr list list" where
  "push_literal literal = (if literal = [] then [] else [[literal]])"

fun alternative_pieces ::
    "nat \<Rightarrow> jstr list \<Rightarrow> (jstr \<times> jstr list) list \<Rightarrow> jstr \<Rightarrow> jstr \<Rightarrow> jstr list list option" where
  "alternative_pieces 0 keys alts literal s = None"
| "alternative_pieces (Suc fuel) keys alts literal s =
     (if s = [] then Some (push_literal literal)
      else (case find_key keys s of
          None \<Rightarrow> (let n = firstCodePointLength s
                  in alternative_pieces fuel keys alts (literal @ take n s) (drop n s))
        | Some key \<Rightarrow>
            map_option (\<lambda>ps. push_literal literal @
                (key # (case map_of alts key of None \<Rightarrow> [] | Some vs \<Rightarrow> vs)) # ps)
              (alternative_pieces fuel keys alts [] (drop (length key) s))))"

text \<open>\<open>walk(index, prefix)\<close> over the pieces from \<open>index\<close>, with \<open>results\<close> as the state.\<close>

fun walk_pieces :: "nat \<Rightarrow> jstr list list \<Rightarrow> jstr \<Rightarrow> jstr list \<Rightarrow> jstr list"
and walk_choices :: "nat \<Rightarrow> jstr list \<Rightarrow> jstr list list \<Rightarrow> jstr \<Rightarrow> jstr list \<Rightarrow> jstr list" where
  "walk_pieces limit [] pre results = (if limit \<le> length results then results else results @ [pre])"
| "walk_pieces limit (choices # ps) pre results =
     (if limit \<le> length results then results else walk_choices limit choices ps pre results)"
| "walk_choices limit [] ps pre results = results"
| "walk_choices limit (choice # choices) ps pre results =
     (let results' = walk_pieces limit ps (pre @ choice) results
      in if limit \<le> length results' then results' else walk_choices limit choices ps pre results')"

definition applyAlternatives ::
    "js_env \<Rightarrow> (jstr \<times> jstr list) list \<Rightarrow> nat option \<Rightarrow> jstr \<Rightarrow> class_error + jstr list" where
  "applyAlternatives env alts limit t =
     (let source = env_normalize env NFC t; keys = sort_keys (map fst alts)
      in case alternative_pieces (Suc (length source)) keys alts [] source of
           None \<Rightarrow> step_fail EndlessScan
         | Some ps \<Rightarrow> Inr (walk_pieces (case limit of None \<Rightarrow> MAX_VARIANTS | Some n \<Rightarrow> n) ps [] []))"

section \<open>applyStep, applyVariant\<close>

text \<open>One string or an array; \<open>BuiltinStep\<close> throws the \<open>UnsupportedStepError\<close>.\<close>

fun apply_typed :: "js_env \<Rightarrow> class_set \<Rightarrow> step \<Rightarrow> jstr \<Rightarrow> class_error + (jstr + jstr list)" where
  "apply_typed env cs (CaseStep mode) t = Inr (Inl (applyCase env mode t))"
| "apply_typed env cs (NormalizeStep form within) t =
     bindE (applyNormalize env cs form within t) (\<lambda>r. Inr (Inl r))"
| "apply_typed env cs (StripStep cls) t = bindE (applyStrip env cs cls t) (\<lambda>r. Inr (Inl r))"
| "apply_typed env cs (MapStep m at) t = bindE (applyMap m at t) (\<lambda>r. Inr (Inl r))"
| "apply_typed env cs (PatternStep pattern replacement global rpt) t =
     bindE (applyPattern env cs pattern replacement global rpt t) (\<lambda>r. Inr (Inl r))"
| "apply_typed env cs (AlternativesStep alts limit) t =
     bindE (applyAlternatives env alts limit t) (\<lambda>rs. Inr (Inr rs))"
| "apply_typed env cs BuiltinStep t = step_fail UnsupportedBuiltin"

definition applyStep :: "js_env \<Rightarrow> class_set \<Rightarrow> json \<Rightarrow> jstr \<Rightarrow> class_error + (jstr + jstr list)" where
  "applyStep env cs step t = bindE (read_step step) (\<lambda>typed. apply_typed env cs typed t)"

definition outputs_of :: "jstr + jstr list \<Rightarrow> jstr list" where
  "outputs_of out = (case out of Inl t \<Rightarrow> [t] | Inr ts \<Rightarrow> ts)"

definition apply_to_all :: "js_env \<Rightarrow> class_set \<Rightarrow> json \<Rightarrow> jstr list \<Rightarrow> class_error + jstr list" where
  "apply_to_all env cs step texts =
     bindE (mapE (applyStep env cs step) texts) (\<lambda>outs. Inr (concat (map outputs_of outs)))"

definition applyVariant :: "js_env \<Rightarrow> class_set \<Rightarrow> json list \<Rightarrow> jstr \<Rightarrow> class_error + jstr list" where
  "applyVariant env cs steps t = foldE (\<lambda>texts step. apply_to_all env cs step texts) [t] steps"

section \<open>compareCodePoints\<close>

function (sequential) compareCodePoints :: "jstr \<Rightarrow> jstr \<Rightarrow> int" where
  "compareCodePoints a b =
     (case (cp_first a, cp_first b) of
        (Some x, Some y) \<Rightarrow>
          (if x \<noteq> y then x - y
           else compareCodePoints (drop (if x > 65535 then 2 else 1) a) (drop (if y > 65535 then 2 else 1) b))
      | _ \<Rightarrow> int (length a) - int (length b))"
  by pat_completeness auto
termination
  by (relation "measure (\<lambda>(a, b). length a)") (auto, (case_tac a; simp)+)

declare compareCodePoints.simps [simp del]

section \<open>processText\<close>

type_synonym variants = "(jstr \<times> nat) list"

text \<open>The function \<open>add\<close> over the map \<open>next\<close>.\<close>

definition add_variant :: "nat \<Rightarrow> jstr \<times> nat \<Rightarrow> variants \<Rightarrow> variants" where
  "add_variant limit = (\<lambda>(t, steps) next. case map_of next t of
       None \<Rightarrow> if length next < limit then om_set t steps next else next
     | Some previous \<Rightarrow> if steps < previous then om_set t steps next else next)"

fun list_of :: "json \<Rightarrow> json list" where
  "list_of (JArr vs) = vs"
| "list_of _ = []"

text \<open>What the two inner loops add for one variant, in order.\<close>

definition variant_adds ::
    "js_env \<Rightarrow> class_set \<Rightarrow> bool \<Rightarrow> json list list \<Rightarrow> jstr \<times> nat \<Rightarrow> class_error + variants" where
  "variant_adds env cs keepInput variants = (\<lambda>(variant, steps).
     bindE (mapE (\<lambda>steps2. applyVariant env cs steps2 variant) variants) (\<lambda>outputs.
       Inr ((if keepInput then [(variant, steps)] else []) @
         map (\<lambda>output. (output, if output = variant then steps else steps + 1)) (concat outputs))))"

definition sort_variants :: "variants \<Rightarrow> variants" where
  "sort_variants = sort_by (\<lambda>a b. compareCodePoints (fst a) (fst b) \<le> 0)"

definition process_step ::
    "js_env \<Rightarrow> class_set \<Rightarrow> jstr list \<Rightarrow> nat \<Rightarrow> variants \<Rightarrow> json \<Rightarrow> class_error + variants" where
  "process_step env cs enabled limit variants processor =
     (if obj_get processor (js ''optional'') = JBool True \<and>
         \<not> is_string_in enabled (obj_get processor (js ''id'')) then Inr variants
      else
        bindE (mapE (variant_adds env cs (obj_get processor (js ''keepInput'') \<noteq> JBool False)
                 (map list_of (list_of (obj_get processor (js ''variants''))))) variants) (\<lambda>adds.
          Inr (sort_variants (fold (add_variant limit) (concat adds) []))))"

definition processText ::
    "js_env \<Rightarrow> class_set \<Rightarrow> json list \<Rightarrow> jstr list \<Rightarrow> nat \<Rightarrow> jstr \<Rightarrow> class_error + variants" where
  "processText env cs processors enabled limit t =
     foldE (process_step env cs enabled limit) [(t, 0)] processors"

end
