(* ===== verification/Steps_Correct.thy ===== *)
theory Steps_Correct
  imports Steps
begin

text \<open>
  What the text steps of Steps.thy do: the leftmost-longest scan that maps and alternatives share
  (the locale \<open>longest_key\<close>), the product of alternatives, the order of code points, the variants of
  \<open>processText\<close>, and that a step \<open>checkStep\<close> accepts never throws when it is applied.
\<close>

section \<open>The leftmost-longest scan\<close>

datatype segment = Lit jstr | Key jstr

fun seg_text :: "segment \<Rightarrow> jstr" where
  "seg_text (Lit c) = c"
| "seg_text (Key k) = k"

text \<open>The first code point of a text that is not empty, as a text.\<close>

definition first_cp :: "jstr \<Rightarrow> jstr" where
  "first_cp s = take (firstCodePointLength s) s"

definition no_key :: "jstr list \<Rightarrow> jstr \<Rightarrow> bool" where
  "no_key keys s \<longleftrightarrow> (\<forall>k\<in>set keys. \<not> starts_with s k)"

definition longest :: "jstr list \<Rightarrow> jstr \<Rightarrow> jstr \<Rightarrow> bool" where
  "longest keys s k \<longleftrightarrow> k \<in> set keys \<and> starts_with s k \<and>
     (\<forall>k'\<in>set keys. starts_with s k' \<longrightarrow> length k' \<le> length k)"

inductive leftmost_longest :: "jstr list \<Rightarrow> jstr \<Rightarrow> segment list \<Rightarrow> bool" for keys where
  finish: "leftmost_longest keys [] []"
| key: "longest keys s k \<Longrightarrow> k \<noteq> [] \<Longrightarrow> leftmost_longest keys (drop (length k) s) segs \<Longrightarrow>
    leftmost_longest keys s (Key k # segs)"
| lit: "s \<noteq> [] \<Longrightarrow> no_key keys s \<Longrightarrow> leftmost_longest keys (drop (firstCodePointLength s) s) segs \<Longrightarrow>
    leftmost_longest keys s (Lit (first_cp s) # segs)"

inductive_cases leftmost_longest_NilE: "leftmost_longest keys s []"
inductive_cases leftmost_longest_KeyE: "leftmost_longest keys s (Key k # segs)"
inductive_cases leftmost_longest_LitE: "leftmost_longest keys s (Lit c # segs)"

lemma leftmost_longest_text: "leftmost_longest keys s segs \<Longrightarrow> concat (map seg_text segs) = s"
  by (induction rule: leftmost_longest.induct) (auto simp: longest_def first_cp_def starts_with_drop)

lemma first_cp_size: "wf_js s \<Longrightarrow> length (first_cp s) = firstCodePointLength s"
  by (cases s rule: cp_first.cases) (auto simp: first_cp_def firstCodePointLength_def)

lemma wf_js_drop: "wf_js s \<Longrightarrow> wf_js (drop n s)"
  by (metis append_take_drop_id wf_js_simps(3))

lemma first_cp_length: "s \<noteq> [] \<Longrightarrow> 0 < firstCodePointLength s"
  by (cases s rule: cp_first.cases) (auto simp: firstCodePointLength_def)

lemma longest_unique: "longest keys s k \<Longrightarrow> longest keys s k' \<Longrightarrow> k = k'"
  unfolding longest_def starts_with_def by (metis le_antisym)

lemma leftmost_longest_unique:
  "leftmost_longest keys s segs \<Longrightarrow> leftmost_longest keys s segs' \<Longrightarrow> segs = segs'"
proof (induction arbitrary: segs' rule: leftmost_longest.induct)
  case finish
  from finish.prems show ?case
    by (rule leftmost_longest.cases) (auto simp: longest_def starts_with_def)
next
  case (key s k segs)
  have nn: "\<not> no_key keys s" and ne: "s \<noteq> []"
    using key.hyps(1,2) by (auto simp: no_key_def longest_def starts_with_def)
  from key.prems obtain k2 segs2 where k2: "longest keys s k2" "segs' = Key k2 # segs2"
    "leftmost_longest keys (drop (length k2) s) segs2"
    by (rule leftmost_longest.cases) (use nn ne in simp_all)
  then show ?case using key.IH longest_unique [OF key.hyps(1) k2(1)] by simp
next
  case (lit s segs)
  have nl: "\<not> longest keys s k" for k using lit.hyps(2) by (auto simp: no_key_def longest_def)
  from lit.prems obtain segs2 where "segs' = Lit (first_cp s) # segs2"
    "leftmost_longest keys (drop (firstCodePointLength s) s) segs2"
    by (rule leftmost_longest.cases) (use nl lit.hyps(1) in simp_all)
  then show ?case using lit.IH by simp
qed

text \<open>The contract of a finder of keys, and what a scanner that uses one gets.\<close>

locale longest_key =
  fixes find :: "jstr list \<Rightarrow> jstr \<Rightarrow> jstr option"
  assumes found: "find keys s = Some k \<Longrightarrow> longest keys s k"
    and missing: "find keys s = None \<Longrightarrow> no_key keys s"
begin

lemma find_longest:
  assumes "longest keys s k"
  shows "find keys s = Some k"
proof (cases "find keys s")
  case None
  then show ?thesis using missing [OF None] assms by (auto simp: no_key_def longest_def)
next
  case (Some k')
  then show ?thesis using longest_unique [OF assms found [OF Some]] by simp
qed

lemma find_no_key: "no_key keys s \<Longrightarrow> find keys s = None"
  by (cases "find keys s") (auto dest!: found simp: no_key_def longest_def)

lemma segments_exist: "[] \<notin> set keys \<Longrightarrow> \<exists>segs. leftmost_longest keys s segs"
proof (induction "length s" arbitrary: s rule: less_induct)
  case less
  show ?case
  proof (cases "s = []")
    case True
    then show ?thesis using leftmost_longest.finish by blast
  next
    case ne: False
    show ?thesis
    proof (cases "find keys s")
      case None
      have "length (drop (firstCodePointLength s) s) < length s" using ne first_cp_length by simp
      then show ?thesis
        using less.hyps less.prems leftmost_longest.lit [OF ne missing [OF None]] by blast
    next
      case (Some k)
      then have k: "longest keys s k" "k \<noteq> []" using found less.prems by (auto simp: longest_def)
      then have "length (drop (length k) s) < length s" using ne by simp
      then show ?thesis using less.hyps less.prems leftmost_longest.key [OF k] by blast
    qed
  qed
qed

end

lemma key_le_total: "key_le a b \<or> key_le b a"
  using js_le_total by (auto simp: key_le_def)

lemma key_le_trans: "key_le a b \<Longrightarrow> key_le b c \<Longrightarrow> key_le a c"
  using js_le_trans by (auto simp: key_le_def)

lemma find_sorted:
  "sorted_wrt key_le ks \<Longrightarrow> List.find P ks = Some k \<Longrightarrow> k \<in> set ks \<and> P k \<and> (\<forall>k'\<in>set ks. P k' \<longrightarrow> length k' \<le> length k)"
  by (induction ks) (auto simp: key_le_def split: if_splits)

interpretation keys: longest_key "\<lambda>keys. find_key (sort_keys keys)"
proof
  fix keys s k
  have sorted: "sorted_wrt key_le (sort_keys keys)"
    unfolding sort_keys_def by (rule sorted_sort_by [OF key_le_total key_le_trans])
  show "find_key (sort_keys keys) s = Some k \<Longrightarrow> longest keys s k"
    using find_sorted [OF sorted, of "starts_with s" k] by (auto simp: find_key_def longest_def sort_keys_def)
  show "find_key (sort_keys keys) s = None \<Longrightarrow> no_key keys s"
    by (auto simp: find_key_def no_key_def find_None_iff sort_keys_def)
qed

section \<open>Maps\<close>

fun key_positions :: "nat \<Rightarrow> segment list \<Rightarrow> (nat \<times> jstr) list" where
  "key_positions i [] = []"
| "key_positions i (Lit c # segs) = key_positions (i + length c) segs"
| "key_positions i (Key k # segs) = (i, k) # key_positions (i + length k) segs"

lemma drop_less: "0 < n \<Longrightarrow> s \<noteq> [] \<Longrightarrow> length s < Suc f \<Longrightarrow> length (drop n s) < f"
  by (cases s; cases n) auto

lemma map_scan_segments:
  "leftmost_longest keys s segs \<Longrightarrow> wf_js s \<Longrightarrow> length s < fuel \<Longrightarrow>
    map_scan fuel (sort_keys keys) i s = Some (key_positions i segs)"
proof (induction arbitrary: fuel i rule: leftmost_longest.induct)
  case finish
  then show ?case by (cases fuel) auto
next
  case (key s k segs)
  obtain f where f: "fuel = Suc f" using key.prems by (cases fuel) auto
  have ne: "s \<noteq> []" using key.hyps(1,2) by (auto simp: longest_def starts_with_def)
  have "length (drop (length k) s) < f"
    by (rule drop_less [OF _ _ key.prems(2) [unfolded f]]) (use key.hyps(2) ne in simp_all)
  then show ?case
    using key.IH keys.find_longest [OF key.hyps(1)] key.prems(1) ne by (simp add: f wf_js_drop)
next
  case (lit s segs)
  obtain f where f: "fuel = Suc f" using lit.prems by (cases fuel) auto
  have "length (drop (firstCodePointLength s) s) < f"
    by (rule drop_less [OF first_cp_length [OF lit.hyps(1)] lit.hyps(1) lit.prems(2) [unfolded f]])
  then show ?case
    using lit.IH keys.find_no_key [OF lit.hyps(2)] lit.hyps(1) lit.prems(1) first_cp_size
    by (simp add: f Let_def wf_js_drop)
qed

lemma mapMatches_segments:
  "leftmost_longest keys t segs \<Longrightarrow> wf_js t \<Longrightarrow> mapMatches (sort_keys keys) t = Inr (key_positions 0 segs)"
  unfolding mapMatches_def by (subst map_scan_segments) simp_all

fun seg_subst :: "(jstr \<Rightarrow> jstr) \<Rightarrow> segment \<Rightarrow> jstr" where
  "seg_subst f (Lit c) = c"
| "seg_subst f (Key k) = f k"

lemma replace_all_segments:
  assumes "drop i t = concat (map seg_text segs)" and "pos \<le> i" and "i \<le> length t"
  shows "replace_all m t result pos (key_positions i segs) =
    result @ slice t pos i @ concat (map (seg_subst (map_value m)) segs)"
  using assms
proof (induction segs arbitrary: i pos result)
  case Nil
  then show ?case using slice_split [of pos i t] by simp
next
  case (Cons sg segs)
  have eq: "drop i t = seg_text sg @ concat (map seg_text segs)" using Cons.prems(1) by simp
  then have "length t - i = length (seg_text sg) + length (concat (map seg_text segs))"
    by (metis length_append length_drop)
  then have len: "i + length (seg_text sg) \<le> length t" using Cons.prems(3) by linarith
  have "drop (length (seg_text sg)) (drop i t) = concat (map seg_text segs)" unfolding eq by simp
  then have nxt: "drop (i + length (seg_text sg)) t = concat (map seg_text segs)" by (simp add: add.commute)
  have seg: "slice t i (i + length (seg_text sg)) = seg_text sg"
    using Cons.prems(1) by (simp add: slice_def)
  show ?case
  proof (cases sg)
    case (Lit c)
    have "slice t pos (i + length c) = slice t pos i @ c"
      using slice_split [of pos i t] slice_split [of i "i + length c" t] slice_split [of pos "i + length c" t]
        Cons.prems(2,3) len seg Lit by simp
    then show ?thesis using Cons.IH [OF nxt] Cons.prems(2) len Lit by simp
  next
    case (Key k)
    have "slice t (i + length k) (i + length k) = []" by (simp add: slice_def)
    then show ?thesis using Cons.IH [OF nxt le_refl len] Key by simp
  qed
qed

lemma applyMap_all_segments:
  assumes "leftmost_longest (map fst m) t segs" and "wf_js t"
  shows "applyMap m AtAll t = Inr (concat (map (seg_subst (map_value m)) segs))"
  using mapMatches_segments [OF assms] replace_all_segments [of 0 t segs 0 m "[]"] leftmost_longest_text [OF assms(1)]
  by (simp add: slice_def)

lemma mapMatches_total:
  assumes "[] \<notin> set keys" and "wf_js t"
  shows "\<exists>ms. mapMatches (sort_keys keys) t = Inr ms"
  using keys.segments_exist [OF assms(1)] mapMatches_segments [OF _ assms(2)] by blast

lemma applyMap_total:
  assumes "[] \<notin> fst ` set m" and "wf_js t"
  shows "\<exists>r. applyMap m at t = Inr r"
  using mapMatches_total [of "map fst m" t] assms by (cases at) (auto split: option.splits)

section \<open>Alternatives\<close>

fun seg_choices :: "(jstr \<Rightarrow> jstr list) \<Rightarrow> segment \<Rightarrow> jstr list" where
  "seg_choices f (Lit c) = [c]"
| "seg_choices f (Key k) = k # f k"

definition alt_values :: "(jstr \<times> jstr list) list \<Rightarrow> jstr \<Rightarrow> jstr list" where
  "alt_values alts k = (case map_of alts k of None \<Rightarrow> [] | Some vs \<Rightarrow> vs)"

text \<open>The pieces of the code: literals of several code points put together.\<close>

fun seg_pieces :: "(jstr \<Rightarrow> jstr list) \<Rightarrow> jstr \<Rightarrow> segment list \<Rightarrow> jstr list list" where
  "seg_pieces f literal [] = push_literal literal"
| "seg_pieces f literal (Lit c # segs) = seg_pieces f (literal @ c) segs"
| "seg_pieces f literal (Key k # segs) = push_literal literal @ (k # f k) # seg_pieces f [] segs"

lemma alternative_pieces_segments:
  "leftmost_longest keys s segs \<Longrightarrow> length s < fuel \<Longrightarrow>
    alternative_pieces fuel (sort_keys keys) alts literal s = Some (seg_pieces (alt_values alts) literal segs)"
proof (induction arbitrary: fuel literal rule: leftmost_longest.induct)
  case finish
  then show ?case by (cases fuel) auto
next
  case (key s k segs)
  obtain f where f: "fuel = Suc f" using key.prems by (cases fuel) auto
  have ne: "s \<noteq> []" using key.hyps(1,2) by (auto simp: longest_def starts_with_def)
  have "length (drop (length k) s) < f"
    by (rule drop_less [OF _ _ key.prems [unfolded f]]) (use key.hyps(2) ne in simp_all)
  then show ?case
    using key.IH keys.find_longest [OF key.hyps(1)] ne by (simp add: f alt_values_def)
next
  case (lit s segs)
  obtain f where f: "fuel = Suc f" using lit.prems by (cases fuel) auto
  have "length (drop (firstCodePointLength s) s) < f"
    by (rule drop_less [OF first_cp_length [OF lit.hyps(1)] lit.hyps(1) lit.prems [unfolded f]])
  then show ?case
    using lit.IH keys.find_no_key [OF lit.hyps(2)] lit.hyps(1) by (simp add: f Let_def first_cp_def)
qed

definition combinations :: "jstr list list \<Rightarrow> jstr list" where
  "combinations ps = map concat (product_lists ps)"

lemma combinations_simps [simp]:
  "combinations [] = [[]]"
  "combinations (p # ps) = concat (map (\<lambda>x. map (\<lambda>r. x @ r) (combinations ps)) p)"
  by (simp_all add: combinations_def map_concat comp_def)

lemma combinations_push: "combinations (push_literal literal @ ps) = map (\<lambda>r. literal @ r) (combinations ps)"
  by (simp add: push_literal_def)

lemma combinations_seg_pieces:
  "combinations (seg_pieces f literal segs) = map (\<lambda>r. literal @ r) (combinations (map (seg_choices f) segs))"
proof (induction f literal segs rule: seg_pieces.induct)
  case (1 f literal)
  then show ?case using combinations_push [of literal "[]"] by simp
next
  case (2 f literal c segs)
  then show ?case by (simp add: comp_def)
next
  case (3 f literal k segs)
  then show ?case by (simp only: seg_pieces.simps combinations_push) simp
qed

lemma walk_take:
  "length results \<le> limit \<Longrightarrow> walk_pieces limit ps pre results =
    take limit (results @ map (\<lambda>r. pre @ r) (combinations ps))"
  "length results \<le> limit \<Longrightarrow> walk_choices limit p ps pre results =
    take limit (results @ map (\<lambda>r. pre @ r) (combinations (p # ps)))"
proof (induction limit ps pre results and limit p ps pre results rule: walk_pieces_walk_choices.induct)
  case (1 limit pre results)
  then show ?case by auto
next
  case (2 limit choices ps pre results)
  then show ?case by auto
next
  case (3 limit ps pre results)
  then show ?case by simp
next
  case (4 limit choice choices ps pre results)
  define r where "r = take limit (results @ map (\<lambda>r. (pre @ choice) @ r) (combinations ps))"
  have r: "walk_pieces limit ps (pre @ choice) results = r" using 4 by (simp add: r_def)
  have len: "length r \<le> limit" by (simp add: r_def)
  show ?case
  proof (cases "limit \<le> length r")
    case True
    then have "limit \<le> length (results @ map (\<lambda>r. (pre @ choice) @ r) (combinations ps))"
      by (simp add: r_def)
    then show ?thesis using r True by (simp add: r_def comp_def)
  next
    case False
    then have "r = results @ map (\<lambda>r. (pre @ choice) @ r) (combinations ps)" by (simp add: r_def)
    then show ?thesis using 4(2) [OF r [symmetric]] False r len by (simp add: comp_def)
  qed
qed

lemma applyAlternatives_segments:
  assumes "leftmost_longest (map fst alts) (env_normalize env NFC t) segs"
  shows "applyAlternatives env alts limit t = Inr (take (case limit of None \<Rightarrow> MAX_VARIANTS | Some n \<Rightarrow> n)
    (combinations (map (seg_choices (alt_values alts)) segs)))"
  unfolding applyAlternatives_def Let_def
  by (subst alternative_pieces_segments [OF assms])
    (simp_all add: walk_take(1) combinations_seg_pieces)

section \<open>The order of code points\<close>

text \<open>The numbers \<open>compareCodePoints\<close> reads from a string.\<close>

function cp_numbers :: "jstr \<Rightarrow> int list" where
  "cp_numbers s = (case cp_first s of
       None \<Rightarrow> []
     | Some x \<Rightarrow> x # cp_numbers (drop (if x > 65535 then 2 else 1) s))"
  by pat_completeness auto
termination
  by (relation "measure length") (auto, (case_tac s; simp)+)

declare cp_numbers.simps [simp del]

lemma cp_first_None [simp]: "cp_first s = None \<longleftrightarrow> s = []"
  by (cases s rule: cp_first.cases) auto

lemma cp_numbers_Nil [simp]: "cp_numbers [] = []"
  by (subst cp_numbers.simps) simp

lemma cp_numbers_eq_Nil [simp]: "cp_numbers s = [] \<longleftrightarrow> s = []"
  by (subst cp_numbers.simps) (auto split: option.splits)

lemma Nil_eq_cp_numbers [simp]: "[] = cp_numbers s \<longleftrightarrow> s = []"
  using cp_numbers_eq_Nil [of s] by metis

lemma js_less_Nil: "js_less [] b \<longleftrightarrow> b \<noteq> []"
  by (cases b) auto

lemma compare_numbers:
  "(compareCodePoints a b < 0 \<longleftrightarrow> js_less (cp_numbers a) (cp_numbers b)) \<and>
    (compareCodePoints a b = 0 \<longleftrightarrow> cp_numbers a = cp_numbers b)"
proof (induction a b rule: compareCodePoints.induct)
  case (1 a b)
  show ?case
  proof (cases "cp_first a")
    case None
    then have "compareCodePoints a b = - int (length b)"
      by (subst compareCodePoints.simps) simp
    then show ?thesis using None by (simp add: js_less_Nil)
  next
    case x: (Some x)
    show ?thesis
    proof (cases "cp_first b")
      case None
      then have "compareCodePoints a b = int (length a)"
        using x by (subst compareCodePoints.simps) auto
      moreover have "a \<noteq> []" using x by auto
      ultimately show ?thesis using None by simp
    next
      case y: (Some y)
      let ?n = "if x > 65535 then 2 else 1"
      have c: "compareCodePoints a b = (if x \<noteq> y then x - y else compareCodePoints (drop ?n a) (drop ?n b))"
        using x y by (subst compareCodePoints.simps) simp
      have na: "cp_numbers a = x # cp_numbers (drop ?n a)" using x by (subst cp_numbers.simps) simp
      have nb: "cp_numbers b = y # cp_numbers (drop (if y > 65535 then 2 else 1) b)"
        using y by (subst cp_numbers.simps) simp
      show ?thesis
      proof (cases "x = y")
        case True
        then show ?thesis using "1.IH" [OF refl x y] unfolding c na nb by simp
      next
        case False
        then show ?thesis unfolding c na nb by auto
      qed
    qed
  qed
qed

lemma cp_numbers_values: "wf_js s \<Longrightarrow> cp_numbers s = cp_values s"
proof (induction s rule: cps.induct)
  case 1
  then show ?case by (simp add: cp_values_def)
next
  case (2 u)
  then show ?case by (subst cp_numbers.simps) (simp add: cp_values_def cp_of_def)
next
  case (3 u v s)
  have "is_high u \<Longrightarrow> is_low v \<Longrightarrow> pair_cp u v > 65535"
    by (simp add: is_high_def is_low_def pair_cp_def)
  then show ?case
    using 3 by (subst cp_numbers.simps) (auto simp: cp_values_def cp_of_def)
qed

lemma cp_values_inj: "wf_js a \<Longrightarrow> wf_js b \<Longrightarrow> cp_values a = cp_values b \<Longrightarrow> a = b"
proof -
  have id: "concat (map from_cp (cp_values s)) = s" if "wf_js s" for s
  proof -
    have "map from_cp (cp_values s) = cps s"
      using from_cp_cp_of [OF that] by (auto simp: cp_values_def intro: map_idI)
    then show ?thesis by simp
  qed
  assume "wf_js a" "wf_js b" "cp_values a = cp_values b"
  then show "a = b" using id by metis
qed

definition cp_le :: "jstr \<Rightarrow> jstr \<Rightarrow> bool" where
  "cp_le a b \<longleftrightarrow> compareCodePoints a b \<le> 0"

lemma cp_le_numbers: "cp_le a b \<longleftrightarrow> js_le (cp_numbers a) (cp_numbers b)"
  using compare_numbers [of a b] by (auto simp: cp_le_def js_le_def)

section \<open>Variants\<close>

text \<open>The keys a map gets from a list of additions when it may hold \<open>limit\<close> of them.\<close>

lemma ls_of_snoc: "ls_of (xs @ [x]) = ls_add x (ls_of xs)"
  by (simp add: ls_of_def)

definition min_steps :: "variants \<Rightarrow> jstr \<Rightarrow> nat" where
  "min_steps adds t = Min {n. (t, n) \<in> set adds}"

lemma min_steps_snoc:
  assumes "t \<in> fst ` set adds"
  shows "min_steps (adds @ [(t, n)]) t = min (min_steps adds t) n"
proof -
  have "finite {n. (t, n) \<in> set adds}"
    by (rule finite_subset [of _ "snd ` set adds"]) force+
  moreover have "{n. (t, n) \<in> set adds} \<noteq> {}" using assms by force
  moreover have "{m. (t, m) \<in> set (adds @ [(t, n)])} = insert n {m. (t, m) \<in> set adds}" by auto
  ultimately show ?thesis unfolding min_steps_def by (simp add: Min_insert min.commute)
qed

lemma min_steps_other: "t \<noteq> t' \<Longrightarrow> min_steps (adds @ [(t', n)]) t = min_steps adds t"
  by (simp add: min_steps_def)

lemma min_steps_first: "t \<notin> fst ` set adds \<Longrightarrow> min_steps (adds @ [(t, n)]) t = n"
proof -
  assume "t \<notin> fst ` set adds"
  then have "{m. (t, m) \<in> set (adds @ [(t, n)])} = {n}" by force
  then show ?thesis by (simp add: min_steps_def)
qed

lemma fold_add_variant:
  "om_keys (fold (add_variant limit) adds []) = take limit (ls_of (map fst adds)) \<and>
    (\<forall>t n. map_of (fold (add_variant limit) adds []) t = Some n \<longrightarrow> n = min_steps adds t)"
proof (induction adds rule: rev_induct)
  case Nil
  then show ?case by (simp add: ls_of_def)
next
  case (snoc x adds)
  obtain t n where x: "x = (t, n)" by (cases x)
  define m where "m = fold (add_variant limit) adds []"
  have keys: "om_keys m = take limit (ls_of (map fst adds))"
    and mins: "\<And>t n. map_of m t = Some n \<Longrightarrow> n = min_steps adds t"
    using snoc.IH by (auto simp: m_def)
  have fold: "fold (add_variant limit) (adds @ [x]) [] = add_variant limit x m" by (simp add: m_def)
  have dom: "dom (map_of m) = set (take limit (ls_of (map fst adds)))"
    using keys om_keys_simps(3) [of m] by simp
  have ls: "ls_of (map fst (adds @ [x])) = ls_add t (ls_of (map fst adds))"
    by (simp add: ls_of_snoc x)
  have len: "length m = min limit (length (ls_of (map fst adds)))"
    using arg_cong [OF keys, of length] by (simp add: om_keys_def)
  show ?case
  proof (cases "map_of m t")
    case (Some previous)
    then have in1: "t \<in> set (ls_of (map fst adds))" using dom in_set_takeD by (metis domI)
    then have in2: "t \<in> fst ` set adds" by auto
    have prev: "previous = min_steps adds t" by (rule mins [OF Some])
    have m': "map_of (add_variant limit x m) = (map_of m)(t \<mapsto> min previous n)"
      using Some by (auto simp: add_variant_def x min_def)
    have k': "om_keys (add_variant limit x m) = om_keys m"
      using Some by (auto simp: add_variant_def x om_keys_set dom_def)
    have "n' = min_steps (adds @ [x]) t'" if "map_of (add_variant limit x m) t' = Some n'" for t' n'
      using that [unfolded m'] mins [of t'] min_steps_snoc [OF in2, of n] min_steps_other [of t' t adds n] prev
      unfolding x by (auto split: if_splits)
    moreover have "ls_of (map fst (adds @ [x])) = ls_of (map fst adds)"
      using in1 by (simp only: ls ls_add_def if_True)
    ultimately show ?thesis unfolding fold k' keys by simp
  next
    case None
    show ?thesis
    proof (cases "length m < limit")
      case True
      then have full: "take limit (ls_of (map fst adds)) = ls_of (map fst adds)" using len by simp
      then have nin: "t \<notin> set (ls_of (map fst adds))" using None dom by (metis domIff)
      then have nin2: "t \<notin> fst ` set adds" by simp
      have m': "add_variant limit x m = om_set t n m" using None True by (simp add: add_variant_def x)
      have k': "om_keys (om_set t n m) = ls_of (map fst adds) @ [t]"
        using None keys full by (simp add: om_keys_set dom_def)
      have "n' = min_steps (adds @ [x]) t'" if "map_of (om_set t n m) t' = Some n'" for t' n'
        using that mins [of t'] min_steps_first [OF nin2, of n] min_steps_other [of t' t adds n]
        unfolding x by (auto split: if_splits)
      moreover have "take limit (ls_of (map fst (adds @ [x]))) = ls_of (map fst adds) @ [t]"
        unfolding ls using nin True len by (simp add: ls_add_def)
      ultimately show ?thesis unfolding fold m' k' by simp
    next
      case False
      then have m': "add_variant limit x m = m" using None by (simp add: add_variant_def x)
      have "take limit (ls_of (map fst (adds @ [x]))) = take limit (ls_of (map fst adds))"
        unfolding ls using False len by (simp add: ls_add_def)
      moreover have "n' = min_steps (adds @ [x]) t'" if "map_of m t' = Some n'" for t' n'
        using that mins None min_steps_other [of t' t adds n] unfolding x by (metis option.distinct(1))
      ultimately show ?thesis unfolding fold m' keys by simp
    qed
  qed
qed

lemma sort_variants_sorted: "sorted_wrt (\<lambda>a b. cp_le (fst a) (fst b)) (sort_variants vs)"
proof -
  have "sorted_wrt (\<lambda>a b. compareCodePoints (fst a) (fst b) \<le> 0) (sort_variants vs)"
    unfolding sort_variants_def
  proof (rule sorted_sort_by)
    show "compareCodePoints (fst a) (fst b) \<le> 0 \<or> compareCodePoints (fst b) (fst a) \<le> 0" for a b :: "jstr \<times> nat"
      unfolding cp_le_def [symmetric] cp_le_numbers by (rule js_le_total)
    show "compareCodePoints (fst a) (fst b) \<le> 0 \<Longrightarrow> compareCodePoints (fst b) (fst c) \<le> 0 \<Longrightarrow>
        compareCodePoints (fst a) (fst c) \<le> 0" for a b c :: "jstr \<times> nat"
      unfolding cp_le_def [symmetric] cp_le_numbers by (rule js_le_trans)
  qed
  then show ?thesis by (simp add: cp_le_def)
qed

lemma set_sort_variants [simp]: "set (sort_variants vs) = set vs"
  by (simp add: sort_variants_def)

lemma length_sort_variants [simp]: "length (sort_variants vs) = length vs"
  by (simp add: sort_variants_def)

lemma distinct_sort_variants [simp]: "distinct (map fst (sort_variants vs)) = distinct (map fst vs)"
proof -
  have "mset (map fst (sort_variants vs)) = mset (map fst vs)" by (simp add: sort_variants_def)
  then show ?thesis by (rule mset_eq_imp_distinct_iff)
qed

lemma fold_variants:
  fixes adds :: variants and limit :: nat
  defines "m \<equiv> fold (add_variant limit) adds []"
  shows "distinct (map fst m)" and "length m \<le> limit"
    and "fst ` set m = set (take limit (ls_of (map fst adds)))"
    and "(t, n) \<in> set m \<Longrightarrow> n = min_steps adds t"
proof -
  have keys: "map fst m = take limit (ls_of (map fst adds))"
    using fold_add_variant [of limit adds] by (simp add: m_def om_keys_def)
  then show d: "distinct (map fst m)" by simp
  show "length m \<le> limit" using arg_cong [OF keys, of length] by simp
  show "fst ` set m = set (take limit (ls_of (map fst adds)))" using arg_cong [OF keys, of set] by simp
  show "(t, n) \<in> set m \<Longrightarrow> n = min_steps adds t"
    using fold_add_variant [of limit adds] d by (simp add: m_def)
qed

lemma min_steps_in: "t \<in> fst ` set adds \<Longrightarrow> (t, min_steps adds t) \<in> set adds"
proof -
  assume "t \<in> fst ` set adds"
  then have "{n. (t, n) \<in> set adds} \<noteq> {}" by force
  moreover have "finite {n. (t, n) \<in> set adds}"
    by (rule finite_subset [of _ "snd ` set adds"]) force+
  ultimately show ?thesis using Min_in unfolding min_steps_def by blast
qed

text \<open>What one processor that runs makes of the variants.\<close>

lemma process_step_cases:
  assumes "process_step env cs enabled limit variants p = Inr nxt"
  obtains (skipped) "nxt = variants"
  | (ran) adds where "mapE (variant_adds env cs (obj_get p (js ''keepInput'') \<noteq> JBool False)
        (map list_of (list_of (obj_get p (js ''variants''))))) variants = Inr adds"
      and "nxt = sort_variants (fold (add_variant limit) (concat adds) [])"
  using assms by (auto simp: process_step_def split: if_splits)

lemma variant_adds_steps: "variant_adds env cs keep vs (t, n) = Inr adds \<Longrightarrow> (u, k) \<in> set adds \<Longrightarrow> k \<le> Suc n"
  by (auto simp: variant_adds_def split: if_splits)

lemma process_step_steps:
  assumes "process_step env cs enabled limit variants p = Inr nxt" and "\<forall>(t, n)\<in>set variants. n \<le> b"
  shows "\<forall>(t, n)\<in>set nxt. n \<le> Suc b"
  using assms(1)
proof (cases rule: process_step_cases)
  case skipped
  then show ?thesis using assms(2) by fastforce
next
  case (ran adds)
  have all: "k \<le> Suc b" if uk: "(u, k) \<in> set (concat adds)" for u k
  proof -
    obtain as where as: "as \<in> set adds" "(u, k) \<in> set as" using uk by auto
    obtain v where v: "v \<in> set variants" "variant_adds env cs (obj_get p (js ''keepInput'') \<noteq> JBool False)
        (map list_of (list_of (obj_get p (js ''variants'')))) v = Inr as"
      using mapE_set [OF ran(1) as(1)] by blast
    obtain t n where "v = (t, n)" by (cases v)
    then show ?thesis using variant_adds_steps [of env cs _ _ t n as u k] v as(2) assms(2) by fastforce
  qed
  have "n \<le> Suc b" if "(t, n) \<in> set nxt" for t n
  proof -
    have tn: "(t, n) \<in> set (fold (add_variant limit) (concat adds) [])" using that ran(2) by simp
    then have "t \<in> fst ` set (fold (add_variant limit) (concat adds) [])" by force
    then have "t \<in> set (take limit (ls_of (map fst (concat adds))))" by (simp only: fold_variants(3))
    then have "t \<in> fst ` set (concat adds)" by (auto dest: in_set_takeD)
    then show ?thesis using all min_steps_in fold_variants(4) [OF tn] by metis
  qed
  then show ?thesis by blast
qed

definition variants_ok :: "nat \<Rightarrow> variants \<Rightarrow> bool" where
  "variants_ok limit vs \<longleftrightarrow> distinct (map fst vs) \<and> sorted_wrt (\<lambda>a b. cp_le (fst a) (fst b)) vs \<and>
     length vs \<le> max 1 limit"

lemma process_step_ok:
  "process_step env cs enabled limit variants p = Inr nxt \<Longrightarrow> variants_ok limit variants \<Longrightarrow> variants_ok limit nxt"
proof (erule process_step_cases)
  fix adds
  assume "nxt = sort_variants (fold (add_variant limit) (concat adds) [])"
  then show "variants_ok limit nxt"
    using fold_variants(1,2) [of limit "concat adds"] sort_variants_sorted
    by (auto simp: variants_ok_def)
qed simp

lemma processText_ok:
  assumes "processText env cs ps enabled limit t = Inr vs"
  shows "variants_ok limit vs" and "\<forall>(u, n)\<in>set vs. n \<le> length ps"
proof -
  have "variants_ok limit vs \<and> (\<forall>(u, n)\<in>set vs. n \<le> b + length ps)"
    if "foldE (process_step env cs enabled limit) vs0 ps = Inr vs" "variants_ok limit vs0" "\<forall>(u, n)\<in>set vs0. n \<le> b"
    for vs0 b
    using that
  proof (induction ps arbitrary: vs0 b)
    case Nil
    then show ?case by simp
  next
    case (Cons p ps)
    then obtain vs1 where s: "process_step env cs enabled limit vs0 p = Inr vs1"
      and r: "foldE (process_step env cs enabled limit) vs1 ps = Inr vs" by auto
    from Cons.IH [OF r process_step_ok [OF s Cons.prems(2)] process_step_steps [OF s Cons.prems(3)]]
    show ?case by auto
  qed
  from this [of "[(t, 0)]" 0] show "variants_ok limit vs" "\<forall>(u, n)\<in>set vs. n \<le> length ps"
    using assms by (auto simp: processText_def variants_ok_def)
qed

section \<open>Checked steps\<close>

lemma map_scan_total:
  "[] \<notin> set keys \<Longrightarrow> length s < fuel \<Longrightarrow> \<exists>ms. map_scan fuel (sort_keys keys) i s = Some ms"
proof (induction fuel arbitrary: i s)
  case 0
  then show ?case by simp
next
  case (Suc f)
  show ?case
  proof (cases "s = []")
    case True
    then show ?thesis by simp
  next
    case ne: False
    show ?thesis
    proof (cases "find_key (sort_keys keys) s")
      case None
      have "length (drop (firstCodePointLength s) s) < f"
        by (rule drop_less [OF first_cp_length [OF ne] ne Suc.prems(2)])
      from Suc.IH [OF Suc.prems(1) this] show ?thesis using None ne by (simp add: Let_def)
    next
      case (Some k)
      then have "k \<noteq> []" using keys.found Suc.prems(1) by (auto simp: longest_def)
      then have "length (drop (length k) s) < f"
        by (intro drop_less [OF _ ne Suc.prems(2)]) simp
      from Suc.IH [OF Suc.prems(1) this, of "i + length k"] obtain ms where
        "map_scan f (sort_keys keys) (i + length k) (drop (length k) s) = Some ms" ..
      then show ?thesis using Some ne by simp
    qed
  qed
qed

lemma checked_map_applies: "[] \<notin> fst ` set m \<Longrightarrow> \<exists>r. applyMap m at t = Inr r"
proof -
  assume "[] \<notin> fst ` set m"
  then have "\<exists>ms. map_scan (Suc (length t)) (sort_keys (map fst m)) 0 t = Some ms"
    by (intro map_scan_total) auto
  then have "\<exists>ms. mapMatches (sort_keys (map fst m)) t = Inr ms"
    unfolding mapMatches_def by (auto simp del: map_scan.simps)
  then show ?thesis by (cases at) (auto split: option.splits)
qed

lemma foldE_unit: "foldE f () xs = Inr () \<Longrightarrow> x \<in> set xs \<Longrightarrow> f () x = Inr ()"
  by (induction xs) auto

lemma class_check_source: "class_check cat cs v = Inr () \<Longrightarrow> \<exists>s. class_source cat cs v = Inr s"
  by (auto simp: class_check_def class_source_def)

lemma read_mode_total: "is_string_in CASES v \<Longrightarrow> \<exists>m. read_mode v = Inr m"
  by (auto simp: is_string_in_def CASES_def read_mode_def split: json.splits)

lemma read_form_total: "is_string_in FORMS v \<Longrightarrow> \<exists>f. read_form v = Inr f"
  by (auto simp: is_string_in_def FORMS_def read_form_def split: json.splits)

lemma stepKind_kind: "stepKind step = Inr kind \<Longrightarrow> kind \<in> fst ` set STEP_KINDS"
proof -
  assume "stepKind step = Inr kind"
  then have "filter (has_own step) (map fst STEP_KINDS) = [kind]"
    by (auto simp: stepKind_def split: json.splits list.splits)
  then have "kind \<in> set (filter (has_own step) (map fst STEP_KINDS))"
    by (simp only: list.set_intros)
  then show ?thesis by auto
qed

lemma checked_alternatives:
  assumes "foldE check_alternatives_entry () es = Inr ()"
  shows "[] \<notin> fst ` set es"
proof
  assume "[] \<in> fst ` set es"
  then obtain v where "([], v) \<in> set es" by auto
  from foldE_unit [OF assms this] show False by (simp add: check_alternatives_entry_def)
qed

lemma checked_map:
  assumes "foldE check_map_entry () es = Inr ()"
  shows "[] \<notin> fst ` set es"
proof
  assume "[] \<in> fst ` set es"
  then obtain v where "([], v) \<in> set es" by auto
  from foldE_unit [OF assms this] show False by (simp add: check_map_entry_def)
qed

text \<open>A kind's branch, checked, applies.\<close>

lemma checked_kind_applies:
  assumes kind: "stepKind step = Inr kind" and c: "check_kind env cs False aa step kind = Inr ()"
  shows "\<exists>out. applyStep env cs step t = Inr out"
proof -
  consider "kind = js ''case''" | "kind = js ''normalize''" | "kind = js ''strip''" | "kind = js ''map''"
    | "kind = js ''pattern''" | "kind = js ''alternatives''" | "kind = js ''builtin''"
    using stepKind_kind [OF kind] by (auto simp: STEP_KINDS_def)
  then show ?thesis
  proof cases
    case 1
    then have "is_string_in CASES (obj_get step (js ''case''))"
      using c by (simp add: check_kind_def Let_def split: if_splits)
    then show ?thesis using kind 1 read_mode_total by (fastforce simp: applyStep_def read_step_def Let_def)
  next
    case 2
    then have f: "is_string_in FORMS (obj_get step (js ''normalize''))"
      and w: "obj_get step (js ''within'') \<noteq> JUndef \<Longrightarrow>
        \<exists>s. class_source (env_cat env) cs (obj_get step (js ''within'')) = Inr s"
      using c class_check_source by (auto simp: check_kind_def Let_def split: if_splits)
    show ?thesis
      using kind 2 read_form_total [OF f] w
      by (cases "obj_get step (js ''within'') = JUndef")
        (auto simp: applyStep_def read_step_def Let_def applyNormalize_def class_matcher_def)
  next
    case 3
    then have "\<exists>s. class_source (env_cat env) cs (obj_get step (js ''strip'')) = Inr s"
      using c class_check_source by (simp add: check_kind_def Let_def)
    then show ?thesis
      using kind 3 by (auto simp: applyStep_def read_step_def Let_def applyStrip_def class_matcher_def)
  next
    case 4
    obtain es where es: "obj_get step (js ''map'') = JObj es"
      using c 4 by (auto simp: check_kind_def Let_def split: json.splits)
    then have "foldE check_map_entry () es = Inr ()"
      using c 4 by (auto simp: check_kind_def Let_def)
    then have "[] \<notin> fst ` set (map (\<lambda>(k, v). (k, string_of v)) es)"
      using checked_map by (force simp: image_image case_prod_beta)
    from checked_map_applies [OF this] es show ?thesis
      using kind 4 by (fastforce simp: applyStep_def read_step_def Let_def)
  next
    case 5
    then have "\<exists>s. patternSource (env_cat env) (env_accepts env) cs (obj_get step (js ''pattern''))
        (obj_get step (js ''global'') = JBool True) = Inr s"
      using c by (auto simp: check_kind_def Let_def simp del: foldE.simps)
    then show ?thesis
      using kind 5 by (auto simp: applyStep_def read_step_def Let_def applyPattern_def patternRegExp_def)
  next
    case 6
    obtain es where es: "obj_get step (js ''alternatives'') = JObj es"
      using c 6 by (auto simp: check_kind_def Let_def split: json.splits if_splits)
    then have "foldE check_alternatives_entry () es = Inr ()"
      using c 6 by (auto simp: check_kind_def Let_def split: if_splits)
    then have ne: "[] \<notin> set (map fst (map (\<lambda>(k, v). (k, strings_of v)) es))"
      using checked_alternatives by (force simp: image_image case_prod_beta)
    obtain segs where "leftmost_longest (map fst (map (\<lambda>(k, v). (k, strings_of v)) es)) (env_normalize env NFC t) segs"
      using keys.segments_exist [OF ne] by blast
    from applyAlternatives_segments [OF this] es show ?thesis
      using kind 6 by (simp add: applyStep_def read_step_def Let_def)
  next
    case 7
    then show ?thesis using c by (simp add: check_kind_def Let_def)
  qed
qed

lemma checked_step_applies:
  assumes "checkStep env cs False aa step = Inr ()"
  shows "\<exists>out. applyStep env cs step t = Inr out"
  using assms checked_kind_applies by (auto simp: checkStep_def)

lemma checked_variant_applies:
  assumes "\<forall>step\<in>set steps. checkStep env cs False aa step = Inr ()"
  shows "\<exists>outs. foldE (\<lambda>texts step. apply_to_all env cs step texts) texts steps = Inr outs"
  using assms
proof (induction steps arbitrary: texts)
  case Nil
  then show ?case by simp
next
  case (Cons step steps)
  have "\<exists>g. \<forall>t. applyStep env cs step t = Inr (g t)"
    using checked_step_applies Cons.prems by (intro choice) auto
  then obtain g where "\<And>t. applyStep env cs step t = Inr (g t)" by blast
  then have "mapE (applyStep env cs step) texts = Inr (map g texts)" by (intro mapE_total)
  then show ?case using Cons by (simp add: apply_to_all_def)
qed

definition processor_checked :: "js_env \<Rightarrow> class_set \<Rightarrow> json \<Rightarrow> bool" where
  "processor_checked env cs p \<longleftrightarrow> (\<forall>steps\<in>set (list_of (obj_get p (js ''variants''))).
     \<forall>step\<in>set (list_of steps). checkStep env cs False True step = Inr ())"

lemma processText_total:
  assumes "\<forall>p\<in>set ps. processor_checked env cs p"
  shows "\<exists>vs. processText env cs ps enabled limit t = Inr vs"
proof -
  have "\<exists>nxt. process_step env cs enabled limit vs p = Inr nxt" if p: "p \<in> set ps" for vs p
  proof -
    let ?vs = "map list_of (list_of (obj_get p (js ''variants'')))"
    have "\<exists>g. \<forall>steps v. steps \<in> set ?vs \<longrightarrow> applyVariant env cs steps v = Inr (g steps v)"
    proof -
      have "\<forall>sv. \<exists>outs. fst sv \<in> set ?vs \<longrightarrow> applyVariant env cs (fst sv) (snd sv) = Inr outs"
        using assms p checked_variant_applies unfolding applyVariant_def processor_checked_def by fastforce
      then obtain g where "\<forall>sv. fst sv \<in> set ?vs \<longrightarrow> applyVariant env cs (fst sv) (snd sv) = Inr (g sv)"
        by (drule_tac choice) blast
      then show ?thesis by (intro exI [of _ "\<lambda>s v. g (s, v)"]) simp
    qed
    then obtain g where g: "\<And>steps v. steps \<in> set ?vs \<Longrightarrow> applyVariant env cs steps v = Inr (g steps v)" by blast
    have "\<exists>as. variant_adds env cs keep ?vs vn = Inr as" for keep vn
    proof (cases vn)
      case (Pair v n)
      have "mapE (\<lambda>steps2. applyVariant env cs steps2 v) ?vs = Inr (map (\<lambda>s. g s v) ?vs)"
        by (rule mapE_total) (rule g)
      then show ?thesis by (simp add: variant_adds_def Pair)
    qed
    then obtain h where "\<And>vn. variant_adds env cs (obj_get p (js ''keepInput'') \<noteq> JBool False) ?vs vn = Inr (h vn)"
      by metis
    then have "mapE (variant_adds env cs (obj_get p (js ''keepInput'') \<noteq> JBool False) ?vs) vs = Inr (map h vs)"
      by (intro mapE_total)
    then show ?thesis by (simp add: process_step_def)
  qed
  then have "\<exists>vs. foldE (process_step env cs enabled limit) vs0 ps = Inr vs" for vs0
  proof (induction ps arbitrary: vs0)
    case (Cons p ps)
    obtain vs1 where "process_step env cs enabled limit vs0 p = Inr vs1" using Cons.prems by auto
    then show ?case using Cons by auto
  qed simp
  then show ?thesis by (simp add: processText_def)
qed

lemma pattern_loop_power:
  "\<exists>k\<le>n. pattern_loop n f t = (f ^^ k) t \<and> (f (pattern_loop n f t) = pattern_loop n f t \<or> k = n) \<and>
    (\<forall>j<k. (f ^^ Suc j) t \<noteq> (f ^^ j) t)"
proof (induction n arbitrary: t)
  case 0
  then show ?case by simp
next
  case (Suc n)
  show ?case
  proof (cases "f t = t")
    case True
    then show ?thesis by (intro exI [of _ 0]) (simp add: Let_def)
  next
    case False
    obtain k where k: "k \<le> n" "pattern_loop n f (f t) = (f ^^ k) (f t)"
      "f (pattern_loop n f (f t)) = pattern_loop n f (f t) \<or> k = n"
      "\<forall>j<k. (f ^^ Suc j) (f t) \<noteq> (f ^^ j) (f t)"
      using Suc.IH [of "f t"] by blast
    have "(f ^^ Suc j) t \<noteq> (f ^^ j) t" if "j < Suc k" for j
    proof (cases j)
      case 0
      then show ?thesis using False by simp
    next
      case (Suc i)
      then show ?thesis using k(4) that by (simp add: funpow_swap1)
    qed
    then show ?thesis
      using False k by (intro exI [of _ "Suc k"]) (simp add: Let_def funpow_swap1)
  qed
qed

section \<open>An environment and processors\<close>

definition ex_env :: js_env where
  "ex_env = \<lparr>env_cat = (\<lambda>cp. js ''Lu''), env_accepts = (\<lambda>s. True), env_lower = ascii_lower, env_upper = (\<lambda>s. s),
     env_normalize = (\<lambda>f s. s), env_replace = (\<lambda>source g s r. if s = js ''aa'' then js ''a'' else s)\<rparr>"

definition ex_set :: class_set where
  "ex_set = \<lparr>cs_definitions = ex_definitions, cs_expansions = ex_expansions\<rparr>"

definition ex_processors :: "json list" where
  "ex_processors = [JObj [(js ''id'', JStr (js ''lower'')),
     (js ''variants'', JArr [JArr [JObj [(js ''case'', JStr (js ''lower''))]]])]]"

lemma ex_processText: "processText ex_env ex_set ex_processors [] 4096 (js ''Ab'') = Inr [(js ''Ab'', 0), (js ''ab'', 1)]"
  by code_simp

section \<open>Properties\<close>

text \<open>C22: An \<open>alternatives\<close> step whose keys are not empty gives the first \<open>limit\<close> combinations of its
  normalized text cut into leftmost-longest keys and single code points, where a key may stay or be
  replaced by any of its alternatives, the first match varying slowest.\<close>

theorem applyAlternatives_combinations:
  assumes "[] \<notin> fst ` set alts"
  shows "\<exists>segs. leftmost_longest (map fst alts) (env_normalize env NFC t) segs \<and>
    applyAlternatives env alts limit t = Inr (take (case limit of None \<Rightarrow> 4096 | Some n \<Rightarrow> n)
      (combinations (map (seg_choices (alt_values alts)) segs)))"
proof -
  obtain segs where "leftmost_longest (map fst alts) (env_normalize env NFC t) segs"
    using keys.segments_exist [of "map fst alts" "env_normalize env NFC t"] assms by auto
  then show ?thesis
    using applyAlternatives_segments [of alts env t segs limit] unfolding MAX_VARIANTS_def by blast
qed

theorem applyAlternatives_combinations_witness:
  "\<exists>segs. leftmost_longest [js ''a''] (js ''xa'') segs \<and>
    applyAlternatives ex_env [(js ''a'', [js ''b'', js ''c''])] (Some 2) (js ''xa'') = Inr (take 2
      (combinations (map (seg_choices (alt_values [(js ''a'', [js ''b'', js ''c''])])) segs)))"
  using applyAlternatives_combinations [of "[(js ''a'', [js ''b'', js ''c''])]" ex_env "js ''xa''" "Some 2"]
  by (simp add: ex_env_def)



text \<open>\<open>compareCodePoints\<close> orders strings by the lexicographic order of their code points, and is
  zero only on equal strings.\<close>

theorem compareCodePoints_order:
  assumes "wf_js a" and "wf_js b"
  shows "(compareCodePoints a b < 0 \<longleftrightarrow> js_less (cp_values a) (cp_values b)) \<and>
    (compareCodePoints a b = 0 \<longleftrightarrow> a = b)"
  using compare_numbers [of a b] cp_numbers_values assms cp_values_inj by metis

theorem compareCodePoints_order_witness:
  "compareCodePoints [65313] [55296, 56320] < 0 \<longleftrightarrow> js_less (cp_values [65313]) (cp_values [55296, 56320])"
  using compareCodePoints_order [of "[65313]" "[55296, 56320]"] by (simp add: wf_js_def)

text \<open>C28: The variants \<open>processText\<close> returns are distinct texts in code point order, no more than the
  limit (and the text itself when no processor runs), each with no more steps than there are
  processors.\<close>

theorem processText_variants:
  assumes "processText env cs processors enabled limit t = Inr vs"
  shows "distinct (map fst vs) \<and> sorted_wrt (\<lambda>a b. compareCodePoints (fst a) (fst b) \<le> 0) vs \<and>
    length vs \<le> max 1 limit \<and> (\<forall>(u, n)\<in>set vs. n \<le> length processors)"
  using processText_ok [OF assms] by (auto simp: variants_ok_def cp_le_def)

theorem processText_variants_witness:
  "compareCodePoints (js ''Ab'') (js ''ab'') \<le> 0"
  using processText_variants [OF ex_processText] by simp



text \<open>C29: One processor that runs keeps the first \<open>limit\<close> distinct texts among the outputs for the
  variants before it, and each with the least number of steps that gives it.\<close>

theorem process_step_least:
  assumes "process_step env cs enabled limit variants p = Inr nxt"
    and "\<not> (obj_get p (js ''optional'') = JBool True \<and> \<not> is_string_in enabled (obj_get p (js ''id'')))"
  shows "\<exists>adds. mapE (variant_adds env cs (obj_get p (js ''keepInput'') \<noteq> JBool False)
        (map list_of (list_of (obj_get p (js ''variants''))))) variants = Inr adds \<and>
    fst ` set nxt = set (take limit (ls_of (map fst (concat adds)))) \<and>
    (\<forall>(t, n)\<in>set nxt. n = Min {k. (t, k) \<in> set (concat adds)})"
proof -
  obtain adds where a: "mapE (variant_adds env cs (obj_get p (js ''keepInput'') \<noteq> JBool False)
        (map list_of (list_of (obj_get p (js ''variants''))))) variants = Inr adds"
    and n: "nxt = sort_variants (fold (add_variant limit) (concat adds) [])"
    using assms by (auto simp: process_step_def)
  have "fst ` set nxt = set (take limit (ls_of (map fst (concat adds))))"
    using fold_variants(3) [of limit "concat adds"] by (simp only: n set_sort_variants)
  moreover have "\<forall>(t, k)\<in>set nxt. k = Min {k. (t, k) \<in> set (concat adds)}"
    using fold_variants(4) [of _ _ limit "concat adds"] unfolding n min_steps_def by auto
  ultimately show ?thesis using a by blast
qed

theorem process_step_least_witness:
  "\<exists>adds. mapE (variant_adds ex_env ex_set True [[JObj [(js ''case'', JStr (js ''lower''))]]]) [(js ''Ab'', 0)] = Inr adds \<and>
    fst ` set [(js ''Ab'', 0 :: nat), (js ''ab'', 1)] = set (take 4096 (ls_of (map fst (concat adds))))"
proof -
  have "process_step ex_env ex_set [] 4096 [(js ''Ab'', 0)] (hd ex_processors) = Inr [(js ''Ab'', 0), (js ''ab'', 1)]"
    by code_simp
  from process_step_least [OF this] show ?thesis
    by (auto simp: ex_processors_def obj_get_def)
qed

text \<open>A repeated \<open>pattern\<close> step stops at the first fixed point of its replacement or after 16
  rounds, a step that is not repeated after one.\<close>

theorem applyPattern_rounds:
  assumes "patternRegExp (env_cat env) (env_accepts env) cs pattern global = Inr (source, flags)"
  shows "\<exists>k r. applyPattern env cs pattern replacement global rpt t = Inr r \<and>
    k \<le> (if rpt then 16 else 1) \<and> r = ((\<lambda>c. env_replace env source global c replacement) ^^ k) t \<and>
    (env_replace env source global r replacement = r \<or> k = (if rpt then 16 else 1))"
proof -
  let ?n = "if rpt then MAX_PATTERN_REPEATS else 1"
  let ?f = "\<lambda>c. env_replace env source global c replacement"
  obtain k where "k \<le> ?n" "pattern_loop ?n ?f t = (?f ^^ k) t"
    "?f (pattern_loop ?n ?f t) = pattern_loop ?n ?f t \<or> k = ?n"
    using pattern_loop_power [of ?n ?f t] by blast
  then show ?thesis
    using assms by (intro exI [of _ k] exI [of _ "pattern_loop ?n ?f t"]; cases rpt)
      (simp_all add: applyPattern_def MAX_PATTERN_REPEATS_def)
qed

theorem applyPattern_rounds_witness:
  "\<exists>k r. applyPattern ex_env ex_set (JStr (js ''aa'')) (js ''a'') False True (js ''aa'') = Inr r \<and>
    k \<le> 16 \<and> r = ((\<lambda>c. env_replace ex_env (js ''aa'') False c (js ''a'')) ^^ k) (js ''aa'') \<and>
    (env_replace ex_env (js ''aa'') False r (js ''a'') = r \<or> k = 16)"
proof -
  have "patternRegExp (env_cat ex_env) (env_accepts ex_env) ex_set (JStr (js ''aa'')) False = Inr (js ''aa'', [])"
    by code_simp
  from applyPattern_rounds [OF this, of "js ''a''" True "js ''aa''"] show ?thesis by simp
qed

text \<open>A \<open>strip\<close> step removes exactly the code points its class denotes.\<close>

theorem applyStrip_denotes:
  assumes "new_class_set (env_cat env) v = Inr cs" and "json_ok v" and "wf_js src" and "parseClass (JStr src) = Inr ast"
    and "applyStrip env cs (JStr src) t = Inr r" and "wf_js t"
  shows "\<exists>keep. r = concat (filter keep (cps t)) \<and>
    (\<forall>c\<in>set (cps t). keep c = denotes_ast (env_cat env) (cs_definitions cs) ast (cp_of c) False)"
proof -
  have ok: "class_set_ok (env_cat env) cs" using new_class_set_ok [OF assms(1)] assms(2) by blast
  have ast: "parse_class_text src = Inr ast" using assms(4) by (simp add: parseClass_def)
  obtain s where s: "class_source (env_cat env) cs (JStr src) = Inr s"
    and r: "r = concat (filter (\<lambda>c. \<not> rx_test (env_cat env) s (cp_of c)) (cps t))"
    using assms(5) by (auto simp: applyStrip_def class_matcher_def)
  have cp: "0 \<le> cp_of c \<and> cp_of c \<le> MAX_CODE_POINT" if "c \<in> set (cps t)" for c
    using that assms(6)
    by (induction t rule: cps.induct)
      (auto simp: cp_of_def MAX_CODE_POINT_def is_high_def is_low_def pair_cp_def split: if_splits)
  have "\<not> rx_test (env_cat env) s (cp_of c) \<longleftrightarrow> denotes_ast (env_cat env) (cs_definitions cs) ast (cp_of c) False"
    if "c \<in> set (cps t)" for c
    using class_source_sound(2) [OF ok assms(3) ast s, of "cp_of c"] cp [OF that] denotes_ast_fun by metis
  then show ?thesis using r by blast
qed

theorem applyStrip_denotes_witness:
  "\<exists>keep. js ''x'' = concat (filter keep (cps (js ''axe''))) \<and>
    (\<forall>c\<in>set (cps (js ''axe'')). keep c = denotes_ast (\<lambda>cp. js ''Lu'') ex_definitions (ARef (js ''v'')) (cp_of c) False)"
proof -
  have n: "new_class_set (env_cat ex_env) ex_json = Inr ex_set"
    using ex_class_set by (simp add: ex_env_def ex_set_def)
  have p: "parseClass (JStr (js ''{v}'')) = Inr (ARef (js ''v''))" by (simp add: class_eval)
  have s: "applyStrip ex_env ex_set (JStr (js ''{v}'')) (js ''axe'') = Inr (js ''x'')" by code_simp
  from applyStrip_denotes [OF n ex_json_ok _ p s] show ?thesis
    by (simp add: ex_env_def ex_set_def wf_js_def)
qed

end
