(* ===== verification/Pack.thy ===== *)
theory Pack
  imports Steps_Correct
begin

text \<open>
  Reading language packs (tools/lib/pack.mjs): the TSV files of a pack's tests, their options line,
  the sample texts of a descriptor, the corpus strings of a pack, \<open>listPacks\<close> and \<open>loadPack\<close>.

  The file system is the parameter \<open>fs\<close>, the text of the file at a path if there is one. A path is
  a string; \<open>path_join\<close> puts a slash between two parts.
\<close>

datatype pack_error =
    PackBom jstr
  | CrLf jstr nat
  | BadColumns jstr nat nat nat
  | BadValid jstr nat
  | BadOptionsLine jstr nat
  | NoSuchFile jstr
  | NoPack jstr jstr
  | CodeMismatch jstr json jstr
  | BadPackJson jstr json_error
  | BadClasses jstr class_error

type_synonym files = "jstr \<Rightarrow> jstr option"

definition path_join :: "jstr \<Rightarrow> jstr \<Rightarrow> jstr" where
  "path_join dir name = dir @ [47] @ name"

definition DEINFLECTION_TSVS :: "jstr list" where
  "DEINFLECTION_TSVS = map js [''yomitan.tsv'', ''corpus.tsv'', ''cases.tsv'', ''defaults.tsv'', ''gaps.tsv'']"

definition readFile :: "files \<Rightarrow> jstr \<Rightarrow> pack_error + jstr" where
  "readFile fs file = (case fs file of None \<Rightarrow> Inl (NoSuchFile file) | Some text \<Rightarrow> Inr text)"

definition readJson :: "files \<Rightarrow> jstr \<Rightarrow> pack_error + json" where
  "readJson fs file = bindE (readFile fs file) (\<lambda>text. case parseJson text of
       Inl e \<Rightarrow> Inl (BadPackJson file e)
     | Inr v \<Rightarrow> Inr v)"

section \<open>listPacks and loadPack\<close>

text \<open>An entry of the languages directory: its name, whether it is a directory, whether it holds a
  language.json.\<close>

record dir_entry =
  de_name :: jstr
  de_is_directory :: bool
  de_has_language :: bool

definition listPacks :: "dir_entry list \<Rightarrow> jstr list" where
  "listPacks entries = js_sort (map de_name
     (filter (\<lambda>e. \<not> starts_with (de_name e) [95] \<and> de_is_directory e \<and> de_has_language e) entries))"

record pack =
  pk_code :: jstr
  pk_dir :: jstr
  pk_language :: json
  pk_transforms :: json
  pk_transforms_path :: "jstr option"
  pk_classes :: class_set

definition named_transforms :: "jstr \<Rightarrow> jstr option \<Rightarrow> json \<Rightarrow> jstr option" where
  "named_transforms dir transformsFile language = (case transformsFile of
       Some f \<Rightarrow> Some f
     | None \<Rightarrow> (case obj_get (obj_get language (js ''lookup'')) (js ''transforms'') of
           JStr t \<Rightarrow> Some (path_join dir t)
         | _ \<Rightarrow> None))"

definition readTransforms :: "files \<Rightarrow> jstr option \<Rightarrow> pack_error + json" where
  "readTransforms fs named = (case named of None \<Rightarrow> Inr JNull | Some p \<Rightarrow> readJson fs p)"

definition pack_classes :: "(int \<Rightarrow> jstr) \<Rightarrow> jstr \<Rightarrow> json \<Rightarrow> pack_error + class_set" where
  "pack_classes cat languageFile language = (case new_class_set cat (obj_get language (js ''classes'')) of
       Inl e \<Rightarrow> Inl (BadClasses languageFile e)
     | Inr classes \<Rightarrow> Inr classes)"

definition loadPack ::
    "(int \<Rightarrow> jstr) \<Rightarrow> files \<Rightarrow> jstr \<Rightarrow> jstr option \<Rightarrow> jstr \<Rightarrow> pack_error + pack" where
  "loadPack cat fs languagesDir transformsFile code =
     (let dir = path_join languagesDir code; languageFile = path_join dir (js ''language.json'')
      in if fs languageFile = None then Inl (NoPack code languageFile)
         else
           bindE (readJson fs languageFile) (\<lambda>language.
           if obj_get language (js ''code'') \<noteq> JStr code
           then Inl (CodeMismatch languageFile (obj_get language (js ''code'')) code)
           else
             let named = named_transforms dir transformsFile language
             in bindE (readTransforms fs named) (\<lambda>transforms.
                bindE (pack_classes cat languageFile language) (\<lambda>classes.
                  Inr \<lparr>pk_code = code, pk_dir = dir, pk_language = language,
                    pk_transforms = transforms, pk_transforms_path = named, pk_classes = classes\<rparr>))))"

section \<open>TSV files\<close>

record tsv_row =
  tr_line :: nat
  tr_cells :: "jstr list"

definition tsv_lines :: "jstr \<Rightarrow> jstr list" where
  "tsv_lines text = (let lines = split_on 10 text in if last lines = [] then butlast lines else lines)"

text \<open>One line, with the comments and rows so far.\<close>

definition tsv_line ::
    "jstr \<Rightarrow> nat \<Rightarrow> jstr list \<times> tsv_row list \<Rightarrow> nat \<times> jstr \<Rightarrow> pack_error + jstr list \<times> tsv_row list" where
  "tsv_line file columns acc = (\<lambda>(index, line). case acc of (comments, rows) \<Rightarrow>
     if ends_with line [13] then Inl (CrLf file (index + 1))
     else if starts_with line [35] then Inr (comments @ [line], rows)
     else if line = [] then Inr (comments, rows)
     else
       let cells = split_on 9 line
       in if length cells \<noteq> columns then Inl (BadColumns file (index + 1) (length cells) columns)
          else Inr (comments, rows @ [\<lparr>tr_line = index + 1, tr_cells = cells\<rparr>]))"

definition readTsv :: "jstr \<Rightarrow> nat \<Rightarrow> jstr \<Rightarrow> pack_error + jstr list \<times> tsv_row list" where
  "readTsv file columns text =
     (if unit_at text 0 = Some 65279 then Inl (PackBom file)
      else foldE (tsv_line file columns) ([], []) (enum (tsv_lines text)))"

record deinflection_row =
  dr_line :: nat
  dr_category :: jstr
  dr_valid :: bool
  dr_source :: jstr
  dr_term :: jstr
  dr_rule :: "jstr option"
  dr_reasons :: "jstr list option"

definition read_deinflection_row :: "jstr \<Rightarrow> tsv_row \<Rightarrow> pack_error + deinflection_row" where
  "read_deinflection_row file row = (case tr_cells row of
       [category, valid, source, term, rule, reasons] \<Rightarrow>
         (if valid \<noteq> js ''0'' \<and> valid \<noteq> js ''1'' then Inl (BadValid file (tr_line row))
          else Inr \<lparr>dr_line = tr_line row, dr_category = category, dr_valid = (valid = js ''1''), dr_source = source,
            dr_term = term, dr_rule = (if rule = js ''*'' then None else Some rule),
            dr_reasons = (if reasons = js ''*'' then None
              else if reasons = [] then Some [] else Some (split_on 124 reasons))\<rparr>)
     | _ \<Rightarrow> Inl (BadColumns file (tr_line row) (length (tr_cells row)) 6))"

definition readDeinflectionTsv :: "jstr \<Rightarrow> jstr \<Rightarrow> pack_error + jstr list \<times> deinflection_row list" where
  "readDeinflectionTsv file text = bindE (readTsv file 6 text) (\<lambda>(comments, rows).
     bindE (mapE (read_deinflection_row file) rows) (\<lambda>rs. Inr (comments, rs)))"

record text_row =
  xr_line :: nat
  xr_category :: jstr
  xr_valid :: bool
  xr_input :: jstr
  xr_variant :: jstr

definition cell :: "tsv_row \<Rightarrow> nat \<Rightarrow> jstr" where
  "cell row i = tr_cells row ! i"

definition readTextTsv :: "jstr \<Rightarrow> jstr \<Rightarrow> pack_error + text_row list" where
  "readTextTsv file text = bindE (readTsv file 4 text) (\<lambda>(comments, rows).
     Inr (map (\<lambda>row. \<lparr>xr_line = tr_line row, xr_category = cell row 0, xr_valid = (cell row 1 = js ''1''),
       xr_input = cell row 2, xr_variant = cell row 3\<rparr>) rows))"

record lookup_row =
  lr_line :: nat
  lr_category :: jstr
  lr_valid :: bool
  lr_text :: jstr
  lr_expression :: jstr
  lr_matched :: jstr

definition readLookupTsv :: "jstr \<Rightarrow> jstr \<Rightarrow> pack_error + lookup_row list" where
  "readLookupTsv file text = bindE (readTsv file 5 text) (\<lambda>(comments, rows).
     Inr (map (\<lambda>row. \<lparr>lr_line = tr_line row, lr_category = cell row 0, lr_valid = (cell row 1 = js ''1''),
       lr_text = cell row 2, lr_expression = cell row 3, lr_matched = cell row 4\<rparr>) rows))"

section \<open>The options line\<close>

definition DEFAULT_OPTIONS_LINE :: jstr where
  "DEFAULT_OPTIONS_LINE = js ''# options: default''"

definition is_letter :: "int \<Rightarrow> bool" where
  "is_letter u \<longleftrightarrow> (65 \<le> u \<and> u \<le> 90) \<or> (97 \<le> u \<and> u \<le> 122)"

definition no_letter_next :: "jstr \<Rightarrow> bool" where
  "no_letter_next s \<longleftrightarrow> (case unit_at s 0 of None \<Rightarrow> True | Some u \<Rightarrow> \<not> is_letter u)"

text \<open>\<open>/^#[ \t]*options?(?![A-Za-z])/i\<close>\<close>

definition is_options_line :: "jstr \<Rightarrow> bool" where
  "is_options_line line =
     (let s = dropWhile (\<lambda>u. u = 32 \<or> u = 9) (drop 1 line); r = drop 6 s
      in starts_with line [35] \<and> starts_with (ascii_lower s) (js ''option'') \<and>
        (if unit_at r 0 = Some 115 \<or> unit_at r 0 = Some 83 then no_letter_next (drop 1 r) else no_letter_next r))"

datatype options = AllOptions | DefaultOptions

definition testFileOptions :: "jstr \<Rightarrow> jstr \<Rightarrow> pack_error + options" where
  "testFileOptions file text =
     (let lines = split_on 10 text
      in bindE (foldE (\<lambda>u (index, line).
             if index = 0 \<and> line = DEFAULT_OPTIONS_LINE then Inr ()
             else if is_options_line line then Inl (BadOptionsLine file (index + 1)) else Inr ()) () (enum lines))
           (\<lambda>_. Inr (if hd lines = DEFAULT_OPTIONS_LINE then DefaultOptions else AllOptions)))"

section \<open>Corpus strings\<close>

fun object_values :: "json \<Rightarrow> json list" where
  "object_values (JObj es) = map snd es"
| "object_values (JArr vs) = vs"
| "object_values _ = []"

definition sampleTexts :: "json \<Rightarrow> jstr list" where
  "sampleTexts language =
     (let sample = obj_get (obj_get language (js ''host'')) (js ''sample'');
          practice = obj_get sample (js ''practice'');
          entry = obj_get sample (js ''entry'');
          texts = [obj_get sample (js ''warmup''), obj_get practice (js ''text''), obj_get practice (js ''lookup''),
            obj_get entry (js ''expression''), obj_get entry (js ''reading''), obj_get entry (js ''matched'')]
            @ filter is_string (object_values (obj_get sample (js ''character'')))
      in map string_of (filter (\<lambda>t. is_string t \<and> t \<noteq> JStr []) texts))"

text \<open>\<open>add\<close> of \<open>corpusStrings\<close>: \<open>seen\<close> and \<open>out\<close> hold the same texts.\<close>

definition add_text :: "jstr \<Rightarrow> jstr list \<Rightarrow> jstr list" where
  "add_text t out = (if t \<noteq> [] \<and> t \<notin> set out then out @ [t] else out)"

definition tsv_sources :: "files \<Rightarrow> jstr \<Rightarrow> jstr \<Rightarrow> pack_error + jstr list" where
  "tsv_sources fs dir name =
     (let file = path_join (path_join dir (js ''tests'')) name
      in case fs file of
           None \<Rightarrow> Inr []
         | Some text \<Rightarrow> bindE (readDeinflectionTsv file text) (\<lambda>(comments, rows). Inr (map dr_source rows)))"

definition corpusStrings :: "files \<Rightarrow> jstr \<Rightarrow> json \<Rightarrow> pack_error + jstr list" where
  "corpusStrings fs dir language =
     bindE (mapE (tsv_sources fs dir) DEINFLECTION_TSVS) (\<lambda>sources.
     let textFile = path_join (path_join dir (js ''tests'')) (js ''text.tsv'');
         lookupFile = path_join (path_join dir (js ''tests'')) (js ''lookup.tsv'')
     in bindE (case fs textFile of None \<Rightarrow> Inr []
         | Some text \<Rightarrow> bindE (readTextTsv textFile text) (\<lambda>rows. Inr (map xr_input rows))) (\<lambda>inputs.
     bindE (case fs lookupFile of None \<Rightarrow> Inr []
         | Some text \<Rightarrow> bindE (readLookupTsv lookupFile text) (\<lambda>rows. Inr (map lr_text rows))) (\<lambda>texts.
       Inr (fold add_text (concat sources @ inputs @ texts @ sampleTexts language) []))))"

end
