(* ===== verification/Check_Classes.thy ===== *)
theory Check_Classes
  imports Js_Value Pack
begin

text \<open>
  tests/classes.json (tools/check-classes.mjs): the step lists and the class fields of a pack,
  \<open>computeExpectations\<close>, \<open>describeDifference\<close>, \<open>checkClasses\<close> and the command.

  What the tool takes from Node is \<open>js_env\<close> and the record \<open>node\<close>. The file system is passed through:
  \<open>checkClasses\<close> returns the text it writes.
\<close>

record node =
  nd_unicode :: jstr
  nd_version :: jstr

datatype check_error =
    CheckClass class_error
  | NeedsId jstr
  | IdTwice jstr jstr
  | CheckPack pack_error
  | CheckType

definition GENERATOR :: jstr where
  "GENERATOR = js ''tools/check-classes.mjs''"

definition RULE_CLASS_KEYS :: "jstr list" where
  "RULE_CLASS_KEYS = map js [''stemCharacters'', ''stemContains'', ''stemStartsWith'', ''stemEndsWith'',
     ''stemNotStartsWith'', ''stemNotEndsWith'']"

text \<open>\<open>key(name)\<close>: its regular expression is the one of a class name.\<close>

definition path_key :: "jstr \<Rightarrow> jstr" where
  "path_key name = (if CLASS_NAME name then [46] @ name else [91] @ quote_js name @ [93])"

definition path_index :: "jstr \<Rightarrow> nat \<Rightarrow> jstr" where
  "path_index path i = path @ [91] @ num_js (int i) @ [93]"

definition located :: "jstr \<Rightarrow> class_error + 'a \<Rightarrow> check_error + 'a" where
  "located path r = (case r of Inl e \<Rightarrow> Inl (CheckClass (located_at path e)) | Inr x \<Rightarrow> Inr x)"

text \<open>\<open>(v ?? []).forEach\<close>\<close>

definition list_items :: "json \<Rightarrow> check_error + json list" where
  "list_items v = array_items CheckType (or_else v (JArr []))"

section \<open>Step lists\<close>

record step_list =
  sl_path :: jstr
  sl_steps :: "json list"

record step_lists =
  sp_name :: json
  sp_path :: jstr
  sp_lists :: "step_list list"
  sp_builtin :: bool
  sp_alternatives :: bool

definition processor_steps :: "jstr \<Rightarrow> nat \<times> json \<Rightarrow> step_lists" where
  "processor_steps field = (\<lambda>(i, processor).
     let path = path_index (js ''lookup.'' @ field) i
     in \<lparr>sp_name = obj_get processor (js ''id''), sp_path = path,
       sp_lists = map (\<lambda>(j, steps). \<lparr>sl_path = path_index (path @ js ''.variants'') j, sl_steps = list_of steps\<rparr>)
         (enum (list_of (obj_get processor (js ''variants'')))),
       sp_builtin = True, sp_alternatives = True\<rparr>)"

definition named_steps :: "jstr \<Rightarrow> json list \<Rightarrow> bool \<Rightarrow> step_lists" where
  "named_steps path steps allowed = \<lparr>sp_name = JStr path, sp_path = path,
     sp_lists = [\<lparr>sl_path = path, sl_steps = steps\<rparr>], sp_builtin = allowed, sp_alternatives = allowed\<rparr>"

text \<open>\<open>if (Array.isArray(v)) { out.push(...) }\<close>\<close>

definition optional_steps :: "jstr \<Rightarrow> json \<Rightarrow> bool \<Rightarrow> step_lists list" where
  "optional_steps path v allowed = (case v of JArr steps \<Rightarrow> [named_steps path steps allowed] | _ \<Rightarrow> [])"

definition rule_path :: "nat \<Rightarrow> nat \<Rightarrow> jstr" where
  "rule_path i j = path_index (path_index (js ''transforms'') i @ js ''.rules'') j"

text \<open>The rules of a transforms file with their paths, in order.\<close>

definition transform_rules_at :: "nat \<times> json \<Rightarrow> check_error + (jstr \<times> json) list" where
  "transform_rules_at = (\<lambda>(i, transform). bindE (list_items (obj_get transform (js ''rules''))) (\<lambda>rules.
     Inr (map (\<lambda>(j, rule). (rule_path i j, rule)) (enum rules))))"

definition all_rules :: "json \<Rightarrow> check_error + (jstr \<times> json) list" where
  "all_rules transforms = bindE (list_items (obj_get transforms (js ''transforms''))) (\<lambda>ts.
     bindE (mapE transform_rules_at (enum ts)) (\<lambda>rules. Inr (concat rules)))"

definition stepLists :: "json \<Rightarrow> json \<Rightarrow> check_error + step_lists list" where
  "stepLists language transforms =
     bindE (get_prop CheckType language (js ''lookup'')) (\<lambda>v.
     let lookup = or_else v (JObj []) in
     bindE (list_items (obj_get lookup (js ''preprocessors''))) (\<lambda>pre.
     bindE (list_items (obj_get lookup (js ''postprocessors''))) (\<lambda>post.
     bindE (all_rules transforms) (\<lambda>rules.
       Inr (map (processor_steps (js ''preprocessors'')) (enum pre)
         @ map (processor_steps (js ''postprocessors'')) (enum post)
         @ optional_steps (js ''lookup.readingNormalizer'') (obj_get lookup (js ''readingNormalizer'')) True
         @ optional_steps (js ''lookup.formOfNormalizer'') (obj_get lookup (js ''formOfNormalizer'')) False
         @ map (\<lambda>(name, steps). named_steps (js ''presentation.displayTransforms'' @ path_key name) (list_of steps) False)
             (object_entries (obj_get (obj_get language (js ''presentation'')) (js ''displayTransforms'')))
         @ concat (map (\<lambda>(path, rule). optional_steps (path @ js ''.then'') (obj_get rule (js ''then'')) False) rules))))))"

section \<open>Class fields\<close>

text \<open>\<open>if (typeof v === 'string') { out.push([path, v]); }\<close>\<close>

definition string_field :: "jstr \<Rightarrow> json \<Rightarrow> (jstr \<times> jstr) list" where
  "string_field path v = (case v of JStr s \<Rightarrow> [(path, s)] | _ \<Rightarrow> [])"

definition step_fields :: "jstr \<Rightarrow> nat \<times> json \<Rightarrow> (jstr \<times> jstr) list" where
  "step_fields path = (\<lambda>(k, step).
     string_field (path_index path k @ js ''.strip'') (obj_get step (js ''strip''))
     @ (if is_string (obj_get step (js ''normalize''))
        then string_field (path_index path k @ js ''.within'') (obj_get step (js ''within'')) else []))"

definition list_fields :: "step_list \<Rightarrow> (jstr \<times> jstr) list" where
  "list_fields l = concat (map (step_fields (sl_path l)) (enum (sl_steps l)))"

definition rule_fields :: "jstr \<times> json \<Rightarrow> (jstr \<times> jstr) list" where
  "rule_fields = (\<lambda>(path, rule).
     concat (map (\<lambda>field. string_field (path @ [46] @ field) (obj_get rule field)) RULE_CLASS_KEYS)
     @ string_field (path @ js ''.stemChange.between'') (obj_get (obj_get rule (js ''stemChange'')) (js ''between''))
     @ concat (map (step_fields (path @ js ''.then'')) (enum (list_of (obj_get rule (js ''then''))))))"

definition text_fields :: "json \<Rightarrow> (jstr \<times> jstr) list" where
  "text_fields language =
     concat (map (\<lambda>field. string_field (js ''text.'' @ field) (obj_get (obj_get language (js ''text'')) field))
       (map js [''pattern'', ''wordCharacters'', ''wordInternal'']))
     @ string_field (js ''capabilities.characterView.pattern'')
         (obj_get (obj_get (obj_get language (js ''capabilities'')) (js ''characterView'')) (js ''pattern''))"

definition classFields :: "json \<Rightarrow> json \<Rightarrow> check_error + (jstr \<times> jstr) list" where
  "classFields language transforms =
     bindE (stepLists language JNull) (\<lambda>lists.
     bindE (all_rules transforms) (\<lambda>rules.
       Inr (text_fields language @ concat (map list_fields (concat (map sp_lists lists)))
         @ concat (map rule_fields rules))))"

section \<open>Pattern rules\<close>

definition check_pattern_rule :: "js_env \<Rightarrow> class_set \<Rightarrow> jstr \<times> json \<Rightarrow> check_error + unit" where
  "check_pattern_rule env cs = (\<lambda>(path, rule).
     if obj_get rule (js ''type'') \<noteq> JStr (js ''pattern'') then Inr ()
     else located path
       (bindE (parsePattern (env_accepts env) (obj_get rule (js ''pattern'')) False) (\<lambda>p.
        bindE (patternSource (env_cat env) (env_accepts env) cs (obj_get rule (js ''pattern'')) False) (\<lambda>_.
          checkReplacement (obj_get rule (js ''replacement'')) (pp_groups p)))))"

definition checkPatternRules :: "js_env \<Rightarrow> class_set \<Rightarrow> json \<Rightarrow> check_error + unit" where
  "checkPatternRules env cs transforms = bindE (all_rules transforms) (\<lambda>rules.
     foldE (\<lambda>_ rule. check_pattern_rule env cs rule) () rules)"

section \<open>computeExpectations\<close>

definition ranges_json :: "ranges \<Rightarrow> json" where
  "ranges_json rs = JArr (map (\<lambda>(a, b). JArr [JNum a, JNum b]) rs)"

text \<open>\<open>obj[k] = v\<close> on an object literal with an object \<open>v\<close>: the name \<open>__proto__\<close> sets the prototype and adds
  no property.\<close>

definition assign :: "jstr \<Rightarrow> json \<Rightarrow> (jstr \<times> json) list \<Rightarrow> (jstr \<times> json) list" where
  "assign k v es = (if k = js ''__proto__'' then es else obj_put k v es)"

definition class_result :: "js_env \<Rightarrow> class_set \<Rightarrow> (jstr \<times> json) list \<Rightarrow> jstr \<Rightarrow> check_error + (jstr \<times> json) list" where
  "class_result env cs es name = (case class_ranges (env_cat env) cs (JStr ([123] @ name @ [125])) of
       Inl e \<Rightarrow> Inl (CheckClass e)
     | Inr rs \<Rightarrow> Inr (assign name (ranges_json rs) es))"

definition field_result ::
    "js_env \<Rightarrow> class_set \<Rightarrow> (jstr \<times> json) list \<Rightarrow> jstr \<times> jstr \<Rightarrow> check_error + (jstr \<times> json) list" where
  "field_result env cs es = (\<lambda>(path, source). bindE (located path (class_ranges (env_cat env) cs (JStr source)))
     (\<lambda>rs. Inr (assign path (ranges_json rs) es)))"

definition output_json :: "jstr + jstr list \<Rightarrow> json" where
  "output_json out = (case out of Inl t \<Rightarrow> JStr t | Inr ts \<Rightarrow> JArr (map JStr ts))"

definition step_cases :: "js_env \<Rightarrow> class_set \<Rightarrow> json \<Rightarrow> jstr list \<Rightarrow> class_error + json" where
  "step_cases env cs step inputs = bindE (mapE (\<lambda>input. bindE (applyStep env cs step input)
     (\<lambda>out. Inr (JArr [JStr input, output_json out]))) inputs) (\<lambda>cases. Inr (JArr cases))"

text \<open>One step: the number of steps before it in the processor and the results so far are the state.\<close>

definition check_list_step ::
    "js_env \<Rightarrow> class_set \<Rightarrow> jstr list \<Rightarrow> step_lists \<Rightarrow> jstr \<Rightarrow> nat \<times> json list \<Rightarrow> nat \<times> json \<Rightarrow>
      check_error + nat \<times> json list" where
  "check_list_step env cs inputs sp listPath = (\<lambda>(index, results) (k, step).
     let stepPath = path_index listPath k in
     bindE (located stepPath (bindE (checkStep env cs (sp_builtin sp) (sp_alternatives sp) step)
       (\<lambda>_. stepKind step))) (\<lambda>kind.
     if kind = js ''case'' \<or> kind = js ''pattern'' then
       bindE (located stepPath (step_cases env cs step inputs)) (\<lambda>cases.
         Inr (index + 1, results @ [JObj [(js ''processor'', sp_name sp), (js ''step'', JNum (int index)),
           (js ''cases'', cases)]]))
     else Inr (index + 1, results)))"

definition check_lists ::
    "js_env \<Rightarrow> class_set \<Rightarrow> jstr list \<Rightarrow> step_lists \<Rightarrow> json list \<Rightarrow> check_error + json list" where
  "check_lists env cs inputs sp results =
     bindE (foldE (\<lambda>s l. foldE (check_list_step env cs inputs sp (sl_path l)) s (enum (sl_steps l)))
       (0, results) (sp_lists sp)) (\<lambda>(index, results'). Inr results')"

definition check_id :: "step_lists \<Rightarrow> jstr list \<Rightarrow> check_error + jstr list" where
  "check_id sp ids =
     (if starts_with (sp_path sp) (js ''lookup.p'') then (case sp_name sp of
          JStr name \<Rightarrow> if name = [] then Inl (NeedsId (sp_path sp))
            else if name \<in> set ids then Inl (IdTwice (sp_path sp) name) else Inr (ids @ [name])
        | _ \<Rightarrow> Inl (NeedsId (sp_path sp)))
      else Inr ids)"

definition check_step_lists ::
    "js_env \<Rightarrow> class_set \<Rightarrow> jstr list \<Rightarrow> jstr list \<times> json list \<Rightarrow> step_lists \<Rightarrow> check_error + jstr list \<times> json list" where
  "check_step_lists env cs inputs = (\<lambda>(ids, results) sp.
     bindE (check_id sp ids) (\<lambda>ids'. bindE (check_lists env cs inputs sp results) (\<lambda>results'. Inr (ids', results'))))"

definition lift_pack :: "pack_error + 'a \<Rightarrow> check_error + 'a" where
  "lift_pack r = (case r of Inl e \<Rightarrow> Inl (CheckPack e) | Inr x \<Rightarrow> Inr x)"

definition computeExpectations :: "js_env \<Rightarrow> node \<Rightarrow> files \<Rightarrow> pack \<Rightarrow> check_error + json" where
  "computeExpectations env node fs pk =
     (let language = pk_language pk; transforms = pk_transforms pk; cs = pk_classes pk in
      bindE (foldE (class_result env cs) [] (class_names cs)) (\<lambda>classes.
      bindE (classFields language transforms) (\<lambda>sources.
      bindE (foldE (field_result env cs) [] sources) (\<lambda>fields.
      bindE (checkPatternRules env cs transforms) (\<lambda>_.
      bindE (lift_pack (corpusStrings fs (pk_dir pk) language)) (\<lambda>inputs.
      bindE (stepLists language transforms) (\<lambda>lists.
      bindE (foldE (check_step_lists env cs inputs) ([], []) lists) (\<lambda>(ids, steps).
        Inr (JObj [(js ''generator'', JStr GENERATOR), (js ''unicode'', JStr (nd_unicode node)),
          (js ''classes'', JObj classes), (js ''fields'', JObj fields), (js ''steps'', JArr steps)])))))))))"

definition formatExpectations :: "json \<Rightarrow> jstr" where
  "formatExpectations v = formatJson (\<lambda>path v. False) v"

section \<open>describeDifference\<close>

text \<open>\<open>v?.[name]\<close> where \<open>v\<close> is an object; a function an object inherits has no JSON text.\<close>

definition member :: "json \<Rightarrow> jstr \<Rightarrow> json" where
  "member v name = (case map_of (object_entries v) name of
       Some x \<Rightarrow> x
     | None \<Rightarrow> if name = js ''__proto__'' \<and> \<not> nullish v then JObj [] else JUndef)"

definition scalar_difference :: "json \<Rightarrow> json \<Rightarrow> jstr \<Rightarrow> jstr list" where
  "scalar_difference parsed want field =
     (if obj_get parsed field \<noteq> obj_get want field
      then [field @ js '' is '' @ show_json (obj_get parsed field) @ js '', Node gives '' @ show_json (obj_get want field)]
      else [])"

definition table_differences :: "json \<Rightarrow> json \<Rightarrow> jstr \<Rightarrow> jstr list" where
  "table_differences parsed want field =
     (let a = obj_get parsed field; b = obj_get want field;
          names = ls_of (map fst (object_entries a) @ map fst (object_entries b))
      in map (\<lambda>name. field @ [91] @ quote_js name @ js ''] differs'')
           (filter (\<lambda>name. show_json (member a name) \<noteq> show_json (member b name)) names))"

definition differences :: "json \<Rightarrow> json \<Rightarrow> jstr list" where
  "differences parsed want =
     concat (map (scalar_difference parsed want) (map js [''generator'', ''unicode'']))
     @ concat (map (table_differences parsed want) (map js [''classes'', ''fields'']))
     @ (if show_json (obj_get parsed (js ''steps'')) \<noteq> show_json (obj_get want (js ''steps''))
        then [js ''steps differ''] else [])"

definition describeDifference :: "jstr \<Rightarrow> jstr \<Rightarrow> check_error + jstr" where
  "describeDifference expected actual = (case json_parse actual of
       None \<Rightarrow> Inr (js ''it is not valid JSON'')
     | Some parsed \<Rightarrow> (case json_parse expected of
           None \<Rightarrow> Inl CheckType
         | Some want \<Rightarrow>
             if nullish parsed then Inl CheckType
             else
               let differ = differences parsed want
               in Inr (if differ = [] then js ''only its formatting differs'' else join (js ''; '') (take 10 differ))))"

section \<open>checkClasses and the command\<close>

record check_result =
  cr_ok :: bool
  cr_message :: jstr
  cr_file :: jstr

definition expectations_summary :: "json \<Rightarrow> jstr" where
  "expectations_summary parsed =
     num_js (int (length (object_entries (obj_get parsed (js ''classes''))))) @ js '' classes, ''
     @ num_js (int (length (object_entries (obj_get parsed (js ''fields''))))) @ js '' fields, ''
     @ num_js (int (length (list_of (obj_get parsed (js ''steps''))))) @ js '' steps''"

definition check_file ::
    "node \<Rightarrow> files \<Rightarrow> bool \<Rightarrow> jstr \<Rightarrow> jstr \<Rightarrow> jstr \<Rightarrow> jstr \<Rightarrow> check_error + check_result \<times> files" where
  "check_file node fs write code path text summary =
     (if write then
        Inr (\<lparr>cr_ok = True, cr_message = code @ js '': '' @ (if fs path = Some text then js ''unchanged'' else js ''wrote'')
          @ js '' '' @ path @ js '' ('' @ summary @ js '')'', cr_file = path\<rparr>, fs(path \<mapsto> text))
      else (case fs path of
          None \<Rightarrow> Inr (\<lparr>cr_ok = False, cr_message = code @ js '': '' @ path
            @ js '' is missing; run node tools/check-classes.mjs '' @ code @ js '' --write and commit it'', cr_file = path\<rparr>, fs)
        | Some actual \<Rightarrow>
            if actual \<noteq> text then bindE (describeDifference text actual) (\<lambda>d.
              Inr (\<lparr>cr_ok = False, cr_message = code @ js '': '' @ path @ js '' is not what Node '' @ nd_version node
                @ js '' (Unicode '' @ nd_unicode node @ js '') computes: '' @ d @ js ''; run node tools/check-classes.mjs ''
                @ code @ js '' --write'', cr_file = path\<rparr>, fs))
            else Inr (\<lparr>cr_ok = True, cr_message = code @ js '': '' @ path @ js '' matches ('' @ summary @ js '')'',
              cr_file = path\<rparr>, fs)))"

definition classes_file :: "pack \<Rightarrow> jstr" where
  "classes_file pk = path_join (path_join (pk_dir pk) (js ''tests'')) (js ''classes.json'')"

definition checkClasses ::
    "js_env \<Rightarrow> node \<Rightarrow> files \<Rightarrow> jstr \<Rightarrow> bool \<Rightarrow> jstr \<Rightarrow> check_error + check_result \<times> files" where
  "checkClasses env node fs code write languagesDir =
     bindE (lift_pack (loadPack (env_cat env) fs languagesDir None code)) (\<lambda>pk.
     bindE (computeExpectations env node fs pk) (\<lambda>expectations.
     let text = formatExpectations expectations in
     (case json_parse text of
        None \<Rightarrow> Inl CheckType
      | Some parsed \<Rightarrow> check_file node fs write code (classes_file pk) text (expectations_summary parsed))))"

record check_args =
  ca_codes :: "jstr list"
  ca_write :: bool
  ca_all :: bool
  ca_languages :: jstr

fun parse_check_args :: "jstr list \<Rightarrow> check_args \<Rightarrow> check_args option" where
  "parse_check_args [] a = Some a"
| "parse_check_args (arg # rest) a =
     (if arg = js ''--write'' then parse_check_args rest (a\<lparr>ca_write := True\<rparr>)
      else if arg = js ''--all'' then parse_check_args rest (a\<lparr>ca_all := True\<rparr>)
      else if arg = js ''--languages'' then (case rest of
          [] \<Rightarrow> None | dir # rest' \<Rightarrow> parse_check_args rest' (a\<lparr>ca_languages := dir\<rparr>))
      else if starts_with arg [45] then None
      else parse_check_args rest (a\<lparr>ca_codes := ca_codes a @ [arg]\<rparr>))"

text \<open>One code of the command: the file system, the number of failures and what is printed.\<close>

definition check_code ::
    "js_env \<Rightarrow> node \<Rightarrow> check_args \<Rightarrow> files \<times> nat \<times> (check_error + jstr) list \<Rightarrow> jstr \<Rightarrow>
      files \<times> nat \<times> (check_error + jstr) list" where
  "check_code env node a = (\<lambda>(fs, failed, printed) code.
     case checkClasses env node fs code (ca_write a) (ca_languages a) of
       Inl e \<Rightarrow> (fs, failed + 1, printed @ [Inl e])
     | Inr (r, fs') \<Rightarrow> (fs', if cr_ok r then failed else failed + 1, printed @ [Inr (cr_message r)]))"

text \<open>The exit status, with the file system after the command. \<open>dirs\<close> lists a directory.\<close>

definition check_main ::
    "js_env \<Rightarrow> node \<Rightarrow> files \<Rightarrow> (jstr \<Rightarrow> dir_entry list) \<Rightarrow> jstr \<Rightarrow> jstr list \<Rightarrow> nat \<times> files \<times> (check_error + jstr) list" where
  "check_main env node fs dirs defaultDir argv =
     (case parse_check_args argv \<lparr>ca_codes = [], ca_write = False, ca_all = False, ca_languages = defaultDir\<rparr> of
        None \<Rightarrow> (2, fs, [])
      | Some a \<Rightarrow>
          let codes = ca_codes a @ (if ca_all a
                then filter (\<lambda>code. code \<notin> set (ca_codes a)) (listPacks (dirs (ca_languages a))) else [])
          in if codes = [] then (2, fs, [])
             else (case fold (\<lambda>code s. check_code env node a s code) codes (fs, 0, []) of
                 (fs', failed, printed) \<Rightarrow> (if failed = 0 then 0 else 1, fs', printed)))"

end
