(* ===== verification/Check_Classes_Correct.thy ===== *)
theory Check_Classes_Correct
  imports Check_Classes
begin

text \<open>
  What tests/classes.json guarantees: a written file is accepted by the next check, the expectations hold
  the ranges of every class field, and the text processors of a pack that passes never throw.
\<close>

section \<open>Steps that pass\<close>

lemma located_Inr [simp]: "located path r = Inr x \<longleftrightarrow> r = Inr x"
  by (simp add: located_def split: sum.splits)

lemma check_lists_step:
  assumes "check_lists env cs inputs sp results = Inr results'" and "l \<in> set (sp_lists sp)"
    and "step \<in> set (sl_steps l)"
  shows "checkStep env cs (sp_builtin sp) (sp_alternatives sp) step = Inr ()"
proof -
  from assms(1) obtain s where "foldE (\<lambda>s l. foldE (check_list_step env cs inputs sp (sl_path l)) s (enum (sl_steps l)))
       (0, results) (sp_lists sp) = Inr s" by (auto simp: check_lists_def)
  from foldE_each [OF this assms(2)] obtain s1 s2 where
    steps: "foldE (check_list_step env cs inputs sp (sl_path l)) s1 (enum (sl_steps l)) = Inr s2" .
  obtain k where "(k, step) \<in> set (enum (sl_steps l))"
    using assms(3) by (metis enum_set in_set_conv_nth)
  from foldE_each [OF steps this] obtain s3 s4 where
    "check_list_step env cs inputs sp (sl_path l) s3 (k, step) = Inr s4" .
  then show ?thesis
    by (cases s3) (auto simp: check_list_step_def Let_def simp del: js_simps)
qed

lemma computeExpectations_parts:
  assumes "computeExpectations env node fs pk = Inr v"
  obtains classes sources result inputs sps s where
    "classFields (pk_language pk) (pk_transforms pk) = Inr sources"
    and "foldE (field_result env (pk_classes pk)) [] sources = Inr result"
    and "checkPatternRules env (pk_classes pk) (pk_transforms pk) = Inr ()"
    and "stepLists (pk_language pk) (pk_transforms pk) = Inr sps"
    and "foldE (check_step_lists env (pk_classes pk) inputs) ([], []) sps = Inr s"
    and "obj_get v (js ''fields'') = JObj result"
  using assms
  by (auto simp: computeExpectations_def Let_def obj_get_JObj split: prod.splits intro: that)

lemma computeExpectations_step:
  assumes "computeExpectations env node fs pk = Inr v"
    and "stepLists (pk_language pk) (pk_transforms pk) = Inr sps"
    and "sp \<in> set sps" and "l \<in> set (sp_lists sp)" and "step \<in> set (sl_steps l)"
  shows "checkStep env (pk_classes pk) (sp_builtin sp) (sp_alternatives sp) step = Inr ()"
proof -
  from computeExpectations_parts [OF assms(1)] assms(2) obtain inputs s where
    "foldE (check_step_lists env (pk_classes pk) inputs) ([], []) sps = Inr s" by (metis sum.inject(2))
  from foldE_each [OF this assms(3)] obtain s1 s2 where
    "check_step_lists env (pk_classes pk) inputs s1 sp = Inr s2" .
  then obtain results results' where "check_lists env (pk_classes pk) inputs sp results = Inr results'"
    by (cases s1) (auto simp: check_step_lists_def)
  from check_lists_step [OF this assms(4,5)] show ?thesis .
qed

lemma check_without_builtin:
  assumes "checkStep env cs True alternatives step = Inr ()" and "\<not> has_own step (js ''builtin'')"
  shows "checkStep env cs False alternatives step = Inr ()"
proof -
  have "kind \<noteq> js ''builtin''" if k: "stepKind step = Inr kind" for kind
  proof -
    from k obtain es where "filter (has_own step) (map fst STEP_KINDS) = [kind]"
      by (auto simp: stepKind_def split: json.splits list.splits)
    then have "has_own step kind" by (metis filter_eq_ConsD)
    then show ?thesis using assms(2) by auto
  qed
  moreover have "check_kind env cs False alternatives step kind = check_kind env cs True alternatives step kind"
    if "kind \<noteq> js ''builtin''" for kind
    using that by (simp add: check_kind_def Let_def del: js_simps)
  ultimately show ?thesis
    using assms(1) by (auto simp: checkStep_def simp del: js_simps)
qed

definition preprocessors :: "json \<Rightarrow> json list" where
  "preprocessors language = list_of (obj_get (obj_get language (js ''lookup'')) (js ''preprocessors''))"

definition no_builtins :: "json \<Rightarrow> bool" where
  "no_builtins p \<longleftrightarrow> (\<forall>steps\<in>set (list_of (obj_get p (js ''variants''))).
     \<forall>step\<in>set (list_of steps). \<not> has_own step (js ''builtin''))"

lemma list_items_Inr: "list_items v = Inr vs \<Longrightarrow> vs = list_of v"
  by (auto simp: list_items_def or_else_def nullish_def split: if_splits)

lemma stepLists_pre:
  assumes "stepLists language transforms = Inr sps" and "p \<in> set (preprocessors language)"
  obtains i where "processor_steps (js ''preprocessors'') (i, p) \<in> set sps"
proof -
  let ?lookup = "or_else (obj_get language (js ''lookup'')) (JObj [])"
  from assms(1) obtain pre where pre: "list_items (obj_get ?lookup (js ''preprocessors'')) = Inr pre"
    and sub: "set (map (processor_steps (js ''preprocessors'')) (enum pre)) \<subseteq> set sps"
    by (auto simp: stepLists_def get_prop_def Let_def simp del: js_simps split: if_splits)
  have "obj_get ?lookup (js ''preprocessors'') = obj_get (obj_get language (js ''lookup'')) (js ''preprocessors'')"
    by (auto simp: or_else_def obj_get_JObj nullish_def)
  then have "p \<in> set pre" using list_items_Inr [OF pre] assms(2) by (simp add: preprocessors_def)
  then obtain i where "(i, p) \<in> set (enum pre)" by (metis enum_set in_set_conv_nth)
  then show ?thesis using sub that [of i] by auto
qed

lemma accepted_processors:
  assumes "computeExpectations env node fs pk = Inr v" and "p \<in> set (preprocessors (pk_language pk))"
    and "no_builtins p"
  shows "processor_checked env (pk_classes pk) p"
  unfolding processor_checked_def
proof (intro ballI)
  fix steps step assume steps: "steps \<in> set (list_of (obj_get p (js ''variants'')))" and step: "step \<in> set (list_of steps)"
  from computeExpectations_parts [OF assms(1)] obtain sps where
    sps: "stepLists (pk_language pk) (pk_transforms pk) = Inr sps" .
  from stepLists_pre [OF sps assms(2)] obtain i where
    sp: "processor_steps (js ''preprocessors'') (i, p) \<in> set sps" .
  obtain j where "(j, steps) \<in> set (enum (list_of (obj_get p (js ''variants''))))"
    using steps by (metis enum_set in_set_conv_nth)
  then obtain l where "l \<in> set (sp_lists (processor_steps (js ''preprocessors'') (i, p)))" "sl_steps l = list_of steps"
    by (force simp: processor_steps_def Let_def)
  from computeExpectations_step [OF assms(1) sps sp this(1)] this(2) step
  have "checkStep env (pk_classes pk) True True step = Inr ()"
    by (simp add: processor_steps_def Let_def)
  then show "checkStep env (pk_classes pk) False True step = Inr ()"
    using assms(3) steps step by (intro check_without_builtin) (auto simp: no_builtins_def)
qed

section \<open>Class result\<close>

lemma string_field_mem: "(p, s) \<in> set (string_field path v) \<longleftrightarrow> p = path \<and> v = JStr s"
  by (cases v) (auto simp: string_field_def)

lemma step_fields_dot: "(p, s) \<in> set (step_fields path x) \<Longrightarrow> 46 \<in> set p"
  by (auto simp: step_fields_def string_field_mem split: prod.splits if_splits)

lemma classFields_dot:
  assumes "classFields language transforms = Inr sources" and "(p, s) \<in> set sources"
  shows "46 \<in> set p"
  using assms
  by (auto simp: classFields_def text_fields_def list_fields_def rule_fields_def string_field_mem
      dest!: step_fields_dot split: prod.splits)

lemma field_results:
  assumes "foldE (field_result env cs) es sources = Inr result" and "\<And>p s. (p, s) \<in> set sources \<Longrightarrow> 46 \<in> set p"
    and "distinct (map fst sources)"
  shows "(\<forall>(p, s)\<in>set sources. \<exists>rs. class_ranges (env_cat env) cs (JStr s) = Inr rs \<and>
      map_of result p = Some (ranges_json rs)) \<and> (\<forall>p. p \<notin> fst ` set sources \<longrightarrow> map_of result p = map_of es p)"
  using assms
proof (induction sources arbitrary: es)
  case Nil
  then show ?case by simp
next
  case (Cons x sources)
  obtain p s where x: "x = (p, s)" by (cases x)
  from Cons.prems(1) obtain es1 where es1: "field_result env cs es (p, s) = Inr es1"
    and rest1: "foldE (field_result env cs) es1 sources = Inr result" using x by auto
  from es1 obtain rs where rs: "class_ranges (env_cat env) cs (JStr s) = Inr rs"
    and "es1 = assign p (ranges_json rs) es" by (auto simp: field_result_def)
  with rest1 have rest: "foldE (field_result env cs) (assign p (ranges_json rs) es) sources = Inr result" by simp
  have "46 \<in> set p" using Cons.prems(2) x by auto
  then have "p \<noteq> js ''__proto__''" by auto
  then have put: "assign p (ranges_json rs) es = obj_put p (ranges_json rs) es" by (simp add: assign_def)
  from Cons.IH [OF rest] Cons.prems x show ?case using rs put by fastforce
qed

section \<open>Writing and checking\<close>

lemma path_join_eq [simp]: "path_join d a = path_join d b \<longleftrightarrow> a = b"
  by (simp add: path_join_def)

lemma path_join_nest: "path_join (path_join d a) b = path_join d (a @ [47] @ b)"
  by (simp add: path_join_def)

lemma loadPack_Inr: "loadPack cat fs languagesDir t code = Inr pk \<longleftrightarrow>
   (let dir = path_join languagesDir code; languageFile = path_join dir (js ''language.json'') in
    fs languageFile \<noteq> None \<and> (\<exists>language transforms classes.
      readJson fs languageFile = Inr language \<and> obj_get language (js ''code'') = JStr code \<and>
      readTransforms fs (named_transforms dir t language) = Inr transforms \<and>
      pack_classes cat languageFile language = Inr classes \<and>
      pk = \<lparr>pk_code = code, pk_dir = dir, pk_language = language, pk_transforms = transforms,
        pk_transforms_path = named_transforms dir t language, pk_classes = classes\<rparr>))"
  unfolding loadPack_def Let_def by (auto simp del: js_simps)

lemma loadPack_dir:
  "loadPack cat fs languagesDir t code = Inr pk \<Longrightarrow> pk_dir pk = path_join languagesDir code"
  by (auto simp: loadPack_Inr Let_def simp del: js_simps)

lemma loadPack_update:
  assumes "loadPack cat fs languagesDir t code = Inr pk" and "pk_transforms_path pk \<noteq> Some f"
    and "f \<noteq> path_join (path_join languagesDir code) (js ''language.json'')"
  shows "loadPack cat (fs(f := x)) languagesDir t code = Inr pk"
proof -
  have same: "readJson (fs(f := x)) p = readJson fs p" if "p \<noteq> f" for p
    using that by (simp add: readJson_def readFile_def)
  have "readTransforms (fs(f := x)) named = readTransforms fs named" if "named \<noteq> Some f" for named
    using that same by (auto simp: readTransforms_def split: option.split)
  then show ?thesis
    using assms same by (auto simp: loadPack_Inr Let_def simp del: js_simps)
qed

lemma corpusStrings_update:
  assumes "f = path_join (path_join dir (js ''tests'')) (js ''classes.json'')"
  shows "corpusStrings (fs(f := x)) dir language = corpusStrings fs dir language"
proof -
  have "tsv_sources (fs(f := x)) dir name = tsv_sources fs dir name" if "name \<in> set DEINFLECTION_TSVS" for name
  proof -
    have "js ''classes.json'' \<notin> set DEINFLECTION_TSVS" by code_simp
    then have "js ''classes.json'' \<noteq> name" using that by blast
    then show ?thesis using assms by (simp add: tsv_sources_def Let_def)
  qed
  then have "mapE (tsv_sources (fs(f := x)) dir) DEINFLECTION_TSVS = mapE (tsv_sources fs dir) DEINFLECTION_TSVS"
    by (rule mapE_cong [OF refl])
  then show ?thesis using assms by (simp add: corpusStrings_def Let_def)
qed

lemma write_then_check_ok:
  assumes "checkClasses env node fs code True dir = Inr (res, fs')"
    and "\<And>pk. loadPack (env_cat env) fs dir None code = Inr pk \<Longrightarrow> pk_transforms_path pk \<noteq> Some (cr_file res)"
  shows "\<exists>text res'. fs' = fs(cr_file res \<mapsto> text) \<and> cr_ok res' \<and>
    checkClasses env node fs' code False dir = Inr (res', fs')"
proof -
  from assms(1) obtain pk v parsed where pk: "loadPack (env_cat env) fs dir None code = Inr pk"
    and v: "computeExpectations env node fs pk = Inr v"
    and parsed: "json_parse (formatExpectations v) = Some parsed"
    and res: "cr_file res = classes_file pk" "fs' = fs(classes_file pk \<mapsto> formatExpectations v)"
    by (auto simp: checkClasses_def lift_pack_def check_file_def Let_def split: sum.splits option.splits)
  have f: "classes_file pk = path_join (path_join (pk_dir pk) (js ''tests'')) (js ''classes.json'')"
    by (simp add: classes_file_def)
  then have "classes_file pk \<noteq> path_join (path_join dir code) (js ''language.json'')"
    using loadPack_dir [OF pk] by (simp add: path_join_nest)
  then have "loadPack (env_cat env) fs' dir None code = Inr pk"
    unfolding res(2) using assms(2) [OF pk] res(1) by (intro loadPack_update [OF pk]) auto
  moreover have "computeExpectations env node fs' pk = Inr v"
    using v unfolding res(2) by (simp add: computeExpectations_def corpusStrings_update [OF f])
  ultimately show ?thesis
    using parsed res by (auto simp: checkClasses_def lift_pack_def check_file_def)
qed

text \<open>A class named \<open>__proto__\<close> is a class name, but its ranges are never recorded: the assignment sets the
  prototype of the \<open>classes\<close> object.\<close>

lemma proto_class_not_recorded:
  "CLASS_NAME (js ''__proto__'') \<and> (class_result env cs es (js ''__proto__'') = Inr es' \<longrightarrow> es' = es)"
proof -
  have "CLASS_NAME (js ''__proto__'')" by code_simp
  then show ?thesis by (auto simp: class_result_def assign_def simp del: js_simps split: sum.splits)
qed

section \<open>An example\<close>

definition ex_language :: json where
  "ex_language = JObj [(js ''code'', JStr (js ''x'')), (js ''text'', JObj [(js ''pattern'', JStr (js ''[ae]''))]),
     (js ''lookup'', JObj [(js ''preprocessors'', JArr ex_processors)])]"

definition ex_pack :: pack where
  "ex_pack = \<lparr>pk_code = js ''x'', pk_dir = js ''d/x'', pk_language = ex_language, pk_transforms = JNull,
     pk_transforms_path = None, pk_classes = \<lparr>cs_definitions = [], cs_expansions = []\<rparr>\<rparr>"

definition ex_node :: node where
  "ex_node = \<lparr>nd_unicode = js ''16.0'', nd_version = js ''v24''\<rparr>"

lemma ex_field_ranges:
  "class_ranges (env_cat ex_env) \<lparr>cs_definitions = [], cs_expansions = []\<rparr> (JStr (js ''[ae]'')) =
    Inr (ranges_of_test False (rx_test (env_cat ex_env) (js ''[ae]'')))"
  by (simp add: class_ranges_def class_source_def expand_field_def rangesOfSource_def class_eval del: bindE_Inr_iff)

lemma ex_pack_fields: "classFields ex_language JNull = Inr [(js ''text.pattern'', js ''[ae]'')]"
  by code_simp

lemma ex_pack_accepted: "\<exists>v. computeExpectations ex_env ex_node (\<lambda>f. None) ex_pack = Inr v"
proof -
  have "checkPatternRules ex_env cs JNull = Inr ()" for cs by code_simp
  moreover have "corpusStrings (\<lambda>f. None) (js ''d/x'') ex_language = Inr []" by code_simp
  moreover have "\<not> isl (bindE (stepLists ex_language JNull)
      (foldE (check_step_lists ex_env \<lparr>cs_definitions = [], cs_expansions = []\<rparr> []) ([], [])))"
    by code_simp
  then obtain sps s where "stepLists ex_language JNull = Inr sps"
      "foldE (check_step_lists ex_env \<lparr>cs_definitions = [], cs_expansions = []\<rparr> []) ([], []) sps = Inr s"
    by (cases "bindE (stepLists ex_language JNull)
      (foldE (check_step_lists ex_env \<lparr>cs_definitions = [], cs_expansions = []\<rparr> []) ([], []))") auto
  ultimately show ?thesis
    using ex_field_ranges ex_pack_fields
    by (cases s) (simp add: computeExpectations_def ex_pack_def class_names_def om_keys_def field_result_def
      lift_pack_def located_def del: js_simps bindE_Inr_iff)
qed

section \<open>Properties\<close>

text \<open>C37: After \<open>checkClasses\<close> has written tests/classes.json, the only file it changes, checking the pack
  again accepts it and changes nothing (when the pack does not use that file as its transforms).\<close>

theorem write_then_check:
  assumes "checkClasses env node fs code True dir = Inr (res, fs')"
    and "\<And>pk. loadPack (env_cat env) fs dir None code = Inr pk \<Longrightarrow> pk_transforms_path pk \<noteq> Some (cr_file res)"
  shows "\<exists>text res'. fs' = fs(cr_file res \<mapsto> text) \<and> cr_ok res' \<and>
    checkClasses env node fs' code False dir = Inr (res', fs')"
  by (rule write_then_check_ok [OF assms])

theorem write_then_check_witness:
  "\<exists>fs' res'. cr_ok res' \<and> checkClasses ex_env ex_node fs' (js ''x'') False (js ''d'') = Inr (res', fs')"
proof -
  let ?fs = "\<lambda>f. if f = js ''d/x/language.json'' then Some (js ''{\"code\":\"x\"}'') else None"
  have "case checkClasses ex_env ex_node ?fs (js ''x'') True (js ''d'') of Inl _ \<Rightarrow> False | Inr (res, fs') \<Rightarrow> True"
    by code_simp
  then obtain res fs' where w: "checkClasses ex_env ex_node ?fs (js ''x'') True (js ''d'') = Inr (res, fs')"
    by (auto split: sum.splits)
  have "case loadPack (env_cat ex_env) ?fs (js ''d'') None (js ''x'') of Inl _ \<Rightarrow> True | Inr pk \<Rightarrow> pk_transforms_path pk = None"
    by code_simp
  then have "pk_transforms_path pk \<noteq> Some (cr_file res)"
    if "loadPack (env_cat ex_env) ?fs (js ''d'') None (js ''x'') = Inr pk" for pk
    using that by (simp del: js_simps)
  from write_then_check [OF w this] show ?thesis by blast
qed

text \<open>The expectations of a pack hold, under the path of every class field, the ranges
  \<open>ClassSet.ranges\<close> computes for it, when no two fields have the same path.\<close>

theorem expectations_fields:
  assumes "computeExpectations env node fs pk = Inr v"
    and "classFields (pk_language pk) (pk_transforms pk) = Inr sources" and "distinct (map fst sources)"
  shows "\<forall>(p, s)\<in>set sources. \<exists>rs. class_ranges (env_cat env) (pk_classes pk) (JStr s) = Inr rs \<and>
    obj_get (obj_get v (js ''fields'')) p = ranges_json rs"
proof -
  from computeExpectations_parts [OF assms(1)] assms(2) obtain result where
    f: "foldE (field_result env (pk_classes pk)) [] sources = Inr result"
    and v: "obj_get v (js ''fields'') = JObj result" by (metis sum.inject(2))
  show ?thesis
    using field_results [OF f classFields_dot [OF assms(2)] assms(3)] unfolding v obj_get_JObj by fastforce
qed

theorem expectations_fields_witness:
  "\<exists>v. obj_get (obj_get v (js ''fields'')) (js ''text.pattern'') =
    ranges_json (ranges_of_test False (rx_test (env_cat ex_env) (js ''[ae]'')))"
proof -
  obtain v where v: "computeExpectations ex_env ex_node (\<lambda>f. None) ex_pack = Inr v"
    using ex_pack_accepted by blast
  have "classFields (pk_language ex_pack) (pk_transforms ex_pack) = Inr [(js ''text.pattern'', js ''[ae]'')]"
    using ex_pack_fields by (simp add: ex_pack_def del: js_simps)
  from expectations_fields [OF v this] show ?thesis
    using ex_field_ranges by (auto simp: ex_pack_def simp del: js_simps)
qed



end
