(* ===== verification/Yomitan.thy ===== *)
theory Yomitan
  imports Js_Value Pack
begin

text \<open>
  Reading a Yomitan checkout (tools/lib/yomitan.mjs): the module hooks' choice of a replacement, the
  revision, the transform descriptors of a language, and the test file of its transforms.

  Parameters: the file system \<open>fs\<close>, the listing \<open>dirs\<close> of a directory (\<open>None\<close> when it does not exist),
  what \<open>git rev-parse HEAD\<close> prints (\<open>None\<close> when the call throws) and the exports of an imported module.
\<close>

definition PINNED_REVISION :: jstr where
  "PINNED_REVISION = js ''d3c54c10264673eca0d66b970ef74cd5c8b048e3''"

definition STUBBED_LIBS :: "(jstr \<times> jstr list) list" where
  "STUBBED_LIBS = [(js ''kanji-processor.js'', [js ''convertVariants'']), (js ''hangul-js.js'', [js ''Hangul''])]"

section \<open>Module hooks\<close>

datatype resolution = NextResolve | CaptureTests | Stub jstr

text \<open>The resolver for an import of \<open>target\<close> (\<open>None\<close> when the URL is not valid) from the module \<open>parent\<close>.\<close>

definition hook_resolve :: "jstr list \<Rightarrow> (jstr \<Rightarrow> bool) \<Rightarrow> jstr \<Rightarrow> jstr option \<Rightarrow> resolution" where
  "hook_resolve roots exists parent target =
     (case (find (starts_with parent) roots, target) of
        (Some root, Some url) \<Rightarrow>
          if url = root @ js ''test/fixtures/language-transformer-test.js'' then CaptureTests
          else
            let libPrefix = root @ js ''ext/lib/''; lib = drop (length libPrefix) url
            in if starts_with url libPrefix \<and> map_of STUBBED_LIBS lib \<noteq> None \<and> \<not> exists url
               then Stub lib else NextResolve
      | _ \<Rightarrow> NextResolve)"

text \<open>The roots, each with a slash at its end, after \<open>installYomitanHooks(root)\<close>.\<close>

definition install_hooks :: "jstr \<Rightarrow> jstr list \<Rightarrow> jstr list" where
  "install_hooks root roots = (if root @ [47] \<in> set roots then roots else roots @ [root @ [47]])"

section \<open>The revision\<close>

definition is_space :: "int \<Rightarrow> bool" where
  "is_space u \<longleftrightarrow> (9 \<le> u \<and> u \<le> 13) \<or> u = 32 \<or> u = 160 \<or> u = 5760 \<or> (8192 \<le> u \<and> u \<le> 8202) \<or> u = 8232 \<or> u = 8233 \<or>
     u = 8239 \<or> u = 8287 \<or> u = 12288 \<or> u = 65279"

definition trim_end :: "jstr \<Rightarrow> jstr" where
  "trim_end s = rev (dropWhile is_space (rev s))"

definition trim :: "jstr \<Rightarrow> jstr" where
  "trim s = trim_end (dropWhile is_space s)"

definition yomitanRevision :: "jstr option \<Rightarrow> files \<Rightarrow> jstr \<Rightarrow> jstr option" where
  "yomitanRevision git fs root = (case git of
       Some out \<Rightarrow> Some (trim out)
     | None \<Rightarrow>
         let dir = path_join root (js ''.git'') in (case fs (path_join dir (js ''HEAD'')) of
             None \<Rightarrow> None
           | Some head \<Rightarrow>
               let text = trim head
               in if \<not> starts_with text (js ''ref: '') then Some text
                  else map_option trim (fs (path_join dir (drop 5 text)))))"

section \<open>Transform descriptors\<close>

text \<open>Yomitan's rules, transforms and descriptors. A rule's \<open>isInflected\<close> is a RegExp when \<open>yr_regexp\<close>;
  \<open>yr_test\<close> is its \<open>test\<close> from \<open>lastIndex\<close> 0 and \<open>yr_source\<close>, \<open>yr_flags\<close> its properties (\<open>yr_source\<close> is
  \<open>String(isInflected)\<close> otherwise). \<open>yr_deinflect\<close> is its \<open>deinflect\<close>, if that is a function; it gives
  \<open>None\<close> where the call throws or returns no string.\<close>

record yomitan_rule =
  yr_regexp :: bool
  yr_source :: jstr
  yr_flags :: jstr
  yr_test :: "jstr \<Rightarrow> bool"
  yr_deinflect :: "(jstr \<Rightarrow> jstr option) option"
  yr_in :: json
  yr_out :: json

record yomitan_transform =
  yt_name :: json
  yt_description :: json
  yt_i18n :: json
  yt_rules :: "yomitan_rule list"

record yomitan_descriptor =
  yd_conditions :: "(jstr \<times> json) list"
  yd_transforms :: "(jstr \<times> yomitan_transform) list"

text \<open>An export of a module: whether it is an object, and whether its \<open>conditions\<close> and \<open>transforms\<close> are.\<close>

record module_export =
  me_name :: jstr
  me_object :: bool
  me_conditions :: bool
  me_transforms :: bool
  me_descriptor :: yomitan_descriptor

datatype yomitan_error =
    NotACheckout jstr jstr
  | ManyDescriptors jstr "jstr list"
  | ManyTests jstr "jstr list"
  | NotOneTestCall jstr nat

type_synonym dir_lists = "jstr \<Rightarrow> jstr list option"

definition isDescriptor :: "module_export \<Rightarrow> bool" where
  "isDescriptor e \<longleftrightarrow> me_object e \<and> me_conditions e \<and> me_transforms e"

definition importYomitan ::
    "(jstr \<Rightarrow> bool) \<Rightarrow> (jstr \<Rightarrow> module_export list) \<Rightarrow> jstr \<Rightarrow> jstr \<Rightarrow> yomitan_error + module_export list" where
  "importYomitan exists exports root path =
     (let file = path_join root path
      in if \<not> exists file then Inl (NotACheckout file root) else Inr (exports file))"

record found_descriptor =
  fd_file :: jstr
  fd_export :: jstr
  fd_descriptor :: yomitan_descriptor

definition descriptors_in ::
    "(jstr \<Rightarrow> bool) \<Rightarrow> (jstr \<Rightarrow> module_export list) \<Rightarrow> jstr \<Rightarrow> jstr \<Rightarrow> jstr \<Rightarrow> yomitan_error + found_descriptor list" where
  "descriptors_in exists exports root code name =
     (let file = js ''ext/js/language/'' @ code @ [47] @ name
      in bindE (importYomitan exists exports root file) (\<lambda>es.
           Inr (map (\<lambda>e. \<lparr>fd_file = file, fd_export = me_name e, fd_descriptor = me_descriptor e\<rparr>)
             (filter isDescriptor es))))"

definition loadTransformDescriptors ::
    "(jstr \<Rightarrow> bool) \<Rightarrow> dir_lists \<Rightarrow> (jstr \<Rightarrow> module_export list) \<Rightarrow> jstr \<Rightarrow> jstr \<Rightarrow> yomitan_error + found_descriptor list" where
  "loadTransformDescriptors exists dirs exports root code =
     (case dirs (path_join root (js ''ext/js/language/'' @ code)) of
        None \<Rightarrow> Inr []
      | Some names \<Rightarrow>
          bindE (mapE (descriptors_in exists exports root code)
            (js_sort (filter (\<lambda>name. ends_with name (js ''-transforms.js'')) names))) (\<lambda>found. Inr (concat found)))"

definition loadTransformDescriptor ::
    "(jstr \<Rightarrow> bool) \<Rightarrow> dir_lists \<Rightarrow> (jstr \<Rightarrow> module_export list) \<Rightarrow> jstr \<Rightarrow> jstr \<Rightarrow>
      yomitan_error + found_descriptor option" where
  "loadTransformDescriptor exists dirs exports root code =
     bindE (loadTransformDescriptors exists dirs exports root code) (\<lambda>found. case found of
         [] \<Rightarrow> Inr None
       | [f] \<Rightarrow> Inr (Some f)
       | _ \<Rightarrow> Inl (ManyDescriptors code (map fd_export found)))"

section \<open>Transform tests\<close>

definition has_text :: "jstr \<Rightarrow> jstr \<Rightarrow> bool" where
  "has_text s p \<longleftrightarrow> index_of s p 0 \<noteq> None"

definition imports_transforms :: "jstr \<Rightarrow> jstr \<Rightarrow> bool" where
  "imports_transforms needle text = list_ex (\<lambda>line. starts_with line (js ''import'') \<and> has_text line needle \<and>
     has_text line (js ''-transforms.js'')) (split_on 10 text)"

definition findTransformTest :: "files \<Rightarrow> dir_lists \<Rightarrow> jstr \<Rightarrow> jstr \<Rightarrow> yomitan_error + jstr option" where
  "findTransformTest fs dirs root code =
     (let dir = path_join root (js ''test/language'') in
      case dirs dir of
        None \<Rightarrow> Inr None
      | Some names \<Rightarrow>
          let needle = js ''/ext/js/language/'' @ code @ [47];
              matches = js_sort (filter (\<lambda>name. case fs (path_join dir name) of
                    None \<Rightarrow> False | Some text \<Rightarrow> imports_transforms needle text)
                  (filter (\<lambda>name. ends_with name (js ''-transforms.test.js'')) names))
          in (case matches of
                [] \<Rightarrow> Inr None
              | [m] \<Rightarrow> Inr (Some (js ''test/language/'' @ m))
              | _ \<Rightarrow> Inl (ManyTests code matches)))"

text \<open>\<open>loadTransformTests\<close>: the captured calls of the test runner; exactly one is expected.\<close>

definition captured_tests :: "jstr \<Rightarrow> 'a list \<Rightarrow> yomitan_error + 'a" where
  "captured_tests path captured = (case captured of
       [tests] \<Rightarrow> Inr tests | _ \<Rightarrow> Inl (NotOneTestCall path (length captured)))"

end
