(* ===== verification/Port_Transforms.thy ===== *)
theory Port_Transforms
  imports Yomitan Check_Classes
begin

text \<open>
  Porting Yomitan's deinflection rules (tools/port-yomitan-transforms.mjs): \<open>literalOf\<close>, the classification
  of a rule by the shape of its regular expression and its behaviour on probe stems, \<open>portDescriptor\<close> and
  the command.

  A Yomitan rule's functions are fields of \<open>yomitan_rule\<close>: they are called, never read.
\<close>

definition PROBE_STEMS :: "jstr list" where
  "PROBE_STEMS = [
     js '''', js ''a'', js ''ab'', js ''stem'', js ''walk'', [83, 116, 114, 97, 223, 101],
     [99, 97, 102, 233], [99, 97, 102, 101, 769], [110, 97, 776, 105, 118, 101], [1082, 1086, 1090],
     [1089, 1083, 1086, 1074, 1086], [1111, 1078, 1072, 1082], [955, 972, 947, 959, 962],
     [945, 947, 945, 960], [1603, 1578, 1576], [1605, 1583, 1585, 1587], [1603, 1614, 1578, 1614, 1576],
     [1505, 1508, 1512], [1492, 1488, 1463, 1504, 1496], [1489, 1493, 1498],
     [1513, 1508, 1468, 1497, 1500], [54620, 44397], [47673], [12383, 12409], [12459, 12479, 12459, 12490],
     [39135, 12409], [4332, 4308, 4320], js ''abcdefgh'']"

definition METACHARACTERS :: jstr where
  "METACHARACTERS = [92] @ js ''^$.|?*+()[]{}''"

definition codePointLength :: "jstr \<Rightarrow> nat" where
  "codePointLength t = length (cps t)"

fun literalOf :: "jstr \<Rightarrow> jstr option" where
  "literalOf [] = Some []"
| "literalOf (c # s) =
     (if c = 92 then (case s of
          [] \<Rightarrow> None
        | d # s' \<Rightarrow> if d = 47 then map_option (\<lambda>out. 47 # out) (literalOf s') else None)
      else if c \<in> set METACHARACTERS then None
      else map_option (\<lambda>out. c # out) (literalOf s))"

text \<open>\<open>callDeinflect\<close> and \<open>testInflected\<close> reset \<open>lastIndex\<close>, so both are functions of the text.\<close>

definition callDeinflect :: "yomitan_rule \<Rightarrow> jstr \<Rightarrow> jstr option" where
  "callDeinflect rule t = (case yr_deinflect rule of None \<Rightarrow> None | Some f \<Rightarrow> f t)"

definition testInflected :: "yomitan_rule \<Rightarrow> jstr \<Rightarrow> bool" where
  "testInflected rule t = yr_test rule t"

section \<open>Shapes of a regular expression\<close>

text \<open>\<open>/^\^([\s\S]*)\$$/\<close>, \<open>/^\^([\s\S]*)$/\<close> and \<open>/^(?:\.\{(\d+)\}|(\.*))([\s\S]*)\$$/\<close> with their groups.\<close>

definition whole_word_shape :: "jstr \<Rightarrow> jstr option" where
  "whole_word_shape source =
     (if 2 \<le> length source \<and> hd source = 94 \<and> last source = 36 then Some (butlast (tl source)) else None)"

definition prefix_shape :: "jstr \<Rightarrow> jstr option" where
  "prefix_shape source = (if source \<noteq> [] \<and> hd source = 94 then Some (tl source) else None)"

definition counted_dots :: "jstr \<Rightarrow> (nat \<times> jstr) option" where
  "counted_dots core =
     (let ds = takeWhile is_digit (drop 2 core); rest = dropWhile is_digit (drop 2 core)
      in if starts_with core (js ''.{'') \<and> ds \<noteq> [] \<and> starts_with rest [125]
         then Some (nat (dec_val ds), drop 1 rest) else None)"

definition suffix_shape :: "jstr \<Rightarrow> (nat \<times> jstr) option" where
  "suffix_shape source =
     (if source \<noteq> [] \<and> last source = 36 then
        let core = butlast source in (case counted_dots core of
            Some r \<Rightarrow> Some r
          | None \<Rightarrow> Some (length (takeWhile (\<lambda>u. u = 46) core), dropWhile (\<lambda>u. u = 46) core))
      else None)"

section \<open>classifyRule\<close>

datatype rule_kind =
    TodoRule
  | WholeWord jstr jstr
  | PrefixRule jstr "jstr option"
  | SuffixRule jstr jstr nat

text \<open>The loops over the probes; \<open>None\<close> is \<open>return todo\<close>. \<open>deinflected\<close> is the loop's variable.\<close>

definition whole_word_probes :: "yomitan_rule \<Rightarrow> jstr \<Rightarrow> jstr \<Rightarrow> jstr list \<Rightarrow> bool" where
  "whole_word_probes rule literal constant probes =
     list_all (\<lambda>stem. list_all (\<lambda>t. callDeinflect rule t = Some constant) [stem, stem @ literal, literal @ stem]) probes"

fun prefix_probes :: "yomitan_rule \<Rightarrow> jstr \<Rightarrow> jstr option \<Rightarrow> jstr list \<Rightarrow> jstr option option" where
  "prefix_probes rule literal deinflected [] = Some deinflected"
| "prefix_probes rule literal deinflected (stem # stems) =
     (if \<not> testInflected rule (literal @ stem) then None
      else (case callDeinflect rule (literal @ stem) of
          None \<Rightarrow> None
        | Some out \<Rightarrow>
            if \<not> ends_with out stem then None
            else
              let before = take (length out - length stem) out
              in (case deinflected of
                    None \<Rightarrow> prefix_probes rule literal (Some before) stems
                  | Some d \<Rightarrow> if before \<noteq> d then None else prefix_probes rule literal deinflected stems)))"

fun suffix_probes :: "yomitan_rule \<Rightarrow> nat \<Rightarrow> jstr \<Rightarrow> jstr option \<Rightarrow> jstr list \<Rightarrow> jstr option" where
  "suffix_probes rule minimum literal deinflected [] = deinflected"
| "suffix_probes rule minimum literal deinflected (stem # stems) =
     (let long = minimum \<le> codePointLength stem in
      if testInflected rule (stem @ literal) \<noteq> long then None
      else if \<not> long then suffix_probes rule minimum literal deinflected stems
      else (case callDeinflect rule (stem @ literal) of
          None \<Rightarrow> None
        | Some out \<Rightarrow>
            if \<not> starts_with out stem then None
            else
              let after = drop (length stem) out
              in (case deinflected of
                    None \<Rightarrow> suffix_probes rule minimum literal (Some after) stems
                  | Some d \<Rightarrow> if after \<noteq> d then None else suffix_probes rule minimum literal deinflected stems)))"

text \<open>A probed suffix has a value: the loop that probed nothing ends with \<open>null\<close>, which is \<open>todo\<close> too.\<close>

definition classify_kind :: "yomitan_rule \<Rightarrow> jstr list \<Rightarrow> rule_kind" where
  "classify_kind rule probes =
     (if \<not> yr_regexp rule \<or> yr_deinflect rule = None then TodoRule
      else if \<not> list_all (\<lambda>u. u \<in> {100, 103, 117}) (yr_flags rule) then TodoRule
      else (case whole_word_shape (yr_source rule) of
          Some fragment \<Rightarrow> (case literalOf fragment of
              None \<Rightarrow> TodoRule
            | Some literal \<Rightarrow>
                if literal = [] \<or> \<not> testInflected rule literal then TodoRule
                else (case callDeinflect rule literal of
                    None \<Rightarrow> TodoRule
                  | Some constant \<Rightarrow>
                      if whole_word_probes rule literal constant probes then WholeWord literal constant else TodoRule))
        | None \<Rightarrow> (case prefix_shape (yr_source rule) of
            Some fragment \<Rightarrow> (case literalOf fragment of
                None \<Rightarrow> TodoRule
              | Some literal \<Rightarrow>
                  if literal = [] then TodoRule
                  else (case prefix_probes rule literal None probes of
                      None \<Rightarrow> TodoRule
                    | Some deinflected \<Rightarrow> PrefixRule literal deinflected))
          | None \<Rightarrow> (case suffix_shape (yr_source rule) of
              Some (minimum, fragment) \<Rightarrow> (case literalOf fragment of
                  None \<Rightarrow> TodoRule
                | Some literal \<Rightarrow>
                    if literal = [] then TodoRule
                    else (case suffix_probes rule minimum literal None probes of
                        None \<Rightarrow> TodoRule
                      | Some deinflected \<Rightarrow> SuffixRule literal deinflected minimum))
            | None \<Rightarrow> TodoRule))))"

datatype port_error = PortType | PortYomitan yomitan_error

definition null_or_string :: "jstr option \<Rightarrow> json" where
  "null_or_string x = (case x of None \<Rightarrow> JNull | Some s \<Rightarrow> JStr s)"

text \<open>The rule object of a kind, with copies of \<open>conditionsIn\<close> and \<open>conditionsOut\<close>.\<close>

definition rule_object :: "yomitan_rule \<Rightarrow> json list \<Rightarrow> json list \<Rightarrow> rule_kind \<Rightarrow> json" where
  "rule_object rule conditionsIn conditionsOut kind =
     (let conditions = [(js ''conditionsIn'', JArr conditionsIn), (js ''conditionsOut'', JArr conditionsOut)];
          typed = (\<lambda>name inflected deinflected. [(js ''type'', JStr (js name)), (js ''inflected'', JStr inflected),
            (js ''deinflected'', deinflected)])
      in JObj (case kind of
          TodoRule \<Rightarrow> [(js ''type'', JStr (js ''todo'')), (js ''isInflected'', JStr (yr_source rule))] @ conditions
        | WholeWord l d \<Rightarrow> typed ''wholeWord'' l (JStr d) @ conditions
        | PrefixRule l d \<Rightarrow> typed ''prefix'' l (null_or_string d) @ conditions
        | SuffixRule l d minimum \<Rightarrow> typed ''suffix'' l (JStr d) @ conditions @
            (if 0 < minimum then [(js ''stemMinLength'', JNum (int minimum))] else [])))"

definition classifyRule :: "yomitan_rule \<Rightarrow> jstr list \<Rightarrow> port_error + json" where
  "classifyRule rule probes =
     bindE (iter_values PortType (or_else (yr_in rule) (JArr []))) (\<lambda>conditionsIn.
     bindE (iter_values PortType (or_else (yr_out rule) (JArr []))) (\<lambda>conditionsOut.
       Inr (rule_object rule conditionsIn conditionsOut (classify_kind rule probes))))"

section \<open>portDescriptor\<close>

text \<open>\<open>structuredClone\<close> of a JSON value is the value.\<close>

definition copyCondition :: "json \<Rightarrow> port_error + json" where
  "copyCondition condition =
     bindE (get_prop PortType condition (js ''name'')) (\<lambda>name.
     bindE (let subs = obj_get condition (js ''subConditions'')
            in if subs = JUndef then Inr []
               else bindE (iter_values PortType subs) (\<lambda>vs. Inr [(js ''subConditions'', JArr vs)])) (\<lambda>subs.
       Inr (JObj ([(js ''name'', name), (js ''isDictionaryForm'', obj_get condition (js ''isDictionaryForm''))] @ subs
         @ filter (\<lambda>e. snd e \<noteq> JUndef) [(js ''i18n'', obj_get condition (js ''i18n''))]))))"

definition port_conditions :: "(jstr \<times> json) list \<Rightarrow> port_error + (jstr \<times> json) list" where
  "port_conditions entries =
     foldE (\<lambda>conditions (name, condition). bindE (copyCondition condition) (\<lambda>c. Inr (assign name c conditions))) [] entries"

record port_state =
  po_counts :: "(jstr \<times> nat) list"
  po_todos :: "(jstr \<times> nat \<times> jstr) list"
  po_transforms :: "json list"

definition rule_type :: "json \<Rightarrow> jstr" where
  "rule_type rule = string_of (obj_get rule (js ''type''))"

definition count_of :: "(jstr \<times> nat) list \<Rightarrow> jstr \<Rightarrow> nat" where
  "count_of counts k = (case map_of counts k of None \<Rightarrow> 0 | Some n \<Rightarrow> n)"

definition count_ported :: "jstr \<Rightarrow> port_state \<Rightarrow> nat \<times> json \<Rightarrow> port_state" where
  "count_ported i s = (\<lambda>(index, ported).
     let t = rule_type ported; counted = s\<lparr>po_counts := om_set t (count_of (po_counts s) t + 1) (po_counts s)\<rparr>
     in if t = js ''todo''
        then counted\<lparr>po_todos := po_todos s @ [(i, index, string_of (obj_get ported (js ''isInflected'')))]\<rparr>
        else counted)"

definition transform_object :: "jstr \<Rightarrow> yomitan_transform \<Rightarrow> json list \<Rightarrow> json" where
  "transform_object i t rules = JObj ([(js ''id'', JStr i), (js ''name'', yt_name t), (js ''description'', yt_description t)]
     @ filter (\<lambda>e. snd e \<noteq> JUndef) [(js ''i18n'', yt_i18n t)]
     @ [(js ''source'', JStr (js ''yomitan'')), (js ''rules'', JArr rules)])"

definition port_transform ::
    "jstr list \<Rightarrow> port_state \<Rightarrow> jstr \<times> yomitan_transform \<Rightarrow> port_error + port_state" where
  "port_transform probes s = (\<lambda>(i, t). bindE (mapE (\<lambda>rule. classifyRule rule probes) (yt_rules t)) (\<lambda>rules.
     let s' = foldl (count_ported i) s (enum rules)
     in Inr (s'\<lparr>po_transforms := po_transforms s' @ [transform_object i t rules]\<rparr>)))"

record ported =
  pd_file :: json
  pd_counts :: "(jstr \<times> nat) list"
  pd_todos :: "(jstr \<times> nat \<times> jstr) list"

definition portDescriptor :: "yomitan_descriptor \<Rightarrow> jstr list \<Rightarrow> port_error + ported" where
  "portDescriptor descriptor probes =
     bindE (port_conditions (yd_conditions descriptor)) (\<lambda>conditions.
     bindE (foldE (port_transform probes) \<lparr>po_counts = [], po_todos = [], po_transforms = []\<rparr> (yd_transforms descriptor)) (\<lambda>s.
       Inr \<lparr>pd_file = JObj [(js ''schema'', JNum 1), (js ''conditions'', JObj conditions), (js ''transforms'', JArr (po_transforms s))],
         pd_counts = po_counts s, pd_todos = po_todos s\<rparr>))"

section \<open>The command\<close>

record port_args =
  pa_positional :: "jstr list"
  pa_out :: "jstr option"
  pa_force :: bool
  pa_languages :: jstr

fun parse_port_args :: "jstr list \<Rightarrow> port_args \<Rightarrow> port_args option" where
  "parse_port_args [] a = Some a"
| "parse_port_args (arg # rest) a =
     (if arg = js ''--out'' then (case rest of
          [] \<Rightarrow> None | file # rest' \<Rightarrow> parse_port_args rest' (a\<lparr>pa_out := Some file\<rparr>))
      else if arg = js ''--force'' then parse_port_args rest (a\<lparr>pa_force := True\<rparr>)
      else if arg = js ''--languages'' then (case rest of
          [] \<Rightarrow> None | dir # rest' \<Rightarrow> parse_port_args rest' (a\<lparr>pa_languages := dir\<rparr>))
      else if starts_with arg [45] then None
      else parse_port_args rest (a\<lparr>pa_positional := pa_positional a @ [arg]\<rparr>))"

text \<open>The exit status, the file written and whether the checkout is not at the pinned revision. \<open>load\<close> is
  \<open>loadTransformDescriptor\<close> on the checkout.\<close>

record port_outcome =
  pt_status :: nat
  pt_written :: "(jstr \<times> jstr) option"
  pt_warned :: bool

definition port_main ::
    "files \<Rightarrow> (jstr \<Rightarrow> jstr option) \<Rightarrow> (jstr \<Rightarrow> jstr \<Rightarrow> yomitan_error + found_descriptor option) \<Rightarrow> jstr \<Rightarrow> jstr list \<Rightarrow>
      port_error + port_outcome" where
  "port_main fs revision load defaultDir argv =
     (case parse_port_args argv \<lparr>pa_positional = [], pa_out = None, pa_force = False, pa_languages = defaultDir\<rparr> of
        None \<Rightarrow> Inr \<lparr>pt_status = 2, pt_written = None, pt_warned = False\<rparr>
      | Some a \<Rightarrow> (case pa_positional a of
            [root, code] \<Rightarrow>
              let warned = (revision root \<noteq> Some PINNED_REVISION) in
              (case load root code of
                 Inl e \<Rightarrow> Inl (PortYomitan e)
               | Inr None \<Rightarrow> Inr \<lparr>pt_status = 1, pt_written = None, pt_warned = warned\<rparr>
               | Inr (Some found) \<Rightarrow>
                   let file = (case pa_out a of Some f \<Rightarrow> f
                         | None \<Rightarrow> path_join (path_join (path_join (pa_languages a) code) (js ''sources'')) (js ''yomitan.json''))
                   in if fs file \<noteq> None \<and> \<not> pa_force a
                      then Inr \<lparr>pt_status = 1, pt_written = None, pt_warned = warned\<rparr>
                      else bindE (portDescriptor (fd_descriptor found) PROBE_STEMS) (\<lambda>p.
                        Inr \<lparr>pt_status = 0, pt_written = Some (file, formatTransforms (pd_file p)), pt_warned = warned\<rparr>))
          | _ \<Rightarrow> Inr \<lparr>pt_status = 2, pt_written = None, pt_warned = False\<rparr>))"

end
