(* ===== verification/Merge_Transforms.thy ===== *)
theory Merge_Transforms
  imports Js_Value Pack
begin

text \<open>
  Merging the two sources of a pack's transforms (tools/merge-transforms.mjs): \<open>canonical\<close>, the union of
  conditions and word lists, the pairing of the rules of a transform both files have, the merged file,
  and the command with its protection of a hand-edited transforms.json.

  An id is compared by its value (\<open>Map\<close> and \<open>Set\<close> compare objects by identity; an id is a string).
\<close>

section \<open>Canonical text\<close>

fun canonical :: "json \<Rightarrow> jstr"
  and canonical_elems :: "json list \<Rightarrow> jstr list"
  and canonical_entries :: "(jstr \<times> json) list \<Rightarrow> (jstr \<times> jstr) list" where
  "canonical (JArr vs) = [91] @ join [44] (canonical_elems vs) @ [93]"
| "canonical (JObj es) = [123] @ join [44] (map (\<lambda>(k, t). quote_js k @ [58] @ t)
     (sort_by (\<lambda>a b. js_le (fst a) (fst b)) (canonical_entries es))) @ [125]"
| "canonical v = stringify_scalar v"
| "canonical_elems [] = []"
| "canonical_elems (v # vs) = canonical v # canonical_elems vs"
| "canonical_entries [] = []"
| "canonical_entries ((k, v) # es) =
     (k, if v = JUndef then js ''undefined'' else canonical v) # canonical_entries es"

section \<open>Sources and errors\<close>

datatype rule_source = Own | Yomitan | Both

fun source_name :: "rule_source \<Rightarrow> jstr" where
  "source_name Own = js ''own''"
| "source_name Yomitan = js ''yomitan''"
| "source_name Both = js ''both''"

datatype merge_error =
    NoTransforms rule_source
  | TodoRules nat "json list"
  | ConditionDiffers jstr rule_source
  | WordListDiffers jstr rule_source
  | MergeType

record merge_counts =
  mc_own :: nat
  mc_yomitan :: nat
  mc_both :: nat

definition no_counts :: merge_counts where
  "no_counts = \<lparr>mc_own = 0, mc_yomitan = 0, mc_both = 0\<rparr>"

fun bump :: "rule_source \<Rightarrow> merge_counts \<Rightarrow> merge_counts" where
  "bump Own c = c\<lparr>mc_own := mc_own c + 1\<rparr>"
| "bump Yomitan c = c\<lparr>mc_yomitan := mc_yomitan c + 1\<rparr>"
| "bump Both c = c\<lparr>mc_both := mc_both c + 1\<rparr>"

definition withoutSource :: "json \<Rightarrow> merge_error + json" where
  "withoutSource rule = (if nullish rule then Inl MergeType
     else Inr (JObj (without_key (js ''source'') (object_entries rule))))"

definition conditionShape :: "json \<Rightarrow> jstr" where
  "conditionShape condition = canonical (JObj [(js ''name'', obj_get condition (js ''name'')),
     (js ''isDictionaryForm'', obj_get condition (js ''isDictionaryForm'')),
     (js ''subConditions'', or_else (obj_get condition (js ''subConditions'')) JNull)])"

section \<open>The two files\<close>

definition source_file :: "json \<Rightarrow> json" where
  "source_file v = or_else v (JObj [(js ''transforms'', JArr [])])"

definition file_transforms :: "rule_source \<Rightarrow> json \<Rightarrow> merge_error + json list" where
  "file_transforms name file = (case obj_get file (js ''transforms'') of
       JArr ts \<Rightarrow> Inr ts | _ \<Rightarrow> Inl (NoTransforms name))"

text \<open>\<open>t.rules ?? []\<close>, before \<open>map\<close> or \<open>filter\<close>.\<close>

definition transform_rules :: "json \<Rightarrow> merge_error + json list" where
  "transform_rules t = bindE (get_prop MergeType t (js ''rules''))
     (\<lambda>rules. array_items MergeType (or_else rules (JArr [])))"

definition is_todo :: "json \<Rightarrow> bool" where
  "is_todo r \<longleftrightarrow> obj_get r (js ''type'') = JStr (js ''todo'')"

text \<open>The ids of the transforms, once for each \<open>todo\<close> rule.\<close>

definition todo_ids :: "json list \<Rightarrow> merge_error + json list" where
  "todo_ids ts = bindE (mapE (\<lambda>t. bindE (transform_rules t)
     (\<lambda>rules. Inr (map (\<lambda>_. obj_get t (js ''id'')) (filter is_todo rules)))) ts) (\<lambda>ids. Inr (concat ids))"

section \<open>Conditions and word lists\<close>

definition add_condition ::
    "rule_source \<Rightarrow> (jstr \<times> json) list \<Rightarrow> jstr \<times> json \<Rightarrow> merge_error + (jstr \<times> json) list" where
  "add_condition name conditions = (\<lambda>(k, condition). case lookup_in conditions k of
       None \<Rightarrow> Inr (obj_put k condition conditions)
     | Some c \<Rightarrow> if conditionShape c \<noteq> conditionShape condition then Inl (ConditionDiffers k name)
         else Inr conditions)"

definition merge_conditions :: "json \<Rightarrow> json \<Rightarrow> merge_error + (jstr \<times> json) list" where
  "merge_conditions own yomitan =
     bindE (foldE (add_condition Yomitan) [] (object_entries (obj_get yomitan (js ''conditions'')))) (\<lambda>conditions.
       foldE (add_condition Own) conditions (object_entries (obj_get own (js ''conditions''))))"

definition sorted_words :: "json \<Rightarrow> merge_error + jstr" where
  "sorted_words words = bindE (iter_values MergeType words) (\<lambda>ws. Inr (canonical (JArr (array_sort ws))))"

definition add_words ::
    "rule_source \<Rightarrow> (jstr \<times> json) list \<Rightarrow> jstr \<times> json \<Rightarrow> merge_error + (jstr \<times> json) list" where
  "add_words name wordLists = (\<lambda>(k, words). case lookup_in wordLists k of
       None \<Rightarrow> Inr (obj_put k words wordLists)
     | Some ws \<Rightarrow> bindE (sorted_words ws) (\<lambda>a. bindE (sorted_words words) (\<lambda>b.
         if a \<noteq> b then Inl (WordListDiffers k name) else Inr wordLists)))"

definition merge_words :: "json \<Rightarrow> json \<Rightarrow> merge_error + (jstr \<times> json) list" where
  "merge_words own yomitan =
     bindE (foldE (add_words Yomitan) [] (object_entries (obj_get yomitan (js ''wordLists'')))) (\<lambda>wordLists.
       foldE (add_words Own) wordLists (object_entries (obj_get own (js ''wordLists''))))"

section \<open>Transforms and rules\<close>

definition header :: "json \<Rightarrow> rule_source \<Rightarrow> (jstr \<times> json) list" where
  "header transform source =
     [(js ''id'', obj_get transform (js ''id'')), (js ''name'', obj_get transform (js ''name''))]
     @ filter (\<lambda>e. snd e \<noteq> JUndef) [(js ''description'', obj_get transform (js ''description''))]
     @ [(js ''source'', JStr (source_name source))]
     @ filter (\<lambda>e. snd e \<noteq> JUndef) [(js ''optional'', obj_get transform (js ''optional'')),
         (js ''i18n'', obj_get transform (js ''i18n''))]"

definition tagged :: "json \<Rightarrow> rule_source \<Rightarrow> rule_source \<Rightarrow> merge_error + json" where
  "tagged rule source transformSource = bindE (withoutSource rule) (\<lambda>out.
     Inr (if source \<noteq> transformSource then put (js ''source'') (JStr (source_name source)) out else out))"

text \<open>The state the loops over rules change: \<open>unpaired\<close>, \<open>counts\<close> and the rules so far.\<close>

record pairing =
  pg_unpaired :: "(jstr \<times> nat) list"
  pg_counts :: merge_counts
  pg_rules :: "json list"

definition left_of :: "(jstr \<times> nat) list \<Rightarrow> jstr \<Rightarrow> nat" where
  "left_of unpaired k = (case map_of unpaired k of None \<Rightarrow> 0 | Some n \<Rightarrow> n)"

definition rule_key :: "json \<Rightarrow> merge_error + jstr" where
  "rule_key rule = bindE (withoutSource rule) (\<lambda>r. Inr (canonical r))"

definition count_rule :: "(jstr \<times> nat) list \<Rightarrow> json \<Rightarrow> merge_error + (jstr \<times> nat) list" where
  "count_rule unpaired rule = bindE (rule_key rule) (\<lambda>k. Inr (om_set k (left_of unpaired k + 1) unpaired))"

definition push_rule :: "json \<Rightarrow> rule_source \<Rightarrow> rule_source \<Rightarrow> pairing \<Rightarrow> merge_error + pairing" where
  "push_rule rule source transformSource s = bindE (tagged rule source transformSource) (\<lambda>r.
     Inr (s\<lparr>pg_counts := bump source (pg_counts s), pg_rules := pg_rules s @ [r]\<rparr>))"

definition take_unpaired :: "jstr \<Rightarrow> pairing \<Rightarrow> pairing" where
  "take_unpaired k s = s\<lparr>pg_unpaired := om_set k (left_of (pg_unpaired s) k - 1) (pg_unpaired s)\<rparr>"

definition pair_theirs :: "pairing \<Rightarrow> json \<Rightarrow> merge_error + pairing" where
  "pair_theirs s rule = bindE (rule_key rule) (\<lambda>k.
     if 0 < left_of (pg_unpaired s) k then push_rule rule Both Both (take_unpaired k s)
     else push_rule rule Yomitan Both s)"

definition pair_mine :: "pairing \<Rightarrow> json \<Rightarrow> merge_error + pairing" where
  "pair_mine s rule = bindE (rule_key rule) (\<lambda>k.
     if 0 < left_of (pg_unpaired s) k then push_rule rule Own Both (take_unpaired k s) else Inr s)"

text \<open>The rules of a transform both files have: Yomitan's, then own.json's others.\<close>

definition pair_rules :: "json list \<Rightarrow> json list \<Rightarrow> merge_counts \<Rightarrow> merge_error + pairing" where
  "pair_rules mine theirs counts =
     bindE (foldE count_rule [] mine) (\<lambda>unpaired.
     bindE (foldE pair_theirs \<lparr>pg_unpaired = unpaired, pg_counts = counts, pg_rules = []\<rparr> theirs) (\<lambda>s.
       foldE pair_mine s mine))"

text \<open>The rules of a transform only one file has.\<close>

definition single_rules :: "rule_source \<Rightarrow> json list \<Rightarrow> merge_counts \<Rightarrow> merge_error + pairing" where
  "single_rules source rules counts =
     foldE (\<lambda>s rule. push_rule rule source source s) \<lparr>pg_unpaired = [], pg_counts = counts, pg_rules = []\<rparr> rules"

definition with_rules :: "(jstr \<times> json) list \<Rightarrow> json list \<Rightarrow> json" where
  "with_rules head rules = JObj (head @ [(js ''rules'', JArr rules)])"

text \<open>\<open>{...theirs, ...mine, i18n: mine.i18n ?? theirs.i18n}\<close>\<close>

definition merged_head :: "json \<Rightarrow> json \<Rightarrow> json" where
  "merged_head mine theirs = put (js ''i18n'') (or_else (obj_get mine (js ''i18n'')) (obj_get theirs (js ''i18n'')))
     (JObj (fold (\<lambda>(k, v). obj_put k v) (object_entries theirs @ object_entries mine) []))"

record merge_note =
  mn_id :: json
  mn_field :: jstr
  mn_own :: json
  mn_yomitan :: json

definition field_note :: "json \<Rightarrow> json \<Rightarrow> jstr \<Rightarrow> merge_note list" where
  "field_note mine theirs field =
     (if obj_get mine field \<noteq> JUndef \<and>
         canonical (obj_get mine field) \<noteq> canonical (or_else (obj_get theirs field) JNull)
      then [\<lparr>mn_id = obj_get theirs (js ''id''), mn_field = field, mn_own = obj_get mine field,
        mn_yomitan = obj_get theirs field\<rparr>] else [])"

definition note_text :: "merge_note \<Rightarrow> jstr" where
  "note_text n = to_js (mn_id n) @ js '': '' @ mn_field n @ js '' is '' @ show_json (mn_own n) @ js '' in own.json, ''
     @ show_json (mn_yomitan n) @ js '' in yomitan.json; own.json's is kept''"

section \<open>mergeTransforms\<close>

record merging =
  mg_transforms :: "json list"
  mg_counts :: merge_counts
  mg_notes :: "merge_note list"

definition add_transform :: "(jstr \<times> json) list \<Rightarrow> merging \<Rightarrow> pairing \<Rightarrow> merging" where
  "add_transform head s p =
     s\<lparr>mg_transforms := mg_transforms s @ [with_rules head (pg_rules p)], mg_counts := pg_counts p\<rparr>"

definition merge_theirs :: "(json \<times> json) list \<Rightarrow> merging \<Rightarrow> json \<Rightarrow> merge_error + merging" where
  "merge_theirs ownById s theirs = (case map_of ownById (obj_get theirs (js ''id'')) of
       None \<Rightarrow> bindE (transform_rules theirs) (\<lambda>rules.
         bindE (single_rules Yomitan rules (mg_counts s)) (\<lambda>p. Inr (add_transform (header theirs Yomitan) s p)))
     | Some mine \<Rightarrow>
         let notes = concat (map (field_note mine theirs) (map js [''name'', ''description'', ''optional'']))
         in bindE (iter_values MergeType (or_else (obj_get mine (js ''rules'')) (JArr []))) (\<lambda>mine_rules.
            bindE (transform_rules theirs) (\<lambda>their_rules.
            bindE (pair_rules mine_rules their_rules (mg_counts s)) (\<lambda>p.
              Inr (add_transform (header (merged_head mine theirs) Both) (s\<lparr>mg_notes := mg_notes s @ notes\<rparr>) p)))))"

definition merge_mine :: "json list \<Rightarrow> merging \<Rightarrow> json \<Rightarrow> merge_error + merging" where
  "merge_mine yomitanIds s mine =
     (if obj_get mine (js ''id'') \<in> set yomitanIds then Inr s
      else bindE (transform_rules mine) (\<lambda>rules.
        bindE (single_rules Own rules (mg_counts s)) (\<lambda>p. Inr (add_transform (header mine Own) s p))))"

definition transform_ids :: "json list \<Rightarrow> merge_error + json list" where
  "transform_ids ts = mapE (\<lambda>t. get_prop MergeType t (js ''id'')) ts"

definition merged_file :: "(jstr \<times> json) list \<Rightarrow> (jstr \<times> json) list \<Rightarrow> json list \<Rightarrow> json" where
  "merged_file conditions wordLists transforms = JObj
     ([(js ''schema'', JNum 1), (js ''conditions'', JObj conditions)]
      @ (if wordLists \<noteq> [] then [(js ''wordLists'', JObj wordLists)] else [])
      @ [(js ''transforms'', JArr transforms)])"

record merged =
  md_file :: json
  md_counts :: merge_counts
  md_notes :: "merge_note list"

definition merge_files :: "json \<Rightarrow> json \<Rightarrow> json list \<Rightarrow> json list \<Rightarrow> merge_error + merged" where
  "merge_files own yomitan own_ts yomitan_ts =
     bindE (todo_ids yomitan_ts) (\<lambda>todos.
     if todos \<noteq> [] then Inl (TodoRules (length todos) (take 5 (ls_of todos)))
     else
       bindE (merge_conditions own yomitan) (\<lambda>conditions.
       bindE (merge_words own yomitan) (\<lambda>wordLists.
       bindE (transform_ids own_ts) (\<lambda>own_ids.
       bindE (transform_ids yomitan_ts) (\<lambda>yomitan_ids.
       let ownById = fold (\<lambda>(i, t). om_set i t) (zip own_ids own_ts) []
       in bindE (foldE (merge_theirs ownById) \<lparr>mg_transforms = [], mg_counts = no_counts, mg_notes = []\<rparr> yomitan_ts) (\<lambda>s.
          bindE (foldE (merge_mine yomitan_ids) s own_ts) (\<lambda>s'.
            Inr \<lparr>md_file = merged_file conditions wordLists (mg_transforms s'), md_counts = mg_counts s',
              md_notes = mg_notes s'\<rparr>)))))))"

definition mergeTransforms :: "json \<Rightarrow> json \<Rightarrow> merge_error + merged" where
  "mergeTransforms own yomitan =
     bindE (file_transforms Own (source_file own)) (\<lambda>own_ts.
     bindE (file_transforms Yomitan (source_file yomitan)) (\<lambda>yomitan_ts.
       merge_files (source_file own) (source_file yomitan) own_ts yomitan_ts))"

section \<open>The command\<close>

record merge_args =
  ma_positional :: "jstr list"
  ma_languages :: jstr
  ma_out :: "jstr option"
  ma_force :: bool

text \<open>\<open>None\<close> is the usage message; an option without its value ends the arguments with \<open>undefined\<close>.\<close>

fun parse_merge_args :: "jstr list \<Rightarrow> merge_args \<Rightarrow> merge_args option" where
  "parse_merge_args [] a = Some a"
| "parse_merge_args (arg # rest) a =
     (if arg = js ''--languages'' then (case rest of
          [] \<Rightarrow> None | dir # rest' \<Rightarrow> parse_merge_args rest' (a\<lparr>ma_languages := dir\<rparr>))
      else if arg = js ''--out'' then (case rest of
          [] \<Rightarrow> None | file # rest' \<Rightarrow> parse_merge_args rest' (a\<lparr>ma_out := Some file\<rparr>))
      else if arg = js ''--force'' then parse_merge_args rest (a\<lparr>ma_force := True\<rparr>)
      else if starts_with arg [45] then None
      else parse_merge_args rest (a\<lparr>ma_positional := ma_positional a @ [arg]\<rparr>))"

definition readSource :: "files \<Rightarrow> jstr \<Rightarrow> json_error + json" where
  "readSource fs file = (case fs file of None \<Rightarrow> Inr JNull | Some text \<Rightarrow> parseJson text)"

text \<open>The exit status and the file the command writes.\<close>

record merge_outcome =
  mo_status :: nat
  mo_written :: "(jstr \<times> jstr) option"
  mo_warnings :: "jstr list"

definition merge_fails :: "nat \<Rightarrow> merge_outcome" where
  "merge_fails n = \<lparr>mo_status = n, mo_written = None, mo_warnings = []\<rparr>"

definition replaceable :: "files \<Rightarrow> jstr \<Rightarrow> jstr \<Rightarrow> jstr \<Rightarrow> bool" where
  "replaceable fs languagesDir existing text \<longleftrightarrow> existing = text \<or>
     fs (path_join (path_join languagesDir (js ''_template'')) (js ''transforms.json'')) = Some existing"

definition write_merged :: "files \<Rightarrow> merge_args \<Rightarrow> jstr \<Rightarrow> merged \<Rightarrow> merge_outcome" where
  "write_merged fs a code merged =
     (let text = formatTransforms (md_file merged);
          file = (case ma_out a of Some f \<Rightarrow> f
            | None \<Rightarrow> path_join (path_join (ma_languages a) code) (js ''transforms.json''))
      in if (case fs file of None \<Rightarrow> True
             | Some existing \<Rightarrow> ma_force a \<or> replaceable fs (ma_languages a) existing text)
         then \<lparr>mo_status = 0, mo_written = Some (file, text),
           mo_warnings = map (\<lambda>n. code @ js '': note: '' @ note_text n) (md_notes merged)\<rparr>
         else merge_fails 1)"

definition merge_main :: "files \<Rightarrow> jstr \<Rightarrow> jstr list \<Rightarrow> merge_outcome" where
  "merge_main fs defaultDir argv =
     (case parse_merge_args argv \<lparr>ma_positional = [], ma_languages = defaultDir, ma_out = None, ma_force = False\<rparr> of
        None \<Rightarrow> merge_fails 2
      | Some a \<Rightarrow> (case ma_positional a of
            [code] \<Rightarrow>
              let sources = path_join (path_join (ma_languages a) code) (js ''sources'')
              in (case readSource fs (path_join sources (js ''own.json'')) of
                    Inl _ \<Rightarrow> merge_fails 1
                  | Inr own \<Rightarrow> (case readSource fs (path_join sources (js ''yomitan.json'')) of
                        Inl _ \<Rightarrow> merge_fails 1
                      | Inr yomitan \<Rightarrow>
                          if own = JNull \<and> yomitan = JNull then merge_fails 1
                          else (case mergeTransforms own yomitan of
                              Inl _ \<Rightarrow> merge_fails 1
                            | Inr merged \<Rightarrow> write_merged fs a code merged)))
          | _ \<Rightarrow> merge_fails 2))"

end
