(* ===== verification/Canonical.thy ===== *)
theory Canonical
  imports Merge_Transforms
begin

text \<open>
  What \<open>canonical\<close> of tools/merge-transforms.mjs compares: two JSON values have the same canonical text
  exactly when they are equal up to the order of object keys. The canonical text is JSON, so it parses
  back to a reordering of its value.
\<close>

section \<open>Equality up to key order\<close>

fun json_same :: "json \<Rightarrow> json \<Rightarrow> bool" where
  "json_same (JArr vs) (JArr ws) = list_all2 json_same vs ws"
| "json_same (JObj es) (JObj fs) = (fst ` set es = fst ` set fs \<and>
     (\<forall>e\<in>set es. case map_of fs (fst e) of None \<Rightarrow> False | Some w \<Rightarrow> json_same (snd e) w))"
| "json_same v w = (isScalar v \<and> v = w)"

text \<open>What \<open>JSON.parse\<close> gives: no \<open>undefined\<close> anywhere.\<close>

fun json_plain :: "json \<Rightarrow> bool" where
  "json_plain JUndef = False"
| "json_plain (JStr s) = wf_js s"
| "json_plain (JArr vs) = list_all json_plain vs"
| "json_plain (JObj es) = (obj_ok es \<and> list_all (\<lambda>(k, v). wf_js k \<and> json_plain v) es)"
| "json_plain _ = True"

lemma json_plain_ok: "json_plain v \<Longrightarrow> json_ok v"
proof (induction v rule: json_plain.induct)
  case (4 es)
  then show ?case by (fastforce simp: list_all_iff)
qed (auto simp: list_all_iff)

section \<open>Canonical text parses back\<close>

definition fst_le :: "jstr \<times> 'a \<Rightarrow> jstr \<times> 'b \<Rightarrow> bool" where
  "fst_le a b = js_le (fst a) (fst b)"

fun reorder :: "json \<Rightarrow> json" where
  "reorder (JArr vs) = JArr (map reorder vs)"
| "reorder (JObj es) = JObj (obj_of (sort_by fst_le (map (\<lambda>(k, v). (k, reorder v)) es)))"
| "reorder v = v"

lemma reorder_scalar [simp]:
  "reorder v = JUndef \<longleftrightarrow> v = JUndef"
  "reorder v = JNull \<longleftrightarrow> v = JNull"
  "reorder v = JBool b \<longleftrightarrow> v = JBool b"
  "reorder v = JNum n \<longleftrightarrow> v = JNum n"
  "reorder v = JStr s \<longleftrightarrow> v = JStr s"
  "JStr s = reorder v \<longleftrightarrow> v = JStr s"
  "JBool b = reorder v \<longleftrightarrow> v = JBool b"
  "JNum n = reorder v \<longleftrightarrow> v = JNum n"
  "JNull = reorder v \<longleftrightarrow> v = JNull"
  by (cases v; auto)+

lemma map_fst_values [simp]: "map fst (map (\<lambda>(k, v). (k, f v)) es) = map fst es"
  by (simp add: comp_def case_prod_beta)

lemma canonical_elems_map: "canonical_elems vs = map canonical vs"
  by (induction vs) auto

lemma canonical_entries_map:
  "canonical_entries es = map (\<lambda>(k, v). (k, if v = JUndef then js ''undefined'' else canonical v)) es"
  by (induction es) auto

lemma renders_entryC: "wf_js k \<Longrightarrow> renders t v \<Longrightarrow> renders_entry (quote_js k @ 58 # t) (k, v)"
  unfolding renders_entry_def by (rule exI [of _ "[]"], rule exI [of _ "[]"]) simp

lemma renders_canonical:
  shows "json_plain v \<Longrightarrow> renders (canonical v) (reorder v)"
    and "list_all json_plain vs \<Longrightarrow> list_all2 renders_elem (canonical_elems vs) (map reorder vs)"
    and "list_all (\<lambda>(k, v). wf_js k \<and> json_plain v) es \<Longrightarrow>
      list_all2 (\<lambda>(k, t) (k', v). k = k' \<and> wf_js k \<and> renders t v) (canonical_entries es)
        (map (\<lambda>(k, v). (k, reorder v)) es)"
proof (induction v and vs and es rule: canonical_canonical_elems_canonical_entries.induct)
  case (1 vs)
  then show ?case using renders_array [of _ _ "[]"] by simp
next
  case (2 es)
  let ?R = "\<lambda>(k, t) (k', v). k = k' \<and> wf_js k \<and> renders t v"
  have "list_all2 ?R (sort_by (\<lambda>a b. js_le (fst a) (fst b)) (canonical_entries es))
      (sort_by fst_le (map (\<lambda>(k, v). (k, reorder v)) es))"
    by (rule list_all2_sort_by) (use 2 in \<open>auto simp: fst_le_def\<close>)
  then have "list_all2 renders_entry (map (\<lambda>(k, t). quote_js k @ [58] @ t)
      (sort_by (\<lambda>a b. js_le (fst a) (fst b)) (canonical_entries es)))
      (sort_by fst_le (map (\<lambda>(k, v). (k, reorder v)) es))"
    unfolding list_all2_map1
    by (rule list_all2_mono) (auto simp: renders_entryC)
  from renders_object [OF this, of "[]"] show ?case by simp
next
  case (7 k v es)
  then show ?case by auto
qed (use renders_scalars in \<open>auto intro: renders_elem_renders simp del: stringify_scalar.simps\<close>)

lemma canonical_reorder:
  assumes "json_plain v" and "json_plain w" and "canonical v = canonical w"
  shows "reorder v = reorder w"
proof -
  have "json_parse (canonical u @ []) = Some (reorder u)" if "json_plain u" for u
    by (rule renders_parses [OF renders_canonical(1) [OF that]]) (simp_all add: stops_def skip_ws_def)
  from this [OF assms(1)] this [OF assms(2)] show ?thesis using assms(3) by simp
qed

section \<open>The order of keys\<close>

lemma map_of_fold_obj_put:
  "map_of (fold (\<lambda>(k, v). obj_put k v) es acc) = map_of acc ++ map_of (rev es)"
  by (induction es arbitrary: acc) (auto simp: map_add_assoc [symmetric] fun_eq_iff map_add_def split: option.splits)

lemma map_of_obj_of: "distinct (map fst es) \<Longrightarrow> map_of (obj_of es) = map_of es"
  unfolding obj_of_def by (simp add: map_of_fold_obj_put)
    (metis distinct_map distinct_rev map_of_inject_set rev_map set_rev)

lemma map_of_sort_by: "distinct (map fst es) \<Longrightarrow> map_of (sort_by le es) = map_of es"
proof -
  assume d: "distinct (map fst es)"
  have "distinct (map fst (sort_by le es))"
    using d by (metis distinct_map distinct_sort_by set_sort_by)
  then show ?thesis using d by (intro map_of_inject_set [THEN iffD2]) auto
qed

lemma reorder_entries:
  assumes "distinct (map fst es)" and "reorder (JObj es) = reorder (JObj fs)" and "distinct (map fst fs)"
  shows "map_option reorder (map_of es k) = map_option reorder (map_of fs k)"
proof -
  have one: "map_of (obj_of (sort_by fst_le (map (\<lambda>(k, v). (k, reorder v)) gs))) k = map_option reorder (map_of gs k)"
    if "distinct (map fst gs)" for gs
  proof -
    have d: "distinct (map fst (map (\<lambda>(k, v). (k, reorder v)) gs))"
      using that by (simp only: map_fst_values)
    then have "distinct (map fst (sort_by fst_le (map (\<lambda>(k, v). (k, reorder v)) gs)))"
      by (metis distinct_map distinct_sort_by set_sort_by)
    then show ?thesis by (simp add: map_of_obj_of map_of_sort_by [OF d] map_of_map)
  qed
  show ?thesis using one [OF assms(1)] one [OF assms(3)] assms(2) by simp
qed

lemma reorder_same: "json_plain v \<Longrightarrow> json_plain w \<Longrightarrow> reorder v = reorder w \<Longrightarrow> json_same v w"
proof (induction v w rule: json_same.induct)
  case (1 vs ws)
  then have "map reorder vs = map reorder ws" by simp
  then have "list_all2 (\<lambda>v w. reorder v = reorder w) vs ws"
    by (metis list_all2_map1 list_all2_map2 list_all2_eq)
  then have "list_all2 (\<lambda>v w. v \<in> set vs \<and> w \<in> set ws \<and> reorder v = reorder w) vs ws"
    by (simp add: list_all2_conv_all_nth)
  then show ?case using 1 by (auto simp: list_all_iff elim!: list_all2_mono)
next
  case (2 es fs)
  have d: "distinct (map fst es)" "distinct (map fst fs)" using 2(2,3) by (auto simp: obj_ok_def)
  note maps = reorder_entries [OF d(1) 2(4) d(2)]
  have "dom (map_of es) = dom (map_of fs)"
    using maps by (auto simp: dom_def) (metis option.map_disc_iff not_None_eq)+
  then have keys: "fst ` set es = fst ` set fs" by (simp add: dom_map_of_conv_image_fst)
  have "case map_of fs (fst e) of None \<Rightarrow> False | Some w \<Rightarrow> json_same (snd e) w" if "e \<in> set es" for e
  proof -
    have e: "map_of es (fst e) = Some (snd e)" using that d(1) by simp
    with maps [of "fst e"] obtain w where w: "map_of fs (fst e) = Some w" "reorder (snd e) = reorder w"
      by (auto simp: map_option_case split: option.splits)
    have "json_plain (snd e)" "json_plain w"
      using 2(2,3) that map_of_SomeD [OF w(1)] by (auto simp: list_all_iff)
    then show ?thesis using 2(1) [OF that w(1)] w by simp
  qed
  then show ?case using keys by simp
qed auto

section \<open>Same values have the same canonical text\<close>

lemma same_canonical: "json_plain v \<Longrightarrow> json_plain w \<Longrightarrow> json_same v w \<Longrightarrow> canonical v = canonical w"
proof (induction v w rule: json_same.induct)
  case (1 vs ws)
  then have "list_all2 (\<lambda>v w. canonical v = canonical w) vs ws"
    by (auto simp: list_all2_conv_all_nth list_all_length)
  then have "map canonical vs = map canonical ws"
    by (metis list_all2_map1 list_all2_map2 list_all2_eq)
  then show ?case by (simp add: canonical_elems_map)
next
  case (2 es fs)
  let ?c = "map (\<lambda>(k, v). (k, canonical v))"
  have d: "distinct (map fst es)" "distinct (map fst fs)" using 2(2,3) by (auto simp: obj_ok_def)
  have nu: "canonical_entries gs = ?c gs" if "json_plain (JObj gs)" for gs
    using that by (force simp: canonical_entries_map list_all_iff)
  have fsts: "map fst (?c gs) = map fst gs" for gs by (rule map_fst_values)
  have sub: "set (?c es) \<subseteq> set (?c fs)"
  proof
    fix x assume "x \<in> set (?c es)"
    then obtain k v where e: "(k, v) \<in> set es" "x = (k, canonical v)" by auto
    with 2(4) obtain w where w: "map_of fs k = Some w" "json_same v w" by (auto split: option.splits)
    have "json_plain v" "json_plain w" using 2(2,3) e(1) map_of_SomeD [OF w(1)] by (auto simp: list_all_iff)
    with 2(1) [OF e(1)] w have "canonical v = canonical w" by auto
    then show "x \<in> set (?c fs)" using e(2) map_of_SomeD [OF w(1)] by force
  qed
  have "set (?c fs) \<subseteq> set (?c es)"
  proof
    fix x assume x: "x \<in> set (?c fs)"
    then have "fst x \<in> set (map fst (?c fs))" by force
    then have "fst x \<in> set (map fst (?c es))" using 2(4) unfolding fsts by simp
    then have "\<exists>y\<in>set (?c es). fst y = fst x" by (metis (no_types, lifting) image_iff list.set_map)
    then obtain y where y: "y \<in> set (?c es)" "fst y = fst x" by blast
    then have "y \<in> set (?c fs)" using sub by blast
    moreover have "inj_on fst (set (?c fs))" using d(2) fsts [of fs] by (metis distinct_map)
    ultimately show "x \<in> set (?c es)" using x y by (metis inj_onD)
  qed
  with sub have "mset (?c es) = mset (?c fs)"
    using d fsts by (metis distinct_map set_eq_iff_mset_eq_distinct subset_antisym)
  moreover have "a = b" if "a \<in> set (?c es)" "b \<in> set (?c es)" "js_le (fst a) (fst b)" "js_le (fst b) (fst a)" for a b
    using that d(1) fsts [of es] js_le_antisym by (metis distinct_map inj_onD)
  ultimately have "sort_by (\<lambda>a b. js_le (fst a) (fst b)) (?c es) = sort_by (\<lambda>a b. js_le (fst a) (fst b)) (?c fs)"
    by (intro sort_by_mset_cong) (auto simp: js_le_total intro: js_le_trans)
  then show ?case using nu [OF 2(2)] nu [OF 2(3)] by simp
qed auto

section \<open>Property\<close>

text \<open>C35: Two values of parsed JSON have the same canonical text exactly when they are the same value up
  to the order of object keys, at every depth.\<close>

theorem canonical_same:
  assumes "json_plain v" and "json_plain w"
  shows "canonical v = canonical w \<longleftrightarrow> json_same v w"
  using same_canonical [OF assms] reorder_same [OF assms canonical_reorder [OF assms]] by blast

theorem canonical_same_witness:
  "canonical (JObj [(js ''b'', JNum 1), (js ''a'', JArr [JNull])]) = canonical (JObj [(js ''a'', JArr [JNull]), (js ''b'', JNum 1)])"
proof -
  let ?v = "JObj [(js ''b'', JNum 1), (js ''a'', JArr [JNull])]" and ?w = "JObj [(js ''a'', JArr [JNull]), (js ''b'', JNum 1)]"
  have "json_plain ?v" "json_plain ?w" "json_same ?v ?w" by code_simp+
  then show ?thesis by (simp only: canonical_same)
qed

end
