(* ===== verification/Merge_Correct.thy ===== *)
theory Merge_Correct
  imports Canonical
begin

text \<open>
  Correctness of tools/merge-transforms.mjs: the pairing of the rules of a shared transform is multiset
  intersection and difference, the merged file has every transform and every rule of the two sources,
  it is a value \<open>formatTransforms\<close> can write, and the command does not replace a hand-edited
  transforms.json.
\<close>

section \<open>Rules without their source\<close>

definition rule_text :: "json \<Rightarrow> jstr" where
  "rule_text rule = canonical (JObj (without_key (js ''source'') (object_entries rule)))"

abbreviation origin :: "json \<Rightarrow> json" where
  "origin r \<equiv> obj_get r (js ''source'')"

definition by_source :: "json \<Rightarrow> json list \<Rightarrow> jstr multiset" where
  "by_source v rules = mset (map rule_text (filter (\<lambda>r. origin r = v) rules))"

lemma by_source_simps [simp]:
  "by_source v [] = {#}"
  "by_source v (rs @ [r]) = (if origin r = v then add_mset (rule_text r) (by_source v rs) else by_source v rs)"
  "by_source v (r # rs) = (if origin r = v then add_mset (rule_text r) (by_source v rs) else by_source v rs)"
  "by_source v (rs @ ss) = by_source v rs + by_source v ss"
  by (simp_all add: by_source_def)

lemma withoutSource_Inr: "withoutSource rule = Inr r \<longleftrightarrow>
    \<not> nullish rule \<and> r = JObj (without_key (js ''source'') (object_entries rule))"
  by (auto simp: withoutSource_def)

lemma rule_key_Inr: "rule_key rule = Inr k \<longleftrightarrow> \<not> nullish rule \<and> k = rule_text rule"
  by (auto simp: rule_key_def withoutSource_Inr rule_text_def)

lemma index_key_name [simp]: "\<not> is_digit c \<Longrightarrow> index_key (c # k) = None"
  by (simp add: index_key_def)

lemma key_before_name [simp]: "index_key k = None \<Longrightarrow> \<not> key_before k k'"
  by (simp add: key_before_def)

lemma without_key_put:
  "index_key k = None \<Longrightarrow> obj_put k v (without_key k es) = without_key k es @ [(k, v)]"
  by (rule obj_put_last) (auto simp: without_key_def)

lemma map_of_without_key: "map_of (without_key k es) = (map_of es)(k := None)"
  by (induction es) (auto simp: without_key_def fun_eq_iff)

lemma without_key_twice: "without_key k (without_key k es @ [(k, v)]) = without_key k es"
  "without_key k (without_key k es) = without_key k es"
  by (simp_all add: without_key_def)

definition tag :: "rule_source \<Rightarrow> rule_source \<Rightarrow> json" where
  "tag source transformSource = (if source = transformSource then JUndef else JStr (source_name source))"

lemma tagged_Inr:
  assumes "tagged rule source transformSource = Inr r"
  shows "\<not> nullish rule" and "rule_text r = rule_text rule" and "origin r = tag source transformSource"
    and "r = JObj (without_key (js ''source'') (object_entries rule) @
      (if source = transformSource then [] else [(js ''source'', JStr (source_name source))]))"
proof -
  have "index_key (js ''source'') = None" by (simp add: is_digit_def)
  note put = without_key_put [OF this]
  let ?es = "without_key (js ''source'') (object_entries rule)"
  show n: "\<not> nullish rule" and r: "r = JObj (?es @
      (if source = transformSource then [] else [(js ''source'', JStr (source_name source))]))"
    using assms put by (auto simp: tagged_def withoutSource_Inr put_def split: if_splits)
  show "rule_text r = rule_text rule"
    using r by (simp add: rule_text_def without_key_twice del: js_simps)
  show "origin r = tag source transformSource"
    using r by (simp add: tag_def obj_get_JObj map_add_def map_of_without_key del: js_simps)
qed

lemma push_rule_Inr:
  assumes "push_rule rule source transformSource s = Inr s'"
  obtains r where "tagged rule source transformSource = Inr r"
    and "s' = s\<lparr>pg_counts := bump source (pg_counts s), pg_rules := pg_rules s @ [r]\<rparr>"
  using assms by (auto simp: push_rule_def)

section \<open>Pairing\<close>

text \<open>The map \<open>unpaired\<close> is a multiset of canonical texts.\<close>

definition reps :: "jstr multiset \<Rightarrow> (jstr \<times> nat) list \<Rightarrow> bool" where
  "reps u m \<longleftrightarrow> (\<forall>k. left_of m k = count u k)"

lemma reps_simps:
  "reps {#} []"
  "reps u m \<Longrightarrow> reps (add_mset k u) (om_set k (left_of m k + 1) m)"
  "reps u m \<Longrightarrow> reps (u - {#k#}) (om_set k (left_of m k - 1) m)"
  "reps u m \<Longrightarrow> 0 < left_of m k \<longleftrightarrow> k \<in># u"
  by (auto simp: reps_def left_of_def)

lemma count_rules:
  assumes "foldE count_rule m rules = Inr m'" and "reps u m"
  shows "reps (u + mset (map rule_text rules)) m'"
  using assms
proof (induction rules arbitrary: m u)
  case Nil
  then show ?case by simp
next
  case (Cons r rs)
  from Cons.prems(1) obtain m1 where m1: "count_rule m r = Inr m1" "foldE count_rule m1 rs = Inr m'"
    by auto
  from m1(1) have "m1 = om_set (rule_text r) (left_of m (rule_text r) + 1) m"
    by (auto simp: count_rule_def rule_key_Inr)
  with m1(2) have "foldE count_rule (om_set (rule_text r) (left_of m (rule_text r) + 1) m) rs = Inr m'"
    by simp
  from Cons.IH [OF this reps_simps(2) [OF Cons.prems(2)]] show ?case by simp
qed

text \<open>Adding to the three counters.\<close>

definition add_counts :: "nat \<Rightarrow> nat \<Rightarrow> nat \<Rightarrow> merge_counts \<Rightarrow> merge_counts" where
  "add_counts n y b c = \<lparr>mc_own = mc_own c + n, mc_yomitan = mc_yomitan c + y, mc_both = mc_both c + b\<rparr>"

declare bump.simps [simp del]

lemma add_counts_simps [simp]:
  "add_counts 0 0 0 c = c"
  "bump Own c = add_counts 1 0 0 c"
  "bump Yomitan c = add_counts 0 1 0 c"
  "bump Both c = add_counts 0 0 1 c"
  "add_counts a b d (add_counts a' b' d' c) = add_counts (a' + a) (b' + b) (d' + d) c"
  by (simp_all add: add_counts_def bump.simps)

abbreviation "both_tag \<equiv> JUndef"
abbreviation "yomitan_tag \<equiv> JStr (js ''yomitan'')"
abbreviation "own_tag \<equiv> JStr (js ''own'')"

lemma tag_both [simp]:
  "tag Both Both = both_tag" "tag Yomitan Both = yomitan_tag" "tag Own Both = own_tag"
  by (simp_all add: tag_def)

lemma tags_differ: "own_tag \<noteq> yomitan_tag"
  by simp

lemma pair_theirs_fold:
  assumes "foldE pair_theirs s theirs = Inr s'" and "reps u (pg_unpaired s)"
  obtains rs where "pg_rules s' = pg_rules s @ rs" and "map rule_text rs = map rule_text theirs"
    and "reps (u - mset (map rule_text theirs)) (pg_unpaired s')"
    and "by_source both_tag rs = u \<inter># mset (map rule_text theirs)"
    and "by_source yomitan_tag rs = mset (map rule_text theirs) - u" and "by_source own_tag rs = {#}"
    and "pg_counts s' = add_counts 0 (size (mset (map rule_text theirs) - u))
      (size (u \<inter># mset (map rule_text theirs))) (pg_counts s)"
  using assms
proof (induction theirs arbitrary: s u thesis)
  case Nil
  then show ?case by (auto intro: Nil(1) [of "[]"])
next
  case (Cons t ts)
  let ?k = "rule_text t" and ?T = "mset (map rule_text ts)"
  from Cons.prems(2) obtain s1 where s1: "pair_theirs s t = Inr s1" and ts: "foldE pair_theirs s1 ts = Inr s'"
    by auto
  show ?case
  proof (cases "?k \<in># u")
    case True
    then have "push_rule t Both Both (take_unpaired ?k s) = Inr s1"
      using s1 Cons.prems(3) by (auto simp: pair_theirs_def rule_key_Inr reps_simps(4))
    then obtain r where r: "tagged t Both Both = Inr r" and s1': "pg_rules s1 = pg_rules s @ [r]"
        "pg_unpaired s1 = om_set ?k (left_of (pg_unpaired s) ?k - 1) (pg_unpaired s)"
        "pg_counts s1 = bump Both (pg_counts s)"
      by (elim push_rule_Inr) (auto simp: take_unpaired_def)
    have "reps (u - {#?k#}) (pg_unpaired s1)" using s1'(2) reps_simps(3) [OF Cons.prems(3)] by simp
    from Cons.IH [OF _ ts this] obtain rs where rs: "pg_rules s' = pg_rules s1 @ rs"
        "map rule_text rs = map rule_text ts" "reps (u - {#?k#} - ?T) (pg_unpaired s')"
        "by_source both_tag rs = (u - {#?k#}) \<inter># ?T" "by_source yomitan_tag rs = ?T - (u - {#?k#})"
        "by_source own_tag rs = {#}"
        "pg_counts s' = add_counts 0 (size (?T - (u - {#?k#}))) (size ((u - {#?k#}) \<inter># ?T)) (pg_counts s1)"
      by blast
    obtain u' where u: "u = add_mset ?k u'" using True by (metis multi_member_split)
    show ?thesis
      by (rule Cons.prems(1) [of "r # rs"]) (use rs s1' tagged_Inr [OF r] u in simp_all)
  next
    case False
    then have "push_rule t Yomitan Both s = Inr s1"
      using s1 Cons.prems(3) by (auto simp: pair_theirs_def rule_key_Inr reps_simps(4))
    then obtain r where r: "tagged t Yomitan Both = Inr r" and s1': "pg_rules s1 = pg_rules s @ [r]"
        "pg_unpaired s1 = pg_unpaired s" "pg_counts s1 = bump Yomitan (pg_counts s)"
      by (elim push_rule_Inr) auto
    have "reps u (pg_unpaired s1)" using s1'(2) Cons.prems(3) by simp
    from Cons.IH [OF _ ts this] obtain rs where rs: "pg_rules s' = pg_rules s1 @ rs"
        "map rule_text rs = map rule_text ts" "reps (u - ?T) (pg_unpaired s')"
        "by_source both_tag rs = u \<inter># ?T" "by_source yomitan_tag rs = ?T - u" "by_source own_tag rs = {#}"
        "pg_counts s' = add_counts 0 (size (?T - u)) (size (u \<inter># ?T)) (pg_counts s1)"
      by blast
    show ?thesis
      by (rule Cons.prems(1) [of "r # rs"])
        (use rs s1' tagged_Inr [OF r] False in \<open>simp_all add: inter_add_right1 diff_union_swap\<close>)
  qed
qed

lemma pair_mine_fold:
  assumes "foldE pair_mine s mine = Inr s'" and "reps u (pg_unpaired s)"
  obtains rs where "pg_rules s' = pg_rules s @ rs" and "by_source own_tag rs = u \<inter># mset (map rule_text mine)"
    and "by_source both_tag rs = {#}" and "by_source yomitan_tag rs = {#}"
    and "pg_counts s' = add_counts (size (u \<inter># mset (map rule_text mine))) 0 0 (pg_counts s)"
  using assms
proof (induction mine arbitrary: s u thesis)
  case Nil
  then show ?case by (auto intro: Nil(1) [of "[]"])
next
  case (Cons t ts)
  let ?k = "rule_text t" and ?T = "mset (map rule_text ts)"
  from Cons.prems(2) obtain s1 where s1: "pair_mine s t = Inr s1" and ts: "foldE pair_mine s1 ts = Inr s'"
    by auto
  show ?case
  proof (cases "?k \<in># u")
    case True
    then have "push_rule t Own Both (take_unpaired ?k s) = Inr s1"
      using s1 Cons.prems(3) by (auto simp: pair_mine_def rule_key_Inr reps_simps(4))
    then obtain r where r: "tagged t Own Both = Inr r" and s1': "pg_rules s1 = pg_rules s @ [r]"
        "pg_unpaired s1 = om_set ?k (left_of (pg_unpaired s) ?k - 1) (pg_unpaired s)"
        "pg_counts s1 = bump Own (pg_counts s)"
      by (elim push_rule_Inr) (auto simp: take_unpaired_def)
    have "reps (u - {#?k#}) (pg_unpaired s1)" using s1'(2) reps_simps(3) [OF Cons.prems(3)] by simp
    from Cons.IH [OF _ ts this] obtain rs where rs: "pg_rules s' = pg_rules s1 @ rs"
        "by_source own_tag rs = (u - {#?k#}) \<inter># ?T" "by_source both_tag rs = {#}" "by_source yomitan_tag rs = {#}"
        "pg_counts s' = add_counts (size ((u - {#?k#}) \<inter># ?T)) 0 0 (pg_counts s1)"
      by blast
    obtain u' where u: "u = add_mset ?k u'" using True by (metis multi_member_split)
    show ?thesis
      by (rule Cons.prems(1) [of "r # rs"]) (use rs s1' tagged_Inr [OF r] u in simp_all)
  next
    case False
    then have "s1 = s"
      using s1 Cons.prems(3) by (auto simp: pair_mine_def rule_key_Inr reps_simps(4))
    with Cons.IH [OF _ ts] Cons.prems(3) obtain rs where "pg_rules s' = pg_rules s @ rs"
        "by_source own_tag rs = u \<inter># ?T" "by_source both_tag rs = {#}" "by_source yomitan_tag rs = {#}"
        "pg_counts s' = add_counts (size (u \<inter># ?T)) 0 0 (pg_counts s)"
      by blast
    then show ?thesis using False Cons.prems(1) [of rs] by (simp add: inter_add_right1)
  qed
qed

lemma pair_rules_sources:
  fixes mine theirs
  defines "m \<equiv> mset (map rule_text mine)" and "t \<equiv> mset (map rule_text theirs)"
  assumes "pair_rules mine theirs c = Inr s"
  shows "by_source both_tag (pg_rules s) = m \<inter># t" and "by_source yomitan_tag (pg_rules s) = t - m"
    and "by_source own_tag (pg_rules s) = m - t"
    and "map rule_text (take (length theirs) (pg_rules s)) = map rule_text theirs"
    and "pg_counts s = add_counts (size (m - t)) (size (t - m)) (size (m \<inter># t)) c"
proof -
  from assms(3) obtain unp s1 where c: "foldE count_rule [] mine = Inr unp"
    and th: "foldE pair_theirs \<lparr>pg_unpaired = unp, pg_counts = c, pg_rules = []\<rparr> theirs = Inr s1"
    and mi: "foldE pair_mine s1 mine = Inr s"
    by (auto simp: pair_rules_def)
  have "reps m unp" using count_rules [OF c reps_simps(1)] by (simp add: m_def)
  then obtain rs where rs: "pg_rules s1 = rs" "map rule_text rs = map rule_text theirs"
      "reps (m - t) (pg_unpaired s1)" "by_source both_tag rs = m \<inter># t" "by_source yomitan_tag rs = t - m"
      "by_source own_tag rs = {#}" "pg_counts s1 = add_counts 0 (size (t - m)) (size (m \<inter># t)) c"
    using pair_theirs_fold [OF th, of m] by (auto simp: t_def)
  obtain rs' where rs': "pg_rules s = pg_rules s1 @ rs'" "by_source own_tag rs' = (m - t) \<inter># m"
      "by_source both_tag rs' = {#}" "by_source yomitan_tag rs' = {#}"
      "pg_counts s = add_counts (size ((m - t) \<inter># m)) 0 0 (pg_counts s1)"
    using pair_mine_fold [OF mi rs(3)] by (auto simp: m_def)
  have "(m - t) \<inter># m = m - t" by (simp add: multiset_eq_iff)
  moreover have "length rs = length theirs" using rs(2) by (metis length_map)
  ultimately show "by_source both_tag (pg_rules s) = m \<inter># t" "by_source yomitan_tag (pg_rules s) = t - m"
    "by_source own_tag (pg_rules s) = m - t"
    "map rule_text (take (length theirs) (pg_rules s)) = map rule_text theirs"
    "pg_counts s = add_counts (size (m - t)) (size (t - m)) (size (m \<inter># t)) c"
    using rs rs' by simp_all
qed

section \<open>Transforms\<close>

definition transforms_of :: "json \<Rightarrow> json list" where
  "transforms_of file = (case obj_get file (js ''transforms'') of JArr ts \<Rightarrow> ts | _ \<Rightarrow> [])"

definition rules_of :: "json \<Rightarrow> json list" where
  "rules_of t = (case obj_get t (js ''rules'') of JArr rs \<Rightarrow> rs | _ \<Rightarrow> [])"

abbreviation id_of :: "json \<Rightarrow> json" where
  "id_of t \<equiv> obj_get t (js ''id'')"

text \<open>The canonical texts of a transform's rules.\<close>

definition rule_texts :: "json \<Rightarrow> jstr set" where
  "rule_texts t = set (map rule_text (rules_of t))"

lemma header_get:
  "id_of (with_rules (header t source) rs) = id_of t"
  "rules_of (with_rules (header t source) rs) = rs"
  by (simp_all add: with_rules_def header_def obj_get_JObj rules_of_def)

lemma transform_rules_Inr: "transform_rules t = Inr rs \<Longrightarrow> rules_of t = rs"
  by (auto simp: transform_rules_def get_prop_def rules_of_def or_else_def nullish_def split: if_splits)

lemma push_rules_fold:
  assumes "foldE (\<lambda>s rule. push_rule rule source source s) s rules = Inr s'"
  shows "map rule_text (pg_rules s') = map rule_text (pg_rules s) @ map rule_text rules"
  using assms
proof (induction rules arbitrary: s)
  case Nil
  then show ?case by simp
next
  case (Cons r rs)
  then obtain s1 where s1: "push_rule r source source s = Inr s1"
    and rs: "foldE (\<lambda>s rule. push_rule rule source source s) s1 rs = Inr s'" by auto
  from s1 obtain x where "tagged r source source = Inr x" "pg_rules s1 = pg_rules s @ [x]"
    by (elim push_rule_Inr) auto
  then show ?case using Cons.IH [OF rs] tagged_Inr(2) by simp
qed

lemma single_rules_texts: "single_rules source rules c = Inr p \<Longrightarrow> map rule_text (pg_rules p) = map rule_text rules"
  unfolding single_rules_def by (drule push_rules_fold) simp

section \<open>The entries of a parsed value\<close>

lemma num_js_digits: "list_all is_digit (num_js (int i))"
  by (simp add: num_js_def dec_digits_digits)

lemma digits_wf: "list_all is_digit s \<Longrightarrow> wf_js s"
  by (auto simp: list_all_iff wf_js_def is_digit_def)

lemma object_entries_keys:
  "(k, x) \<in> set (object_entries v) \<Longrightarrow> \<not> list_all is_digit k \<Longrightarrow> \<exists>es. v = JObj es"
  by (cases v) (auto simp: object_entries_def num_js_digits)

lemma object_entries_plain:
  assumes "json_plain v" and "(k, x) \<in> set (object_entries v)"
  shows "wf_js k" and "json_plain x"
proof -
  have "wf_js k \<and> json_plain x"
  proof (cases v)
    case (JStr s)
    then obtain i u where iu: "(i, u) \<in> set (enum s)" and kx: "k = num_js (int i)" "x = JStr [u]"
      using assms(2) by (auto simp: object_entries_def)
    then have "u \<in> set s" by (metis enum_set nth_mem)
    then show ?thesis using JStr assms(1) kx digits_wf [OF num_js_digits [of i]] by (auto simp: wf_js_def)
  next
    case (JArr vs)
    then obtain i where iu: "(i, x) \<in> set (enum vs)" and kx: "k = num_js (int i)"
      using assms(2) by (auto simp: object_entries_def)
    then have "x \<in> set vs" by (metis enum_set nth_mem)
    then show ?thesis using JArr assms(1) kx digits_wf [OF num_js_digits [of i]] by (auto simp: list_all_iff)
  qed (use assms in \<open>auto simp: object_entries_def list_all_iff\<close>)
  then show "wf_js k" "json_plain x" by auto
qed

lemma object_entries_get:
  assumes "json_plain v" and "\<not> list_all is_digit k"
  shows "map_of (rev (object_entries v)) k = (if obj_get v k = JUndef then None else Some (obj_get v k))"
proof (cases "\<exists>es. v = JObj es")
  case True
  then obtain es where v: "v = JObj es" by blast
  have "distinct (map fst es)" using assms(1) v by (simp add: obj_ok_def)
  then have "map_of (rev es) = map_of es"
    by (metis distinct_map distinct_rev map_of_inject_set rev_map set_rev)
  moreover have "x \<noteq> JUndef" if "map_of es k = Some x" for x
    using map_of_SomeD [OF that] assms(1) v by (auto simp: list_all_iff)
  ultimately show ?thesis using v by (auto simp: obj_get_JObj split: option.splits)
next
  case False
  then have "k \<notin> fst ` set (rev (object_entries v))"
    using object_entries_keys [OF _ assms(2)] by fastforce
  then have "map_of (rev (object_entries v)) k = None" by (simp only: map_of_eq_None_iff not_False_eq_True)
  moreover have "obj_get v k = JUndef" using False by (cases v) (auto simp: obj_get_def)
  ultimately show ?thesis by simp
qed

lemma merged_head_get:
  assumes "json_plain mine" and "json_plain theirs" and "\<not> list_all is_digit k" and "k \<noteq> js ''i18n''"
  shows "obj_get (merged_head mine theirs) k = (if obj_get mine k = JUndef then obj_get theirs k else obj_get mine k)"
  using assms object_entries_get [OF assms(1,3)] object_entries_get [OF assms(2,3)]
  by (simp add: merged_head_def put_def obj_get_JObj map_of_fold_obj_put map_add_def del: js_simps)

lemma obj_get_plain: "json_plain v \<Longrightarrow> obj_get v k = JUndef \<or> json_plain (obj_get v k)"
  by (cases v) (auto simp: obj_get_def list_all_iff split: option.splits dest!: map_of_SomeD)

lemma merged_head_ok:
  assumes "json_plain mine" and "json_plain theirs"
  shows "obj_get (merged_head mine theirs) k = JUndef \<or> json_plain (obj_get (merged_head mine theirs) k)"
proof -
  have "json_plain x" if "map_of (rev (object_entries v)) j = Some x" "json_plain v" for v j x
    using map_of_SomeD [OF that(1)] object_entries_plain(2) [OF that(2)] by simp
  then show ?thesis
    using assms obj_get_plain [OF assms(1), of "js ''i18n''"] obj_get_plain [OF assms(2), of "js ''i18n''"]
    by (auto simp: merged_head_def put_def obj_get_JObj map_of_fold_obj_put map_add_def or_else_def
      simp del: js_simps split: option.splits)
qed

section \<open>One transform\<close>

lemma by_source_sub: "by_source v rs \<subseteq># mset (map rule_text rs)"
  unfolding by_source_def by (simp add: image_mset_subseteq_mono multiset_filter_subset)

lemma pair_rules_texts:
  assumes "pair_rules mine theirs c = Inr s"
  shows "set (map rule_text mine) \<union> set (map rule_text theirs) \<subseteq> set (map rule_text (pg_rules s))"
proof -
  note src = pair_rules_sources(1-3) [OF assms]
  let ?m = "mset (map rule_text mine)" and ?t = "mset (map rule_text theirs)"
  have "?m = ?m \<inter># ?t + (?m - ?t)" "?t = ?m \<inter># ?t + (?t - ?m)"
    by (simp_all add: multiset_eq_iff min_def del: mset_map)
  then have "x \<in># ?m \<inter># ?t \<or> x \<in># ?m - ?t \<or> x \<in># ?t - ?m" if "x \<in># ?m \<or> x \<in># ?t" for x
    using that by (metis union_iff)
  then have "x \<in># mset (map rule_text (pg_rules s))" if "x \<in># ?m \<or> x \<in># ?t" for x
    using that src by_source_sub [of _ "pg_rules s"] by (metis mset_subset_eqD)
  then show ?thesis by (auto simp only: set_mset_mset)
qed

definition covers :: "json \<Rightarrow> json \<Rightarrow> bool" where
  "covers t out \<longleftrightarrow> id_of out = id_of t \<and> rule_texts t \<subseteq> rule_texts out"

lemma merge_theirs_Inr:
  assumes "merge_theirs ownById s theirs = Inr s'" and "json_plain theirs"
    and "\<And>i t. map_of ownById i = Some t \<Longrightarrow> id_of t = i \<and> json_plain t"
  obtains out where "mg_transforms s' = mg_transforms s @ [out]" and "covers theirs out"
    and "\<And>mine. map_of ownById (id_of theirs) = Some mine \<Longrightarrow> covers mine out"
proof (cases "map_of ownById (id_of theirs)")
  case None
  then obtain rules p where "transform_rules theirs = Inr rules" "single_rules Yomitan rules (mg_counts s) = Inr p"
      "s' = add_transform (header theirs Yomitan) s p"
    using assms(1) by (auto simp: merge_theirs_def)
  then show ?thesis
    using None that [of "with_rules (header theirs Yomitan) (pg_rules p)"] single_rules_texts [of Yomitan]
    by (auto simp: add_transform_def covers_def header_get rule_texts_def transform_rules_Inr
      simp del: list.set_map js_simps)
next
  case (Some mine)
  then obtain mr tr p n where mr: "iter_values MergeType (or_else (obj_get mine (js ''rules'')) (JArr [])) = Inr mr"
      and tr: "transform_rules theirs = Inr tr" and p: "pair_rules mr tr (mg_counts s) = Inr p"
      and s': "s' = add_transform (header (merged_head mine theirs) Both) (s\<lparr>mg_notes := n\<rparr>) p"
    using assms(1) by (auto simp: merge_theirs_def)
  have mine: "id_of mine = id_of theirs" "json_plain mine" using assms(3) [OF Some] by auto
  have "id_of (merged_head mine theirs) = id_of theirs"
    using merged_head_get [OF mine(2) assms(2), of "js ''id''"] mine(1) by (simp add: is_digit_def)
  moreover have "set (rules_of mine) \<subseteq> set mr"
    using mr by (auto simp: rules_of_def iter_values_def or_else_def nullish_def split: json.splits if_splits)
  then have "rule_texts mine \<subseteq> set (map rule_text mr)" by (auto simp: rule_texts_def)
  moreover have "rule_texts theirs = set (map rule_text tr)" using transform_rules_Inr [OF tr] by (simp add: rule_texts_def)
  ultimately show ?thesis
    using Some s' mine(1) pair_rules_texts [OF p]
      that [of "with_rules (header (merged_head mine theirs) Both) (pg_rules p)"]
    by (auto simp: add_transform_def covers_def header_get rule_texts_def simp del: list.set_map js_simps)
qed

section \<open>The merged file\<close>

text \<open>What \<open>mergeTransforms\<close> has done when it returns.\<close>

lemma mergeTransforms_parts:
  assumes "mergeTransforms own yomitan = Inr m"
  obtains o_ts y_ts cs ws byId s1 s2 where
    "obj_get (source_file own) (js ''transforms'') = JArr o_ts"
    and "obj_get (source_file yomitan) (js ''transforms'') = JArr y_ts"
    and "merge_conditions (source_file own) (source_file yomitan) = Inr cs"
    and "merge_words (source_file own) (source_file yomitan) = Inr ws"
    and "byId = fold (\<lambda>(i, t). om_set i t) (zip (map id_of o_ts) o_ts) []"
    and "foldE (merge_theirs byId) \<lparr>mg_transforms = [], mg_counts = no_counts, mg_notes = []\<rparr> y_ts = Inr s1"
    and "foldE (merge_mine (map id_of y_ts)) s1 o_ts = Inr s2"
    and "md_file m = merged_file cs ws (mg_transforms s2)" and "md_counts m = mg_counts s2"
proof -
  have ids: "is = map id_of ts" if "transform_ids ts = Inr is" for ts "is"
    using that unfolding transform_ids_def
    by (induction ts arbitrary: "is") (auto simp: get_prop_def split: if_splits)
  have arr: "obj_get f (js ''transforms'') = JArr ts" if "file_transforms n f = Inr ts" for n f ts
    using that by (auto simp: file_transforms_def split: json.splits)
  show ?thesis
    using assms by (auto simp: mergeTransforms_def merge_files_def Let_def simp del: js_simps split: if_splits
      dest!: ids arr intro: that)
qed

lemma transforms_of_merged [simp]: "transforms_of (merged_file cs ws ts) = ts"
  by (simp add: transforms_of_def merged_file_def obj_get_JObj)

definition source_transforms :: "json \<Rightarrow> json list" where
  "source_transforms v = transforms_of (source_file v)"

lemma source_file_plain: "json_plain v \<or> nullish v \<Longrightarrow> json_plain (source_file v)"
  by (auto simp: source_file_def or_else_def obj_ok_def wf_js_def)

lemma source_transforms_plain:
  "json_plain v \<or> nullish v \<Longrightarrow> t \<in> set (source_transforms v) \<Longrightarrow> json_plain t"
  using obj_get_plain [OF source_file_plain, of v "js ''transforms''"]
  by (cases "obj_get (source_file v) (js ''transforms'')")
    (auto simp: source_transforms_def transforms_of_def list_all_iff simp del: js_simps)

lemma list_all2_member:
  assumes "list_all2 P xs ys" and "x \<in> set xs"
  obtains y where "y \<in> set ys" and "P x y"
  using assms by (induction rule: list_all2_induct) auto

lemma find_SomeD: "find P xs = Some x \<Longrightarrow> P x \<and> x \<in> set xs"
  by (induction xs) (auto split: if_splits)

text \<open>The map from ids to own.json's transforms holds the last one with an id.\<close>

lemma ownById_map_of:
  "map_of (fold (\<lambda>(i, t). om_set i t) (zip (map id_of ts) ts) m) i =
    (case find (\<lambda>t. id_of t = i) (rev ts) of Some t \<Rightarrow> Some t | None \<Rightarrow> map_of m i)"
proof (induction ts arbitrary: m)
  case (Cons t ts)
  have "find P (xs @ ys) = (case find P xs of Some x \<Rightarrow> Some x | None \<Rightarrow> find P ys)" for P and xs ys :: "json list"
    by (induction xs) auto
  then show ?case using Cons by (auto split: option.splits)
qed simp

lemma merge_theirs_fold:
  assumes "foldE (merge_theirs byId) s ts = Inr s'" and "\<And>t. t \<in> set ts \<Longrightarrow> json_plain t"
    and "\<And>i t. map_of byId i = Some t \<Longrightarrow> id_of t = i \<and> json_plain t"
  obtains outs where "mg_transforms s' = mg_transforms s @ outs"
    and "list_all2 (\<lambda>t out. covers t out \<and> (\<forall>mine. map_of byId (id_of t) = Some mine \<longrightarrow> covers mine out)) ts outs"
  using assms(1,2)
proof (induction ts arbitrary: s thesis)
  case Nil
  then show ?case by simp
next
  case (Cons t ts)
  then obtain s1 where s1: "merge_theirs byId s t = Inr s1" and rest: "foldE (merge_theirs byId) s1 ts = Inr s'"
    by auto
  have "json_plain t" using Cons.prems(3) by simp
  from merge_theirs_Inr [OF s1 this assms(3)] obtain out where out: "mg_transforms s1 = mg_transforms s @ [out]"
    "covers t out" "\<forall>mine. map_of byId (id_of t) = Some mine \<longrightarrow> covers mine out" by blast
  from Cons.IH [OF _ rest] Cons.prems(3) obtain outs where "mg_transforms s' = mg_transforms s1 @ outs"
    "list_all2 (\<lambda>t out. covers t out \<and> (\<forall>mine. map_of byId (id_of t) = Some mine \<longrightarrow> covers mine out)) ts outs"
    by auto
  then show ?case using out Cons.prems(1) [of "out # outs"] by simp
qed

lemma merge_mine_fold:
  assumes "foldE (merge_mine ids) s ts = Inr s'"
  obtains outs where "mg_transforms s' = mg_transforms s @ outs"
    and "list_all2 covers (filter (\<lambda>t. id_of t \<notin> set ids) ts) outs"
  using assms
proof (induction ts arbitrary: s thesis)
  case Nil
  then show ?case by simp
next
  case (Cons t ts)
  then obtain s1 where s1: "merge_mine ids s t = Inr s1" and rest: "foldE (merge_mine ids) s1 ts = Inr s'"
    by auto
  from Cons.IH [OF _ rest] obtain outs where outs: "mg_transforms s' = mg_transforms s1 @ outs"
    "list_all2 covers (filter (\<lambda>t. id_of t \<notin> set ids) ts) outs" by blast
  show ?case
  proof (cases "id_of t \<in> set ids")
    case True
    then show ?thesis using s1 outs Cons.prems(1) [of outs] by (simp add: merge_mine_def)
  next
    case False
    then obtain rules p where "transform_rules t = Inr rules" "single_rules Own rules (mg_counts s) = Inr p"
        "s1 = add_transform (header t Own) s p"
      using s1 by (auto simp: merge_mine_def)
    then have "mg_transforms s1 = mg_transforms s @ [with_rules (header t Own) (pg_rules p)]"
      and "covers t (with_rules (header t Own) (pg_rules p))"
      using single_rules_texts [of Own]
      by (auto simp: add_transform_def covers_def header_get rule_texts_def transform_rules_Inr
        simp del: list.set_map js_simps)
    then show ?thesis using outs False Cons.prems(1) [of "_ # outs"] by simp
  qed
qed

text \<open>The transforms of the merged file, in order: Yomitan's, then those only own.json has. Each covers its
  source.\<close>

lemma mergeTransforms_covers:
  assumes "mergeTransforms own yomitan = Inr m" and "json_plain own \<or> nullish own"
    and "json_plain yomitan \<or> nullish yomitan"
  shows "list_all2 covers (source_transforms yomitan @
      filter (\<lambda>t. id_of t \<notin> id_of ` set (source_transforms yomitan)) (source_transforms own)) (transforms_of (md_file m))"
    and "\<lbrakk>mine \<in> set (source_transforms own); id_of mine \<in> id_of ` set (source_transforms yomitan);
      find (\<lambda>t. id_of t = id_of mine) (rev (source_transforms own)) = Some mine\<rbrakk> \<Longrightarrow>
      \<exists>out\<in>set (transforms_of (md_file m)). covers mine out"
proof -
  from mergeTransforms_parts [OF assms(1)] obtain o_ts y_ts cs ws byId s1 s2 where
    ts: "obj_get (source_file own) (js ''transforms'') = JArr o_ts"
      "obj_get (source_file yomitan) (js ''transforms'') = JArr y_ts"
    and byId: "byId = fold (\<lambda>(i, t). om_set i t) (zip (map id_of o_ts) o_ts) []"
    and s1: "foldE (merge_theirs byId) \<lparr>mg_transforms = [], mg_counts = no_counts, mg_notes = []\<rparr> y_ts = Inr s1"
    and s2: "foldE (merge_mine (map id_of y_ts)) s1 o_ts = Inr s2"
    and mfile: "md_file m = merged_file cs ws (mg_transforms s2)" .
  have o: "source_transforms own = o_ts" and y: "source_transforms yomitan = y_ts"
    using ts by (simp_all add: source_transforms_def transforms_of_def del: js_simps)
  have map: "map_of byId i = find (\<lambda>t. id_of t = i) (rev o_ts)" for i
    using ownById_map_of [of o_ts "[]" i] byId by (simp split: option.splits)
  have byId_ok: "id_of t = i \<and> json_plain t" if "map_of byId i = Some t" for i t
  proof -
    from that have "id_of t = i" "t \<in> set (rev o_ts)" unfolding map by (auto dest: find_SomeD)
    then show ?thesis using source_transforms_plain [OF assms(2)] o by simp
  qed
  obtain outs where outs: "mg_transforms s1 = outs"
    "list_all2 (\<lambda>t out. covers t out \<and> (\<forall>mine. map_of byId (id_of t) = Some mine \<longrightarrow> covers mine out)) y_ts outs"
    using merge_theirs_fold [OF s1 _ byId_ok] source_transforms_plain [OF assms(3)] y by auto
  obtain outs' where outs': "mg_transforms s2 = outs @ outs'"
    "list_all2 covers (filter (\<lambda>t. id_of t \<notin> id_of ` set y_ts) o_ts) outs'"
    using merge_mine_fold [OF s2] outs(1) by auto
  have "list_all2 covers y_ts outs" using outs(2) by (rule list_all2_mono) blast
  then show "list_all2 covers (source_transforms yomitan @
      filter (\<lambda>t. id_of t \<notin> id_of ` set (source_transforms yomitan)) (source_transforms own)) (transforms_of (md_file m))"
    using outs' o y mfile by (simp add: list_all2_appendI)
  assume mine: "mine \<in> set (source_transforms own)" "id_of mine \<in> id_of ` set (source_transforms yomitan)"
    and last: "find (\<lambda>t. id_of t = id_of mine) (rev (source_transforms own)) = Some mine"
  then obtain t where t: "t \<in> set y_ts" "id_of t = id_of mine" using y by auto
  from t(1) obtain out where "out \<in> set outs" "\<forall>mine. map_of byId (id_of t) = Some mine \<longrightarrow> covers mine out"
    by (rule list_all2_member [OF outs(2)]) blast
  then show "\<exists>out\<in>set (transforms_of (md_file m)). covers mine out"
    using last t(2) map o outs' mfile by auto
qed

section \<open>The merged file can be written\<close>

lemma key_before_trans: "key_before a b \<Longrightarrow> key_before b c \<Longrightarrow> key_before a c"
  by (auto simp: key_before_def split: option.splits)

lemma set_obj_insert: "set (obj_insert k v es) = insert (k, v) (set es)"
  by (induction es) (auto split: if_splits)

lemma obj_insert_sorted:
  assumes "sorted_wrt (\<lambda>a b. \<not> key_before (fst b) (fst a)) es"
  shows "sorted_wrt (\<lambda>a b. \<not> key_before (fst b) (fst a)) (obj_insert k v es)"
  using assms
proof (induction es)
  case Nil
  then show ?case by simp
next
  case (Cons e es)
  show ?case
  proof (cases "key_before k (fst e)")
    case True
    then have "\<not> key_before (fst x) k" if "x \<in> set (e # es)" for x
      using that Cons.prems key_before_trans [of "fst x" k "fst e"]
      by (auto simp: key_before_def split: option.splits)
    then show ?thesis using True Cons.prems by (cases e) auto
  next
    case False
    then show ?thesis using Cons by (cases e) (auto simp: set_obj_insert)
  qed
qed

lemma obj_ok_put: "obj_ok es \<Longrightarrow> obj_ok (obj_put k v es)"
proof (cases "k \<in> fst ` set es")
  case True
  assume ok: "obj_ok es"
  have "map fst (map (\<lambda>(k', v'). if k' = k then (k', v) else (k', v')) es) = map fst es"
    by (induction es) auto
  then have "map fst (obj_put k v es) = map fst es" using True by (simp only: obj_put_def if_True)
  then show ?thesis using ok by (simp only: obj_ok_def)
next
  case False
  assume ok: "obj_ok es"
  have "distinct (map fst (obj_insert k v es))"
    using ok False by (induction es) (auto simp: obj_ok_def set_obj_insert)
  then show ?thesis
    using obj_insert_sorted [of es k v] False ok by (simp add: obj_put_def obj_ok_def sorted_wrt_map)
qed

lemma set_obj_put: "set (obj_put k v es) \<subseteq> insert (k, v) (set es)"
  by (force simp: obj_put_def set_obj_insert split: if_splits)

definition entries_ok :: "(jstr \<times> json) list \<Rightarrow> bool" where
  "entries_ok es \<longleftrightarrow> obj_ok es \<and> (\<forall>(k, v)\<in>set es. wf_js k \<and> json_plain v)"

lemma entries_ok_put: "entries_ok es \<Longrightarrow> wf_js k \<Longrightarrow> json_plain v \<Longrightarrow> entries_ok (obj_put k v es)"
  using obj_ok_put set_obj_put unfolding entries_ok_def by fast

lemma entries_ok_JObj: "entries_ok es \<Longrightarrow> json_ok (JObj es)"
  by (rule json_plain_ok) (auto simp: entries_ok_def list_all_iff)

lemma merge_tables_ok:
  assumes step: "\<And>n es e es'. add n es e = Inr es' \<Longrightarrow> es' = es \<or> es' = obj_put (fst e) (snd e) es"
    and "foldE (add a) [] (object_entries u) = Inr es1" and "foldE (add b) es1 (object_entries v) = Inr es2"
    and "u = JUndef \<or> json_plain u" and "v = JUndef \<or> json_plain v"
  shows "entries_ok es2"
proof -
  have keep: "entries_ok es'" if "add n es e = Inr es'" "e \<in> set (object_entries x)" "json_plain x" "entries_ok es"
    for n es e es' x
    using step [OF that(1)] object_entries_plain [OF that(3), of "fst e" "snd e"] that(2,4) entries_ok_put by auto
  have none: "object_entries JUndef = []" by (simp add: object_entries_def)
  have "entries_ok []" by (simp add: entries_ok_def obj_ok_def)
  then have "entries_ok es1"
    by (rule foldE_invariant [OF assms(2)]) (use assms(4) none keep [of a _ _ _ u] in auto)
  then show ?thesis
    by (rule foldE_invariant [OF assms(3)]) (use assms(5) none keep [of b _ _ _ v] in auto)
qed

lemma merge_conditions_ok:
  assumes "merge_conditions own yomitan = Inr es" and "json_plain own" and "json_plain yomitan"
  shows "entries_ok es"
proof -
  obtain es1 where f: "foldE (add_condition Yomitan) [] (object_entries (obj_get yomitan (js ''conditions''))) = Inr es1"
      "foldE (add_condition Own) es1 (object_entries (obj_get own (js ''conditions''))) = Inr es"
    using assms(1) by (auto simp: merge_conditions_def simp del: js_simps)
  show ?thesis
    by (rule merge_tables_ok [OF _ f obj_get_plain [OF assms(3)] obj_get_plain [OF assms(2)]])
      (auto simp: add_condition_def split: prod.splits option.splits if_splits)
qed

lemma merge_words_ok:
  assumes "merge_words own yomitan = Inr es" and "json_plain own" and "json_plain yomitan"
  shows "entries_ok es"
proof -
  obtain es1 where f: "foldE (add_words Yomitan) [] (object_entries (obj_get yomitan (js ''wordLists''))) = Inr es1"
      "foldE (add_words Own) es1 (object_entries (obj_get own (js ''wordLists''))) = Inr es"
    using assms(1) by (auto simp: merge_words_def simp del: js_simps)
  show ?thesis
    by (rule merge_tables_ok [OF _ f obj_get_plain [OF assms(3)] obj_get_plain [OF assms(2)]])
      (auto simp: add_words_def split: prod.splits option.splits if_splits)
qed

text \<open>Rules are objects.\<close>

fun is_obj :: "json \<Rightarrow> bool" where
  "is_obj (JObj es) = True"
| "is_obj _ = False"

definition rules_typed :: "json \<Rightarrow> bool" where
  "rules_typed t = (case obj_get t (js ''rules'') of
     JUndef \<Rightarrow> True | JNull \<Rightarrow> True | JArr rs \<Rightarrow> list_all is_obj rs | _ \<Rightarrow> False)"

lemma tagged_ok:
  assumes "tagged rule source ts = Inr r" and "json_plain rule" and "is_obj rule"
  shows "json_ok r"
proof -
  obtain es where es: "rule = JObj es" using assms(3) by (cases rule) auto
  have ok: "obj_ok es" and vals: "\<forall>(k, v)\<in>set es. wf_js k \<and> json_ok v"
    using assms(2) es json_plain_ok by (auto simp: list_all_iff)
  have "index_key (js ''source'') = None" by (simp add: is_digit_def)
  note put = without_key_put [OF this]
  have "obj_ok (without_key (js ''source'') es)"
    using ok by (simp add: obj_ok_def without_key_def distinct_map_filter sorted_wrt_filter sorted_wrt_map)
  then have "obj_ok (without_key (js ''source'') es @
      (if source = ts then [] else [(js ''source'', JStr (source_name source))]))"
    using obj_ok_put [of "without_key (js ''source'') es" "js ''source''"] put by (cases "source = ts") (simp_all del: js_simps)
  moreover have "wf_js (source_name source)" by (cases source) (auto simp: wf_js_def)
  moreover have "wf_js (js ''source'')" by (simp add: wf_js_def)
  ultimately show ?thesis
    using tagged_Inr(4) [OF assms(1)] vals es by (auto simp: list_all_iff without_key_def simp del: js_simps)
qed

definition rules_ok :: "pairing \<Rightarrow> bool" where
  "rules_ok s \<longleftrightarrow> list_all json_ok (pg_rules s)"

lemma push_rule_ok:
  "push_rule rule a b s = Inr s' \<Longrightarrow> json_plain rule \<Longrightarrow> is_obj rule \<Longrightarrow> rules_ok s \<Longrightarrow> rules_ok s'"
  by (elim push_rule_Inr) (auto simp: rules_ok_def tagged_ok)

lemma single_rules_ok:
  assumes "single_rules source rules c = Inr p" and "\<And>r. r \<in> set rules \<Longrightarrow> json_plain r \<and> is_obj r"
  shows "rules_ok p"
  using assms(1) unfolding single_rules_def
  by (rule foldE_invariant) (use assms(2) push_rule_ok in \<open>auto simp: rules_ok_def [of "_\<lparr>pg_rules := _\<rparr>"] rules_ok_def [of "\<lparr>pg_unpaired = _, pg_counts = _, pg_rules = _\<rparr>"]\<close>)

lemma pair_rules_ok:
  assumes "pair_rules mine theirs c = Inr p" and "\<And>r. r \<in> set mine \<union> set theirs \<Longrightarrow> json_plain r \<and> is_obj r"
  shows "rules_ok p"
proof -
  from assms(1) obtain unp s1 where th: "foldE pair_theirs \<lparr>pg_unpaired = unp, pg_counts = c, pg_rules = []\<rparr> theirs = Inr s1"
    and mi: "foldE pair_mine s1 mine = Inr p"
    by (auto simp: pair_rules_def)
  have tk: "rules_ok (take_unpaired k s) = rules_ok s" for k s by (simp add: rules_ok_def take_unpaired_def)
  have "rules_ok s1"
    by (rule foldE_invariant [OF th])
      (use assms(2) push_rule_ok tk in \<open>auto simp: pair_theirs_def rules_ok_def [of "\<lparr>pg_unpaired = _, pg_counts = _, pg_rules = _\<rparr>"] split: if_splits\<close>)
  then show ?thesis
    by (rule foldE_invariant [OF mi])
      (use assms(2) push_rule_ok tk in \<open>auto simp: pair_mine_def split: if_splits\<close>)
qed

lemma with_rules_ok:
  assumes "\<And>k. obj_get t k = JUndef \<or> json_plain (obj_get t k)" and "list_all json_ok rs"
  shows "json_ok (with_rules (header t source) rs)"
proof -
  have "wf_js (source_name source)" by (cases source) (auto simp: wf_js_def)
  moreover have "obj_get t k \<noteq> JUndef \<Longrightarrow> json_ok (obj_get t k)" for k
    using assms(1) [of k] json_plain_ok by auto
  ultimately show ?thesis
    using assms(2) by (auto simp: with_rules_def header_def obj_ok_def is_digit_def)
qed

lemma rules_members:
  assumes "json_plain t" and "rules_typed t" and "r \<in> set rs"
    and "iter_values MergeType (or_else (obj_get t (js ''rules'')) (JArr [])) = Inr rs"
  shows "json_plain r \<and> is_obj r"
  using assms obj_get_plain [OF assms(1), of "js ''rules''"]
  by (cases "obj_get t (js ''rules'')")
    (auto simp: rules_typed_def iter_values_def or_else_def list_all_iff simp del: js_simps)

lemma transform_rules_members:
  assumes "transform_rules t = Inr rs" and "json_plain t" and "rules_typed t" and "r \<in> set rs"
  shows "json_plain r \<and> is_obj r"
  by (rule rules_members [OF assms(2-4)])
    (use assms(1) in \<open>auto simp: transform_rules_def get_prop_def iter_values_def simp del: js_simps split: if_splits\<close>)

definition transforms_ok :: "merging \<Rightarrow> bool" where
  "transforms_ok s \<longleftrightarrow> list_all json_ok (mg_transforms s)"

lemma add_transform_ok:
  assumes "transforms_ok s" and "rules_ok p" and "\<And>k. obj_get t k = JUndef \<or> json_plain (obj_get t k)"
  shows "transforms_ok (add_transform (header t source) s p)"
  using assms with_rules_ok [OF assms(3)] by (simp add: transforms_ok_def add_transform_def rules_ok_def)

lemma merge_theirs_ok:
  assumes "merge_theirs byId s theirs = Inr s'" and "transforms_ok s" and "json_plain theirs" "rules_typed theirs"
    and "\<And>i t. map_of byId i = Some t \<Longrightarrow> json_plain t \<and> rules_typed t"
  shows "transforms_ok s'"
proof (cases "map_of byId (id_of theirs)")
  case None
  then obtain rules p where r: "transform_rules theirs = Inr rules" "single_rules Yomitan rules (mg_counts s) = Inr p"
      "s' = add_transform (header theirs Yomitan) s p"
    using assms(1) by (auto simp: merge_theirs_def)
  have "rules_ok p"
    by (rule single_rules_ok [OF r(2)]) (rule transform_rules_members [OF r(1) assms(3,4)])
  then show ?thesis using r(3) add_transform_ok [OF assms(2) _ obj_get_plain [OF assms(3)]] by simp
next
  case (Some mine)
  then obtain mr tr p n where mr: "iter_values MergeType (or_else (obj_get mine (js ''rules'')) (JArr [])) = Inr mr"
      and tr: "transform_rules theirs = Inr tr" and p: "pair_rules mr tr (mg_counts s) = Inr p"
      and s': "s' = add_transform (header (merged_head mine theirs) Both) (s\<lparr>mg_notes := n\<rparr>) p"
    using assms(1) by (auto simp: merge_theirs_def)
  have mine: "json_plain mine" "rules_typed mine" using assms(5) [OF Some] by auto
  have "rules_ok p"
    by (rule pair_rules_ok [OF p])
      (use rules_members [OF mine _ mr] transform_rules_members [OF tr assms(3,4)] in auto)
  moreover have "transforms_ok (s\<lparr>mg_notes := n\<rparr>)" using assms(2) by (simp add: transforms_ok_def)
  ultimately show ?thesis using s' add_transform_ok merged_head_ok [OF mine(1) assms(3)] by blast
qed

lemma merge_mine_ok:
  assumes "merge_mine ids s mine = Inr s'" and "transforms_ok s" and "json_plain mine" "rules_typed mine"
  shows "transforms_ok s'"
proof (cases "id_of mine \<in> set ids")
  case True
  then show ?thesis using assms by (simp add: merge_mine_def)
next
  case False
  then obtain rules p where r: "transform_rules mine = Inr rules" "single_rules Own rules (mg_counts s) = Inr p"
      "s' = add_transform (header mine Own) s p"
    using assms(1) by (auto simp: merge_mine_def)
  have "rules_ok p"
    by (rule single_rules_ok [OF r(2)]) (rule transform_rules_members [OF r(1) assms(3,4)])
  then show ?thesis using r(3) add_transform_ok [OF assms(2) _ obj_get_plain [OF assms(3)]] by simp
qed

text \<open>A source file: parsed JSON or missing, its rules objects.\<close>

definition source_ok :: "json \<Rightarrow> bool" where
  "source_ok v \<longleftrightarrow> (json_plain v \<or> nullish v) \<and> list_all rules_typed (source_transforms v)"

lemma mergeTransforms_json_ok:
  assumes "mergeTransforms own yomitan = Inr m" and "source_ok own" and "source_ok yomitan"
  shows "json_ok (md_file m)"
proof -
  from mergeTransforms_parts [OF assms(1)] obtain o_ts y_ts cs ws byId s1 s2 where
    ts: "obj_get (source_file own) (js ''transforms'') = JArr o_ts"
      "obj_get (source_file yomitan) (js ''transforms'') = JArr y_ts"
    and cs: "merge_conditions (source_file own) (source_file yomitan) = Inr cs"
    and ws: "merge_words (source_file own) (source_file yomitan) = Inr ws"
    and byId: "byId = fold (\<lambda>(i, t). om_set i t) (zip (map id_of o_ts) o_ts) []"
    and s1: "foldE (merge_theirs byId) \<lparr>mg_transforms = [], mg_counts = no_counts, mg_notes = []\<rparr> y_ts = Inr s1"
    and s2: "foldE (merge_mine (map id_of y_ts)) s1 o_ts = Inr s2"
    and mfile: "md_file m = merged_file cs ws (mg_transforms s2)" .
  have o: "source_transforms own = o_ts" and y: "source_transforms yomitan = y_ts"
    using ts by (simp_all add: source_transforms_def transforms_of_def del: js_simps)
  have plain: "json_plain own \<or> nullish own" "json_plain yomitan \<or> nullish yomitan"
    using assms(2,3) by (auto simp: source_ok_def)
  have o_ok: "json_plain t \<and> rules_typed t" if "t \<in> set o_ts" for t
    using that assms(2) source_transforms_plain [OF plain(1)] o by (auto simp: source_ok_def list_all_iff)
  have y_ok: "json_plain t \<and> rules_typed t" if "t \<in> set y_ts" for t
    using that assms(3) source_transforms_plain [OF plain(2)] y by (auto simp: source_ok_def list_all_iff)
  have byId_ok: "json_plain t \<and> rules_typed t" if "map_of byId i = Some t" for i t
  proof -
    have "find (\<lambda>t. id_of t = i) (rev o_ts) = Some t"
      using that ownById_map_of [of o_ts "[]" i] byId by (simp split: option.splits)
    then show ?thesis using o_ok find_SomeD by fastforce
  qed
  have "transforms_ok s1"
    by (rule foldE_invariant [OF s1]) (use merge_theirs_ok byId_ok y_ok in \<open>auto simp: transforms_ok_def\<close>)
  then have "transforms_ok s2"
    by (rule foldE_invariant [OF s2]) (use merge_mine_ok o_ok in blast)
  moreover have "json_ok (JObj cs)" "json_ok (JObj ws)"
    using merge_conditions_ok [OF cs] merge_words_ok [OF ws] source_file_plain plain entries_ok_JObj by blast+
  ultimately show ?thesis
    using mfile by (simp add: merged_file_def transforms_ok_def obj_ok_def wf_js_def is_digit_def)
qed

section \<open>The command\<close>

lemma parse_merge_args_from:
  assumes "parse_merge_args argv a = Some b"
  shows "(ma_force b \<longrightarrow> ma_force a \<or> js ''--force'' \<in> set argv) \<and>
    (ma_languages b = ma_languages a \<or> ma_languages b \<in> set argv)"
  using assms
proof (induction argv a rule: parse_merge_args.induct)
  case (2 arg rest a)
  then show ?case by (auto simp del: js_simps split: if_splits list.splits)
qed simp

section \<open>An example\<close>

definition ex_rule :: "nat \<Rightarrow> json" where
  "ex_rule n = JObj [(js ''in'', JNum (int n)), (js ''source'', JStr (js ''x''))]"

definition ex_own :: json where
  "ex_own = JObj [(js ''transforms'', JArr [
     JObj [(js ''id'', JStr (js ''a'')), (js ''name'', JStr (js ''A'')), (js ''rules'', JArr [ex_rule 1, ex_rule 2])],
     JObj [(js ''id'', JStr (js ''c'')), (js ''rules'', JArr [])]])]"

definition ex_yomitan :: json where
  "ex_yomitan = JObj [(js ''conditions'', JObj [(js ''n'', JObj [])]), (js ''transforms'', JArr [
     JObj [(js ''id'', JStr (js ''b'')), (js ''rules'', JArr [ex_rule 1])],
     JObj [(js ''id'', JStr (js ''a'')), (js ''rules'', JArr [ex_rule 1, ex_rule 3])]])]"

lemma ex_merge:
  "\<not> isl (mergeTransforms ex_own ex_yomitan)" "source_ok ex_own" "source_ok ex_yomitan"
  "json_plain ex_own" "json_plain ex_yomitan" "distinct (map id_of (source_transforms ex_own))"
  by code_simp+

text \<open>Two boundary behaviours. When own.json has an id twice and Yomitan has it too, the rules of the first
  transform are dropped. A condition only one file defines, named as a property of \<open>Object.prototype\<close>, is
  reported as a difference between the files, because \<open>key in conditions\<close> sees inherited names.\<close>

definition ex_twice :: json where
  "ex_twice = JObj [(js ''transforms'', JArr [
     JObj [(js ''id'', JStr (js ''b'')), (js ''rules'', JArr [ex_rule 7])],
     JObj [(js ''id'', JStr (js ''b'')), (js ''rules'', JArr [])]])]"

lemma duplicate_id_drops_rules:
  "case mergeTransforms ex_twice ex_yomitan of Inl e \<Rightarrow> False
    | Inr m \<Rightarrow> \<not> list_ex (\<lambda>out. rule_text (ex_rule 7) \<in> rule_texts out) (transforms_of (md_file m))"
  by code_simp

lemma inherited_condition_rejected:
  "mergeTransforms (JObj [(js ''conditions'', JObj [(js ''toString'', JObj [(js ''name'', JStr (js ''t''))])]),
      (js ''transforms'', JArr [])]) JNull = Inl (ConditionDiffers (js ''toString'') Own)"
  by code_simp

section \<open>Properties\<close>

text \<open>C31: In a transform both files have, a rule is marked \<open>both\<close> once for each pairing of an own.json
  rule with an equal Yomitan rule, \<open>yomitan\<close> for the Yomitan rules left over and \<open>own\<close> for the own.json
  rules left over: the three groups are the intersection and the differences of the multisets of rules.
  Yomitan's rules come first, in their order, and the counters grow by the sizes of the groups.\<close>

theorem pair_rules_correct:
  assumes "pair_rules mine theirs c = Inr s"
  shows "by_source both_tag (pg_rules s) = mset (map rule_text mine) \<inter># mset (map rule_text theirs) \<and>
    by_source yomitan_tag (pg_rules s) = mset (map rule_text theirs) - mset (map rule_text mine) \<and>
    by_source own_tag (pg_rules s) = mset (map rule_text mine) - mset (map rule_text theirs) \<and>
    map rule_text (take (length theirs) (pg_rules s)) = map rule_text theirs \<and>
    pg_counts s = add_counts (size (mset (map rule_text mine) - mset (map rule_text theirs)))
      (size (mset (map rule_text theirs) - mset (map rule_text mine)))
      (size (mset (map rule_text mine) \<inter># mset (map rule_text theirs))) c"
  using pair_rules_sources [OF assms] by blast

theorem pair_rules_correct_witness:
  "by_source both_tag [JObj [(js ''in'', JNum 1)], JObj [(js ''in'', JNum 2), (js ''source'', yomitan_tag)],
     JObj [(js ''in'', JNum 1), (js ''source'', own_tag)]] = {#rule_text (JObj [(js ''in'', JNum 1)])#}"
proof -
  let ?r = "JObj [(js ''in'', JNum 1)]" and ?t = "JObj [(js ''in'', JNum 2)]"
  have "pair_rules [?r, ?r] [?r, ?t] no_counts = Inr \<lparr>pg_unpaired = [(js ''{\"in\":1}'', 0)],
      pg_counts = \<lparr>mc_own = 1, mc_yomitan = 1, mc_both = 1\<rparr>, pg_rules = [?r,
        JObj [(js ''in'', JNum 2), (js ''source'', yomitan_tag)], JObj [(js ''in'', JNum 1), (js ''source'', own_tag)]]\<rparr>"
    by code_simp
  from pair_rules_correct [OF this] have "by_source both_tag [?r,
        JObj [(js ''in'', JNum 2), (js ''source'', yomitan_tag)], JObj [(js ''in'', JNum 1), (js ''source'', own_tag)]] =
      mset (map rule_text [?r, ?r]) \<inter># mset (map rule_text [?r, ?t])"
    by (simp only: pairing.simps)
  moreover have "rule_text ?r \<noteq> rule_text ?t" by code_simp
  ultimately show ?thesis by simp
qed



text \<open>C33: Merging two source files whose rules are objects gives a value \<open>formatTransforms\<close> can write, and
  the written file parses back to it.\<close>

theorem mergeTransforms_writable:
  assumes "mergeTransforms own yomitan = Inr m" and "source_ok own" and "source_ok yomitan"
  shows "json_ok (md_file m) \<and> parseJson (formatTransforms (md_file m)) = Inr (clean (md_file m))"
proof -
  have ok: "json_ok (md_file m)" by (rule mergeTransforms_json_ok [OF assms])
  moreover have "parseJson (formatTransforms (md_file m)) = Inr (clean (md_file m))"
    using json_parse_formatJson [OF ok, of rules_inline] json_parse_bom
    by (cases "formatTransforms (md_file m)") (auto simp: parseJson_def formatTransforms_def unit_at_def)
  ultimately show ?thesis by blast
qed

theorem mergeTransforms_writable_witness:
  "case mergeTransforms ex_own ex_yomitan of Inl e \<Rightarrow> False | Inr m \<Rightarrow>
    parseJson (formatTransforms (md_file m)) = Inr (clean (md_file m))"
proof (cases "mergeTransforms ex_own ex_yomitan")
  case (Inl e)
  then show ?thesis using ex_merge(1) by simp
next
  case (Inr m)
  from mergeTransforms_writable [OF this ex_merge(2,3)] show ?thesis using Inr by simp
qed

text \<open>C34: The command replaces an existing file only when \<open>--force\<close> is given, when the file already has
  the text, or when it is the copy of the template's transforms.json, which rules removed by hand are not.\<close>

theorem merge_main_protects:
  assumes "mo_written (merge_main fs dir argv) = Some (path, new)" and "fs path = Some old"
  shows "js ''--force'' \<in> set argv \<or> old = new \<or>
    (\<exists>languages\<in>insert dir (set argv).
      fs (path_join (path_join languages (js ''_template'')) (js ''transforms.json'')) = Some old)"
proof -
  obtain a code merged where a: "parse_merge_args argv \<lparr>ma_positional = [], ma_languages = dir, ma_out = None, ma_force = False\<rparr> = Some a"
    and w: "mo_written (write_merged fs a code merged) = Some (path, new)"
    using assms(1) by (auto simp: merge_main_def Let_def merge_fails_def simp del: js_simps
      split: option.splits list.splits sum.splits if_splits)
  note args = parse_merge_args_from [OF a]
  from w assms(2) have "ma_force a \<or> replaceable fs (ma_languages a) old new"
    by (auto simp: write_merged_def Let_def merge_fails_def simp del: js_simps split: option.splits if_splits)
  then show ?thesis using args by (auto simp: replaceable_def simp del: js_simps)
qed

text \<open>A pack whose transforms.json is the template's copy.\<close>

definition ex_files :: files where
  "ex_files f = (if f = js ''d/x/sources/own.json'' then Some (js ''{\"transforms\":[]}'')
     else if f = js ''d/x/transforms.json'' \<or> f = js ''d/_template/transforms.json'' then Some (js ''old'') else None)"

theorem merge_main_protects_witness:
  "\<exists>languages\<in>{js ''d'', js ''x''}.
    ex_files (path_join (path_join languages (js ''_template'')) (js ''transforms.json'')) = Some (js ''old'')"
proof -
  have "case mo_written (merge_main ex_files (js ''d'') [js ''x'']) of None \<Rightarrow> False
      | Some (path, new) \<Rightarrow> ex_files path = Some (js ''old'') \<and> new \<noteq> js ''old''"
    by code_simp
  then obtain path new where w: "mo_written (merge_main ex_files (js ''d'') [js ''x'']) = Some (path, new)"
    and old: "ex_files path = Some (js ''old'')" "new \<noteq> js ''old''"
    by (auto simp del: js_simps split: option.splits)
  have "js ''--force'' \<notin> set [js ''x'']" by simp
  with merge_main_protects [OF w old(1)] old(2) show ?thesis by (simp del: js_simps)
qed

end
