(* ===== verification/Port_Transforms_Correct.thy ===== *)
theory Port_Transforms_Correct
  imports Port_Transforms Merge_Correct
begin

text \<open>
  What a ported rule means: the kind \<open>classifyRule\<close> gives is exactly the shape of the rule's regular
  expression together with its behaviour on the probe stems; \<open>portDescriptor\<close> keeps every transform and
  rule and counts them; and a ported file without todo rules is one \<open>mergeTransforms\<close> accepts as such.
\<close>

section \<open>Literals\<close>

text \<open>What \<open>RegExp#source\<close> writes for a literal without metacharacters.\<close>

definition literal_source :: "jstr \<Rightarrow> jstr" where
  "literal_source s = concat (map (\<lambda>c. if c = 47 then [92, 47] else [c]) s)"

lemma literalOf_literal_source:
  "literalOf (literal_source s) = (if set s \<inter> set METACHARACTERS = {} then Some s else None)"
proof (induction s)
  case (Cons c s)
  have m: "47 \<notin> set METACHARACTERS" "92 \<in> set METACHARACTERS" by (simp_all add: METACHARACTERS_def)
  show ?case
  proof (cases "c = 92")
    case True
    have "literalOf (92 # literal_source s) = None" by (cases s) (simp_all add: literal_source_def)
    then show ?thesis using True m by (auto simp: literal_source_def)
  next
    case False
    then show ?thesis using Cons m by (auto simp: literal_source_def)
  qed
qed (simp add: literal_source_def)

section \<open>Probes\<close>

definition acts_as_suffix :: "yomitan_rule \<Rightarrow> nat \<Rightarrow> jstr \<Rightarrow> jstr \<Rightarrow> jstr list \<Rightarrow> bool" where
  "acts_as_suffix rule minimum literal deinflected probes \<longleftrightarrow>
     (\<forall>stem\<in>set probes. testInflected rule (stem @ literal) = (minimum \<le> codePointLength stem)) \<and>
     (\<forall>stem\<in>set probes. minimum \<le> codePointLength stem \<longrightarrow>
        callDeinflect rule (stem @ literal) = Some (stem @ deinflected))"

definition acts_as_prefix :: "yomitan_rule \<Rightarrow> jstr \<Rightarrow> jstr \<Rightarrow> jstr list \<Rightarrow> bool" where
  "acts_as_prefix rule literal deinflected probes \<longleftrightarrow>
     (\<forall>stem\<in>set probes. testInflected rule (literal @ stem) \<and>
        callDeinflect rule (literal @ stem) = Some (deinflected @ stem))"

lemma starts_with_rest: "starts_with out stem \<and> drop (length stem) out = d \<longleftrightarrow> out = stem @ d"
  by (auto simp: starts_with_iff)

lemma ends_with_rest: "ends_with out stem \<and> take (length out - length stem) out = d \<longleftrightarrow> out = d @ stem"
  by (auto simp: ends_with_iff)

lemma suffix_probes_Some:
  "suffix_probes rule minimum literal d probes = Some deinflected \<longleftrightarrow>
    acts_as_suffix rule minimum literal deinflected probes \<and>
    (d = Some deinflected \<or> d = None \<and> (\<exists>stem\<in>set probes. minimum \<le> codePointLength stem))"
proof (induction probes arbitrary: d)
  case Nil
  then show ?case by (auto simp: acts_as_suffix_def)
next
  case (Cons stem stems)
  let ?call = "callDeinflect rule (stem @ literal)"
  show ?case
  proof (cases "testInflected rule (stem @ literal) = (minimum \<le> codePointLength stem)")
    case False
    then show ?thesis by (auto simp: acts_as_suffix_def Let_def)
  next
    case test: True
    show ?thesis
    proof (cases "minimum \<le> codePointLength stem")
      case False
      then show ?thesis using test Cons by (auto simp: acts_as_suffix_def)
    next
      case long: True
      show ?thesis
      proof (cases "\<exists>e. ?call = Some (stem @ e)")
        case True
        then obtain e where "?call = Some (stem @ e)" by blast
        then show ?thesis using test long Cons by (auto simp: acts_as_suffix_def split: option.splits)
      next
        case False
        then have "\<not> starts_with out stem" if "?call = Some out" for out
          using that by (auto simp: starts_with_iff)
        then show ?thesis using test long False by (auto simp: acts_as_suffix_def split: option.splits)
      qed
    qed
  qed
qed

lemma prefix_probes_Some:
  "prefix_probes rule literal d probes = Some (Some deinflected) \<longleftrightarrow>
    acts_as_prefix rule literal deinflected probes \<and> (d = Some deinflected \<or> d = None \<and> probes \<noteq> [])"
proof (induction probes arbitrary: d)
  case Nil
  then show ?case by (auto simp: acts_as_prefix_def)
next
  case (Cons stem stems)
  let ?call = "callDeinflect rule (literal @ stem)"
  show ?case
  proof (cases "\<exists>e. ?call = Some (e @ stem)")
    case True
    then obtain e where "?call = Some (e @ stem)" by blast
    then show ?thesis using Cons by (auto simp: acts_as_prefix_def split: option.splits)
  next
    case False
    then have "\<not> ends_with out stem" if "?call = Some out" for out
      using that by (auto simp: ends_with_iff)
    then show ?thesis using False by (auto simp: acts_as_prefix_def split: option.splits)
  qed
qed

text \<open>A rule whose functions may be called: a RegExp with the flags d, g and u only.\<close>

definition callable :: "yomitan_rule \<Rightarrow> bool" where
  "callable rule \<longleftrightarrow> yr_regexp rule \<and> yr_deinflect rule \<noteq> None \<and> set (yr_flags rule) \<subseteq> {100, 103, 117}"

lemma classify_kind_callable:
  "\<not> callable rule \<Longrightarrow> classify_kind rule probes = TodoRule"
  by (auto simp: callable_def classify_kind_def list_all_iff)

text \<open>The body of \<open>classify_kind\<close> for a callable rule, one equation for each shape.\<close>

lemma classify_callable:
  assumes "callable rule"
  shows "whole_word_shape (yr_source rule) = Some f \<Longrightarrow> classify_kind rule probes =
      (case literalOf f of None \<Rightarrow> TodoRule | Some l \<Rightarrow> if l = [] \<or> \<not> testInflected rule l then TodoRule
        else (case callDeinflect rule l of None \<Rightarrow> TodoRule
          | Some c \<Rightarrow> if whole_word_probes rule l c probes then WholeWord l c else TodoRule))"
    and "whole_word_shape (yr_source rule) = None \<Longrightarrow> prefix_shape (yr_source rule) = Some f \<Longrightarrow> classify_kind rule probes =
      (case literalOf f of None \<Rightarrow> TodoRule | Some l \<Rightarrow> if l = [] then TodoRule
        else (case prefix_probes rule l None probes of None \<Rightarrow> TodoRule | Some d \<Rightarrow> PrefixRule l d))"
    and "prefix_shape (yr_source rule) = None \<Longrightarrow> suffix_shape (yr_source rule) = Some (n, f) \<Longrightarrow> classify_kind rule probes =
      (case literalOf f of None \<Rightarrow> TodoRule | Some l \<Rightarrow> if l = [] then TodoRule
        else (case suffix_probes rule n l None probes of None \<Rightarrow> TodoRule | Some d \<Rightarrow> SuffixRule l d n))"
    and "prefix_shape (yr_source rule) = None \<Longrightarrow> suffix_shape (yr_source rule) = None \<Longrightarrow>
      classify_kind rule probes = TodoRule"
proof -
  have "list_all (\<lambda>u. u \<in> {100, 103, 117}) (yr_flags rule)" using assms by (auto simp: callable_def list_all_iff)
  moreover obtain g where "yr_regexp rule" "yr_deinflect rule = Some g" using assms by (auto simp: callable_def)
  moreover have "whole_word_shape s = None" if "prefix_shape s = None" for s
    using that by (auto simp: prefix_shape_def whole_word_shape_def split: if_splits)
  ultimately show
    "whole_word_shape (yr_source rule) = Some f \<Longrightarrow> classify_kind rule probes =
      (case literalOf f of None \<Rightarrow> TodoRule | Some l \<Rightarrow> if l = [] \<or> \<not> testInflected rule l then TodoRule
        else (case callDeinflect rule l of None \<Rightarrow> TodoRule
          | Some c \<Rightarrow> if whole_word_probes rule l c probes then WholeWord l c else TodoRule))"
    "whole_word_shape (yr_source rule) = None \<Longrightarrow> prefix_shape (yr_source rule) = Some f \<Longrightarrow> classify_kind rule probes =
      (case literalOf f of None \<Rightarrow> TodoRule | Some l \<Rightarrow> if l = [] then TodoRule
        else (case prefix_probes rule l None probes of None \<Rightarrow> TodoRule | Some d \<Rightarrow> PrefixRule l d))"
    "prefix_shape (yr_source rule) = None \<Longrightarrow> suffix_shape (yr_source rule) = Some (n, f) \<Longrightarrow> classify_kind rule probes =
      (case literalOf f of None \<Rightarrow> TodoRule | Some l \<Rightarrow> if l = [] then TodoRule
        else (case suffix_probes rule n l None probes of None \<Rightarrow> TodoRule | Some d \<Rightarrow> SuffixRule l d n))"
    "prefix_shape (yr_source rule) = None \<Longrightarrow> suffix_shape (yr_source rule) = None \<Longrightarrow>
      classify_kind rule probes = TodoRule"
    by (simp_all add: classify_kind_def)
qed

lemma shapes:
  obtains (whole) f where "whole_word_shape s = Some f"
  | (prefix) f where "whole_word_shape s = None" "prefix_shape s = Some f"
  | (suffix) n f where "whole_word_shape s = None" "prefix_shape s = None" "suffix_shape s = Some (n, f)"
  | (none) "whole_word_shape s = None" "prefix_shape s = None" "suffix_shape s = None"
  by (cases "whole_word_shape s"; cases "prefix_shape s"; cases "suffix_shape s") auto

lemma whole_word_not_suffix: "whole_word_shape s = Some f \<Longrightarrow> prefix_shape s \<noteq> None"
  by (auto simp: prefix_shape_def whole_word_shape_def split: if_splits)

lemma classify_suffix:
  "classify_kind rule probes = SuffixRule literal deinflected minimum \<longleftrightarrow>
    callable rule \<and> prefix_shape (yr_source rule) = None \<and>
    (\<exists>fragment. suffix_shape (yr_source rule) = Some (minimum, fragment) \<and> literalOf fragment = Some literal) \<and>
    literal \<noteq> [] \<and> acts_as_suffix rule minimum literal deinflected probes \<and>
    (\<exists>stem\<in>set probes. minimum \<le> codePointLength stem)"
proof (cases "callable rule")
  case True
  note eqs = classify_callable [OF True, where probes = probes]
  show ?thesis
  proof (cases "yr_source rule" rule: shapes)
    case (suffix n f)
    have "classify_kind rule probes = SuffixRule literal deinflected minimum \<longleftrightarrow>
        literalOf f = Some literal \<and> literal \<noteq> [] \<and> n = minimum \<and>
        suffix_probes rule n literal None probes = Some deinflected"
      unfolding eqs(3) [OF suffix(2,3)] by (auto split: option.splits if_splits)
    then show ?thesis using True suffix suffix_probes_Some [of rule n literal None probes deinflected] by auto
  next
    case (whole f)
    then show ?thesis using eqs(1) [OF whole] whole_word_not_suffix [OF whole]
      by (simp split: option.split)
  next
    case (prefix f)
    then show ?thesis using eqs(2) [OF prefix] by (simp split: option.split)
  next
    case none
    then show ?thesis using eqs(4) [OF none(2,3)] by simp
  qed
qed (simp add: classify_kind_callable)

lemma classify_prefix:
  "classify_kind rule probes = PrefixRule literal (Some deinflected) \<longleftrightarrow>
    callable rule \<and> whole_word_shape (yr_source rule) = None \<and>
    (\<exists>fragment. prefix_shape (yr_source rule) = Some fragment \<and> literalOf fragment = Some literal) \<and>
    literal \<noteq> [] \<and> probes \<noteq> [] \<and> acts_as_prefix rule literal deinflected probes"
proof (cases "callable rule")
  case True
  note eqs = classify_callable [OF True, where probes = probes]
  show ?thesis
  proof (cases "yr_source rule" rule: shapes)
    case (prefix f)
    have "classify_kind rule probes = PrefixRule literal (Some deinflected) \<longleftrightarrow>
        literalOf f = Some literal \<and> literal \<noteq> [] \<and>
        prefix_probes rule literal None probes = Some (Some deinflected)"
      unfolding eqs(2) [OF prefix] by (auto split: option.splits if_splits)
    then show ?thesis using True prefix prefix_probes_Some [of rule literal None probes deinflected] by auto
  next
    case (whole f)
    then show ?thesis using eqs(1) [OF whole] by (simp split: option.split)
  next
    case (suffix n f)
    then show ?thesis using eqs(3) [OF suffix(2,3)] by (simp split: option.split)
  next
    case none
    then show ?thesis using eqs(4) [OF none(2,3)] by simp
  qed
qed (simp add: classify_kind_callable)

lemma classify_whole_word:
  "classify_kind rule probes = WholeWord literal deinflected \<longleftrightarrow>
    callable rule \<and>
    (\<exists>fragment. whole_word_shape (yr_source rule) = Some fragment \<and> literalOf fragment = Some literal) \<and>
    literal \<noteq> [] \<and> testInflected rule literal \<and> callDeinflect rule literal = Some deinflected \<and>
    (\<forall>stem\<in>set probes. \<forall>t\<in>{stem, stem @ literal, literal @ stem}. callDeinflect rule t = Some deinflected)"
proof (cases "callable rule")
  case True
  note eqs = classify_callable [OF True, where probes = probes]
  show ?thesis
  proof (cases "yr_source rule" rule: shapes)
    case (whole f)
    have "classify_kind rule probes = WholeWord literal deinflected \<longleftrightarrow>
        literalOf f = Some literal \<and> literal \<noteq> [] \<and> testInflected rule literal \<and>
        callDeinflect rule literal = Some deinflected \<and> whole_word_probes rule literal deinflected probes"
      unfolding eqs(1) [OF whole] by (auto split: option.splits if_splits)
    then show ?thesis using True whole by (auto simp: whole_word_probes_def list_all_iff)
  next
    case (prefix f)
    then show ?thesis using eqs(2) [OF prefix] by (simp split: option.split)
  next
    case (suffix n f)
    then show ?thesis using eqs(3) [OF suffix(2,3)] by (simp split: option.split)
  next
    case none
    then show ?thesis using eqs(4) [OF none(2,3)] by simp
  qed
qed (simp add: classify_kind_callable)

section \<open>Counts and todo rules\<close>

lemma classifyRule_todo:
  assumes "classifyRule rule probes = Inr r"
  shows "is_todo r \<longleftrightarrow> rule_type r = js ''todo''" and "is_todo r \<longleftrightarrow> classify_kind rule probes = TodoRule"
proof -
  obtain a b where r: "r = rule_object rule a b (classify_kind rule probes)"
    using assms by (auto simp: classifyRule_def)
  show "is_todo r \<longleftrightarrow> rule_type r = js ''todo''" "is_todo r \<longleftrightarrow> classify_kind rule probes = TodoRule"
    unfolding r by (cases "classify_kind rule probes";
      simp add: rule_object_def is_todo_def rule_type_def obj_get_JObj Let_def)+
qed

lemma sum_count: "sum_list (map snd (om_set k (count_of m k + 1) m)) = Suc (sum_list (map snd m))"
  by (induction m) (auto simp: count_of_def)

definition total :: "port_state \<Rightarrow> nat" where
  "total s = sum_list (map snd (po_counts s))"

lemma count_ported_facts:
  "total (count_ported i s e) = Suc (total s)"
  "po_transforms (count_ported i s e) = po_transforms s"
  "po_todos (count_ported i s e) = [] \<longleftrightarrow> po_todos s = [] \<and> rule_type (snd e) \<noteq> js ''todo''"
  by (cases e; simp add: count_ported_def total_def sum_count [simplified] Let_def del: js_simps)+

lemma count_ported_fold:
  "total (foldl (count_ported i) s es) = total s + length es \<and>
   po_transforms (foldl (count_ported i) s es) = po_transforms s \<and>
   (po_todos (foldl (count_ported i) s es) = [] \<longleftrightarrow> po_todos s = [] \<and> (\<forall>e\<in>set es. rule_type (snd e) \<noteq> js ''todo''))"
  by (induction es arbitrary: s) (auto simp: count_ported_facts simp del: js_simps)

lemma transform_object_rules: "transform_rules (transform_object i t rules) = Inr rules"
  by (simp add: transform_rules_def transform_object_def get_prop_def obj_get_JObj or_else_def array_items_def)

text \<open>A transform and its ported form.\<close>

definition ports_to :: "jstr list \<Rightarrow> jstr \<times> yomitan_transform \<Rightarrow> json \<Rightarrow> bool" where
  "ports_to probes x out \<longleftrightarrow> (\<exists>rules. list_all2 (\<lambda>rule r. classifyRule rule probes = Inr r) (yt_rules (snd x)) rules \<and>
     out = transform_object (fst x) (snd x) rules)"

definition no_todo :: "json \<Rightarrow> bool" where
  "no_todo t \<longleftrightarrow> (\<exists>rules. transform_rules t = Inr rules \<and> filter is_todo rules = [])"

lemma port_transform_Inr:
  assumes "port_transform probes s x = Inr s'"
  obtains out where "po_transforms s' = po_transforms s @ [out]" and "ports_to probes x out"
    and "total s' = total s + length (yt_rules (snd x))" and "po_todos s' = [] \<longleftrightarrow> po_todos s = [] \<and> no_todo out"
proof -
  obtain i t where x: "x = (i, t)" by (cases x)
  from assms obtain rules where rules: "mapE (\<lambda>rule. classifyRule rule probes) (yt_rules t) = Inr rules"
    and s': "s' = foldl (count_ported i) s (enum rules)
      \<lparr>po_transforms := po_transforms (foldl (count_ported i) s (enum rules)) @ [transform_object i t rules]\<rparr>"
    by (auto simp: port_transform_def x Let_def)
  note each = mapE_Inr [OF rules]
  have todo: "is_todo r \<longleftrightarrow> rule_type r = js ''todo''" if "r \<in> set rules" for r
    using mapE_set [OF rules that] classifyRule_todo(1) by blast
  have "(\<forall>e\<in>set (enum rules). rule_type (snd e) \<noteq> js ''todo'') \<longleftrightarrow> (\<forall>r\<in>snd ` set (enum rules). \<not> is_todo r)"
    using todo map_snd_enum [of rules] by (metis (no_types, lifting) image_iff image_set)
  also have "\<dots> \<longleftrightarrow> filter is_todo rules = []"
    using map_snd_enum [of rules] by (metis (no_types, lifting) filter_False filter_empty_conv image_set)
  finally show ?thesis
    using that [of "transform_object i t rules"] each x s' count_ported_fold [of i s "enum rules"] mapE_length [OF rules]
    by (auto simp: ports_to_def no_todo_def transform_object_rules total_def simp del: js_simps)
qed

lemma port_transforms_fold:
  assumes "foldE (port_transform probes) s xs = Inr s'"
  obtains outs where "po_transforms s' = po_transforms s @ outs" and "list_all2 (ports_to probes) xs outs"
    and "total s' = total s + sum_list (map (\<lambda>x. length (yt_rules (snd x))) xs)"
    and "po_todos s' = [] \<longleftrightarrow> po_todos s = [] \<and> list_all no_todo outs"
  using assms
proof (induction xs arbitrary: s thesis)
  case Nil
  then show ?case by simp
next
  case (Cons x xs)
  then obtain s1 where s1: "port_transform probes s x = Inr s1" and rest: "foldE (port_transform probes) s1 xs = Inr s'"
    by auto
  from port_transform_Inr [OF s1] obtain out where out: "po_transforms s1 = po_transforms s @ [out]"
    "ports_to probes x out" "total s1 = total s + length (yt_rules (snd x))"
    "po_todos s1 = [] \<longleftrightarrow> po_todos s = [] \<and> no_todo out" .
  from Cons.IH [OF _ rest] obtain outs where "po_transforms s' = po_transforms s1 @ outs"
    "list_all2 (ports_to probes) xs outs" "total s' = total s1 + sum_list (map (\<lambda>x. length (yt_rules (snd x))) xs)"
    "po_todos s' = [] \<longleftrightarrow> po_todos s1 = [] \<and> list_all no_todo outs" by blast
  with out show ?case by (intro Cons.prems(1) [of "out # outs"]) auto
qed

lemma todo_ids_none:
  assumes "\<And>t. t \<in> set ts \<Longrightarrow> \<exists>rules. transform_rules t = Inr rules"
  shows "todo_ids ts = Inr [] \<longleftrightarrow> list_all no_todo ts"
proof -
  have "\<exists>ids. mapE (\<lambda>t. bindE (transform_rules t)
      (\<lambda>rules. Inr (map (\<lambda>_. obj_get t (js ''id'')) (filter is_todo rules)))) ts = Inr ids \<and>
      (concat ids = [] \<longleftrightarrow> list_all no_todo ts)"
    using assms
  proof (induction ts)
    case (Cons t ts)
    then obtain rules where rules: "transform_rules t = Inr rules" by auto
    then have "no_todo t \<longleftrightarrow> filter is_todo rules = []" by (simp add: no_todo_def)
    then show ?case using Cons rules by (auto simp del: js_simps)
  qed simp
  then show ?thesis by (auto simp: todo_ids_def simp del: js_simps)
qed

lemma portDescriptor_facts:
  assumes "portDescriptor d probes = Inr p"
  shows "list_all2 (ports_to probes) (yd_transforms d) (transforms_of (pd_file p))"
    and "sum_list (map snd (pd_counts p)) = sum_list (map (\<lambda>x. length (yt_rules (snd x))) (yd_transforms d))"
    and "pd_todos p = [] \<longleftrightarrow> todo_ids (transforms_of (pd_file p)) = Inr []"
proof -
  from assms obtain s conditions where
    f: "foldE (port_transform probes) \<lparr>po_counts = [], po_todos = [], po_transforms = []\<rparr> (yd_transforms d) = Inr s"
    and p: "pd_file p = JObj [(js ''schema'', JNum 1), (js ''conditions'', JObj conditions), (js ''transforms'', JArr (po_transforms s))]"
      "pd_counts p = po_counts s" "pd_todos p = po_todos s"
    by (auto simp: portDescriptor_def)
  from port_transforms_fold [OF f] obtain outs where outs: "po_transforms s = outs"
    "list_all2 (ports_to probes) (yd_transforms d) outs"
    "total s = sum_list (map (\<lambda>x. length (yt_rules (snd x))) (yd_transforms d))"
    "po_todos s = [] \<longleftrightarrow> list_all no_todo outs" by (auto simp: total_def)
  have ts: "transforms_of (pd_file p) = outs" using p(1) outs(1) by (simp add: transforms_of_def obj_get_JObj)
  have rules: "\<exists>rules. transform_rules t = Inr rules" if "t \<in> set outs" for t
    using outs(2) that by (induction rule: list_all2_induct) (auto simp: ports_to_def transform_object_rules)
  show "list_all2 (ports_to probes) (yd_transforms d) (transforms_of (pd_file p))"
    "sum_list (map snd (pd_counts p)) = sum_list (map (\<lambda>x. length (yt_rules (snd x))) (yd_transforms d))"
    "pd_todos p = [] \<longleftrightarrow> todo_ids (transforms_of (pd_file p)) = Inr []"
    using outs p ts todo_ids_none [OF rules] by (simp_all add: total_def)
qed

section \<open>Properties\<close>

text \<open>A Yomitan rule becomes a suffix rule exactly when its regular expression is a literal before \<open>$\<close>
  after \<open>n\<close> dots, its \<open>test\<close> accepts the literal after exactly the probe stems of at least \<open>n\<close> code points (of
  which there is one), and its \<open>deinflect\<close> replaces the literal by the same text after each of them.\<close>

theorem classifyRule_suffix:
  "classify_kind rule probes = SuffixRule literal deinflected minimum \<longleftrightarrow>
    callable rule \<and> prefix_shape (yr_source rule) = None \<and>
    (\<exists>fragment. suffix_shape (yr_source rule) = Some (minimum, fragment) \<and> literalOf fragment = Some literal) \<and>
    literal \<noteq> [] \<and> acts_as_suffix rule minimum literal deinflected probes \<and>
    (\<exists>stem\<in>set probes. minimum \<le> codePointLength stem)"
  by (rule classify_suffix)

text \<open>\<open>portDescriptor\<close> keeps every transform, in order, with every rule classified; its counts add up to
  the number of rules; and it reports no todo rules exactly when \<open>mergeTransforms\<close> finds none in the file.\<close>

theorem portDescriptor_complete:
  assumes "portDescriptor d probes = Inr p"
  shows "list_all2 (ports_to probes) (yd_transforms d) (transforms_of (pd_file p)) \<and>
    sum_list (map snd (pd_counts p)) = sum_list (map (\<lambda>x. length (yt_rules (snd x))) (yd_transforms d)) \<and>
    (pd_todos p = [] \<longleftrightarrow> todo_ids (transforms_of (pd_file p)) = Inr [])"
  using portDescriptor_facts [OF assms] by blast

text \<open>The rule \<open>/s$/\<close> that removes a final s.\<close>

definition ex_y_rule :: yomitan_rule where
  "ex_y_rule = \<lparr>yr_regexp = True, yr_source = js ''s$'', yr_flags = [], yr_test = (\<lambda>t. ends_with t (js ''s'')),
     yr_deinflect = Some (\<lambda>t. Some (butlast t)), yr_in = JUndef, yr_out = JUndef\<rparr>"

definition ex_descriptor :: yomitan_descriptor where
  "ex_descriptor = \<lparr>yd_conditions = [], yd_transforms = [(js ''plural'', \<lparr>yt_name = JStr (js ''plural''),
     yt_description = JUndef, yt_i18n = JUndef, yt_rules = [ex_y_rule]\<rparr>)]\<rparr>"

theorem portDescriptor_complete_witness:
  "case portDescriptor ex_descriptor [[], js ''a''] of Inl _ \<Rightarrow> False
    | Inr p \<Rightarrow> pd_todos p = [] \<and> todo_ids (transforms_of (pd_file p)) = Inr []"
proof -
  have "case portDescriptor ex_descriptor [[], js ''a''] of Inl _ \<Rightarrow> False | Inr p \<Rightarrow> pd_todos p = []"
    by code_simp
  then obtain p where p: "portDescriptor ex_descriptor [[], js ''a''] = Inr p" "pd_todos p = []"
    by (auto split: sum.splits)
  from portDescriptor_complete [OF p(1)] p show ?thesis by (simp del: js_simps)
qed

end
