(* ===== verification/Port_Tests.thy ===== *)
theory Port_Tests
  imports Yomitan
begin

text \<open>
  Yomitan's transform tests as tests/yomitan.tsv (tools/port-yomitan-tests.mjs): the copyright line, the
  rows, the text of the file and the command. The test cases the test file passes to its runner are a
  parameter.
\<close>

definition TSV_COLUMNS :: jstr where
  "TSV_COLUMNS = js ''# category'' @ [9] @ js ''valid'' @ [9] @ js ''source'' @ [9] @ js ''term'' @ [9] @ js ''rule'' @ [9]
     @ js ''reasons (forward order, | separated; * means any)''"

section \<open>The copyright line\<close>

definition line_terminator :: "int \<Rightarrow> bool" where
  "line_terminator u \<longleftrightarrow> u = 10 \<or> u = 13 \<or> u = 8232 \<or> u = 8233"

text \<open>\<open>s.replace(/\s+/g, ' ')\<close>\<close>

function collapse :: "jstr \<Rightarrow> jstr" where
  "collapse [] = []"
| "collapse (u # s) = (if is_space u then 32 # collapse (dropWhile is_space s) else u # collapse s)"
  by pat_completeness auto
termination
  by (relation "measure length") (auto simp: le_imp_less_Suc length_dropWhile_le)

text \<open>What \<open>\s+(.+?)\s*$\<close> (flag m) matches after \<open>Copyright (C)\<close>: the group and the text after its line. When
  only white space is left, the group is its last character that is no line end, after the first.\<close>

definition holder_after :: "jstr \<Rightarrow> (jstr \<times> jstr) option" where
  "holder_after t =
     (let ws = takeWhile is_space t; r = dropWhile is_space t
      in if ws = [] then None
         else if r \<noteq> [] then
           let line = takeWhile (\<lambda>u. \<not> line_terminator u) r in Some (trim_end line, drop (length line) r)
         else (case filter (\<lambda>u. \<not> line_terminator u) (tl ws) of
             [] \<Rightarrow> None | us \<Rightarrow> Some ([last us], [])))"

definition COPYRIGHT :: jstr where
  "COPYRIGHT = js ''Copyright (C)''"

lemma holder_after_shorter: "holder_after t = Some (h, rest) \<Longrightarrow> length rest \<le> length t"
  using length_dropWhile_le [of is_space t]
  by (auto simp: holder_after_def Let_def split: if_splits list.splits)

function holders :: "jstr \<Rightarrow> jstr list" where
  "holders [] = []"
| "holders (u # s) =
     (if starts_with (u # s) COPYRIGHT then (case holder_after (drop (length COPYRIGHT) (u # s)) of
          None \<Rightarrow> holders s
        | Some (h, rest) \<Rightarrow> collapse h # holders rest)
      else holders s)"
  by pat_completeness auto
termination
  by (relation "measure length") (auto simp: COPYRIGHT_def dest!: holder_after_shorter)

definition copyrightLine :: "jstr \<Rightarrow> jstr option" where
  "copyrightLine text =
     (let header = take (case index_of text (js ''*/'') 0 of None \<Rightarrow> 1 | Some i \<Rightarrow> i + 2) text; hs = holders header
      in if hs = [] then None else Some (js ''Copyright (C) '' @ join (js ''; '') hs))"

section \<open>Rows\<close>

record test_case =
  te_source :: json
  te_term :: json
  te_rule :: json
  te_reasons :: json

record test_category =
  tc_category :: json
  tc_valid :: bool
  tc_tests :: "test_case list"

datatype test_error =
    CellNotString jstr jstr json
  | CellBreak jstr jstr jstr
  | TestsType
  | NoTransformTest jstr
  | TestsYomitan yomitan_error
  | TestsFile jstr

definition checkCell :: "json \<Rightarrow> jstr \<Rightarrow> json \<Rightarrow> test_error + jstr" where
  "checkCell v what category = (case v of
       JStr s \<Rightarrow> if 9 \<in> set s \<or> 10 \<in> set s \<or> 13 \<in> set s then Inl (CellBreak (to_js category) what s) else Inr s
     | _ \<Rightarrow> Inl (CellNotString (to_js category) what v))"

definition reasons_text :: "json \<Rightarrow> json \<Rightarrow> test_error + jstr" where
  "reasons_text reasons category =
     (if nullish reasons then Inr (js ''*'')
      else bindE (array_items TestsType reasons) (\<lambda>rs.
        bindE (mapE (\<lambda>r. checkCell r (js ''a reason'') category) rs) (\<lambda>cells. Inr (join [124] cells))))"

definition test_row :: "test_category \<Rightarrow> test_case \<Rightarrow> test_error + jstr" where
  "test_row c t =
     bindE (reasons_text (te_reasons t) (tc_category c)) (\<lambda>reasonsCell.
     bindE (if nullish (te_rule t) then Inr (js ''*'') else checkCell (te_rule t) (js ''rule'') (tc_category c)) (\<lambda>ruleCell.
     bindE (checkCell (tc_category c) (js ''category'') (tc_category c)) (\<lambda>category.
     bindE (checkCell (te_source t) (js ''source'') (tc_category c)) (\<lambda>source.
     bindE (checkCell (te_term t) (js ''term'') (tc_category c)) (\<lambda>term.
       Inr (join [9] [category, if tc_valid c then js ''1'' else js ''0'', source, term, ruleCell, reasonsCell]))))))"

definition testRows :: "test_category list \<Rightarrow> test_error + jstr list" where
  "testRows categories = bindE (mapE (\<lambda>c. mapE (test_row c) (tc_tests c)) categories) (\<lambda>rows. Inr (concat rows))"

section \<open>portTests\<close>

text \<open>\<open>/testLanguageTransformer\([^)]*,[^)]*,[^)]*\)/\<close>: a call with at least two commas before the first
  closing parenthesis.\<close>

definition preprocess_call :: "jstr \<Rightarrow> bool" where
  "preprocess_call s \<longleftrightarrow> starts_with s (js ''testLanguageTransformer('') \<and>
     (let rest = drop 24 s; args = takeWhile (\<lambda>u. u \<noteq> 41) rest
      in length args < length rest \<and> 2 \<le> length (filter (\<lambda>u. u = 44) args))"

definition passes_preprocess :: "jstr \<Rightarrow> bool" where
  "passes_preprocess text = list_ex (\<lambda>i. preprocess_call (drop i text)) [0..<length text]"

definition test_header :: "jstr option \<Rightarrow> jstr \<Rightarrow> jstr \<Rightarrow> jstr list" where
  "test_header revision testFile source =
     [js ''# GPL-3.0-or-later; '' @ (case copyrightLine source of None \<Rightarrow> js ''Copyright (C) Yomitan Authors'' | Some c \<Rightarrow> c),
      js ''# https://github.com/yomidevs/yomitan/blob/'' @ (case revision of None \<Rightarrow> PINNED_REVISION | Some r \<Rightarrow> r)
        @ [47] @ testFile]
     @ (if passes_preprocess source
        then [js ''# Yomitan's test passes source and term through a preprocess function; the pack's processors take its place.'']
        else [])
     @ [TSV_COLUMNS]"

record ported_tests =
  pq_text :: jstr
  pq_rows :: nat
  pq_file :: jstr
  pq_revision :: "jstr option"

text \<open>\<open>find\<close>, \<open>revision\<close> and \<open>tests\<close> are \<open>findTransformTest\<close>, \<open>yomitanRevision\<close> and \<open>loadTransformTests\<close> on the
  checkout \<open>root\<close>.\<close>

definition portTests ::
    "(jstr \<Rightarrow> yomitan_error + jstr option) \<Rightarrow> jstr option \<Rightarrow> (jstr \<Rightarrow> yomitan_error + test_category list) \<Rightarrow> files \<Rightarrow>
      jstr \<Rightarrow> jstr \<Rightarrow> test_error + ported_tests" where
  "portTests find_test revision tests fs root code = (case find_test code of
       Inl e \<Rightarrow> Inl (TestsYomitan e)
     | Inr None \<Rightarrow> Inl (NoTransformTest code)
     | Inr (Some testFile) \<Rightarrow> (case tests testFile of
           Inl e \<Rightarrow> Inl (TestsYomitan e)
         | Inr categories \<Rightarrow> bindE (testRows categories) (\<lambda>rows. case fs (path_join root testFile) of
               None \<Rightarrow> Inl (TestsFile testFile)
             | Some source \<Rightarrow> Inr \<lparr>pq_text = join [10] (test_header revision testFile source @ rows) @ [10],
                 pq_rows = length rows, pq_file = testFile, pq_revision = revision\<rparr>)))"

record tests_args =
  ta_positional :: "jstr list"
  ta_out :: "jstr option"
  ta_languages :: jstr

fun parse_tests_args :: "jstr list \<Rightarrow> tests_args \<Rightarrow> tests_args option" where
  "parse_tests_args [] a = Some a"
| "parse_tests_args (arg # rest) a =
     (if arg = js ''--out'' then (case rest of
          [] \<Rightarrow> None | file # rest' \<Rightarrow> parse_tests_args rest' (a\<lparr>ta_out := Some file\<rparr>))
      else if arg = js ''--languages'' then (case rest of
          [] \<Rightarrow> None | dir # rest' \<Rightarrow> parse_tests_args rest' (a\<lparr>ta_languages := dir\<rparr>))
      else if starts_with arg [45] then None
      else parse_tests_args rest (a\<lparr>ta_positional := ta_positional a @ [arg]\<rparr>))"

text \<open>The exit status, the file written and whether the checkout is not at the pinned revision; \<open>port\<close> is
  \<open>portTests\<close> with its parameters.\<close>

definition tests_main ::
    "(jstr \<Rightarrow> jstr \<Rightarrow> test_error + ported_tests) \<Rightarrow> jstr \<Rightarrow> jstr list \<Rightarrow> test_error + nat \<times> (jstr \<times> jstr) option \<times> bool" where
  "tests_main port defaultDir argv =
     (case parse_tests_args argv \<lparr>ta_positional = [], ta_out = None, ta_languages = defaultDir\<rparr> of
        None \<Rightarrow> Inr (2, None, False)
      | Some a \<Rightarrow> (case ta_positional a of
            [root, code] \<Rightarrow> bindE (port root code) (\<lambda>p.
              Inr (0, Some (case ta_out a of Some f \<Rightarrow> f
                  | None \<Rightarrow> path_join (path_join (path_join (ta_languages a) code) (js ''tests'')) (js ''yomitan.tsv''), pq_text p),
                pq_revision p \<noteq> Some PINNED_REVISION))
          | _ \<Rightarrow> Inr (2, None, False)))"

end
