(* ===== verification/Pack_Correct.thy ===== *)
theory Pack_Correct
  imports Pack
begin

text \<open>
  What the readers of Pack.thy accept and return: \<open>readTsv\<close> line by line, the round trip of
  deinflection rows, the corpus strings, the options line and \<open>loadPack\<close>.
\<close>

section \<open>readTsv\<close>

definition is_row :: "jstr \<Rightarrow> bool" where
  "is_row line \<longleftrightarrow> line \<noteq> [] \<and> \<not> starts_with line [35]"

definition line_ok :: "nat \<Rightarrow> jstr \<Rightarrow> bool" where
  "line_ok columns line \<longleftrightarrow> \<not> ends_with line [13] \<and> (is_row line \<longrightarrow> length (split_on 9 line) = columns)"

definition row_of :: "nat \<times> jstr \<Rightarrow> tsv_row" where
  "row_of = (\<lambda>(index, line). \<lparr>tr_line = index + 1, tr_cells = split_on 9 line\<rparr>)"

lemma tsv_lines_fold:
  "foldE (tsv_line file columns) (c0, r0) es = Inr (c, r) \<longleftrightarrow>
    (\<forall>e\<in>set es. line_ok columns (snd e)) \<and> c = c0 @ filter (\<lambda>l. starts_with l [35]) (map snd es) \<and>
    r = r0 @ map row_of (filter (\<lambda>e. is_row (snd e)) es)"
proof (induction es arbitrary: c0 r0)
  case Nil
  then show ?case by auto
next
  case (Cons e es)
  obtain i l where e: "e = (i, l)" by (cases e)
  have comment: "l \<noteq> []" if "starts_with l [35]" using that by (auto simp: starts_with_def)
  show ?case
    unfolding e foldE.simps
    by (auto simp: tsv_line_def Cons.IH line_ok_def is_row_def row_of_def Let_def dest: comment)
qed

lemma readTsv_iff:
  "readTsv file columns text = Inr (comments, rows) \<longleftrightarrow>
    unit_at text 0 \<noteq> Some 65279 \<and> (\<forall>line\<in>set (tsv_lines text). line_ok columns line) \<and>
    comments = filter (\<lambda>l. starts_with l [35]) (tsv_lines text) \<and>
    rows = map row_of (filter (\<lambda>e. is_row (snd e)) (enum (tsv_lines text)))"
proof -
  have "(\<forall>e\<in>set (enum ls). line_ok columns (snd e)) \<longleftrightarrow> (\<forall>line\<in>set ls. line_ok columns line)" for ls :: "jstr list"
    by (metis (no_types, lifting) image_eqI image_set map_snd_enum imageE)
  then show ?thesis by (auto simp: readTsv_def tsv_lines_fold)
qed

lemma split_on_lines:
  "(\<And>l. l \<in> set ls \<Longrightarrow> c \<notin> set l) \<Longrightarrow> split_on c (concat (map (\<lambda>l. l @ [c]) ls)) = ls @ [[]]"
  by (induction ls) (simp_all add: split_on_append)

lemma tsv_lines_text:
  "(\<And>l. l \<in> set ls \<Longrightarrow> 10 \<notin> set l) \<Longrightarrow> tsv_lines (concat (map (\<lambda>l. l @ [10]) ls)) = ls"
  by (simp add: tsv_lines_def split_on_lines Let_def)

section \<open>Rows written and read\<close>

text \<open>A row as the test files hold it, and the text of a file of rows.\<close>

definition rule_cell :: "jstr option \<Rightarrow> jstr" where
  "rule_cell rule = (case rule of None \<Rightarrow> js ''*'' | Some r \<Rightarrow> r)"

definition reasons_cell :: "jstr list option \<Rightarrow> jstr" where
  "reasons_cell reasons = (case reasons of None \<Rightarrow> js ''*'' | Some rs \<Rightarrow> join [124] rs)"

definition row_cells :: "deinflection_row \<Rightarrow> jstr list" where
  "row_cells r = [dr_category r, if dr_valid r then js ''1'' else js ''0'', dr_source r, dr_term r,
     rule_cell (dr_rule r), reasons_cell (dr_reasons r)]"

definition rows_text :: "deinflection_row list \<Rightarrow> jstr" where
  "rows_text rows = concat (map (\<lambda>r. join [9] (row_cells r) @ [10]) rows)"

definition plain_cell :: "jstr \<Rightarrow> bool" where
  "plain_cell c \<longleftrightarrow> 9 \<notin> set c \<and> 10 \<notin> set c \<and> 13 \<notin> set c"

text \<open>
  The rows a file can hold: cells with no tab or line end, a category that does not make a comment
  or a byte-order mark of its line, and a rule and reasons that are not read as \<open>*\<close> or split.
\<close>

definition row_writable :: "deinflection_row \<Rightarrow> bool" where
  "row_writable r \<longleftrightarrow> list_all plain_cell (row_cells r) \<and>
     \<not> starts_with (dr_category r) [35] \<and> \<not> starts_with (dr_category r) [65279] \<and> dr_rule r \<noteq> Some (js ''*'') \<and>
     (case dr_reasons r of None \<Rightarrow> True
      | Some rs \<Rightarrow> rs \<noteq> [js ''*''] \<and> rs \<noteq> [[]] \<and> (\<forall>x\<in>set rs. 124 \<notin> set x))"

lemma starts_with_one: "starts_with s [c] \<longleftrightarrow> s \<noteq> [] \<and> hd s = c"
  by (cases s) (auto simp: starts_with_def)

lemma join_not_in: "c \<notin> set sep \<Longrightarrow> (\<And>x. x \<in> set xs \<Longrightarrow> c \<notin> set x) \<Longrightarrow> c \<notin> set (join sep xs)"
  by (induction sep xs rule: join.induct) auto

lemma row_line:
  assumes "row_writable r"
  defines "l \<equiv> join [9] (row_cells r)"
  shows "10 \<notin> set l" and "line_ok 6 l" and "is_row l" and "split_on 9 l = row_cells r" and "hd l \<noteq> 65279" and "l \<noteq> []"
proof -
  have cells: "\<And>x. x \<in> set (row_cells r) \<Longrightarrow> 9 \<notin> set x \<and> 10 \<notin> set x \<and> 13 \<notin> set x"
    using assms(1) by (auto simp: row_writable_def plain_cell_def list_all_iff)
  show nl: "10 \<notin> set l" unfolding l_def by (rule join_not_in) (use cells in auto)
  have cr: "13 \<notin> set l" unfolding l_def by (rule join_not_in) (use cells in auto)
  show sp: "split_on 9 l = row_cells r"
    unfolding l_def by (rule split_on_join) (use cells in \<open>auto simp: row_cells_def\<close>)
  obtain t where t: "l = dr_category r @ 9 # t" unfolding l_def by (simp add: row_cells_def)
  then show ne: "l \<noteq> []" by simp
  have "hd l = (if dr_category r = [] then 9 else hd (dr_category r))" by (simp add: t)
  then show h: "hd l \<noteq> 65279" and row: "is_row l"
    using assms(1) ne by (auto simp: row_writable_def is_row_def starts_with_one)
  show "line_ok 6 l"
    using cr sp by (auto simp: line_ok_def ends_with_iff row_cells_def)
qed

lemma join_reasons_star: "(\<forall>x\<in>set rs. 124 \<notin> set x) \<Longrightarrow> join [124] rs = js ''*'' \<Longrightarrow> rs = [js ''*'']"
proof -
  assume a: "\<forall>x\<in>set rs. 124 \<notin> set x" "join [124] rs = js ''*''"
  then have "rs \<noteq> []" by auto
  then have "rs = split_on 124 (js ''*'')" using split_on_join [of rs 124] a by auto
  then show "rs = [js ''*'']" by simp
qed

lemma join_reasons_Nil: "(\<forall>x\<in>set rs. 124 \<notin> set x) \<Longrightarrow> join [124] rs = [] \<Longrightarrow> rs = [] \<or> rs = [[]]"
  using split_on_join [of rs 124] by auto

lemma row_reads:
  assumes "row_writable r"
  shows "read_deinflection_row file \<lparr>tr_line = n, tr_cells = row_cells r\<rparr> = Inr (r\<lparr>dr_line := n\<rparr>)"
proof -
  have rule: "(if rule_cell (dr_rule r) = js ''*'' then None else Some (rule_cell (dr_rule r))) = dr_rule r"
    using assms by (auto simp: row_writable_def rule_cell_def split: option.splits)
  have reasons: "(if reasons_cell (dr_reasons r) = js ''*'' then None
      else if reasons_cell (dr_reasons r) = [] then Some [] else Some (split_on 124 (reasons_cell (dr_reasons r)))) = dr_reasons r"
  proof (cases "dr_reasons r")
    case (Some rs)
    have ok: "rs \<noteq> [js ''*'']" "rs \<noteq> [[]]" "\<forall>x\<in>set rs. 124 \<notin> set x"
      using assms Some by (auto simp: row_writable_def)
    show ?thesis
    proof (cases "rs = []")
      case True
      then show ?thesis using Some by (simp add: reasons_cell_def)
    next
      case False
      then have "split_on 124 (join [124] rs) = rs" using split_on_join [of rs 124] ok(3) by auto
      then show ?thesis
        using Some ok join_reasons_star [OF ok(3)] join_reasons_Nil [OF ok(3)] False by (auto simp: reasons_cell_def)
    qed
  qed (simp add: reasons_cell_def)
  show ?thesis
    by (simp only: read_deinflection_row_def row_cells_def tsv_row.simps list.case rule reasons) simp
qed

lemma enum_append_index: "enum (map f xs) = map (\<lambda>(i, x). (i, f x)) (enum xs)"
  by (simp add: enum_def zip_map2)

lemma readDeinflectionTsv_rows:
  assumes "\<forall>r\<in>set rows. row_writable r"
  shows "readDeinflectionTsv file (rows_text rows) = Inr ([], map (\<lambda>(i, r). r\<lparr>dr_line := i + 1\<rparr>) (enum rows))"
proof -
  let ?ls = "map (\<lambda>r. join [9] (row_cells r)) rows"
  have tx: "rows_text rows = concat (map (\<lambda>l. l @ [10]) ?ls)" by (simp add: rows_text_def comp_def)
  have lines: "tsv_lines (rows_text rows) = ?ls"
    unfolding tx by (rule tsv_lines_text) (use assms row_line(1) in auto)
  have bom: "unit_at (rows_text rows) 0 \<noteq> Some 65279"
  proof (cases rows)
    case (Cons r rs)
    then show ?thesis
      using assms row_line(5,6) [of r] by (cases "join [9] (row_cells r)") (auto simp: rows_text_def unit_at_def)
  qed (simp add: rows_text_def unit_at_def)
  have ok: "\<forall>l\<in>set ?ls. line_ok 6 l" using assms row_line(2) by auto
  have none: "filter (\<lambda>l. starts_with l [35]) ?ls = []"
    using assms row_line(3) by (auto simp: filter_empty_conv is_row_def)
  have mem: "r \<in> set rows" if "(i, r) \<in> set (enum rows)" for i r
    using that by (auto simp: enum_set)
  have all: "filter (\<lambda>e. is_row (snd e)) (enum ?ls) = enum ?ls"
    using assms row_line(3) mem by (fastforce simp: filter_id_conv enum_append_index)
  have rows: "map row_of (enum ?ls) = map (\<lambda>(i, r). \<lparr>tr_line = i + 1, tr_cells = row_cells r\<rparr>) (enum rows)"
    using assms row_line(4) mem by (fastforce simp: enum_append_index row_of_def)
  have "readTsv file 6 (rows_text rows) =
      Inr ([], map (\<lambda>(i, r). \<lparr>tr_line = i + 1, tr_cells = row_cells r\<rparr>) (enum rows))"
    unfolding readTsv_iff lines using bom ok none all rows by simp
  moreover have "mapE (read_deinflection_row file) (map (\<lambda>(i, r). \<lparr>tr_line = i + 1, tr_cells = row_cells r\<rparr>) (enum rows)) =
      Inr (map (\<lambda>(i, r). r\<lparr>dr_line := i + 1\<rparr>) (enum rows))"
    unfolding mapE_map by (rule mapE_total) (use assms row_reads mem in auto)
  ultimately show ?thesis by (simp add: readDeinflectionTsv_def)
qed

section \<open>Corpus strings\<close>

lemma fold_add_text: "distinct out \<Longrightarrow> [] \<notin> set out \<Longrightarrow> distinct (fold add_text ts out) \<and>
    set (fold add_text ts out) = set out \<union> (set ts - {[]})"
  by (induction ts arbitrary: out) (auto simp: add_text_def)

text \<open>The texts of a pack: what \<open>corpusStrings\<close> collects.\<close>

definition corpus_text :: "files \<Rightarrow> jstr \<Rightarrow> json \<Rightarrow> jstr \<Rightarrow> bool" where
  "corpus_text fs dir language t \<longleftrightarrow>
     (\<exists>name\<in>set DEINFLECTION_TSVS. \<exists>text comments rows.
        fs (path_join (path_join dir (js ''tests'')) name) = Some text \<and>
        readDeinflectionTsv (path_join (path_join dir (js ''tests'')) name) text = Inr (comments, rows) \<and>
        t \<in> dr_source ` set rows) \<or>
     (\<exists>text rows. fs (path_join (path_join dir (js ''tests'')) (js ''text.tsv'')) = Some text \<and>
        readTextTsv (path_join (path_join dir (js ''tests'')) (js ''text.tsv'')) text = Inr rows \<and>
        t \<in> xr_input ` set rows) \<or>
     (\<exists>text rows. fs (path_join (path_join dir (js ''tests'')) (js ''lookup.tsv'')) = Some text \<and>
        readLookupTsv (path_join (path_join dir (js ''tests'')) (js ''lookup.tsv'')) text = Inr rows \<and>
        t \<in> lr_text ` set rows) \<or>
     t \<in> set (sampleTexts language)"

lemma tsv_sources_mem:
  "tsv_sources fs dir name = Inr ts \<Longrightarrow> t \<in> set ts \<longleftrightarrow>
    (\<exists>text comments rows. fs (path_join (path_join dir (js ''tests'')) name) = Some text \<and>
        readDeinflectionTsv (path_join (path_join dir (js ''tests'')) name) text = Inr (comments, rows) \<and>
        t \<in> dr_source ` set rows)"
  by (auto simp: tsv_sources_def Let_def split: option.splits)

lemma corpusStrings_texts:
  assumes "corpusStrings fs dir language = Inr out"
  shows "distinct out" and "t \<in> set out \<longleftrightarrow> t \<noteq> [] \<and> corpus_text fs dir language t"
proof -
  obtain sources inputs texts where s: "mapE (tsv_sources fs dir) DEINFLECTION_TSVS = Inr sources"
    and i: "(case fs (path_join (path_join dir (js ''tests'')) (js ''text.tsv'')) of None \<Rightarrow> Inr []
         | Some text \<Rightarrow> bindE (readTextTsv (path_join (path_join dir (js ''tests'')) (js ''text.tsv'')) text)
             (\<lambda>rows. Inr (map xr_input rows))) = Inr inputs"
    and x: "(case fs (path_join (path_join dir (js ''tests'')) (js ''lookup.tsv'')) of None \<Rightarrow> Inr []
         | Some text \<Rightarrow> bindE (readLookupTsv (path_join (path_join dir (js ''tests'')) (js ''lookup.tsv'')) text)
             (\<lambda>rows. Inr (map lr_text rows))) = Inr texts"
    and out: "out = fold add_text (concat sources @ inputs @ texts @ sampleTexts language) []"
    using assms by (auto simp: corpusStrings_def Let_def simp del: js_simps)
  note f = fold_add_text [of "[]" "concat sources @ inputs @ texts @ sampleTexts language"]
  show "distinct out" using f out by simp
  have src: "t \<in> set (concat sources) \<longleftrightarrow> (\<exists>name\<in>set DEINFLECTION_TSVS. \<exists>ts. tsv_sources fs dir name = Inr ts \<and> t \<in> set ts)"
    using mapE_set [OF s] mapE_Inr_all [OF s] by fastforce
  have inp: "t \<in> set inputs \<longleftrightarrow> (\<exists>text rows. fs (path_join (path_join dir (js ''tests'')) (js ''text.tsv'')) = Some text \<and>
        readTextTsv (path_join (path_join dir (js ''tests'')) (js ''text.tsv'')) text = Inr rows \<and> t \<in> xr_input ` set rows)"
    using i by (auto split: option.splits simp del: js_simps)
  have tx: "t \<in> set texts \<longleftrightarrow> (\<exists>text rows. fs (path_join (path_join dir (js ''tests'')) (js ''lookup.tsv'')) = Some text \<and>
        readLookupTsv (path_join (path_join dir (js ''tests'')) (js ''lookup.tsv'')) text = Inr rows \<and> t \<in> lr_text ` set rows)"
    using x by (auto split: option.splits simp del: js_simps)
  have "t \<in> set out \<longleftrightarrow> t \<noteq> [] \<and> (t \<in> set (concat sources) \<or> t \<in> set inputs \<or> t \<in> set texts \<or> t \<in> set (sampleTexts language))"
    using f out by auto
  moreover have "t \<in> set (concat sources) \<longleftrightarrow> (\<exists>name\<in>set DEINFLECTION_TSVS. \<exists>text comments rows.
        fs (path_join (path_join dir (js ''tests'')) name) = Some text \<and>
        readDeinflectionTsv (path_join (path_join dir (js ''tests'')) name) text = Inr (comments, rows) \<and>
        t \<in> dr_source ` set rows)"
    unfolding src
  proof (rule bex_cong [OF refl])
    fix name
    assume n: "name \<in> set DEINFLECTION_TSVS"
    obtain ts where ts: "tsv_sources fs dir name = Inr ts" using mapE_Inr_all [OF s n] by blast
    show "(\<exists>ts. tsv_sources fs dir name = Inr ts \<and> t \<in> set ts) = (\<exists>text comments rows.
        fs (path_join (path_join dir (js ''tests'')) name) = Some text \<and>
        readDeinflectionTsv (path_join (path_join dir (js ''tests'')) name) text = Inr (comments, rows) \<and>
        t \<in> dr_source ` set rows)"
      using tsv_sources_mem [OF ts] ts by auto
  qed
  ultimately show "t \<in> set out \<longleftrightarrow> t \<noteq> [] \<and> corpus_text fs dir language t"
    using inp tx unfolding corpus_text_def by blast
qed

section \<open>Properties\<close>

text \<open>\<open>readTsv\<close> accepts a file exactly when it has no byte-order mark, no line ends with CR and
  every line that is not empty and not a comment has the expected columns; then it returns every
  comment and every row, in order, each row with the number of its line and its cells.\<close>

theorem readTsv_accepts:
  "readTsv file columns text = Inr (comments, rows) \<longleftrightarrow>
    unit_at text 0 \<noteq> Some 65279 \<and> list_all (line_ok columns) (tsv_lines text) \<and>
    comments = filter (\<lambda>l. starts_with l [35]) (tsv_lines text) \<and>
    rows = map row_of (filter (\<lambda>e. is_row (snd e)) (enum (tsv_lines text)))"
  unfolding readTsv_iff by (simp only: list_all_iff)

text \<open>Deinflection rows written one to a line, with \<open>*\<close> for no rule or no reasons and \<open>|\<close> between
  reasons, are read back by \<open>readDeinflectionTsv\<close> as they were, for rows a file can hold.\<close>

theorem readDeinflectionTsv_roundtrip:
  assumes "\<forall>r\<in>set rows. row_writable r"
  shows "readDeinflectionTsv file (rows_text rows) = Inr ([], map (\<lambda>(i, r). r\<lparr>dr_line := i + 1\<rparr>) (enum rows))"
  by (rule readDeinflectionTsv_rows [OF assms])

theorem readDeinflectionTsv_roundtrip_witness:
  "readDeinflectionTsv (js ''f'') (js ''c'' @ [9, 49, 9] @ js ''cats'' @ [9] @ js ''cat'' @ [9, 42, 9] @ js ''a|b'' @ [10]) =
    Inr ([], [\<lparr>dr_line = 1, dr_category = js ''c'', dr_valid = True, dr_source = js ''cats'', dr_term = js ''cat'',
      dr_rule = None, dr_reasons = Some [js ''a'', js ''b'']\<rparr>])"
proof -
  let ?r = "\<lparr>dr_line = 0, dr_category = js ''c'', dr_valid = True, dr_source = js ''cats'', dr_term = js ''cat'',
      dr_rule = None, dr_reasons = Some [js ''a'', js ''b'']\<rparr>"
  have "\<forall>r\<in>set [?r]. row_writable r"
    by (simp add: row_writable_def row_cells_def rule_cell_def reasons_cell_def plain_cell_def starts_with_def)
  from readDeinflectionTsv_roundtrip [OF this, of "js ''f''"] show ?thesis
    by (simp add: rows_text_def row_cells_def rule_cell_def reasons_cell_def enum_def)
qed

text \<open>The corpus strings of a pack are, without repeats, exactly the texts that are not empty among
  the sources of its deinflection files, the inputs of text.tsv, the texts of lookup.tsv and the
  samples of its descriptor.\<close>

theorem corpusStrings_exact:
  assumes "corpusStrings fs dir language = Inr out"
  shows "distinct out \<and> (\<forall>t. t \<in> set out \<longleftrightarrow> t \<noteq> [] \<and> corpus_text fs dir language t)"
  using corpusStrings_texts [OF assms] by blast

theorem corpusStrings_exact_witness:
  "corpus_text (\<lambda>f. if f = js ''p/tests/text.tsv'' then Some (js ''c'' @ [9, 49, 9] @ js ''in'' @ [9] @ js ''v'') else None)
    (js ''p'') JNull (js ''in'')"
proof -
  have "corpusStrings (\<lambda>f. if f = js ''p/tests/text.tsv'' then Some (js ''c'' @ [9, 49, 9] @ js ''in'' @ [9] @ js ''v'') else None)
    (js ''p'') JNull = Inr [js ''in'']"
    by code_simp
  from corpusStrings_exact [OF this] show ?thesis by (auto simp: list.set)
qed

end
