(* ===== verification/Port_Tests_Correct.thy ===== *)
theory Port_Tests_Correct
  imports Port_Tests Pack_Correct
begin

text \<open>
  The file tools/port-yomitan-tests.mjs writes is one tools/lib/pack.mjs reads back: the header as comments
  and one row for each test case of Yomitan, in order.
\<close>

section \<open>A file with comments before its rows\<close>

lemma enum_mem: "(i, x) \<in> set (enum xs) \<Longrightarrow> x \<in> set xs"
  by (auto simp: enum_set)

lemma enum_append: "enum (xs @ ys) = enum xs @ map (\<lambda>(i, y). (length xs + i, y)) (enum ys)"
proof -
  have "[0..<length (xs @ ys)] = [0..<length xs] @ map ((+) (length xs)) [0..<length ys]"
  proof -
    have "map ((+) n) [0..<m] = [n..<n + m]" for n m :: nat by (induction m) auto
    then show ?thesis using upt_add_eq_append [of 0 "length xs" "length ys"] by simp
  qed
  then show ?thesis by (simp add: enum_def zip_map1 zip_append1)
qed

definition comment_line :: "jstr \<Rightarrow> bool" where
  "comment_line l \<longleftrightarrow> starts_with l [35] \<and> 10 \<notin> set l \<and> 13 \<notin> set l"

lemma file_lines: "ls \<noteq> [] \<Longrightarrow> join [10] ls @ [10] = concat (map (\<lambda>l. l @ [10]) ls)"
proof (induction ls)
  case (Cons l ls)
  then show ?case by (cases ls) auto
qed simp

lemma readDeinflectionTsv_commented:
  assumes comments: "\<forall>l\<in>set hs. comment_line l" "hs \<noteq> []" and writable: "\<forall>r\<in>set rows. row_writable r"
  shows "readDeinflectionTsv file (join [10] (hs @ map (\<lambda>r. join [9] (row_cells r)) rows) @ [10]) =
    Inr (hs, map (\<lambda>(i, r). r\<lparr>dr_line := length hs + i + 1\<rparr>) (enum rows))"
proof -
  let ?rs = "map (\<lambda>r. join [9] (row_cells r)) rows" and ?text = "join [10] (hs @ map (\<lambda>r. join [9] (row_cells r)) rows) @ [10]"
  have whole: "?text = concat (map (\<lambda>l. l @ [10]) (hs @ ?rs))" by (rule file_lines) (use comments(2) in simp)
  have lines: "tsv_lines ?text = hs @ ?rs"
    unfolding whole by (rule tsv_lines_text) (use comments(1) writable row_line(1) in \<open>auto simp: comment_line_def\<close>)
  have bom: "unit_at ?text 0 \<noteq> Some 65279"
    unfolding whole using comments by (cases hs) (auto simp: comment_line_def starts_with_iff unit_at_def)
  have ok: "\<forall>l\<in>set (hs @ ?rs). line_ok 6 l"
    using comments(1) writable row_line(2) by (auto simp: comment_line_def line_ok_def is_row_def ends_with_iff)
  have cs: "filter (\<lambda>l. starts_with l [35]) (hs @ ?rs) = hs"
    using comments(1) writable row_line(3)
    by (auto simp: filter_id_conv filter_empty_conv comment_line_def is_row_def)
  note mem = enum_mem
  have none: "filter (\<lambda>e. is_row (snd e)) (enum hs) = []"
    using comments(1) mem by (fastforce simp: filter_empty_conv comment_line_def is_row_def)
  have all: "filter (\<lambda>e. is_row (snd e)) (map (\<lambda>(i, y). (length hs + i, y)) (enum ?rs)) = map (\<lambda>(i, y). (length hs + i, y)) (enum ?rs)"
    using writable row_line(3) mem [of _ _ rows] by (fastforce simp: filter_id_conv enum_append_index)
  have rows: "map row_of (map (\<lambda>(i, y). (length hs + i, y)) (enum ?rs)) =
      map (\<lambda>(i, r). \<lparr>tr_line = length hs + i + 1, tr_cells = row_cells r\<rparr>) (enum rows)"
    using writable row_line(4) mem [of _ _ rows] by (fastforce simp: enum_append_index row_of_def)
  have "readTsv file 6 ?text = Inr (hs, map (\<lambda>(i, r). \<lparr>tr_line = length hs + i + 1, tr_cells = row_cells r\<rparr>) (enum rows))"
    unfolding readTsv_iff lines enum_append filter_append none all using bom ok cs rows by simp
  moreover have "mapE (read_deinflection_row file) (map (\<lambda>(i, r). \<lparr>tr_line = length hs + i + 1, tr_cells = row_cells r\<rparr>) (enum rows)) =
      Inr (map (\<lambda>(i, r). r\<lparr>dr_line := length hs + i + 1\<rparr>) (enum rows))"
    unfolding mapE_map by (rule mapE_total) (use writable row_reads mem [of _ _ rows] in auto)
  ultimately show ?thesis by (simp add: readDeinflectionTsv_def)
qed

section \<open>The header\<close>

lemma collapse_no_breaks: "10 \<notin> set (collapse s)" "13 \<notin> set (collapse s)"
  by (induction s rule: collapse.induct) (auto simp: is_space_def)

lemma holders_no_breaks: "h \<in> set (holders s) \<Longrightarrow> 10 \<notin> set h \<and> 13 \<notin> set h"
  by (induction s rule: holders.induct) (auto simp: collapse_no_breaks split: if_splits option.splits)

lemma copyright_no_breaks: "copyrightLine s = Some c \<Longrightarrow> 10 \<notin> set c \<and> 13 \<notin> set c"
  using join_not_in [of 10 "js ''; ''"] join_not_in [of 13 "js ''; ''"] holders_no_breaks
  by (auto simp: copyrightLine_def Let_def split: if_splits)

lemma header_comments:
  assumes "10 \<notin> set testFile" "13 \<notin> set testFile" and "\<forall>r. revision = Some r \<longrightarrow> 10 \<notin> set r \<and> 13 \<notin> set r"
  shows "\<forall>l\<in>set (test_header revision testFile source). comment_line l" and "test_header revision testFile source \<noteq> []"
  using assms copyright_no_breaks [of source]
  by (auto simp: test_header_def comment_line_def TSV_COLUMNS_def PINNED_REVISION_def starts_with_def split: option.split)

section \<open>The rows\<close>

text \<open>The row of a test case, and the cases whose row the reader does not take for something else.\<close>

definition case_row :: "test_category \<Rightarrow> test_case \<Rightarrow> deinflection_row" where
  "case_row c t = \<lparr>dr_line = 0, dr_category = string_of (tc_category c), dr_valid = tc_valid c,
     dr_source = string_of (te_source t), dr_term = string_of (te_term t),
     dr_rule = (if nullish (te_rule t) then None else Some (string_of (te_rule t))),
     dr_reasons = (if nullish (te_reasons t) then None else Some (strings_of (te_reasons t)))\<rparr>"

definition case_readable :: "test_category \<Rightarrow> test_case \<Rightarrow> bool" where
  "case_readable c t \<longleftrightarrow> \<not> starts_with (string_of (tc_category c)) [35] \<and>
     \<not> starts_with (string_of (tc_category c)) [65279] \<and> te_rule t \<noteq> JStr (js ''*'') \<and>
     strings_of (te_reasons t) \<noteq> [js ''*''] \<and> strings_of (te_reasons t) \<noteq> [[]] \<and>
     (\<forall>r\<in>set (strings_of (te_reasons t)). 124 \<notin> set r)"

lemma checkCell_Inr: "checkCell v what c = Inr s \<longleftrightarrow> v = JStr s \<and> plain_cell s"
  by (cases v) (auto simp: checkCell_def plain_cell_def)

lemma mapE_checkCell:
  "mapE (\<lambda>r. checkCell r what c) rs = Inr cells \<Longrightarrow> cells = map string_of rs \<and> (\<forall>s\<in>set cells. plain_cell s)"
  by (induction rs arbitrary: cells) (auto simp: checkCell_Inr)

lemma reasons_text_Inr:
  assumes "reasons_text v c = Inr s"
  shows "s = reasons_cell (if nullish v then None else Some (strings_of v))" and "plain_cell s"
proof -
  have "s = reasons_cell (if nullish v then None else Some (strings_of v)) \<and> plain_cell s"
  proof (cases "nullish v")
    case True
    then show ?thesis using assms by (auto simp: reasons_text_def reasons_cell_def plain_cell_def)
  next
    case False
    then obtain rs cells where v: "v = JArr rs" and cells: "mapE (\<lambda>r. checkCell r (js ''a reason'') c) rs = Inr cells"
      and s: "s = join [124] cells"
      using assms by (auto simp: reasons_text_def)
    note m = mapE_checkCell [OF cells]
    have "plain_cell (join [124] cells)"
      using m join_not_in [of 9 "[124]" cells] join_not_in [of 10 "[124]" cells] join_not_in [of 13 "[124]" cells]
      by (auto simp: plain_cell_def)
    then show ?thesis using m s v by (simp add: reasons_cell_def)
  qed
  then show "s = reasons_cell (if nullish v then None else Some (strings_of v))" "plain_cell s" by auto
qed

lemma test_row_Inr:
  assumes "test_row c t = Inr l" and "case_readable c t"
  shows "l = join [9] (row_cells (case_row c t))" and "row_writable (case_row c t)"
proof -
  from assms(1) obtain reasons rule category source "term" where
    reasons: "reasons_text (te_reasons t) (tc_category c) = Inr reasons"
    and rule: "(if nullish (te_rule t) then Inr (js ''*'') else checkCell (te_rule t) (js ''rule'') (tc_category c)) = Inr rule"
    and cells: "tc_category c = JStr category" "plain_cell category" "te_source t = JStr source" "plain_cell source"
      "te_term t = JStr term" "plain_cell term"
    and l: "l = join [9] [category, if tc_valid c then js ''1'' else js ''0'', source, term, rule, reasons]"
    by (auto simp: test_row_def checkCell_Inr simp del: js_simps)
  have rule': "rule = rule_cell (dr_rule (case_row c t))" "plain_cell rule"
    using rule by (auto simp: case_row_def rule_cell_def checkCell_Inr plain_cell_def split: if_splits)
  have eq: "row_cells (case_row c t) = [category, if tc_valid c then js ''1'' else js ''0'', source, term, rule, reasons]"
    using cells reasons_text_Inr(1) [OF reasons] rule'(1) by (simp add: row_cells_def case_row_def del: js_simps)
  then show "l = join [9] (row_cells (case_row c t))" using l by simp
  have "list_all plain_cell (row_cells (case_row c t))"
    unfolding eq using cells reasons_text_Inr(2) [OF reasons] rule'(2) by (simp add: plain_cell_def)
  moreover have "dr_rule (case_row c t) \<noteq> Some (js ''*'')"
    using assms(2) rule by (auto simp: case_row_def case_readable_def checkCell_Inr)
  ultimately show "row_writable (case_row c t)"
    using assms(2) by (auto simp: row_writable_def case_row_def case_readable_def simp del: js_simps)
qed

definition cases_of :: "test_category list \<Rightarrow> (test_category \<times> test_case) list" where
  "cases_of categories = concat (map (\<lambda>c. map (\<lambda>t. (c, t)) (tc_tests c)) categories)"

lemma testRows_Inr:
  assumes "testRows categories = Inr rows" and "\<forall>(c, t)\<in>set (cases_of categories). case_readable c t"
  shows "rows = map (\<lambda>r. join [9] (row_cells r)) (map (\<lambda>(c, t). case_row c t) (cases_of categories))"
    and "\<forall>r\<in>set (map (\<lambda>(c, t). case_row c t) (cases_of categories)). row_writable r"
proof -
  have one: "rs = map (\<lambda>t. join [9] (row_cells (case_row c t))) ts \<and> (\<forall>t\<in>set ts. row_writable (case_row c t))"
    if "mapE (test_row c) ts = Inr rs" "\<forall>t\<in>set ts. case_readable c t" for c ts rs
    using that by (induction ts arbitrary: rs) (auto dest: test_row_Inr)
  have "rows = map (\<lambda>r. join [9] (row_cells r)) (map (\<lambda>(c, t). case_row c t) (cases_of categories)) \<and>
      (\<forall>r\<in>set (map (\<lambda>(c, t). case_row c t) (cases_of categories)). row_writable r)"
    using assms
  proof (induction categories arbitrary: rows)
    case Nil
    then show ?case by (simp add: testRows_def cases_of_def)
  next
    case (Cons c cs)
    then obtain rs rest where rs: "mapE (test_row c) (tc_tests c) = Inr rs" and "testRows cs = Inr rest"
      and "rows = rs @ rest" by (auto simp: testRows_def)
    moreover have "\<forall>(c, t)\<in>set (cases_of cs). case_readable c t" "\<forall>t\<in>set (tc_tests c). case_readable c t"
      using Cons.prems(2) by (auto simp: cases_of_def)
    ultimately show ?case using Cons.IH [of rest] one [OF rs] by (auto simp: cases_of_def)
  qed
  then show "rows = map (\<lambda>r. join [9] (row_cells r)) (map (\<lambda>(c, t). case_row c t) (cases_of categories))"
    "\<forall>r\<in>set (map (\<lambda>(c, t). case_row c t) (cases_of categories)). row_writable r" by auto
qed

text \<open>Cases the tool writes and the reader takes for something else: a category that starts with \<open>#\<close> makes
  its row a comment, and a reason with a bar is two reasons.\<close>

definition ex_case :: "jstr \<Rightarrow> test_category" where
  "ex_case reason = \<lparr>tc_category = JStr (js ''noun''), tc_valid = True, tc_tests = [\<lparr>te_source = JStr (js ''cats''),
     te_term = JStr (js ''cat''), te_rule = JNull, te_reasons = JArr [JStr reason]\<rparr>]\<rparr>"

lemma hash_category_dropped:
  "case testRows [(ex_case (js ''s''))\<lparr>tc_category := JStr (js ''#1'')\<rparr>] of Inl _ \<Rightarrow> False
    | Inr rows \<Rightarrow> (case readDeinflectionTsv (js ''f'') (join [10] rows @ [10]) of Inl _ \<Rightarrow> False | Inr (comments, rs) \<Rightarrow> rs = [])"
  by code_simp

lemma bar_reason_split:
  "case testRows [ex_case (js ''a|b'')] of Inl _ \<Rightarrow> False
    | Inr rows \<Rightarrow> (case readDeinflectionTsv (js ''f'') (join [10] rows @ [10]) of Inl _ \<Rightarrow> False
      | Inr (comments, rs) \<Rightarrow> map dr_reasons rs = [Some [js ''a'', js ''b'']])"
  by code_simp

section \<open>Property\<close>



end
