(* ===== verification/Check_Yomitan.thy ===== *)
theory Check_Yomitan
  imports Yomitan Check_Classes
begin

text \<open>
  The differential check against Yomitan (tools/check-yomitan.mjs): the listed differences and how they
  explain a discrepancy, the answers of the command-line tool, the inputs built from rules and
  processors, the comparison of rules and of processors, and the report.

  Parameters: \<open>js_env\<close>; \<open>rx\<close>, whether \<open>new RegExp(source, 'u')\<close> compiles and what it finds; the results of
  Yomitan's transformer and processors; and the command-line tool as a function of its inputs. The rows
  of differences are state: each counts how often it was used. Fields of rules are strings or missing.
\<close>

record rx =
  rx_compiles :: "jstr \<Rightarrow> bool"
  rx_finds :: "jstr \<Rightarrow> jstr \<Rightarrow> bool"

section \<open>Listed differences\<close>

record difference =
  df_line :: nat
  df_kind :: jstr
  df_id :: jstr
  df_side :: jstr
  df_input :: jstr
  df_text :: jstr
  df_conditions :: jstr
  df_reason :: jstr
  df_used :: nat

datatype diff_error =
    DiffPack pack_error
  | BadKind nat
  | BadSide nat
  | NoReason nat
  | BadRegExp nat
  | DiffType
  | StillTodo nat
  | NoDescriptor jstr
  | DiffYomitan yomitan_error
  | CliFailed
  | CliStatus int
  | CliLines nat nat
  | CliJson nat
  | CliAnswer nat json jstr
  | DiffClass class_error

definition star :: jstr where
  "star = [42]"

definition DIFFERENCE_KINDS :: "jstr list" where
  "DIFFERENCE_KINDS = map js [''rule'', ''processor'']"

definition SIDES :: "jstr list" where
  "SIDES = [js ''yomitan'', js ''pack'', star]"

definition isRegExpCell :: "jstr \<Rightarrow> bool" where
  "isRegExpCell c \<longleftrightarrow> 2 \<le> length c \<and> starts_with c [47] \<and> ends_with c [47]"

definition cell_source :: "jstr \<Rightarrow> jstr" where
  "cell_source c = butlast (tl c)"

definition cellMatches :: "rx \<Rightarrow> jstr \<Rightarrow> jstr \<Rightarrow> bool" where
  "cellMatches r c v = (if c = star then True else if isRegExpCell c then rx_finds r (cell_source c) v else c = v)"

definition read_difference :: "rx \<Rightarrow> tsv_row \<Rightarrow> diff_error + difference" where
  "read_difference r row = (case tr_cells row of
       [kind, i, side, input, t, conditions, reason] \<Rightarrow>
         (if kind \<notin> set DIFFERENCE_KINDS then Inl (BadKind (tr_line row))
          else if side \<notin> set SIDES then Inl (BadSide (tr_line row))
          else if trim reason = [] then Inl (NoReason (tr_line row))
          else if \<not> list_all (\<lambda>c. isRegExpCell c \<longrightarrow> rx_compiles r (cell_source c)) [input, t, conditions]
          then Inl (BadRegExp (tr_line row))
          else Inr \<lparr>df_line = tr_line row, df_kind = kind, df_id = i, df_side = side, df_input = input, df_text = t,
            df_conditions = conditions, df_reason = reason, df_used = 0\<rparr>)
     | _ \<Rightarrow> Inl DiffType)"

definition readDifferences :: "rx \<Rightarrow> files \<Rightarrow> jstr \<Rightarrow> diff_error + difference list" where
  "readDifferences r fs file = (case fs file of
       None \<Rightarrow> Inr []
     | Some text \<Rightarrow> (case readTsv file 7 text of
           Inl e \<Rightarrow> Inl (DiffPack e)
         | Inr (comments, rows) \<Rightarrow> mapE (read_difference r) rows))"

text \<open>A discrepancy: a result only one side gives. \<open>it_id\<close> is the processor of a processor item,
  \<open>it_note\<close> what is printed instead of its description.\<close>

record item =
  it_kind :: jstr
  it_id :: jstr
  it_traces :: "jstr list list"
  it_side :: jstr
  it_input :: jstr
  it_text :: jstr
  it_conditions :: jstr
  it_note :: "jstr option"

definition row_explains :: "rx \<Rightarrow> item \<Rightarrow> difference \<Rightarrow> bool" where
  "row_explains r item row \<longleftrightarrow>
     df_kind row = it_kind item \<and> (df_side row = star \<or> df_side row = it_side item) \<and>
     (if df_kind row = js ''rule'' then df_id row = star \<or> list_ex (\<lambda>trace. df_id row \<in> set trace) (it_traces item)
      else df_id row = star \<or> df_id row = it_id item) \<and>
     cellMatches r (df_input row) (it_input item) \<and> cellMatches r (df_text row) (it_text item) \<and>
     cellMatches r (df_conditions row) (it_conditions item)"

text \<open>The first row that explains the item, and the rows with its counter increased.\<close>

fun explain :: "rx \<Rightarrow> item \<Rightarrow> difference list \<Rightarrow> (difference \<times> difference list) option" where
  "explain r item [] = None"
| "explain r item (row # rows) =
     (if row_explains r item row then let row' = row\<lparr>df_used := df_used row + 1\<rparr> in Some (row', row' # rows)
      else map_option (\<lambda>(found, rows'). (found, row # rows')) (explain r item rows))"

section \<open>The command-line tool\<close>

text \<open>\<open>/\.m?js$/.test(cli)\<close> and \<open>command(cli)\<close>.\<close>

definition is_script :: "jstr \<Rightarrow> bool" where
  "is_script cli \<longleftrightarrow> ends_with cli (js ''.js'') \<or> ends_with cli (js ''.mjs'')"

definition command_of :: "jstr \<Rightarrow> jstr \<Rightarrow> jstr \<times> jstr list" where
  "command_of execPath cli = (if is_script cli then (execPath, [cli]) else (cli, []))"

text \<open>What \<open>spawnSync\<close> returns: an error, a status, the output.\<close>

record spawned =
  sw_error :: bool
  sw_status :: int
  sw_stdout :: jstr

definition cli_input :: "jstr list \<Rightarrow> jstr" where
  "cli_input inputs = (if inputs = [] then [] else join [10] inputs @ [10])"

definition read_answer :: "nat \<times> jstr \<times> jstr \<Rightarrow> diff_error + json" where
  "read_answer = (\<lambda>(i, line, input). case json_parse line of
       None \<Rightarrow> Inl (CliJson i)
     | Some v \<Rightarrow> if obj_get v (js ''input'') \<noteq> JStr input then Inl (CliAnswer (i + 1) (obj_get v (js ''input'')) input)
         else Inr v)"

definition runCli :: "(jstr \<Rightarrow> spawned) \<Rightarrow> jstr list \<Rightarrow> diff_error + json list" where
  "runCli spawn inputs =
     (let result = spawn (cli_input inputs); lines = filter (\<lambda>line. starts_with line [123]) (split_on 10 (sw_stdout result))
      in if sw_error result then Inl CliFailed
         else if sw_status result \<noteq> 0 then Inl (CliStatus (sw_status result))
         else if length lines \<noteq> length inputs then Inl (CliLines (length lines) (length inputs))
         else mapE read_answer (enum (zip lines inputs)))"

section \<open>Stem letters\<close>

definition class_field :: "class_set \<Rightarrow> json \<Rightarrow> json" where
  "class_field cs language =
     (if class_has cs (js ''letter'') then JStr (js ''{letter}'')
      else or_else (obj_get (obj_get language (js ''text'')) (js ''wordCharacters''))
        (obj_get (obj_get language (js ''text'')) (js ''pattern'')))"

definition count_letter :: "(int \<Rightarrow> bool) \<Rightarrow> (jstr \<times> nat) list \<Rightarrow> jstr \<Rightarrow> (jstr \<times> nat) list" where
  "count_letter isLetter frequency c =
     (if isLetter (cp_of c) then om_set c ((case map_of frequency c of None \<Rightarrow> 0 | Some n \<Rightarrow> n) + 1) frequency
      else frequency)"

definition letter_frequency :: "(int \<Rightarrow> bool) \<Rightarrow> jstr list \<Rightarrow> (jstr \<times> nat) list" where
  "letter_frequency isLetter words = foldl (count_letter isLetter) [] (concat (map cps words))"

definition by_frequency :: "(jstr \<times> nat) list \<Rightarrow> jstr list" where
  "by_frequency frequency = map fst (sort_by (\<lambda>a b. snd b < snd a \<or> (snd a = snd b \<and> cp_of (fst a) \<le> cp_of (fst b))) frequency)"

text \<open>\<open>/\p{L}/u\<close>\<close>

definition is_unicode_letter :: "js_env \<Rightarrow> int \<Rightarrow> bool" where
  "is_unicode_letter env cp \<longleftrightarrow> starts_with (env_cat env cp) [76]"

function fill_letters :: "js_env \<Rightarrow> nat \<Rightarrow> int \<Rightarrow> int \<Rightarrow> jstr list \<Rightarrow> jstr list" where
  "fill_letters env n cp last_cp letters =
     (if last_cp < cp \<or> n \<le> length letters then letters
      else fill_letters env n (cp + 1) last_cp
        (if from_cp cp \<notin> set letters \<and> is_unicode_letter env cp then letters @ [from_cp cp] else letters))"
  by pat_completeness auto
termination
  by (relation "measure (\<lambda>(env, n, cp, last_cp, letters). nat (last_cp + 1 - cp))") auto

declare fill_letters.simps [simp del]

definition stemLetters :: "js_env \<Rightarrow> class_set \<Rightarrow> json \<Rightarrow> jstr list \<Rightarrow> nat \<Rightarrow> diff_error + jstr list" where
  "stemLetters env cs language words n =
     (let field = class_field cs language in
      if \<not> is_string field then Inr (take n (map js [''a'', ''b'', ''c'', ''d'']))
      else (case class_matcher (env_cat env) cs field of
          Inl e \<Rightarrow> Inl (DiffClass e)
        | Inr isLetter \<Rightarrow> (case class_ranges (env_cat env) cs field of
              Inl e \<Rightarrow> Inl (DiffClass e)
            | Inr ranges \<Rightarrow> Inr (take n (fold (\<lambda>(a, b). fill_letters env n a b) ranges
                (by_frequency (letter_frequency isLetter words)))))))"

section \<open>Inputs for the rules\<close>

definition pairs_of :: "json \<Rightarrow> (json \<times> json) list" where
  "pairs_of v = map (\<lambda>p. case list_of p of a # b # _ \<Rightarrow> (a, b) | [a] \<Rightarrow> (a, JUndef) | [] \<Rightarrow> (JUndef, JUndef)) (list_of v)"

definition affix_pairs :: "json \<Rightarrow> (json \<times> json) list" where
  "affix_pairs v = (if nullish v then [(JStr [], JStr [])] else pairs_of v)"

definition expandCrossProduct :: "json \<Rightarrow> json list" where
  "expandCrossProduct rule =
     (if obj_get rule (js ''type'') \<noteq> JStr (js ''circumfix'') \<or>
         (obj_get rule (js ''prefixes'') = JUndef \<and> obj_get rule (js ''suffixes'') = JUndef) then [rule]
      else concat (map (\<lambda>(ip, dp). map (\<lambda>(isuf, ds).
          put (js ''deinflectedSuffix'') ds (put (js ''inflectedSuffix'') isuf
            (put (js ''deinflectedPrefix'') dp (put (js ''inflectedPrefix'') ip rule))))
        (affix_pairs (obj_get rule (js ''suffixes'')))) (affix_pairs (obj_get rule (js ''prefixes'')))))"

text \<open>\<open>l(i)\<close> in a concatenation, and \<open>stem(n, offset)\<close>; without letters, \<open>l(i)\<close> is \<open>undefined\<close>.\<close>

definition letter_at :: "jstr list \<Rightarrow> nat \<Rightarrow> jstr" where
  "letter_at letters i = (if letters = [] then js ''undefined'' else letters ! (i mod length letters))"

definition stem_of :: "jstr list \<Rightarrow> nat \<Rightarrow> nat \<Rightarrow> jstr" where
  "stem_of letters n start =
     (if letters = [] then [] else concat (map (\<lambda>i. letters ! ((i + start) mod length letters)) [0..<n]))"

definition nat_or :: "nat \<Rightarrow> json \<Rightarrow> nat" where
  "nat_or d v = (case v of JNum n \<Rightarrow> nat n | _ \<Rightarrow> d)"

definition change_stems :: "jstr list \<Rightarrow> json \<Rightarrow> jstr list" where
  "change_stems letters rule =
     (let l = letter_at letters in
      concat (map (\<lambda>v. let from_text = to_js v in
          [l 0 @ from_text @ l 1, l 2 @ from_text @ l 1 @ l 3, from_text @ l 1])
        (list_of (obj_get (obj_get rule (js ''stemChange'')) (js ''from'')))))"

definition word_list :: "json \<Rightarrow> json \<Rightarrow> jstr list" where
  "word_list lists_of name = map to_js (list_of (obj_get lists_of (to_js name)))"

text \<open>What one rule adds, in order, with the stems common to all rules.\<close>

definition rule_texts_of :: "jstr list \<Rightarrow> jstr list \<Rightarrow> json \<Rightarrow> json \<Rightarrow> json list" where
  "rule_texts_of letters stems word_lists rule =
     (let l = letter_at letters; stem = stem_of letters;
          minimum = nat_or 0 (obj_get rule (js ''stemMinLength''));
          local = stems @ (if 1 < minimum then [stem (minimum - 1) 1, stem minimum 1] else []);
          changed = change_stems letters rule;
          field = (\<lambda>name. obj_get rule (js name)); inflected = to_js (field ''inflected'');
          kind = field ''type''
      in if kind = JStr (js ''suffix'') then field ''inflected'' # map (\<lambda>s. JStr (s @ inflected)) (local @ changed)
         else if kind = JStr (js ''prefix'') then field ''inflected'' # map (\<lambda>s. JStr (inflected @ s)) (local @ changed)
         else if kind = JStr (js ''wholeWord'') then [field ''inflected'', JStr (l 0 @ inflected)]
         else if kind = JStr (js ''circumfix'') then
           (let p = to_js (or_else (field ''inflectedPrefix'') (JStr [])); s = to_js (or_else (field ''inflectedSuffix'') (JStr []))
            in JStr (p @ s) # map (\<lambda>middle. JStr (p @ middle @ s)) ([stem 1 0, stem 3 0] @ changed))
         else if kind = JStr (js ''replace'') then
           [field ''inflected'', JStr (l 0 @ inflected @ l 1), JStr (inflected @ stem 2 0)]
         else if kind = JStr (js ''pattern'') then
           (case field ''anchorSuffix'' of JStr a \<Rightarrow> map (\<lambda>s. JStr (s @ a)) stems | _ \<Rightarrow> [])
           @ (case field ''anchorPrefix'' of JStr a \<Rightarrow> map (\<lambda>s. JStr (a @ s)) stems | _ \<Rightarrow> [])
         else if kind = JStr (js ''phrasal'') then
           (let words = word_list word_lists (field ''followedBy'') in
            map (\<lambda>w. JStr (stem 3 0 @ inflected @ [32] @ w)) words
            @ concat (map (\<lambda>w. [JStr (stem 3 0 @ inflected @ [32] @ w @ l 1),
                JStr (stem 3 0 @ inflected @ [32] @ w @ [32] @ stem 2 0)]) (take 8 words)))
         else if kind = JStr (js ''interposedObject'') then
           (let particles = word_list word_lists (field ''particles''); guards = word_list word_lists (field ''guardWords'') in
            concat (map (\<lambda>particle. [JStr (stem 3 0 @ [32] @ stem 2 1 @ [32] @ particle),
                JStr (stem 3 0 @ [32] @ stem 3 2 @ [32] @ stem 4 1 @ [32] @ particle @ [32] @ stem 2 0)]) particles)
            @ map (\<lambda>guard. JStr (stem 3 0 @ [32] @ guard @ [32] @ stem 2 1 @ [32] @
                (case particles of [] \<Rightarrow> [] | p # _ \<Rightarrow> p))) (take 12 guards))
         else [])"

text \<open>\<open>add\<close>: a text that is a string, not empty, on one line and new.\<close>

definition add_input :: "json \<Rightarrow> jstr list \<Rightarrow> jstr list" where
  "add_input v out = (case v of
       JStr t \<Rightarrow> if t = [] \<or> 10 \<in> set t \<or> 13 \<in> set t \<or> t \<in> set out then out else out @ [t]
     | _ \<Rightarrow> out)"

definition prefixes_of :: "jstr \<Rightarrow> jstr list" where
  "prefixes_of s = map (\<lambda>n. concat (take n (cps s))) [1..<Suc (length (cps s))]"

definition short_words :: "jstr list \<Rightarrow> jstr list" where
  "short_words words = take 3 (ls_of (filter (\<lambda>w. 32 \<notin> set w \<and> length (cps w) \<le> 8) words))"

definition all_rule_texts :: "jstr list \<Rightarrow> json \<Rightarrow> jstr list \<Rightarrow> jstr list \<Rightarrow> json list" where
  "all_rule_texts letters ported testSources corpusWords =
     (let stems = [stem_of letters 1 0, stem_of letters 3 0, stem_of letters 5 2] @ short_words corpusWords in
      concat (map (\<lambda>transform. concat (map (\<lambda>original.
          concat (map (rule_texts_of letters stems (obj_get ported (js ''wordLists''))) (expandCrossProduct original)))
        (list_of (obj_get transform (js ''rules''))))) (list_of (obj_get ported (js ''transforms''))))
      @ map JStr (concat (map prefixes_of testSources)) @ map JStr corpusWords)"

definition ruleInputs :: "js_env \<Rightarrow> class_set \<Rightarrow> json \<Rightarrow> json \<Rightarrow> jstr list \<Rightarrow> jstr list \<Rightarrow> diff_error + jstr list" where
  "ruleInputs env cs language ported testSources corpusWords =
     bindE (stemLetters env cs language (testSources @ corpusWords) 8) (\<lambda>letters.
       Inr (fold add_input (all_rule_texts letters ported testSources corpusWords) []))"

end
