(* ===== verification/Compare_Yomitan.thy ===== *)
theory Compare_Yomitan
  imports Check_Yomitan "HOL-Library.Word"
begin

text \<open>
  The comparison of a pack with Yomitan (tools/check-yomitan.mjs, from \<open>conditionLeaves\<close> on): the sets of
  results, the comparison of rules and of processors, the report of one pack and the command.

  Parameters beside those of Check_Yomitan: Yomitan's \<open>LanguageTransformer\<close> as a function of its
  descriptor (\<open>yomitan_engine\<close>), its processors, the test cases of a transform test, and the two runs
  of the command-line tool, each a function of the file it reads and the inputs.
\<close>

section \<open>Yomitan's transformer\<close>

record yomitan_result =
  ys_text :: jstr
  ys_conditions :: "32 word"
  ys_trace :: "(jstr \<times> jstr) list"

text \<open>\<open>getConditionFlagsFromConditionType\<close> and \<open>transform\<close> of a transformer; a frame of a trace is its
  transform and its text. Rules that are RegExps test from \<open>lastIndex\<close> 0, as \<open>yr_test\<close> does.\<close>

record yomitan_engine =
  ye_flag :: "jstr \<Rightarrow> 32 word"
  ye_transform :: "jstr \<Rightarrow> yomitan_result list"

record result =
  rs_text :: jstr
  rs_conditions :: "jstr list"
  rs_trace :: "jstr list"

definition conditionLeaves :: "(jstr \<times> json) list \<Rightarrow> jstr list" where
  "conditionLeaves conditions = map fst (filter (\<lambda>e. obj_get (snd e) (js ''subConditions'') = JUndef) conditions)"

definition keeps_last_index :: "yomitan_rule \<Rightarrow> bool" where
  "keeps_last_index rule \<longleftrightarrow> yr_regexp rule \<and> (103 \<in> set (yr_flags rule) \<or> 121 \<in> set (yr_flags rule))"

definition reset_rules :: "yomitan_descriptor \<Rightarrow> nat" where
  "reset_rules d = length (filter keeps_last_index (concat (map (yt_rules \<circ> snd) (yd_transforms d))))"

definition engine_keeps :: "yomitan_result \<Rightarrow> bool" where
  "engine_keeps r \<longleftrightarrow> ys_text r \<noteq> [] \<and> list_all (\<lambda>frame. snd frame \<noteq> []) (ys_trace r)"

definition yomitan_transform_results :: "yomitan_engine \<Rightarrow> yomitan_descriptor \<Rightarrow> jstr \<Rightarrow> result list" where
  "yomitan_transform_results engine d t =
     (let leaves = conditionLeaves (yd_conditions d) in
      map (\<lambda>r. \<lparr>rs_text = ys_text r,
          rs_conditions = filter (\<lambda>name. and (ys_conditions r) (ye_flag engine name) \<noteq> 0) leaves,
          rs_trace = map fst (ys_trace r)\<rparr>)
        (filter engine_keeps (ye_transform engine t)))"

section \<open>Sets of results\<close>

record result_entry =
  re_text :: jstr
  re_conditions :: jstr
  re_traces :: "jstr list list"

type_synonym result_map = "(jstr \<times> result_entry) list"

definition result_names :: "result \<Rightarrow> jstr" where
  "result_names r = join [124] (rs_conditions r)"

definition result_key :: "result \<Rightarrow> jstr" where
  "result_key r = rs_text r @ [0] @ result_names r"

definition add_result :: "result \<Rightarrow> result_map \<Rightarrow> result_map" where
  "add_result r m = (case map_of m (result_key r) of
       None \<Rightarrow> om_set (result_key r)
         \<lparr>re_text = rs_text r, re_conditions = result_names r, re_traces = [rs_trace r]\<rparr> m
     | Some e \<Rightarrow> om_set (result_key r) (e\<lparr>re_traces := re_traces e @ [rs_trace r]\<rparr>) m)"

definition resultSet :: "result list \<Rightarrow> result_map" where
  "resultSet results = fold add_result results []"

definition describe :: "item \<Rightarrow> jstr" where
  "describe i =
     it_side i @ js '' only''
     @ (if it_kind i = js ''processor'' then js '' processor '' @ it_id i else []) @ js '': ''
     @ quote_js (it_input i) @ js '' -> '' @ quote_js (it_text i)
     @ (if it_kind i = js ''rule'' then js '' ['' @ it_conditions i @ [93] else [])
     @ (case it_traces i of (frame # frames) # _ \<Rightarrow> js '' via '' @ join (js '' < '') (frame # frames) | _ \<Rightarrow> [])"

section \<open>Explaining the discrepancies\<close>

text \<open>The state of a comparison: the rows with their counters, the unexplained items, how many were explained.\<close>

record diff_state =
  ds_rows :: "difference list"
  ds_unexplained :: "item list"
  ds_explained :: nat

definition explain_item :: "rx \<Rightarrow> item \<Rightarrow> diff_state \<Rightarrow> diff_state" where
  "explain_item r item s = (case explain r item (ds_rows s) of
       None \<Rightarrow> s\<lparr>ds_unexplained := ds_unexplained s @ [item]\<rparr>
     | Some (found, rows') \<Rightarrow> s\<lparr>ds_rows := rows', ds_explained := ds_explained s + 1\<rparr>)"

definition rule_items :: "jstr \<Rightarrow> jstr \<Rightarrow> result_map \<Rightarrow> result_map \<Rightarrow> item list" where
  "rule_items side input a b = map (\<lambda>(key, e). \<lparr>it_kind = js ''rule'', it_id = [], it_traces = re_traces e, it_side = side,
       it_input = input, it_text = re_text e, it_conditions = re_conditions e,
       it_note = None\<rparr>)
     (filter (\<lambda>(key, e). map_of b key = None) a)"

definition compare_rule_input :: "rx \<Rightarrow> jstr \<times> result_map \<times> result_map \<Rightarrow> diff_state \<Rightarrow> diff_state" where
  "compare_rule_input r = (\<lambda>(input, theirs, ours) s.
     fold (explain_item r) (rule_items (js ''yomitan'') input theirs ours @ rule_items (js ''pack'') input ours theirs) s)"

section \<open>The comparison of the rules\<close>

definition answer_result :: "json \<Rightarrow> result" where
  "answer_result v = \<lparr>rs_text = to_js (obj_get v (js ''text'')),
     rs_conditions = map to_js (list_of (obj_get v (js ''conditions''))),
     rs_trace = map to_js (list_of (obj_get v (js ''trace'')))\<rparr>"

definition answer_results :: "json \<Rightarrow> result list" where
  "answer_results answer = map answer_result (list_of (obj_get answer (js ''results'')))"

definition todo_count :: "json \<Rightarrow> nat" where
  "todo_count ported = sum_list (map (\<lambda>t. length (filter (\<lambda>r. obj_get r (js ''type'') = JStr (js ''todo''))
     (list_of (obj_get t (js ''rules''))))) (list_of (obj_get ported (js ''transforms''))))"

text \<open>What the comparison takes from outside the pack.\<close>

record yomitan_world =
  yw_env :: js_env
  yw_rx :: rx
  yw_files :: files
  yw_dirs :: dir_lists
  yw_exports :: "jstr \<Rightarrow> module_export list"
  yw_tests :: "jstr \<Rightarrow> yomitan_error + jstr list"
  yw_engine :: "yomitan_descriptor \<Rightarrow> yomitan_engine"
  yw_deinflect :: "jstr \<Rightarrow> jstr \<Rightarrow> spawned"
  yw_preprocess :: "json \<Rightarrow> jstr \<Rightarrow> spawned"

definition lift_diff :: "('e \<Rightarrow> diff_error) \<Rightarrow> 'e + 'a \<Rightarrow> diff_error + 'a" where
  "lift_diff f r = (case r of Inl e \<Rightarrow> Inl (f e) | Inr x \<Rightarrow> Inr x)"

definition corpus_words_in :: "files \<Rightarrow> jstr \<Rightarrow> jstr \<Rightarrow> diff_error + jstr list" where
  "corpus_words_in fs dir name =
     (let file = path_join (path_join dir (js ''tests'')) name in
      case fs file of
        None \<Rightarrow> Inr []
      | Some text \<Rightarrow> bindE (lift_diff DiffPack (readDeinflectionTsv file text)) (\<lambda>(comments, rows).
          Inr (concat (map (\<lambda>row. [dr_source row, dr_term row]) rows))))"

definition rule_corpus_words :: "files \<Rightarrow> jstr \<Rightarrow> diff_error + jstr list" where
  "rule_corpus_words fs dir =
     bindE (mapE (corpus_words_in fs dir) (map js [''corpus.tsv'', ''cases.tsv'', ''defaults.tsv''])) (\<lambda>ws. Inr (concat ws))"

definition yomitan_test_sources :: "yomitan_world \<Rightarrow> jstr \<Rightarrow> jstr \<Rightarrow> diff_error + jstr list" where
  "yomitan_test_sources w root code =
     bindE (lift_diff DiffYomitan (findTransformTest (yw_files w) (yw_dirs w) root code)) (\<lambda>testFile. case testFile of
         None \<Rightarrow> Inr []
       | Some file \<Rightarrow> lift_diff DiffYomitan (yw_tests w file))"

record rules_report =
  ru_inputs :: nat
  ru_results :: nat
  ru_unexplained :: "item list"
  ru_explained :: nat
  ru_reset :: nat

definition rule_results ::
    "yomitan_engine \<Rightarrow> yomitan_descriptor \<Rightarrow> jstr list \<Rightarrow> json list \<Rightarrow> (jstr \<times> result_map \<times> result_map) list" where
  "rule_results engine d inputs answers = map (\<lambda>(input, answer).
     (input, resultSet (yomitan_transform_results engine d input), resultSet (answer_results answer))) (zip inputs answers)"

definition compare_results :: "rx \<Rightarrow> (jstr \<times> result_map \<times> result_map) list \<Rightarrow> diff_state \<Rightarrow> diff_state" where
  "compare_results r cases s = fold (compare_rule_input r) cases s"

definition portedFile_of :: "pack \<Rightarrow> jstr" where
  "portedFile_of pack = path_join (path_join (pk_dir pack) (js ''sources'')) (js ''yomitan.json'')"

definition compare_ported ::
    "yomitan_world \<Rightarrow> jstr \<Rightarrow> pack \<Rightarrow> json \<Rightarrow> difference list \<Rightarrow> diff_error + rules_report \<times> difference list" where
  "compare_ported w root pack ported rows =
     (let code = pk_code pack; fs = yw_files w in
      if 0 < todo_count ported then Inl (StillTodo (todo_count ported))
      else
        bindE (lift_diff DiffYomitan (loadTransformDescriptor (\<lambda>f. fs f \<noteq> None) (yw_dirs w) (yw_exports w) root code)) (\<lambda>found.
        case found of None \<Rightarrow> Inl (NoDescriptor code) | Some f \<Rightarrow>
          bindE (yomitan_test_sources w root code) (\<lambda>testSources.
          bindE (rule_corpus_words fs (pk_dir pack)) (\<lambda>corpusWords.
          bindE (ruleInputs (yw_env w) (pk_classes pack) (pk_language pack) ported testSources corpusWords) (\<lambda>inputs.
          bindE (runCli (yw_deinflect w (portedFile_of pack)) inputs) (\<lambda>answers.
            let cases = rule_results (yw_engine w (fd_descriptor f)) (fd_descriptor f) inputs answers;
                s = compare_results (yw_rx w) cases \<lparr>ds_rows = rows, ds_unexplained = [], ds_explained = 0\<rparr>
            in Inr (\<lparr>ru_inputs = length inputs, ru_results = sum_list (map (\<lambda>(i, theirs, ours). length theirs) cases),
                 ru_unexplained = ds_unexplained s, ru_explained = ds_explained s,
                 ru_reset = reset_rules (fd_descriptor f)\<rparr>, ds_rows s)))))))"

definition compareRules ::
    "yomitan_world \<Rightarrow> jstr \<Rightarrow> pack \<Rightarrow> difference list \<Rightarrow> diff_error + rules_report option \<times> difference list" where
  "compareRules w root pack rows =
     (case yw_files w (portedFile_of pack) of
        None \<Rightarrow> Inr (None, rows)
      | Some text \<Rightarrow> bindE (lift_diff DiffPack (readJson (yw_files w) (portedFile_of pack))) (\<lambda>ported.
          bindE (compare_ported w root pack ported rows) (\<lambda>(report, rows'). Inr (Some report, rows'))))"

end
