(* ===== verification/Compare_Processors.thy ===== *)
theory Compare_Processors
  imports Compare_Yomitan
begin

text \<open>
  The comparison of a pack's processors with Yomitan's, the report of one pack and the command
  (tools/check-yomitan.mjs), with \<open>loadTextProcessors\<close> (tools/lib/yomitan.mjs).

  A Yomitan processor is its id and \<open>process\<close> as a function to the list of its outputs. The numbers of
  the command line are decimal. What the command prints is the list of its reports.
\<close>

section \<open>Inputs for a processor\<close>

definition around :: "jstr \<Rightarrow> jstr \<Rightarrow> jstr \<Rightarrow> jstr list" where
  "around a b t = [t, a @ t, t @ a, a @ t @ b, t @ t, a @ t @ b @ t]"

definition sample_points :: "nat \<Rightarrow> ranges \<Rightarrow> jstr list" where
  "sample_points limit rs =
     take limit (concat (map (\<lambda>(first_cp, last_cp). map from_cp (ls_of [first_cp, last_cp, (first_cp + last_cp) div 2])) rs))"

text \<open>The loop of the normalize step from \<open>cp\<close>, with \<open>n\<close> characters found so far.\<close>

definition normalizes_in :: "(jstr \<Rightarrow> jstr) \<Rightarrow> (int \<Rightarrow> bool) \<Rightarrow> int \<Rightarrow> bool" where
  "normalizes_in norm inPack cp \<longleftrightarrow>
     \<not> (55296 \<le> cp \<and> cp \<le> 57343) \<and> norm (from_cp cp) \<noteq> from_cp cp \<and> norm (from_cp cp) \<noteq> [] \<and>
     list_all (\<lambda>c. inPack (cp_of c)) (cps (norm (from_cp cp)))"

function normalize_inputs :: "(jstr \<Rightarrow> jstr) \<Rightarrow> (int \<Rightarrow> bool) \<Rightarrow> jstr \<Rightarrow> jstr \<Rightarrow> int \<Rightarrow> nat \<Rightarrow> jstr list" where
  "normalize_inputs norm inPack a b cp n =
     (if 131071 < cp \<or> 400 \<le> n then []
      else if normalizes_in norm inPack cp
      then [from_cp cp, a @ from_cp cp @ b] @ normalize_inputs norm inPack a b (cp + 1) (n + 1)
      else normalize_inputs norm inPack a b (cp + 1) n)"
  by pat_completeness auto
termination
  by (relation "measure (\<lambda>(norm, inPack, a, b, cp, n). nat (131072 - cp))") auto

declare normalize_inputs.simps [simp del]

text \<open>The characters of a pattern: \<open>\uXXXX\<close> read, the metacharacters removed.\<close>

fun read_escapes :: "jstr \<Rightarrow> jstr" where
  "read_escapes (u # v # a # b # c # d # rest) =
     (if u = 92 \<and> v = 117 \<and> list_all is_hex [a, b, c, d] then hex_val [a, b, c, d] # read_escapes rest
      else u # read_escapes (v # a # b # c # d # rest))"
| "read_escapes s = s"

definition REGEXP_SYNTAX :: jstr where
  "REGEXP_SYNTAX = [92, 94, 36, 46, 42, 43, 63, 40, 41, 91, 93, 123, 125, 124]"

definition pattern_characters :: "jstr \<Rightarrow> jstr list" where
  "pattern_characters pattern = ls_of (cps (filter (\<lambda>u. u \<notin> set REGEXP_SYNTAX) (read_escapes pattern)))"

definition case_inputs :: "js_env \<Rightarrow> jstr list \<Rightarrow> jstr \<Rightarrow> jstr \<Rightarrow> jstr list" where
  "case_inputs env letters a b = concat (map (\<lambda>c. [c, env_upper env c, env_lower env c, env_upper env c @ a @ b,
     env_upper env a @ env_upper env c]) letters)"

definition class_samples :: "js_env \<Rightarrow> class_set \<Rightarrow> json \<Rightarrow> diff_error + jstr list" where
  "class_samples env cs field = bindE (lift_diff DiffClass (class_ranges (env_cat env) cs field)) (\<lambda>rs. Inr (sample_points 64 rs))"

definition pack_matcher :: "js_env \<Rightarrow> class_set \<Rightarrow> json \<Rightarrow> diff_error + (int \<Rightarrow> bool)" where
  "pack_matcher env cs language =
     (let field = obj_get (obj_get language (js ''text'')) (js ''pattern'') in
      if is_string field then lift_diff DiffClass (class_matcher (env_cat env) cs field) else Inr (\<lambda>cp. True))"

definition step_inputs :: "js_env \<Rightarrow> pack \<Rightarrow> jstr list \<Rightarrow> json \<Rightarrow> diff_error + jstr list" where
  "step_inputs env pack letters step =
     (let a = (case letters of [] \<Rightarrow> js ''a'' | c # _ \<Rightarrow> c); b = (case letters of _ # c # _ \<Rightarrow> c | _ \<Rightarrow> js ''b'');
          cs = pk_classes pack; all_around = (\<lambda>ps. concat (map (around a b) ps))
      in bindE (lift_diff DiffClass (stepKind step)) (\<lambda>kind.
         if kind = js ''case'' then Inr (case_inputs env letters a b)
         else if kind = js ''strip'' then
           bindE (class_samples env cs (obj_get step (js ''strip''))) (\<lambda>points. Inr (all_around points))
         else if kind = js ''normalize'' then
           (if obj_get step (js ''within'') \<noteq> JUndef
            then bindE (class_samples env cs (obj_get step (js ''within''))) (\<lambda>points. Inr (all_around points))
            else bindE (pack_matcher env cs (pk_language pack)) (\<lambda>inPack.
              bindE (lift_diff (\<lambda>_. DiffType) (read_form (obj_get step (js ''normalize'')))) (\<lambda>form.
                Inr (normalize_inputs (env_normalize env form) inPack a b 160 0))))
         else if kind = js ''map'' then
           Inr (concat (map (\<lambda>(key, v). around a b key @ around a b (to_js v)) (object_entries (obj_get step (js ''map'')))))
         else if kind = js ''alternatives'' then
           Inr (concat (map (\<lambda>(key, vs). around a b key @ all_around (map to_js (list_of vs)))
             (object_entries (obj_get step (js ''alternatives'')))))
         else if kind = js ''pattern'' then
           Inr (all_around (pattern_characters (to_js (obj_get step (js ''pattern'')))))
         else Inr []))"

definition processorInputs :: "js_env \<Rightarrow> json \<Rightarrow> pack \<Rightarrow> jstr list \<Rightarrow> diff_error + jstr list" where
  "processorInputs env processor pack letters =
     bindE (mapE (step_inputs env pack letters) (concat (map list_of (list_of (obj_get processor (js ''variants'')))))) (\<lambda>ts.
       Inr (concat ts))"

section \<open>Yomitan's processors\<close>

record text_processor =
  tp_id :: jstr
  tp_process :: "jstr \<Rightarrow> jstr list"

record language_descriptor =
  ld_preprocessors :: "(jstr \<times> (jstr \<Rightarrow> jstr list)) list option"
  ld_postprocessors :: "(jstr \<times> (jstr \<Rightarrow> jstr list)) list option"

definition processor_list :: "(jstr \<times> (jstr \<Rightarrow> jstr list)) list option \<Rightarrow> text_processor list" where
  "processor_list object = map (\<lambda>(i, p). \<lparr>tp_id = i, tp_process = p\<rparr>) (case object of None \<Rightarrow> [] | Some es \<Rightarrow> es)"

text \<open>The preprocessors and then the postprocessors; \<open>None\<close> when Yomitan does not describe the language.\<close>

definition loadTextProcessors :: "(jstr \<times> language_descriptor) list \<Rightarrow> jstr \<Rightarrow> text_processor list option" where
  "loadTextProcessors descriptors code = map_option (\<lambda>d.
     processor_list (ld_preprocessors d) @ processor_list (ld_postprocessors d)) (map_of descriptors code)"

section \<open>The comparison of the processors\<close>

record processor_report =
  pr_id :: jstr
  pr_paired :: bool
  pr_inputs :: nat

text \<open>The descriptor of the temporary pack: the pack's with one processor and no rules.\<close>

definition alone_language :: "json \<Rightarrow> json \<Rightarrow> json" where
  "alone_language language mine =
     (let alone = JObj (without_key (js ''optional'') (object_entries mine))
      in put (js ''settings'') (JArr [])
         (put (js ''lookup'') (put (js ''variantPasses'') (JArr []) (put (js ''transforms'') JNull
            (put (js ''postprocessors'') (JArr []) (put (js ''preprocessors'') (JArr [alone])
              (obj_get language (js ''lookup'')))))) language))"

definition processor_items :: "jstr \<Rightarrow> jstr \<Rightarrow> jstr \<Rightarrow> jstr list \<Rightarrow> jstr list \<Rightarrow> item list" where
  "processor_items i side input a b = map (\<lambda>t. \<lparr>it_kind = js ''processor'', it_id = i, it_traces = [], it_side = side,
     it_input = input, it_text = t, it_conditions = star, it_note = None\<rparr>) (filter (\<lambda>t. t \<notin> set b) a)"

definition unpaired_item :: "jstr \<Rightarrow> item" where
  "unpaired_item i = \<lparr>it_kind = js ''processor'', it_id = i, it_traces = [], it_side = js ''yomitan'', it_input = star,
     it_text = star, it_conditions = star,
     it_note = Some (js ''Yomitan's '' @ i @ js '' has no pack processor with that id'')\<rparr>"

definition answer_variants :: "json \<Rightarrow> jstr list" where
  "answer_variants answer = map (\<lambda>v. to_js (obj_get v (js ''text''))) (list_of (obj_get answer (js ''variants'')))"

definition compare_variants :: "rx \<Rightarrow> jstr \<Rightarrow> jstr \<times> jstr list \<times> jstr list \<Rightarrow> diff_state \<Rightarrow> diff_state" where
  "compare_variants r i = (\<lambda>(input, theirs, ours) s.
     fold (explain_item r) (processor_items i (js ''yomitan'') input theirs ours
       @ processor_items i (js ''pack'') input ours theirs) s)"

definition pack_processors :: "json \<Rightarrow> json list" where
  "pack_processors language =
     (let lookup = obj_get language (js ''lookup'')
      in list_of (obj_get lookup (js ''preprocessors'')) @ list_of (obj_get lookup (js ''postprocessors'')))"

definition processor_texts :: "jstr list \<Rightarrow> jstr list" where
  "processor_texts ts = fold add_input (map JStr ts) []"

definition compare_processor ::
    "yomitan_world \<Rightarrow> pack \<Rightarrow> jstr list \<Rightarrow> jstr list \<Rightarrow> processor_report list \<times> diff_state \<Rightarrow> text_processor \<Rightarrow>
      diff_error + processor_report list \<times> diff_state" where
  "compare_processor w pack base letters = (\<lambda>(reports, s) theirs.
     case find (\<lambda>p. obj_get p (js ''id'') = JStr (tp_id theirs)) (pack_processors (pk_language pack)) of
       None \<Rightarrow> Inr (reports @ [\<lparr>pr_id = tp_id theirs, pr_paired = False, pr_inputs = 0\<rparr>],
         explain_item (yw_rx w) (unpaired_item (tp_id theirs)) s)
     | Some mine \<Rightarrow>
         bindE (processorInputs (yw_env w) mine pack letters) (\<lambda>own.
         let inputs = processor_texts (base @ own)
         in bindE (runCli (yw_preprocess w (alone_language (pk_language pack) mine)) inputs) (\<lambda>answers.
            Inr (reports @ [\<lparr>pr_id = tp_id theirs, pr_paired = True, pr_inputs = length inputs\<rparr>],
              fold (compare_variants (yw_rx w) (tp_id theirs))
                (map (\<lambda>(input, answer). (input, ls_of (tp_process theirs input), ls_of (answer_variants answer)))
                  (zip inputs answers)) s))))"

record processors_report =
  pp_processors :: "processor_report list"
  pp_unexplained :: "item list"
  pp_explained :: nat

definition compareProcessors ::
    "yomitan_world \<Rightarrow> text_processor list option \<Rightarrow> pack \<Rightarrow> difference list \<Rightarrow>
      diff_error + processors_report \<times> difference list" where
  "compareProcessors w yomitan pack rows = (case yomitan of
       None \<Rightarrow> Inr (\<lparr>pp_processors = [], pp_unexplained = [], pp_explained = 0\<rparr>, rows)
     | Some processors \<Rightarrow>
         bindE (lift_diff DiffPack (corpusStrings (yw_files w) (pk_dir pack) (pk_language pack))) (\<lambda>base.
         bindE (stemLetters (yw_env w) (pk_classes pack) (pk_language pack) base 8) (\<lambda>letters.
         bindE (foldE (compare_processor w pack base letters)
             ([], \<lparr>ds_rows = rows, ds_unexplained = [], ds_explained = 0\<rparr>) processors) (\<lambda>(reports, s).
           Inr (\<lparr>pp_processors = reports, pp_unexplained = ds_unexplained s, pp_explained = ds_explained s\<rparr>, ds_rows s)))))"

section \<open>The report of a pack\<close>

definition number :: "nat \<Rightarrow> jstr" where
  "number n = num_js (int n)"

definition rules_line :: "jstr \<Rightarrow> rules_report \<Rightarrow> jstr" where
  "rules_line code r = code @ js '': rules: '' @ number (ru_inputs r) @ js '' inputs, '' @ number (ru_results r)
     @ js '' Yomitan results, '' @ number (ru_explained r) @ js '' listed differences, ''
     @ number (length (ru_unexplained r)) @ js '' unexplained (lastIndex reset on '' @ number (ru_reset r) @ js '' rules)''"

definition processors_line :: "jstr \<Rightarrow> processors_report \<Rightarrow> jstr" where
  "processors_line code r =
     (let names = join (js '', '') (map (\<lambda>p. if pr_paired p then pr_id p @ js '' ('' @ number (pr_inputs p) @ js '' inputs)''
            else pr_id p @ js '' (unpaired)'') (pp_processors r))
      in code @ js '': processors: '' @ (if names = [] then js ''none in Yomitan'' else names) @ js ''; ''
         @ number (pp_explained r) @ js '' listed differences, '' @ number (length (pp_unexplained r)) @ js '' unexplained'')"

definition item_line :: "item \<Rightarrow> jstr" where
  "item_line i = js ''  '' @ (case it_note i of Some n \<Rightarrow> n | None \<Rightarrow> describe i)"

definition unused_line :: "jstr \<Rightarrow> jstr \<Rightarrow> difference \<Rightarrow> jstr" where
  "unused_line code file row = code @ js '': note: '' @ file @ [58] @ number (df_line row) @ js '' explains nothing in this run''"

definition rules_lines :: "jstr \<Rightarrow> nat \<Rightarrow> rules_report option \<Rightarrow> jstr list" where
  "rules_lines code shown r = (case r of
       None \<Rightarrow> [code @ js '': no sources/yomitan.json; rules not compared'']
     | Some report \<Rightarrow> rules_line code report # map item_line (take shown (ru_unexplained report)))"

definition processors_lines :: "jstr \<Rightarrow> nat \<Rightarrow> processors_report option \<Rightarrow> jstr list" where
  "processors_lines code shown r = (case r of
       None \<Rightarrow> [code @ js '': processors exempt (section 11.3)'']
     | Some report \<Rightarrow> processors_line code report # map item_line (take shown (pp_unexplained report)))"

definition rules_ok :: "rules_report option \<Rightarrow> bool" where
  "rules_ok r \<longleftrightarrow> (case r of None \<Rightarrow> True | Some report \<Rightarrow> ru_unexplained report = [])"

definition processors_ok :: "processors_report option \<Rightarrow> bool" where
  "processors_ok r \<longleftrightarrow> (case r of None \<Rightarrow> True | Some report \<Rightarrow> pp_unexplained report = [])"

definition differencesFile_of :: "pack \<Rightarrow> jstr" where
  "differencesFile_of pack = path_join (path_join (pk_dir pack) (js ''sources'')) (js ''yomitan-differences.tsv'')"

definition checkYomitan ::
    "yomitan_world \<Rightarrow> (jstr \<times> language_descriptor) list \<Rightarrow> jstr \<Rightarrow> jstr \<Rightarrow> jstr \<Rightarrow> nat \<Rightarrow> diff_error + bool \<times> jstr list" where
  "checkYomitan w descriptors root languagesDir code shown =
     bindE (lift_diff DiffPack (loadPack (env_cat (yw_env w)) (yw_files w) languagesDir None code)) (\<lambda>pack.
     bindE (readDifferences (yw_rx w) (yw_files w) (differencesFile_of pack)) (\<lambda>differences.
     bindE (compareRules w root pack differences) (\<lambda>(rules, rows).
     bindE (if code = js ''ja'' then Inr (None, rows)
         else bindE (compareProcessors w (loadTextProcessors descriptors code) pack rows) (\<lambda>(report, rows').
           Inr (Some report, rows'))) (\<lambda>(processors, rows').
       Inr (rules_ok rules \<and> processors_ok processors,
         rules_lines code shown rules @ processors_lines code shown processors
         @ map (unused_line code (differencesFile_of pack)) (filter (\<lambda>row. df_used row = 0) rows'))))))"

section \<open>The command\<close>

record yomitan_args =
  ya_positional :: "jstr list"
  ya_cli :: jstr
  ya_languages :: jstr
  ya_all :: bool
  ya_show :: "nat option"

definition show_count :: "jstr \<Rightarrow> nat option" where
  "show_count t = (if t = [] then Some 0 else if list_all is_digit t then Some (nat (dec_val t)) else None)"

fun parse_yomitan_args :: "jstr list \<Rightarrow> yomitan_args \<Rightarrow> yomitan_args option" where
  "parse_yomitan_args [] a = Some a"
| "parse_yomitan_args (arg # rest) a =
     (if arg = js ''--cli'' then (case rest of
          [] \<Rightarrow> None | cli # rest' \<Rightarrow> parse_yomitan_args rest' (a\<lparr>ya_cli := cli\<rparr>))
      else if arg = js ''--languages'' then (case rest of
          [] \<Rightarrow> None | dir # rest' \<Rightarrow> parse_yomitan_args rest' (a\<lparr>ya_languages := dir\<rparr>))
      else if arg = js ''--all'' then parse_yomitan_args rest (a\<lparr>ya_all := True\<rparr>)
      else if arg = js ''--show'' then (case rest of
          [] \<Rightarrow> None
        | t # rest' \<Rightarrow> parse_yomitan_args rest' (a\<lparr>ya_show := show_count t\<rparr>))
      else if starts_with arg [45] then None
      else parse_yomitan_args rest (a\<lparr>ya_positional := ya_positional a @ [arg]\<rparr>))"

record yomitan_outcome =
  yo_status :: nat
  yo_warned :: bool
  yo_reports :: "(diff_error + bool \<times> jstr list) list"

definition report_failed :: "diff_error + bool \<times> jstr list \<Rightarrow> bool" where
  "report_failed r = (case r of Inl e \<Rightarrow> True | Inr (ok, ls) \<Rightarrow> \<not> ok)"

text \<open>\<open>git\<close> is what \<open>git rev-parse HEAD\<close> prints in the checkout; \<open>check\<close> is \<open>checkYomitan\<close> for a root, a
  command-line tool, a languages directory, a code and a number of items to show.\<close>

definition yomitan_main ::
    "(jstr \<Rightarrow> jstr option) \<Rightarrow> files \<Rightarrow> (jstr \<Rightarrow> dir_entry list) \<Rightarrow>
     (jstr \<Rightarrow> jstr \<Rightarrow> jstr \<Rightarrow> jstr \<Rightarrow> nat \<Rightarrow> diff_error + bool \<times> jstr list) \<Rightarrow> yomitan_args \<Rightarrow> jstr list \<Rightarrow> yomitan_outcome" where
  "yomitan_main git fs dirs check start argv =
     (case parse_yomitan_args argv start of
        None \<Rightarrow> \<lparr>yo_status = 2, yo_warned = False, yo_reports = []\<rparr>
      | Some a \<Rightarrow> (case (ya_positional a, ya_show a) of
            (root # named, Some shown) \<Rightarrow>
              let codes = named @ (if ya_all a
                    then filter (\<lambda>c. c \<notin> set named) (listPacks (dirs (ya_languages a))) else []);
                  warned = (yomitanRevision (git root) fs root \<noteq> Some PINNED_REVISION)
              in if codes = [] then \<lparr>yo_status = 2, yo_warned = False, yo_reports = []\<rparr>
                 else if \<not> is_script (ya_cli a) \<and> fs (ya_cli a) = None
                 then \<lparr>yo_status = 1, yo_warned = warned, yo_reports = []\<rparr>
                 else let reports = map (\<lambda>code. check root (ya_cli a) (ya_languages a) code shown) codes
                   in \<lparr>yo_status = (if list_ex report_failed reports then 1 else 0), yo_warned = warned,
                        yo_reports = reports\<rparr>
          | _ \<Rightarrow> \<lparr>yo_status = 2, yo_warned = False, yo_reports = []\<rparr>))"

end
