(* ===== verification/Check_Yomitan_Correct.thy ===== *)
theory Check_Yomitan_Correct
  imports Compare_Processors Check_Classes_Correct
begin

text \<open>
  The differential check: which row explains a discrepancy, what a comparison reports and counts, when two
  result sets agree, the inputs and answers that cross the command-line tool, and the letters of the stems.
\<close>

section \<open>Which row explains an item\<close>

text \<open>Rows up to their counters.\<close>

definition same_row :: "difference \<Rightarrow> difference \<Rightarrow> bool" where
  "same_row a b \<longleftrightarrow> a\<lparr>df_used := 0\<rparr> = b\<lparr>df_used := 0\<rparr>"

lemma row_explains_same: "same_row a b \<Longrightarrow> row_explains r item a = row_explains r item b"
  by (cases a, cases b) (simp add: same_row_def row_explains_def)

lemma same_row_refl [simp]: "same_row a a" and same_row_use [simp]: "same_row a (a\<lparr>df_used := n\<rparr>)"
  by (simp_all add: same_row_def)

lemma same_row_trans: "same_row a b \<Longrightarrow> same_row b c \<Longrightarrow> same_row a c"
  by (simp add: same_row_def)

definition explainable :: "rx \<Rightarrow> difference list \<Rightarrow> item \<Rightarrow> bool" where
  "explainable r rows item \<longleftrightarrow> (\<exists>row\<in>set rows. row_explains r item row)"

lemma explain_None: "explain r item rows = None \<longleftrightarrow> \<not> explainable r rows item"
  by (induction rows) (auto simp: explainable_def Let_def)

lemma explain_same:
  assumes "explain r item rows = Some (found, rows')"
  shows "list_all2 same_row rows rows'"
  using assms
  by (induction rows arbitrary: rows')
     (auto simp: Let_def intro: list_all2_refl split: if_splits)

lemma explainable_same:
  assumes "list_all2 same_row rows rows'"
  shows "explainable r rows item = explainable r rows' item"
  using assms by (induction rule: list_all2_induct) (auto simp: explainable_def row_explains_same)

text \<open>The item an earlier row does not explain and this one does.\<close>

definition first_explains :: "rx \<Rightarrow> difference list \<Rightarrow> nat \<Rightarrow> item \<Rightarrow> bool" where
  "first_explains r rows i item \<longleftrightarrow>
     row_explains r item (rows ! i) \<and> (\<forall>j<i. \<not> row_explains r item (rows ! j))"

lemma first_explains_same:
  assumes "list_all2 same_row rows rows'" "i < length rows"
  shows "first_explains r rows i item = first_explains r rows' i item"
  using assms unfolding first_explains_def
  by (metis (no_types, lifting) list_all2_nthD order_less_trans row_explains_same)

lemma explain_used:
  assumes "explain r item rows = Some (found, rows')" "i < length rows"
  shows "df_used (rows' ! i) = df_used (rows ! i) + (if first_explains r rows i item then 1 else 0)"
  using assms
proof (induction rows arbitrary: rows' i)
  case Nil
  then show ?case by simp
next
  case (Cons row rows)
  show ?case
  proof (cases "row_explains r item row")
    case True
    then show ?thesis using Cons.prems
      by (cases i) (auto simp: Let_def first_explains_def)
  next
    case False
    then obtain rows'' where e: "explain r item rows = Some (found, rows'')" and rows': "rows' = row # rows''"
      using Cons.prems(1) by auto
    show ?thesis
    proof (cases i)
      case 0
      then show ?thesis using False rows' by (simp add: first_explains_def)
    next
      case (Suc k)
      have "first_explains r (row # rows) (Suc k) item = first_explains r rows k item"
        using False by (auto simp: first_explains_def less_Suc_eq_0_disj)
      then show ?thesis using Cons.IH [OF e, of k] Cons.prems(2) rows' Suc by simp
    qed
  qed
qed

section \<open>What a comparison reports\<close>

lemma explain_item_rows: "list_all2 same_row (ds_rows s) (ds_rows (explain_item r item s))"
  by (auto simp: explain_item_def list_all2_refl explain_same split: option.splits)

lemma list_all2_same_trans:
  "list_all2 same_row as bs \<Longrightarrow> list_all2 same_row bs cs \<Longrightarrow> list_all2 same_row as cs"
  by (rule list_all2_trans [where ?P1.0 = same_row and ?P2.0 = same_row]) (auto intro: same_row_trans)

lemma fold_explain_rows: "list_all2 same_row (ds_rows s) (ds_rows (fold (explain_item r) items s))"
proof (induction items arbitrary: s)
  case Nil
  then show ?case by (simp add: list_all2_refl)
next
  case (Cons item items)
  have "list_all2 same_row (ds_rows (explain_item r item s)) (ds_rows (fold (explain_item r) (item # items) s))"
    using Cons.IH [of "explain_item r item s"] by simp
  then show ?case using list_all2_same_trans explain_item_rows by blast
qed

lemma fold_explain_unexplained:
  "ds_unexplained (fold (explain_item r) items s)
     = ds_unexplained s @ filter (\<lambda>item. \<not> explainable r (ds_rows s) item) items"
proof (induction items arbitrary: s)
  case Nil
  then show ?case by simp
next
  case (Cons item items)
  have "explainable r (ds_rows (explain_item r item s)) = explainable r (ds_rows s)"
    using explainable_same [OF explain_item_rows [of s r item]] by (simp add: fun_eq_iff)
  moreover have "ds_unexplained (explain_item r item s)
      = ds_unexplained s @ (if explainable r (ds_rows s) item then [] else [item])"
    by (auto simp: explain_item_def explain_None [symmetric] split: option.splits)
  ultimately show ?case using Cons.IH [of "explain_item r item s"] by auto
qed

lemma fold_explain_explained:
  "ds_explained (fold (explain_item r) items s)
     = ds_explained s + length (filter (explainable r (ds_rows s)) items)"
proof (induction items arbitrary: s)
  case Nil
  then show ?case by simp
next
  case (Cons item items)
  have "explainable r (ds_rows (explain_item r item s)) = explainable r (ds_rows s)"
    using explainable_same [OF explain_item_rows [of s r item]] by (simp add: fun_eq_iff)
  moreover have "ds_explained (explain_item r item s)
      = ds_explained s + (if explainable r (ds_rows s) item then 1 else 0)"
    by (auto simp: explain_item_def explain_None [symmetric] split: option.splits)
  ultimately show ?case using Cons.IH [of "explain_item r item s"] by auto
qed

lemma explain_item_used:
  assumes "i < length (ds_rows s)"
  shows "df_used (ds_rows (explain_item r item s) ! i)
    = df_used (ds_rows s ! i) + (if first_explains r (ds_rows s) i item then 1 else 0)"
proof (cases "explain r item (ds_rows s)")
  case None
  then have "\<not> row_explains r item (ds_rows s ! i)"
    using assms by (auto simp: explain_None explainable_def)
  then show ?thesis using None by (simp add: explain_item_def first_explains_def)
next
  case (Some p)
  then show ?thesis using explain_used [of r item "ds_rows s" "fst p" "snd p" i] assms
    by (cases p) (simp add: explain_item_def)
qed

lemma fold_explain_used:
  assumes "i < length (ds_rows s)"
  shows "df_used (ds_rows (fold (explain_item r) items s) ! i)
    = df_used (ds_rows s ! i) + length (filter (first_explains r (ds_rows s) i) items)"
  using assms
proof (induction items arbitrary: s)
  case Nil
  then show ?case by simp
next
  case (Cons item items)
  let ?s = "explain_item r item s"
  have len: "length (ds_rows ?s) = length (ds_rows s)"
    using explain_item_rows by (metis list_all2_lengthD)
  have "first_explains r (ds_rows ?s) i = first_explains r (ds_rows s) i"
    using first_explains_same [OF explain_item_rows [of s r item] Cons.prems] by (simp add: fun_eq_iff)
  then show ?case using Cons.IH [of ?s] Cons.prems len explain_item_used [OF Cons.prems, of r item] by simp
qed

text \<open>All the items of a comparison of rules, in the order it meets them.\<close>

definition case_items :: "jstr \<times> result_map \<times> result_map \<Rightarrow> item list" where
  "case_items = (\<lambda>(input, theirs, ours).
     rule_items (js ''yomitan'') input theirs ours @ rule_items (js ''pack'') input ours theirs)"

lemma fold_fold_concat: "fold (\<lambda>x. fold f (g x)) xs s = fold f (concat (map g xs)) s"
  by (induction xs arbitrary: s) simp_all

lemma compare_results_fold:
  "compare_results r cases s = fold (explain_item r) (concat (map case_items cases)) s"
proof -
  have "compare_rule_input r = (\<lambda>x. fold (explain_item r) (case_items x))"
    by (simp add: compare_rule_input_def case_items_def fun_eq_iff)
  then show ?thesis by (simp add: compare_results_def fold_fold_concat)
qed

text \<open>C39: a comparison of results is a filter and a count: the unexplained items are, in order, exactly those no row explains,
  the others are counted, and each row's counter grows by the number of items it is the first to explain.\<close>

theorem compare_results_exact:
  assumes "s = compare_results r cases \<lparr>ds_rows = rows, ds_unexplained = [], ds_explained = 0\<rparr>"
    and "items = concat (map case_items cases)"
  shows "ds_unexplained s = filter (\<lambda>item. \<not> explainable r rows item) items \<and>
    ds_explained s + length (ds_unexplained s) = length items \<and>
    list_all2 same_row rows (ds_rows s) \<and>
    (\<forall>i<length rows. df_used (ds_rows s ! i) = df_used (rows ! i) + length (filter (first_explains r rows i) items))"
proof -
  let ?s0 = "\<lparr>ds_rows = rows, ds_unexplained = [], ds_explained = 0\<rparr>"
  have s: "s = fold (explain_item r) items ?s0"
    using assms by (simp add: compare_results_fold)
  have unexplained: "ds_unexplained s = filter (\<lambda>item. \<not> explainable r rows item) items"
    by (simp add: s fold_explain_unexplained)
  then have "ds_explained s + length (ds_unexplained s) = length items"
    using sum_length_filter_compl [of "explainable r rows" items] by (simp add: s fold_explain_explained)
  moreover have "list_all2 same_row rows (ds_rows s)"
    using fold_explain_rows [of ?s0 r items] by (simp add: s)
  moreover have "\<forall>i<length rows. df_used (ds_rows s ! i)
      = df_used (rows ! i) + length (filter (first_explains r rows i) items)"
    using fold_explain_used [of _ ?s0 r items] by (simp add: s)
  ultimately show ?thesis using unexplained by blast
qed

section \<open>Sets of results\<close>

lemma keys_add_result: "dom (map_of (add_result r m)) = insert (result_key r) (dom (map_of m))"
  by (auto simp: add_result_def split: option.splits)

lemma keys_fold_add_result: "dom (map_of (fold add_result rs m)) = result_key ` set rs \<union> dom (map_of m)"
  by (induction rs arbitrary: m) (auto simp: keys_add_result)

lemma keys_resultSet: "dom (map_of (resultSet rs)) = result_key ` set rs"
  by (simp add: resultSet_def keys_fold_add_result)

lemma rule_items_Nil: "rule_items side input a b = [] \<longleftrightarrow> dom (map_of a) \<subseteq> dom (map_of b)"
proof -
  have "rule_items side input a b = [] \<longleftrightarrow> (\<forall>k\<in>fst ` set a. k \<in> dom (map_of b))"
    by (force simp: rule_items_def filter_empty_conv)
  then show ?thesis by (auto simp: dom_map_of_conv_image_fst)
qed

lemma case_items_Nil: "case_items (input, a, b) = [] \<longleftrightarrow> dom (map_of a) = dom (map_of b)"
  by (auto simp: case_items_def rule_items_Nil)

section \<open>The texts that cross the command-line tool\<close>

definition one_line :: "jstr \<Rightarrow> bool" where
  "one_line t \<longleftrightarrow> 10 \<notin> set t \<and> 13 \<notin> set t"

lemma add_input_set:
  "set (add_input v out) = set out \<union> {t. v = JStr t \<and> t \<noteq> [] \<and> one_line t}"
  by (cases v) (auto simp: add_input_def one_line_def)

lemma fold_add_input_set:
  "set (fold add_input vs out) = set out \<union> {t. JStr t \<in> set vs \<and> t \<noteq> [] \<and> one_line t}"
  by (induction vs arbitrary: out) (auto simp: add_input_set)

lemma fold_add_input_distinct: "distinct out \<Longrightarrow> distinct (fold add_input vs out)"
proof (induction vs arbitrary: out)
  case (Cons v vs)
  moreover have "distinct (add_input v out)"
    using Cons.prems by (cases v) (simp_all add: add_input_def)
  ultimately show ?case by simp
qed simp

lemma join_append_Nil: "xs \<noteq> [] \<Longrightarrow> join sep (xs @ [[]]) = join sep xs @ sep"
  by (induction xs rule: list_nonempty_induct) (simp_all add: join_Cons)

lemma cli_input_lines:
  assumes "\<And>t. t \<in> set inputs \<Longrightarrow> 10 \<notin> set t"
  shows "split_on 10 (cli_input inputs) = inputs @ [[]]"
proof (cases "inputs = []")
  case True
  then show ?thesis by (simp add: cli_input_def)
next
  case False
  then have "cli_input inputs = join [10] (inputs @ [[]])"
    using join_append_Nil [of inputs] by (simp add: cli_input_def)
  moreover have "split_on 10 (join [10] (inputs @ [[]])) = inputs @ [[]]"
    by (rule split_on_join) (use assms in auto)
  ultimately show ?thesis by simp
qed

definition line_tool :: "(jstr \<Rightarrow> jstr) \<Rightarrow> jstr \<Rightarrow> spawned" where
  "line_tool line stdin = \<lparr>sw_error = False, sw_status = 0,
     sw_stdout = concat (map (\<lambda>t. line t @ [10]) (butlast (split_on 10 stdin)))\<rparr>"

lemma split_on_line_list:
  assumes "\<And>t. t \<in> set ts \<Longrightarrow> 10 \<notin> set (line t)"
  shows "split_on 10 (concat (map (\<lambda>t. line t @ [10]) ts)) = map line ts @ [[]]"
  using assms by (induction ts) (simp_all add: split_on_append)

lemma read_answers:
  assumes "\<And>t. t \<in> set ts \<Longrightarrow> json_parse (line t) = Some (answer t) \<and> obj_get (answer t) (js ''input'') = JStr t"
  shows "mapE read_answer (enum (zip (map line ts) ts)) = Inr (map answer ts)"
proof -
  have "mapE read_answer (enum (zip (map line ts) ts)) = Inr (map (\<lambda>(i, l, t). answer t) (enum (zip (map line ts) ts)))"
  proof (rule mapE_total)
    fix x assume "x \<in> set (enum (zip (map line ts) ts))"
    then have "(fst x, snd x) \<in> set (enum (zip (map line ts) ts))" by simp
    then obtain i where "x = (i, line (ts ! i), ts ! i)" "i < length ts"
      unfolding enum_set by (cases x) auto
    then show "read_answer x = Inr (case x of (i, l, t) \<Rightarrow> answer t)"
      using assms [of "ts ! i"] by (simp add: read_answer_def)
  qed
  moreover have "map (\<lambda>(i, l, t). answer t) (enum (zip (map line ts) ts)) = map answer ts"
    by (rule nth_equalityI) (simp_all add: enum_def)
  ultimately show ?thesis by simp
qed

lemma ruleInputs_one_line:
  assumes "ruleInputs env cs language ported sources words = Inr inputs"
  shows "distinct inputs" "t \<in> set inputs \<Longrightarrow> t \<noteq> [] \<and> one_line t"
    and "t \<in> set words \<or> (\<exists>s\<in>set sources. t \<in> set (prefixes_of s)) \<Longrightarrow> t \<noteq> [] \<Longrightarrow> one_line t \<Longrightarrow> t \<in> set inputs"
proof -
  obtain letters where inputs: "inputs = fold add_input (all_rule_texts letters ported sources words) []"
    using assms by (auto simp: ruleInputs_def)
  show "distinct inputs" by (simp add: inputs fold_add_input_distinct)
  show "t \<in> set inputs \<Longrightarrow> t \<noteq> [] \<and> one_line t" by (simp add: inputs fold_add_input_set)
  assume t: "t \<in> set words \<or> (\<exists>s\<in>set sources. t \<in> set (prefixes_of s))" "t \<noteq> []" "one_line t"
  have "JStr t \<in> JStr ` (set words \<union> (\<Union>s\<in>set sources. set (prefixes_of s)))"
    using t(1) by (intro imageI) blast
  then have "JStr t \<in> set (all_rule_texts letters ported sources words)"
    unfolding all_rule_texts_def Let_def set_append set_map set_concat image_Un by blast
  then show "t \<in> set inputs" using t by (simp add: inputs fold_add_input_set)
qed

text \<open>a tool that reads lines and answers each with a JSON object on one line, the object naming its input, is asked exactly
  the texts built from the rules and its answers are returned in their order.\<close>

theorem ruleInputs_protocol:
  assumes "ruleInputs env cs language ported sources words = Inr inputs"
    and "\<And>t. t \<in> set inputs \<Longrightarrow> json_parse (line t) = Some (answer t) \<and> obj_get (answer t) (js ''input'') = JStr t \<and>
      10 \<notin> set (line t) \<and> starts_with (line t) [123]"
  shows "distinct inputs \<and> split_on 10 (cli_input inputs) = inputs @ [[]] \<and>
    runCli (line_tool line) inputs = Inr (map answer inputs)"
proof -
  have lines: "split_on 10 (cli_input inputs) = inputs @ [[]]"
    using ruleInputs_one_line(2) [OF assms(1)] by (intro cli_input_lines) (auto simp: one_line_def)
  have "filter (\<lambda>l. starts_with l [123]) (split_on 10 (sw_stdout (line_tool line (cli_input inputs)))) = map line inputs"
    using assms(2) split_on_line_list [of inputs line]
    by (simp add: line_tool_def lines filter_id_conv starts_with_def)
  then have "runCli (line_tool line) inputs = mapE read_answer (enum (zip (map line inputs) inputs))"
    by (simp add: runCli_def Let_def, simp add: line_tool_def)
  also have "\<dots> = Inr (map answer inputs)"
    using assms(2) by (intro read_answers) blast
  finally show ?thesis using lines ruleInputs_one_line(1) [OF assms(1)] by simp
qed

section \<open>Accepted rules\<close>

lemma read_answer_Inr:
  "read_answer (i, line, input) = Inr v \<longleftrightarrow> json_parse line = Some v \<and> obj_get v (js ''input'') = JStr input"
  by (auto simp: read_answer_def simp del: js_simps split: option.splits)

lemma runCli_answers:
  assumes "runCli spawn inputs = Inr answers"
  shows "list_all2 (\<lambda>input answer. obj_get answer (js ''input'') = JStr input) inputs answers"
proof -
  define ls where "ls = filter (\<lambda>l. starts_with l [123]) (split_on 10 (sw_stdout (spawn (cli_input inputs))))"
  have len: "length ls = length inputs" and m: "mapE read_answer (enum (zip ls inputs)) = Inr answers"
    using assms by (auto simp: runCli_def Let_def ls_def split: if_splits)
  have "list_all2 (\<lambda>x y. read_answer x = Inr y) (enum (zip ls inputs)) answers"
    by (rule mapE_Inr) (rule m)
  then have "length answers = length inputs"
    and "\<And>i. i < length inputs \<Longrightarrow> read_answer (i, ls ! i, inputs ! i) = Inr (answers ! i)"
    using len by (auto simp: list_all2_conv_all_nth enum_def)
  then show ?thesis
    by (simp add: list_all2_conv_all_nth read_answer_Inr del: js_simps)
qed

lemma compared_agree:
  assumes "ds_unexplained (compare_results r cases \<lparr>ds_rows = [], ds_unexplained = [], ds_explained = 0\<rparr>) = []"
    and "(input, a, b) \<in> set cases"
  shows "dom (map_of a) = dom (map_of b)"
proof -
  have "concat (map case_items cases) = []"
    using assms(1) by (simp add: compare_results_fold fold_explain_unexplained explainable_def)
  then show ?thesis using assms(2) case_items_Nil by fastforce
qed


section \<open>Stem letters\<close>

definition bump :: "nat option \<Rightarrow> nat" where
  "bump n = (case n of None \<Rightarrow> 0 | Some k \<Rightarrow> k) + 1"

lemma letter_frequency_fold:
  "letter_frequency isLetter words = fold (om.update_with bump) (filter (\<lambda>c. isLetter (cp_of c)) (concat (map cps words))) []"
proof -
  have "foldl (count_letter isLetter) m cs = fold (om.update_with bump) (filter (\<lambda>c. isLetter (cp_of c)) cs) m" for cs m
    by (induction cs arbitrary: m) (simp_all add: count_letter_def om.update_with_def bump_def)
  then show ?thesis by (simp add: letter_frequency_def)
qed

lemma fold_bump_counts:
  "map_of (fold (om.update_with bump) cs m) c =
     (if c \<in> set cs then Some (count_list cs c + (case map_of m c of None \<Rightarrow> 0 | Some k \<Rightarrow> k)) else map_of m c)"
  by (induction cs arbitrary: m) (auto simp: om.update_with_def bump_def)

definition letter_count :: "jstr list \<Rightarrow> jstr \<Rightarrow> nat" where
  "letter_count words c = count_list (concat (map cps words)) c"

lemma count_list_filter: "P c \<Longrightarrow> count_list (filter P xs) c = count_list xs c"
  by (induction xs) auto

lemma letter_frequency_of:
  "map_of (letter_frequency isLetter words) c =
     (if c \<in> set (concat (map cps words)) \<and> isLetter (cp_of c) then Some (letter_count words c) else None)"
  by (simp add: letter_frequency_fold fold_bump_counts count_list_filter letter_count_def del: set_concat)

lemma letter_frequency_wf: "distinct (map fst (letter_frequency isLetter words))"
proof -
  have "distinct (om_keys (letter_frequency isLetter words))"
    unfolding letter_frequency_fold by (rule om.keys_of_fold_distinct) simp_all
  then show ?thesis by (simp add: om_keys_def)
qed

definition by_use :: "jstr \<times> nat \<Rightarrow> jstr \<times> nat \<Rightarrow> bool" where
  "by_use a b \<longleftrightarrow> snd b < snd a \<or> (snd a = snd b \<and> cp_of (fst a) \<le> cp_of (fst b))"

lemma by_frequency_sorted: "sorted_wrt by_use (sort_by by_use xs)"
  by (rule sorted_sort_by) (auto simp: by_use_def)

definition used_letters :: "(int \<Rightarrow> bool) \<Rightarrow> jstr list \<Rightarrow> jstr list" where
  "used_letters isLetter words = by_frequency (letter_frequency isLetter words)"

lemma used_letters_props:
  "distinct (used_letters isLetter words)"
  "set (used_letters isLetter words) = {c \<in> set (concat (map cps words)). isLetter (cp_of c)}"
  "sorted_wrt (\<lambda>a b. letter_count words b \<le> letter_count words a) (used_letters isLetter words)"
proof -
  let ?f = "letter_frequency isLetter words"
  have u: "used_letters isLetter words = map fst (sort_by by_use ?f)"
    by (simp add: used_letters_def by_frequency_def by_use_def [abs_def])
  have "mset (map fst (sort_by by_use ?f)) = mset (map fst ?f)" by simp
  then show "distinct (used_letters isLetter words)"
    unfolding u using letter_frequency_wf mset_eq_imp_distinct_iff by blast
  have "set (used_letters isLetter words) = dom (map_of ?f)"
    by (simp add: u dom_map_of_conv_image_fst)
  also have "\<dots> = {c \<in> set (concat (map cps words)). isLetter (cp_of c)}"
    by (auto simp: letter_frequency_of split: if_splits)
  finally show "set (used_letters isLetter words) = {c \<in> set (concat (map cps words)). isLetter (cp_of c)}" .
  have counted: "snd p = letter_count words (fst p)" if "p \<in> set (sort_by by_use ?f)" for p
  proof -
    have "map_of ?f (fst p) = Some (snd p)" using that letter_frequency_wf by simp
    then show ?thesis by (simp add: letter_frequency_of split: if_splits)
  qed
  have "sorted_wrt (\<lambda>p q. snd q \<le> snd p) (sort_by by_use ?f)"
    using by_frequency_sorted [of ?f] by (rule sorted_wrt_mono_rel [rotated]) (auto simp: by_use_def)
  then show "sorted_wrt (\<lambda>a b. letter_count words b \<le> letter_count words a) (used_letters isLetter words)"
    unfolding u sorted_wrt_map by (rule sorted_wrt_mono_rel [rotated]) (simp add: counted)
qed

definition letters_between :: "js_env \<Rightarrow> int \<Rightarrow> int \<Rightarrow> jstr set" where
  "letters_between env a z = {c. \<exists>x. a \<le> x \<and> x \<le> z \<and> c = from_cp x \<and> is_unicode_letter env x}"

lemma letters_between_step:
  assumes "a \<le> z"
  shows "letters_between env a z = letters_between env (a + 1) z \<union> (if is_unicode_letter env a then {from_cp a} else {})"
proof -
  have "a \<le> x \<longleftrightarrow> x = a \<or> a + 1 \<le> x" for x by auto
  then show ?thesis using assms by (auto simp: letters_between_def)
qed

lemma fill_letters_props:
  assumes "distinct letters"
  shows "distinct (fill_letters env n cp z letters) \<and>
    (\<exists>more. fill_letters env n cp z letters = letters @ more \<and>
      set more \<subseteq> letters_between env cp z) \<and>
    (length (fill_letters env n cp z letters) < n \<longrightarrow>
      letters_between env cp z \<subseteq> set (fill_letters env n cp z letters))"
  using assms
proof (induction env n cp z letters rule: fill_letters.induct)
  case (1 env n cp z letters)
  show ?case
  proof (cases "z < cp \<or> n \<le> length letters")
    case True
    then show ?thesis using "1.prems" by (simp add: fill_letters.simps [of env n cp]) (auto simp: letters_between_def)
  next
    case False
    define l where "l = (if from_cp cp \<notin> set letters \<and> is_unicode_letter env cp then letters @ [from_cp cp] else letters)"
    have step: "fill_letters env n cp z letters = fill_letters env n (cp + 1) z l"
      using False by (simp add: fill_letters.simps [of env n cp] l_def)
    have "distinct l" using "1.prems" by (simp add: l_def)
    from "1.IH" [OF False, folded l_def, OF this] obtain more where
      d: "distinct (fill_letters env n (cp + 1) z l)" and m: "fill_letters env n (cp + 1) z l = l @ more"
        "set more \<subseteq> letters_between env (cp + 1) z"
      and full: "length (fill_letters env n (cp + 1) z l) < n \<longrightarrow>
        letters_between env (cp + 1) z \<subseteq> set (fill_letters env n (cp + 1) z l)"
      by blast
    have between: "letters_between env cp z
        = letters_between env (cp + 1) z \<union> (if is_unicode_letter env cp then {from_cp cp} else {})"
      using False by (subst letters_between_step) auto
    have "\<exists>more'. l @ more = letters @ more' \<and> set more' \<subseteq> letters_between env cp z"
    proof (cases "l = letters")
      case True
      then show ?thesis using m(2) between by (intro exI [of _ more]) auto
    next
      case new: False
      then have "l = letters @ [from_cp cp]" "is_unicode_letter env cp"
        by (auto simp: l_def split: if_splits)
      then show ?thesis using m(2) between by (intro exI [of _ "from_cp cp # more"]) auto
    qed
    moreover have "is_unicode_letter env cp \<Longrightarrow> from_cp cp \<in> set (l @ more)"
      by (auto simp: l_def)
    ultimately show ?thesis using d full unfolding step m(1) between by auto
  qed
qed

definition range_letters :: "js_env \<Rightarrow> ranges \<Rightarrow> jstr set" where
  "range_letters env rs = (\<Union>(a, z)\<in>set rs. letters_between env a z)"

lemma fold_fill_letters_props:
  assumes "distinct letters" and "r = fold (\<lambda>(a, z). fill_letters env n a z) rs letters"
  shows "distinct r \<and> (\<exists>more. r = letters @ more \<and> set more \<subseteq> range_letters env rs) \<and>
    (length r < n \<longrightarrow> range_letters env rs \<subseteq> set r)"
  using assms
proof (induction rs arbitrary: letters r)
  case Nil
  then show ?case by (simp add: range_letters_def)
next
  case (Cons p rs)
  obtain a z where p: "p = (a, z)" by (cases p)
  let ?l = "fill_letters env n a z letters"
  have l: "distinct ?l" "length ?l < n \<longrightarrow> letters_between env a z \<subseteq> set ?l"
    using fill_letters_props [OF Cons.prems(1), of env n a z] by blast+
  obtain m1 where m1: "?l = letters @ m1" "set m1 \<subseteq> letters_between env a z"
    using fill_letters_props [OF Cons.prems(1), of env n a z] by blast
  have "r = fold (\<lambda>(a, z). fill_letters env n a z) rs ?l" using Cons.prems(2) p by simp
  from Cons.IH [OF l(1) this] obtain m2 where
    r: "distinct r" "r = ?l @ m2" "set m2 \<subseteq> range_letters env rs" "length r < n \<longrightarrow> range_letters env rs \<subseteq> set r"
    by blast
  have u: "range_letters env (p # rs) = letters_between env a z \<union> range_letters env rs"
    by (simp add: range_letters_def p)
  have "r = letters @ (m1 @ m2)" "set (m1 @ m2) \<subseteq> range_letters env (p # rs)"
    using r(2,3) m1 u by auto
  moreover have "length r < n \<longrightarrow> range_letters env (p # rs) \<subseteq> set r"
    using r l(2) u by auto
  ultimately show ?case using r(1) by blast
qed

text \<open>The letters of the stems are distinct and at most as many as asked for: first the letters of the words that are in the
  pack's letter class, the most frequent first, then Unicode letters of the class; only when the class has no more are
  there fewer.\<close>

theorem stemLetters_exact:
  assumes "stemLetters env cs language words n = Inr letters" and "is_string (class_field cs language)"
  shows "\<exists>isLetter rs used more.
    class_matcher (env_cat env) cs (class_field cs language) = Inr isLetter \<and>
    class_ranges (env_cat env) cs (class_field cs language) = Inr rs \<and>
    letters = take n (used @ more) \<and> distinct (used @ more) \<and>
    set used = {c \<in> set (concat (map cps words)). isLetter (cp_of c)} \<and>
    sorted_wrt (\<lambda>a b. letter_count words b \<le> letter_count words a) used \<and>
    set more \<subseteq> range_letters env rs \<and> (length letters < n \<longrightarrow> range_letters env rs \<subseteq> set letters)"
proof -
  obtain isLetter rs where
    m: "class_matcher (env_cat env) cs (class_field cs language) = Inr isLetter" and
    rs: "class_ranges (env_cat env) cs (class_field cs language) = Inr rs" and
    letters: "letters = take n (fold (\<lambda>(a, z). fill_letters env n a z) rs (used_letters isLetter words))"
    using assms by (auto simp: stemLetters_def Let_def used_letters_def split: sum.splits)
  let ?r = "fold (\<lambda>(a, z). fill_letters env n a z) rs (used_letters isLetter words)"
  obtain more where r: "distinct ?r" "?r = used_letters isLetter words @ more" "set more \<subseteq> range_letters env rs"
    "length ?r < n \<longrightarrow> range_letters env rs \<subseteq> set ?r"
    using fold_fill_letters_props [OF used_letters_props(1) refl, of env n rs isLetter words] by blast
  have "length letters < n \<longrightarrow> range_letters env rs \<subseteq> set letters"
    using r(4) by (auto simp: letters)
  then show ?thesis
    using m rs letters r used_letters_props [where isLetter = isLetter and words = words]
    by (intro exI [of _ isLetter] exI [of _ rs] exI [of _ "used_letters isLetter words"] exI [of _ more]) simp
qed

section \<open>Examples\<close>

definition ex_item :: "jstr \<Rightarrow> item" where
  "ex_item t = \<lparr>it_kind = js ''rule'', it_id = [], it_traces = [[js ''t'']], it_side = js ''pack'', it_input = t, it_text = t,
     it_conditions = [], it_note = None\<rparr>"

definition ex_difference :: difference where
  "ex_difference = \<lparr>df_line = 1, df_kind = js ''rule'', df_id = js ''t'', df_side = star, df_input = js ''ab'', df_text = star,
     df_conditions = star, df_reason = js ''r'', df_used = 0\<rparr>"

definition ex_result :: "jstr \<Rightarrow> result_map" where
  "ex_result t = resultSet [\<lparr>rs_text = t, rs_conditions = [], rs_trace = [js ''t'']\<rparr>]"

definition ex_rx :: rx where
  "ex_rx = \<lparr>rx_compiles = (\<lambda>s. True), rx_finds = (\<lambda>s t. True)\<rparr>"

definition ex_cases :: "(jstr \<times> result_map \<times> result_map) list" where
  "ex_cases = [(js ''ab'', [], ex_result (js ''ab'')), (js ''c'', [], ex_result (js ''c''))]"

theorem compare_results_exact_witness:
  "ds_unexplained (compare_results ex_rx ex_cases \<lparr>ds_rows = [ex_difference], ds_unexplained = [], ds_explained = 0\<rparr>)
      = [ex_item (js ''c'')] \<and>
   df_used (ds_rows (compare_results ex_rx ex_cases
     \<lparr>ds_rows = [ex_difference], ds_unexplained = [], ds_explained = 0\<rparr>) ! 0) = 1"
proof -
  define items where "items = concat (map case_items ex_cases)"
  have "filter (\<lambda>item. row_explains ex_rx item ex_difference) items = [ex_item (js ''ab'')]"
    "filter (\<lambda>item. \<not> row_explains ex_rx item ex_difference) items = [ex_item (js ''c'')]" "df_used ex_difference = 0"
    unfolding items_def by code_simp+
  moreover have "first_explains ex_rx [ex_difference] 0 = (\<lambda>item. row_explains ex_rx item ex_difference)"
    "explainable ex_rx [ex_difference] = (\<lambda>item. row_explains ex_rx item ex_difference)"
    by (simp_all add: first_explains_def explainable_def fun_eq_iff)
  ultimately show ?thesis
    using compare_results_exact [OF refl items_def, of ex_rx "[ex_difference]"] by (simp del: js_simps)
qed

definition ex_world :: yomitan_world where
  "ex_world =
     \<lparr>yw_env = ex_env, yw_rx = ex_rx,
      yw_files = (\<lambda>f. if f = js ''d/x/sources/yomitan.json'' then Some (js ''{}'')
        else if f = js ''d/x/tests/corpus.tsv'' then Some (join [9] (map js [''c'', ''1'', ''ab'', ''a'', ''*'', ''*'']) @ [10])
        else if f = js ''r/ext/js/language/x/x-transforms.js'' then Some [] else None),
      yw_dirs = (\<lambda>d. if d = js ''r/ext/js/language/x'' then Some [js ''x-transforms.js''] else None),
      yw_exports = (\<lambda>f. [\<lparr>me_name = js ''t'', me_object = True, me_conditions = True, me_transforms = True,
        me_descriptor = \<lparr>yd_conditions = [(js ''v'', JObj [])], yd_transforms = []\<rparr>\<rparr>]),
      yw_tests = (\<lambda>f. Inr []),
      yw_engine = (\<lambda>d. \<lparr>ye_flag = (\<lambda>name. 1), ye_transform = (\<lambda>t. [\<lparr>ys_text = t, ys_conditions = 1, ys_trace = []\<rparr>])\<rparr>),
      yw_deinflect = (\<lambda>f. line_tool (\<lambda>t. js ''{\"input\":'' @ quote_js t @ js '',\"results\":[{\"text\":'' @ quote_js t
        @ js '',\"conditions\":[\"v\"],\"trace\":[]}]}'')),
      yw_preprocess = (\<lambda>l. line_tool (\<lambda>t. []))\<rparr>"

definition ex_ported_pack :: pack where
  "ex_ported_pack = \<lparr>pk_code = js ''x'', pk_dir = js ''d/x'', pk_language = JObj [], pk_transforms = JNull,
     pk_transforms_path = None, pk_classes = \<lparr>cs_definitions = [], cs_expansions = []\<rparr>\<rparr>"


definition ex_line :: "jstr \<Rightarrow> jstr" where
  "ex_line t = js ''{\"input\":'' @ quote_js t @ js ''}''"

definition ex_line_answer :: "jstr \<Rightarrow> json" where
  "ex_line_answer t = JObj [(js ''input'', JStr t)]"

theorem ruleInputs_protocol_witness:
  "runCli (line_tool ex_line) (map js [''a'', ''ab'', ''c'']) = Inr (map ex_line_answer (map js [''a'', ''ab'', ''c'']))"
proof -
  have inputs: "ruleInputs ex_env \<lparr>cs_definitions = [], cs_expansions = []\<rparr> (JObj []) (JObj []) [js ''ab''] [js ''c'']
      = Inr (map js [''a'', ''ab'', ''c''])"
    by code_simp
  have "list_all (\<lambda>t. json_parse (ex_line t) = Some (ex_line_answer t) \<and> obj_get (ex_line_answer t) (js ''input'') = JStr t \<and>
      10 \<notin> set (ex_line t) \<and> starts_with (ex_line t) [123]) (map js [''a'', ''ab'', ''c''])"
    by code_simp
  then show ?thesis
    using ruleInputs_protocol [OF inputs, of ex_line ex_line_answer] unfolding list_all_iff by blast
qed

theorem stemLetters_exact_witness:
  "\<exists>letters used more. stemLetters ex_env (pk_classes ex_pack) ex_language [js ''eae''] 8 = Inr letters \<and>
    letters = take 8 (used @ more) \<and> sorted_wrt (\<lambda>a b. letter_count [js ''eae''] b \<le> letter_count [js ''eae''] a) used"
proof -
  have field: "class_field (pk_classes ex_pack) ex_language = JStr (js ''[ae]'')" by code_simp
  obtain isLetter where "class_matcher (env_cat ex_env) (pk_classes ex_pack) (JStr (js ''[ae]'')) = Inr isLetter"
    using ex_field_ranges by (auto simp: class_matcher_def class_ranges_def ex_pack_def simp del: js_simps)
  moreover have "class_ranges (env_cat ex_env) (pk_classes ex_pack) (JStr (js ''[ae]''))
      = Inr (ranges_of_test False (rx_test (env_cat ex_env) (js ''[ae]'')))"
    using ex_field_ranges by (simp add: ex_pack_def del: js_simps)
  ultimately obtain letters where "stemLetters ex_env (pk_classes ex_pack) ex_language [js ''eae''] 8 = Inr letters"
    by (simp add: stemLetters_def field Let_def del: js_simps)
  then show ?thesis
    using stemLetters_exact [of ex_env "pk_classes ex_pack" ex_language "[js ''eae'']" 8 letters] field by auto
qed

end
