(* ===== verification/Greek.thy ===== *)
theory Greek
  imports Check_Yomitan
begin

text \<open>
  Polytonic Greek orthography (languages/grc/sources/greek.mjs): accents, the letters of the Greek blocks,
  bracket expressions for sets of characters, the syllable nuclei of a word and the placing of accents.

  Normalization, case mapping and general categories are those of \<open>js_env\<close>. The marks are code units: grave 768,
  acute 769, circumflex 834, diaeresis 776, iota subscript 837.
\<close>

definition toNFC :: "js_env \<Rightarrow> jstr \<Rightarrow> jstr" where
  "toNFC env s = env_normalize env NFC s"

definition toNFD :: "js_env \<Rightarrow> jstr \<Rightarrow> jstr" where
  "toNFD env s = env_normalize env NFD s"

definition ACCENT_MARKS :: "int list" where
  "ACCENT_MARKS = [768, 769, 834]"

definition is_any_mark :: "int \<Rightarrow> bool" where
  "is_any_mark u \<longleftrightarrow> 768 \<le> u \<and> u \<le> 879"

definition stripAccents :: "js_env \<Rightarrow> jstr \<Rightarrow> jstr" where
  "stripAccents env s = toNFC env (filter (\<lambda>u. u \<notin> set ACCENT_MARKS) (toNFD env s))"

definition stripAll :: "js_env \<Rightarrow> jstr \<Rightarrow> jstr" where
  "stripAll env s = toNFC env (filter (\<lambda>u. \<not> is_any_mark u) (toNFD env s))"

definition hasAccent :: "js_env \<Rightarrow> jstr \<Rightarrow> bool" where
  "hasAccent env s \<longleftrightarrow> list_ex (\<lambda>u. u \<in> set ACCENT_MARKS) (toNFD env s)"

definition replace_mark :: "js_env \<Rightarrow> int \<Rightarrow> int \<Rightarrow> jstr \<Rightarrow> jstr" where
  "replace_mark env a b s = toNFC env (map (\<lambda>u. if u = a then b else u) (toNFD env s))"

definition circumflexToAcute :: "js_env \<Rightarrow> jstr \<Rightarrow> jstr" where
  "circumflexToAcute env s = replace_mark env 834 769 s"

definition acuteToCircumflex :: "js_env \<Rightarrow> jstr \<Rightarrow> jstr" where
  "acuteToCircumflex env s = replace_mark env 769 834 s"

section \<open>Letters\<close>

definition BASE_VOWELS :: "int list" where
  "BASE_VOWELS = [945, 949, 951, 953, 959, 965, 969, 913, 917, 919, 921, 927, 933, 937]"

definition BASE_CONSONANTS :: "int list" where
  "BASE_CONSONANTS = [946, 947, 948, 950, 952, 954, 955, 956, 957, 958, 960, 961, 963, 962, 964, 966, 967, 968, 989,
     914, 915, 916, 918, 920, 922, 923, 924, 925, 926, 928, 929, 931, 932, 934, 935, 936, 988]"

definition NON_ACCENT_MARKS :: "jstr list" where
  "NON_ACCENT_MARKS = [[787], [788], [776], [837], [772], [774]]"

text \<open>\<open>base\<close> is the first unit of the decomposition, as a text; it is empty for an empty decomposition.\<close>

definition base_unit :: "js_env \<Rightarrow> jstr \<Rightarrow> jstr" where
  "base_unit env ch = take 1 (toNFD env ch)"

definition marksOf :: "js_env \<Rightarrow> jstr \<Rightarrow> jstr list" where
  "marksOf env ch = cps (drop 1 (toNFD env ch))"

definition decompose :: "js_env \<Rightarrow> jstr \<Rightarrow> jstr \<times> jstr list" where
  "decompose env ch = (base_unit env ch, marksOf env ch)"

definition is_vowel_base :: "jstr \<Rightarrow> bool" where
  "is_vowel_base b \<longleftrightarrow> b \<in> set (map (\<lambda>u. [u]) BASE_VOWELS)"

definition is_consonant_base :: "jstr \<Rightarrow> bool" where
  "is_consonant_base b \<longleftrightarrow> b \<in> set (map (\<lambda>u. [u]) BASE_CONSONANTS)"

definition is_accent_mark :: "jstr \<Rightarrow> bool" where
  "is_accent_mark m \<longleftrightarrow> m = [768] \<or> m = [769] \<or> m = [834]"

record letters =
  lt_plainVowels :: "jstr list"
  lt_accentedVowels :: "jstr list"
  lt_consonants :: "jstr list"

definition add_letter :: "js_env \<Rightarrow> int \<Rightarrow> letters \<Rightarrow> letters" where
  "add_letter env cp out =
     (let ch = from_cp cp in
      if \<not> is_unicode_letter env cp then out
      else if toNFC env ch \<noteq> ch then out
      else let (base, marks) = decompose env ch in
        if is_vowel_base base then
          (if list_ex is_accent_mark marks then out\<lparr>lt_accentedVowels := lt_accentedVowels out @ [ch]\<rparr>
           else if list_all (\<lambda>m. m \<in> set NON_ACCENT_MARKS) marks then out\<lparr>lt_plainVowels := lt_plainVowels out @ [ch]\<rparr>
           else out)
        else if is_consonant_base base then out\<lparr>lt_consonants := lt_consonants out @ [ch]\<rparr> else out)"

definition computeLetters :: "js_env \<Rightarrow> letters" where
  "computeLetters env = fold (add_letter env) (concat (map (\<lambda>(lo, hi). [lo..hi]) [(880, 1023), (7936, 8191)]))
     \<lparr>lt_plainVowels = [], lt_accentedVowels = [], lt_consonants = []\<rparr>"

section \<open>Bracket expressions\<close>

definition escapeForClass :: "jstr \<Rightarrow> jstr" where
  "escapeForClass ch =
     (let cp = cp_of ch in
      if cp < 128 then (if ch \<in> {[92], [93], [94], [45]} then 92 # ch else ch) else [92, 117] @ hex cp 4)"

text \<open>The loop over the sorted code points: the runs of consecutive ones.\<close>

fun run_end :: "int \<Rightarrow> int list \<Rightarrow> int \<times> int list" where
  "run_end a [] = (a, [])"
| "run_end a (b # bs) = (if b = a + 1 then run_end b bs else (a, b # bs))"

lemma run_end_shorter: "run_end a bs = (z, rest) \<Longrightarrow> length rest \<le> length bs"
  by (induction a bs rule: run_end.induct) (auto split: if_splits)

function code_runs :: "int list \<Rightarrow> (int \<times> int) list" where
  "code_runs [] = []"
| "code_runs (a # as) = (case run_end a as of (z, rest) \<Rightarrow> (a, z) # code_runs rest)"
  by pat_completeness auto
termination
  by (relation "measure length") (auto dest!: run_end_shorter [OF sym])

definition run_text :: "int \<times> int \<Rightarrow> jstr" where
  "run_text = (\<lambda>(i, j). let a = escapeForClass (from_cp i); b = escapeForClass (from_cp j) in
     if i = j then a else if j = i + 1 then a @ b else a @ [45] @ b)"

definition charClass :: "jstr list \<Rightarrow> jstr" where
  "charClass chars = [91] @ concat (map run_text (code_runs (sort (map cp_of (ls_of chars))))) @ [93]"

definition PLAIN_VOWEL_CLASS :: "js_env \<Rightarrow> jstr" where
  "PLAIN_VOWEL_CLASS env = charClass (lt_plainVowels (computeLetters env))"

definition ACCENTED_VOWEL_CLASS :: "js_env \<Rightarrow> jstr" where
  "ACCENTED_VOWEL_CLASS env = charClass (lt_accentedVowels (computeLetters env))"

definition CONSONANT_CLASS :: "js_env \<Rightarrow> jstr" where
  "CONSONANT_CLASS env = charClass (lt_consonants (computeLetters env))"

section \<open>Syllable nuclei\<close>

definition baseOf :: "js_env \<Rightarrow> jstr \<Rightarrow> jstr" where
  "baseOf env ch = env_lower env (base_unit env ch)"

definition DIPHTHONG_FIRST :: "int list" where
  "DIPHTHONG_FIRST = [945, 949, 951, 959, 913, 917, 919, 927]"

datatype vowel_length = Long | Short | Either

definition isShortVowel :: "js_env \<Rightarrow> jstr \<Rightarrow> bool" where
  "isShortVowel env ch \<longleftrightarrow> has_text [949, 959] (baseOf env ch)"

definition isLongVowel :: "js_env \<Rightarrow> jstr \<Rightarrow> bool" where
  "isLongVowel env ch \<longleftrightarrow> has_text [951, 969] (baseOf env ch) \<or> [837] \<in> set (marksOf env ch)"

record nucleus =
  nu_start :: nat
  nu_end :: nat
  nu_text :: jstr
  nu_length :: vowel_length

definition is_diphthong :: "js_env \<Rightarrow> jstr \<Rightarrow> jstr option \<Rightarrow> bool" where
  "is_diphthong env ch next_ch =
     (let marks = marksOf env ch;
          nextBase = (case next_ch of Some n \<Rightarrow> baseOf env n | None \<Rightarrow> []);
          nextMarks = (case next_ch of Some n \<Rightarrow> marksOf env n | None \<Rightarrow> []);
          firstPlain = base_unit env ch \<in> set (map (\<lambda>u. [u]) DIPHTHONG_FIRST) \<and> list_all is_accent_mark marks;
          upsilonPlain = baseOf env ch = [965] \<and> list_all is_accent_mark marks \<and> marks = [];
          nextIsSecond = next_ch \<noteq> None \<and> has_text [953, 965] nextBase \<and> [776] \<notin> set nextMarks
      in (firstPlain \<and> marks = [] \<and> nextIsSecond)
         \<or> (upsilonPlain \<and> next_ch \<noteq> None \<and> nextBase = [953] \<and> [776] \<notin> set nextMarks))"

definition vowel_length_of :: "js_env \<Rightarrow> jstr \<Rightarrow> vowel_length" where
  "vowel_length_of env ch = (if isShortVowel env ch then Short else if isLongVowel env ch then Long else Either)"

text \<open>The loop over the characters from the offset \<open>o1\<close>; a diphthong takes two characters.\<close>

fun nuclei_from :: "js_env \<Rightarrow> nat \<Rightarrow> jstr list \<Rightarrow> nucleus list" where
  "nuclei_from env o1 [] = []"
| "nuclei_from env o1 [ch] =
     (if \<not> is_vowel_base (base_unit env ch) then []
      else [\<lparr>nu_start = o1, nu_end = o1 + length ch, nu_text = ch, nu_length = vowel_length_of env ch\<rparr>])"
| "nuclei_from env o1 (ch # n # rest) =
     (if \<not> is_vowel_base (base_unit env ch) then nuclei_from env (o1 + length ch) (n # rest)
      else if is_diphthong env ch (Some n) then
        \<lparr>nu_start = o1, nu_end = o1 + length ch + length n, nu_text = ch @ n, nu_length = Long\<rparr>
          # nuclei_from env (o1 + length ch + length n) rest
      else \<lparr>nu_start = o1, nu_end = o1 + length ch, nu_text = ch, nu_length = vowel_length_of env ch\<rparr>
          # nuclei_from env (o1 + length ch) (n # rest))"

definition nuclei :: "js_env \<Rightarrow> jstr \<Rightarrow> nucleus list" where
  "nuclei env word = nuclei_from env 0 (cps (toNFC env word))"

section \<open>Accents\<close>

definition accent_mark :: "bool \<Rightarrow> int" where
  "accent_mark acute = (if acute then 769 else 834)"

text \<open>\<open>kind === 'acute'\<close> is \<open>acute\<close>.\<close>

definition placeAccent :: "js_env \<Rightarrow> jstr \<Rightarrow> nat \<Rightarrow> bool \<Rightarrow> jstr option" where
  "placeAccent env word indexFromEnd acute =
     (let s = stripAccents env word; ns = nuclei env s in
      if length ns \<le> indexFromEnd then None
      else let n = ns ! (length ns - 1 - indexFromEnd) in
        Some (toNFC env (take (nu_end n) s @ [accent_mark acute] @ drop (nu_end n) s)))"

text \<open>The index from the end of the accented nucleus; \<open>None\<close> is -1.\<close>

definition accentPosition :: "js_env \<Rightarrow> jstr \<Rightarrow> nat option" where
  "accentPosition env word =
     (let ns = nuclei env word in find (\<lambda>k. hasAccent env (nu_text (ns ! (length ns - 1 - k)))) [0..<length ns])"

definition recessive :: "js_env \<Rightarrow> jstr \<Rightarrow> vowel_length option \<Rightarrow> jstr option" where
  "recessive env word ultima =
     (let s = stripAccents env word; ns = nuclei env s in
      if ns = [] then Some s
      else
        let given = (case ultima of Some u \<Rightarrow> u | None \<Rightarrow> nu_length (last ns));
            final = (if given = Either then Short else given) in
        if length ns = 1 then placeAccent env s 0 (nu_length (ns ! 0) \<noteq> Long)
        else if final = Long then placeAccent env s 1 True
        else if 3 \<le> length ns then placeAccent env s 2 True
        else placeAccent env s 1 (nu_length (ns ! 0) \<noteq> Long))"

end
