(* ===== verification/Greek_Correct.thy ===== *)
theory Greek_Correct
  imports Greek
begin

text \<open>
  Correctness of the Greek helpers: the bracket expressions are classes of exactly their characters, the nuclei are
  disjoint slices of the word that hold all its vowels, and placing an accent changes only the accents.
\<close>

section \<open>Bracket expressions\<close>

definition in_runs :: "int \<Rightarrow> (int \<times> int) list \<Rightarrow> bool" where
  "in_runs cp rs \<longleftrightarrow> (\<exists>(a, z)\<in>set rs. a \<le> cp \<and> cp \<le> z)"

lemma run_end_interval:
  assumes "run_end a bs = (z, rest)" and "sorted (a # bs)"
  shows "a \<le> z \<and> (\<exists>taken. bs = taken @ rest \<and> insert a (set taken) = {a..z})"
  using assms
proof (induction a bs rule: run_end.induct)
  case (1 a)
  then show ?case by simp
next
  case (2 a b bs)
  show ?case
  proof (cases "b = a + 1")
    case True
    then obtain taken where t: "b \<le> z" "bs = taken @ rest" "insert b (set taken) = {b..z}"
      using 2 by auto
    have "insert a {b..z} = {a..z}" using True t(1) by auto
    then have "insert a (set (b # taken)) = {a..z}" using t(3) by simp
    moreover have "b # bs = (b # taken) @ rest" using t(2) by simp
    ultimately show ?thesis using t(1) True by (intro conjI exI [of _ "b # taken"]; linarith?)
  next
    case False
    then show ?thesis using 2 by auto
  qed
qed

lemma code_runs_mem: "sorted cs \<Longrightarrow> in_runs cp (code_runs cs) \<longleftrightarrow> cp \<in> set cs"
proof (induction cs rule: code_runs.induct)
  case 1
  then show ?case by (simp add: in_runs_def)
next
  case (2 a as)
  obtain z rest where r: "run_end a as = (z, rest)" by (cases "run_end a as")
  obtain taken where t: "a \<le> z" "as = taken @ rest" "insert a (set taken) = {a..z}"
    using run_end_interval [OF r "2.prems"] by blast
  have "sorted rest" using "2.prems" t(2) by (simp add: sorted_append)
  with "2.IH" [OF r [symmetric]] have "in_runs cp (code_runs rest) \<longleftrightarrow> cp \<in> set rest" by simp
  moreover have "cp \<in> set (a # as) \<longleftrightarrow> cp \<in> {a..z} \<or> cp \<in> set rest"
    unfolding t(3) [symmetric] by (simp add: t(2))
  moreover have "in_runs cp (code_runs (a # as)) \<longleftrightarrow> cp \<in> {a..z} \<or> in_runs cp (code_runs rest)"
    by (simp add: r in_runs_def)
  ultimately show ?case by simp
qed

lemma code_runs_ends:
  "sorted cs \<Longrightarrow> (a, z) \<in> set (code_runs cs) \<Longrightarrow> a \<in> set cs \<and> z \<in> set cs \<and> a \<le> z"
proof (induction cs rule: code_runs.induct)
  case 1
  then show ?case by simp
next
  case (2 b bs)
  obtain y rest where r: "run_end b bs = (y, rest)" by (cases "run_end b bs")
  obtain taken where t: "b \<le> y" "bs = taken @ rest" "insert b (set taken) = {b..y}"
    using run_end_interval [OF r "2.prems"(1)] by blast
  have "y \<in> insert b (set taken)" using t(1) unfolding t(3) by simp
  then have y: "y \<in> set (b # bs)" using t(2) by auto
  have "sorted rest" using "2.prems"(1) t(2) by (simp add: sorted_append)
  with "2.IH" [OF r [symmetric]] have IH: "(a, z) \<in> set (code_runs rest) \<Longrightarrow> a \<in> set rest \<and> z \<in> set rest \<and> a \<le> z"
    by simp
  have sub: "set rest \<subseteq> set (b # bs)" using t(2) by auto
  have "(a, z) = (b, y) \<or> (a, z) \<in> set (code_runs rest)" using "2.prems"(2) by (simp add: r)
  then show ?case
  proof
    assume "(a, z) = (b, y)"
    then show ?thesis using y t(1) by simp
  next
    assume "(a, z) \<in> set (code_runs rest)"
    then show ?thesis using IH sub by blast
  qed
qed

definition class_point :: "int \<Rightarrow> bool" where
  "class_point cp \<longleftrightarrow> 128 \<le> cp \<and> cp \<le> 65535 \<and> \<not> isSurrogate cp"

lemma from_cp_bmp: "class_point cp \<Longrightarrow> from_cp cp = [cp]" and cp_of_unit: "class_point cp \<Longrightarrow> cp_of [cp] = cp"
  by (simp_all add: class_point_def from_cp_def cp_of_def)

lemma escapeForClass_unicode: "class_point cp \<Longrightarrow> escapeForClass (from_cp cp) = [92, 117] @ hex cp 4"
  by (simp add: from_cp_bmp cp_of_unit escapeForClass_def) (simp add: class_point_def)

lemma read_escaped:
  assumes "class_point cp"
  shows "read_atom src ([92, 117] @ hex cp 4 @ rest) = Inr (Some (CChar cp ([92, 117] @ hex cp 4), rest))"
proof -
  have hex: "list_all is_hex (hex cp 4)" "hex_val (hex cp 4) = cp" "length (hex cp 4) = 4"
    using hex_ok [of cp 4] hex4_length [of cp] assms by (simp_all add: class_point_def)
  then obtain a b c d where h: "hex cp 4 = [a, b, c, d]"
    by (auto simp: length_Suc_conv eval_nat_numeral)
  have "a \<noteq> 123" using hex(1) by (auto simp: h is_hex_def is_digit_def)
  then show ?thesis using hex assms
    by (simp add: read_atom_def read_escape_def readCodePointEscape_def h unit_at_def slice_def Let_def
      is_high_def is_low_def class_point_def)
qed

definition escaped :: "int \<Rightarrow> jstr" where
  "escaped cp = [92, 117] @ hex cp 4"

lemma escaped_simps [simp]:
  "unit_at (escaped cp @ s) 0 = Some 92" "escaped cp \<noteq> []" "starts_with (escaped cp @ s) [123] = False"
  by (simp_all add: escaped_def unit_at_def starts_with_def)

lemma read_escaped_atom: "class_point cp \<Longrightarrow> read_atom src (escaped cp @ rest) = Inr (Some (CChar cp (escaped cp), rest))"
  using read_escaped [of cp src rest] by (simp add: escaped_def)

lemma parse_escaped:
  assumes "class_point cp" and "unit_at rest 0 \<noteq> Some 45"
  shows "parse_items src (escaped cp @ rest) =
    bindE (parse_items src rest) (\<lambda>(items, r). Inr (CChar cp (escaped cp) # items, r))"
  using assms by (subst parse_items.simps) (simp add: read_escaped_atom del: append_assoc)

lemma parse_escaped_range:
  assumes "class_point a" "class_point z" "a \<le> z"
  shows "\<exists>raw. parse_items src (escaped a @ [45] @ escaped z @ rest) =
    bindE (parse_items src rest) (\<lambda>(items, r). Inr (CRange a z raw # items, r))"
proof -
  define more where "more = [45] @ escaped z @ rest"
  have more: "unit_at more 0 = Some 45" "unit_at more 1 \<noteq> Some 93" "unit_at more 1 \<noteq> Some 123" "\<not> length more \<le> 1"
    "read_atom src (drop 1 more) = Inr (Some (CChar z (escaped z), rest))"
    using read_escaped_atom [OF assms(2), of src rest] by (simp_all add: more_def unit_at_def) (simp_all add: escaped_def)
  have "\<exists>raw. parse_items src (escaped a @ more) = bindE (parse_items src rest) (\<lambda>(items, r). Inr (CRange a z raw # items, r))"
    using assms(3) by (subst parse_items.simps)
      (simp add: read_escaped_atom [OF assms(1)] more del: One_nat_def, blast)
  then show ?thesis by (simp add: more_def)
qed

lemma parse_runs:
  assumes "\<And>a z. (a, z) \<in> set rs \<Longrightarrow> class_point a \<and> class_point z \<and> a \<le> z"
  shows "\<exists>items. parse_items src (concat (map run_text rs) @ [93]) = Inr (items, []) \<and>
    (\<forall>cp. (\<exists>it\<in>set items. base_mem cat cp it) \<longleftrightarrow> in_runs cp rs)"
  using assms
proof (induction rs)
  case Nil
  then show ?case
    by (subst parse_items.simps) (simp add: read_atom_def unit_at_def in_runs_def is_high_def)
next
  case (Cons p rs)
  obtain a z where p: "p = (a, z)" by (cases p)
  let ?rest = "concat (map run_text rs) @ [93]"
  obtain items where items: "parse_items src ?rest = Inr (items, [])"
    "\<forall>cp. (\<exists>it\<in>set items. base_mem cat cp it) \<longleftrightarrow> in_runs cp rs"
    using Cons by auto
  have ok: "class_point a" "class_point z" "a \<le> z" using Cons.prems p by auto
  have run_p: "run_text p = (if a = z then escaped a else if z = a + 1 then escaped a @ escaped z
      else escaped a @ [45] @ escaped z)"
    using escapeForClass_unicode [OF ok(1)] escapeForClass_unicode [OF ok(2)]
    by (auto simp: p run_text_def escaped_def Let_def)
  have head: "unit_at ?rest 0 \<noteq> Some 45"
  proof (cases rs)
    case (Cons q qs)
    then obtain b y where q: "q = (b, y)" "class_point b" "class_point y" using Cons.prems by (cases q) auto
    then have "\<exists>t. run_text q = escaped b @ t"
      by (simp add: run_text_def escapeForClass_unicode escaped_def Let_def)
    then show ?thesis using Cons by auto
  qed (simp add: unit_at_def)
  have runs: "in_runs cp (p # rs) \<longleftrightarrow> a \<le> cp \<and> cp \<le> z \<or> in_runs cp rs" for cp
    by (auto simp: p in_runs_def)
  consider "a = z" | "z = a + 1" | "a \<noteq> z" "z \<noteq> a + 1" by blast
  then show ?case
  proof cases
    case 1
    then show ?thesis using parse_escaped [OF ok(1) head, of src] items runs by (simp add: run_p) force
  next
    case 2
    have "parse_items src (escaped a @ escaped z @ ?rest) = Inr (CChar a (escaped a) # CChar z (escaped z) # items, [])"
      using parse_escaped [OF ok(1), of "escaped z @ ?rest" src] parse_escaped [OF ok(2) head, of src] items(1) by simp
    moreover have "a \<le> cp \<and> cp \<le> z \<longleftrightarrow> cp = a \<or> cp = z" for cp using 2 by auto
    ultimately show ?thesis using 2 items(2) runs by (simp add: run_p)
  next
    case 3
    then show ?thesis using parse_escaped_range [OF ok, of src ?rest] items runs by (auto simp: run_p)
  qed
qed

lemma charClass_parses:
  assumes "\<And>c. c \<in> set chars \<Longrightarrow> \<exists>cp. c = [cp] \<and> class_point cp"
  shows "\<exists>items. parse_class_text (charClass chars) = Inr (ASet False items) \<and>
    (\<forall>cp. (\<exists>it\<in>set items. base_mem cat cp it) \<longleftrightarrow> from_cp cp \<in> set chars \<and> class_point cp)"
proof -
  let ?cs = "sort (map cp_of (ls_of chars))" and ?src = "charClass chars"
  have points: "class_point cp" if "cp \<in> set ?cs" for cp
    using that assms by (force simp: cp_of_unit)
  have mem: "cp \<in> set ?cs \<longleftrightarrow> from_cp cp \<in> set chars \<and> class_point cp" for cp
  proof
    assume "cp \<in> set ?cs"
    then obtain c where c: "c \<in> set chars" "cp = cp_of c" by auto
    then obtain u where "c = [u]" "class_point u" using assms by blast
    then show "from_cp cp \<in> set chars \<and> class_point cp" using c by (simp add: cp_of_unit from_cp_bmp)
  next
    assume "from_cp cp \<in> set chars \<and> class_point cp"
    then show "cp \<in> set ?cs" using cp_of_unit from_cp_bmp by (force intro: image_eqI)
  qed
  have ends: "class_point a \<and> class_point z \<and> a \<le> z" if "(a, z) \<in> set (code_runs ?cs)" for a z
    using code_runs_ends [OF sorted_sort that] points by blast
  obtain items where items: "parse_items ?src (concat (map run_text (code_runs ?cs)) @ [93]) = Inr (items, [])"
      "\<forall>cp. (\<exists>it\<in>set items. base_mem cat cp it) \<longleftrightarrow> in_runs cp (code_runs ?cs)"
    using parse_runs [of "code_runs ?cs" ?src cat] ends by blast
  have "unit_at ?src 1 \<noteq> Some 94"
  proof (cases "code_runs ?cs")
    case (Cons q qs)
    then obtain b y where q: "q = (b, y)" "class_point b" "class_point y"
      using ends by (cases q) auto
    then have "\<exists>t. run_text q = 92 # t" by (simp add: run_text_def escapeForClass_unicode Let_def)
    then show ?thesis using Cons by (auto simp: charClass_def unit_at_def)
  qed (simp add: charClass_def unit_at_def)
  moreover have "drop 1 ?src = concat (map run_text (code_runs ?cs)) @ [93]" by (simp add: charClass_def)
  moreover have "starts_with ?src [91]" "\<not> starts_with ?src [123]" by (simp_all add: charClass_def starts_with_def)
  ultimately have "parse_class_text ?src = Inr (ASet False items)"
    using items(1) by (simp add: parse_class_text_def)
  then show ?thesis using items(2) code_runs_mem [of ?cs] mem by auto
qed

section \<open>The letter classes\<close>

definition greek_letter :: "js_env \<Rightarrow> int \<Rightarrow> bool" where
  "greek_letter env cp \<longleftrightarrow> (880 \<le> cp \<and> cp \<le> 1023 \<or> 7936 \<le> cp \<and> cp \<le> 8191) \<and> is_unicode_letter env cp \<and>
     toNFC env (from_cp cp) = from_cp cp"

definition accented_vowel :: "js_env \<Rightarrow> int \<Rightarrow> bool" where
  "accented_vowel env cp \<longleftrightarrow> is_vowel_base (base_unit env (from_cp cp)) \<and> list_ex is_accent_mark (marksOf env (from_cp cp))"

definition plain_vowel :: "js_env \<Rightarrow> int \<Rightarrow> bool" where
  "plain_vowel env cp \<longleftrightarrow> is_vowel_base (base_unit env (from_cp cp)) \<and> \<not> accented_vowel env cp \<and>
     list_all (\<lambda>m. m \<in> set NON_ACCENT_MARKS) (marksOf env (from_cp cp))"

definition greek_consonant :: "js_env \<Rightarrow> int \<Rightarrow> bool" where
  "greek_consonant env cp \<longleftrightarrow> is_consonant_base (base_unit env (from_cp cp))"

lemma vowel_not_consonant: "is_vowel_base b \<Longrightarrow> \<not> is_consonant_base b"
  by (auto simp: is_vowel_base_def is_consonant_base_def BASE_VOWELS_def BASE_CONSONANTS_def)

definition stable_letter :: "js_env \<Rightarrow> int \<Rightarrow> bool" where
  "stable_letter env cp \<longleftrightarrow> is_unicode_letter env cp \<and> toNFC env (from_cp cp) = from_cp cp"

lemma add_letter_cases:
  "add_letter env cp l =
     (if \<not> stable_letter env cp then l
      else if is_vowel_base (base_unit env (from_cp cp)) then
        (if accented_vowel env cp then l\<lparr>lt_accentedVowels := lt_accentedVowels l @ [from_cp cp]\<rparr>
         else if plain_vowel env cp then l\<lparr>lt_plainVowels := lt_plainVowels l @ [from_cp cp]\<rparr> else l)
      else if greek_consonant env cp then l\<lparr>lt_consonants := lt_consonants l @ [from_cp cp]\<rparr> else l)"
  unfolding add_letter_def decompose_def Let_def stable_letter_def plain_vowel_def accented_vowel_def greek_consonant_def
    prod.case
  by (cases "is_vowel_base (base_unit env (from_cp cp))"; cases "list_ex is_accent_mark (marksOf env (from_cp cp))") simp_all

lemma letter_kinds:
  "accented_vowel env cp \<Longrightarrow> is_vowel_base (base_unit env (from_cp cp))"
  "plain_vowel env cp \<Longrightarrow> is_vowel_base (base_unit env (from_cp cp)) \<and> \<not> accented_vowel env cp"
  "greek_consonant env cp \<Longrightarrow> \<not> is_vowel_base (base_unit env (from_cp cp))"
  using vowel_not_consonant by (auto simp: accented_vowel_def plain_vowel_def greek_consonant_def)

lemma add_letter_lists:
  "lt_plainVowels (add_letter env cp l) = lt_plainVowels l @ (if stable_letter env cp \<and> plain_vowel env cp then [from_cp cp] else [])"
  "lt_accentedVowels (add_letter env cp l) = lt_accentedVowels l @ (if stable_letter env cp \<and> accented_vowel env cp then [from_cp cp] else [])"
  "lt_consonants (add_letter env cp l) = lt_consonants l @ (if stable_letter env cp \<and> greek_consonant env cp then [from_cp cp] else [])"
  unfolding add_letter_cases using letter_kinds [of env cp] by (auto split: if_split)

lemma fold_add_letter:
  "lt_plainVowels (fold (add_letter env) cs l) = lt_plainVowels l @ map from_cp (filter (\<lambda>cp. stable_letter env cp \<and> plain_vowel env cp) cs)"
  "lt_accentedVowels (fold (add_letter env) cs l) = lt_accentedVowels l @ map from_cp (filter (\<lambda>cp. stable_letter env cp \<and> accented_vowel env cp) cs)"
  "lt_consonants (fold (add_letter env) cs l) = lt_consonants l @ map from_cp (filter (\<lambda>cp. stable_letter env cp \<and> greek_consonant env cp) cs)"
  by (induction cs arbitrary: l) (simp_all add: add_letter_lists)

definition block_points :: "int list" where
  "block_points = concat (map (\<lambda>(lo, hi). [lo..hi]) [(880, 1023), (7936, 8191)])"

lemma set_block_points: "set block_points = {cp. 880 \<le> cp \<and> cp \<le> 1023 \<or> 7936 \<le> cp \<and> cp \<le> 8191}"
  unfolding block_points_def list.map concat.simps prod.case set_append set_upto by auto

lemma computeLetters_lists:
  "lt_plainVowels (computeLetters env) = map from_cp (filter (\<lambda>cp. stable_letter env cp \<and> plain_vowel env cp) block_points)"
  "lt_accentedVowels (computeLetters env) = map from_cp (filter (\<lambda>cp. stable_letter env cp \<and> accented_vowel env cp) block_points)"
  "lt_consonants (computeLetters env) = map from_cp (filter (\<lambda>cp. stable_letter env cp \<and> greek_consonant env cp) block_points)"
  unfolding computeLetters_def block_points_def [symmetric] fold_add_letter by simp_all

lemma class_letters:
  assumes "chars = map from_cp (filter P block_points)"
  shows "\<exists>items. parse_class_text (charClass chars) = Inr (ASet False items) \<and>
    (\<forall>cp. (\<exists>it\<in>set items. base_mem cat cp it) \<longleftrightarrow> (880 \<le> cp \<and> cp \<le> 1023 \<or> 7936 \<le> cp \<and> cp \<le> 8191) \<and> P cp)"
proof -
  let ?in = "\<lambda>cp. (880 \<le> cp \<and> cp \<le> 1023 \<or> 7936 \<le> cp \<and> cp \<le> 8191) \<and> P cp"
  have set: "set chars = from_cp ` {cp. ?in cp}" using assms by (auto simp: set_block_points)
  have point: "?in cp \<Longrightarrow> class_point cp" for cp by (auto simp: class_point_def isSurrogate_def)
  have "from_cp cp \<in> set chars \<and> class_point cp \<longleftrightarrow> ?in cp" for cp
  proof
    assume "from_cp cp \<in> set chars \<and> class_point cp"
    then obtain d where "from_cp cp = from_cp d" "?in d" "class_point cp" unfolding set by blast
    then show "?in cp" using from_cp_bmp [of cp] from_cp_bmp [of d] point [of d] by simp
  next
    assume "?in cp"
    then show "from_cp cp \<in> set chars \<and> class_point cp" using point [of cp] by (auto simp: set)
  qed
  moreover have "\<exists>cp. c = [cp] \<and> class_point cp" if "c \<in> set chars" for c
    using that point from_cp_bmp unfolding set by blast
  ultimately show ?thesis using charClass_parses [of chars cat] by simp
qed

text \<open>the three letter classes of the Ancient Greek rules are bracket expressions of the class dialect, and \<open>parseClass\<close> reads
  them as exactly the letters of the two Greek blocks that are stable under NFC and have, in their decomposition, a vowel
  without accent, a vowel with an accent, and a consonant.\<close>

theorem greek_classes_denote:
  "\<exists>plain accented consonants.
    parse_class_text (PLAIN_VOWEL_CLASS env) = Inr (ASet False plain) \<and>
    parse_class_text (ACCENTED_VOWEL_CLASS env) = Inr (ASet False accented) \<and>
    parse_class_text (CONSONANT_CLASS env) = Inr (ASet False consonants) \<and>
    (\<forall>cp. ((\<exists>it\<in>set plain. base_mem cat cp it) = (greek_letter env cp \<and> plain_vowel env cp)) \<and>
      ((\<exists>it\<in>set accented. base_mem cat cp it) = (greek_letter env cp \<and> accented_vowel env cp)) \<and>
      ((\<exists>it\<in>set consonants. base_mem cat cp it) = (greek_letter env cp \<and> greek_consonant env cp)))"
proof -
  have l: "greek_letter env cp \<and> Q \<longleftrightarrow>
      (880 \<le> cp \<and> cp \<le> 1023 \<or> 7936 \<le> cp \<and> cp \<le> 8191) \<and> stable_letter env cp \<and> Q" for cp Q
    by (auto simp: greek_letter_def stable_letter_def)
  obtain plain where plain: "parse_class_text (PLAIN_VOWEL_CLASS env) = Inr (ASet False plain)"
      "\<And>cp. (\<exists>it\<in>set plain. base_mem cat cp it) = (greek_letter env cp \<and> plain_vowel env cp)"
    using class_letters [of _ "\<lambda>cp. stable_letter env cp \<and> plain_vowel env cp" cat, OF refl]
    by (auto simp: l PLAIN_VOWEL_CLASS_def computeLetters_lists)
  obtain accented where accented: "parse_class_text (ACCENTED_VOWEL_CLASS env) = Inr (ASet False accented)"
      "\<And>cp. (\<exists>it\<in>set accented. base_mem cat cp it) = (greek_letter env cp \<and> accented_vowel env cp)"
    using class_letters [of _ "\<lambda>cp. stable_letter env cp \<and> accented_vowel env cp" cat, OF refl]
    by (auto simp: l ACCENTED_VOWEL_CLASS_def computeLetters_lists)
  obtain consonants where "parse_class_text (CONSONANT_CLASS env) = Inr (ASet False consonants)"
      "\<And>cp. (\<exists>it\<in>set consonants. base_mem cat cp it) = (greek_letter env cp \<and> greek_consonant env cp)"
    using class_letters [of _ "\<lambda>cp. stable_letter env cp \<and> greek_consonant env cp" cat, OF refl]
    by (auto simp: l CONSONANT_CLASS_def computeLetters_lists)
  with plain accented show ?thesis
    by (intro exI [of _ plain] exI [of _ accented] exI [of _ consonants]) simp
qed

section \<open>Nuclei\<close>

definition nucleus_at :: "nat \<Rightarrow> jstr \<Rightarrow> nucleus \<Rightarrow> bool" where
  "nucleus_at o1 s n \<longleftrightarrow> o1 \<le> nu_start n \<and> nu_start n < nu_end n \<and> nu_end n \<le> o1 + length s \<and>
     nu_text n = slice s (nu_start n - o1) (nu_end n - o1)"

lemma nucleus_at_shift:
  assumes "nucleus_at (o1 + length a) s n"
  shows "nucleus_at o1 (a @ s) n"
proof -
  have "slice (a @ s) (nu_start n - o1) (nu_end n - o1) = slice s (nu_start n - (o1 + length a)) (nu_end n - (o1 + length a))"
    using assms by (auto simp: nucleus_at_def slice_def le_diff_conv2)
  then show ?thesis using assms by (auto simp: nucleus_at_def)
qed

lemma nucleus_at_head: "ch \<noteq> [] \<Longrightarrow> nucleus_at o1 (ch @ s) \<lparr>nu_start = o1, nu_end = o1 + length ch, nu_text = ch, nu_length = l\<rparr>"
  by (simp add: nucleus_at_def slice_def)

text \<open>The nuclei of the characters \<open>cs\<close> from the offset \<open>o1\<close>: slices of the text, in order and disjoint, that end where a
  character ends; every character with a vowel base is in one.\<close>

definition nuclei_ok :: "js_env \<Rightarrow> nat \<Rightarrow> jstr list \<Rightarrow> nucleus list \<Rightarrow> bool" where
  "nuclei_ok env o1 cs ns \<longleftrightarrow>
     sorted_wrt (\<lambda>a b. nu_end a \<le> nu_start b) ns \<and>
     (\<forall>n\<in>set ns. nucleus_at o1 (concat cs) n \<and> (\<exists>as bs. cs = as @ bs \<and> nu_end n = o1 + length (concat as))) \<and>
     (\<forall>as ch bs. cs = as @ ch # bs \<longrightarrow> is_vowel_base (base_unit env ch) \<longrightarrow>
       (\<exists>n\<in>set ns. nu_start n \<le> o1 + length (concat as) \<and> o1 + length (concat as) + length ch \<le> nu_end n))"

lemma nuclei_ok_skip:
  assumes "nuclei_ok env (o1 + length ch) cs ns" and "\<not> is_vowel_base (base_unit env ch)"
  shows "nuclei_ok env o1 (ch # cs) ns"
  unfolding nuclei_ok_def
proof (intro conjI ballI allI impI)
  show "sorted_wrt (\<lambda>a b. nu_end a \<le> nu_start b) ns" using assms by (simp add: nuclei_ok_def)
  fix n assume n: "n \<in> set ns"
  show "nucleus_at o1 (concat (ch # cs)) n"
    using nucleus_at_shift [of o1 ch "concat cs" n] n assms(1) by (simp add: nuclei_ok_def)
  obtain as bs where "cs = as @ bs" "nu_end n = o1 + length ch + length (concat as)"
    using n assms(1) by (auto simp: nuclei_ok_def)
  then show "\<exists>as bs. ch # cs = as @ bs \<and> nu_end n = o1 + length (concat as)"
    by (intro exI [of _ "ch # as"] exI [of _ bs]) simp
next
  fix as c bs assume c: "ch # cs = as @ c # bs" "is_vowel_base (base_unit env c)"
  then obtain as' where "as = ch # as'" "cs = as' @ c # bs"
    using assms(2) by (cases as) auto
  then show "\<exists>n\<in>set ns. nu_start n \<le> o1 + length (concat as) \<and> o1 + length (concat as) + length c \<le> nu_end n"
    using assms(1) c(2) unfolding nuclei_ok_def by (simp add: add.assoc)
qed

lemma nuclei_ok_take:
  assumes "nuclei_ok env (o1 + length (concat as)) cs ns" and "as \<noteq> []" "\<And>c. c \<in> set as \<Longrightarrow> c \<noteq> []"
    and n: "n = \<lparr>nu_start = o1, nu_end = o1 + length (concat as), nu_text = concat as, nu_length = l\<rparr>"
  shows "nuclei_ok env o1 (as @ cs) (n # ns)"
  unfolding nuclei_ok_def
proof (intro conjI ballI allI impI)
  have starts: "nu_end n \<le> nu_start m" if "m \<in> set ns" for m
    using assms(1) that by (auto simp: nuclei_ok_def nucleus_at_def n)
  then show "sorted_wrt (\<lambda>a b. nu_end a \<le> nu_start b) (n # ns)" using assms(1) by (simp add: nuclei_ok_def)
  have "concat as \<noteq> []" using assms(2,3) by (cases as) auto
  then have head: "nucleus_at o1 (concat (as @ cs)) n" using nucleus_at_head [of "concat as" o1 "concat cs" l] by (simp add: n)
  fix m assume m: "m \<in> set (n # ns)"
  show "nucleus_at o1 (concat (as @ cs)) m"
    using m head nucleus_at_shift [of o1 "concat as" "concat cs" m] assms(1) by (auto simp: nuclei_ok_def)
  show "\<exists>xs ys. as @ cs = xs @ ys \<and> nu_end m = o1 + length (concat xs)"
  proof (cases "m = n")
    case True
    then show ?thesis by (intro exI [of _ as] exI [of _ cs]) (simp add: n)
  next
    case False
    then obtain xs ys where "cs = xs @ ys" "nu_end m = o1 + length (concat as) + length (concat xs)"
      using m assms(1) by (auto simp: nuclei_ok_def)
    then show ?thesis by (intro exI [of _ "as @ xs"] exI [of _ ys]) simp
  qed
next
  fix xs c ys assume c: "as @ cs = xs @ c # ys" "is_vowel_base (base_unit env c)"
  show "\<exists>m\<in>set (n # ns). nu_start m \<le> o1 + length (concat xs) \<and> o1 + length (concat xs) + length c \<le> nu_end m"
  proof (cases "length xs < length as")
    case True
    then have "as = xs @ c # drop (Suc (length xs)) as" using c(1)
      by (metis append_eq_append_conv_if id_take_nth_drop list.sel(1) nth_append nth_append_length less_imp_le)
    then have "length (concat xs) + length c \<le> length (concat as)"
      by (metis append_assoc concat.simps(2) concat_append le_add1 length_append)
    then show ?thesis by (simp add: n)
  next
    case False
    then obtain zs where "xs = as @ zs" "cs = zs @ c # ys" using c(1) by (auto simp: append_eq_append_conv2 Cons_eq_append_conv)
    then show ?thesis using assms(1) c(2) unfolding nuclei_ok_def by (simp add: add.assoc)
  qed
qed

lemma nuclei_from_ok:
  assumes "\<And>c. c \<in> set cs \<Longrightarrow> c \<noteq> []"
  shows "nuclei_ok env o1 cs (nuclei_from env o1 cs)"
  using assms
proof (induction env o1 cs rule: nuclei_from.induct)
  case (1 env o1)
  then show ?case by (simp add: nuclei_ok_def)
next
  case (2 env o1 ch)
  have empty: "nuclei_ok env o2 [] []" for o2 by (simp add: nuclei_ok_def)
  show ?case
    using nuclei_ok_skip [OF empty, of ch o1] nuclei_ok_take [OF empty, where as = "[ch]" and ?o1.0 = o1] "2.prems" by simp
next
  case (3 env o1 ch n rest)
  note take = nuclei_ok_take [OF _ _ _ refl]
  have ne: "c \<noteq> []" if "c \<in> set [ch, n]" for c using that "3.prems" by auto
  consider "\<not> is_vowel_base (base_unit env ch)"
    | "is_vowel_base (base_unit env ch)" "is_diphthong env ch (Some n)"
    | "is_vowel_base (base_unit env ch)" "\<not> is_diphthong env ch (Some n)" by blast
  then show ?case
  proof cases
    case 1
    then have "nuclei_ok env (o1 + length ch) (n # rest) (nuclei_from env (o1 + length ch) (n # rest))"
      using 3 by simp
    from nuclei_ok_skip [OF this 1] show ?thesis using 1 by simp
  next
    case 2
    then have "nuclei_ok env (o1 + length (concat [ch, n])) rest (nuclei_from env (o1 + length (concat [ch, n])) rest)"
      using "3.IH"(2) "3.prems" by (simp add: add.assoc)
    from take [OF this _ ne, of Long] show ?thesis using 2 by (simp add: add.assoc)
  next
    case other: 3
    then have "nuclei_ok env (o1 + length (concat [ch])) (n # rest) (nuclei_from env (o1 + length (concat [ch])) (n # rest))"
      using "3.IH"(3) "3.prems" by simp
    from take [OF this, of "vowel_length_of env ch"] show ?thesis using other "3.prems" by simp
  qed
qed

section \<open>Accents\<close>

text \<open>Texts without lone surrogates.\<close>

fun well_paired :: "jstr \<Rightarrow> bool" where
  "well_paired [] = True"
| "well_paired [u] = (\<not> is_high u \<and> \<not> is_low u)"
| "well_paired (u # v # s) = (if is_high u then is_low v \<and> well_paired s else \<not> is_low u \<and> well_paired (v # s))"

text \<open>What UAX 15 says of NFC and NFD on such texts, as far as the helpers rely on it.\<close>

definition normalization_laws :: "js_env \<Rightarrow> bool" where
  "normalization_laws env \<longleftrightarrow>
     (\<forall>s. well_paired s \<longrightarrow> well_paired (toNFC env s) \<and> well_paired (toNFD env s) \<and>
        toNFD env (toNFC env s) = toNFD env s \<and> toNFC env (toNFC env s) = toNFC env s \<and>
        toNFD env (filter (\<lambda>u. u \<notin> set ACCENT_MARKS) (toNFD env s)) = filter (\<lambda>u. u \<notin> set ACCENT_MARKS) (toNFD env s)) \<and>
     (\<forall>s t. well_paired s \<longrightarrow> well_paired t \<longrightarrow> mset (toNFD env (s @ t)) = mset (toNFD env s) + mset (toNFD env t)) \<and>
     (\<forall>u\<in>set ACCENT_MARKS. toNFD env [u] = [u])"

lemma well_paired_append: "well_paired s \<Longrightarrow> well_paired t \<Longrightarrow> well_paired (s @ t)"
  by (induction s rule: well_paired.induct) (auto split: if_splits, cases t, auto)

lemma well_paired_filter:
  assumes "\<And>u. is_high u \<or> is_low u \<Longrightarrow> P u"
  shows "well_paired s \<Longrightarrow> well_paired (filter P s)"
proof (induction s rule: well_paired.induct)
  case (3 u v s)
  show ?case
  proof (cases "is_high u")
    case True
    then have "P u" "P v" using 3 assms by auto
    then show ?thesis using True 3 by simp
  next
    case False
    then have rest: "well_paired (filter P (v # s))" and u: "\<not> is_low u" using 3 by auto
    have "well_paired (u # t)" if "well_paired t" for t using that False u by (cases t) auto
    then show ?thesis using rest by simp
  qed
qed auto

lemma well_paired_cps:
  "well_paired s \<Longrightarrow> cps s = as @ bs \<Longrightarrow> well_paired (concat as) \<and> well_paired (concat bs)"
proof (induction s arbitrary: as rule: cps.induct)
  case 1
  then show ?case by simp
next
  case (2 u)
  then show ?case by (cases as) auto
next
  case (3 u v s)
  define c rest where "c = (if is_high u \<and> is_low v then [u, v] else [u])"
    and "rest = (if is_high u \<and> is_low v then s else v # s)"
  have cs: "cps (u # v # s) = c # cps rest" by (simp add: c_def rest_def)
  have c: "well_paired c" and rest: "well_paired rest"
    using "3.prems"(1) by (auto simp: c_def rest_def split: if_splits)
  show ?case
  proof (cases as)
    case Nil
    then have "concat bs = u # v # s" using "3.prems"(2) concat_cps [of "u # v # s"] by simp
    then show ?thesis using "3.prems"(1) Nil by simp
  next
    case (Cons a as')
    then have "a = c" "cps rest = as' @ bs" using "3.prems"(2) cs by simp_all
    then have "well_paired (concat as') \<and> well_paired (concat bs)"
      using 3 rest by (auto simp: rest_def split: if_splits)
    then show ?thesis using Cons \<open>a = c\<close> c by (simp add: well_paired_append)
  qed
qed

definition unaccented :: "js_env \<Rightarrow> jstr \<Rightarrow> int multiset" where
  "unaccented env s = filter_mset (\<lambda>u. u \<notin> set ACCENT_MARKS) (mset (toNFD env s))"

lemma stripAccents_props:
  assumes "normalization_laws env" and "well_paired s"
  shows "well_paired (stripAccents env s)"
    and "toNFD env (stripAccents env s) = filter (\<lambda>u. u \<notin> set ACCENT_MARKS) (toNFD env s)"
    and "toNFC env (stripAccents env s) = stripAccents env s"
    and "stripAccents env (stripAccents env s) = stripAccents env s"
proof -
  let ?f = "filter (\<lambda>u. u \<notin> set ACCENT_MARKS)"
  have nfd: "well_paired (toNFD env s)" and stable: "toNFD env (?f (toNFD env s)) = ?f (toNFD env s)"
    using assms unfolding normalization_laws_def by blast+
  have "u \<notin> set ACCENT_MARKS" if "is_high u \<or> is_low u" for u
    using that by (auto simp: ACCENT_MARKS_def is_high_def is_low_def)
  from well_paired_filter [OF this nfd] have f: "well_paired (?f (toNFD env s))" .
  then show "well_paired (stripAccents env s)" "toNFC env (stripAccents env s) = stripAccents env s"
    using assms(1) unfolding normalization_laws_def stripAccents_def by blast+
  have "toNFD env (toNFC env (?f (toNFD env s))) = toNFD env (?f (toNFD env s))"
    using f assms(1) unfolding normalization_laws_def by blast
  then show d: "toNFD env (stripAccents env s) = ?f (toNFD env s)"
    using stable by (simp add: stripAccents_def)
  show "stripAccents env (stripAccents env s) = stripAccents env s"
    unfolding stripAccents_def [of env "stripAccents env s"] d by (simp add: stripAccents_def)
qed

lemma nuclei_ok_word:
  "nuclei_ok env 0 (cps (toNFC env word)) (nuclei env word)"
  unfolding nuclei_def using nuclei_from_ok cps_nonempty by blast

lemma placeAccent_marks:
  assumes laws: "normalization_laws env" and word: "well_paired word" and place: "placeAccent env word k acute = Some r"
  shows "mset (toNFD env r) = add_mset (accent_mark acute) (unaccented env word)"
proof -
  define s where "s = stripAccents env word"
  note strip = stripAccents_props [OF laws word, folded s_def]
  define ns where "ns = nuclei env s"
  define n where "n = ns ! (length ns - 1 - k)"
  have k: "k < length ns" and r: "r = toNFC env (take (nu_end n) s @ [accent_mark acute] @ drop (nu_end n) s)"
    using place by (simp_all add: placeAccent_def Let_def s_def ns_def n_def split: if_splits)
  have "n \<in> set ns" using k by (simp add: n_def)
  moreover have "nuclei_ok env 0 (cps s) ns" using nuclei_ok_word [of env s] strip(3) by (simp add: ns_def)
  ultimately obtain as bs where split: "cps s = as @ bs" "nu_end n = length (concat as)"
    by (auto simp: nuclei_ok_def)
  have "s = concat as @ concat bs" using split(1) concat_cps [of s] by simp
  then have parts: "take (nu_end n) s = concat as" "drop (nu_end n) s = concat bs" using split(2) by simp_all
  have paired: "well_paired (concat as)" "well_paired (concat bs)"
    using well_paired_cps [OF strip(1) split(1)] by simp_all
  have mark: "well_paired [accent_mark acute]" "toNFD env [accent_mark acute] = [accent_mark acute]"
    using laws by (auto simp: accent_mark_def is_high_def is_low_def normalization_laws_def ACCENT_MARKS_def)
  have join: "mset (toNFD env (a @ b)) = mset (toNFD env a) + mset (toNFD env b)"
    if "well_paired a" "well_paired b" for a b
    using laws that unfolding normalization_laws_def by blast
  have "mset (toNFD env r) = mset (toNFD env (concat as @ [accent_mark acute] @ concat bs))"
    using laws paired mark(1) well_paired_append unfolding r parts normalization_laws_def by metis
  also have "\<dots> = mset (toNFD env (concat as)) + (mset (toNFD env [accent_mark acute]) + mset (toNFD env (concat bs)))"
    unfolding join [OF paired(1) well_paired_append [OF mark(1) paired(2)]] join [OF mark(1) paired(2)] ..
  also have "\<dots> = add_mset (accent_mark acute) (mset (toNFD env (concat as)) + mset (toNFD env (concat bs)))"
    unfolding mark(2) by simp
  also have "mset (toNFD env (concat as)) + mset (toNFD env (concat bs)) = mset (toNFD env s)"
    using join [OF paired] \<open>s = concat as @ concat bs\<close> by simp
  also have "\<dots> = unaccented env word"
    using strip(2) by (simp add: unaccented_def)
  finally show ?thesis .
qed

lemma placeAccent_total: "k < length (nuclei env (stripAccents env word)) \<Longrightarrow> \<exists>r. placeAccent env word k acute = Some r"
  by (simp add: placeAccent_def Let_def)

lemma recessive_cases:
  assumes "normalization_laws env" "well_paired word" and ns: "ns = nuclei env (stripAccents env word)" "ns \<noteq> []"
  shows "\<exists>k acute r. k < length ns \<and> k \<le> 2 \<and> recessive env word ultima = Some r \<and>
    placeAccent env (stripAccents env word) k acute = Some r \<and>
    (3 \<le> length ns \<longrightarrow> acute \<and> 1 \<le> k) \<and>
    (acute \<or> nu_length (ns ! 0) = Long)"
proof -
  have same: "stripAccents env (stripAccents env word) = stripAccents env word"
    using stripAccents_props [OF assms(1,2)] by simp
  have total: "\<exists>r. placeAccent env (stripAccents env word) k acute = Some r" if "k < length ns" for k acute
    using placeAccent_total [of k env "stripAccents env word"] that same by (simp add: ns)
  define final where "final = (let given = (case ultima of Some u \<Rightarrow> u | None \<Rightarrow> nu_length (last ns)) in
    if given = Either then Short else given)"
  have eq: "recessive env word ultima =
      (if length ns = 1 then placeAccent env (stripAccents env word) 0 (nu_length (ns ! 0) \<noteq> Long)
       else if final = Long then placeAccent env (stripAccents env word) 1 True
       else if 3 \<le> length ns then placeAccent env (stripAccents env word) 2 True
       else placeAccent env (stripAccents env word) 1 (nu_length (ns ! 0) \<noteq> Long))"
    unfolding recessive_def final_def Let_def ns(1) [symmetric] if_not_P [OF ns(2)] ..
  consider "length ns = 1" | "length ns \<noteq> 1" "final = Long" | "length ns \<noteq> 1" "final \<noteq> Long" "3 \<le> length ns"
    | "length ns = 2" "final \<noteq> Long"
    using ns(2) by (cases "length ns") force+
  then show ?thesis
  proof cases
    case 1
    then show ?thesis using total [of 0 "nu_length (ns ! 0) \<noteq> Long"] eq
      by (intro exI [of _ 0] exI [of _ "nu_length (ns ! 0) \<noteq> Long"]) auto
  next
    case 2
    then have "1 < length ns" using ns(2) by (cases ns) auto
    then show ?thesis using 2 total [of 1 True] eq by (intro exI [of _ 1] exI [of _ True]) auto
  next
    case 3
    then show ?thesis using total [of 2 True] eq by (intro exI [of _ 2] exI [of _ True]) auto
  next
    case 4
    then show ?thesis using total [of 1 "nu_length (ns ! 0) \<noteq> Long"] eq
      by (intro exI [of _ 1] exI [of _ "nu_length (ns ! 0) \<noteq> Long"]) auto
  qed
qed

text \<open>C30: \<open>recessive\<close> always gives a word: without a vowel the word less its accents; otherwise the word with exactly one accent,
  an acute on one of the last three nuclei or, for at most two nuclei, a circumflex on a long one, and no other mark or
  letter changed.\<close>

theorem recessive_one_accent:
  assumes "normalization_laws env" and "well_paired word" and "ns = nuclei env (stripAccents env word)"
  shows "if ns = [] then recessive env word ultima = Some (stripAccents env word)
    else \<exists>k acute r. recessive env word ultima = Some r \<and> placeAccent env word k acute = Some r \<and> k < length ns \<and> k \<le> 2 \<and>
      mset (toNFD env r) = add_mset (accent_mark acute) (unaccented env word) \<and>
      (\<not> acute \<longrightarrow> length ns \<le> 2 \<and> nu_length (ns ! 0) = Long)"
proof (cases "ns = []")
  case True
  then show ?thesis using assms(3) by (simp add: recessive_def Let_def)
next
  case False
  obtain k acute r where r: "k < length ns" "k \<le> 2" "recessive env word ultima = Some r"
      "placeAccent env (stripAccents env word) k acute = Some r" "3 \<le> length ns \<longrightarrow> acute \<and> 1 \<le> k"
      "acute \<or> nu_length (ns ! 0) = Long"
    using recessive_cases [OF assms False, of ultima] by blast
  have "placeAccent env word k acute = Some r"
    using r(4) stripAccents_props(4) [OF assms(1,2)] by (simp add: placeAccent_def)
  from this placeAccent_marks [OF assms(1,2) this] r show ?thesis
    unfolding if_not_P [OF False] by (intro exI [of _ k] exI [of _ acute] exI [of _ r]) auto
qed

text \<open>A normalization that knows one letter: alpha with an acute, 940, is 945 followed by 769.\<close>

definition ex_decompose :: "jstr \<Rightarrow> jstr" where
  "ex_decompose s = concat (map (\<lambda>u. if u = 940 then [945, 769] else [u]) s)"

fun ex_compose :: "jstr \<Rightarrow> jstr" where
  "ex_compose [] = []"
| "ex_compose [u] = [u]"
| "ex_compose (u # v # s) = (if u = 945 \<and> v = 769 then 940 # ex_compose s else u # ex_compose (v # s))"

definition ex_greek :: js_env where
  "ex_greek = ex_env\<lparr>env_normalize := (\<lambda>f s. if f = NFD \<or> f = NFKD then ex_decompose s else ex_compose (ex_decompose s))\<rparr>"

lemma ex_toNFC: "toNFC ex_greek s = ex_compose (ex_decompose s)" and ex_toNFD: "toNFD ex_greek s = ex_decompose s"
  by (simp_all add: toNFC_def toNFD_def ex_greek_def)

lemma ex_decompose_simps [simp]:
  "ex_decompose [] = []" "ex_decompose (u # s) = (if u = 940 then 945 # 769 # ex_decompose s else u # ex_decompose s)"
  "ex_decompose (s @ t) = ex_decompose s @ ex_decompose t"
  by (simp_all add: ex_decompose_def)

lemma ex_decompose_id: "940 \<notin> set s \<Longrightarrow> ex_decompose s = s"
  by (induction s) auto

lemma ex_decompose_no: "940 \<notin> set (ex_decompose s)"
  by (induction s) auto

lemma ex_decompose_compose: "940 \<notin> set s \<Longrightarrow> ex_decompose (ex_compose s) = s"
  by (induction s rule: ex_compose.induct) auto

lemma well_paired_Cons: "\<not> is_high u \<Longrightarrow> \<not> is_low u \<Longrightarrow> well_paired (u # s) = well_paired s"
  by (cases s) auto

lemma ex_well_paired: "well_paired s \<Longrightarrow> well_paired (ex_decompose s) \<and> well_paired (ex_compose s)"
proof (induction s rule: well_paired.induct)
  case (3 u v s)
  show ?case
  proof (cases "is_high u")
    case True
    then have "u \<noteq> 940" "v \<noteq> 940" "u \<noteq> 945" "v \<noteq> 945" using 3 by (auto simp: is_high_def is_low_def)
    then show ?thesis using True 3 by (cases s) auto
  next
    case False
    then have "\<not> is_low u" "well_paired (v # s)" using 3 by auto
    moreover have "well_paired (ex_compose s)" if "u = 945" "v = 769"
      using 3 False that well_paired_Cons [of 769 "ex_compose s"]
      by (cases s) (auto simp: is_high_def is_low_def)
    ultimately show ?thesis
      using 3 False by (auto simp: well_paired_Cons is_high_def is_low_def)
  qed
qed (auto simp: is_high_def is_low_def)

lemma ex_laws: "normalization_laws ex_greek"
  unfolding normalization_laws_def ex_toNFC ex_toNFD
  using ex_well_paired ex_decompose_no
  by (auto simp: ex_decompose_compose ex_decompose_id ACCENT_MARKS_def)

theorem recessive_one_accent_witness:
  "\<exists>r. recessive ex_greek [955, 940, 959] None = Some r \<and>
    mset (toNFD ex_greek r) = add_mset 769 (unaccented ex_greek [955, 940, 959])"
proof -
  have ns: "nuclei ex_greek (stripAccents ex_greek [955, 940, 959]) \<noteq> []"
      "nu_length (nuclei ex_greek (stripAccents ex_greek [955, 940, 959]) ! 0) = Either"
    by code_simp+
  have "well_paired [955, 940, 959]" by (simp add: is_high_def is_low_def)
  from recessive_one_accent [OF ex_laws this refl, of None] ns obtain acute r where
    "recessive ex_greek [955, 940, 959] None = Some r"
    "mset (toNFD ex_greek r) = add_mset (accent_mark acute) (unaccented ex_greek [955, 940, 959])" acute
    by auto
  then show ?thesis by (auto simp: accent_mark_def)
qed

text \<open>The nuclei of a word are disjoint slices of its NFC text, in order, that end where a character ends, and every
  character whose decomposition begins with a vowel is in one.\<close>

theorem nuclei_partition: "nuclei_ok env 0 (cps (toNFC env word)) (nuclei env word)"
  by (rule nuclei_ok_word)

end
