(* ===== verification/Case_Tables.thy ===== *)
theory Case_Tables
  imports Yomitan
begin

text \<open>
  The generator of the engine's case tables (src/languages/generate_case_tables.mjs): the special mappings, the C++
  text of the tables, and the check of the simple mappings on standard input. \<open>ranges\<close> is \<open>Ranges.case_ranges\<close>.

  Parameters: the case mappings of \<open>js_env\<close>, the predicates \<open>\p{Cased}\<close> and \<open>\p{Case_Ignorable}\<close> on code points, and
  the versions of Node and Unicode. What \<open>--check\<close> prints is the list of its messages; its RangeError is the error.
\<close>

section \<open>Tables\<close>

definition case_hex :: "int \<Rightarrow> jstr" where
  "case_hex cp = js ''0x'' @ (if cp < 0 then 45 # hex_digits (nat (- cp)) else hex_digits (nat cp))"

definition mapped_points :: "(jstr \<Rightarrow> jstr) \<Rightarrow> int \<Rightarrow> int list" where
  "mapped_points f cp = cp_values (f (from_cp cp))"

definition is_special :: "(jstr \<Rightarrow> jstr) \<Rightarrow> int \<Rightarrow> bool" where
  "is_special f cp \<longleftrightarrow> \<not> (55296 \<le> cp \<and> cp \<le> 57343) \<and> length (mapped_points f cp) \<noteq> 1"

function specials_from :: "(jstr \<Rightarrow> jstr) \<Rightarrow> int \<Rightarrow> (int \<times> int list) list" where
  "specials_from f cp =
     (if MAX_CODE_POINT < cp then []
      else if is_special f cp then (cp, mapped_points f cp) # specials_from f (cp + 1)
      else specials_from f (cp + 1))"
  by pat_completeness auto
termination
  by (relation "measure (\<lambda>(f, cp). nat (MAX_CODE_POINT + 1 - cp))") auto

declare specials_from.simps [simp del]

definition specials :: "(jstr \<Rightarrow> jstr) \<Rightarrow> (int \<times> int list) list" where
  "specials f = specials_from f 0"

definition braces :: "jstr \<Rightarrow> jstr" where
  "braces s = [123] @ s @ [125]"

definition table_text :: "jstr \<Rightarrow> jstr \<Rightarrow> jstr list \<Rightarrow> nat \<Rightarrow> jstr" where
  "table_text kind name rs n =
     js ''extern const '' @ kind @ [32] @ name @ js ''[] = {'' @ [10] @ join [10] rs @ [10] @ js ''};'' @ [10]
     @ js ''extern const size_t '' @ name @ js ''_count = '' @ num_js (int n) @ js '';'' @ [10]"

definition special_row :: "int \<times> int list \<Rightarrow> jstr" where
  "special_row = (\<lambda>(cp, out). js ''    {'' @ case_hex cp @ js '', ''
     @ braces (join (js '', '') (map case_hex (take 3 (out @ [0, 0, 0])))) @ js '', '' @ num_js (int (length out)) @ js ''},'')"

definition special_table :: "jstr \<Rightarrow> (int \<times> int list) list \<Rightarrow> jstr" where
  "special_table name entries = table_text (js ''SpecialCase'') name (map special_row entries) (length entries)"

function chunks :: "nat \<Rightarrow> 'a list \<Rightarrow> 'a list list" where
  "chunks n xs = (if xs = [] \<or> n = 0 then [] else take n xs # chunks n (drop n xs))"
  by pat_completeness auto
termination
  by (relation "measure (\<lambda>(n, xs). length xs)") auto

declare chunks.simps [simp del]

definition range_row :: "ranges \<Rightarrow> jstr" where
  "range_row entries = js ''    '' @ join (js '', '') (map (\<lambda>(a, b). braces (case_hex a @ js '', '' @ case_hex b)) entries) @ [44]"

definition rangeTable :: "jstr \<Rightarrow> ranges \<Rightarrow> jstr" where
  "rangeTable name entries = table_text (js ''CaseRange'') name (map range_row (chunks 6 entries)) (length entries)"

record case_tables =
  ct_lower :: "(int \<times> int list) list"
  ct_upper :: "(int \<times> int list) list"
  ct_cased :: ranges
  ct_ignorable :: ranges

definition compute_tables :: "js_env \<Rightarrow> (int \<Rightarrow> bool) \<Rightarrow> (int \<Rightarrow> bool) \<Rightarrow> case_tables" where
  "compute_tables env cased ignorable =
     \<lparr>ct_lower = specials (env_lower env), ct_upper = specials (env_upper env),
      ct_cased = case_ranges cased, ct_ignorable = case_ranges ignorable\<rparr>"

definition tables_text :: "jstr \<Rightarrow> jstr \<Rightarrow> case_tables \<Rightarrow> jstr" where
  "tables_text node unicode t =
     join [10]
       [js ''// SPDX-License-Identifier: GPL-3.0-or-later'',
        js ''// Generated by src/languages/generate_case_tables.mjs with Node '' @ node,
        js ''// (Unicode '' @ unicode @ js ''). Do not edit.'',
        js ''#include \"case_mapping.hpp\"'', [],
        js ''namespace hoshidicts::lang::case_tables {'', [],
        special_table (js ''lower_special'') (ct_lower t),
        special_table (js ''upper_special'') (ct_upper t),
        rangeTable (js ''cased'') (ct_cased t),
        rangeTable (js ''case_ignorable'') (ct_ignorable t),
        js ''}  // namespace hoshidicts::lang::case_tables'', []]"

section \<open>The check\<close>

text \<open>\<open>Number.parseInt(v, 16)\<close>; \<open>None\<close> is NaN.\<close>

definition hex_prefix :: "jstr \<Rightarrow> int option" where
  "hex_prefix s =
     (let t = (if starts_with s (js ''0x'') \<or> starts_with s (js ''0X'') then drop 2 s else s);
          digits = takeWhile is_hex t
      in if digits = [] then None else Some (hex_val digits))"

definition parse_int16 :: "jstr \<Rightarrow> int option" where
  "parse_int16 v =
     (let s = dropWhile is_space v in
      if starts_with s [45] then map_option uminus (hex_prefix (drop 1 s))
      else if starts_with s [43] then hex_prefix (drop 1 s) else hex_prefix s)"

definition shown_hex :: "int option \<Rightarrow> jstr" where
  "shown_hex v = (case v of None \<Rightarrow> js ''0xNAN'' | Some n \<Rightarrow> case_hex n)"

datatype case_error = NotACodePoint

definition mapping_message :: "jstr \<Rightarrow> int \<Rightarrow> int list \<Rightarrow> int option \<Rightarrow> jstr list" where
  "mapping_message name cp mine theirs = (case mine of
       [m] \<Rightarrow> if Some m \<noteq> theirs
         then [name @ [32] @ case_hex cp @ js '': Node '' @ case_hex m @ js '', utf8proc '' @ shown_hex theirs] else []
     | _ \<Rightarrow> [])"

definition check_case_line :: "js_env \<Rightarrow> jstr \<Rightarrow> case_error + jstr list" where
  "check_case_line env line =
     (let vs = map parse_int16 (split_on 32 line); at = (\<lambda>i. if i < length vs then vs ! i else None) in
      if line = [] then Inr []
      else case at 0 of
        None \<Rightarrow> Inl NotACodePoint
      | Some cp \<Rightarrow>
          if cp < 0 \<or> MAX_CODE_POINT < cp then Inl NotACodePoint
          else Inr (mapping_message (js ''lower'') cp (mapped_points (env_lower env) cp) (at 1)
            @ mapping_message (js ''upper'') cp (mapped_points (env_upper env) cp) (at 2)))"

definition check_cases :: "js_env \<Rightarrow> jstr \<Rightarrow> case_error + jstr list" where
  "check_cases env stdin = bindE (mapE (check_case_line env) (split_on 10 stdin)) (\<lambda>ms. Inr (concat ms))"

text \<open>The exit status with \<open>--check\<close>; the RangeError ends the program with 1.\<close>

definition check_status :: "js_env \<Rightarrow> jstr \<Rightarrow> nat" where
  "check_status env stdin = (case check_cases env stdin of Inl e \<Rightarrow> 1 | Inr ms \<Rightarrow> if ms = [] then 0 else 1)"

text \<open>The command: the file written, if any, and the status.\<close>

definition case_tables_main ::
    "js_env \<Rightarrow> (int \<Rightarrow> bool) \<Rightarrow> (int \<Rightarrow> bool) \<Rightarrow> jstr \<Rightarrow> jstr \<Rightarrow> jstr list \<Rightarrow> jstr \<Rightarrow> jstr option \<times> nat" where
  "case_tables_main env cased ignorable node unicode argv stdin =
     (if js ''--check'' \<in> set argv then (None, check_status env stdin)
      else (Some (tables_text node unicode (compute_tables env cased ignorable)), 0))"

section \<open>The tables and the simple mappings together\<close>

text \<open>What the engine does with the tables: the special mapping of a code point, else its simple mapping.\<close>

definition engine_mapping :: "(int \<times> int list) list \<Rightarrow> (int \<Rightarrow> int) \<Rightarrow> int \<Rightarrow> int list" where
  "engine_mapping table simple cp = (case map_of table cp of Some out \<Rightarrow> out | None \<Rightarrow> [simple cp])"

lemma specials_from_set:
  "set (specials_from f cp) = {(x, out). cp \<le> x \<and> x \<le> MAX_CODE_POINT \<and> is_special f x \<and> out = mapped_points f x}"
proof (induction f cp rule: specials_from.induct)
  case (1 f cp)
  have split: "cp \<le> x \<longleftrightarrow> x = cp \<or> cp + 1 \<le> x" for x by auto
  show ?case
  proof (cases "MAX_CODE_POINT < cp")
    case True
    then show ?thesis by (subst specials_from.simps) auto
  next
    case False
    then show ?thesis using 1 by (subst specials_from.simps) (auto simp: split)
  qed
qed

lemma specials_from_sorted: "sorted_wrt (\<lambda>a b. fst a < fst b) (specials_from f cp)"
proof (induction f cp rule: specials_from.induct)
  case (1 f cp)
  then show ?case
    by (cases "MAX_CODE_POINT < cp"; subst specials_from.simps) (auto simp: specials_from_set)
qed

lemma specials_lookup:
  "map_of (specials f) cp = (if 0 \<le> cp \<and> cp \<le> MAX_CODE_POINT \<and> is_special f cp then Some (mapped_points f cp) else None)"
proof -
  have "distinct (map fst (specials f))"
    using specials_from_sorted [of f 0] strict_sorted_iff [of "map fst (specials f)"]
    by (simp add: specials_def sorted_wrt_map)
  then have "map_of (specials f) cp = Some out \<longleftrightarrow> (cp, out) \<in> set (specials f)" for out by simp
  then show ?thesis
    by (cases "map_of (specials f) cp") (auto simp: specials_def specials_from_set)
qed

lemma mapping_message_Nil:
  "mapping_message name cp mine theirs = [] \<longleftrightarrow> (length mine = 1 \<longrightarrow> theirs = Some (hd mine))"
  by (cases mine rule: list.exhaust; cases "tl mine") (auto simp: mapping_message_def)

lemma engine_mapping_exact:
  assumes "covered False cp" and "length (mapped_points f cp) = 1 \<longrightarrow> Some (simple cp) = Some (hd (mapped_points f cp))"
  shows "engine_mapping (specials f) simple cp = mapped_points f cp"
proof (cases "is_special f cp")
  case True
  then show ?thesis using assms(1) by (simp add: engine_mapping_def specials_lookup covered_def isSurrogate_def)
next
  case False
  then have "length (mapped_points f cp) = 1" using assms(1) by (auto simp: is_special_def covered_def isSurrogate_def)
  then obtain m where "mapped_points f cp = [m]" by (auto simp: length_Suc_conv)
  then show ?thesis using False assms(2) by (simp add: engine_mapping_def specials_lookup)
qed

lemma check_case_line_of:
  assumes "line \<noteq> []" "map parse_int16 (split_on 32 line) = [Some cp, lo, up]" "0 \<le> cp" "cp \<le> MAX_CODE_POINT"
  shows "check_case_line env line = Inr (mapping_message (js ''lower'') cp (mapped_points (env_lower env) cp) lo
    @ mapping_message (js ''upper'') cp (mapped_points (env_upper env) cp) up)"
proof -
  let ?vs = "[Some cp, lo, up]"
  have "(\<lambda>i. if i < length ?vs then ?vs ! i else None) 0 = Some cp" "(\<lambda>i. if i < length ?vs then ?vs ! i else None) 1 = lo"
    "(\<lambda>i. if i < length ?vs then ?vs ! i else None) 2 = up" by simp_all
  then show ?thesis
    unfolding check_case_line_def Let_def assms(2) using assms(1,3,4)
    by (simp only: if_not_P option.case if_False simp_thms not_less [symmetric] option.simps)
qed

text \<open>C21: when \<open>--check\<close> accepts a list with the simple mappings of every code point, the special tables and those simple mappings
  together give JavaScript's toLowerCase and toUpperCase of every code point.\<close>

theorem case_tables_complete:
  assumes "check_status env stdin = 0"
    and "\<And>cp. covered False cp \<Longrightarrow> \<exists>line\<in>set (split_on 10 stdin). line \<noteq> [] \<and>
      map parse_int16 (split_on 32 line) = [Some cp, Some (lower cp), Some (upper cp)]"
    and "t = compute_tables env cased ignorable" and "covered False cp"
  shows "engine_mapping (ct_lower t) lower cp = cp_values (env_lower env (from_cp cp)) \<and>
    engine_mapping (ct_upper t) upper cp = cp_values (env_upper env (from_cp cp))"
proof -
  obtain line where line: "line \<in> set (split_on 10 stdin)" "line \<noteq> []"
      "map parse_int16 (split_on 32 line) = [Some cp, Some (lower cp), Some (upper cp)]"
    using assms(2) [OF assms(4)] by (elim bexE conjE)
  obtain ms where ms: "mapE (check_case_line env) (split_on 10 stdin) = Inr ms" "concat ms = []"
    using assms(1) by (cases "mapE (check_case_line env) (split_on 10 stdin)") (simp_all add: check_status_def check_cases_def split: if_splits)
  obtain m where "m \<in> set ms" "check_case_line env line = Inr m"
    using mapE_Inr_all [OF ms(1) line(1)] by blast
  then have "check_case_line env line = Inr []" using ms(2) by auto
  then have "mapping_message (js ''lower'') cp (mapped_points (env_lower env) cp) (Some (lower cp)) = []"
    "mapping_message (js ''upper'') cp (mapped_points (env_upper env) cp) (Some (upper cp)) = []"
    using check_case_line_of [OF line(2,3), of env] assms(4) by (simp_all add: covered_def del: js_simps)
  then show ?thesis
    using engine_mapping_exact [OF assms(4)]
    by (simp add: assms(3) compute_tables_def mapping_message_Nil mapped_points_def del: js_simps)
qed

lemma hex_unit: "is_hex u \<Longrightarrow> \<not> is_space u \<and> u \<noteq> 45 \<and> u \<noteq> 43 \<and> u \<noteq> 32 \<and> u \<noteq> 10 \<and> u \<noteq> 120 \<and> u \<noteq> 88"
  by (auto simp: is_hex_def is_digit_def is_space_def)

lemma parse_int16_hex:
  assumes "0 \<le> cp"
  shows "parse_int16 (hex cp 1) = Some cp"
proof -
  note h = hex_ok [OF assms, of 1]
  obtain d ds where ds: "hex cp 1 = d # ds" using h(3) by (cases "hex cp 1") auto
  have d: "is_hex d" "\<And>e. e \<in> set ds \<Longrightarrow> is_hex e" using h(1) unfolding ds list_all_iff by simp_all
  have "\<not> (starts_with (d # ds) (js ''0x'') \<or> starts_with (d # ds) (js ''0X''))"
    using d(2) hex_unit by (cases ds) (auto simp: starts_with_def)
  moreover have "takeWhile is_hex (d # ds) = d # ds" using d by (simp add: takeWhile_eq_all_conv)
  ultimately have "hex_prefix (d # ds) = Some cp"
    unfolding hex_prefix_def Let_def using h(2) ds by (simp del: js_simps)
  then show ?thesis using hex_unit [OF d(1)] unfolding parse_int16_def ds Let_def by (simp add: starts_with_def)
qed

definition dump_line :: "int \<Rightarrow> jstr" where
  "dump_line cp = hex cp 1 @ [32] @ hex cp 1 @ [32] @ hex cp 1"

lemma dump_line_reads:
  assumes "0 \<le> cp"
  shows "dump_line cp \<noteq> []" "map parse_int16 (split_on 32 (dump_line cp)) = [Some cp, Some cp, Some cp]" "10 \<notin> set (dump_line cp)"
proof -
  have no: "32 \<notin> set (hex cp 1)" "10 \<notin> set (hex cp 1)"
    using hex_ok [OF assms, of 1] hex_unit by (auto simp: list_all_iff)
  then show "dump_line cp \<noteq> []" "10 \<notin> set (dump_line cp)" by (auto simp: dump_line_def)
  show "map parse_int16 (split_on 32 (dump_line cp)) = [Some cp, Some cp, Some cp]"
    using no by (simp add: dump_line_def split_on_append split_on_no_sep parse_int16_hex assms del: One_nat_def)
qed

definition ex_dump :: jstr where
  "ex_dump = join [10] (map dump_line (filter (covered False) [0..MAX_CODE_POINT]))"

definition ex_case_env :: js_env where
  "ex_case_env = ex_env\<lparr>env_lower := (\<lambda>s. s), env_upper := (\<lambda>s. s)\<rparr>"

lemma cp_values_from_cp:
  assumes "covered False cp"
  shows "cp_values (from_cp cp) = [cp]"
proof -
  have v: "valid_cp cp" using assms by (simp add: covered_def valid_cp_def)
  have first: "cp_first (from_cp cp) = Some cp" using cp_first_from_cp [OF v, of "[]"] by simp
  have "cps (from_cp cp) = [from_cp cp]"
  proof (cases "cp \<le> 65535")
    case False
    then have "0 \<le> (cp - 65536) div 1024" "(cp - 65536) div 1024 < 1024" "0 \<le> (cp - 65536) mod 1024" "(cp - 65536) mod 1024 < 1024"
      using assms by (auto simp: covered_def MAX_CODE_POINT_def)
    then show ?thesis using False by (simp add: from_cp_def is_high_def is_low_def)
  qed (simp add: from_cp_def)
  then show ?thesis using first by (simp add: cp_values_def cp_of_def)
qed

lemma ex_dump_lines: "split_on 10 ex_dump = map dump_line (filter (covered False) [0..MAX_CODE_POINT])"
proof -
  have "0 \<in> set (filter (covered False) [0..MAX_CODE_POINT])"
    unfolding set_filter set_upto by (simp add: covered_def MAX_CODE_POINT_def isSurrogate_def)
  then have "map dump_line (filter (covered False) [0..MAX_CODE_POINT]) \<noteq> []" by (metis empty_iff list.set(1) map_is_Nil_conv)
  then show ?thesis unfolding ex_dump_def
    by (rule split_on_join) (use dump_line_reads(3) in \<open>auto simp del: set_upto simp: covered_def\<close>)
qed

lemma ex_dump_checks: "check_status ex_case_env ex_dump = 0"
proof -
  have "mapE (check_case_line ex_case_env) (split_on 10 ex_dump) = Inr (map (\<lambda>line. []) (split_on 10 ex_dump))"
  proof (rule mapE_total)
    fix line assume "line \<in> set (split_on 10 ex_dump)"
    then obtain cp where cp: "covered False cp" "line = dump_line cp" unfolding ex_dump_lines by auto
    then have pos: "0 \<le> cp" "cp \<le> MAX_CODE_POINT" by (simp_all add: covered_def)
    show "check_case_line ex_case_env line = Inr []"
      using check_case_line_of [OF dump_line_reads(1,2) [OF pos(1)] pos, of ex_case_env] cp
      by (simp add: mapping_message_Nil mapped_points_def ex_case_env_def cp_values_from_cp del: js_simps)
  qed
  moreover have "concat (map (\<lambda>line. []) ls) = ([] :: jstr list)" for ls :: "jstr list" by simp
  ultimately show ?thesis by (simp add: check_status_def check_cases_def del: concat_map_singleton)
qed

theorem case_tables_complete_witness:
  "engine_mapping (ct_lower (compute_tables ex_case_env (\<lambda>cp. True) (\<lambda>cp. True))) (\<lambda>cp. cp) 65 = [65]"
proof -
  have "covered False 65" by (simp add: covered_def MAX_CODE_POINT_def isSurrogate_def)
  moreover have "\<exists>line\<in>set (split_on 10 ex_dump). line \<noteq> [] \<and> map parse_int16 (split_on 32 line) = [Some cp, Some cp, Some cp]"
    if c: "covered False cp" for cp
  proof -
    have "dump_line cp \<in> set (split_on 10 ex_dump)"
      unfolding ex_dump_lines set_map set_filter set_upto using c by (auto simp: covered_def)
    then show ?thesis using dump_line_reads [of cp] c by (auto simp: covered_def)
  qed
  ultimately show ?thesis
    using case_tables_complete [OF ex_dump_checks, of "\<lambda>cp. cp" "\<lambda>cp. cp" _ "\<lambda>cp. True" "\<lambda>cp. True" 65, OF _ refl]
    by (simp add: cp_values_from_cp ex_case_env_def)
qed

end
