(* ===== verification/Yomitan_Libs.thy ===== *)
theory Yomitan_Libs
  imports Yomitan Canonical
begin

text \<open>
  Building hangul-js for a Yomitan checkout (tools/yomitan-libs/build.mjs), and \<open>isMain\<close> (tools/lib/cli.mjs): the
  checks of the checkout, of the lockfile, of the installed packages and of the output directory, and the writing of
  the bundle.

  Parameters, in the record \<open>builder\<close>: what git prints (\<open>None\<close> where it fails), which paths are directories or links,
  real paths, the machine, the version of esbuild, its bundle for the tree it is given, and sha256. The files of the
  checkout and of this directory are the file system \<open>files\<close>, which is passed through; \<open>resolve\<close> is the identity.
\<close>

section \<open>The lockfile\<close>

definition PACKAGES :: "jstr list" where
  "PACKAGES = map js [''esbuild'', ''hangul-js'']"

definition HANGUL_JS :: json where
  "HANGUL_JS = JObj
     [(js ''version'', JStr (js ''0.2.6'')),
      (js ''resolved'', JStr (js ''https://registry.npmjs.org/hangul-js/-/hangul-js-0.2.6.tgz'')),
      (js ''integrity'', JStr (js ''sha512-48axU8LgjCD30FEs66Xc04/8knxMwCMQw0f67l67rlttW7VXT3qRJgQeHmhiuGwWXGvSbk6YM0fhQlcjE1JFQA==''))]"

definition package_key :: "jstr \<Rightarrow> jstr" where
  "package_key name = js ''node_modules/'' @ name"

definition lock_packages :: "json \<Rightarrow> json" where
  "lock_packages lock = or_else (obj_get lock (js ''packages'')) (JObj [])"

definition object_keys :: "json \<Rightarrow> jstr list" where
  "object_keys v = map fst (object_entries v)"

definition esbuild_platforms :: "json \<Rightarrow> jstr list" where
  "esbuild_platforms packages = object_keys (or_else
     (obj_get (obj_get packages (package_key (js ''esbuild''))) (js ''optionalDependencies'')) (JObj []))"

definition allowed_keys :: "json \<Rightarrow> jstr list" where
  "allowed_keys yomitan = ls_of (map package_key (PACKAGES @ esbuild_platforms yomitan))"

text \<open>\<open>isDeepStrictEqual\<close> of two JSON values or \<open>undefined\<close>.\<close>

definition deep_equal :: "json \<Rightarrow> json \<Rightarrow> bool" where
  "deep_equal v w \<longleftrightarrow> v = w \<or> json_same v w"

definition show_value :: "json \<Rightarrow> jstr" where
  "show_value v = (case v of JUndef \<Rightarrow> js ''(none)'' | JStr s \<Rightarrow> s | _ \<Rightarrow> stringify v)"

definition pinned_entry :: "jstr \<Rightarrow> json \<Rightarrow> json" where
  "pinned_entry key other =
     (if key = package_key (js ''hangul-js'') \<and> obj_get other (js ''version'') = obj_get HANGUL_JS (js ''version'')
      then HANGUL_JS else JObj [])"

definition fill_field :: "json \<Rightarrow> jstr \<Rightarrow> json \<Rightarrow> json" where
  "fill_field pinned field expected =
     (if obj_get expected field = JUndef \<and> obj_get pinned field \<noteq> JUndef then put field (obj_get pinned field) expected
      else expected)"

definition expected_entry :: "jstr \<Rightarrow> json \<Rightarrow> json" where
  "expected_entry key other = fold (fill_field (pinned_entry key other)) [js ''resolved'', js ''integrity'']
     (JObj (object_entries other))"

definition field_skipped :: "json \<Rightarrow> jstr \<Rightarrow> bool" where
  "field_skipped other field \<longleftrightarrow> field = js ''dev'' \<or> (field = js ''license'' \<and> obj_get other (js ''license'') = JUndef)"

definition field_problems :: "jstr \<Rightarrow> json \<Rightarrow> json \<Rightarrow> jstr \<Rightarrow> jstr list" where
  "field_problems key entry other field =
     (let expected = expected_entry key other; pinned = pinned_entry key other in
      if field_skipped other field then []
      else if deep_equal (obj_get entry field) (obj_get expected field) then []
      else let whose = (if obj_get other field = JUndef \<and> obj_get pinned field \<noteq> JUndef
             then js ''hangul-js '' @ to_js (obj_get HANGUL_JS (js ''version'')) @ [39, 115] else js ''Yomitan'' @ [39, 115])
        in [key @ js '': '' @ field @ [32] @ show_value (obj_get entry field) @ js '', '' @ whose @ js '' is ''
          @ show_value (obj_get expected field)])"

definition entry_problems :: "json \<Rightarrow> jstr \<times> json \<Rightarrow> jstr list" where
  "entry_problems yomitan = (\<lambda>(key, entry).
     let other = obj_get yomitan key in
     if key = [] then []
     else if key \<notin> set (allowed_keys yomitan)
     then [key @ js '' is neither esbuild, one of its platform packages nor hangul-js'']
     else if other = JUndef then [key @ js '' is not in Yomitan'' @ [39, 115] @ js '' package-lock.json'']
     else concat (map (field_problems key entry other)
       (ls_of (object_keys (expected_entry key other) @ object_keys entry))))"

definition lockfileProblems :: "json \<Rightarrow> json \<Rightarrow> jstr list" where
  "lockfileProblems ours theirs =
     (let packages = lock_packages ours; yomitan = lock_packages theirs in
      concat (map (\<lambda>key. if obj_get packages key = JUndef then [key @ js '' is missing''] else []) (allowed_keys yomitan))
      @ concat (map (entry_problems yomitan) (object_entries packages)))"

section \<open>The checks\<close>

datatype stat = NoEntry | SymbolicLink | Directory | OtherFile

record builder =
  bu_is_dir :: "jstr \<Rightarrow> bool"
  bu_inside :: "jstr \<Rightarrow> jstr option"
  bu_top :: "jstr \<Rightarrow> jstr"
  bu_head :: "jstr \<Rightarrow> jstr option"
  bu_realpath :: "jstr \<Rightarrow> jstr"
  bu_blob :: "jstr \<Rightarrow> jstr \<Rightarrow> jstr option"
  bu_lstat :: "jstr \<Rightarrow> stat"
  bu_here :: jstr
  bu_platform :: jstr
  bu_arch :: jstr
  bu_esbuild :: json
  bu_bundle :: "(jstr \<times> jstr) list \<Rightarrow> jstr \<Rightarrow> jstr option"
  bu_sha256 :: "jstr \<Rightarrow> jstr"
  bu_pid :: jstr

datatype lib_error =
    NotADirectory jstr
  | NotAWorkTree jstr
  | NotTheTop jstr jstr
  | WrongRevision jstr "jstr option"
  | LockfileDiffers "jstr list"
  | NoLockfile
  | NoPlatform
  | NotInstalled jstr
  | WrongVersion jstr json json
  | LinkedDirectory jstr
  | NotLibDirectory jstr
  | WrongEsbuild json json
  | NoBlob jstr
  | BuildFailed
  | WrongBundle "(jstr \<times> jstr) list"
  | PartialExists jstr

definition checkCheckout :: "builder \<Rightarrow> jstr \<Rightarrow> lib_error + jstr" where
  "checkCheckout b root =
     (if \<not> bu_is_dir b root then Inl (NotADirectory root)
      else if map_option trim (bu_inside b root) \<noteq> Some (js ''true'') then Inl (NotAWorkTree root)
      else let top = trim (bu_top b root) in
        if bu_realpath b top \<noteq> bu_realpath b root then Inl (NotTheTop root top)
        else let head = map_option trim (bu_head b root) in
          if head \<noteq> Some PINNED_REVISION then Inl (WrongRevision root head) else Inr root)"

definition lockfile_of :: "builder \<Rightarrow> jstr" where
  "lockfile_of b = path_join (bu_here b) (js ''package-lock.json'')"

definition read_lock :: "jstr option \<Rightarrow> lib_error + json" where
  "read_lock t = (case t of None \<Rightarrow> Inl NoLockfile | Some text \<Rightarrow> (case json_parse text of None \<Rightarrow> Inl NoLockfile | Some v \<Rightarrow> Inr v))"

definition checkLockfile :: "builder \<Rightarrow> files \<Rightarrow> jstr \<Rightarrow> lib_error + json" where
  "checkLockfile b fs root =
     bindE (read_lock (fs (lockfile_of b))) (\<lambda>ours.
     bindE (read_lock (bu_blob b root (js ''package-lock.json''))) (\<lambda>theirs.
       let problems = lockfileProblems ours theirs
       in if problems \<noteq> [] then Inl (LockfileDiffers problems) else Inr ours))"

definition names_machine :: "json \<Rightarrow> jstr \<Rightarrow> jstr \<Rightarrow> bool" where
  "names_machine v field name \<longleftrightarrow> JStr name \<in> set (list_of (obj_get v field))"

definition installedKeys :: "builder \<Rightarrow> json \<Rightarrow> lib_error + jstr list" where
  "installedKeys b lock =
     (let packages = obj_get lock (js ''packages'');
          platforms = filter (\<lambda>key. names_machine (obj_get packages key) (js ''os'') (bu_platform b)
              \<and> names_machine (obj_get packages key) (js ''cpu'') (bu_arch b))
            (map package_key (esbuild_platforms packages))
      in if platforms = [] then Inl NoPlatform else Inr (map package_key PACKAGES @ platforms))"

definition check_package :: "builder \<Rightarrow> files \<Rightarrow> json \<Rightarrow> jstr \<Rightarrow> lib_error + unit" where
  "check_package b fs ours key =
     (let name = drop (length (js ''node_modules/'')) key;
          locked = obj_get (obj_get (obj_get ours (js ''packages'')) key) (js ''version'')
      in case fs (path_join (path_join (bu_here b) key) (js ''package.json'')) of
           None \<Rightarrow> Inl (NotInstalled name)
         | Some text \<Rightarrow> bindE (read_lock (Some text)) (\<lambda>v.
             if obj_get v (js ''version'') \<noteq> locked then Inl (WrongVersion name (obj_get v (js ''version'')) locked)
             else Inr ()))"

definition checkPackages :: "builder \<Rightarrow> files \<Rightarrow> jstr \<Rightarrow> lib_error + json" where
  "checkPackages b fs root =
     bindE (checkLockfile b fs root) (\<lambda>ours.
     bindE (installedKeys b ours) (\<lambda>keys.
     bindE (mapE (check_package b fs ours) keys) (\<lambda>_. Inr ours)))"

definition LIB_DIR :: "jstr list" where
  "LIB_DIR = map js [''ext'', ''lib'']"

text \<open>The loop over the parts of \<open>ext/lib\<close>, from \<open>dir\<close>.\<close>

fun check_parts :: "builder \<Rightarrow> jstr \<Rightarrow> jstr list \<Rightarrow> lib_error + unit" where
  "check_parts b dir [] = Inr ()"
| "check_parts b dir (part # parts) =
     (let d = path_join dir part in case bu_lstat b d of
        NoEntry \<Rightarrow> Inr ()
      | SymbolicLink \<Rightarrow> Inl (LinkedDirectory d)
      | OtherFile \<Rightarrow> Inl (NotLibDirectory d)
      | Directory \<Rightarrow> check_parts b d parts)"

definition checkLibDirectory :: "builder \<Rightarrow> jstr \<Rightarrow> lib_error + jstr" where
  "checkLibDirectory b absolute = bindE (check_parts b absolute LIB_DIR) (\<lambda>_. Inr (foldl path_join absolute LIB_DIR))"

section \<open>The build\<close>

definition TREE_FILES :: "jstr list" where
  "TREE_FILES = map js [''package.json'', ''jsconfig.json'', ''dev/jsconfig.json'', ''dev/lib/hangul-js.js'']"

definition OUTPUTS :: "jstr list" where
  "OUTPUTS = map js [''hangul-js.js'', ''hangul-js.js.map'']"

definition EXPECTED_SHA256 :: "(jstr \<times> jstr) list" where
  "EXPECTED_SHA256 =
     [(js ''hangul-js.js'', js ''9019030075e90cd6bceaf605673e0c0c6870fac6d17d4cb45564a968c41d9f62''),
      (js ''hangul-js.js.map'', js ''f09719ae49d30261d9f487ad18b64d8ec82d60f883b8209603b6dc47120e62f1'')]"

definition esbuildOptions :: "jstr \<Rightarrow> json" where
  "esbuildOptions tree = JObj
     [(js ''absWorkingDir'', JStr tree),
      (js ''entryPoints'', JArr [JStr (path_join tree (js ''dev/lib/hangul-js.js''))]),
      (js ''bundle'', JBool True), (js ''minify'', JBool False), (js ''sourcemap'', JBool True),
      (js ''target'', JStr (js ''es2020'')), (js ''format'', JStr (js ''esm'')),
      (js ''outfile'', JStr (path_join (foldl path_join tree LIB_DIR) (js ''hangul-js.js''))),
      (js ''external'', JArr [JStr (js ''fs'')]),
      (js ''banner'', JObj [(js ''js'', JStr (js ''// @ts-nocheck''))])]"

definition tree_file :: "builder \<Rightarrow> jstr \<Rightarrow> jstr \<Rightarrow> lib_error + jstr \<times> jstr" where
  "tree_file b root path = (case bu_blob b root path of None \<Rightarrow> Inl (NoBlob path) | Some text \<Rightarrow> Inr (path, text))"

definition built_file :: "builder \<Rightarrow> (jstr \<times> jstr) list \<Rightarrow> jstr \<Rightarrow> lib_error + jstr \<times> jstr" where
  "built_file b tree name = (case bu_bundle b tree name of None \<Rightarrow> Inl BuildFailed | Some text \<Rightarrow> Inr (name, text))"

definition wrong_outputs :: "builder \<Rightarrow> (jstr \<times> jstr) list \<Rightarrow> (jstr \<times> jstr) list" where
  "wrong_outputs b built = filter (\<lambda>(name, h). Some h \<noteq> map_of EXPECTED_SHA256 name)
     (map (\<lambda>(name, text). (name, bu_sha256 b text)) built)"

definition partial_of :: "builder \<Rightarrow> jstr \<Rightarrow> jstr \<Rightarrow> jstr" where
  "partial_of b lib name = path_join lib ([46] @ name @ [46] @ bu_pid b @ js ''.partial'')"

text \<open>One output: copied under a new name and renamed; the new name is removed at the end, also after an error.\<close>

definition write_output :: "builder \<Rightarrow> jstr \<Rightarrow> jstr \<times> jstr \<Rightarrow> files \<Rightarrow> (lib_error + jstr) \<times> files" where
  "write_output b lib = (\<lambda>(name, text) fs.
     let target = path_join lib name; partial = partial_of b lib name in
     if fs partial \<noteq> None then (Inl (PartialExists partial), fs(partial := None))
     else (Inr target, (fs(partial \<mapsto> text))(target \<mapsto> text, partial := None)))"

fun write_outputs :: "builder \<Rightarrow> jstr \<Rightarrow> (jstr \<times> jstr) list \<Rightarrow> files \<Rightarrow> (lib_error + jstr list) \<times> files" where
  "write_outputs b lib [] fs = (Inr [], fs)"
| "write_outputs b lib (f # rest) fs = (case write_output b lib f fs of
       (Inl e, fs') \<Rightarrow> (Inl e, fs')
     | (Inr target, fs') \<Rightarrow> (case write_outputs b lib rest fs' of
           (Inl e, fs'') \<Rightarrow> (Inl e, fs'')
         | (Inr targets, fs'') \<Rightarrow> (Inr (target # targets), fs'')))"

definition build_bundle :: "builder \<Rightarrow> files \<Rightarrow> jstr \<Rightarrow> lib_error + jstr \<times> (jstr \<times> jstr) list" where
  "build_bundle b fs root =
     bindE (checkCheckout b root) (\<lambda>absolute.
     bindE (checkLibDirectory b absolute) (\<lambda>lib.
     bindE (checkPackages b fs absolute) (\<lambda>ours.
     let locked = obj_get (obj_get (obj_get ours (js ''packages'')) (package_key (js ''esbuild''))) (js ''version'') in
     if bu_esbuild b \<noteq> locked then Inl (WrongEsbuild (bu_esbuild b) locked)
     else
       bindE (mapE (tree_file b absolute) TREE_FILES) (\<lambda>tree.
       bindE (mapE (built_file b tree) OUTPUTS) (\<lambda>built.
         let wrong = wrong_outputs b built
         in if wrong \<noteq> [] then Inl (WrongBundle wrong) else Inr (lib, built))))))"

definition buildHangul :: "builder \<Rightarrow> files \<Rightarrow> jstr \<Rightarrow> (lib_error + jstr list) \<times> files" where
  "buildHangul b fs root = (case build_bundle b fs root of
       Inl e \<Rightarrow> (Inl e, fs)
     | Inr (lib, built) \<Rightarrow> write_outputs b lib built fs)"

text \<open>The command: the status and the files.\<close>

definition libs_main :: "builder \<Rightarrow> files \<Rightarrow> jstr list \<Rightarrow> nat \<times> files" where
  "libs_main b fs argv =
     (let lockfileOnly = (argv \<noteq> [] \<and> hd argv = js ''--lockfile-only''); args = (if lockfileOnly then tl argv else argv) in
      case args of
        [root] \<Rightarrow>
          (if starts_with root [45] then (2, fs)
           else if lockfileOnly then
             (case bindE (checkCheckout b root) (checkLockfile b fs) of Inl e \<Rightarrow> (1, fs) | Inr lock \<Rightarrow> (0, fs))
           else (case buildHangul b fs root of (Inl e, fs') \<Rightarrow> (1, fs') | (Inr written, fs') \<Rightarrow> (0, fs')))
      | _ \<Rightarrow> (2, fs))"

section \<open>The main module\<close>

text \<open>\<open>isMain\<close>: \<open>argv1\<close> is \<open>process.argv[1]\<close>, \<open>file_of\<close> is \<open>fileURLToPath\<close> and \<open>real\<close> is \<open>realpathSync\<close>; both may throw.\<close>

definition isMain :: "jstr option \<Rightarrow> (jstr \<Rightarrow> jstr option) \<Rightarrow> (jstr \<Rightarrow> jstr option) \<Rightarrow> jstr \<Rightarrow> bool" where
  "isMain argv1 file_of real moduleUrl = (case argv1 of
       None \<Rightarrow> False
     | Some script \<Rightarrow> (case Option.bind (file_of moduleUrl) real of
           None \<Rightarrow> False
         | Some m \<Rightarrow> (case real script of None \<Rightarrow> False | Some s \<Rightarrow> m = s)))"

end
