(* ===== verification/Yomitan_Libs_Correct.thy ===== *)
theory Yomitan_Libs_Correct
  imports Yomitan_Libs
begin

text \<open>
  The lockfile check accepts exactly the lockfiles equal to Yomitan's in the fields that matter, and the build writes
  nothing but its two outputs, with the expected hashes, and only after every check.
\<close>

section \<open>The lockfile\<close>

lemma obj_get_put: "obj_get (put k v (JObj es)) f = (if f = k then v else obj_get (JObj es) f)"
  by (simp add: put_def obj_get_JObj map_of_obj_put)

lemma put_object: "\<exists>es. put k v w = JObj es"
  by (simp add: put_def)

definition pinned_field :: "jstr \<Rightarrow> json \<Rightarrow> jstr \<Rightarrow> json" where
  "pinned_field key other field =
     (if obj_get other field = JUndef \<and> field \<in> {js ''resolved'', js ''integrity''}
      then obj_get (pinned_entry key other) field else obj_get other field)"

lemma fill_field_get:
  "obj_get (fill_field pinned field (JObj es)) f =
     (if f = field \<and> obj_get (JObj es) field = JUndef then obj_get pinned field else obj_get (JObj es) f)"
  by (auto simp: fill_field_def obj_get_put)

lemma fill_field_object: "\<exists>es'. fill_field pinned field (JObj es) = JObj es'"
  using put_object by (auto simp: fill_field_def)

lemma expected_entry_get: "obj_get (expected_entry key (JObj es)) f = pinned_field key (JObj es) f"
proof -
  let ?p = "pinned_entry key (JObj es)"
  obtain es' where e: "fill_field ?p (js ''resolved'') (JObj es) = JObj es'" using fill_field_object by blast
  have first: "obj_get (JObj es') g = (if g = js ''resolved'' \<and> obj_get (JObj es) (js ''resolved'') = JUndef
      then obj_get ?p (js ''resolved'') else obj_get (JObj es) g)" for g
    unfolding e [symmetric] by (rule fill_field_get)
  have "js ''resolved'' \<noteq> js ''integrity''" by simp
  moreover have "expected_entry key (JObj es) = fill_field ?p (js ''integrity'') (JObj es')"
    by (simp add: expected_entry_def e del: js_simps)
  ultimately show ?thesis
    by (auto simp: fill_field_get first pinned_field_def simp del: js_simps)
qed

lemma expected_entry_object: "\<exists>es'. expected_entry key (JObj es) = JObj es'"
  using fill_field_object by (simp add: expected_entry_def) metis

lemma obj_get_keys: "f \<notin> set (object_keys (JObj es)) \<Longrightarrow> obj_get (JObj es) f = JUndef"
  by (force simp: object_keys_def obj_get_JObj split: option.splits dest: map_of_SomeD)

lemma field_problems_Nil:
  "field_problems key entry other f = [] \<longleftrightarrow>
     field_skipped other f \<or> deep_equal (obj_get entry f) (obj_get (expected_entry key other) f)"
  by (simp add: field_problems_def Let_def)

lemma all_fields_equal:
  "(\<forall>f\<in>set (ls_of (object_keys (expected_entry key (JObj es)) @ object_keys (JObj fs))).
      field_problems key (JObj fs) (JObj es) f = []) \<longleftrightarrow>
   (\<forall>f. field_skipped (JObj es) f \<or> deep_equal (obj_get (JObj fs) f) (pinned_field key (JObj es) f))"
proof -
  obtain es' where e: "expected_entry key (JObj es) = JObj es'" using expected_entry_object by blast
  have "deep_equal (obj_get (JObj fs) f) (obj_get (JObj es') f)"
    if "f \<notin> set (object_keys (JObj es')) \<union> set (object_keys (JObj fs))" for f
    using that obj_get_keys [of f fs] obj_get_keys [of f es'] by (simp add: deep_equal_def)
  then show ?thesis
    unfolding field_problems_Nil expected_entry_get [symmetric] e by (simp only: set_ls_of set_append) blast
qed

definition entries_are_objects :: "json \<Rightarrow> bool" where
  "entries_are_objects packages \<longleftrightarrow> (\<exists>es. packages = JObj es \<and> distinct (map fst es) \<and> (\<forall>v\<in>snd ` set es. \<exists>fs. v = JObj fs))"

lemma object_get_entry:
  assumes "entries_are_objects packages" "obj_get packages k \<noteq> JUndef"
  shows "\<exists>fs. obj_get packages k = JObj fs"
  using assms by (fastforce simp: entries_are_objects_def obj_get_JObj split: option.splits dest: map_of_SomeD)

text \<open>The lockfile is Yomitan's: the same packages, each with Yomitan's fields, but for \<open>dev\<close>, a license Yomitan does not
  record, and the URL and hash of hangul-js.\<close>

definition lockfile_matches :: "json \<Rightarrow> json \<Rightarrow> bool" where
  "lockfile_matches packages yomitan \<longleftrightarrow>
     (\<forall>key\<in>set (allowed_keys yomitan). obj_get packages key \<noteq> JUndef) \<and>
     (\<forall>key. key \<noteq> [] \<and> obj_get packages key \<noteq> JUndef \<longrightarrow>
        key \<in> set (allowed_keys yomitan) \<and> obj_get yomitan key \<noteq> JUndef \<and>
        (\<forall>f. field_skipped (obj_get yomitan key) f
          \<or> deep_equal (obj_get (obj_get packages key) f) (pinned_field key (obj_get yomitan key) f)))"

lemma entry_problems_Nil:
  assumes "entries_are_objects yomitan"
  shows "entry_problems yomitan (key, JObj fs) = [] \<longleftrightarrow> key = [] \<or>
    (key \<in> set (allowed_keys yomitan) \<and> obj_get yomitan key \<noteq> JUndef \<and>
      (\<forall>f. field_skipped (obj_get yomitan key) f \<or> deep_equal (obj_get (JObj fs) f) (pinned_field key (obj_get yomitan key) f)))"
proof (cases "key = [] \<or> key \<notin> set (allowed_keys yomitan) \<or> obj_get yomitan key = JUndef")
  case True
  then show ?thesis by (auto simp: entry_problems_def Let_def)
next
  case False
  then obtain es where es: "obj_get yomitan key = JObj es" using object_get_entry [OF assms] by blast
  have "entry_problems yomitan (key, JObj fs) = concat (map (field_problems key (JObj fs) (JObj es))
      (ls_of (object_keys (expected_entry key (JObj es)) @ object_keys (JObj fs))))"
    using False by (simp add: entry_problems_def es Let_def)
  then have "entry_problems yomitan (key, JObj fs) = [] \<longleftrightarrow>
      (\<forall>f\<in>set (ls_of (object_keys (expected_entry key (JObj es)) @ object_keys (JObj fs))).
        field_problems key (JObj fs) (JObj es) f = [])"
    by (simp only: concat_eq_Nil_conv set_map ball_simps image_iff)
  then show ?thesis using False es unfolding all_fields_equal by simp
qed

text \<open>\<open>lockfileProblems\<close> reports nothing exactly when the lockfile has Yomitan's esbuild, its platform packages and hangul-js and
  nothing else, each equal to Yomitan's entry in every field but those the check leaves out.\<close>

theorem lockfileProblems_none:
  assumes "entries_are_objects (lock_packages ours)" and "entries_are_objects (lock_packages theirs)"
  shows "lockfileProblems ours theirs = [] \<longleftrightarrow> lockfile_matches (lock_packages ours) (lock_packages theirs)"
proof -
  obtain es where es: "lock_packages ours = JObj es" "distinct (map fst es)" "\<forall>v\<in>snd ` set es. \<exists>fs. v = JObj fs"
    using assms(1) by (auto simp: entries_are_objects_def)
  let ?y = "lock_packages theirs"
  have entry: "(k, v) \<in> set es \<longleftrightarrow> obj_get (JObj es) k = v \<and> v \<noteq> JUndef" for k v
  proof -
    have "v \<noteq> JUndef" if "(k, v) \<in> set es" using es(3) that by force
    then show ?thesis
      using map_of_eq_Some_iff [OF es(2), of k v] by (cases "map_of es k") (auto simp: obj_get_JObj)
  qed
  have "lockfileProblems ours theirs = [] \<longleftrightarrow>
      (\<forall>key\<in>set (allowed_keys ?y). obj_get (JObj es) key \<noteq> JUndef) \<and> (\<forall>(k, v)\<in>set es. entry_problems ?y (k, v) = [])"
    by (auto simp: lockfileProblems_def Let_def es(1))
  also have "(\<forall>(k, v)\<in>set es. entry_problems ?y (k, v) = []) \<longleftrightarrow>
      (\<forall>k. obj_get (JObj es) k \<noteq> JUndef \<longrightarrow> entry_problems ?y (k, obj_get (JObj es) k) = [])"
  proof (intro iffI allI impI ballI)
    fix k assume "\<forall>(k, v)\<in>set es. entry_problems ?y (k, v) = []" "obj_get (JObj es) k \<noteq> JUndef"
    then show "entry_problems ?y (k, obj_get (JObj es) k) = []" using entry [of k "obj_get (JObj es) k"] by blast
  next
    fix p assume all: "\<forall>k. obj_get (JObj es) k \<noteq> JUndef \<longrightarrow> entry_problems ?y (k, obj_get (JObj es) k) = []" and "p \<in> set es"
    then show "case p of (k, v) \<Rightarrow> entry_problems ?y (k, v) = []" using entry [of "fst p" "snd p"] by (cases p) auto
  qed
  finally show ?thesis
    unfolding lockfile_matches_def es(1)
    using entry_problems_Nil [OF assms(2)] object_get_entry [OF assms(1)] es(1) by (smt (verit, best))
qed

section \<open>The build\<close>

definition written_paths :: "builder \<Rightarrow> jstr \<Rightarrow> jstr list \<Rightarrow> jstr set" where
  "written_paths b lib names = path_join lib ` set names \<union> partial_of b lib ` set names"

lemma partial_not_target: "name \<in> set OUTPUTS \<Longrightarrow> name' \<in> set OUTPUTS \<Longrightarrow> partial_of b lib name \<noteq> path_join lib name'"
  by (auto simp: partial_of_def path_join_def OUTPUTS_def)

lemma write_outputs_frame:
  assumes "write_outputs b lib fls fs = (r, fs')" and "path \<notin> written_paths b lib (map fst fls)"
  shows "fs' path = fs path"
  using assms
proof (induction fls arbitrary: fs r)
  case Nil
  then show ?case by simp
next
  case (Cons f fls)
  obtain r1 fs1 where w: "write_output b lib f fs = (r1, fs1)" by (cases "write_output b lib f fs")
  have "fs1 path = fs path"
    using w Cons.prems(2) by (auto simp: write_output_def Let_def written_paths_def split: prod.splits if_splits)
  moreover have "path \<notin> written_paths b lib (map fst fls)" using Cons.prems(2) by (auto simp: written_paths_def)
  ultimately show ?case
    using Cons.IH [of fs1] Cons.prems(1) w by (cases r1) (auto split: prod.splits sum.splits)
qed

lemma write_outputs_ok:
  assumes "write_outputs b lib fls fs = (Inr targets, fs')" and "distinct (map fst fls)" and "set (map fst fls) \<subseteq> set OUTPUTS"
  shows "targets = map (path_join lib) (map fst fls) \<and>
    (\<forall>(name, cont)\<in>set fls. fs' (path_join lib name) = Some cont \<and> fs' (partial_of b lib name) = None)"
  using assms
proof (induction fls arbitrary: fs targets)
  case Nil
  then show ?case by simp
next
  case (Cons f fls)
  obtain name cont where f: "f = (name, cont)" by (cases f)
  obtain fs1 targets1 where w: "write_output b lib f fs = (Inr (path_join lib name), fs1)"
      "write_outputs b lib fls fs1 = (Inr targets1, fs')" "targets = path_join lib name # targets1"
    using Cons.prems(1) by (auto simp: f write_output_def Let_def split: prod.splits sum.splits if_splits)
  have name: "name \<in> set OUTPUTS" using Cons.prems(3) f by simp
  then have fs1: "fs1 (path_join lib name) = Some cont" "fs1 (partial_of b lib name) = None"
    using w(1) partial_not_target [OF name name, of b lib] by (auto simp: f write_output_def Let_def split: if_splits)
  have free: "path_join lib name \<notin> written_paths b lib (map fst fls)" "partial_of b lib name \<notin> written_paths b lib (map fst fls)"
    using Cons.prems(2,3) f partial_not_target by (auto simp: written_paths_def path_join_def partial_of_def OUTPUTS_def)
  show ?case
    using Cons.IH [OF w(2)] Cons.prems(2,3) fs1 write_outputs_frame [OF w(2) free(1)] write_outputs_frame [OF w(2) free(2)] w(3)
    by (simp add: f)
qed

lemma build_bundle_Inr:
  assumes "build_bundle b fs root = Inr (lib, built)"
  shows "map_option trim (bu_head b root) = Some PINNED_REVISION" "lib = foldl path_join root LIB_DIR"
    "map fst built = OUTPUTS" "\<And>name cont. (name, cont) \<in> set built \<Longrightarrow> map_of EXPECTED_SHA256 name = Some (bu_sha256 b cont)"
    "\<exists>ours theirs. read_lock (fs (lockfile_of b)) = Inr ours \<and> read_lock (bu_blob b root (js ''package-lock.json'')) = Inr theirs \<and>
      lockfileProblems ours theirs = []"
proof -
  obtain ours tree where c: "checkCheckout b root = Inr root" "checkLibDirectory b root = Inr lib" "checkPackages b fs root = Inr ours"
      and t: "mapE (built_file b tree) OUTPUTS = Inr built" "wrong_outputs b built = []"
    using assms by (auto simp: build_bundle_def checkCheckout_def Let_def simp del: js_simps split: if_splits)
  show "map_option trim (bu_head b root) = Some PINNED_REVISION"
    using c(1) by (auto simp: checkCheckout_def Let_def simp del: js_simps split: if_splits)
  show "lib = foldl path_join root LIB_DIR" using c(2) by (auto simp: checkLibDirectory_def)
  have "list_all2 (\<lambda>name f. fst f = name) OUTPUTS built"
    by (rule list_all2_mono [OF mapE_Inr [OF t(1)]]) (auto simp: built_file_def split: option.splits)
  then show "map fst built = OUTPUTS" by (auto simp: list_all2_conv_all_nth intro: nth_equalityI)
  show "\<And>name cont. (name, cont) \<in> set built \<Longrightarrow> map_of EXPECTED_SHA256 name = Some (bu_sha256 b cont)"
    using t(2) by (fastforce simp: wrong_outputs_def filter_empty_conv)
  show "\<exists>ours theirs. read_lock (fs (lockfile_of b)) = Inr ours \<and> read_lock (bu_blob b root (js ''package-lock.json'')) = Inr theirs \<and>
      lockfileProblems ours theirs = []"
    using c(3) by (auto simp: checkPackages_def checkLockfile_def Let_def simp del: js_simps split: if_splits)
qed

text \<open>C8: the build changes no file but the two outputs in ext/lib (and their partial names); when it fails before writing, it
  changes nothing; when it succeeds, the checkout is at the pinned revision, the lockfile check reported nothing, both outputs
  have the expected hashes and no partial file is left.\<close>

theorem buildHangul_safe:
  assumes "buildHangul b fs root = (r, fs')" and "lib = foldl path_join root LIB_DIR"
  shows "(\<forall>path. path \<notin> written_paths b lib OUTPUTS \<longrightarrow> fs' path = fs path) \<and>
    (isl (build_bundle b fs root) \<longrightarrow> isl r \<and> fs' = fs) \<and>
    (\<forall>targets. r = Inr targets \<longrightarrow> targets = map (path_join lib) OUTPUTS \<and>
      map_option trim (bu_head b root) = Some PINNED_REVISION \<and>
      (\<exists>ours theirs. read_lock (fs (lockfile_of b)) = Inr ours \<and>
        read_lock (bu_blob b root (js ''package-lock.json'')) = Inr theirs \<and> lockfileProblems ours theirs = []) \<and>
      (\<forall>name\<in>set OUTPUTS. \<exists>cont. fs' (path_join lib name) = Some cont \<and>
        map_of EXPECTED_SHA256 name = Some (bu_sha256 b cont) \<and> fs' (partial_of b lib name) = None))"
proof (cases "build_bundle b fs root")
  case (Inl e)
  then show ?thesis using assms(1) by (auto simp: buildHangul_def)
next
  case (Inr p)
  obtain lib' built where p: "p = (lib', built)" by (cases p)
  note facts = build_bundle_Inr [OF Inr [unfolded p]]
  have w: "write_outputs b lib built fs = (r, fs')" using assms Inr p facts(2) by (simp add: buildHangul_def)
  have unchanged: "\<forall>path. path \<notin> written_paths b lib OUTPUTS \<longrightarrow> fs' path = fs path"
    using write_outputs_frame [OF w] facts(3) by simp
  have "distinct (map fst built)" "set (map fst built) \<subseteq> set OUTPUTS" unfolding facts(3) by (simp_all add: OUTPUTS_def)
  note ok = write_outputs_ok [OF _ this]
  have "targets = map (path_join lib) OUTPUTS \<and> (\<forall>name\<in>set OUTPUTS. \<exists>cont. fs' (path_join lib name) = Some cont \<and>
      map_of EXPECTED_SHA256 name = Some (bu_sha256 b cont) \<and> fs' (partial_of b lib name) = None)" if r: "r = Inr targets" for targets
  proof
    note o = ok [OF w [unfolded r]]
    show "targets = map (path_join lib) OUTPUTS" using o facts(3) by simp
    show "\<forall>name\<in>set OUTPUTS. \<exists>cont. fs' (path_join lib name) = Some cont \<and>
      map_of EXPECTED_SHA256 name = Some (bu_sha256 b cont) \<and> fs' (partial_of b lib name) = None"
    proof
      fix name assume "name \<in> set OUTPUTS"
      then obtain cont where t: "(name, cont) \<in> set built" unfolding facts(3) [symmetric] by auto
      then show "\<exists>cont. fs' (path_join lib name) = Some cont \<and>
        map_of EXPECTED_SHA256 name = Some (bu_sha256 b cont) \<and> fs' (partial_of b lib name) = None"
        using o facts(4) [OF t] by blast
    qed
  qed
  then show ?thesis using unchanged facts(1,5) Inr by auto
qed

section \<open>An example\<close>

definition ex_lock :: "json \<Rightarrow> json" where
  "ex_lock hangul = JObj [(js ''packages'', JObj
     [([], JObj []),
      (js ''node_modules/esbuild'', JObj [(js ''version'', JStr (js ''0.25.1'')),
        (js ''optionalDependencies'', JObj [(js ''@esbuild/l'', JStr (js ''0.25.1''))])]),
      (js ''node_modules/@esbuild/l'', JObj [(js ''version'', JStr (js ''0.25.1'')),
        (js ''os'', JArr [JStr (js ''linux'')]), (js ''cpu'', JArr [JStr (js ''x64'')])]),
      (js ''node_modules/hangul-js'', hangul)])]"

definition ex_theirs :: json where
  "ex_theirs = ex_lock (JObj [(js ''version'', JStr (js ''0.2.6''))])"

definition ex_ours :: json where
  "ex_ours = ex_lock HANGUL_JS"

lemma ex_lock_objects: "entries_are_objects (lock_packages ex_ours)" "entries_are_objects (lock_packages ex_theirs)"
  by (simp_all add: entries_are_objects_def ex_ours_def ex_theirs_def ex_lock_def HANGUL_JS_def lock_packages_def or_else_def
    obj_get_JObj)

theorem lockfileProblems_none_witness: "lockfile_matches (lock_packages ex_ours) (lock_packages ex_theirs)"
proof -
  have "lockfileProblems ex_ours ex_theirs = []" by code_simp
  then show ?thesis using lockfileProblems_none [OF ex_lock_objects] by simp
qed

definition ex_builder :: builder where
  "ex_builder =
     \<lparr>bu_is_dir = (\<lambda>d. True), bu_inside = (\<lambda>d. Some (js ''true'' @ [10])), bu_top = (\<lambda>d. d), bu_head = (\<lambda>d. Some PINNED_REVISION),
      bu_realpath = (\<lambda>p. p), bu_blob = (\<lambda>root p. Some (stringify ex_theirs)), bu_lstat = (\<lambda>p. Directory), bu_here = js ''h'',
      bu_platform = js ''linux'', bu_arch = js ''x64'', bu_esbuild = JStr (js ''0.25.1''), bu_bundle = (\<lambda>tree name. Some name),
      bu_sha256 = (\<lambda>t. case map_of EXPECTED_SHA256 t of Some h \<Rightarrow> h | None \<Rightarrow> []), bu_pid = js ''1''\<rparr>"

definition ex_libs_files :: files where
  "ex_libs_files f =
     (if f = js ''h/package-lock.json'' then Some (stringify ex_ours)
      else if f = js ''h/node_modules/hangul-js/package.json'' then Some (stringify HANGUL_JS)
      else if f = js ''r/ext/lib/hangul-js.js'' then None
      else if ends_with f (js ''package.json'') then Some (stringify (JObj [(js ''version'', JStr (js ''0.25.1''))])) else None)"

theorem buildHangul_safe_witness:
  "\<exists>targets fs'. buildHangul ex_builder ex_libs_files (js ''r'') = (Inr targets, fs') \<and> length targets = 2 \<and>
    fs' (js ''h/package-lock.json'') = ex_libs_files (js ''h/package-lock.json'')"
proof -
  have "\<not> isl (fst (buildHangul ex_builder ex_libs_files (js ''r'')))" by code_simp
  then obtain targets fs' where b: "buildHangul ex_builder ex_libs_files (js ''r'') = (Inr targets, fs')"
    by (metis prod.collapse sum.collapse(2))
  have "js ''h/package-lock.json'' \<notin> written_paths ex_builder (foldl path_join (js ''r'') LIB_DIR) OUTPUTS"
    by (auto simp: written_paths_def path_join_def partial_of_def LIB_DIR_def)
  then show ?thesis using buildHangul_safe [OF b refl] b by (auto simp: OUTPUTS_def simp del: js_simps)
qed

end
