(* ===== verification/Greek_Text.thy ===== *)
theory Greek_Text
  imports JS_Prelude
begin

text \<open>
  The Greek texts of languages/grc/sources, written in ASCII (Beta Code): each letter is followed by its marks,
  \<open>)\<close> smooth and \<open>(\<close> rough breathing, \<open>/\<close> acute, \<open>=\<close> circumflex, \<open>+\<close> diaeresis, \<open>|\<close> iota subscript, \<open>&\<close> macron
  and the backquote for the grave; \<open>*\<close> makes a capital, \<open>j\<close> is the final sigma, \<open>~\<close> the apostrophe 8217 and
  \<open>>\<close> the arrow 8594. \<open>gk ''lu/w''\<close> is a Greek text, \<open>tx ''Present: -{w}.''\<close> an English one with Greek
  between braces.
\<close>

definition GREEK_UNITS :: "(string \<times> int) list" where
  "GREEK_UNITS =
    [(''i+/'', 912), (''*a'', 913), (''*d'', 916), (''*e'', 917), (''*z'', 918), (''*h'', 919), (''*i'', 921), (''*c'', 926), (''*o'', 927),
     (''*p'', 928), (''*s'', 931), (''*u'', 933), (''*w'', 937), (''a/'', 940), (''e/'', 941), (''h/'', 942), (''i/'', 943), (''a'', 945),
     (''b'', 946), (''g'', 947), (''d'', 948), (''e'', 949), (''z'', 950), (''h'', 951), (''q'', 952), (''i'', 953), (''k'', 954),
     (''l'', 955), (''m'', 956), (''n'', 957), (''c'', 958), (''o'', 959), (''p'', 960), (''r'', 961), (''j'', 962), (''s'', 963),
     (''t'', 964), (''u'', 965), (''f'', 966), (''x'', 967), (''y'', 968), (''w'', 969), (''i+'', 970), (''u+'', 971), (''o/'', 972),
     (''u/'', 973), (''w/'', 974), (''a)'', 7936), (''a('', 7937), (''a)/'', 7940), (''a(/'', 7941), (''a)='', 7942), (''a(='', 7943), (''*a)'', 7944),
     (''*a('', 7945), (''*a)/'', 7948), (''*a)='', 7950), (''e)'', 7952), (''e('', 7953), (''e)/'', 7956), (''e(/'', 7957), (''*e)'', 7960), (''*e('', 7961),
     (''h)'', 7968), (''h('', 7969), (''h)/'', 7972), (''h(/'', 7973), (''h)='', 7974), (''h(='', 7975), (''*h)'', 7976), (''*h('', 7977), (''i)'', 7984),
     (''i('', 7985), (''i)/'', 7988), (''i(/'', 7989), (''i)='', 7990), (''i(='', 7991), (''*i)'', 7992), (''*i('', 7993), (''o)'', 8000), (''o('', 8001),
     (''o)/'', 8004), (''o(/'', 8005), (''*o)'', 8008), (''*o('', 8009), (''u)'', 8016), (''u('', 8017), (''u)/'', 8020), (''u(/'', 8021), (''u)='', 8022),
     (''u(='', 8023), (''*u('', 8025), (''w)'', 8032), (''w('', 8033), (''w)/'', 8036), (''w(/'', 8037), (''w)='', 8038), (''w(='', 8039), (''*w)'', 8040),
     (''*w('', 8041), (''a`'', 8048), (''i`'', 8054), (''o`'', 8056), (''w`'', 8060), (''a)|'', 8064), (''a)=|'', 8070), (''h)|'', 8080), (''h(|'', 8081),
     (''h)/|'', 8084), (''h)=|'', 8086), (''h(=|'', 8087), (''w)|'', 8096), (''w(|'', 8097), (''w)/|'', 8100), (''w)=|'', 8102), (''w(=|'', 8103), (''a&'', 8113),
     (''a|'', 8115), (''a/|'', 8116), (''a='', 8118), (''a=|'', 8119), (''h`|'', 8130), (''h|'', 8131), (''h/|'', 8132), (''h='', 8134), (''h=|'', 8135),
     (''i='', 8150), (''r('', 8165), (''u='', 8166), (''w|'', 8179), (''w/|'', 8180), (''w='', 8182), (''w=|'', 8183), (''~'', 8217), (''>'', 8594)]"

definition gk_mark :: "char \<Rightarrow> bool" where
  "gk_mark c \<longleftrightarrow> c \<in> set '')(+/`=|&''"

definition gk_step :: "char \<Rightarrow> string \<times> string list \<Rightarrow> string \<times> string list" where
  "gk_step c = (\<lambda>(marks, letters).
     if gk_mark c then (c # marks, letters)
     else if c = CHR ''*'' then (case letters of l # ls \<Rightarrow> ([], (c # l) # ls) | [] \<Rightarrow> ([], [[c]]))
     else ([], (c # marks) # letters))"

definition gk_letters :: "string \<Rightarrow> string list" where
  "gk_letters s = snd (foldr gk_step s ([], []))"

definition gk_unit :: "string \<Rightarrow> int" where
  "gk_unit l = (case map_of GREEK_UNITS l of Some u \<Rightarrow> u | None \<Rightarrow> 0)"

definition gk :: "string \<Rightarrow> jstr" where
  "gk s = map gk_unit (gk_letters s)"

fun tx_from :: "string option \<Rightarrow> string \<Rightarrow> jstr" where
  "tx_from g [] = []"
| "tx_from None (c # cs) = (if c = CHR ''{'' then tx_from (Some []) cs else js [c] @ tx_from None cs)"
| "tx_from (Some g) (c # cs) = (if c = CHR ''}'' then gk (rev g) @ tx_from None cs else tx_from (Some (c # g)) cs)"

definition tx :: "string \<Rightarrow> jstr" where
  "tx s = tx_from None s"

lemma gk_examples:
  "gk ''lu/w'' = [955, 973, 969]"
  "gk ''a)/nqrwpoj'' = [7940, 957, 952, 961, 969, 960, 959, 962]"
  "tx ''Dual: -{w}.'' = js ''Dual: -'' @ [969, 46]"
  by code_simp+

end
