(* ===== verification/Own_Rules.thy ===== *)
theory Own_Rules
  imports Greek Greek_Text
begin

text \<open>
  The rule generator of Ancient Greek (languages/grc/sources/own-rules.mjs): its conditions, the transforms it
  collects, the rules it emits with their accentless twins, and the helpers of the nominal and verbal endings.

  The script keeps its transforms in module variables. Here they are the state \<open>gen\<close>, and an operation is a function
  \<open>gen_op\<close> from the state to an error or the next state. A rule is a JSON object, given by its entries in the order
  \<open>JSON.stringify\<close> writes them. The environment variable \<open>GRC_TWINS\<close>, read once, is \<open>gen_twins\<close>.
\<close>

section \<open>Conditions\<close>

definition condition_of :: "string \<Rightarrow> bool \<Rightarrow> json" where
  "condition_of name dict = JObj [(js ''name'', JStr (js name)), (js ''isDictionaryForm'', JBool dict)]"

definition conditions :: "(jstr \<times> json) list" where
  "conditions =
    [(js ''v'', condition_of ''Verb'' True),
     (js ''n'', condition_of ''Noun'' True),
     (js ''adj'', condition_of ''Adjective'' True),
     (js ''fem'', condition_of ''Feminine form of the first declension'' False),
     (js ''neu'', condition_of ''Neuter plural form'' False),
     (js ''aug'', condition_of ''Verb with augment'' False),
     (js ''red'', condition_of ''Verb with reduplication'' False),
     (js ''augred'', condition_of ''Verb with augment and reduplication'' False),
     (js ''fut'', condition_of ''Future stem'' False),
     (js ''aor'', condition_of ''Aorist stem'' False),
     (js ''aora'', condition_of ''Aorist stem with augment'' False),
     (js ''aor2'', condition_of ''Second aorist stem'' False),
     (js ''aor2a'', condition_of ''Second aorist stem with augment'' False),
     (js ''aorp'', condition_of ''Aorist passive stem'' False),
     (js ''aorpa'', condition_of ''Aorist passive stem with augment'' False),
     (js ''pf'', condition_of ''Perfect active stem'' False),
     (js ''plpf'', condition_of ''Pluperfect active stem'' False),
     (js ''pmp'', condition_of ''Perfect middle stem'' False),
     (js ''plpm'', condition_of ''Pluperfect middle stem'' False)]"

section \<open>Transforms and rules\<close>

type_synonym rule_obj = "(jstr \<times> json) list"

record own_transform =
  ot_id :: jstr
  ot_name :: jstr
  ot_description :: jstr
  ot_optional :: bool
  ot_rules :: "rule_obj list"
  ot_keys :: "jstr list"

record gen =
  gen_twins :: bool
  gen_transforms :: "own_transform list"

datatype own_error = UnknownTransform jstr | OwnTypeError

type_synonym gen_op = "gen \<Rightarrow> own_error + gen"

definition start :: "bool \<Rightarrow> gen" where
  "start twins = \<lparr>gen_twins = twins, gen_transforms = []\<rparr>"

text \<open>\<open>byId.get(id)\<close>: the map holds the objects of the list \<open>transforms\<close>.\<close>

definition byId :: "gen \<Rightarrow> jstr \<Rightarrow> own_transform option" where
  "byId s i = find (\<lambda>t. ot_id t = i) (gen_transforms s)"

definition update_transform :: "jstr \<Rightarrow> (own_transform \<Rightarrow> own_transform) \<Rightarrow> gen \<Rightarrow> gen" where
  "update_transform i f s = s\<lparr>gen_transforms := map (\<lambda>t. if ot_id t = i then f t else t) (gen_transforms s)\<rparr>"

definition transform :: "jstr \<Rightarrow> jstr \<Rightarrow> jstr \<Rightarrow> gen_op" where
  "transform i name description s =
     (if byId s i \<noteq> None then Inr s
      else Inr (s\<lparr>gen_transforms := gen_transforms s @
        [\<lparr>ot_id = i, ot_name = name, ot_description = description, ot_optional = False, ot_rules = [], ot_keys = []\<rparr>]\<rparr>))"

text \<open>\<open>byId.get(id).optional = true\<close>\<close>

definition set_optional :: "jstr \<Rightarrow> gen_op" where
  "set_optional i s =
     (if byId s i = None then Inl OwnTypeError else Inr (update_transform i (\<lambda>t. t\<lparr>ot_optional := True\<rparr>) s))"

definition NORMALIZED_FIELDS :: "jstr list" where
  "NORMALIZED_FIELDS = map js [''inflected'', ''deinflected'', ''inflectedPrefix'', ''deinflectedPrefix'',
     ''inflectedSuffix'', ''deinflectedSuffix'']"

definition nfc_field :: "js_env \<Rightarrow> rule_obj \<Rightarrow> jstr \<Rightarrow> own_error + rule_obj" where
  "nfc_field env rule k = (case map_of rule k of
       None \<Rightarrow> Inr rule
     | Some (JStr t) \<Rightarrow> Inr (obj_put k (JStr (toNFC env t)) rule)
     | Some _ \<Rightarrow> Inl OwnTypeError)"

definition absent :: "rule_obj \<Rightarrow> string \<Rightarrow> bool" where
  "absent rule k \<longleftrightarrow> obj_get (JObj rule) (js k) = JUndef"

text \<open>A prefix or whole-word rule that changes nothing is not written.\<close>

definition changes_nothing :: "rule_obj \<Rightarrow> bool" where
  "changes_nothing rule \<longleftrightarrow>
     obj_get (JObj rule) (js ''type'') \<in> {JStr (js ''prefix''), JStr (js ''wholeWord'')} \<and>
     obj_get (JObj rule) (js ''inflected'') = obj_get (JObj rule) (js ''deinflected'') \<and>
     absent rule ''stemChange'' \<and> absent rule ''then''"

definition own_key :: "rule_obj \<Rightarrow> jstr" where
  "own_key rule = stringify (JObj rule)"

definition push_own :: "rule_obj \<Rightarrow> own_transform \<Rightarrow> own_transform" where
  "push_own rule t =
     (if own_key rule \<in> set (ot_keys t) then t
      else t\<lparr>ot_rules := ot_rules t @ [rule], ot_keys := ot_keys t @ [own_key rule]\<rparr>)"

definition add :: "js_env \<Rightarrow> jstr \<Rightarrow> rule_obj \<Rightarrow> gen_op" where
  "add env i rule s =
     (if byId s i = None then Inl (UnknownTransform i)
      else bindE (foldE (nfc_field env) rule NORMALIZED_FIELDS) (\<lambda>r.
        if changes_nothing r then Inr s else Inr (update_transform i (push_own r) s)))"

section \<open>Sequences of operations\<close>

definition run_ops :: "gen_op list \<Rightarrow> gen_op" where
  "run_ops fs s = foldE (\<lambda>s f. f s) s fs"

text \<open>\<open>for (const x of xs) f(x)\<close>\<close>

definition each :: "('a \<Rightarrow> gen_op) \<Rightarrow> 'a list \<Rightarrow> gen_op" where
  "each f xs = run_ops (map f xs)"

definition only_if :: "bool \<Rightarrow> gen_op \<Rightarrow> gen_op" where
  "only_if b f = (if b then f else Inr)"

section \<open>Text steps and classes\<close>

definition normalize_step :: "string \<Rightarrow> json" where
  "normalize_step form = JObj [(js ''normalize'', JStr (js form))]"

definition map_step :: "int \<Rightarrow> int \<Rightarrow> json" where
  "map_step a b = JObj [(js ''map'', JObj [([a], JStr [b])])]"

definition THEN_CIRC_TO_ACUTE :: "json list" where
  "THEN_CIRC_TO_ACUTE = [normalize_step ''NFD'', map_step 834 769, normalize_step ''NFC'']"

definition THEN_ACUTE_TO_CIRC :: "json list" where
  "THEN_ACUTE_TO_CIRC = [normalize_step ''NFD'', map_step 769 834, normalize_step ''NFC'']"

definition STRIPPED_MARKS :: jstr where
  "STRIPPED_MARKS = [91, 92] @ js ''u0300'' @ [92] @ js ''u0301'' @ [92] @ js ''u0342]''"

definition THEN_STRIP_ACCENTS :: "json list" where
  "THEN_STRIP_ACCENTS = [normalize_step ''NFD'', JObj [(js ''strip'', JStr STRIPPED_MARKS)], normalize_step ''NFC'']"

text \<open>\<open>/[\p{Lu}\p{Lt}]/u.test(c)\<close>\<close>

definition is_capital :: "js_env \<Rightarrow> jstr \<Rightarrow> bool" where
  "is_capital env c \<longleftrightarrow> list_ex (\<lambda>cp. env_cat env cp \<in> {js ''Lu'', js ''Lt''}) (cp_values c)"

definition UPPER :: "js_env \<Rightarrow> jstr" where
  "UPPER env = (let l = computeLetters env in
     charClass (filter (is_capital env) (lt_plainVowels l @ lt_accentedVowels l @ lt_consonants l)))"

definition NOT_SPACE :: jstr where
  "NOT_SPACE = js ''[^ ]''"

definition NO_ACCENT :: jstr where
  "NO_ACCENT = js ''{unaccented}''"

section \<open>Rule emission\<close>

record emit_opts =
  eo_then :: "json list option"
  eo_stem :: rule_obj
  eo_writtenOnly :: bool

definition no_opts :: emit_opts where
  "no_opts = \<lparr>eo_then = None, eo_stem = [], eo_writtenOnly = False\<rparr>"

definition strings :: "jstr list \<Rightarrow> json" where
  "strings xs = JArr (map JStr xs)"

definition rule_of ::
    "string \<Rightarrow> jstr \<Rightarrow> jstr \<Rightarrow> jstr list \<Rightarrow> jstr list \<Rightarrow> rule_obj \<Rightarrow> json list option \<Rightarrow> rule_obj" where
  "rule_of type i d cin cout extra thn =
     (let r = obj_of ([(js ''type'', JStr (js type)), (js ''inflected'', JStr i), (js ''deinflected'', JStr d),
          (js ''conditionsIn'', strings cin), (js ''conditionsOut'', strings cout)] @ extra)
      in case thn of Some steps \<Rightarrow> obj_put (js ''then'') (JArr steps) r | None \<Rightarrow> r)"

definition twin_of :: "js_env \<Rightarrow> bool \<Rightarrow> jstr \<Rightarrow> jstr" where
  "twin_of env twins t = (if twins then stripAll env t else stripAccents env t)"

type_synonym emit_form = "jstr \<times> jstr \<times> json list option"

definition emit_forms :: "js_env \<Rightarrow> bool \<Rightarrow> jstr \<Rightarrow> jstr \<Rightarrow> emit_opts \<Rightarrow> emit_form list" where
  "emit_forms env twins inflected deinflected opts =
     (let twin = twin_of env twins;
          plainAlready = (twin inflected = toNFC env inflected \<and> twin deinflected = toNFC env deinflected)
      in (toNFC env inflected, toNFC env deinflected, eo_then opts) #
         (if \<not> eo_writtenOnly opts \<and> \<not> plainAlready then [(twin inflected, twin deinflected, None)] else []))"

definition form_key :: "emit_form \<Rightarrow> jstr" where
  "form_key = (\<lambda>(i, d, thn). i @ [0] @ d @ [0] @ js (if thn \<noteq> None then ''1'' else ''0''))"

text \<open>One round of \<open>forms.forEach\<close>: the form at \<open>k\<close>, unless it repeats the first or was seen.\<close>

definition emit_form ::
    "js_env \<Rightarrow> string \<Rightarrow> jstr \<Rightarrow> jstr list \<Rightarrow> jstr list \<Rightarrow> rule_obj \<Rightarrow> emit_form \<Rightarrow> jstr list \<times> gen \<Rightarrow> nat \<times> emit_form \<Rightarrow>
      own_error + jstr list \<times> gen" where
  "emit_form env type i cin cout extra first0 = (\<lambda>(seen, s) (k, form).
     case form of (infl, de, thn) \<Rightarrow>
       if 0 < k \<and> infl = fst first0 \<and> de = fst (snd first0) \<and> snd (snd first0) = None then Inr (seen, s)
       else if form_key form \<in> set seen then Inr (seen, s)
       else bindE (add env i (rule_of type infl de cin cout extra thn) s) (\<lambda>s'. Inr (ls_add (form_key form) seen, s')))"

definition emit ::
    "js_env \<Rightarrow> string \<Rightarrow> jstr \<Rightarrow> jstr \<Rightarrow> jstr \<Rightarrow> jstr list \<Rightarrow> jstr list \<Rightarrow> emit_opts \<Rightarrow> gen_op" where
  "emit env type i inflected deinflected cin cout opts s =
     (let forms = emit_forms env (gen_twins s) inflected deinflected opts in
      bindE (foldE (emit_form env type i cin cout (eo_stem opts) (hd forms)) ([], s) (enum forms)) (\<lambda>(seen, s'). Inr s'))"

definition suffix :: "js_env \<Rightarrow> jstr \<Rightarrow> jstr \<Rightarrow> jstr \<Rightarrow> jstr list \<Rightarrow> jstr list \<Rightarrow> emit_opts \<Rightarrow> gen_op" where
  "suffix env i a b cin cout opts = emit env ''suffix'' i a b cin cout opts"

definition prefix_rule :: "js_env \<Rightarrow> jstr \<Rightarrow> jstr \<Rightarrow> jstr \<Rightarrow> jstr list \<Rightarrow> jstr list \<Rightarrow> emit_opts \<Rightarrow> gen_op" where
  "prefix_rule env i a b cin cout opts = emit env ''prefix'' i a b cin cout opts"

definition whole :: "js_env \<Rightarrow> jstr \<Rightarrow> jstr \<Rightarrow> jstr \<Rightarrow> jstr list \<Rightarrow> jstr list \<Rightarrow> emit_opts \<Rightarrow> gen_op" where
  "whole env i a b cin cout opts = emit env ''wholeWord'' i a b cin cout opts"

section \<open>Accents of endings\<close>

definition with_mark :: "js_env \<Rightarrow> jstr \<Rightarrow> nat \<Rightarrow> int \<Rightarrow> jstr" where
  "with_mark env s n mark = toNFC env (take n s @ [mark] @ drop n s)"

definition accentVariants :: "js_env \<Rightarrow> jstr \<Rightarrow> jstr list" where
  "accentVariants env ending =
     (let s = stripAccents env ending; ns = nuclei env s in
      concat (map (\<lambda>k. let n = ns ! (length ns - 1 - k) in
          with_mark env s (nu_end n) 769 #
          (if k < 2 \<and> nu_length n \<noteq> Short then [with_mark env s (nu_end n) 834] else []))
        [0..<min 3 (length ns)]))"

definition acute :: "js_env \<Rightarrow> jstr \<Rightarrow> jstr" where
  "acute env v = toNFC env (v @ [769])"

text \<open>The length class of the last syllable of an ending; \<open>None\<close> is \<open>'none'\<close>.\<close>

definition ultimaLength :: "js_env \<Rightarrow> jstr \<Rightarrow> vowel_length option \<Rightarrow> vowel_length option" where
  "ultimaLength env ending given = (case given of
       Some l \<Rightarrow> Some l
     | None \<Rightarrow>
         let ns = nuclei env (stripAccents env ending) in
         if ns = [] then None
         else let l = last ns; tail = drop (nu_end l) (stripAccents env ending) in
           if nu_text l \<in> {gk ''ai'', gk ''oi''} \<and> tail = [] then Some Short else Some (nu_length l))"

section \<open>Nominal endings\<close>

record nominal_opts =
  no_cin :: "jstr list"
  no_out :: "jstr list option"
  no_stem :: rule_obj
  no_ultima :: "vowel_length option"
  no_lemmaUltima :: "vowel_length option"

definition plain_nominal :: nominal_opts where
  "plain_nominal = \<lparr>no_cin = [], no_out = None, no_stem = [], no_ultima = None, no_lemmaUltima = None\<rparr>"

definition stem_min :: "int \<Rightarrow> rule_obj \<Rightarrow> rule_obj" where
  "stem_min n extra = obj_of ((js ''stemMinLength'', JNum n) # extra)"

definition nominal :: "js_env \<Rightarrow> jstr \<Rightarrow> jstr \<Rightarrow> jstr \<Rightarrow> jstr list \<Rightarrow> nominal_opts \<Rightarrow> gen_op" where
  "nominal env i ending lemma_form cout opts =
     (let e = stripAccents env ending; l = stripAccents env lemma_form;
          stem = stem_min 2 (no_stem opts); so = no_opts\<lparr>eo_stem := stem\<rparr>;
          ue = ultimaLength env e (no_ultima opts); ul = ultimaLength env l (no_lemmaUltima opts);
          syllablesChange = (length (nuclei env e) \<noteq> length (nuclei env l));
          turned = (\<lambda>steps. suffix env i e l (no_cin opts) cout (so\<lparr>eo_then := Some steps, eo_writtenOnly := True\<rparr>))
      in run_ops
        ([suffix env i e l (no_cin opts) cout so] @
         (if obj_get (JObj stem) (js ''stemCharacters'') = JStr NO_ACCENT then []
          else
            [only_if ((ue \<noteq> Some Short \<or> syllablesChange) \<and> ul \<noteq> Some Long) (turned THEN_ACUTE_TO_CIRC),
             only_if ((ue \<noteq> Some Long \<or> syllablesChange) \<and> ul \<noteq> Some Short) (turned THEN_CIRC_TO_ACUTE)])))"

definition literal :: "js_env \<Rightarrow> jstr \<Rightarrow> jstr \<Rightarrow> jstr \<Rightarrow> jstr list \<Rightarrow> rule_obj \<Rightarrow> bool \<Rightarrow> gen_op" where
  "literal env i ending lemma_form cout stem writtenOnly =
     suffix env i ending lemma_form [] cout (no_opts\<lparr>eo_stem := stem_min 2 stem, eo_writtenOnly := writtenOnly\<rparr>)"

definition firstGenitivePlural :: "js_env \<Rightarrow> jstr \<Rightarrow> bool \<Rightarrow> gen_op" where
  "firstGenitivePlural env lemma_form adjective = run_ops
     [nominal env (js ''gen-pl'') (gk ''wn'') lemma_form ([js ''n''] @ (if adjective then [] else [js ''adj'']))
        (plain_nominal\<lparr>no_stem := [(js ''stemCharacters'', JStr NO_ACCENT)]\<rparr>),
      only_if adjective (nominal env (js ''gen-pl'') (gk ''wn'') lemma_form [js ''adj'', js ''fem''] plain_nominal)]"

definition NA :: "jstr list" where
  "NA = [js ''n'', js ''adj'']"

definition ADJ :: "jstr list" where
  "ADJ = [js ''adj'']"

definition nominalBoth :: "js_env \<Rightarrow> jstr \<Rightarrow> jstr \<Rightarrow> jstr \<Rightarrow> nominal_opts \<Rightarrow> gen_op" where
  "nominalBoth env i ending lemma_form opts =
     nominal env i ending lemma_form (case no_out opts of Some out \<Rightarrow> out | None \<Rightarrow> NA) opts"

section \<open>Verbal endings\<close>

definition PERSONS :: "(jstr \<times> jstr) list" where
  "PERSONS = map (\<lambda>(k, v). (js k, js v))
    [(''1sg'', ''1st singular''), (''2sg'', ''2nd singular''), (''3sg'', ''3rd singular''), (''1pl'', ''1st plural''),
     (''2pl'', ''2nd plural''), (''3pl'', ''3rd plural''), (''2du'', ''2nd dual''), (''3du'', ''3rd dual''),
     (''23du'', ''2nd/3rd dual'')]"

definition verbTransform :: "jstr \<Rightarrow> jstr \<Rightarrow> jstr \<Rightarrow> gen_op" where
  "verbTransform i name description = transform i name description"

definition verbEnding ::
    "js_env \<Rightarrow> jstr \<Rightarrow> jstr \<Rightarrow> jstr \<Rightarrow> jstr list \<Rightarrow> rule_obj \<Rightarrow> vowel_length option \<Rightarrow> gen_op" where
  "verbEnding env i ending lemma_form cout stem ultima =
     (let e = toNFC env ending; so = no_opts\<lparr>eo_stem := stem\<rparr>; l = stripAccents env lemma_form in
      if hasAccent env e then suffix env i e l [] cout so
      else
        let k = length (nuclei env e);
            given = (case ultima of Some u \<Rightarrow> Some u | None \<Rightarrow> ultimaLength env e None);
            ult = (case given of Some Long \<Rightarrow> Long | _ \<Rightarrow> Short);
            reach = (if ult = Long then 1 else 2)
        in if reach < k then
             (case recessive env e (Some ult) of
                None \<Rightarrow> (\<lambda>s. Inl OwnTypeError)
              | Some written \<Rightarrow> suffix env i written l [] cout so)
           else run_ops
             [suffix env i e l [] cout (if k = 1 \<and> ult = Short then so\<lparr>eo_then := Some THEN_CIRC_TO_ACUTE\<rparr> else so),
              only_if (k < reach)
                (suffix env i e l [] cout (so\<lparr>eo_then := Some THEN_STRIP_ACCENTS, eo_writtenOnly := True\<rparr>))])"

definition person_name :: "jstr \<Rightarrow> jstr" where
  "person_name person = (case map_of PERSONS person of Some n \<Rightarrow> n | None \<Rightarrow> person)"

text \<open>One ending set; an ending's options say only the length of its last syllable.\<close>

definition endingSet ::
    "js_env \<Rightarrow> string \<Rightarrow> string \<Rightarrow> (jstr \<times> jstr \<times> vowel_length option) list \<Rightarrow> jstr list \<Rightarrow> string \<Rightarrow> gen_op" where
  "endingSet env prefixId label endings cout voice = each (\<lambda>(ending, person, ultima).
     let i = js prefixId @ [45] @ person in run_ops
       [verbTransform i (js label @ [32] @ person_name person) (js label @ [44, 32] @ person_name person @ [46]),
        each (\<lambda>l. verbEnding env i ending l cout [] ultima)
          (if voice = ''mid'' then [gk ''omai'', gk ''w''] else [gk ''w''])]) endings"

end
