(* ===== verification/Own_Nominal.thy ===== *)
theory Own_Nominal
  imports Own_Rules
begin

text \<open>
  The accent transform and the nominal rules of languages/grc/sources/own-rules.mjs: the tables of endings, written in
  the order the script has them, and the loops that emit a rule for each.
\<close>

section \<open>The accent transform\<close>

definition gks :: "string list \<Rightarrow> jstr list" where
  "gks = map gk"

definition PLAIN_TARGETS :: "jstr list" where
  "PLAIN_TARGETS = gks [''a'', ''e'', ''h'', ''i'', ''o'', ''u'', ''w'']"

definition BREATHING_TARGETS :: "jstr list" where
  "BREATHING_TARGETS = gks [''a)'', ''a('', ''e)'', ''e('', ''h)'', ''h('', ''i)'', ''i('', ''o)'', ''o('', ''u)'', ''u('', ''w)'', ''w('']"

definition SUBSCRIPT_TARGETS :: "jstr list" where
  "SUBSCRIPT_TARGETS = gks [''a|'', ''h|'', ''w|'', ''a)|'', ''h)|'', ''w)|'']"

definition DIAERESIS_TARGETS :: "jstr list" where
  "DIAERESIS_TARGETS = gks [''i+'', ''u+'']"

definition gk_pairs :: "(string \<times> string) list \<Rightarrow> (jstr \<times> jstr) list" where
  "gk_pairs = map (\<lambda>(a, b). (gk a, gk b))"

definition ATHEMATIC_ACCENT :: "(jstr \<times> jstr) list" where
  "ATHEMATIC_ACCENT = gk_pairs
    [(''id'', ''wmi''), (''iq'', ''hmi''), (''i(st'', ''hmi''), (''ist'', ''hmi''), (''i('', ''hmi''),
     (''i'', ''hmi''), (''impl'', ''hmi''), (''impr'', ''hmi''), (''if'', ''hmi''), (''ikn'', ''umi''),
     (''ugn'', ''umi''), (''ign'', ''umi''), (''hgn'', ''umi''), (''o)ll'', ''umi''), (''oll'', ''umi''),
     (''o)mn'', ''umi''), (''omn'', ''umi''), (''o)rn'', ''umi''), (''orn'', ''umi''), (''ann'', ''umi''),
     (''ennu'', ''mi''), (''wnn'', ''umi''), (''enn'', ''umi''), (''e)nn'', ''umi''), (''un'', ''amai''),
     (''ist'', ''amai''), (''a)g'', ''amai''), (''e)r'', ''amai''), (''em'', ''amai''), (''arn'', ''amai''),
     (''idn'', ''amai''), (''aq'', ''hmai''), (''a)r'', ''eimi''), (''ar'', ''eimi''), (''a)p'', ''eimi''),
     (''ap'', ''eimi''), (''e)n'', ''eimi''), (''en'', ''eimi''), (''un'', ''eimi''), (''e)c'', ''eimi''),
     (''ec'', ''eimi''), (''e)p'', ''eimi''), (''ep'', ''eimi''), (''os'', ''eimi''), (''et'', ''eimi''),
     (''at'', ''eimi''), (''a)n'', ''eimi''), (''an'', ''eimi''), (''i)s'', ''eimi''), (''is'', ''eimi''),
     (''u(p'', ''eimi''), (''up'', ''eimi''), (''i'', ''eimi''), (''eri'', ''eimi''), (''ro'', ''eimi'')]"

definition ACUTE :: "js_env \<Rightarrow> (jstr \<times> json) list" where
  "ACUTE env = obj_of (map (\<lambda>v. (v, JStr (acute env v)))
     (PLAIN_TARGETS @ DIAERESIS_TARGETS @ BREATHING_TARGETS @ SUBSCRIPT_TARGETS))"

definition CIRCUMFLEX :: "js_env \<Rightarrow> (jstr \<times> json) list" where
  "CIRCUMFLEX env = obj_of (map (\<lambda>v. (v, JStr (toNFC env (v @ [834]))))
     (gks [''a'', ''h'', ''i'', ''u'', ''w''] @
      gks [''a)'', ''a('', ''h)'', ''h('', ''i)'', ''i('', ''u)'', ''u('', ''w)'', ''w(''] @ SUBSCRIPT_TARGETS))"

text \<open>The mark is the private-use unit 57344 (E000).\<close>

definition onLastVowel ::
    "js_env \<Rightarrow> jstr \<Rightarrow> (jstr \<times> json) list \<Rightarrow> jstr list \<Rightarrow> rule_obj \<Rightarrow> gen_op" where
  "onLastVowel env ending vowel_map conds extra = add env (js ''accent'')
     (obj_of ([(js ''type'', JStr (js ''suffix'')), (js ''inflected'', JStr ending), (js ''deinflected'', JStr [57344]),
        (js ''conditionsIn'', strings conds), (js ''conditionsOut'', strings conds),
        (js ''stemCharacters'', JStr NO_ACCENT)] @ extra @
       [(js ''then'', JArr
         [JObj [(js ''map'', JObj vowel_map), (js ''at'', JStr (js ''last''))],
          JObj [(js ''map'', JObj [([57344], JStr ending)]), (js ''at'', JStr (js ''end''))]])]))"

definition plain_rule :: "string \<Rightarrow> jstr \<Rightarrow> jstr \<Rightarrow> jstr list \<Rightarrow> jstr list \<Rightarrow> rule_obj \<Rightarrow> rule_obj" where
  "plain_rule type i d cin cout extra = rule_of type i d cin cout extra None"

definition accent_stem :: "js_env \<Rightarrow> jstr \<times> jstr \<Rightarrow> gen_op" where
  "accent_stem env = (\<lambda>(stem, ending).
     let ns = nuclei env stem in
     if ns = [] then Inr
     else let accented = with_mark env stem (nu_end (last ns)) 769 in
       add env (js ''accent'') (plain_rule ''suffix'' (toNFC env (stem @ ending)) (toNFC env (accented @ ending))
         [js ''v''] [js ''v''] []))"

definition FINALS :: "jstr list list" where
  "FINALS = map gks
    [[''oj'', ''o/j''], [''on'', ''o/n''], [''hj'', ''h/j'', ''h=j''], [''aj'', ''a/j'', ''a=j''], [''ij'', ''i/j''],
     [''uj'', ''u/j'', ''u=j''], [''euj'', ''eu/j''], [''wn'', ''w/n'', ''w=n''], [''hn'', ''h/n''],
     [''hr'', ''h/r''], [''wr'', ''w/r''], [''ouj'', ''ou=j''], [''wj'', ''w/j'', ''w=j''], [''h'', ''h/'', ''h=''],
     [''a'', ''a/'', ''a=''], [''w'', ''w/''], [''i'', ''i/''], [''u'', ''u/''], [''eij'', ''ei/j''],
     [''oun'', ''ou=n''], [''an'', ''a/n'', ''a=n''], [''ar'', ''a/r''], [''ur'', ''u/r'', ''u=r''],
     [''hc'', ''h/c''], [''ac'', ''a/c''], [''ic'', ''i/c'', ''i=c''], [''uc'', ''u/c'', ''u=c''], [''wc'', ''w/c''],
     [''oc'', ''o/c''], [''igc'', ''i/gc''], [''ugc'', ''u/gc''], [''aic'', ''ai/c''], [''hy'', ''h/y''],
     [''ay'', ''a/y''], [''wy'', ''w/y'', ''w=y''], [''oy'', ''o/y''], [''iy'', ''i/y''], [''uy'', ''u/y''],
     [''auj'', ''au=j''], [''ouj'', ''ou/j''], [''hn'', ''h=n''], [''hr'', ''h=r''], [''our'', ''ou=r''],
     [''wj'', ''w/j'']]"

definition accent_final :: "js_env \<Rightarrow> jstr list \<Rightarrow> gen_op" where
  "accent_final env row = each (\<lambda>accented. add env (js ''accent'') (plain_rule ''suffix'' (toNFC env (hd row))
     (toNFC env accented) NA NA [(js ''stemMinLength'', JNum 1)])) (tl row)"

definition CONSONANTS :: jstr where
  "CONSONANTS = tx ''[{bgdzqklmncprstfxy}]''"

definition NUCLEUS :: jstr where
  "NUCLEUS = tx ''(?:[{aeoh*a*e*o*h}][{iu}]|[{u*u}]{i}|[{aehiouwi+u+a|h|w|}])''"

definition CARRIER :: jstr where
  "CARRIER = tx ''(?:[{aeho*a*e*h*o}](?![{iu}])|[{u*u}](?!{i})|[{iwa)a(e)e(h)h(i)i(o)o(u)u(w)w(a|h|w|i+u+*i*w*a)*a(*e)*e(*h)*h(*i)*i(*o)*o(*u(*w)*w(}])''"

definition LONG_CARRIER :: jstr where
  "LONG_CARRIER = tx ''(?:[{ah}](?![{iu}])|{u}(?!{i})|[{iwa)a(h)h(i)i(u)u(w)w(a|h|w|i+u+}])''"

definition pat :: "js_env \<Rightarrow> jstr \<Rightarrow> jstr \<Rightarrow> jstr \<Rightarrow> gen_op" where
  "pat env anchor tail_regex mark = add env (js ''accent'')
     [(js ''type'', JStr (js ''pattern'')), (js ''pattern'', JStr ([40] @ mark @ js '')('' @ tail_regex @ js '')$'')),
      (js ''replacement'', JStr (js ''$1'' @ [if mark = LONG_CARRIER then 834 else 769] @ js ''$2'')),
      (js ''anchorSuffix'', JStr anchor), (js ''conditionsIn'', strings NA), (js ''conditionsOut'', strings NA),
      (js ''then'', JArr [normalize_step ''NFC''])]"

definition buildAccentTransform :: "js_env \<Rightarrow> gen_op" where
  "buildAccentTransform env = run_ops
    [transform (js ''accent'') (js ''accent'')
        (tx ''Puts back the dictionary form's accent where a rule removed the syllable that carried it ({e)/lusa} {>} {luw} {>} {lu/w}, {luo/menoj} {>} {lu/w}, {qeou=} {>} {qeoj} {>} {qeo/j}): the recessive accent of a verb; the accent of a noun or adjective on its last syllable or, before a short last syllable, further back.''),
     onLastVowel env (gk ''w'') (ACUTE env) [js ''v''] [],
     onLastVowel env (gk ''omai'') (ACUTE env) [js ''v''] [],
     each (accent_stem env) ATHEMATIC_ACCENT,
     each (accent_final env) FINALS,
     each (\<lambda>anchor. pat env anchor (CONSONANTS @ js ''*'' @ NUCLEUS @ CONSONANTS @ js ''*'' @ anchor) CARRIER)
       (gks [''oj'', ''on'', ''ma'', ''ssa'', ''tta'', ''sij'', ''cij'', ''yij'']),
     each (\<lambda>anchor. pat env anchor (CONSONANTS @ js ''*'' @ anchor) CARRIER) (gks [''eia'', ''oia'', ''ura'', ''aina'']),
     each (\<lambda>ending. onLastVowel env ending (ACUTE env) NA [(js ''stemMinLength'', JNum 1)])
       (gks [''a'', ''h'', ''hj'', ''aj'', ''wn'', ''wr'', ''uj'', ''ij'', ''oj'', ''on'']),
     each (\<lambda>ending. onLastVowel env ending (CIRCUMFLEX env) NA [(js ''stemMinLength'', JNum 1)])
       (gks [''a'', ''aj'', ''oj'', ''on''])]"

section \<open>Declension tables\<close>

definition CASES :: "(jstr \<times> jstr \<times> jstr) list" where
  "CASES =
    [(js ''acc-pl'', js ''accusative plural'',
      tx ''Accusative plural: -{ouj}, -{aj}, -{eij}, -{u=j}.''),
     (js ''gen-sg'', js ''genitive singular'',
      tx ''Genitive singular: -{ou}, -{hj}, -{aj}, -{oj}, -{ewj}, -{ouj}; Epic and Ionic -{oio}, -{ao}, -{ew}, -{hoj}.''),
     (js ''dat-sg'', js ''dative singular'',
      tx ''Dative singular: -{w|}, -{h|}, -{a|}, -{i}, -{ei}.''),
     (js ''acc-sg'', js ''accusative singular'',
      tx ''Accusative singular: -{on}, -{hn}, -{an}, -{a}, -{n}, -{h}.''),
     (js ''voc-sg'', js ''vocative singular'',
      tx ''Vocative singular: -{e}, -{a}, -{h}, -{i}, -{u}, -{eu}, the bare stem.''),
     (js ''nom-pl'', js ''nominative plural'',
      tx ''Nominative and vocative plural: -{oi}, -{ai}, -{ej}, -{eij}, -{h}.''),
     (js ''gen-pl'', js ''genitive plural'',
      tx ''Genitive plural: -{wn}; Epic and Ionic -{a/wn}, -{e/wn}.''),
     (js ''dat-pl'', js ''dative plural'',
      tx ''Dative plural: -{oij}, -{aij}, -{si}({n}); Epic and Ionic -{oisi}({n}), -{h|si}({n}), -{essi}({n}).''),
     (js ''na-pl'', js ''nominative/accusative plural'',
      tx ''Nominative, accusative and vocative plural of neuters: -{a}, -{h}.''),
     (js ''nav-du'', js ''nominative/accusative/vocative dual'',
      tx ''Dual: -{w}, -{a}, -{e}, -{h}, -{ei}.''),
     (js ''gd-du'', js ''genitive/dative dual'',
      tx ''Genitive and dative dual: -{oin}, -{ain}, -{oi=n}.''),
     (js ''epic-phi'', tx ''Epic -{fi}'',
      tx ''Epic -{fi}({n}), the instrumental and locative ending of Homer ({bi/hfi}, {qeo/fin}, {o)/resfi}).'')]"

definition caseTransforms :: gen_op where
  "caseTransforms = each (\<lambda>(i, name, description). transform i name description) CASES"

text \<open>A row is an ending and the identifier of its case.\<close>

definition rows_of :: "(string \<times> string) list \<Rightarrow> (jstr \<times> jstr) list" where
  "rows_of = map (\<lambda>(e, c). (gk e, js c))"

definition nominals :: "js_env \<Rightarrow> jstr \<Rightarrow> (jstr \<times> jstr) list \<Rightarrow> gen_op" where
  "nominals env lemma_form = each (\<lambda>(e, c). nominalBoth env c e lemma_form plain_nominal)"

definition literals :: "js_env \<Rightarrow> jstr \<Rightarrow> jstr list \<Rightarrow> (jstr \<Rightarrow> bool) \<Rightarrow> (jstr \<times> jstr) list \<Rightarrow> gen_op" where
  "literals env lemma_form cout writtenOnly = each (\<lambda>(e, c). literal env c e lemma_form cout [] (writtenOnly c))"

definition SECOND :: "(jstr \<times> jstr) list" where
  "SECOND = rows_of
    [(''ou'', ''gen-sg''), (''oio'', ''gen-sg''), (''oo'', ''gen-sg''), (''w|'', ''dat-sg''), (''on'', ''acc-sg''),
     (''e'', ''voc-sg''), (''oi'', ''nom-pl''), (''wn'', ''gen-pl''), (''oij'', ''dat-pl''), (''oisi'', ''dat-pl''),
     (''oisin'', ''dat-pl''), (''ouj'', ''acc-pl''), (''w'', ''nav-du''), (''oin'', ''gd-du''),
     (''ofi'', ''epic-phi''), (''ofin'', ''epic-phi'')]"

definition SECOND_NEUTER :: "(jstr \<times> jstr) list" where
  "SECOND_NEUTER = rows_of
    [(''ou'', ''gen-sg''), (''oio'', ''gen-sg''), (''w|'', ''dat-sg''), (''a'', ''na-pl''), (''wn'', ''gen-pl''),
     (''oij'', ''dat-pl''), (''oisi'', ''dat-pl''), (''oisin'', ''dat-pl''), (''w'', ''nav-du''),
     (''oin'', ''gd-du'')]"

definition second_neuter :: "js_env \<Rightarrow> jstr \<times> jstr \<Rightarrow> gen_op" where
  "second_neuter env = (\<lambda>(e, c).
     let plural = (c = js ''na-pl'') in
     nominalBoth env c e (gk ''on'') (plain_nominal\<lparr>
       no_ultima := (if e = gk ''a'' then Some Short else None),
       no_out := Some (if plural then [js ''n'', js ''adj'', js ''neu''] else NA),
       no_stem := (if plural then [(js ''stemNotStartsWithText'', JStr (gk ''ou)=s''))] else [])\<rparr>))"

definition secondDeclension :: "js_env \<Rightarrow> gen_op" where
  "secondDeclension env = run_ops
    [nominals env (gk ''oj'') SECOND,
     each (second_neuter env) SECOND_NEUTER,
     literals env (gk ''o/j'') NA (\<lambda>c. False) (rows_of
       [(''ou='', ''gen-sg''), (''w=|'', ''dat-sg''), (''o/n'', ''acc-sg''), (''e/'', ''voc-sg''), (''oi/'', ''nom-pl''),
        (''w=n'', ''gen-pl''), (''oi=j'', ''dat-pl''), (''oi=si'', ''dat-pl''), (''oi=sin'', ''dat-pl''),
        (''ou/j'', ''acc-pl''), (''w/'', ''nav-du''), (''oi=n'', ''gd-du''), (''oi=o'', ''gen-sg'')]),
     literals env (gk ''o/n'') NA (\<lambda>c. c = js ''na-pl'') (rows_of
       [(''ou='', ''gen-sg''), (''w=|'', ''dat-sg''), (''a/'', ''na-pl''), (''w=n'', ''gen-pl''), (''oi=j'', ''dat-pl''),
        (''w/'', ''nav-du''), (''oi=n'', ''gd-du'')]),
     nominals env (gk ''wj'') (rows_of
       [(''w'', ''gen-sg''), (''w|'', ''dat-sg''), (''wn'', ''acc-sg''), (''w|'', ''nom-pl''), (''wn'', ''gen-pl''),
        (''w|j'', ''dat-pl''), (''wj'', ''acc-pl'')]),
     literals env (gk ''ou=j'') NA (\<lambda>c. False) (rows_of
       [(''ou='', ''gen-sg''), (''w=|'', ''dat-sg''), (''ou=n'', ''acc-sg''), (''oi='', ''nom-pl''),
        (''w=n'', ''gen-pl''), (''oi=j'', ''dat-pl''), (''ou=j'', ''acc-pl'')]),
     literals env (gk ''ou=n'') NA (\<lambda>c. False) (rows_of
       [(''ou='', ''gen-sg''), (''w=|'', ''dat-sg''), (''a='', ''na-pl''), (''w=n'', ''gen-pl''), (''oi=j'', ''dat-pl'')])]"

section \<open>First declension\<close>

definition FIRST_FEMININE :: "(jstr \<times> jstr) list" where
  "FIRST_FEMININE = rows_of
    [(''hj'', ''gen-sg''), (''h|'', ''dat-sg''), (''hn'', ''acc-sg''), (''ai'', ''nom-pl''), (''wn'', ''gen-pl''),
     (''aij'', ''dat-pl''), (''aj'', ''acc-pl''), (''a'', ''nav-du''), (''ain'', ''gd-du''), (''h|si'', ''dat-pl''),
     (''h|sin'', ''dat-pl''), (''h|j'', ''dat-pl''), (''aisi'', ''dat-pl''), (''aisin'', ''dat-pl''),
     (''ewn'', ''gen-pl''), (''awn'', ''gen-pl''), (''hfi'', ''epic-phi''), (''hfin'', ''epic-phi'')]"

definition NAF :: "jstr list" where
  "NAF = [js ''n'', js ''adj'', js ''fem'']"

text \<open>A declension's rows, its genitive plural by \<open>firstGenitivePlural\<close>; \<open>alpha\<close> is the length of the ending -a.\<close>

definition first_rows ::
    "js_env \<Rightarrow> jstr \<Rightarrow> bool \<Rightarrow> vowel_length option \<Rightarrow> jstr list option \<Rightarrow> (jstr \<times> jstr) list \<Rightarrow> gen_op" where
  "first_rows env lemma_form adjective alpha out = each (\<lambda>(e, c).
     if e = gk ''wn'' then firstGenitivePlural env lemma_form adjective
     else nominalBoth env c e lemma_form
       (plain_nominal\<lparr>no_ultima := (if e = gk ''a'' then alpha else None), no_out := out\<rparr>))"

definition FIRST_ALPHA :: "(jstr \<times> jstr) list" where
  "FIRST_ALPHA = rows_of
    [(''aj'', ''gen-sg''), (''hj'', ''gen-sg''), (''a|'', ''dat-sg''), (''h|'', ''dat-sg''), (''an'', ''acc-sg''),
     (''hn'', ''acc-sg''), (''ai'', ''nom-pl''), (''wn'', ''gen-pl''), (''aij'', ''dat-pl''), (''aj'', ''acc-pl''),
     (''ain'', ''gd-du''), (''h|si'', ''dat-pl''), (''h|sin'', ''dat-pl''), (''aisi'', ''dat-pl''),
     (''aisin'', ''dat-pl''), (''ewn'', ''gen-pl''), (''awn'', ''gen-pl'')]"

definition FIRST_MASCULINE :: "(jstr \<times> jstr) list" where
  "FIRST_MASCULINE = rows_of
    [(''ou'', ''gen-sg''), (''ew'', ''gen-sg''), (''ao'', ''gen-sg''), (''h|'', ''dat-sg''), (''hn'', ''acc-sg''),
     (''ea'', ''acc-sg''), (''a'', ''voc-sg''), (''h'', ''voc-sg''), (''ai'', ''nom-pl''), (''wn'', ''gen-pl''),
     (''aij'', ''dat-pl''), (''aj'', ''acc-pl''), (''h|si'', ''dat-pl''), (''h|sin'', ''dat-pl''),
     (''ewn'', ''gen-pl''), (''awn'', ''gen-pl''), (''ain'', ''gd-du''), (''a'', ''nav-du'')]"

definition FIRST_MASCULINE_ALPHA :: "(jstr \<times> jstr) list" where
  "FIRST_MASCULINE_ALPHA = rows_of
    [(''ou'', ''gen-sg''), (''a'', ''gen-sg''), (''a|'', ''dat-sg''), (''an'', ''acc-sg''), (''a'', ''voc-sg''),
     (''ai'', ''nom-pl''), (''wn'', ''gen-pl''), (''aij'', ''dat-pl''), (''aj'', ''acc-pl''), (''ew'', ''gen-sg''),
     (''ao'', ''gen-sg''), (''ain'', ''gd-du'')]"

definition firstDeclension :: "js_env \<Rightarrow> gen_op" where
  "firstDeclension env = run_ops
    [first_rows env (gk ''h'') True (Some Long) (Some NAF) FIRST_FEMININE,
     first_rows env (gk ''a'') True None (Some NAF) FIRST_ALPHA,
     each (\<lambda>e. nominalBoth env (js ''epic-phi'') e (gk ''a'') plain_nominal) (gks [''hfi'', ''hfin'']),
     transform (js ''ionic-eta'') (tx ''Ionic {h}'')
        (tx ''Ionic {h} where Attic has {a&} ({xw/rh}, {h(me/rh} {>} {xw/ra}, {h(me/ra}).''),
     nominalBoth env (js ''ionic-eta'') (gk ''h'') (gk ''a'') plain_nominal,
     transform (js ''doric-alpha'') (tx ''Doric {a&}'')
        (tx ''Doric and Aeolic {a&} where Attic has {h}, in Pindar and the lyrics of tragedy ({di/ka}, {a)/tan}, {yuxa=j} {>} {di/kh}, {a)/th}, {yuxh/}). Optional: the doricAlpha setting turns it on.''),
     set_optional (js ''doric-alpha''),
     each (\<lambda>(e, l). nominalBoth env (js ''doric-alpha'') e l plain_nominal) (gk_pairs
       [(''a'', ''h''), (''aj'', ''h''), (''a|'', ''h''), (''an'', ''h''), (''aj'', ''hj''), (''a'', ''hj''),
        (''an'', ''hj''), (''a|'', ''hj''), (''a=n'', ''h''), (''a=n'', ''hj''), (''a=n'', ''aj'')]),
     first_rows env (gk ''hj'') False (Some Short) None FIRST_MASCULINE,
     first_rows env (gk ''aj'') False None None FIRST_MASCULINE_ALPHA,
     literals env (gk ''h/'') NAF (\<lambda>c. c = js ''gen-pl'') (rows_of
       [(''h=j'', ''gen-sg''), (''h=|'', ''dat-sg''), (''h/n'', ''acc-sg''), (''ai/'', ''nom-pl''),
        (''w=n'', ''gen-pl''), (''ai=j'', ''dat-pl''), (''a/j'', ''acc-pl''), (''a/'', ''nav-du''),
        (''ai=n'', ''gd-du'')]),
     literals env (gk ''a/'') NAF (\<lambda>c. c = js ''gen-pl'') (rows_of
       [(''a=j'', ''gen-sg''), (''a=|'', ''dat-sg''), (''a/n'', ''acc-sg''), (''ai/'', ''nom-pl''),
        (''w=n'', ''gen-pl''), (''ai=j'', ''dat-pl''), (''a/j'', ''acc-pl'')]),
     literals env (gk ''h/j'') NA (\<lambda>c. c = js ''gen-pl'') (rows_of
       [(''ou='', ''gen-sg''), (''h=|'', ''dat-sg''), (''h/n'', ''acc-sg''), (''a/'', ''voc-sg''), (''ai/'', ''nom-pl''),
        (''w=n'', ''gen-pl''), (''ai=j'', ''dat-pl''), (''a/j'', ''acc-pl'')])]"

section \<open>Third declension\<close>

definition gk_triples :: "(string \<times> string \<times> string) list \<Rightarrow> (jstr \<times> jstr \<times> jstr) list" where
  "gk_triples = map (\<lambda>(a, b, c). (gk a, gk b, gk c))"

definition THIRD :: "(jstr \<times> jstr \<times> jstr) list" where
  "THIRD = gk_triples
    [(''k'', ''c'', ''ci''), (''g'', ''c'', ''ci''), (''x'', ''c'', ''ci''), (''kt'', ''c'', ''ci''),
     (''gg'', ''gc'', ''gci''), (''p'', ''y'', ''yi''), (''b'', ''y'', ''yi''), (''f'', ''y'', ''yi''),
     (''mp'', ''my'', ''myi''), (''id'', ''ij'', ''isi''), (''it'', ''ij'', ''isi''), (''iq'', ''ij'', ''isi''),
     (''ad'', ''aj'', ''asi''), (''ud'', ''uj'', ''usi''), (''ht'', ''hj'', ''hsi''), (''wt'', ''wj'', ''wsi''),
     (''ot'', ''wj'', ''osi''), (''uq'', ''uj'', ''usi''), (''od'', ''ouj'', ''osi''), (''ont'', ''wn'', ''ousi''),
     (''ont'', ''ouj'', ''ousi''), (''ant'', ''aj'', ''asi''), (''ent'', ''eij'', ''esi''), (''on'', ''wn'', ''osi''),
     (''wn'', ''wn'', ''wsi''), (''wnt'', ''wn'', ''wsi''), (''an'', ''an'', ''asi''), (''an'', ''aj'', ''asi''),
     (''en'', ''hn'', ''esi''), (''hn'', ''hn'', ''hsi''), (''in'', ''ij'', ''isi''), (''in'', ''in'', ''isi''),
     (''un'', ''uj'', ''usi''), (''or'', ''wr'', ''orsi''), (''wr'', ''wr'', ''wrsi''), (''hr'', ''hr'', ''hrsi''),
     (''er'', ''hr'', ''ersi''), (''ur'', ''uj'', ''usi''), (''r'', ''r'', ''rsi''), (''tr'', ''thr'', ''trasi''),
     (''ndr'', ''nhr'', ''ndrasi'')]"

definition THIRD_NEUTER :: "(jstr \<times> jstr \<times> jstr) list" where
  "THIRD_NEUTER = gk_triples
    [(''mat'', ''ma'', ''masi''), (''at'', ''aj'', ''asi''), (''at'', ''ar'', ''asi''), (''at'', ''wr'', ''asi''),
     (''at'', ''u'', ''asi''), (''akt'', ''a'', ''aci''), (''wt'', ''wj'', ''wsi''), (''at'', ''a'', ''asi'')]"

definition thirdForms :: "jstr \<Rightarrow> jstr \<Rightarrow> bool \<Rightarrow> (jstr \<times> jstr) list" where
  "thirdForms stem datpl neuter =
     map (\<lambda>(e, c). (stem @ gk e, js c))
       [(''oj'', ''gen-sg''), (''i'', ''dat-sg''), (''wn'', ''gen-pl''), (''e'', ''nav-du''), (''oin'', ''gd-du'')] @
     [(datpl, js ''dat-pl''), (datpl @ gk ''n'', js ''dat-pl'')] @
     map (\<lambda>(e, c). (stem @ gk e, js c))
       ([(''essi'', ''dat-pl''), (''essin'', ''dat-pl''), (''esi'', ''dat-pl''), (''esin'', ''dat-pl'')] @
        (if neuter then [(''a'', ''na-pl'')] else [(''a'', ''acc-sg''), (''ej'', ''nom-pl''), (''aj'', ''acc-pl'')]))"

definition third_stem :: "js_env \<Rightarrow> bool \<Rightarrow> jstr \<times> jstr \<times> jstr \<Rightarrow> gen_op" where
  "third_stem env neuter = (\<lambda>(stem, nom, datpl).
     each (\<lambda>(e, c). nominalBoth env c e nom (plain_nominal\<lparr>no_stem := [(js ''stemMinLength'', JNum 1)]\<rparr>))
       (thirdForms stem datpl neuter))"

definition thirdDeclension :: "js_env \<Rightarrow> gen_op" where
  "thirdDeclension env = run_ops
    [each (third_stem env False) THIRD,
     each (third_stem env True) THIRD_NEUTER,
     each (\<lambda>(e, l). nominalBoth env (js ''acc-sg'') e l plain_nominal) (gk_pairs [(''in'', ''ij''), (''un'', ''uj''), (''oun'', ''ouj'')]),
     each (\<lambda>(e, l). nominalBoth env (js ''voc-sg'') e l plain_nominal) (gk_pairs
       [(''on'', ''wn''), (''or'', ''wr''), (''er'', ''hr''), (''i'', ''ij''), (''u'', ''uj''), (''eu'', ''euj''),
        (''ej'', ''hj''), (''ou'', ''ouj''), (''oi'', ''w''), (''an'', ''aj''), (''on'', ''ouj'')]),
     each (\<lambda>(e, c). nominal env c e (gk ''wn'') ADJ plain_nominal) (rows_of
       [(''w'', ''acc-sg''), (''ouj'', ''nom-pl''), (''ouj'', ''acc-pl''), (''w'', ''na-pl'')])]"

section \<open>Sigma, iota, upsilon and eu stems\<close>

definition SIGMA_NEUTER :: "(jstr \<times> jstr) list" where
  "SIGMA_NEUTER = rows_of
    [(''ouj'', ''gen-sg''), (''eoj'', ''gen-sg''), (''euj'', ''gen-sg''), (''ei'', ''dat-sg''), (''ei+'', ''dat-sg''),
     (''h'', ''na-pl''), (''ea'', ''na-pl''), (''ewn'', ''gen-pl''), (''esi'', ''dat-pl''), (''esin'', ''dat-pl''),
     (''essi'', ''dat-pl''), (''essin'', ''dat-pl''), (''ei'', ''nav-du''), (''oin'', ''gd-du''),
     (''eoin'', ''gd-du''), (''esfi'', ''epic-phi''), (''esfin'', ''epic-phi'')]"

definition SIGMA_MASCULINE :: "(jstr \<times> jstr) list" where
  "SIGMA_MASCULINE = rows_of
    [(''ouj'', ''gen-sg''), (''eoj'', ''gen-sg''), (''euj'', ''gen-sg''), (''ei'', ''dat-sg''), (''ei+'', ''dat-sg''),
     (''hn'', ''acc-sg''), (''ea'', ''acc-sg''), (''ej'', ''voc-sg''), (''eij'', ''nom-pl''), (''eej'', ''nom-pl''),
     (''wn'', ''gen-pl''), (''ewn'', ''gen-pl''), (''esi'', ''dat-pl''), (''esin'', ''dat-pl''),
     (''essi'', ''dat-pl''), (''essin'', ''dat-pl''), (''eij'', ''acc-pl''), (''eaj'', ''acc-pl''),
     (''h'', ''na-pl''), (''ea'', ''na-pl''), (''ei'', ''nav-du''), (''oin'', ''gd-du'')]"

definition sigmaStems :: "js_env \<Rightarrow> gen_op" where
  "sigmaStems env = run_ops
    [nominals env (gk ''oj'') SIGMA_NEUTER,
     suffix env (js ''gen-pl'') (gk ''w=n'') (gk ''oj'') [] NA
       \<lparr>eo_then = Some THEN_STRIP_ACCENTS, eo_stem = stem_min 2 [], eo_writtenOnly = True\<rparr>,
     each (\<lambda>(e, c). nominalBoth env c e (gk ''hj'') (plain_nominal\<lparr>no_out :=
         Some (if c = js ''na-pl'' then [js ''n'', js ''adj'', js ''neu''] else NA)\<rparr>)) SIGMA_MASCULINE,
     literals env (gk ''h/j'') NA (\<lambda>c. False) (rows_of
       [(''ou=j'', ''gen-sg''), (''ei='', ''dat-sg''), (''ei=j'', ''nom-pl''), (''w=n'', ''gen-pl''),
        (''e/si'', ''dat-pl''), (''e/sin'', ''dat-pl''), (''ei=j'', ''acc-pl''), (''e/j'', ''voc-sg'')]),
     each (\<lambda>c. suffix env c (gk ''h='') (gk ''h/j'') [] NA
         \<lparr>eo_then = None, eo_stem = stem_min 2 [], eo_writtenOnly = True\<rparr>) [js ''acc-sg'', js ''na-pl''],
     literals env (gk ''h=j'') NA (\<lambda>c. False) (rows_of
       [(''e/ouj'', ''gen-sg''), (''ei='', ''dat-sg''), (''e/a'', ''acc-sg''), (''eij'', ''voc-sg''),
        (''h=oj'', ''gen-sg''), (''h=i'', ''dat-sg''), (''h=a'', ''acc-sg'')]),
     each (\<lambda>(e, c). run_ops [literal env c e (gk ''w/j'') NA [] False, literal env c e (gk ''w/'') NA [] False]) (rows_of
       [(''ou=j'', ''gen-sg''), (''oi='', ''dat-sg''), (''w='', ''acc-sg''), (''o/oj'', ''gen-sg'')])]"

definition IOTA :: "(jstr \<times> jstr) list" where
  "IOTA = rows_of
    [(''ewj'', ''gen-sg''), (''ioj'', ''gen-sg''), (''hoj'', ''gen-sg''), (''eoj'', ''gen-sg''), (''ei'', ''dat-sg''),
     (''i'', ''dat-sg''), (''hi'', ''dat-sg''), (''in'', ''acc-sg''), (''ha'', ''acc-sg''), (''i'', ''voc-sg''),
     (''eij'', ''nom-pl''), (''iej'', ''nom-pl''), (''hej'', ''nom-pl''), (''ewn'', ''gen-pl''),
     (''iwn'', ''gen-pl''), (''esi'', ''dat-pl''), (''esin'', ''dat-pl''), (''isi'', ''dat-pl''),
     (''isin'', ''dat-pl''), (''eij'', ''acc-pl''), (''iaj'', ''acc-pl''), (''haj'', ''acc-pl''),
     (''ei'', ''nav-du''), (''eoin'', ''gd-du''), (''ei+'', ''dat-sg''), (''hi+'', ''dat-sg''), (''eej'', ''nom-pl''),
     (''ee'', ''nav-du''), (''ioj'', ''gen-sg'')]"

definition UPSILON :: "(jstr \<times> jstr) list" where
  "UPSILON = rows_of
    [(''ewj'', ''gen-sg''), (''uoj'', ''gen-sg''), (''eoj'', ''gen-sg''), (''ei'', ''dat-sg''), (''ui'', ''dat-sg''),
     (''un'', ''acc-sg''), (''eij'', ''nom-pl''), (''uej'', ''nom-pl''), (''eej'', ''nom-pl''), (''eaj'', ''acc-pl''),
     (''ewn'', ''gen-pl''), (''uwn'', ''gen-pl''), (''esi'', ''dat-pl''), (''esin'', ''dat-pl''),
     (''usi'', ''dat-pl''), (''usin'', ''dat-pl''), (''eij'', ''acc-pl''), (''uaj'', ''acc-pl''),
     (''uj'', ''acc-pl''), (''ei'', ''nav-du'')]"

definition EU :: "(jstr \<times> jstr) list" where
  "EU = rows_of
    [(''e/wj'', ''gen-sg''), (''h=oj'', ''gen-sg''), (''e/oj'', ''gen-sg''), (''ei='', ''dat-sg''),
     (''h=i'', ''dat-sg''), (''h=i+'', ''dat-sg''), (''e/i+'', ''dat-sg''), (''e/a'', ''acc-sg''),
     (''h=a'', ''acc-sg''), (''eu='', ''voc-sg''), (''h=j'', ''nom-pl''), (''ei=j'', ''nom-pl''),
     (''h=ej'', ''nom-pl''), (''e/ej'', ''nom-pl''), (''e/wn'', ''gen-pl''), (''h/wn'', ''gen-pl''),
     (''eu=si'', ''dat-pl''), (''eu=sin'', ''dat-pl''), (''h/essi'', ''dat-pl''), (''h/essin'', ''dat-pl''),
     (''e/aj'', ''acc-pl''), (''ei=j'', ''acc-pl''), (''h=aj'', ''acc-pl''), (''h='', ''nav-du'')]"

definition vowelStems :: "js_env \<Rightarrow> gen_op" where
  "vowelStems env = run_ops
    [nominals env (gk ''ij'') IOTA,
     nominals env (gk ''uj'') UPSILON,
     nominals env (gk ''u'') (rows_of
       [(''ewj'', ''gen-sg''), (''eoj'', ''gen-sg''), (''ei'', ''dat-sg''), (''h'', ''na-pl''), (''ea'', ''na-pl''),
        (''ewn'', ''gen-pl''), (''esi'', ''dat-pl''), (''esin'', ''dat-pl'')]),
     literals env (gk ''eu/j'') NA (\<lambda>c. False) EU,
     nominals env (gk ''wj'') (rows_of
       [(''woj'', ''gen-sg''), (''wi'', ''dat-sg''), (''wa'', ''acc-sg''), (''wej'', ''nom-pl''), (''wwn'', ''gen-pl''),
        (''wsi'', ''dat-pl''), (''wsin'', ''dat-pl''), (''waj'', ''acc-pl'')])]"

section \<open>Adjectives\<close>

definition FEMININE :: "(jstr \<times> jstr) list" where
  "FEMININE = gk_pairs
    [(''h'', ''oj''), (''a'', ''oj''), (''eia'', ''uj''), (''essa'', ''eij''), (''asa'', ''aj''), (''aina'', ''aj''),
     (''ousa'', ''wn''), (''ousa'', ''ouj''), (''uia'', ''wj''), (''ij'', ''hj''), (''aina'', ''wn''),
     (''eira'', ''hr''), (''eira'', ''wn''), (''tria'', ''thr''), (''tria'', ''twr''), (''tij'', ''thj''),
     (''issa'', ''ic''), (''ea'', ''uj''), (''eh'', ''uj'')]"

definition NEUTER :: "(jstr \<times> jstr) list" where
  "NEUTER = gk_pairs
    [(''on'', ''oj''), (''ej'', ''hj''), (''u'', ''uj''), (''en'', ''eij''), (''an'', ''aj''), (''on'', ''wn''),
     (''o'', ''oj''), (''an'', ''ainoj''), (''oun'', ''ouj'')]"

definition genders :: "js_env \<Rightarrow> gen_op" where
  "genders env = run_ops
    [transform (js ''feminine'') (js ''feminine'')
        (tx ''Feminine of an adjective, pronoun or participle: -{h}, -{a}, -{eia}, -{essa}, -{asa}, -{ousa} {>} masculine -{oj}, -{uj}, -{eij}, -{aj}, -{wn}.''),
     transform (js ''neuter'') (js ''neuter'')
        (tx ''Neuter of an adjective or pronoun: -{on}, -{ej}, -{u}, -{en}, -{an}, -{o} {>} masculine -{oj}, -{hj}, -{uj}, -{eij}, -{aj}, -{wn}.''),
     each (\<lambda>(e, l). nominal env (js ''feminine'') e l ADJ (plain_nominal\<lparr>no_cin := [js ''fem'']\<rparr>)) FEMININE,
     each (\<lambda>(e, l). suffix env (js ''feminine'') e l [js ''fem''] ADJ no_opts) (gk_pairs
       [(''h/'', ''o/j''), (''a/'', ''o/j''), (''ei=a'', ''u/j''), (''h='', ''ou=j''), (''a='', ''ou=j'')]),
     each (\<lambda>(e, l). nominal env (js ''neuter'') e l ADJ (plain_nominal\<lparr>no_cin := [js ''neu'']\<rparr>)) NEUTER,
     each (\<lambda>(e, l). suffix env (js ''neuter'') e l [js ''neu''] ADJ no_opts) (gk_pairs
       [(''o/n'', ''o/j''), (''e/j'', ''h/j''), (''u/'', ''u/j''), (''ou=n'', ''ou=j'')])]"

definition COMPARATIVES :: "(jstr \<times> jstr) list" where
  "COMPARATIVES = gk_pairs
    [(''oteroj'', ''oj''), (''wteroj'', ''oj''), (''esteroj'', ''hj''), (''esteroj'', ''wn''),
     (''onesteroj'', ''wn''), (''uteroj'', ''uj''), (''aiteroj'', ''aioj''), (''isteroj'', ''ij''),
     (''esteroj'', ''ouj''), (''ousteroj'', ''ouj''), (''anteroj'', ''aj''), (''enteroj'', ''eij''),
     (''iwn'', ''uj''), (''iwn'', ''oj''), (''iwn'', ''hj''), (''esteroj'', ''oj'')]"

definition replace_first :: "jstr \<Rightarrow> jstr \<Rightarrow> jstr \<Rightarrow> jstr" where
  "replace_first old new s = (case index_of s old 0 of
       Some p \<Rightarrow> take p s @ new @ drop (p + length old) s
     | None \<Rightarrow> s)"

definition superlative_of :: "jstr \<Rightarrow> jstr" where
  "superlative_of e = (if e = gk ''iwn'' then gk ''istoj'' else replace_first (gk ''teroj'') (gk ''tatoj'') e)"

definition comparison :: "js_env \<Rightarrow> gen_op" where
  "comparison env = (let strip = no_opts\<lparr>eo_then := Some THEN_STRIP_ACCENTS\<rparr>; written = no_opts\<lparr>eo_writtenOnly := True\<rparr> in run_ops
    [transform (js ''comparative'') (js ''comparative'')
        (tx ''Comparative of an adjective: -{o/teroj}, -{w/teroj}, -{e/steroj}, -{i/wn} {>} positive.''),
     transform (js ''superlative'') (js ''superlative'')
        (tx ''Superlative of an adjective: -{o/tatoj}, -{w/tatoj}, -{e/statoj}, -{istoj} {>} positive.''),
     each (\<lambda>(e, l). suffix env (js ''comparative'') e l ADJ ADJ strip) COMPARATIVES,
     each (\<lambda>v. run_ops
       [suffix env (js ''comparative'') (v @ gk ''esteroj'') (acute env v @ gk ''eij'') ADJ ADJ written,
        suffix env (js ''superlative'') (v @ gk ''estatoj'') (acute env v @ gk ''eij'') ADJ ADJ written])
       (gks [''i'', ''h'', ''o'']),
     each (\<lambda>(e, l). suffix env (js ''superlative'') (superlative_of e) l ADJ ADJ strip) COMPARATIVES])"

definition plural_lemmas :: "js_env \<Rightarrow> gen_op" where
  "plural_lemmas env = run_ops
    [transform (js ''plural-lemma'') (js ''plural'')
        (tx ''A form of a word listed in the plural ({xi/lioi}, {triako/sioi}, {mu/rioi}): -{wn}, -{oij}, -{ouj}, -{ai}, -{aj}, -{a} {>} -{oi}.''),
     each (\<lambda>(stem, lemmaStem). each (\<lambda>e. suffix env (js ''plural-lemma'') (stem @ e) (lemmaStem @ gk ''oi'') []
         [js ''adj'', js ''n''] (no_opts\<lparr>eo_writtenOnly := True\<rparr>))
       (gks [''wn'', ''oij'', ''ouj'', ''ai'', ''aj'', ''a'', ''aij'', ''oisi'', ''oisin'', ''h|si'']))
       (gk_pairs [(''xili'', ''xi/li''), (''muri'', ''mu/ri''), (''kosi'', ''ko/si'')])]"

definition adverbs :: "js_env \<Rightarrow> gen_op" where
  "adverbs env = run_ops
    [transform (js ''adverb'') (js ''adverb'')
        (tx ''Adverb of manner in -{wj} made from an adjective ({sofw=j}, {dikai/wj}, {a)lhqw=j}, {taxe/wj}); comparative adverb in -{teron}, superlative in -{tata}.''),
     each (\<lambda>(e, l). nominal env (js ''adverb'') e l ADJ plain_nominal) (gk_pairs
       [(''wj'', ''oj''), (''wj'', ''hj''), (''onwj'', ''wn''), (''ewj'', ''uj''), (''ontwj'', ''wn''),
        (''antwj'', ''aj''), (''entwj'', ''eij''), (''ountwj'', ''wn'')]),
     each (\<lambda>(e, l). literal env (js ''adverb'') e l ADJ [] False) (gk_pairs [(''w=j'', ''o/j''), (''w=j'', ''h/j''), (''e/wj'', ''u/j'')]),
     each (\<lambda>(e, l). suffix env (js ''adverb'') e l [] ADJ (no_opts\<lparr>eo_then := Some THEN_STRIP_ACCENTS\<rparr>)) (gk_pairs
       [(''oteron'', ''oj''), (''wteron'', ''oj''), (''otata'', ''oj''), (''wtata'', ''oj''), (''esteron'', ''hj''),
        (''estata'', ''hj''), (''ion'', ''uj''), (''ista'', ''uj''), (''ion'', ''oj''), (''ista'', ''oj'')])]"

definition buildNominal :: "js_env \<Rightarrow> gen_op" where
  "buildNominal env = run_ops
    [caseTransforms, set_optional (js ''nav-du''), secondDeclension env, firstDeclension env, thirdDeclension env,
     sigmaStems env, vowelStems env, genders env, comparison env, plural_lemmas env, adverbs env]"

end
