(* ===== verification/Own_Verbs.thy ===== *)
theory Own_Verbs
  imports Own_Nominal
begin

text \<open>
  The verbal endings of languages/grc/sources/own-rules.mjs: the thematic endings, the participles, the endings of the
  tense stems and the contract verbs, with their tables in the order of the script.
\<close>

definition OUT_PRIM :: "jstr list" where "OUT_PRIM = [js ''v'', js ''fut'']"
definition OUT_SUBJ :: "jstr list" where "OUT_SUBJ = [js ''v'', js ''aor'', js ''aor2'', js ''pf'']"
definition OUT_OPT :: "jstr list" where "OUT_OPT = [js ''v'', js ''fut'', js ''aor2'', js ''pf'']"
definition OUT_IMP :: "jstr list" where "OUT_IMP = [js ''v'', js ''aor2'']"
definition OUT_INF :: "jstr list" where "OUT_INF = [js ''v'', js ''fut'']"
definition OUT_PTC :: "jstr list" where "OUT_PTC = [js ''v'', js ''fut'', js ''aor2'']"
definition OUT_SEC :: "jstr list" where "OUT_SEC = [js ''aug'', js ''aor2a'']"

definition ending_rows ::
    "(string \<times> string \<times> vowel_length option) list \<Rightarrow> (jstr \<times> jstr \<times> vowel_length option) list" where
  "ending_rows = map (\<lambda>(e, p, u). (gk e, js p, u))"

text \<open>\<open>for (const lemma of ['omai', 'w']) verbEnding(id, ending, lemma, out, \<dots>)\<close>\<close>

definition middle_lemmas :: "jstr list" where
  "middle_lemmas = gks [''omai'', ''w'']"

definition both_verbs :: "js_env \<Rightarrow> string \<Rightarrow> jstr \<Rightarrow> jstr \<Rightarrow> jstr list \<Rightarrow> vowel_length option \<Rightarrow> gen_op" where
  "both_verbs env i ending start_of cout ultima =
     each (\<lambda>l. verbEnding env (js i) ending (start_of @ l) cout [] ultima) middle_lemmas"

section \<open>Thematic endings\<close>

definition thematic_active :: "js_env \<Rightarrow> gen_op" where
  "thematic_active env = run_ops
    [endingSet env ''ind-act'' ''indicative active'' (ending_rows
       [(''eij'', ''2sg'', None), (''ei'', ''3sg'', Some Long), (''omen'', ''1pl'', None), (''ete'', ''2pl'', None),
        (''ousi'', ''3pl'', None), (''ousin'', ''3pl'', None), (''eton'', ''23du'', None), (''onti'', ''3pl'', None),
        (''eisqa'', ''2sg'', None)])
       OUT_PRIM ''act'',
     endingSet env ''ind-act'' ''indicative active'' (ending_rows
       [(''on'', ''1sg'', None), (''ej'', ''2sg'', None), (''e'', ''3sg'', None), (''en'', ''3sg'', None),
        (''omen'', ''1pl'', None), (''ete'', ''2pl'', None), (''on'', ''3pl'', None), (''eton'', ''2du'', None),
        (''ethn'', ''3du'', None), (''osan'', ''3pl'', None), (''eskon'', ''1sg'', None), (''eske'', ''3sg'', None),
        (''esken'', ''3sg'', None)])
       OUT_SEC ''act'',
     endingSet env ''subj-act'' ''subjunctive active'' (ending_rows
       [(''h|j'', ''2sg'', None), (''h|'', ''3sg'', None), (''wmen'', ''1pl'', None), (''hte'', ''2pl'', None),
        (''wsi'', ''3pl'', None), (''wsin'', ''3pl'', None), (''hton'', ''23du'', None), (''wmi'', ''1sg'', None),
        (''h|sqa'', ''2sg'', None), (''h|si'', ''3sg'', None), (''h|sin'', ''3sg'', None)])
       OUT_SUBJ ''act'',
     endingSet env ''opt-act'' ''optative active'' (ending_rows
       [(''oimi'', ''1sg'', None), (''oij'', ''2sg'', None), (''oi'', ''3sg'', Some Long), (''oimen'', ''1pl'', None),
        (''oite'', ''2pl'', None), (''oien'', ''3pl'', None), (''oiton'', ''2du'', None), (''oithn'', ''3du'', None)])
       OUT_OPT ''act'',
     endingSet env ''imp-act'' ''imperative active'' (ending_rows
       [(''e'', ''2sg'', None), (''etw'', ''3sg'', None), (''ete'', ''2pl'', None), (''ontwn'', ''3pl'', None),
        (''etwsan'', ''3pl'', None), (''eton'', ''2du'', None), (''etwn'', ''3du'', None)])
       OUT_IMP ''act'',
     verbTransform (js ''inf-act'') (js ''infinitive active'')
        (tx ''Infinitive active: -{ein}; Epic -{emen}, -{emenai}; Doric -{en}.''),
     each (\<lambda>e. verbEnding env (js ''inf-act'') e (gk ''w'') OUT_INF [] None) (gks [''ein'', ''emen'', ''emenai'', ''en'', ''hn'']),
     each (\<lambda>e. verbEnding env (js ''inf-act'') e (gk ''w'') [js ''aor2''] [] None) (gks [''ei=n'', ''e/ein'', ''e/men'', ''e/menai''])]"

definition thematic_middle :: "js_env \<Rightarrow> gen_op" where
  "thematic_middle env = run_ops
    [endingSet env ''ind-mid'' ''indicative middle/passive'' (ending_rows
       [(''omai'', ''1sg'', Some Short), (''h|'', ''2sg'', None), (''ei'', ''2sg'', Some Long),
        (''eai'', ''2sg'', Some Short), (''etai'', ''3sg'', Some Short), (''omeqa'', ''1pl'', None),
        (''omesqa'', ''1pl'', None), (''esqe'', ''2pl'', None), (''ontai'', ''3pl'', Some Short),
        (''esqon'', ''23du'', None), (''atai'', ''3pl'', Some Short)])
       OUT_PRIM ''mid'',
     endingSet env ''ind-mid'' ''indicative middle/passive'' (ending_rows
       [(''omhn'', ''1sg'', None), (''ou'', ''2sg'', None), (''eo'', ''2sg'', None), (''eu'', ''2sg'', None),
        (''eto'', ''3sg'', None), (''omeqa'', ''1pl'', None), (''esqe'', ''2pl'', None), (''onto'', ''3pl'', None),
        (''esqon'', ''2du'', None), (''esqhn'', ''3du'', None), (''ato'', ''3pl'', None), (''esketo'', ''3sg'', None),
        (''eskonto'', ''3pl'', None)])
       OUT_SEC ''mid'',
     endingSet env ''subj-mid'' ''subjunctive middle/passive'' (ending_rows
       [(''wmai'', ''1sg'', Some Short), (''h|'', ''2sg'', None), (''hai'', ''2sg'', Some Short),
        (''htai'', ''3sg'', Some Short), (''wmeqa'', ''1pl'', None), (''hsqe'', ''2pl'', None),
        (''wntai'', ''3pl'', Some Short), (''hsqon'', ''23du'', None)])
       OUT_SUBJ ''mid'',
     endingSet env ''opt-mid'' ''optative middle/passive'' (ending_rows
       [(''oimhn'', ''1sg'', None), (''oio'', ''2sg'', None), (''oito'', ''3sg'', None), (''oimeqa'', ''1pl'', None),
        (''oisqe'', ''2pl'', None), (''ointo'', ''3pl'', None), (''oiato'', ''3pl'', None), (''oisqon'', ''2du'', None),
        (''oisqhn'', ''3du'', None)])
       OUT_OPT ''mid'',
     endingSet env ''imp-mid'' ''imperative middle/passive'' (ending_rows
       [(''ou'', ''2sg'', None), (''eo'', ''2sg'', None), (''eu'', ''2sg'', None), (''esqw'', ''3sg'', None),
        (''esqe'', ''2pl'', None), (''esqwn'', ''3pl'', None), (''esqwsan'', ''3pl'', None), (''esqon'', ''2du'', None)])
       OUT_IMP ''mid'',
     verbTransform (js ''inf-mid'') (js ''infinitive middle/passive'')
        (tx ''Infinitive middle and passive: -{esqai}.''),
     both_verbs env ''inf-mid'' (gk ''esqai'') [] OUT_INF (Some Short),
     both_verbs env ''inf-mid'' (gk ''e/sqai'') [] [js ''aor2''] None]"

definition thematicEndings :: "js_env \<Rightarrow> gen_op" where
  "thematicEndings env = run_ops [thematic_active env, thematic_middle env]"

section \<open>Participles\<close>

definition PTC_CASES :: "(jstr \<times> jstr) list" where
  "PTC_CASES = map (\<lambda>(k, v). (js k, js v))
    [(''nom-sg'', ''nominative singular''), (''gen-sg'', ''genitive singular''), (''dat-sg'', ''dative singular''),
     (''acc-sg'', ''accusative singular''), (''nom-pl'', ''nominative plural''), (''gen-pl'', ''genitive plural''),
     (''dat-pl'', ''dative plural''), (''acc-pl'', ''accusative plural''), (''du'', ''dual'')]"

type_synonym ptc_row = "jstr \<times> jstr \<times> jstr \<times> vowel_length option"

definition ptc_rows :: "(string \<times> string \<times> string \<times> vowel_length option) list \<Rightarrow> ptc_row list" where
  "ptc_rows = map (\<lambda>(e, c, g, u). (gk e, js c, js g, u))"

definition ptc_case :: "jstr \<Rightarrow> jstr" where
  "ptc_case c = (case map_of PTC_CASES c of Some n \<Rightarrow> n | None \<Rightarrow> js ''undefined'')"

definition ptc_id :: "string \<Rightarrow> jstr \<Rightarrow> jstr \<Rightarrow> jstr" where
  "ptc_id prefixId c g = js prefixId @ [45] @ c @ (if g = [] then [] else [45] @ g)"

definition ptc_name :: "string \<Rightarrow> jstr \<Rightarrow> jstr \<Rightarrow> jstr" where
  "ptc_name label c g = js label @ js '', '' @ ptc_case c @
     (if g = js ''f'' then js '' feminine'' else if g = js ''n'' then js '' neuter'' else [])"

definition participle :: "js_env \<Rightarrow> string \<Rightarrow> string \<Rightarrow> ptc_row list \<Rightarrow> jstr list \<Rightarrow> jstr list \<Rightarrow> gen_op" where
  "participle env prefixId label forms lemmas cout = each (\<lambda>(ending, c, g, ultima).
     let i = ptc_id prefixId c g; s = stripAccents env ending;
         u = (case ultima of Some l \<Rightarrow> Some l
           | None \<Rightarrow> if list_ex (\<lambda>e. ends_with s (gk e)) [''ai'', ''oi'', ''a''] then Some Short else None)
     in run_ops
       [verbTransform i (ptc_name label c g) (ptc_name label c g @ [46]),
        each (\<lambda>l. verbEnding env i ending l cout [] u) lemmas]) forms"

definition PTC_PRES_ACT :: "ptc_row list" where
  "PTC_PRES_ACT = ptc_rows
    [(''wn'', ''nom-sg'', '''', None), (''ontoj'', ''gen-sg'', '''', None), (''onti'', ''dat-sg'', '''', None),
     (''onta'', ''acc-sg'', '''', None), (''ontej'', ''nom-pl'', '''', None), (''ontwn'', ''gen-pl'', '''', None),
     (''ousi'', ''dat-pl'', '''', None), (''ousin'', ''dat-pl'', '''', None), (''ontaj'', ''acc-pl'', '''', None),
     (''onte'', ''du'', '''', None), (''ontoin'', ''du'', '''', None), (''ousa'', ''nom-sg'', ''f'', None),
     (''oushj'', ''gen-sg'', ''f'', None), (''oush|'', ''dat-sg'', ''f'', None), (''ousan'', ''acc-sg'', ''f'', None),
     (''ousai'', ''nom-pl'', ''f'', None), (''ousw=n'', ''gen-pl'', ''f'', None),
     (''ousaij'', ''dat-pl'', ''f'', None), (''ousaj'', ''acc-pl'', ''f'', Some Long),
     (''on'', ''nom-sg'', ''n'', None), (''onta'', ''nom-pl'', ''n'', None), (''ontessi'', ''dat-pl'', '''', None),
     (''ontessin'', ''dat-pl'', '''', None)]"

definition MENOS :: "jstr \<Rightarrow> ptc_row list" where
  "MENOS stem = map (\<lambda>(e, c, g, u). (stem @ e, c, g, u)) (ptc_rows
     [(''oj'', ''nom-sg'', '''', None), (''ou'', ''gen-sg'', '''', None), (''oio'', ''gen-sg'', '''', None),
      (''w|'', ''dat-sg'', '''', None), (''on'', ''acc-sg'', '''', None), (''e'', ''nom-sg'', '''', None),
      (''oi'', ''nom-pl'', '''', None), (''wn'', ''gen-pl'', '''', None), (''oij'', ''dat-pl'', '''', None),
      (''oisi'', ''dat-pl'', '''', None), (''oisin'', ''dat-pl'', '''', None), (''ouj'', ''acc-pl'', '''', None),
      (''w'', ''du'', '''', None), (''oin'', ''du'', '''', None), (''h'', ''nom-sg'', ''f'', None),
      (''hj'', ''gen-sg'', ''f'', None), (''h|'', ''dat-sg'', ''f'', None), (''hn'', ''acc-sg'', ''f'', None),
      (''ai'', ''nom-pl'', ''f'', None), (''aij'', ''dat-pl'', ''f'', None), (''h|si'', ''dat-pl'', ''f'', None),
      (''h|sin'', ''dat-pl'', ''f'', None), (''aj'', ''acc-pl'', ''f'', Some Long), (''on'', ''nom-sg'', ''n'', None),
      (''a'', ''nom-pl'', ''n'', None)])"

definition participles :: "js_env \<Rightarrow> gen_op" where
  "participles env = run_ops
    [participle env ''ptc-act'' ''active participle'' PTC_PRES_ACT (gks [''w'']) OUT_PTC,
     participle env ''ptc-act'' ''active participle'' (ptc_rows
       [(''w/n'', ''nom-sg'', '''', None), (''o/ntoj'', ''gen-sg'', '''', None), (''o/nti'', ''dat-sg'', '''', None),
        (''o/nta'', ''acc-sg'', '''', None), (''o/ntej'', ''nom-pl'', '''', None), (''o/ntwn'', ''gen-pl'', '''', None),
        (''ou=si'', ''dat-pl'', '''', None), (''ou=sin'', ''dat-pl'', '''', None), (''o/ntaj'', ''acc-pl'', '''', None),
        (''ou=sa'', ''nom-sg'', ''f'', None), (''ou/shj'', ''gen-sg'', ''f'', None),
        (''ou/sh|'', ''dat-sg'', ''f'', None), (''ou=san'', ''acc-sg'', ''f'', None),
        (''ou=sai'', ''nom-pl'', ''f'', None), (''ousw=n'', ''gen-pl'', ''f'', None),
        (''ou/saij'', ''dat-pl'', ''f'', None), (''ou/saj'', ''acc-pl'', ''f'', None),
        (''o/n'', ''nom-sg'', ''n'', None), (''o/nte'', ''du'', '''', None), (''o/ntoin'', ''du'', '''', None),
        (''o/ntessi'', ''dat-pl'', '''', None), (''o/ntessin'', ''dat-pl'', '''', None)])
       (gks [''w'']) [js ''aor2''],
     participle env ''ptc-mid'' ''middle/passive participle'' (MENOS (gk ''omen'')) middle_lemmas OUT_PTC,
     participle env ''ptc-act'' ''active participle'' (ptc_rows
       [(''aj'', ''nom-sg'', '''', None), (''antoj'', ''gen-sg'', '''', None), (''anti'', ''dat-sg'', '''', None),
        (''anta'', ''acc-sg'', '''', None), (''antej'', ''nom-pl'', '''', None), (''antwn'', ''gen-pl'', '''', None),
        (''asi'', ''dat-pl'', '''', None), (''asin'', ''dat-pl'', '''', None), (''antaj'', ''acc-pl'', '''', None),
        (''ante'', ''du'', '''', None), (''asa'', ''nom-sg'', ''f'', None), (''ashj'', ''gen-sg'', ''f'', None),
        (''ash|'', ''dat-sg'', ''f'', None), (''asan'', ''acc-sg'', ''f'', None), (''asai'', ''nom-pl'', ''f'', None),
        (''asw=n'', ''gen-pl'', ''f'', None), (''asaij'', ''dat-pl'', ''f'', None),
        (''asaj'', ''acc-pl'', ''f'', Some Long), (''an'', ''nom-sg'', ''n'', None), (''anta'', ''nom-pl'', ''n'', None)])
       (gks [''w'']) [js ''aor''],
     participle env ''ptc-mid'' ''middle/passive participle'' (MENOS (gk ''amen'')) middle_lemmas [js ''aor''],
     participle env ''ptc-pass'' ''aorist passive participle'' (ptc_rows
       [(''ei/j'', ''nom-sg'', '''', None), (''e/ntoj'', ''gen-sg'', '''', None), (''e/nti'', ''dat-sg'', '''', None),
        (''e/nta'', ''acc-sg'', '''', None), (''e/ntej'', ''nom-pl'', '''', None), (''e/ntwn'', ''gen-pl'', '''', None),
        (''ei=si'', ''dat-pl'', '''', None), (''ei=sin'', ''dat-pl'', '''', None), (''e/ntaj'', ''acc-pl'', '''', None),
        (''e/nte'', ''du'', '''', None), (''ei=sa'', ''nom-sg'', ''f'', None), (''ei/shj'', ''gen-sg'', ''f'', None),
        (''ei/sh|'', ''dat-sg'', ''f'', None), (''ei=san'', ''acc-sg'', ''f'', None),
        (''ei=sai'', ''nom-pl'', ''f'', None), (''eisw=n'', ''gen-pl'', ''f'', None),
        (''ei/saij'', ''dat-pl'', ''f'', None), (''ei/saj'', ''acc-pl'', ''f'', None),
        (''e/n'', ''nom-sg'', ''n'', None), (''e/nta'', ''nom-pl'', ''n'', None)])
       (gks [''w'']) [js ''aorp''],
     participle env ''ptc-pf'' ''perfect active participle'' (ptc_rows
       [(''w/j'', ''nom-sg'', '''', None), (''o/toj'', ''gen-sg'', '''', None), (''o/ti'', ''dat-sg'', '''', None),
        (''o/ta'', ''acc-sg'', '''', None), (''o/tej'', ''nom-pl'', '''', None), (''o/twn'', ''gen-pl'', '''', None),
        (''o/si'', ''dat-pl'', '''', None), (''o/sin'', ''dat-pl'', '''', None), (''o/taj'', ''acc-pl'', '''', None),
        (''ui=a'', ''nom-sg'', ''f'', None), (''ui/aj'', ''gen-sg'', ''f'', None), (''ui/a|'', ''dat-sg'', ''f'', None),
        (''ui=an'', ''acc-sg'', ''f'', None), (''ui=ai'', ''nom-pl'', ''f'', None), (''uiw=n'', ''gen-pl'', ''f'', None),
        (''ui/aij'', ''dat-pl'', ''f'', None), (''ui/aj'', ''acc-pl'', ''f'', None), (''o/j'', ''nom-sg'', ''n'', None),
        (''o/ta'', ''nom-pl'', ''n'', None), (''w=toj'', ''gen-sg'', '''', None), (''w=ti'', ''dat-sg'', '''', None),
        (''w=ta'', ''acc-sg'', '''', None), (''w=tej'', ''nom-pl'', '''', None), (''w/twn'', ''gen-pl'', '''', None),
        (''hui=a'', ''nom-sg'', ''f'', None), (''w=si'', ''dat-pl'', '''', None), (''w=taj'', ''acc-pl'', '''', None),
        (''w=sa'', ''nom-sg'', ''f'', None), (''w/shj'', ''gen-sg'', ''f'', None), (''w/sh|'', ''dat-sg'', ''f'', None),
        (''w=san'', ''acc-sg'', ''f'', None), (''w=sai'', ''nom-pl'', ''f'', None), (''w/saj'', ''acc-pl'', ''f'', None),
        (''o/j'', ''nom-sg'', ''n'', None)])
       (gks [''w'']) [js ''pf'']]"

section \<open>Endings of the tense stems\<close>

definition aorist_active :: "js_env \<Rightarrow> gen_op" where
  "aorist_active env = run_ops
    [endingSet env ''ind-act'' ''indicative active'' (ending_rows
       [(''a'', ''1sg'', Some Short), (''aj'', ''2sg'', Some Short), (''e'', ''3sg'', None), (''en'', ''3sg'', None),
        (''amen'', ''1pl'', None), (''ate'', ''2pl'', None), (''aton'', ''23du'', None)])
       [js ''aora'', js ''pf''] ''act'',
     endingSet env ''ind-act'' ''indicative active'' (ending_rows
       [(''an'', ''3pl'', Some Short), (''athn'', ''3du'', None)])
       [js ''aora''] ''act'',
     endingSet env ''ind-act'' ''indicative active'' (ending_rows
       [(''asi'', ''3pl'', None), (''asin'', ''3pl'', None), (''a&si'', ''3pl'', None)])
       [js ''pf''] ''act'',
     endingSet env ''opt-act'' ''optative active'' (ending_rows
       [(''aimi'', ''1sg'', None), (''aij'', ''2sg'', None), (''ai'', ''3sg'', Some Long), (''aimen'', ''1pl'', None),
        (''aite'', ''2pl'', None), (''aien'', ''3pl'', None), (''eiaj'', ''2sg'', None), (''eie'', ''3sg'', None),
        (''eien'', ''3sg'', None), (''eian'', ''3pl'', None)])
       [js ''aor''] ''act'',
     endingSet env ''imp-act'' ''imperative active'' (ending_rows
       [(''on'', ''2sg'', None), (''atw'', ''3sg'', None), (''ate'', ''2pl'', None), (''antwn'', ''3pl'', None),
        (''aton'', ''2du'', None)])
       [js ''aor''] ''act'',
     verbTransform (js ''inf-act'') (js ''infinitive active'')
        (js ''Infinitive active.''),
     verbEnding env (js ''inf-act'') (gk ''ai'') (gk ''w'') [js ''aor''] [] (Some Short),
     verbEnding env (js ''inf-act'') (gk ''e/nai'') (gk ''w'') [js ''pf''] [] None]"

definition aorist_middle :: "js_env \<Rightarrow> gen_op" where
  "aorist_middle env = run_ops
    [endingSet env ''ind-mid'' ''indicative middle'' (ending_rows
       [(''amhn'', ''1sg'', None), (''w'', ''2sg'', None), (''ato'', ''3sg'', None), (''ameqa'', ''1pl'', None),
        (''asqe'', ''2pl'', None), (''anto'', ''3pl'', None), (''asqon'', ''2du'', None), (''asqhn'', ''3du'', None)])
       [js ''aora''] ''mid'',
     endingSet env ''opt-mid'' ''optative middle'' (ending_rows
       [(''aimhn'', ''1sg'', None), (''aio'', ''2sg'', None), (''aito'', ''3sg'', None), (''aimeqa'', ''1pl'', None),
        (''aisqe'', ''2pl'', None), (''ainto'', ''3pl'', None)])
       [js ''aor''] ''mid'',
     endingSet env ''imp-mid'' ''imperative middle'' (ending_rows
       [(''ai'', ''2sg'', Some Short), (''asqw'', ''3sg'', None), (''asqe'', ''2pl'', None), (''asqwn'', ''3pl'', None)])
       [js ''aor''] ''mid'',
     verbTransform (js ''inf-mid'') (js ''infinitive middle/passive'')
        (js ''Infinitive middle and passive.''),
     both_verbs env ''inf-mid'' (gk ''asqai'') [] [js ''aor''] (Some Short)]"

definition aorist_passive :: "js_env \<Rightarrow> gen_op" where
  "aorist_passive env = run_ops
    [endingSet env ''ind-pass'' ''indicative passive'' (ending_rows
       [(''hn'', ''1sg'', None), (''hj'', ''2sg'', None), (''h'', ''3sg'', None), (''hmen'', ''1pl'', None),
        (''hte'', ''2pl'', None), (''hsan'', ''3pl'', None), (''hton'', ''2du'', None), (''hthn'', ''3du'', None),
        (''en'', ''3pl'', None)])
       [js ''aorpa''] ''act'',
     endingSet env ''subj-pass'' ''subjunctive passive'' (ending_rows
       [(''w='', ''1sg'', None), (''h=|j'', ''2sg'', None), (''h=|'', ''3sg'', None), (''w=men'', ''1pl'', None),
        (''h=te'', ''2pl'', None), (''w=si'', ''3pl'', None), (''w=sin'', ''3pl'', None)])
       [js ''aorp''] ''act'',
     endingSet env ''opt-pass'' ''optative passive'' (ending_rows
       [(''ei/hn'', ''1sg'', None), (''ei/hj'', ''2sg'', None), (''ei/h'', ''3sg'', None), (''ei=men'', ''1pl'', None),
        (''ei/hmen'', ''1pl'', None), (''ei=te'', ''2pl'', None), (''ei=en'', ''3pl'', None),
        (''ei/hsan'', ''3pl'', None)])
       [js ''aorp''] ''act'',
     endingSet env ''imp-pass'' ''imperative passive'' (ending_rows
       [(''hti'', ''2sg'', None), (''hqi'', ''2sg'', None), (''h/tw'', ''3sg'', None), (''hte'', ''2pl'', None),
        (''e/ntwn'', ''3pl'', None)])
       [js ''aorp''] ''act'',
     verbTransform (js ''inf-pass'') (js ''infinitive passive'')
        (tx ''Aorist infinitive passive: -{h=nai}.''),
     verbEnding env (js ''inf-pass'') (gk ''h=nai'') (gk ''w'') [js ''aorp''] [] None,
     verbEnding env (js ''inf-pass'') (gk ''h/menai'') (gk ''w'') [js ''aorp''] [] None]"

definition perfect_endings :: "js_env \<Rightarrow> gen_op" where
  "perfect_endings env = run_ops
    [endingSet env ''ind-act'' ''indicative active'' (ending_rows
       [(''h'', ''1sg'', None), (''ein'', ''1sg'', None), (''hj'', ''2sg'', None), (''eij'', ''2sg'', None),
        (''ei'', ''3sg'', Some Long), (''ein'', ''3sg'', None), (''emen'', ''1pl'', None), (''ete'', ''2pl'', None),
        (''esan'', ''3pl'', None), (''esan'', ''3pl'', None)])
       [js ''plpf''] ''act'',
     endingSet env ''ind-mid'' ''indicative middle/passive'' (ending_rows
       [(''mai'', ''1sg'', Some Short), (''sai'', ''2sg'', Some Short), (''tai'', ''3sg'', Some Short),
        (''meqa'', ''1pl'', None), (''sqe'', ''2pl'', None), (''ntai'', ''3pl'', Some Short), (''sqon'', ''23du'', None)])
       [js ''pmp''] ''mid'',
     endingSet env ''ind-mid'' ''indicative middle/passive'' (ending_rows
       [(''mhn'', ''1sg'', None), (''so'', ''2sg'', None), (''to'', ''3sg'', None), (''meqa'', ''1pl'', None),
        (''sqe'', ''2pl'', None), (''nto'', ''3pl'', None)])
       [js ''plpm''] ''mid'',
     both_verbs env ''inf-mid'' (gk ''sqai'') [] [js ''pmp''] (Some Short),
     participle env ''ptc-pfm'' ''perfect middle/passive participle''
       (map (\<lambda>(e, c, g, u). (e, c, g, None)) (MENOS (gk ''me/n''))) middle_lemmas [js ''pmp'']]"

text \<open>\<open>`${PERSONS[person]}`\<close>\<close>

definition person_text :: "jstr \<Rightarrow> jstr" where
  "person_text person = (case map_of PERSONS person of Some n \<Rightarrow> n | None \<Rightarrow> js ''undefined'')"

text \<open>A row of \<open>merged\<close>: ending, person, whether the third part is \<open>plpm\<close>, and the consonants.\<close>

definition MERGED :: "((jstr \<times> jstr \<times> bool) list \<times> jstr list) list" where
  "MERGED = map (\<lambda>(specs, cons). (map (\<lambda>(e, p, t). (gk e, js p, t)) specs, gks cons))
    [([(''mmai'', ''1sg'', False), (''yai'', ''2sg'', False), (''ptai'', ''3sg'', False), (''mmeqa'', ''1pl'', False),
       (''fqe'', ''2pl'', False), (''mmhn'', ''1sg'', True), (''yo'', ''2sg'', True), (''pto'', ''3sg'', True)],
      [''p'', ''b'', ''f'', ''pt'', ''mp'']),
     ([(''gmai'', ''1sg'', False), (''cai'', ''2sg'', False), (''ktai'', ''3sg'', False), (''gmeqa'', ''1pl'', False),
       (''xqe'', ''2pl'', False), (''gmhn'', ''1sg'', True), (''co'', ''2sg'', True), (''kto'', ''3sg'', True)],
      [''k'', ''g'', ''x'', ''tt'', ''ss'', ''gg'']),
     ([(''smai'', ''1sg'', False), (''sai'', ''2sg'', False), (''stai'', ''3sg'', False), (''smeqa'', ''1pl'', False),
       (''sqe'', ''2pl'', False), (''smhn'', ''1sg'', True), (''so'', ''2sg'', True), (''sto'', ''3sg'', True)],
      [''q'', ''d'', ''z'', ''t'', '''']),
     ([(''lmai'', ''1sg'', False), (''lsai'', ''2sg'', False), (''ltai'', ''3sg'', False), (''lmeqa'', ''1pl'', False),
       (''lqe'', ''2pl'', False), (''lmhn'', ''1sg'', True), (''lto'', ''3sg'', True)],
      [''ll'', ''l'']),
     ([(''rmai'', ''1sg'', False), (''rsai'', ''2sg'', False), (''rtai'', ''3sg'', False), (''rmeqa'', ''1pl'', False),
       (''rqe'', ''2pl'', False), (''rmhn'', ''1sg'', True), (''rto'', ''3sg'', True)],
      [''r''])]"

definition merged_row :: "js_env \<Rightarrow> jstr list \<Rightarrow> jstr \<times> jstr \<times> bool \<Rightarrow> gen_op" where
  "merged_row env cons = (\<lambda>(ending, person, plpm).
     let i = js ''ind-mid-'' @ person; label = js ''indicative middle/passive'' in run_ops
     [verbTransform i (label @ [32] @ person_text person) (label @ js '', '' @ person_text person @ [46]),
      each (\<lambda>c. each (\<lambda>l. verbEnding env i ending (c @ l) [if plpm then js ''augred'' else js ''red''] []
          (if ends_with ending (gk ''ai'') then Some Short else None)) middle_lemmas) cons])"

definition MERGED_INFINITIVES :: "(jstr \<times> jstr list) list" where
  "MERGED_INFINITIVES = map (\<lambda>(e, cons). (gk e, gks cons))
    [(''fqai'', [''p'', ''b'', ''f'', ''pt'', ''mp'']), (''xqai'', [''k'', ''g'', ''x'', ''tt'', ''ss'', ''gg'']),
     (''sqai'', [''q'', ''d'', ''z'', ''t'']), (''lqai'', [''ll'', ''l'']), (''rqai'', [''r''])]"

definition MERGED_PARTICIPLES :: "(jstr \<times> jstr list \<times> bool) list" where
  "MERGED_PARTICIPLES = map (\<lambda>(stem, cons, deponent). (gk stem, gks cons, deponent))
    [(''mme/n'', [''p'', ''b'', ''f'', ''pt'', ''mp''], False),
     (''gme/n'', [''k'', ''g'', ''x'', ''tt'', ''ss''], True), (''sme/n'', [''q'', ''d'', ''z'', ''''], True),
     (''lme/n'', [''ll''], False), (''rme/n'', [''r''], False)]"

definition mergedPerfects :: "js_env \<Rightarrow> gen_op" where
  "mergedPerfects env = run_ops
    [each (\<lambda>(specs, cons). each (merged_row env cons) specs) MERGED,
     each (\<lambda>(ending, cons). each (\<lambda>c. both_verbs env ''inf-mid'' ending c [js ''red''] (Some Short)) cons)
       MERGED_INFINITIVES,
     each (\<lambda>(stem, cons, deponent). participle env ''ptc-pfm'' ''perfect middle/passive participle'' (MENOS stem)
         (concat (map (\<lambda>c. if deponent then [c @ gk ''w'', c @ gk ''omai''] else [c @ gk ''w'']) cons)) [js ''red''])
       MERGED_PARTICIPLES]"

definition tenseEndings :: "js_env \<Rightarrow> gen_op" where
  "tenseEndings env = run_ops
    [aorist_active env, aorist_middle env, aorist_passive env, perfect_endings env, mergedPerfects env]"

section \<open>Contract verbs\<close>

definition contractRule :: "js_env \<Rightarrow> jstr \<Rightarrow> jstr \<Rightarrow> jstr \<Rightarrow> jstr list \<Rightarrow> gen_op" where
  "contractRule env i ending lemma_form cout =
     (let e = toNFC env ending in
      if hasAccent env e then suffix env i e lemma_form [] cout no_opts
      else suffix env i e (stripAccents env lemma_form) [] cout (no_opts\<lparr>eo_then := Some THEN_STRIP_ACCENTS\<rparr>))"

type_synonym person_rows = "(string \<times> string) list"

record contract_set =
  cs_ind :: person_rows
  cs_sec :: person_rows
  cs_subj :: person_rows
  cs_opt :: person_rows
  cs_imp :: person_rows
  cs_inf :: "string list"
  cs_ptc :: "(string \<times> string \<times> string \<times> vowel_length option) list"
  cs_mid :: person_rows
  cs_midsec :: person_rows
  cs_midsubj :: person_rows
  cs_midopt :: person_rows
  cs_midimp :: person_rows
  cs_midinf :: string
  cs_midptc :: string

definition CONTRACT_E :: contract_set where
  "CONTRACT_E =
    \<lparr>cs_ind =
       [(''w='', ''1sg''), (''ei=j'', ''2sg''), (''ei='', ''3sg''), (''ou=men'', ''1pl''), (''ei=te'', ''2pl''),
        (''ou=si'', ''3pl''), (''ou=sin'', ''3pl''), (''eu=si'', ''3pl''), (''eu=men'', ''1pl''), (''ei=ton'', ''23du'')],
     cs_sec =
       [(''oun'', ''1sg''), (''eij'', ''2sg''), (''ei'', ''3sg''), (''ou=men'', ''1pl''), (''ei=te'', ''2pl''),
        (''oun'', ''3pl''), (''eun'', ''1sg''), (''eu=men'', ''1pl''), (''ei=ton'', ''2du''), (''ei/thn'', ''3du'')],
     cs_subj =
       [(''h=|j'', ''2sg''), (''h=|'', ''3sg''), (''w=men'', ''1pl''), (''h=te'', ''2pl''), (''w=si'', ''3pl''),
        (''w=sin'', ''3pl'')],
     cs_opt =
       [(''oi/hn'', ''1sg''), (''oi/hj'', ''2sg''), (''oi/h'', ''3sg''), (''oi=mi'', ''1sg''), (''oi=j'', ''2sg''),
        (''oi='', ''3sg''), (''oi=men'', ''1pl''), (''oi=te'', ''2pl''), (''oi=en'', ''3pl''), (''oi/hmen'', ''1pl''),
        (''oi/hte'', ''2pl''), (''oi/hsan'', ''3pl'')],
     cs_imp =
       [(''ei'', ''2sg''), (''ei/tw'', ''3sg''), (''ei=te'', ''2pl''), (''ou/ntwn'', ''3pl''), (''ei/twsan'', ''3pl'')],
     cs_inf =
       [''ei=n'', ''h/menai''],
     cs_ptc =
       [(''w=n'', ''nom-sg'', '''', None), (''ou=ntoj'', ''gen-sg'', '''', None), (''ou=nti'', ''dat-sg'', '''', None),
        (''ou=nta'', ''acc-sg'', '''', None), (''ou=ntej'', ''nom-pl'', '''', None),
        (''ou/ntwn'', ''gen-pl'', '''', None), (''ou=si'', ''dat-pl'', '''', None), (''ou=sin'', ''dat-pl'', '''', None),
        (''ou=ntaj'', ''acc-pl'', '''', None), (''ou=sa'', ''nom-sg'', ''f'', None),
        (''ou/shj'', ''gen-sg'', ''f'', None), (''ou/sh|'', ''dat-sg'', ''f'', None),
        (''ou=san'', ''acc-sg'', ''f'', None), (''ou=sai'', ''nom-pl'', ''f'', None),
        (''ousw=n'', ''gen-pl'', ''f'', None), (''ou/saij'', ''dat-pl'', ''f'', None),
        (''ou/saj'', ''acc-pl'', ''f'', None), (''ou=n'', ''nom-sg'', ''n'', None),
        (''ou=nta'', ''nom-pl'', ''n'', None), (''eu=ntej'', ''nom-pl'', '''', None),
        (''eu=ntaj'', ''acc-pl'', '''', None), (''eu=sa'', ''nom-sg'', ''f'', None), (''eu=si'', ''dat-pl'', '''', None),
        (''eu/ntwn'', ''gen-pl'', '''', None)],
     cs_mid =
       [(''ou=mai'', ''1sg''), (''h=|'', ''2sg''), (''ei='', ''2sg''), (''ei=tai'', ''3sg''), (''ou/meqa'', ''1pl''),
        (''ou/mesqa'', ''1pl''), (''ei=sqe'', ''2pl''), (''ou=ntai'', ''3pl''), (''eu=ntai'', ''3pl''),
        (''eu=mai'', ''1sg'')],
     cs_midsec =
       [(''ou/mhn'', ''1sg''), (''ou='', ''2sg''), (''ei=to'', ''3sg''), (''ou/meqa'', ''1pl''), (''ei=sqe'', ''2pl''),
        (''ou=nto'', ''3pl''), (''eu=nto'', ''3pl'')],
     cs_midsubj =
       [(''w=mai'', ''1sg''), (''h=tai'', ''3sg''), (''w/meqa'', ''1pl''), (''h=sqe'', ''2pl''), (''w=ntai'', ''3pl'')],
     cs_midopt =
       [(''oi/mhn'', ''1sg''), (''oi=o'', ''2sg''), (''oi=to'', ''3sg''), (''oi/meqa'', ''1pl''), (''oi=sqe'', ''2pl''),
        (''oi=nto'', ''3pl'')],
     cs_midimp =
       [(''ou='', ''2sg''), (''ei/sqw'', ''3sg''), (''ei=sqe'', ''2pl''), (''ei/sqwn'', ''3pl'')],
     cs_midinf = ''ei=sqai'',
     cs_midptc = ''oumen''\<rparr>"

definition CONTRACT_A :: contract_set where
  "CONTRACT_A =
    \<lparr>cs_ind =
       [(''w='', ''1sg''), (''a=|j'', ''2sg''), (''a=|'', ''3sg''), (''w=men'', ''1pl''), (''a=te'', ''2pl''),
        (''w=si'', ''3pl''), (''w=sin'', ''3pl''), (''a=ton'', ''23du''), (''o/w'', ''1sg''), (''a/a|j'', ''2sg''),
        (''a/a|'', ''3sg''), (''o/wsi'', ''3pl''), (''o/wsin'', ''3pl''), (''h=|j'', ''2sg''), (''h=|'', ''3sg''),
        (''h=te'', ''2pl'')],
     cs_sec =
       [(''wn'', ''1sg''), (''aj'', ''2sg''), (''a'', ''3sg''), (''w=men'', ''1pl''), (''a=te'', ''2pl''),
        (''wn'', ''3pl''), (''a=ton'', ''2du''), (''a/thn'', ''3du''), (''h'', ''3sg''), (''h=te'', ''2pl'')],
     cs_subj =
       [(''a=|j'', ''2sg''), (''a=|'', ''3sg''), (''w=men'', ''1pl''), (''a=te'', ''2pl''), (''w=si'', ''3pl''),
        (''w=sin'', ''3pl'')],
     cs_opt =
       [(''w/|hn'', ''1sg''), (''w/|hj'', ''2sg''), (''w/|h'', ''3sg''), (''w=|mi'', ''1sg''), (''w=|j'', ''2sg''),
        (''w=|'', ''3sg''), (''w=|men'', ''1pl''), (''w=|te'', ''2pl''), (''w=|en'', ''3pl'')],
     cs_imp =
       [(''a'', ''2sg''), (''a/tw'', ''3sg''), (''a=te'', ''2pl''), (''w/ntwn'', ''3pl'')],
     cs_inf =
       [''a=n'', ''h=n'', ''a=n''],
     cs_ptc =
       [(''w=n'', ''nom-sg'', '''', None), (''w=ntoj'', ''gen-sg'', '''', None), (''w=nti'', ''dat-sg'', '''', None),
        (''w=nta'', ''acc-sg'', '''', None), (''w=ntej'', ''nom-pl'', '''', None), (''w/ntwn'', ''gen-pl'', '''', None),
        (''w=si'', ''dat-pl'', '''', None), (''w=sin'', ''dat-pl'', '''', None), (''w=ntaj'', ''acc-pl'', '''', None),
        (''w=sa'', ''nom-sg'', ''f'', None), (''w/shj'', ''gen-sg'', ''f'', None), (''w/sh|'', ''dat-sg'', ''f'', None),
        (''w=san'', ''acc-sg'', ''f'', None), (''w=sai'', ''nom-pl'', ''f'', None), (''wsw=n'', ''gen-pl'', ''f'', None),
        (''w/saij'', ''dat-pl'', ''f'', None), (''w/saj'', ''acc-pl'', ''f'', None), (''w=n'', ''nom-sg'', ''n'', None),
        (''w=nta'', ''nom-pl'', ''n'', None), (''o/wntej'', ''nom-pl'', '''', None),
        (''o/wntaj'', ''acc-pl'', '''', None), (''o/wsa'', ''nom-sg'', ''f'', None),
        (''o/wnta'', ''acc-sg'', '''', None), (''o/wn'', ''nom-sg'', '''', None), (''o/wntoj'', ''gen-sg'', '''', None),
        (''o/wsai'', ''nom-pl'', ''f'', None)],
     cs_mid =
       [(''w=mai'', ''1sg''), (''a=|'', ''2sg''), (''a=tai'', ''3sg''), (''w/meqa'', ''1pl''), (''a=sqe'', ''2pl''),
        (''w=ntai'', ''3pl''), (''h=tai'', ''3sg''), (''o/wntai'', ''3pl''), (''o/wmai'', ''1sg'')],
     cs_midsec =
       [(''w/mhn'', ''1sg''), (''w='', ''2sg''), (''a=to'', ''3sg''), (''w/meqa'', ''1pl''), (''a=sqe'', ''2pl''),
        (''w=nto'', ''3pl''), (''h=to'', ''3sg''), (''o/wnto'', ''3pl'')],
     cs_midsubj =
       [(''a=tai'', ''3sg'')],
     cs_midopt =
       [(''w/|mhn'', ''1sg''), (''w=|o'', ''2sg''), (''w=|to'', ''3sg''), (''w/|meqa'', ''1pl''), (''w=|sqe'', ''2pl''),
        (''w=|nto'', ''3pl'')],
     cs_midimp =
       [(''w='', ''2sg''), (''a/sqw'', ''3sg''), (''a=sqe'', ''2pl''), (''a/sqwn'', ''3pl'')],
     cs_midinf = ''a=sqai'',
     cs_midptc = ''wmen''\<rparr>"

definition CONTRACT_O :: contract_set where
  "CONTRACT_O =
    \<lparr>cs_ind =
       [(''w='', ''1sg''), (''oi=j'', ''2sg''), (''oi='', ''3sg''), (''ou=men'', ''1pl''), (''ou=te'', ''2pl''),
        (''ou=si'', ''3pl''), (''ou=sin'', ''3pl'')],
     cs_sec =
       [(''oun'', ''1sg''), (''ouj'', ''2sg''), (''ou=men'', ''1pl''), (''ou=te'', ''2pl''), (''oun'', ''3pl'')],
     cs_subj =
       [(''oi=j'', ''2sg''), (''oi='', ''3sg''), (''w=men'', ''1pl''), (''w=te'', ''2pl''), (''w=si'', ''3pl''),
        (''w=sin'', ''3pl'')],
     cs_opt =
       [(''oi/hn'', ''1sg''), (''oi/hj'', ''2sg''), (''oi/h'', ''3sg''), (''oi=men'', ''1pl''), (''oi=te'', ''2pl''),
        (''oi=en'', ''3pl'')],
     cs_imp =
       [(''ou/tw'', ''3sg''), (''ou=te'', ''2pl''), (''ou/ntwn'', ''3pl'')],
     cs_inf =
       [''ou=n''],
     cs_ptc =
       [(''w=n'', ''nom-sg'', '''', None), (''ou=ntoj'', ''gen-sg'', '''', None), (''ou=nti'', ''dat-sg'', '''', None),
        (''ou=nta'', ''acc-sg'', '''', None), (''ou=ntej'', ''nom-pl'', '''', None),
        (''ou/ntwn'', ''gen-pl'', '''', None), (''ou=si'', ''dat-pl'', '''', None), (''ou=sin'', ''dat-pl'', '''', None),
        (''ou=ntaj'', ''acc-pl'', '''', None), (''ou=sa'', ''nom-sg'', ''f'', None),
        (''ou/shj'', ''gen-sg'', ''f'', None), (''ou/sh|'', ''dat-sg'', ''f'', None),
        (''ou=san'', ''acc-sg'', ''f'', None), (''ou=sai'', ''nom-pl'', ''f'', None),
        (''ousw=n'', ''gen-pl'', ''f'', None), (''ou/saij'', ''dat-pl'', ''f'', None),
        (''ou/saj'', ''acc-pl'', ''f'', None), (''ou=n'', ''nom-sg'', ''n'', None),
        (''ou=nta'', ''nom-pl'', ''n'', None)],
     cs_mid =
       [(''ou=mai'', ''1sg''), (''oi='', ''2sg''), (''ou=tai'', ''3sg''), (''ou/meqa'', ''1pl''), (''ou=sqe'', ''2pl''),
        (''ou=ntai'', ''3pl'')],
     cs_midsec =
       [(''ou/mhn'', ''1sg''), (''ou='', ''2sg''), (''ou=to'', ''3sg''), (''ou/meqa'', ''1pl''), (''ou=sqe'', ''2pl''),
        (''ou=nto'', ''3pl'')],
     cs_midsubj =
       [(''w=mai'', ''1sg''), (''w=tai'', ''3sg''), (''w=ntai'', ''3pl'')],
     cs_midopt =
       [(''oi/mhn'', ''1sg''), (''oi=o'', ''2sg''), (''oi=to'', ''3sg'')],
     cs_midimp =
       [(''ou='', ''2sg''), (''ou/sqw'', ''3sg''), (''ou=sqe'', ''2pl''), (''ou/sqwn'', ''3pl'')],
     cs_midinf = ''ou=sqai'',
     cs_midptc = ''oumen''\<rparr>"

text \<open>\<open>x.replace(/w$/u, 'omai')\<close>\<close>

definition to_middle :: "jstr \<Rightarrow> jstr" where
  "to_middle x = (if ends_with x (gk ''w'') then butlast x @ gk ''omai'' else x)"

definition contract_persons ::
    "js_env \<Rightarrow> string \<Rightarrow> string \<Rightarrow> person_rows \<Rightarrow> jstr list \<Rightarrow> jstr list \<Rightarrow> gen_op" where
  "contract_persons env prefixId label persons out lemmas = each (\<lambda>(e, person).
     let i = js prefixId @ [45] @ person in run_ops
       [verbTransform i (js label @ [32] @ person_text person) (js label @ js '', '' @ person_text person @ [46]),
        each (\<lambda>l. contractRule env i e l out) lemmas]) (rows_of persons)"

definition contract_participle :: "js_env \<Rightarrow> jstr \<Rightarrow> jstr list \<Rightarrow> ptc_row \<Rightarrow> gen_op" where
  "contract_participle env lemma_form out = (\<lambda>(e, c, g, u).
     let i = ptc_id ''ptc-act'' c g in run_ops
       [verbTransform i (ptc_name ''active participle'' c g) (js ''active participle, '' @ ptc_case c @ [46]),
        contractRule env i e lemma_form out])"

definition contract_verb :: "js_env \<Rightarrow> jstr \<times> contract_set \<Rightarrow> gen_op" where
  "contract_verb env = (\<lambda>(lemma_form, set).
     let lemmasMid = [toNFC env (to_middle lemma_form), lemma_form];
         prim = (if lemma_form = gk ''e/w'' then [js ''v'', js ''fut''] else [js ''v'']);
         v = [js ''v'']; act = [lemma_form]
     in run_ops
       [contract_persons env ''ind-act'' ''indicative active'' (cs_ind set) prim act,
        contract_persons env ''ind-act'' ''indicative active'' (cs_sec set) [js ''aug''] act,
        contract_persons env ''subj-act'' ''subjunctive active'' (cs_subj set) v act,
        contract_persons env ''opt-act'' ''optative active'' (cs_opt set) prim act,
        contract_persons env ''imp-act'' ''imperative active'' (cs_imp set) v act,
        each (\<lambda>e. contractRule env (js ''inf-act'') e lemma_form prim) (gks (cs_inf set)),
        each (contract_participle env lemma_form prim) (ptc_rows (cs_ptc set)),
        contract_persons env ''ind-mid'' ''indicative middle/passive'' (cs_mid set) prim lemmasMid,
        contract_persons env ''ind-mid'' ''indicative middle/passive'' (cs_midsec set) [js ''aug''] lemmasMid,
        contract_persons env ''subj-mid'' ''subjunctive middle/passive'' (cs_midsubj set) v lemmasMid,
        contract_persons env ''opt-mid'' ''optative middle/passive'' (cs_midopt set) v lemmasMid,
        contract_persons env ''imp-mid'' ''imperative middle/passive'' (cs_midimp set) v lemmasMid,
        each (\<lambda>l. contractRule env (js ''inf-mid'') (gk (cs_midinf set)) l prim) lemmasMid,
        participle env ''ptc-mid'' ''middle/passive participle'' (MENOS (gk (cs_midptc set)))
          (map (stripAccents env) lemmasMid) prim])"

definition contractEndings :: "js_env \<Rightarrow> gen_op" where
  "contractEndings env = each (contract_verb env)
     [(gk ''e/w'', CONTRACT_E), (gk ''a/w'', CONTRACT_A), (gk ''o/w'', CONTRACT_O)]"

end
