(* ===== verification/Own_Stems.thy ===== *)
theory Own_Stems
  imports Own_Verbs
begin

text \<open>
  The rules from tense stems to the present in languages/grc/sources/own-rules.mjs: the stem rules, augments and
  reduplication, and the irregular verbs.
\<close>

definition then_opts :: "json list \<Rightarrow> emit_opts" where
  "then_opts steps = no_opts\<lparr>eo_then := Some steps\<rparr>"

definition strip_opts :: emit_opts where
  "strip_opts = then_opts THEN_STRIP_ACCENTS"

definition stem_outs :: "(string \<times> string list) list \<Rightarrow> (jstr \<times> jstr) list" where
  "stem_outs rows = concat (map (\<lambda>(i, outs). map (\<lambda>out. (gk i, gk out)) outs) rows)"

section \<open>Tense stems\<close>

definition SIGMA_STEMS :: "(jstr \<times> jstr) list" where
  "SIGMA_STEMS = stem_outs
    [(''sw'', [''w'']), (''yw'', [''pw'', ''bw'', ''fw'', ''ptw'']),
     (''cw'', [''kw'', ''gw'', ''xw'', ''ttw'', ''ssw'', ''zw'']),
     (''sw'', [''zw'', ''dw'', ''qw'', ''tw'', ''ttw'', ''ssw'']), (''hsw'', [''aw'', ''ew'']), (''asw'', [''aw'']),
     (''wsw'', [''ow'']), (''esw'', [''ew'']), (''usw'', [''uw'']), (''isw'', [''izw'']), (''asw'', [''azw'']),
     (''eusw'', [''ew'']), (''ausw'', [''aiw'']),
     (''ssw'', [''w'', ''ew'', ''aw'', ''zw'', ''dw'', ''qw'', ''nnumi'']), (''cw'', [''knumi'', ''gnumi'']),
     (''sw'', [''nnumi''])]"

text \<open>The three pairs of a stem: active to active, middle to middle, middle to active.\<close>

definition voices :: "jstr \<times> jstr \<Rightarrow> (jstr \<times> jstr) list" where
  "voices = (\<lambda>(i, out). [(i, out), (to_middle i, to_middle out), (to_middle i, out)])"

text \<open>\<open>o.replace(/omai$/u, 'w')\<close>\<close>

definition to_active :: "jstr \<Rightarrow> jstr" where
  "to_active x = (if ends_with x (gk ''omai'') then take (length x - 4) x @ gk ''w'' else x)"

definition sigma_stem :: "js_env \<Rightarrow> jstr \<times> jstr \<Rightarrow> gen_op" where
  "sigma_stem env = (\<lambda>(i, out).
     let opts = (if to_active out \<in> {gk ''ew'', gk ''aw'', gk ''ow''} then strip_opts else then_opts THEN_CIRC_TO_ACUTE) in
     each (\<lambda>(ii, oo). run_ops
       [suffix env (js ''future'') ii oo [js ''fut''] [js ''v''] opts,
        suffix env (js ''aorist'') ii oo [js ''aor''] [js ''v''] opts,
        suffix env (js ''aorist'') ii oo [js ''aora''] [js ''aug''] opts]) (voices (i, out)))"

definition LIQUID_FUTURES :: "(jstr \<times> jstr) list" where
  "LIQUID_FUTURES = gk_pairs
    [(''lew'', ''llw''), (''lew'', ''lw''), (''new'', ''nw''), (''anew'', ''ainw''), (''enew'', ''einw''),
     (''inew'', ''inw''), (''unew'', ''unw''), (''arew'', ''airw''), (''erew'', ''eirw''), (''rew'', ''rw''),
     (''iew'', ''izw''), (''mew'', ''mnw''), (''eew'', ''ew'')]"

definition LIQUID_AORISTS :: "(jstr \<times> jstr) list" where
  "LIQUID_AORISTS = gk_pairs
    [(''eilw'', ''ellw''), (''eilw'', ''elw''), (''eimw'', ''emw''), (''einw'', ''enw''), (''einw'', ''einw''),
     (''hnw'', ''ainw''), (''anw'', ''ainw''), (''inw'', ''inw''), (''unw'', ''unw''), (''eirw'', ''eirw''),
     (''eirw'', ''erw''), (''hrw'', ''airw''), (''hlw'', ''allw''), (''alw'', ''allw''), (''eilw'', ''illw'')]"

definition PASSIVE_STEMS :: "(jstr \<times> jstr) list" where
  "PASSIVE_STEMS = stem_outs
    ([(''qw'', [''w'', ''omai'']), (''hqw'', [''aw'', ''ew'', ''omai'', ''eomai'', ''aomai'', ''amai'', ''w'']),
      (''wqw'', [''ow'', ''omai'', ''oomai'']), (''eqw'', [''ew'', ''eomai'']), (''aqw'', [''aw'']),
      (''sqw'', [''zw'', ''dw'', ''qw'', ''w'', ''omai'', ''zomai'', ''aw'', ''ew'', ''nnumi'']),
      (''fqw'', [''pw'', ''bw'', ''fw'', ''ptw'', ''pomai'']),
      (''xqw'', [''kw'', ''gw'', ''xw'', ''ttw'', ''ssw'', ''gomai'', ''xomai'', ''komai'']), (''lqw'', [''llw'']),
      (''iqw'', [''inw'']), (''uqw'', [''unw'', ''uw'']), (''erqw'', [''eirw'']), (''anqw'', [''ainw'']),
      (''unqw'', [''unw'']), (''inqw'', [''inw'']), (''hnqw'', [''ainw'']), (''hqw'', [''hmi'']), (''eqw'', [''hmi'']),
      (''oqw'', [''wmi'']), (''aqw'', [''hmi''])] @
     [(''fw'', [''fw'']), (''bw'', [''bw'']), (''gw'', [''gw'']), (''pw'', [''pw'']), (''anw'', [''ainw'']),
      (''alw'', [''ellw'', ''allw'']), (''arw'', [''eirw'', ''airw'', ''erw'']), (''apw'', [''epw'', ''eptw'']),
      (''afw'', [''efw'', ''afw'']), (''opw'', [''optw'']), (''abw'', [''aptw'']),
      (''agw'', [''attw'', ''assw'', ''httw'', ''hssw'', ''hgnumi'']), (''hgw'', [''httw'', ''hssw'']),
      (''uw'', [''uw'']), (''igw'', [''eignumi'', ''ignumi'']), (''ugw'', [''ugw'', ''eugnumi'']),
      (''ibw'', [''ibw'']), (''amw'', [''emw'']), (''agw'', [''agw''])])"

definition PERFECT_STEMS :: "(jstr \<times> jstr) list" where
  "PERFECT_STEMS = stem_outs
    [(''kw'', [''w'']), (''hkw'', [''aw'', ''ew'', ''w'']), (''wkw'', [''ow'', ''wmi'']), (''ekw'', [''ew'']),
     (''akw'', [''aw'']), (''kw'', [''zw'', ''dw'', ''qw'', ''tw'']), (''hkw'', [''hmi'']), (''akw'', [''hmi'']),
     (''fw'', [''pw'', ''bw'', ''fw'', ''ptw'', ''mpw'']),
     (''xw'', [''kw'', ''gw'', ''xw'', ''ttw'', ''ssw'', ''ggw'']), (''gw'', [''gw'']), (''oipw'', [''eipw'']),
     (''oiqw'', [''eiqw'']), (''omfw'', [''empw'']), (''ofw'', [''efw'', ''epw'', ''optw'']), (''orw'', [''eirw'']),
     (''arkw'', [''eirw'']), (''alkw'', [''ellw'']), (''elkw'', [''ellw'']), (''hkw'', [''hgnumi'']),
     (''ww'', [''wmi''])]"

definition MIDDLE_PERFECTS :: "(jstr \<times> jstr) list" where
  "MIDDLE_PERFECTS = stem_outs
    [(''w'', [''w'']), (''hw'', [''aw'', ''ew'', ''w'']), (''ww'', [''ow'']), (''ew'', [''ew'']),
     (''omai'', [''omai'']), (''homai'', [''eomai'', ''aomai'', ''omai'']), (''hw'', [''omai'']), (''iw'', [''inw'']),
     (''uw'', [''unw'']), (''aw'', [''einw''])]"

definition perfect_middle :: "js_env \<Rightarrow> jstr \<times> jstr \<Rightarrow> gen_op" where
  "perfect_middle env = (\<lambda>(i, out).
     let opts = strip_opts\<lparr>eo_stem := (if i \<in> {gk ''w'', gk ''omai''}
       then [(js ''stemEndsWith'', JStr (PLAIN_VOWEL_CLASS env))] else [])\<rparr>
     in run_ops
       [suffix env (js ''perfect-middle'') i out [js ''pmp''] [js ''red''] opts,
        suffix env (js ''perfect-middle'') i out [js ''plpm''] [js ''augred''] opts])"

definition stemRules :: "js_env \<Rightarrow> gen_op" where
  "stemRules env = run_ops
    [verbTransform (js ''future'') (js ''future'')
        (tx ''Future: -{sw}, -{yw}, -{cw}, -{h/sw}, -{w/sw}, contracted -{w=} of liquid verbs {>} the present.''),
     verbTransform (js ''aorist'') (js ''aorist'')
        (tx ''Aorist: the {s}-stem ({e)/lusa}, {e)/pemya}, {e)/praca}, {e)poi/hsa}), the liquid stem ({e)/meina}, {h)/ggeila}, {e)/fhna}) and second aorists ({e)/labon}, {h)=lqon}) {>} the present.''),
     verbTransform (js ''aorist-passive'') (js ''aorist passive'')
        (tx ''Aorist passive: -{qhn}, -{fqhn}, -{xqhn}, -{sqhn}, -{h/qhn}, second aorist passive -{hn} {>} the present.''),
     verbTransform (js ''future-passive'') (js ''future passive'')
        (tx ''Future passive: -{qh/somai}, -{h/somai} {>} the aorist passive stem.''),
     verbTransform (js ''perfect'') (js ''perfect'')
        (tx ''Perfect active: -{ka}, -{hka}, -{fa}, -{xa} and strong perfects {>} the present.''),
     each (sigma_stem env) SIGMA_STEMS,
     each (\<lambda>p. each (\<lambda>(ii, oo). suffix env (js ''future'') ii oo [js ''fut''] [js ''v''] strip_opts) (voices p))
       LIQUID_FUTURES,
     each (\<lambda>p. each (\<lambda>(ii, oo). run_ops
         [suffix env (js ''aorist'') ii oo [js ''aor''] [js ''v''] strip_opts,
          suffix env (js ''aorist'') ii oo [js ''aora''] [js ''aug''] strip_opts]) (voices p)) LIQUID_AORISTS,
     each (\<lambda>(i, out). run_ops
         [suffix env (js ''aorist-passive'') i out [js ''aorp''] [js ''v''] strip_opts,
          suffix env (js ''aorist-passive'') i out [js ''aorpa''] [js ''aug''] strip_opts]) PASSIVE_STEMS,
     each (\<lambda>(i, out). suffix env (js ''future-passive'') i out [js ''fut''] [js ''aorp''] strip_opts)
       (gk_pairs [(''hsomai'', ''w''), (''hsw'', ''w'')]),
     each (\<lambda>(i, out). run_ops
         [suffix env (js ''perfect'') i out [js ''pf''] [js ''red''] strip_opts,
          suffix env (js ''perfect'') i out [js ''plpf''] [js ''augred''] strip_opts]) PERFECT_STEMS,
     verbTransform (js ''perfect-lemma'') (js ''perfect'')
        (tx ''A form of a verb whose dictionary form is its perfect ({pepnume/noj} {>} {pe/pnumai}, {dedoiko/tej} {>} {de/doika}).''),
     suffix env (js ''perfect-lemma'') (gk ''w'') (gk ''mai'') [js ''pmp''] [js ''v'']
       (no_opts\<lparr>eo_stem := [(js ''stemMinLength'', JNum 3)]\<rparr>),
     suffix env (js ''perfect-lemma'') (gk ''w'') (gk ''a'') [js ''pf''] [js ''v'']
       (no_opts\<lparr>eo_stem := [(js ''stemMinLength'', JNum 3)]\<rparr>),
     verbTransform (js ''perfect-middle'') (js ''perfect middle/passive'')
        (tx ''Perfect middle and passive of vowel stems: {le/lumai}, {pepoi/hmai}, {teti/mhmai}, {dedh/lwmai}, {h)kou/smhn} {>} the present.''),
     each (perfect_middle env) MIDDLE_PERFECTS]"

section \<open>Augment and reduplication\<close>

definition SIMPLE_AUGMENTS :: "(jstr \<times> jstr) list" where
  "SIMPLE_AUGMENTS = gk_pairs
    [(''e)'', ''''), (''e)rr'', ''r(''), (''h)'', ''a)''), (''h)'', ''e)''), (''h('', ''a(''), (''h('', ''e(''),
     (''w)'', ''o)''), (''w('', ''o(''), (''h)|'', ''ai)''), (''h)|'', ''ei)''), (''h(|'', ''ai(''),
     (''w)|'', ''oi)''), (''w(|'', ''oi(''), (''hu)'', ''au)''), (''hu)'', ''eu)''), (''hu('', ''eu(''),
     (''hu('', ''au(''), (''ei)'', ''e)''), (''ei('', ''e(''), (''e(w'', ''o(''), (''e(a'', ''a('')]"

definition PREVERBS :: "(jstr \<times> jstr) list" where
  "PREVERBS = gk_pairs
    [(''a)p'', ''a)po''), (''a)f'', ''a)po''), (''a)n'', ''a)na''), (''di'', ''dia''), (''kat'', ''kata''),
     (''kaq'', ''kata''), (''met'', ''meta''), (''meq'', ''meta''), (''par'', ''para''), (''e)p'', ''e)pi''),
     (''e)f'', ''e)pi''), (''u(p'', ''u(po''), (''u(f'', ''u(po''), (''a)mf'', ''a)mfi''), (''a)nt'', ''a)nti''),
     (''a)nq'', ''a)nti''), (''peri'', ''peri''), (''pro'', ''pro''), (''pros'', ''pros''), (''ei)s'', ''ei)s''),
     (''e)s'', ''e)s''), (''e)c'', ''e)k''), (''e)n'', ''e)n''), (''e)n'', ''e)m''), (''e)n'', ''e)g''),
     (''e)n'', ''e)l''), (''sun'', ''sun''), (''sun'', ''sum''), (''sun'', ''sug''), (''sun'', ''sul''),
     (''sun'', ''sus''), (''sun'', ''su''), (''u(per'', ''u(per''), (''e)pan'', ''e)pana''), (''e)cap'', ''e)capo''),
     (''e)can'', ''e)cana''), (''parep'', ''parepi''), (''sunap'', ''sunapo''), (''a)ntep'', ''a)ntepi''),
     (''e)pec'', ''e)pek'')]"

definition emitAug :: "js_env \<Rightarrow> jstr \<Rightarrow> jstr \<Rightarrow> jstr \<Rightarrow> jstr \<Rightarrow> gen_op" where
  "emitAug env i d cin cout = prefix_rule env (js ''augment'') i d [cin] [cout] no_opts"

definition emitAugPreverb :: "js_env \<Rightarrow> jstr \<Rightarrow> jstr \<Rightarrow> gen_op" where
  "emitAugPreverb env i d =
     prefix_rule env (js ''augment'') i d [js ''aug''] [js ''v''] (no_opts\<lparr>eo_writtenOnly := True\<rparr>)"

definition LENGTHENED :: "(jstr \<times> jstr) list" where
  "LENGTHENED = gk_pairs [(''h'', ''a''), (''h'', ''e''), (''w'', ''o''), (''h|'', ''ai''), (''w|'', ''oi''), (''hu'', ''eu'')]"

definition preverb_augments :: "js_env \<Rightarrow> jstr \<times> jstr \<Rightarrow> gen_op" where
  "preverb_augments env = (\<lambda>(p, q). run_ops
     [emitAugPreverb env (p @ gk ''e'') q,
      each (\<lambda>(aug, vowel). emitAugPreverb env (p @ aug) (p @ vowel)) LENGTHENED])"

definition emitRed :: "js_env \<Rightarrow> jstr \<Rightarrow> jstr \<Rightarrow> rule_obj \<Rightarrow> gen_op" where
  "emitRed env i d stem =
     prefix_rule env (js ''reduplication'') i d [js ''red''] [js ''v''] (no_opts\<lparr>eo_stem := stem\<rparr>)"

definition unchanged_ending :: "js_env \<Rightarrow> string \<Rightarrow> string \<Rightarrow> rule_obj \<Rightarrow> jstr \<Rightarrow> gen_op" where
  "unchanged_ending env i cin extra ending =
     add env (js i) (plain_rule ''suffix'' ending ending [js cin] [js ''v''] extra)"

definition LONG_START :: "js_env \<Rightarrow> jstr" where
  "LONG_START env = (let l = computeLetters env in
     charClass (filter (\<lambda>c. take 1 (env_lower env (toNFD env c)) \<in> {gk ''h'', gk ''w'', gk ''i'', gk ''u''})
       (lt_plainVowels l @ lt_accentedVowels l)))"

definition REDUPLICATED_PREVERBS :: "jstr list" where
  "REDUPLICATED_PREVERBS = gks
    [''a)po'', ''a)na'', ''dia'', ''kata'', ''meta'', ''para'', ''e)pi'', ''u(po'', ''a)mfi'', ''a)nti'', ''peri'',
     ''pro'', ''pros'', ''ei)s'', ''e)k'', ''e)n'', ''e)m'', ''e)g'', ''sun'', ''sum'', ''sug'', ''sul'', ''u(per'',
     ''e)c'']"

definition alternation :: "js_env \<Rightarrow> jstr" where
  "alternation env = join [124] (ls_of (REDUPLICATED_PREVERBS @ map (stripAll env) REDUPLICATED_PREVERBS))"

definition redup_pattern :: "js_env \<Rightarrow> jstr \<Rightarrow> jstr \<Rightarrow> jstr \<Rightarrow> gen_op" where
  "redup_pattern env tail_regex replacement anchor = add env (js ''reduplication-preverb'')
     [(js ''type'', JStr (js ''pattern'')),
      (js ''pattern'', JStr (js ''^('' @ alternation env @ js '')'' @ tail_regex)),
      (js ''replacement'', JStr replacement), (js ''anchorSuffix'', JStr anchor),
      (js ''conditionsIn'', strings [js ''red'']), (js ''conditionsOut'', strings [js ''v'']),
      (js ''then'', JArr THEN_STRIP_ACCENTS)]"

definition VERB_TAILS :: "jstr list" where
  "VERB_TAILS = gks [''w'', ''mai'', ''mi'']"

definition augmentRules :: "js_env \<Rightarrow> gen_op" where
  "augmentRules env = run_ops
    [verbTransform (js ''augment'') (js ''augment'')
        (tx ''Past tense (imperfect, aorist, pluperfect): removes the augment {e)}- or the lengthened first vowel ({e)/luon}, {h)=gon}, {w)/|koun}, {hu(=ron}), also after a preverb ({a)pe/lusa}, {a)nh/xqh}, {sune/balon}).''),
     verbTransform (js ''unaugmented'') (js ''unaugmented'')
        (tx ''A past tense without a visible augment: Homer and Ionic often omit it, and verbs beginning with {i}, {u}, {h}, {w}, {ei} or {ou} do not show it.''),
     verbTransform (js ''reduplication'') (js ''reduplication'')
        (tx ''Perfect stem: removes the reduplication ({le/luka}, {pepai/deuka}, {ge/grafa}, {te/qhka}, {e)/stalka}, {h)/ggelka}).''),
     each (\<lambda>(x, y). run_ops
       [emitAug env x y (js ''aug'') (js ''v''),
        only_if (x = gk ''e)'') (emitAug env x y (js ''augred'') (js ''red''))]) SIMPLE_AUGMENTS,
     each (preverb_augments env) PREVERBS,
     emitAug env (gk ''prou)'') (gk ''pro'') (js ''aug'') (js ''v''),
     emitAug env (gk ''prou'') (gk ''pro'') (js ''aug'') (js ''v''),
     each (unchanged_ending env ''unaugmented'' ''aug'' []) VERB_TAILS,
     each (\<lambda>c. emitRed env (c @ gk ''e'' @ c) c []) (gks [''b'', ''g'', ''d'', ''k'', ''l'', ''m'', ''n'', ''p'', ''t'', ''s'']),
     each (\<lambda>(r, c). emitRed env r c []) (gk_pairs [(''pef'', ''f''), (''teq'', ''q''), (''kex'', ''x'')]),
     emitRed env (gk ''e)'') [] [(js ''stemStartsWith'', JStr (CONSONANT_CLASS env))],
     emitRed env (gk ''e)rr'') (gk ''r('') [],
     each (\<lambda>(x, y). emitRed env x y []) (filter (\<lambda>p. fst p \<noteq> gk ''e)'' \<and> fst p \<noteq> gk ''e)rr'') SIMPLE_AUGMENTS),
     each (unchanged_ending env ''reduplication'' ''red'' [(js ''stemStartsWith'', JStr (LONG_START env))]) VERB_TAILS,
     verbTransform (js ''reduplication-preverb'') (js ''reduplication'')
        (tx ''Perfect stem of a compound verb: removes the reduplication after the preverb ({a)pole/luka}, {katale/loipa}, {sugge/grafa}, {e)kpe/ptwka}).''),
     each (\<lambda>anchor. run_ops
       [redup_pattern env (tx ''([{bgdklmnpts}])[{ee/}]'' @ [92, 50]) (js ''$1$2'') anchor,
        redup_pattern env (tx ''(?:{p}[{ee/}]({f})|{t}[{ee/}]({q})|{k}[{ee/}]({x}))'') (js ''$1$2$3$4'') anchor]) VERB_TAILS]"

section \<open>Irregular verbs\<close>

definition both_tails :: "jstr list" where
  "both_tails = gks [''w'', ''omai'']"

definition irregularStem ::
    "js_env \<Rightarrow> string \<Rightarrow> jstr \<Rightarrow> jstr \<Rightarrow> (jstr list \<times> jstr list) list \<Rightarrow> gen_op" where
  "irregularStem env i stem lemma_form pairs =
     (let f = stripAccents env stem in
      each (\<lambda>(cin, cout). each (\<lambda>ending. suffix env (js i) (f @ ending) (stripAccents env lemma_form) cin cout
        (no_opts\<lparr>eo_writtenOnly := True\<rparr>)) both_tails) pairs)"

text \<open>\<open>NFC(NFD(s).replace(/[\u0313\u0314]/gu, ''))\<close>\<close>

definition no_breathing :: "js_env \<Rightarrow> jstr \<Rightarrow> jstr" where
  "no_breathing env s = toNFC env (filter (\<lambda>u. u \<noteq> 787 \<and> u \<noteq> 788) (toNFD env s))"

definition VOWELS_WRITTEN :: "jstr list" where
  "VOWELS_WRITTEN = gks
    [''a'', ''e'', ''h'', ''i'', ''o'', ''u'', ''w'', ''a)'', ''a('', ''e)'', ''e('', ''h)'', ''h('', ''i)'', ''i('',
     ''o)'', ''o('', ''u)'', ''u('', ''w)'', ''w('']"

definition fusedStem :: "js_env \<Rightarrow> string \<Rightarrow> jstr \<Rightarrow> jstr \<Rightarrow> jstr list \<Rightarrow> gen_op" where
  "fusedStem env i stem lemma_form cin =
     (let plup = (\<lambda>c. c \<in> {js ''plpf'', js ''plpm''});
          plain = filter (\<lambda>c. \<not> plup c) cin; aug = filter plup cin;
          bare = stripAccents env (no_breathing env stem); l = stripAccents env lemma_form;
          vowelInitial = (take 1 l \<in> set VOWELS_WRITTEN);
          tailLemma = (if vowelInitial then no_breathing env l else gk ''e'' @ l);
          cout = [if vowelInitial then js ''v'' else js ''aug'']
      in run_ops
       [only_if (plain \<noteq> []) (irregularStem env i stem lemma_form [(plain, [js ''v''])]),
        only_if (aug \<noteq> []) (irregularStem env i stem lemma_form [(aug, [js ''aug''])]),
        each (\<lambda>ending. suffix env (js i) (bare @ ending) tailLemma cin cout
          (no_opts\<lparr>eo_stem := [(js ''stemMinLength'', JNum 2)]\<rparr>)) both_tails])"

datatype stem_part = Aor2 | Aor2Fused | Aor | AorFused | Fut | FutContract | PfFused | PmpFused | Aorp | AorpFused | SecFused

type_synonym irregular = "string \<times> (stem_part \<times> string list) list"

definition IRREGULAR :: "irregular list" where
  "IRREGULAR =
    [(''lamba/nw'', [(Aor2, [''lab'']), (Fut, [''lh/y'']), (PfFused, [''ei)lhf'']), (PmpFused, [''ei)lhm'', ''ei)lhm'']), (Aorp, [''lhfq''])]),
     (''e)/rxomai'', [(Aor2, [''e)lq'']), (Aor2Fused, [''h)=lq'']), (Fut, [''e)leu/s'']), (PfFused, [''e)lhluq''])]),
     (''le/gw'', [(Aor2, [''ei)p'']), (Aor2Fused, [''ei)=p'']), (AorFused, [''ei)=p'']), (Fut, [''e)r'', ''le/c'']), (FutContract, [''e)r'']), (PfFused, [''ei)rhk'']), (PmpFused, [''ei)rh'']), (Aorp, [''r(hq'', ''lexq'']), (AorpFused, [''e)rrhq''])]),
     (''o(ra/w'', [(Aor2, [''i)d'']), (Aor2Fused, [''ei)=d'']), (Fut, [''o)/y'']), (PfFused, [''e(wrak'', ''e(orak'', ''o)pwp'']), (PmpFused, [''e(wra'', ''w)m'', ''w)=m'']), (Aorp, [''o)fq'']), (AorpFused, [''w)fq'']), (SecFused, [''e(w/r''])]),
     (''fe/rw'', [(Aor2, [''e)negk'']), (Aor2Fused, [''h)negk'']), (Aor, [''e)negk'']), (AorFused, [''h)negk'']), (Fut, [''oi)s'']), (PfFused, [''e)nhnox'']), (PmpFused, [''e)nhneg'']), (Aorp, [''e)nexq'', ''oi)sq'']), (AorpFused, [''h)nexq''])]),
     (''di/dwmi'', [(Fut, [''dws'']), (Aorp, [''doq'']), (Aor, [''dwk'']), (PfFused, [''dedwk''])]),
     (''ti/qhmi'', [(Fut, [''qhs'']), (Aorp, [''teq'']), (Aor, [''qhk'']), (PfFused, [''teqhk'', ''teqeik''])]),
     (''i(/sthmi'', [(Fut, [''sths'']), (Aorp, [''staq'']), (Aor, [''sths''])]),
     (''i(/hmi'', [(Fut, [''h(s'']), (Aorp, [''e(q'']), (AorFused, [''h(k''])]),
     (''dei/knumi'', [(Fut, [''deic'']), (Aor, [''deic'']), (PfFused, [''dedeix'']), (Aorp, [''deixq''])]),
     (''ti/ktw'', [(Aor2, [''tek'']), (Fut, [''tec'']), (PfFused, [''tetok''])]),
     (''ghra/skw'', [(Fut, [''ghras'']), (Aor, [''ghras''])]),
     (''mimnh/skw'', [(Fut, [''mnhs'']), (Aor, [''mnhs'']), (PfFused, [''memnh'']), (Aorp, [''mnhsq''])]),
     (''kai/w'', [(Fut, [''kaus'']), (Aor, [''kaus'', ''kh'']), (Aorp, [''ka'', ''kauq''])]),
     (''klai/w'', [(Fut, [''klaus'']), (Aor, [''klaus''])]),
     (''i(/zw'', [(Aor, [''e(s'', ''i(s''])]),
     (''e(/zomai'', [(Aor, [''e(s''])]),
     (''a(/ptw'', [(Aorp, [''a(fq''])]),
     (''seu/w'', [(Aorp, [''suq'']), (Aor, [''seu'', ''sseu''])]),
     (''ai(re/w'', [(Aor2, [''e(l'']), (Aor2Fused, [''ei(l'']), (Fut, [''ai(rhs'', ''e(l'']), (PfFused, [''h(|rhk'']), (PmpFused, [''h(|rh'']), (Aorp, [''ai(req'']), (AorpFused, [''h(|req''])]),
     (''e)/xw'', [(Aor2, [''sx'']), (Fut, [''e(c'', ''sxhs'']), (PfFused, [''e)sxhk'']), (PmpFused, [''e)sxh'']), (SecFused, [''ei)=x''])]),
     (''gi/gnomai'', [(Aor2, [''gen'']), (Fut, [''genhs'']), (PfFused, [''gegon'', ''gegenh'']), (Aorp, [''genhq''])]),
     (''gi/nomai'', [(Aor2, [''gen'']), (Fut, [''genhs''])]),
     (''gignw/skw'', [(Fut, [''gnws'']), (PfFused, [''e)gnwk'']), (PmpFused, [''e)gnws'']), (Aorp, [''gnwsq''])]),
     (''pa/sxw'', [(Aor2, [''paq'']), (Fut, [''peis'']), (PfFused, [''peponq''])]),
     (''manqa/nw'', [(Aor2, [''maq'']), (Fut, [''maqhs'']), (PfFused, [''memaqhk''])]),
     (''tugxa/nw'', [(Aor2, [''tux'']), (Fut, [''teuc'']), (PfFused, [''tetuxhk'', ''teteux''])]),
     (''pi/ptw'', [(Aor2, [''pes'']), (Fut, [''pes'']), (FutContract, [''pes'']), (PfFused, [''peptwk''])]),
     (''ba/llw'', [(Aor2, [''bal'']), (FutContract, [''bal'']), (PfFused, [''beblhk'', ''beblh'']), (Aorp, [''blhq''])]),
     (''a)/gw'', [(Aor2Fused, [''h)gag'']), (Aor2, [''a)gag'']), (Fut, [''a)c'']), (PfFused, [''h)x'', ''h)g'']), (AorpFused, [''h)xq'']), (Aorp, [''a)xq''])]),
     (''eu(ri/skw'', [(Aor2, [''eu(r'']), (Aor2Fused, [''hu(r'']), (Fut, [''eu(rhs'']), (PfFused, [''hu(rhk'', ''eu(rhk'', ''hu(rh'', ''eu(rh'']), (Aorp, [''eu(req'']), (AorpFused, [''hu(req''])]),
     (''a)poqnh/|skw'', [(Aor2, [''a)poqan'']), (FutContract, [''a)poqan''])]),
     (''qnh/|skw'', [(Aor2, [''qan'']), (FutContract, [''qan'']), (PfFused, [''teqnhk'', ''teqne'', ''teqna'', ''teqnhu''])]),
     (''qnh/skw'', [(Aor2, [''qan'']), (FutContract, [''qan'']), (PfFused, [''teqnhk''])]),
     (''pi/nw'', [(Aor2, [''pi'']), (Fut, [''pi'']), (PfFused, [''pepwk'']), (Aorp, [''poq''])]),
     (''e)sqi/w'', [(Aor2, [''fag'']), (Fut, [''e)d'']), (PfFused, [''e)dhdok''])]),
     (''tre/xw'', [(Aor2, [''dram'']), (FutContract, [''dram'']), (PfFused, [''dedramhk''])]),
     (''feu/gw'', [(Aor2, [''fug'']), (Fut, [''feuc'']), (PfFused, [''pefeug''])]),
     (''lei/pw'', [(Aor2, [''lip'']), (Fut, [''leiy'']), (PfFused, [''leloip'']), (Aorp, [''leifq''])]),
     (''bai/nw'', [(Fut, [''bhs'']), (PfFused, [''bebhk''])]),
     (''a)kou/w'', [(Fut, [''a)kous'']), (PfFused, [''a)khko'']), (Aorp, [''a)kousq''])]),
     (''e)lau/nw'', [(Fut, [''e)l'']), (Aor, [''h)las'', ''e)las'', ''e)lass'', ''h)lass'']), (PfFused, [''e)lhlak'', ''e)lhla''])]),
     (''o)/llumi'', [(Aor, [''w)les'', ''o)les'', ''o)less'', ''w)less'']), (Aor2, [''o)l'']), (Aor2Fused, [''w)l'']), (FutContract, [''o)l'']), (PfFused, [''o)lwlek'', ''o)lwl''])]),
     (''a)po/llumi'', [(Aor, [''a)pwles'', ''a)poles'']), (Aor2, [''a)pol'']), (Aor2Fused, [''a)pwl'']), (FutContract, [''a)pol'']), (PfFused, [''a)polwlek'', ''a)polwl''])]),
     (''a(marta/nw'', [(Aor2, [''a(mart'']), (Aor2Fused, [''h(mart'']), (Fut, [''a(marths'']), (PfFused, [''h(marthk''])]),
     (''ai)sqa/nomai'', [(Aor2, [''ai)sq'']), (Aor2Fused, [''h)|sq'']), (Fut, [''ai)sqhs'']), (PfFused, [''h)|sqh''])]),
     (''punqa/nomai'', [(Aor2, [''puq'']), (Fut, [''peus'']), (PfFused, [''pepus''])]),
     (''lanqa/nw'', [(Aor2, [''laq'']), (Fut, [''lhs'']), (PfFused, [''lelhq'', ''lelhs''])]),
     (''a)fikne/omai'', [(Aor2, [''a)fik'']), (Fut, [''a)fic'']), (PfFused, [''a)fig''])]),
     (''i(kne/omai'', [(Aor2, [''i(k'']), (Fut, [''i(c''])]),
     (''e(/pomai'', [(Aor2, [''sp'', ''e(sp'']), (Fut, [''e(y'']), (SecFused, [''ei(p''])]),
     (''e)rwta/w'', [(Aor2, [''e)r'']), (Aor2Fused, [''h)r'']), (Fut, [''e)rhs''])]),
     (''ka/mnw'', [(Aor2, [''kam'']), (FutContract, [''kam'']), (PfFused, [''kekmhk''])]),
     (''te/mnw'', [(Aor2, [''tem'', ''tam'']), (FutContract, [''tem'']), (PfFused, [''tetmhk'', ''tetmh'']), (Aorp, [''tmhq''])]),
     (''ktei/nw'', [(Aor2, [''ktan'']), (PfFused, [''e)kton''])]),
     (''a)poktei/nw'', [(Aor2, [''a)poktan'']), (PfFused, [''a)pekton'', ''a)pekton''])]),
     (''tre/pw'', [(Aor2, [''trap'']), (PfFused, [''tetrof'', ''tetram'']), (Aorp, [''trap'', ''trefq''])]),
     (''tre/fw'', [(Fut, [''qrey'']), (Aor, [''qrey'']), (PfFused, [''tetrof'', ''teqram'']), (Aorp, [''traf'', ''qrefq''])]),
     (''qa/ptw'', [(Aorp, [''taf'']), (PfFused, [''teqam''])]),
     (''ste/llw'', [(FutContract, [''stel'']), (PfFused, [''e)stalk'']), (PmpFused, [''e)stal'']), (Aorp, [''stal''])]),
     (''fai/nw'', [(FutContract, [''fan'']), (Aorp, [''fan'']), (PfFused, [''pefhn'', ''pefas'', ''pefagk''])]),
     (''ai)/rw'', [(FutContract, [''a)r'']), (AorFused, [''h)r'']), (PfFused, [''h)rk'', ''h)r'']), (AorpFused, [''h)rq'']), (Aorp, [''a)rq''])]),
     (''e)gei/rw'', [(FutContract, [''e)ger'']), (Aor2Fused, [''h)gr'']), (PfFused, [''e)grhgor'', ''e)ghger'']), (AorpFused, [''h)gerq'']), (Aorp, [''e)gerq''])]),
     (''fqei/rw'', [(FutContract, [''fqer'']), (PfFused, [''e)fqark'', ''e)fqor'']), (PmpFused, [''e)fqar'']), (Aorp, [''fqar''])]),
     (''kale/w'', [(FutContract, [''kal'']), (Aor, [''kales'']), (PfFused, [''keklhk'', ''keklh'']), (Aorp, [''klhq''])]),
     (''tele/w'', [(Aor, [''teles'']), (PfFused, [''tetelek'', ''teteles'']), (Aorp, [''telesq''])]),
     (''doke/w'', [(Fut, [''doc'']), (Aor, [''doc'']), (PfFused, [''dedog''])]),
     (''ma/xomai'', [(FutContract, [''max'']), (Fut, [''maxes'', ''maxhs'']), (Aor, [''maxes'']), (PfFused, [''memaxh''])]),
     (''bou/lomai'', [(Fut, [''boulhs'']), (Aorp, [''boulhq'']), (PfFused, [''beboulh'']), (SecFused, [''h)boul''])]),
     (''oi)/omai'', [(Fut, [''oi)hs'']), (AorpFused, [''w)|hq'']), (SecFused, [''w)|''])]),
     (''e)qe/lw'', [(Fut, [''e)qelhs'']), (Aor, [''e)qelhs'']), (AorFused, [''h)qelhs'']), (PfFused, [''h)qelhk'']), (SecFused, [''h)qel''])]),
     (''qe/lw'', [(Fut, [''qelhs'']), (Aor, [''qelhs'']), (AorFused, [''h)qelhs''])]),
     (''me/llw'', [(Fut, [''mellhs'']), (Aor, [''mellhs'']), (SecFused, [''h)mell''])]),
     (''ple/w'', [(Fut, [''pleus'']), (Aor, [''pleus'']), (PfFused, [''pepleuk''])]),
     (''pne/w'', [(Fut, [''pneus'']), (Aor, [''pneus''])]),
     (''r(e/w'', [(Fut, [''r(eus'', ''r(uhs'']), (Aorp, [''r(u'']), (AorpFused, [''e)rru''])]),
     (''xe/w'', [(Aor, [''xe'']), (PfFused, [''kexuk'', ''kexu'']), (Aorp, [''xuq''])]),
     (''de/w'', [(Fut, [''dhs'', ''dehs'']), (Aor, [''dhs'', ''dehs'']), (PfFused, [''dedek'', ''dede'']), (Aorp, [''deq'', ''dehq''])]),
     (''de/omai'', [(Fut, [''dehs'']), (Aorp, [''dehq''])]),
     (''za/w'', [(Fut, [''zhs'']), (Aor, [''zhs'']), (PfFused, [''e)zhk''])]),
     (''xra/omai'', [(Fut, [''xrhs'']), (Aor, [''xrhs'']), (PfFused, [''kexrh'']), (Aorp, [''xrhsq''])]),
     (''sw/|zw'', [(Fut, [''sws'']), (Aor, [''sws'']), (PfFused, [''seswk'', ''sesws'', ''sesw'']), (Aorp, [''swq''])]),
     (''sw/zw'', [(Fut, [''sws'']), (Aor, [''sws'']), (Aorp, [''swq''])]),
     (''pei/qw'', [(PfFused, [''pepoiq''])]),
     (''pe/mpw'', [(PfFused, [''pepomf'', ''pepem''])]),
     (''kle/ptw'', [(Aorp, [''klap'']), (PfFused, [''keklof''])]),
     (''ko/ptw'', [(Aorp, [''kop''])]),
     (''e)rga/zomai'', [(AorFused, [''ei)rgas'', ''h)rgas'']), (PfFused, [''ei)rgas'']), (AorpFused, [''ei)rgasq''])]),
     (''o)mnu/w'', [(FutContract, [''o)m'']), (AorFused, [''w)mos'']), (Aor, [''o)mos'']), (PfFused, [''o)mwmok''])]),
     (''o)/mnumi'', [(FutContract, [''o)m'']), (AorFused, [''w)mos'']), (Aor, [''o)mos'']), (PfFused, [''o)mwmok''])]),
     (''a)noi/gw'', [(AorFused, [''a)new|c'', ''h)/noic'']), (PfFused, [''a)new|g'', ''a)new|g'']), (AorpFused, [''a)new|xq''])]),
     (''a)nali/skw'', [(Fut, [''a)nalws'']), (AorFused, [''a)nhlws'']), (Aor, [''a)nalws'']), (PfFused, [''a)nhlwk'', ''a)nhlw'']), (Aorp, [''a)nalwq'']), (AorpFused, [''a)nhlwq''])]),
     (''mimnh/|skw'', [(Fut, [''mnhs'']), (Aor, [''mnhs'']), (PfFused, [''memnh'']), (Aorp, [''mnhsq''])]),
     (''kta/omai'', [(Fut, [''kths'']), (PfFused, [''kekth'', ''e)kth''])]),
     (''pra/ttw'', [(PfFused, [''peprax'', ''peprag''])]),
     (''pra/ssw'', [(PfFused, [''peprax'', ''peprag''])]),
     (''a)gge/llw'', [(FutContract, [''a)ggel'']), (AorFused, [''h)ggeil'']), (PfFused, [''h)ggelk'', ''h)ggel'']), (AorpFused, [''h)ggelq''])]),
     (''me/nw'', [(FutContract, [''men'']), (Aor, [''mein'']), (PfFused, [''memenhk''])]),
     (''kri/nw'', [(FutContract, [''krin'']), (PfFused, [''kekrik'', ''kekri'']), (Aorp, [''kriq''])]),
     (''a)pokri/nomai'', [(FutContract, [''a)pokrin'']), (Aor, [''a)pokrin'']), (AorFused, [''a)pekrin'']), (PfFused, [''a)pokekri'']), (AorpFused, [''a)pekriq'']), (Aorp, [''a)pokriq''])]),
     (''xai/rw'', [(Fut, [''xairhs'']), (Aorp, [''xar''])]),
     (''spe/ndw'', [(Fut, [''speis'']), (Aor, [''speis''])]),
     (''kei=mai'', [(Fut, [''keis''])]),
     (''i(/sthmi'', [(PfFused, [''e(sthk'', ''e(st''])]),
     (''tre/xw'', [(PfFused, [''dedrom''])]),
     (''lagxa/nw'', [(Aor2, [''lax'']), (Fut, [''lhc'']), (PfFused, [''lelogx'', ''ei)lhx''])]),
     (''blw/skw'', [(Aor2, [''mol'']), (FutContract, [''mol'']), (PfFused, [''memblwk''])]),
     (''mei/gnumi'', [(Fut, [''meic'']), (Aor, [''meic'']), (Aorp, [''meixq'', ''mixq'', ''mig'']), (PfFused, [''memeig'', ''memig''])]),
     (''mi/gnumi'', [(Fut, [''mic'']), (Aor, [''mic'']), (Aorp, [''mixq'', ''mig'']), (PfFused, [''memig''])]),
     (''zeu/gnumi'', [(Fut, [''zeuc'']), (Aor, [''zeuc'']), (Aorp, [''zeuxq'', ''zug'']), (PfFused, [''e)zeug''])]),
     (''r(h/gnumi'', [(Fut, [''r(hc'']), (Aor, [''r(hc'']), (Aorp, [''r(ag'']), (AorpFused, [''e)rrag'']), (PfFused, [''e)rrwg''])]),
     (''ph/gnumi'', [(Fut, [''phc'']), (Aor, [''phc'']), (Aorp, [''pag'']), (PfFused, [''pephg''])]),
     (''dei/dw'', [(Fut, [''deis'']), (Aor, [''deis''])]),
     (''ei)=don'', [(Aor2, [''i)d'']), (Aor2Fused, [''ei)=d''])]),
     (''ei)=pon'', [(Aor2, [''ei)p'']), (Aor2Fused, [''ei)=p'']), (AorFused, [''ei)=p'', ''ei)p''])]),
     (''au)ca/nw'', [(Fut, [''au)chs'']), (Aor, [''au)chs'']), (AorFused, [''hu)chs'']), (Aorp, [''au)chq'']), (AorpFused, [''hu)chq'']), (PfFused, [''hu)chk'', ''hu)ch''])]),
     (''qigga/nw'', [(Aor2, [''qig'']), (Fut, [''qic''])]),
     (''ti/nw'', [(Fut, [''tis'', ''teis'']), (Aor, [''tis'', ''teis''])]),
     (''w)qe/w'', [(Fut, [''w)s'']), (Aor, [''w)s'']), (AorFused, [''e)ws'']), (Aorp, [''w)sq'']), (AorpFused, [''e)wsq''])]),
     (''pi/mplhmi'', [(Fut, [''plhs'']), (Aor, [''plhs'']), (Aorp, [''plhsq''])]),
     (''kra/zw'', [(PfFused, [''kekrag''])]),
     (''ka/qhmai'', [(Fut, [''kaqhs''])])]"

text \<open>\<open>parts.x ?? []\<close>\<close>

definition part_of :: "stem_part \<Rightarrow> (stem_part \<times> string list) list \<Rightarrow> jstr list" where
  "part_of k parts = (case map_of parts k of Some stems \<Rightarrow> gks stems | None \<Rightarrow> [])"

definition irregular_verb :: "js_env \<Rightarrow> irregular \<Rightarrow> gen_op" where
  "irregular_verb env = (\<lambda>(lemma_text, parts).
     let l = gk lemma_text;
         stems = (\<lambda>k f. each f (part_of k parts));
         two = (\<lambda>x y. [([js x], [js ''v'']), ([js y], [js ''aug''])])
     in run_ops
       [stems Aor2 (\<lambda>st. irregularStem env ''aorist'' st l (two ''aor2'' ''aor2a'')),
        stems Aor2Fused (\<lambda>st. fusedStem env ''aorist'' st l [js ''aor2a'']),
        stems Aor (\<lambda>st. irregularStem env ''aorist'' st l (two ''aor'' ''aora'')),
        stems AorFused (\<lambda>st. fusedStem env ''aorist'' st l [js ''aora'']),
        stems Fut (\<lambda>st. irregularStem env ''future'' st l [([js ''fut''], [js ''v''])]),
        stems FutContract (\<lambda>st. irregularStem env ''future'' (st @ gk ''e'') l [([js ''fut''], [js ''v''])]),
        stems PfFused (\<lambda>st. fusedStem env ''perfect'' st l [js ''pf'', js ''plpf'', js ''pmp'']),
        stems PmpFused (\<lambda>st. fusedStem env ''perfect-middle'' st l [js ''pmp'', js ''plpm'']),
        stems Aorp (\<lambda>st. irregularStem env ''aorist-passive'' st l (two ''aorp'' ''aorpa'')),
        stems AorpFused (\<lambda>st. fusedStem env ''aorist-passive'' st l [js ''aorpa'']),
        stems SecFused (\<lambda>st. run_ops
          [verbTransform (js ''imperfect'') (js ''imperfect'')
        (tx ''Imperfect with an irregular augment ({ei)=xon}, {e(w/rwn}, {ei(po/mhn}, {h)/qelon}, {h)boulo/mhn}).''),
           fusedStem env ''imperfect'' st l [js ''aug'']])])"

definition ECHO_PREVERBS :: "(jstr \<times> jstr) list" where
  "ECHO_PREVERBS = gk_pairs
    [(''a)po'', ''a)p''), (''a)na'', ''a)n''), (''dia'', ''di''), (''kata'', ''kat''), (''meta'', ''met''),
     (''para'', ''par''), (''e)pi'', ''e)p''), (''u(po'', ''u(p''), (''a)nti'', ''a)nt''), (''a)mfi'', ''a)mf''),
     (''pros'', ''pros''), (''su'', ''sun''), (''sun'', ''sun''), (''e)n'', ''e)n''), (''e)k'', ''e)c''),
     (''peri'', ''peri''), (''pro'', ''pro''), (''u(per'', ''u(per''), (''para'', ''par'')]"

definition buildEchoCompounds :: "js_env \<Rightarrow> gen_op" where
  "buildEchoCompounds env = run_ops
    [each (\<lambda>(full, elided). each (\<lambda>(stem, cin). each (\<lambda>ending.
         suffix env (js ''aorist'') (full @ stem @ ending) (elided @ gk ''exw'') cin [js ''v''] no_opts) both_tails)
       [(gk ''sx'', [js ''aor2'']), (gk ''sxhs'', [js ''fut'', js ''aor''])]) ECHO_PREVERBS,
     each (\<lambda>ending. suffix env (js ''aorist'') (gk ''e/sx'' @ ending) (gk ''e/xw'') [js ''aor2a''] [js ''v'']
       (no_opts\<lparr>eo_stem := [(js ''stemMinLength'', JNum 2)]\<rparr>)) both_tails]"

definition buildIrregular :: "js_env \<Rightarrow> gen_op" where
  "buildIrregular env = run_ops [buildEchoCompounds env, each (irregular_verb env) IRREGULAR]"

end
