(* ===== verification/Own_Athematic.thy ===== *)
theory Own_Athematic
  imports Own_Stems
begin

text \<open>
  The athematic verbs of languages/grc/sources/own-rules.mjs: the verbs whose forms the script lists, the declined
  participles, the compounds of two of them, and the two generic present systems. A table's row is a transform and its
  forms, in segments: listed forms, or the forms of a participle.
\<close>

section \<open>Participles\<close>

text \<open>\<open>fem.replace(/\<dots>$/u, '')\<close> drops a final alpha.\<close>

definition without_final_alpha :: "jstr \<Rightarrow> jstr" where
  "without_final_alpha s = (if ends_with s (gk ''a'') then take (length s - 1) s else s)"

definition ntParticiple :: "js_env \<Rightarrow> jstr \<Rightarrow> jstr \<Rightarrow> jstr \<Rightarrow> jstr \<Rightarrow> jstr \<Rightarrow> jstr list" where
  "ntParticiple env nom obl fem neut datpl =
     (let femStem = without_final_alpha fem; femAcute = circumflexToAcute env femStem in
      [nom, obl @ gk ''oj'', obl @ gk ''i'', obl @ gk ''a'', obl @ gk ''ej'', obl @ gk ''wn'', datpl, datpl @ gk ''n'', obl @ gk ''aj'', obl @ gk ''e'', obl @ gk ''oin'',
       fem, femAcute @ gk ''hj'', femAcute @ gk ''h|'', fem @ gk ''n'', femStem @ gk ''ai'', stripAccents env femStem @ gk ''w=n'',
       femAcute @ gk ''aij'', femAcute @ gk ''aj'', neut])"

definition menos_form :: "js_env \<Rightarrow> ptc_row \<Rightarrow> own_error + jstr" where
  "menos_form env = (\<lambda>(e, _, _, ult).
     case recessive env e (case ult of
         Some u \<Rightarrow> Some u
       | None \<Rightarrow> if ends_with e (gk ''ai'') \<or> ends_with e (gk ''oi'') then Some Short else None) of
       Some form \<Rightarrow> Inr form | None \<Rightarrow> Inl OwnTypeError)"

definition menosParticiple :: "js_env \<Rightarrow> jstr \<Rightarrow> own_error + jstr list" where
  "menosParticiple env stem = mapE (menos_form env) (MENOS (stripAccents env stem))"

section \<open>A verb's table\<close>

datatype ath_segment = Forms "string list" | Nt string string string string string | Menos string

type_synonym ath_rows = "(string \<times> ath_segment list) list"

definition segment_forms :: "js_env \<Rightarrow> ath_segment \<Rightarrow> own_error + jstr list" where
  "segment_forms env seg = (case seg of
       Forms fs \<Rightarrow> Inr (gks fs)
     | Nt nom obl fem neut datpl \<Rightarrow> Inr (ntParticiple env (gk nom) (gk obl) (gk fem) (gk neut) (gk datpl))
     | Menos stem \<Rightarrow> menosParticiple env (gk stem))"

definition row_forms :: "js_env \<Rightarrow> string \<times> ath_segment list \<Rightarrow> own_error + (jstr \<times> jstr list)" where
  "row_forms env = (\<lambda>(tid, segs). bindE (mapE (segment_forms env) segs) (\<lambda>fs. Inr (js tid, concat fs)))"

definition ATHEMATIC_NAMES :: "(jstr \<times> jstr \<times> jstr) list" where
  "ATHEMATIC_NAMES = map (\<lambda>(i, n, d). (js i, js n, tx d))
    [(''ath-pres'', ''present'', ''Present indicative of an athematic (-{mi}) verb.''),
     (''ath-impf'', ''imperfect'', ''Imperfect of an athematic (-{mi}) verb.''),
     (''ath-subj'', ''subjunctive'', ''Subjunctive of an athematic (-{mi}) verb.''),
     (''ath-opt'', ''optative'', ''Optative of an athematic (-{mi}) verb.''),
     (''ath-imp'', ''imperative'', ''Imperative of an athematic (-{mi}) verb.''),
     (''ath-inf'', ''infinitive'', ''Infinitive of an athematic (-{mi}) verb.''),
     (''ath-ptc'', ''participle'', ''Participle of an athematic (-{mi}) verb.''),
     (''ath-fut'', ''future'', ''Future of an athematic (-{mi}) verb.''),
     (''ath-aor'', ''aorist'', ''Aorist of an athematic (-{mi}) verb.''),
     (''ath-pf'', ''perfect'', ''Perfect of an athematic (-{mi}) verb or of {oi)=da}.''),
     (''ath-plpf'', ''pluperfect'', ''Pluperfect of an athematic (-{mi}) verb or of {oi)=da}.''),
     (''ath-mid'', ''middle/passive'', ''Middle and passive of an athematic (-{mi}) verb.''),
     (''ath-pass'', ''aorist passive'', ''Aorist passive of an athematic (-{mi}) verb.'')]"

record ath_opts =
  ao_compound :: bool
  ao_compoundLemma :: "jstr option"

definition plain_ath :: ath_opts where
  "plain_ath = \<lparr>ao_compound = True, ao_compoundLemma = None\<rparr>"

definition AUGMENTED :: "jstr list" where
  "AUGMENTED = [js ''ath-impf'', js ''ath-aor'', js ''ath-plpf'', js ''ath-pass'']"

text \<open>\<open>/^[^\<dots>]/u.test(bareLemma)\<close>: the first letter is no plain vowel.\<close>

definition starts_consonant :: "jstr \<Rightarrow> bool" where
  "starts_consonant s \<longleftrightarrow> s \<noteq> [] \<and> take 1 s \<notin> set (gks [''a'', ''e'', ''h'', ''i'', ''o'', ''u'', ''w''])"

text \<open>The rule of a compound's form: with an augment it gives back a placeholder the preverb rules read.\<close>

definition compound_form :: "js_env \<Rightarrow> jstr \<Rightarrow> ath_opts \<Rightarrow> jstr \<Rightarrow> jstr \<Rightarrow> gen_op" where
  "compound_form env lemma_form opts tid formN =
     (let bare = stripAccents env (no_breathing env formN);
          bareLemma = (case ao_compoundLemma opts of
              Some l \<Rightarrow> l | None \<Rightarrow> no_breathing env (stripAccents env lemma_form));
          given = (ao_compoundLemma opts \<notin> {None, Some []});
          augmented = (tid \<in> set AUGMENTED \<and> take 1 (stripAccents env formN) = gk ''e)'' \<and> \<not> given \<and>
            starts_consonant bareLemma);
          stem = no_opts\<lparr>eo_stem := [(js ''stemMinLength'', JNum 2)]\<rparr>
      in if augmented then suffix env tid bare (gk ''e'' @ bareLemma) [] [js ''aug''] stem
         else if bare \<noteq> stripAccents env formN \<or> given then suffix env tid bare bareLemma [] [js ''v''] stem
         else Inr)"

definition athematic_form :: "js_env \<Rightarrow> jstr \<Rightarrow> ath_opts \<Rightarrow> jstr \<Rightarrow> jstr \<Rightarrow> gen_op" where
  "athematic_form env lemma_form opts tid f =
     (let formN = toNFC env f in
      if f = [] \<or> formN = toNFC env lemma_form then Inr
      else run_ops
        [suffix env tid formN lemma_form [] [js ''v''] (no_opts\<lparr>eo_writtenOnly := True\<rparr>),
         only_if (ao_compound opts) (compound_form env lemma_form opts tid formN)])"

definition athematic :: "js_env \<Rightarrow> jstr \<Rightarrow> (jstr \<times> jstr list) list \<Rightarrow> ath_opts \<Rightarrow> gen_op" where
  "athematic env lemma_form table opts = each (\<lambda>(tid, forms).
     case (case map_of ATHEMATIC_NAMES tid of Some nd \<Rightarrow> nd | None \<Rightarrow> (tid, tid)) of (name, description) \<Rightarrow>
     run_ops [transform tid name description, each (athematic_form env lemma_form opts tid) forms]) table"

text \<open>A call: its table is computed first.\<close>

definition athematic_verb :: "js_env \<Rightarrow> ath_opts \<Rightarrow> string \<times> ath_rows \<Rightarrow> gen_op" where
  "athematic_verb env opts = (\<lambda>(lemma_text, rows) s.
     bindE (mapE (row_forms env) rows) (\<lambda>table. athematic env (gk lemma_text) table opts s))"

section \<open>The verbs\<close>

definition EIMI :: ath_rows where
  "EIMI =
    [(''ath-pres'', [Forms [''ei)mi'', ''ei)='', ''ei)j'', ''e)ssi/'', ''e)sti/'', ''e)sti/n'', ''e)sti'', ''e)stin'', ''e)/sti'',
         ''e)/stin'', ''e)sme/n'', ''e)smen'', ''ei)me/n'', ''e)ste/'', ''e)ste'', ''ei)si/'', ''ei)si/n'', ''ei)si'',
         ''ei)sin'', ''e)/asi'', ''e)/asin'', ''e)sto/n'']]),
     (''ath-impf'', [Forms [''h)='', ''h)=n'', ''h)=sqa'', ''h)=j'', ''h)=men'', ''h)=te'', ''h)=ste'', ''h)=san'', ''e)/hn'', ''h)=en'',
         ''e)/san'', ''e)/ske'', ''e)/sken'', ''h)/mhn'', ''h)=sqon'', ''h)/sthn'']]),
     (''ath-subj'', [Forms [''w)='', ''h)=|j'', ''h)=|'', ''w)=men'', ''h)=te'', ''w)=si'', ''w)=sin'', ''e)/w'', ''e)/h|'', ''e)/wsi'',
         ''e)/wsin'', ''e)/h|si'']]),
     (''ath-opt'', [Forms [''ei)/hn'', ''ei)/hj'', ''ei)/h'', ''ei)=men'', ''ei)/hmen'', ''ei)=te'', ''ei)/hte'', ''ei)=en'', ''ei)/hsan'',
         ''e)/oi'', ''ei)/h'']]),
     (''ath-imp'', [Forms [''i)/sqi'', ''e)/stw'', ''e)/ste'', ''e)/stwn'', ''o)/ntwn'', ''e)/stwsan'']]),
     (''ath-inf'', [Forms [''ei)=nai'', ''e)/mmenai'', ''e)/menai'', ''e)/mmen'', ''e)/men'']]),
     (''ath-ptc'', [Nt ''w)/n'' ''o)/nt'' ''ou)=sa'' ''o)/n'' ''ou)=si'',
       Nt ''e)w/n'' ''e)o/nt'' ''e)ou=sa'' ''e)o/n'' ''e)ou=si'',
       Forms [''e)o/ntessi'', ''e)o/ntessin'', ''e)ou/sh|si'', ''e)ou/sh|sin'']]),
     (''ath-fut'', [Forms [''e)/somai'', ''e)/sh|'', ''e)/sei'', ''e)/stai'', ''e)/setai'', ''e)so/meqa'', ''e)/sesqe'', ''e)/sontai'',
         ''e)/soito'', ''e)/sesqai'', ''e)so/menoj'', ''e)some/nou'', ''e)so/menon'', ''e)so/menoi'', ''e)some/nwn'',
         ''e)/ssetai'', ''e)/ssesqai'', ''e)sso/menoj'', ''e)ssome/noisi'', ''e)/seai'', ''e)/ssomai'']])]"

definition EIMI_GO :: ath_rows where
  "EIMI_GO =
    [(''ath-pres'', [Forms [''ei)='', ''ei)=si'', ''ei)=sin'', ''i)/men'', ''i)/te'', ''i)/asi'', ''i)/asin'', ''ei)=sqa'']]),
     (''ath-impf'', [Forms [''h)=|a'', ''h)/|ein'', ''h)/|eij'', ''h)/|eisqa'', ''h)/|ei'', ''h)/|ein'', ''h)=|men'', ''h)=|te'',
         ''h)=|san'', ''h)/|esan'', ''h)/i+a'', ''h)/i+e'', ''h)/i+san'', ''i)/san'', ''h)/|esan'']]),
     (''ath-subj'', [Forms [''i)/w'', ''i)/h|j'', ''i)/h|'', ''i)/wmen'', ''i)/hte'', ''i)/wsi'', ''i)/wsin'']]),
     (''ath-opt'', [Forms [''i)/oimi'', ''i)/oij'', ''i)/oi'', ''i)oi/hn'', ''i)/oimen'', ''i)/oite'', ''i)/oien'']]),
     (''ath-imp'', [Forms [''i)/qi'', ''i)/tw'', ''i)/te'', ''i)o/ntwn'', ''i)/twn'']]),
     (''ath-inf'', [Forms [''i)e/nai'', ''i)/menai'', ''i)/men'']]),
     (''ath-ptc'', [Nt ''i)w/n'' ''i)o/nt'' ''i)ou=sa'' ''i)o/n'' ''i)ou=si'',
       Forms [''i)o/ntwn'', ''i)ousw=n'']])]"

definition PHEMI :: ath_rows where
  "PHEMI =
    [(''ath-pres'', [Forms [''fhmi'', ''fh/|j'', ''fh/j'', ''fhsi/'', ''fhsi/n'', ''fhsi'', ''fhsin'', ''fame/n'', ''famen'', ''fate/'',
         ''fasi/'', ''fasi/n'', ''fasi'', ''fasin'', ''fh`|j'']]),
     (''ath-impf'', [Forms [''e)/fhn'', ''e)/fhsqa'', ''e)/fhj'', ''e)/fh'', ''e)/famen'', ''e)/fate'', ''e)/fasan'', ''fh='', ''fh=n'',
         ''e)/fan'', ''fa/n'', ''fa/to'', ''e)/fato'', ''e)/fanto'', ''fa/ske'']]),
     (''ath-subj'', [Forms [''fw='', ''fh=|j'', ''fh=|'', ''fw=men'', ''fh=te'', ''fw=si'', ''fw=sin'']]),
     (''ath-opt'', [Forms [''fai/hn'', ''fai/hj'', ''fai/h'', ''fai=men'', ''fai=te'', ''fai=en'', ''fai/hsan'']]),
     (''ath-imp'', [Forms [''fa/qi'', ''faqi/'', ''fa/tw'', ''fa/te'']]),
     (''ath-inf'', [Forms [''fa/nai'']]),
     (''ath-ptc'', [Nt ''fa/j'' ''fa/nt'' ''fa=sa'' ''fa/n'' ''fa=si'',
       Forms [''fa/ntwn'']]),
     (''ath-fut'', [Forms [''fh/sw'', ''fh/seij'', ''fh/sei'', ''fh/somen'', ''fh/sete'', ''fh/sousi'', ''fh/sousin'', ''fh/sein'']]),
     (''ath-aor'', [Forms [''e)/fhsa'', ''e)/fhse'', ''e)/fhsen'', ''fh=sai'', ''fh/saj'', ''fh/santoj'', ''fh/santej'']])]"

definition OIDA :: ath_rows where
  "OIDA =
    [(''ath-pf'', [Forms [''oi)=sqa'', ''oi)=daj'', ''oi)=de'', ''oi)=den'', ''i)/smen'', ''i)/dmen'', ''oi)/damen'', ''i)/ste'',
         ''i)/sasi'', ''i)/sasin'', ''i)/santi'', ''oi)/dasi'', ''oi)/dasin'']]),
     (''ath-plpf'', [Forms [''h)/|dh'', ''h)/|dein'', ''h)/|dhsqa'', ''h)/|deij'', ''h)/|dei'', ''h)/|dein'', ''h)=|smen'', ''h)/|demen'',
         ''h)=|ste'', ''h)/|dete'', ''h)=|san'', ''h)/|desan'', ''h)/idee'', ''h)/dee'', ''h)/dei'', ''h)/|dea'',
         ''h)ei/dei'', ''i)/san'']]),
     (''ath-subj'', [Forms [''ei)dw='', ''ei)dh=|j'', ''ei)dh=|'', ''ei)dw=men'', ''ei)dh=te'', ''ei)dw=si'', ''ei)dw=sin'', ''ei)de/w'',
         ''ei)dh=|si'']]),
     (''ath-opt'', [Forms [''ei)dei/hn'', ''ei)dei/hj'', ''ei)dei/h'', ''ei)dei=men'', ''ei)dei=te'', ''ei)dei=en'']]),
     (''ath-imp'', [Forms [''i)/sqi'', ''i)/stw'', ''i)/ste'', ''i)/stwn'']]),
     (''ath-inf'', [Forms [''ei)de/nai'', ''i)/dmenai'', ''i)/dmen'']]),
     (''ath-ptc'', [Nt ''ei)dw/j'' ''ei)do/t'' ''ei)dui=a'' ''ei)do/j'' ''ei)do/si'',
       Forms [''ei)do/twn'', ''ei)duiw=n'', ''ei)dui/hj'', ''ei)dui/h|si'', ''i)dui/h|si'', ''i)dui=a'', ''i)dui/h|sin'']]),
     (''ath-fut'', [Forms [''ei)/somai'', ''ei)/sh|'', ''ei)/sei'', ''ei)/setai'', ''ei)so/meqa'', ''ei)/sesqe'', ''ei)/sontai'',
         ''ei)/sesqai'', ''ei)dh/sw'', ''ei)dh/sei'', ''ei)dh/sein'', ''ei)so/menoj'']])]"

definition KEIMAI :: ath_rows where
  "KEIMAI =
    [(''ath-impf'', [Forms [''e)kei/mhn'', ''e)/keiso'', ''e)/keito'', ''e)kei/meqa'', ''e)/keisqe'', ''e)/keinto'']]),
     (''ath-mid'', [Forms [''kei=sai'', ''kei=tai'', ''kei/meqa'', ''kei=sqe'', ''kei=ntai'', ''ke/atai'', ''kei/atai'', ''kei=to'',
         ''ke/ato'', ''kei/ato'', ''kei=so'', ''kei/sqw'', ''kei=sqai''],
       Menos ''keimen'',
       Forms [''ke/htai'', ''ke/wntai'', ''ke/oito'', ''kei/atai'', ''kei/ato'']])]"

definition KATHEMAI :: ath_rows where
  "KATHEMAI =
    [(''ath-mid'', [Forms [''ka/qhsai'', ''ka/qhtai'', ''kaqh/meqa'', ''ka/qhsqe'', ''ka/qhntai'', ''e)kaqh/mhn'', ''e)ka/qhto'',
         ''kaqh=sto'', ''e)ka/qhnto'', ''kaqh=sqai''],
       Menos ''kaqhmen'',
       Forms [''ka/qhso'', ''kaqh/sqw'', ''kaqh=tai'', ''kaqh=sqe'', ''kaqw=mai'', ''kaqh=sqai'']])]"

definition HEMAI :: ath_rows where
  "HEMAI =
    [(''ath-mid'', [Forms [''h(=sai'', ''h(=stai'', ''h(/meqa'', ''h(=sqe'', ''h(=ntai'', ''h(/atai'', ''ei(/atai'', ''h(/mhn'', ''h(=sto'',
         ''h(/ato'', ''ei(/ato'', ''h(=sqai''],
       Menos ''h(men''])]"

definition first_verbs :: "(string \<times> ath_rows) list" where
  "first_verbs =
    [(''ei)mi/'', EIMI), (''ei)=mi'', EIMI_GO), (''fhmi/'', PHEMI), (''oi)=da'', OIDA),
     (''kei=mai'', KEIMAI), (''ka/qhmai'', KATHEMAI), (''h(=mai'', HEMAI)]"

section \<open>Two verbs in -amai\<close>

definition DEPONENT_FORMS :: "jstr list" where
  "DEPONENT_FORMS = gks
    [''asai'', ''a|'', ''atai'', ''a/meqa'', ''asqe'', ''antai'', ''a/mhn'', ''aso'', ''w'', ''ato'', ''a/meqa'',
     ''anto'', ''wmai'', ''h|'', ''htai'', ''w/meqa'', ''hsqe'', ''wntai'', ''ai/mhn'', ''aio'', ''aito'',
     ''ai/meqa'', ''aisqe'', ''ainto'', ''asqai'', ''a/menoj'', ''ame/nou'', ''ame/nw|'', ''a/menon'', ''a/menoi'',
     ''ame/nwn'', ''ame/noij'', ''ame/nouj'', ''ame/nh'', ''ame/nhj'', ''ame/nhn'', ''h/somai'', ''h/sh|'',
     ''h/setai'', ''hso/meqa'', ''h/sesqe'', ''h/sontai'', ''h/sesqai'', ''hso/menoj'', ''h/qhn'', ''h/qhj'',
     ''h/qh'', ''h/qhmen'', ''h/qhsan'', ''hqh=nai'', ''hqei/j'', ''hqe/ntej'', ''hqw='', ''hqei/hn'', ''h/qhte'']"

definition PAST_FORMS :: "jstr list" where
  "PAST_FORMS = gks
    [''a/mhn'', ''w'', ''aso'', ''ato'', ''a/meqa'', ''asqe'', ''anto'', ''h/qhn'', ''h/qhj'', ''h/qh'', ''h/qhmen'',
     ''h/qhsan'', ''h/qhte'']"

definition contains_text :: "jstr \<Rightarrow> jstr \<Rightarrow> bool" where
  "contains_text p s \<longleftrightarrow> list_ex (\<lambda>n. starts_with (drop n s) p) [0..<Suc (length s)]"

text \<open>An ending with an accent takes the unaccented stem, one without the accented stem.\<close>

definition accented_on :: "js_env \<Rightarrow> jstr \<Rightarrow> jstr \<Rightarrow> jstr \<Rightarrow> jstr" where
  "accented_on env stem accentedStem f = toNFC env ((if hasAccent env f then stem else accentedStem) @ f)"

definition deponent_table ::
    "js_env \<Rightarrow> jstr \<Rightarrow> jstr \<Rightarrow> (jstr \<times> jstr) list \<Rightarrow> own_error + (jstr \<times> jstr list) list" where
  "deponent_table env stem accentedStem aug =
     (let out = map (accented_on env stem accentedStem) DEPONENT_FORMS;
          past = concat (map (\<lambda>(x, accented). map (accented_on env x accented) PAST_FORMS) aug) in
      bindE (menosParticiple env (stem @ gk ''amen'')) (\<lambda>menos. Inr
        [(js ''ath-mid'', filter (\<lambda>f. \<not> contains_text (gk ''h/q'') f \<or> contains_text (gk ''hqe'') f \<or> contains_text (gk ''hqh='') f \<or> contains_text (gk ''hqw='') f) out @ menos),
         (js ''ath-impf'', past),
         (js ''ath-pass'', filter (contains_text (gk ''h/qh'')) out)]))"

definition deponent :: "js_env \<Rightarrow> jstr \<Rightarrow> jstr \<Rightarrow> jstr \<Rightarrow> (jstr \<times> jstr) list \<Rightarrow> gen_op" where
  "deponent env lemma_form stem accentedStem aug = (\<lambda>s.
     bindE (deponent_table env stem accentedStem aug) (\<lambda>table. athematic env lemma_form table plain_ath s))"

definition deponents :: "js_env \<Rightarrow> gen_op" where
  "deponents env = run_ops
    [deponent env (gk ''du/namai'') (gk ''dun'') (gk ''du/n'')
       (gk_pairs [(''e)dun'', ''e)du/n''), (''h)dun'', ''h)du/n'')]),
     deponent env (gk ''e)pi/stamai'') (gk ''e)pist'') (gk ''e)pi/st'')
       (gk_pairs [(''h)pist'', ''h)pi/st'')])]"

section \<open>Five verbs in -mi\<close>

type_synonym mi_parts = "(string \<times> ath_segment list) list"

definition DIDOMI :: mi_parts where
  "DIDOMI =
    [(''pres'', [Forms [''di/dwj'', ''di/dwsi'', ''di/dwsin'', ''di/domen'', ''di/dote'', ''dido/asi'', ''dido/asin'', ''didou=si'',
           ''didou=sin'', ''di/doton'', ''didoi='', ''didoi=j'']]),
     (''impf'', [Forms [''e)di/doun'', ''e)di/douj'', ''e)di/dou'', ''e)di/domen'', ''e)di/dote'', ''e)di/dosan'', ''e)di/dwn'',
           ''di/dou'']]),
     (''subj'', [Forms [''didw='', ''didw=|j'', ''didw=|'', ''didw=men'', ''didw=te'', ''didw=si'', ''didw=sin'']]),
     (''opt'', [Forms [''didoi/hn'', ''didoi/hj'', ''didoi/h'', ''didoi=men'', ''didoi=te'', ''didoi=en'', ''didoi/hmen'',
           ''didoi/hsan'']]),
     (''imp'', [Forms [''di/dou'', ''dido/tw'', ''di/dote'', ''dido/ntwn'']]),
     (''inf'', [Forms [''dido/nai'', ''didou=nai'']]),
     (''ptc'', [Nt ''didou/j'' ''dido/nt'' ''didou=sa'' ''dido/n'' ''didou=si'',
         Forms [''dido/ntwn'']]),
     (''mid'', [Forms [''di/domai'', ''di/dosai'', ''di/dotai'', ''dido/meqa'', ''di/dosqe'', ''di/dontai'', ''e)dido/mhn'',
           ''e)di/doso'', ''e)di/doto'', ''e)di/donto'', ''di/dosqai''],
         Menos ''dido/men'']),
     (''fut'', [Forms [''dw/sw'', ''dw/seij'', ''dw/sei'', ''dw/somen'', ''dw/sete'', ''dw/sousi'', ''dw/sousin'', ''dw/sein'',
           ''dw/swn'', ''dw/sontej'', ''dw/somai'', ''doqh/somai'', ''doqh/setai'', ''dw/soi'', ''dw/soien'', ''dw/sonta'',
           ''dw/sontoj'', ''dw/sousa'']]),
     (''aor'', [Forms [''e)/dwka'', ''e)/dwkaj'', ''e)/dwke'', ''e)/dwken'', ''e)/domen'', ''e)dw/kamen'', ''e)/dote'', ''e)dw/kate'',
           ''e)/dosan'', ''e)/dwkan'', ''dw='', ''dw=|j'', ''dw=|'', ''dw=men'', ''dw=te'', ''dw=si'', ''dw=sin'',
           ''doi/hn'', ''doi/hj'', ''doi/h'', ''doi=men'', ''doi=te'', ''doi=en'', ''do/j'', ''do/tw'', ''do/te'',
           ''do/ntwn'', ''dou=nai'', ''do/menai'', ''do/men''],
         Nt ''dou/j'' ''do/nt'' ''dou=sa'' ''do/n'' ''dou=si'',
         Forms [''do/ntwn'', ''e)do/mhn'', ''e)/dou'', ''e)/doto'', ''e)/donto'', ''do/sqai'', ''do/menoj'', ''do/menoi'',
           ''dw=ke'', ''dw=ken'', ''dw=kan'', ''do/san'']]),
     (''pf'', [Forms [''de/dwka'', ''de/dwkaj'', ''de/dwke'', ''de/dwken'', ''dedw/kamen'', ''dedw/kate'', ''dedw/kasi'',
           ''dedw/kasin'', ''dedwke/nai'', ''dedwkw/j'', ''dedwko/tej'', ''de/domai'', ''de/dotai'', ''de/dontai'',
           ''dedo/sqai'', ''dedome/noj'', ''dedome/non'', ''dedome/na'', ''dedome/noi'', ''e)dedw/kei'']]),
     (''pass'', [Forms [''e)do/qhn'', ''e)do/qhj'', ''e)do/qh'', ''e)do/qhmen'', ''e)do/qhte'', ''e)do/qhsan'', ''doqh=|'', ''doqh=nai'',
           ''doqei/j'', ''doqe/ntoj'', ''doqe/nta'', ''doqe/ntej'', ''doqei=sa'', ''doqe/n'', ''doqe/ntwn'', ''doqei/shj'']])]"

definition TITHEMI :: mi_parts where
  "TITHEMI =
    [(''pres'', [Forms [''ti/qhj'', ''tiqei=j'', ''ti/qhsi'', ''ti/qhsin'', ''tiqei='', ''ti/qemen'', ''ti/qete'', ''tiqe/asi'',
           ''tiqe/asin'', ''tiqei=si'', ''tiqei=sin'']]),
     (''impf'', [Forms [''e)ti/qhn'', ''e)ti/qeij'', ''e)ti/qei'', ''e)ti/qemen'', ''e)ti/qete'', ''e)ti/qesan'', ''ti/qei'']]),
     (''subj'', [Forms [''tiqw='', ''tiqh=|j'', ''tiqh=|'', ''tiqw=men'', ''tiqh=te'', ''tiqw=si'', ''tiqw=sin'']]),
     (''opt'', [Forms [''tiqei/hn'', ''tiqei/hj'', ''tiqei/h'', ''tiqei=men'', ''tiqei=te'', ''tiqei=en'']]),
     (''imp'', [Forms [''ti/qei'', ''tiqe/tw'', ''ti/qete'', ''tiqe/ntwn'']]),
     (''inf'', [Forms [''tiqe/nai'', ''tiqh/menai'']]),
     (''ptc'', [Nt ''tiqei/j'' ''tiqe/nt'' ''tiqei=sa'' ''tiqe/n'' ''tiqei=si'',
         Forms [''tiqe/ntwn'']]),
     (''mid'', [Forms [''ti/qemai'', ''ti/qesai'', ''ti/qetai'', ''tiqe/meqa'', ''ti/qesqe'', ''ti/qentai'', ''e)tiqe/mhn'',
           ''e)ti/qeso'', ''e)ti/qeto'', ''e)ti/qento'', ''ti/qesqai''],
         Menos ''tiqe/men'']),
     (''fut'', [Forms [''qh/sw'', ''qh/seij'', ''qh/sei'', ''qh/somen'', ''qh/sete'', ''qh/sousi'', ''qh/sousin'', ''qh/sein'',
           ''qh/swn'', ''qh/sontej'', ''qh/somai'', ''qh/setai'', ''qh/sontai'', ''teqh/setai'', ''teqh/somai'',
           ''qh/sesqai'']]),
     (''aor'', [Forms [''e)/qhka'', ''e)/qhkaj'', ''e)/qhke'', ''e)/qhken'', ''e)/qemen'', ''e)qh/kamen'', ''e)/qete'', ''e)/qesan'',
           ''e)/qhkan'', ''qw='', ''qh=|j'', ''qh=|'', ''qw=men'', ''qh=te'', ''qw=si'', ''qw=sin'', ''qei/hn'', ''qei/hj'',
           ''qei/h'', ''qei=men'', ''qei=te'', ''qei=en'', ''qe/j'', ''qe/tw'', ''qe/te'', ''qe/ntwn'', ''qei=nai'',
           ''qe/menai'', ''qe/men''],
         Nt ''qei/j'' ''qe/nt'' ''qei=sa'' ''qe/n'' ''qei=si'',
         Forms [''qe/ntwn'', ''e)qe/mhn'', ''e)/qou'', ''e)/qeto'', ''e)qe/meqa'', ''e)/qesqe'', ''e)/qento'', ''qe/sqai'',
           ''qe/menoj'', ''qeme/nou'', ''qe/menoi'', ''qeme/nwn'', ''qh=ke'', ''qh=ken'', ''qh=kan'', ''qe/to'', ''qe/nto'',
           ''qou='', ''qe/sqw'', ''qw=mai'', ''qh=tai'', ''qei=to'']]),
     (''pf'', [Forms [''te/qhka'', ''te/qhkaj'', ''te/qhke'', ''te/qhken'', ''teqh/kamen'', ''teqh/kasi'', ''teqh/kasin'',
           ''teqhke/nai'', ''teqhkw/j'', ''te/qeika'', ''te/qeike'', ''te/qeimai'', ''te/qeitai'', ''teqei=sqai'',
           ''teqeime/noj'', ''teqeime/noi'', ''teqeime/na'', ''e)teqh/kei'', ''te/qeitai'']]),
     (''pass'', [Forms [''e)te/qhn'', ''e)te/qhj'', ''e)te/qh'', ''e)te/qhmen'', ''e)te/qhte'', ''e)te/qhsan'', ''teqh=|'', ''teqh=nai'',
           ''teqei/j'', ''teqe/ntoj'', ''teqe/nta'', ''teqe/ntej'', ''teqei=sa'', ''teqe/n'', ''teqe/ntwn'']])]"

definition HISTEMI :: mi_parts where
  "HISTEMI =
    [(''pres'', [Forms [''i(/sthj'', ''i(/sthsi'', ''i(/sthsin'', ''i(/stamen'', ''i(/state'', ''i(sta=si'', ''i(sta=sin'']]),
     (''impf'', [Forms [''i(/sthn'', ''i(/sthj'', ''i(/sth'', ''i(/stamen'', ''i(/state'', ''i(/stasan'']]),
     (''subj'', [Forms [''i(stw='', ''i(sth=|j'', ''i(sth=|'', ''i(stw=men'', ''i(sth=te'', ''i(stw=si'', ''i(stw=sin'']]),
     (''opt'', [Forms [''i(stai/hn'', ''i(stai/hj'', ''i(stai/h'', ''i(stai=men'', ''i(stai=te'', ''i(stai=en'']]),
     (''imp'', [Forms [''i(/sth'', ''i(sta/tw'', ''i(/state'', ''i(sta/ntwn'']]),
     (''inf'', [Forms [''i(sta/nai'']]),
     (''ptc'', [Nt ''i(sta/j'' ''i(sta/nt'' ''i(sta=sa'' ''i(sta/n'' ''i(sta=si'',
         Forms [''i(sta/ntwn'']]),
     (''mid'', [Forms [''i(/stamai'', ''i(/stasai'', ''i(/statai'', ''i(sta/meqa'', ''i(/stasqe'', ''i(/stantai'', ''i(sta/mhn'',
           ''i(/staso'', ''i(/stato'', ''i(/stanto'', ''i(/stasqai''],
         Menos ''i(sta/men'']),
     (''fut'', [Forms [''sth/sw'', ''sth/seij'', ''sth/sei'', ''sth/somen'', ''sth/sete'', ''sth/sousi'', ''sth/sousin'', ''sth/sein'',
           ''sth/swn'', ''sth/somai'', ''sth/setai'', ''sth/sontai'', ''sth/sesqai'', ''staqh/somai'', ''staqh/setai'',
           ''e(sth/cw'', ''e(sth/cei'']]),
     (''aor'', [Forms [''e)/sthsa'', ''e)/sthsaj'', ''e)/sthse'', ''e)/sthsen'', ''e)sth/samen'', ''e)sth/sate'', ''e)/sthsan'',
           ''sth=sai'', ''sth/saj'', ''sth/santej'', ''sth/santoj'', ''sth=son'', ''sth/sh|'', ''sth/swsi'',
           ''e)sthsa/mhn'', ''e)sth/sato'', ''e)sth/santo'', ''sth/sasqai'', ''sthsa/menoj'', ''sthsa/menoi'', ''sth=se'',
           ''sth=sen'', ''sth=san'', ''e)/sthn'', ''e)/sthj'', ''e)/sth'', ''e)/sthmen'', ''e)/sthte'', ''stw='',
           ''sth=|j'', ''sth=|'', ''stw=men'', ''sth=te'', ''stw=si'', ''stw=sin'', ''stai/hn'', ''stai/h'', ''stai=en'',
           ''sth=qi'', ''sth/tw'', ''sth=te'', ''sth=nai'', ''sth/menai''],
         Nt ''sta/j'' ''sta/nt'' ''sta=sa'' ''sta/n'' ''sta=si'',
         Forms [''sta/ntwn'', ''sth='', ''sth=san'', ''e)/stan'', ''sta/n'']]),
     (''pf'', [Forms [''e(/sthka'', ''e(/sthkaj'', ''e(/sthke'', ''e(/sthken'', ''e(/stamen'', ''e(/state'', ''e(sta=si'',
           ''e(sta=sin'', ''e(sth/kasi'', ''e(sth/kasin'', ''e(sta/nai'', ''e(sthke/nai'', ''e(stw/j'', ''e(stw=toj'',
           ''e(stw=ti'', ''e(stw=ta'', ''e(stw=tej'', ''e(stw/twn'', ''e(stw=si'', ''e(stw=taj'', ''e(stw=sa'', ''e(sto/j'',
           ''e(sthkw/j'', ''e(sthko/tej'', ''e(sthko/ta'', ''e(sthko/twn'', ''ei(sth/kei'', ''e(sth/kei'', ''e(sth/kesan'',
           ''e(/stasan'', ''e(sth/kein'', ''e(/staqi'', ''e(stai/h'', ''e(sthw/j'', ''e(stao/tej'', ''e(/stasan'']]),
     (''pass'', [Forms [''e)sta/qhn'', ''e)sta/qh'', ''e)sta/qhsan'', ''staqh=nai'', ''staqei/j'', ''staqe/ntej'', ''staqe/ntoj'',
           ''staqei=sa'', ''staqh=|'']])]"

definition HIEMI :: mi_parts where
  "HIEMI =
    [(''pres'', [Forms [''i(/hj'', ''i(ei=j'', ''i(/hsi'', ''i(/hsin'', ''i(/emen'', ''i(/ete'', ''i(a=si'', ''i(a=sin'', ''i(ei=si'']]),
     (''impf'', [Forms [''i(/hn'', ''i(/eij'', ''i(/ei'', ''i(/emen'', ''i(/ete'', ''i(/esan'', ''i(/ein'']]),
     (''subj'', [Forms [''i(w='', ''i(h=|j'', ''i(h=|'', ''i(w=men'', ''i(h=te'', ''i(w=si'']]),
     (''opt'', [Forms [''i(ei/hn'', ''i(ei/h'', ''i(ei=en'']]),
     (''imp'', [Forms [''i(/ei'', ''i(e/tw'', ''i(/ete'', ''i(e/ntwn'']]),
     (''inf'', [Forms [''i(e/nai'']]),
     (''ptc'', [Nt ''i(ei/j'' ''i(e/nt'' ''i(ei=sa'' ''i(e/n'' ''i(ei=si'',
         Forms [''i(e/ntwn'']]),
     (''mid'', [Forms [''i(/emai'', ''i(/esai'', ''i(/etai'', ''i(e/meqa'', ''i(/esqe'', ''i(/entai'', ''i(e/mhn'', ''i(/eto'',
           ''i(/ento'', ''i(/esqai''],
         Menos ''i(e/men'']),
     (''fut'', [Forms [''h(/sw'', ''h(/seij'', ''h(/sei'', ''h(/somen'', ''h(/sete'', ''h(/sousi'', ''h(/sein'', ''h(/somai'',
           ''h(/setai'', ''h(/sesqai'']]),
     (''aor'', [Forms [''h(=ka'', ''h(=kaj'', ''h(=ke'', ''h(=ken'', ''ei(=men'', ''ei(=te'', ''ei(=san'', ''h(/kamen'', ''h(=kan'',
           ''w(='', ''h(=|j'', ''h(=|'', ''w(=men'', ''h(=te'', ''w(=si'', ''w(=sin'', ''ei(/hn'', ''ei(/h'', ''ei(=men'',
           ''ei(=en'', ''e(/j'', ''e(/tw'', ''e(/te'', ''e(/ntwn'', ''ei(=nai'', ''e(/menai''],
         Nt ''ei(/j'' ''e(/nt'' ''ei(=sa'' ''e(/n'' ''ei(=si'',
         Forms [''e(/ntwn'', ''ei(/mhn'', ''ei(=to'', ''ei(=nto'', ''e(/sqai'', ''e(/menoj'', ''e(/menoi'', ''h(=ke'',
           ''e(/hka'', ''e(/hke'', ''e(/hken'', ''h(=kan'', ''e(/san'', ''e(/to'']]),
     (''pf'', [Forms [''ei(=ka'', ''ei(=ke'', ''ei(=mai'', ''ei(=tai'', ''ei(=ntai'', ''ei(=sqai'', ''ei(me/noj'', ''ei(me/noi'',
           ''ei(me/na'']]),
     (''pass'', [Forms [''ei(/qhn'', ''ei(/qh'', ''ei(/qhsan'', ''e(qh=nai'', ''e(qei/j'', ''e(qe/ntej'', ''e)qei/j'', ''e)qe/ntoj'',
           ''e(qh=|'']])]"

definition DEIKNYMI :: mi_parts where
  "DEIKNYMI =
    [(''pres'', [Forms [''dei/knuj'', ''dei/knusi'', ''dei/knusin'', ''dei/knumen'', ''dei/knute'', ''deiknu/asi'', ''deiknu/asin'',
           ''deiknu/ousi'', ''deiknu/ei'', ''deiknu/eij'', ''deiknu/w'', ''deiknu/omen'']]),
     (''impf'', [Forms [''e)dei/knun'', ''e)dei/knuj'', ''e)dei/knu'', ''e)dei/knumen'', ''e)dei/knute'', ''e)dei/knusan'',
           ''e)dei/knue'', ''e)dei/knuon'']]),
     (''subj'', [Forms [''deiknu/w'', ''deiknu/h|j'', ''deiknu/h|'', ''deiknu/wmen'', ''deiknu/hte'', ''deiknu/wsi'']]),
     (''opt'', [Forms [''deiknu/oimi'', ''deiknu/oij'', ''deiknu/oi'', ''deiknu/oimen'', ''deiknu/oite'', ''deiknu/oien'']]),
     (''imp'', [Forms [''dei/knu'', ''deiknu/tw'', ''dei/knute'', ''deiknu/ntwn'']]),
     (''inf'', [Forms [''deiknu/nai'', ''deiknu/ein'']]),
     (''ptc'', [Nt ''deiknu/j'' ''deiknu/nt'' ''deiknu=sa'' ''deiknu/n'' ''deiknu=si'',
         Forms [''deiknu/ntwn'', ''deiknu/wn'', ''deiknu/ontoj'', ''deiknu/ontej'']]),
     (''mid'', [Forms [''dei/knumai'', ''dei/knusai'', ''dei/knutai'', ''deiknu/meqa'', ''dei/knusqe'', ''dei/knuntai'',
           ''e)deiknu/mhn'', ''e)dei/knuto'', ''e)dei/knunto'', ''dei/knusqai''],
         Menos ''deiknu/men''])]"

text \<open>\<open>...(t.key ?? [])\<close>\<close>

definition mi_part :: "mi_parts \<Rightarrow> string \<Rightarrow> ath_segment list" where
  "mi_part parts k = (case map_of parts k of Some segs \<Rightarrow> segs | None \<Rightarrow> [])"

definition MI_PARTS :: "string list" where
  "MI_PARTS = [''pres'', ''impf'', ''subj'', ''opt'', ''imp'', ''inf'', ''ptc'', ''mid'', ''fut'', ''aor'', ''pf'', ''pass'']"

definition mi_verb :: "js_env \<Rightarrow> string \<times> mi_parts \<Rightarrow> gen_op" where
  "mi_verb env = (\<lambda>(lemma_text, parts).
     let compound = (if gk lemma_text = gk ''i(/sthmi'' then Some (gk ''isthmi'')
         else if gk lemma_text = gk ''i(/hmi'' then Some (gk ''ihmi'') else None)
     in athematic_verb env (plain_ath\<lparr>ao_compoundLemma := compound\<rparr>)
       (lemma_text, map (\<lambda>k. (''ath-'' @ k, mi_part parts k)) MI_PARTS))"

definition mi_verbs :: "(string \<times> mi_parts) list" where
  "mi_verbs = [(''di/dwmi'', DIDOMI), (''ti/qhmi'', TITHEMI), (''i(/sthmi'', HISTEMI), (''i(/hmi'', HIEMI),
     (''dei/knumi'', DEIKNYMI)]"

section \<open>Compounds\<close>

definition COMPOUND_PREVERBS :: "(jstr \<times> jstr) list" where
  "COMPOUND_PREVERBS = gk_pairs
    [('''', ''i(''), (''kata'', ''kaq''), (''kat'', ''kaq''), (''a)po'', ''a)f''), (''a)p'', ''a)f''),
     (''e)pi'', ''e)f''), (''e)p'', ''e)f''), (''u(po'', ''u(f''), (''u(p'', ''u(f''), (''meta'', ''meq''),
     (''met'', ''meq''), (''a)nti'', ''a)nq''), (''a)nt'', ''a)nq''), (''a)na'', ''a)n''), (''para'', ''par''),
     (''dia'', ''di''), (''su'', ''sun''), (''cu'', ''cun''), (''e)k'', ''e)c''), (''pro'', ''proi+''),
     (''a)mfi'', ''a)mf''), (''e)pana'', ''e)pan''), (''a)ntikata'', ''a)ntikaq''), (''sugkata'', ''sugkaq''),
     (''a)pokata'', ''a)pokaq''), (''parakata'', ''parakaq''), (''sunapo'', ''sunaf''), (''e)cana'', ''e)can''),
     (''e)pikata'', ''e)pikaq'')]"

definition compound_lemma :: "js_env \<Rightarrow> jstr \<Rightarrow> jstr \<times> jstr \<Rightarrow> gen_op" where
  "compound_lemma env verb = (\<lambda>(x, y).
     let from_form = x @ verb;
         to = (if y = gk ''proi+'' then gk ''proi+'' @ drop 1 verb else if y = gk ''i('' then gk ''i('' @ drop 1 verb else y @ verb)
     in only_if (from_form \<noteq> to)
       (add env (js ''compound'') (plain_rule ''wholeWord'' (toNFC env from_form) (toNFC env to) [js ''v''] [js ''v''] [])))"

definition buildAthematicCompounds :: "js_env \<Rightarrow> gen_op" where
  "buildAthematicCompounds env = run_ops
    [transform (js ''compound'') (js ''compound'')
        (tx ''The dictionary form of a compound of {i(/sthmi} or {i(/hmi}: the preverb before a rough breathing ({katasth/saj} {>} {kaqi/sthmi}, {a)pe/sth} {>} {a)fi/sthmi}, {a)fei=nai} {>} {a)fi/hmi}).''),
     each (\<lambda>verb. each (compound_lemma env verb) COMPOUND_PREVERBS) (gks [''isthmi'', ''ihmi''])]"

section \<open>Root aorists and the rest\<close>

definition ROOT_AORISTS :: "(string \<times> ath_rows) list" where
  "ROOT_AORISTS =
    [(''bai/nw'',
    [(''ath-aor'', [Forms [''e)/bhn'', ''e)/bhj'', ''e)/bh'', ''e)/bhmen'', ''e)/bhte'', ''e)/bhsan'', ''e)/ban'', ''bh='', ''bh=n'',
           ''ba/n'', ''bw='', ''bh=|j'', ''bh=|'', ''bw=men'', ''bh=te'', ''bw=si'', ''bw=sin'', ''bai/hn'', ''bai/hj'',
           ''bai/h'', ''bai=men'', ''bai=te'', ''bai=en'', ''bh=qi'', ''bh/tw'', ''bh=te'', ''ba/ntwn'', ''bh=nai'',
           ''bh/menai'', ''bh=men''],
         Nt ''ba/j'' ''ba/nt'' ''ba=sa'' ''ba/n'' ''ba=si''])]),
     (''gignw/skw'',
    [(''ath-aor'', [Forms [''e)/gnwn'', ''e)/gnwj'', ''e)/gnw'', ''e)/gnwmen'', ''e)/gnwte'', ''e)/gnwsan'', ''gnw='', ''gnw=|j'',
           ''gnw=|'', ''gnw=men'', ''gnw=te'', ''gnw=si'', ''gnw=sin'', ''gnoi/hn'', ''gnoi/hj'', ''gnoi/h'', ''gnoi=men'',
           ''gnoi=te'', ''gnoi=en'', ''gnw=qi'', ''gnw/tw'', ''gnw=nai'', ''gnw/menai''],
         Nt ''gnou/j'' ''gno/nt'' ''gnou=sa'' ''gno/n'' ''gnou=si'',
         Forms [''gnw='', ''gnw=san'', ''gnw/w'']])]),
     (''ginw/skw'',
    [(''ath-aor'', [Forms [''e)/gnwn'', ''e)/gnw'', ''e)/gnwsan'', ''gnw=nai'', ''gnou/j'', ''gno/ntej'', ''gnw=|'']])]),
     (''du/w'',
    [(''ath-aor'', [Forms [''e)/dun'', ''e)/duj'', ''e)/du'', ''e)/dumen'', ''e)/dute'', ''e)/dusan'', ''du='', ''du=nai'', ''du/menai'',
           ''du=qi''],
         Nt ''du/j'' ''du/nt'' ''du=sa'' ''du/n'' ''du=si'',
         Forms [''du/w'', ''du/h|'']])]),
     (''fu/w'',
    [(''ath-aor'', [Forms [''e)/fun'', ''e)/fuj'', ''e)/fu'', ''e)/fumen'', ''e)/fute'', ''e)/fusan'', ''fu='', ''fu=nai''],
         Nt ''fu/j'' ''fu/nt'' ''fu=sa'' ''fu/n'' ''fu=si'',
         Forms [''fu/w'', ''fu/h|'']])]),
     (''fqa/nw'',
    [(''ath-aor'', [Forms [''e)/fqhn'', ''e)/fqhj'', ''e)/fqh'', ''e)/fqhmen'', ''e)/fqhte'', ''e)/fqhsan'', ''fqh='', ''fqh=nai'',
           ''fqai/h'', ''fqa/j'', ''fqa/ntej'', ''fqa/nta''],
         Menos ''fqamen'',
         Forms [''fqa/saj'', ''fqa/sai'', ''e)/fqasa'', ''e)/fqase'', ''e)/fqasen'', ''fqh/somai'', ''fqh/setai'']])]),
     (''a(li/skomai'',
    [(''ath-aor'', [Forms [''e(a/lwn'', ''e(a/lwj'', ''e(a/lw'', ''e(a/lwmen'', ''e(a/lwsan'', ''h(/lwn'', ''h(/lw'', ''h(/lwsan'',
           ''a(lw='', ''a(lw=|'', ''a(lw=si'', ''a(loi/hn'', ''a(loi/h'', ''a(lw=nai''],
         Nt ''a(lou/j'' ''a(lo/nt'' ''a(lou=sa'' ''a(lo/n'' ''a(lou=si'',
         Forms [''a(lw/somai'', ''a(lw/setai'', ''e(a/lwka'', ''e(a/lwke'', ''e(alw/kasi'', ''h(/lwka'', ''h(/lwke''],
         Nt ''e(alwkw/j'' ''e(alwko/t'' ''e(alwkui=a'' ''e(alwko/j'' ''e(alwko/si''])]),
     (''bio/w'',
    [(''ath-aor'', [Forms [''e)bi/wn'', ''e)bi/wj'', ''e)bi/w'', ''e)bi/wsan'', ''biw=nai'', ''biw=|'', ''bioi/hn''],
         Nt ''biou/j'' ''bio/nt'' ''biou=sa'' ''bio/n'' ''biou=si''])]),
     (''sbe/nnumi'',
    [(''ath-aor'', [Forms [''e)/sbhn'', ''e)/sbh'', ''sbh=nai'']])]),
     (''pe/tomai'',
    [(''ath-aor'', [Forms [''e)pta/mhn'', ''e)/ptato'', ''e)/ptanto'', ''pta/sqai''],
         Menos ''ptamen'',
         Forms [''pth=nai'', ''e)/pthn'', ''e)/pth'']])]),
     (''e)/xw'',
    [(''ath-imp'', [Forms [''sxe/j'', ''sxe/tw'', ''sxe/te'', ''sxei=n'', ''sxoi/hn'', ''sxoi/h'', ''sxw='', ''sxh=|'', ''sxw=si'']])]),
     (''pi/nw'',
    [(''ath-imp'', [Forms [''pi=qi'', ''pi/e'']])])]"

definition AMAI_ENDINGS :: "jstr list" where
  "AMAI_ENDINGS = gks
    [''asai'', ''atai'', ''ameqa'', ''amesqa'', ''asqe'', ''antai'', ''amhn'', ''aso'', ''ato'', ''anto'', ''asqai'',
     ''amenoj'', ''amenou'', ''amenw|'', ''amenon'', ''amenoi'', ''amenwn'', ''amenoij'', ''amenouj'', ''amenh'',
     ''amenhj'', ''amenh|'', ''amenhn'', ''amenai'', ''amena'', ''amenoio'', ''amenoisi'', ''amenoisin'']"

definition NO_COMPOUNDS :: "(string \<times> ath_rows) list" where
  "NO_COMPOUNDS =
    [(''oi)=da'',
    [(''ath-pf'', [Forms [''su/noida'']])]),
     (''ei)=mi'',
    [(''ath-fut'', [Forms [''ei)/somai'', ''ei)/setai'', ''ei)so/meqa'', ''ei)/sontai'']])])]"

definition LAST_VERBS :: "(string \<times> ath_rows) list" where
  "LAST_VERBS =
    [(''e)/oika'',
    [(''ath-pf'', [Forms [''e)/oikaj'', ''e)/oike'', ''e)/oiken'', ''e)oi/kamen'', ''e)/oigmen'', ''e)oi/kate'', ''e)oi/kasi'',
           ''e)oi/kasin'', ''ei)/casi'', ''e)oike/nai'', ''ei)ke/nai''],
         Nt ''e)oikw/j'' ''e)oiko/t'' ''e)oikui=a'' ''e)oiko/j'' ''e)oiko/si'',
         Nt ''ei)kw/j'' ''ei)ko/t'' ''ei)kui=a'' ''ei)ko/j'' ''ei)ko/si'']),
       (''ath-plpf'', [Forms [''e)w/|kein'', ''e)w/|kei'', ''e)w/|kesan'', ''e)w/|kh'', ''e)oi/kei'']])]),
     (''dei/dw'',
    [(''ath-pf'', [Forms [''de/doika'', ''de/doikaj'', ''de/doike'', ''de/doiken'', ''dedoi/kamen'', ''dedoi/kate'', ''dedoi/kasi'',
           ''dedoi/kasin'', ''de/dia'', ''de/diaj'', ''de/die'', ''de/dien'', ''de/dimen'', ''de/dite'', ''dedi/asi'',
           ''dedi/asin'', ''dei/dia'', ''dei/die'', ''dei/dimen'', ''dei/dite'', ''dedie/nai'', ''dedoike/nai''],
         Nt ''dedoikw/j'' ''dedoiko/t'' ''dedoikui=a'' ''dedoiko/j'' ''dedoiko/si'',
         Nt ''dediw/j'' ''dedio/t'' ''dediui=a'' ''dedio/j'' ''dedio/si'',
         Forms [''dei/diqi'', ''de/diqi'']]),
       (''ath-plpf'', [Forms [''e)dedoi/kein'', ''e)dedoi/kei'', ''e)dedi/esan'', ''e)dedi/ei'', ''dei/disan'']])]),
     (''ghra/skw'',
    [(''ath-aor'', [Forms [''e)gh/ra'', ''ghra=nai'', ''ghra/nai'', ''ghra/j'', ''ghra/nta'', ''ghra/saj'']])])]"

definition NYMI_ENDINGS :: "jstr list" where
  "NYMI_ENDINGS = gks
    [''nuj'', ''nusi'', ''nusin'', ''numen'', ''nute'', ''nuasi'', ''nuasin'', ''nun'', ''nu'', ''nunai'', ''nuj'',
     ''nuntoj'', ''nunti'', ''nunta'', ''nuntej'', ''nuntwn'', ''nusa'', ''nun'', ''numai'', ''nusai'', ''nutai'',
     ''numeqa'', ''nusqe'', ''nuntai'', ''numhn'', ''nuto'', ''nunto'', ''nusqai'', ''numenoj'', ''numenou'',
     ''numenon'', ''numenoi'', ''numenwn'', ''numenh'', ''numenhn'', ''numena'']"

definition NYMI_AUGMENTED :: "jstr list" where
  "NYMI_AUGMENTED = gks
    [''nun'', ''nu'', ''nuj'', ''numen'', ''nute'', ''nusan'', ''numhn'', ''nuso'', ''nuto'', ''numeqa'', ''nusqe'',
     ''nunto'']"

definition nymi_ending :: "js_env \<Rightarrow> jstr \<Rightarrow> gen_op" where
  "nymi_ending env e = run_ops
    [suffix env (js ''nymi'') e (gk ''numi'') [] [js ''v''] (no_opts\<lparr>eo_then := Some THEN_STRIP_ACCENTS\<rparr>),
     only_if (e \<in> set NYMI_AUGMENTED)
       (suffix env (js ''nymi'') e (gk ''numi'') [] [js ''aug''] (no_opts\<lparr>eo_then := Some THEN_STRIP_ACCENTS\<rparr>))]"

definition amai_ending :: "js_env \<Rightarrow> jstr \<Rightarrow> gen_op" where
  "amai_ending env e = suffix env (js ''amai'') e (gk ''amai'') [] [js ''v'']
     (no_opts\<lparr>eo_then := Some THEN_STRIP_ACCENTS, eo_stem := [(js ''stemMinLength'', JNum 2)]\<rparr>)"

definition buildAthematic :: "js_env \<Rightarrow> gen_op" where
  "buildAthematic env = run_ops
    [each (athematic_verb env plain_ath) first_verbs,
     deponents env,
     each (mi_verb env) mi_verbs,
     buildAthematicCompounds env,
     each (athematic_verb env plain_ath) ROOT_AORISTS,
     transform (js ''amai'') (tx ''present (-{amai})'')
        (tx ''Present system of an athematic -{amai} verb: -{asai}, -{atai}, -{a/meqa}, -{asqe}, -{antai}, -{a/mhn}, -{ato}, -{anto}, -{asqai}, -{a/menoj}.''),
     each (amai_ending env) AMAI_ENDINGS,
     each (athematic_verb env (plain_ath\<lparr>ao_compound := False\<rparr>)) NO_COMPOUNDS,
     each (athematic_verb env plain_ath) LAST_VERBS,
     transform (js ''nymi'') (tx ''present (-{numi})'')
        (tx ''Present system of a -{numi} verb: -{nuj}, -{nusi}, -{numen}, -{nute}, -{nu/asi}; -{nun}, -{nu}; -{nu/nai}; -{nu/j}, -{nu/ntoj}; -{numai}, -{nutai}, -{nusqai}, -{nu/menoj}.''),
     each (nymi_ending env) NYMI_ENDINGS]"

end
