(* ===== verification/Own_Closed.thy ===== *)
theory Own_Closed
  imports Own_Athematic
begin

text \<open>
  The closed classes of languages/grc/sources/own-rules.mjs: the article, the pronouns, the numerals and other words with
  paradigms of their own. A call of \<open>closed\<close> makes its transform and notes its forms in \<open>PENDING_CLOSED\<close>;
  \<open>flushClosed\<close> then writes their rules, when all dictionary forms are known. The list of the script is empty before and
  after \<open>buildClosedClasses\<close>, its only user.
\<close>

record closed_opts =
  co_out :: "jstr list option"
  co_whole :: bool

definition plain_closed :: closed_opts where
  "plain_closed = \<lparr>co_out = None, co_whole = False\<rparr>"

definition out_n :: closed_opts where
  "out_n = plain_closed\<lparr>co_out := Some [js ''n'']\<rparr>"

definition out_adj :: closed_opts where
  "out_adj = plain_closed\<lparr>co_out := Some [js ''adj'']\<rparr>"

definition out_v :: closed_opts where
  "out_v = plain_closed\<lparr>co_out := Some [js ''v'']\<rparr>"

definition whole_only :: closed_opts where
  "whole_only = plain_closed\<lparr>co_whole := True\<rparr>"

text \<open>An entry of \<open>PENDING_CLOSED\<close>, and the arguments of a call of \<open>closed\<close>.\<close>

record pending =
  pd_transform :: jstr
  pd_form :: jstr
  pd_lemma :: jstr
  pd_opts :: closed_opts

record closed_call =
  cc_transform :: jstr
  cc_name :: jstr
  cc_description :: jstr
  cc_lemma :: jstr
  cc_forms :: "jstr list"
  cc_opts :: closed_opts

definition closed_call_of :: "string \<Rightarrow> string \<Rightarrow> jstr \<Rightarrow> jstr \<Rightarrow> closed_opts \<Rightarrow> jstr list \<Rightarrow> closed_call" where
  "closed_call_of tid name description l opts forms =
     \<lparr>cc_transform = js tid, cc_name = js name, cc_description = description, cc_lemma = l, cc_forms = forms, cc_opts = opts\<rparr>"

definition closed_row :: "string \<Rightarrow> string \<Rightarrow> jstr \<Rightarrow> string \<Rightarrow> closed_opts \<Rightarrow> jstr list \<Rightarrow> closed_call" where
  "closed_row tid name description l = closed_call_of tid name description (gk l)"

section \<open>Comparison\<close>

text \<open>The beginnings an entry's expression accepts, and the headword.\<close>

definition COMPARISON_LEMMAS :: "(jstr list \<times> jstr) list" where
  "COMPARISON_LEMMAS = map (\<lambda>(alternatives, l). (gks alternatives, gk l))
    [([''amein''], ''a)mei/nwn''), ([''beltist''], ''be/ltistoj''), ([''belti''], ''belti/wn''),
     ([''kreitt'', ''kreiss''], ''krei/sswn''), ([''arist''], ''a)/ristoj''), ([''kratist''], ''kra/tistoj''),
     ([''xeirist''], ''xei/ristoj''), ([''xeir''], ''xei/rwn''), ([''hkist''], ''h(/kistoj''),
     ([''htt'', ''hss''], ''h(/sswn''), ([''megist''], ''me/gistoj''), ([''meiz'', ''mez''], ''mei/zwn''),
     ([''pleist''], ''plei=stoj''), ([''ple''], ''plei/wn''), ([''elaxist''], ''e)la/xistoj''),
     ([''elatt'', ''elass''], ''e)la/sswn''), ([''mei''], ''mei/wn''), ([''qatt'', ''qass''], ''qa/sswn'')]"

definition comparison_lemma :: "jstr \<Rightarrow> jstr option" where
  "comparison_lemma plain_form =
     map_option snd (find (\<lambda>(alternatives, l). list_ex (starts_with plain_form) alternatives) COMPARISON_LEMMAS)"

definition rhoComparison :: "jstr \<Rightarrow> jstr \<Rightarrow> jstr list" where
  "rhoComparison stem unmarked =
     map (\<lambda>e. unmarked @ e) (gks [''i/wn'', ''i/onoj'', ''i/oni'', ''i/ona'', ''i/w'', ''i/onej'', ''i/ouj'', ''io/nwn'', ''i/osi'', ''i/osin'']) @
     [stem @ gk ''ion''] @
     map (\<lambda>e. unmarked @ e) (gks [''i/sth'', ''i/stou'', ''i/sthj'', ''i/stw|'', ''i/sth|'', ''i/sthn'', ''i/stwn'', ''i/stoij'', ''i/staij'',
     ''i/stouj'', ''i/staj'']) @
     map (\<lambda>e. stem @ e) (gks [''istoj'', ''iston'', ''istoi'', ''istai'', ''ista''])"

section \<open>Notes and rules\<close>

definition closed_form :: "js_env \<Rightarrow> closed_call \<Rightarrow> jstr \<Rightarrow> pending list" where
  "closed_form env c f =
     (if f = [] \<or> toNFC env f = toNFC env (cc_lemma c) then []
      else
        let own = (if cc_transform c = js ''comparison'' then comparison_lemma (stripAll env f) else None);
            target = (case own of Some l \<Rightarrow> l | None \<Rightarrow> cc_lemma c)
        in if toNFC env f = toNFC env target then []
           else [\<lparr>pd_transform = cc_transform c, pd_form = toNFC env f, pd_lemma = toNFC env target, pd_opts = cc_opts c\<rparr>])"

definition closed :: "js_env \<Rightarrow> pending list \<times> gen \<Rightarrow> closed_call \<Rightarrow> own_error + (pending list \<times> gen)" where
  "closed env = (\<lambda>(p, s) c. bindE (transform (cc_transform c) (cc_name c) (cc_description c) s) (\<lambda>s'.
     Inr (p @ concat (map (closed_form env c) (cc_forms c)), s')))"

definition loops :: "js_env \<Rightarrow> jstr list \<Rightarrow> jstr \<Rightarrow> bool" where
  "loops env lemmas f \<longleftrightarrow> list_ex (\<lambda>l. ends_with l f \<or> ends_with (stripAll env l) (stripAll env f)) lemmas"

definition flush_one :: "js_env \<Rightarrow> jstr list \<Rightarrow> pending \<Rightarrow> gen_op" where
  "flush_one env lemmas p =
     (let out = (case co_out (pd_opts p) of Some out \<Rightarrow> out | None \<Rightarrow> []);
          rule = (if 4 \<le> length (cp_values (pd_form p)) \<and> \<not> co_whole (pd_opts p) \<and> \<not> loops env lemmas (pd_form p)
            then suffix else whole)
      in rule env (pd_transform p) (pd_form p) (pd_lemma p) [] out (no_opts\<lparr>eo_writtenOnly := True\<rparr>))"

definition flushClosed :: "js_env \<Rightarrow> pending list \<Rightarrow> gen_op" where
  "flushClosed env ps = each (flush_one env (ls_of (map pd_lemma ps))) ps"

section \<open>The classes\<close>

definition CLOSED_DESCRIPTION :: jstr where
  "CLOSED_DESCRIPTION = js ''Forms of the article, pronouns and numerals, which have paradigms of their own.''"

definition ARTICLE_PRONOUNS :: "closed_call list" where
  "ARTICLE_PRONOUNS =
    [closed_row ''article'' ''article'' (tx ''The definite article {o(}, {h(}, {to/}.'') ''o('' whole_only
      (gks [''h('', ''to/'', ''tou='', ''th=j'', ''tw=|'', ''th=|'', ''to/n'', ''th/n'', ''oi('', ''ai('', ''ta/'', ''tw=n'',
        ''toi=j'', ''tai=j'', ''tou/j'', ''ta/j'', ''tw/'', ''toi=n'', ''tai=n'', ''toi=si'', ''toi=sin'', ''th=|si'',
        ''th=|sin'', ''toi/'', ''tai/'', ''toi=o'', ''ta/wn'', ''ta=j'', ''ta=|'', ''ta/n'', ''a('']),
     closed_row ''pronoun'' ''pronoun'' (CLOSED_DESCRIPTION) ''e)gw/'' plain_closed
      (gks [''e)mou='', ''mou'', ''e)moi/'', ''moi'', ''e)me/'', ''me'', ''e)mei=o'', ''e)me/o'', ''e)meu='', ''meu'',
        ''e)me/qen'', ''e)/gwge'', ''e)/moige'', ''e)/mege'', ''e)gw/n'', ''moi/'', ''me/'', ''mou/'', ''gw/'', ''gw`'',
        ''nw='', ''nw=|n'', ''nw=i'', ''nw=i+'', ''nw=in'', ''nw=i+n'']),
     closed_row ''pronoun'' ''pronoun'' (CLOSED_DESCRIPTION) ''sfei=j'' plain_closed
      (gks [''sfw=n'', ''sfi/si'', ''sfi/sin'', ''sfa=j'', ''sfe/aj'', ''sfeaj'', ''sfe/wn'', ''sfe'', ''sfi'', ''sfin'',
        ''sfwe'', ''sfwi+n'', ''sfe/a'', ''sfea'']),
     closed_row ''pronoun'' ''pronoun'' (CLOSED_DESCRIPTION) ''h(mei=j'' plain_closed
      (gks [''h(mw=n'', ''h(mi=n'', ''h(ma=j'', ''h(me/wn'', ''h(mei=wn'', ''h(mi=n'', ''h(=min'', ''h(me/aj'', ''a)/mmej'',
        ''a)/mmi'', ''a)/mme'', ''nw='', ''nw=|n'', ''nw=i'', ''nw=i+'']),
     closed_row ''pronoun'' ''pronoun'' (CLOSED_DESCRIPTION) ''su/'' plain_closed
      (gks [''sou='', ''sou'', ''soi/'', ''soi'', ''se/'', ''se'', ''toi'', ''sei=o'', ''se/o'', ''seu='', ''seu'',
        ''teoi=o'', ''se/qen'', ''tu/nh'', ''toi/'', ''te/'', ''su/ge'', ''tu'', ''ti/n'', ''tei+/n'']),
     closed_row ''pronoun'' ''pronoun'' (CLOSED_DESCRIPTION) ''u(mei=j'' plain_closed
      (gks [''u(mw=n'', ''u(mi=n'', ''u(ma=j'', ''u(me/wn'', ''u(/mmej'', ''u)/mmej'', ''u(/mmi'', ''u)/mmi'', ''u(/mme'',
        ''u)/mme'', ''u(me/aj'', ''sfw=i+'', ''sfw=|n'', ''sfw/'', ''sfw=in'']),
     closed_row ''pronoun'' ''pronoun'' (CLOSED_DESCRIPTION) ''ou(='' plain_closed
      (gks [''ou('', ''oi(='', ''oi('', ''e(/'', ''e('', ''sfei=j'', ''sfw=n'', ''sfi/si'', ''sfi/sin'', ''sfa=j'',
        ''sfe/a'', ''sfe'', ''sfi'', ''sfin'', ''sfaj'', ''sfe/wn'', ''sfewn'', ''e(ou='', ''ei(=o'', ''e(/o'', ''e(e/'',
        ''e(oi='', ''e(/qen'', ''min'', ''nin'', ''sfisi'', ''sfisin'']),
     closed_row ''pronoun'' ''pronoun'' (CLOSED_DESCRIPTION) ''au)to/j'' plain_closed
      (gks [''au)th/'', ''au)to/'', ''au)tou='', ''au)th=j'', ''au)tw=|'', ''au)th=|'', ''au)to/n'', ''au)th/n'',
        ''au)toi/'', ''au)tai/'', ''au)ta/'', ''au)tw=n'', ''au)toi=j'', ''au)tai=j'', ''au)tou/j'', ''au)ta/j'',
        ''au)tw/'', ''au)toi=n'', ''au)toi=si'', ''au)toi=sin'', ''au)th=|si'', ''au)th=|sin'', ''au)te/wn'',
        ''au)te/ou'', ''au)toi=o'', ''au)th=fi'', ''au)to/fi'', ''au)ta/wn'', ''au)toi`'', ''au)ta=j'', ''au)ta=|'',
        ''au)ta/n'']),
     closed_row ''pronoun'' ''pronoun'' (CLOSED_DESCRIPTION) ''ou(=toj'' plain_closed
      (gks [''au(/th'', ''tou=to'', ''tou/tou'', ''tau/thj'', ''tou/tw|'', ''tau/th|'', ''tou=ton'', ''tau/thn'',
        ''ou(=toi'', ''au(=tai'', ''tau=ta'', ''tou/twn'', ''tou/toij'', ''tau/taij'', ''tou/touj'', ''tau/taj'',
        ''tou/tw'', ''tou/toin'', ''tou/toisi'', ''tou/toisin'', ''tau/th|si'', ''tau/th|sin'', ''toute/wn'',
        ''toute/ou'', ''toute/w|'', ''toute/wn'', ''taute/wn'', ''ou(tosi/'', ''au(thi/'', ''touti/'', ''toutoui/'',
        ''tauthi/'', ''toutoni/'', ''tauti/'', ''toutoisi/'', ''ou(tosi/n'', ''toutoi+/'', ''tauth|i/'']),
     closed_row ''pronoun'' ''pronoun'' (CLOSED_DESCRIPTION) ''o(/de'' plain_closed
      (gks [''h(/de'', ''to/de'', ''tou=de'', ''th=sde'', ''tw=|de'', ''th=|de'', ''to/nde'', ''th/nde'', ''oi(/de'',
        ''ai(/de'', ''ta/de'', ''tw=nde'', ''toi=sde'', ''tai=sde'', ''tou/sde'', ''ta/sde'', ''toi=sdesi'',
        ''toi=sdessi'', ''toi/sdessi'', ''toi/sdesi'', ''toisi/de'', ''tw/de'', ''toi=nde'', ''o(di/'', ''h(di/'',
        ''todi/'', ''toudi/'', ''tw|di/'', ''tondi/'', ''thndi/'', ''tadi/'', ''ta=sde'', ''ta/nde''])] @
    map (\<lambda>(l, stem). closed_call_of ''pronoun'' ''pronoun'' (CLOSED_DESCRIPTION) l plain_closed
        (map (\<lambda>e. stem @ e) (gks [''a/de'', ''o/nde'', ''ou=de'', ''a=sde'', ''w=|de'', ''a=|de'', ''a/nde'', ''oi/de'', ''ai/de'', ''w=nde'',
          ''oi=sde'', ''ai=sde'', ''ou/sde'', ''a/sde'', ''h/de'', ''h=sde'', ''h=|de'', ''h/nde'', ''o/nd~'', ''a/d~'',
          ''a/nd~'', ''oi/d~'', ''ai/d~''])))
      (gk_pairs [(''toio/sde'', ''toi''), (''toso/sde'', ''tos''), (''thliko/sde'', ''thlik'')]) @
    [closed_row ''pronoun'' ''pronoun'' (CLOSED_DESCRIPTION) ''e)kei=noj'' plain_closed
      (gks [''e)kei/nh'', ''e)kei=no'', ''e)kei/nou'', ''e)kei/nhj'', ''e)kei/nw|'', ''e)kei/nh|'', ''e)kei=non'',
        ''e)kei/nhn'', ''e)kei=noi'', ''e)kei=nai'', ''e)kei=na'', ''e)kei/nwn'', ''e)kei/noij'', ''e)kei/naij'',
        ''e)kei/nouj'', ''e)kei/naj'', ''kei=noj'', ''kei/nh'', ''kei=no'', ''kei/nou'', ''kei/nhj'', ''kei/nw|'',
        ''kei/nh|'', ''kei=non'', ''kei/nhn'', ''kei=noi'', ''kei=nai'', ''kei=na'', ''kei/nwn'', ''kei/noij'',
        ''kei/nouj'', ''kei/naj'', ''kei/noisi'', ''e)keinosi/'', ''e)keinoui/'', ''e)kei/noisi'', ''kei=noi''])]"

definition RELATIVES :: "closed_call list" where
  "RELATIVES =
    [closed_row ''pronoun'' ''pronoun'' (CLOSED_DESCRIPTION) ''o(/j'' plain_closed
      (gks [''h(/'', ''o(/'', ''ou(='', ''h(=j'', ''w(=|'', ''h(=|'', ''o(/n'', ''h(/n'', ''oi(/'', ''ai(/'', ''a(/'',
        ''w(=n'', ''oi(=j'', ''ai(=j'', ''ou(/j'', ''a(/j'', ''o(/ou'', ''ou(='', ''h(=si'', ''oi(=si'', ''oi(=sin'',
        ''h(=|si'', ''h(=|sin'', ''h(=j'', ''e(/hj'', ''o(/o'', ''a(=j'', ''a(/n'']),
     closed_row ''pronoun'' ''pronoun'' (CLOSED_DESCRIPTION) ''o(/stij'' plain_closed
      (gks [''h(/tij'', ''o(/ti''] @ [tx ''{o(/} {ti}''] @ gks [''ou(=tinoj'', ''o(/tou'', ''h(=stinoj'', ''w(=|tini'', ''o(/tw|'', ''h(=|tini'', ''o(/ntina'', ''h(/ntina'',
        ''oi(/tinej'', ''ai(/tinej'', ''a(/tina'', ''a(/tta'', ''w(=ntinwn'', ''o(/twn'', ''oi(=stisi'', ''oi(=stisin'',
        ''o(/toij'', ''ai(=stisi'', ''ou(/stinaj'', ''a(/stinaj'', ''o(/teo'', ''o(/tteo'', ''o(/teu'', ''o(/tew|'',
        ''o(/tewn'', ''o(/teoisi'', ''o(/tti'', ''o(/ntin'', ''o(/tij'', ''o(/tina'', ''o(/tinaj'', ''o(/tinej'']),
     closed_row ''pronoun'' ''pronoun'' (CLOSED_DESCRIPTION) ''ti/j'' plain_closed
      (gks [''ti/'', ''ti/noj'', ''tou='', ''ti/ni'', ''tw=|'', ''ti/na'', ''ti/nej'', ''ti/nwn'', ''ti/si'', ''ti/sin'',
        ''ti/naj'', ''te/o'', ''teu='', ''te/w|'', ''te/wn'', ''te/oisi'', ''ti/pte'', ''ti/h'']),
     closed_row ''pronoun'' ''pronoun'' (CLOSED_DESCRIPTION) ''tij'' plain_closed
      (gks [''ti'', ''tino/j'', ''tinoj'', ''tou'', ''tini/'', ''tini'', ''tw|'', ''tina/'', ''tina'', ''tine/j'', ''tinej'',
        ''tinw=n'', ''tinwn'', ''tisi/'', ''tisi/n'', ''tisi'', ''tisin'', ''tina/j'', ''tinaj'', ''a)/tta'', ''a)/ssa'',
        ''teu'', ''teo'', ''tew|'', ''tewn'', ''te/'', ''ti`j'', ''ti/j'', ''ti/'']),
     closed_row ''pronoun'' ''pronoun'' (CLOSED_DESCRIPTION) ''a)llh/lwn'' plain_closed
      (gks [''a)llh/loij'', ''a)llh/laij'', ''a)llh/louj'', ''a)llh/laj'', ''a)/llhla'', ''a)llh/loin'', ''a)llh/loisi'',
        ''a)llh/loisin'', ''a)llh/lh|si'', ''a)llh/loiin''])] @
    map (\<lambda>(l, stem). closed_call_of ''pronoun'' ''pronoun'' (CLOSED_DESCRIPTION) l plain_closed
        (map (\<lambda>e. stem @ e) (gks [''ou='', ''h=j'', ''w=|'', ''h=|'', ''o/n'', ''h/n'', ''o/'', ''w=n'', ''oi=j'', ''ai=j'', ''ou/j'', ''a/j'',
          ''a/'', ''oi=si'', ''h=|si'', ''e/wn''])))
      (gk_pairs [(''e(autou='', ''e(aut''), (''e)mautou='', ''e)maut''), (''seautou='', ''seaut''), (''au(tou='', ''au(t''),
        (''e(autou='', ''au(t''), (''sautou='', ''saut''), (''seautou='', ''saut''), (''e(autou='', ''e(wut''),
        (''e(autou='', ''e)wut'')])"

definition NUMERALS :: "closed_call list" where
  "NUMERALS =
    [closed_row ''pronoun'' ''pronoun'' (CLOSED_DESCRIPTION) ''pa=j'' plain_closed
      (gks [''pa=sa'', ''pa=n'', ''panto/j'', ''pa/shj'', ''panti/'', ''pa/sh|'', ''pa/nta'', ''pa=san'', ''pa/ntej'',
        ''pa=sai'', ''pa/ntwn'', ''pasw=n'', ''pa=si'', ''pa=sin'', ''pa/saij'', ''pa/ntaj'', ''pa/saj'', ''pa/sh|si'',
        ''pa/sh|sin'', ''pa/ntessi'', ''pa/ntessin'', ''pase/wn'', ''pasa/wn'', ''pa/ntesi'', ''pa=sa'', ''pa/sa|'',
        ''pa/saj'', ''pa/san'']),
     closed_row ''pronoun'' ''pronoun'' (CLOSED_DESCRIPTION) ''a(/paj'' plain_closed
      (gks [''a(/pasa'', ''a(/pan'', ''a(/pantoj'', ''a(pa/shj'', ''a(/panti'', ''a(pa/sh|'', ''a(/panta'', ''a(/pasan'',
        ''a(/pantej'', ''a(/pasai'', ''a(pa/ntwn'', ''a(pasw=n'', ''a(/pasi'', ''a(/pasin'', ''a(pa/saij'',
        ''a(/pantaj'', ''a(pa/saj'']),
     closed_row ''pronoun'' ''pronoun'' (CLOSED_DESCRIPTION) ''su/mpaj'' plain_closed
      (gks [''su/mpasa'', ''su/mpan'', ''su/mpantoj'', ''sumpa/shj'', ''su/mpanti'', ''su/mpanta'', ''su/mpasan'',
        ''su/mpantej'', ''sumpa/ntwn'', ''su/mpasi'', ''su/mpasin'', ''su/mpantaj'', ''cu/mpaj'', ''cu/mpantej'',
        ''cu/mpasa'', ''cumpa/ntwn'', ''cu/mpanta'']),
     closed_row ''numeral'' ''numeral'' (tx ''Forms of the numerals {ei(=j}, {du/o}, {trei=j}, {te/ttarej} and of {ou)dei/j}, {mhdei/j}.'') ''ei(=j'' plain_closed
      (gks [''mi/a'', ''e(/n'', ''e(no/j'', ''mia=j'', ''e(ni/'', ''mia=|'', ''e(/na'', ''mi/an'', ''mih=j'', ''mih=|'',
        ''i)/a'', ''i)h=j'', ''i)w=|'', ''i)h=|'', ''i)/an'']),
     closed_row ''numeral'' ''numeral'' (js '''') ''ou)dei/j'' plain_closed
      (gks [''ou)demi/a'', ''ou)de/n'', ''ou)deno/j'', ''ou)demia=j'', ''ou)deni/'', ''ou)demia=|'', ''ou)de/na'',
        ''ou)demi/an'', ''ou)de/nej'', ''ou)de/nwn'', ''ou)de/si'', ''ou)de/sin'', ''ou)de/naj'', ''ou)qei/j'',
        ''ou)qe/n'', ''ou)qeno/j'', ''ou)qeni/'', ''ou)qe/na'', ''ou)dama/'']),
     closed_row ''numeral'' ''numeral'' (js '''') ''mhdei/j'' plain_closed
      (gks [''mhdemi/a'', ''mhde/n'', ''mhdeno/j'', ''mhdemia=j'', ''mhdeni/'', ''mhdemia=|'', ''mhde/na'', ''mhdemi/an'',
        ''mhde/nej'', ''mhde/nwn'', ''mhde/si'', ''mhde/naj'', ''mhqei/j'', ''mhqe/n'', ''mhqeno/j'', ''mhqeni/'']),
     closed_row ''numeral'' ''numeral'' (js '''') ''du/o'' plain_closed
      (gks [''duoi=n'', ''duei=n'', ''dusi/'', ''dusi/n'', ''du/w'', ''doiw/'', ''doioi/'', ''doiai/'', ''doia/'',
        ''doiou/j'', ''doioi=si'']),
     closed_row ''numeral'' ''numeral'' (js '''') ''trei=j'' plain_closed
      (gks [''tri/a'', ''triw=n'', ''trisi/'', ''trisi/n'', ''trei=j'', ''tri/j'']),
     closed_row ''numeral'' ''numeral'' (js '''') ''te/ttarej'' plain_closed
      (gks [''te/ttara'', ''tetta/rwn'', ''te/ttarsi'', ''te/ttarsin'', ''te/ttaraj'', ''te/ssarej'', ''te/ssara'',
        ''tessa/rwn'', ''te/ssarsi'', ''te/ssarsin'', ''te/ssaraj'', ''pi/surej'', ''pi/suraj'']),
     closed_row ''numeral'' ''numeral'' (js '''') ''te/ssarej'' plain_closed
      (gks [''te/ssara'', ''tessa/rwn'', ''te/ssarsi'', ''te/ssarsin'', ''te/ssaraj'']),
     closed_row ''impersonal'' ''impersonal verb'' (tx ''Forms of the impersonal verbs {xrh/} and {dei=}.'') ''xrh/'' out_v
      (gks [''xrh=n'', ''e)xrh=n'', ''xrh=nai'', ''xrei/h'', ''xrh=|'', ''xrew/n'', ''xrh=stai'', ''xrh=sqai'']),
     closed_row ''impersonal'' ''impersonal verb'' (js '''') ''dei='' out_v
      (gks [''e)/dei'', ''dei=n'', ''de/h|'', ''de/oi'', ''de/on'', ''deh/sei'', ''e)de/hse'', ''e)de/hsen'', ''deh/sein'',
        ''dei=sqai''])]"

definition IRREGULAR_NOUNS :: "closed_call list" where
  "IRREGULAR_NOUNS =
    [closed_row ''irregular-noun'' ''irregular noun'' (tx ''Nouns whose stems change ({ui(o/j}, {gunh/}, {a)nh/r}, {*zeu/j}, {nau=j}, {bou=j}, {pou/j}, {gh=}, {u(=j}).'') ''ui(o/j'' out_n
      (gks [''ui(e/oj'', ''ui(ei='', ''ui(e/a'', ''ui(ei=j'', ''ui(e/wn'', ''ui(e/si'', ''ui(e/sin'', ''ui(=oj'', ''ui(=i'',
        ''ui(=a'', ''ui(=ej'', ''ui(=aj'', ''ui(=i+'', ''ui(e/e'', ''ui(e/oin'', ''ui(h=oj'', ''ui(e/i+'']),
     closed_row ''irregular-noun'' ''irregular noun'' (js '''') ''gunh/'' out_n
      (gks [''gunaiko/j'', ''gunaiki/'', ''gunai=ka'', ''gu/nai'', ''gunai=kej'', ''gunaikw=n'', ''gunaici/'', ''gunaici/n'',
        ''gunai=kaj'', ''gunai=ke'', ''gunaikoi=n'']),
     closed_row ''irregular-noun'' ''irregular noun'' (js '''') ''a)nh/r'' out_n
      (gks [''a)ndro/j'', ''a)ndri/'', ''a)/ndra'', ''a)/ner'', ''a)/ndrej'', ''a)ndrw=n'', ''a)ndra/si'', ''a)ndra/sin'',
        ''a)/ndraj'', ''a)/ndre'', ''a)ndroi=n'', ''a)ne/roj'', ''a)ne/ri'', ''a)ne/ra'', ''a)ne/rej'', ''a)ne/raj'',
        ''a)ne/rwn'', ''a)/ndressi'', ''a)/ndressin'', ''a)ne/re'']),
     closed_row ''irregular-noun'' ''irregular noun'' (js '''') ''*zeu/j'' plain_closed
      (gks [''*dio/j'', ''*dii/'', ''*di/a'', ''*zeu='', ''*zhno/j'', ''*zhni/'', ''*zh=na'', ''*deu/j'', ''*di=a'']),
     closed_row ''irregular-noun'' ''irregular noun'' (js '''') ''nau=j'' out_n
      (gks [''new/j'', ''nhi/'', ''nhi+/'', ''nau=n'', ''nh=ej'', ''new=n'', ''nausi/'', ''nausi/n'', ''nho/j'', ''neo/j'',
        ''nh=a'', ''ne/a'', ''nhw=n'', ''nhusi/'', ''nhusi/n'', ''nh/essi'', ''nh/essin'', ''ne/essi'', ''nh=aj'',
        ''ne/aj'', ''na=ej'', ''na=aj'', ''nao/j'', ''na=a'', ''nh=e'']),
     closed_row ''irregular-noun'' ''irregular noun'' (js '''') ''bou=j'' out_n
      (gks [''boo/j'', ''boi+/'', ''bou=n'', ''bo/ej'', ''bow=n'', ''bousi/'', ''bousi/n'', ''bo/essi'', ''bo/essin'',
        ''bo/aj'', ''bou=j'', ''bw=n'', ''bo/e'']),
     closed_row ''irregular-noun'' ''irregular noun'' (js '''') ''pou/j'' out_n
      (gks [''podo/j'', ''podi/'', ''po/da'', ''po/dej'', ''podw=n'', ''posi/'', ''posi/n'', ''possi/'', ''possi/n'',
        ''po/dessi'', ''po/dessin'', ''po/daj'', ''po/de'', ''podoi=n'', ''podoi=in'']),
     closed_row ''irregular-noun'' ''irregular noun'' (js '''') ''gh='' out_n
      (gks [''gh=j'', ''gh=|'', ''gh=n'', ''gai=a'', ''gai/hj'', ''gai/h|'', ''gai=an'', ''ga='', ''ga=j'', ''ga=|'',
        ''ga=n'']),
     closed_row ''irregular-noun'' ''irregular noun'' (js '''') ''u(=j'' out_n
      (gks [''u(o/j'', ''u(i/'', ''u(=n'', ''u(/ej'', ''u(w=n'', ''u(si/'', ''u(/aj'', ''su=j'', ''suo/j'', ''sui/'',
        ''su=n'', ''su/ej'', ''suw=n'', ''susi/'', ''su/essi'', ''su/aj'', ''su=j'']),
     closed_row ''irregular-noun'' ''irregular noun'' (js '''') ''xei/r'' out_n
      (gks [''xeiro/j'', ''xeiri/'', ''xei=ra'', ''xei=rej'', ''xeirw=n'', ''xersi/'', ''xersi/n'', ''xei=raj'', ''xero/j'',
        ''xeri/'', ''xe/ra'', ''xe/rej'', ''xerw=n'', ''xei/ressi'', ''xei/ressin'', ''xe/raj'', ''xei=re'', ''xeroi=n'',
        ''xeiroi=n'', ''xei=re'']),
     closed_row ''irregular-noun'' ''irregular noun'' (js '''') ''ou)=j'' out_n
      (gks [''w)to/j'', ''w)ti/'', ''w)=ta'', ''w)/twn'', ''w)si/'', ''w)si/n'', ''ou)/atoj'', ''ou)/ata'', ''ou)/asi'',
        ''ou)/asin'', ''w)=te'']),
     closed_row ''irregular-noun'' ''irregular noun'' (js '''') ''u(/dwr'' out_n
      (gks [''u(/datoj'', ''u(/dati'', ''u(/data'', ''u(da/twn'', ''u(/dasi'', ''u(/dasin'', ''u(/dei'']),
     closed_row ''irregular-noun'' ''irregular noun'' (js '''') ''pu=r'' out_n
      (gks [''puro/j'', ''puri/'', ''pura/'', ''purw=n'', ''puroi=j'']),
     closed_row ''irregular-noun'' ''irregular noun'' (js '''') ''go/nu'' out_n
      (gks [''go/natoj'', ''go/nati'', ''go/nata'', ''gona/twn'', ''go/nasi'', ''go/nasin'', ''gouno/j'', ''gouni/'',
        ''gou/nata'', ''gou/nasi'', ''gou/nwn'', ''gou/natoj'', ''gou/nati'', ''gou=na'', ''gou/nessi'']),
     closed_row ''irregular-noun'' ''irregular noun'' (js '''') ''do/ru'' out_n
      (gks [''do/ratoj'', ''do/rati'', ''do/rata'', ''dora/twn'', ''do/rasi'', ''doro/j'', ''dori/'', ''douro/j'',
        ''douri/'', ''dou/ratoj'', ''dou/rati'', ''dou/rata'', ''dou/rasi'', ''dou=ra'', ''dou/rwn'', ''dou/ressi'',
        ''dou=re'']),
     closed_row ''irregular-noun'' ''irregular noun'' (js '''') ''ku/wn'' out_n
      (gks [''kuno/j'', ''kuni/'', ''ku/na'', ''ku/on'', ''ku/nej'', ''kunw=n'', ''kusi/'', ''kusi/n'', ''ku/naj'',
        ''ku/nessi'', ''ku/nessin'', ''ku/ne'']),
     closed_row ''irregular-noun'' ''irregular noun'' (js '''') ''path/r'' out_n
      (gks [''patro/j'', ''patri/'', ''pate/ra'', ''pa/ter'', ''pate/rej'', ''pate/rwn'', ''patra/si'', ''patra/sin'',
        ''pate/raj'', ''pate/roj'', ''pate/ri'', ''patrw=n'', ''pate/re'']),
     closed_row ''irregular-noun'' ''irregular noun'' (js '''') ''mh/thr'' out_n
      (gks [''mhtro/j'', ''mhtri/'', ''mhte/ra'', ''mh=ter'', ''mhte/rej'', ''mhte/rwn'', ''mhtra/si'', ''mhtra/sin'',
        ''mhte/raj'', ''mhte/roj'', ''mhte/ri'']),
     closed_row ''irregular-noun'' ''irregular noun'' (js '''') ''quga/thr'' out_n
      (gks [''qugatro/j'', ''qugatri/'', ''qugate/ra'', ''qu/gater'', ''qugate/rej'', ''qugate/rwn'', ''qugatra/si'',
        ''qugatra/sin'', ''qugate/raj'', ''qugate/roj'', ''qugate/ri'', ''qu/gatra'', ''qu/gatrej'', ''qugatrw=n'',
        ''qu/gatraj'']),
     closed_row ''irregular-noun'' ''irregular noun'' (js '''') ''*dhmh/thr'' plain_closed
      (gks [''*dh/mhtroj'', ''*dh/mhtri'', ''*dh/mhtra'', ''*dh/mater'', ''*dhmh/ter'', ''*dh/mhter'']),
     closed_row ''irregular-noun'' ''irregular noun'' (js '''') ''nu/c'' out_n
      (gks [''nukto/j'', ''nukti/'', ''nu/kta'', ''nu/ktej'', ''nuktw=n'', ''nuci/'', ''nuci/n'', ''nu/ktaj'']),
     closed_row ''irregular-noun'' ''irregular noun'' (js '''') ''pai=j'' out_n
      (gks [''paido/j'', ''paidi/'', ''pai=da'', ''pai='', ''pai=dej'', ''pai/dwn'', ''paisi/'', ''paisi/n'', ''pai=daj'',
        ''pai=de'', ''pai/doin'', ''paido`j'', ''pa/i+j'', ''pai/dessi'', ''pai/dessin'']),
     closed_row ''irregular-noun'' ''irregular noun'' (js '''') ''qri/c'' out_n
      (gks [''trixo/j'', ''trixi/'', ''tri/xa'', ''tri/xej'', ''trixw=n'', ''qrici/'', ''qrici/n'', ''tri/xaj'']),
     closed_row ''irregular-noun'' ''irregular noun'' (js '''') ''*a)po/llwn'' plain_closed
      (gks [''*a)po/llwnoj'', ''*a)po/llwni'', ''*a)po/llwna'', ''*a)po/llw'', ''*a)/pollon'']),
     closed_row ''irregular-noun'' ''irregular noun'' (js '''') ''*poseidw=n'' plain_closed
      (gks [''*poseidw=noj'', ''*poseidw=ni'', ''*poseidw=na'', ''*poseidw='', ''*po/seidon'', ''*poseida/wn'',
        ''*poseida/wnoj'', ''*poseida/wni'', ''*poseida/wna'', ''*poseide/wn'']),
     closed_row ''irregular-noun'' ''irregular noun'' (js '''') ''*a)/rhj'' plain_closed
      (gks [''*a)/rewj'', ''*a)/reoj'', ''*a)/rei'', ''*a)/rh'', ''*a)/rhn'', ''*a)=rej'', ''*a)/rhoj'', ''*a)/rhi+'',
        ''*a)/rha'', ''*a)/rhi''])]"

definition IRREGULAR_ADJECTIVES :: "closed_call list" where
  "IRREGULAR_ADJECTIVES =
    [closed_row ''irregular-adjective'' ''irregular adjective'' (tx ''Forms of {me/gaj} and {polu/j}, whose stems change.'') ''me/gaj'' out_adj
      (gks [''mega/lh'', ''me/ga'', ''mega/lou'', ''mega/lhj'', ''mega/lw|'', ''mega/lh|'', ''me/gan'', ''mega/lhn'',
        ''mega/loi'', ''mega/lai'', ''mega/la'', ''mega/lwn'', ''mega/loij'', ''mega/laij'', ''mega/louj'', ''mega/laj'',
        ''mega/lw'', ''mega/loisi'', ''mega/loisin'', ''mega/lh|si'', ''mega/lh|sin'', ''mega/loio'', ''mega/lhj'',
        ''mega/lhn'']),
     closed_row ''irregular-adjective'' ''irregular adjective'' (js '''') ''polu/j'' out_adj
      (gks [''pollh/'', ''polu/'', ''pollou='', ''pollh=j'', ''pollw=|'', ''pollh=|'', ''polu/n'', ''pollh/n'', ''polloi/'',
        ''pollai/'', ''polla/'', ''pollw=n'', ''polloi=j'', ''pollai=j'', ''pollou/j'', ''polla/j'', ''poulu/j'',
        ''poulu/'', ''pole/oj'', ''pole/ej'', ''pole/aj'', ''pole/wn'', ''pole/si'', ''pole/ssi'', ''pole/essi'',
        ''polloi=si'', ''polloi=sin'', ''pollh=|si'', ''pollh=|sin'', ''pollo/n'', ''pollo/j'', ''polla/'', ''pole/a'',
        ''poulu/n'']),
     closed_row ''comparison'' ''comparison'' (tx ''Irregular comparatives and superlatives: a form of one the dictionary lists reads as it ({a)mei/nonoj} {>} {a)mei/nwn}, {plei/ouj} {>} {plei/wn}, {megi/sth} {>} {me/gistoj}), another as the positive ({kalli/ona} {>} {kalo/j}).'') ''a)gaqo/j'' out_adj
      (gks [''a)mei/nwn'', ''a)/meinon'', ''a)mei/nonoj'', ''a)mei/noni'', ''a)mei/nona'', ''a)mei/nw'', ''a)mei/nonej'',
        ''a)mei/nouj'', ''a)meino/nwn'', ''a)mei/nosi'', ''belti/wn'', ''be/ltion'', ''belti/onoj'', ''belti/ona'',
        ''belti/w'', ''belti/onej'', ''belti/ouj'', ''beltio/nwn'', ''krei/ttwn'', ''krei=tton'', ''krei/ttonoj'',
        ''krei/ttona'', ''krei/ttw'', ''krei/ttonej'', ''krei/ttouj'', ''kreitto/nwn'', ''krei/sswn'', ''krei=sson'',
        ''krei/ssonoj'', ''krei/ssona'', ''krei/ssw'', ''krei/ssonej'', ''krei/ssouj'', ''a)/ristoj'', ''a)ri/sth'',
        ''a)/riston'', ''a)ri/stou'', ''a)ri/sthj'', ''a)ri/stw|'', ''a)/ristoi'', ''a)/ristai'', ''a)/rista'',
        ''a)ri/stwn'', ''a)ri/stoij'', ''a)ri/stouj'', ''be/ltistoj'', ''belti/sth'', ''be/ltiston'', ''be/ltistoi'',
        ''be/ltista'', ''belti/stou'', ''kra/tistoj'', ''krati/sth'', ''kra/tiston'', ''kra/tistoi'', ''kra/tista'',
        ''krati/stou'', ''krati/stwn'', ''lw/|wn'', ''lw=|stoj'', ''a)rei/wn'', ''fe/rteroj'', ''fe/rtatoj'',
        ''fe/ristoj'']),
     closed_row ''comparison'' ''comparison'' (js '''') ''kako/j'' out_adj
      (gks [''kaki/wn'', ''ka/kion'', ''kaki/onoj'', ''kaki/ona'', ''kaki/w'', ''kaki/onej'', ''kaki/ouj'', ''ka/kistoj'',
        ''kaki/sth'', ''ka/kiston'', ''ka/kistoi'', ''ka/kista'', ''kaki/stou'', ''kaki/stwn'', ''xei/rwn'', ''xei=ron'',
        ''xei/ronoj'', ''xei/rona'', ''xei/rw'', ''xei/ronej'', ''xei/rouj'', ''xeiro/nwn'', ''xei/ristoj'',
        ''xeiri/sth'', ''xei/riston'', ''xei/rista'', ''h(/ttwn'', ''h(=tton'', ''h(/ttonoj'', ''h(/ttona'', ''h(/ttw'',
        ''h(/ttonej'', ''h(/ttouj'', ''h(/sswn'', ''h(=sson'', ''h(/ssonoj'', ''h(/ssona'', ''h(/ssonej'', ''h(/kista'',
        ''h(/kistoj'']),
     closed_row ''comparison'' ''comparison'' (js '''') ''me/gaj'' out_adj
      (gks [''mei/zwn'', ''mei=zon'', ''mei/zonoj'', ''mei/zoni'', ''mei/zona'', ''mei/zw'', ''mei/zonej'', ''mei/zouj'',
        ''meizo/nwn'', ''mei/zosi'', ''mei/zosin'', ''me/gistoj'', ''megi/sth'', ''me/giston'', ''megi/stou'',
        ''megi/sthj'', ''megi/stw|'', ''megi/sth|'', ''megi/sthn'', ''me/gistoi'', ''me/gistai'', ''me/gista'',
        ''megi/stwn'', ''megi/stoij'', ''megi/staij'', ''megi/stouj'', ''megi/staj'', ''me/zwn'', ''me/zona'']),
     closed_row ''comparison'' ''comparison'' (js '''') ''polu/j'' out_adj
      (gks [''plei/wn'', ''ple/wn'', ''plei=on'', ''ple/on'', ''plei/onoj'', ''ple/onoj'', ''plei/oni'', ''plei/ona'',
        ''ple/ona'', ''plei/w'', ''ple/w'', ''plei/onej'', ''ple/onej'', ''plei/ouj'', ''ple/ouj'', ''pleio/nwn'',
        ''pleo/nwn'', ''plei/osi'', ''plei/osin'', ''ple/osi'', ''plei=stoj'', ''plei/sth'', ''plei=ston'',
        ''plei/stou'', ''plei/sthj'', ''plei/stw|'', ''plei/sthn'', ''plei=stoi'', ''plei=stai'', ''plei=sta'',
        ''plei/stwn'', ''plei/stoij'', ''plei/stouj'', ''plei/staj'', ''pleu=nej'', ''pleo/nessi'']),
     closed_row ''comparison'' ''comparison'' (js '''') ''mikro/j'' out_adj
      (gks [''e)la/ttwn'', ''e)/latton'', ''e)la/ttonoj'', ''e)la/ttona'', ''e)la/ttw'', ''e)la/ttonej'', ''e)la/ttouj'',
        ''e)latto/nwn'', ''e)la/sswn'', ''e)/lasson'', ''e)la/ssonoj'', ''e)la/ssona'', ''e)la/ssw'', ''e)la/ssonej'',
        ''e)la/ssouj'', ''e)la/xistoj'', ''e)laxi/sth'', ''e)la/xiston'', ''e)la/xista'', ''e)laxi/stou'',
        ''e)laxi/stwn'', ''mikro/teroj'', ''mikro/tatoj'']),
     closed_row ''comparison'' ''comparison'' (js '''') ''o)li/goj'' out_adj
      (gks [''o)li/gistoj'', ''o)ligi/sth'', ''o)li/giston'', ''o)li/gista'', ''e)la/ttwn'', ''e)la/sswn'', ''mei/wn'',
        ''mei=on'', ''mei/onoj'', ''mei/ona'', ''mei/ouj'', ''mei/onej'']),
     closed_row ''comparison'' ''comparison'' (js '''') ''kalo/j'' out_adj
      (gks [''kalli/wn'', ''ka/llion'', ''kalli/onoj'', ''kalli/ona'', ''kalli/w'', ''kalli/onej'', ''kalli/ouj'',
        ''ka/llistoj'', ''kalli/sth'', ''ka/lliston'', ''ka/llistoi'', ''ka/llistai'', ''ka/llista'', ''kalli/stou'',
        ''kalli/sthj'', ''kalli/stwn'', ''kalli/stw|'', ''kalli/sthn'']),
     closed_row ''comparison'' ''comparison'' (js '''') ''r(a/|dioj'' out_adj
      (gks [''r(a/|wn'', ''r(a=|on'', ''r(a/|onoj'', ''r(a/|ona'', ''r(a/|w'', ''r(a/|ouj'', ''r(a=|stoj'', ''r(a/|sth'',
        ''r(a=|ston'', ''r(a=|sta''])] @
    map (\<lambda>(l, stem, unmarked). closed_call_of ''comparison'' ''comparison'' (js '''') l out_adj (rhoComparison stem unmarked))
      (gk_triples [(''e)xqro/j'', ''e)/xq'', ''e)xq''), (''ai)sxro/j'', ''ai)/sx'', ''ai)sx''),
        (''oi)ktro/j'', ''oi)/kt'', ''oi)kt'')]) @
    [closed_row ''comparison'' ''comparison'' (js '''') ''taxu/j'' out_adj
      (gks [''qa/ttwn'', ''qa=tton'', ''qa/ttonoj'', ''qa/ttona'', ''qa/ttw'', ''qa/ttouj'', ''qa/sswn'', ''qa=sson'',
        ''ta/xistoj'', ''ta/xista'', ''taxi/sth'', ''ta/xiston'', ''taxi/sthn''])]"

definition buildClosedClasses :: "js_env \<Rightarrow> gen_op" where
  "buildClosedClasses env s =
     bindE (foldE (closed env) ([], s) (ARTICLE_PRONOUNS @ RELATIVES @ NUMERALS @ IRREGULAR_NOUNS @ IRREGULAR_ADJECTIVES))
       (\<lambda>(ps, s'). flushClosed env ps s')"

end
