(* ===== verification/Own_Clitics.thy ===== *)
theory Own_Clitics
  imports Own_Stems
begin

text \<open>
  Spelling variants, elision, crasis and enclitics in languages/grc/sources/own-rules.mjs, and the order in which the
  script builds its sections.
\<close>

definition written_only :: emit_opts where
  "written_only = no_opts\<lparr>eo_writtenOnly := True\<rparr>"

definition buildSpelling :: "js_env \<Rightarrow> gen_op" where
  "buildSpelling env = run_ops
    [transform (js ''spelling-variant'') (js ''spelling'')
        (tx ''A dictionary form in another spelling: -{ssw} for -{ttw} and back ({pra/ttw}, {pra/ssw}), {gign}- for {gin}- ({gi/nomai}, {gignw/skw}).''),
     each (\<lambda>(x, y). suffix env (js ''spelling-variant'') x y [js ''v''] [js ''v''] no_opts) (gk_pairs
       [(''ttw'', ''ssw''), (''ssw'', ''ttw''), (''ttomai'', ''ssomai''), (''ssomai'', ''ttomai''),
        (''ginomai'', ''gignomai''), (''ginwskw'', ''gignwskw''), (''gi/nomai'', ''gi/gnomai''),
        (''ginw/skw'', ''gignw/skw'')]),
     transform (js ''spelling'') (js ''spelling'')
        (tx ''The older spelling {cun}- for {sun}- (Thucydides and tragedy: {cumfora/}, {cuni/hmi}).''),
     each (\<lambda>(x, y). prefix_rule env (js ''spelling'') x y [] [] no_opts) (gk_pairs
       [(''cu'', ''su''), (''cu/'', ''su/''), (''*cu'', ''*su''), (''*cu/'', ''*su/'')])]"

text \<open>\<open>/[\u0313\u0314\u0345\u0308]/u.test(NFD(c))\<close>\<close>

definition has_other_mark :: "js_env \<Rightarrow> jstr \<Rightarrow> bool" where
  "has_other_mark env c \<longleftrightarrow> list_ex (\<lambda>u. u \<in> {787, 788, 837, 776}) (toNFD env c)"

definition MARKED :: "js_env \<Rightarrow> jstr" where
  "MARKED env = (let l = computeLetters env in
     charClass (lt_accentedVowels l @ filter (has_other_mark env) (lt_plainVowels l)))"

definition ELIDED :: "jstr list" where
  "ELIDED = gks [''a'', ''e'', ''i'', ''o'', ''ai'']"

definition ASPIRATED :: "(jstr \<times> jstr) list" where
  "ASPIRATED = gk_pairs [(''q'', ''t''), (''f'', ''p''), (''x'', ''k''), (''xq'', ''kt''), (''fq'', ''pt'')]"

definition NOT_AFTER_SPACE :: "jstr \<times> json" where
  "NOT_AFTER_SPACE = (js ''stemNotEndsWith'', JStr ([91, 92] @ js ''u0020]''))"

definition elide :: "js_env \<Rightarrow> jstr \<Rightarrow> gen_op" where
  "elide env v = run_ops
    [add env (js ''elision'') (plain_rule ''suffix'' (gk ''~'') v [] [] [(js ''stemContains'', JStr (MARKED env)), NOT_AFTER_SPACE]),
     add env (js ''elision'') (rule_of ''suffix'' (gk ''~'') v [] []
       [(js ''stemContains'', JStr (ACCENTED_VOWEL_CLASS env)), NOT_AFTER_SPACE] (Some THEN_STRIP_ACCENTS)),
     each (\<lambda>(asp, unasp). add env (js ''elision'') (plain_rule ''suffix'' (asp @ gk ''~'') (unasp @ v) [] []
       [(js ''stemContains'', JStr (MARKED env))])) ASPIRATED]"

definition ELIDED_WORDS :: "(jstr \<times> jstr) list" where
  "ELIDED_WORDS = gk_pairs
    [(''pot'', ''pote''), (''poq'', ''pote''), (''t'', ''te''), (''q'', ''te''), (''d'', ''de/''), (''g'', ''ge''),
     (''m'', ''me''), (''m'', ''moi''), (''s'', ''se''), (''s'', ''soi''), (''kat'', ''kata/''), (''kaq'', ''kata/''),
     (''par'', ''para/''), (''met'', ''meta/''), (''meq'', ''meta/''), (''mhd'', ''mhde/''), (''mhq'', ''mhde/''),
     (''tot'', ''to/te''), (''kot'', ''kote''), (''pw'', ''pw''), (''poll'', ''polla/''), (''di'', ''dia/''),
     (''tout'', ''tou=to''), (''taut'', ''tau=ta''), (''a)ll'', ''a)lla/''), (''a)p'', ''a)po/''),
     (''a)f'', ''a)po/''), (''e)p'', ''e)pi/''), (''e)f'', ''e)pi/''), (''u(p'', ''u(po/''), (''u(f'', ''u(po/''),
     (''a)nt'', ''a)nti/''), (''a)nq'', ''a)nti/''), (''a)mf'', ''a)mfi/''), (''a)n'', ''a)na/''),
     (''par'', ''para/''), (''ou)d'', ''ou)de/''), (''ou)q'', ''ou)de/''), (''ou)/t'', ''ou)/te''),
     (''ou)/q'', ''ou)/te''), (''mh/t'', ''mh/te''), (''mh/q'', ''mh/te''), (''w(/st'', ''w(/ste''),
     (''w(/sq'', ''w(/ste''), (''i(/n'', ''i(/na''), (''e)/t'', ''e)/ti''), (''o(/t'', ''o(/te''),
     (''a)=r'', ''a)=ra''), (''a)/r'', ''a)/ra''), (''r('', ''r(a''), (''ei)=t'', ''ei)=ta''),
     (''e)/peit'', ''e)/peita''), (''e)/peiq'', ''e)/peita''), (''a(/m'', ''a(/ma''), (''a)ll'', ''a)/lla'')]"

definition elision :: "js_env \<Rightarrow> gen_op" where
  "elision env = run_ops
    [transform (js ''elision'') (js ''elision'')
        (tx ''An elided final vowel ({d~} {>} {de/}, {a)ll~} {>} {a)lla/}, {ge/noit~} {>} {ge/noito}, {tau=t~} {>} {tau=ta}; before a rough breathing {q~}, {f~}, {x~} for {t~}, {p~}, {k~}: {e)f~}, {kaq~}, {nu/xq~}).''),
     each (elide env) ELIDED,
     each (\<lambda>(e, l). add env (js ''elision'') (plain_rule ''wholeWord'' (toNFC env (e @ gk ''~'')) (toNFC env l) [] [] []))
       ELIDED_WORDS]"

definition CRASIS :: "(jstr \<times> jstr) list" where
  "CRASIS = gk_pairs
    [(''ka)'', ''a)''), (''ka)'', ''e)''), (''ka)/'', ''a)/''), (''ka)/'', ''e)/''), (''ka)=|'', ''ei)=''),
     (''kei)'', ''ei)''), (''kei)/'', ''ei)/''), (''kou)'', ''ou)''), (''kou)/'', ''ou)/''), (''kou)'', ''ou)''),
     (''xw)'', ''o(''), (''xw)/'', ''o(/''), (''xh)'', ''h(''), (''xh)/'', ''h(/''), (''xoi)'', ''oi(''),
     (''xai)'', ''ai(''), (''xa)'', ''a(''), (''kw)'', ''w)''), (''kw)/'', ''w)/''), (''ka)|'', ''a)''),
     (''kw)|'', ''w)''), (''xw)|'', ''w(|''), (''tou)/'', ''e)/''), (''tou)/'', ''o)/''), (''tou)'', ''e)''),
     (''tou)'', ''o)''), (''ta)'', ''a)''), (''ta)'', ''e)''), (''ta)/'', ''a)/''), (''ta)/'', ''e)/''),
     (''tau)'', ''au)''), (''tau)'', ''au(''), (''tw)'', ''e)''), (''tw)'', ''o)''), (''ta)|'', ''a)''),
     (''qoi)'', ''i(''), (''qh)'', ''h(''), (''qa)'', ''e(''), (''qa)/'', ''e(/''), (''ou('', ''e)''),
     (''ou('', ''o)''), (''ou(/'', ''e(/''), (''ou('', ''e(''), (''w(nh/r'', ''a)nh/r''),
     (''w)/nqrwpe'', ''a)/nqrwpe''), (''w)=nqrwpe'', ''a)/nqrwpe''), (''w)=gaqe/'', ''a)gaqe/''),
     (''w)=gaqe'', ''a)gaqe/''), (''e)gw)=|'', ''oi)=''), (''mou)'', ''ou)''), (''sou)'', ''ou)''),
     (''tou)'', ''ou)''), (''a('', ''a)'')]"

definition crasis_rules :: "js_env \<Rightarrow> gen_op" where
  "crasis_rules env = run_ops
    [transform (js ''crasis'') (js ''crasis'')
        (tx ''Crasis: {kai/}, the article or {w)=} merged with the next word ({ka)gw/} = {kai`} {e)gw/}, {ka)n}, {kou)}, {xw)} = {kai`} {o(}, {tou)/noma} = {to`} {o)/noma}, {ta)gaqa/}, {ta)/lla}, {tau)to/}, {ou(mo/j} = {o(} {e)mo/j}).''),
     each (\<lambda>(x, y). if x = gk ''a('' then Inr else prefix_rule env (js ''crasis'') x y [] [] written_only) CRASIS]"

definition ENCLITIC_VOWELS :: "jstr list" where
  "ENCLITIC_VOWELS = gks [''a'', ''e'', ''h'', ''i'', ''o'', ''u'', ''w'', ''a|'', ''h|'', ''w|'']"

definition ENCLITIC_FINALS :: "jstr list" where
  "ENCLITIC_FINALS = gks ['''', ''j'', ''n'', ''r'', ''c'', ''y'']"

definition enclitics :: "js_env \<Rightarrow> gen_op" where
  "enclitics env = run_ops
    [transform (js ''enclitic-accent'') (js ''enclitic accent'')
        (tx ''The second accent an enclitic gives the word before it ({a)/nqrwpo/j} {tij}, {sw=ma/} {ti}, {e)/xousi/} {tinej} {>} {a)/nqrwpoj}, {sw=ma}, {e)/xousi}).''),
     each (\<lambda>v. each (\<lambda>f. add env (js ''enclitic-accent'') (plain_rule ''suffix'' (acute env v @ f) (v @ f) [] []
       [(js ''stemContains'', JStr (ACCENTED_VOWEL_CLASS env))])) ENCLITIC_FINALS) ENCLITIC_VOWELS,
     transform (js ''enclitic'') (js ''enclitic'')
        (tx ''An enclitic as its dictionary form writes it: {pote} {>} {pote/}.''),
     whole env (js ''enclitic'') (gk ''pote'') (gk ''pote/'') [] [] written_only,
     transform (js ''enclitic-particle'') (js ''enclitic particle'')
        (tx ''The particle -{per} written onto the word before it ({ou(=per}, {h(=sper}, {e)pei/per}, {o(/sper}).''),
     each (\<lambda>(e, l). add env (js ''enclitic-particle'') (plain_rule ''suffix'' e l [] []
       [(js ''stemMinLength'', JNum 1), NOT_AFTER_SPACE])) (gk_pairs [(''per'', ''''), (''sper'', ''j''), (''sge'', ''j'')])]"

definition buildClitics :: "js_env \<Rightarrow> gen_op" where
  "buildClitics env = run_ops [elision env, crasis_rules env, enclitics env]"

section \<open>Order of the sections\<close>

text \<open>The calls of \<open>build()\<close> from \<open>buildNominal()\<close> to \<open>augmentRules()\<close>, and those after \<open>buildClosedClasses()\<close>.\<close>

definition build_inflections :: "js_env \<Rightarrow> gen_op" where
  "build_inflections env = run_ops
    [buildNominal env, thematicEndings env, participles env, tenseEndings env, contractEndings env, stemRules env,
     buildIrregular env, augmentRules env]"

definition build_texts :: "js_env \<Rightarrow> gen_op" where
  "build_texts env = run_ops [buildSpelling env, buildClitics env, buildAccentTransform env]"

end
