(* ===== verification/Own_Output.thy ===== *)
theory Own_Output
  imports Own_Rules Check_Yomitan
begin

text \<open>
  The output of languages/grc/sources/own-rules.mjs: \<open>compact\<close>, which joins the suffix rules of a transform that
  share their conditions and constraints into rows, and \<open>format\<close>, the text of own.json.
\<close>

section \<open>Compact rows\<close>

text \<open>\<open>if (r.standing)\<close>: the script only writes \<open>true\<close>.\<close>

definition standing :: "rule_obj \<Rightarrow> bool" where
  "standing r \<longleftrightarrow> obj_get (JObj r) (js ''standing'') \<notin> {JUndef, JNull, JBool False, JNum 0, JStr []}"

definition own_type :: "rule_obj \<Rightarrow> json" where
  "own_type r = obj_get (JObj r) (js ''type'')"

text \<open>A whole word is a suffix whose stem is empty.\<close>

definition whole_as_suffix :: "rule_obj \<Rightarrow> rule_obj" where
  "whole_as_suffix r =
     (if own_type r = JStr (js ''wholeWord'')
      then obj_put (js ''stemCharacters'') (JStr (js ''[]'')) (obj_put (js ''type'') (JStr (js ''suffix'')) r) else r)"

text \<open>\<open>const {type, inflected, deinflected, ...shape} = r\<close>\<close>

definition shape_of :: "rule_obj \<Rightarrow> rule_obj" where
  "shape_of r = without_key (js ''deinflected'') (without_key (js ''inflected'') (without_key (js ''type'') r))"

definition pair_of :: "rule_obj \<Rightarrow> json \<times> json" where
  "pair_of r = (obj_get (JObj r) (js ''inflected''), obj_get (JObj r) (js ''deinflected''))"

record group =
  gp_shape :: rule_obj
  gp_pairs :: "(json \<times> json) list"

text \<open>An entry of \<open>order\<close>: a row of its own, or the key of a group.\<close>

datatype slot = Single rule_obj | Grouped jstr

record compacting =
  cm_groups :: "(jstr \<times> group) list"
  cm_order :: "slot list"

definition find_group :: "compacting \<Rightarrow> jstr \<Rightarrow> group option" where
  "find_group s k = map_of (cm_groups s) k"

definition compact_rule :: "compacting \<Rightarrow> rule_obj \<Rightarrow> compacting" where
  "compact_rule s r0 =
     (if standing r0 then s\<lparr>cm_order := cm_order s @ [Single (without_key (js ''standing'') r0)]\<rparr>
      else let r = whole_as_suffix r0 in
        if own_type r \<noteq> JStr (js ''suffix'') then s\<lparr>cm_order := cm_order s @ [Single r]\<rparr>
        else let k = own_key (shape_of r) in
          case find_group s k of
            Some g \<Rightarrow> s\<lparr>cm_groups := om_set k (g\<lparr>gp_pairs := gp_pairs g @ [pair_of r]\<rparr>) (cm_groups s)\<rparr>
          | None \<Rightarrow> s\<lparr>cm_groups := om_set k \<lparr>gp_shape = shape_of r, gp_pairs = [pair_of r]\<rparr> (cm_groups s),
              cm_order := cm_order s @ [Grouped k]\<rparr>)"

definition suffix_row :: "rule_obj \<Rightarrow> json \<times> json \<Rightarrow> rule_obj" where
  "suffix_row shape = (\<lambda>(i, d). obj_of ([(js ''type'', JStr (js ''suffix'')), (js ''inflected'', i), (js ''deinflected'', d)] @ shape))"

definition circumfix_row :: "rule_obj \<Rightarrow> (json \<times> json) list \<Rightarrow> rule_obj" where
  "circumfix_row shape pairs = obj_of
     ([(js ''type'', JStr (js ''circumfix'')), (js ''prefixes'', JArr [JArr [JStr [], JStr []]]),
       (js ''suffixes'', JArr (map (\<lambda>(i, d). JArr [i, d]) pairs)),
       (js ''conditionsIn'', obj_get (JObj shape) (js ''conditionsIn'')),
       (js ''conditionsOut'', obj_get (JObj shape) (js ''conditionsOut''))] @
      without_key (js ''conditionsOut'') (without_key (js ''conditionsIn'') shape))"

definition slot_row :: "compacting \<Rightarrow> slot \<Rightarrow> rule_obj" where
  "slot_row s slot = (case slot of
       Single r \<Rightarrow> r
     | Grouped k \<Rightarrow> (case find_group s k of
           Some g \<Rightarrow> (case gp_pairs g of [p] \<Rightarrow> suffix_row (gp_shape g) p | ps \<Rightarrow> circumfix_row (gp_shape g) ps)
         | None \<Rightarrow> []))"

definition compact_rules :: "rule_obj list \<Rightarrow> rule_obj list" where
  "compact_rules rules =
     (let s = foldl compact_rule \<lparr>cm_groups = [], cm_order = []\<rparr> rules in map (slot_row s) (cm_order s))"

text \<open>\<open>build\<close> on the transforms the operations left, and the counts the script prints.\<close>

definition used_transforms :: "gen \<Rightarrow> own_transform list" where
  "used_transforms s = filter (\<lambda>t. ot_rules t \<noteq> []) (gen_transforms s)"

definition built_transform :: "own_transform \<Rightarrow> rule_obj" where
  "built_transform t =
     [(js ''id'', JStr (ot_id t)), (js ''name'', JStr (ot_name t)), (js ''description'', JStr (ot_description t)),
      (js ''source'', JStr (js ''own''))] @
     (if ot_optional t then [(js ''optional'', JBool True)] else []) @
     [(js ''rules'', JArr (map JObj (compact_rules (ot_rules t))))]"

definition built :: "gen \<Rightarrow> rule_obj" where
  "built s = [(js ''schema'', JNum 1), (js ''conditions'', JObj conditions),
     (js ''transforms'', JArr (map (\<lambda>t. JObj (built_transform t)) (used_transforms s)))]"

section \<open>Format\<close>

fun replace_pair :: "int \<Rightarrow> int \<Rightarrow> jstr \<Rightarrow> jstr \<Rightarrow> jstr" where
  "replace_pair a b new (u # v # s) =
     (if u = a \<and> v = b then new @ replace_pair a b new s else u # replace_pair a b new (v # s))"
| "replace_pair a b new s = s"

text \<open>\<open>.replace(/":/gu, '": ').replace(/,"/gu, ', "')\<close>\<close>

definition spaced :: "jstr \<Rightarrow> jstr" where
  "spaced s = replace_pair 44 34 [44, 32, 34] (replace_pair 34 58 [34, 58, 32] s)"

definition comma_unless_last :: "nat \<Rightarrow> 'a list \<Rightarrow> jstr" where
  "comma_unless_last i xs = (if Suc i < length xs then [44] else [])"

definition quoted_field :: "string \<Rightarrow> json \<Rightarrow> jstr" where
  "quoted_field k v = js ''      '' @ quote_js (js k) @ js '': '' @ show_json v @ [44]"

definition condition_line :: "(jstr \<times> json) list \<Rightarrow> nat \<times> jstr \<times> json \<Rightarrow> jstr" where
  "condition_line conds = (\<lambda>(i, k, v).
     js ''    '' @ quote_js k @ js '': '' @ spaced (show_json v) @ comma_unless_last i conds)"

definition rule_line :: "json list \<Rightarrow> nat \<times> json \<Rightarrow> jstr" where
  "rule_line rules = (\<lambda>(i, r). js ''        '' @ show_json r @ comma_unless_last i rules)"

definition optional_line :: "json \<Rightarrow> string \<Rightarrow> jstr list" where
  "optional_line t k = (if obj_get t (js k) = JUndef then [] else [quoted_field k (obj_get t (js k))])"

definition transform_lines :: "json list \<Rightarrow> nat \<times> json \<Rightarrow> own_error + jstr list" where
  "transform_lines ts = (\<lambda>(i, t).
     bindE (get_prop OwnTypeError t (js ''id'')) (\<lambda>ident.
     bindE (array_items OwnTypeError (obj_get t (js ''rules''))) (\<lambda>rules. Inr
       ([js ''    {'', quoted_field ''id'' ident, quoted_field ''name'' (obj_get t (js ''name''))] @
        optional_line t ''description'' @ optional_line t ''i18n'' @
        [quoted_field ''source'' (obj_get t (js ''source''))] @
        (if obj_get t (js ''optional'') \<in> {JUndef, JNull, JBool False, JNum 0, JStr []} then []
         else [js ''      '' @ quote_js (js ''optional'') @ js '': true,'']) @
        [js ''      '' @ quote_js (js ''rules'') @ js '': [''] @ map (rule_line rules) (enum rules) @
        [js ''      ]'', js ''    }'' @ comma_unless_last i ts]))))"

definition own_format :: "(jstr \<times> json) list \<Rightarrow> json list \<Rightarrow> own_error + jstr" where
  "own_format conds ts =
     bindE (mapE (transform_lines ts) (enum ts)) (\<lambda>blocks. Inr
       (join [10]
         ([js ''{'', js ''  '' @ quote_js (js ''schema'') @ js '': 1,'', js ''  '' @ quote_js (js ''conditions'') @ js '': {''] @
          map (condition_line conds) (enum conds) @
          [js ''  },'', js ''  '' @ quote_js (js ''transforms'') @ js '': [''] @ concat blocks @ [js ''  ]'', js ''}'']) @ [10]))"

text \<open>The file own.json of the transforms so far.\<close>

definition own_file :: "gen \<Rightarrow> own_error + jstr" where
  "own_file s = own_format conditions (map (\<lambda>t. JObj (built_transform t)) (used_transforms s))"

end
