(* ===== verification/Own_Build.thy ===== *)
theory Own_Build
  imports Own_Closed Own_Clitics Own_Output
begin

text \<open>
  The exceptions of languages/grc/sources/own-rules.mjs, read from four lists beside the script, \<open>build\<close> with all its
  sections in order, and the command. The texts of the lists and the environment variables are the record \<open>own_sources\<close>.
\<close>

record own_sources =
  os_exceptions :: jstr
  os_manual :: jstr
  os_whole :: jstr
  os_accentless :: jstr
  os_all_whole :: bool
  os_all_accentless :: bool

section \<open>Exceptions\<close>

text \<open>The keys of \<open>EXCEPTIONS_LEFT_OUT\<close>; their reasons are not read.\<close>

definition EXCEPTIONS_LEFT_OUT :: "jstr list" where
  "EXCEPTIONS_LEFT_OUT = gks [''a)/kousa'', ''a)/kousan'', ''e)xrh/sato'', ''e)xrw=nto'', ''xrw/menoj'', ''xrhso/menoj'']"

definition readTsv :: "jstr \<Rightarrow> jstr list list" where
  "readTsv content = map (split_on 9) (filter (\<lambda>l. l \<noteq> [] \<and> \<not> starts_with l [35]) (split_on 10 content))"

record exception =
  ex_form :: jstr
  ex_term :: jstr
  ex_tag :: "jstr option"

text \<open>\<open>t in conditions && conditions[t].isDictionaryForm\<close>\<close>

definition is_dictionary_tag :: "jstr \<Rightarrow> bool" where
  "is_dictionary_tag t \<longleftrightarrow> (case lookup_in conditions t of
       Some c \<Rightarrow> obj_get c (js ''isDictionaryForm'') = JBool True | None \<Rightarrow> False)"

definition exception_of :: "js_env \<Rightarrow> jstr list \<Rightarrow> own_error + exception" where
  "exception_of env row = (case row of
       form # term # tags # _ \<Rightarrow> Inr \<lparr>ex_form = toNFC env form, ex_term = toNFC env term,
         ex_tag = find is_dictionary_tag (split_on 32 tags)\<rparr>
     | _ \<Rightarrow> Inl OwnTypeError)"

text \<open>\<open>NFC(form) in EXCEPTIONS_LEFT_OUT\<close>: an object, which inherits names.\<close>

definition left_out :: "js_env \<Rightarrow> jstr list \<Rightarrow> bool" where
  "left_out env row \<longleftrightarrow> (let f = toNFC env (hd row) in f \<in> set EXCEPTIONS_LEFT_OUT \<or> inherited f \<noteq> None)"

definition exceptionList :: "js_env \<Rightarrow> own_sources \<Rightarrow> own_error + exception list" where
  "exceptionList env src =
     mapE (exception_of env) (filter (\<lambda>row. \<not> left_out env row) (readTsv (os_exceptions src)) @ readTsv (os_manual src))"

definition first_column :: "js_env \<Rightarrow> jstr \<Rightarrow> jstr list" where
  "first_column env content = map (\<lambda>row. toNFC env (hd row)) (readTsv content)"

definition WHOLE :: "js_env \<Rightarrow> own_sources \<Rightarrow> jstr list option" where
  "WHOLE env src = (if os_all_whole src then None else Some (first_column env (os_whole src)))"

definition ACCENTLESS :: "js_env \<Rightarrow> own_sources \<Rightarrow> jstr list option" where
  "ACCENTLESS env src = (if os_all_accentless src then None else Some (first_column env (os_accentless src)))"

definition listed :: "jstr \<Rightarrow> jstr \<Rightarrow> jstr list option \<Rightarrow> bool" where
  "listed form written names = (case names of None \<Rightarrow> True | Some xs \<Rightarrow> form \<in> set xs \<or> written \<in> set xs)"

definition graveToAcute :: "js_env \<Rightarrow> jstr \<Rightarrow> jstr" where
  "graveToAcute env s = replace_mark env 768 769 s"

definition build_exception :: "js_env \<Rightarrow> own_sources \<Rightarrow> exception \<Rightarrow> gen_op" where
  "build_exception env src e =
     (let written = graveToAcute env (ex_form e);
          standing_fields = (if listed (ex_form e) written (WHOLE env src) then [(js ''standing'', JBool True)] else [])
      in each (\<lambda>spelling. add env (js ''exc'') (plain_rule ''wholeWord'' spelling (ex_term e) []
           (case ex_tag e of Some t \<Rightarrow> [t] | None \<Rightarrow> []) standing_fields))
         (ls_of (written # (if listed (ex_form e) written (ACCENTLESS env src) then [stripAccents env written] else []))))"

definition buildExceptions :: "js_env \<Rightarrow> own_sources \<Rightarrow> gen_op" where
  "buildExceptions env src = run_ops
    [transform (js ''exc'') (js ''common form'')
        (tx ''A common form that other rules read first as a rarer word, read as the term the dictionary alone puts first ({e)/lege} {>} {le/gw}, not {e)/legoj}; {e)mou=} {>} {e)gw/}, not {e)mo/j}; {e)/th} {>} {e)/toj}, not {e)/thj}).''),
     (\<lambda>s. bindE (exceptionList env src) (\<lambda>es. each (build_exception env src) es s))]"

section \<open>The build and the command\<close>

definition own_build :: "js_env \<Rightarrow> own_sources \<Rightarrow> gen_op" where
  "own_build env src = run_ops
    [buildExceptions env src, build_inflections env, buildAthematic env, buildClosedClasses env, build_texts env]"

text \<open>The counts the command prints: transforms, rows, and the rules the rows stand for.\<close>

definition array_size :: "json \<Rightarrow> nat" where
  "array_size v = (case v of JArr vs \<Rightarrow> length vs | _ \<Rightarrow> 0)"

definition rules_of_row :: "rule_obj \<Rightarrow> nat" where
  "rules_of_row r =
     (if own_type r = JStr (js ''circumfix'')
      then array_size (obj_get (JObj r) (js ''prefixes'')) * array_size (obj_get (JObj r) (js ''suffixes'')) else 1)"

definition own_counts :: "gen \<Rightarrow> nat \<times> nat \<times> nat" where
  "own_counts s =
     (let rows = map (compact_rules \<circ> ot_rules) (used_transforms s) in
      (length rows, sum_list (map length rows), sum_list (map (sum_list \<circ> map rules_of_row) rows)))"

text \<open>The command: the file it writes and the counts it prints, or the error it ends with.\<close>

definition own_main :: "js_env \<Rightarrow> own_sources \<Rightarrow> bool \<Rightarrow> own_error + jstr \<times> (nat \<times> nat \<times> nat)" where
  "own_main env src twins =
     bindE (own_build env src (start twins)) (\<lambda>s. bindE (own_file s) (\<lambda>out. Inr (out, own_counts s)))"

end
