(* ===== verification/Own_Rules_Correct.thy ===== *)
theory Own_Rules_Correct
  imports Own_Clitics Greek_Correct
begin

text \<open>
  What the generator of own-rules.mjs guarantees: every text of a rule is in NFC, a transform has no rule twice, and the
  operations return, as every identifier a rule is added to is one of a transform made before.

  \<open>goes env I f\<close>: from a good state that knows the transforms \<open>I\<close>, \<open>f\<close> returns a good state with all the transforms it
  had. Its rules, in \<open>goes_rules\<close>, follow the shape of the operations.
\<close>

named_theorems goes_rules

section \<open>Texts without surrogates\<close>

definition plain :: "jstr \<Rightarrow> bool" where
  "plain s \<longleftrightarrow> (\<forall>u\<in>set s. \<not> is_high u \<and> \<not> is_low u)"

lemma plain_well_paired: "plain s \<Longrightarrow> well_paired s"
  by (induction s rule: well_paired.induct) (auto simp: plain_def)

lemma gk_unit_plain: "\<not> is_high (gk_unit l) \<and> \<not> is_low (gk_unit l)"
proof -
  have "list_all (\<lambda>e. \<not> is_high (snd e) \<and> \<not> is_low (snd e)) GREEK_UNITS"
    by code_simp
  then have "\<not> is_high u \<and> \<not> is_low u" if "map_of GREEK_UNITS l = Some u" for u
    using map_of_SomeD [OF that] by (auto simp: list_all_iff)
  then show ?thesis by (auto simp: gk_unit_def is_high_def is_low_def split: option.split)
qed

lemma gk_plain: "plain (gk s)"
  using gk_unit_plain by (auto simp: plain_def gk_def)

lemma gk_well_paired [simp, intro]: "well_paired (gk s)"
  by (rule plain_well_paired [OF gk_plain])

lemma well_paired_simps [simp]: "well_paired [57344]" "well_paired [769]" "well_paired [834]"
  by (simp_all add: is_high_def is_low_def)

lemma well_paired_toNFC: "normalization_laws env \<Longrightarrow> well_paired s \<Longrightarrow> well_paired (toNFC env s)"
  unfolding normalization_laws_def by blast

lemma well_paired_toNFD: "normalization_laws env \<Longrightarrow> well_paired s \<Longrightarrow> well_paired (toNFD env s)"
  unfolding normalization_laws_def by blast

lemma toNFC_idem: "normalization_laws env \<Longrightarrow> well_paired s \<Longrightarrow> toNFC env (toNFC env s) = toNFC env s"
  unfolding normalization_laws_def by blast

lemma well_paired_stripAccents:
  "normalization_laws env \<Longrightarrow> well_paired s \<Longrightarrow> well_paired (stripAccents env s)"
  by (rule stripAccents_props(1))

lemma well_paired_stripAll:
  assumes "normalization_laws env" "well_paired s"
  shows "well_paired (stripAll env s)"
proof -
  have "\<not> is_any_mark u" if "is_high u \<or> is_low u" for u
    using that by (auto simp: is_any_mark_def is_high_def is_low_def)
  from well_paired_filter [OF this well_paired_toNFD [OF assms]] show ?thesis
    unfolding stripAll_def by (rule well_paired_toNFC [OF assms(1)])
qed

lemma well_paired_twin:
  "normalization_laws env \<Longrightarrow> well_paired s \<Longrightarrow> well_paired (twin_of env twins s)"
  by (simp add: twin_of_def well_paired_stripAccents well_paired_stripAll)

lemma nucleus_split:
  assumes "n \<in> set (nuclei env s)" "toNFC env s = s" "well_paired s"
  shows "well_paired (take (nu_end n) s) \<and> well_paired (drop (nu_end n) s)"
proof -
  have "nuclei_ok env 0 (cps s) (nuclei env s)" using nuclei_ok_word [of env s] assms(2) by simp
  with assms(1) obtain as bs where split: "cps s = as @ bs" "nu_end n = length (concat as)"
    by (auto simp: nuclei_ok_def)
  have "s = concat as @ concat bs" using split(1) concat_cps [of s] by simp
  then have "take (nu_end n) s = concat as" "drop (nu_end n) s = concat bs" using split(2) by simp_all
  then show ?thesis using well_paired_cps [OF assms(3) split(1)] by simp
qed

lemma placeAccent_well_paired:
  assumes laws: "normalization_laws env" and word: "well_paired word" and r: "placeAccent env word k a = Some r"
  shows "well_paired r"
proof -
  let ?s = "stripAccents env word"
  let ?n = "nuclei env ?s ! (length (nuclei env ?s) - 1 - k)"
  have k: "k < length (nuclei env ?s)"
    and r': "r = toNFC env (take (nu_end ?n) ?s @ [accent_mark a] @ drop (nu_end ?n) ?s)"
    using r by (simp_all add: placeAccent_def Let_def split: if_splits)
  have "?n \<in> set (nuclei env ?s)" using k by simp
  from nucleus_split [OF this stripAccents_props(3,1) [OF laws word]]
  have "well_paired (take (nu_end ?n) ?s @ [accent_mark a] @ drop (nu_end ?n) ?s)"
    by (intro well_paired_append) (auto simp: accent_mark_def is_high_def is_low_def)
  then show ?thesis unfolding r' by (rule well_paired_toNFC [OF laws])
qed

lemma recessive_well_paired:
  assumes laws: "normalization_laws env" and word: "well_paired word"
  shows "\<exists>w. recessive env word ultima = Some w \<and> well_paired w"
proof (cases "nuclei env (stripAccents env word) = []")
  case True
  then show ?thesis by (simp add: recessive_def Let_def stripAccents_props(1) [OF laws word])
next
  case False
  from recessive_cases [OF laws word refl False, of ultima] obtain k a r where
    "recessive env word ultima = Some r" "placeAccent env (stripAccents env word) k a = Some r" by blast
  then show ?thesis using placeAccent_well_paired [OF laws stripAccents_props(1) [OF laws word]] by blast
qed

section \<open>Good states\<close>

definition texts_nfc :: "js_env \<Rightarrow> rule_obj \<Rightarrow> bool" where
  "texts_nfc env r \<longleftrightarrow>
     (\<forall>k\<in>set NORMALIZED_FIELDS. \<forall>v. map_of r k = Some v \<longrightarrow> (\<exists>t. v = JStr t \<and> toNFC env t = t))"

definition good_transform :: "js_env \<Rightarrow> own_transform \<Rightarrow> bool" where
  "good_transform env t \<longleftrightarrow> ot_keys t = map own_key (ot_rules t) \<and> distinct (ot_keys t) \<and>
     (\<forall>r\<in>set (ot_rules t). texts_nfc env r)"

definition good :: "js_env \<Rightarrow> gen \<Rightarrow> bool" where
  "good env s \<longleftrightarrow> distinct (map ot_id (gen_transforms s)) \<and> (\<forall>t\<in>set (gen_transforms s). good_transform env t)"

definition known :: "gen \<Rightarrow> jstr set" where
  "known s = ot_id ` set (gen_transforms s)"

lemma good_start: "good env (start twins)" and known_start: "known (start twins) = {}"
  by (simp_all add: good_def known_def start_def)

lemma byId_None: "byId s i = None \<longleftrightarrow> i \<notin> known s"
  by (auto simp: byId_def known_def find_None_iff)

lemma update_transform_props:
  assumes "\<And>t. ot_id (f t) = ot_id t"
  shows "known (update_transform i f s) = known s"
    and "map ot_id (gen_transforms (update_transform i f s)) = map ot_id (gen_transforms s)"
proof -
  show ids: "map ot_id (gen_transforms (update_transform i f s)) = map ot_id (gen_transforms s)"
    by (simp add: update_transform_def assms)
  show "known (update_transform i f s) = known s"
    unfolding known_def list.set_map [symmetric] ids ..
qed

lemma good_update:
  assumes "good env s" "\<And>t. ot_id (f t) = ot_id t" "\<And>t. good_transform env t \<Longrightarrow> good_transform env (f t)"
  shows "good env (update_transform i f s)"
  using assms(1,3) unfolding good_def update_transform_props(2) [of f i s, OF assms(2)]
  by (auto simp: update_transform_def)

definition goes :: "js_env \<Rightarrow> jstr set \<Rightarrow> gen_op \<Rightarrow> bool" where
  "goes env I f \<longleftrightarrow> (\<forall>s. good env s \<longrightarrow> I \<subseteq> known s \<longrightarrow> (\<exists>s'. f s = Inr s' \<and> good env s' \<and> known s \<subseteq> known s'))"

text \<open>\<open>makes env I f J\<close>: afterwards the transforms \<open>J\<close> are known too.\<close>

definition makes :: "js_env \<Rightarrow> jstr set \<Rightarrow> gen_op \<Rightarrow> jstr set \<Rightarrow> bool" where
  "makes env I f J \<longleftrightarrow> (\<forall>s. good env s \<longrightarrow> I \<subseteq> known s \<longrightarrow>
     (\<exists>s'. f s = Inr s' \<and> good env s' \<and> known s \<subseteq> known s' \<and> J \<subseteq> known s'))"

lemma goesD: "goes env I f \<Longrightarrow> good env s \<Longrightarrow> I \<subseteq> known s \<Longrightarrow> \<exists>s'. f s = Inr s' \<and> good env s' \<and> known s \<subseteq> known s'"
  by (simp add: goes_def)

lemma makes_goes: "makes env I f J \<Longrightarrow> goes env I f"
  unfolding goes_def makes_def by blast

lemma goes_makes: "goes env I f \<Longrightarrow> makes env I f I"
  unfolding goes_def makes_def by blast

lemma makes_mono: "makes env I f J \<Longrightarrow> J' \<subseteq> J \<Longrightarrow> makes env I f J'"
  unfolding makes_def by (meson order_trans)

lemma goes_weaken: "goes env I f \<Longrightarrow> I \<subseteq> J \<Longrightarrow> goes env J f"
  unfolding goes_def by blast

lemma goes_skip [goes_rules]: "goes env I Inr"
  by (simp add: goes_def)

lemma run_ops_simps [simp]: "run_ops [] s = Inr s" "run_ops (f # fs) s = bindE (f s) (run_ops fs)"
proof -
  have "run_ops fs = (\<lambda>s. foldE (\<lambda>s f. f s) s fs)" by (simp add: run_ops_def fun_eq_iff)
  then show "run_ops (f # fs) s = bindE (f s) (run_ops fs)" by (simp add: run_ops_def)
qed (simp add: run_ops_def)

lemma goes_Nil [goes_rules]: "goes env I (run_ops [])"
  by (simp add: goes_def)

lemma makes_Cons: "makes env I f J \<Longrightarrow> goes env (I \<union> J) (run_ops fs) \<Longrightarrow> goes env I (run_ops (f # fs))"
proof -
  assume f: "makes env I f J" and fs: "goes env (I \<union> J) (run_ops fs)"
  have "\<exists>s'. run_ops (f # fs) s = Inr s' \<and> good env s' \<and> known s \<subseteq> known s'" if s: "good env s" "I \<subseteq> known s" for s
  proof -
    obtain s1 where s1: "f s = Inr s1" "good env s1" "known s \<subseteq> known s1" "J \<subseteq> known s1"
      using f s unfolding makes_def by blast
    have "I \<union> J \<subseteq> known s1" using s(2) s1(3,4) by blast
    from goesD [OF fs s1(2) this] s1 show ?thesis by fastforce
  qed
  then show ?thesis by (simp add: goes_def)
qed

lemma goes_Cons: "goes env I f \<Longrightarrow> goes env I (run_ops fs) \<Longrightarrow> goes env I (run_ops (f # fs))"
  using makes_Cons [OF goes_makes] by simp

lemma makes_transform: "makes env I (transform i n d) {i}"
proof -
  have "\<exists>s'. transform i n d s = Inr s' \<and> good env s' \<and> known s \<subseteq> known s' \<and> i \<in> known s'" if "good env s" for s
  proof (cases "byId s i = None")
    case True
    then have "i \<notin> ot_id ` set (gen_transforms s)" by (simp add: byId_None known_def)
    then show ?thesis using that True by (auto simp: transform_def good_def good_transform_def known_def)
  next
    case False
    then show ?thesis using that by (auto simp: transform_def byId_None)
  qed
  then show ?thesis by (simp add: makes_def)
qed

lemma makes_run_Cons: "makes env I f K \<Longrightarrow> makes env (I \<union> K) (run_ops fs) J \<Longrightarrow> makes env I (run_ops (f # fs)) J"
proof -
  assume f: "makes env I f K" and fs: "makes env (I \<union> K) (run_ops fs) J"
  have "\<exists>s'. run_ops (f # fs) s = Inr s' \<and> good env s' \<and> known s \<subseteq> known s' \<and> J \<subseteq> known s'"
    if s: "good env s" "I \<subseteq> known s" for s
  proof -
    obtain s1 where s1: "f s = Inr s1" "good env s1" "known s \<subseteq> known s1" "K \<subseteq> known s1"
      using f s unfolding makes_def by blast
    have "I \<union> K \<subseteq> known s1" using s(2) s1(3,4) by blast
    with fs s1(2) obtain s2 where "run_ops fs s1 = Inr s2" "good env s2" "known s1 \<subseteq> known s2" "J \<subseteq> known s2"
      unfolding makes_def by blast
    then show ?thesis using s1(1,3) by auto
  qed
  then show ?thesis by (simp add: makes_def)
qed

lemma makes_run_skip: "goes env I f \<Longrightarrow> makes env I (run_ops fs) J \<Longrightarrow> makes env I (run_ops (f # fs)) J"
  using makes_run_Cons [OF goes_makes] by simp

lemma makes_run_transform: "makes env (insert i I) (run_ops fs) J \<Longrightarrow> makes env I (run_ops (transform i n d # fs)) J"
  by (rule makes_run_Cons [OF makes_transform]) simp

lemma makes_run_Nil: "J \<subseteq> I \<Longrightarrow> makes env I (run_ops []) J"
  by (auto simp: makes_def)

lemma goes_transform: "goes env (insert i I) (run_ops fs) \<Longrightarrow> goes env I (run_ops (transform i n d # fs))"
  by (rule makes_Cons [OF makes_transform]) simp

lemma goes_each [goes_rules]: "(\<And>x. x \<in> set xs \<Longrightarrow> goes env I (f x)) \<Longrightarrow> goes env I (each f xs)"
  unfolding each_def by (induction xs) (auto intro: goes_Cons goes_Nil)

lemma goes_only_if [goes_rules]: "(b \<Longrightarrow> goes env I f) \<Longrightarrow> goes env I (only_if b f)"
  by (simp add: only_if_def goes_skip)

lemma goes_set_optional: "i \<in> I \<Longrightarrow> goes env I (set_optional i)"
  unfolding goes_def set_optional_def
  by (auto simp: byId_None update_transform_props(1) intro!: good_update) (auto simp: good_transform_def)

section \<open>Adding a rule\<close>

lemma nfc_fields:
  assumes laws: "normalization_laws env"
    and "\<And>k v. k \<in> set ks \<Longrightarrow> map_of r k = Some v \<Longrightarrow> \<exists>t. v = JStr t \<and> well_paired t"
    and "distinct ks"
  shows "\<exists>r'. foldE (nfc_field env) r ks = Inr r' \<and>
    (\<forall>k\<in>set ks. \<forall>v. map_of r' k = Some v \<longrightarrow> (\<exists>t. v = JStr t \<and> toNFC env t = t)) \<and>
    (\<forall>k. k \<notin> set ks \<longrightarrow> map_of r' k = map_of r k)"
  using assms(2,3)
proof (induction ks arbitrary: r)
  case Nil
  then show ?case by simp
next
  case (Cons k ks)
  obtain r1 where r1: "nfc_field env r k = Inr r1" "\<And>k'. k' \<noteq> k \<Longrightarrow> map_of r1 k' = map_of r k'"
    "\<And>v. map_of r1 k = Some v \<Longrightarrow> \<exists>t. v = JStr t \<and> toNFC env t = t"
  proof (cases "map_of r k")
    case None
    then show ?thesis using that [of r] by (simp add: nfc_field_def)
  next
    case (Some v)
    then obtain t where "v = JStr t" "well_paired t" using Cons.prems(1) [of k v] by auto
    then show ?thesis using that [of "obj_put k (JStr (toNFC env t)) r"] Some toNFC_idem [OF laws]
      by (simp add: nfc_field_def)
  qed
  have wp: "\<exists>t. v = JStr t \<and> well_paired t" if "k' \<in> set ks" "map_of r1 k' = Some v" for k' v
  proof -
    have "k' \<noteq> k" using that(1) Cons.prems(2) by auto
    then show ?thesis using Cons.prems(1) [of k' v] r1(2) [of k'] that by simp
  qed
  have "\<exists>r'. foldE (nfc_field env) r1 ks = Inr r' \<and>
    (\<forall>k\<in>set ks. \<forall>v. map_of r' k = Some v \<longrightarrow> (\<exists>t. v = JStr t \<and> toNFC env t = t)) \<and>
    (\<forall>k. k \<notin> set ks \<longrightarrow> map_of r' k = map_of r1 k)"
    by (rule Cons.IH) (use wp Cons.prems(2) in auto)
  then obtain r' where r': "foldE (nfc_field env) r1 ks = Inr r'"
      "\<And>k v. k \<in> set ks \<Longrightarrow> map_of r' k = Some v \<Longrightarrow> \<exists>t. v = JStr t \<and> toNFC env t = t"
      "\<And>k. k \<notin> set ks \<Longrightarrow> map_of r' k = map_of r1 k"
    by (elim exE conjE) blast
  have "\<exists>t. v = JStr t \<and> toNFC env t = t" if "k' \<in> set (k # ks)" "map_of r' k' = Some v" for k' v
    using that r'(2) [of k' v] r'(3) [of k] r1(3) [of v] Cons.prems(2) by auto
  moreover have "map_of r' k' = map_of r k'" if "k' \<notin> set (k # ks)" for k'
    using that r'(3) [of k'] r1(2) [of k'] by auto
  ultimately show ?case using r1(1) r'(1) by (intro exI [of _ r']) auto
qed

lemma push_own_good: "texts_nfc env r \<Longrightarrow> good_transform env t \<Longrightarrow> good_transform env (push_own r t)"
  by (auto simp: push_own_def good_transform_def)

lemma push_own_id [simp]: "ot_id (push_own r t) = ot_id t"
  by (simp add: push_own_def)

definition wp_texts :: "rule_obj \<Rightarrow> bool" where
  "wp_texts r \<longleftrightarrow> (\<forall>k\<in>set NORMALIZED_FIELDS. \<forall>v. map_of r k = Some v \<longrightarrow> (\<exists>t. v = JStr t \<and> well_paired t))"

lemma goes_add:
  assumes "normalization_laws env" "i \<in> I" "wp_texts r"
  shows "goes env I (add env i r)"
proof -
  have "distinct NORMALIZED_FIELDS" by (simp add: NORMALIZED_FIELDS_def)
  from nfc_fields [OF assms(1) _ this, of r] assms(3) obtain r' where
    "foldE (nfc_field env) r NORMALIZED_FIELDS = Inr r'" "texts_nfc env r'"
    unfolding wp_texts_def texts_nfc_def by blast
  then show ?thesis
    using assms(2) push_own_good [of env r'] unfolding goes_def add_def
    by (auto simp: byId_None update_transform_props(1) intro!: good_update)
qed

section \<open>Emitting rules\<close>

definition stem_ok :: "rule_obj \<Rightarrow> bool" where
  "stem_ok extra \<longleftrightarrow> (\<forall>k\<in>set NORMALIZED_FIELDS. map_of extra k = None)"

lemma map_of_fold_put: "map_of (fold (\<lambda>(k, v). obj_put k v) es acc) k =
    (case map_of (rev es) k of Some v \<Rightarrow> Some v | None \<Rightarrow> map_of acc k)"
proof (induction es arbitrary: acc)
  case Nil
  then show ?case by simp
next
  case (Cons e es)
  then show ?case by (cases e) (auto simp: map_add_def split: option.splits)
qed

lemma lookup_obj_of: "map_of (obj_of es) k = map_of (rev es) k"
  by (simp add: obj_of_def map_of_fold_put split: option.split)

lemma map_of_rev_None: "map_of (rev es) k = None \<longleftrightarrow> map_of es k = None"
  by (simp add: map_of_eq_None_iff)

lemma map_of_obj_of_append:
  assumes "map_of es k = None"
  shows "map_of (obj_of (xs @ es)) k = map_of (obj_of xs) k"
proof -
  have "map_of (rev es) k = None" using assms by (simp only: map_of_rev_None)
  then show ?thesis by (simp add: lookup_obj_of map_add_def)
qed

lemma not_normalized:
  "js ''type'' \<notin> set NORMALIZED_FIELDS" "js ''conditionsIn'' \<notin> set NORMALIZED_FIELDS"
  "js ''conditionsOut'' \<notin> set NORMALIZED_FIELDS" "js ''then'' \<notin> set NORMALIZED_FIELDS"
  "js ''stemCharacters'' \<notin> set NORMALIZED_FIELDS" "js ''stemMinLength'' \<notin> set NORMALIZED_FIELDS"
  "js ''stemNotStartsWithText'' \<notin> set NORMALIZED_FIELDS" "js ''stemEndsWith'' \<notin> set NORMALIZED_FIELDS"
  "js ''stemStartsWith'' \<notin> set NORMALIZED_FIELDS" "js ''pattern'' \<notin> set NORMALIZED_FIELDS"
  "js ''replacement'' \<notin> set NORMALIZED_FIELDS" "js ''anchorSuffix'' \<notin> set NORMALIZED_FIELDS"
  by code_simp+

lemma wp_texts_rule_of:
  assumes "stem_ok extra" "well_paired i" "well_paired d"
  shows "wp_texts (rule_of type i d cin cout extra thn)"
  unfolding wp_texts_def
proof (intro ballI allI impI)
  fix k v
  assume k: "k \<in> set NORMALIZED_FIELDS" and v: "map_of (rule_of type i d cin cout extra thn) k = Some v"
  let ?base = "[(js ''type'', JStr (js type)), (js ''inflected'', JStr i), (js ''deinflected'', JStr d),
          (js ''conditionsIn'', strings cin), (js ''conditionsOut'', strings cout)]"
  have ne: "k \<noteq> js ''type''" "k \<noteq> js ''conditionsIn''" "k \<noteq> js ''conditionsOut''" "k \<noteq> js ''then''"
    using k not_normalized by blast+
  have extra: "map_of extra k = None" using k assms(1) by (simp add: stem_ok_def)
  have "map_of (rule_of type i d cin cout extra thn) k = map_of (obj_of (?base @ extra)) k"
    using ne(4) by (cases thn) (simp_all only: rule_of_def Let_def option.case map_of_obj_put fun_upd_apply if_False)
  also have "\<dots> = map_of (rev ?base) k"
    by (rule trans [OF map_of_obj_of_append [OF extra] lookup_obj_of])
  finally have "v = JStr i \<or> v = JStr d" using v ne by (simp del: js_simps split: if_splits)
  then show "\<exists>t. v = JStr t \<and> well_paired t" using assms(2,3) by blast
qed

lemma emit_forms_wp:
  assumes "normalization_laws env" "well_paired i" "well_paired d" "(a, b, thn) \<in> set (emit_forms env twins i d opts)"
  shows "well_paired a \<and> well_paired b"
  using assms by (auto simp: emit_forms_def Let_def well_paired_toNFC well_paired_twin split: if_splits)

lemma goes_emit_forms:
  assumes step: "\<And>s form. form \<in> snd ` set fs \<Longrightarrow> goes env I (add env i (rule_of type (fst form) (fst (snd form)) cin cout extra (snd (snd form))))"
    and "good env s" "I \<subseteq> known s"
  shows "\<exists>seen' s'. foldE (emit_form env type i cin cout extra f0) (seen, s) fs = Inr (seen', s') \<and>
      good env s' \<and> known s \<subseteq> known s'"
  using assms
proof (induction fs arbitrary: seen s)
  case Nil
  then show ?case by simp
next
  case (Cons f fs)
  obtain k x y z where f: "f = (k, x, y, z)" by (cases f)
  obtain s2 where s2: "add env i (rule_of type x y cin cout extra z) s = Inr s2" "good env s2" "known s \<subseteq> known s2"
    using goesD [OF Cons.prems(1) [of "(x, y, z)"] Cons.prems(2,3)] f by fastforce
  obtain seen1 s1 where s1: "emit_form env type i cin cout extra f0 (seen, s) f = Inr (seen1, s1)"
      "good env s1" "known s \<subseteq> known s1"
  proof (cases "emit_form env type i cin cout extra f0 (seen, s) f = Inr (seen, s)")
    case True
    then show ?thesis using that Cons.prems(2) by blast
  next
    case False
    then have "emit_form env type i cin cout extra f0 (seen, s) f = Inr (ls_add (form_key (x, y, z)) seen, s2)"
      using s2(1) unfolding emit_form_def f prod.case by (auto split: if_splits)
    then show ?thesis using that s2(2,3) by blast
  qed
  have "I \<subseteq> known s1" using Cons.prems(3) s1(3) by blast
  from Cons.IH [OF Cons.prems(1) s1(2) this, of seen1] obtain seen' s' where
    "foldE (emit_form env type i cin cout extra f0) (seen1, s1) fs = Inr (seen', s')" "good env s'" "known s1 \<subseteq> known s'"
    by auto
  then show ?case using s1 by auto
qed

lemma goes_emit:
  assumes laws: "normalization_laws env" and i: "i \<in> I" and wp: "well_paired a" "well_paired b"
    and stem: "stem_ok (eo_stem opts)"
  shows "goes env I (emit env type i a b cin cout opts)"
  unfolding goes_def
proof (intro allI impI)
  fix s
  assume s: "good env s" "I \<subseteq> known s"
  let ?fs = "emit_forms env (gen_twins s) a b opts"
  have "goes env I (add env i (rule_of type (fst form) (fst (snd form)) cin cout (eo_stem opts) (snd (snd form))))"
    if "form \<in> snd ` set (enum ?fs)" for form
  proof -
    have "form \<in> set ?fs" using that by (auto simp: enum_def dest: set_zip_rightD)
    then have "well_paired (fst form) \<and> well_paired (fst (snd form))"
      using emit_forms_wp [OF laws wp, of "fst form" "fst (snd form)" "snd (snd form)"] by simp
    then show ?thesis by (intro goes_add [OF laws i] wp_texts_rule_of [OF stem]) simp_all
  qed
  from goes_emit_forms [of "enum ?fs", OF this s, of "hd ?fs" "[]"]
  show "\<exists>s'. emit env type i a b cin cout opts s = Inr s' \<and> good env s' \<and> known s \<subseteq> known s'"
    by (auto simp: emit_def Let_def)
qed

lemma stem_ok_simps [simp]:
  "stem_ok []" "stem_ok ((k, v) # extra) \<longleftrightarrow> k \<notin> set NORMALIZED_FIELDS \<and> stem_ok extra"
  by (auto simp: stem_ok_def)

lemma stem_ok_stem_min [simp]: "stem_ok extra \<Longrightarrow> stem_ok (stem_min n extra)"
  using not_normalized(6)
  by (auto simp: stem_ok_def stem_min_def lookup_obj_of map_add_def map_of_rev_None simp del: js_simps split: option.splits)

lemma opts_simps [simp]: "eo_stem no_opts = []" "no_stem plain_nominal = []"
  by (simp_all add: no_opts_def plain_nominal_def)

lemmas wp_rules = well_paired_stripAccents well_paired_stripAll well_paired_toNFC well_paired_append gk_well_paired

lemma goes_suffix [goes_rules]:
  "normalization_laws env \<Longrightarrow> i \<in> I \<Longrightarrow> well_paired a \<Longrightarrow> well_paired b \<Longrightarrow> stem_ok (eo_stem opts) \<Longrightarrow>
    goes env I (suffix env i a b cin cout opts)"
  unfolding suffix_def by (rule goes_emit)

lemma goes_prefix [goes_rules]:
  "normalization_laws env \<Longrightarrow> i \<in> I \<Longrightarrow> well_paired a \<Longrightarrow> well_paired b \<Longrightarrow> stem_ok (eo_stem opts) \<Longrightarrow>
    goes env I (prefix_rule env i a b cin cout opts)"
  unfolding prefix_rule_def by (rule goes_emit)

lemma goes_nominal [goes_rules]:
  assumes "normalization_laws env" "i \<in> I" "well_paired e" "well_paired l" "stem_ok (no_stem opts)"
  shows "goes env I (nominal env i e l cout opts)"
  unfolding nominal_def Let_def using assms
  by (cases "obj_get (JObj (stem_min 2 (no_stem opts))) (js ''stemCharacters'') = JStr NO_ACCENT")
    (simp_all add: goes_Cons goes_Nil goes_suffix goes_only_if wp_rules del: js_simps)

lemma goes_nominalBoth [goes_rules]:
  "normalization_laws env \<Longrightarrow> i \<in> I \<Longrightarrow> well_paired e \<Longrightarrow> well_paired l \<Longrightarrow> stem_ok (no_stem opts) \<Longrightarrow>
    goes env I (nominalBoth env i e l opts)"
  unfolding nominalBoth_def by (rule goes_nominal)

lemma goes_literal [goes_rules]:
  "normalization_laws env \<Longrightarrow> i \<in> I \<Longrightarrow> well_paired e \<Longrightarrow> well_paired l \<Longrightarrow> stem_ok stem \<Longrightarrow>
    goes env I (literal env i e l cout stem w)"
  unfolding literal_def by (rule goes_suffix) simp_all

lemma goes_firstGenitivePlural [goes_rules]:
  "normalization_laws env \<Longrightarrow> js ''gen-pl'' \<in> I \<Longrightarrow> well_paired l \<Longrightarrow> goes env I (firstGenitivePlural env l adjective)"
  unfolding firstGenitivePlural_def using not_normalized(5)
  by (intro goes_Cons goes_Nil goes_nominal goes_only_if) (simp_all del: js_simps)

section \<open>Loops over tables\<close>

definition CASE_NAMES :: "string list" where
  "CASE_NAMES = [''acc-pl'', ''gen-sg'', ''dat-sg'', ''acc-sg'', ''voc-sg'', ''nom-pl'', ''gen-pl'', ''dat-pl'', ''na-pl'',
     ''nav-du'', ''gd-du'', ''epic-phi'']"

definition case_ids :: "jstr set" where
  "case_ids = js ` set CASE_NAMES"

fun case_rows :: "(string \<times> string) list \<Rightarrow> bool" where
  "case_rows [] = True"
| "case_rows ((e, c) # rows) = (c \<in> set CASE_NAMES \<and> case_rows rows)"

lemma goes_rows [goes_rules]:
  assumes "\<And>e c. well_paired e \<Longrightarrow> c \<in> I \<Longrightarrow> goes env I (f e c)" and "case_rows rows" and "case_ids \<subseteq> I"
  shows "goes env I (each (\<lambda>(e, c). f e c) (rows_of rows))"
proof (rule goes_each)
  fix x
  assume "x \<in> set (rows_of rows)"
  then obtain e c where x: "x = (gk e, js c)" "(e, c) \<in> set rows" by (auto simp: rows_of_def)
  moreover have "c \<in> set CASE_NAMES" using assms(2) x(2) by (induction rows rule: case_rows.induct) auto
  ultimately show "goes env I (case x of (e, c) \<Rightarrow> f e c)"
    using assms(1,3) by (auto simp: case_ids_def)
qed

lemma goes_gk_pairs [goes_rules]:
  "(\<And>a b. well_paired a \<Longrightarrow> well_paired b \<Longrightarrow> goes env I (f a b)) \<Longrightarrow> goes env I (each (\<lambda>(a, b). f a b) (gk_pairs rows))"
  by (rule goes_each) (auto simp: gk_pairs_def)

lemma goes_gk_triples [goes_rules]:
  "(\<And>a b c. well_paired a \<Longrightarrow> well_paired b \<Longrightarrow> well_paired c \<Longrightarrow> goes env I (f a b c)) \<Longrightarrow>
    goes env I (each (\<lambda>(a, b, c). f a b c) (gk_triples rows))"
  by (rule goes_each) (auto simp: gk_triples_def)

lemma goes_gks [goes_rules]:
  "(\<And>a. well_paired a \<Longrightarrow> goes env I (f a)) \<Longrightarrow> goes env I (each f (gks rows))"
  by (rule goes_each) (auto simp: gks_def)

lemma case_idsI: "c \<in> set CASE_NAMES \<Longrightarrow> case_ids \<subseteq> I \<Longrightarrow> js c \<in> I"
  by (auto simp: case_ids_def)

lemmas case_names = case_idsI [of "''acc-sg''"] case_idsI [of "''na-pl''"] case_idsI [of "''gen-pl''"]
  case_idsI [of "''voc-sg''"] case_idsI [of "''epic-phi''"] case_idsI [of "''nav-du''"]

lemma caseTransforms_makes: "makes env {} caseTransforms case_ids"
proof -
  have all: "makes env {} (each (\<lambda>(i, name, description). transform i name description) xs) (fst ` set xs)" for xs
  proof (induction xs)
    case Nil
    then show ?case using goes_makes [OF goes_skip] by (simp add: each_def)
  next
    case (Cons x xs)
    obtain i n d where x: "x = (i, n, d)" by (cases x)
    have "\<exists>s'. each (\<lambda>(i, name, description). transform i name description) (x # xs) s = Inr s' \<and> good env s' \<and>
        known s \<subseteq> known s' \<and> fst ` set (x # xs) \<subseteq> known s'" if s: "good env s" for s
    proof -
      obtain s1 where s1: "transform i n d s = Inr s1" "good env s1" "known s \<subseteq> known s1" "i \<in> known s1"
        using makes_transform [of env "{}" i n d] s unfolding makes_def by auto
      obtain s2 where "each (\<lambda>(i, name, description). transform i name description) xs s1 = Inr s2" "good env s2"
          "known s1 \<subseteq> known s2" "fst ` set xs \<subseteq> known s2"
        using Cons.IH s1(2) unfolding makes_def by blast
      then show ?thesis using s1 x by (intro exI [of _ s2]) (auto simp: each_def)
    qed
    then show ?case by (simp add: makes_def)
  qed
  have "map fst CASES = map js CASE_NAMES"
    unfolding CASES_def CASE_NAMES_def list.map fst_conv ..
  then have "set (map js CASE_NAMES) \<subseteq> set (map fst CASES)"
    by (simp only: subset_refl)
  then have "case_ids \<subseteq> fst ` set CASES"
    by (simp only: case_ids_def list.set_map)
  from makes_mono [OF all this] show ?thesis unfolding caseTransforms_def .
qed

end
