(* ===== verification/Own_Build_Correct.thy ===== *)
theory Own_Build_Correct
  imports Own_Rules_Correct
begin

text \<open>
  The sections of own-rules.mjs return from every good state that knows the transforms they add to, and leave a good
  state.
\<close>

section \<open>Nominal rules\<close>

lemma goes_nominals [goes_rules]:
  "normalization_laws env \<Longrightarrow> well_paired l \<Longrightarrow> case_rows rows \<Longrightarrow> case_ids \<subseteq> I \<Longrightarrow> goes env I (nominals env l (rows_of rows))"
  unfolding nominals_def by (intro goes_rules) simp_all

lemma goes_literals [goes_rules]:
  "normalization_laws env \<Longrightarrow> well_paired l \<Longrightarrow> case_rows rows \<Longrightarrow> case_ids \<subseteq> I \<Longrightarrow>
    goes env I (literals env l cout w (rows_of rows))"
  unfolding literals_def by (intro goes_rules) simp_all

lemma goes_secondDeclension:
  assumes "normalization_laws env" "case_ids \<subseteq> I"
  shows "goes env I (secondDeclension env)"
  unfolding secondDeclension_def second_neuter_def SECOND_def SECOND_NEUTER_def Let_def
  using assms not_normalized(7) by (intro goes_Cons goes_rules) (simp_all add: CASE_NAMES_def del: js_simps)

lemma goes_first_rows [goes_rules]:
  "normalization_laws env \<Longrightarrow> well_paired l \<Longrightarrow> case_rows rows \<Longrightarrow> case_ids \<subseteq> I \<Longrightarrow>
    goes env I (first_rows env l adjective alpha out (rows_of rows))"
  unfolding first_rows_def
  by (intro goes_rules) (auto intro!: goes_rules case_names simp: CASE_NAMES_def simp del: js_simps)

lemma insert_case_ids: "case_ids \<subseteq> I \<Longrightarrow> case_ids \<subseteq> insert i I"
  by blast

lemmas section_rules = goes_Cons goes_transform goes_set_optional goes_rules insert_case_ids

lemma goes_firstDeclension:
  assumes "normalization_laws env" "case_ids \<subseteq> I"
  shows "goes env I (firstDeclension env)"
  unfolding firstDeclension_def FIRST_FEMININE_def FIRST_ALPHA_def FIRST_MASCULINE_def FIRST_MASCULINE_ALPHA_def
  using assms by (intro goes_transform section_rules) (simp_all add: CASE_NAMES_def case_names del: js_simps)

lemma goes_thirdDeclension:
  assumes "normalization_laws env" "case_ids \<subseteq> I"
  shows "goes env I (thirdDeclension env)"
proof -
  have forms: "goes env I (each (\<lambda>(e, c). nominalBoth env c e nom opts) (thirdForms stem datpl neuter))"
    if "well_paired stem" "well_paired datpl" "well_paired nom" "stem_ok (no_stem opts)" for stem datpl nom neuter opts
  proof (rule goes_each)
    fix x
    assume "x \<in> set (thirdForms stem datpl neuter)"
    then have "well_paired (fst x)" "snd x \<in> js ` set CASE_NAMES"
      using that by (auto simp: thirdForms_def CASE_NAMES_def wp_rules simp del: js_simps split: if_splits)
    then show "goes env I (case x of (e, c) \<Rightarrow> nominalBoth env c e nom opts)"
      using assms that by (cases x) (auto simp: case_ids_def intro: goes_nominalBoth)
  qed
  show ?thesis
    unfolding thirdDeclension_def third_stem_def THIRD_def THIRD_NEUTER_def
    using assms not_normalized(6)
    by (intro goes_transform goes_gk_triples forms section_rules) (simp_all add: CASE_NAMES_def case_names del: js_simps)
qed

lemma goes_sigmaStems:
  assumes "normalization_laws env" "case_ids \<subseteq> I"
  shows "goes env I (sigmaStems env)"
  unfolding sigmaStems_def SIGMA_NEUTER_def SIGMA_MASCULINE_def
  using assms by (intro goes_transform section_rules) (auto simp: CASE_NAMES_def case_names simp del: js_simps)

lemma goes_vowelStems:
  assumes "normalization_laws env" "case_ids \<subseteq> I"
  shows "goes env I (vowelStems env)"
  unfolding vowelStems_def IOTA_def UPSILON_def EU_def
  using assms by (intro goes_transform section_rules) (simp_all add: CASE_NAMES_def del: js_simps)

lemma goes_genders:
  assumes "normalization_laws env"
  shows "goes env I (genders env)"
  unfolding genders_def FEMININE_def NEUTER_def
  using assms by (intro goes_transform section_rules) simp_all

lemma goes_gk_pairs_plain:
  "(\<And>a b. plain a \<Longrightarrow> plain b \<Longrightarrow> goes env I (f a b)) \<Longrightarrow> goes env I (each (\<lambda>(a, b). f a b) (gk_pairs rows))"
  by (rule goes_each) (auto simp: gk_pairs_def gk_plain)

lemma plain_superlative: "plain e \<Longrightarrow> plain (superlative_of e)"
  using gk_plain
  by (auto simp: superlative_of_def replace_first_def plain_def dest: in_set_takeD in_set_dropD split: option.splits)

lemma goes_comparison:
  assumes "normalization_laws env"
  shows "goes env I (comparison env)"
  unfolding comparison_def COMPARATIVES_def Let_def acute_def
  using assms
  by (intro goes_transform goes_gk_pairs_plain goes_gks section_rules)
    (auto simp: wp_rules plain_well_paired plain_superlative is_high_def is_low_def)

lemma goes_plural_lemmas:
  assumes "normalization_laws env"
  shows "goes env I (plural_lemmas env)"
  unfolding plural_lemmas_def using assms by (intro goes_transform section_rules) (simp_all add: wp_rules)

lemma goes_adverbs:
  assumes "normalization_laws env"
  shows "goes env I (adverbs env)"
  unfolding adverbs_def using assms by (intro goes_transform section_rules) simp_all

lemma goes_buildNominal:
  assumes "normalization_laws env"
  shows "goes env I (buildNominal env)"
  unfolding buildNominal_def
proof (rule makes_Cons)
  show "makes env I caseTransforms case_ids"
    using caseTransforms_makes unfolding makes_def by blast
qed (use assms in \<open>intro goes_Cons goes_set_optional goes_secondDeclension goes_firstDeclension goes_thirdDeclension
  goes_sigmaStems goes_vowelStems goes_genders goes_comparison goes_plural_lemmas goes_adverbs goes_Nil;
  simp add: case_names CASE_NAMES_def del: js_simps\<close>)

section \<open>Verbal rules\<close>

lemma goes_verbEnding [goes_rules]:
  assumes laws: "normalization_laws env" and "i \<in> I" "well_paired e" "well_paired l" "stem_ok stem"
  shows "goes env I (verbEnding env i e l cout stem ultima)"
proof -
  let ?e = "toNFC env e"
  have wp: "well_paired ?e" by (rule well_paired_toNFC [OF laws assms(3)])
  have written: "\<exists>w. recessive env ?e (Some u) = Some w \<and> well_paired w" for u
    using recessive_well_paired [OF laws wp] .
  obtain w where "recessive env ?e (Some Long) = Some w" "well_paired w" using written by blast
  moreover obtain w' where "recessive env ?e (Some Short) = Some w'" "well_paired w'" using written by blast
  ultimately show ?thesis
    unfolding verbEnding_def Let_def using assms wp
    by (auto intro!: goes_Cons goes_Nil goes_suffix goes_only_if simp: wp_rules split: option.split vowel_length.split)
qed

lemma goes_endingSet [goes_rules]:
  assumes "normalization_laws env"
  shows "goes env I (endingSet env p label (ending_rows rows) cout voice)"
  unfolding endingSet_def verbTransform_def Let_def
proof (rule goes_each)
  fix x
  assume "x \<in> set (ending_rows rows)"
  then obtain e person u where x: "x = (gk e, person, u)" by (auto simp: ending_rows_def)
  show "goes env I (case x of (ending, person, ultima) \<Rightarrow> run_ops
       [transform (js p @ [45] @ person) (js label @ [32] @ person_name person) (js label @ [44, 32] @ person_name person @ [46]),
        each (\<lambda>l. verbEnding env (js p @ [45] @ person) ending l cout [] ultima)
          (if voice = ''mid'' then [gk ''omai'', gk ''w''] else [gk ''w''])])"
    unfolding x prod.case using assms
    by (intro goes_transform goes_Cons goes_Nil goes_each goes_verbEnding) (auto split: if_splits)
qed

lemma goes_both_verbs [goes_rules]:
  "normalization_laws env \<Longrightarrow> js i \<in> I \<Longrightarrow> well_paired e \<Longrightarrow> well_paired b \<Longrightarrow> goes env I (both_verbs env i e b cout u)"
  unfolding both_verbs_def middle_lemmas_def by (intro goes_gks goes_verbEnding) (simp_all add: wp_rules)

lemmas verb_rules = goes_transform goes_Cons goes_gks goes_rules

lemma goes_thematicEndings:
  assumes "normalization_laws env"
  shows "goes env I (thematicEndings env)"
proof -
  have "goes env I (thematic_active env)"
    unfolding thematic_active_def verbTransform_def using assms by (intro verb_rules) simp_all
  moreover have "goes env I (thematic_middle env)"
    unfolding thematic_middle_def verbTransform_def using assms by (intro verb_rules) simp_all
  ultimately show ?thesis unfolding thematicEndings_def by (intro goes_Cons goes_Nil)
qed

definition wp_ptc :: "ptc_row list \<Rightarrow> bool" where
  "wp_ptc forms \<longleftrightarrow> (\<forall>(e, c, g, u)\<in>set forms. well_paired e)"

lemma wp_ptc_rows [simp]: "wp_ptc (ptc_rows rows)"
  by (auto simp: wp_ptc_def ptc_rows_def)

lemma wp_ptc_MENOS [simp]: "well_paired stem \<Longrightarrow> wp_ptc (MENOS stem)"
  by (auto simp: wp_ptc_def MENOS_def ptc_rows_def intro!: well_paired_append)

lemma goes_participle [goes_rules]:
  assumes laws: "normalization_laws env" and "wp_ptc forms" "\<forall>l\<in>set lemmas. well_paired l"
  shows "goes env I (participle env p label forms lemmas cout)"
  unfolding participle_def verbTransform_def Let_def
proof (rule goes_each)
  fix x
  assume "x \<in> set forms"
  moreover obtain e c g u where x: "x = (e, c, g, u)" by (cases x)
  ultimately have "well_paired e" using assms(2) by (auto simp: wp_ptc_def)
  then show "goes env I (case x of (ending, c, g, ultima) \<Rightarrow> run_ops
       [transform (ptc_id p c g) (ptc_name label c g) (ptc_name label c g @ [46]),
        each (\<lambda>l. verbEnding env (ptc_id p c g) ending l cout [] (case ultima of Some l \<Rightarrow> Some l
           | None \<Rightarrow> if list_ex (\<lambda>e. ends_with (stripAccents env ending) (gk e)) [''ai'', ''oi'', ''a''] then Some Short else None)) lemmas])"
    unfolding x prod.case using assms
    by (intro goes_transform goes_Cons goes_Nil goes_each goes_verbEnding) auto
qed

lemma gks_wp [simp]: "\<forall>l\<in>set (gks rows). well_paired l" "\<forall>l\<in>set middle_lemmas. well_paired l"
  by (auto simp: gks_def middle_lemmas_def)

lemma goes_participles:
  assumes "normalization_laws env"
  shows "goes env I (participles env)"
  unfolding participles_def PTC_PRES_ACT_def using assms by (intro goes_Cons goes_Nil goes_participle) simp_all

lemma goes_merged_row:
  assumes laws: "normalization_laws env" and "well_paired (fst row)" "\<forall>c\<in>set cons. well_paired c"
  shows "goes env I (merged_row env cons row)"
proof -
  obtain e p t where row: "row = (e, p, t)" by (cases row)
  show ?thesis
    unfolding row merged_row_def prod.case Let_def verbTransform_def middle_lemmas_def using assms row
    by (intro goes_transform goes_Cons goes_Nil goes_each [where xs = cons] goes_gks goes_verbEnding)
      (simp_all add: wp_rules)
qed

lemma goes_mergedPerfects:
  assumes laws: "normalization_laws env" and i: "js ''inf-mid'' \<in> I"
  shows "goes env I (mergedPerfects env)"
  unfolding mergedPerfects_def
proof (intro goes_Cons goes_Nil)
  show "goes env I (each (\<lambda>(specs, cons). each (merged_row env cons) specs) MERGED)"
    by (rule goes_each) (auto simp: MERGED_def gks_def intro!: goes_each goes_merged_row [OF laws])
  show "goes env I (each (\<lambda>(ending, cons). each (\<lambda>c. both_verbs env ''inf-mid'' ending c [js ''red''] (Some Short)) cons)
      MERGED_INFINITIVES)"
    by (rule goes_each)
      (auto simp: MERGED_INFINITIVES_def gks_def simp del: js_simps intro!: goes_each goes_both_verbs [OF laws i])
  show "goes env I (each (\<lambda>(stem, cons, deponent). participle env ''ptc-pfm'' ''perfect middle/passive participle'' (MENOS stem)
         (concat (map (\<lambda>c. if deponent then [c @ gk ''w'', c @ gk ''omai''] else [c @ gk ''w'']) cons)) [js ''red''])
       MERGED_PARTICIPLES)"
    by (rule goes_each)
      (auto simp: MERGED_PARTICIPLES_def gks_def intro!: goes_participle [OF laws] well_paired_append split: if_splits)
qed

lemma goes_tenseEndings:
  assumes "normalization_laws env"
  shows "goes env I (tenseEndings env)"
proof -
  have a: "goes env I (aorist_active env)" for I
    unfolding aorist_active_def verbTransform_def using assms by (intro verb_rules) simp_all
  have m: "makes env I (aorist_middle env) {js ''inf-mid''}" for I
    unfolding aorist_middle_def verbTransform_def
    using assms by (intro makes_run_transform makes_run_skip makes_run_Nil goes_endingSet goes_both_verbs) simp_all
  have p: "goes env I (aorist_passive env)" for I
    unfolding aorist_passive_def verbTransform_def using assms by (intro verb_rules) simp_all
  have menos: "wp_ptc (map (\<lambda>(e, c, g, u). (e, c, g, None)) (MENOS (gk ''me/n'')))"
    using wp_ptc_MENOS [of "gk ''me/n''"] by (auto simp: wp_ptc_def)
  have f: "goes env I (perfect_endings env)" if "js ''inf-mid'' \<in> I" for I
    unfolding perfect_endings_def using assms that menos
    by (intro goes_Cons goes_Nil goes_endingSet goes_both_verbs goes_participle) simp_all
  have g: "goes env I (mergedPerfects env)" if "js ''inf-mid'' \<in> I" for I
    using goes_mergedPerfects [OF assms that] .
  show ?thesis unfolding tenseEndings_def
    by (intro goes_Cons a makes_Cons [OF m] p f g goes_Nil) simp_all
qed

lemma goes_contractRule [goes_rules]:
  assumes "normalization_laws env" "i \<in> I" "well_paired e" "well_paired l"
  shows "goes env I (contractRule env i e l cout)"
  unfolding contractRule_def Let_def using assms
  by (cases "hasAccent env (toNFC env e)") (auto intro!: goes_suffix simp: wp_rules)

lemma goes_contract_persons [goes_rules]:
  assumes "normalization_laws env" "\<forall>l\<in>set ls. well_paired l"
  shows "goes env I (contract_persons env p label persons cout ls)"
  unfolding contract_persons_def verbTransform_def Let_def
proof (rule goes_each)
  fix x
  assume "x \<in> set (rows_of persons)"
  then obtain e person where x: "x = (gk e, person)" by (auto simp: rows_of_def)
  show "goes env I (case x of (e, person) \<Rightarrow> run_ops
       [transform (js p @ [45] @ person) (js label @ [32] @ person_text person)
          (js label @ js '', '' @ person_text person @ [46]),
        each (\<lambda>l. contractRule env (js p @ [45] @ person) e l cout) ls])"
    unfolding x prod.case using assms
    by (intro goes_transform goes_Cons goes_Nil goes_each [where xs = ls] goes_contractRule) (auto simp del: js_simps)
qed

lemma goes_contract_participle:
  assumes "normalization_laws env" "well_paired l" "well_paired (fst row)"
  shows "goes env I (contract_participle env l cout row)"
proof -
  obtain e c g u where row: "row = (e, c, g, u)" by (cases row)
  show ?thesis
    unfolding row contract_participle_def prod.case Let_def verbTransform_def using assms row
    by (intro goes_transform goes_Cons goes_Nil goes_contractRule) simp_all
qed

lemma plain_butlast: "plain s \<Longrightarrow> plain (butlast s)" and plain_append: "plain s \<Longrightarrow> plain t \<Longrightarrow> plain (s @ t)"
  by (auto simp: plain_def dest: in_set_butlastD)

lemma plain_to_middle: "plain l \<Longrightarrow> plain (to_middle l)"
  by (simp add: to_middle_def plain_append plain_butlast gk_plain)

lemma goes_contract_verb:
  assumes laws: "normalization_laws env" and l: "plain l" and ids: "js ''inf-act'' \<in> I" "js ''inf-mid'' \<in> I"
  shows "goes env I (contract_verb env (l, set1))"
proof -
  have wl: "well_paired l" "well_paired (toNFC env (to_middle l))"
    using plain_well_paired [OF l] plain_well_paired [OF plain_to_middle [OF l]] well_paired_toNFC [OF laws] by auto
  have ptc: "goes env I (each (contract_participle env l cout) (ptc_rows table))" for cout table
    by (rule goes_each) (auto simp: ptc_rows_def intro!: goes_contract_participle [OF laws wl(1)])
  have two: "goes env I (each (\<lambda>k. contractRule env (js ''inf-mid'') (gk m) k cout) [toNFC env (to_middle l), l])" for m cout
    using wl by (intro goes_each goes_contractRule [OF laws ids(2)]) auto
  show ?thesis
    unfolding contract_verb_def prod.case Let_def
    using laws wl ids
    by (intro goes_Cons goes_Nil goes_contract_persons goes_gks goes_contractRule ptc two goes_participle)
      (auto simp: wp_rules simp del: js_simps)
qed

lemma goes_contractEndings:
  assumes "normalization_laws env" "js ''inf-act'' \<in> I" "js ''inf-mid'' \<in> I"
  shows "goes env I (contractEndings env)"
  unfolding contractEndings_def
  by (rule goes_each) (auto intro!: goes_contract_verb [OF assms(1) gk_plain assms(2,3)])

section \<open>Stems, augments and irregular verbs\<close>

lemma stem_outs_plain: "(i, out) \<in> set (stem_outs rows) \<Longrightarrow> plain i \<and> plain out"
  by (auto simp: stem_outs_def gk_plain)

lemma goes_stem_outs:
  "(\<And>a b. plain a \<Longrightarrow> plain b \<Longrightarrow> goes env I (f (a, b))) \<Longrightarrow> goes env I (each f (stem_outs rows))"
  by (rule goes_each) (auto dest: stem_outs_plain)

lemma goes_voices:
  assumes "plain (fst p)" "plain (snd p)" and "\<And>a b. well_paired a \<Longrightarrow> well_paired b \<Longrightarrow> goes env I (f a b)"
  shows "goes env I (each (\<lambda>(a, b). f a b) (voices p))"
  using assms(1,2) plain_to_middle plain_well_paired
  by (intro goes_each) (auto simp: voices_def split: prod.splits intro!: assms(3))

lemma stem_opts [simp]: "eo_stem strip_opts = []" "eo_stem (then_opts steps) = []"
  by (simp_all add: strip_opts_def then_opts_def no_opts_def)

lemma goes_sigma_stem:
  assumes "normalization_laws env" "js ''future'' \<in> I" "js ''aorist'' \<in> I" "plain a" "plain b"
  shows "goes env I (sigma_stem env (a, b))"
  unfolding sigma_stem_def prod.case Let_def
  using assms by (intro goes_voices goes_Cons goes_Nil goes_suffix) auto

lemma goes_perfect_middle:
  assumes "normalization_laws env" "js ''perfect-middle'' \<in> I" "plain a" "plain b"
  shows "goes env I (perfect_middle env (a, b))"
  unfolding perfect_middle_def prod.case Let_def
  using assms plain_well_paired not_normalized(8) by (intro goes_Cons goes_Nil goes_suffix) (auto simp del: js_simps)

definition stem_ids :: "jstr set" where
  "stem_ids = {js ''future'', js ''aorist'', js ''aorist-passive'', js ''perfect'', js ''perfect-middle''}"

lemma goes_gk_pairs_raw:
  "(\<And>a b. plain a \<Longrightarrow> plain b \<Longrightarrow> goes env I (f (a, b))) \<Longrightarrow> goes env I (each f (gk_pairs rows))"
  by (rule goes_each) (auto simp: gk_pairs_def gk_plain)

lemma stemRules_makes:
  assumes laws: "normalization_laws env"
  shows "makes env I (stemRules env) stem_ids"
proof -
  note pl = plain_well_paired
  show ?thesis
    unfolding stemRules_def verbTransform_def SIGMA_STEMS_def LIQUID_FUTURES_def LIQUID_AORISTS_def PASSIVE_STEMS_def
      PERFECT_STEMS_def MIDDLE_PERFECTS_def
    using not_normalized(6)
    by (intro makes_run_transform makes_run_skip makes_run_Nil goes_stem_outs goes_gk_pairs_raw goes_sigma_stem [OF laws]
        goes_perfect_middle [OF laws] goes_voices goes_Cons goes_Nil goes_suffix [OF laws])
      (auto simp: stem_ids_def pl simp del: js_simps intro!: goes_Cons goes_Nil goes_suffix [OF laws])
qed

lemma gk_pairs_wp: "x \<in> set (gk_pairs rows) \<Longrightarrow> well_paired (fst x) \<and> well_paired (snd x)"
  by (auto simp: gk_pairs_def)

lemma goes_plain_rule:
  assumes "normalization_laws env" "i \<in> I" "stem_ok extra" "well_paired a" "well_paired b"
  shows "goes env I (add env i (plain_rule type a b cin cout extra))"
  unfolding plain_rule_def using assms by (intro goes_add wp_texts_rule_of)

lemma wp_texts_distinct:
  assumes "\<And>k v. (k, v) \<in> set r \<Longrightarrow> k \<in> set NORMALIZED_FIELDS \<Longrightarrow> \<exists>t. v = JStr t \<and> well_paired t"
  shows "wp_texts r"
  using assms by (auto simp: wp_texts_def dest: map_of_SomeD)

lemma goes_unchanged_ending:
  "normalization_laws env \<Longrightarrow> js i \<in> I \<Longrightarrow> stem_ok extra \<Longrightarrow> well_paired e \<Longrightarrow>
    goes env I (unchanged_ending env i cin extra e)"
  unfolding unchanged_ending_def by (rule goes_plain_rule)

lemma goes_redup_pattern:
  assumes "normalization_laws env" "js ''reduplication-preverb'' \<in> I"
  shows "goes env I (redup_pattern env a b c)"
  unfolding redup_pattern_def
  by (rule goes_add [OF assms], rule wp_texts_distinct)
    (use not_normalized in \<open>auto simp del: js_simps\<close>)

lemma goes_augmentRules:
  assumes laws: "normalization_laws env"
  shows "goes env I (augmentRules env)"
proof -
  have simple: "goes env J (each f (filter P SIMPLE_AUGMENTS))"
    if "\<And>a b. well_paired a \<Longrightarrow> well_paired b \<Longrightarrow> goes env J (f (a, b))" for J f P
  proof (rule goes_each)
    fix x
    assume "x \<in> set (filter P SIMPLE_AUGMENTS)"
    then have "x \<in> set SIMPLE_AUGMENTS" by simp
    then have "well_paired (fst x) \<and> well_paired (snd x)" unfolding SIMPLE_AUGMENTS_def by (rule gk_pairs_wp)
    then show "goes env J (f x)" using that [of "fst x" "snd x"] by simp
  qed
  have simple': "goes env J (each f SIMPLE_AUGMENTS)"
    if "\<And>a b. well_paired a \<Longrightarrow> well_paired b \<Longrightarrow> goes env J (f (a, b))" for J f
    using simple [where P = "\<lambda>p. True"] that by simp
  have preverbs: "goes env J (each (preverb_augments env) PREVERBS)" if "js ''augment'' \<in> J" for J
    unfolding PREVERBS_def preverb_augments_def LENGTHENED_def emitAugPreverb_def
    using that by (intro goes_gk_pairs goes_Cons goes_Nil goes_prefix [OF laws]) (simp_all add: wp_rules)
  show ?thesis
    unfolding augmentRules_def verbTransform_def VERB_TAILS_def emitAug_def emitRed_def
    using not_normalized(9)
    by (intro goes_transform goes_Cons goes_Nil goes_gk_pairs goes_gks simple simple' preverbs goes_only_if
        goes_prefix [OF laws] goes_unchanged_ending [OF laws] goes_redup_pattern [OF laws])
      (auto simp: wp_rules simp del: js_simps intro!: goes_Cons goes_Nil goes_only_if goes_prefix [OF laws])
qed

lemma goes_irregularStem:
  assumes laws: "normalization_laws env" and "js i \<in> I" "well_paired a" "well_paired b"
  shows "goes env I (irregularStem env i a b pairs)"
  unfolding irregularStem_def Let_def both_tails_def
  using assms by (intro goes_each [where xs = pairs]) (auto intro!: goes_gks goes_suffix simp: wp_rules)

lemma well_paired_no_breathing: "normalization_laws env \<Longrightarrow> well_paired s \<Longrightarrow> well_paired (no_breathing env s)"
  unfolding no_breathing_def
  by (intro well_paired_toNFC well_paired_filter well_paired_toNFD) (auto simp: is_high_def is_low_def)

lemma goes_fusedStem:
  assumes laws: "normalization_laws env" and "js i \<in> I" "well_paired a" "well_paired b"
  shows "goes env I (fusedStem env i a b cin)"
  unfolding fusedStem_def Let_def both_tails_def
  using assms not_normalized(6)
  by (intro goes_Cons goes_Nil goes_only_if goes_irregularStem goes_gks goes_suffix)
    (auto simp: wp_rules well_paired_no_breathing simp del: js_simps)

lemma goes_part_of: "(\<And>a. well_paired a \<Longrightarrow> goes env I (f a)) \<Longrightarrow> goes env I (each f (part_of k parts))"
  by (rule goes_each) (auto simp: part_of_def gks_def split: option.splits)

lemma goes_irregular_verb:
  assumes laws: "normalization_laws env" and ids: "stem_ids \<subseteq> I"
  shows "goes env I (irregular_verb env entry)"
proof -
  obtain l parts where entry: "entry = (l, parts)" by (cases entry)
  have "js ''future'' \<in> I" "js ''aorist'' \<in> I" "js ''aorist-passive'' \<in> I" "js ''perfect'' \<in> I" "js ''perfect-middle'' \<in> I"
    using ids by (simp_all add: stem_ids_def del: js_simps)
  then show ?thesis
    unfolding entry irregular_verb_def prod.case Let_def verbTransform_def
    by (intro goes_Cons goes_transform goes_Nil goes_part_of goes_irregularStem [OF laws] goes_fusedStem [OF laws])
      (simp_all add: wp_rules del: js_simps)
qed

lemma goes_buildIrregular:
  assumes laws: "normalization_laws env" and ids: "stem_ids \<subseteq> I"
  shows "goes env I (buildIrregular env)"
proof -
  have a: "js ''aorist'' \<in> I" using ids by (simp add: stem_ids_def del: js_simps)
  have two: "goes env I (each f [(gk x, cx), (gk y, cy)])"
    if "\<And>e c. well_paired e \<Longrightarrow> goes env I (f (e, c))" for f x y cx cy
    by (rule goes_each) (auto intro!: that)
  have "goes env I (buildEchoCompounds env)"
    unfolding buildEchoCompounds_def ECHO_PREVERBS_def both_tails_def
    using not_normalized(6)
    by (intro goes_Cons goes_Nil goes_gk_pairs two goes_gks goes_suffix [OF laws a])
      (auto simp: wp_rules simp del: js_simps intro!: goes_gks goes_suffix [OF laws a])
  then show ?thesis
    unfolding buildIrregular_def by (intro goes_Cons goes_Nil goes_each goes_irregular_verb [OF laws ids])
qed

section \<open>The accent transform\<close>

lemma wp_texts_obj_of:
  "(\<And>k v. (k, v) \<in> set r \<Longrightarrow> k \<in> set NORMALIZED_FIELDS \<Longrightarrow> \<exists>t. v = JStr t \<and> well_paired t) \<Longrightarrow> wp_texts (obj_of r)"
  by (auto simp: wp_texts_def lookup_obj_of dest!: map_of_SomeD)

lemma goes_onLastVowel:
  assumes laws: "normalization_laws env" and i: "js ''accent'' \<in> I" and e: "well_paired e" and "stem_ok extra"
  shows "goes env I (onLastVowel env e m conds extra)"
proof -
  have "\<exists>t. v = JStr t \<and> well_paired t" if "(k, v) \<in> set extra" "k \<in> set NORMALIZED_FIELDS" for k v
    using that assms(4) by (force simp: stem_ok_def map_of_eq_None_iff)
  then show ?thesis
    unfolding onLastVowel_def using e not_normalized
    by (intro goes_add [OF laws i] wp_texts_obj_of) (auto simp: is_high_def is_low_def simp del: js_simps)
qed

lemma goes_pat:
  assumes "normalization_laws env" "js ''accent'' \<in> I"
  shows "goes env I (pat env a b c)"
  unfolding pat_def
  by (rule goes_add [OF assms], rule wp_texts_distinct) (use not_normalized in \<open>auto simp del: js_simps\<close>)

lemma plain_slices: "plain s \<Longrightarrow> plain (take n s) \<and> plain (drop n s)"
  by (auto simp: plain_def dest: in_set_takeD in_set_dropD)

lemma goes_accent_stem:
  assumes laws: "normalization_laws env" and i: "js ''accent'' \<in> I" and "plain a" "plain b"
  shows "goes env I (accent_stem env (a, b))"
proof -
  have "well_paired (with_mark env a n 769)" for n
    unfolding with_mark_def using plain_slices [OF assms(3), of n] plain_well_paired
    by (intro well_paired_toNFC [OF laws] well_paired_append) (auto simp: is_high_def is_low_def)
  then show ?thesis
    unfolding accent_stem_def prod.case Let_def using assms plain_well_paired
    by (auto intro!: goes_plain_rule goes_skip simp: wp_rules)
qed

lemma goes_accent_final:
  assumes laws: "normalization_laws env" and i: "js ''accent'' \<in> I" and "\<forall>t\<in>set forms. well_paired t" "forms \<noteq> []"
  shows "goes env I (accent_final env forms)"
  unfolding accent_final_def using assms not_normalized(6)
  by (intro goes_each goes_plain_rule) (auto simp: wp_rules hd_in_set list.set_sel simp del: js_simps)

lemma FINALS_wp: "forms \<in> set FINALS \<Longrightarrow> forms \<noteq> [] \<and> (\<forall>t\<in>set forms. well_paired t)"
proof -
  assume "forms \<in> set FINALS"
  then obtain texts where "forms = gks texts" "texts \<noteq> []" unfolding FINALS_def by auto
  then show ?thesis by (auto simp: gks_def)
qed

lemma goes_buildAccentTransform:
  assumes laws: "normalization_laws env"
  shows "goes env I (buildAccentTransform env)"
proof -
  have stems: "goes env J (each (accent_stem env) ATHEMATIC_ACCENT)" if "js ''accent'' \<in> J" for J
    unfolding ATHEMATIC_ACCENT_def by (intro goes_gk_pairs_raw goes_accent_stem [OF laws that])
  have finals: "goes env J (each (accent_final env) FINALS)" if "js ''accent'' \<in> J" for J
    using FINALS_wp by (intro goes_each goes_accent_final [OF laws that]) auto
  show ?thesis
    unfolding buildAccentTransform_def using not_normalized(6)
    by (intro goes_transform goes_Cons goes_Nil goes_gks stems finals goes_onLastVowel [OF laws] goes_pat [OF laws])
      (auto simp del: js_simps)
qed

section \<open>Spelling, elision, crasis and enclitics\<close>

lemma goes_buildSpelling:
  assumes "normalization_laws env"
  shows "goes env I (buildSpelling env)"
  unfolding buildSpelling_def
  using assms by (intro goes_transform goes_Cons goes_Nil goes_gk_pairs goes_suffix goes_prefix) simp_all

lemma stem_ok_elision: "stem_ok [(js ''stemContains'', v)]" "stem_ok [(js ''stemContains'', v), NOT_AFTER_SPACE]"
    "stem_ok [(js ''stemMinLength'', v), NOT_AFTER_SPACE]"
proof -
  have "js ''stemContains'' \<notin> set NORMALIZED_FIELDS" "js ''stemNotEndsWith'' \<notin> set NORMALIZED_FIELDS"
    by code_simp+
  then show "stem_ok [(js ''stemContains'', v)]" "stem_ok [(js ''stemContains'', v), NOT_AFTER_SPACE]"
    "stem_ok [(js ''stemMinLength'', v), NOT_AFTER_SPACE]"
    using not_normalized(6) unfolding NOT_AFTER_SPACE_def stem_ok_simps(2) by (simp_all only: simp_thms stem_ok_simps(1))
qed

lemma goes_elide:
  assumes laws: "normalization_laws env" and i: "js ''elision'' \<in> I" and v: "well_paired v"
  shows "goes env I (elide env v)"
  unfolding elide_def ASPIRATED_def using assms stem_ok_elision
  by (intro goes_Cons goes_Nil goes_gk_pairs goes_plain_rule goes_add wp_texts_rule_of)
    (simp_all add: wp_rules del: js_simps stem_ok_simps)

lemma goes_elision:
  assumes laws: "normalization_laws env"
  shows "goes env I (elision env)"
  unfolding elision_def ELIDED_def ELIDED_WORDS_def using assms
  by (intro goes_transform goes_Cons goes_Nil goes_gk_pairs goes_gks goes_elide goes_plain_rule)
    (simp_all add: wp_rules)

lemma goes_crasis_rules:
  assumes laws: "normalization_laws env"
  shows "goes env I (crasis_rules env)"
proof -
  have c: "goes env J (each (\<lambda>(x, y). if x = gk ''a('' then Inr else prefix_rule env (js ''crasis'') x y [] [] written_only)
      (gk_pairs pairs))" if "js ''crasis'' \<in> J" for J pairs
    using that laws
    by (intro goes_gk_pairs) (auto intro!: goes_skip goes_prefix simp: written_only_def)
  show ?thesis
    unfolding crasis_rules_def CRASIS_def by (intro goes_transform goes_Cons goes_Nil c) simp
qed

lemma goes_enclitics:
  assumes laws: "normalization_laws env"
  shows "goes env I (enclitics env)"
proof -
  have w: "goes env J (whole env (js ''enclitic'') a b [] [] written_only)"
    if "js ''enclitic'' \<in> J" "well_paired a" "well_paired b" for J a b
    unfolding whole_def using that by (intro goes_emit [OF laws]) (simp_all add: written_only_def)
  show ?thesis
    unfolding enclitics_def ENCLITIC_VOWELS_def ENCLITIC_FINALS_def acute_def using stem_ok_elision
    by (intro goes_transform goes_Cons goes_Nil goes_gks goes_gk_pairs w goes_plain_rule [OF laws])
      (auto simp: wp_rules laws is_high_def is_low_def simp del: js_simps stem_ok_simps)
qed

section \<open>The whole build\<close>

lemma goes_build_texts:
  assumes "normalization_laws env"
  shows "goes env I (build_texts env)"
  unfolding build_texts_def buildClitics_def
  using assms by (intro goes_Cons goes_Nil goes_buildSpelling goes_elision goes_crasis_rules goes_enclitics
    goes_buildAccentTransform)

lemma thematicEndings_makes:
  assumes laws: "normalization_laws env"
  shows "makes env I (thematicEndings env) {js ''inf-act'', js ''inf-mid''}"
proof -
  have a: "makes env I (thematic_active env) {js ''inf-act''}" for I
    unfolding thematic_active_def verbTransform_def using laws
    by (intro makes_run_transform makes_run_skip makes_run_Nil goes_endingSet goes_gks goes_verbEnding) simp_all
  have m: "makes env I (thematic_middle env) {js ''inf-mid''}" for I
    unfolding thematic_middle_def verbTransform_def using laws
    by (intro makes_run_transform makes_run_skip makes_run_Nil goes_endingSet goes_both_verbs) simp_all
  show ?thesis
    unfolding thematicEndings_def by (intro makes_run_Cons [OF a] makes_run_Cons [OF m] makes_run_Nil) simp
qed

lemma goes_build_inflections:
  assumes laws: "normalization_laws env"
  shows "goes env I (build_inflections env)"
  unfolding build_inflections_def
  by (intro goes_Cons goes_buildNominal [OF laws] makes_Cons [OF thematicEndings_makes [OF laws]]
      goes_participles [OF laws] goes_tenseEndings [OF laws] goes_contractEndings [OF laws]
      makes_Cons [OF stemRules_makes [OF laws]] goes_buildIrregular [OF laws] goes_augmentRules [OF laws] goes_Nil)
    (auto simp: stem_ids_def simp del: js_simps)

text \<open>The sections of own-rules.mjs from the nominal to the augment rules, and those from the spelling rules to the
  accent transform, return from every good state (no rule is added to an unknown transform, no ending is left without
  its recessive accent) and leave a good state: transform identifiers are unique, no transform has a rule twice, and every
  text of a rule is in NFC. No transform disappears.\<close>

theorem own_sections_return:
  assumes "normalization_laws env" and "good env s" and "build \<in> {build_inflections env, build_texts env}"
  shows "\<exists>s'. build s = Inr s' \<and> good env s' \<and> known s \<subseteq> known s'"
  using assms goes_build_inflections [OF assms(1), of "{}"] goes_build_texts [OF assms(1), of "{}"]
  unfolding goes_def by blast

theorem own_sections_return_witness:
  "\<exists>s'. build_inflections ex_greek (start False) = Inr s' \<and> good ex_greek s'"
  using own_sections_return [OF ex_laws good_start, of "build_inflections ex_greek" False] by auto

end
