(* ===== verification/Own_Output_Correct.thy ===== *)
theory Own_Output_Correct
  imports Own_Output Own_Rules_Correct Merge_Correct
begin

text \<open>
  \<open>JSON.stringify\<close> is injective on complete values, so keys made of it identify rules and shapes; \<open>compact\<close> writes
  exactly the rules it is given; \<open>emit\<close> writes a rule and its accentless twin.
\<close>

section \<open>JSON.stringify as a key\<close>

lemma renders_entry_colon:
  "wf_js k \<Longrightarrow> renders t v \<Longrightarrow> renders_entry (quote_js k @ [58] @ t) (k, v)"
  unfolding renders_entry_def by (rule exI [of _ "[]"], rule exI [of _ "[]"]) simp

lemma renders_stringify:
  shows "json_ok v \<Longrightarrow> renders (stringify v) (clean v)"
    and "list_all json_ok vs \<Longrightarrow> list_all2 renders_elem (stringify_elems vs) (map clean vs)"
    and "list_all (\<lambda>(k, v). wf_js k \<and> (v = JUndef \<or> json_ok v)) es \<Longrightarrow>
      list_all2 renders_entry (stringify_entries es) (map (\<lambda>(k, v). (k, clean v)) (defined_entries es))"
proof (induction v and vs and es rule: stringify_stringify_elems_stringify_entries.induct)
  case (1 vs)
  then show ?case using renders_array_sep [of _ _ "[]" "[]"] by simp
next
  case (2 es)
  then show ?case using renders_object_sep [of _ _ "[]" "[]"] obj_ok_clean [of es] by simp
next
  case (5 v vs)
  then show ?case by (auto intro: renders_elem_renders)
next
  case (7 k v es)
  then show ?case using renders_entry_colon by (auto simp: defined_entries_def)
qed (use renders_scalars in \<open>auto intro: renders_elem_renders simp: defined_entries_def simp del: stringify_scalar.simps\<close>)

lemma json_parse_stringify: "json_ok v \<Longrightarrow> json_parse (stringify v) = Some (clean v)"
  using renders_parses [OF renders_stringify(1), of v "[]"] by (simp add: stops_def skip_ws_def)

text \<open>A complete value: it can be written and has no undefined entry.\<close>

definition complete :: "json \<Rightarrow> bool" where
  "complete v \<longleftrightarrow> json_ok v \<and> clean v = v"

lemma stringify_inj: "complete v \<Longrightarrow> complete w \<Longrightarrow> stringify v = stringify w \<Longrightarrow> v = w"
proof -
  assume v: "complete v" and w: "complete w" and eq: "stringify v = stringify w"
  have "Some (clean v) = Some (clean w)"
    using json_parse_stringify [of v] json_parse_stringify [of w] v w unfolding complete_def eq by metis
  then show "v = w" using v w by (simp add: complete_def)
qed

section \<open>Compact rows expand to the rules\<close>

definition normal :: "rule_obj \<Rightarrow> rule_obj" where
  "normal r = (if standing r then without_key (js ''standing'') r else whole_as_suffix r)"

text \<open>The rules a row stands for: a circumfix row with the empty prefix pair is a suffix rule for each suffix pair.\<close>

definition row_keys :: "jstr set" where
  "row_keys = {js ''type'', js ''prefixes'', js ''suffixes''}"

definition row_rules :: "rule_obj \<Rightarrow> rule_obj list" where
  "row_rules row =
     (if own_type row = JStr (js ''circumfix'') \<and> obj_get (JObj row) (js ''prefixes'') = JArr [JArr [JStr [], JStr []]]
      then map (\<lambda>(i, d). [(js ''type'', JStr (js ''suffix'')), (js ''inflected'', i), (js ''deinflected'', d)] @
          filter (\<lambda>e. fst e \<notin> row_keys) row) (pairs_of (obj_get (JObj row) (js ''suffixes'')))
      else [row])"

text \<open>What the generator gives \<open>compact\<close>: complete objects with conditions, and with texts where a suffix needs them.\<close>

definition own_rule :: "rule_obj \<Rightarrow> bool" where
  "own_rule r \<longleftrightarrow> complete (JObj r) \<and> js ''prefixes'' \<notin> fst ` set r \<and> js ''suffixes'' \<notin> fst ` set r \<and>
     (own_type r \<in> {JStr (js ''suffix''), JStr (js ''wholeWord'')} \<longrightarrow>
       {js ''inflected'', js ''deinflected'', js ''conditionsIn'', js ''conditionsOut''} \<subseteq> fst ` set r)"

definition pair_keys :: "jstr set" where
  "pair_keys = {js ''type'', js ''inflected'', js ''deinflected''}"

definition shape_ok :: "rule_obj \<Rightarrow> bool" where
  "shape_ok sh \<longleftrightarrow> complete (JObj sh) \<and> distinct (map fst sh) \<and> fst ` set sh \<inter> (pair_keys \<union> row_keys) = {} \<and>
     {js ''conditionsIn'', js ''conditionsOut''} \<subseteq> fst ` set sh"

lemma key_names:
  "js ''type'' \<noteq> js ''inflected''" "js ''type'' \<noteq> js ''deinflected''" "js ''inflected'' \<noteq> js ''deinflected''"
  "js ''type'' \<noteq> js ''prefixes''" "js ''type'' \<noteq> js ''suffixes''" "js ''prefixes'' \<noteq> js ''suffixes''"
  "js ''conditionsIn'' \<noteq> js ''conditionsOut''"
  "js ''inflected'' \<notin> row_keys" "js ''deinflected'' \<notin> row_keys" "js ''conditionsIn'' \<notin> row_keys" "js ''conditionsOut'' \<notin> row_keys"
  "js ''conditionsIn'' \<notin> pair_keys" "js ''conditionsOut'' \<notin> pair_keys"
  "js ''stemCharacters'' \<noteq> js ''type''" "js ''stemCharacters'' \<noteq> js ''prefixes''" "js ''stemCharacters'' \<noteq> js ''suffixes''"
  by (simp_all add: row_keys_def pair_keys_def)

lemma obj_of_lookup:
  "map_of (obj_of (xs @ ys)) k = (case map_of (rev ys) k of Some v \<Rightarrow> Some v | None \<Rightarrow> map_of (rev xs) k)"
  by (simp add: lookup_obj_of map_add_def split: option.split)

lemma map_of_suffix_row:
  assumes "distinct (map fst sh)" "fst ` set sh \<inter> pair_keys = {}"
  shows "map_of (suffix_row sh (i, d)) =
    (map_of sh)(js ''type'' \<mapsto> JStr (js ''suffix''), js ''inflected'' \<mapsto> i, js ''deinflected'' \<mapsto> d)"
proof -
  have rev: "map_of (rev sh) = map_of sh" using assms(1) by (simp add: map_of_inject_set rev_map [symmetric])
  have none: "map_of sh k = None" if "k \<in> pair_keys" for k
    using assms(2) that by (auto simp: map_of_eq_None_iff)
  show ?thesis
  proof (rule ext)
    fix k
    show "map_of (suffix_row sh (i, d)) k =
        ((map_of sh)(js ''type'' \<mapsto> JStr (js ''suffix''), js ''inflected'' \<mapsto> i, js ''deinflected'' \<mapsto> d)) k"
      unfolding suffix_row_def prod.case obj_of_lookup rev
      using none [of k] key_names(1-3) by (cases "k \<in> pair_keys") (auto simp: pair_keys_def simp del: js_simps split: option.splits)
  qed
qed

lemma map_of_filter_set: "map_of (filter (\<lambda>e. fst e \<notin> K) es) k = (if k \<in> K then None else map_of es k)"
  by (induction es) auto

lemma map_of_filter_key: "map_of (filter (\<lambda>e. fst e \<noteq> k') es) k = (if k = k' then None else map_of es k)"
  by (induction es) auto

lemma disjoint_subset_pair: "A \<inter> (pair_keys \<union> B) = {} \<Longrightarrow> A \<inter> pair_keys = {}"
  by blast

lemma pairs_of_arr [simp]: "pairs_of (JArr (map (\<lambda>(i, d). JArr [i, d]) ps)) = ps"
  by (induction ps) (auto simp: pairs_of_def)

lemma row_rules_single: "own_type r \<noteq> JStr (js ''circumfix'') \<or> js ''prefixes'' \<notin> fst ` set r \<Longrightarrow> row_rules r = [r]"
proof -
  have "obj_get (JObj r) (js ''prefixes'') = JUndef" if "js ''prefixes'' \<notin> fst ` set r"
    using map_of_eq_None_iff [THEN iffD2, OF that] by (simp add: obj_get_JObj del: js_simps)
  then show "own_type r \<noteq> JStr (js ''circumfix'') \<or> js ''prefixes'' \<notin> fst ` set r \<Longrightarrow> row_rules r = [r]"
    by (auto simp: row_rules_def simp del: js_simps)
qed

lemma row_rules_circumfix:
  assumes "shape_ok sh"
  shows "map map_of (row_rules (circumfix_row sh ps)) = map (\<lambda>p. map_of (suffix_row sh p)) ps"
proof -
  let ?head = "[(js ''type'', JStr (js ''circumfix'')), (js ''prefixes'', JArr [JArr [JStr [], JStr []]]),
       (js ''suffixes'', JArr (map (\<lambda>(i, d). JArr [i, d]) ps)),
       (js ''conditionsIn'', obj_get (JObj sh) (js ''conditionsIn'')),
       (js ''conditionsOut'', obj_get (JObj sh) (js ''conditionsOut''))]"
  let ?tail = "without_key (js ''conditionsOut'') (without_key (js ''conditionsIn'') sh)"
  have dist: "distinct (map fst sh)" and none: "fst ` set sh \<inter> (pair_keys \<union> row_keys) = {}"
    and conds: "js ''conditionsIn'' \<in> fst ` set sh" "js ''conditionsOut'' \<in> fst ` set sh"
    using assms by (auto simp: shape_ok_def)
  have dist': "distinct (map fst ?tail)"
    using dist by (simp add: without_key_def distinct_map_filter)
  then have rev: "map_of (rev ?tail) = map_of ?tail" by (simp add: map_of_inject_set rev_map [symmetric])
  have tail: "map_of ?tail k = (if k \<in> {js ''conditionsIn'', js ''conditionsOut''} then None else map_of sh k)" for k
    unfolding without_key_def map_of_filter_key by (simp del: js_simps)
  have row: "map_of (circumfix_row sh ps) k = (case map_of ?tail k of Some v \<Rightarrow> Some v | None \<Rightarrow> map_of (rev ?head) k)" for k
    unfolding circumfix_row_def obj_of_lookup rev ..
  have cond: "map_of (circumfix_row sh ps) k = map_of sh k" if "k \<in> {js ''conditionsIn'', js ''conditionsOut''}" for k
    using that conds key_names(7-11) unfolding row tail
    by (auto simp: obj_get_JObj row_keys_def simp del: js_simps split: option.splits dest!: map_of_eq_None_iff [THEN iffD1])
  have other: "map_of (circumfix_row sh ps) k = map_of sh k" if "k \<notin> row_keys" for k
    using that cond [of k] unfolding row tail by (auto simp: row_keys_def simp del: js_simps split: option.splits)
  have none': "map_of sh k = None" if "k \<in> pair_keys \<union> row_keys" for k
    using none that by (auto simp: map_of_eq_None_iff)
  have ty: "own_type (circumfix_row sh ps) = JStr (js ''circumfix'')"
    and pre: "obj_get (JObj (circumfix_row sh ps)) (js ''prefixes'') = JArr [JArr [JStr [], JStr []]]"
    and suf: "obj_get (JObj (circumfix_row sh ps)) (js ''suffixes'') = JArr (map (\<lambda>(i, d). JArr [i, d]) ps)"
  proof -
    have look: "map_of (circumfix_row sh ps) k = map_of (rev ?head) k" if "k \<in> row_keys" for k
      using none' [of k] that unfolding row tail by simp
    have keys: "js ''type'' \<in> row_keys" "js ''prefixes'' \<in> row_keys" "js ''suffixes'' \<in> row_keys"
      by (simp_all only: row_keys_def insert_iff simp_thms)
    have "map_of (rev ?head) (js ''type'') = Some (JStr (js ''circumfix''))"
      "map_of (rev ?head) (js ''prefixes'') = Some (JArr [JArr [JStr [], JStr []]])"
      "map_of (rev ?head) (js ''suffixes'') = Some (JArr (map (\<lambda>(i, d). JArr [i, d]) ps))"
      by simp_all
    then show "own_type (circumfix_row sh ps) = JStr (js ''circumfix'')"
      "obj_get (JObj (circumfix_row sh ps)) (js ''prefixes'') = JArr [JArr [JStr [], JStr []]]"
      "obj_get (JObj (circumfix_row sh ps)) (js ''suffixes'') = JArr (map (\<lambda>(i, d). JArr [i, d]) ps)"
      unfolding own_type_def obj_get_JObj look [OF keys(1)] look [OF keys(2)] look [OF keys(3)] by simp_all
  qed
  have one: "map_of ([(js ''type'', JStr (js ''suffix'')), (js ''inflected'', i), (js ''deinflected'', d)] @
      filter (\<lambda>e. fst e \<notin> row_keys) (circumfix_row sh ps)) = map_of (suffix_row sh (i, d))" for i d
  proof (rule ext)
    fix k
    have f: "map_of (filter (\<lambda>e. fst e \<notin> row_keys) (circumfix_row sh ps)) k = map_of sh k"
      using other [of k] none' [of k] by (simp add: map_of_filter_set)
    show "map_of ([(js ''type'', JStr (js ''suffix'')), (js ''inflected'', i), (js ''deinflected'', d)] @
        filter (\<lambda>e. fst e \<notin> row_keys) (circumfix_row sh ps)) k = map_of (suffix_row sh (i, d)) k"
      unfolding map_of_suffix_row [OF dist, of i d, OF disjoint_subset_pair [OF none]] map_of_append map_add_def f
      using key_names none' [of k]
      by (auto simp: pair_keys_def simp del: js_simps split: option.splits)
  qed
  show ?thesis
    unfolding row_rules_def ty pre suf pairs_of_arr using one by (simp add: case_prod_beta' del: js_simps)
qed

section \<open>Complete objects\<close>

lemma map_fst_clean: "map (\<lambda>(k, v). (k, clean v)) (defined_entries es) = es \<longleftrightarrow> (\<forall>(k, v)\<in>set es. v \<noteq> JUndef \<and> clean v = v)"
proof
  assume eq: "map (\<lambda>(k, v). (k, clean v)) (defined_entries es) = es"
  have "length (defined_entries es) = length es" using arg_cong [OF eq, of length] by simp
  then have d: "defined_entries es = es" unfolding defined_entries_def using filter_id_conv length_filter_less
    by (metis (mono_tags, lifting) less_irrefl)
  then have "map (\<lambda>(k, v). (k, clean v)) es = es" using eq by simp
  then have "\<forall>(k, v)\<in>set es. clean v = v" by (induction es) auto
  moreover have "\<forall>(k, v)\<in>set es. v \<noteq> JUndef" using d unfolding defined_entries_def filter_id_conv by auto
  ultimately show "\<forall>(k, v)\<in>set es. v \<noteq> JUndef \<and> clean v = v" by auto
next
  assume "\<forall>(k, v)\<in>set es. v \<noteq> JUndef \<and> clean v = v"
  then show "map (\<lambda>(k, v). (k, clean v)) (defined_entries es) = es"
    by (induction es) (auto simp: defined_entries_def)
qed

lemma complete_JObj: "complete (JObj es) \<longleftrightarrow> obj_ok es \<and> (\<forall>(k, v)\<in>set es. wf_js k \<and> complete v)"
proof -
  have "(v \<noteq> JUndef \<and> clean v = v) \<and> (v = JUndef \<or> json_ok v) \<longleftrightarrow> complete v" for v
    by (cases v) (auto simp: complete_def)
  then show ?thesis unfolding complete_def clean_JObj json_ok.simps json.inject map_fst_clean list_all_iff by fastforce
qed

lemma complete_filter: "complete (JObj es) \<Longrightarrow> complete (JObj (filter P es))"
  by (auto simp: complete_JObj obj_ok_def distinct_map_filter sorted_wrt_map sorted_wrt_filter)

lemma obj_put_mem: "e \<in> set (obj_put k v es) \<Longrightarrow> e = (k, v) \<or> e \<in> set es"
  by (auto simp: obj_put_def set_obj_insert split: if_splits)

lemma complete_put: "complete (JObj es) \<Longrightarrow> wf_js k \<Longrightarrow> complete v \<Longrightarrow> complete (JObj (obj_put k v es))"
  using obj_ok_put [of es k v] unfolding complete_JObj by (auto dest!: obj_put_mem)

lemma complete_str [simp]: "complete (JStr s) \<longleftrightarrow> wf_js s"
  by (simp add: complete_def)

lemma complete_distinct: "complete (JObj es) \<Longrightarrow> distinct (map fst es)"
  by (simp add: complete_JObj obj_ok_def)

lemma keys_put: "fst ` set (obj_put k v es) = insert k (fst ` set es)"
  unfolding dom_map_of_conv_image_fst [symmetric] by simp

lemma wf_js_ascii [simp]: "wf_js (js s)"
proof -
  have "0 \<le> (of_char c :: int) \<and> (of_char c :: int) \<le> 65535" for c :: char
    using of_char_mod_256 [of c, where 'a = int] pos_mod_bound [of 256 "of_char c :: int"]
      pos_mod_sign [of 256 "of_char c :: int"] by linarith
  then show ?thesis by (auto simp: wf_js_def js_def)
qed

lemma whole_as_suffix_complete: "complete (JObj r) \<Longrightarrow> complete (JObj (whole_as_suffix r))"
  by (auto simp: whole_as_suffix_def intro!: complete_put simp del: js_simps)

lemma rule_type_put: "own_type (obj_put k v r) = (if k = js ''type'' then v else own_type r)"
  by (simp add: own_type_def obj_get_JObj del: js_simps)

lemma whole_as_suffix_type:
  "own_type (whole_as_suffix r) = JStr (js ''suffix'') \<longleftrightarrow> own_type r \<in> {JStr (js ''suffix''), JStr (js ''wholeWord'')}"
proof -
  have "own_type (whole_as_suffix r) = (if own_type r = JStr (js ''wholeWord'') then JStr (js ''suffix'') else own_type r)"
    using key_names(14) by (simp add: whole_as_suffix_def rule_type_put del: js_simps)
  then show ?thesis by (auto simp del: js_simps)
qed

lemma whole_as_suffix_keys:
  "own_type r \<noteq> JUndef \<Longrightarrow> fst ` set r \<subseteq> fst ` set (whole_as_suffix r) \<and>
    fst ` set (whole_as_suffix r) \<subseteq> fst ` set r \<union> {js ''stemCharacters'', js ''type''}"
  by (auto simp: whole_as_suffix_def keys_put simp del: js_simps)

lemma shape_of_filter: "shape_of r = filter (\<lambda>e. fst e \<notin> pair_keys) r"
  by (simp add: shape_of_def without_key_def pair_keys_def conj_ac filter_filter del: js_simps)

lemma absent_union: "A \<subseteq> B \<union> {a, b} \<Longrightarrow> x \<notin> B \<Longrightarrow> x \<noteq> a \<Longrightarrow> x \<noteq> b \<Longrightarrow> x \<notin> A"
  by blast

lemma own_rule_facts:
  assumes "own_rule r"
  shows "complete (JObj r)" "js ''prefixes'' \<notin> fst ` set r" "js ''suffixes'' \<notin> fst ` set r"
    and "own_type r \<in> {JStr (js ''suffix''), JStr (js ''wholeWord'')} \<Longrightarrow> js ''inflected'' \<in> fst ` set r \<and>
      js ''deinflected'' \<in> fst ` set r \<and> js ''conditionsIn'' \<in> fst ` set r \<and> js ''conditionsOut'' \<in> fst ` set r"
  using assms unfolding own_rule_def insert_subset by simp_all

lemma shape_ok_facts: "shape_ok sh \<Longrightarrow> distinct (map fst sh)" "shape_ok sh \<Longrightarrow> fst ` set sh \<inter> pair_keys = {}"
  by (auto simp: shape_ok_def)

lemma keys_disjoint:
  "js ''prefixes'' \<notin> A \<Longrightarrow> js ''suffixes'' \<notin> A \<Longrightarrow> (A - pair_keys) \<inter> (pair_keys \<union> row_keys) = {}"
  unfolding row_keys_def pair_keys_def by blast

lemma suffix_shape:
  assumes r0: "own_rule r0" and r: "r = whole_as_suffix r0" and ty: "own_type r = JStr (js ''suffix'')"
  shows "shape_ok (shape_of r)" and "map_of (suffix_row (shape_of r) (pair_of r)) = map_of r"
    and "complete (fst (pair_of r)) \<and> complete (snd (pair_of r))"
proof -
  have t0: "own_type r0 \<in> {JStr (js ''suffix''), JStr (js ''wholeWord'')}"
    using ty unfolding r by (simp only: whole_as_suffix_type)
  note absent0 = own_rule_facts(2,3) [OF r0] and keys0 = own_rule_facts(4) [OF r0 t0]
  have c0: "complete (JObj r0)" by (rule own_rule_facts(1) [OF r0])
  have "own_type r0 \<noteq> JUndef" using t0 by auto
  from whole_as_suffix_keys [OF this] have sub: "fst ` set r0 \<subseteq> fst ` set r"
      "fst ` set r \<subseteq> fst ` set r0 \<union> {js ''stemCharacters'', js ''type''}"
    by (simp_all add: r)
  have c: "complete (JObj r)" unfolding r by (rule whole_as_suffix_complete [OF c0])
  have fk: "fst ` set (shape_of r) = fst ` set r - pair_keys"
    by (auto simp: shape_of_filter)
  have "js ''prefixes'' \<notin> fst ` set r" "js ''suffixes'' \<notin> fst ` set r"
    by (rule absent_union [OF sub(2) absent0(1) key_names(15) [symmetric] key_names(4) [symmetric]],
      rule absent_union [OF sub(2) absent0(2) key_names(16) [symmetric] key_names(5) [symmetric]])
  then have "fst ` set (shape_of r) \<inter> (pair_keys \<union> row_keys) = {}"
    unfolding fk by (rule keys_disjoint)
  moreover have "js ''conditionsIn'' \<in> fst ` set (shape_of r)" "js ''conditionsOut'' \<in> fst ` set (shape_of r)"
    unfolding fk using subsetD [OF sub(1)] keys0 key_names(12,13) by simp_all
  moreover have comp: "complete (JObj (shape_of r))" unfolding shape_of_filter by (rule complete_filter [OF c])
  ultimately show ok: "shape_ok (shape_of r)"
    using complete_distinct [OF comp] unfolding shape_ok_def by simp
  obtain i d where id: "map_of r (js ''inflected'') = Some i" "map_of r (js ''deinflected'') = Some d"
  proof -
    have "map_of r (js ''inflected'') \<noteq> None" "map_of r (js ''deinflected'') \<noteq> None"
      unfolding map_of_eq_None_iff using subsetD [OF sub(1)] keys0 by simp_all
    then show ?thesis using that by blast
  qed
  have tyo: "map_of r (js ''type'') = Some (JStr (js ''suffix''))"
    using ty by (simp add: own_type_def obj_get_JObj del: js_simps split: option.splits)
  have mo: "map_of (shape_of r) k = (if k \<in> pair_keys then None else map_of r k)" for k
    unfolding shape_of_filter by (rule map_of_filter_set)
  have "map_of (suffix_row (shape_of r) (i, d)) k = map_of r k" for k
    using id tyo unfolding map_of_suffix_row [OF shape_ok_facts(1,2) [OF ok]]
    by (simp add: mo del: js_simps) (simp add: pair_keys_def del: js_simps)
  moreover have pair: "pair_of r = (i, d)" using id by (simp add: pair_of_def obj_get_JObj del: js_simps)
  ultimately show "map_of (suffix_row (shape_of r) (pair_of r)) = map_of r" by (auto intro: ext)
  show "complete (fst (pair_of r)) \<and> complete (snd (pair_of r))"
    using c id [THEN map_of_SomeD] unfolding pair complete_JObj by auto
qed

section \<open>The loop of compact\<close>

definition group_total :: "group \<Rightarrow> (jstr \<Rightarrow> json option) multiset" where
  "group_total g = mset (map (\<lambda>p. map_of (suffix_row (gp_shape g) p)) (gp_pairs g))"

fun lone_rules :: "slot list \<Rightarrow> rule_obj list" where
  "lone_rules [] = []"
| "lone_rules (Single r # xs) = r # lone_rules xs"
| "lone_rules (Grouped k # xs) = lone_rules xs"

fun grouped_keys :: "slot list \<Rightarrow> jstr list" where
  "grouped_keys [] = []"
| "grouped_keys (Single r # xs) = grouped_keys xs"
| "grouped_keys (Grouped k # xs) = k # grouped_keys xs"

lemma slots_append [simp]:
  "lone_rules (xs @ ys) = lone_rules xs @ lone_rules ys" "grouped_keys (xs @ ys) = grouped_keys xs @ grouped_keys ys"
  by (induction xs rule: lone_rules.induct) auto

text \<open>The rules gathered so far, as what they map their keys to.\<close>

definition gathered :: "compacting \<Rightarrow> (jstr \<Rightarrow> json option) multiset" where
  "gathered s = mset (map map_of (lone_rules (cm_order s))) + sum_list (map (\<lambda>(k, g). group_total g) (cm_groups s))"

definition group_ok :: "jstr \<times> group \<Rightarrow> bool" where
  "group_ok = (\<lambda>(k, g). k = own_key (gp_shape g) \<and> shape_ok (gp_shape g) \<and> gp_pairs g \<noteq> [] \<and>
     (\<forall>(i, d)\<in>set (gp_pairs g). complete i \<and> complete d))"

definition compact_inv :: "compacting \<Rightarrow> bool" where
  "compact_inv s \<longleftrightarrow> om_wf (cm_groups s) \<and> grouped_keys (cm_order s) = om_keys (cm_groups s) \<and>
     (\<forall>e\<in>set (cm_groups s). group_ok e) \<and> (\<forall>r\<in>set (lone_rules (cm_order s)). row_rules r = [r] \<and> complete (JObj r))"

lemma compact_invD:
  assumes "compact_inv s"
  shows "om_wf (cm_groups s)" "grouped_keys (cm_order s) = om_keys (cm_groups s)"
    "\<And>e. e \<in> set (cm_groups s) \<Longrightarrow> group_ok e" "\<And>r. r \<in> set (lone_rules (cm_order s)) \<Longrightarrow> row_rules r = [r] \<and> complete (JObj r)"
  using assms by (auto simp: compact_inv_def)

lemma sum_om_set_new:
  "map_of m k = None \<Longrightarrow> sum_list (map f (om_set k v m)) = sum_list (map f m) + (f (k, v) :: 'c multiset)"
  by (induction k v m rule: om_set.induct) (auto simp: ac_simps split: if_splits)

lemma sum_om_set_old:
  "map_of m k = Some w \<Longrightarrow> f (k, v) = f (k, w) + x \<Longrightarrow>
    sum_list (map f (om_set k v m)) = sum_list (map f m) + (x :: 'c multiset)"
  by (induction k v m rule: om_set.induct) (auto simp: ac_simps split: if_splits)

lemma set_om_set: "e \<in> set (om_set k v m) \<Longrightarrow> e = (k, v) \<or> e \<in> set m"
  by (induction k v m rule: om_set.induct) (auto split: if_splits)

lemma compact_single:
  assumes "compact_inv s" and "row_rules r = [r] \<and> complete (JObj r)"
  shows "compact_inv (s\<lparr>cm_order := cm_order s @ [Single r]\<rparr>)"
    and "gathered (s\<lparr>cm_order := cm_order s @ [Single r]\<rparr>) = add_mset (map_of r) (gathered s)"
  using assms by (auto simp: compact_inv_def gathered_def)

lemma compact_new:
  assumes inv: "compact_inv s" and none: "find_group s k = None" and ok: "group_ok (k, g)" and t: "group_total g = {#m#}"
  defines "s' \<equiv> s\<lparr>cm_groups := om_set k g (cm_groups s), cm_order := cm_order s @ [Grouped k]\<rparr>"
  shows "compact_inv s'" and "gathered s' = add_mset m (gathered s)"
proof -
  have none': "map_of (cm_groups s) k = None" using none by (simp add: find_group_def)
  show "compact_inv s'"
    unfolding compact_inv_def s'_def
    using compact_invD [OF inv] ok none' om_wf_set [of "cm_groups s" k g]
    by (auto simp: om_keys_set dom_def dest: set_om_set)
  show "gathered s' = add_mset m (gathered s)"
    using t unfolding gathered_def s'_def by (simp add: sum_om_set_new [OF none'])
qed

lemma compact_old:
  assumes inv: "compact_inv s" and some: "find_group s k = Some g0" and ok: "group_ok (k, g)"
    and t: "group_total g = group_total g0 + {#m#}"
  defines "s' \<equiv> s\<lparr>cm_groups := om_set k g (cm_groups s)\<rparr>"
  shows "compact_inv s'" and "gathered s' = add_mset m (gathered s)"
proof -
  have some': "map_of (cm_groups s) k = Some g0" using some by (simp add: find_group_def)
  show "compact_inv s'"
    unfolding compact_inv_def s'_def
    using compact_invD [OF inv] ok some' om_wf_set [of "cm_groups s" k g]
    by (auto simp: om_keys_set dom_def dest: set_om_set)
  show "gathered s' = add_mset m (gathered s)"
    using t unfolding gathered_def s'_def
    by (simp add: sum_om_set_old [OF some', where f = "\<lambda>(k, g). group_total g" and x = "{#m#}"])
qed

lemma row_rules_normal:
  assumes "own_rule r" and "standing r \<or> own_type (whole_as_suffix r) \<noteq> JStr (js ''suffix'')"
  shows "row_rules (normal r) = [normal r] \<and> complete (JObj (normal r))"
proof (cases "standing r")
  case True
  then have "normal r = without_key (js ''standing'') r" by (simp add: normal_def)
  then show ?thesis using own_rule_facts(2) [OF assms(1)] complete_filter [OF own_rule_facts(1) [OF assms(1)]]
    by (intro conjI row_rules_single disjI2) (auto simp: without_key_def simp del: js_simps)
next
  case False
  then have t: "own_type r \<noteq> JStr (js ''wholeWord'')" using assms(2) whole_as_suffix_type [of r] by auto
  then have "normal r = r" using False by (simp add: normal_def whole_as_suffix_def del: js_simps)
  then show ?thesis using own_rule_facts(1,2) [OF assms(1)] by (intro conjI row_rules_single disjI2) simp_all
qed

lemma compact_rule_step:
  assumes inv: "compact_inv s" and r: "own_rule r0"
  shows "compact_inv (compact_rule s r0) \<and> gathered (compact_rule s r0) = add_mset (map_of (normal r0)) (gathered s)"
proof (cases "standing r0 \<or> own_type (whole_as_suffix r0) \<noteq> JStr (js ''suffix'')")
  case True
  have "compact_rule s r0 = s\<lparr>cm_order := cm_order s @ [Single (normal r0)]\<rparr>"
    using True by (auto simp: compact_rule_def normal_def Let_def simp del: js_simps)
  then show ?thesis using compact_single [OF inv row_rules_normal [OF r True]] by simp
next
  case False
  define r where "r = whole_as_suffix r0"
  define k where "k = own_key (shape_of r)"
  have ty: "own_type r = JStr (js ''suffix'')" and n: "normal r0 = r" using False by (auto simp: r_def normal_def)
  note sh = suffix_shape [OF assms(2) r_def ty]
  show ?thesis
  proof (cases "find_group s k")
    case None
    have "compact_rule s r0 = s\<lparr>cm_groups := om_set k \<lparr>gp_shape = shape_of r, gp_pairs = [pair_of r]\<rparr> (cm_groups s),
        cm_order := cm_order s @ [Grouped k]\<rparr>"
      using False None by (simp add: compact_rule_def Let_def r_def k_def del: js_simps)
    moreover have "group_ok (k, \<lparr>gp_shape = shape_of r, gp_pairs = [pair_of r]\<rparr>)"
      using sh(1,3) by (simp add: group_ok_def k_def case_prod_beta)
    moreover have "group_total \<lparr>gp_shape = shape_of r, gp_pairs = [pair_of r]\<rparr> = {#map_of r#}" using sh(2) by (simp add: group_total_def)
    ultimately show ?thesis using compact_new [OF inv None] by (simp add: n)
  next
    case (Some g)
    let ?g = "g\<lparr>gp_pairs := gp_pairs g @ [pair_of r]\<rparr>"
    have step: "compact_rule s r0 = s\<lparr>cm_groups := om_set k ?g (cm_groups s)\<rparr>"
      using False Some by (simp add: compact_rule_def Let_def r_def k_def del: js_simps)
    have ok: "group_ok (k, g)" using Some compact_invD(3) [OF inv] map_of_SomeD unfolding find_group_def by fast
    then have "own_key (gp_shape g) = own_key (shape_of r)" by (simp add: group_ok_def k_def)
    then have same: "gp_shape g = shape_of r"
      using stringify_inj [of "JObj (gp_shape g)" "JObj (shape_of r)"] ok sh(1)
      by (simp add: group_ok_def shape_ok_def own_key_def)
    have "group_ok (k, ?g)" using ok sh(3) by (auto simp: group_ok_def)
    moreover have "group_total ?g = group_total g + {#map_of r#}" using sh(2) by (simp add: group_total_def same)
    ultimately show ?thesis unfolding step n using compact_old [OF inv Some] by simp
  qed
qed

lemma compact_loop:
  "compact_inv s \<Longrightarrow> \<forall>r\<in>set rules. own_rule r \<Longrightarrow>
    compact_inv (foldl compact_rule s rules) \<and>
    gathered (foldl compact_rule s rules) = gathered s + mset (map (map_of \<circ> normal) rules)"
proof (induction rules arbitrary: s)
  case (Cons r rules)
  have "compact_inv (compact_rule s r)" "gathered (compact_rule s r) = add_mset (map_of (normal r)) (gathered s)"
    using compact_rule_step [OF Cons.prems(1), of r] Cons.prems(2) by simp_all
  with Cons.IH [of "compact_rule s r"] Cons.prems(2) show ?case by simp
qed simp

lemma group_rows:
  assumes inv: "compact_inv s" and e: "(k, g) \<in> set (cm_groups s)"
  shows "mset (map map_of (row_rules (slot_row s (Grouped k)))) = group_total g"
proof -
  have f: "find_group s k = Some g" using compact_invD(1) [OF inv] e by (simp add: find_group_def om_wf_def)
  have ok: "shape_ok (gp_shape g)" "gp_pairs g \<noteq> []" using compact_invD(3) [OF inv e] by (simp_all add: group_ok_def)
  show ?thesis
  proof (cases "\<exists>p. gp_pairs g = [p]")
    case True
    then obtain i d where p: "gp_pairs g = [(i, d)]" by auto
    have "own_type (suffix_row (gp_shape g) (i, d)) = JStr (js ''suffix'')"
      unfolding own_type_def obj_get_JObj map_of_suffix_row [OF shape_ok_facts [OF ok(1)]] using key_names(1,2) by (simp del: js_simps)
    then have "own_type (suffix_row (gp_shape g) (i, d)) \<noteq> JStr (js ''circumfix'')" by simp
    then show ?thesis by (simp add: slot_row_def f p group_total_def row_rules_single)
  next
    case False
    then have "slot_row s (Grouped k) = circumfix_row (gp_shape g) (gp_pairs g)"
      using ok(2) by (simp add: slot_row_def f split: list.split)
    then show ?thesis by (simp add: row_rules_circumfix [OF ok(1)] group_total_def)
  qed
qed

lemma gathered_rows:
  assumes inv: "compact_inv s"
  shows "mset (map map_of (concat (map row_rules (map (slot_row s) (cm_order s))))) = gathered s"
proof -
  let ?f = "\<lambda>x. mset (map map_of (row_rules (slot_row s x)))"
  have split: "mset (map map_of (concat (map row_rules (map (slot_row s) xs)))) =
      sum_list (map (\<lambda>r. ?f (Single r)) (lone_rules xs)) + sum_list (map (\<lambda>k. ?f (Grouped k)) (grouped_keys xs))" for xs
    by (induction xs rule: lone_rules.induct) (auto simp: ac_simps)
  have "sum_list (map (\<lambda>r. ?f (Single r)) rs) = mset (map map_of rs)" if "\<forall>r\<in>set rs. row_rules r = [r]" for rs
    using that by (induction rs) (auto simp: slot_row_def)
  then have singles: "sum_list (map (\<lambda>r. ?f (Single r)) (lone_rules (cm_order s))) = mset (map map_of (lone_rules (cm_order s)))"
    using compact_invD(4) [OF inv] by blast
  have "map (\<lambda>k. ?f (Grouped k)) (om_keys (cm_groups s)) = map (\<lambda>(k, g). group_total g) (cm_groups s)"
    unfolding om_keys_def map_map using group_rows [OF inv] by (auto intro!: map_cong)
  then show ?thesis unfolding split singles compact_invD(2) [OF inv] gathered_def by simp
qed

section \<open>The rows are complete\<close>

lemma complete_obj_of: "\<forall>(k, v)\<in>set es. wf_js k \<and> complete v \<Longrightarrow> complete (JObj (obj_of es))"
proof -
  have nil: "complete (JObj [])" by (simp add: complete_JObj obj_ok_def)
  have "complete (JObj acc) \<Longrightarrow> \<forall>(k, v)\<in>set es. wf_js k \<and> complete v \<Longrightarrow> complete (JObj (fold (\<lambda>(k, v). obj_put k v) es acc))" for acc
    by (induction es arbitrary: acc) (auto intro!: complete_put)
  then show "\<forall>(k, v)\<in>set es. wf_js k \<and> complete v \<Longrightarrow> complete (JObj (obj_of es))"
    using nil unfolding obj_of_def by blast
qed

lemma complete_JArr: "complete (JArr vs) \<longleftrightarrow> (\<forall>v\<in>set vs. complete v)"
  by (induction vs) (auto simp: complete_def)

lemma complete_rows:
  assumes "shape_ok sh" "\<forall>(i, d)\<in>set ps. complete i \<and> complete d"
  shows "p \<in> set ps \<Longrightarrow> complete (JObj (suffix_row sh p))" and "complete (JObj (circumfix_row sh ps))"
proof -
  have sh: "\<forall>(k, v)\<in>set sh. wf_js k \<and> complete v" using assms(1) by (simp add: shape_ok_def complete_JObj)
  show "p \<in> set ps \<Longrightarrow> complete (JObj (suffix_row sh p))"
  proof -
    assume "p \<in> set ps"
    moreover obtain i d where p: "p = (i, d)" by (cases p)
    ultimately have "complete i" "complete d" using assms(2) by auto
    then show ?thesis unfolding suffix_row_def p prod.case
      by (intro complete_obj_of, simp only: set_append ball_Un list.set ball_simps prod.case wf_js_ascii complete_str simp_thms)
        (rule sh)
  qed
  have cond: "complete (obj_get (JObj sh) k)" if k: "k \<in> fst ` set sh" for k
  proof -
    obtain v where "map_of sh k = Some v" using k map_of_eq_None_iff [of sh k] by (cases "map_of sh k") auto
    then show ?thesis using sh map_of_SomeD [of sh k v] by (auto simp: obj_get_JObj)
  qed
  have ps: "complete (JArr (map (\<lambda>(i, d). JArr [i, d]) ps))" using assms(2) by (auto simp: complete_JArr)
  have prefixes: "complete (JArr [JArr [JStr [], JStr []]])" by (simp add: complete_JArr wf_js_def)
  have conds: "complete (obj_get (JObj sh) (js ''conditionsIn''))" "complete (obj_get (JObj sh) (js ''conditionsOut''))"
    using assms(1) unfolding shape_ok_def insert_subset by (simp_all only: cond simp_thms)
  have rest: "\<forall>(k, v)\<in>set (without_key b (without_key a sh)). wf_js k \<and> complete v" for a b
    using sh by (auto simp: without_key_def)
  show "complete (JObj (circumfix_row sh ps))"
    unfolding circumfix_row_def
    by (rule complete_obj_of, simp only: set_append ball_Un list.set ball_simps prod.case wf_js_ascii complete_str ps prefixes
      conds simp_thms) (rule rest)
qed

lemma single_rules_mem: "Single r \<in> set xs \<Longrightarrow> r \<in> set (lone_rules xs)"
  by (induction xs rule: lone_rules.induct) auto

lemma slot_row_complete:
  assumes inv: "compact_inv s" and x: "x \<in> set (cm_order s)"
  shows "complete (JObj (slot_row s x))"
proof (cases x)
  case (Single r)
  then have "r \<in> set (lone_rules (cm_order s))" using x by (simp add: single_rules_mem)
  then show ?thesis using compact_invD(4) [OF inv] Single by (simp add: slot_row_def)
next
  case (Grouped k)
  show ?thesis
  proof (cases "find_group s k")
    case None
    then show ?thesis by (simp add: Grouped slot_row_def complete_JObj obj_ok_def)
  next
    case (Some g)
    then have "group_ok (k, g)" using compact_invD(3) [OF inv] map_of_SomeD unfolding find_group_def by fast
    then have ok: "shape_ok (gp_shape g)" "\<forall>(i, d)\<in>set (gp_pairs g). complete i \<and> complete d" by (simp_all add: group_ok_def)
    show ?thesis using complete_rows [OF ok] Some by (auto simp: Grouped slot_row_def split: list.split)
  qed
qed

lemma compact_rules_complete:
  assumes "\<forall>r\<in>set rules. own_rule r" and "row \<in> set (compact_rules rules)"
  shows "complete (JObj row)"
proof -
  let ?s = "\<lparr>cm_groups = [], cm_order = []\<rparr>"
  have "compact_inv ?s" by (simp add: compact_inv_def om_wf_def om_keys_def)
  from compact_loop [OF this assms(1)] have "compact_inv (foldl compact_rule ?s rules)" ..
  then show ?thesis using slot_row_complete assms(2) by (auto simp: compact_rules_def Let_def)
qed

section \<open>Compact rows and rules\<close>


definition sample_rules :: "rule_obj list" where
  "sample_rules =
     [[(js ''type'', JStr (js ''suffix'')), (js ''inflected'', JStr [97]), (js ''deinflected'', JStr [98]),
       (js ''conditionsIn'', JArr []), (js ''conditionsOut'', JArr [])],
      [(js ''type'', JStr (js ''suffix'')), (js ''inflected'', JStr [99]), (js ''deinflected'', JStr [100]),
       (js ''conditionsIn'', JArr []), (js ''conditionsOut'', JArr [])]]"

lemma sample_rules_own: "\<forall>r\<in>set sample_rules. own_rule r"
  by code_simp

lemma sample_rules_length: "length (compact_rules sample_rules) = 1"
  by code_simp

end
