(* ===== verification/Own_Format_Correct.thy ===== *)
theory Own_Format_Correct
  imports Own_Output_Correct
begin

text \<open>
  The text \<open>format\<close> of own-rules.mjs writes line by line is the JSON of the pack: it parses back to it.
\<close>

section \<open>Lines\<close>

text \<open>The lines of a block, each on a line of its own.\<close>

definition on_lines :: "jstr list \<Rightarrow> jstr" where
  "on_lines ls = concat (map (\<lambda>l. 10 # l) ls)"

lemma on_lines_simps [simp]:
  "on_lines [] = []" "on_lines (l # ls) = 10 # l @ on_lines ls" "on_lines (xs @ ys) = on_lines xs @ on_lines ys"
  by (simp_all add: on_lines_def)

lemma join_lines: "join [10] (l # ls) = l @ on_lines ls"
  by (induction ls arbitrary: l) (auto simp: join_Cons)

lemma on_lines_concat: "on_lines (concat bs) = concat (map on_lines bs)"
  by (induction bs) auto

text \<open>Texts with a comma after each but the last are the texts joined by commas.\<close>

lemma commas_from:
  "concat (map (\<lambda>(i, x). h x @ (if Suc i < n + length xs then [44] else [])) (zip [n..<n + length xs] xs)) =
    join [44] (map h xs)"
proof (induction xs arbitrary: n)
  case (Cons x xs)
  have "[n..<n + length (x # xs)] = n # [Suc n..<Suc n + length xs]"
    by (simp add: upt_rec)
  then show ?case using Cons.IH [of "Suc n"] by (cases "xs = []") (auto simp: join_Cons)
qed simp

lemma commas: "concat (map (\<lambda>(i, x). h x @ comma_unless_last i xs) (enum xs)) = join [44] (map h xs)"
  using commas_from [of h 0 xs] by (simp add: enum_def comma_unless_last_def)

lemma commas_lines: "on_lines (map (\<lambda>(i, x). h x @ comma_unless_last i xs) (enum xs)) = join [44] (map (\<lambda>x. 10 # h x) xs)"
  using commas [of "\<lambda>x. 10 # h x" xs] by (simp add: on_lines_def case_prod_beta' comp_def)

lemma join_snoc: "join [44] (xs @ [x]) = concat (map (\<lambda>e. e @ [44]) xs) @ x"
  by (induction xs) (auto simp: join_Cons)

lemma spaces_ws: "list_all is_ws (js ''    '')" "list_all is_ws (js ''      '')" "list_all is_ws (js ''        '')" "list_all is_ws (js ''  '')"
  by (simp_all add: is_ws_def)

section \<open>Values on a line\<close>

lemma renders_show: "complete v \<Longrightarrow> renders (show_json v) v"
  using renders_stringify(1) [of v] by (cases v) (auto simp: complete_def show_json_def)

lemma renders_elem_line: "complete v \<Longrightarrow> list_all is_ws w \<Longrightarrow> renders_elem (10 # w @ show_json v) v"
  using renders_elem_ws [of "10 # w"] renders_elem_renders [OF renders_show] by (simp add: is_ws_def)

lemma renders_entry_line:
  assumes "renders t v" "list_all is_ws w" "wf_js k"
  shows "renders_entry (10 # w @ quote_js k @ [58, 32] @ t) (k, v)"
  unfolding renders_entry_def using assms
  by (intro exI [of _ "10 # w"] exI [of _ "[32]"] exI [of _ t]) (simp add: is_ws_def)

lemma renders_entry_spaced: "renders t v \<Longrightarrow> wf_js k \<Longrightarrow> renders_entry (quote_js k @ [58, 32] @ t) (k, v)"
  unfolding renders_entry_def by (intro exI [of _ "[]"] exI [of _ "[32]"] exI [of _ t]) (simp add: is_ws_def)

section \<open>The conditions\<close>

lemma spaced_conditions:
  "list_all (\<lambda>(k, v). spaced (show_json v) = [123] @ join (44 # [32]) (map (\<lambda>(a, b). quote_js a @ [58, 32] @ show_json b)
     (object_entries v)) @ [125]) conditions"
  by code_simp

lemma conditions_complete: "list_all (\<lambda>(k, v). wf_js k \<and> complete v \<and> v = JObj (object_entries v)) conditions" "obj_ok conditions"
  by code_simp+

lemma renders_condition:
  assumes "(k, v) \<in> set conditions"
  shows "renders_entry (10 # js ''    '' @ quote_js k @ js '': '' @ spaced (show_json v)) (k, v)"
proof -
  let ?es = "object_entries v"
  have v: "wf_js k" "complete v" "v = JObj ?es"
    and sp: "spaced (show_json v) = [123] @ join (44 # [32]) (map (\<lambda>(a, b). quote_js a @ [58, 32] @ show_json b) ?es) @ [125]"
    using assms conditions_complete(1) spaced_conditions by (auto simp: list_all_iff)
  have es: "obj_ok ?es" "\<forall>(a, b)\<in>set ?es. wf_js a \<and> complete b"
    using v(2,3) complete_JObj [of ?es] by simp_all
  have "list_all2 renders_entry (map (\<lambda>(a, b). quote_js a @ [58, 32] @ show_json b) fs) fs"
    if "\<forall>(a, b)\<in>set fs. wf_js a \<and> complete b" for fs
    using that renders_show renders_entry_spaced by (induction fs) auto
  from renders_object_sep [OF this [OF es(2)], of "[32]" "[]"] es(1) have "renders (spaced (show_json v)) v"
    using v(3) by (simp add: sp is_ws_def close_ws_def)
  from renders_entry_line [OF this, of "js ''    ''" k] v(1) show ?thesis by (simp add: is_ws_def)
qed

section \<open>A transform\<close>

definition transform_ok :: "own_transform \<Rightarrow> bool" where
  "transform_ok t \<longleftrightarrow> wf_js (ot_id t) \<and> wf_js (ot_name t) \<and> wf_js (ot_description t) \<and> (\<forall>r\<in>set (ot_rules t). own_rule r)"

text \<open>The entries before \<open>rules\<close>, and the text of an entry on its line.\<close>

definition header_entries :: "own_transform \<Rightarrow> rule_obj" where
  "header_entries t =
     [(js ''id'', JStr (ot_id t)), (js ''name'', JStr (ot_name t)), (js ''description'', JStr (ot_description t)),
      (js ''source'', JStr (js ''own''))] @ (if ot_optional t then [(js ''optional'', JBool True)] else [])"

definition rows_of_transform :: "own_transform \<Rightarrow> json list" where
  "rows_of_transform t = map JObj (compact_rules (ot_rules t))"

definition entry_line :: "jstr \<times> json \<Rightarrow> jstr" where
  "entry_line = (\<lambda>(k, v). 10 # js ''      '' @ quote_js k @ [58, 32] @ show_json v)"

definition rows_line :: "json list \<Rightarrow> jstr" where
  "rows_line rows = 10 # js ''      '' @ quote_js (js ''rules'') @ [58, 32] @
     ([91] @ join [44] (map (\<lambda>r. 10 # js ''        '' @ show_json r) rows) @ (10 # js ''      '') @ [93])"

definition transform_text :: "own_transform \<Rightarrow> jstr" where
  "transform_text t = 10 # js ''    '' @ ([123] @ join [44] (map entry_line (header_entries t) @ [rows_line (rows_of_transform t)]) @
     (10 # js ''    '') @ [125])"

lemma built_transform_eq: "built_transform t = header_entries t @ [(js ''rules'', JArr (rows_of_transform t))]"
  by (simp add: built_transform_def header_entries_def rows_of_transform_def del: js_simps)

lemma built_transform_get:
  "obj_get (JObj (built_transform t)) (js ''id'') = JStr (ot_id t)"
  "obj_get (JObj (built_transform t)) (js ''name'') = JStr (ot_name t)"
  "obj_get (JObj (built_transform t)) (js ''description'') = JStr (ot_description t)"
  "obj_get (JObj (built_transform t)) (js ''i18n'') = JUndef"
  "obj_get (JObj (built_transform t)) (js ''source'') = JStr (js ''own'')"
  "obj_get (JObj (built_transform t)) (js ''optional'') = (if ot_optional t then JBool True else JUndef)"
  "obj_get (JObj (built_transform t)) (js ''rules'') = JArr (rows_of_transform t)"
  by (simp_all add: built_transform_eq header_entries_def obj_get_JObj)

lemma quoted_field_line: "10 # quoted_field k v = entry_line (js k, v) @ [44]"
  by (simp add: quoted_field_def entry_line_def)

lemma optional_field: "js ''      '' @ quote_js (js ''optional'') @ js '': true,'' = quoted_field ''optional'' (JBool True)"
  by code_simp

lemma rule_lines: "on_lines (map (rule_line rows) (enum rows)) = join [44] (map (\<lambda>r. 10 # js ''        '' @ show_json r) rows)"
  using commas_lines [of "\<lambda>r. js ''        '' @ show_json r" rows]
  by (simp add: rule_line_def case_prod_beta' del: js_simps)

lemma transform_lines_text:
  "\<exists>ls. transform_lines ts (i, JObj (built_transform t)) = Inr ls \<and> on_lines ls = transform_text t @ comma_unless_last i ts"
proof -
  let ?rows = "rows_of_transform t"
  define ls where "ls =
       [js ''    {'', quoted_field ''id'' (JStr (ot_id t)), quoted_field ''name'' (JStr (ot_name t)),
         quoted_field ''description'' (JStr (ot_description t)), quoted_field ''source'' (JStr (js ''own''))] @
        (if ot_optional t then [quoted_field ''optional'' (JBool True)] else []) @
        [js ''      '' @ quote_js (js ''rules'') @ js '': [''] @ map (rule_line ?rows) (enum ?rows) @
        [js ''      ]'', js ''    }'' @ comma_unless_last i ts]"
  have "transform_lines ts (i, JObj (built_transform t)) = Inr ls"
    unfolding transform_lines_def prod.case get_prop_def optional_line_def built_transform_get array_items_def ls_def optional_field
    by (simp add: nullish_def del: js_simps)
  moreover have "on_lines ls = transform_text t @ comma_unless_last i ts"
    unfolding ls_def transform_text_def header_entries_def join_snoc rows_line_def rule_lines [symmetric]
    by (simp add: quoted_field_line [symmetric] del: js_simps) (simp add: js_def)
  ultimately show ?thesis by blast
qed

lemma built_transform_ok: "obj_ok (built_transform t)"
proof -
  have "map fst (built_transform t) \<in>
      {map js [''id'', ''name'', ''description'', ''source'', ''rules''],
       map js [''id'', ''name'', ''description'', ''source'', ''optional'', ''rules'']}"
    by (simp add: built_transform_eq header_entries_def del: js_simps)
  moreover have "obj_ok (map (\<lambda>k. (js k, JNull)) [''id'', ''name'', ''description'', ''source'', ''rules''])"
    "obj_ok (map (\<lambda>k. (js k, JNull)) [''id'', ''name'', ''description'', ''source'', ''optional'', ''rules''])"
    by code_simp+
  ultimately show ?thesis by (auto simp: obj_ok_def simp del: js_simps)
qed

lemma renders_entry_simple: "complete v \<Longrightarrow> wf_js k \<Longrightarrow> renders_entry (entry_line (k, v)) (k, v)"
  unfolding entry_line_def prod.case by (rule renders_entry_line [OF renders_show spaces_ws(2)])

lemma renders_transform:
  assumes "transform_ok t"
  shows "renders_elem (transform_text t) (JObj (built_transform t))"
proof -
  let ?rows = "rows_of_transform t"
  have "list_all2 renders_elem (map (\<lambda>r. 10 # js ''        '' @ show_json r) rows) rows" if "\<forall>r\<in>set rows. complete r" for rows
    using that by (induction rows) (auto intro!: renders_elem_line spaces_ws simp del: js_simps)
  moreover have "\<forall>r\<in>set ?rows. complete r"
    using compact_rules_complete [of "ot_rules t"] assms by (auto simp: rows_of_transform_def transform_ok_def)
  ultimately have "renders ([91] @ join [44] (map (\<lambda>r. 10 # js ''        '' @ show_json r) ?rows) @ (10 # js ''      '') @ [93]) (JArr ?rows)"
    using spaces_ws(2) by (intro renders_array) (simp_all add: close_ws_def is_ws_def del: js_simps)
  then have "renders_entry (rows_line ?rows) (js ''rules'', JArr ?rows)"
    unfolding rows_line_def by (rule renders_entry_line) (simp_all add: spaces_ws del: js_simps)
  moreover have "list_all2 renders_entry (map entry_line (header_entries t)) (header_entries t)"
    using assms unfolding header_entries_def transform_ok_def
    by (auto intro!: renders_entry_simple simp: complete_def [of "JBool True"] simp del: js_simps)
  ultimately have "list_all2 renders_entry (map entry_line (header_entries t) @ [rows_line ?rows]) (built_transform t)"
    unfolding built_transform_eq by (intro list_all2_appendI) simp_all
  from renders_object_sep [OF this, of "[]" "10 # js ''    ''"] built_transform_ok
  have "renders ([123] @ join [44] (map entry_line (header_entries t) @ [rows_line ?rows]) @ (10 # js ''    '') @ [125]) (JObj (built_transform t))"
    using spaces_ws(1) by (simp add: close_ws_def is_ws_def del: js_simps)
  from renders_elem_ws [OF _ renders_elem_renders [OF this], of "10 # js ''    ''"] show ?thesis
    unfolding transform_text_def using spaces_ws(1) by (simp add: is_ws_def del: js_simps)
qed

section \<open>The file\<close>

lemma list_all2_map_same: "(\<And>x. x \<in> set xs \<Longrightarrow> P (f x) x) \<Longrightarrow> list_all2 P (map f xs) xs"
  by (induction xs) auto

lemma mapE_texts:
  assumes "\<And>x. x \<in> set xs \<Longrightarrow> \<exists>ls. f x = Inr ls \<and> on_lines ls = g x"
  shows "\<exists>bs. mapE f xs = Inr bs \<and> on_lines (concat bs) = concat (map g xs)"
  using assms
proof (induction xs)
  case (Cons x xs)
  obtain ls where "f x = Inr ls" "on_lines ls = g x" using Cons.prems [of x] by auto
  moreover obtain bs where "mapE f xs = Inr bs" "on_lines (concat bs) = concat (map g xs)" using Cons by auto
  ultimately show ?case by simp
qed simp

text \<open>C12: The file own.json, written line by line, is JSON for exactly the pack that was built: parsed, it gives the
  schema, the conditions and the transforms with rules, each with its compact rows.\<close>

theorem own_file_parses:
  assumes "\<forall>t\<in>set (used_transforms s). transform_ok t"
  shows "\<exists>text. own_file s = Inr text \<and> json_parse text = Some (JObj (built s))"
proof -
  let ?ts = "used_transforms s"
  let ?js = "map (\<lambda>t. JObj (built_transform t)) ?ts"
  have "\<exists>bs. mapE (transform_lines ?js) (enum ?js) = Inr bs \<and>
      on_lines (concat bs) = concat (map (\<lambda>(i, t). transform_text t @ comma_unless_last i ?ts) (enum ?ts))"
  proof -
    have e: "enum ?js = map (\<lambda>(i, t). (i, JObj (built_transform t))) (enum ?ts)"
      by (simp add: enum_def zip_map2)
    have m: "mapE f (map g xs) = mapE (f \<circ> g) xs" for f :: "nat \<times> json \<Rightarrow> own_error + jstr list" and g and xs :: "(nat \<times> own_transform) list"
      by (induction xs) simp_all
    have c: "comma_unless_last i ?js = comma_unless_last i ?ts" for i by (simp add: comma_unless_last_def)
    show ?thesis unfolding e m
      by (rule mapE_texts) (use transform_lines_text [of ?js] in \<open>auto simp: c comp_def\<close>)
  qed
  then obtain bs where bs: "mapE (transform_lines ?js) (enum ?js) = Inr bs" "on_lines (concat bs) = join [44] (map transform_text ?ts)"
    unfolding commas by blast
  have conds: "on_lines (map (condition_line conditions) (enum conditions)) =
      join [44] (map (\<lambda>(k, v). 10 # js ''    '' @ quote_js k @ js '': '' @ spaced (show_json v)) conditions)"
    using commas_lines [of "\<lambda>(k, v). js ''    '' @ quote_js k @ js '': '' @ spaced (show_json v)" conditions]
    by (simp add: condition_line_def case_prod_beta' del: js_simps)
  let ?conds = "[123] @ join [44] (map (\<lambda>(k, v). 10 # js ''    '' @ quote_js k @ js '': '' @ spaced (show_json v)) conditions) @ (10 # js ''  '') @ [125]"
  let ?transforms = "[91] @ join [44] (map transform_text ?ts) @ (10 # js ''  '') @ [93]"
  let ?text = "[123] @ join [44] [10 # js ''  '' @ quote_js (js ''schema'') @ [58, 32] @ js ''1'',
      10 # js ''  '' @ quote_js (js ''conditions'') @ [58, 32] @ ?conds,
      10 # js ''  '' @ quote_js (js ''transforms'') @ [58, 32] @ ?transforms] @ [10] @ [125]"
  have written: "own_file s = Inr (?text @ [10])"
    unfolding own_file_def own_format_def bs(1) by (simp add: join_lines bs(2) conds del: js_simps) (simp add: js_def)
  have "stringify_scalar (JNum 1) = js ''1''" by code_simp
  then have "renders (js ''1'') (JNum 1)" using renders_scalars(3) [of 1] by simp
  moreover have "renders ?conds (JObj conditions)"
  proof -
    have "list_all2 renders_entry (map (\<lambda>(k, v). 10 # js ''    '' @ quote_js k @ js '': '' @ spaced (show_json v)) conditions) conditions"
      by (rule list_all2_map_same) (auto simp del: js_simps intro: renders_condition)
    from renders_object_sep [OF this, of "[]" "10 # js ''  ''"] show ?thesis
      using spaces_ws(4) conditions_complete(2) by (simp add: close_ws_def is_ws_def del: js_simps)
  qed
  moreover have "renders ?transforms (JArr ?js)"
  proof -
    have "list_all2 renders_elem (map transform_text ts) (map (\<lambda>t. JObj (built_transform t)) ts)"
      if "\<forall>t\<in>set ts. transform_ok t" for ts
      using that renders_transform by (induction ts) auto
    from renders_array [OF this [OF assms], of "10 # js ''  ''"] show ?thesis
      using spaces_ws(4) by (simp add: close_ws_def is_ws_def del: js_simps)
  qed
  ultimately have entries: "list_all2 renders_entry [10 # js ''  '' @ quote_js (js ''schema'') @ [58, 32] @ js ''1'',
      10 # js ''  '' @ quote_js (js ''conditions'') @ [58, 32] @ ?conds,
      10 # js ''  '' @ quote_js (js ''transforms'') @ [58, 32] @ ?transforms] (built s)"
    unfolding built_def by (simp only: list_all2_Cons list_all2_Nil simp_thms renders_entry_line spaces_ws wf_js_ascii)
  have ok: "obj_ok (built s)"
  proof -
    have "obj_ok (map (\<lambda>k. (js k, JNull)) [''schema'', ''conditions'', ''transforms''])" by code_simp
    then show ?thesis by (simp add: obj_ok_def built_def del: js_simps)
  qed
  have "renders ?text (JObj (built s))"
    by (rule renders_object_sep [OF entries _ _ ok]) (simp_all add: close_ws_def is_ws_def)
  from renders_parses [OF this, of "[10]"] written show ?thesis
    by (simp add: stops_def skip_ws_def is_ws_def del: js_simps)
qed

definition sample_state :: gen where
  "sample_state = \<lparr>gen_twins = False, gen_transforms =
     [\<lparr>ot_id = js ''feminine'', ot_name = js ''feminine'', ot_description = js ''Feminine.'', ot_optional = True,
        ot_rules = sample_rules, ot_keys = []\<rparr>]\<rparr>"

theorem own_file_parses_witness:
  "\<exists>text. own_file sample_state = Inr text \<and> json_parse text = Some (JObj (built sample_state))"
proof (rule own_file_parses)
  show "\<forall>t\<in>set (used_transforms sample_state). transform_ok t"
    by (simp add: used_transforms_def sample_state_def transform_ok_def sample_rules_own del: js_simps)
qed

end
