(* ===== verification/Own_Full_Correct.thy ===== *)
theory Own_Full_Correct
  imports Own_Build Own_Build_Correct Own_Format_Correct
begin

text \<open>
  \<open>build\<close> of own-rules.mjs with all its sections: it returns for every list of exceptions whose rows have their three
  columns.
\<close>

section \<open>Sequences that may fail\<close>

lemma mapE_all:
  assumes "\<And>x. x \<in> set xs \<Longrightarrow> \<exists>y. f x = Inr y \<and> P y"
  shows "\<exists>ys. mapE f xs = Inr ys \<and> list_all P ys"
  using assms
proof (induction xs)
  case (Cons x xs)
  obtain y where y: "f x = Inr y" "P y" using Cons.prems [of x] by auto
  obtain ys where "mapE f xs = Inr ys" "list_all P ys" using Cons by auto
  then show ?case using y by simp
qed simp

lemma goes_bind:
  assumes "\<exists>y. v = Inr y \<and> P y" and "\<And>y. P y \<Longrightarrow> goes env I (f y)"
  shows "goes env I (\<lambda>s. bindE v (\<lambda>y. f y s))"
  using assms by (auto simp: goes_def)

section \<open>Athematic verbs\<close>

abbreviation wps :: "jstr list \<Rightarrow> bool" where
  "wps \<equiv> list_all well_paired"

lemma wps_gks [simp]: "wps (gks xs)"
  by (simp add: gks_def list_all_iff)

lemma well_paired_replace_mark:
  assumes "normalization_laws env" "well_paired s" "\<not> is_high a" "\<not> is_low a" "\<not> is_high b" "\<not> is_low b"
  shows "well_paired (replace_mark env a b s)"
proof -
  have "well_paired (map (\<lambda>u. if u = a then b else u) t)" if "well_paired t" for t
    using that
  proof (induction t rule: well_paired.induct)
    case (2 u)
    then show ?case using assms(5,6) by auto
  next
    case (3 u v s)
    have ne: "u \<noteq> a" if "is_high u" using that assms(3) by auto
    have ne': "v \<noteq> a" if "is_low v" using that assms(4) by auto
    show ?case using 3 ne ne' assms(5,6) by (cases "is_high u") auto
  qed simp
  then show ?thesis unfolding replace_mark_def
    by (intro well_paired_toNFC [OF assms(1)]) (simp add: well_paired_toNFD assms)
qed

lemma well_paired_circumflexToAcute: "normalization_laws env \<Longrightarrow> well_paired s \<Longrightarrow> well_paired (circumflexToAcute env s)"
  unfolding circumflexToAcute_def by (rule well_paired_replace_mark) (simp_all add: is_high_def is_low_def)

lemma well_paired_without_final_alpha: "well_paired (gk s) \<Longrightarrow> well_paired (without_final_alpha (gk s))"
proof -
  have "plain (take n (gk s))" for n using gk_plain [of s] by (auto simp: plain_def dest: in_set_takeD)
  then show ?thesis by (simp add: without_final_alpha_def plain_well_paired)
qed

lemma wps_ntParticiple:
  "normalization_laws env \<Longrightarrow> wps (ntParticiple env (gk a) (gk b) (gk c) (gk d) (gk e))"
  unfolding ntParticiple_def Let_def list.pred_inject
  by (intro conjI well_paired_append well_paired_circumflexToAcute well_paired_without_final_alpha
      well_paired_stripAccents gk_well_paired) simp_all

lemma menosParticiple_total:
  assumes laws: "normalization_laws env" and stem: "well_paired stem"
  shows "\<exists>fs. menosParticiple env stem = Inr fs \<and> wps fs"
  unfolding menosParticiple_def
proof (rule mapE_all)
  fix x
  assume "x \<in> set (MENOS (stripAccents env stem))"
  then have wp: "well_paired (fst x)"
    using wp_ptc_MENOS [OF well_paired_stripAccents [OF laws stem]] by (auto simp: wp_ptc_def)
  obtain e c g u where x: "x = (e, c, g, u)" by (cases x)
  show "\<exists>y. menos_form env x = Inr y \<and> well_paired y"
  proof -
    let ?u = "case u of Some u \<Rightarrow> Some u | None \<Rightarrow> if ends_with e (gk ''ai'') \<or> ends_with e (gk ''oi'') then Some Short else None"
    obtain w where "recessive env e ?u = Some w" "well_paired w"
      using recessive_well_paired [OF laws, of e ?u] wp x by auto
    then show ?thesis unfolding x menos_form_def prod.case by simp
  qed
qed

lemma row_forms_total:
  assumes "normalization_laws env"
  shows "\<exists>r. row_forms env row = Inr r \<and> wps (snd r)"
proof -
  obtain tid segs where row: "row = (tid, segs)" by (cases row)
  have "\<exists>fs. segment_forms env seg = Inr fs \<and> wps fs" for seg
    using menosParticiple_total [OF assms gk_well_paired] wps_ntParticiple [OF assms]
    by (cases seg) (auto simp: segment_forms_def)
  then obtain fss where "mapE (segment_forms env) segs = Inr fss" "list_all wps fss"
    using mapE_all [of segs "segment_forms env" wps] by blast
  then show ?thesis by (auto simp: row row_forms_def list_all_iff)
qed

definition ath_ok :: "ath_opts \<Rightarrow> bool" where
  "ath_ok opts \<longleftrightarrow> (\<forall>l. ao_compoundLemma opts = Some l \<longrightarrow> well_paired l)"

lemma stem_ok_min_length: "stem_ok [(js ''stemMinLength'', v)]"
  using not_normalized(6) by (simp del: js_simps)

lemma goes_compound_form:
  assumes laws: "normalization_laws env" and i: "tid \<in> I" and l: "well_paired l" and f: "well_paired f" and opts: "ath_ok opts"
  shows "goes env I (compound_form env l opts tid f)"
proof -
  have "well_paired (case ao_compoundLemma opts of Some l \<Rightarrow> l | None \<Rightarrow> no_breathing env (stripAccents env l))"
    using opts l by (auto simp: ath_ok_def well_paired_no_breathing well_paired_stripAccents laws split: option.split)
  then show ?thesis
    unfolding compound_form_def Let_def using stem_ok_min_length
    by (auto intro!: goes_suffix [OF laws i] goes_skip well_paired_append well_paired_stripAccents well_paired_no_breathing laws f
        simp del: js_simps stem_ok_simps)
qed

lemma goes_athematic_form:
  assumes laws: "normalization_laws env" and i: "tid \<in> I" and l: "well_paired l" and f: "well_paired f" and opts: "ath_ok opts"
  shows "goes env I (athematic_form env l opts tid f)"
  unfolding athematic_form_def Let_def using laws i l f opts
  by (auto intro!: goes_skip goes_Cons goes_Nil goes_suffix goes_only_if goes_compound_form well_paired_toNFC)

lemma goes_athematic:
  assumes laws: "normalization_laws env" and l: "well_paired l" and opts: "ath_ok opts" and table: "list_all (\<lambda>r. wps (snd r)) table"
  shows "goes env I (athematic env l table opts)"
  unfolding athematic_def
proof (rule goes_each)
  fix row
  assume "row \<in> set table"
  then have w: "wps (snd row)" using table by (simp add: list_all_iff)
  obtain tid forms where row: "row = (tid, forms)" by (cases row)
  have "goes env (insert tid I) (each (athematic_form env l opts tid) forms)"
    using w row by (intro goes_each goes_athematic_form [OF laws _ l _ opts]) (auto simp: list_all_iff)
  then have "goes env I (run_ops [transform tid n d, each (athematic_form env l opts tid) forms])" for n d
    by (intro goes_transform goes_Cons goes_Nil)
  then show "goes env I (case row of (tid, forms) \<Rightarrow>
      case case map_of ATHEMATIC_NAMES tid of None \<Rightarrow> (tid, tid) | Some nd \<Rightarrow> nd of
        (name, description) \<Rightarrow> run_ops [transform tid name description, each (athematic_form env l opts tid) forms])"
    unfolding row prod.case by (simp split: prod.split)
qed

lemma goes_athematic_verb:
  assumes laws: "normalization_laws env" and opts: "ath_ok opts"
  shows "goes env I (athematic_verb env opts verb)"
proof -
  obtain l rows where verb: "verb = (l, rows)" by (cases verb)
  have "\<exists>t. mapE (row_forms env) rows = Inr t \<and> list_all (\<lambda>r. wps (snd r)) t"
    by (rule mapE_all) (rule row_forms_total [OF laws])
  then show ?thesis unfolding athematic_verb_def verb prod.case
    by (rule goes_bind) (rule goes_athematic [OF laws gk_well_paired opts])
qed

lemma plain_ath_ok: "ath_ok plain_ath" "ath_ok (plain_ath\<lparr>ao_compound := b\<rparr>)"
  by (simp_all add: ath_ok_def plain_ath_def)

lemma goes_mi_verb: "normalization_laws env \<Longrightarrow> goes env I (mi_verb env verb)"
  by (cases verb) (auto simp: mi_verb_def Let_def ath_ok_def intro!: goes_athematic_verb)

lemma goes_deponent:
  assumes laws: "normalization_laws env" and wp: "well_paired l" "well_paired stem" "well_paired acc"
    and aug: "\<forall>(x, y)\<in>set aug. well_paired x \<and> well_paired y"
  shows "goes env I (deponent env l stem acc aug)"
proof -
  have on: "wps (map (accented_on env x y) (gks fs))" if "well_paired x" "well_paired y" for x y fs
    using that by (auto simp: list_all_iff accented_on_def gks_def intro!: well_paired_toNFC [OF laws] well_paired_append)
  have out: "wps (map (accented_on env stem acc) DEPONENT_FORMS)"
    unfolding DEPONENT_FORMS_def using wp by (intro on)
  have past: "wps (map (accented_on env x y) PAST_FORMS)" if "(x, y) \<in> set aug" for x y
    unfolding PAST_FORMS_def using aug that by (intro on) auto
  obtain menos where menos: "menosParticiple env (stem @ gk ''amen'') = Inr menos" "wps menos"
    using menosParticiple_total [OF laws, of "stem @ gk ''amen''"] wp by (auto simp: well_paired_append)
  have "\<exists>t. deponent_table env stem acc aug = Inr t \<and> list_all (\<lambda>r. wps (snd r)) t"
    using out past menos unfolding deponent_table_def Let_def by (fastforce simp: list_all_iff)
  then show ?thesis unfolding deponent_def
    by (rule goes_bind) (rule goes_athematic [OF laws wp(1) plain_ath_ok(1)])
qed

lemma goes_deponents: "normalization_laws env \<Longrightarrow> goes env I (deponents env)"
  unfolding deponents_def by (intro goes_Cons goes_Nil goes_deponent) (auto simp: gk_pairs_def)

lemma goes_compound_lemma:
  assumes "normalization_laws env" "js ''compound'' \<in> I" "well_paired v" "well_paired (drop 1 v)" "well_paired x" "well_paired y"
  shows "goes env I (compound_lemma env v (x, y))"
  unfolding compound_lemma_def prod.case Let_def
  by (intro goes_only_if goes_plain_rule) (use assms in \<open>auto simp: wp_rules\<close>)

lemma gk_drop: "well_paired (drop n (gk s))"
  using gk_plain [of s] by (intro plain_well_paired) (auto simp: plain_def dest: in_set_dropD)

lemma goes_buildAthematicCompounds:
  assumes "normalization_laws env"
  shows "goes env I (buildAthematicCompounds env)"
proof -
  have c: "goes env J (each (compound_lemma env (gk v)) COMPOUND_PREVERBS)" if "js ''compound'' \<in> J" for J v
    unfolding COMPOUND_PREVERBS_def
    by (rule goes_each) (auto simp: gk_pairs_def intro!: goes_compound_lemma [OF assms that] gk_drop)
  have "goes env J (each (\<lambda>verb. each (compound_lemma env verb) COMPOUND_PREVERBS) (gks vs))" if "js ''compound'' \<in> J" for J vs
    by (rule goes_each) (auto simp: gks_def intro!: c [OF that])
  then show ?thesis unfolding buildAthematicCompounds_def
    by (intro goes_transform goes_Cons goes_Nil) simp
qed

lemma goes_buildAthematic:
  assumes laws: "normalization_laws env"
  shows "goes env I (buildAthematic env)"
proof -
  have amai: "goes env J (each (amai_ending env) AMAI_ENDINGS)" if "js ''amai'' \<in> J" for J
    unfolding AMAI_ENDINGS_def amai_ending_def using that stem_ok_min_length
    by (intro goes_gks goes_suffix [OF laws]) (simp_all del: js_simps stem_ok_simps)
  have nymi: "goes env J (each (nymi_ending env) NYMI_ENDINGS)" if "js ''nymi'' \<in> J" for J
    unfolding NYMI_ENDINGS_def nymi_ending_def using that
    by (intro goes_gks goes_Cons goes_Nil goes_only_if goes_suffix [OF laws]) simp_all
  have verbs: "goes env J (each (athematic_verb env opts) vs)" if "ath_ok opts" for J opts vs
    by (intro goes_each goes_athematic_verb [OF laws that])
  have mi: "goes env J (each (mi_verb env) mi_verbs)" for J
    by (intro goes_each goes_mi_verb [OF laws])
  show ?thesis
    unfolding buildAthematic_def
    by (intro goes_transform goes_Cons goes_Nil verbs plain_ath_ok mi amai nymi goes_deponents [OF laws]
        goes_buildAthematicCompounds [OF laws]) simp_all
qed

section \<open>Closed classes\<close>

definition call_ok :: "closed_call \<Rightarrow> bool" where
  "call_ok c \<longleftrightarrow> well_paired (cc_lemma c) \<and> wps (cc_forms c)"

definition pending_ok :: "gen \<Rightarrow> pending \<Rightarrow> bool" where
  "pending_ok s p \<longleftrightarrow> pd_transform p \<in> known s \<and> well_paired (pd_form p) \<and> well_paired (pd_lemma p)"

lemma find_mem: "find P xs = Some x \<Longrightarrow> x \<in> set xs"
  by (auto simp: find_Some_iff)

lemma comparison_lemma_wp: "comparison_lemma s = Some l \<Longrightarrow> well_paired l"
proof -
  have table: "well_paired (snd p)" if "p \<in> set (map (\<lambda>(alternatives, l). (gks alternatives, gk l)) rows)" for p rows
    using that by auto
  show "comparison_lemma s = Some l \<Longrightarrow> well_paired l"
    unfolding comparison_lemma_def COMPARISON_LEMMAS_def map_option_eq_Some using find_mem table by fast
qed

lemma closed_form_ok:
  assumes "normalization_laws env" "call_ok c" "f \<in> set (cc_forms c)" "p \<in> set (closed_form env c f)"
  shows "pd_transform p = cc_transform c \<and> well_paired (pd_form p) \<and> well_paired (pd_lemma p)"
  using assms comparison_lemma_wp
  by (auto simp: closed_form_def Let_def call_ok_def list_all_iff well_paired_toNFC split: if_splits option.splits)

lemma closed_goes:
  assumes laws: "normalization_laws env" and s: "good env s" and ps: "\<forall>p\<in>set ps. pending_ok s p" and c: "call_ok c"
  shows "\<exists>ps' s'. closed env (ps, s) c = Inr (ps', s') \<and> good env s' \<and> known s \<subseteq> known s' \<and> (\<forall>p\<in>set ps'. pending_ok s' p)"
proof -
  obtain s' where s': "transform (cc_transform c) (cc_name c) (cc_description c) s = Inr s'" "good env s'"
      "known s \<subseteq> known s'" "cc_transform c \<in> known s'"
    using makes_transform [of env "{}" "cc_transform c" "cc_name c" "cc_description c"] s unfolding makes_def by auto
  have "pending_ok s' p" if "p \<in> set ps \<or> (\<exists>f\<in>set (cc_forms c). p \<in> set (closed_form env c f))" for p
    using that ps s'(3,4) closed_form_ok [OF laws c] by (auto simp: pending_ok_def)
  then show ?thesis using s' by (auto simp: closed_def)
qed

lemma closed_loop:
  assumes laws: "normalization_laws env"
  shows "good env s \<Longrightarrow> \<forall>p\<in>set ps. pending_ok s p \<Longrightarrow> list_all call_ok cs \<Longrightarrow>
    \<exists>ps' s'. foldE (closed env) (ps, s) cs = Inr (ps', s') \<and> good env s' \<and> known s \<subseteq> known s' \<and> (\<forall>p\<in>set ps'. pending_ok s' p)"
proof (induction cs arbitrary: ps s)
  case (Cons c cs)
  obtain ps1 s1 where s1: "closed env (ps, s) c = Inr (ps1, s1)" "good env s1" "known s \<subseteq> known s1" "\<forall>p\<in>set ps1. pending_ok s1 p"
    using closed_goes [OF laws Cons.prems(1,2), of c] Cons.prems(3) by auto
  from Cons.IH [OF s1(2,4)] Cons.prems(3) s1 show ?case by fastforce
qed simp

lemma goes_flush_one:
  assumes "normalization_laws env" "pd_transform p \<in> I" "well_paired (pd_form p)" "well_paired (pd_lemma p)"
  shows "goes env I (flush_one env lemmas p)"
  unfolding flush_one_def Let_def whole_def
  using assms by (auto intro!: goes_suffix goes_emit simp: whole_def)

lemma goes_flushClosed:
  assumes laws: "normalization_laws env" and "\<forall>p\<in>set ps. pd_transform p \<in> I \<and> well_paired (pd_form p) \<and> well_paired (pd_lemma p)"
  shows "goes env I (flushClosed env ps)"
  unfolding flushClosed_def using assms by (intro goes_each goes_flush_one) auto

lemma call_ok_row: "call_ok (closed_row tid n d l opts forms) \<longleftrightarrow> wps forms"
  by (simp add: call_ok_def closed_row_def closed_call_of_def)

lemma call_ok_of: "call_ok (closed_call_of tid n d l opts forms) \<longleftrightarrow> well_paired l \<and> wps forms"
  by (simp add: call_ok_def closed_call_of_def)

lemma wps_stems: "well_paired stem \<Longrightarrow> wps (map (\<lambda>e. stem @ e) (gks es))"
  by (auto simp: list_all_iff gks_def intro!: well_paired_append)

lemma call_ok_stems:
  "list_all call_ok (map (\<lambda>(l, stem). closed_call_of tid n d l opts (map (\<lambda>e. stem @ e) (gks es))) (gk_pairs rows))"
  by (auto simp: list_all_iff gk_pairs_def call_ok_of intro!: well_paired_append simp: gks_def)

lemma call_ok_rho:
  "list_all call_ok (map (\<lambda>(l, stem, unmarked). closed_call_of tid n d l opts (rhoComparison stem unmarked)) (gk_triples rows))"
  by (auto simp: list_all_iff gk_triples_def call_ok_of rhoComparison_def gks_def intro!: well_paired_append)

lemma tx_space_wp: "well_paired (tx ''{o(/} {ti}'')"
  by code_simp

lemma closed_tables_ok:
  "list_all call_ok (ARTICLE_PRONOUNS @ RELATIVES @ NUMERALS @ IRREGULAR_NOUNS @ IRREGULAR_ADJECTIVES)"
  unfolding ARTICLE_PRONOUNS_def RELATIVES_def NUMERALS_def IRREGULAR_NOUNS_def IRREGULAR_ADJECTIVES_def
    list_all_append list.pred_inject call_ok_row
  by (intro conjI call_ok_stems call_ok_rho wps_gks list.pred_inject(1) tx_space_wp)

lemma goes_buildClosedClasses:
  assumes laws: "normalization_laws env"
  shows "goes env I (buildClosedClasses env)"
  unfolding goes_def
proof (intro allI impI)
  fix s
  assume s: "good env s"
  obtain ps s1 where s1: "foldE (closed env) ([], s) (ARTICLE_PRONOUNS @ RELATIVES @ NUMERALS @ IRREGULAR_NOUNS @ IRREGULAR_ADJECTIVES)
      = Inr (ps, s1)" "good env s1" "known s \<subseteq> known s1" "\<forall>p\<in>set ps. pending_ok s1 p"
    using closed_loop [OF laws s _ closed_tables_ok, of "[]"] by auto
  have "goes env (known s1) (flushClosed env ps)"
    using s1(4) by (intro goes_flushClosed [OF laws]) (simp add: pending_ok_def)
  from goesD [OF this s1(2) subset_refl] s1(1,3)
  show "\<exists>s'. buildClosedClasses env s = Inr s' \<and> good env s' \<and> known s \<subseteq> known s'"
    by (auto simp: buildClosedClasses_def)
qed

section \<open>Exceptions\<close>

text \<open>The lists are well-formed text, and every exception has its form, its term and its tags.\<close>

definition sources_ok :: "js_env \<Rightarrow> own_sources \<Rightarrow> bool" where
  "sources_ok env src \<longleftrightarrow> well_paired (os_exceptions src) \<and> well_paired (os_manual src) \<and>
     (\<forall>row\<in>set (readTsv (os_exceptions src)). left_out env row \<or> 3 \<le> length row) \<and>
     (\<forall>row\<in>set (readTsv (os_manual src)). 3 \<le> length row)"

lemma well_paired_snoc_split: "\<not> is_high u \<Longrightarrow> \<not> is_low u \<Longrightarrow> well_paired (s @ u # t) \<longleftrightarrow> well_paired s \<and> well_paired t"
proof (induction s rule: well_paired.induct)
  case 1
  then show ?case by (cases t) auto
next
  case (2 v)
  then show ?case by (cases t) auto
next
  case (3 v w s)
  then show ?case by auto
qed

lemma well_paired_split_on:
  "\<not> is_high c \<Longrightarrow> \<not> is_low c \<Longrightarrow> well_paired s \<Longrightarrow> p \<in> set (split_on c s) \<Longrightarrow> well_paired p"
proof (induction s arbitrary: p rule: length_induct)
  case (1 s)
  show ?case
  proof (cases "c \<in> set s")
    case False
    then show ?thesis using "1.prems"(3,4) by (simp add: split_on_no_sep)
  next
    case True
    then obtain a b where s: "s = a @ c # b" "c \<notin> set a" by (meson split_list_first)
    have "well_paired a \<and> well_paired b" using "1.prems"(1-3) unfolding s(1) by (simp add: well_paired_snoc_split)
    moreover have "p = a \<or> p \<in> set (split_on c b)" using "1.prems"(4) s by (simp add: split_on_append)
    moreover have "length b < length s" using s(1) by simp
    ultimately show ?thesis using "1.IH" "1.prems"(1,2) by blast
  qed
qed

lemma readTsv_wp: "well_paired content \<Longrightarrow> row \<in> set (readTsv content) \<Longrightarrow> wps row"
  by (auto simp: readTsv_def list_all_iff is_high_def is_low_def
      intro: well_paired_split_on [of 9] well_paired_split_on [of 10] elim!: well_paired_split_on [rotated 3])

lemma exception_of_total:
  assumes "normalization_laws env" "wps row" "3 \<le> length row"
  shows "\<exists>e. exception_of env row = Inr e \<and> well_paired (ex_form e) \<and> well_paired (ex_term e)"
proof -
  obtain a b c rest where "row = a # b # c # rest"
    using assms(3) by (metis Suc_le_length_iff numeral_3_eq_3)
  then show ?thesis using assms(1,2) by (auto simp: exception_of_def well_paired_toNFC)
qed

lemma exceptionList_total:
  assumes laws: "normalization_laws env" and src: "sources_ok env src"
  shows "\<exists>es. exceptionList env src = Inr es \<and> list_all (\<lambda>e. well_paired (ex_form e) \<and> well_paired (ex_term e)) es"
  unfolding exceptionList_def
proof (rule mapE_all)
  fix row
  assume "row \<in> set (filter (\<lambda>row. \<not> left_out env row) (readTsv (os_exceptions src)) @ readTsv (os_manual src))"
  then have "wps row" "3 \<le> length row" using src readTsv_wp unfolding sources_ok_def by auto
  then show "\<exists>e. exception_of env row = Inr e \<and> well_paired (ex_form e) \<and> well_paired (ex_term e)"
    by (rule exception_of_total [OF laws])
qed

lemma goes_buildExceptions:
  assumes laws: "normalization_laws env" and src: "sources_ok env src"
  shows "goes env I (buildExceptions env src)"
proof -
  have standing: "stem_ok (if b then [(js ''standing'', JBool True)] else [])" for b
  proof -
    have "js ''standing'' \<notin> set NORMALIZED_FIELDS" by code_simp
    then show ?thesis by (simp del: js_simps)
  qed
  have one: "goes env J (build_exception env src e)"
    if "js ''exc'' \<in> J" "well_paired (ex_form e)" "well_paired (ex_term e)" for J e
  proof -
    have w: "well_paired (graveToAcute env (ex_form e))"
      unfolding graveToAcute_def by (rule well_paired_replace_mark [OF laws that(2)]) (simp_all add: is_high_def is_low_def)
    show ?thesis unfolding build_exception_def Let_def
      using w by (intro goes_each goes_plain_rule [OF laws that(1) standing] that(3))
        (auto simp: well_paired_stripAccents laws split: if_splits)
  qed
  have "goes env J (\<lambda>s. bindE (exceptionList env src) (\<lambda>es. each (build_exception env src) es s))" if "js ''exc'' \<in> J" for J
    by (rule goes_bind [OF exceptionList_total [OF laws src]])
      (auto simp: list_all_iff intro!: goes_each one [OF that])
  then show ?thesis unfolding buildExceptions_def by (intro goes_transform goes_Cons goes_Nil) simp
qed

section \<open>The whole build\<close>

lemma goes_own_build:
  assumes "normalization_laws env" "sources_ok env src"
  shows "goes env I (own_build env src)"
  unfolding own_build_def
  using assms by (intro goes_Cons goes_Nil goes_buildExceptions goes_build_inflections goes_buildAthematic
    goes_buildClosedClasses goes_build_texts)

lemma own_format_total:
  "\<exists>text. own_file s = Inr text"
proof -
  let ?ts = "map (\<lambda>t. JObj (built_transform t)) (used_transforms s)"
  have block: "\<exists>ls. transform_lines ts (i, JObj (built_transform t)) = Inr ls" for ts i t
    using transform_lines_text [of ts i t] by blast
  have "\<exists>bs. mapE (transform_lines ?ts) (enum ?ts) = Inr bs \<and> list_all (\<lambda>_. True) bs"
    by (rule mapE_all) (use block in \<open>auto simp: enum_def dest!: set_zip_rightD\<close>)
  then show ?thesis by (auto simp: own_file_def own_format_def)
qed

text \<open>C10: The command of own-rules.mjs ends without an error for every environment with the documented laws of
  normalization and all lists of exceptions that are well-formed text with the three columns an exception needs: no rule is
  added to an unknown transform, every ending gets its recessive accent, and the file is written. It is made of a state in
  which transform identifiers are unique, no transform has a rule twice, and every text of a rule is in NFC.\<close>

theorem own_main_returns:
  assumes "normalization_laws env" and "sources_ok env src"
  shows "\<exists>s text. own_build env src (start twins) = Inr s \<and> good env s \<and> own_file s = Inr text \<and>
    own_main env src twins = Inr (text, own_counts s)"
proof -
  obtain s where "own_build env src (start twins) = Inr s" "good env s"
    using goesD [OF goes_own_build [OF assms, of "{}"] good_start] by auto
  moreover obtain out where "own_file s = Inr out" using own_format_total by blast
  ultimately show ?thesis by (simp add: own_main_def)
qed

definition sample_sources :: own_sources where
  "sample_sources = \<lparr>os_exceptions = gk ''e)/lege'' @ [9] @ gk ''le/gw'' @ [9] @ js ''v'' @ [10],
     os_manual = js ''# none'' @ [10], os_whole = [], os_accentless = [], os_all_whole = False, os_all_accentless = True\<rparr>"

theorem own_main_returns_witness:
  "\<exists>s text. own_build ex_greek sample_sources (start False) = Inr s \<and> good ex_greek s \<and> own_file s = Inr text \<and>
    own_main ex_greek sample_sources False = Inr (text, own_counts s)"
proof (rule own_main_returns [OF ex_laws])
  have "well_paired (os_exceptions sample_sources)" "well_paired (os_manual sample_sources)"
    "\<forall>row\<in>set (readTsv (os_exceptions sample_sources)). 3 \<le> length row"
    "readTsv (os_manual sample_sources) = []"
    by code_simp+
  then show "sources_ok ex_greek sample_sources" by (simp add: sources_ok_def)
qed

end
