(* ===== verification/Final_Rules.thy ===== *)
theory Final_Rules
  imports Own_Output Merge_Transforms
begin

text \<open>
  The final rule set of Ancient Greek (languages/grc/sources/build-final.mjs): the own rules and Yomitan's, less every
  Yomitan rule an own rule repeats and those left out for measured harm, with the fate of each Yomitan rule, and the
  rows of Yomitan's tests with their reasons relaxed.

  The two files are JSON values and every place where a missing field ends the script is an error. A rule's texts are
  strings and no object stands for an array; \<open>Map\<close> and \<open>Set\<close> hold texts.
\<close>

datatype final_error =
    FinalJson json_error
  | FinalMerge merge_error
  | NoOwnCategory jstr
  | NoYomitanRule jstr
  | FinalType
  | FinalRange
  | FinalFile

section \<open>Tables\<close>

text \<open>The own transforms a Yomitan transform's expression accepts.\<close>

definition CATEGORY :: "(jstr \<times> jstr list) list" where
  "CATEGORY = map (\<lambda>(name, ids). (js name, map js ids))
    [(''2nd person singular present active indicative'', [''ind-act-2sg'']),
     (''3rd person singular present active indicative'', [''ind-act-3sg'']),
     (''1st person plural present active indicative'', [''ind-act-1pl'']),
     (''2nd person plural present active indicative'', [''ind-act-2pl'']),
     (''3rd person plural present active indicative'', [''ind-act-3pl'']),
     (''2nd person singular present middle indicative'', [''ind-mid-2sg'']),
     (''3rd person singular present middle indicative'', [''ind-mid-3sg'']),
     (''1st person plural present middle indicative'', [''ind-mid-1pl'']),
     (''2nd person plural present middle indicative'', [''ind-mid-2pl'']),
     (''3rd person plural present middle indicative'', [''ind-mid-3pl'']),
     (''genitive singular'', [''gen-sg'']),
     (''dative singular'', [''dat-sg'']),
     (''accusative singular'', [''acc-sg'']),
     (''vocative singular'', [''voc-sg'']),
     (''nominative plural'', [''nom-pl'', ''na-pl'']),
     (''genitive plural'', [''gen-pl'']),
     (''dative plural'', [''dat-pl'']),
     (''accusative plural'', [''acc-pl'', ''na-pl'']),
     (''vocative plural'', [''nom-pl'', ''na-pl'']),
     (''accusative singular masculine'', [''acc-sg'']),
     (''nominalization'', [''''])]"

text \<open>What the rows of a rule left out become; the reasons are not read.\<close>

datatype row_fate = Negative | Positive

definition LEFT_OUT :: "(jstr \<times> row_fate) list" where
  "LEFT_OUT =
    [(tx ''nominalization {oj>ew}'', Negative),
     (tx ''dative singular {w>on}'', Positive),
     (tx ''dative singular {w>oj}'', Positive),
     (tx ''dative singular {a>aj}'', Positive)]"

definition KEEP :: "jstr list" where
  "KEEP = [tx ''genitive plural {wn>on}'']"

datatype category = Ids "jstr list" | NotARegExp

text \<open>\<open>CATEGORY[t.id]\<close>: a name every object inherits is a function, which has no \<open>test\<close>.\<close>

definition category_of :: "jstr \<Rightarrow> final_error + category" where
  "category_of i = (case map_of CATEGORY i of
       Some ids \<Rightarrow> Inr (Ids ids)
     | None \<Rightarrow> if inherited i \<noteq> None then Inr NotARegExp else Inl (NoOwnCategory i))"

definition category_test :: "category \<Rightarrow> jstr \<Rightarrow> final_error + bool" where
  "category_test c i = (case c of Ids ids \<Rightarrow> Inr (i \<in> set ids) | NotARegExp \<Rightarrow> Inl FinalType)"

section \<open>Values\<close>

definition truthy :: "json \<Rightarrow> bool" where
  "truthy v \<longleftrightarrow> v \<notin> {JUndef, JNull, JBool False, JNum 0, JStr []}"

text \<open>\<open>===\<close> on values of different files: two objects are never the same.\<close>

definition strict_eq :: "json \<Rightarrow> json \<Rightarrow> bool" where
  "strict_eq v w \<longleftrightarrow> v = w \<and> (case v of JArr _ \<Rightarrow> False | JObj _ \<Rightarrow> False | _ \<Rightarrow> True)"

text \<open>\<open>v.length !== 0\<close>\<close>

definition has_length :: "json \<Rightarrow> final_error + bool" where
  "has_length v = (case v of
       JArr vs \<Rightarrow> Inr (vs \<noteq> []) | JStr s \<Rightarrow> Inr (s \<noteq> [])
     | _ \<Rightarrow> if nullish v then Inl FinalType else Inr (obj_get v (js ''length'') \<noteq> JNum 0))"

definition transform_list :: "json \<Rightarrow> final_error + json list" where
  "transform_list v = array_items FinalType (obj_get v (js ''transforms''))"

definition rules_in :: "json \<Rightarrow> final_error + json list" where
  "rules_in t = array_items FinalType (obj_get t (js ''rules''))"

section \<open>Conditions\<close>

text \<open>\<open>leaves\<close>: a cycle of conditions ends in a RangeError. The depth of a chain without one is at most the number of
  conditions, and a name no condition has is a leaf only when every object has it.\<close>

fun leaves :: "nat \<Rightarrow> (jstr \<times> json) list \<Rightarrow> json \<Rightarrow> final_error + json list" where
  "leaves 0 conds name = Inl FinalRange"
| "leaves (Suc n) conds name = (case lookup_in conds (to_js name) of
       None \<Rightarrow> Inl FinalType
     | Some c \<Rightarrow>
         if nullish c then Inl FinalType
         else if obj_get c (js ''subConditions'') = JUndef then Inr [name]
         else bindE (array_items FinalType (obj_get c (js ''subConditions''))) (\<lambda>subs.
           bindE (mapE (leaves n conds) subs) (\<lambda>ls. Inr (concat ls))))"

definition leafSet :: "(jstr \<times> json) list \<Rightarrow> json \<Rightarrow> final_error + json list" where
  "leafSet conds names =
     bindE (array_items FinalType names) (\<lambda>ns.
     bindE (mapE (leaves (Suc (length conds)) conds) ns) (\<lambda>ls. Inr (ls_of (concat ls))))"

definition overlaps :: "(jstr \<times> json) list \<Rightarrow> json \<Rightarrow> json \<Rightarrow> final_error + bool" where
  "overlaps conds v w =
     bindE (leafSet conds v) (\<lambda>xs. if xs = [] then Inr False
       else bindE (leafSet conds w) (\<lambda>ys. Inr (list_ex (\<lambda>x. list_ex (strict_eq x) ys) xs)))"

section \<open>Pairs\<close>

text \<open>\<open>const [inflected, deinflected] = pair\<close>\<close>

definition pair_items :: "json \<Rightarrow> final_error + json \<times> json" where
  "pair_items p = bindE (iter_values FinalType p) (\<lambda>vs. Inr (case vs of
       x # y # _ \<Rightarrow> (x, y) | [x] \<Rightarrow> (x, JUndef) | [] \<Rightarrow> (JUndef, JUndef)))"

definition empty_prefix :: "json \<Rightarrow> final_error + bool" where
  "empty_prefix ps = (case ps of
       JArr [p] \<Rightarrow> if nullish p then Inl FinalType else Inr (case p of JArr (x # y # _) \<Rightarrow> x = JStr [] \<and> y = JStr [] | _ \<Rightarrow> False)
     | _ \<Rightarrow> if nullish ps then Inl FinalType else Inr False)"

definition pairsOf :: "json \<Rightarrow> final_error + json list" where
  "pairsOf r =
     (if nullish r then Inl FinalType
      else if obj_get r (js ''type'') = JStr (js ''suffix'')
      then Inr [JArr [obj_get r (js ''inflected''), obj_get r (js ''deinflected'')]]
      else if obj_get r (js ''type'') = JStr (js ''circumfix'')
      then bindE (empty_prefix (obj_get r (js ''prefixes''))) (\<lambda>e.
        if e then array_items FinalType (obj_get r (js ''suffixes'')) else Inr [])
      else Inr [])"

section \<open>The own rules a Yomitan rule repeats\<close>

text \<open>The place of a pair: transform, rule and pair.\<close>

type_synonym place = "nat \<times> nat \<times> nat"

definition rule_repeats :: "(jstr \<times> json) list \<Rightarrow> json \<Rightarrow> json \<Rightarrow> final_error + nat list" where
  "rule_repeats conds y r =
     bindE (has_length (obj_get r (js ''conditionsIn''))) (\<lambda>restricted.
     if restricted then Inr []
     else bindE (overlaps conds (obj_get y (js ''conditionsOut'')) (obj_get r (js ''conditionsOut''))) (\<lambda>same.
       if \<not> same \<or> truthy (obj_get r (js ''then'')) then Inr []
       else bindE (pairsOf r) (\<lambda>raw. bindE (mapE pair_items raw) (\<lambda>ps. Inr (map fst (filter (\<lambda>(pn, i, d).
         strict_eq i (obj_get y (js ''inflected'')) \<and> strict_eq d (obj_get y (js ''deinflected''))) (enum ps)))))))"

definition transform_repeats ::
    "(jstr \<times> json) list \<Rightarrow> category \<Rightarrow> json \<Rightarrow> nat \<times> json \<Rightarrow> final_error + (jstr \<times> place) list" where
  "transform_repeats conds c y = (\<lambda>(ti, own_t).
     let i = to_js (obj_get own_t (js ''id'')) in
     bindE (category_test c i) (\<lambda>b.
     if \<not> b then Inr []
     else bindE (rules_in own_t) (\<lambda>rules. bindE (mapE (\<lambda>(ri, r). bindE (rule_repeats conds y r) (\<lambda>pns.
         Inr (map (\<lambda>pn. (i, (ti, ri, pn))) pns))) (enum rules)) (\<lambda>found. Inr (concat found)))))"

definition repeats :: "(jstr \<times> json) list \<Rightarrow> json list \<Rightarrow> category \<Rightarrow> json \<Rightarrow> final_error + (jstr \<times> place) list" where
  "repeats conds own_ts c y =
     bindE (mapE (transform_repeats conds c y) (enum own_ts)) (\<lambda>found. Inr (concat found))"

section \<open>The fate of Yomitan's rules\<close>

definition rule_name :: "jstr \<Rightarrow> json \<Rightarrow> jstr" where
  "rule_name i y = i @ [32] @ to_js (obj_get y (js ''inflected'')) @ [8594] @ to_js (obj_get y (js ''deinflected''))"

record fates =
  ft_both :: "place list"
  ft_names :: "jstr list"
  ft_kept :: "(jstr \<times> json \<times> json list) list"
  ft_rows :: "jstr list list"
  ft_matched :: nat
  ft_leftOut :: "(jstr \<times> json \<times> row_fate) list"

definition no_fates :: fates where
  "no_fates = \<lparr>ft_both = [], ft_names = [], ft_kept = [], ft_rows = [], ft_matched = 0, ft_leftOut = []\<rparr>"

text \<open>\<open>kept.get(t.id).rules.push(y)\<close>, after \<open>kept.set(t.id, {...t, rules: []})\<close> the first time.\<close>

definition keep_rule :: "jstr \<Rightarrow> json \<Rightarrow> json \<Rightarrow> fates \<Rightarrow> fates" where
  "keep_rule i t y s = s\<lparr>ft_kept := (case map_of (ft_kept s) i of
       Some (t0, rules) \<Rightarrow> om_set i (t0, rules @ [y]) (ft_kept s)
     | None \<Rightarrow> om_set i (t, [y]) (ft_kept s))\<rparr>"

definition fate_row :: "jstr \<Rightarrow> nat \<Rightarrow> json \<Rightarrow> jstr \<Rightarrow> final_error + jstr list" where
  "fate_row i n y fate = bindE (array_items FinalType (obj_get y (js ''conditionsOut''))) (\<lambda>cs. Inr
     [i, num_js (int n),
      to_js (obj_get y (js ''inflected'')) @ [32, 8594, 32] @ to_js (obj_get y (js ''deinflected'')) @ js '' ('' @
        join [32] (map (\<lambda>c. if nullish c then [] else to_js c) cs) @ js '')'',
      fate])"

definition fate_text :: "jstr list \<Rightarrow> jstr \<Rightarrow> jstr" where
  "fate_text found name =
     (if found \<noteq> [] then join [32] found @ (if name \<in> set KEEP then js '' (kept)'' else [])
      else if map_of LEFT_OUT name \<noteq> None then js ''left out'' else js ''kept'')"

definition rule_fate :: "(jstr \<times> json) list \<Rightarrow> json list \<Rightarrow> json \<Rightarrow> category \<Rightarrow> fates \<Rightarrow> nat \<times> json \<Rightarrow> final_error + fates" where
  "rule_fate conds own_ts t c s = (\<lambda>(n, y).
     let i = to_js (obj_get t (js ''id'')); name = rule_name i y in
     bindE (repeats conds own_ts c y) (\<lambda>hits.
     let found = ls_of (map fst hits);
         s1 = s\<lparr>ft_both := fold ls_add (map snd hits) (ft_both s),
           ft_names := (if map_of LEFT_OUT name \<noteq> None \<or> name \<in> set KEEP then ls_add name (ft_names s) else ft_names s)\<rparr>;
         s2 = (if found \<noteq> []
           then (let m = s1\<lparr>ft_matched := Suc (ft_matched s1)\<rparr> in if name \<in> set KEEP then keep_rule i t y m else m)
           else case map_of LEFT_OUT name of
               Some fate \<Rightarrow> s1\<lparr>ft_leftOut := ft_leftOut s1 @ [(i, y, fate)]\<rparr>
             | None \<Rightarrow> keep_rule i t y s1)
     in bindE (fate_row i n y (fate_text found name)) (\<lambda>row. Inr (s2\<lparr>ft_rows := ft_rows s2 @ [row]\<rparr>))))"

definition transform_fates :: "(jstr \<times> json) list \<Rightarrow> json list \<Rightarrow> fates \<Rightarrow> json \<Rightarrow> final_error + fates" where
  "transform_fates conds own_ts s t =
     bindE (category_of (to_js (obj_get t (js ''id'')))) (\<lambda>c.
     bindE (rules_in t) (\<lambda>rules. foldE (rule_fate conds own_ts t c) s (enum rules)))"

definition all_fates :: "(jstr \<times> json) list \<Rightarrow> json list \<Rightarrow> json list \<Rightarrow> final_error + fates" where
  "all_fates conds own_ts yomitan_ts = foldE (transform_fates conds own_ts) no_fates yomitan_ts"

section \<open>The final transforms\<close>

text \<open>A row of own rules: one whose pairs repeat no Yomitan rule stays; a marked pair is a suffix rule of both.\<close>

definition both_rule :: "(jstr \<times> json) list \<Rightarrow> json \<times> json \<Rightarrow> json" where
  "both_rule shape = (\<lambda>(i, d). JObj (obj_of
     ([(js ''type'', JStr (js ''suffix'')), (js ''inflected'', i), (js ''deinflected'', d)] @ shape @
      [(js ''source'', JStr (js ''both''))])))"

definition row_shape :: "json \<Rightarrow> (jstr \<times> json) list" where
  "row_shape r = without_key (js ''suffixes'') (without_key (js ''prefixes'') (without_key (js ''type'') (object_entries r)))"

definition put_field :: "string \<Rightarrow> json \<Rightarrow> json \<Rightarrow> json" where
  "put_field k v r = JObj (obj_put (js k) v (object_entries r))"

definition mark_rule :: "place list \<Rightarrow> nat \<Rightarrow> nat \<times> json \<Rightarrow> final_error + json list" where
  "mark_rule both ti = (\<lambda>(ri, r).
     bindE (pairsOf r) (\<lambda>pairs.
     let marked = (\<lambda>pn. (ti, ri, pn) \<in> set both) in
     if \<not> list_ex marked [0..<length pairs] then Inr [r]
     else if obj_get r (js ''type'') = JStr (js ''suffix'') then Inr [put_field ''source'' (JStr (js ''both'')) r]
     else
       let rest = map snd (filter (\<lambda>(pn, p). \<not> marked pn) (enum pairs)) in
       bindE (mapE pair_items (map snd (filter (\<lambda>(pn, p). marked pn) (enum pairs)))) (\<lambda>ps. Inr
         (map (both_rule (row_shape r)) ps @ (if rest \<noteq> [] then [put_field ''suffixes'' (JArr rest) r] else [])))))"

definition is_both :: "json \<Rightarrow> bool" where
  "is_both r \<longleftrightarrow> obj_get r (js ''source'') = JStr (js ''both'')"

definition mark_transform :: "place list \<Rightarrow> nat \<times> json \<Rightarrow> final_error + json" where
  "mark_transform both = (\<lambda>(ti, t).
     bindE (rules_in t) (\<lambda>rules.
     bindE (mapE (mark_rule both ti) (enum rules)) (\<lambda>marked.
     let rs = concat marked; allBoth = list_all is_both rs in
     Inr (put_field ''rules'' (JArr (if allBoth then map (\<lambda>r. JObj (without_key (js ''source'') (object_entries r))) rs else rs))
       (put_field ''source'' (JStr (js (if allBoth then ''both'' else ''own''))) t)))))"

text \<open>\<open>{...t, rules: [\<dots>]}\<close>, then \<open>{...t, source: 'yomitan'}\<close>\<close>

definition kept_transform :: "jstr \<times> json \<times> json list \<Rightarrow> json" where
  "kept_transform = (\<lambda>(i, t, rules). put_field ''source'' (JStr (js ''yomitan'')) (put_field ''rules'' (JArr rules) t))"

definition final_transforms :: "json list \<Rightarrow> fates \<Rightarrow> final_error + json list" where
  "final_transforms own_ts s =
     bindE (mapE (mark_transform (ft_both s)) (enum own_ts)) (\<lambda>ts. Inr (ts @ map kept_transform (ft_kept s)))"

text \<open>The own conditions, then Yomitan's that \<open>in\<close> does not find there.\<close>

definition final_conditions :: "json \<Rightarrow> json \<Rightarrow> (jstr \<times> json) list" where
  "final_conditions own yomitan =
     fold (\<lambda>(k, v) cs. if lookup_in cs k \<noteq> None then cs else obj_put k v cs)
       (object_entries (obj_get yomitan (js ''conditions''))) (object_entries (obj_get own (js ''conditions'')))"

end
