(* ===== verification/Final_Output.thy ===== *)
theory Final_Output
  imports Final_Rules
begin

text \<open>
  The files languages/grc/sources/build-final.mjs writes: transforms.json, the provenance of Yomitan's rules and
  tests/yomitan.tsv, in this order; an error after a file is written leaves it.
\<close>

section \<open>Provenance\<close>

definition provenance_header :: "jstr list" where
  "provenance_header =
    [js ''# Yomitan d3c54c1'' @ 39 # js ''s rules (GPL-3.0-or-later, (C) 2025-2026 Yomitan Authors) in transforms.json, by build-final.mjs: the own transforms'',
     js ''# that repeat each (source '' @ quote_js (js ''both'') @ js ''), '' @ quote_js (js ''kept'') @ js '' or '' @
       quote_js (js ''left out'') @ js '' (README.md, '' @ quote_js (js ''Rule provenance'') @ js '').'',
     join [9] [js ''# transform'', js ''rule'', js ''deinflection'', js ''in transforms.json'']]"

definition provenance_file :: "fates \<Rightarrow> jstr" where
  "provenance_file s = join [10] (provenance_header @ map (join [9]) (ft_rows s)) @ [10]"

section \<open>The rows of Yomitan's tests\<close>

definition converted_note :: jstr where
  "converted_note = js ''# Converted by tools/port-yomitan-tests.mjs''"

definition lemmas_note :: jstr where
  "lemmas_note = js ''# these lemmas through''"

definition negatives_note :: jstr where
  "negatives_note = js ''# (valid 0)''"

definition negative_names :: "fates \<Rightarrow> jstr" where
  "negative_names s = join (js '', '') (map (\<lambda>(i, y, _).
       i @ [32] @ to_js (obj_get y (js ''inflected'')) @ [32, 8594, 32] @ to_js (obj_get y (js ''deinflected'')))
     (filter (\<lambda>(_, _, f). f = Negative) (ft_leftOut s)))"

definition NOTE :: "fates \<Rightarrow> jstr list" where
  "NOTE s =
    [converted_note @ js ''; sources/build-final.mjs then sets the reasons column to * (any trace): the final rules reach'',
     lemmas_note @ js '' this pack'' @ 39 # js ''s own transforms, whose ids are not Yomitan'' @ 39 #
       js ''s. A row whose rule the final set leaves out is a negative'',
     negatives_note @ js '': '' @ (if negative_names s = [] then js ''none'' else negative_names s) @
       js '' (README.md, '' @ quote_js (js ''Rule provenance'') @ js '').'']"

definition noted :: "jstr \<Rightarrow> bool" where
  "noted line \<longleftrightarrow> starts_with line converted_note \<or> starts_with line lemmas_note \<or> starts_with line negatives_note"

text \<open>A cell past the end of a row is \<open>undefined\<close>.\<close>

definition cell :: "jstr list \<Rightarrow> nat \<Rightarrow> jstr option" where
  "cell cells i = (if i < length cells then Some (cells ! i) else None)"

definition named_by :: "jstr option \<Rightarrow> json \<Rightarrow> bool" where
  "named_by reasons t \<longleftrightarrow> (case reasons of
       Some r \<Rightarrow> r = [42] \<or> JStr r = obj_get t (js ''id'') | None \<Rightarrow> obj_get t (js ''id'') = JUndef)"

definition makes_term :: "jstr \<Rightarrow> jstr option \<Rightarrow> json \<Rightarrow> bool" where
  "makes_term source trm y \<longleftrightarrow>
     (let i = to_js (obj_get y (js ''inflected'')) in
      ends_with source i \<and> Some (slice source 0 (length source - length i) @ to_js (obj_get y (js ''deinflected''))) = trm)"

definition transform_makes :: "jstr option \<Rightarrow> jstr option \<Rightarrow> json \<Rightarrow> final_error + jstr list" where
  "transform_makes source trm t =
     bindE (rules_in t) (\<lambda>rules. case source of
         None \<Rightarrow> if rules = [] then Inr [] else Inl FinalType
       | Some src \<Rightarrow> Inr (map (rule_name (to_js (obj_get t (js ''id'')))) (filter (makes_term src trm) rules)))"

definition rulesOf :: "json list \<Rightarrow> jstr option \<Rightarrow> jstr option \<Rightarrow> jstr option \<Rightarrow> final_error + jstr list" where
  "rulesOf yomitan_ts source trm reasons =
     bindE (mapE (transform_makes source trm) (filter (named_by reasons) yomitan_ts)) (\<lambda>ns. Inr (concat ns))"

text \<open>\<open>cells[i] = x\<close>: an assignment past the end makes the row longer, with cells \<open>join\<close> writes as empty.\<close>

definition put_cell :: "jstr list \<Rightarrow> nat \<Rightarrow> jstr \<Rightarrow> jstr list" where
  "put_cell cells i x = (cells @ replicate (Suc i - length cells) [])[i := x]"

definition only_negatives :: "jstr list \<Rightarrow> bool" where
  "only_negatives made \<longleftrightarrow> made \<noteq> [] \<and> list_all (\<lambda>name. map_of LEFT_OUT name = Some Negative) made"

text \<open>The lines of a line, and whether its row became a negative.\<close>

definition test_line :: "fates \<Rightarrow> json list \<Rightarrow> jstr \<Rightarrow> final_error + jstr list \<times> bool" where
  "test_line s yomitan_ts line =
     (if starts_with line (js ''# category'') then Inr (NOTE s @ [line], False)
      else if line = [] \<or> starts_with line [35] then Inr ([line], False)
      else let cells = split_on 9 line in
        bindE (rulesOf yomitan_ts (cell cells 2) (cell cells 3) (cell cells 5)) (\<lambda>made.
          let row = (if only_negatives made then put_cell cells 1 [48] else cells)
          in Inr ([join [9] (put_cell row 5 [42])], only_negatives made)))"

definition test_file :: "fates \<Rightarrow> json list \<Rightarrow> jstr \<Rightarrow> final_error + jstr \<times> nat" where
  "test_file s yomitan_ts content =
     bindE (mapE (test_line s yomitan_ts) (filter (\<lambda>line. \<not> noted line) (split_on 10 content))) (\<lambda>rs.
       Inr (join [10] (concat (map fst rs)), length (filter snd rs)))"

section \<open>Counts\<close>

definition source_of :: "json \<Rightarrow> json \<Rightarrow> json" where
  "source_of t r = (let v = obj_get r (js ''source'') in if nullish v then obj_get t (js ''source'') else v)"

definition row_count :: "json \<Rightarrow> final_error + nat" where
  "row_count r =
     (if obj_get r (js ''type'') \<noteq> JStr (js ''circumfix'') then Inr 1
      else bindE (array_items FinalType (obj_get r (js ''prefixes''))) (\<lambda>ps.
        bindE (array_items FinalType (obj_get r (js ''suffixes''))) (\<lambda>ss. Inr (length ps * length ss))))"

definition transform_count :: "string \<Rightarrow> json \<Rightarrow> final_error + nat" where
  "transform_count src t =
     bindE (rules_in t) (\<lambda>rules. bindE (mapE row_count (filter (\<lambda>r. source_of t r = JStr (js src)) rules))
       (\<lambda>ns. Inr (sum_list ns)))"

definition count_source :: "json list \<Rightarrow> string \<Rightarrow> final_error + nat" where
  "count_source ts src = bindE (mapE (transform_count src) ts) (\<lambda>ns. Inr (sum_list ns))"

text \<open>The numbers of the line the script ends with.\<close>

record final_counts =
  fc_union :: "nat \<times> nat"
  fc_final :: nat
  fc_sources :: "nat \<times> nat \<times> nat"
  fc_matched :: nat
  fc_rows :: nat
  fc_kept :: nat
  fc_left_out :: nat
  fc_negatives :: nat

definition kept_row :: "jstr list \<Rightarrow> bool" where
  "kept_row row \<longleftrightarrow> ends_with (row ! 3) (js ''kept'') \<or> ends_with (row ! 3) (js ''(kept)'')"

definition count_all :: "nat \<times> nat \<Rightarrow> fates \<Rightarrow> json list \<Rightarrow> nat \<Rightarrow> final_error + final_counts" where
  "count_all un s ts negatives =
     bindE (count_source ts ''own'') (\<lambda>a. bindE (count_source ts ''both'') (\<lambda>b. bindE (count_source ts ''yomitan'') (\<lambda>c.
       Inr \<lparr>fc_union = un, fc_final = length ts, fc_sources = (a, b, c), fc_matched = ft_matched s,
         fc_rows = length (ft_rows s), fc_kept = length (filter kept_row (ft_rows s)), fc_left_out = length (ft_leftOut s),
         fc_negatives = negatives\<rparr>)))"

section \<open>The command\<close>

text \<open>What the script has written when it ends, and the error it ends with or its counts.\<close>

record final_outcome =
  fo_transforms :: "jstr option"
  fo_provenance :: "jstr option"
  fo_tests :: "jstr option"
  fo_result :: "final_error + final_counts"

definition read_json :: "jstr option \<Rightarrow> final_error + json" where
  "read_json content = (case content of
       None \<Rightarrow> Inl FinalFile
     | Some s \<Rightarrow> (case parseJson s of Inl e \<Rightarrow> Inl (FinalJson e) | Inr v \<Rightarrow> Inr v))"

text \<open>What the script computes before it writes a file.\<close>

record final_build =
  fb_yomitan :: "json list"
  fb_union :: "nat \<times> nat"
  fb_fates :: fates
  fb_transforms :: "json list"
  fb_text :: jstr

definition union_counts :: "json \<Rightarrow> final_error + nat \<times> nat" where
  "union_counts file = bindE (transform_list file) (\<lambda>ts. bindE (mapE rules_in ts) (\<lambda>rss.
     Inr (length ts, sum_list (map length rss))))"

definition build_final :: "json \<Rightarrow> json \<Rightarrow> final_error + final_build" where
  "build_final own yomitan =
     (case mergeTransforms own yomitan of
        Inl e \<Rightarrow> Inl (FinalMerge e)
      | Inr un \<Rightarrow>
          bindE (union_counts (md_file un)) (\<lambda>counts.
          bindE (transform_list yomitan) (\<lambda>yomitan_ts.
          bindE (transform_list own) (\<lambda>own_ts.
          bindE (all_fates (object_entries (obj_get (md_file un) (js ''conditions''))) own_ts yomitan_ts) (\<lambda>s.
          bindE (final_transforms own_ts s) (\<lambda>ts.
          case own_format (final_conditions own yomitan) ts of
            Inl _ \<Rightarrow> Inl FinalType
          | Inr out \<Rightarrow> Inr \<lparr>fb_yomitan = yomitan_ts, fb_union = counts, fb_fates = s, fb_transforms = ts, fb_text = out\<rparr>))))))"

definition unmet :: "fates \<Rightarrow> jstr list" where
  "unmet s = filter (\<lambda>name. name \<notin> set (ft_names s)) (map fst LEFT_OUT @ KEEP)"

definition write_final :: "final_build \<Rightarrow> jstr option \<Rightarrow> final_outcome" where
  "write_final b tests =
     (let s = fb_fates b;
          written = \<lparr>fo_transforms = Some (fb_text b), fo_provenance = Some (provenance_file s), fo_tests = None,
            fo_result = Inl FinalFile\<rparr>
      in case tests of
          None \<Rightarrow> written
        | Some content \<Rightarrow> (case test_file s (fb_yomitan b) content of
            Inl e \<Rightarrow> written\<lparr>fo_result := Inl e\<rparr>
          | Inr (out, negatives) \<Rightarrow> written\<lparr>fo_tests := Some out, fo_result := (case unmet s of
                name # _ \<Rightarrow> Inl (NoYomitanRule name)
              | [] \<Rightarrow> count_all (fb_union b) s (fb_transforms b) negatives)\<rparr>))"

definition final_main :: "jstr option \<Rightarrow> jstr option \<Rightarrow> jstr option \<Rightarrow> final_outcome" where
  "final_main own_text yomitan_text tests =
     (case bindE (read_json own_text) (\<lambda>own. bindE (read_json yomitan_text) (build_final own)) of
        Inl e \<Rightarrow> \<lparr>fo_transforms = None, fo_provenance = None, fo_tests = None, fo_result = Inl e\<rparr>
      | Inr b \<Rightarrow> write_final b tests)"

end
