(* ===== verification/Final_Rules_Correct.thy ===== *)
theory Final_Rules_Correct
  imports Final_Output Own_Output_Correct
begin

text \<open>
  What build-final.mjs promises: the final set has the rules of the own set, up to the source each is marked with, and
  every rule of Yomitan's set is kept, repeated by an own rule marked \<open>both\<close>, or left out by name.
\<close>

section \<open>Marking keeps the own rules\<close>

text \<open>What the build needs of a row: an object without a source of its own, whose suffix-only cross product is written
  as \<open>compact\<close> writes it.\<close>

definition cross_ok :: "rule_obj \<Rightarrow> bool" where
  "cross_ok es \<longleftrightarrow>
     (own_type es = JStr (js ''circumfix'') \<and> empty_prefix (obj_get (JObj es) (js ''prefixes'')) = Inr True \<longrightarrow>
       obj_get (JObj es) (js ''prefixes'') = JArr [JArr [JStr [], JStr []]] \<and> fst ` set es \<inter> {js ''inflected'', js ''deinflected''} = {} \<and>
       (\<exists>ps. obj_get (JObj es) (js ''suffixes'') = JArr (map (\<lambda>(i, d). JArr [i, d]) ps)) \<and> distinct (map fst es))"

definition own_row :: "json \<Rightarrow> bool" where
  "own_row r \<longleftrightarrow> (\<exists>es. r = JObj es \<and> js ''source'' \<notin> fst ` set es \<and> cross_ok es)"

text \<open>The rules a row stands for, without their source.\<close>

definition unsourced :: "rule_obj \<Rightarrow> jstr \<Rightarrow> json option" where
  "unsourced es = (map_of es)(js ''source'' := None)"

definition row_meaning :: "json \<Rightarrow> (jstr \<Rightarrow> json option) list" where
  "row_meaning r = map unsourced (row_rules (object_entries r))"

lemma source_names:
  "js ''source'' \<noteq> js ''type''" "js ''source'' \<noteq> js ''inflected''" "js ''source'' \<noteq> js ''deinflected''"
  "js ''source'' \<noteq> js ''prefixes''" "js ''source'' \<noteq> js ''suffixes''" "js ''source'' \<noteq> js ''rules''" "js ''source'' \<noteq> js ''id''"
  "js ''rules'' \<noteq> js ''id''" "js ''suffix'' \<noteq> js ''circumfix''" "js ''suffixes'' \<noteq> js ''type''"
  "js ''suffixes'' \<noteq> js ''prefixes''" "js ''inflected'' \<noteq> js ''type''" "js ''deinflected'' \<noteq> js ''type''"
  "js ''inflected'' \<noteq> js ''deinflected''" "js ''both'' \<noteq> js ''own''" "js ''yomitan'' \<noteq> js ''both''"
  by simp_all

lemma row_meaning_single: "own_type es \<noteq> JStr (js ''circumfix'') \<Longrightarrow> row_meaning (JObj es) = [unsourced es]"
  by (simp add: row_meaning_def row_rules_single)

lemma own_type_map: "own_type es = (case map_of es (js ''type'') of None \<Rightarrow> JUndef | Some v \<Rightarrow> v)"
  by (simp add: own_type_def obj_get_JObj)

lemma meaning_put_source:
  "own_type es \<noteq> JStr (js ''circumfix'') \<Longrightarrow>
    row_meaning (put_field ''source'' v (JObj es)) = row_meaning (JObj es)"
  using source_names
  by (simp add: put_field_def row_meaning_single own_type_map unsourced_def fun_upd_def del: js_simps cong: if_cong)

lemma mapE_pair_items: "mapE pair_items (map (\<lambda>(i, d). JArr [i, d]) ps) = Inr ps"
  by (induction ps) (auto simp: pair_items_def iter_values_def)

lemma filter_enum_snd: "map snd (filter (\<lambda>(n, x). P n) (enum xs)) = map (\<lambda>n. xs ! n) (filter P [0..<length xs])"
proof -
  have "enum xs = map (\<lambda>n. (n, xs ! n)) [0..<length xs]" unfolding enum_def
    by (rule nth_equalityI) auto
  then show ?thesis by (simp add: filter_map o_def)
qed

lemma mset_split_places:
  "mset (map f (map (\<lambda>n. xs ! n) (filter P [0..<length xs])) @ map f (map (\<lambda>n. xs ! n) (filter (\<lambda>n. \<not> P n) [0..<length xs]))) =
    mset (map f xs)"
proof -
  have "mset (map g (filter P ns) @ map g (filter (\<lambda>n. \<not> P n) ns)) = mset (map g ns)" for g :: "nat \<Rightarrow> 'a" and ns
    by (induction ns) auto
  from this [of "\<lambda>n. f (xs ! n)" "[0..<length xs]"]
  have "mset (map f (map (\<lambda>n. xs ! n) (filter P [0..<length xs])) @ map f (map (\<lambda>n. xs ! n) (filter (\<lambda>n. \<not> P n) [0..<length xs]))) =
      mset (map (\<lambda>n. f (xs ! n)) [0..<length xs])"
    by (simp only: map_map o_def)
  also have "map (\<lambda>n. f (xs ! n)) [0..<length xs] = map f xs" by (rule nth_equalityI) auto
  finally show ?thesis .
qed

lemma row_meaning_cross:
  assumes "own_type es = JStr (js ''circumfix'')" "obj_get (JObj es) (js ''prefixes'') = JArr [JArr [JStr [], JStr []]]"
    "obj_get (JObj es) (js ''suffixes'') = JArr (map (\<lambda>(i, d). JArr [i, d]) ps)"
  shows "row_meaning (JObj es) = map (\<lambda>(i, d). unsourced ([(js ''type'', JStr (js ''suffix'')), (js ''inflected'', i),
    (js ''deinflected'', d)] @ filter (\<lambda>e. fst e \<notin> row_keys) es)) ps"
  unfolding row_meaning_def row_rules_def object_entries_JObj using assms
  by (simp del: js_simps) auto

lemma row_shape_filter: "row_shape (JObj es) = filter (\<lambda>e. fst e \<notin> row_keys) es"
  by (simp add: row_shape_def without_key_def row_keys_def del: js_simps)

lemma key_mem: "(k, v) \<in> set es \<Longrightarrow> k \<in> fst ` set es"
  by force

lemma both_rule_entries:
  assumes "distinct (map fst es)" "fst ` set es \<inter> {js ''inflected'', js ''deinflected''} = {}" "js ''source'' \<notin> fst ` set es"
  shows "\<exists>rs. both_rule (row_shape (JObj es)) (i, d) = JObj rs \<and>
    map_of rs = (map_of ([(js ''type'', JStr (js ''suffix'')), (js ''inflected'', i), (js ''deinflected'', d)] @
      filter (\<lambda>e. fst e \<notin> row_keys) es))(js ''source'' \<mapsto> JStr (js ''both''))"
proof -
  let ?sh = "filter (\<lambda>e. fst e \<notin> row_keys) es"
  have dist: "distinct (map fst ?sh)" using assms(1) by (simp add: distinct_map_filter)
  then have rev: "map_of (rev ?sh) = map_of ?sh" by (simp add: map_of_inject_set rev_map [symmetric])
  have ty: "js ''type'' \<in> row_keys" by (simp add: row_keys_def del: js_simps)
  have none: "map_of ?sh k = None" if "k \<in> {js ''type'', js ''inflected'', js ''deinflected'', js ''source''}" for k
    using that assms(2,3) ty unfolding map_of_filter_set
    by (auto simp: map_of_eq_None_iff simp del: js_simps dest: key_mem)
  have "map_of (obj_of ([(js ''type'', JStr (js ''suffix'')), (js ''inflected'', i), (js ''deinflected'', d)] @ ?sh @
      [(js ''source'', JStr (js ''both''))])) k =
    ((map_of ([(js ''type'', JStr (js ''suffix'')), (js ''inflected'', i), (js ''deinflected'', d)] @ ?sh))
      (js ''source'' \<mapsto> JStr (js ''both''))) k" for k
    using none [of "js ''type''"] none [of "js ''inflected''"] none [of "js ''deinflected''"] none [of "js ''source''"] source_names
    unfolding lookup_obj_of
    by (auto simp: map_add_def rev simp del: js_simps map_of_eq_None_iff split: option.splits)
  then show ?thesis unfolding both_rule_def row_shape_filter by (intro exI conjI) (auto simp del: js_simps)
qed

lemma own_type_obj_get: "obj_get (JObj es) (js ''type'') = own_type es"
  by (simp add: own_type_def)

lemma pairsOf_suffix: "own_type es = JStr (js ''suffix'') \<Longrightarrow>
    pairsOf (JObj es) = Inr [JArr [obj_get (JObj es) (js ''inflected''), obj_get (JObj es) (js ''deinflected'')]]"
  by (simp add: pairsOf_def own_type_obj_get del: js_simps)

text \<open>A row with a marked pair is a suffix rule or a suffix-only cross product.\<close>

lemma marked_row:
  assumes r: "own_row r" and pairs: "pairsOf r = Inr raw" and ne: "raw \<noteq> []"
  obtains (Suffix) es where "r = JObj es" "js ''source'' \<notin> fst ` set es" "own_type es = JStr (js ''suffix'')"
    | (Cross) es ps where "r = JObj es" "js ''source'' \<notin> fst ` set es" "own_type es = JStr (js ''circumfix'')"
      "obj_get (JObj es) (js ''prefixes'') = JArr [JArr [JStr [], JStr []]]"
      "fst ` set es \<inter> {js ''inflected'', js ''deinflected''} = {}" "distinct (map fst es)"
      "obj_get (JObj es) (js ''suffixes'') = JArr (map (\<lambda>(i, d). JArr [i, d]) ps)" "raw = map (\<lambda>(i, d). JArr [i, d]) ps"
proof -
  from r obtain es where es: "r = JObj es" "js ''source'' \<notin> fst ` set es" and shape: "cross_ok es"
    unfolding own_row_def by blast
  show ?thesis
  proof (cases "own_type es = JStr (js ''suffix'')")
    case True
    then show ?thesis using Suffix es by simp
  next
    case False
    have circ: "own_type es = JStr (js ''circumfix'')" and pre: "empty_prefix (obj_get (JObj es) (js ''prefixes'')) = Inr True"
      and raw: "obj_get (JObj es) (js ''suffixes'') = JArr raw"
      using pairs ne False unfolding pairsOf_def es(1) own_type_obj_get
      by (auto simp del: js_simps split: if_splits)
    have facts: "obj_get (JObj es) (js ''prefixes'') = JArr [JArr [JStr [], JStr []]]"
      "fst ` set es \<inter> {js ''inflected'', js ''deinflected''} = {}"
      "\<exists>ps. obj_get (JObj es) (js ''suffixes'') = JArr (map (\<lambda>(i, d). JArr [i, d]) ps)" "distinct (map fst es)"
      using shape circ pre unfolding cross_ok_def by blast+
    then obtain ps where ps: "obj_get (JObj es) (js ''suffixes'') = JArr (map (\<lambda>(i, d). JArr [i, d]) ps)" by blast
    then have "raw = map (\<lambda>(i, d). JArr [i, d]) ps" using raw by simp
    then show ?thesis by (rule Cross [OF es circ facts(1,2,4) ps])
  qed
qed

text \<open>What becomes of a row with marked pairs.\<close>

definition marked_places :: "place list \<Rightarrow> nat \<Rightarrow> nat \<Rightarrow> nat \<Rightarrow> bool" where
  "marked_places both ti ri pn \<longleftrightarrow> (ti, ri, pn) \<in> set both"

lemma marked_places_eta: "marked_places both ti ri = (\<lambda>pn. (ti, ri, pn) \<in> set both)"
  by (simp add: marked_places_def fun_eq_iff)

lemma mark_suffix:
  assumes "own_type es = JStr (js ''suffix'')"
  shows "mark_rule both ti (ri, JObj es) =
    Inr [if marked_places both ti ri 0 then put_field ''source'' (JStr (js ''both'')) (JObj es) else JObj es]"
  using assms by (simp add: mark_rule_def pairsOf_suffix own_type_obj_get marked_places_def del: js_simps)

lemma mark_cross:
  assumes "own_type es = JStr (js ''circumfix'')" "obj_get (JObj es) (js ''prefixes'') = JArr [JArr [JStr [], JStr []]]"
    "obj_get (JObj es) (js ''suffixes'') = JArr (map (\<lambda>(i, d). JArr [i, d]) ps)"
    "list_ex (marked_places both ti ri) [0..<length ps]"
  shows "mark_rule both ti (ri, JObj es) = Inr
    (map (both_rule (row_shape (JObj es))) (map (\<lambda>n. ps ! n) (filter (marked_places both ti ri) [0..<length ps])) @
      (let rest = map (\<lambda>n. ps ! n) (filter (\<lambda>n. \<not> marked_places both ti ri n) [0..<length ps]) in
       if rest \<noteq> [] then [put_field ''suffixes'' (JArr (map (\<lambda>(i, d). JArr [i, d]) rest)) (JObj es)] else []))"
proof -
  let ?arr = "\<lambda>(i, d). JArr [i, d]"
  have pairs: "pairsOf (JObj es) = Inr (map ?arr ps)"
    using assms(1-3) source_names by (simp add: pairsOf_def own_type_obj_get empty_prefix_def del: js_simps)
  have ty: "obj_get (JObj es) (js ''type'') \<noteq> JStr (js ''suffix'')"
    using assms(1) source_names by (simp add: own_type_obj_get del: js_simps)
  have sel: "map snd (filter (\<lambda>(n, x). P n) (enum (map ?arr ps))) = map ?arr (map (\<lambda>n. ps ! n) (filter P [0..<length ps]))" for P
    unfolding filter_enum_snd by (auto simp: nth_map)
  show ?thesis
    using assms(4) unfolding mark_rule_def prod.case pairs bindE_simps Let_def marked_places_def [symmetric] sel mapE_pair_items
    by (simp add: ty del: js_simps)
qed

lemma unmarked_row: "\<not> list_ex (marked_places both ti ri) [0..<length raw] \<Longrightarrow> pairsOf r = Inr raw \<Longrightarrow>
    mark_rule both ti (ri, r) = Inr [r]"
  by (simp add: mark_rule_def Let_def marked_places_eta del: js_simps)

lemma meaning_both_rule:
  assumes "distinct (map fst es)" "fst ` set es \<inter> {js ''inflected'', js ''deinflected''} = {}" "js ''source'' \<notin> fst ` set es"
  shows "row_meaning (both_rule (row_shape (JObj es)) (i, d)) =
    [unsourced ([(js ''type'', JStr (js ''suffix'')), (js ''inflected'', i), (js ''deinflected'', d)] @
      filter (\<lambda>e. fst e \<notin> row_keys) es)]"
proof -
  obtain rs where rs: "both_rule (row_shape (JObj es)) (i, d) = JObj rs"
    "map_of rs = (map_of ([(js ''type'', JStr (js ''suffix'')), (js ''inflected'', i), (js ''deinflected'', d)] @
      filter (\<lambda>e. fst e \<notin> row_keys) es))(js ''source'' \<mapsto> JStr (js ''both''))"
    using both_rule_entries [OF assms] by blast
  have ty: "own_type rs \<noteq> JStr (js ''circumfix'')"
    unfolding own_type_map rs(2) using source_names by (simp del: js_simps)
  show ?thesis unfolding rs(1) row_meaning_single [OF ty] unsourced_def rs(2) by (simp del: js_simps)
qed

lemma meaning_put_suffixes:
  assumes "own_type es = JStr (js ''circumfix'')" "obj_get (JObj es) (js ''prefixes'') = JArr [JArr [JStr [], JStr []]]"
  shows "row_meaning (put_field ''suffixes'' (JArr (map (\<lambda>(i, d). JArr [i, d]) ps)) (JObj es)) =
    map (\<lambda>(i, d). unsourced ([(js ''type'', JStr (js ''suffix'')), (js ''inflected'', i), (js ''deinflected'', d)] @
      filter (\<lambda>e. fst e \<notin> row_keys) es)) ps"
proof -
  let ?es = "obj_put (js ''suffixes'') (JArr (map (\<lambda>(i, d). JArr [i, d]) ps)) es"
  have suf: "js ''suffixes'' \<in> row_keys" by (simp add: row_keys_def del: js_simps)
  have sub: "map_of (filter (\<lambda>e. fst e \<notin> row_keys) ?es) = map_of (filter (\<lambda>e. fst e \<notin> row_keys) es)"
    using suf by (auto simp: map_of_filter_set fun_eq_iff simp del: js_simps)
  have "row_meaning (JObj ?es) = map (\<lambda>(i, d). unsourced ([(js ''type'', JStr (js ''suffix'')), (js ''inflected'', i),
      (js ''deinflected'', d)] @ filter (\<lambda>e. fst e \<notin> row_keys) ?es)) ps"
    by (rule row_meaning_cross) (use assms source_names in \<open>simp_all add: own_type_map obj_get_JObj del: js_simps\<close>)
  then show ?thesis by (simp add: put_field_def unsourced_def sub del: js_simps)
qed

lemma mark_rule_keeps:
  assumes r: "own_row r" and ms: "mark_rule both ti (ri, r) = Inr ms"
  shows "mset (concat (map row_meaning ms)) = mset (row_meaning r)"
proof -
  obtain raw where raw: "pairsOf r = Inr raw" using ms by (auto simp: mark_rule_def)
  show ?thesis
  proof (cases "list_ex (marked_places both ti ri) [0..<length raw]")
    case False
    then show ?thesis using unmarked_row [OF False raw] ms by simp
  next
    case True
    then have ne: "raw \<noteq> []" by auto
    from r raw ne show ?thesis
    proof (cases rule: marked_row)
      case (Suffix es)
      then have "own_type es \<noteq> JStr (js ''circumfix'')" using source_names by (simp del: js_simps)
      then show ?thesis using ms meaning_put_source [of es] Suffix by (auto simp: mark_suffix simp del: js_simps)
    next
      case (Cross es ps)
      let ?one = "\<lambda>(i, d). unsourced ([(js ''type'', JStr (js ''suffix'')), (js ''inflected'', i), (js ''deinflected'', d)] @
        filter (\<lambda>e. fst e \<notin> row_keys) es)"
      let ?sel = "\<lambda>P. map (\<lambda>n. ps ! n) (filter P [0..<length ps])"
      have one: "row_meaning (both_rule (row_shape (JObj es)) p) = [?one p]" for p
        using meaning_both_rule [OF Cross(6,5,2)] by (cases p) simp
      have marked: "list_ex (marked_places both ti ri) [0..<length ps]" using True Cross(8) by simp
      have rest: "concat (map row_meaning (let rest = ?sel (\<lambda>n. \<not> marked_places both ti ri n) in
          if rest \<noteq> [] then [put_field ''suffixes'' (JArr (map (\<lambda>(i, d). JArr [i, d]) rest)) (JObj es)] else [])) =
        map ?one (?sel (\<lambda>n. \<not> marked_places both ti ri n))"
        unfolding Let_def using meaning_put_suffixes [OF Cross(3,4)] by (simp del: js_simps map_map)
      have both: "concat (map row_meaning (map (both_rule (row_shape (JObj es))) qs)) = map ?one qs" for qs
        by (induction qs) (simp_all add: one del: js_simps)
      have "concat (map row_meaning ms) = map ?one (?sel (marked_places both ti ri)) @ map ?one (?sel (\<lambda>n. \<not> marked_places both ti ri n))"
        using ms unfolding Cross(1) mark_cross [OF Cross(3,4,7) marked] sum.inject
        by (elim subst) (simp only: map_append concat_append rest both)
      then have "mset (concat (map row_meaning ms)) = mset (map ?one ps)"
        by (simp only: mset_split_places)
      then show ?thesis unfolding Cross(1) row_meaning_cross [OF Cross(3,4,7)] .
    qed
  qed
qed

lemma both_rule_fields:
  assumes "distinct (map fst es)" "fst ` set es \<inter> {js ''inflected'', js ''deinflected''} = {}" "js ''source'' \<notin> fst ` set es"
  shows "is_both (both_rule (row_shape (JObj es)) (i, d))"
    "obj_get (both_rule (row_shape (JObj es)) (i, d)) (js ''type'') = JStr (js ''suffix'')"
    "obj_get (both_rule (row_shape (JObj es)) (i, d)) (js ''inflected'') = i"
    "obj_get (both_rule (row_shape (JObj es)) (i, d)) (js ''deinflected'') = d"
proof -
  obtain rs where rs: "both_rule (row_shape (JObj es)) (i, d) = JObj rs"
    "map_of rs = (map_of ([(js ''type'', JStr (js ''suffix'')), (js ''inflected'', i), (js ''deinflected'', d)] @
      filter (\<lambda>e. fst e \<notin> row_keys) es))(js ''source'' \<mapsto> JStr (js ''both''))"
    using both_rule_entries [OF assms] by blast
  show "is_both (both_rule (row_shape (JObj es)) (i, d))"
    "obj_get (both_rule (row_shape (JObj es)) (i, d)) (js ''type'') = JStr (js ''suffix'')"
    "obj_get (both_rule (row_shape (JObj es)) (i, d)) (js ''inflected'') = i"
    "obj_get (both_rule (row_shape (JObj es)) (i, d)) (js ''deinflected'') = d"
    unfolding rs(1) is_both_def obj_get_JObj rs(2) using source_names by (simp_all del: js_simps)
qed

text \<open>A marked pair is in the marked row as a suffix rule of both sets.\<close>

definition makes_pair :: "json \<Rightarrow> json \<Rightarrow> json \<Rightarrow> bool" where
  "makes_pair i d r \<longleftrightarrow> obj_get r (js ''type'') = JStr (js ''suffix'') \<and> obj_get r (js ''inflected'') = i \<and>
     obj_get r (js ''deinflected'') = d"

lemma obj_get_put_field: "obj_get (put_field k v (JObj es)) k' = (if k' = js k then v else obj_get (JObj es) k')"
  by (simp add: put_field_def obj_get_JObj)

lemma mark_rule_both:
  assumes r: "own_row r" and ms: "mark_rule both ti (ri, r) = Inr ms" and raw: "pairsOf r = Inr raw"
    and pn: "pn < length raw" "(ti, ri, pn) \<in> set both" and item: "pair_items (raw ! pn) = Inr (i, d)"
  shows "\<exists>m\<in>set ms. is_both m \<and> makes_pair i d m"
proof -
  have "raw \<noteq> []" using pn by auto
  from r raw this show ?thesis
  proof (cases rule: marked_row)
    case (Suffix es)
    then have raw': "raw = [JArr [obj_get (JObj es) (js ''inflected''), obj_get (JObj es) (js ''deinflected'')]]"
      using raw pairsOf_suffix by simp
    then have "pn = 0" using pn(1) by simp
    then have m: "ms = [put_field ''source'' (JStr (js ''both'')) (JObj es)]"
      using ms pn(2) Suffix by (simp add: mark_suffix marked_places_def)
    have "i = obj_get (JObj es) (js ''inflected'')" "d = obj_get (JObj es) (js ''deinflected'')"
      using item raw' \<open>pn = 0\<close> by (auto simp: pair_items_def iter_values_def)
    then show ?thesis using Suffix source_names unfolding m
      by (simp add: is_both_def makes_pair_def obj_get_put_field own_type_obj_get del: js_simps)
  next
    case (Cross es ps)
    let ?sel = "\<lambda>P. map (\<lambda>n. ps ! n) (filter P [0..<length ps])"
    have pn': "pn < length ps" "marked_places both ti ri pn" using pn Cross(8) by (auto simp: marked_places_def)
    have id: "ps ! pn = (i, d)"
      using item pn'(1) Cross(8) by (cases "ps ! pn") (simp add: pair_items_def iter_values_def)
    have "(i, d) \<in> set (?sel (marked_places both ti ri))" using pn' id by force
    moreover have "list_ex (marked_places both ti ri) [0..<length ps]" using pn' by (auto simp: list_ex_iff)
    ultimately have "both_rule (row_shape (JObj es)) (i, d) \<in> set ms"
      using ms unfolding Cross(1) using mark_cross [OF Cross(3,4,7)] by (auto simp del: js_simps)
    then show ?thesis using both_rule_fields [OF Cross(6,5,2)] unfolding makes_pair_def by blast
  qed
qed

section \<open>Transforms\<close>

lemma obj_get_array: "obj_get v (js ''rules'') = JArr rs \<Longrightarrow> \<exists>es. v = JObj es"
  by (cases v) (simp_all add: obj_get_def)

lemma rules_in_Inr: "rules_in t = Inr rs \<longleftrightarrow> obj_get t (js ''rules'') = JArr rs"
  by (simp add: rules_in_def)

definition transform_meaning :: "json \<Rightarrow> (jstr \<Rightarrow> json option) list" where
  "transform_meaning t = (case rules_in t of Inr rs \<Rightarrow> concat (map row_meaning rs) | Inl _ \<Rightarrow> [])"

lemma meaning_without_source:
  "row_meaning (JObj (without_key (js ''source'') es)) = row_meaning (JObj es)"
proof -
  have get: "obj_get (JObj (without_key (js ''source'') es)) k = obj_get (JObj es) k" if "k \<noteq> js ''source''" for k
    using that by (simp add: obj_get_JObj without_key_def map_of_filter_key)
  have un: "map_of (filter P (without_key (js ''source'') es)) k = map_of (filter P es) k" if "k \<noteq> js ''source''" for P k
  proof -
    have "map_of (filter P (filter (\<lambda>e. fst e \<noteq> k') xs)) k = map_of (filter P xs) k" if "k \<noteq> k'" for k' and xs :: rule_obj
      using that by (induction xs) auto
    from this [OF that] show ?thesis by (simp add: without_key_def)
  qed
  have sub: "unsourced (xs @ filter P (without_key (js ''source'') es)) = unsourced (xs @ filter P es)" for xs P
    using un [of _ P] by (auto simp: unsourced_def fun_eq_iff map_add_def simp del: js_simps split: option.splits)
  have sub3: "unsourced (x # y # z # filter P (without_key (js ''source'') es)) = unsourced (x # y # z # filter P es)" for x y z P
    using sub [of "[x, y, z]" P] by (simp del: js_simps)
  have "unsourced (without_key (js ''source'') es) = unsourced es" using sub [of "[]" "\<lambda>_. True"] by simp
  then show ?thesis
    unfolding row_meaning_def object_entries_JObj row_rules_def own_type_def
    using get [of "js ''type''"] get [of "js ''prefixes''"] get [of "js ''suffixes''"] source_names
    by (simp add: case_prod_unfold sub3 del: js_simps)
qed

lemma mark_transform_cases:
  assumes "mark_transform both (ti, t) = Inr t'"
  obtains es rules mss b where "t = JObj es" "obj_get t (js ''rules'') = JArr rules"
    "mapE (mark_rule both ti) (enum rules) = Inr mss"
    "b \<longleftrightarrow> list_all is_both (concat mss)"
    "t' = put_field ''rules'' (JArr (if b then map (\<lambda>r. JObj (without_key (js ''source'') (object_entries r))) (concat mss) else concat mss))
       (put_field ''source'' (JStr (js (if b then ''both'' else ''own''))) (JObj es))"
proof -
  obtain rules mss where "obj_get t (js ''rules'') = JArr rules" "mapE (mark_rule both ti) (enum rules) = Inr mss"
    "t' = put_field ''rules'' (JArr (if list_all is_both (concat mss)
        then map (\<lambda>r. JObj (without_key (js ''source'') (object_entries r))) (concat mss) else concat mss))
       (put_field ''source'' (JStr (js (if list_all is_both (concat mss) then ''both'' else ''own''))) t)"
    using assms unfolding mark_transform_def prod.case bindE_Inr_iff rules_in_Inr Let_def sum.inject by blast
  moreover then obtain es where "t = JObj es" using obj_get_array by blast
  ultimately show ?thesis using that by blast
qed

lemma put_field_object: "\<exists>es'. put_field k v t = JObj es'"
  by (simp add: put_field_def)

lemma marked_objects: "own_row r \<Longrightarrow> mark_rule both ti (ri, r) = Inr ms \<Longrightarrow> m \<in> set ms \<Longrightarrow> \<exists>es. m = JObj es"
  unfolding mark_rule_def own_row_def
  by (auto simp: Let_def put_field_def both_rule_def simp del: js_simps split: if_splits)

lemma put_rules_source:
  "obj_get (put_field ''rules'' v (put_field ''source'' w (JObj es))) k =
    (if k = js ''rules'' then v else if k = js ''source'' then w else obj_get (JObj es) k)"
  by (simp add: put_field_def obj_get_JObj del: js_simps)

lemma mark_rules_mset:
  assumes "list_all own_row rules" "mapE (mark_rule both ti) (enum rules) = Inr mss"
  shows "mset (concat (map row_meaning (concat mss))) = mset (concat (map row_meaning rules))"
proof -
  have "mset (concat (map row_meaning (concat mss))) = mset (concat (map row_meaning rules))"
    if "list_all2 (\<lambda>p ms. mark_rule both ti p = Inr ms) (zip ns rules) mss" "length ns = length rules" "list_all own_row rules" for ns
    using that
  proof (induction rules arbitrary: ns mss)
    case (Cons r rules)
    from Cons.prems obtain n ns' where ns: "ns = n # ns'" by (cases ns) auto
    from Cons.prems(1) obtain ms mss' where mss: "mss = ms # mss'" unfolding ns by (cases mss) auto
    have "mark_rule both ti (n, r) = Inr ms" using Cons.prems(1) unfolding ns mss by simp
    then show ?case using Cons.IH [of ns' mss'] Cons.prems mark_rule_keeps [of r both ti n ms] unfolding ns mss by simp
  qed simp
  from this [OF mapE_Inr [OF assms(2), unfolded enum_def]] show ?thesis using assms(1) by simp
qed

lemma mark_transform_keeps:
  assumes t': "mark_transform both (ti, t) = Inr t'" and own: "\<And>rs. rules_in t = Inr rs \<Longrightarrow> list_all own_row rs"
  shows "mset (transform_meaning t') = mset (transform_meaning t)"
    "k \<notin> {js ''rules'', js ''source''} \<Longrightarrow> obj_get t' k = obj_get t k"
proof -
  obtain es rules mss b where t: "t = JObj es" "obj_get t (js ''rules'') = JArr rules"
    "mapE (mark_rule both ti) (enum rules) = Inr mss" "b \<longleftrightarrow> list_all is_both (concat mss)"
    "t' = put_field ''rules'' (JArr (if b then map (\<lambda>r. JObj (without_key (js ''source'') (object_entries r))) (concat mss) else concat mss))
       (put_field ''source'' (JStr (js (if b then ''both'' else ''own''))) (JObj es))"
    using t' by (rule mark_transform_cases)
  show "k \<notin> {js ''rules'', js ''source''} \<Longrightarrow> obj_get t' k = obj_get t k"
    unfolding t(5) put_rules_source t(1) by (simp del: js_simps)
  have rows: "list_all own_row rules" using own t(2) by (simp add: rules_in_Inr)
  have objs: "\<exists>es. m = JObj es" if "m \<in> set (concat mss)" for m
  proof -
    obtain ms where ms: "ms \<in> set mss" "m \<in> set ms"
      using \<open>m \<in> set (concat mss)\<close> unfolding set_concat by blast
    then obtain p where p: "p \<in> set (enum rules)" "mark_rule both ti p = Inr ms" using mapE_set [OF t(3)] by blast
    then have "snd p \<in> set rules" by (metis enum_set nth_mem prod.collapse)
    then show ?thesis using rows marked_objects [of "snd p" both ti "fst p" ms m] ms(2) p(2) by (auto simp: list_all_iff)
  qed
  have same: "map row_meaning (map (\<lambda>r. JObj (without_key (js ''source'') (object_entries r))) (concat mss)) = map row_meaning (concat mss)"
    unfolding map_map o_def
  proof (rule map_cong [OF refl])
    fix m assume "m \<in> set (concat mss)"
    then obtain es where "m = JObj es" using objs by blast
    then show "row_meaning (JObj (without_key (js ''source'') (object_entries m))) = row_meaning m"
      using meaning_without_source by (simp del: js_simps)
  qed
  have "transform_meaning t' = concat (map row_meaning (if b then map (\<lambda>r. JObj (without_key (js ''source'') (object_entries r))) (concat mss) else concat mss))"
    unfolding transform_meaning_def rules_in_def t(5) put_rules_source by (simp add: array_items_def del: js_simps)
  also have "\<dots> = concat (map row_meaning (concat mss))"
    by (cases b) (simp_all only: if_True if_False same)
  finally show "mset (transform_meaning t') = mset (transform_meaning t)"
    using mark_rules_mset [OF rows t(3)] t(2) by (simp add: transform_meaning_def rules_in_def array_items_def del: js_simps)
qed

lemma mark_transform_both:
  assumes t': "mark_transform both (ti, t) = Inr t'" and rules: "rules_in t = Inr rules" "list_all own_row rules"
    and r: "ri < length rules" and raw: "pairsOf (rules ! ri) = Inr raw"
    and pn: "pn < length raw" "(ti, ri, pn) \<in> set both" and item: "pair_items (raw ! pn) = Inr (i, d)"
  shows "\<exists>rs. rules_in t' = Inr rs \<and> (\<exists>m\<in>set rs. source_of t' m = JStr (js ''both'') \<and> makes_pair i d m)"
proof -
  obtain es rules' mss b where t: "t = JObj es" "obj_get t (js ''rules'') = JArr rules'"
    "mapE (mark_rule both ti) (enum rules') = Inr mss" "b \<longleftrightarrow> list_all is_both (concat mss)"
    "t' = put_field ''rules'' (JArr (if b then map (\<lambda>r. JObj (without_key (js ''source'') (object_entries r))) (concat mss) else concat mss))
       (put_field ''source'' (JStr (js (if b then ''both'' else ''own''))) (JObj es))"
    using t' by (rule mark_transform_cases)
  have [simp]: "rules' = rules" using rules(1) t(2) by (simp add: rules_in_Inr)
  have row: "own_row (rules ! ri)" using rules(2) r by (simp add: list_all_length)
  have "(ri, rules ! ri) \<in> set (enum rules)" using r by (simp add: enum_set)
  then obtain ms where ms: "ms \<in> set mss" "mark_rule both ti (ri, rules ! ri) = Inr ms"
    using mapE_Inr_all [OF t(3)] by auto
  obtain m where m: "m \<in> set ms" "is_both m" "makes_pair i d m"
    using mark_rule_both [OF row ms(2) raw pn item] by blast
  then have mem: "m \<in> set (concat mss)" using ms(1) by auto
  obtain fs where fs: "m = JObj fs" using marked_objects [OF row ms(2) m(1)] by blast
  show ?thesis
  proof (cases b)
    case True
    let ?m = "JObj (without_key (js ''source'') fs)"
    have get: "obj_get ?m k = (if k = js ''source'' then JUndef else obj_get m k)" for k
      unfolding fs by (simp add: obj_get_JObj without_key_def map_of_filter_key)
    have "?m \<in> set (map (\<lambda>r. JObj (without_key (js ''source'') (object_entries r))) (concat mss))"
      using mem fs unfolding set_map by (force simp del: set_concat)
    moreover have "makes_pair i d ?m" using m(3) source_names by (simp add: makes_pair_def get del: js_simps)
    moreover have "source_of t' ?m = JStr (js ''both'')"
      unfolding source_of_def Let_def get t(5) put_rules_source using True source_names by (simp del: js_simps)
    ultimately show ?thesis unfolding rules_in_Inr t(5) put_rules_source
      by (simp only: if_True True simp_thms) blast
  next
    case False
    have "source_of t' m = JStr (js ''both'')"
      using m(2) by (simp add: source_of_def is_both_def del: js_simps)
    then show ?thesis using False mem m(3) unfolding rules_in_Inr t(5) put_rules_source
      by (intro exI conjI bexI [of _ m]) (simp_all del: js_simps set_concat)
  qed
qed

definition final_own :: "json list \<Rightarrow> fates \<Rightarrow> json list \<Rightarrow> bool" where
  "final_own own_ts s ts \<longleftrightarrow> mapE (mark_transform (ft_both s)) (enum own_ts) = Inr ts"

lemma case_error_Inr: "(case v of Inl _ \<Rightarrow> Inl e | Inr x \<Rightarrow> Inr (f x)) = Inr y \<longleftrightarrow> (\<exists>x. v = Inr x \<and> f x = y)"
  by (cases v) auto

lemma build_finalE:
  assumes "build_final own yomitan = Inr b"
  obtains un own_ts ts where "mergeTransforms own yomitan = Inr un" "transform_list yomitan = Inr (fb_yomitan b)"
    "transform_list own = Inr own_ts"
    "all_fates (object_entries (obj_get (md_file un) (js ''conditions''))) own_ts (fb_yomitan b) = Inr (fb_fates b)"
    "final_own own_ts (fb_fates b) ts" "fb_transforms b = ts @ map kept_transform (ft_kept (fb_fates b))"
proof -
  obtain un where un: "mergeTransforms own yomitan = Inr un"
    using assms by (cases "mergeTransforms own yomitan") (simp_all add: build_final_def)
  obtain counts yomitan_ts own_ts s ts ts' out where parts: "transform_list yomitan = Inr yomitan_ts" "transform_list own = Inr own_ts"
    "all_fates (object_entries (obj_get (md_file un) (js ''conditions''))) own_ts yomitan_ts = Inr s"
    "final_own own_ts s ts" "ts' = ts @ map kept_transform (ft_kept s)"
    "b = \<lparr>fb_yomitan = yomitan_ts, fb_union = counts, fb_fates = s, fb_transforms = ts', fb_text = out\<rparr>"
    using assms un unfolding build_final_def final_own_def final_transforms_def
    by (auto simp: case_error_Inr simp del: js_simps)
  show ?thesis by (rule that [OF un]) (use parts in simp_all)
qed

lemma build_final_run:
  assumes "build_final own yomitan = Inr b" "transform_list own = Inr own_ts"
  obtains conds ts where "all_fates conds own_ts (fb_yomitan b) = Inr (fb_fates b)" "final_own own_ts (fb_fates b) ts"
    "fb_transforms b = ts @ map kept_transform (ft_kept (fb_fates b))"
  using assms(1)
proof (rule build_finalE)
  fix un own_ts' ts
  assume "transform_list own = Inr own_ts'" "final_own own_ts' (fb_fates b) ts"
    "all_fates (object_entries (obj_get (md_file un) (js ''conditions''))) own_ts' (fb_yomitan b) = Inr (fb_fates b)"
    "fb_transforms b = ts @ map kept_transform (ft_kept (fb_fates b))"
  moreover from this have "own_ts' = own_ts" using assms(2) by simp
  ultimately show thesis using that by blast
qed

lemma final_own_nth:
  assumes "final_own own_ts s ts"
  shows "length ts = length own_ts" "ti < length own_ts \<Longrightarrow> mark_transform (ft_both s) (ti, own_ts ! ti) = Inr (ts ! ti)"
proof -
  have l: "list_all2 (\<lambda>x y. mark_transform (ft_both s) x = Inr y) (enum own_ts) ts"
    using assms unfolding final_own_def by (rule mapE_Inr)
  then show "length ts = length own_ts" using list_all2_lengthD [OF l] by (simp add: enum_def)
  show "ti < length own_ts \<Longrightarrow> mark_transform (ft_both s) (ti, own_ts ! ti) = Inr (ts ! ti)"
    using l by (auto dest!: list_all2_nthD [of _ _ _ ti] simp: enum_def)
qed

section \<open>The fate of every rule\<close>

definition kept_of :: "fates \<Rightarrow> jstr \<Rightarrow> json list" where
  "kept_of s i = (case map_of (ft_kept s) i of Some (t, rules) \<Rightarrow> rules | None \<Rightarrow> [])"

text \<open>A rule of Yomitan's stays when the own rules do not repeat it and it is not left out, or when it is in \<open>KEEP\<close>.\<close>

definition stays :: "(jstr \<times> json) list \<Rightarrow> json list \<Rightarrow> json \<Rightarrow> json \<Rightarrow> bool" where
  "stays conds own_ts t y =
     (let i = to_js (obj_get t (js ''id'')); name = rule_name i y in
      case bindE (category_of i) (\<lambda>c. repeats conds own_ts c y) of
        Inr [] \<Rightarrow> map_of LEFT_OUT name = None | Inr (_ # _) \<Rightarrow> name \<in> set KEEP | Inl _ \<Rightarrow> False)"

definition final_id :: "json \<Rightarrow> jstr" where
  "final_id t = to_js (obj_get t (js ''id''))"

definition kept_ok :: "fates \<Rightarrow> bool" where
  "kept_ok s \<longleftrightarrow> om_wf (ft_kept s) \<and> (\<forall>(i, t, rules)\<in>set (ft_kept s). final_id t = i \<and> (\<exists>es. t = JObj es))"

lemma keep_rule_simps [simp]:
  "ft_both (keep_rule i t y s) = ft_both s" "ft_rows (keep_rule i t y s) = ft_rows s"
  "ft_matched (keep_rule i t y s) = ft_matched s" "ft_leftOut (keep_rule i t y s) = ft_leftOut s"
  "ft_names (keep_rule i t y s) = ft_names s"
  by (simp_all add: keep_rule_def)

lemma kept_of_keep_rule: "kept_of (keep_rule i t y s) j = (if j = i then kept_of s i @ [y] else kept_of s j)"
  by (auto simp: kept_of_def keep_rule_def split: option.splits)

lemma kept_ok_keep_rule:
  assumes "kept_ok s" "final_id t = i" "\<exists>es. t = JObj es"
  shows "kept_ok (keep_rule i t y s)"
proof (cases "map_of (ft_kept s) i")
  case None
  then show ?thesis using assms by (auto simp: kept_ok_def keep_rule_def om_wf_set dest!: set_om_set)
next
  case (Some p)
  obtain t0 rules where p: "p = (t0, rules)" by (cases p)
  have "(i, t0, rules) \<in> set (ft_kept s)" using Some p by (simp add: map_of_SomeD)
  then show ?thesis using assms Some p by (auto simp: kept_ok_def keep_rule_def om_wf_set dest!: set_om_set)
qed

lemma stays_simps:
  assumes "category_of (final_id t) = Inr c" "repeats conds own_ts c y = Inr hits"
  shows "stays conds own_ts t y \<longleftrightarrow>
    (if hits \<noteq> [] then rule_name (final_id t) y \<in> set KEEP else map_of LEFT_OUT (rule_name (final_id t) y) = None)"
  using assms by (cases hits) (simp_all add: stays_def final_id_def Let_def)

text \<open>One step of the loop.\<close>

definition fate_step :: "(jstr \<times> json) list \<Rightarrow> json list \<Rightarrow> json \<Rightarrow> category \<Rightarrow> fates \<Rightarrow> json \<Rightarrow> fates \<Rightarrow> bool" where
  "fate_step conds own_ts t c s y s' \<longleftrightarrow>
     (\<exists>hits. repeats conds own_ts c y = Inr hits \<and> set (ft_both s') = snd ` set hits \<union> set (ft_both s) \<and>
       (stays conds own_ts t y \<or> hits \<noteq> [] \<or> map_of LEFT_OUT (rule_name (final_id t) y) \<noteq> None)) \<and>
     (\<forall>j. kept_of s' j = kept_of s j @ (if j = final_id t \<and> stays conds own_ts t y then [y] else [])) \<and>
     length (ft_rows s') = Suc (length (ft_rows s)) \<and>
     ((\<exists>es. t = JObj es) \<and> kept_ok s \<longrightarrow> kept_ok s')"

lemma ls_of_Nil_iff: "ls_of xs = [] \<longleftrightarrow> xs = []"
proof -
  have "set (ls_of xs) = set xs" by (simp add: ls_of_def fold_ls_add_set)
  then show ?thesis by (metis set_empty)
qed

lemma kept_of_update [simp]:
  "kept_of (s\<lparr>ft_both := b\<rparr>) = kept_of s" "kept_of (s\<lparr>ft_names := n\<rparr>) = kept_of s" "kept_of (s\<lparr>ft_rows := r\<rparr>) = kept_of s"
  "kept_of (s\<lparr>ft_matched := m\<rparr>) = kept_of s" "kept_of (s\<lparr>ft_leftOut := l\<rparr>) = kept_of s"
  "kept_ok (s\<lparr>ft_both := b\<rparr>) = kept_ok s" "kept_ok (s\<lparr>ft_names := n\<rparr>) = kept_ok s" "kept_ok (s\<lparr>ft_rows := r\<rparr>) = kept_ok s"
  "kept_ok (s\<lparr>ft_matched := m\<rparr>) = kept_ok s" "kept_ok (s\<lparr>ft_leftOut := l\<rparr>) = kept_ok s"
  by (simp_all add: kept_of_def kept_ok_def fun_eq_iff)

lemma rule_fate_step:
  assumes s': "rule_fate conds own_ts t c s (n, y) = Inr s'" and c: "category_of (final_id t) = Inr c"
  shows "fate_step conds own_ts t c s y s'"
proof -
  let ?i = "final_id t" and ?name = "rule_name (final_id t) y"
  obtain hits row where hits: "repeats conds own_ts c y = Inr hits"
    and s'': "s' = (let s1 = s\<lparr>ft_both := fold ls_add (map snd hits) (ft_both s),
           ft_names := (if map_of LEFT_OUT ?name \<noteq> None \<or> ?name \<in> set KEEP then ls_add ?name (ft_names s) else ft_names s)\<rparr>;
         s2 = (if hits \<noteq> []
           then (let m = s1\<lparr>ft_matched := Suc (ft_matched s1)\<rparr> in if ?name \<in> set KEEP then keep_rule ?i t y m else m)
           else case map_of LEFT_OUT ?name of
               Some fate \<Rightarrow> s1\<lparr>ft_leftOut := ft_leftOut s1 @ [(?i, y, fate)]\<rparr>
             | None \<Rightarrow> keep_rule ?i t y s1)
     in s2\<lparr>ft_rows := ft_rows s2 @ [row]\<rparr>)"
    using s' unfolding rule_fate_def prod.case Let_def final_id_def [symmetric] ls_of_Nil_iff
    by (auto simp: ls_of_Nil_iff)
  note stays = stays_simps [OF c hits]
  show ?thesis
  proof (cases "hits \<noteq> []")
    case True
    show ?thesis using hits True unfolding fate_step_def s'' Let_def stays
      by (cases "?name \<in> set KEEP") (auto simp: kept_of_keep_rule kept_ok_keep_rule fold_ls_add_set)
  next
    case False
    then show ?thesis using hits unfolding fate_step_def s'' Let_def stays
      by (cases "map_of LEFT_OUT ?name") (auto simp: kept_of_keep_rule kept_ok_keep_rule fold_ls_add_set)
  qed
qed

text \<open>Every place where an own rule repeats a rule is marked, and a rule that does not stay is repeated or left out.\<close>

definition accounted :: "(jstr \<times> json) list \<Rightarrow> json list \<Rightarrow> fates \<Rightarrow> json \<Rightarrow> json \<Rightarrow> bool" where
  "accounted conds own_ts s t y \<longleftrightarrow>
     (\<exists>c hits. category_of (final_id t) = Inr c \<and> repeats conds own_ts c y = Inr hits \<and> snd ` set hits \<subseteq> set (ft_both s) \<and>
       (stays conds own_ts t y \<or> hits \<noteq> [] \<or> map_of LEFT_OUT (rule_name (final_id t) y) \<noteq> None))"

lemma accounted_mono: "accounted conds own_ts s t y \<Longrightarrow> set (ft_both s) \<subseteq> set (ft_both s') \<Longrightarrow> accounted conds own_ts s' t y"
  unfolding accounted_def by blast

lemma step_accounted:
  assumes "fate_step conds own_ts t c s y s'" "category_of (final_id t) = Inr c"
  shows "accounted conds own_ts s' t y" "set (ft_both s) \<subseteq> set (ft_both s')"
  using assms unfolding fate_step_def accounted_def by blast+

text \<open>What a run of the loop over rules leaves of the state it began with.\<close>

definition run_ok :: "(jstr \<times> json) list \<Rightarrow> json list \<Rightarrow> (json \<times> json) list \<Rightarrow> fates \<Rightarrow> fates \<Rightarrow> bool" where
  "run_ok conds own_ts tys s s' \<longleftrightarrow>
     set (ft_both s) \<subseteq> set (ft_both s') \<and> (\<forall>(t, y)\<in>set tys. accounted conds own_ts s' t y) \<and>
     (\<forall>j. kept_of s' j = kept_of s j @ map snd (filter (\<lambda>(t, y). final_id t = j \<and> stays conds own_ts t y) tys)) \<and>
     length (ft_rows s') = length (ft_rows s) + length tys \<and> (kept_ok s \<longrightarrow> kept_ok s')"

lemma run_ok_Nil: "run_ok conds own_ts [] s s"
  by (simp add: run_ok_def)

lemma run_ok_append:
  assumes "run_ok conds own_ts xs s s1" "run_ok conds own_ts ys s1 s2"
  shows "run_ok conds own_ts (xs @ ys) s s2"
  using assms accounted_mono [of conds own_ts s1 _ _ s2] unfolding run_ok_def by fastforce

lemma run_ok_step:
  assumes "fate_step conds own_ts t c s y s'" "category_of (final_id t) = Inr c" "\<exists>es. t = JObj es"
  shows "run_ok conds own_ts [(t, y)] s s'"
  using assms(1,3) step_accounted [OF assms(1,2)] unfolding run_ok_def fate_step_def by simp

lemma rules_run:
  assumes "foldE (rule_fate conds own_ts t c) s ps = Inr s'" "category_of (final_id t) = Inr c" "\<exists>es. t = JObj es"
  shows "run_ok conds own_ts (map (Pair t) (map snd ps)) s s'"
  using assms(1)
proof (induction ps arbitrary: s)
  case Nil
  then show ?case by (simp add: run_ok_Nil)
next
  case (Cons p ps)
  obtain n y where p: "p = (n, y)" by (cases p)
  obtain s1 where s1: "rule_fate conds own_ts t c s (n, y) = Inr s1" "foldE (rule_fate conds own_ts t c) s1 ps = Inr s'"
    using Cons.prems unfolding p by auto
  show ?case
    using run_ok_append [OF run_ok_step [OF rule_fate_step [OF s1(1) assms(2)] assms(2,3)] Cons.IH [OF s1(2)]] by (simp add: p)
qed

definition rules_list :: "json \<Rightarrow> json list" where
  "rules_list t = (case rules_in t of Inr rs \<Rightarrow> rs | Inl _ \<Rightarrow> [])"

definition all_rules :: "json list \<Rightarrow> (json \<times> json) list" where
  "all_rules ts = concat (map (\<lambda>t. map (Pair t) (rules_list t)) ts)"

lemma fates_run:
  "foldE (transform_fates conds own_ts) s ts = Inr s' \<Longrightarrow> run_ok conds own_ts (all_rules ts) s s'"
proof (induction ts arbitrary: s)
  case Nil
  then show ?case by (simp add: run_ok_Nil all_rules_def)
next
  case (Cons t ts)
  obtain s1 where s1: "transform_fates conds own_ts s t = Inr s1" "foldE (transform_fates conds own_ts) s1 ts = Inr s'"
    using Cons.prems by auto
  obtain c rules where cr: "category_of (final_id t) = Inr c" "rules_in t = Inr rules"
    "foldE (rule_fate conds own_ts t c) s (enum rules) = Inr s1"
    using s1(1) unfolding transform_fates_def final_id_def by auto
  have obj: "\<exists>es. t = JObj es" by (rule obj_get_array) (use cr(2) in \<open>simp only: rules_in_Inr\<close>)
  have "rules_list t = rules" by (simp add: rules_list_def cr(2))
  then show ?case using run_ok_append [OF rules_run [OF cr(3,1) obj] Cons.IH [OF s1(2)]] by (simp add: all_rules_def)
qed

section \<open>What a repeated rule is\<close>

lemma strict_eq_eq: "strict_eq v w \<Longrightarrow> v = w"
  by (simp add: strict_eq_def)

lemma rule_repeats_mem:
  assumes "rule_repeats conds y r = Inr pns" "pn \<in> set pns"
  shows "\<exists>raw. pairsOf r = Inr raw \<and> pn < length raw \<and>
    pair_items (raw ! pn) = Inr (obj_get y (js ''inflected''), obj_get y (js ''deinflected''))"
proof -
  obtain raw ps where raw: "pairsOf r = Inr raw" "mapE pair_items raw = Inr ps"
    and pns: "pns = map fst (filter (\<lambda>(pn, i, d). strict_eq i (obj_get y (js ''inflected'')) \<and>
      strict_eq d (obj_get y (js ''deinflected''))) (enum ps))"
    using assms unfolding rule_repeats_def by (auto simp del: js_simps split: if_splits)
  have len: "length ps = length raw" using mapE_length [OF raw(2)] .
  obtain i d where id: "(pn, i, d) \<in> set (enum ps)" "strict_eq i (obj_get y (js ''inflected''))" "strict_eq d (obj_get y (js ''deinflected''))"
    using assms(2) unfolding pns by (auto simp del: js_simps)
  then have "pn < length ps" "ps ! pn = (obj_get y (js ''inflected''), obj_get y (js ''deinflected''))"
    using strict_eq_eq by (auto simp: enum_set simp del: js_simps)
  then show ?thesis using raw(1) list_all2_nthD [OF mapE_Inr [OF raw(2)], of pn] len by (auto simp del: js_simps)
qed

lemma repeats_mem:
  assumes hits: "repeats conds own_ts c y = Inr hits" and h: "(i, ti, ri, pn) \<in> set hits"
  shows "\<exists>rules raw. ti < length own_ts \<and> rules_in (own_ts ! ti) = Inr rules \<and> ri < length rules \<and> pairsOf (rules ! ri) = Inr raw \<and>
    pn < length raw \<and> pair_items (raw ! pn) = Inr (obj_get y (js ''inflected''), obj_get y (js ''deinflected''))"
proof -
  obtain found where found: "mapE (transform_repeats conds c y) (enum own_ts) = Inr found" "hits = concat found"
    using hits unfolding repeats_def by auto
  then obtain hs where "hs \<in> set found" "(i, ti, ri, pn) \<in> set hs" using h by auto
  then obtain p where p: "p \<in> set (enum own_ts)" "transform_repeats conds c y p = Inr hs" using mapE_set [OF found(1)] by blast
  obtain ti' own_t where p': "p = (ti', own_t)" by (cases p)
  obtain rules rss where rules: "rules_in own_t = Inr rules"
    and rss: "mapE (\<lambda>(ri, r). bindE (rule_repeats conds y r) (\<lambda>pns.
         Inr (map (\<lambda>pn. (to_js (obj_get own_t (js ''id'')), (ti', ri, pn))) pns))) (enum rules) = Inr rss" and hs: "hs = concat rss"
    using p(2) \<open>(i, ti, ri, pn) \<in> set hs\<close> unfolding transform_repeats_def p' by (auto simp: Let_def simp del: js_simps split: if_splits)
  obtain rs where "rs \<in> set rss" "(i, ti, ri, pn) \<in> set rs" using \<open>(i, ti, ri, pn) \<in> set hs\<close> hs by auto
  then obtain ri' r pns where r: "(ri', r) \<in> set (enum rules)" "rule_repeats conds y r = Inr pns"
    "rs = map (\<lambda>pn. (to_js (obj_get own_t (js ''id'')), (ti', ri', pn))) pns"
    using mapE_set [OF rss] by (fastforce simp del: js_simps)
  have eq: "ti = ti'" "ri = ri'" "pn \<in> set pns" using \<open>(i, ti, ri, pn) \<in> set rs\<close> r(3) by auto
  have "ti < length own_ts" "own_ts ! ti = own_t" "ri < length rules" "rules ! ri = r"
    using p(1) r(1) unfolding p' eq by (auto simp: enum_set)
  then show ?thesis using rules rule_repeats_mem [OF r(2) eq(3)] by auto
qed

section \<open>The final set\<close>

text \<open>C14: The final set has every own rule and no other in the transforms of the own set: each own transform is followed by
  one with the same identifier and other fields, whose rows stand for the same rules with the same multiplicity, when the
  source a rule is marked with is left aside; Yomitan's transforms come after them.\<close>

theorem final_keeps_own:
  assumes "build_final own yomitan = Inr b" and "transform_list own = Inr own_ts"
    and "\<And>t rs. t \<in> set own_ts \<Longrightarrow> rules_in t = Inr rs \<Longrightarrow> list_all own_row rs"
  shows "\<exists>ts. fb_transforms b = ts @ map kept_transform (ft_kept (fb_fates b)) \<and>
    list_all2 (\<lambda>t t'. mset (transform_meaning t') = mset (transform_meaning t) \<and>
      (\<forall>k. k \<notin> {js ''rules'', js ''source''} \<longrightarrow> obj_get t' k = obj_get t k)) own_ts ts"
proof -
  obtain ts where ts: "final_own own_ts (fb_fates b) ts" "fb_transforms b = ts @ map kept_transform (ft_kept (fb_fates b))"
    by (rule build_final_run [OF assms(1,2)])
  have same: "mset (transform_meaning (ts ! n)) = mset (transform_meaning (own_ts ! n)) \<and>
      (\<forall>k. k \<notin> {js ''rules'', js ''source''} \<longrightarrow> obj_get (ts ! n) k = obj_get (own_ts ! n) k)" if n: "n < length own_ts" for n
  proof (intro conjI allI impI)
    show "mset (transform_meaning (ts ! n)) = mset (transform_meaning (own_ts ! n))"
      by (rule mark_transform_keeps(1) [OF final_own_nth(2) [OF ts(1) n]]) (rule assms(3) [OF nth_mem [OF n]])
    show "obj_get (ts ! n) k = obj_get (own_ts ! n) k" if "k \<notin> {js ''rules'', js ''source''}" for k
      by (rule mark_transform_keeps(2) [OF final_own_nth(2) [OF ts(1) n] _ that]) (rule assms(3) [OF nth_mem [OF n]])
  qed
  show ?thesis
    by (rule exI [of _ ts], rule conjI [OF ts(2)], rule list_all2_all_nthI)
      (simp only: final_own_nth(1) [OF ts(1)], rule same)
qed


definition ending_rule :: "string \<Rightarrow> string \<Rightarrow> json" where
  "ending_rule i d = JObj [(js ''type'', JStr (js ''suffix'')), (js ''inflected'', JStr (js i)), (js ''deinflected'', JStr (js d)),
     (js ''conditionsIn'', JArr []), (js ''conditionsOut'', JArr [JStr (js ''n'')])]"

definition ending_rows :: json where
  "ending_rows = JObj [(js ''type'', JStr (js ''circumfix'')), (js ''prefixes'', JArr [JArr [JStr [], JStr []]]),
     (js ''suffixes'', JArr [JArr [JStr (js ''u''), JStr (js ''s'')], JArr [JStr (js ''o''), JStr (js ''s'')]]),
     (js ''conditionsIn'', JArr []), (js ''conditionsOut'', JArr [JStr (js ''n'')])]"

definition rule_set :: "string \<Rightarrow> json list \<Rightarrow> json" where
  "rule_set i rules = JObj [(js ''schema'', JNum 1),
     (js ''conditions'', JObj [(js ''n'', JObj [(js ''name'', JStr (js ''Noun'')), (js ''isDictionaryForm'', JBool True)])]),
     (js ''transforms'', JArr [JObj [(js ''id'', JStr (js i)), (js ''name'', JStr (js ''genitive'')), (js ''rules'', JArr rules)]])]"

definition sample_own :: json where
  "sample_own = rule_set ''gen-sg'' [ending_rows, ending_rule ''x'' ''y'']"

definition sample_yomitan :: json where
  "sample_yomitan = rule_set ''genitive singular'' [ending_rule ''u'' ''s'', ending_rule ''k'' ''s'']"

lemma sample_built: "\<exists>b. build_final sample_own sample_yomitan = Inr b \<and> (\<exists>t\<in>set (fb_yomitan b). ending_rule ''u'' ''s'' \<in> set (rules_list t))"
proof -
  have "case build_final sample_own sample_yomitan of
      Inr b \<Rightarrow> list_ex (\<lambda>t. list_ex (\<lambda>r. r = ending_rule ''u'' ''s'') (rules_list t)) (fb_yomitan b) | Inl e \<Rightarrow> False"
    by code_simp
  then show ?thesis by (auto simp: list_ex_iff split: sum.splits)
qed

lemma sample_rows:
  assumes "transform_list sample_own = Inr own_ts" "t \<in> set own_ts" "rules_in t = Inr rs"
  shows "list_all own_row rs"
proof -
  have pairs: "\<exists>ps. JArr [JArr [a, b], JArr [c, d]] = JArr (map (\<lambda>(i, d). JArr [i, d]) ps)" for a b c d
    by (rule exI [of _ "[(a, b), (c, d)]"]) simp
  have "own_row ending_rows"
    unfolding own_row_def ending_rows_def cross_ok_def
    by (rule exI, rule conjI [OF refl]) (use pairs in \<open>simp add: obj_get_JObj\<close>)
  moreover have "own_row (ending_rule i d)" for i d
    unfolding own_row_def ending_rule_def cross_ok_def
    by (rule exI, rule conjI [OF refl]) (simp add: own_type_def obj_get_JObj)
  ultimately show ?thesis using assms
    by (auto simp: sample_own_def rule_set_def transform_list_def array_items_def obj_get_JObj rules_in_def)
qed

lemma final_keeps_own_witness:
  "\<exists>b own_ts. build_final sample_own sample_yomitan = Inr b \<and> transform_list sample_own = Inr own_ts \<and>
    (\<exists>ts. fb_transforms b = ts @ map kept_transform (ft_kept (fb_fates b)) \<and>
      list_all2 (\<lambda>t t'. mset (transform_meaning t') = mset (transform_meaning t) \<and>
        (\<forall>k. k \<notin> {js ''rules'', js ''source''} \<longrightarrow> obj_get t' k = obj_get t k)) own_ts ts)"
proof -
  obtain b where b: "build_final sample_own sample_yomitan = Inr b" using sample_built by blast
  obtain own_ts where own_ts: "transform_list sample_own = Inr own_ts" using b by (rule build_finalE)
  have rows: "list_all own_row rs" if "t \<in> set own_ts" "rules_in t = Inr rs" for t rs
    by (rule sample_rows [OF own_ts that])
  show ?thesis
    by (rule exI, rule exI, rule conjI [OF b], rule conjI [OF own_ts], rule final_keeps_own [OF b own_ts], rule rows)
qed


end
