(* ===== verification/Deinflector.thy ===== *)
theory Deinflector
  imports Class_Set Own_Rules
begin

text \<open>
  The stem constraints of a rule and the application of the rules with literal affixes, as the JavaScript model of the
  pack deinflector has them (tools/test/stub/model.mjs), and as docs/languages.md 7.3 describes them.

  \<open>m\<close> is \<open>classes.matcher\<close> on the classes the rules name, which compiling the rules has shown to be valid. A rule's
  minimum is a number; rules with \<open>stemChange\<close> or \<open>then\<close> are left aside.
\<close>

type_synonym class_test = "jstr \<Rightarrow> int \<Rightarrow> bool"

definition cpLength :: "jstr \<Rightarrow> nat" where
  "cpLength s = length (cps s)"

definition firstCp :: "jstr \<Rightarrow> int option" where
  "firstCp s = cp_first s"

definition lastCp :: "jstr \<Rightarrow> int option" where
  "lastCp s =
     (if s = [] then None
      else if is_low (last s) \<and> 2 \<le> length s then cp_at s (length s - 2)
      else Some (last s))"

definition rule_field :: "rule_obj \<Rightarrow> string \<Rightarrow> json" where
  "rule_field r k = obj_get (JObj r) (js k)"

definition text_field :: "rule_obj \<Rightarrow> string \<Rightarrow> jstr option" where
  "text_field r k = (case rule_field r k of JStr s \<Rightarrow> Some s | _ \<Rightarrow> None)"

text \<open>\<open>rule.stemMinLength ?? 0\<close>\<close>

definition min_length :: "rule_obj \<Rightarrow> int" where
  "min_length r = (case rule_field r ''stemMinLength'' of JNum n \<Rightarrow> n | _ \<Rightarrow> 0)"

text \<open>A constraint a rule does not have holds.\<close>

definition when_field :: "rule_obj \<Rightarrow> string \<Rightarrow> (jstr \<Rightarrow> bool) \<Rightarrow> bool" where
  "when_field r k P = (case text_field r k of Some s \<Rightarrow> P s | None \<Rightarrow> True)"

text \<open>\<open>#stemOk(rule, stem)\<close>\<close>

definition stem_ok :: "class_test \<Rightarrow> rule_obj \<Rightarrow> jstr \<Rightarrow> bool" where
  "stem_ok m r stem \<longleftrightarrow>
     min_length r \<le> int (cpLength stem) \<and>
     when_field r ''stemCharacters'' (\<lambda>c. list_all (m c) (cp_values stem)) \<and>
     when_field r ''stemContains'' (\<lambda>c. list_ex (m c) (cp_values stem)) \<and>
     when_field r ''stemStartsWith'' (\<lambda>c. case firstCp stem of Some u \<Rightarrow> m c u | None \<Rightarrow> False) \<and>
     when_field r ''stemEndsWith'' (\<lambda>c. case lastCp stem of Some u \<Rightarrow> m c u | None \<Rightarrow> False) \<and>
     when_field r ''stemNotStartsWith'' (\<lambda>c. case firstCp stem of Some u \<Rightarrow> \<not> m c u | None \<Rightarrow> True) \<and>
     when_field r ''stemNotEndsWith'' (\<lambda>c. case lastCp stem of Some u \<Rightarrow> \<not> m c u | None \<Rightarrow> True) \<and>
     when_field r ''stemStartsWithText'' (\<lambda>p. starts_with stem p) \<and>
     when_field r ''stemNotStartsWithText'' (\<lambda>p. \<not> starts_with stem p)"

definition affix :: "rule_obj \<Rightarrow> string \<Rightarrow> jstr" where
  "affix r k = (case text_field r k of Some s \<Rightarrow> s | None \<Rightarrow> [])"

text \<open>\<open>apply(rule, text)\<close> for suffix, prefix, whole-word and circumfix rules.\<close>

definition apply_rule :: "class_test \<Rightarrow> rule_obj \<Rightarrow> jstr \<Rightarrow> jstr option" where
  "apply_rule m r s =
     (let type = rule_field r ''type''; i = affix r ''inflected''; d = affix r ''deinflected'' in
      if type = JStr (js ''suffix'') then
        (let stem = slice s 0 (length s - length i)
         in if ends_with s i \<and> stem_ok m r stem then Some (stem @ d) else None)
      else if type = JStr (js ''prefix'') then
        (let stem = drop (length i) s in if starts_with s i \<and> stem_ok m r stem then Some (d @ stem) else None)
      else if type = JStr (js ''wholeWord'') then (if s = i then Some d else None)
      else if type = JStr (js ''circumfix'') then
        (let p = affix r ''inflectedPrefix''; q = affix r ''inflectedSuffix''; stem = slice s (length p) (length s - length q)
         in if length p + length q \<le> length s \<and> starts_with s p \<and> ends_with s q \<and> stem_ok m r stem
            then Some (affix r ''deinflectedPrefix'' @ stem @ affix r ''deinflectedSuffix'') else None)
      else None)"

section \<open>Classes as the rules write them\<close>

text \<open>What the splitting of a rule relies on of \<open>classes.matcher\<close>: a bracket of letters matches these letters, and letters
  added to a class reference are added to what it matches. \<open>letter\<close> are the units that stand for themselves in a bracket;
  \<open>known\<close> are the references that resolve.\<close>

locale class_letters =
  fixes m :: class_test and letter :: "int \<Rightarrow> bool" and known :: "jstr \<Rightarrow> bool"
  assumes bracket: "list_all letter ls \<Longrightarrow> m ([91] @ ls @ [93]) u \<longleftrightarrow> u \<in> set ls"
    and added: "list_all letter ls \<Longrightarrow> known c \<Longrightarrow> m ([91] @ c @ ls @ [93]) u \<longleftrightarrow> u \<in> set ls \<or> m c u"
    and letter_low: "letter u \<Longrightarrow> u < 55296"
    and known_bare: "known c \<Longrightarrow> \<not> starts_with c [91]"

section \<open>The classes of ClassSet\<close>

text \<open>The matcher of a class set: whether a class denotes a code point (\<open>Class_Set.class_source_denotes\<close>).\<close>

definition denoted :: "(int \<Rightarrow> jstr) \<Rightarrow> definitions \<Rightarrow> class_test" where
  "denoted cat defs c u \<longleftrightarrow> (case parseClass (JStr c) of Inr ast \<Rightarrow> denotes_ast cat defs ast u True | Inl _ \<Rightarrow> False)"

definition class_letter :: "int \<Rightarrow> bool" where
  "class_letter u \<longleftrightarrow> (97 \<le> u \<and> u \<le> 122) \<or> (191 < u \<and> u < 880)"

definition resolved :: "(int \<Rightarrow> jstr) \<Rightarrow> definitions \<Rightarrow> jstr \<Rightarrow> bool" where
  "resolved cat defs c \<longleftrightarrow> (\<exists>n. c = [123] @ n @ [125] \<and> CLASS_NAME n \<and> (\<forall>u. \<exists>b. denotes_name cat defs n u b))"

lemma class_letter_low: "class_letter u \<Longrightarrow> u < 55296"
  by (auto simp: class_letter_def)

lemma class_letter_facts:
  "class_letter u \<Longrightarrow> \<not> is_high u \<and> \<not> is_low u"
  "class_letter u \<Longrightarrow> u \<notin> {45, 92, 93, 94, 123, 125}"
  by (auto simp: class_letter_def is_high_def is_low_def)

lemma cp_first_letter: "class_letter u \<Longrightarrow> cp_first (u # s) = Some u"
  using class_letter_facts(1) [of u] by (cases s) auto

lemma read_letter: "class_letter u \<Longrightarrow> read_atom src (u # s) = Inr (Some (CChar u [u], s))"
  using class_letter_facts [of u] cp_first_letter [of u s]
  by (auto simp: read_atom_def isSurrogate_def class_letter_def from_cp_def)

lemma parse_letters: "list_all class_letter ls \<Longrightarrow> parse_items src (ls @ [93]) = Inr (map (\<lambda>u. CChar u [u]) ls, [])"
proof (induction ls)
  case Nil
  then show ?case by (simp add: parse_items.simps [of src "[93]"] read_atom_def unit_at_def)
next
  case (Cons u ls)
  have u: "class_letter u" "u \<noteq> 123" using Cons.prems class_letter_facts(2) [of u] by auto
  have dash: "unit_at (ls @ [93]) 0 \<noteq> Some 45"
    using Cons.prems class_letter_facts(2) by (cases ls) (auto simp: unit_at_def)
  show ?case
    using Cons u dash read_letter [OF u(1), of src "ls @ [93]"]
    by (subst parse_items.simps) (simp add: unit_at_def)
qed

lemma parse_reference:
  assumes "CLASS_NAME n" "list_all class_letter ls"
  shows "parse_items src ([123] @ n @ [125] @ ls @ [93]) = Inr (CRef n ([123] @ n @ [125]) # map (\<lambda>u. CChar u [u]) ls, [])"
proof -
  have "list_all is_name_unit n" using assms(1) by (simp add: CLASS_NAME_def)
  then have take: "takeWhile is_name_unit (n @ 125 # ls @ [93]) = n"
    by (auto simp: takeWhile_append list_all_iff is_name_unit_def is_name_start_def is_digit_def)
  then have ref: "REFERENCE ([123] @ n @ [125] @ ls @ [93]) = Some n"
    using assms(1) by (simp add: REFERENCE_def Let_def starts_with_def unit_at_def nth_append)
  show ?thesis
    using parse_letters [OF assms(2), of src] ref
    by (subst parse_items.simps) (simp add: unit_at_def)
qed

lemma denotes_letters: "denotes_items cat defs (map (\<lambda>u. CChar u [u]) ls) u b \<longleftrightarrow> b = (u \<in> set ls)"
proof -
  have "denotes_items cat defs (map (\<lambda>u. CChar u [u]) ls) u (u \<in> set ls)"
  proof (induction ls)
    case (Cons c ls)
    have "denotes_items cat defs (CChar c [c] # map (\<lambda>u. CChar u [u]) ls) u (base_mem cat u (CChar c [c]) \<or> u \<in> set ls)"
      by (rule denotes_name_denotes_ast_denotes_items.item) (use Cons in auto)
    then show ?case by simp
  qed (simp add: denotes_name_denotes_ast_denotes_items.none)
  then show ?thesis using denotes_items_fun by blast
qed

lemma denoted_bracket:
  assumes "list_all class_letter ls"
  shows "denoted cat defs ([91] @ ls @ [93]) u \<longleftrightarrow> u \<in> set ls"
proof -
  have neg: "unit_at ([91] @ ls @ [93]) 1 \<noteq> Some 94"
    using assms class_letter_facts(2) by (cases ls) (auto simp: unit_at_def)
  have "parse_class_text ([91] @ ls @ [93]) = Inr (ASet False (map (\<lambda>u. CChar u [u]) ls))"
    using neg parse_letters [OF assms, of "[91] @ ls @ [93]"] by (simp add: parse_class_text_def starts_with_def)
  moreover have "denotes_ast cat defs (ASet False (map (\<lambda>u. CChar u [u]) ls)) u True \<longleftrightarrow> u \<in> set ls"
    by (auto elim!: denotes_setE simp: denotes_letters
        intro!: denotes_name_denotes_ast_denotes_items.items [where negated = False and b = True, simplified])
  ultimately show ?thesis by (simp add: denoted_def parseClass_def)
qed

lemma parse_known: "CLASS_NAME n \<Longrightarrow> parse_class_text ([123] @ n @ [125]) = Inr (ARef n)"
proof -
  assume n: "CLASS_NAME n"
  then have "takeWhile is_name_unit (n @ [125]) = n"
    by (auto simp: CLASS_NAME_def takeWhile_append list_all_iff is_name_unit_def is_name_start_def is_digit_def)
  then show ?thesis using n by (simp add: parse_class_text_def REFERENCE_def Let_def starts_with_def unit_at_def nth_append)
qed

lemma denoted_known:
  assumes "CLASS_NAME n"
  shows "denoted cat defs ([123] @ n @ [125]) u \<longleftrightarrow> denotes_name cat defs n u True"
  unfolding denoted_def parseClass_def json.case parse_known [OF assms] sum.case
  by (auto elim: denotes_refE intro: denotes_name_denotes_ast_denotes_items.ref)

lemma denoted_added:
  assumes ls: "list_all class_letter ls" and c: "resolved cat defs c"
  shows "denoted cat defs ([91] @ c @ ls @ [93]) u \<longleftrightarrow> u \<in> set ls \<or> denoted cat defs c u"
proof -
  obtain n where n: "c = [123] @ n @ [125]" "CLASS_NAME n" "\<And>u. \<exists>b. denotes_name cat defs n u b"
    using c by (auto simp: resolved_def)
  have "parse_class_text ([91] @ c @ ls @ [93]) = Inr (ASet False (CRef n c # map (\<lambda>u. CChar u [u]) ls))"
    using parse_reference [OF n(2) ls, of "[91] @ c @ ls @ [93]"] n(1) by (simp add: parse_class_text_def starts_with_def unit_at_def)
  then have d: "denoted cat defs ([91] @ c @ ls @ [93]) u \<longleftrightarrow>
      denotes_ast cat defs (ASet False (CRef n c # map (\<lambda>u. CChar u [u]) ls)) u True"
    by (simp add: denoted_def parseClass_def)
  obtain b where b: "denotes_name cat defs n u b" using n(3) by blast
  have its: "denotes_items cat defs (CRef n c # map (\<lambda>u. CChar u [u]) ls) u (b \<or> u \<in> set ls)"
    by (rule denotes_name_denotes_ast_denotes_items.item_ref [OF b]) (simp add: denotes_letters)
  have ast: "denotes_ast cat defs (ASet False (CRef n c # map (\<lambda>u. CChar u [u]) ls)) u (b \<or> u \<in> set ls)"
    using denotes_name_denotes_ast_denotes_items.items [OF its, of False] by simp
  then have "denotes_ast cat defs (ASet False (CRef n c # map (\<lambda>u. CChar u [u]) ls)) u True \<longleftrightarrow> b \<or> u \<in> set ls"
    using ast denotes_ast_fun [OF ast, of True] by (cases "b \<or> u \<in> set ls") auto
  moreover have "denotes_name cat defs n u True \<longleftrightarrow> b" using denotes_name_fun [OF b] b by (cases b) auto
  ultimately show ?thesis unfolding d using denoted_known [OF n(2)] n(1) by auto
qed

interpretation classes: class_letters "denoted cat defs" class_letter "resolved cat defs" for cat defs
  by unfold_locales
    (rule denoted_bracket denoted_added class_letter_low, assumption+ | force simp: resolved_def starts_with_def)+

text \<open>The matcher a class set compiles is the test of what its classes denote.\<close>

lemma matcher_denoted:
  assumes "new_class_set cat v = Inr cs" "json_ok v" "wf_js c" "class_matcher cat cs (JStr c) = Inr t" "0 \<le> u" "u \<le> 1114111"
  shows "t u \<longleftrightarrow> denoted cat (cs_definitions cs) c u"
proof -
  obtain s where s: "class_source cat cs (JStr c) = Inr s" "t = rx_test cat s"
    using assms(4) by (auto simp: class_matcher_def)
  obtain ast where ast: "parseClass (JStr c) = Inr ast" using s(1) by (auto simp: class_source_def expand_field_def)
  have "class_set_ok cat cs" using new_class_set_ok [OF assms(1)] assms(2) by blast
  moreover have "parse_class_text c = Inr ast" using ast by (simp add: parseClass_def)
  ultimately have d: "denotes_ast cat (cs_definitions cs) ast u (rx_test cat s u)"
    using class_source_sound(2) [of cat cs c ast s u] assms(3,5,6) s(1) by (simp add: MAX_CODE_POINT_def)
  show ?thesis
    using d denotes_ast_fun [OF d, of True] by (cases "rx_test cat s u") (auto simp: denoted_def ast s(2))
qed

end
