(* ===== verification/Pack_Deinflector.thy ===== *)
theory Pack_Deinflector
  imports Deinflector Final_Rules "HOL-Library.Word"
begin

text \<open>
  The JavaScript model of the pack deinflector (tools/test/stub/model.mjs, docs/languages.md 7): the bits of the conditions,
  the compilation of the rules, their application, the order of the candidates and the depth-first search.

  Parameters beside \<open>js_env\<close>: \<open>found\<close>, whether a RegExp without flags finds a match in a text. The rules have the fields and
  value types of docs/languages.md 7.2 and the names of conditions and lists are texts. A recursion deeper than the stack
  ends in a RangeError, here \<open>MeDepth\<close> with the depth as a parameter.
\<close>

datatype model_error =
    MeTooMany
  | MeUndeclared jstr
  | MeCycle jstr
  | MeTodo
  | MeAffix jstr
  | MeNoList jstr
  | MeUnknownType jstr
  | MeClass class_error
  | MeType
  | MeDepth

section \<open>Conditions\<close>

type_synonym flags = "(jstr \<times> 32 word) list"

definition is_leaf :: "json \<Rightarrow> bool" where
  "is_leaf c \<longleftrightarrow> obj_get c (js ''subConditions'') = JUndef"

text \<open>The first loop of \<open>conditionFlags\<close>: \<open>(1 << leaves.length) >>> 0\<close>.\<close>

definition leaf_step :: "flags \<times> jstr list \<Rightarrow> jstr \<times> json \<Rightarrow> model_error + flags \<times> jstr list" where
  "leaf_step = (\<lambda>(fl, leaves) (name, c).
     if nullish c then Inl MeType
     else if \<not> is_leaf c then Inr (fl, leaves)
     else if 32 \<le> length leaves then Inl MeTooMany
     else Inr (om_set name (push_bit (length leaves) 1) fl, leaves @ [name]))"

definition sub_names :: "json \<Rightarrow> model_error + jstr list" where
  "sub_names c = bindE (iter_values MeType (obj_get c (js ''subConditions''))) (\<lambda>subs.
     mapE (\<lambda>v. case v of JStr s \<Rightarrow> Inr s | _ \<Rightarrow> Inl MeType) subs)"

text \<open>\<open>resolve(name)\<close>; \<open>resolving\<close> are the names whose resolution is under way. Its names are distinct and declared, so
  the depth is at most their number.\<close>

function resolve :: "nat \<Rightarrow> (jstr \<times> json) list \<Rightarrow> jstr list \<Rightarrow> jstr \<Rightarrow> flags \<Rightarrow> model_error + 32 word \<times> flags"
and resolve_subs ::
    "nat \<Rightarrow> (jstr \<times> json) list \<Rightarrow> jstr list \<Rightarrow> jstr list \<Rightarrow> 32 word \<Rightarrow> flags \<Rightarrow> model_error + 32 word \<times> flags" where
  "resolve 0 conds resolving name fl = (case map_of fl name of Some v \<Rightarrow> Inr (v, fl) | None \<Rightarrow> Inl MeDepth)"
| "resolve (Suc n) conds resolving name fl = (case map_of fl name of
       Some v \<Rightarrow> Inr (v, fl)
     | None \<Rightarrow> (case lookup_in conds name of
         None \<Rightarrow> Inl (MeUndeclared name)
       | Some c \<Rightarrow>
           if name \<in> set resolving then Inl (MeCycle name)
           else bindE (sub_names c) (\<lambda>subs. bindE (resolve_subs n conds (name # resolving) subs 0 fl) (\<lambda>(value, fl').
             Inr (value, om_set name value fl')))))"
| "resolve_subs n conds resolving [] value fl = Inr (value, fl)"
| "resolve_subs n conds resolving (sub # subs) value fl =
     bindE (resolve n conds resolving sub fl) (\<lambda>(v, fl'). resolve_subs n conds resolving subs (or value v) fl')"
  by pat_completeness auto
termination
  by (relation "measures [\<lambda>x. case x of Inl (n, _) \<Rightarrow> n | Inr (n, _) \<Rightarrow> n,
      \<lambda>x. case x of Inl _ \<Rightarrow> 0 | Inr (n, cs, r, subs, _) \<Rightarrow> Suc (length subs)]") auto

definition resolve_all :: "nat \<Rightarrow> (jstr \<times> json) list \<Rightarrow> flags \<Rightarrow> model_error + flags" where
  "resolve_all n conds fl = foldE (\<lambda>fl name. bindE (resolve n conds [] name fl) (\<lambda>(v, fl'). Inr fl')) fl (map fst conds)"

definition conditionFlags :: "(jstr \<times> json) list \<Rightarrow> model_error + flags \<times> jstr list" where
  "conditionFlags conds =
     bindE (foldE leaf_step ([], []) conds) (\<lambda>(fl, leaves).
     bindE (resolve_all (Suc (length conds)) conds fl) (\<lambda>fl'. Inr (fl', leaves)))"

definition dictionaryForms :: "(jstr \<times> json) list \<Rightarrow> jstr list" where
  "dictionaryForms conds = map fst (filter (\<lambda>(name, c). obj_get c (js ''isDictionaryForm'') = JBool True) conds)"

definition mask_names :: "flags \<Rightarrow> json \<Rightarrow> model_error + 32 word" where
  "mask_names fl names = bindE (iter_values MeType (or_else names (JArr []))) (\<lambda>ns.
     foldE (\<lambda>value name. case name of
         JStr s \<Rightarrow> (case map_of fl s of None \<Rightarrow> Inl (MeUndeclared s) | Some v \<Rightarrow> Inr (or value v))
       | _ \<Rightarrow> Inl MeType) 0 ns)"

section \<open>Compiled rules\<close>

record compiled =
  cr_rule :: rule_obj
  cr_id :: jstr
  cr_in :: "32 word"
  cr_out :: "32 word"
  cr_order :: nat
  cr_source :: jstr
  cr_list :: "jstr list"
  cr_particles :: "jstr list"
  cr_guards :: "jstr list"
  cr_verbs :: "jstr list option"

record model =
  md_env :: js_env
  md_found :: "jstr \<Rightarrow> jstr \<Rightarrow> bool"
  md_classes :: class_set
  md_word :: "int \<Rightarrow> bool"
  md_flags :: flags
  md_leaves :: "jstr list"
  md_rules :: "compiled list"

definition or_default_pairs :: "json \<Rightarrow> model_error + (json \<times> json) list" where
  "or_default_pairs v =
     (if nullish v then Inr [(JStr [], JStr [])]
      else bindE (iter_values MeType v) (\<lambda>ps. mapE (\<lambda>p. case pair_items p of Inl e \<Rightarrow> Inl MeType | Inr ab \<Rightarrow> Inr ab) ps))"

definition cross_rule :: "rule_obj \<Rightarrow> json \<times> json \<Rightarrow> json \<times> json \<Rightarrow> rule_obj" where
  "cross_rule r = (\<lambda>(ip, dp) (isx, ds).
     let rest = without_key (js ''suffixes'') (without_key (js ''prefixes'') r) in
     fold (\<lambda>(k, v). obj_put (js k) v)
       [(''inflectedPrefix'', ip), (''deinflectedPrefix'', dp), (''inflectedSuffix'', isx), (''deinflectedSuffix'', ds)] rest)"

definition expand_rule :: "rule_obj \<Rightarrow> model_error + rule_obj list" where
  "expand_rule r =
     (if rule_field r ''type'' = JStr (js ''todo'') then Inl MeTodo
      else if rule_field r ''type'' \<noteq> JStr (js ''circumfix'') \<or>
        (rule_field r ''prefixes'' = JUndef \<and> rule_field r ''suffixes'' = JUndef) then Inr [r]
      else bindE (or_default_pairs (rule_field r ''prefixes'')) (\<lambda>ps.
        bindE (or_default_pairs (rule_field r ''suffixes'')) (\<lambda>ss.
          Inr (concat (map (\<lambda>p. map (cross_rule r p) ss) ps)))))"

definition MAX_AFFIX :: nat where
  "MAX_AFFIX = 64"

definition check_affix :: "jstr \<Rightarrow> rule_obj \<Rightarrow> string \<Rightarrow> model_error + unit" where
  "check_affix i r k = (case text_field r k of
       Some s \<Rightarrow> if MAX_AFFIX < cpLength s then Inl (MeAffix i) else Inr ()
     | None \<Rightarrow> Inr ())"

definition in_class :: "class_error + 'a \<Rightarrow> model_error + 'a" where
  "in_class x = (case x of Inl e \<Rightarrow> Inl (MeClass e) | Inr v \<Rightarrow> Inr v)"

definition check_class :: "js_env \<Rightarrow> class_set \<Rightarrow> rule_obj \<Rightarrow> string \<Rightarrow> model_error + unit" where
  "check_class env cs r k = (case text_field r k of
       Some c \<Rightarrow> bindE (in_class (class_matcher (env_cat env) cs (JStr c))) (\<lambda>t. Inr ())
     | None \<Rightarrow> Inr ())"

definition class_fields :: "string list" where
  "class_fields = [''stemCharacters'', ''stemContains'', ''stemStartsWith'', ''stemEndsWith'', ''stemNotStartsWith'', ''stemNotEndsWith'']"

definition change_of :: "rule_obj \<Rightarrow> rule_obj" where
  "change_of r = object_entries (rule_field r ''stemChange'')"

definition word_list :: "(jstr \<times> jstr list) list \<Rightarrow> jstr \<Rightarrow> json \<Rightarrow> model_error + jstr list" where
  "word_list wl i name = (case name of
       JStr s \<Rightarrow> (case map_of wl s of Some ws \<Rightarrow> Inr ws | None \<Rightarrow> Inl (MeNoList i))
     | _ \<Rightarrow> Inl (MeNoList i))"

definition rule_types :: "jstr list" where
  "rule_types = map js [''suffix'', ''prefix'', ''wholeWord'', ''circumfix'', ''replace'', ''phrasal'', ''interposedObject'', ''pattern'']"

definition if_type :: "rule_obj \<Rightarrow> string \<Rightarrow> 'a \<Rightarrow> model_error + 'a \<Rightarrow> model_error + 'a" where
  "if_type r t d x = (if rule_field r ''type'' = JStr (js t) then x else Inr d)"

definition compile_rule ::
    "js_env \<Rightarrow> class_set \<Rightarrow> flags \<Rightarrow> (jstr \<times> jstr list) list \<Rightarrow> jstr \<Rightarrow> nat \<Rightarrow> rule_obj \<Rightarrow> model_error + compiled" where
  "compile_rule env cs fl wl i order r =
     bindE (mask_names fl (rule_field r ''conditionsIn'')) (\<lambda>cin.
     bindE (mask_names fl (rule_field r ''conditionsOut'')) (\<lambda>cout.
     bindE (mapE (check_affix i r) [''inflected'', ''inflectedPrefix'', ''inflectedSuffix'', ''anchorSuffix'', ''anchorPrefix'']) (\<lambda>_.
     bindE (mapE (check_class env cs r) class_fields) (\<lambda>_.
     bindE (if obj_get (JObj (change_of r)) (js ''between'') \<noteq> JUndef
       then bindE (in_class (class_matcher (env_cat env) cs (obj_get (JObj (change_of r)) (js ''between'')))) (\<lambda>t. Inr ()) else Inr ()) (\<lambda>_.
     bindE (if_type r ''pattern'' [] (bindE (in_class (patternRegExp (env_cat env) (env_accepts env) cs (rule_field r ''pattern'') False))
       (\<lambda>(source, fl). Inr source))) (\<lambda>source.
     bindE (if_type r ''phrasal'' [] (word_list wl i (rule_field r ''followedBy''))) (\<lambda>followed.
     bindE (if_type r ''interposedObject'' [] (word_list wl i (rule_field r ''particles''))) (\<lambda>particles.
     bindE (if_type r ''interposedObject'' [] (word_list wl i (rule_field r ''guardWords''))) (\<lambda>guards.
     bindE (if_type r ''interposedObject'' None (if rule_field r ''verbGuardWords'' = JUndef then Inr None
       else bindE (word_list wl i (rule_field r ''verbGuardWords'')) (\<lambda>ws. Inr (Some ws)))) (\<lambda>verbs.
     if string_of (rule_field r ''type'') \<notin> set rule_types then Inl (MeUnknownType i)
     else Inr \<lparr>cr_rule = r, cr_id = i, cr_in = cin, cr_out = cout, cr_order = order, cr_source = source, cr_list = followed,
       cr_particles = particles, cr_guards = guards, cr_verbs = verbs\<rparr>))))))))))"

text \<open>The rules of one transform, numbered from the number of rules so far.\<close>

definition compile_expanded ::
    "js_env \<Rightarrow> class_set \<Rightarrow> flags \<Rightarrow> (jstr \<times> jstr list) list \<Rightarrow> jstr \<Rightarrow> compiled list \<Rightarrow> rule_obj \<Rightarrow> model_error + compiled list" where
  "compile_expanded env cs fl wl i rules r =
     bindE (compile_rule env cs fl wl i (length rules) r) (\<lambda>c. Inr (rules @ [c]))"

definition compile_json ::
    "js_env \<Rightarrow> class_set \<Rightarrow> flags \<Rightarrow> (jstr \<times> jstr list) list \<Rightarrow> jstr \<Rightarrow> compiled list \<Rightarrow> json \<Rightarrow> model_error + compiled list" where
  "compile_json env cs fl wl i rules rule =
     (if nullish rule then Inl MeType
      else bindE (expand_rule (object_entries rule)) (\<lambda>rs. foldE (compile_expanded env cs fl wl i) rules rs))"

definition compile_transform ::
    "js_env \<Rightarrow> class_set \<Rightarrow> flags \<Rightarrow> (jstr \<times> jstr list) list \<Rightarrow> jstr list \<Rightarrow> compiled list \<Rightarrow> json \<Rightarrow> model_error + compiled list" where
  "compile_transform env cs fl wl enabled rules t =
     (if nullish t then Inl MeType
      else if obj_get t (js ''optional'') = JBool True \<and> \<not> is_string_in enabled (obj_get t (js ''id'')) then Inr rules
      else bindE (array_items MeType (or_else (obj_get t (js ''rules'')) (JArr []))) (\<lambda>rs.
        foldE (compile_json env cs fl wl (to_js (obj_get t (js ''id'')))) rules rs))"

definition word_lists :: "json \<Rightarrow> model_error + (jstr \<times> jstr list) list" where
  "word_lists v = mapE (\<lambda>(name, words). bindE (iter_values MeType words) (\<lambda>ws. Inr (name, map to_js ws))) (object_entries v)"

text \<open>\<open>/\p{L}|\p{M}|\p{N}/u\<close> on a code point, by its general category.\<close>

definition letter_mark_number :: "js_env \<Rightarrow> int \<Rightarrow> bool" where
  "letter_mark_number env u \<longleftrightarrow> (case env_cat env u of c # _ \<Rightarrow> c \<in> {76, 77, 78} | [] \<Rightarrow> False)"

definition word_test :: "js_env \<Rightarrow> class_set \<Rightarrow> jstr option \<Rightarrow> model_error + (int \<Rightarrow> bool)" where
  "word_test env cs chars = (case chars of
       None \<Rightarrow> Inr (letter_mark_number env) | Some c \<Rightarrow> in_class (class_matcher (env_cat env) cs (JStr c)))"

text \<open>The constructor.\<close>

definition new_model ::
    "js_env \<Rightarrow> (jstr \<Rightarrow> jstr \<Rightarrow> bool) \<Rightarrow> class_set \<Rightarrow> jstr option \<Rightarrow> jstr list \<Rightarrow> json \<Rightarrow> model_error + model" where
  "new_model env found cs chars enabled transforms =
     (if nullish transforms then Inl MeType
      else bindE (conditionFlags (object_entries (obj_get transforms (js ''conditions'')))) (\<lambda>(fl, leaves).
        bindE (word_lists (obj_get transforms (js ''wordLists''))) (\<lambda>wl.
        bindE (word_test env cs chars) (\<lambda>word.
        bindE (array_items MeType (or_else (obj_get transforms (js ''transforms'')) (JArr []))) (\<lambda>ts.
        bindE (foldE (compile_transform env cs fl wl enabled) [] ts) (\<lambda>rules.
          Inr \<lparr>md_env = env, md_found = found, md_classes = cs, md_word = word, md_flags = fl, md_leaves = leaves,
            md_rules = rules\<rparr>))))))"

section \<open>Applying a rule\<close>

definition class_of :: "model \<Rightarrow> class_test" where
  "class_of md c u = (case class_matcher (env_cat (md_env md)) (md_classes md) (JStr c) of Inr t \<Rightarrow> t u | Inl e \<Rightarrow> False)"

definition entry_text :: "rule_obj \<Rightarrow> string \<Rightarrow> jstr" where
  "entry_text r k = string_of (rule_field r k)"

text \<open>\<open>#changeStem\<close>: the places of the strings of \<open>from\<close>, in the order of the loops.\<close>

definition between_ok :: "model \<Rightarrow> rule_obj \<Rightarrow> jstr \<Rightarrow> bool" where
  "between_ok md change after = (case rule_field change ''between'' of
       JStr c \<Rightarrow> (case rule_field change ''betweenMinLength'' of JNum n \<Rightarrow> n | _ \<Rightarrow> 1) \<le> int (cpLength after) \<and>
         list_all (class_of md c) (cp_values after)
     | _ \<Rightarrow> True)"

definition change_places :: "model \<Rightarrow> rule_obj \<Rightarrow> jstr \<Rightarrow> (nat \<times> jstr) list" where
  "change_places md change stem =
     concat (map (\<lambda>i. map (Pair i) (filter (\<lambda>from. from \<noteq> [] \<and> starts_with (drop i stem) from \<and>
         between_ok md change (drop (i + length from) stem)) (strings_of (rule_field change ''from''))))
       [0..<length stem])"

definition place_le :: "nat \<times> jstr \<Rightarrow> nat \<times> jstr \<Rightarrow> bool" where
  "place_le a b \<longleftrightarrow> fst a < fst b \<or> fst a = fst b \<and> length (snd b) \<le> length (snd a)"

definition pick_place :: "rule_obj \<Rightarrow> (nat \<times> jstr) list \<Rightarrow> nat \<times> jstr" where
  "pick_place change places =
     (if rule_field change ''occurrence'' = JStr (js ''last'')
      then hd (filter (\<lambda>c. fst c = fst (last places)) places) else hd places)"

definition changeStem :: "model \<Rightarrow> rule_obj \<Rightarrow> jstr \<Rightarrow> jstr option" where
  "changeStem md r stem =
     (if rule_field r ''stemChange'' = JUndef then Some stem
      else let change = change_of r; places = sort_by place_le (change_places md change stem) in
        if places = [] then None
        else (case pick_place change places of (i, from) \<Rightarrow>
          Some (take i stem @ entry_text change ''to'' @ drop (i + length from) stem)))"

text \<open>\<open>#finish\<close>: the first text the steps of \<open>then\<close> make; a step list that makes none gives \<open>undefined\<close>, which the
  search cannot read.\<close>

definition finish :: "model \<Rightarrow> rule_obj \<Rightarrow> jstr \<Rightarrow> model_error + jstr option" where
  "finish md r t = (case rule_field r ''then'' of
       JArr steps \<Rightarrow> bindE (in_class (applyVariant (md_env md) (md_classes md) steps t)) (\<lambda>outs. case outs of
           out # _ \<Rightarrow> Inr (Some out) | [] \<Rightarrow> Inl MeType)
     | _ \<Rightarrow> Inr (Some t))"

definition finish_stem :: "model \<Rightarrow> rule_obj \<Rightarrow> jstr \<Rightarrow> (jstr \<Rightarrow> jstr) \<Rightarrow> model_error + jstr option" where
  "finish_stem md r stem f =
     (if \<not> stem_ok (class_of md) r stem then Inr None
      else (case changeStem md r stem of None \<Rightarrow> Inr None | Some changed \<Rightarrow> finish md r (f changed)))"

definition all_word :: "model \<Rightarrow> jstr \<Rightarrow> bool" where
  "all_word md w \<longleftrightarrow> w \<noteq> [] \<and> list_all (md_word md) (cp_values w)"

text \<open>\<open>replace\<close>: the places of \<open>inflected\<close> from the left, without overlap.\<close>

function occurrences :: "jstr \<Rightarrow> nat \<Rightarrow> jstr \<Rightarrow> nat list" where
  "occurrences p i s =
     (if s = [] \<or> p = [] then []
      else if starts_with s p then i # occurrences p (i + length p) (drop (length p) s)
      else occurrences p (Suc i) (tl s))"
  by pat_completeness auto
termination
  by (relation "measure (\<lambda>(p, i, s). length s)") (auto simp: Suc_le_eq)

declare occurrences.simps [simp del]

fun replace_places :: "nat \<Rightarrow> jstr \<Rightarrow> nat \<Rightarrow> nat list \<Rightarrow> jstr \<Rightarrow> jstr" where
  "replace_places n to pos [] s = drop pos s"
| "replace_places n to pos (i # is) s = JS_Prelude.slice s pos i @ to @ replace_places n to (i + n) is s"

definition apply_replace :: "model \<Rightarrow> rule_obj \<Rightarrow> jstr \<Rightarrow> model_error + jstr option" where
  "apply_replace md r s =
     (let p = entry_text r ''inflected'';
          places = filter (\<lambda>i. \<not> (rule_field r ''notAtStart'' = JBool True \<and> i = 0)) (occurrences p 0 s);
          chosen = (if rule_field r ''occurrence'' = JStr (js ''first'') then [hd places]
            else if rule_field r ''occurrence'' = JStr (js ''last'') then [last places] else places)
      in if places = [] then Inr None else finish md r (replace_places (length p) (entry_text r ''deinflected'') 0 chosen s))"

text \<open>\<open>phrasal\<close>: the first two words at single spaces.\<close>

definition apply_phrasal :: "model \<Rightarrow> compiled \<Rightarrow> jstr \<Rightarrow> model_error + jstr option" where
  "apply_phrasal md c s =
     (case split_on 32 s of
        first # second # _ \<Rightarrow>
          (let r = cr_rule c; i = entry_text r ''inflected'' in
           if first = [] \<or> \<not> all_word md first \<or> \<not> ends_with first i \<or> \<not> all_word md second \<or> second \<notin> set (cr_list c) then Inr None
           else finish md r (JS_Prelude.slice first 0 (length first - length i) @ entry_text r ''deinflected'' @ drop (length first) s))
      | _ \<Rightarrow> Inr None)"

text \<open>\<open>interposedObject\<close>: a verb, an object and a particle; the parts of an object are its runs of word characters.\<close>

fun word_parts :: "(int \<Rightarrow> bool) \<Rightarrow> jstr \<Rightarrow> jstr list \<Rightarrow> jstr list" where
  "word_parts p current [] = (if current = [] then [] else [current])"
| "word_parts p current (c # cs) =
     (if p (cp_of c) then word_parts p (current @ c) cs
      else (if current = [] then [] else [current]) @ word_parts p [] cs)"

fun interposed :: "model \<Rightarrow> compiled \<Rightarrow> jstr \<Rightarrow> nat \<Rightarrow> jstr list \<Rightarrow> jstr option" where
  "interposed md c first k [] = None"
| "interposed md c first k (w # ws) =
     (if 2 \<le> k \<and> all_word md w \<and> w \<in> set (cr_particles c) then Some (join [32] (first # w # ws))
      else if list_ex (\<lambda>p. p \<in> set (cr_guards c)) (word_parts (md_word md) [] (cps w)) then None
      else interposed md c first (Suc k) ws)"

definition apply_interposed :: "model \<Rightarrow> compiled \<Rightarrow> jstr \<Rightarrow> model_error + jstr option" where
  "apply_interposed md c s =
     (let ws = split_on 32 s; first = hd ws in
      if [] \<in> set ws \<or> length ws < 3 \<or> \<not> all_word md first \<or>
        (case cr_verbs c of Some vs \<Rightarrow> first \<in> set vs | None \<Rightarrow> False) then Inr None
      else (case interposed md c first 1 (tl ws) of None \<Rightarrow> Inr None | Some t \<Rightarrow> finish md (cr_rule c) t))"

definition anchored :: "rule_obj \<Rightarrow> jstr \<Rightarrow> bool" where
  "anchored r s \<longleftrightarrow> when_field r ''anchorSuffix'' (ends_with s) \<and> when_field r ''anchorPrefix'' (starts_with s)"

definition apply_pattern :: "model \<Rightarrow> compiled \<Rightarrow> jstr \<Rightarrow> model_error + jstr option" where
  "apply_pattern md c s =
     (if \<not> anchored (cr_rule c) s \<or> \<not> md_found md (cr_source c) s then Inr None
      else finish md (cr_rule c) (env_replace (md_env md) (cr_source c) False s (entry_text (cr_rule c) ''replacement'')))"

definition type_of :: "rule_obj \<Rightarrow> jstr" where
  "type_of r = string_of (rule_field r ''type'')"

text \<open>\<open>apply(rule, text)\<close>\<close>

definition apply_compiled :: "model \<Rightarrow> compiled \<Rightarrow> jstr \<Rightarrow> model_error + jstr option" where
  "apply_compiled md c s =
     (let r = cr_rule c; t = type_of r; i = affix r ''inflected''; d = affix r ''deinflected'' in
      if t = js ''suffix'' then
        (if ends_with s i then finish_stem md r (JS_Prelude.slice s 0 (length s - length i)) (\<lambda>x. x @ d) else Inr None)
      else if t = js ''prefix'' then
        (if starts_with s i then finish_stem md r (drop (length i) s) (\<lambda>x. d @ x) else Inr None)
      else if t = js ''wholeWord'' then (if s = i then finish md r d else Inr None)
      else if t = js ''circumfix'' then
        (let p = affix r ''inflectedPrefix''; q = affix r ''inflectedSuffix'' in
         if length p + length q \<le> length s \<and> starts_with s p \<and> ends_with s q then
           finish_stem md r (JS_Prelude.slice s (length p) (length s - length q))
             (\<lambda>x. affix r ''deinflectedPrefix'' @ x @ affix r ''deinflectedSuffix'')
         else Inr None)
      else if t = js ''replace'' then apply_replace md r s
      else if t = js ''phrasal'' then apply_phrasal md c s
      else if t = js ''interposedObject'' then apply_interposed md c s
      else if t = js ''pattern'' then apply_pattern md c s
      else Inl (MeUnknownType (cr_id c)))"

section \<open>Candidates\<close>

datatype bucket = Suffixed nat | Prefixed nat | Phrasal nat | Rest

text \<open>The list a rule goes to for a text, with the length of what matched; \<open>None\<close> when it is no candidate.\<close>

definition bucket_of :: "rule_obj \<Rightarrow> jstr \<Rightarrow> bucket option" where
  "bucket_of r s =
     (let t = type_of r; i = affix r ''inflected''; q = affix r ''inflectedSuffix'' in
      if t = js ''suffix'' \<or> t = js ''wholeWord'' then (if ends_with s i then Some (Suffixed (length i)) else None)
      else if t = js ''circumfix'' then (if ends_with s q then Some (Suffixed (length q)) else None)
      else if t = js ''pattern'' then (case text_field r ''anchorSuffix'' of
          Some a \<Rightarrow> if ends_with s a then Some (Suffixed (length a)) else None
        | None \<Rightarrow> (case text_field r ''anchorPrefix'' of
            Some a \<Rightarrow> if starts_with s a then Some (Prefixed (length a)) else None
          | None \<Rightarrow> None))
      else if t = js ''prefix'' then (if starts_with s i then Some (Prefixed (length i)) else None)
      else if t = js ''phrasal'' then (case split_on 32 s of
          first # _ # _ \<Rightarrow> if first \<noteq> [] \<and> ends_with first i then Some (Phrasal (length i)) else None
        | _ \<Rightarrow> None)
      else Some Rest)"

definition suffixed :: "bucket \<Rightarrow> nat option" where
  "suffixed b = (case b of Suffixed n \<Rightarrow> Some n | _ \<Rightarrow> None)"

definition prefixed :: "bucket \<Rightarrow> nat option" where
  "prefixed b = (case b of Prefixed n \<Rightarrow> Some n | _ \<Rightarrow> None)"

definition phrased :: "bucket \<Rightarrow> nat option" where
  "phrased b = (case b of Phrasal n \<Rightarrow> Some n | _ \<Rightarrow> None)"

definition matched :: "(bucket \<Rightarrow> nat option) \<Rightarrow> model \<Rightarrow> jstr \<Rightarrow> (nat \<times> compiled) list" where
  "matched f md s = List.map_filter (\<lambda>c. case bucket_of (cr_rule c) s of
       Some b \<Rightarrow> map_option (\<lambda>n. (n, c)) (f b) | None \<Rightarrow> None) (md_rules md)"

definition by_length :: "nat \<times> compiled \<Rightarrow> nat \<times> compiled \<Rightarrow> bool" where
  "by_length a b \<longleftrightarrow> fst b < fst a \<or> fst a = fst b \<and> cr_order (snd a) \<le> cr_order (snd b)"

definition rest_rules :: "model \<Rightarrow> jstr \<Rightarrow> compiled list" where
  "rest_rules md s = filter (\<lambda>c. bucket_of (cr_rule c) s = Some Rest) (md_rules md)"

definition candidates :: "model \<Rightarrow> jstr \<Rightarrow> compiled list" where
  "candidates md s = map snd (sort_by by_length (matched suffixed md s) @ sort_by by_length (matched prefixed md s) @
     sort_by by_length (matched phrased md s)) @ rest_rules md s"

section \<open>The search\<close>

type_synonym frame = "nat \<times> jstr"

record deinflection =
  dn_text :: jstr
  dn_conditions :: "32 word"
  dn_trace :: "jstr list"

definition passes :: "32 word \<Rightarrow> compiled \<Rightarrow> bool" where
  "passes bits c \<longleftrightarrow> bits = 0 \<or> and bits (cr_in c) \<noteq> 0"

text \<open>\<open>visit(current, conditions, trace, frames)\<close> and its loop over the candidates, with the stack left.\<close>

function visit :: "nat \<Rightarrow> model \<Rightarrow> jstr \<Rightarrow> 32 word \<Rightarrow> jstr list \<Rightarrow> frame list \<Rightarrow> model_error + deinflection list"
and visit_rules ::
    "nat \<Rightarrow> model \<Rightarrow> jstr \<Rightarrow> 32 word \<Rightarrow> jstr list \<Rightarrow> frame list \<Rightarrow> compiled list \<Rightarrow> model_error + deinflection list" where
  "visit 0 md current bits trace frames = Inl MeDepth"
| "visit (Suc n) md current bits trace frames =
     (if current = [] then Inr []
      else bindE (visit_rules n md current bits trace frames (candidates md current)) (\<lambda>rs.
        Inr (\<lparr>dn_text = current, dn_conditions = bits, dn_trace = trace\<rparr> # rs)))"
| "visit_rules n md current bits trace frames [] = Inr []"
| "visit_rules n md current bits trace frames (c # cs) =
     (if \<not> passes bits c then visit_rules n md current bits trace frames cs
      else bindE (apply_compiled md c current) (\<lambda>out. case out of
          None \<Rightarrow> visit_rules n md current bits trace frames cs
        | Some t \<Rightarrow>
            if (cr_order c, current) \<in> set frames then visit_rules n md current bits trace frames cs
            else bindE (visit n md t (cr_out c) (cr_id c # trace) (frames @ [(cr_order c, current)])) (\<lambda>rs.
              bindE (visit_rules n md current bits trace frames cs) (\<lambda>rs'. Inr (rs @ rs')))))"
  by pat_completeness auto
termination
  by (relation "measures [\<lambda>x. case x of Inl (n, _) \<Rightarrow> n | Inr (n, _) \<Rightarrow> n,
      \<lambda>x. case x of Inl _ \<Rightarrow> 0 | Inr (n, md, s, c, tr, fs, cs) \<Rightarrow> Suc (length cs)]") auto

definition deinflect :: "nat \<Rightarrow> model \<Rightarrow> jstr \<Rightarrow> model_error + deinflection list" where
  "deinflect n md s = visit n md s 0 [] []"

definition conditionNames :: "model \<Rightarrow> 32 word \<Rightarrow> jstr list" where
  "conditionNames md bits =
     filter (\<lambda>name. and bits (case map_of (md_flags md) name of Some v \<Rightarrow> v | None \<Rightarrow> 0) \<noteq> 0) (md_leaves md)"

definition conditionsOf :: "model \<Rightarrow> jstr \<Rightarrow> 32 word" where
  "conditionsOf md name = (case map_of (md_flags md) name of Some v \<Rightarrow> v | None \<Rightarrow> 0)"

end
