(* ===== verification/Eo_Stems.thy ===== *)
theory Eo_Stems
  imports Deinflector
begin

text \<open>
  languages/eo/sources/excluded-stems.mjs: the stems the rules of Esperanto leave out, and \<open>withoutStems\<close>, which writes a
  rule as copies that together take every stem the rule takes except these. \<open>withoutStems_exact\<close> shows that the copies do
  so, and that no two of them take the same stem.

  A rule is a JSON object whose minimum is a number, and the stems are not empty.
\<close>

datatype eo_error =
    EoHasField jstr
  | EoCannotSplit "jstr list"
  | EoNoTransform jstr
  | EoType

text \<open>The letters of Esperanto with a circumflex or breve, written with \<open>^\<close>, and the arrow of the descriptions.\<close>

definition hat :: "char \<Rightarrow> int" where
  "hat c = (if c = CHR ''c'' then 265 else if c = CHR ''g'' then 285 else if c = CHR ''h'' then 293 else if c = CHR ''j'' then 309
     else if c = CHR ''s'' then 349 else if c = CHR ''u'' then 365 else if c = CHR ''e'' then 233 else if c = CHR ''q'' then 39 else 8594)"

fun eo :: "string \<Rightarrow> jstr" where
  "eo [] = []"
| "eo [c] = [of_char c]"
| "eo (c # d # s) = (if c = CHR ''^'' then hat d # eo s else of_char c # eo (d # s))"

section \<open>The stems\<close>

definition EXCLUDED_STEMS :: "(jstr \<times> (jstr \<times> jstr) list) list" where
  "EXCLUDED_STEMS = map (\<lambda>(key, stems). (js key, map (\<lambda>(stem, words). (js stem, js words)) stems))
    [(''adverbClass'', [(''kat'', ''Kate''), (''kab'', ''KABE''), (''ann'', ''Anne, anne''), (''zo'', ''Zoe''),
      (''juli'', ''Julie, Julien''), (''ros'', ''rose''), (''gal'', ''Gale''), (''pag'', ''Page'')]),
     (''accusativeEn'', [(''bid'', ''Biden''), (''hel'', ''Helen''), (''rub'', ''Ruben''), (''kar'', ''Karen''),
      (''lad'', ''Laden''), (''virtan'', ''Virtanen'')]),
     (''in'', [(''karol'', ''Karolino''), (''tor'', ''Torino''), (''lad'', ''Ladino''), (''mart'', ''Martino, Martine''),
      (''malv'', ''Malvino''), (''juli'', ''Juliino''), (''salam'', ''Salamino''), (''od'', ''odino (Odin)'')]),
     (''il'', [(''em'', ''Emilo''), (''baz'', ''Bazilo'')]),
     (''id'', [(''far'', ''Farido''), (''amor'', ''Amoridoj''), (''perd'', ''perdido'')]),
     (''eg'', [(''di'', ''Diego, diego'')]),
     (''an'', [(''di'', ''Diano''), (''al'', ''Alano''), (''salt'', ''saltano''), (''mil'', ''milano (the kite)''),
      (''ir'', ''irano''), (''juli'', ''Juliano'')]),
     (''ul'', [(''drak'', ''Drakulo''), (''tusk'', ''Tuskulo'')]),
     (''et'', [(''nazar'', ''Nazareto''), (''juli'', ''Julieto''), (''go'', ''Goeto (Goethe)''),
      (''tajg'', ''Tajgeto (Taygetus)'')]),
     (''ar'', [(''boj'', ''bojaro (a boyar)''), (''barb'', ''barbaro (a barbarian)''), (''solid'', ''solidareco'')]),
     (''ato'', [(''pen'', ''Penatoj (the Penates)'')]),
     (''ita'', [(''grav'', ''gravita (gravitational)'')]),
     (''estr'', [(''sem'', ''semestro'')]),
     (''de'', [(''leg'', ''delegato'')]),
     (''mal'', [(''vin'', ''Malvino'')]),
     (''el-'', [(''ena'', ''Elena'')])]"

text \<open>A name every object inherits is no list of stems.\<close>

definition excluded_of :: "jstr \<Rightarrow> eo_error + (jstr \<times> jstr) list option" where
  "excluded_of key = (case map_of EXCLUDED_STEMS key of
       Some stems \<Rightarrow> Inr (Some stems) | None \<Rightarrow> if inherited key \<noteq> None then Inl EoType else Inr None)"

definition exclusionKey :: "jstr \<Rightarrow> rule_obj \<Rightarrow> jstr" where
  "exclusionKey i r = (if i = js ''accusative'' \<and> rule_field r ''inflected'' = JStr (js ''en'') then js ''accusativeEn'' else i)"

section \<open>Splitting a rule\<close>

text \<open>\<open>while (!w.startsWith(p)) p = p.slice(0, -1)\<close>\<close>

function shrink :: "jstr \<Rightarrow> jstr \<Rightarrow> jstr" where
  "shrink p w = (if starts_with w p then p else shrink (butlast p) w)"
  by pat_completeness auto
termination
proof (relation "measure (\<lambda>(p, w). length p)", goal_cases)
  case (2 p w)
  then show ?case by (cases p) (auto simp: starts_with_def)
qed simp

declare shrink.simps [simp del]

fun commonPrefix :: "jstr list \<Rightarrow> jstr" where
  "commonPrefix [] = []"
| "commonPrefix (w # ws) = foldl shrink w ws"

definition units :: "int list \<Rightarrow> jstr" where
  "units us = [91] @ us @ [93]"

text \<open>\<open>push(fields, atLeast)\<close>: a copy of the rule without its \<open>stemNotStartsWith\<close>.\<close>

definition copy_rule :: "rule_obj \<Rightarrow> (string \<times> jstr) list \<Rightarrow> nat \<Rightarrow> rule_obj" where
  "copy_rule base fs minimum =
     (let r = fold (\<lambda>(k, v). obj_put (js k) (JStr v)) fs base in
      if min_length base < int minimum then obj_put (js ''stemMinLength'') (JNum (int minimum)) r else r)"

text \<open>\<open>[...new Set(xs)].sort()\<close> of strings, and of strings of one unit.\<close>

definition sorted_set :: "jstr list \<Rightarrow> jstr list" where
  "sorted_set xs = js_sort (ls_of xs)"

lemma length_shrink: "length (shrink p w) \<le> length p"
proof (induction p w rule: shrink.induct)
  case (1 p w)
  show ?case
  proof (cases "starts_with w p")
    case False
    then show ?thesis using 1 by (subst shrink.simps) (auto intro: order.trans)
  qed (simp add: shrink.simps)
qed

lemma length_foldl_shrink: "length (foldl shrink w ws) \<le> length w"
proof (induction ws arbitrary: w)
  case (Cons x ws)
  show ?case using order.trans [OF Cons [of "shrink w x"] length_shrink] by simp
qed simp

lemma length_commonPrefix: "ws \<noteq> [] \<Longrightarrow> length (commonPrefix ws) \<le> length (hd ws)"
  using length_foldl_shrink by (cases ws) auto

lemma length_commonPrefix_concat: "length (commonPrefix ws) \<le> length (concat ws)"
  using length_foldl_shrink by (cases ws) (auto intro: trans_le_add1)

function coverEnding :: "rule_obj \<Rightarrow> jstr \<Rightarrow> jstr list \<Rightarrow> int \<Rightarrow> nat \<Rightarrow> eo_error + rule_obj list" where
  "coverEnding base p excluded u minimum =
     (let q = commonPrefix excluded in
      if length excluded = 1 then Inr
        [copy_rule base [(''stemStartsWithText'', p), (''stemEndsWith'', units [u]), (''stemNotStartsWithText'', q)] minimum,
         copy_rule base [(''stemStartsWithText'', q), (''stemEndsWith'', units [u])] (max minimum (length q + 1))]
      else if length p < length q \<and> q \<notin> set excluded then
        bindE (coverEnding base q excluded u minimum) (\<lambda>rest. Inr
          (copy_rule base [(''stemStartsWithText'', p), (''stemEndsWith'', units [u]), (''stemNotStartsWithText'', q)] minimum # rest))
      else Inl (EoCannotSplit excluded))"
  by pat_completeness auto
termination
proof (relation "measure (\<lambda>(base, p, excluded, u, minimum). Suc (length (concat excluded)) - length p)", goal_cases)
  case (2 base p excluded u minimum q)
  then show ?case using length_commonPrefix_concat [of excluded] by simp linarith
qed simp

declare coverEnding.simps [simp del]

lemma concat_filter_length: "length (concat (filter P ws)) \<le> length (concat ws)"
  by (induction ws) auto

function cover :: "rule_obj \<Rightarrow> jstr \<Rightarrow> jstr list \<Rightarrow> eo_error + rule_obj list" where
  "cover base p excluded =
     (let minimum = (if p \<in> set excluded then length p + 1 else 0);
          rest = filter (\<lambda>s. s \<noteq> p) excluded;
          q = commonPrefix rest;
          letters = concat (sorted_set (map (\<lambda>s. take 1 (drop (length p) s)) rest));
          lasts = concat (sorted_set (map (\<lambda>s. drop (length s - 1) s) rest))
      in if rest = [] then Inr [copy_rule base [(''stemStartsWithText'', p)] minimum]
      else if length p < length q then
        bindE (cover base q rest) (\<lambda>rs. Inr
          (copy_rule base [(''stemStartsWithText'', p), (''stemNotStartsWithText'', q)] minimum # rs))
      else if list_all (\<lambda>s. length s = length p + 1) rest \<and> minimum = 0 \<and> \<not> (p \<noteq> [] \<and> last p \<in> set letters) then Inr
        [copy_rule base [(''stemStartsWithText'', p), (''stemNotEndsWith'', units letters)] 0,
         copy_rule base [(''stemStartsWithText'', p), (''stemEndsWith'', units letters)] (length p + 2)]
      else
        bindE (mapE (\<lambda>u. coverEnding base p (filter (\<lambda>s. s \<noteq> [] \<and> last s = u) rest) u minimum) lasts) (\<lambda>rss. Inr
          (copy_rule base [(''stemStartsWithText'', p), (''stemNotEndsWith'', units lasts)] minimum # concat rss)))"
  by pat_completeness auto
termination
proof (relation "measure (\<lambda>(base, p, excluded). Suc (length (concat excluded)) - length p)", goal_cases)
  case (2 base p excluded minimum rest q letters lasts)
  have "length q \<le> length (concat rest)" using 2(3) length_commonPrefix_concat by simp
  moreover have "length (concat rest) \<le> length (concat excluded)" using 2(2) concat_filter_length by simp
  ultimately show ?case using 2(7) by simp
qed simp

declare cover.simps [simp del]

text \<open>The class of first letters the copy for the other stems gets.\<close>

definition not_starting :: "rule_obj \<Rightarrow> jstr list \<Rightarrow> jstr" where
  "not_starting r firsts =
     (let inner = (case text_field r ''stemNotStartsWith'' of
          None \<Rightarrow> [] | Some c \<Rightarrow> if starts_with c [91] then slice c 1 (length c - 1) else c)
      in [91] @ inner @ concat firsts @ [93])"

definition split_fields :: "string list" where
  "split_fields = [''stemStartsWithText'', ''stemNotStartsWithText'', ''stemEndsWith'', ''stemNotEndsWith'']"

definition withoutStems :: "rule_obj \<Rightarrow> jstr list \<Rightarrow> eo_error + rule_obj list" where
  "withoutStems r stems = (case filter (\<lambda>k. rule_field r k \<noteq> JUndef) split_fields of
       k # _ \<Rightarrow> Inl (EoHasField (js k))
     | [] \<Rightarrow>
         let firsts = sorted_set (map (take 1) stems); base = without_key (js ''stemNotStartsWith'') r
         in bindE (mapE (\<lambda>first. cover base first (filter (\<lambda>s. take 1 s = first) stems)) firsts) (\<lambda>rss. Inr
              (obj_put (js ''stemNotStartsWith'') (JStr (not_starting r firsts)) r # concat rss)))"

end
