(* ===== verification/Eo_Final.thy ===== *)
theory Eo_Final
  imports Eo_Stems Final_Output
begin

text \<open>
  The final rule set of Esperanto (languages/eo/sources/build-final.mjs): the own rules, each marked when a Yomitan rule makes
  the same deinflection, then the Yomitan transforms the script keeps, with its constraints and without the excluded stems.
  Every other Yomitan transform is left out by name. The reasons of Yomitan's tests become any reason.

  The two files are JSON values; the conditions of a rule are arrays, and its texts are strings where its type has them.
  Identifiers of the transforms kept are texts.
\<close>

datatype eo_final_error =
    EfJson json_error
  | EfMerge merge_error
  | EfSplit eo_error
  | EfKeptIsOwn jstr
  | EfUnaccounted jstr
  | EfNoTransform jstr
  | EfType
  | EfFile

definition merge_result :: "merge_error + 'a \<Rightarrow> eo_final_error + 'a" where
  "merge_result x = (case x of Inl e \<Rightarrow> Inl (EfMerge e) | Inr v \<Rightarrow> Inr v)"

definition split_result :: "eo_error + 'a \<Rightarrow> eo_final_error + 'a" where
  "split_result x = (case x of Inl e \<Rightarrow> Inl (EfSplit e) | Inr v \<Rightarrow> Inr v)"

section \<open>Tables\<close>

definition strings :: "string list \<Rightarrow> json" where
  "strings xs = JArr (map (\<lambda>x. JStr (js x)) xs)"

definition CONTENT :: json where
  "CONTENT = strings [''n'', ''v'', ''adj'', ''adv'']"

definition LETTERS :: rule_obj where
  "LETTERS = [(js ''stemCharacters'', JStr (js ''[^ ]''))]"

definition LONG_CONTENT :: rule_obj where
  "LONG_CONTENT = [(js ''stemMinLength'', JNum 3)] @ LETTERS @ [(js ''conditionsOut'', CONTENT)]"

definition KEPT :: "(jstr \<times> rule_obj) list" where
  "KEPT = [(eo ''-ujo (adjective)'', LETTERS), (eo ''-ujo (verb)'', LETTERS)] @
     map (\<lambda>i. (eo i, LONG_CONTENT)) [''ekster-'', ''^jus-'', ''ek-'', ''el-'', ''dis-'', ''for-'', ''kun-'', ''mis-'']"

text \<open>The keys of \<open>REMOVED\<close>, whose reasons are not read.\<close>

definition REMOVED :: "jstr list" where
  "REMOVED = map js
    [''accusative'', ''plural'', ''diminutive'', ''directional'', ''locational'', ''adjectival'', ''adverbial (adj -> adv)'',
     ''adverbial (v -> adv)'', ''-ejo (noun)'', ''-ejo (verb)'', ''-ujo (noun)'', ''-ebla'', ''-ado'', ''mal-'']"

text \<open>\<open>i in REMOVED\<close>\<close>

definition in_removed :: "jstr \<Rightarrow> bool" where
  "in_removed i \<longleftrightarrow> i \<in> set REMOVED \<or> inherited i \<noteq> None"

section \<open>The same deinflection\<close>

definition items :: "json \<Rightarrow> string \<Rightarrow> eo_final_error + json list" where
  "items v k = (if nullish v then Inl EfType else array_items EfType (obj_get v (js k)))"

definition text_of :: "json \<Rightarrow> string \<Rightarrow> eo_final_error + jstr" where
  "text_of v k = (case obj_get v (js k) of JStr s \<Rightarrow> Inr s | _ \<Rightarrow> Inl EfType)"

definition rule_type :: "json \<Rightarrow> string \<Rightarrow> bool" where
  "rule_type v t \<longleftrightarrow> obj_get v (js ''type'') = JStr (js t)"

definition conditions_overlap :: "json list \<Rightarrow> json list \<Rightarrow> bool" where
  "conditions_overlap a b \<longleftrightarrow> a = [] \<or> b = [] \<or> list_ex (\<lambda>c. list_ex (strict_eq c) b) a"

definition sameDeinflection :: "json \<Rightarrow> json \<Rightarrow> eo_final_error + bool" where
  "sameDeinflection o' y =
     bindE (items o' ''conditionsOut'') (\<lambda>a. bindE (items y ''conditionsOut'') (\<lambda>b.
     if \<not> conditions_overlap a b then Inr False
     else if rule_type y ''suffix'' \<and> (rule_type o' ''suffix'' \<or> rule_type o' ''wholeWord'') then
       bindE (text_of o' ''inflected'') (\<lambda>oi. bindE (text_of y ''inflected'') (\<lambda>yi.
       if \<not> ends_with oi yi then Inr False
       else bindE (text_of o' ''deinflected'') (\<lambda>od. bindE (text_of y ''deinflected'') (\<lambda>yd.
         Inr (od = slice oi 0 (length oi - length yi) @ yd)))))
     else if rule_type y ''prefix'' \<and> rule_type o' ''circumfix'' then Inr
       (strict_eq (obj_get o' (js ''inflectedPrefix'')) (obj_get y (js ''inflected'')) \<and>
        strict_eq (obj_get o' (js ''deinflectedPrefix'')) (obj_get y (js ''deinflected'')) \<and>
        strict_eq (obj_get o' (js ''inflectedSuffix'')) (obj_get o' (js ''deinflectedSuffix'')))
     else Inr False))"

section \<open>The own transforms\<close>

definition plain_of :: "json \<Rightarrow> rule_obj" where
  "plain_of r = without_key (js ''source'') (object_entries r)"

text \<open>A rule without its source, and whether a Yomitan rule makes the same deinflection.\<close>

definition own_rule_source :: "json list \<Rightarrow> json \<Rightarrow> eo_final_error + rule_obj \<times> rule_source" where
  "own_rule_source ys r =
     (if nullish r then Inl EfType
      else bindE (mapE (sameDeinflection (JObj (plain_of r))) ys) (\<lambda>same.
        Inr (plain_of r, if list_ex id same then Both else Own)))"

definition shared_source :: "rule_source list \<Rightarrow> rule_source" where
  "shared_source sources = (case ls_of sources of [s] \<Rightarrow> s | _ \<Rightarrow> Own)"

definition with_source :: "rule_source \<Rightarrow> rule_obj \<times> rule_source \<Rightarrow> json" where
  "with_source shared = (\<lambda>(r, source).
     JObj (if source = shared then r else obj_put (js ''source'') (JStr (source_name source)) r))"

type_synonym built_transform = "json \<times> rule_source list"

definition own_transform :: "json list \<Rightarrow> json \<Rightarrow> eo_final_error + built_transform" where
  "own_transform ys t =
     bindE (items t ''rules'') (\<lambda>rules. bindE (mapE (own_rule_source ys) rules) (\<lambda>marked.
       let shared = shared_source (map snd marked) in Inr
       (JObj ([(js ''id'', obj_get t (js ''id'')), (js ''name'', obj_get t (js ''name'')),
          (js ''description'', obj_get t (js ''description'')), (js ''source'', JStr (source_name shared))] @
          filter (\<lambda>e. snd e \<noteq> JUndef) [(js ''optional'', obj_get t (js ''optional''))] @
          [(js ''rules'', JArr (map (with_source shared) marked))]),
        map snd marked)))"

section \<open>The Yomitan transforms\<close>

definition constrained :: "rule_obj \<Rightarrow> json \<Rightarrow> rule_obj" where
  "constrained constraints r = fold (\<lambda>(k, v). obj_put k v) constraints (plain_of r)"

definition kept_copies :: "jstr \<Rightarrow> rule_obj \<Rightarrow> json \<Rightarrow> eo_final_error + rule_obj list" where
  "kept_copies i constraints r =
     (if nullish r then Inl EfType
      else let k = constrained constraints r in
        split_result (bindE (excluded_of (exclusionKey i k)) (\<lambda>ex. case ex of
          None \<Rightarrow> Inr [k] | Some stems \<Rightarrow> withoutStems k (map fst stems))))"

definition yomitan_kept :: "jstr \<Rightarrow> rule_obj \<Rightarrow> json \<Rightarrow> eo_final_error + built_transform" where
  "yomitan_kept i constraints t =
     bindE (items t ''rules'') (\<lambda>rules. bindE (mapE (kept_copies i constraints) rules) (\<lambda>copies. Inr
       (JObj (obj_put (js ''rules'') (JArr (map JObj (concat copies)))
         (obj_put (js ''source'') (JStr (source_name Yomitan)) (plain_of t))),
        replicate (length (concat copies)) Yomitan)))"

definition yomitan_transform :: "json list \<Rightarrow> json \<Rightarrow> eo_final_error + built_transform list" where
  "yomitan_transform own_ids t =
     (if nullish t then Inl EfType
      else case obj_get t (js ''id'') of
        JStr i \<Rightarrow> (case map_of KEPT i of
            Some constraints \<Rightarrow>
              if JStr i \<in> set own_ids then Inl (EfKeptIsOwn i)
              else bindE (yomitan_kept i constraints t) (\<lambda>b. Inr [b])
          | None \<Rightarrow> if in_removed i then Inr [] else Inl (EfUnaccounted i))
      | v \<Rightarrow> if in_removed (to_js v) then Inr [] else Inl (EfUnaccounted (to_js v)))"

section \<open>The build\<close>

definition transforms_in :: "json \<Rightarrow> eo_final_error + json list" where
  "transforms_in v = items v ''transforms''"

definition missing_ids :: "json list \<Rightarrow> jstr list" where
  "missing_ids ts = filter (\<lambda>i. JStr i \<notin> (\<lambda>t. obj_get t (js ''id'')) ` set ts) (map fst KEPT @ REMOVED)"

text \<open>The rules of a transform come before the next transform's, as \<open>flatMap\<close> has them.\<close>

definition rules_of_all :: "json list \<Rightarrow> eo_final_error + json list" where
  "rules_of_all ts = bindE (mapE (\<lambda>t. items t ''rules'') ts) (\<lambda>rss. Inr (concat rss))"

definition build_eo_final :: "json \<Rightarrow> json \<Rightarrow> eo_final_error + built_transform list" where
  "build_eo_final own yomitan =
     bindE (merge_result (mergeTransforms own yomitan)) (\<lambda>_.
     bindE (transforms_in yomitan) (\<lambda>yts.
     bindE (rules_of_all yts) (\<lambda>ys.
     bindE (transforms_in own) (\<lambda>ots.
     bindE (mapE (own_transform ys) ots) (\<lambda>mine.
     bindE (mapE (yomitan_transform (map (\<lambda>t. obj_get t (js ''id'')) ots)) yts) (\<lambda>theirs.
     if missing_ids yts = [] then Inr (mine @ concat theirs) else Inl (EfNoTransform (hd (missing_ids yts)))))))))"

definition eo_final_pack :: "json \<Rightarrow> built_transform list \<Rightarrow> json" where
  "eo_final_pack own bs = JObj [(js ''schema'', JNum 1), (js ''conditions'', obj_get own (js ''conditions'')),
     (js ''transforms'', JArr (map fst bs))]"

definition source_count :: "built_transform list \<Rightarrow> rule_source \<Rightarrow> nat" where
  "source_count bs s = length (filter (\<lambda>x. x = s) (concat (map snd bs)))"

text \<open>Yomitan's tests: column 5 of every row becomes \<open>*\<close>.\<close>

definition any_reason :: "jstr \<Rightarrow> jstr" where
  "any_reason line =
     (if starts_with line [35] \<or> line = [] then line else join [9] (put_cell (split_on 9 line) 5 [42]))"

definition any_reasons :: "jstr \<Rightarrow> jstr" where
  "any_reasons content = join [10] (map any_reason (split_on 10 content))"

section \<open>The command\<close>

text \<open>\<open>args[0] === '--out' ? resolve(args[1]) : \<dots>\<close>: \<open>None\<close> is the transforms.json of the pack.\<close>

definition out_target :: "jstr list \<Rightarrow> eo_final_error + jstr option" where
  "out_target args = (case args of
       a # rest \<Rightarrow> if a = js ''--out'' then (case rest of f # _ \<Rightarrow> Inr (Some f) | [] \<Rightarrow> Inl EfType) else Inr None
     | [] \<Rightarrow> Inr None)"

record eo_outcome =
  eo_tests :: "jstr option"
  eo_written :: "(jstr option \<times> jstr) option"
  eo_result :: "eo_final_error + nat \<times> nat \<times> nat \<times> nat"

definition read_eo :: "jstr option \<Rightarrow> eo_final_error + json" where
  "read_eo content = (case content of
       None \<Rightarrow> Inl EfFile
     | Some s \<Rightarrow> (case parseJson s of Inl e \<Rightarrow> Inl (EfJson e) | Inr v \<Rightarrow> Inr v))"

definition write_eo_final :: "jstr list \<Rightarrow> json \<Rightarrow> built_transform list \<Rightarrow> jstr option \<Rightarrow> eo_outcome" where
  "write_eo_final args own bs tests = (case tests of
       None \<Rightarrow> \<lparr>eo_tests = None, eo_written = None, eo_result = Inl EfFile\<rparr>
     | Some content \<Rightarrow> (case out_target args of
           Inl e \<Rightarrow> \<lparr>eo_tests = Some (any_reasons content), eo_written = None, eo_result = Inl e\<rparr>
         | Inr target \<Rightarrow> \<lparr>eo_tests = Some (any_reasons content),
             eo_written = Some (target, formatTransforms (eo_final_pack own bs)),
             eo_result = Inr (length bs, source_count bs Own, source_count bs Both, source_count bs Yomitan)\<rparr>))"

definition eo_final_main :: "jstr list \<Rightarrow> jstr option \<Rightarrow> jstr option \<Rightarrow> jstr option \<Rightarrow> eo_outcome" where
  "eo_final_main args own_text yomitan_text tests =
     (case bindE (read_eo own_text) (\<lambda>own. bindE (read_eo yomitan_text) (\<lambda>yomitan.
         bindE (build_eo_final own yomitan) (\<lambda>bs. Inr (own, bs)))) of
        Inl e \<Rightarrow> \<lparr>eo_tests = None, eo_written = None, eo_result = Inl e\<rparr>
      | Inr (own, bs) \<Rightarrow> write_eo_final args own bs tests)"

end
