(* ===== verification/Eo_Own.thy ===== *)
theory Eo_Own
  imports Eo_Stems
begin

text \<open>
  languages/eo/sources/build-own.mjs: the rules of Esperanto, built by \<open>transform\<close>, \<open>suffix\<close>, \<open>whole\<close> and \<open>add\<close> in
  the order of the script, split by the stems they leave out, and written as own.json. In the tables \<open>^\<close> stands before a
  letter with its accent, \<open>^q\<close> is an apostrophe and \<open>^>\<close> an arrow.
\<close>

section \<open>Transforms and rules\<close>

record eo_entry =
  et_id :: jstr
  et_name :: jstr
  et_description :: jstr
  et_optional :: bool
  et_rules :: "rule_obj list"

type_synonym eo_gen = "eo_entry list"
type_synonym eo_op = "eo_gen \<Rightarrow> eo_error + eo_gen"

definition eo_condition :: "string \<Rightarrow> string \<Rightarrow> jstr \<times> json" where
  "eo_condition k name = (js k, JObj [(js ''name'', JStr (js name)), (js ''isDictionaryForm'', JBool True)])"

definition eo_conditions :: "(jstr \<times> json) list" where
  "eo_conditions = [eo_condition ''v'' ''Verb'', eo_condition ''n'' ''Noun'', eo_condition ''adj'' ''Adjective'',
     eo_condition ''adv'' ''Adverb'']"

definition eo_transform :: "jstr \<Rightarrow> jstr \<Rightarrow> jstr \<Rightarrow> bool \<Rightarrow> eo_op" where
  "eo_transform i name description optional s = Inr (s @
     [\<lparr>et_id = i, et_name = name, et_description = description, et_optional = optional, et_rules = []\<rparr>])"

text \<open>\<open>byId.get(id).rules.push(rule)\<close>: \<open>byId\<close> has the last transform with the id.\<close>

fun push_last :: "jstr \<Rightarrow> rule_obj \<Rightarrow> eo_gen \<Rightarrow> eo_gen" where
  "push_last i r [] = []"
| "push_last i r (t # ts) =
     (if et_id t = i \<and> i \<notin> et_id ` set ts then t\<lparr>et_rules := et_rules t @ [r]\<rparr> # ts else t # push_last i r ts)"

definition eo_add :: "jstr \<Rightarrow> rule_obj \<Rightarrow> eo_op" where
  "eo_add i r s = (if i \<in> et_id ` set s then Inr (push_last i r s) else Inl (EoNoTransform i))"

definition texts :: "string list \<Rightarrow> json" where
  "texts xs = JArr (map (\<lambda>x. JStr (js x)) xs)"

definition NO_SPACE :: jstr where
  "NO_SPACE = js ''[^ ]''"

definition UPPER :: "rule_obj" where
  "UPPER = [(js ''stemNotStartsWith'', JStr (js ''{upper}''))]"

definition eo_suffix :: "jstr \<Rightarrow> jstr \<Rightarrow> jstr \<Rightarrow> string list \<Rightarrow> string list \<Rightarrow> int \<Rightarrow> rule_obj \<Rightarrow> eo_op" where
  "eo_suffix i inflected deinflected cin cout n extra = eo_add i
     ([(js ''type'', JStr (js ''suffix'')), (js ''inflected'', JStr inflected), (js ''deinflected'', JStr deinflected),
       (js ''conditionsIn'', texts cin), (js ''conditionsOut'', texts cout), (js ''stemMinLength'', JNum n),
       (js ''stemCharacters'', JStr NO_SPACE)] @ extra)"

definition whole_word :: "jstr \<Rightarrow> jstr \<Rightarrow> jstr \<Rightarrow> eo_op" where
  "whole_word i inflected deinflected = eo_add i
     [(js ''type'', JStr (js ''wholeWord'')), (js ''inflected'', JStr inflected), (js ''deinflected'', JStr deinflected),
      (js ''conditionsIn'', texts []), (js ''conditionsOut'', texts [])]"

definition eo_circumfix :: "jstr \<Rightarrow> jstr \<Rightarrow> string \<Rightarrow> string \<Rightarrow> string \<Rightarrow> string \<Rightarrow> int \<Rightarrow> eo_op" where
  "eo_circumfix i pre e d cin cout n = eo_add i
     [(js ''type'', JStr (js ''circumfix'')), (js ''inflectedPrefix'', JStr pre), (js ''deinflectedPrefix'', JStr []),
      (js ''inflectedSuffix'', JStr (js e)), (js ''deinflectedSuffix'', JStr (js d)), (js ''conditionsIn'', texts [cin]),
      (js ''conditionsOut'', texts [cout]), (js ''stemMinLength'', JNum n), (js ''stemCharacters'', JStr NO_SPACE)]"

text \<open>The statements of the script in order, and \<open>for (const x of xs)\<close>.\<close>

definition eo_run :: "eo_op list \<Rightarrow> eo_op" where
  "eo_run fs s = foldE (\<lambda>s f. f s) s fs"

definition eo_each :: "('a \<Rightarrow> eo_op) \<Rightarrow> 'a list \<Rightarrow> eo_op" where
  "eo_each f xs = eo_run (map f xs)"

section \<open>Declension\<close>

definition PRONOUNS :: "jstr list" where
  "PRONOUNS = map eo [''mi'', ''ci'', ''vi'', ''li'', ''^si'', ''^gi'', ''si'', ''ni'', ''ili'', ''oni'', ''ri'', ''^sli'', ''i^si'']"

definition DEMONSTRATIVES :: "(jstr \<times> jstr) list" where
  "DEMONSTRATIVES = map (\<lambda>(form, base). (eo form, eo base))
    [(''tiun ^ci'', ''tiu ^ci''), (''tiujn ^ci'', ''tiuj ^ci''), (''tion ^ci'', ''tio ^ci''), (''^ci tion'', ''^ci tio'')]"

definition U_CORRELATIVES :: "jstr list" where
  "U_CORRELATIVES = map eo [''kiu'', ''tiu'', ''iu'', ''^ciu'', ''neniu'']"

definition accusative :: eo_op where
  "accusative = (let i = js ''accusative'' in eo_run
    [eo_transform (eo ''accusative'') (eo ''accusative'')
      (eo ''Accusative -n: the direct object, or the direction of motion. domon ^> domo, belan ^> bela, domojn ^> domoj, hejmen ^> hejme, kien ^> kie, kion ^> kio, min ^> mi, kiun ^> kiu.'') False,
     eo_suffix i (js ''on'') (js ''o'') [] [] 2 [], eo_suffix i (js ''an'') (js ''a'') [] [] 2 [],
     eo_suffix i (js ''ojn'') (js ''oj'') [] [] 2 [], eo_suffix i (js ''ajn'') (js ''aj'') [] [] 2 [],
     eo_suffix i (js ''en'') (js ''e'') [] [] 2 [],
     eo_each (\<lambda>p. whole_word i (p @ js ''n'') p) PRONOUNS,
     eo_each (\<lambda>(form, base). whole_word i form base) DEMONSTRATIVES,
     eo_each (\<lambda>w. eo_run [whole_word i (w @ js ''n'') w, whole_word i (w @ js ''jn'') (w @ js ''j'')]) U_CORRELATIVES,
     whole_word i (js ''ion'') (js ''io''), whole_word i (js ''ian'') (js ''ia''), whole_word i (js ''ien'') (js ''ie''),
     whole_word i (js ''iajn'') (js ''iaj''), whole_word i (js ''unun'') (js ''unu''),
     whole_word i (js ''unujn'') (js ''unuj''),
     eo_suffix i (eo ''^qn'') [] [] [] 2 [], eo_suffix i (eo ''^qjn'') (eo ''^qj'') [] [] 2 []])"

definition plural :: eo_op where
  "plural = (let i = js ''plural'' in eo_run
    [eo_transform (eo ''plural'') (eo ''plural'')
      (eo ''Plural -j of nouns and adjectives. domoj ^> domo, belaj ^> bela, kiuj ^> kiu, miaj ^> mia.'') False,
     eo_suffix i (js ''oj'') (js ''o'') [] [] 2 UPPER, eo_suffix i (js ''aj'') (js ''a'') [] [] 2 UPPER,
     eo_each (\<lambda>w. whole_word i (w @ js ''j'') w) U_CORRELATIVES,
     whole_word i (js ''iaj'') (js ''ia''), whole_word i (js ''unuj'') (js ''unu''),
     eo_suffix i (eo ''^qj'') [] [] [] 2 []])"

section \<open>Verbs and participles\<close>

definition TENSES :: "(jstr \<times> jstr \<times> jstr \<times> jstr) list" where
  "TENSES = map (\<lambda>(i, name, ending, description). (js i, js name, js ending, eo description))
    [
     (''present'', ''present'', ''as'', ''Present tense -as: mi legas (I read, I am reading) ^> legi.''),
     (''past'', ''past'', ''is'', ''Past tense -is: mi legis (I read, I was reading) ^> legi.''),
     (''future'', ''future'', ''os'', ''Future tense -os: mi legos (I will read) ^> legi.''),
     (''conditional'', ''conditional'', ''us'', ''Conditional -us: mi legus (I would read) ^> legi.''),
     (''volitive'', ''volitive'', ''u'', ''Volitive -u, the imperative and the wish: legu! (read!), ke mi legu (that I should read) ^> legi.'')]"

definition tenses :: eo_op where
  "tenses = eo_each (\<lambda>(i, name, ending, description).
     eo_run [eo_transform i name description False, eo_suffix i ending (js ''i'') [] [''v''] 2 []]) TENSES"

definition PARTICIPLES :: "(string \<times> string \<times> string) list" where
  "PARTICIPLES =
    [
     (''ant'', ''present active participle'', ''legi ^> leganta (reading), leganto (reader, one who is reading), legante (while reading)''),
     (''int'', ''past active participle'', ''legi ^> leginta (having read), leginto (one who has read), leginte (having read)''),
     (''ont'', ''future active participle'', ''legi ^> legonta (about to read), legonto (one who will read), legonte (being about to read)''),
     (''at'', ''present passive participle'', ''legi ^> legata (being read), legato (one who is being read), legate (while being read)''),
     (''it'', ''past passive participle'', ''legi ^> legita (read, having been read), legito (one who has been read), legite (having been read)''),
     (''ot'', ''future passive participle'', ''legi ^> legota (to be read), legoto (one who will be read), legote (being about to be read)'')]"

definition FORMS :: "(string \<times> string \<times> string) list" where
  "FORMS = [
     (''a'', ''adj'', ''adjective''),
     (''o'', ''n'', ''noun''),
     (''e'', ''adv'', ''adverb'')]"

text \<open>The article of a description: \<open>an\<close> before an adjective or adverb.\<close>

definition participle :: "string \<times> string \<times> string \<Rightarrow> string \<times> string \<times> string \<Rightarrow> eo_op" where
  "participle = (\<lambda>(morpheme, name, examples) (ending, c, word).
     let i = js (morpheme @ ending);
         fullName = (if word = ''adjective'' then name else name @ '' ('' @ word @ '')'');
         article = (if word = ''adjective'' \<or> word = ''adverb'' then ''an'' else ''a'');
         description = ''-'' @ morpheme @ ending @ '', the '' @ name @ '' as '' @ article @ '' '' @ word @ '': '' @ examples @ ''.''
     in eo_run [eo_transform i (js fullName) (eo description) False, eo_suffix i i (js ''i'') [c] [''v''] 2 []])"

definition participles :: eo_op where
  "participles = eo_each (\<lambda>p. eo_each (participle p) FORMS) PARTICIPLES"

definition elision :: eo_op where
  "elision = eo_run
    [eo_transform (eo ''elision'') (eo ''elision'')
      (eo ''Elided article: l^q ^> la. (The elided -o of a noun is the processor elision: dank^q ^> danko.)'') False,
     whole_word (js ''elision'') (eo ''l^q'') (js ''la'')]"

section \<open>Word formation\<close>

definition ENDING_CONDITION :: "char \<Rightarrow> string" where
  "ENDING_CONDITION c = (if c = CHR ''o'' then ''n'' else if c = CHR ''a'' then ''adj'' else if c = CHR ''e'' then ''adv'' else ''v'')"

definition SUFFIXES :: "(string \<times> string \<times> string \<times> string \<times> string \<times> int \<times> string) list" where
  "SUFFIXES =
    [
     (''ad'', ''-ad- (continued action)'', ''ad'', ''oiae'', ''i'', 2, ''Continued or repeated action: kurado (running) ^> kuri, venadis ^> venadi ^> veni.''),
     (''a^c'', ''-a^c- (pejorative)'', ''a^c'', ''oaie'', ''='', 2, ''Poor or contemptible: doma^co (hovel) ^> domo, skriba^ci (to scribble) ^> skribi.''),
     (''a^j'', ''-a^j- (thing)'', ''a^j'', ''o'', ''iao'', 2, ''A concrete thing made, done or having a quality: man^ga^jo (food) ^> man^gi, nova^jo (news) ^> nova, bova^jo (beef) ^> bovo.''),
     (''an'', ''-an- (member)'', ''an'', ''o'', ''o'', 2, ''Member, follower or inhabitant: klubano ^> klubo, urbano ^> urbo.''),
     (''ar'', ''-ar- (group)'', ''ar'', ''o'', ''o'', 2, ''A collection: arbaro (forest) ^> arbo, vortaro (dictionary) ^> vorto.''),
     (''ebl'', ''-ebl- (possible)'', ''ebl'', ''aeo'', ''i'', 2, ''Possible to: farebla (feasible) ^> fari, kompreneble (of course) ^> kompreni.''),
     (''ec'', ''-ec- (quality)'', ''ec'', ''o'', ''ao'', 2, ''The quality or state: beleco (beauty) ^> bela, infaneco (childhood) ^> infano.''),
     (''eg'', ''-eg- (augmentative)'', ''eg'', ''oaie'', ''='', 2, ''Large or intense: domego ^> domo, grandega ^> granda, ridegi ^> ridi, bonege ^> bone.''),
     (''ej'', ''-ej- (place)'', ''ej'', ''o'', ''io'', 2, ''The place for: lernejo (school) ^> lerni, kafejo (caf^e) ^> kafo.''),
     (''em'', ''-em- (inclined to)'', ''em'', ''aoe'', ''i'', 2, ''Inclined to: laborema (hard-working) ^> labori, dormema (sleepy) ^> dormi.''),
     (''end'', ''-end- (to be done)'', ''end'', ''ae'', ''i'', 2, ''Must be done: pagenda (payable) ^> pagi, legenda (to be read) ^> legi.''),
     (''estr'', ''-estr- (leader)'', ''estr'', ''o'', ''o'', 2, ''The head of: lernejestro (headmaster) ^> lernejo, urbestro (mayor) ^> urbo.''),
     (''et'', ''-et- (diminutive)'', ''et'', ''oaie'', ''='', 2, ''Small or weak: dometo ^> domo, beleta ^> bela, rideti (to smile) ^> ridi.''),
     (''id'', ''-id- (offspring)'', ''id'', ''o'', ''o'', 2, ''The young or descendant: katido (kitten) ^> kato, bovido (calf) ^> bovo.''),
     (''ig'', ''-ig- (cause)'', ''ig'', ''iao'', ''iao'', 2, ''To make, to cause to be or do: purigi (to clean) ^> pura, mortigi (to kill) ^> morti.''),
     (''i^g'', ''-i^g- (become)'', ''i^g'', ''iao'', ''iao'', 2, ''To become, to get: ru^gi^gi (to blush) ^> ru^ga, levi^gi (to rise) ^> levi, edzi^gi (to marry) ^> edzo.''),
     (''il'', ''-il- (tool)'', ''il'', ''o'', ''i'', 2, ''The tool for: tran^cilo (knife) ^> tran^ci, ludilo (toy) ^> ludi.''),
     (''in'', ''-in- (female)'', ''in'', ''o'', ''o'', 2, ''Female: patrino (mother) ^> patro, re^gino (queen) ^> re^go, katino ^> kato.''),
     (''ind'', ''-ind- (worthy)'', ''ind'', ''ae'', ''i'', 2, ''Worthy of: la^udinda (praiseworthy) ^> la^udi, vidinda ^> vidi.''),
     (''ist'', ''-ist- (professional)'', ''ist'', ''o'', ''oi'', 2, ''A person occupied with: dentisto (dentist) ^> dento, kudristo (tailor) ^> kudri.''),
     (''uj'', ''-uj- (container)'', ''uj'', ''o'', ''o'', 2, ''Container, tree or country: sukerujo (sugar bowl) ^> sukero, pomujo ^> pomo.''),
     (''ul'', ''-ul- (person)'', ''ul'', ''o'', ''ao'', 2, ''A person characterised by: junulo (young person) ^> juna, ri^culo ^> ri^ca.'')]"

definition class_pair :: "jstr \<Rightarrow> jstr \<Rightarrow> int \<Rightarrow> char \<Rightarrow> char \<Rightarrow> eo_op" where
  "class_pair i afx n d b = eo_suffix i (afx @ js [d]) (js [b]) [ENDING_CONDITION d] [ENDING_CONDITION b] n UPPER"

definition word_suffix :: "string \<times> string \<times> string \<times> string \<times> string \<times> int \<times> string \<Rightarrow> eo_op" where
  "word_suffix = (\<lambda>(i, name, afx, derived, bases, n, description). eo_run
    [eo_transform (eo i) (eo name) (eo description) False,
     eo_each (\<lambda>d. eo_each (class_pair (eo i) (eo afx) n d) (if bases = ''='' then [d] else bases)) derived])"

definition word_suffixes :: eo_op where
  "word_suffixes = eo_each word_suffix SUFFIXES"

definition word_classes :: eo_op where
  "word_classes = eo_run
    [eo_transform (eo ''adverbClass'') (eo ''adverb'')
      (eo ''The adverb of a root whose adjective, noun or verb is the headword: rigide (rigidly) ^> rigida, ka^uze (because of) ^> ka^uzo, konsente (in agreement) ^> konsenti.'') False,
     eo_each (class_pair (js ''adverbClass'') [] 2 CHR ''e'') ''aoi'',
     eo_transform (eo ''otherWordClass'') (eo ''word class'')
      (eo ''Another word class of the same root, when a request turns it on: lana (woollen) ^> lano, skriba (written) ^> skribi, eldiro (utterance) ^> eldiri.'') True,
     eo_each (\<lambda>(d, b). class_pair (js ''otherWordClass'') [] 2 d b)
       [(CHR ''a'', CHR ''o''), (CHR ''a'', CHR ''i''), (CHR ''o'', CHR ''i'')]]"

definition PREFIXES :: "(string \<times> string \<times> string \<times> string \<times> int \<times> string) list" where
  "PREFIXES =
    [
     (''mal'', ''mal- (opposite)'', ''mal'', ''oaie'', 2, ''The opposite: malbona (bad) ^> bona, malfermi (to open) ^> fermi, malsupren ^> supren.''),
     (''ne'', ''ne- (not)'', ''ne'', ''ae'', 2, ''Not: nejuna ^> juna, nekonata (unknown) ^> konata.''),
     (''re'', ''re- (again, back)'', ''re'', ''i'', 2, ''Again or back: reveni (to come back) ^> veni, relegi ^> legi.''),
     (''ek'', ''ek- (beginning)'', ''ek'', ''i'', 2, ''Beginning or sudden action: ekridi (to burst out laughing) ^> ridi, ekvidi ^> vidi.''),
     (''dis'', ''dis- (apart)'', ''dis'', ''i'', 2, ''Apart, in all directions: disiri (to part) ^> iri, dis^jeti ^> ^jeti.''),
     (''for'', ''for- (away)'', ''for'', ''i'', 2, ''Away: foriri (to leave) ^> iri, forkuri ^> kuri.''),
     (''el'', ''el- (out)'', ''el'', ''i'', 2, ''Out, thoroughly: eliri (to go out) ^> iri, elpensi (to devise) ^> pensi.''),
     (''en'', ''en- (in)'', ''en'', ''i'', 2, ''In, into: eniri (to enter) ^> iri, enkuri ^> kuri.''),
     (''kun'', ''kun- (together)'', ''kun'', ''io'', 2, ''Together: kunveni (to meet) ^> veni, kunlabori ^> labori, kunsento (sympathy) ^> sento.''),
     (''al'', ''al- (to)'', ''al'', ''i'', 2, ''To, towards: aliri (to approach) ^> iri, aldoni (to add) ^> doni.''),
     (''anta^u'', ''anta^u- (before)'', ''anta^u'', ''i'', 2, ''Before: anta^udiri (to predict) ^> diri, anta^uvidi ^> vidi.''),
     (''^ce'', ''^ce- (at)'', ''^ce'', ''i'', 3, ''At: ^ceesti (to attend) ^> esti.''),
     (''^cirka^u'', ''^cirka^u- (around)'', ''^cirka^u'', ''i'', 2, ''Around: ^cirka^uvolvi (to wrap around) ^> volvi, ^cirka^urigardi ^> rigardi.''),
     (''de'', ''de- (from, off)'', ''de'', ''i'', 3, ''From, off: defali (to fall off) ^> fali, depreni (to take away) ^> preni.''),
     (''inter'', ''inter- (between)'', ''inter'', ''i'', 2, ''Between, mutually: intermiksi (to intermix) ^> miksi, inter^san^gi ^> ^san^gi.''),
     (''kontra^u'', ''kontra^u- (against)'', ''kontra^u'', ''i'', 2, ''Against: kontra^ustari (to oppose) ^> stari.''),
     (''per'', ''per- (by means of)'', ''per'', ''i'', 3, ''Achieved by: perlabori (to earn) ^> labori.''),
     (''post'', ''post- (after)'', ''post'', ''i'', 2, ''After, behind: postlasi (to leave behind) ^> lasi.''),
     (''preter'', ''preter- (past)'', ''preter'', ''i'', 2, ''Past, beyond: preterpasi (to pass by) ^> pasi, preter^sovi^gi ^> ^sovi^gi.''),
     (''pri'', ''pri- (about)'', ''pri'', ''i'', 2, ''About, making a verb transitive: prikalkuli (to calculate) ^> kalkuli, priskribi (to describe) ^> skribi.''),
     (''sub'', ''sub- (under)'', ''sub'', ''i'', 2, ''Under: submeti (to submit) ^> meti, subskribi (to sign) ^> skribi.''),
     (''super'', ''super- (over)'', ''super'', ''i'', 2, ''Over: super^suti (to shower) ^> ^suti.''),
     (''sur'', ''sur- (on)'', ''sur'', ''i'', 2, ''On: surmeti (to put on) ^> meti, surpa^si ^> pa^si.''),
     (''tra'', ''tra- (through)'', ''tra'', ''i'', 2, ''Through: trabati (to pierce) ^> bati, travivi (to live through) ^> vivi.''),
     (''trans'', ''trans- (across)'', ''trans'', ''i'', 2, ''Across: transkuri (to run across) ^> kuri, transdoni (to hand over) ^> doni.''),
     (''ge'', ''ge- (both sexes)'', ''ge'', ''o'', 2, ''Both sexes together: gepatroj (parents) ^> patroj, gefratoj ^> fratoj.''),
     (''pra'', ''pra- (primordial)'', ''pra'', ''oa'', 2, ''Primordial, of an earlier generation: praavo (great-grandfather) ^> avo, prahomo ^> homo.''),
     (''mis'', ''mis- (wrongly)'', ''mis'', ''i'', 2, ''Wrongly: miskompreni (to misunderstand) ^> kompreni.'')]"

definition word_prefix :: "string \<times> string \<times> string \<times> string \<times> int \<times> string \<Rightarrow> eo_op" where
  "word_prefix = (\<lambda>(i, name, pre, endings, n, description). eo_run
    [eo_transform (eo i) (eo name) (eo description) False,
     eo_each (\<lambda>e. eo_circumfix (eo i) (eo pre) [e] [e] (ENDING_CONDITION e) (ENDING_CONDITION e) n) endings])"

definition word_prefixes :: eo_op where
  "word_prefixes = eo_run
    [eo_each word_prefix PREFIXES,
     eo_transform (eo ''sen'') (eo ''sen- (without)'')
      (eo ''Without: senforta (weak) ^> forto, senbrue (noiselessly) ^> bruo, senkulpa (innocent) ^> kulpo.'') False,
     eo_each (\<lambda>e. eo_circumfix (js ''sen'') (js ''sen'') [e] ''o'' (ENDING_CONDITION e) ''n'' 2) ''ae'']"

section \<open>The build\<close>

definition eo_rules :: eo_op where
  "eo_rules = eo_run [accusative, plural, tenses, participles, elision, word_suffixes, word_classes, word_prefixes]"

text \<open>\<open>t.rules.flatMap(\<dots>)\<close>\<close>

definition split_rule :: "jstr \<Rightarrow> rule_obj \<Rightarrow> eo_error + rule_obj list" where
  "split_rule i r = bindE (excluded_of (exclusionKey i r)) (\<lambda>ex. case ex of
       None \<Rightarrow> Inr [r] | Some stems \<Rightarrow> withoutStems r (map fst stems))"

definition split_transform :: "eo_entry \<Rightarrow> eo_error + eo_entry" where
  "split_transform t = bindE (mapE (split_rule (et_id t)) (et_rules t)) (\<lambda>rss. Inr (t\<lparr>et_rules := concat rss\<rparr>))"

definition eo_build :: "eo_error + eo_gen" where
  "eo_build = bindE (eo_rules []) (mapE split_transform)"

definition eo_json :: "eo_entry \<Rightarrow> json" where
  "eo_json t = JObj
     ([(js ''id'', JStr (et_id t)), (js ''name'', JStr (et_name t)), (js ''description'', JStr (et_description t)),
       (js ''source'', JStr (js ''own''))] @
      (if et_optional t then [(js ''optional'', JBool True)] else []) @
      [(js ''rules'', JArr (map JObj (et_rules t)))])"

definition eo_pack :: "eo_gen \<Rightarrow> json" where
  "eo_pack s = JObj [(js ''schema'', JNum 1), (js ''conditions'', JObj eo_conditions),
     (js ''transforms'', JArr (map eo_json (filter (\<lambda>t. et_rules t \<noteq> []) s)))]"

text \<open>The script: the text of own.json and the numbers it prints.\<close>

definition eo_main :: "eo_error + jstr \<times> nat \<times> nat" where
  "eo_main = bindE eo_build (\<lambda>s. let ts = filter (\<lambda>t. et_rules t \<noteq> []) s in
     Inr (formatTransforms (eo_pack s), length ts, sum_list (map (length \<circ> et_rules) ts)))"

end
