(* ===== verification/Eo_Stems_Correct.thy ===== *)
theory Eo_Stems_Correct
  imports Eo_Stems Greek_Correct
begin

text \<open>
  The splitting of a rule by the stems it leaves out is exact: of the rules \<open>withoutStems\<close> gives, exactly one takes a stem
  the rule takes and does not leave out, and none takes any other stem.
\<close>

section \<open>Stems\<close>

lemma cps_low: "u < 55296 \<Longrightarrow> cps (u # s) = [u] # cps s"
  by (cases s) (auto simp: is_high_def)

lemma cps_low_append: "\<forall>u\<in>set p. u < 55296 \<Longrightarrow> cps (p @ s) = map (\<lambda>u. [u]) p @ cps s"
  by (induction p) (auto simp: cps_low)

lemma cpLength_append: "\<forall>u\<in>set p. u < 55296 \<Longrightarrow> cpLength (p @ s) = length p + cpLength s"
  by (simp add: cpLength_def cps_low_append)

lemma cpLength_0: "cpLength s = 0 \<longleftrightarrow> s = []"
  by (simp add: cpLength_def)

lemma cpLength_prefix:
  assumes "\<forall>u\<in>set p. u < 55296" "starts_with s p"
  shows "length p \<le> cpLength s" "length p + 1 \<le> cpLength s \<longleftrightarrow> s \<noteq> p"
proof -
  obtain r where s: "s = p @ r" using assms(2) by (auto simp: starts_with_iff)
  show "length p \<le> cpLength s" by (simp add: s cpLength_append [OF assms(1)])
  show "length p + 1 \<le> cpLength s \<longleftrightarrow> s \<noteq> p"
    using cpLength_0 [of r] unfolding s cpLength_append [OF assms(1)] by (cases r) auto
qed

lemma well_paired_last_low: "well_paired (s @ [u, v]) \<Longrightarrow> is_low v \<Longrightarrow> is_high u"
  by (induction s rule: well_paired.induct) (auto split: if_splits simp: is_high_def is_low_def)

lemma lastCp_low:
  assumes "well_paired s" "u < 55296"
  shows "lastCp s = Some u \<longleftrightarrow> s \<noteq> [] \<and> last s = u"
proof (cases s rule: rev_cases)
  case (snoc t v)
  show ?thesis
  proof (cases "is_low v \<and> t \<noteq> []")
    case True
    then obtain t' x where t: "t = t' @ [x]" by (metis append_butlast_last_id)
    have hx: "is_high x" using well_paired_last_low [of t' x v] assms(1) True by (simp add: snoc t)
    then have "lastCp s = Some (pair_cp x v)"
      using True by (simp add: lastCp_def snoc t cp_at_def)
    moreover have "55296 \<le> pair_cp x v" "u \<noteq> v"
      using hx True assms(2) by (auto simp: pair_cp_def is_high_def is_low_def)
    ultimately show ?thesis using assms(2) by (auto simp: snoc)
  next
    case False
    then show ?thesis by (auto simp: lastCp_def snoc)
  qed
qed (simp add: lastCp_def)

lemma firstCp_low:
  assumes "u < 55296"
  shows "firstCp s = Some u \<longleftrightarrow> take 1 s = [u]"
  using assms by (cases s rule: cp_first.cases) (auto simp: firstCp_def pair_cp_def is_high_def is_low_def)

lemma take_one: "take 1 s = [u] \<longleftrightarrow> starts_with s [u]"
  by (cases s) (auto simp: starts_with_def)

section \<open>Common prefixes\<close>

lemma starts_with_trans: "starts_with s p \<Longrightarrow> starts_with p q \<Longrightarrow> starts_with s q"
  by (auto simp: starts_with_iff)

lemma shrink_prefix: "starts_with w (shrink p w)" "starts_with p (shrink p w)"
proof (induction p w rule: shrink.induct)
  case (1 p w)
  show "starts_with w (shrink p w)"
  proof (cases "starts_with w p")
    case False
    then show ?thesis using 1(1) by (subst shrink.simps) simp
  qed (simp add: shrink.simps)
  show "starts_with p (shrink p w)"
  proof (cases "starts_with w p")
    case False
    then have "starts_with (butlast p) (shrink (butlast p) w)" using 1(2) by simp
    moreover have "starts_with p (butlast p)" by (simp add: starts_with_def butlast_conv_take)
    ultimately show ?thesis using False starts_with_trans by (subst shrink.simps) auto
  qed (simp add: shrink.simps starts_with_def)
qed

lemma foldl_shrink_prefix: "starts_with p (foldl shrink p ws) \<and> (\<forall>w\<in>set ws. starts_with w (foldl shrink p ws))"
proof (induction ws arbitrary: p)
  case (Cons x ws)
  then have IH: "starts_with (shrink p x) (foldl shrink (shrink p x) ws)" "\<forall>w\<in>set ws. starts_with w (foldl shrink (shrink p x) ws)"
    by blast+
  show ?case
    using starts_with_trans [OF shrink_prefix(2) IH(1)] starts_with_trans [OF shrink_prefix(1) IH(1)] IH(2) by simp
qed (simp add: starts_with_def)

lemma commonPrefix_prefix: "w \<in> set ws \<Longrightarrow> starts_with w (commonPrefix ws)"
  using foldl_shrink_prefix by (cases ws) auto

section \<open>Copies\<close>

lemma js_eq_iff: "js a = js b \<longleftrightarrow> a = b"
  by (simp add: js_def inj_map_eq_map inj_def)

lemma rule_field_put: "rule_field (obj_put (js k) v r) k' = (if k' = k then v else rule_field r k')"
  by (simp add: rule_field_def obj_get_JObj js_eq_iff del: js_simps)

lemma rule_field_without: "rule_field (without_key (js k) r) k' = (if k' = k then JUndef else rule_field r k')"
proof -
  have "map_of (without_key k0 r) k1 = (if k1 = k0 then None else map_of r k1)" for k0 k1
    by (induction r) (auto simp: without_key_def)
  then show ?thesis by (simp add: rule_field_def obj_get_JObj js_eq_iff del: js_simps)
qed

definition split_free :: "rule_obj \<Rightarrow> bool" where
  "split_free r \<longleftrightarrow> (\<forall>k\<in>set (''stemNotStartsWith'' # split_fields). rule_field r k = JUndef)"

lemma rule_field_fold:
  "distinct (map fst fs) \<Longrightarrow> rule_field (fold (\<lambda>(k, v). obj_put (js k) (JStr v)) fs r) k =
    (case map_of fs k of Some v \<Rightarrow> JStr v | None \<Rightarrow> rule_field r k)"
proof (induction fs arbitrary: r)
  case (Cons f fs)
  obtain k' v where f: "f = (k', v)" by (cases f)
  have "map_of fs k' = None" using Cons.prems f by (simp add: map_of_eq_None_iff)
  then show ?case using Cons by (auto simp: f rule_field_put split: option.split)
qed simp

definition copy_fields :: "(string \<times> jstr) list \<Rightarrow> bool" where
  "copy_fields fs \<longleftrightarrow> distinct (map fst fs) \<and> fst ` set fs \<subseteq> set split_fields"

lemma rule_field_copy:
  assumes "copy_fields fs"
  shows "rule_field (copy_rule base fs n) k =
    (if k = ''stemMinLength'' \<and> min_length base < int n then JNum (int n)
     else case map_of fs k of Some v \<Rightarrow> JStr v | None \<Rightarrow> rule_field base k)"
  using assms by (auto simp: copy_rule_def Let_def rule_field_put rule_field_fold copy_fields_def split_fields_def
      simp del: js_simps split: option.split)

lemma min_length_copy: "copy_fields fs \<Longrightarrow> min_length (copy_rule base fs n) = max (min_length base) (int n)"
proof -
  assume fs: "copy_fields fs"
  have "map_of fs ''stemMinLength'' = None"
    using fs by (auto simp: copy_fields_def split_fields_def map_of_eq_None_iff)
  then show ?thesis by (simp add: min_length_def [of "copy_rule base fs n"] rule_field_copy [OF fs]) (simp add: min_length_def)
qed

lemma text_field_copy:
  assumes "copy_fields fs" "k \<noteq> ''stemMinLength''"
  shows "text_field (copy_rule base fs n) k = (case map_of fs k of Some v \<Rightarrow> Some v | None \<Rightarrow> text_field base k)"
  using assms by (simp add: text_field_def rule_field_copy split: option.split)

lemma when_copy:
  assumes "copy_fields fs" "split_free base"
  shows "k \<in> set split_fields \<Longrightarrow> when_field (copy_rule base fs n) k P = (case map_of fs k of Some v \<Rightarrow> P v | None \<Rightarrow> True)"
    "k \<in> {''stemCharacters'', ''stemContains'', ''stemStartsWith'', ''stemNotStartsWith''} \<Longrightarrow>
      when_field (copy_rule base fs n) k P = when_field base k P"
proof -
  show "when_field (copy_rule base fs n) k P = (case map_of fs k of Some v \<Rightarrow> P v | None \<Rightarrow> True)" if k: "k \<in> set split_fields"
  proof -
    have "k \<noteq> ''stemMinLength''" "text_field base k = None"
      using k assms(2) by (auto simp: split_free_def text_field_def split_fields_def)
    then show ?thesis by (simp add: when_field_def text_field_copy [OF assms(1)] split: option.split)
  qed
  show "when_field (copy_rule base fs n) k P = when_field base k P"
    if k: "k \<in> {''stemCharacters'', ''stemContains'', ''stemStartsWith'', ''stemNotStartsWith''}"
  proof -
    have "k \<noteq> ''stemMinLength''" using k by auto
    moreover have "map_of fs k = None"
      using k assms(1) by (auto simp: copy_fields_def split_fields_def map_of_eq_None_iff)
    ultimately show ?thesis by (simp add: when_field_def text_field_copy [OF assms(1)])
  qed
qed

lemma stem_ok_not_starting:
  "stem_ok m (obj_put (js ''stemNotStartsWith'') (JStr no) r) s \<longleftrightarrow>
    stem_ok m (without_key (js ''stemNotStartsWith'') r) s \<and> (case firstCp s of Some u \<Rightarrow> \<not> m no u | None \<Rightarrow> True)"
  "stem_ok m r s \<longleftrightarrow> stem_ok m (without_key (js ''stemNotStartsWith'') r) s \<and>
    when_field r ''stemNotStartsWith'' (\<lambda>c. case firstCp s of Some u \<Rightarrow> \<not> m c u | None \<Rightarrow> True)"
proof -
  let ?base = "without_key (js ''stemNotStartsWith'') r"
  have other: "when_field (obj_put (js ''stemNotStartsWith'') (JStr no) r) k P = when_field ?base k P"
    "when_field r k P = when_field ?base k P" if "k \<noteq> ''stemNotStartsWith''" for k P
    using that by (simp_all add: when_field_def text_field_def rule_field_put rule_field_without del: js_simps)
  have least: "min_length (obj_put (js ''stemNotStartsWith'') (JStr no) r) = min_length ?base" "min_length r = min_length ?base"
    by (simp_all add: min_length_def rule_field_put rule_field_without del: js_simps)
  have snsw: "when_field (obj_put (js ''stemNotStartsWith'') (JStr no) r) ''stemNotStartsWith'' P = P no"
    "when_field ?base ''stemNotStartsWith'' P" for P
    by (simp_all add: when_field_def text_field_def rule_field_put rule_field_without del: js_simps)
  show "stem_ok m (obj_put (js ''stemNotStartsWith'') (JStr no) r) s \<longleftrightarrow>
      stem_ok m ?base s \<and> (case firstCp s of Some u \<Rightarrow> \<not> m no u | None \<Rightarrow> True)"
    "stem_ok m r s \<longleftrightarrow> stem_ok m ?base s \<and>
      when_field r ''stemNotStartsWith'' (\<lambda>c. case firstCp s of Some u \<Rightarrow> \<not> m c u | None \<Rightarrow> True)"
    unfolding stem_ok_def least by (auto simp: other snsw simp del: js_simps)
qed

definition last_in :: "class_test \<Rightarrow> jstr \<Rightarrow> jstr \<Rightarrow> bool" where
  "last_in m c s \<longleftrightarrow> (case lastCp s of Some u \<Rightarrow> m c u | None \<Rightarrow> False)"

lemma stem_ok_copy:
  assumes "copy_fields fs" "split_free base"
  shows "stem_ok m (copy_rule base fs n) s \<longleftrightarrow> stem_ok m base s \<and> n \<le> cpLength s \<and>
    (case map_of fs ''stemStartsWithText'' of Some p \<Rightarrow> starts_with s p | None \<Rightarrow> True) \<and>
    (case map_of fs ''stemNotStartsWithText'' of Some p \<Rightarrow> \<not> starts_with s p | None \<Rightarrow> True) \<and>
    (case map_of fs ''stemEndsWith'' of Some c \<Rightarrow> last_in m c s | None \<Rightarrow> True) \<and>
    (case map_of fs ''stemNotEndsWith'' of Some c \<Rightarrow> \<not> last_in m c s | None \<Rightarrow> True)"
proof -
  have base: "when_field base k P" if "k \<in> set split_fields" for k P
    using that assms(2) by (auto simp: when_field_def text_field_def split_free_def)
  have keys: "''stemStartsWithText'' \<in> set split_fields" "''stemNotStartsWithText'' \<in> set split_fields"
    "''stemEndsWith'' \<in> set split_fields" "''stemNotEndsWith'' \<in> set split_fields"
    by (simp_all add: split_fields_def)
  have last: "(case lastCp s of Some u \<Rightarrow> m c u | None \<Rightarrow> False) = last_in m c s"
    "(case lastCp s of Some u \<Rightarrow> \<not> m c u | None \<Rightarrow> True) = (\<not> last_in m c s)" for c
    by (simp_all add: last_in_def split: option.split)
  show ?thesis
    unfolding stem_ok_def min_length_copy [OF assms(1)] last
    by (simp add: base keys when_copy(1) [OF assms] when_copy(2) [OF assms]) auto
qed

lemmas copy_shapes = stem_ok_copy [where fs = "[(''stemStartsWithText'', p)]" for p, simplified copy_fields_def split_fields_def, simplified]
  stem_ok_copy [where fs = "[(''stemStartsWithText'', p), (''stemNotStartsWithText'', q)]" for p q,
    simplified copy_fields_def split_fields_def, simplified]
  stem_ok_copy [where fs = "[(''stemStartsWithText'', p), (''stemNotEndsWith'', c)]" for p c,
    simplified copy_fields_def split_fields_def, simplified]
  stem_ok_copy [where fs = "[(''stemStartsWithText'', p), (''stemEndsWith'', c)]" for p c,
    simplified copy_fields_def split_fields_def, simplified]
  stem_ok_copy [where fs = "[(''stemStartsWithText'', p), (''stemEndsWith'', c), (''stemNotStartsWithText'', q)]" for p c q,
    simplified copy_fields_def split_fields_def, simplified]

section \<open>The copies cover the stems\<close>

text \<open>How many of the rules take a stem.\<close>

definition takers :: "class_test \<Rightarrow> rule_obj list \<Rightarrow> jstr \<Rightarrow> nat" where
  "takers m rs s = length (filter (\<lambda>r. stem_ok m r s) rs)"

lemma takers_simps [simp]:
  "takers m [] s = 0" "takers m (r # rs) s = (if stem_ok m r s then Suc (takers m rs s) else takers m rs s)"
  "takers m (rs @ rs') s = takers m rs s + takers m rs' s"
  by (simp_all add: takers_def)

lemma takers_concat: "takers m (concat rss) s = sum_list (map (\<lambda>rs. takers m rs s) rss)"
  by (induction rss) simp_all

context class_letters begin

lemma letters_low: "list_all letter p \<Longrightarrow> \<forall>u\<in>set p. u < 55296"
  using letter_low by (auto simp: list_all_iff)

lemma last_in_units:
  assumes "list_all letter ls" "well_paired s"
  shows "last_in m (units ls) s \<longleftrightarrow> s \<noteq> [] \<and> last s \<in> set ls"
proof
  assume "last_in m (units ls) s"
  then obtain u where u: "lastCp s = Some u" "u \<in> set ls"
    using bracket [OF assms(1)] by (auto simp: last_in_def units_def split: option.splits)
  then show "s \<noteq> [] \<and> last s \<in> set ls"
    using lastCp_low [OF assms(2), of u] letters_low [OF assms(1)] by auto
next
  assume s: "s \<noteq> [] \<and> last s \<in> set ls"
  then have "lastCp s = Some (last s)" using lastCp_low [OF assms(2), of "last s"] letters_low [OF assms(1)] by auto
  then show "last_in m (units ls) s" using s bracket [OF assms(1)] by (simp add: last_in_def units_def)
qed

lemma longer_stem: "list_all letter p \<Longrightarrow> starts_with s p \<Longrightarrow> length p + 1 \<le> cpLength s \<longleftrightarrow> s \<noteq> p"
  using cpLength_prefix(2) [OF letters_low] .

lemma prefix_letters: "list_all letter w \<Longrightarrow> starts_with w p \<Longrightarrow> list_all letter p"
  by (auto simp: starts_with_iff)

lemma commonPrefix_letters: "ws \<noteq> [] \<Longrightarrow> list_all (list_all letter) ws \<Longrightarrow> list_all letter (commonPrefix ws)"
  using commonPrefix_prefix [of "hd ws" ws] prefix_letters [of "hd ws"] by (cases ws) auto

lemma coverEnding_exact:
  assumes "coverEnding r p ex u n = Inr out" "split_free r" "list_all letter p" "list_all (list_all letter) ex" "letter u"
    "\<forall>x\<in>set ex. starts_with x p \<and> x \<noteq> [] \<and> last x = u" "ex \<noteq> []" "well_paired s"
  shows "takers m out s = (if stem_ok m r s \<and> starts_with s p \<and> s \<noteq> [] \<and> last s = u \<and> n \<le> cpLength s \<and> s \<notin> set ex then 1 else 0)"
  using assms
proof (induction r p ex u n arbitrary: out rule: coverEnding.induct)
  case (1 r p ex u n)
  let ?q = "commonPrefix ex"
  have q: "list_all letter ?q" "\<forall>x\<in>set ex. starts_with x ?q"
    using commonPrefix_letters [OF "1.prems"(7,4)] commonPrefix_prefix by blast+
  have qp: "starts_with s ?q \<Longrightarrow> length p \<le> length ?q \<Longrightarrow> starts_with s p"
  proof -
    assume "starts_with s ?q" "length p \<le> length ?q"
    moreover have "starts_with (hd ex) p" "starts_with (hd ex) ?q" using "1.prems"(6,7) q(2) by simp_all
    ultimately have "starts_with ?q p" by (auto simp: starts_with_iff append_eq_append_conv2)
    then show "starts_with s p" using \<open>starts_with s ?q\<close> starts_with_trans by blast
  qed
  have last: "last_in m (units [u]) s \<longleftrightarrow> s \<noteq> [] \<and> last s = u"
    using last_in_units [of "[u]" s] "1.prems"(5,8) by simp
  show ?case
  proof (cases "length ex = 1")
    case True
    then obtain x where x: "ex = [x]" by (auto simp: length_Suc_conv)
    then have q: "?q = x" by simp
    have "out = [copy_rule r [(''stemStartsWithText'', p), (''stemEndsWith'', units [u]), (''stemNotStartsWithText'', x)] n,
        copy_rule r [(''stemStartsWithText'', x), (''stemEndsWith'', units [u])] (max n (length x + 1))]"
      using "1.prems"(1) by (subst (asm) coverEnding.simps) (simp add: x)
    moreover have "starts_with x p" "starts_with s x \<Longrightarrow> length x + 1 \<le> cpLength s \<longleftrightarrow> s \<noteq> x" "starts_with x x"
      using "1.prems"(4,6) x longer_stem [of x s] by (simp_all add: starts_with_def)
    ultimately show ?thesis
      using "1.prems"(2) x starts_with_trans [of s x p] last by (auto simp: copy_shapes)
  next
    case False
    then have c: "length p < length ?q" "?q \<notin> set ex"
      using "1.prems"(1) by (auto simp: coverEnding.simps [of r p ex] Let_def split: if_splits)
    obtain rest where rest: "coverEnding r ?q ex u n = Inr rest"
      "out = copy_rule r [(''stemStartsWithText'', p), (''stemEndsWith'', units [u]), (''stemNotStartsWithText'', ?q)] n # rest"
      using "1.prems"(1) False c by (subst (asm) coverEnding.simps) (auto simp: Let_def)
    have "takers m rest s = (if stem_ok m r s \<and> starts_with s ?q \<and> s \<noteq> [] \<and> last s = u \<and> n \<le> cpLength s \<and> s \<notin> set ex then 1 else 0)"
      by (rule "1.IH" [OF refl False _ rest(1)]) (use "1.prems" c q in auto)
    then show ?thesis
      using rest(2) qp c(1) last q(2) "1.prems"(2) by (auto simp: copy_shapes)
  qed
qed

lemma takers_parts:
  assumes "distinct us" "\<And>u rs. (u, rs) \<in> set (zip us rss) \<Longrightarrow> takers m rs s = (if k = u \<and> P then 1 else 0)" "length rss = length us"
  shows "takers m (concat rss) s = (if k \<in> set us \<and> P then 1 else 0)"
  using assms
proof (induction us arbitrary: rss)
  case (Cons u us)
  then obtain rs rss' where rss: "rss = rs # rss'" by (cases rss) auto
  have "takers m (concat rss') s = (if k \<in> set us \<and> P then 1 else 0)"
    by (rule Cons.IH) (use Cons.prems rss in auto)
  moreover have "takers m rs s = (if k = u \<and> P then 1 else 0)" using Cons.prems(2) rss by simp
  ultimately show ?case using Cons.prems(1) rss by auto
qed simp

lemma sorted_set_units:
  assumes "\<forall>x\<in>set ws. \<exists>u. f x = [u]"
  shows "set (concat (sorted_set (map f ws))) = hd ` f ` set ws" "distinct (concat (sorted_set (map f ws)))"
proof -
  have s: "set (sorted_set (map f ws)) = f ` set ws" "distinct (sorted_set (map f ws))"
    by (simp_all add: sorted_set_def js_sort_def ls_of_def fold_ls_add_set fold_ls_add_distinct)
  then have one: "\<forall>x\<in>set (sorted_set (map f ws)). \<exists>u. x = [u]" using assms by auto
  have "concat xs = map hd xs" if "\<forall>x\<in>set xs. \<exists>u. x = [u]" for xs :: "jstr list"
    using that by (induction xs) auto
  then have concat: "concat (sorted_set (map f ws)) = map hd (sorted_set (map f ws))" using one by blast
  show "set (concat (sorted_set (map f ws))) = hd ` f ` set ws" unfolding concat by (simp add: s(1))
  show "distinct (concat (sorted_set (map f ws)))"
    unfolding concat distinct_map
  proof (intro conjI s(2) inj_onI)
    fix x y
    assume "x \<in> set (sorted_set (map f ws))" "y \<in> set (sorted_set (map f ws))" "hd x = hd y"
    moreover from this obtain u v where "x = [u]" "y = [v]" using one by blast
    ultimately show "x = y" by simp
  qed
qed

text \<open>A stem with a prefix that ends with one of the letters after it is the prefix and a letter, or longer.\<close>

lemma one_more_letter:
  assumes p: "list_all letter p" "p \<noteq> []" "last p \<notin> set ls" and ls: "list_all letter ls" and s: "starts_with s p" "last s \<in> set ls"
  shows "length p + 2 \<le> cpLength s \<longleftrightarrow> s \<notin> (\<lambda>u. p @ [u]) ` set ls"
proof -
  obtain r where r: "s = p @ r" using s(1) by (auto simp: starts_with_iff)
  have len: "cpLength s = length p + cpLength r" unfolding r by (rule cpLength_append [OF letters_low [OF p(1)]])
  have ne: "r \<noteq> []" using s(2) p(3) unfolding r by auto
  have "cpLength r = 1 \<longleftrightarrow> r = [last s]"
  proof
    assume "cpLength r = 1"
    then obtain c where c: "cps r = [c]" by (auto simp: cpLength_def length_Suc_conv)
    then have rc: "r = c" using concat_cps [of r] by simp
    have "length c \<le> 2" using c cps_length_le [of c r] by simp
    have low: "last r < 55296" using s(2) ne letters_low [OF ls] unfolding r by auto
    show "r = [last s]"
    proof (cases r rule: cps.cases)
      case (3 u v t)
      then have "is_high u \<and> is_low v \<and> t = []" using c by (auto split: if_splits)
      then show ?thesis using low 3 by (auto simp: is_low_def)
    qed (use ne r in auto)
  next
    assume "r = [last s]"
    then obtain u where "r = [u]" by blast
    then show "cpLength r = 1" by (simp add: cpLength_def)
  qed
  moreover have "0 < cpLength r" using ne cpLength_0 [of r] by simp
  moreover have "s \<in> (\<lambda>u. p @ [u]) ` set ls \<longleftrightarrow> r = [last s]" using s(2) unfolding r by (auto simp: ne)
  ultimately show ?thesis unfolding len by linarith
qed

text \<open>The first letters after a prefix, and the last letters, of stems.\<close>

lemma next_letters:
  assumes "\<forall>x\<in>set ws. starts_with x p \<and> length x = length p + 1"
  shows "set ws = (\<lambda>u. p @ [u]) ` set (concat (sorted_set (map (\<lambda>x. take 1 (drop (length p) x)) ws)))"
proof -
  have one: "x = p @ take 1 (drop (length p) x) \<and> (\<exists>u. take 1 (drop (length p) x) = [u])" if "x \<in> set ws" for x
  proof -
    obtain t where t: "x = p @ t" using assms \<open>x \<in> set ws\<close> by (auto simp: starts_with_iff)
    then have "length t = 1" using assms \<open>x \<in> set ws\<close> by auto
    then show ?thesis unfolding t by (auto simp: length_Suc_conv)
  qed
  have "set (concat (sorted_set (map (\<lambda>x. take 1 (drop (length p) x)) ws))) = hd ` (\<lambda>x. take 1 (drop (length p) x)) ` set ws"
    by (rule sorted_set_units(1)) (use one in blast)
  moreover have "(\<lambda>x. p @ [hd (take 1 (drop (length p) x))]) ` set ws = (\<lambda>x. x) ` set ws"
  proof (intro image_cong refl)
    fix x assume "x \<in> set ws"
    then obtain u where "x = p @ take 1 (drop (length p) x)" "take 1 (drop (length p) x) = [u]" using one by blast
    then show "p @ [hd (take 1 (drop (length p) x))] = x" by (metis list.sel(1))
  qed
  ultimately show ?thesis by (simp add: image_image)
qed

lemma last_letters:
  assumes "\<forall>x\<in>set ws. x \<noteq> []"
  shows "set (concat (sorted_set (map (\<lambda>x. drop (length x - 1) x) ws))) = last ` set ws"
    "distinct (concat (sorted_set (map (\<lambda>x. drop (length x - 1) x) ws)))"
proof -
  have one: "\<forall>x\<in>set ws. \<exists>u. drop (length x - 1) x = [u]"
    using assms by (metis append_butlast_last_id append_eq_conv_conj length_butlast)
  show "distinct (concat (sorted_set (map (\<lambda>x. drop (length x - 1) x) ws)))" by (rule sorted_set_units(2) [OF one])
  show "set (concat (sorted_set (map (\<lambda>x. drop (length x - 1) x) ws))) = last ` set ws"
    unfolding sorted_set_units(1) [OF one] image_image
    by (intro image_cong refl) (use assms in \<open>auto simp: last_conv_nth hd_drop_conv_nth\<close>)
qed

text \<open>The two ways a prefix is split when the stems to leave out branch after it.\<close>

lemma letters_exact:
  assumes r: "split_free r" and p: "list_all letter p" "p \<noteq> []" "last p \<notin> set letters" and ws: "list_all (list_all letter) ws"
    "\<forall>x\<in>set ws. starts_with x p \<and> length x = length p + 1" and s: "well_paired s"
    and letters: "letters = concat (sorted_set (map (\<lambda>x. take 1 (drop (length p) x)) ws))"
  shows "takers m [copy_rule r [(''stemStartsWithText'', p), (''stemNotEndsWith'', units letters)] 0,
      copy_rule r [(''stemStartsWithText'', p), (''stemEndsWith'', units letters)] (length p + 2)] s =
    (if stem_ok m r s \<and> starts_with s p \<and> s \<notin> set ws then 1 else 0)"
proof -
  have eq: "set ws = (\<lambda>u. p @ [u]) ` set letters" unfolding letters by (rule next_letters [OF ws(2)])
  have "letter u" if "u \<in> set letters" for u
  proof -
    have "p @ [u] \<in> set ws" unfolding eq using that by blast
    then have "list_all letter (p @ [u])" using ws(1) unfolding list_all_iff by blast
    then show ?thesis by simp
  qed
  then have lets: "list_all letter letters" by (simp add: list_all_iff)
  have "s \<in> set ws \<Longrightarrow> starts_with s p \<and> last s \<in> set letters" using eq by (auto simp: starts_with_iff)
  moreover have "last s \<in> set letters \<Longrightarrow> starts_with s p \<Longrightarrow> length p + 2 \<le> cpLength s \<longleftrightarrow> s \<notin> set ws"
    unfolding eq using one_more_letter [OF p lets] by blast
  moreover have "starts_with s p \<Longrightarrow> s \<noteq> []" using p(2) by (auto simp: starts_with_iff)
  ultimately show ?thesis using r last_in_units [OF lets s] by (auto simp: copy_shapes)
qed

lemma branch_exact:
  assumes run: "mapE (\<lambda>u. coverEnding r p (filter (\<lambda>x. x \<noteq> [] \<and> last x = u) ws) u n) lasts = Inr rss"
    and r: "split_free r" and p: "list_all letter p" "p \<noteq> []" and ws: "list_all (list_all letter) ws"
    "\<forall>x\<in>set ws. starts_with x p \<and> x \<noteq> []" and s: "well_paired s"
    and lasts: "lasts = concat (sorted_set (map (\<lambda>x. drop (length x - 1) x) ws))"
  shows "takers m (copy_rule r [(''stemStartsWithText'', p), (''stemNotEndsWith'', units lasts)] n # concat rss) s =
    (if stem_ok m r s \<and> starts_with s p \<and> n \<le> cpLength s \<and> s \<notin> set ws then 1 else 0)"
proof -
  have ne: "\<forall>x\<in>set ws. x \<noteq> []" using ws(2) by blast
  have set_lasts: "set lasts = last ` set ws" unfolding lasts by (rule last_letters(1) [OF ne])
  have lets: "list_all letter lasts" using ws unfolding list_all_iff set_lasts by auto
  have sne: "starts_with s p \<Longrightarrow> s \<noteq> []" using p(2) by (auto simp: starts_with_iff)
  have each: "takers m rs s = (if last s = u \<and> (stem_ok m r s \<and> starts_with s p \<and> n \<le> cpLength s \<and> s \<notin> set ws) then 1 else 0)"
    if "(u, rs) \<in> set (zip lasts rss)" for u rs
  proof -
    have one: "coverEnding r p (filter (\<lambda>x. x \<noteq> [] \<and> last x = u) ws) u n = Inr rs"
      using list_all2_iff [THEN iffD1, OF mapE_Inr [OF run]] that by auto
    have u: "u \<in> set lasts" using that by (auto dest: set_zip_leftD)
    have "takers m rs s = (if stem_ok m r s \<and> starts_with s p \<and> s \<noteq> [] \<and> last s = u \<and> n \<le> cpLength s \<and>
        s \<notin> set (filter (\<lambda>x. x \<noteq> [] \<and> last x = u) ws) then 1 else 0)"
      by (rule coverEnding_exact [OF one r p(1) _ _ _ _ s])
        (use ws u lets set_lasts in \<open>auto simp: list_all_iff filter_empty_conv\<close>)
    then show ?thesis using sne by auto
  qed
  have "takers m (concat rss) s = (if last s \<in> set lasts \<and> (stem_ok m r s \<and> starts_with s p \<and> n \<le> cpLength s \<and> s \<notin> set ws) then 1 else 0)"
    by (rule takers_parts [OF _ each mapE_length [OF run]]) (unfold lasts, rule last_letters(2) [OF ne], auto)
  then show ?thesis using r last_in_units [OF lets s] sne set_lasts by (auto simp: copy_shapes)
qed

lemma cover_exact:
  assumes "cover r p ex = Inr out" "split_free r" "list_all letter p" "p \<noteq> []" "list_all (list_all letter) ex"
    "\<forall>x\<in>set ex. starts_with x p" "well_paired s"
  shows "takers m out s = (if stem_ok m r s \<and> starts_with s p \<and> s \<notin> set ex then 1 else 0)"
  using assms
proof (induction r p ex arbitrary: out rule: cover.induct)
  case (1 r p ex)
  define n where "n = (if p \<in> set ex then length p + 1 else 0)"
  define rest where "rest = filter (\<lambda>x. x \<noteq> p) ex"
  define q where "q = commonPrefix rest"
  define letters where "letters = concat (sorted_set (map (\<lambda>x. take 1 (drop (length p) x)) rest))"
  define lasts where "lasts = concat (sorted_set (map (\<lambda>x. drop (length x - 1) x) rest))"
  have out: "(if rest = [] then Inr [copy_rule r [(''stemStartsWithText'', p)] n]
      else if length p < length q then bindE (cover r q rest) (\<lambda>rs. Inr
          (copy_rule r [(''stemStartsWithText'', p), (''stemNotStartsWithText'', q)] n # rs))
      else if list_all (\<lambda>x. length x = length p + 1) rest \<and> n = 0 \<and> \<not> (p \<noteq> [] \<and> last p \<in> set letters) then Inr
        [copy_rule r [(''stemStartsWithText'', p), (''stemNotEndsWith'', units letters)] 0,
         copy_rule r [(''stemStartsWithText'', p), (''stemEndsWith'', units letters)] (length p + 2)]
      else bindE (mapE (\<lambda>u. coverEnding r p (filter (\<lambda>x. x \<noteq> [] \<and> last x = u) rest) u n) lasts) (\<lambda>rss. Inr
          (copy_rule r [(''stemStartsWithText'', p), (''stemNotEndsWith'', units lasts)] n # concat rss))) = Inr out"
    using "1.prems"(1) unfolding cover.simps [of r p ex] Let_def n_def rest_def q_def letters_def lasts_def by simp
  have rest: "list_all (list_all letter) rest" "\<forall>x\<in>set rest. starts_with x p \<and> x \<noteq> p \<and> x \<noteq> []" "set ex \<subseteq> insert p (set rest)"
    "p \<in> set ex \<or> p \<notin> set ex \<and> rest = ex"
    using "1.prems"(4-6) by (auto simp: rest_def list_all_iff starts_with_iff filter_id_conv)
  have mem: "s \<in> set ex \<longleftrightarrow> s \<in> set rest \<or> (p \<in> set ex \<and> s = p)" by (auto simp: rest_def)
  have long: "starts_with s p \<Longrightarrow> n \<le> cpLength s \<longleftrightarrow> \<not> (p \<in> set ex \<and> s = p)"
    using longer_stem [OF "1.prems"(3), of s] by (auto simp: n_def)
  show ?case
  proof (cases "rest = []")
    case True
    then show ?thesis using out "1.prems"(2) long mem by (auto simp: copy_shapes)
  next
    case nonempty: False
    have q: "list_all letter q" "\<forall>x\<in>set rest. starts_with x q"
      unfolding q_def using commonPrefix_letters [OF nonempty rest(1)] commonPrefix_prefix by blast+
    show ?thesis
    proof (cases "length p < length q")
      case True
      obtain rs where rs: "cover r q rest = Inr rs" "out = copy_rule r [(''stemStartsWithText'', p), (''stemNotStartsWithText'', q)] n # rs"
        using out True nonempty by auto
      have IH: "takers m rs s = (if stem_ok m r s \<and> starts_with s q \<and> s \<notin> set rest then 1 else 0)"
        by (rule "1.IH" [OF n_def rest_def q_def letters_def lasts_def nonempty True rs(1) "1.prems"(2) q(1) _ rest(1) q(2) "1.prems"(7)])
          (use True in auto)
      have "starts_with (hd rest) p" "starts_with (hd rest) q" using rest(2) q(2) nonempty by simp_all
      then have "starts_with q p" using True by (auto simp: starts_with_iff append_eq_append_conv2)
      then have qp: "starts_with s q \<Longrightarrow> starts_with s p" "\<not> starts_with p q"
        using starts_with_trans True by (blast, auto simp: starts_with_iff)
      show ?thesis
        using IH rs(2) "1.prems"(2) long mem qp q(2) by (auto simp: copy_shapes)
    next
      case False
      have start: "\<forall>x\<in>set rest. starts_with x p \<and> x \<noteq> []" using rest(2) by blast
      show ?thesis
      proof (cases "list_all (\<lambda>x. length x = length p + 1) rest \<and> n = 0 \<and> \<not> (p \<noteq> [] \<and> last p \<in> set letters)")
        case True
        have "p \<notin> set ex" using True by (auto simp: n_def split: if_splits)
        moreover have "takers m out s = (if stem_ok m r s \<and> starts_with s p \<and> s \<notin> set rest then 1 else 0)"
          using out nonempty False True letters_exact [OF "1.prems"(2,3,4) _ rest(1) _ "1.prems"(7) letters_def] start "1.prems"(4)
          by (auto simp: list_all_iff)
        ultimately show ?thesis using mem by simp
      next
        case other: False
        obtain rss where rss: "mapE (\<lambda>u. coverEnding r p (filter (\<lambda>x. x \<noteq> [] \<and> last x = u) rest) u n) lasts = Inr rss"
          "out = copy_rule r [(''stemStartsWithText'', p), (''stemNotEndsWith'', units lasts)] n # concat rss"
          using out nonempty False other by auto
        show ?thesis
          unfolding rss(2) branch_exact [OF rss(1) "1.prems"(2,3,4) rest(1) start "1.prems"(7) lasts_def] using long mem by auto
      qed
    qed
  qed
qed

lemma not_starting_test:
  assumes c: "rule_field r ''stemNotStartsWith'' = JUndef \<or> (\<exists>c. rule_field r ''stemNotStartsWith'' = JStr c \<and> known c)"
    and firsts: "list_all letter (concat firsts)"
  shows "m (not_starting r firsts) u \<longleftrightarrow> u \<in> set (concat firsts) \<or>
    (\<exists>c. text_field r ''stemNotStartsWith'' = Some c \<and> m c u)"
  using c
proof
  assume "rule_field r ''stemNotStartsWith'' = JUndef"
  then show ?thesis using bracket [OF firsts] by (simp add: not_starting_def text_field_def)
next
  assume "\<exists>c. rule_field r ''stemNotStartsWith'' = JStr c \<and> known c"
  then obtain c where "rule_field r ''stemNotStartsWith'' = JStr c" "known c" by blast
  then show ?thesis using added [OF firsts] known_bare by (simp add: not_starting_def text_field_def)
qed

lemma first_letters:
  assumes stems: "\<forall>x\<in>set stems. x \<noteq> [] \<and> list_all letter x" and firsts: "firsts = sorted_set (map (take 1) stems)"
  shows "set firsts = take 1 ` set stems" "distinct firsts" "list_all letter (concat firsts)"
    "f \<in> set firsts \<longleftrightarrow> (\<exists>u\<in>set (concat firsts). f = [u])" "set (concat firsts) = hd ` set stems"
proof -
  have one: "take 1 x = [hd x]" if "x \<in> set stems" for x using stems that by (cases x) auto
  show set_firsts: "set firsts = take 1 ` set stems" and "distinct firsts"
    by (simp_all add: firsts sorted_set_def js_sort_def ls_of_def fold_ls_add_set fold_ls_add_distinct)
  have "set (concat firsts) = hd ` take 1 ` set stems" unfolding firsts by (rule sorted_set_units(1)) (use one in blast)
  then show units: "set (concat firsts) = hd ` set stems" unfolding image_image using one by (simp cong: image_cong)
  show "list_all letter (concat firsts)" unfolding list_all_iff units using stems by (auto simp: list_all_iff)
  show "f \<in> set firsts \<longleftrightarrow> (\<exists>u\<in>set (concat firsts). f = [u])" unfolding set_firsts units using one by (auto simp: image_iff)
qed

lemma withoutStems_exact:
  assumes out: "withoutStems r stems = Inr out" and s: "well_paired s"
    and c: "rule_field r ''stemNotStartsWith'' = JUndef \<or>
      (\<exists>c. rule_field r ''stemNotStartsWith'' = JStr c \<and> known c \<and> (\<forall>x\<in>set stems. \<not> m c (hd x)))"
    and stems: "\<forall>x\<in>set stems. x \<noteq> [] \<and> list_all letter x"
  shows "takers m out s = (if stem_ok m r s \<and> s \<notin> set stems then 1 else 0)"
proof -
  define firsts where "firsts = sorted_set (map (take 1) stems)"
  define base where "base = without_key (js ''stemNotStartsWith'') r"
  define no where "no = not_starting r firsts"
  have free: "\<forall>k\<in>set split_fields. rule_field r k = JUndef"
    using out unfolding withoutStems_def by (auto split: list.splits simp: filter_empty_conv)
  obtain rss where rss: "mapE (\<lambda>first. cover base first (filter (\<lambda>x. take 1 x = first) stems)) firsts = Inr rss"
    "out = obj_put (js ''stemNotStartsWith'') (JStr no) r # concat rss"
    using out unfolding withoutStems_def firsts_def base_def no_def by (auto split: list.splits simp: Let_def simp del: js_simps)
  have split: "split_free base" using free by (auto simp: split_free_def base_def rule_field_without simp del: js_simps)
  note firsts = first_letters [OF stems firsts_def]
  have test: "m no u \<longleftrightarrow> u \<in> set (concat firsts) \<or> (\<exists>c. text_field r ''stemNotStartsWith'' = Some c \<and> m c u)" for u
    unfolding no_def by (rule not_starting_test [OF _ firsts(3)]) (use c in blast)
  have each: "takers m rs s = (if take 1 s = f \<and> (stem_ok m base s \<and> s \<notin> set stems) then 1 else 0)" if "(f, rs) \<in> set (zip firsts rss)" for f rs
  proof -
    have run: "cover base f (filter (\<lambda>x. take 1 x = f) stems) = Inr rs"
      using list_all2_iff [THEN iffD1, OF mapE_Inr [OF rss(1)]] that by auto
    have "f \<in> set firsts" using that by (rule set_zip_leftD)
    then obtain u where f: "f = [u]" "u \<in> set (concat firsts)" using firsts(4) [of f] by blast
    then have u: "f = [u]" "letter u" using firsts(3) unfolding list_all_iff by blast+
    have "takers m rs s = (if stem_ok m base s \<and> starts_with s f \<and> s \<notin> set (filter (\<lambda>x. take 1 x = f) stems) then 1 else 0)"
      by (rule cover_exact [OF run split _ _ _ _ s]) (use u stems in \<open>auto simp: list_all_iff take_one [simplified]\<close>)
    then show ?thesis using take_one [of s u] u(1) by auto
  qed
  have rest: "takers m (concat rss) s = (if take 1 s \<in> set firsts \<and> (stem_ok m base s \<and> s \<notin> set stems) then 1 else 0)"
    by (rule takers_parts [OF firsts(2) each mapE_length [OF rss(1)]])
  have in_firsts: "take 1 s \<in> set firsts \<longleftrightarrow> (\<exists>u\<in>set (concat firsts). firstCp s = Some u)"
  proof -
    have "firstCp s = Some u \<longleftrightarrow> take 1 s = [u]" if "u \<in> set (concat firsts)" for u
      using letters_low [OF firsts(3)] that by (intro firstCp_low) blast
    then show ?thesis unfolding firsts(4) by blast
  qed
  note parts = takers_simps rest stem_ok_not_starting [where r = r and m = m and s = s, folded base_def]
  show ?thesis
  proof (cases "take 1 s \<in> set firsts")
    case True
    then obtain u where u: "u \<in> set (concat firsts)" "firstCp s = Some u" using in_firsts by blast
    then obtain x where x: "x \<in> set stems" "u = hd x" unfolding firsts(5) by blast
    then have "when_field r ''stemNotStartsWith'' (\<lambda>c. case firstCp s of Some u \<Rightarrow> \<not> m c u | None \<Rightarrow> True)"
      using c u(2) by (auto simp: when_field_def text_field_def)
    moreover have "m no u" using test u(1) by blast
    ultimately show ?thesis unfolding rss(2) parts using True u(2) by simp
  next
    case False
    then have no_test: "m no u \<longleftrightarrow> (\<exists>c. text_field r ''stemNotStartsWith'' = Some c \<and> m c u)" if "firstCp s = Some u" for u
      using test in_firsts that by blast
    have "s \<notin> set stems" using False firsts(1) by auto
    then show ?thesis unfolding rss(2) parts using False no_test by (auto simp: when_field_def split: option.splits)
  qed
qed

end

end
