(* ===== verification/Eo_Own_Correct.thy ===== *)
theory Eo_Own_Correct
  imports Eo_Own Eo_Stems_Correct
begin
text \<open>
  The rules of Esperanto: splitting a rule by the stems it leaves out (\<open>split_stems_exact\<close>), and the build, which always ends
  and leaves out exactly the listed stems (\<open>eo_build_exact\<close>).
\<close>

section \<open>Splitting\<close>

lemma split_stems:
  assumes "withoutStems r stems = Inr out" "well_paired s"
    and "rule_field r ''stemNotStartsWith'' = JUndef \<or>
      (\<exists>c. rule_field r ''stemNotStartsWith'' = JStr c \<and> resolved cat defs c \<and> (\<forall>x\<in>set stems. \<not> denoted cat defs c (hd x)))"
    and "\<forall>x\<in>set stems. x \<noteq> [] \<and> list_all class_letter x"
  shows "takers (denoted cat defs) out s = (if stem_ok (denoted cat defs) r s \<and> s \<notin> set stems then 1 else 0)"
  using assms by (rule classes.withoutStems_exact)

text \<open>A copy differs from the rule in the constraints of its stem only.\<close>

definition stem_fields :: "string list" where
  "stem_fields = [''stemNotStartsWith'', ''stemMinLength''] @ split_fields"

definition same_but_stem :: "rule_obj \<Rightarrow> rule_obj \<Rightarrow> bool" where
  "same_but_stem r r' \<longleftrightarrow> (\<forall>k. k \<notin> set stem_fields \<longrightarrow> rule_field r' k = rule_field r k)"

lemma same_refl: "same_but_stem r r"
  by (simp add: same_but_stem_def)

lemma same_put: "k \<in> set stem_fields \<Longrightarrow> same_but_stem r r' \<Longrightarrow> same_but_stem r (obj_put (js k) v r')"
  by (auto simp: same_but_stem_def rule_field_put simp del: js_simps)

lemma same_copy:
  assumes "same_but_stem r base" "fst ` set fs \<subseteq> set split_fields"
  shows "same_but_stem r (copy_rule base fs n)"
proof -
  have "same_but_stem r (fold (\<lambda>(k, v). obj_put (js k) (JStr v)) fs base)"
    using assms
  proof (induction fs arbitrary: base)
    case (Cons kv fs)
    obtain k v where kv: "kv = (k, v)" "k \<in> set stem_fields" using Cons.prems(2) by (cases kv) (auto simp: stem_fields_def)
    then have "same_but_stem r (obj_put (js k) (JStr v) base)" using same_put Cons.prems(1) by blast
    then show ?case using Cons.IH Cons.prems(2) by (simp add: kv(1))
  qed simp
  then show ?thesis using same_put [of "''stemMinLength''"] by (simp add: copy_rule_def Let_def stem_fields_def del: js_simps)
qed

lemma same_coverEnding:
  "coverEnding base p ws u n = Inr out \<Longrightarrow> r' \<in> set out \<Longrightarrow> same_but_stem base r'"
proof (induction base p ws u n arbitrary: out rule: coverEnding.induct)
  case (1 base p ws u n)
  have copy: "same_but_stem base (copy_rule base fs k)" if "fst ` set fs \<subseteq> set split_fields" for fs k
    using same_copy [OF same_refl that] .
  note step = 1(2) [unfolded coverEnding.simps [of base p ws u n] Let_def]
  show ?case
    using step 1(1,3)
    by (auto simp: split_fields_def bindE_def split: if_splits sum.splits intro!: copy)
qed

lemma same_cover:
  "cover base p ws = Inr out \<Longrightarrow> r' \<in> set out \<Longrightarrow> same_but_stem base r'"
proof (induction base p ws arbitrary: out rule: cover.induct)
  case (1 base p ws)
  have copy: "same_but_stem base (copy_rule base fs k)" if "fst ` set fs \<subseteq> set split_fields" for fs k
    using same_copy [OF same_refl that] .
  note step = 1(2) [unfolded cover.simps [of base p ws] Let_def]
  have ending: "same_but_stem base r'"
    if "mapE (\<lambda>u. coverEnding base p (f u) u n) us = Inr rss" "rs \<in> set rss" "r' \<in> set rs" for f n us rss rs
    using that same_coverEnding by (auto dest!: mapE_set)
  show ?case
    using step 1(1,3)
    by (auto simp: split_fields_def bindE_def split: if_splits sum.splits intro!: copy dest: ending)
qed

lemma same_withoutStems: "withoutStems r ws = Inr out \<Longrightarrow> r' \<in> set out \<Longrightarrow> same_but_stem r r'"
proof -
  assume out: "withoutStems r ws = Inr out" and r': "r' \<in> set out"
  define base where "base = without_key (js ''stemNotStartsWith'') r"
  have base: "same_but_stem r base"
    by (simp add: same_but_stem_def base_def stem_fields_def rule_field_without del: js_simps)
  obtain firsts rss c where rss: "mapE (\<lambda>f. cover base f (filter (\<lambda>s. take 1 s = f) ws)) firsts = Inr rss"
    and split: "out = obj_put (js ''stemNotStartsWith'') c r # concat rss"
    using out unfolding withoutStems_def base_def by (auto split: list.splits simp: Let_def simp del: js_simps)
  show "same_but_stem r r'"
  proof (cases "r' \<in> set (concat rss)")
    case True
    then obtain rs where rs: "rs \<in> set rss" "r' \<in> set rs" by auto
    obtain f where "cover base f (filter (\<lambda>s. take 1 s = f) ws) = Inr rs" using mapE_set [OF rss rs(1)] by blast
    then have "same_but_stem base r'" using rs(2) by (rule same_cover)
    then show ?thesis using base by (simp add: same_but_stem_def)
  next
    case False
    then have "r' = obj_put (js ''stemNotStartsWith'') c r" using r' split by simp
    then show ?thesis using same_put [OF _ same_refl, of "''stemNotStartsWith''"] by (simp add: stem_fields_def del: js_simps)
  qed
qed

text \<open>The stem a rule with literal affixes finds in a text, and the text it makes; whole-word rules have none.\<close>

definition found_stem :: "rule_obj \<Rightarrow> jstr \<Rightarrow> (jstr \<times> jstr) option" where
  "found_stem r s =
     (let type = rule_field r ''type''; i = affix r ''inflected''; d = affix r ''deinflected'';
          p = affix r ''inflectedPrefix''; q = affix r ''inflectedSuffix'';
          inner = slice s (length p) (length s - length q) in
      if type = JStr (js ''suffix'') \<and> ends_with s i then
        Some (slice s 0 (length s - length i), slice s 0 (length s - length i) @ d)
      else if type = JStr (js ''prefix'') \<and> starts_with s i then Some (drop (length i) s, d @ drop (length i) s)
      else if type = JStr (js ''circumfix'') \<and> length p + length q \<le> length s \<and> starts_with s p \<and> ends_with s q then
        Some (inner, affix r ''deinflectedPrefix'' @ inner @ affix r ''deinflectedSuffix'')
      else None)"

lemma type_names: "js ''suffix'' \<noteq> js ''prefix''" "js ''suffix'' \<noteq> js ''wholeWord''" "js ''suffix'' \<noteq> js ''circumfix''"
  "js ''prefix'' \<noteq> js ''wholeWord''" "js ''prefix'' \<noteq> js ''circumfix''" "js ''wholeWord'' \<noteq> js ''circumfix''"
  by (simp_all only: js_eq_iff) simp_all

lemma apply_stem:
  assumes "rule_field r ''type'' \<noteq> JStr (js ''wholeWord'')"
  shows "apply_rule m r s = (case found_stem r s of Some (stem, t) \<Rightarrow> if stem_ok m r stem then Some t else None | None \<Rightarrow> None)"
  using assms type_names by (auto simp: apply_rule_def found_stem_def Let_def simp del: js_simps)

lemma found_stem_same: "same_but_stem r r' \<Longrightarrow> found_stem r' s = found_stem r s"
proof -
  assume same: "same_but_stem r r'"
  have "affix r' k = affix r k" if "k \<notin> set stem_fields" for k
    using same that by (simp add: affix_def text_field_def same_but_stem_def)
  then have keys: "affix r' ''inflected'' = affix r ''inflected''" "affix r' ''deinflected'' = affix r ''deinflected''"
    "affix r' ''inflectedPrefix'' = affix r ''inflectedPrefix''" "affix r' ''inflectedSuffix'' = affix r ''inflectedSuffix''"
    "affix r' ''deinflectedPrefix'' = affix r ''deinflectedPrefix''"
    "affix r' ''deinflectedSuffix'' = affix r ''deinflectedSuffix''"
    by (simp_all add: stem_fields_def split_fields_def)
  have "rule_field r' ''type'' = rule_field r ''type''"
    using same by (simp add: same_but_stem_def stem_fields_def split_fields_def)
  then show ?thesis unfolding found_stem_def keys by simp
qed

lemma apply_same:
  assumes "same_but_stem r r'" "rule_field r ''type'' \<noteq> JStr (js ''wholeWord'')"
  shows "apply_rule m r' s = (case found_stem r s of Some (stem, t) \<Rightarrow> if stem_ok m r' stem then Some t else None | None \<Rightarrow> None)"
proof -
  have "rule_field r' ''type'' \<noteq> JStr (js ''wholeWord'')"
    using assms by (simp add: same_but_stem_def stem_fields_def split_fields_def)
  then show ?thesis using apply_stem found_stem_same [OF assms(1)] by simp
qed

lemma map_filter_takers:
  "(\<And>r. r \<in> set rs \<Longrightarrow> f r = (if stem_ok m r stem then Some t else None)) \<Longrightarrow>
    List.map_filter f rs = replicate (takers m rs stem) t"
  by (induction rs) (auto simp: map_filter_simps)

lemma map_filter_None: "(\<And>r. r \<in> set rs \<Longrightarrow> f r = None) \<Longrightarrow> List.map_filter f rs = []"
  by (induction rs) (auto simp: map_filter_simps)

text \<open>C15: Splitting a rule by stems loses and adds nothing: to every text, the copies together make exactly what the rule makes
  of it, once, but nothing when its stem is one of the listed.\<close>

theorem split_stems_exact:
  assumes out: "withoutStems r stems = Inr out"
    and type: "rule_field r ''type'' \<noteq> JStr (js ''wholeWord'')"
    and paired: "\<And>stem t. found_stem r s = Some (stem, t) \<Longrightarrow> well_paired stem"
    and first: "rule_field r ''stemNotStartsWith'' = JUndef \<or>
      (\<exists>c. rule_field r ''stemNotStartsWith'' = JStr c \<and> resolved cat defs c \<and> (\<forall>x\<in>set stems. \<not> denoted cat defs c (hd x)))"
    and stems: "\<forall>x\<in>set stems. x \<noteq> [] \<and> list_all class_letter x"
  shows "List.map_filter (\<lambda>r'. apply_rule (denoted cat defs) r' s) out =
    (case apply_rule (denoted cat defs) r s of
       Some t \<Rightarrow> if map_option fst (found_stem r s) \<in> Some ` set stems then [] else [t]
     | None \<Rightarrow> [])"
proof -
  let ?m = "denoted cat defs"
  have each: "apply_rule ?m r' s = (case found_stem r s of Some (stem, t) \<Rightarrow> if stem_ok ?m r' stem then Some t else None | None \<Rightarrow> None)"
    if "r' \<in> set (r # out)" for r'
    by (rule apply_same [OF _ type]) (use that same_withoutStems [OF out] same_refl in auto)
  show ?thesis
  proof (cases "found_stem r s")
    case None
    then have "apply_rule ?m r' s = None" if "r' \<in> set (r # out)" for r' using each [OF that] by simp
    then have none: "apply_rule ?m r s = None" "\<And>r'. r' \<in> set out \<Longrightarrow> apply_rule ?m r' s = None" by simp_all
    show ?thesis using map_filter_None [OF none(2)] none(1) by simp
  next
    case (Some p)
    obtain stem t where p: "p = (stem, t)" by (cases p)
    have f: "apply_rule ?m r' s = (if stem_ok ?m r' stem then Some t else None)" if "r' \<in> set (r # out)" for r'
      using each [OF that] Some p by simp
    have "List.map_filter (\<lambda>r'. apply_rule ?m r' s) out = replicate (takers ?m out stem) t"
      by (rule map_filter_takers) (use f in simp)
    moreover have "takers ?m out stem = (if stem_ok ?m r stem \<and> stem \<notin> set stems then 1 else 0)"
      by (rule split_stems [OF out _ first stems]) (use paired Some p in simp)
    ultimately show ?thesis using f [of r] Some p by auto
  qed
qed
definition kab_rule :: rule_obj where
  "kab_rule = [(js ''type'', JStr (js ''suffix'')), (js ''inflected'', JStr (js ''e'')), (js ''deinflected'', JStr (js ''a'')),
     (js ''stemMinLength'', JNum 2)]"

lemma kab_split: "\<not> isl (withoutStems kab_rule [js ''kat'', js ''kab'', js ''ann''])"
  by code_simp

lemma kab_texts:
  "found_stem kab_rule (js ''kate'') = Some (js ''kat'', js ''kata'')" "found_stem kab_rule (js ''kane'') = Some (js ''kan'', js ''kana'')"
  "apply_rule (denoted (\<lambda>_. []) []) kab_rule (js ''kane'') = Some (js ''kana'')"
  "well_paired (js ''kat'')" "well_paired (js ''kan'')" "js ''kat'' \<noteq> js ''kan''" "js ''kan'' \<noteq> js ''kab''" "js ''kan'' \<noteq> js ''ann''"
  by code_simp+

lemma kab_first: "rule_field kab_rule ''stemNotStartsWith'' = JUndef" "rule_field kab_rule ''type'' \<noteq> JStr (js ''wholeWord'')"
  by code_simp+

theorem split_stems_exact_witness:
  "\<exists>out. withoutStems kab_rule [js ''kat'', js ''kab'', js ''ann''] = Inr out \<and>
     List.map_filter (\<lambda>r'. apply_rule (denoted (\<lambda>_. []) []) r' (js ''kate'')) out = [] \<and>
     List.map_filter (\<lambda>r'. apply_rule (denoted (\<lambda>_. []) []) r' (js ''kane'')) out = [js ''kana'']"
proof -
  obtain out where out: "withoutStems kab_rule [js ''kat'', js ''kab'', js ''ann''] = Inr out"
    using kab_split by (cases "withoutStems kab_rule [js ''kat'', js ''kab'', js ''ann'']") auto
  have "List.map_filter (\<lambda>r'. apply_rule (denoted (\<lambda>_. []) []) r' s) out =
      (case apply_rule (denoted (\<lambda>_. []) []) kab_rule s of
         Some t \<Rightarrow> if map_option fst (found_stem kab_rule s) \<in> Some ` set [js ''kat'', js ''kab'', js ''ann''] then [] else [t]
       | None \<Rightarrow> [])" if "\<And>stem t. found_stem kab_rule s = Some (stem, t) \<Longrightarrow> well_paired stem" for s
    by (rule split_stems_exact [OF out kab_first(2) that]) (use kab_first(1) in \<open>simp_all add: class_letter_def\<close>)
  from this [of "js ''kate''"] this [of "js ''kane''"] show ?thesis
    using out kab_texts by (simp del: js_simps split: option.split)
qed

section \<open>The splits of the listed stems\<close>

text \<open>Whether stems can be split off does not depend on the rule.\<close>

lemma isl_bindE: "isl (bindE x (\<lambda>y. Inr (f y))) \<longleftrightarrow> isl x"
  by (cases x) auto

lemma isl_mapE: "isl (mapE f xs) \<longleftrightarrow> (\<exists>x\<in>set xs. isl (f x))"
proof (induction xs)
  case (Cons x xs)
  then show ?case by (cases "f x") (auto simp: isl_bindE)
qed simp

lemma isl_coverEnding: "isl (coverEnding base p ws u n) \<longleftrightarrow> isl (coverEnding base' p ws u n)"
proof (induction base p ws u n rule: coverEnding.induct)
  case (1 base p ws u n)
  show ?case
    by (subst (1 2) coverEnding.simps) (use 1 in \<open>simp add: Let_def isl_bindE\<close>)
qed

lemma isl_cover: "isl (cover base p ws) \<longleftrightarrow> isl (cover base' p ws)"
proof (induction base p ws rule: cover.induct)
  case (1 base p ws)
  show ?case
    by (subst cover.simps [of base p ws], subst cover.simps [of base' p ws],
        simp only: Let_def if_distrib [of isl] isl_bindE isl_mapE, intro if_cong bex_cong refl isl_coverEnding 1)
      simp_all
qed

lemma withoutStems_splits:
  assumes "\<forall>k\<in>set split_fields. rule_field r k = JUndef" "\<not> isl (withoutStems [] ws)"
  shows "\<exists>out. withoutStems r ws = Inr out"
proof -
  have "filter (\<lambda>k. rule_field q k \<noteq> JUndef) split_fields = []" if "q = r \<or> q = []" for q
    using that assms(1) by (auto simp: filter_empty_conv rule_field_def obj_get_def)
  then have shape: "isl (withoutStems q ws) \<longleftrightarrow> isl (mapE (\<lambda>f. cover (without_key (js ''stemNotStartsWith'') q) f
      (filter (\<lambda>s. take 1 s = f) ws)) (sorted_set (map (take 1) ws)))" if "q = r \<or> q = []" for q
    using that unfolding withoutStems_def by (simp add: Let_def isl_bindE)
  have "\<not> isl (withoutStems r ws)"
    using shape [of r] shape [of "[]"] assms(2) isl_cover [of "without_key (js ''stemNotStartsWith'') r" _ _ "without_key (js ''stemNotStartsWith'') []"]
    unfolding isl_mapE by simp
  then show ?thesis by (cases "withoutStems r ws") auto
qed

lemma listed_stems:
  "list_all (\<lambda>(key, stems). \<not> isl (withoutStems [] (map fst stems)) \<and>
     list_all (\<lambda>(s, w). s \<noteq> [] \<and> list_all (\<lambda>u. 97 \<le> u \<and> u \<le> 122) s) stems) EXCLUDED_STEMS"
  by code_simp

section \<open>The build ends\<close>

text \<open>A rule the script writes has none of the fields splitting needs, and a class reference at most for its first letter.
  \<open>runs K f N\<close>: with the transforms of \<open>K\<close> there, \<open>f\<close> succeeds, keeps every transform and adds those of \<open>N\<close>.\<close>

definition plain :: "rule_obj \<Rightarrow> bool" where
  "plain r \<longleftrightarrow> (\<forall>k\<in>set split_fields. rule_field r k = JUndef) \<and> rule_field r ''stemNotStartsWith'' \<in> {JUndef, JStr (js ''{upper}'')}"

definition eo_ok :: "eo_gen \<Rightarrow> bool" where
  "eo_ok s \<longleftrightarrow> (\<forall>t\<in>set s. inherited (et_id t) = None \<and> (\<forall>r\<in>set (et_rules t). plain r))"

definition runs :: "jstr set \<Rightarrow> eo_op \<Rightarrow> jstr set \<Rightarrow> bool" where
  "runs K f N \<longleftrightarrow> (\<forall>s. eo_ok s \<and> K \<subseteq> et_id ` set s \<longrightarrow> (\<exists>s'. f s = Inr s' \<and> eo_ok s' \<and> K \<union> N \<subseteq> et_id ` set s'))"

lemma runs_transform: "inherited i = None \<Longrightarrow> runs K (eo_transform i name d o') {i}"
  by (auto simp: runs_def eo_transform_def eo_ok_def)

lemma push_last_ids: "map et_id (push_last i r s) = map et_id s"
  by (induction s) auto

lemma push_last_rules:
  "t' \<in> set (push_last i r s) \<Longrightarrow> \<exists>t\<in>set s. et_id t' = et_id t \<and> set (et_rules t') \<subseteq> insert r (set (et_rules t))"
  by (induction s) (auto split: if_splits)

lemma runs_add: "i \<in> K \<Longrightarrow> plain r \<Longrightarrow> runs K (eo_add i r) {}"
proof (unfold runs_def, intro allI impI)
  fix s assume i: "i \<in> K" and r: "plain r" and s: "eo_ok s \<and> K \<subseteq> et_id ` set s"
  have "set (map et_id (push_last i r s)) = set (map et_id s)" by (simp only: push_last_ids)
  moreover have "eo_ok (push_last i r s)"
    using s r by (auto simp: eo_ok_def dest!: push_last_rules)
  ultimately show "\<exists>s'. eo_add i r s = Inr s' \<and> eo_ok s' \<and> K \<union> {} \<subseteq> et_id ` set s'"
    using i s by (auto simp: eo_add_def)
qed

lemma runs_run_Nil: "runs K (eo_run []) {}"
  by (simp add: runs_def eo_run_def)

lemma runs_run_Cons: "runs K f N \<Longrightarrow> runs (K \<union> N) (eo_run fs) {} \<Longrightarrow> runs K (eo_run (f # fs)) {}"
proof (unfold runs_def, intro allI impI)
  fix s assume f: "\<forall>s. eo_ok s \<and> K \<subseteq> et_id ` set s \<longrightarrow> (\<exists>s'. f s = Inr s' \<and> eo_ok s' \<and> K \<union> N \<subseteq> et_id ` set s')"
    and fs: "\<forall>s. eo_ok s \<and> K \<union> N \<subseteq> et_id ` set s \<longrightarrow> (\<exists>s'. eo_run fs s = Inr s' \<and> eo_ok s' \<and> (K \<union> N) \<union> {} \<subseteq> et_id ` set s')"
    and s: "eo_ok s \<and> K \<subseteq> et_id ` set s"
  obtain s1 where s1: "f s = Inr s1" "eo_ok s1 \<and> K \<union> N \<subseteq> et_id ` set s1" using f s by blast
  obtain s2 where s2: "eo_run fs s1 = Inr s2" "eo_ok s2" "(K \<union> N) \<union> {} \<subseteq> et_id ` set s2" using fs s1(2) by blast
  have "eo_run (f # fs) s = Inr s2" using s1(1) s2(1) by (simp add: eo_run_def)
  then show "\<exists>s'. eo_run (f # fs) s = Inr s' \<and> eo_ok s' \<and> K \<union> {} \<subseteq> et_id ` set s'" using s2(2,3) by auto
qed

lemma runs_each: "(\<And>x. x \<in> set xs \<Longrightarrow> runs K (f x) {}) \<Longrightarrow> runs K (eo_each f xs) {}"
proof (induction xs)
  case (Cons x xs)
  then have "runs K (eo_run (map f xs)) {}" by (simp add: eo_each_def)
  then show ?case using runs_run_Cons [of K "f x" "{}" "map f xs"] Cons.prems by (simp add: eo_each_def)
qed (simp add: eo_each_def runs_run_Nil)

lemma rule_field_Nil: "rule_field [] k = JUndef"
  by (simp add: rule_field_def obj_get_def)

lemma rule_field_Cons: "rule_field ((js k, v) # r) k' = (if k = k' then v else rule_field r k')"
  by (simp add: rule_field_def obj_get_def js_eq_iff split: option.splits)

lemma plain_rules:
  "plain [(js ''type'', a), (js ''inflected'', b), (js ''deinflected'', c), (js ''conditionsIn'', d), (js ''conditionsOut'', e)]"
  "plain ([(js ''type'', a), (js ''inflected'', b), (js ''deinflected'', c), (js ''conditionsIn'', d), (js ''conditionsOut'', e),
     (js ''stemMinLength'', f), (js ''stemCharacters'', g)] @ [])"
  "plain ([(js ''type'', a), (js ''inflected'', b), (js ''deinflected'', c), (js ''conditionsIn'', d), (js ''conditionsOut'', e),
     (js ''stemMinLength'', f), (js ''stemCharacters'', g)] @ UPPER)"
  "plain [(js ''type'', a), (js ''inflectedPrefix'', b), (js ''deinflectedPrefix'', b'), (js ''inflectedSuffix'', c),
     (js ''deinflectedSuffix'', c'), (js ''conditionsIn'', d), (js ''conditionsOut'', e), (js ''stemMinLength'', f),
     (js ''stemCharacters'', g)]"
  by (simp_all add: plain_def split_fields_def UPPER_def rule_field_Cons rule_field_Nil del: js_simps)

lemma runs_suffix: "i \<in> K \<Longrightarrow> extra = [] \<or> extra = UPPER \<Longrightarrow> runs K (eo_suffix i a b ci co n extra) {}"
  unfolding eo_suffix_def using plain_rules(2,3) by (blast intro: runs_add)

lemma runs_whole: "i \<in> K \<Longrightarrow> runs K (whole_word i a b) {}"
  unfolding whole_word_def by (intro runs_add plain_rules)

lemma runs_circumfix: "i \<in> K \<Longrightarrow> runs K (eo_circumfix i a b c ci co n) {}"
  unfolding eo_circumfix_def by (intro runs_add plain_rules)

lemma runs_pair: "i \<in> K \<Longrightarrow> runs K (class_pair i a n b c) {}"
  unfolding class_pair_def by (intro runs_suffix) simp_all

lemmas runs_intros = runs_run_Nil runs_run_Cons runs_each runs_suffix runs_whole runs_circumfix runs_pair runs_transform

lemma table_ids:
  "\<forall>i\<in>set [''accusative'', ''plural'', ''elision'', ''adverbClass'', ''otherWordClass'', ''sen'']. inherited (eo i) = None \<and> eo i = js i"
  "\<forall>row\<in>set TENSES. inherited (fst row) = None"
  "\<forall>row\<in>set SUFFIXES. inherited (eo (fst row)) = None"
  "\<forall>row\<in>set PREFIXES. inherited (eo (fst row)) = None"
  "\<forall>p\<in>set PARTICIPLES. \<forall>f\<in>set FORMS. inherited (js (fst p @ fst f)) = None"
  by code_simp+

lemma runs_accusative: "runs K accusative {}"
  unfolding accusative_def Let_def using table_ids(1) by (intro runs_intros) (auto intro!: runs_intros split: prod.split)


lemma runs_plural: "runs K plural {}"
  unfolding plural_def Let_def using table_ids(1) by (intro runs_intros) (auto intro!: runs_intros)

lemma runs_tenses: "runs K tenses {}"
  unfolding tenses_def
proof (rule runs_each, goal_cases)
  case (1 row)
  then have "inherited (fst row) = None" using table_ids(2) by blast
  then show ?case by (cases row) (auto intro!: runs_intros)
qed

lemma runs_participles: "runs K participles {}"
  unfolding participles_def
proof (intro runs_each, goal_cases)
  case (1 p f)
  then have "inherited (js (fst p @ fst f)) = None" using table_ids(5) by blast
  then show ?case unfolding participle_def Let_def
    by (cases p; cases f) (auto intro!: runs_intros simp del: js_simps)
qed

lemma runs_elision: "runs K elision {}"
  unfolding elision_def using table_ids(1) by (intro runs_intros) (auto intro!: runs_intros)

lemma runs_suffixes: "runs K word_suffixes {}"
  unfolding word_suffixes_def
proof (rule runs_each, goal_cases)
  case (1 row)
  then have "inherited (eo (fst row)) = None" using table_ids(3) by blast
  then show ?case unfolding word_suffix_def by (cases row) (auto intro!: runs_intros)
qed

lemma runs_classes: "runs K word_classes {}"
  unfolding word_classes_def using table_ids(1) by (intro runs_intros) (auto intro!: runs_intros)

lemma runs_prefixes: "runs K word_prefixes {}"
proof -
  have "runs K (word_prefix row) {}" if "row \<in> set PREFIXES" for K row
  proof -
    have "inherited (eo (fst row)) = None" using table_ids(4) that by blast
    then show ?thesis unfolding word_prefix_def by (cases row) (auto intro!: runs_intros)
  qed
  then show ?thesis unfolding word_prefixes_def using table_ids(1) by (intro runs_intros) (auto intro!: runs_intros)
qed

lemma eo_rules_ok: "\<exists>s. eo_rules [] = Inr s \<and> eo_ok s"
proof -
  have "runs {} eo_rules {}"
    unfolding eo_rules_def [abs_def]
    by (rule runs_run_Cons runs_run_Nil runs_accusative runs_plural runs_tenses runs_participles runs_elision runs_suffixes
        runs_classes runs_prefixes)+
  then show ?thesis by (force simp: runs_def eo_ok_def)
qed

section \<open>The build leaves out the listed stems\<close>

definition left_out :: "jstr \<Rightarrow> rule_obj \<Rightarrow> jstr list" where
  "left_out i r = (case map_of EXCLUDED_STEMS (exclusionKey i r) of Some stems \<Rightarrow> map fst stems | None \<Rightarrow> [])"

lemma excluded_of_key:
  assumes "inherited i = None"
  shows "excluded_of (exclusionKey i r) = Inr (map_of EXCLUDED_STEMS (exclusionKey i r))"
proof -
  have "inherited (js ''accusativeEn'') = None" by code_simp
  then show ?thesis using assms by (auto simp: excluded_of_def exclusionKey_def simp del: js_simps split: option.split)
qed

lemma split_rule_exact:
  assumes i: "inherited i = None" and r: "plain r" and s: "well_paired s"
    and upper: "resolved cat defs (js ''{upper}'')" "\<And>u. 97 \<le> u \<Longrightarrow> u \<le> 122 \<Longrightarrow> \<not> denoted cat defs (js ''{upper}'') u"
  shows "\<exists>out. split_rule i r = Inr out \<and>
    takers (denoted cat defs) out s = (if stem_ok (denoted cat defs) r s \<and> s \<notin> set (left_out i r) then 1 else 0)"
proof (cases "map_of EXCLUDED_STEMS (exclusionKey i r)")
  case None
  then show ?thesis using excluded_of_key [OF i, of r] by (simp add: split_rule_def left_out_def)
next
  case (Some stems)
  then have mem: "(exclusionKey i r, stems) \<in> set EXCLUDED_STEMS" by (rule map_of_SomeD)
  have words: "\<not> isl (withoutStems [] (map fst stems))"
    "\<forall>x\<in>set (map fst stems). x \<noteq> [] \<and> list_all (\<lambda>u. 97 \<le> u \<and> u \<le> 122) x"
    using listed_stems mem unfolding list_all_iff by fastforce+
  obtain out where out: "withoutStems r (map fst stems) = Inr out"
    using withoutStems_splits [OF _ words(1)] r by (auto simp: plain_def)
  have small: "list_all class_letter x" "hd x \<in> set x" if "x \<in> set (map fst stems)" for x
    using words(2) that by (auto simp: list_all_iff class_letter_def)
  have first: "\<not> denoted cat defs (js ''{upper}'') (hd x)" if "x \<in> set (map fst stems)" for x
    using upper(2) words(2) small(2) that unfolding list_all_iff by blast
  have "takers (denoted cat defs) out s = (if stem_ok (denoted cat defs) r s \<and> s \<notin> set (map fst stems) then 1 else 0)"
    by (rule split_stems [OF out s]) (use r upper(1) first small(1) words(2) in \<open>auto simp: plain_def simp del: js_simps\<close>)
  then show ?thesis using Some out excluded_of_key [OF i, of r] by (simp add: split_rule_def left_out_def)
qed

text \<open>What the transforms of the build take of a stem: one rule for each rule of the transform before the split that takes
  the stem and does not list it.\<close>

definition splits_to :: "class_test \<Rightarrow> jstr \<Rightarrow> eo_entry \<Rightarrow> eo_entry \<Rightarrow> bool" where
  "splits_to m s t t' \<longleftrightarrow> t' = t\<lparr>et_rules := et_rules t'\<rparr> \<and>
     takers m (et_rules t') s = length (filter (\<lambda>r. stem_ok m r s \<and> s \<notin> set (left_out (et_id t) r)) (et_rules t))"

lemma split_transform_exact:
  assumes i: "inherited (et_id t) = None" and r: "\<forall>r\<in>set (et_rules t). plain r" and s: "well_paired s"
    and upper: "resolved cat defs (js ''{upper}'')" "\<And>u. 97 \<le> u \<Longrightarrow> u \<le> 122 \<Longrightarrow> \<not> denoted cat defs (js ''{upper}'') u"
  shows "\<exists>t'. split_transform t = Inr t' \<and> splits_to (denoted cat defs) s t t'"
proof -
  have "\<exists>rss. mapE (split_rule (et_id t)) rs = Inr rss \<and>
      takers (denoted cat defs) (concat rss) s =
        length (filter (\<lambda>r. stem_ok (denoted cat defs) r s \<and> s \<notin> set (left_out (et_id t) r)) rs)"
    if "set rs \<subseteq> set (et_rules t)" for rs
    using that
  proof (induction rs)
    case (Cons r rs)
    then obtain rss where rss: "mapE (split_rule (et_id t)) rs = Inr rss" "takers (denoted cat defs) (concat rss) s =
        length (filter (\<lambda>r. stem_ok (denoted cat defs) r s \<and> s \<notin> set (left_out (et_id t) r)) rs)" by auto
    obtain out where out: "split_rule (et_id t) r = Inr out" "takers (denoted cat defs) out s =
        (if stem_ok (denoted cat defs) r s \<and> s \<notin> set (left_out (et_id t) r) then 1 else 0)"
      using split_rule_exact [OF i _ s upper] r Cons.prems by (metis list.set_intros(1) subsetD)
    show ?case using rss out by simp
  qed simp
  from this [of "et_rules t"] show ?thesis by (auto simp: split_transform_def splits_to_def)
qed

text \<open>C16: The build of the Esperanto rules always ends: every rule goes to a known transform and every listed rule can be
  split. It changes no transform but its rules, and takes of every stem exactly the rules written for it, without the listed
  stems, once each.\<close>

theorem eo_build_exact:
  assumes "resolved cat defs (js ''{upper}'')" and "\<And>u. 97 \<le> u \<Longrightarrow> u \<le> 122 \<Longrightarrow> \<not> denoted cat defs (js ''{upper}'') u"
    and "well_paired s"
  shows "\<exists>before after. eo_rules [] = Inr before \<and> eo_build = Inr after \<and>
    list_all2 (splits_to (denoted cat defs) s) before after"
proof -
  obtain before where before: "eo_rules [] = Inr before" "eo_ok before" using eo_rules_ok by blast
  have "\<exists>after. mapE split_transform ts = Inr after \<and> list_all2 (splits_to (denoted cat defs) s) ts after"
    if "set ts \<subseteq> set before" for ts
    using that
  proof (induction ts)
    case (Cons t ts)
    then obtain after where after: "mapE split_transform ts = Inr after" "list_all2 (splits_to (denoted cat defs) s) ts after" by auto
    have "inherited (et_id t) = None" "\<forall>r\<in>set (et_rules t). plain r" using Cons.prems before(2) by (auto simp: eo_ok_def)
    then obtain t' where "split_transform t = Inr t'" "splits_to (denoted cat defs) s t t'"
      using split_transform_exact [OF _ _ assms(3,1,2)] by blast
    then show ?case using after by simp
  qed simp
  from this [of before] show ?thesis using before(1) by (auto simp: eo_build_def)
qed

definition upper_defs :: definitions where
  "upper_defs = [(js ''upper'', ASet False [CRange 65 90 (js ''A-Z'')])]"

lemma upper_denotes: "denotes_name cat upper_defs (js ''upper'') u (65 \<le> u \<and> u \<le> 90)"
proof -
  have "denotes_items cat upper_defs [CRange 65 90 (js ''A-Z'')] u (base_mem cat u (CRange 65 90 (js ''A-Z'')) \<or> False)"
    by (rule denotes_name_denotes_ast_denotes_items.item) (auto intro: denotes_name_denotes_ast_denotes_items.none)
  then have "denotes_ast cat upper_defs (ASet False [CRange 65 90 (js ''A-Z'')]) u (False \<noteq> (65 \<le> u \<and> u \<le> 90))"
    by (intro denotes_name_denotes_ast_denotes_items.items) simp
  then show ?thesis
    by (intro denotes_name_denotes_ast_denotes_items.name [where ast = "ASet False [CRange 65 90 (js ''A-Z'')]"])
      (simp_all add: upper_defs_def)
qed

lemma upper_reference: "js ''{upper}'' = [123] @ js ''upper'' @ [125]" "CLASS_NAME (js ''upper'')"
  by code_simp+

theorem eo_build_exact_witness:
  "\<exists>before after. eo_rules [] = Inr before \<and> eo_build = Inr after \<and>
    list_all2 (splits_to (denoted (\<lambda>_. []) upper_defs) (js ''kat'')) before after"
proof (rule eo_build_exact)
  show "resolved (\<lambda>_. []) upper_defs (js ''{upper}'')"
    unfolding resolved_def using upper_reference upper_denotes by blast
  show "\<not> denoted (\<lambda>_. []) upper_defs (js ''{upper}'') u" if "97 \<le> u" "u \<le> 122" for u
    unfolding upper_reference(1) denoted_known [OF upper_reference(2)] using denotes_name_fun [OF upper_denotes [of _ u]] that by fastforce
  show "well_paired (js ''kat'')" by code_simp
qed
end
