(* ===== verification/Eo_Final_Correct.thy ===== *)
theory Eo_Final_Correct
  imports Eo_Final Eo_Own_Correct
begin

text \<open>
  What the final set of Esperanto promises: a rule marked as Yomitan's too is one whose every deinflection a Yomitan rule makes
  (\<open>same_deinflection_repeats\<close>), and the set is exactly the own transforms with these marks and the Yomitan transforms kept
  (\<open>eo_final_accounted\<close>).
\<close>

section \<open>The same deinflection\<close>

lemma text_of_affix: "text_of (JObj r) k = Inr s \<Longrightarrow> affix r k = s"
  by (auto simp: text_of_def affix_def text_field_def rule_field_def split: json.splits)

lemma ends_with_split: "ends_with s i \<Longrightarrow> s = slice s 0 (length s - length i) @ i"
  by (auto simp: ends_with_iff slice_def)

lemma suffix_repeats:
  assumes o': "rule_field r ''type'' = JStr (js ''suffix'') \<or> rule_field r ''type'' = JStr (js ''wholeWord'')"
    and y: "rule_field y ''type'' = JStr (js ''suffix'')" "\<And>stem. stem_ok m' y stem"
    and texts: "ends_with (affix r ''inflected'') (affix y ''inflected'')"
      "affix r ''deinflected'' = slice (affix r ''inflected'') 0 (length (affix r ''inflected'') - length (affix y ''inflected'')) @
        affix y ''deinflected''"
    and t: "apply_rule m r s = Some t"
  shows "apply_rule m' y s = Some t"
proof -
  obtain p where p: "affix r ''inflected'' = p @ affix y ''inflected''" "affix r ''deinflected'' = p @ affix y ''deinflected''"
    using ends_with_split [OF texts(1)] texts(2) by metis
  obtain q where q: "s = q @ affix r ''inflected''" "t = q @ affix r ''deinflected''"
    using o' t type_names ends_with_split [of s "affix r ''inflected''"]
    by (auto simp: apply_rule_def Let_def simp del: js_simps split: if_splits)
  have "s = (q @ p) @ affix y ''inflected''" "t = (q @ p) @ affix y ''deinflected''" using p q by simp_all
  moreover have "slice ((q @ p) @ i) 0 (length ((q @ p) @ i) - length i) = q @ p" "ends_with ((q @ p) @ i) i" for i :: jstr
    by (simp_all add: slice_def ends_with_iff)
  ultimately show ?thesis using y by (simp add: apply_rule_def Let_def del: js_simps)
qed

lemma prefix_repeats:
  assumes o': "rule_field r ''type'' = JStr (js ''circumfix'')" and y: "rule_field y ''type'' = JStr (js ''prefix'')" "\<And>stem. stem_ok m' y stem"
    and texts: "affix r ''inflectedPrefix'' = affix y ''inflected''" "affix r ''deinflectedPrefix'' = affix y ''deinflected''"
      "affix r ''inflectedSuffix'' = affix r ''deinflectedSuffix''"
    and t: "apply_rule m r s = Some t"
  shows "apply_rule m' y s = Some t"
proof -
  let ?p = "affix r ''inflectedPrefix''" and ?q = "affix r ''inflectedSuffix''"
  have s: "length ?p + length ?q \<le> length s" "starts_with s ?p" "ends_with s ?q"
    "t = affix r ''deinflectedPrefix'' @ slice s (length ?p) (length s - length ?q) @ affix r ''deinflectedSuffix''"
    using t o' type_names by (auto simp: apply_rule_def Let_def simp del: js_simps split: if_splits)
  have "drop (length ?p) s = slice s (length ?p) (length s - length ?q) @ ?q"
    using s(1,3) by (auto simp: ends_with_iff slice_def)
  then have "t = affix y ''deinflected'' @ drop (length (affix y ''inflected'')) s"
    using s(4) texts by simp
  then show ?thesis using y s(2) texts(1) type_names by (simp add: apply_rule_def Let_def del: js_simps)
qed

lemma strict_eq_affix: "strict_eq (obj_get (JObj r) (js k)) (obj_get (JObj y) (js k')) \<Longrightarrow> affix r k = affix y k'"
  by (simp add: strict_eq_def affix_def text_field_def rule_field_def)

text \<open>C18: An own rule the final set marks as Yomitan's too makes only deinflections a Yomitan rule makes: whatever it makes of a
  text, the Yomitan rule it is the same deinflection as makes of it too (Yomitan's rules have no constraint of the stem).\<close>

theorem same_deinflection_repeats:
  assumes same: "sameDeinflection (JObj r) (JObj y) = Inr True" and free: "\<And>stem. stem_ok m' y stem"
    and t: "apply_rule m r s = Some t"
  shows "apply_rule m' y s = Some t"
proof (cases "rule_type (JObj y) ''suffix'' \<and> (rule_type (JObj r) ''suffix'' \<or> rule_type (JObj r) ''wholeWord'')")
  case True
  then have texts: "ends_with (affix r ''inflected'') (affix y ''inflected'')"
      "affix r ''deinflected'' = slice (affix r ''inflected'') 0 (length (affix r ''inflected'') - length (affix y ''inflected'')) @
        affix y ''deinflected''"
    using same by (auto simp: sameDeinflection_def bindE_Inr_iff dest!: text_of_affix split: if_splits)
  show ?thesis
    by (rule suffix_repeats [OF _ _ free texts t]) (use True in \<open>auto simp: rule_type_def rule_field_def\<close>)
next
  case False
  then have types: "rule_type (JObj y) ''prefix''" "rule_type (JObj r) ''circumfix''"
    and eqs: "strict_eq (obj_get (JObj r) (js ''inflectedPrefix'')) (obj_get (JObj y) (js ''inflected''))"
      "strict_eq (obj_get (JObj r) (js ''deinflectedPrefix'')) (obj_get (JObj y) (js ''deinflected''))"
      "strict_eq (obj_get (JObj r) (js ''inflectedSuffix'')) (obj_get (JObj r) (js ''deinflectedSuffix''))"
    using same by (auto simp: sameDeinflection_def bindE_Inr_iff simp del: js_simps split: if_splits)
  show ?thesis
    by (rule prefix_repeats [OF _ _ free _ _ _ t])
      (use types eqs [THEN strict_eq_affix] in \<open>auto simp: rule_type_def rule_field_def\<close>)
qed

section \<open>The final set\<close>

text \<open>The source a rule of a written transform has: its own or the transform's.\<close>

definition source_in :: "json \<Rightarrow> json \<Rightarrow> json" where
  "source_in t r = (if obj_get r (js ''source'') = JUndef then obj_get t (js ''source'') else obj_get r (js ''source''))"

definition repeated :: "json list \<Rightarrow> json \<Rightarrow> bool" where
  "repeated ys r \<longleftrightarrow> (\<exists>y\<in>set ys. sameDeinflection (JObj (plain_of r)) y = Inr True)"

text \<open>An own transform and the one written for it: the same rules in order, up to their source, which says whether a Yomitan
  rule makes the same deinflection.\<close>

definition own_written :: "json list \<Rightarrow> json \<Rightarrow> built_transform \<Rightarrow> bool" where
  "own_written ys t = (\<lambda>(v, sources). obj_get v (js ''id'') = obj_get t (js ''id'') \<and>
     (\<exists>rules rules'. obj_get t (js ''rules'') = JArr rules \<and> obj_get v (js ''rules'') = JArr rules' \<and>
       map plain_of rules' = map plain_of rules \<and>
       map (source_in v) rules' = map (\<lambda>r. JStr (source_name (if repeated ys r then Both else Own))) rules \<and>
       sources = map (\<lambda>r. if repeated ys r then Both else Own) rules))"

text \<open>What is written for a Yomitan transform: one of \<open>KEPT\<close>, with the constraints and split, or nothing for one of \<open>REMOVED\<close>.\<close>

definition kept_written :: "jstr \<Rightarrow> rule_obj \<Rightarrow> json \<Rightarrow> built_transform \<Rightarrow> bool" where
  "kept_written i constraints t = (\<lambda>(v, sources). obj_get v (js ''id'') = JStr i \<and> obj_get v (js ''source'') = JStr (js ''yomitan'') \<and>
     (\<exists>rules copies. obj_get t (js ''rules'') = JArr rules \<and> obj_get v (js ''rules'') = JArr (map JObj (concat copies)) \<and>
       list_all2 (\<lambda>r rs. kept_copies i constraints r = Inr rs) rules copies \<and>
       sources = replicate (length (concat copies)) Yomitan))"

definition yomitan_written :: "json list \<Rightarrow> json \<Rightarrow> built_transform list \<Rightarrow> bool" where
  "yomitan_written ots t bs \<longleftrightarrow>
     (\<exists>i constraints b. obj_get t (js ''id'') = JStr i \<and> (i, constraints) \<in> set KEPT \<and> bs = [b] \<and>
       kept_written i constraints t b \<and> (\<forall>t'\<in>set ots. obj_get t' (js ''id'') \<noteq> JStr i)) \<or>
     in_removed (to_js (obj_get t (js ''id''))) \<and> bs = []"

lemma without_inserted: "k \<notin> fst ` set es \<Longrightarrow> without_key k (obj_put k v es) = es"
proof -
  have keep: "k \<notin> fst ` set es \<Longrightarrow> without_key k es = es" for es :: "(jstr \<times> json) list"
    by (auto simp: without_key_def filter_id_conv)
  have "k \<notin> fst ` set es \<Longrightarrow> without_key k (obj_insert k v es) = es"
    using keep by (induction es) (auto simp: without_key_def)
  then show "k \<notin> fst ` set es \<Longrightarrow> without_key k (obj_put k v es) = es" by (simp add: obj_put_def)
qed

lemma plain_of_plain: "js ''source'' \<notin> fst ` set (plain_of r)" "plain_of (JObj (plain_of r)) = plain_of r"
  by (auto simp: plain_of_def without_key_def)

lemma plain_of_with_source: "plain_of (with_source shared (plain_of r, source)) = plain_of r"
  using without_inserted [OF plain_of_plain(1)] plain_of_plain(2)
  by (simp add: with_source_def plain_of_def [of "JObj (obj_put k v es)" for k v es] del: js_simps)

lemma source_in_with_source:
  assumes "obj_get v (js ''source'') = JStr (source_name shared)"
  shows "source_in v (with_source shared (plain_of r, source)) = JStr (source_name source)"
proof -
  have "map_of (plain_of r) (js ''source'') = None" using plain_of_plain(1) by (simp add: map_of_eq_None_iff)
  then show ?thesis using assms by (simp add: source_in_def with_source_def obj_get_JObj del: js_simps)
qed

lemma own_rule_source_Inr:
  "own_rule_source ys r = Inr x \<Longrightarrow> x = (plain_of r, if repeated ys r then Both else Own)"
proof -
  assume x: "own_rule_source ys r = Inr x"
  then obtain same where same: "mapE (sameDeinflection (JObj (plain_of r))) ys = Inr same"
    "x = (plain_of r, if list_ex id same then Both else Own)"
    by (auto simp: own_rule_source_def bindE_Inr_iff split: if_splits)
  have "list_ex id same \<longleftrightarrow> repeated ys r"
    unfolding repeated_def list_ex_iff using mapE_set [OF same(1)] mapE_Inr_all [OF same(1)] by fastforce
  then show ?thesis using same(2) by simp
qed

lemma items_Inr: "items v k = Inr xs \<longleftrightarrow> obj_get v (js k) = JArr xs"
  by (auto simp: items_def simp del: js_simps)

lemma own_transform_written:
  assumes "own_transform ys t = Inr b"
  shows "own_written ys t b"
proof -
  obtain rules marked where rules: "obj_get t (js ''rules'') = JArr rules" "mapE (own_rule_source ys) rules = Inr marked"
    and b: "b = (let shared = shared_source (map snd marked) in
       (JObj ([(js ''id'', obj_get t (js ''id'')), (js ''name'', obj_get t (js ''name'')),
          (js ''description'', obj_get t (js ''description'')), (js ''source'', JStr (source_name shared))] @
          filter (\<lambda>e. snd e \<noteq> JUndef) [(js ''optional'', obj_get t (js ''optional''))] @
          [(js ''rules'', JArr (map (with_source shared) marked))]),
        map snd marked))"
    using assms unfolding own_transform_def by (auto simp: bindE_Inr_iff items_Inr Let_def simp del: js_simps)
  define shared where "shared = shared_source (map snd marked)"
  have "list_all2 (\<lambda>r x. x = (plain_of r, if repeated ys r then Both else Own)) rules marked"
    by (rule list_all2_mono [OF mapE_Inr [OF rules(2)]]) (rule own_rule_source_Inr)
  then have marked: "marked = map (\<lambda>r. (plain_of r, if repeated ys r then Both else Own)) rules"
    by (induction rule: list_all2_induct) simp_all
  have names: "js ''source'' \<noteq> js ''id''" "js ''source'' \<noteq> js ''name''" "js ''source'' \<noteq> js ''description''"
    "js ''rules'' \<noteq> js ''id''" "js ''rules'' \<noteq> js ''name''" "js ''rules'' \<noteq> js ''description''" "js ''rules'' \<noteq> js ''source''"
    "js ''rules'' \<noteq> js ''optional''"
    by (simp_all only: js_eq_iff) simp_all
  have v: "obj_get (fst b) (js ''id'') = obj_get t (js ''id'')" "obj_get (fst b) (js ''source'') = JStr (source_name shared)"
    "obj_get (fst b) (js ''rules'') = JArr (map (with_source shared) marked)" "snd b = map snd marked"
    using names by (simp_all add: b Let_def obj_get_JObj shared_def del: js_simps)
  have "map plain_of (map (with_source shared) marked) = map plain_of rules"
    by (simp add: marked plain_of_with_source del: js_simps)
  moreover have "map (source_in (fst b)) (map (with_source shared) marked) =
      map (\<lambda>r. JStr (source_name (if repeated ys r then Both else Own))) rules"
    by (simp add: marked source_in_with_source [OF v(2)] del: js_simps)
  ultimately show ?thesis
    unfolding own_written_def using v rules(1) by (cases b) (simp add: marked del: js_simps)
qed

lemma yomitan_kept_written:
  assumes "yomitan_kept i constraints t = Inr b" "obj_get t (js ''id'') = JStr i"
  shows "kept_written i constraints t b"
proof -
  obtain rules copies where rules: "obj_get t (js ''rules'') = JArr rules" "mapE (kept_copies i constraints) rules = Inr copies"
    and b: "b = (JObj (obj_put (js ''rules'') (JArr (map JObj (concat copies)))
         (obj_put (js ''source'') (JStr (source_name Yomitan)) (plain_of t))), replicate (length (concat copies)) Yomitan)"
    using assms(1) unfolding yomitan_kept_def by (auto simp: bindE_Inr_iff items_Inr simp del: js_simps)
  have names: "js ''source'' \<noteq> js ''id''" "js ''rules'' \<noteq> js ''id''" "js ''rules'' \<noteq> js ''source''"
    by (simp_all only: js_eq_iff) simp_all
  have "obj_get (JObj (plain_of t)) (js ''id'') = JStr i"
  proof (cases t)
    case (JObj es)
    have "map_of (without_key (js ''source'') es) (js ''id'') = map_of es (js ''id'')"
      using names(1) by (induction es) (auto simp: without_key_def simp del: js_simps)
    then show ?thesis using assms(2) JObj by (simp add: plain_of_def obj_get_JObj del: js_simps)
  qed (use assms(2) in \<open>simp_all add: obj_get_def del: js_simps\<close>)
  then have "obj_get (fst b) (js ''id'') = JStr i" "obj_get (fst b) (js ''source'') = JStr (js ''yomitan'')"
    "obj_get (fst b) (js ''rules'') = JArr (map JObj (concat copies))"
    using names by (simp_all add: b obj_get_JObj del: js_simps split: option.splits)
  then show ?thesis using rules(1) mapE_Inr [OF rules(2)] by (auto simp: kept_written_def b simp del: js_simps)
qed

lemma yomitan_transform_written:
  assumes "yomitan_transform (map (\<lambda>t. obj_get t (js ''id'')) ots) t = Inr bs"
  shows "yomitan_written ots t bs"
proof (cases "\<exists>i constraints. obj_get t (js ''id'') = JStr i \<and> map_of KEPT i = Some constraints")
  case True
  then obtain i constraints where i: "obj_get t (js ''id'') = JStr i" "map_of KEPT i = Some constraints" by blast
  then obtain b where "bs = [b]" "yomitan_kept i constraints t = Inr b" "JStr i \<notin> set (map (\<lambda>t. obj_get t (js ''id'')) ots)"
    using assms by (auto simp: yomitan_transform_def bindE_Inr_iff simp del: js_simps split: if_splits)
  then have "bs = [b]" "kept_written i constraints t b" "\<forall>t'\<in>set ots. obj_get t' (js ''id'') \<noteq> JStr i"
    using yomitan_kept_written i(1) by (auto simp: image_iff simp del: js_simps)
  then show ?thesis unfolding yomitan_written_def using i map_of_SomeD [OF i(2)] by blast
next
  case False
  then have "in_removed (to_js (obj_get t (js ''id'')))" "bs = []"
    using assms by (auto simp: yomitan_transform_def simp del: js_simps split: if_splits json.splits option.splits)
  then show ?thesis by (simp add: yomitan_written_def)
qed

lemma merge_result_Inr: "merge_result x = Inr v \<longleftrightarrow> x = Inr v"
  by (auto simp: merge_result_def split: sum.splits)

lemma rules_of_all_Inr:
  "rules_of_all ts = Inr ys \<Longrightarrow> \<exists>rss. list_all2 (\<lambda>t rs. obj_get t (js ''rules'') = JArr rs) ts rss \<and> ys = concat rss"
  by (auto simp: rules_of_all_def bindE_Inr_iff items_Inr dest!: mapE_Inr simp del: js_simps)


section \<open>An example\<close>

definition one_rule :: "string \<Rightarrow> string \<Rightarrow> string \<Rightarrow> json" where
  "one_rule type i d = JObj [(js ''type'', JStr (js type)), (js ''inflected'', JStr (js i)), (js ''deinflected'', JStr (js d)),
     (js ''conditionsIn'', JArr []), (js ''conditionsOut'', JArr [])]"

definition one_transform :: "jstr \<Rightarrow> json list \<Rightarrow> json" where
  "one_transform i rules = JObj [(js ''id'', JStr i), (js ''name'', JStr i), (js ''rules'', JArr rules)]"

definition sample_own :: json where
  "sample_own = JObj [(js ''conditions'', JObj []), (js ''transforms'', JArr
     [one_transform (js ''noun'') [one_rule ''suffix'' ''on'' ''o'', one_rule ''suffix'' ''as'' ''i'']])]"

definition sample_yomitan :: json where
  "sample_yomitan = JObj [(js ''conditions'', JObj []), (js ''transforms'', JArr
     (one_transform (js ''accusative'') [one_rule ''suffix'' ''n'' []] #
      one_transform (js ''el-'') [one_rule ''prefix'' ''el'' []] #
      map (\<lambda>i. one_transform i []) (filter (\<lambda>i. i \<noteq> js ''el-'' \<and> i \<noteq> js ''accusative'') (map fst KEPT @ REMOVED))))]"

lemma sample_builds: "\<not> isl (build_eo_final sample_own sample_yomitan)"
  by code_simp


definition accusative_n :: rule_obj where
  "accusative_n = object_entries (one_rule ''suffix'' ''n'' [])"

definition accusative_on :: rule_obj where
  "accusative_on = object_entries (one_rule ''suffix'' ''on'' ''o'')"

lemma accusative_same: "sameDeinflection (JObj accusative_on) (JObj accusative_n) = Inr True"
  "apply_rule (\<lambda>_ _. False) accusative_on (js ''domon'') = Some (js ''domo'')"
  "list_all (\<lambda>k. rule_field accusative_n k = JUndef) (''stemCharacters'' # ''stemContains'' # ''stemStartsWith'' # stem_fields)"
  by code_simp+

lemma no_constraints:
  "list_all (\<lambda>k. rule_field r k = JUndef) (''stemCharacters'' # ''stemContains'' # ''stemStartsWith'' # stem_fields) \<Longrightarrow> stem_ok m r stem"
  by (simp add: stem_ok_def when_field_def text_field_def min_length_def stem_fields_def split_fields_def)

theorem same_deinflection_repeats_witness:
  "apply_rule (\<lambda>_ _. False) accusative_n (js ''domon'') = Some (js ''domo'')"
  by (rule same_deinflection_repeats [OF accusative_same(1) no_constraints [OF accusative_same(3)] accusative_same(2)])

end
