(* ===== verification/Pack_Deinflector_Correct.thy ===== *)
theory Pack_Deinflector_Correct
  imports Pack_Deinflector Eo_Final_Correct
begin

text \<open>
  The search of the pack deinflector is complete although it cuts cycles (\<open>deinflect_complete\<close>), it returns on packs whose rules
  write no longer texts (\<open>deinflect_returns\<close>), and the condition bits are the leaves a condition stands for
  (\<open>condition_bits\<close>).
\<close>

section \<open>Walks without repetition\<close>

text \<open>Steps with a key that determines where the step goes: a walk that uses a key twice can skip what is between.\<close>

fun walk :: "('s \<Rightarrow> 'k \<Rightarrow> 's \<Rightarrow> bool) \<Rightarrow> 's \<Rightarrow> 'k list \<Rightarrow> 's \<Rightarrow> bool" where
  "walk step a [] b \<longleftrightarrow> b = a"
| "walk step a (k # ks) b \<longleftrightarrow> (\<exists>m. step a k m \<and> walk step m ks b)"

lemma walk_append: "walk step a (ks @ ks') b \<longleftrightarrow> (\<exists>m. walk step a ks m \<and> walk step m ks' b)"
  by (induction ks arbitrary: a) auto

locale keyed_steps =
  fixes step :: "'s \<Rightarrow> 'k \<Rightarrow> 's \<Rightarrow> bool"
  assumes key_determines: "step a k b \<Longrightarrow> step a' k b' \<Longrightarrow> b' = b"
begin

lemma walk_distinct: "walk step a ks b \<Longrightarrow> \<exists>ks'. walk step a ks' b \<and> distinct ks' \<and> set ks' \<subseteq> set ks"
proof (induction ks arbitrary: a)
  case (Cons k ks)
  then obtain m where m: "step a k m" "walk step m ks b" by auto
  then obtain ks' where ks': "walk step m ks' b" "distinct ks'" "set ks' \<subseteq> set ks" using Cons.IH by blast
  show ?case
  proof (cases "k \<in> set ks'")
    case False
    then have "walk step a (k # ks') b \<and> distinct (k # ks') \<and> set (k # ks') \<subseteq> set (k # ks)" using m(1) ks' by auto
    then show ?thesis by blast
  next
    case True
    then obtain xs ys where split: "ks' = xs @ k # ys" "k \<notin> set ys" by (meson split_list_last)
    then obtain a' b' where again: "step a' k b'" "walk step b' ys b" using ks'(1) by (auto simp: walk_append)
    then have "walk step m ys b" using key_determines [OF m(1) again(1)] by simp
    then have "walk step a (k # ys) b \<and> distinct (k # ys) \<and> set (k # ys) \<subseteq> set (k # ks)" using m(1) ks'(2,3) split by auto
    then show ?thesis by blast
  qed
qed simp

end

section \<open>The steps of the search\<close>

definition search_step :: "model \<Rightarrow> jstr \<times> 32 word \<Rightarrow> frame \<Rightarrow> jstr \<times> 32 word \<Rightarrow> bool" where
  "search_step md a k b \<longleftrightarrow> fst a \<noteq> [] \<and> (\<exists>c\<in>set (candidates md (fst a)). k = (cr_order c, fst a) \<and> passes (snd a) c \<and>
     apply_compiled md c (fst a) = Inr (Some (fst b)) \<and> snd b = cr_out c)"

text \<open>The derivations a trace describes: one rule after another, each with the conditions the one before leaves.\<close>

inductive derives :: "model \<Rightarrow> jstr \<Rightarrow> jstr \<Rightarrow> 32 word \<Rightarrow> jstr list \<Rightarrow> bool" for md s where
  start: "derives md s s 0 []"
| derive: "derives md s t bits trace \<Longrightarrow> t \<noteq> [] \<Longrightarrow> c \<in> set (candidates md t) \<Longrightarrow> passes bits c \<Longrightarrow>
    apply_compiled md c t = Inr (Some t') \<Longrightarrow> derives md s t' (cr_out c) (cr_id c # trace)"

text \<open>The rules of a model are numbered, so that no two have the same place.\<close>

definition numbered :: "model \<Rightarrow> bool" where
  "numbered md \<longleftrightarrow> map cr_order (md_rules md) = [0..<length (md_rules md)]"

lemma candidates_rules: "set (candidates md s) \<subseteq> set (md_rules md)"
  by (auto simp: candidates_def rest_rules_def matched_def map_filter_def split: option.splits)

lemma numbered_inj: "numbered md \<Longrightarrow> inj_on cr_order (set (md_rules md))"
  unfolding numbered_def using distinct_map [of cr_order "md_rules md"] by simp

text \<open>Outside the numbered models there is no step, so that the contract holds for every model.\<close>

definition model_step :: "model \<Rightarrow> jstr \<times> 32 word \<Rightarrow> frame \<Rightarrow> jstr \<times> 32 word \<Rightarrow> bool" where
  "model_step md a k b \<longleftrightarrow> numbered md \<and> search_step md a k b"

interpretation search: keyed_steps "model_step md" for md
proof
  fix a b a' b' k assume steps: "model_step md a k b" "model_step md a' k b'"
  then obtain c c' where "c \<in> set (md_rules md)" "c' \<in> set (md_rules md)" "cr_order c = cr_order c'" "fst a = fst a'"
    and out: "apply_compiled md c (fst a) = Inr (Some (fst b))" "snd b = cr_out c"
      "apply_compiled md c' (fst a') = Inr (Some (fst b'))" "snd b' = cr_out c'"
    using candidates_rules unfolding model_step_def search_step_def by (metis (no_types, lifting) fst_conv snd_conv subsetD)
  moreover have "numbered md" using steps(1) by (simp add: model_step_def)
  ultimately have "c = c'" using numbered_inj by (meson inj_onD)
  then show "b' = b" using out \<open>fst a = fst a'\<close> by (auto simp: prod_eq_iff)
qed

lemma derives_walk:
  assumes "derives md s t bits trace" "numbered md"
  shows "\<exists>ks. walk (model_step md) (s, 0) ks (t, bits)"
  using assms(1)
proof induction
  case start
  then show ?case by (intro exI [of _ "[]"]) simp
next
  case (derive t bits trace c t')
  then obtain ks where "walk (model_step md) (s, 0) ks (t, bits)" by blast
  moreover have "model_step md (t, bits) (cr_order c, t) (t', cr_out c)"
    using derive assms(2) by (auto simp: model_step_def search_step_def)
  ultimately have "walk (model_step md) (s, 0) (ks @ [(cr_order c, t)]) (t', cr_out c)" by (auto simp: walk_append)
  then show ?case by blast
qed

section \<open>What the search finds\<close>

lemma visit_sound:
  "visit n md t bits trace frames = Inr rs \<Longrightarrow> derives md s t bits trace \<Longrightarrow>
    \<forall>x\<in>set rs. dn_text x \<noteq> [] \<and> derives md s (dn_text x) (dn_conditions x) (dn_trace x)"
  "visit_rules n md t bits trace frames cs = Inr rs \<Longrightarrow> derives md s t bits trace \<Longrightarrow> t \<noteq> [] \<Longrightarrow> set cs \<subseteq> set (candidates md t) \<Longrightarrow>
    \<forall>x\<in>set rs. dn_text x \<noteq> [] \<and> derives md s (dn_text x) (dn_conditions x) (dn_trace x)"
proof (induction n md t bits trace frames and n md t bits trace frames cs arbitrary: rs and rs rule: visit_visit_rules.induct)
  case (2 n md current bits trace frames)
  show ?case
  proof (cases "current = []")
    case False
    then obtain rs' where rs': "visit_rules n md current bits trace frames (candidates md current) = Inr rs'"
      "rs = \<lparr>dn_text = current, dn_conditions = bits, dn_trace = trace\<rparr> # rs'"
      using "2.prems"(1) by (auto simp: bindE_Inr_iff)
    then show ?thesis using "2.IH" [OF False rs'(1) "2.prems"(2) False] "2.prems"(2) False by auto
  qed (use 2 in simp)
next
  case (4 n md current bits trace frames c cs)
  show ?case
  proof (cases "passes bits c")
    case True
    then obtain out where out: "apply_compiled md c current = Inr out" using 4 by (auto simp: bindE_Inr_iff)
    show ?thesis
    proof (cases "out \<noteq> None \<and> (cr_order c, current) \<notin> set frames")
      case True
      then obtain t where t: "out = Some t" by auto
      have d: "derives md s t (cr_out c) (cr_id c # trace)"
        using derives.derive [OF "4.prems"(2,3) _ \<open>passes bits c\<close>] out t "4.prems"(4) by simp
      obtain xs ys where xs: "visit n md t (cr_out c) (cr_id c # trace) (frames @ [(cr_order c, current)]) = Inr xs"
        and ys: "visit_rules n md current bits trace frames cs = Inr ys" "rs = xs @ ys"
        using "4.prems"(1) out t True \<open>passes bits c\<close> by (auto simp: bindE_Inr_iff)
      have "\<forall>x\<in>set xs. dn_text x \<noteq> [] \<and> derives md s (dn_text x) (dn_conditions x) (dn_trace x)"
        by (rule "4.IH"(4) [OF _ out t _ xs d]) (use \<open>passes bits c\<close> True in auto)
      moreover have "\<forall>x\<in>set ys. dn_text x \<noteq> [] \<and> derives md s (dn_text x) (dn_conditions x) (dn_trace x)"
        by (rule "4.IH"(5) [OF _ out t _ xs ys(1) "4.prems"(2,3)]) (use \<open>passes bits c\<close> True "4.prems"(4) in auto)
      ultimately show ?thesis using ys(2) by auto
    next
      case False
      then have "visit_rules n md current bits trace frames cs = Inr rs"
        using "4.prems"(1) out \<open>passes bits c\<close> by (auto split: option.splits)
      then show ?thesis using "4.IH"(2,3) "4.prems"(2-4) out False \<open>passes bits c\<close> by (cases out) auto
    qed
  qed (use 4 in simp)
qed auto

lemma visit_rules_mem:
  "visit_rules n md t bits trace frames cs = Inr rs \<Longrightarrow> c \<in> set cs \<Longrightarrow> passes bits c \<Longrightarrow>
    apply_compiled md c t = Inr (Some t') \<Longrightarrow> (cr_order c, t) \<notin> set frames \<Longrightarrow>
    \<exists>rs'. visit n md t' (cr_out c) (cr_id c # trace) (frames @ [(cr_order c, t)]) = Inr rs' \<and> set rs' \<subseteq> set rs"
proof (induction cs arbitrary: rs)
  case (Cons c' cs)
  show ?case
  proof (cases "c' = c")
    case True
    then show ?thesis using Cons.prems by (auto simp: bindE_Inr_iff)
  next
    case False
    then have "\<exists>rs'. visit_rules n md t bits trace frames cs = Inr rs' \<and> set rs' \<subseteq> set rs"
      using Cons.prems(1) by (auto simp: bindE_Inr_iff split: if_splits option.splits)
    then show ?thesis using Cons False by (metis (no_types, lifting) order_trans set_ConsD)
  qed
qed simp

lemma visit_complete:
  "visit n md t bits trace frames = Inr rs \<Longrightarrow> walk (model_step md) (t, bits) ks (t', bits') \<Longrightarrow> distinct ks \<Longrightarrow>
    set ks \<inter> set frames = {} \<Longrightarrow> t' \<noteq> [] \<Longrightarrow> \<exists>x\<in>set rs. dn_text x = t' \<and> dn_conditions x = bits'"
proof (induction ks arbitrary: n t bits trace frames rs)
  case Nil
  then show ?case by (cases n) (auto simp: bindE_Inr_iff split: if_splits)
next
  case (Cons k ks)
  then obtain m where m: "model_step md (t, bits) k m" "walk (model_step md) m ks (t', bits')" by auto
  obtain c where c: "c \<in> set (candidates md t)" "k = (cr_order c, t)" "passes bits c" "apply_compiled md c t = Inr (Some (fst m))"
    "snd m = cr_out c" "t \<noteq> []"
    using m(1) by (auto simp: model_step_def search_step_def)
  obtain i where i: "n = Suc i" using Cons.prems(1) by (cases n) auto
  obtain rs1 where rs1: "visit_rules i md t bits trace frames (candidates md t) = Inr rs1"
    "rs = \<lparr>dn_text = t, dn_conditions = bits, dn_trace = trace\<rparr> # rs1"
    using Cons.prems(1) c(6) unfolding i by (auto simp: bindE_Inr_iff)
  have "(cr_order c, t) \<notin> set frames" using Cons.prems(4) c(2) by auto
  then obtain rs2 where rs2: "visit i md (fst m) (cr_out c) (cr_id c # trace) (frames @ [(cr_order c, t)]) = Inr rs2" "set rs2 \<subseteq> set rs1"
    using visit_rules_mem [OF rs1(1) c(1,3,4)] by blast
  have "m = (fst m, cr_out c)" using c(5) by (simp add: prod_eq_iff)
  then have w: "walk (model_step md) (fst m, cr_out c) ks (t', bits')" using m(2) by simp
  have "set ks \<inter> set (frames @ [(cr_order c, t)]) = {}" "distinct ks" using Cons.prems(3,4) c(2) by auto
  then have "\<exists>x\<in>set rs2. dn_text x = t' \<and> dn_conditions x = bits'"
    by (intro Cons.IH [OF rs2(1) w _ _ Cons.prems(5)])
  then show ?case using rs1(2) rs2(2) by auto
qed

section \<open>The search returns\<close>

lemma visit_returns:
  assumes T: "finite T" "\<And>t c. t \<in> T \<Longrightarrow> c \<in> set (md_rules md) \<Longrightarrow> \<exists>out. apply_compiled md c t = Inr out \<and> set_option out \<subseteq> T"
    and F: "F = cr_order ` set (md_rules md) \<times> T"
  shows "t \<in> T \<Longrightarrow> set frames \<subseteq> F \<Longrightarrow> distinct frames \<Longrightarrow> card F < length frames + n \<Longrightarrow> \<exists>rs. visit n md t bits trace frames = Inr rs"
proof (induction n arbitrary: t bits trace frames)
  case 0
  have "finite F" using T(1) F by simp
  then have "length frames \<le> card F" using 0 by (metis card_mono distinct_card)
  then show ?case using 0 by simp
next
  case (Suc n)
  have "\<exists>rs. visit_rules n md t bits trace frames cs = Inr rs" if "set cs \<subseteq> set (md_rules md)" for cs
    using that
  proof (induction cs)
    case (Cons c cs)
    obtain rs where rs: "visit_rules n md t bits trace frames cs = Inr rs" using Cons by auto
    have "c \<in> set (md_rules md)" using Cons.prems by simp
    then obtain out where out: "apply_compiled md c t = Inr out" "set_option out \<subseteq> T" using T(2) [OF Suc.prems(1)] by blast
    show ?case
    proof (cases "passes bits c \<and> out \<noteq> None \<and> (cr_order c, t) \<notin> set frames")
      case True
      then obtain t' where t': "out = Some t'" "t' \<in> T" using out(2) by auto
      have "set (frames @ [(cr_order c, t)]) \<subseteq> F" using Suc.prems(1,2) Cons.prems F by auto
      moreover have "distinct (frames @ [(cr_order c, t)])" using Suc.prems(3) True by simp
      ultimately obtain rs' where "visit n md t' (cr_out c) (cr_id c # trace) (frames @ [(cr_order c, t)]) = Inr rs'"
        using Suc.IH [OF t'(2)] Suc.prems(4) by fastforce
      then show ?thesis using rs out(1) t'(1) by auto
    qed (use rs out in \<open>auto split: option.splits\<close>)
  qed simp
  then obtain rs where "visit_rules n md t bits trace frames (candidates md t) = Inr rs" using candidates_rules by blast
  then show ?case by auto
qed

text \<open>A rule with literal affixes that writes no longer text than it reads, as no rule of most packs does.\<close>

definition no_steps :: "rule_obj \<Rightarrow> bool" where
  "no_steps r \<longleftrightarrow> (case rule_field r ''then'' of JArr steps \<Rightarrow> False | _ \<Rightarrow> True)"

definition never_longer :: "compiled \<Rightarrow> bool" where
  "never_longer c \<longleftrightarrow> (let r = cr_rule c in
     type_of r \<in> set (map js [''suffix'', ''prefix'', ''wholeWord'', ''circumfix'']) \<and>
     rule_field r ''stemChange'' = JUndef \<and> no_steps r \<and>
     length (affix r ''deinflected'') \<le> length (affix r ''inflected'') \<and>
     length (affix r ''deinflectedPrefix'') + length (affix r ''deinflectedSuffix'') \<le>
       length (affix r ''inflectedPrefix'') + length (affix r ''inflectedSuffix''))"

definition rule_letters :: "compiled \<Rightarrow> int set" where
  "rule_letters c = (\<Union>k\<in>{''deinflected'', ''deinflectedPrefix'', ''deinflectedSuffix''}. set (affix (cr_rule c) k))"

lemma finish_plain: "no_steps r \<Longrightarrow> finish md r t = Inr (Some t)"
  by (auto simp: finish_def no_steps_def split: json.splits)

lemma finish_stem_plain:
  "no_steps r \<Longrightarrow> rule_field r ''stemChange'' = JUndef \<Longrightarrow>
    finish_stem md r stem f = Inr (if stem_ok (class_of md) r stem then Some (f stem) else None)"
  by (simp add: finish_stem_def changeStem_def finish_plain)

lemma slice_facts: "set (JS_Prelude.slice s a b) \<subseteq> set s" "length (JS_Prelude.slice s a b) \<le> b - a"
  using set_take_subset [of "b - a" "drop a s"] set_drop_subset [of a s] by (auto simp: JS_Prelude.slice_def)

lemma apply_never_longer:
  assumes "never_longer c"
  shows "\<exists>out. apply_compiled md c t = Inr out \<and> (\<forall>t'\<in>set_option out. length t' \<le> length t \<and> set t' \<subseteq> set t \<union> rule_letters c)"
proof -
  define r where "r = cr_rule c"
  have c: "type_of r \<in> set (map js [''suffix'', ''prefix'', ''wholeWord'', ''circumfix''])"
    "rule_field r ''stemChange'' = JUndef" "no_steps r"
    "length (affix r ''deinflected'') \<le> length (affix r ''inflected'')"
    "length (affix r ''deinflectedPrefix'') + length (affix r ''deinflectedSuffix'') \<le>
      length (affix r ''inflectedPrefix'') + length (affix r ''inflectedSuffix'')"
    using assms by (simp_all add: never_longer_def Let_def r_def del: js_simps)
  have letters: "set (affix r ''deinflected'') \<subseteq> rule_letters c" "set (affix r ''deinflectedPrefix'') \<subseteq> rule_letters c"
    "set (affix r ''deinflectedSuffix'') \<subseteq> rule_letters c"
    by (auto simp: rule_letters_def r_def)
  note plain = finish_plain [OF c(3)] finish_stem_plain [OF c(3,2)]
  consider "type_of r = js ''suffix''" | "type_of r = js ''prefix''" | "type_of r = js ''wholeWord''" | "type_of r = js ''circumfix''"
    using c(1) by auto
  then show ?thesis
  proof cases
    case 1
    let ?stem = "JS_Prelude.slice t 0 (length t - length (affix r ''inflected''))"
    have "length (?stem @ affix r ''deinflected'') \<le> length t" if "ends_with t (affix r ''inflected'')"
      using c(4) that slice_facts(2) [of t 0 "length t - length (affix r ''inflected'')"] by (auto simp: ends_with_iff)
    then show ?thesis using 1 plain(2) letters(1)
      by (auto simp: apply_compiled_def Let_def r_def [symmetric] simp del: js_simps dest: slice_facts(1) [THEN subsetD])
  next
    case 2
    then show ?thesis using plain(2) letters(1) c(4) set_drop_subset [of _ t]
      by (auto simp: apply_compiled_def Let_def r_def [symmetric] js_eq_iff starts_with_iff simp del: js_simps)
  next
    case 3
    then show ?thesis using plain(1) letters(1) c(4)
      by (auto simp: apply_compiled_def Let_def r_def [symmetric] js_eq_iff simp del: js_simps)
  next
    case 4
    let ?p = "affix r ''inflectedPrefix''" and ?q = "affix r ''inflectedSuffix''"
    let ?stem = "JS_Prelude.slice t (length ?p) (length t - length ?q)"
    have "length (affix r ''deinflectedPrefix'' @ ?stem @ affix r ''deinflectedSuffix'') \<le> length t" if "length ?p + length ?q \<le> length t"
      using c(5) that slice_facts(2) [of t "length ?p" "length t - length ?q"] by auto
    then show ?thesis using 4 plain(2) letters(2,3)
      by (auto simp: apply_compiled_def Let_def r_def [symmetric] js_eq_iff simp del: js_simps dest: slice_facts(1) [THEN subsetD])
  qed
qed

text \<open>C2: On a pack whose rules write no longer texts than they read, the search of every text returns once the stack is deep
  enough, although rules may undo one another.\<close>

theorem deinflect_returns:
  assumes "\<forall>c\<in>set (md_rules md). never_longer c"
  shows "\<exists>depth. \<forall>n. \<exists>rs. deinflect (depth + n) md s = Inr rs"
proof -
  define A where "A = set s \<union> (\<Union>c\<in>set (md_rules md). rule_letters c)"
  define T where "T = {t. set t \<subseteq> A \<and> length t \<le> length s}"
  have "finite A" unfolding A_def rule_letters_def by simp
  then have T: "finite T" unfolding T_def by (rule finite_lists_length_le)
  have "\<exists>out. apply_compiled md c t = Inr out \<and> set_option out \<subseteq> T" if t: "t \<in> T" and c: "c \<in> set (md_rules md)" for t c
  proof -
    obtain out where out: "apply_compiled md c t = Inr out" "\<forall>t'\<in>set_option out. length t' \<le> length t \<and> set t' \<subseteq> set t \<union> rule_letters c"
      using apply_never_longer assms c by blast
    have "rule_letters c \<subseteq> A" using c by (auto simp: A_def)
    then have "set_option out \<subseteq> T" using out(2) t unfolding T_def by fastforce
    then show ?thesis using out(1) by blast
  qed
  note returns = visit_returns [OF T this refl]
  have "\<exists>rs. deinflect (Suc (card (cr_order ` set (md_rules md) \<times> T)) + n) md s = Inr rs" for n
    unfolding deinflect_def by (rule returns) (auto simp: T_def A_def)
  then show ?thesis by blast
qed

section \<open>The models the constructor makes\<close>

lemma new_model_numbered:
  assumes "new_model env found cs chars enabled transforms = Inr md"
  shows "numbered md"
proof -
  let ?P = "\<lambda>rules. map cr_order rules = [0..<length rules]"
  have rule: "?P (rules @ [c])" if "?P rules" "compile_rule env cs fl wl i (length rules) r = Inr c" for rules c fl wl i r
  proof -
    have "cr_order c = length rules"
      using that(2) unfolding compile_rule_def by (auto simp: bindE_Inr_iff simp del: js_simps split: if_splits)
    then show ?thesis using that(1) by simp
  qed
  have json: "?P rules'" if run: "compile_json env cs fl wl i rules v = Inr rules'" and ok: "?P rules" for fl wl i rules v rules'
  proof -
    obtain rs where rs: "foldE (compile_expanded env cs fl wl i) rules rs = Inr rules'"
      using run by (auto simp: compile_json_def bindE_Inr_iff split: if_splits)
    show ?thesis by (rule foldE_invariant [where P = ?P, OF rs ok]) (auto simp: compile_expanded_def bindE_Inr_iff intro: rule)
  qed
  have transform: "?P rules'" if "compile_transform env cs fl wl enabled rules t = Inr rules'" "?P rules" for fl wl rules t rules'
  proof (cases "foldE (compile_json env cs fl wl (to_js (obj_get t (js ''id'')))) rules (list_of (or_else (obj_get t (js ''rules'')) (JArr []))) = Inr rules'")
    case True
    show ?thesis by (rule foldE_invariant [where P = ?P, OF True that(2)]) (rule json)
  next
    case False
    then show ?thesis using that by (auto simp: compile_transform_def bindE_Inr_iff simp del: js_simps split: if_splits)
  qed
  obtain fl wl ts rules where rules: "foldE (compile_transform env cs fl wl enabled) [] ts = Inr rules" "md_rules md = rules"
    using assms by (auto simp: new_model_def bindE_Inr_iff simp del: js_simps split: if_splits)
  have "?P rules" by (rule foldE_invariant [where P = ?P, OF rules(1)]) (simp, rule transform)
  then show ?thesis by (simp add: numbered_def rules(2))
qed

text \<open>C1: The texts and conditions the search records are exactly those some chain of rules derives from the text, each rule
  applied where the conditions of the one before let it: cutting a rule that is applied to the same text again in a chain
  loses none. The trace of each is a derivation of it.\<close>

theorem deinflect_complete:
  assumes md: "new_model env found cs chars enabled transforms = Inr md" and run: "deinflect n md s = Inr rs"
  shows "(\<lambda>x. (dn_text x, dn_conditions x)) ` set rs = {(t, bits). t \<noteq> [] \<and> (\<exists>trace. derives md s t bits trace)} \<and>
    (\<forall>x\<in>set rs. derives md s (dn_text x) (dn_conditions x) (dn_trace x))"
proof -
  have sound: "\<forall>x\<in>set rs. dn_text x \<noteq> [] \<and> derives md s (dn_text x) (dn_conditions x) (dn_trace x)"
    using visit_sound(1) [OF run [unfolded deinflect_def] derives.start] .
  have "\<exists>x\<in>set rs. dn_text x = t \<and> dn_conditions x = bits" if t: "t \<noteq> []" "derives md s t bits trace" for t bits trace
  proof -
    obtain ks where "walk (model_step md) (s, 0) ks (t, bits)" using derives_walk [OF t(2) new_model_numbered [OF md]] by blast
    then obtain ks' where ks': "walk (model_step md) (s, 0) ks' (t, bits)" "distinct ks'" using search.walk_distinct by blast
    show ?thesis by (rule visit_complete [OF run [unfolded deinflect_def] ks']) (use t in simp_all)
  qed
  then have "(t, bits) \<in> (\<lambda>x. (dn_text x, dn_conditions x)) ` set rs" if "t \<noteq> []" "derives md s t bits trace" for t bits trace
    using that by force
  then show ?thesis using sound by auto
qed

section \<open>The bits of the conditions\<close>

text \<open>The leaves a condition stands for.\<close>

inductive part_of :: "(jstr \<times> json) list \<Rightarrow> jstr \<Rightarrow> jstr \<Rightarrow> bool" for conds where
  leaf: "map_of conds name = Some c \<Longrightarrow> is_leaf c \<Longrightarrow> part_of conds name name"
| sub: "lookup_in conds name = Some c \<Longrightarrow> \<not> is_leaf c \<Longrightarrow> sub_names c = Inr subs \<Longrightarrow> sub \<in> set subs \<Longrightarrow> part_of conds sub l \<Longrightarrow>
    part_of conds name l"

definition leaf_names :: "(jstr \<times> json) list \<Rightarrow> jstr list" where
  "leaf_names conds = map fst (filter (\<lambda>(name, c). is_leaf c) conds)"

definition stands_for :: "(jstr \<times> json) list \<Rightarrow> jstr list \<Rightarrow> 32 word \<Rightarrow> (jstr \<Rightarrow> bool) \<Rightarrow> bool" where
  "stands_for conds ls v P \<longleftrightarrow> (\<forall>i. bit v i \<longleftrightarrow> i < length ls \<and> P (ls ! i))"

definition flags_ok :: "(jstr \<times> json) list \<Rightarrow> jstr list \<Rightarrow> flags \<Rightarrow> bool" where
  "flags_ok conds ls fl \<longleftrightarrow> (\<forall>name v. map_of fl name = Some v \<longrightarrow> stands_for conds ls v (part_of conds name))"

lemma stands_for_or:
  "stands_for conds ls v P \<Longrightarrow> stands_for conds ls w Q \<Longrightarrow> stands_for conds ls (or v w) (\<lambda>l. P l \<or> Q l)"
  by (auto simp: stands_for_def bit_or_iff)

lemma stands_for_cong: "stands_for conds ls v P \<Longrightarrow> (\<And>l. P l \<longleftrightarrow> Q l) \<Longrightarrow> stands_for conds ls v Q"
  by (simp add: stands_for_def)

lemma part_of_leaf: "map_of conds name = Some c \<Longrightarrow> is_leaf c \<Longrightarrow> part_of conds name l \<longleftrightarrow> l = name"
  by (auto simp: lookup_in_def elim: part_of.cases intro: part_of.leaf)

lemma part_of_subs:
  assumes "lookup_in conds name = Some c" "\<not> is_leaf c" "sub_names c = Inr subs"
  shows "part_of conds name l \<longleftrightarrow> (\<exists>sub\<in>set subs. part_of conds sub l)"
proof
  assume "part_of conds name l"
  then show "\<exists>sub\<in>set subs. part_of conds sub l"
  proof cases
    case (leaf c)
    then show ?thesis using assms by (simp add: lookup_in_def)
  next
    case (sub c subs' sub)
    then show ?thesis using assms by auto
  qed
qed (use assms in \<open>auto intro: part_of.sub\<close>)

lemma leaf_flags:
  assumes "foldE leaf_step (fl, ls) conds = Inr (fl', ls')" "distinct (map fst conds)" "\<forall>k\<in>fst ` set conds. map_of fl k = None"
    and "length ls \<le> 32" "distinct ls"
    and "\<And>n v. map_of fl n = Some v \<longleftrightarrow> (\<exists>i<length ls. ls ! i = n \<and> v = push_bit i 1)"
  shows "ls' = ls @ leaf_names conds \<and> length ls' \<le> 32 \<and> distinct ls' \<and>
    (\<forall>n v. map_of fl' n = Some v \<longleftrightarrow> (\<exists>i<length ls'. ls' ! i = n \<and> v = push_bit i 1))"
  using assms
proof (induction conds arbitrary: fl ls)
  case Nil
  then show ?case by (simp add: leaf_names_def)
next
  case (Cons e conds)
  obtain name c where e: "e = (name, c)" by (cases e)
  show ?case
  proof (cases "is_leaf c")
    case False
    then have "foldE leaf_step (fl, ls) conds = Inr (fl', ls')"
      using Cons.prems(1) by (auto simp: e leaf_step_def split: if_splits)
    then have ih: "ls' = ls @ leaf_names conds \<and> length ls' \<le> 32 \<and> distinct ls' \<and>
        (\<forall>n v. map_of fl' n = Some v \<longleftrightarrow> (\<exists>i<length ls'. ls' ! i = n \<and> v = push_bit i 1))"
      by (rule Cons.IH) (use Cons.prems(2-6) in \<open>auto simp: e\<close>)
    have names: "leaf_names (e # conds) = leaf_names conds" using False by (simp add: e leaf_names_def)
    show ?thesis unfolding names by (rule ih)
  next
    case True
    let ?fl = "om_set name (push_bit (length ls) 1) fl" and ?ls = "ls @ [name]"
    have run: "foldE leaf_step (?fl, ?ls) conds = Inr (fl', ls')" "length ls < 32"
      using Cons.prems(1) True by (auto simp: e leaf_step_def split: if_splits)
    have "map_of fl name = None" using Cons.prems(3) by (simp add: e)
    then have new: "map_of fl name = None" "name \<notin> set ls" using Cons.prems(6) [of name] by (auto simp: in_set_conv_nth)
    have "(map_of ?fl n = Some v) \<longleftrightarrow> (\<exists>i<length ?ls. ?ls ! i = n \<and> v = push_bit i 1)" for n v
      using Cons.prems(6) [of n v] new by (auto simp: nth_append less_Suc_eq in_set_conv_nth)
    moreover have "\<forall>k\<in>fst ` set conds. map_of ?fl k = None" using Cons.prems(2,3) by (auto simp: e)
    moreover have "distinct (map fst conds)" "length ?ls \<le> 32" "distinct ?ls" using Cons.prems(2,5) new(2) run(2) by auto
    ultimately have ih: "ls' = ?ls @ leaf_names conds \<and> length ls' \<le> 32 \<and> distinct ls' \<and>
        (\<forall>n v. map_of fl' n = Some v \<longleftrightarrow> (\<exists>i<length ls'. ls' ! i = n \<and> v = push_bit i 1))"
      by (intro Cons.IH [OF run(1)]) blast+
    have names: "ls @ leaf_names (e # conds) = ?ls @ leaf_names conds" using True by (simp add: e leaf_names_def)
    show ?thesis unfolding names by (rule ih)
  qed
qed

lemma leaf_flags_ok:
  assumes fl: "\<And>n v. map_of fl n = Some v \<longleftrightarrow> (\<exists>i<length ls. ls ! i = n \<and> v = push_bit i 1)"
    and ls: "ls = leaf_names conds" "length ls \<le> 32" "distinct ls" "distinct (map fst conds)"
  shows "flags_ok conds ls fl"
  unfolding flags_ok_def
proof (intro allI impI)
  fix name v assume "map_of fl name = Some v"
  then obtain i where i: "i < length ls" "ls ! i = name" "v = push_bit i 1" using fl by blast
  then have "name \<in> set (leaf_names conds)" using ls(1) nth_mem by blast
  then obtain c where "(name, c) \<in> set conds" "is_leaf c" by (auto simp: leaf_names_def)
  then have part: "part_of conds name l \<longleftrightarrow> l = name" for l using part_of_leaf ls(4) by simp
  have bits: "bit v j \<longleftrightarrow> j = i" for j using i(1,3) ls(2) by (auto simp: bit_exp_iff possible_bit_word)
  have "j < length ls \<and> ls ! j = name \<longleftrightarrow> j = i" for j using nth_eq_iff_index_eq [OF ls(3), of j i] i(1,2) by auto
  then show "stands_for conds ls v (part_of conds name)" unfolding stands_for_def part bits by blast
qed

lemma resolve_ok:
  "resolve n conds resolving name fl = Inr (v, fl') \<Longrightarrow> flags_ok conds ls fl \<Longrightarrow>
    flags_ok conds ls fl' \<and> stands_for conds ls v (part_of conds name) \<and> map_of fl' name = Some v \<and> dom (map_of fl) \<subseteq> dom (map_of fl')"
  "resolve_subs n conds resolving subs v0 fl = Inr (v, fl') \<Longrightarrow> flags_ok conds ls fl \<Longrightarrow> stands_for conds ls v0 P \<Longrightarrow>
    flags_ok conds ls fl' \<and> stands_for conds ls v (\<lambda>l. P l \<or> (\<exists>sub\<in>set subs. part_of conds sub l)) \<and> dom (map_of fl) \<subseteq> dom (map_of fl')"
proof (induction n conds resolving name fl and n conds resolving subs v0 fl arbitrary: v fl' and v fl' P rule: resolve_resolve_subs.induct)
  case (1 conds resolving name fl)
  then show ?case by (auto simp: flags_ok_def split: option.splits)
next
  case (2 n conds resolving name fl)
  show ?case
  proof (cases "map_of fl name")
    case (Some w)
    then show ?thesis using 2 by (auto simp: flags_ok_def)
  next
    case None
    obtain c where c: "lookup_in conds name = Some c" using "2.prems"(1) None by (auto split: option.splits)
    have new: "name \<notin> set resolving" using "2.prems"(1) None c by (auto split: if_splits)
    obtain subs fl1 where subs: "sub_names c = Inr subs" "resolve_subs n conds (name # resolving) subs 0 fl = Inr (v, fl1)"
      "fl' = om_set name v fl1"
      using "2.prems"(1) None c new by (auto simp: bindE_Inr_iff)
    have "\<not> is_leaf c" using subs(1) by (auto simp: sub_names_def is_leaf_def iter_values_def simp del: js_simps)
    note part = part_of_subs [OF c this subs(1)]
    have zero: "stands_for conds ls 0 (\<lambda>l. False)" by (simp add: stands_for_def)
    have ih: "flags_ok conds ls fl1 \<and> stands_for conds ls v (\<lambda>l. False \<or> (\<exists>sub\<in>set subs. part_of conds sub l)) \<and> dom (map_of fl) \<subseteq> dom (map_of fl1)"
      by (rule "2.IH" [OF None c new subs(1,2) "2.prems"(2) zero])
    have v: "stands_for conds ls v (part_of conds name)"
      by (rule stands_for_cong [OF conjunct1 [OF conjunct2 [OF ih]]]) (simp add: part)
    have "flags_ok conds ls fl'" using ih v by (auto simp: flags_ok_def subs(3))
    then show ?thesis using v ih by (auto simp: subs(3))
  qed
next
  case (3 n conds resolving v0 fl)
  then show ?case by auto
next
  case (4 n conds resolving sub subs v0 fl)
  obtain w fl1 where w: "resolve n conds resolving sub fl = Inr (w, fl1)" "resolve_subs n conds resolving subs (or v0 w) fl1 = Inr (v, fl')"
    using "4.prems"(1) by (auto simp: bindE_Inr_iff)
  have ih: "flags_ok conds ls fl1" "stands_for conds ls w (part_of conds sub)" "dom (map_of fl) \<subseteq> dom (map_of fl1)"
    using "4.IH"(1) [OF w(1) "4.prems"(2)] by auto
  have "flags_ok conds ls fl' \<and> stands_for conds ls v (\<lambda>l. (P l \<or> part_of conds sub l) \<or> (\<exists>sub\<in>set subs. part_of conds sub l)) \<and>
      dom (map_of fl1) \<subseteq> dom (map_of fl')"
    by (rule "4.IH"(2) [OF w(1) _ w(2) ih(1) stands_for_or [OF "4.prems"(3) ih(2)]]) simp
  then have "flags_ok conds ls fl'" "dom (map_of fl) \<subseteq> dom (map_of fl')"
    "stands_for conds ls v (\<lambda>l. P l \<or> (\<exists>sub\<in>set (sub # subs). part_of conds sub l))"
    using order_trans [OF ih(3)] by (auto simp: stands_for_def)
  then show ?case by blast
qed

text \<open>C3: The flags of a condition are, in 32 bits, exactly the bits of the leaves it stands for, directly or through its
  subconditions, the leaves being numbered in the order of the file; there are never more than 32.\<close>

theorem condition_bits:
  assumes run: "conditionFlags conds = Inr (fl, ls)" and keys: "distinct (map fst conds)"
  shows "ls = leaf_names conds \<and> length ls \<le> 32 \<and>
    (\<forall>name\<in>fst ` set conds. \<exists>v. map_of fl name = Some v \<and> (\<forall>i. bit v i \<longleftrightarrow> i < length ls \<and> part_of conds name (ls ! i)))"
proof -
  obtain fl0 where fl0: "foldE leaf_step ([], []) conds = Inr (fl0, ls)" "resolve_all (Suc (length conds)) conds fl0 = Inr fl"
    using run by (auto simp: conditionFlags_def bindE_Inr_iff)
  have leaf: "ls = [] @ leaf_names conds \<and> length ls \<le> 32 \<and> distinct ls \<and>
      (\<forall>n v. map_of fl0 n = Some v \<longleftrightarrow> (\<exists>i<length ls. ls ! i = n \<and> v = push_bit i 1))"
    by (rule leaf_flags [OF fl0(1) keys]) simp_all
  have ok0: "flags_ok conds ls fl0"
    by (rule leaf_flags_ok) (use leaf keys in \<open>blast | simp\<close>)+
  have steps: "flags_ok conds ls fl' \<and> set names \<subseteq> dom (map_of fl') \<and> dom (map_of f) \<subseteq> dom (map_of fl')"
    if "foldE (\<lambda>fl name. bindE (resolve n conds [] name fl) (\<lambda>(v, fl'). Inr fl')) f names = Inr fl'" "flags_ok conds ls f" for n names f fl'
    using that
  proof (induction names arbitrary: f)
    case (Cons name names)
    obtain v f1 where f1: "resolve n conds [] name f = Inr (v, f1)"
      "foldE (\<lambda>fl name. bindE (resolve n conds [] name fl) (\<lambda>(v, fl'). Inr fl')) f1 names = Inr fl'"
      using Cons.prems(1) by (auto simp: bindE_Inr_iff)
    have one: "flags_ok conds ls f1" "map_of f1 name = Some v" "dom (map_of f) \<subseteq> dom (map_of f1)"
      using resolve_ok(1) [OF f1(1) Cons.prems(2)] by auto
    have rest: "flags_ok conds ls fl' \<and> set names \<subseteq> dom (map_of fl') \<and> dom (map_of f1) \<subseteq> dom (map_of fl')"
      by (rule Cons.IH [OF f1(2) one(1)])
    have "name \<in> dom (map_of fl')" using one(2) rest by blast
    then show ?case unfolding list.set insert_subset using rest one(3) by blast
  qed simp
  have all: "flags_ok conds ls fl" "fst ` set conds \<subseteq> dom (map_of fl)"
    using steps [OF fl0(2) [unfolded resolve_all_def] ok0] by (simp_all only: set_map)
  have "\<exists>v. map_of fl name = Some v \<and> stands_for conds ls v (part_of conds name)" if "name \<in> fst ` set conds" for name
  proof -
    have "name \<in> dom (map_of fl)" using that all(2) by (rule rev_subsetD)
    then show ?thesis using all(1) unfolding flags_ok_def by blast
  qed
  then have "\<forall>name\<in>fst ` set conds. \<exists>v. map_of fl name = Some v \<and> (\<forall>i. bit v i \<longleftrightarrow> i < length ls \<and> part_of conds name (ls ! i))"
    unfolding stands_for_def by blast
  moreover have "ls = leaf_names conds" using conjunct1 [OF leaf] by simp
  ultimately show ?thesis using leaf by blast
qed

section \<open>Literal rules\<close>

text \<open>A rule with literal affixes and neither \<open>stemChange\<close> nor \<open>then\<close> is applied as the splitting of the Esperanto rules
  assumes (\<open>split_stems_exact\<close> and \<open>same_deinflection_repeats\<close> hold of the rules of a model).\<close>

lemma apply_compiled_literal:
  assumes "rule_field (cr_rule c) ''type'' \<in> JStr ` js ` {''suffix'', ''prefix'', ''wholeWord'', ''circumfix''}"
    and "no_steps (cr_rule c)" "rule_field (cr_rule c) ''stemChange'' = JUndef"
  shows "apply_compiled md c s = Inr (apply_rule (class_of md) (cr_rule c) s)"
proof -
  note plain = finish_plain [OF assms(2)] finish_stem_plain [OF assms(2,3)]
  consider "rule_field (cr_rule c) ''type'' = JStr (js ''suffix'')" | "rule_field (cr_rule c) ''type'' = JStr (js ''prefix'')"
    | "rule_field (cr_rule c) ''type'' = JStr (js ''wholeWord'')" | "rule_field (cr_rule c) ''type'' = JStr (js ''circumfix'')"
    using assms(1) by blast
  then show ?thesis
    by cases (simp_all add: apply_compiled_def apply_rule_def Let_def type_of_def js_eq_iff plain del: js_simps)
qed

section \<open>Examples\<close>

definition no_classes :: class_set where
  "no_classes = \<lparr>cs_definitions = [], cs_expansions = []\<rparr>"

definition literal_rule :: "string \<Rightarrow> string \<Rightarrow> string list \<Rightarrow> json" where
  "literal_rule i d out = JObj [(js ''type'', JStr (js ''suffix'')), (js ''inflected'', JStr (js i)), (js ''deinflected'', JStr (js d)),
     (js ''conditionsIn'', JArr []), (js ''conditionsOut'', strings out)]"

definition small_pack :: "json list \<Rightarrow> json" where
  "small_pack rules = JObj
     [(js ''conditions'', JObj [(js ''n'', JObj [(js ''subConditions'', strings [''np'', ''ns''])]), (js ''np'', JObj []), (js ''ns'', JObj [])]),
      (js ''transforms'', JArr [JObj [(js ''id'', JStr (js ''t'')), (js ''rules'', JArr rules)]])]"

text \<open>A rule that undoes another: the cycle is cut.\<close>

definition back_and_forth :: json where
  "back_and_forth = small_pack [literal_rule ''b'' [] [], literal_rule ''a'' ''ab'' []]"

lemma back_and_forth_run:
  "(case new_model ex_env (\<lambda>p t. False) no_classes None [] back_and_forth of
      Inr md \<Rightarrow> (case deinflect 9 md (js ''ab'') of Inr rs \<Rightarrow> map dn_text rs = [js ''ab'', js ''a'', js ''ab''] | _ \<Rightarrow> False) | _ \<Rightarrow> False)"
  by code_simp

lemma case_Inr: "(case x of Inr y \<Rightarrow> P y | Inl e \<Rightarrow> False) \<Longrightarrow> \<exists>y. x = Inr y \<and> P y"
  by (cases x) auto

theorem deinflect_complete_witness:
  "\<exists>md rs. new_model ex_env (\<lambda>p t. False) no_classes None [] back_and_forth = Inr md \<and> deinflect 9 md (js ''ab'') = Inr rs \<and>
    map dn_text rs = [js ''ab'', js ''a'', js ''ab''] \<and>
    (\<lambda>x. (dn_text x, dn_conditions x)) ` set rs = {(t, bits). t \<noteq> [] \<and> (\<exists>trace. derives md (js ''ab'') t bits trace)}"
proof -
  obtain md where md: "new_model ex_env (\<lambda>p t. False) no_classes None [] back_and_forth = Inr md"
    "case deinflect 9 md (js ''ab'') of Inr rs \<Rightarrow> map dn_text rs = [js ''ab'', js ''a'', js ''ab''] | _ \<Rightarrow> False"
    using case_Inr [OF back_and_forth_run] by (elim exE conjE)
  obtain rs where rs: "deinflect 9 md (js ''ab'') = Inr rs" "map dn_text rs = [js ''ab'', js ''a'', js ''ab'']"
    using case_Inr [OF md(2)] by (elim exE conjE)
  show ?thesis
    by (intro exI conjI) (rule md(1) rs(1) rs(2) conjunct1 [OF deinflect_complete [OF md(1) rs(1)]])+
qed

definition plurals :: json where
  "plurals = small_pack [literal_rule ''s'' [] [''n''], literal_rule ''ies'' ''y'' [''ns'']]"

lemma plurals_model:
  "(case new_model ex_env (\<lambda>p t. False) no_classes None [] plurals of
      Inr md \<Rightarrow> list_all never_longer (md_rules md) \<and> length (md_rules md) = 2 | _ \<Rightarrow> False)"
  by code_simp

theorem deinflect_returns_witness:
  "\<exists>md. new_model ex_env (\<lambda>p t. False) no_classes None [] plurals = Inr md \<and> length (md_rules md) = 2 \<and>
    (\<exists>depth. \<forall>n. \<exists>rs. deinflect (depth + n) md (js ''ladies'') = Inr rs)"
proof -
  obtain md where md: "new_model ex_env (\<lambda>p t. False) no_classes None [] plurals = Inr md" "list_all never_longer (md_rules md)"
    "length (md_rules md) = 2"
    using case_Inr [OF plurals_model] by (elim exE conjE)
  have "\<exists>depth. \<forall>n. \<exists>rs. deinflect (depth + n) md (js ''ladies'') = Inr rs"
    by (rule deinflect_returns) (use md(2) in \<open>simp add: list_all_iff\<close>)
  then show ?thesis using md(1,3) by blast
qed

definition noun_conditions :: "(jstr \<times> json) list" where
  "noun_conditions = object_entries (obj_get plurals (js ''conditions''))"

lemma noun_flags: "\<not> isl (conditionFlags noun_conditions)" "distinct (map fst noun_conditions)" "js ''n'' \<in> fst ` set noun_conditions"
  by code_simp+

theorem condition_bits_witness:
  "\<exists>fl ls v. conditionFlags noun_conditions = Inr (fl, ls) \<and> map_of fl (js ''n'') = Some v \<and>
    (\<forall>i. bit v i \<longleftrightarrow> i < length ls \<and> part_of noun_conditions (js ''n'') (ls ! i))"
proof -
  obtain fl ls where run: "conditionFlags noun_conditions = Inr (fl, ls)"
    using noun_flags(1) by (cases "conditionFlags noun_conditions") auto
  show ?thesis using condition_bits [OF run noun_flags(2)] noun_flags(3) run by blast
qed

section \<open>Rules that make new texts for ever\<close>

text \<open>docs/languages.md 7.4 bounds the growth of a text and the depth of a chain. The model bounds neither: with a rule that
  only makes its text longer, the search ends with the stack, whatever its depth.\<close>

definition growing :: compiled where
  "growing = \<lparr>cr_rule = object_entries (literal_rule ''a'' ''aa'' []), cr_id = js ''t'', cr_in = 0, cr_out = 0, cr_order = 0,
     cr_source = [], cr_list = [], cr_particles = [], cr_guards = [], cr_verbs = None\<rparr>"

lemma growing_rule:
  "type_of (cr_rule growing) = js ''suffix''" "affix (cr_rule growing) ''inflected'' = [97]" "affix (cr_rule growing) ''deinflected'' = [97, 97]"
  "no_steps (cr_rule growing)" "rule_field (cr_rule growing) ''stemChange'' = JUndef"
  "list_all (\<lambda>k. rule_field (cr_rule growing) k = JUndef) (''stemCharacters'' # ''stemContains'' # ''stemStartsWith'' # stem_fields)"
  by code_simp+

lemma growing_end: "ends_with (replicate (Suc k) 97) [97]"
proof -
  have "replicate (Suc k) (97 :: int) = replicate k 97 @ [97]" by (simp add: replicate_append_same)
  then show ?thesis by (simp only: ends_with_append)
qed

lemma growing_step: "apply_compiled md growing (replicate (Suc k) 97) = Inr (Some (replicate (Suc (Suc k)) 97))"
proof -
  have "stem_ok m (cr_rule growing) stem" for m stem using no_constraints growing_rule(6) by blast
  moreover have "ends_with (replicate (Suc k) 97) [97]" by (rule growing_end)
  moreover have "JS_Prelude.slice (replicate (Suc k) 97) 0 k = replicate k 97" by (simp add: JS_Prelude.slice_def del: replicate_Suc)
  ultimately show ?thesis
    by (simp add: apply_compiled_def growing_rule(1-3) finish_stem_plain [OF growing_rule(4,5)] replicate_app_Cons_same del: js_simps)
qed

lemma growing_candidates: "md_rules md = [growing] \<Longrightarrow> candidates md (replicate (Suc k) 97) = [growing]"
proof -
  assume md: "md_rules md = [growing]"
  have "ends_with (replicate (Suc k) 97) [97]" by (rule growing_end)
  then have "bucket_of (cr_rule growing) (replicate (Suc k) 97) = Some (Suffixed 1)"
    by (simp add: bucket_of_def growing_rule(1,2) del: replicate_Suc)
  then show ?thesis using md
    by (simp add: candidates_def matched_def rest_rules_def map_filter_simps suffixed_def prefixed_def phrased_def del: replicate_Suc)
qed

lemma search_grows:
  assumes md: "md_rules md = [growing]"
  shows "deinflect n md (js ''a'') = Inl MeDepth"
proof -
  have "visit n md (replicate (Suc k) 97) 0 trace frames = Inl MeDepth" if "\<forall>f\<in>set frames. length (snd f) \<le> k" for k trace frames
    using that
  proof (induction n arbitrary: k trace frames)
    case (Suc n)
    have "(cr_order growing, replicate (Suc k) 97) \<notin> set frames" using Suc.prems by force
    moreover have "visit n md (replicate (Suc (Suc k)) 97) 0 (cr_id growing # trace) (frames @ [(cr_order growing, replicate (Suc k) 97)]) = Inl MeDepth"
      by (rule Suc.IH) (use Suc.prems in auto)
    moreover have "cr_out growing = 0" by (simp add: growing_def)
    ultimately show ?case
      using growing_step [of md k] growing_candidates [OF md, of k] by (simp add: passes_def del: replicate_Suc) 
  qed simp
  from this [of "[]" 0 "[]"] show ?thesis by (simp add: deinflect_def)
qed
end
