(* ===== verification/Spec2Isabelle.thy ===== *)
theory Spec2Isabelle
  imports Check_Classes_Correct Port_Transforms_Correct Port_Tests_Correct Check_Yomitan_Correct Greek_Correct Case_Tables Yomitan_Libs_Correct Own_Full_Correct Final_Rules_Correct Pack_Deinflector_Correct
begin

text \<open>
  Verification of the JavaScript tools of hoshidicts language packs.

  hoshidicts looks words up in dictionaries. A language pack (languages/<code>) tells it how: language.json has character
  classes, text processors and settings; transforms.json has the rules that take an inflected text back to headwords;
  tests/*.tsv and tests/classes.json have the cases a pack must pass. The engine that reads packs is C++. The tools that
  write, merge, port and check packs are JavaScript (tools/*.mjs, tools/lib/*.mjs and the generators under
  languages/<code>/sources/*.mjs), and they are what this development models, with the JavaScript model of the engine's
  deinflector that their tests run against.

  How the parts interact. The class and pattern syntax (tools/lib/classes.mjs) is what every field of a pack that names
  characters is written in; text steps (tools/lib/steps.mjs) and rules use it. tools/lib/pack.mjs reads a pack with it, and
  tools/check-classes.mjs writes the ranges every class denotes, with the texts the processors give, into tests/classes.json,
  which the engine's tests read. tools/port-yomitan-transforms.mjs and tools/port-yomitan-tests.mjs turn the rules and tests
  of a Yomitan checkout (read by tools/lib/yomitan.mjs, built by tools/yomitan-libs/build.mjs) into sources/yomitan.json and
  tests/yomitan.tsv. A generator of the pack writes sources/own.json; tools/merge-transforms.mjs or the pack's
  build-final.mjs joins the two into transforms.json. tools/check-yomitan.mjs compares the results of a pack with Yomitan's.

  Values. A JavaScript string is the list of its UTF-16 units (\<open>jstr\<close>); \<open>js\<close> is an ASCII text, \<open>eo\<close> and \<open>gk\<close> write
  Esperanto and Greek texts. A JSON value is the datatype \<open>json\<close>, an object its entries in order, with \<open>JUndef\<close> for a field
  that is not there; numbers are integers. Whatever the code throws is \<open>Inl\<close> of an error of the component, so that every
  check and early exit is a branch of the model; \<open>bindE\<close>, \<open>mapE\<close> and \<open>foldE\<close> sequence such results in the order of the code.
  A Map or Set is an association list or list in insertion order. A file system is a partial map from paths to texts, passed
  through the commands that write.

  The theories, by component (each opens with what it holds):

  \<^item> JS_Prelude, Json, Js_Value: the part of JavaScript the tools use, and tools/lib/json.mjs. What is written by
    \<open>formatJson\<close> and \<open>formatTransforms\<close> is read back by \<open>parseJson\<close> (\<open>parseJson_formatJson\<close>).
  \<^item> Class_Syntax, Ranges, Bracket, Class_Set, Patterns: tools/lib/classes.mjs. \<open>parseClass\<close> keeps the text of a class;
    \<open>new ClassSet\<close> accepts exactly the definitions without an undefined reference or a cycle, and its errors name one; the
    expression \<open>source\<close> gives is accepted by JavaScript and matches exactly what the class denotes with its references
    resolved, a meaning defined apart from the code by the inductive relation \<open>denotes_name\<close>; \<open>ranges\<close> is the canonical
    list of the same code points. The pattern parser ends within its fuel, twice the length of the pattern, and its references
    are in order and in bounds.
  \<^item> Steps, Steps_Correct: tools/lib/steps.mjs. The locale \<open>longest_key\<close> is the contract of the leftmost-longest scan that
    map and alternatives steps share. Checked steps never throw; the variants \<open>processText\<close> gives are distinct, ordered,
    within the limit and have their least number of steps. A repeated pattern step makes at most 16 rounds.
  \<^item> Pack, Pack_Correct, Check_Classes, Check_Classes_Correct: tools/lib/pack.mjs and tools/check-classes.mjs. A pack whose
    expectations can be computed has processors that never throw; what is written is accepted by the next check.
  \<^item> Merge_Transforms, Canonical, Merge_Correct: tools/merge-transforms.mjs. Canonical texts are equal exactly for values
    equal up to the order of keys; pairing the rules of a shared transform is multiset intersection and difference; no rule
    is lost, and a hand-edited file is not overwritten.
  \<^item> Yomitan, Port_Transforms, Port_Transforms_Correct, Port_Tests, Port_Tests_Correct: tools/lib/yomitan.mjs and the two
    porting tools. Every rule is kept and counted; the ported test cases are read back as they were.
  \<^item> Check_Yomitan, Compare_Yomitan, Compare_Processors, Check_Yomitan_Correct: tools/check-yomitan.mjs. The comparison is a
    filter and a count, and a pack accepted without listed differences gives exactly Yomitan's results.
  \<^item> Yomitan_Libs, Yomitan_Libs_Correct: tools/yomitan-libs/build.mjs and tools/lib/cli.mjs. The build changes no file but its
    two outputs, which have the expected hashes, and only after every check.
  \<^item> Case_Tables: src/languages/generate_case_tables.mjs. The special mappings with the simple ones give JavaScript's.
  \<^item> Deinflector, Pack_Deinflector, Pack_Deinflector_Correct: tools/test/stub/model.mjs, the semantics of the rules. The
    search records exactly the derivable texts and conditions although it cuts cycles (\<open>deinflect_complete\<close>, by the locale
    \<open>keyed_steps\<close>: where the key of a step determines its end, walks need no repetition), it returns on packs whose rules
    write no longer texts, and the 32 flag bits are the leaves of the conditions. \<open>search_grows\<close> shows that, unlike the
    search docs/languages.md 7.4 describes, the model has no bound of growth or depth.
  \<^item> Eo_Stems, Eo_Own, Eo_Final with their \<open>_Correct\<close> theories: languages/eo/sources/excluded-stems.mjs, build-own.mjs and
    build-final.mjs. Splitting a rule by excluded stems is exact (the locale \<open>class_letters\<close> is what it needs of the class
    syntax, interpreted on the classes of \<open>Class_Set\<close>); the build always ends and leaves out exactly the listed stems; a
    rule marked as Yomitan's makes only what the Yomitan rule makes; the final set accounts for every transform.
  \<^item> Greek, Greek_Text, Greek_Correct: languages/grc/sources/greek.mjs. \<open>recessive\<close> places exactly one accent.
  \<^item> Own_Rules, Own_Nominal, Own_Verbs, Own_Stems, Own_Athematic, Own_Closed, Own_Clitics, Own_Output, Own_Build with
    Own_Rules_Correct, Own_Build_Correct, Own_Output_Correct, Own_Format_Correct, Own_Full_Correct:
    languages/grc/sources/own-rules.mjs, with every table. The generator always ends with every text in NFC; compacting
    changes no rule; the file written line by line is the JSON of the pack.
  \<^item> Final_Rules, Final_Output, Final_Rules_Correct: languages/grc/sources/build-final.mjs. No own rule and no Yomitan rule is
    lost.

  Fuel and bounds. Recursions of the code that are not structural have a termination proof (\<open>shrink\<close>, \<open>cover\<close>,
  \<open>coverEnding\<close>, \<open>occurrences\<close>, \<open>compareCodePoints\<close>). Where the code need not end or its depth is not syntactic, fuel is a
  parameter and running out of it a value of its own: the pattern parser (\<open>parsePattern_total\<close>: never runs out), the scan of
  keys (one unit a round, and checked steps have no empty key), the leaves of conditions (one more than there are
  conditions, since a longer chain repeats one), the flags of conditions (the same), and the search, whose fuel is the depth
  of the stack (\<open>deinflect_returns\<close> gives a depth that is enough).

  Parameters and hypotheses. What is not under src/ is a parameter: \<open>js_env\<close> has the general categories, case mappings,
  normalization forms, whether a RegExp compiles and what it replaces; \<open>normalization_laws\<close> states of the forms what Unicode
  documents (well-formed output, idempotence, decomposing a composition or a text without its accents, the marks
  of a concatenation) and \<open>ex_greek\<close> satisfies it. Yomitan's modules, its transformer, git, esbuild,
  the hash function and the command-line tool are functions given to the commands. Strings are \<open>well_paired\<close> where a theorem
  speaks of code points, which is true of every text a UTF-8 file holds.

  Not modelled: the C++ engine (src/), its bindings, the vendored code (external/), the Python measurement scripts, the
  scripts that measure a WebAssembly build or rebuild a corpus (input and output around library calls, with no logic of the
  packs), the generators of the languages other than Ancient Greek and Esperanto, which are tables and loops of the same
  kind, build-guards.mjs of Esperanto, which asks the engine, the stub sources and hook registration of
  tools/lib/yomitan.mjs, and the tests.
\<close>

end
